(* ===== verification/Prelude.thy ===== *)
theory Prelude
  imports Main "HOL-Library.Word" "HOL-Library.Finite_Map" "HOL-Library.List_Lexorder"
begin

text \<open>
  Shared vocabulary of the development: the machine integers of the Rust sources, the outcome
  of a fallible call (a value, an error, or a panic), arithmetic whose overflow behaviour
  depends on the Cargo profile, and the ordered map that stands for \<^verbatim>\<open>BTreeMap\<close> together
  with the generic facts every component uses.
\<close>

section \<open>Machine integers\<close>

type_synonym u8 = "8 word"
type_synonym u32 = "32 word"
type_synonym u64 = "64 word"
type_synonym usize = "64 word"
type_synonym bytes = "u8 list"

text \<open>
  A Rust \<^verbatim>\<open>Clock\<close> reading is an input of the model: \<open>clk k\<close> is the \<open>k\<close>-th reading
  that one operation makes of \<^verbatim>\<open>current_timestamp()\<close>.
\<close>

type_synonym clock = "nat \<Rightarrow> u64"

named_theorems outcome_simps \<open>unfolding rules of fallible steps\<close>
named_theorems inv_rules \<open>preservation of component invariants\<close>

section \<open>Outcomes and build profiles\<close>

datatype ('a, 'e) outcome = Ok (ok_value: 'a) | Err (err_value: 'e) | Panic

fun is_ok :: "('a, 'e) outcome \<Rightarrow> bool" where
  "is_ok (Ok _) = True"
| "is_ok (Err _) = False"
| "is_ok Panic = False"

fun map_err :: "('e \<Rightarrow> 'f) \<Rightarrow> ('a, 'e) outcome \<Rightarrow> ('a, 'f) outcome" where
  "map_err f (Ok a) = Ok a"
| "map_err f (Err e) = Err (f e)"
| "map_err f Panic = Panic"

lemma is_ok_iff: "is_ok r \<longleftrightarrow> (\<exists>a. r = Ok a)"
  by (cases r) auto

lemma map_err_Ok_iff [simp]: "map_err f r = Ok a \<longleftrightarrow> r = Ok a"
  by (cases r) auto

text \<open>
  \<^verbatim>\<open>debug_assertions\<close> is on in the debug profile and off in the release profile; the same
  switch decides whether an overflowing \<^verbatim>\<open>+\<close>, \<^verbatim>\<open>-\<close> or \<^verbatim>\<open>*\<close> panics or wraps.
\<close>

datatype profile = Debug | Release

definition checked :: "profile \<Rightarrow> bool \<Rightarrow> 'a \<Rightarrow> ('a, 'e) outcome" where
  "checked pr fits a = (if fits \<or> pr = Release then Ok a else Panic)"

definition add_pr :: "profile \<Rightarrow> 'a::len word \<Rightarrow> 'a word \<Rightarrow> ('a word, 'e) outcome" where
  "add_pr pr a b = checked pr (unat a + unat b < 2 ^ LENGTH('a)) (a + b)"

definition sub_pr :: "profile \<Rightarrow> 'a::len word \<Rightarrow> 'a word \<Rightarrow> ('a word, 'e) outcome" where
  "sub_pr pr a b = checked pr (b \<le> a) (a - b)"

definition mul_pr :: "profile \<Rightarrow> 'a::len word \<Rightarrow> 'a word \<Rightarrow> ('a word, 'e) outcome" where
  "mul_pr pr a b = checked pr (unat a * unat b < 2 ^ LENGTH('a)) (a * b)"

definition saturating_sub :: "'a::len word \<Rightarrow> 'a word \<Rightarrow> 'a word" where
  "saturating_sub a b = (if b \<le> a then a - b else 0)"

definition saturating_add :: "'a::len word \<Rightarrow> 'a word \<Rightarrow> 'a word" where
  "saturating_add a b = (if unat a + unat b < 2 ^ LENGTH('a) then a + b else - 1)"

lemma checked_Ok_iff [simp]: "checked pr fits a = Ok b \<longleftrightarrow> (fits \<or> pr = Release) \<and> b = a"
  by (auto simp: checked_def)

lemma checked_not_Err [simp]: "checked pr fits a \<noteq> Err e"
  by (simp add: checked_def)

lemma unat_add_fits:
  fixes a b :: "'a::len word"
  shows "unat a + unat b < 2 ^ LENGTH('a) \<Longrightarrow> unat (a + b) = unat a + unat b"
  by (simp add: unat_word_ariths)

lemma unat_sub_fits:
  fixes a b :: "'a::len word"
  shows "b \<le> a \<Longrightarrow> unat (a - b) = unat a - unat b"
  by (simp add: unat_sub word_le_nat_alt)

lemma add_pr_fits:
  "unat a + unat b < 2 ^ LENGTH('a) \<Longrightarrow> add_pr pr (a :: 'a::len word) b = Ok (a + b)"
  by (simp add: add_pr_def)

lemma sub_pr_fits: "b \<le> a \<Longrightarrow> sub_pr pr a b = Ok (a - b)"
  by (simp add: sub_pr_def)

lemma unat_saturating_sub: "unat (saturating_sub a b) = unat a - unat b"
  by (auto simp: saturating_sub_def unat_sub_fits word_le_nat_alt)

lemma unat_saturating_add:
  "unat (saturating_add (a :: 'a::len word) b) = min (unat a + unat b) (2 ^ LENGTH('a) - 1)"
  by (auto simp: saturating_add_def unat_add_fits word_unat_eq_iff unsigned_minus_1_eq_mask mask_eq_exp_minus_1)

section \<open>Stateful steps\<close>

text \<open>
  A method with \<^verbatim>\<open>&mut self\<close> takes the state and returns its outcome with the new state; the
  mutations made before an error or a panic stay. \<open>bind_act\<close> is the sequencing of two such steps
  with Rust's \<^verbatim>\<open>?\<close> on the first, \<open>try_act\<close> is \<^verbatim>\<open>let _ = ...\<close>, and \<open>on_part\<close> runs a step of a
  component on the part of a larger state that holds it.
\<close>

type_synonym ('s, 'a, 'e) act = "'s \<Rightarrow> ('a, 'e) outcome \<times> 's"

definition ret :: "'a \<Rightarrow> ('s, 'a, 'e) act" where
  "ret a s = (Ok a, s)"

definition fail :: "'e \<Rightarrow> ('s, 'a, 'e) act" where
  "fail e s = (Err e, s)"

definition bind_act :: "('s, 'a, 'e) act \<Rightarrow> ('a \<Rightarrow> ('s, 'b, 'e) act) \<Rightarrow> ('s, 'b, 'e) act" where
  "bind_act m f s = (case m s of
       (Ok a, s') \<Rightarrow> f a s' | (Err e, s') \<Rightarrow> (Err e, s') | (Panic, s') \<Rightarrow> (Panic, s'))"

definition try_act :: "('s, 'a, 'f) act \<Rightarrow> ('s, unit, 'e) act" where
  "try_act m s = (case m s of (Panic, s') \<Rightarrow> (Panic, s') | (_, s') \<Rightarrow> (Ok (), s'))"

definition on_part :: "('s \<Rightarrow> 't) \<Rightarrow> ('t \<Rightarrow> 's \<Rightarrow> 's) \<Rightarrow> ('t, 'a, 'e) act \<Rightarrow> ('s, 'a, 'e) act" where
  "on_part sel upd m s = (case m (sel s) of (r, t) \<Rightarrow> (r, upd t s))"

definition update_act :: "('s \<Rightarrow> 's) \<Rightarrow> ('s, unit, 'e) act" where
  "update_act f s = (Ok (), f s)"

definition lift_outcome :: "('a, 'e) outcome \<Rightarrow> ('s, 'a, 'e) act" where
  "lift_outcome r s = (r, s)"

lemmas act_defs [outcome_simps] =
  ret_def fail_def bind_act_def try_act_def on_part_def update_act_def lift_outcome_def

lemma bind_act_Ok_iff:
  "bind_act m f s = (Ok b, t) \<longleftrightarrow> (\<exists>a u. m s = (Ok a, u) \<and> f a u = (Ok b, t))"
  by (auto simp: bind_act_def split: prod.splits outcome.splits)

section \<open>Sequences\<close>

text \<open>\<^verbatim>\<open>iter().position(p)\<close> and \<^verbatim>\<open>insert(i, x)\<close> of a deque; \<open>insert_at\<close> is used in range only.\<close>

primrec position :: "('a \<Rightarrow> bool) \<Rightarrow> 'a list \<Rightarrow> nat option" where
  "position P [] = None"
| "position P (x # xs) = (if P x then Some 0 else map_option Suc (position P xs))"

definition insert_at :: "nat \<Rightarrow> 'a \<Rightarrow> 'a list \<Rightarrow> 'a list" where
  "insert_at i x xs = take i xs @ x # drop i xs"

definition unwrap_or :: "'a \<Rightarrow> 'a option \<Rightarrow> 'a" where
  "unwrap_or d o' = (case o' of Some a \<Rightarrow> a | None \<Rightarrow> d)"

lemma unwrap_or_simps [simp]: "unwrap_or d (Some a) = a" "unwrap_or d None = d"
  by (simp_all add: unwrap_or_def)

lemma position_takeWhile:
  "unwrap_or (length xs) (position P xs) = length (takeWhile (\<lambda>x. \<not> P x) xs)"
  by (induction xs) (auto simp: unwrap_or_def split: option.splits)

lemma insert_at_takeWhile:
  "insert_at (length (takeWhile P xs)) x xs = takeWhile P xs @ x # dropWhile P xs"
  by (simp add: insert_at_def takeWhile_eq_take [symmetric] dropWhile_eq_drop [symmetric])

lemma insert_at_position:
  "insert_at (unwrap_or (length xs) (position (\<lambda>x. \<not> P x) xs)) y xs = takeWhile P xs @ y # dropWhile P xs"
  by (simp add: position_takeWhile insert_at_takeWhile)

text \<open>A list partitioned by a predicate keeps the partition when its head is taken.\<close>

lemma partitioned_tl:
  assumes "x # xs = filter P (x # xs) @ filter (\<lambda>y. \<not> P y) (x # xs)"
  shows "xs = filter P xs @ filter (\<lambda>y. \<not> P y) xs"
proof (cases "P x")
  case False
  have "filter P xs = []"
  proof (cases "filter P xs")
    case (Cons y ys)
    then have "x = y" using assms False by simp
    moreover have "P y" using Cons by (metis filter_eq_ConsD)
    ultimately show ?thesis using False by simp
  qed simp
  then show ?thesis using assms False by simp
qed (use assms in simp)

section \<open>Ordered maps\<close>

text \<open>
  \<^verbatim>\<open>std::collections::BTreeMap\<close> is a finite map whose iteration visits the keys in
  ascending order. \<open>fmap\<close> of HOL-Library.Finite-Map is the finite map; \<open>bt_keys\<close> and
  \<open>bt_entries\<close> are the iteration.
\<close>

type_synonym ('k, 'v) btree = "('k, 'v) fmap"

definition bt_keys :: "('k::linorder, 'v) btree \<Rightarrow> 'k list" where
  "bt_keys m = sorted_list_of_fset (fmdom m)"

definition bt_entries :: "('k::linorder, 'v) btree \<Rightarrow> ('k \<times> 'v) list" where
  "bt_entries m = map (\<lambda>k. (k, the (fmlookup m k))) (bt_keys m)"

definition bt_len :: "('k::linorder, 'v) btree \<Rightarrow> nat" where
  "bt_len m = length (bt_keys m)"

lemma set_bt_keys [simp]: "set (bt_keys m) = fset (fmdom m)"
  by (simp add: bt_keys_def sorted_list_of_fset.rep_eq)

lemma sorted_bt_keys [simp]: "sorted (bt_keys m)"
  by (simp add: bt_keys_def sorted_list_of_fset.rep_eq)

lemma distinct_bt_keys [simp]: "distinct (bt_keys m)"
  by (simp add: bt_keys_def sorted_list_of_fset.rep_eq)

lemma bt_keys_empty [simp]: "bt_keys fmempty = []"
  by (simp add: bt_keys_def sorted_list_of_fset.rep_eq)

lemma bt_keys_upd: "bt_keys (fmupd k v m) = insort k (remove1 k (bt_keys m))"
  by (simp add: bt_keys_def sorted_list_of_fset.rep_eq sorted_list_of_set_insert_remove
      sorted_list_of_set_remove)

lemma bt_keys_drop: "bt_keys (fmdrop k m) = remove1 k (bt_keys m)"
  by (simp add: bt_keys_def sorted_list_of_fset.rep_eq sorted_list_of_set_remove)

lemma in_bt_entries: "(k, v) \<in> set (bt_entries m) \<longleftrightarrow> fmlookup m k = Some v"
  by (force simp: bt_entries_def fmdom'_alt_def [symmetric] fmlookup_dom'_iff)

lemma map_fst_bt_entries [simp]: "map fst (bt_entries m) = bt_keys m"
  by (simp add: bt_entries_def comp_def)

lemma bt_len_upd: "bt_len (fmupd k v m) = (if k |\<in>| fmdom m then bt_len m else Suc (bt_len m))"
  by (simp add: bt_len_def bt_keys_upd length_remove1)
     (metis Suc_pred length_pos_if_in_set set_bt_keys)

lemma bt_len_drop: "bt_len (fmdrop k m) = (if k |\<in>| fmdom m then bt_len m - 1 else bt_len m)"
  by (simp add: bt_len_def bt_keys_drop length_remove1)

text \<open>\<^verbatim>\<open>entry(k).or_insert(v)\<close> and a mutation through \<^verbatim>\<open>if let Some(x) = get_mut(k)\<close>.\<close>

definition or_insert :: "'k \<Rightarrow> 'v \<Rightarrow> ('k, 'v) btree \<Rightarrow> ('k, 'v) btree" where
  "or_insert k v m = (case fmlookup m k of None \<Rightarrow> fmupd k v m | Some _ \<Rightarrow> m)"

definition bt_modify :: "'k \<Rightarrow> ('v \<Rightarrow> 'v) \<Rightarrow> ('k, 'v) btree \<Rightarrow> ('k, 'v) btree" where
  "bt_modify k f m = (case fmlookup m k of None \<Rightarrow> m | Some v \<Rightarrow> fmupd k (f v) m)"

lemma fmlookup_or_insert [simp]:
  "fmlookup (or_insert k v m) j = (if j = k then Some (unwrap_or v (fmlookup m k)) else fmlookup m j)"
  by (simp add: or_insert_def split: option.split)

lemma fmlookup_bt_modify [simp]:
  "fmlookup (bt_modify k f m) j = (if j = k then map_option f (fmlookup m k) else fmlookup m j)"
  by (simp add: bt_modify_def split: option.split)

text \<open>
  The interface a client relies on: look-up after insertion and removal, and iteration in
  key order over exactly the present keys.
\<close>

locale ordered_map =
  fixes empty :: 'm
    and get :: "'m \<Rightarrow> 'k::linorder \<Rightarrow> 'v option"
    and insert :: "'k \<Rightarrow> 'v \<Rightarrow> 'm \<Rightarrow> 'm"
    and remove :: "'k \<Rightarrow> 'm \<Rightarrow> 'm"
    and keys :: "'m \<Rightarrow> 'k list"
  assumes get_empty: "get empty k = None"
    and get_insert: "get (insert k v m) j = (if j = k then Some v else get m j)"
    and get_remove: "get (remove k m) j = (if j = k then None else get m j)"
    and keys_iff: "k \<in> set (keys m) \<longleftrightarrow> get m k \<noteq> None"
    and keys_sorted: "sorted (keys m)"
    and keys_distinct: "distinct (keys m)"
begin

definition select :: "('v \<Rightarrow> bool) \<Rightarrow> 'm \<Rightarrow> 'k list" where
  "select P m = filter (\<lambda>k. \<exists>v. get m k = Some v \<and> P v) (keys m)"

lemma select_iff: "k \<in> set (select P m) \<longleftrightarrow> (\<exists>v. get m k = Some v \<and> P v)"
  by (auto simp: select_def keys_iff)

lemma select_sorted: "sorted (select P m)"
  using sorted_filter [of "\<lambda>k. k" "keys m"] keys_sorted by (simp add: select_def)

lemma select_distinct: "distinct (select P m)"
  by (simp add: select_def keys_distinct)

lemma select_insert_other:
  "\<not> P v \<Longrightarrow> k \<notin> set (select P (insert k v m))"
  by (simp add: select_iff get_insert)

lemma keys_unique:
  assumes "\<And>k. get m k = None \<longleftrightarrow> get m' k = None"
  shows "keys m = keys m'"
proof (rule sorted_distinct_set_unique [OF keys_sorted keys_distinct keys_sorted keys_distinct])
  show "set (keys m) = set (keys m')"
    using assms by (auto simp: keys_iff)
qed

end

interpretation bt: ordered_map fmempty fmlookup fmupd fmdrop bt_keys
  by unfold_locales (auto simp: fmlookup_dom_iff)

end
