(* ===== verification/Effects.thy ===== *)
theory Effects
  imports Prelude
begin

text \<open>
  Reasoning about stateful steps: which part of the state a step leaves alone, which errors and
  values it can return, and what it does to a part of the state when it returns. The rule
  collections \<open>keeps_rules\<close> and \<open>errors_rules\<close> carry these facts through sequencing.
\<close>

text \<open>\<^verbatim>\<open>if let Err(e) = m\<close>: the error becomes a value.\<close>

definition catch_act :: "('s, 'a, 'e) act \<Rightarrow> ('s, 'e + 'a, 'f) act" where
  "catch_act m s = (case m s of (Ok a, s') \<Rightarrow> (Ok (Inr a), s') | (Err e, s') \<Rightarrow> (Ok (Inl e), s') | (Panic, s') \<Rightarrow> (Panic, s'))"

text \<open>\<^verbatim>\<open>map_err\<close> on the outcome of a step.\<close>

definition map_err_act :: "('e \<Rightarrow> 'f) \<Rightarrow> ('s, 'a, 'e) act \<Rightarrow> ('s, 'a, 'f) act" where
  "map_err_act f m s = (case m s of (r, s') \<Rightarrow> (map_err f r, s'))"

section \<open>What a step leaves alone\<close>

definition keeps :: "('s \<Rightarrow> 'p) \<Rightarrow> ('s, 'a, 'e) act \<Rightarrow> bool" where
  "keeps f m \<longleftrightarrow> (\<forall>s. f (snd (m s)) = f s)"

named_theorems keeps_rules \<open>rules that show a step leaves a part of the state alone\<close>

lemma keepsD: "keeps f m \<Longrightarrow> f (snd (m s)) = f s"
  by (simp add: keeps_def)

lemma keeps_ret [keeps_rules]: "keeps f (ret a)"
  by (simp add: keeps_def ret_def)

lemma keeps_fail [keeps_rules]: "keeps f (fail e)"
  by (simp add: keeps_def fail_def)

lemma keeps_lift [keeps_rules]: "keeps f (lift_outcome r)"
  by (simp add: keeps_def lift_outcome_def)

lemma keeps_bind [keeps_rules]: "keeps f m \<Longrightarrow> (\<And>a. keeps f (g a)) \<Longrightarrow> keeps f (bind_act m g)"
  by (auto simp: keeps_def bind_act_def split: prod.split outcome.split)
     (metis snd_conv)+

lemma keeps_catch [keeps_rules]: "keeps f m \<Longrightarrow> keeps f (catch_act m)"
  by (auto simp: keeps_def catch_act_def split: prod.split outcome.split) (metis snd_conv)+

lemma keeps_map_err [keeps_rules]: "keeps f m \<Longrightarrow> keeps f (map_err_act g m)"
  by (auto simp: keeps_def map_err_act_def split: prod.splits) (metis snd_conv)

lemma keeps_if [keeps_rules]: "keeps f m \<Longrightarrow> keeps f m' \<Longrightarrow> keeps f (if c then m else m')"
  by simp

lemma keeps_state: "(\<And>s. keeps f (m s)) \<Longrightarrow> keeps f (\<lambda>s. m s s)"
  by (simp add: keeps_def)

section \<open>What a step returns\<close>

text \<open>The errors a step can return.\<close>

definition errors_in :: "('e \<Rightarrow> bool) \<Rightarrow> ('s, 'a, 'e) act \<Rightarrow> bool" where
  "errors_in P m \<longleftrightarrow> (\<forall>s e. fst (m s) = Err e \<longrightarrow> P e)"

named_theorems errors_rules \<open>rules for the errors a step can return\<close>

lemma errors_bind [errors_rules]: "errors_in P m \<Longrightarrow> (\<And>a. errors_in P (g a)) \<Longrightarrow> errors_in P (bind_act m g)"
  unfolding errors_in_def bind_act_def
  by (auto split: prod.splits outcome.splits) (metis fst_conv)+

lemma errors_basic [errors_rules]:
  "errors_in P (ret a)" "errors_in P (update_act u)" "errors_in P (catch_act m)"
  "P e \<Longrightarrow> errors_in P (fail e)"
  by (auto simp: errors_in_def act_defs catch_act_def split: prod.splits outcome.splits)

lemma errors_if [errors_rules]: "errors_in P m \<Longrightarrow> errors_in P m' \<Longrightarrow> errors_in P (if c then m else m')"
  by simp

lemma errors_sum [errors_rules]:
  "(\<And>e. errors_in P (m e)) \<Longrightarrow> (\<And>a. errors_in P (m' a)) \<Longrightarrow> errors_in P (case w of Inl e \<Rightarrow> m e | Inr a \<Rightarrow> m' a)"
  by (simp split: sum.split)

lemma errors_state: "(\<And>s. errors_in P (m s)) \<Longrightarrow> errors_in P (\<lambda>s. m s s)"
  by (simp add: errors_in_def)

lemma errors_checked [errors_rules]:
  "errors_in P (lift_outcome (add_pr pr a b))" "errors_in P (lift_outcome (mul_pr pr a b))"
  "errors_in P (lift_outcome (sub_pr pr a b))"
  by (auto simp: errors_in_def lift_outcome_def add_pr_def mul_pr_def sub_pr_def)

text \<open>The values a step can return.\<close>

definition results_in :: "('a \<Rightarrow> bool) \<Rightarrow> ('s, 'a, 'e) act \<Rightarrow> bool" where
  "results_in P m \<longleftrightarrow> (\<forall>s a. fst (m s) = Ok a \<longrightarrow> P a)"

lemma results_bind: "(\<And>a. results_in P (g a)) \<Longrightarrow> results_in P (bind_act m g)"
  unfolding results_in_def bind_act_def by (auto split: prod.splits outcome.splits)

lemma results_ret: "P a \<Longrightarrow> results_in P (ret a)"
  by (simp add: results_in_def ret_def)

lemma results_sum:
  "(\<And>e. results_in P (m e)) \<Longrightarrow> (\<And>a. results_in P (m' a)) \<Longrightarrow> results_in P (case w of Inl e \<Rightarrow> m e | Inr a \<Rightarrow> m' a)"
  by (simp split: sum.split)

lemma results_state: "(\<And>s. results_in P (m s)) \<Longrightarrow> results_in P (\<lambda>s. m s s)"
  by (simp add: results_in_def)

section \<open>What a step does\<close>

text \<open>What a step does to the part \<open>v\<close> of the state when it returns.\<close>

definition does :: "('s \<Rightarrow> 'v) \<Rightarrow> ('v \<Rightarrow> 'v) \<Rightarrow> ('s, 'a, 'e) act \<Rightarrow> bool" where
  "does v f m \<longleftrightarrow> (\<forall>s a s'. m s = (Ok a, s') \<longrightarrow> v s' = f (v s))"

lemma doesD: "does v f m \<Longrightarrow> m s = (Ok a, s') \<Longrightarrow> v s' = f (v s)"
  by (auto simp: does_def)

lemma does_bind: "does v f m \<Longrightarrow> (\<And>a. does v g (k a)) \<Longrightarrow> does v (\<lambda>x. g (f x)) (bind_act m k)"
  unfolding does_def bind_act_Ok_iff by metis

lemma does_bind_keeps: "keeps v m \<Longrightarrow> (\<And>a. does v g (k a)) \<Longrightarrow> does v g (bind_act m k)"
  unfolding does_def bind_act_Ok_iff keeps_def by (metis snd_conv)

lemma does_update: "(\<And>s. v (u s) = f (v s)) \<Longrightarrow> does v f (update_act u)"
  by (simp add: does_def update_act_def)

end
