(* ===== verification/Ieee_Float.thy ===== *)
theory Ieee_Float
  imports Prelude "HOL-Library.Log_Nat" Complex_Main
begin

text \<open>
  The \<^verbatim>\<open>f32\<close> and \<^verbatim>\<open>f64\<close> types of the Rust sources: IEEE 754 binary formats with
  round-to-nearest-even after every operation, overflow to infinity, gradual underflow and NaN.
  A finite value is its exact rational value; the sign of zero is not kept, since no operation
  of the modelled code observes it. The main facts are that rounding is monotone and leaves
  representable values unchanged, from which the bounds of the pressure, hotness and cost
  computations follow.
\<close>

section \<open>Formats and rounding\<close>

record format =
  precision :: nat
  exp_lsb :: int
  exp_top :: int

definition binary32 :: format where
  "binary32 = \<lparr>precision = 24, exp_lsb = -149, exp_top = 104\<rparr>"

definition binary64 :: format where
  "binary64 = \<lparr>precision = 53, exp_lsb = -1074, exp_top = 971\<rparr>"

datatype fl = Fin (fin: rat) | PInf | NInf | NaN

type_synonym f32 = fl
type_synonym f64 = fl

text \<open>The exponent of the leading bit of a positive rational.\<close>

definition ilog2 :: "rat \<Rightarrow> int" where
  "ilog2 x = (let (n, d) = quotient_of x; k = bitlen n - bitlen d
              in if (2 :: rat) powi k \<le> x then k else k - 1)"

text \<open>Round to the nearest integer, ties to the even one.\<close>

definition round_even :: "rat \<Rightarrow> int" where
  "round_even x = (let f = \<lfloor>x\<rfloor>; r = x - of_int f
                   in if r < 1 / 2 then f
                      else if 1 / 2 < r then f + 1
                      else if even f then f else f + 1)"

definition lsb_exp :: "format \<Rightarrow> rat \<Rightarrow> int" where
  "lsb_exp fm x = max (exp_lsb fm) (ilog2 x - (int (precision fm) - 1))"

definition round_mag :: "format \<Rightarrow> rat \<Rightarrow> rat" where
  "round_mag fm x = (if x \<le> 0 then 0
     else of_int (round_even (x / 2 powi lsb_exp fm x)) * 2 powi lsb_exp fm x)"

definition round_unb :: "format \<Rightarrow> rat \<Rightarrow> rat" where
  "round_unb fm x = (if 0 \<le> x then round_mag fm x else - round_mag fm (- x))"

definition max_fin :: "format \<Rightarrow> rat" where
  "max_fin fm = (2 ^ precision fm - 1) * 2 powi exp_top fm"

definition rnd :: "format \<Rightarrow> rat \<Rightarrow> fl" where
  "rnd fm x = (let y = round_unb fm x
               in if max_fin fm < y then PInf else if y < - max_fin fm then NInf else Fin y)"

section \<open>Operations\<close>

fun fneg :: "fl \<Rightarrow> fl" where
  "fneg (Fin x) = Fin (- x)"
| "fneg PInf = NInf"
| "fneg NInf = PInf"
| "fneg NaN = NaN"

fun fadd :: "format \<Rightarrow> fl \<Rightarrow> fl \<Rightarrow> fl" where
  "fadd fm (Fin x) (Fin y) = rnd fm (x + y)"
| "fadd fm NaN y = NaN"
| "fadd fm x NaN = NaN"
| "fadd fm PInf NInf = NaN"
| "fadd fm NInf PInf = NaN"
| "fadd fm PInf y = PInf"
| "fadd fm NInf y = NInf"
| "fadd fm x PInf = PInf"
| "fadd fm x NInf = NInf"

definition fsub :: "format \<Rightarrow> fl \<Rightarrow> fl \<Rightarrow> fl" where
  "fsub fm x y = fadd fm x (fneg y)"

definition signed_inf :: "rat \<Rightarrow> fl" where
  "signed_inf s = (if 0 < s then PInf else if s < 0 then NInf else NaN)"

fun fsign :: "fl \<Rightarrow> rat" where
  "fsign (Fin x) = sgn x"
| "fsign PInf = 1"
| "fsign NInf = - 1"
| "fsign NaN = 0"

fun fmul :: "format \<Rightarrow> fl \<Rightarrow> fl \<Rightarrow> fl" where
  "fmul fm (Fin x) (Fin y) = rnd fm (x * y)"
| "fmul fm x y = (if x = NaN \<or> y = NaN then NaN else signed_inf (fsign x * fsign y))"

text \<open>
  Division: a zero divisor gives an infinity with the sign of the dividend (all zeros of the
  model are positive) and \<open>0 / 0\<close> is NaN.
\<close>

fun fdiv :: "format \<Rightarrow> fl \<Rightarrow> fl \<Rightarrow> fl" where
  "fdiv fm (Fin x) (Fin y) = (if y = 0 then signed_inf x else rnd fm (x / y))"
| "fdiv fm NaN y = NaN"
| "fdiv fm x NaN = NaN"
| "fdiv fm (Fin x) y = Fin 0"
| "fdiv fm x (Fin y) = signed_inf (fsign x * (if y = 0 then 1 else sgn y))"
| "fdiv fm x y = NaN"

fun fle :: "fl \<Rightarrow> fl \<Rightarrow> bool" where
  "fle (Fin x) (Fin y) = (x \<le> y)"
| "fle NaN y = False"
| "fle x NaN = False"
| "fle NInf y = True"
| "fle x PInf = True"
| "fle x y = False"

definition flt :: "fl \<Rightarrow> fl \<Rightarrow> bool" where
  "flt x y \<longleftrightarrow> fle x y \<and> \<not> fle y x"

abbreviation fgt :: "fl \<Rightarrow> fl \<Rightarrow> bool" where
  "fgt x y \<equiv> flt y x"

abbreviation fge :: "fl \<Rightarrow> fl \<Rightarrow> bool" where
  "fge x y \<equiv> fle y x"

text \<open>\<^verbatim>\<open>f32::max\<close> and \<^verbatim>\<open>f32::min\<close> return the other operand when one is NaN.\<close>

definition fmax :: "fl \<Rightarrow> fl \<Rightarrow> fl" where
  "fmax x y = (if x = NaN then y else if y = NaN then x else if fle x y then y else x)"

definition fmin :: "fl \<Rightarrow> fl \<Rightarrow> fl" where
  "fmin x y = (if x = NaN then y else if y = NaN then x else if fle x y then x else y)"

text \<open>\<^verbatim>\<open>clamp\<close> panics unless \<open>lo \<le> hi\<close>, which also excludes NaN bounds; a NaN self stays NaN.\<close>

definition fclamp :: "fl \<Rightarrow> fl \<Rightarrow> fl \<Rightarrow> (fl, 'e) outcome" where
  "fclamp x lo hi = (if \<not> fle lo hi then Panic
     else Ok (if flt x lo then lo else if flt hi x then hi else x))"

text \<open>\<^verbatim>\<open>x.clamp(0.0, 1.0)\<close>, whose bounds are in order, so that it does not panic.\<close>

definition clamp01 :: "fl \<Rightarrow> fl" where
  "clamp01 x = (if flt x (Fin 0) then Fin 0 else if flt (Fin 1) x then Fin 1 else x)"

text \<open>Casts: an integer rounds into the format; a float truncates and saturates into \<^verbatim>\<open>u64\<close>.\<close>

definition of_word :: "format \<Rightarrow> 'a::len word \<Rightarrow> fl" where
  "of_word fm w = rnd fm (of_nat (unat w))"

fun to_u64 :: "fl \<Rightarrow> u64" where
  "to_u64 (Fin x) = (if x \<le> 0 then 0 else if 2 ^ 64 \<le> x then - 1 else word_of_int \<lfloor>x\<rfloor>)"
| "to_u64 PInf = - 1"
| "to_u64 NInf = 0"
| "to_u64 NaN = 0"

text \<open>A decimal literal of the source is rounded once, by the compiler.\<close>

definition f32_lit :: "rat \<Rightarrow> f32" where
  "f32_lit x = rnd binary32 x"

definition f64_lit :: "rat \<Rightarrow> f64" where
  "f64_lit x = rnd binary64 x"

section \<open>Exponents and rounding to integers\<close>

lemma powi_mono: "i \<le> j \<Longrightarrow> (2 :: rat) powi i \<le> 2 powi j"
  by (intro power_int_increasing) auto

lemma powi_less_cancel: "(2 :: rat) powi i < 2 powi j \<Longrightarrow> i < j"
  using powi_mono [of j i] by (meson linorder_not_le order_less_le_trans less_irrefl)

lemma powi_pos [simp]: "0 < (2 :: rat) powi i"
  by (simp add: zero_less_power_int)

lemma powi_Suc: "(2 :: rat) powi (i + 1) = 2 * 2 powi i"
  by (simp add: power_int_add)

lemma powi_shift: "a \<le> e \<Longrightarrow> (2 :: rat) powi e = 2 ^ nat (e - a) * 2 powi a"
  using power_int_add [of "2 :: rat" "e - a" a] by (simp add: power_int_def [of _ "e - a"])

lemma bitlen_powi:
  assumes "0 < n"
  shows "(2 :: rat) powi (bitlen n - 1) \<le> of_int n" and "of_int n < (2 :: rat) powi bitlen n"
proof -
  have b: "2 ^ nat (bitlen n - 1) \<le> n" "n < 2 ^ nat (bitlen n)"
    using bitlen_bounds [OF assms] by auto
  have pos: "0 < bitlen n" using bitlen_nonneg [of n] bitlen_eq_zero_iff [of n] assms by linarith
  have "of_int (2 ^ nat (bitlen n - 1)) \<le> (of_int n :: rat)"
    using b(1) by (simp only: of_int_le_iff)
  then show "(2 :: rat) powi (bitlen n - 1) \<le> of_int n"
    using pos by (simp add: power_int_def)
  have "(of_int n :: rat) < of_int (2 ^ nat (bitlen n))"
    using b(2) by (simp only: of_int_less_iff)
  then show "of_int n < (2 :: rat) powi bitlen n"
    using pos by (simp add: power_int_def)
qed

lemma ilog2_bounds:
  assumes "0 < x"
  shows "2 powi ilog2 x \<le> x" and "x < 2 powi (ilog2 x + 1)"
proof -
  obtain n d where q: "quotient_of x = (n, d)" by fastforce
  have d: "0 < d" using q by (rule quotient_of_denom_pos)
  have x: "x = of_int n / of_int d" using q by (rule quotient_of_div)
  have n: "0 < n" using assms x d by (simp add: zero_less_divide_iff)
  let ?k = "bitlen n - bitlen d"
  have up: "x < 2 powi (?k + 1)"
  proof -
    have "of_int n < (2 :: rat) powi bitlen n" by (rule bitlen_powi(2) [OF n])
    also have "\<dots> = 2 powi (?k + 1) * 2 powi (bitlen d - 1)"
      by (simp flip: power_int_add)
    also have "\<dots> \<le> 2 powi (?k + 1) * of_int d"
      by (intro mult_left_mono bitlen_powi(1) d) (simp add: less_imp_le)
    finally show ?thesis using d by (simp add: x divide_less_eq)
  qed
  have low: "2 powi (?k - 1) \<le> x"
  proof -
    have "2 powi (?k - 1) * of_int d \<le> 2 powi (?k - 1) * (2 :: rat) powi bitlen d"
      using bitlen_powi(2) [OF d] by (intro mult_left_mono) (simp_all add: less_imp_le)
    also have "\<dots> = 2 powi (bitlen n - 1)" by (simp flip: power_int_add)
    also have "\<dots> \<le> of_int n" by (rule bitlen_powi(1) [OF n])
    finally show ?thesis using d by (simp add: x le_divide_eq)
  qed
  show "2 powi ilog2 x \<le> x" using low by (simp add: ilog2_def q Let_def)
  show "x < 2 powi (ilog2 x + 1)" using up by (simp add: ilog2_def q Let_def)
qed

lemma ilog2_unique:
  assumes "2 powi e \<le> x" "x < 2 powi (e + 1)"
  shows "ilog2 x = e"
proof -
  have "0 < x" using assms(1) powi_pos [of e] by linarith
  from ilog2_bounds [OF this] assms have "(2 :: rat) powi e < 2 powi (ilog2 x + 1)"
    "(2 :: rat) powi ilog2 x < 2 powi (e + 1)" by linarith+
  then show ?thesis by (auto dest!: powi_less_cancel)
qed

lemma ilog2_mono: "0 < x \<Longrightarrow> x \<le> y \<Longrightarrow> ilog2 x \<le> ilog2 y"
proof -
  assume x: "0 < x" and le: "x \<le> y"
  have "(2 :: rat) powi ilog2 x < 2 powi (ilog2 y + 1)"
    using ilog2_bounds(1) [OF x] ilog2_bounds(2) [of y] x le by linarith
  then show ?thesis by (auto dest!: powi_less_cancel)
qed

lemma round_even_of_int [simp]: "round_even (of_int n) = n"
  by (simp add: round_even_def)

lemma round_even_floor: "round_even x = \<lfloor>x\<rfloor> \<or> round_even x = \<lfloor>x\<rfloor> + 1"
  by (simp add: round_even_def Let_def)

lemma round_even_mono: "x \<le> y \<Longrightarrow> round_even x \<le> round_even y"
proof -
  assume le: "x \<le> y"
  then have f: "\<lfloor>x\<rfloor> \<le> \<lfloor>y\<rfloor>" by (rule floor_mono)
  show ?thesis
  proof (cases "\<lfloor>x\<rfloor> = \<lfloor>y\<rfloor>")
    case True
    then show ?thesis using le by (simp add: round_even_def Let_def)
  next
    case False
    then show ?thesis using f round_even_floor [of x] round_even_floor [of y] by linarith
  qed
qed

lemma round_even_le: "x \<le> of_int n \<Longrightarrow> round_even x \<le> n"
  using round_even_mono [of x "of_int n"] by simp

lemma round_even_ge: "of_int n \<le> x \<Longrightarrow> n \<le> round_even x"
  using round_even_mono [of "of_int n" x] by simp

lemma round_mag_nonneg: "0 \<le> round_mag fm x"
proof (cases "x \<le> 0")
  case True then show ?thesis by (simp add: round_mag_def)
next
  case False
  have "0 \<le> round_even (x / 2 powi lsb_exp fm x)"
    by (rule round_even_ge) (use False in \<open>simp add: divide_nonneg_pos\<close>)
  then show ?thesis using False by (simp add: round_mag_def less_imp_le)
qed

lemma lsb_exp_mono: "0 < x \<Longrightarrow> x \<le> y \<Longrightarrow> lsb_exp fm x \<le> lsb_exp fm y"
  using ilog2_mono [of x y] by (auto simp: lsb_exp_def)

text \<open>A multiple of the unit of \<open>x\<close> that bounds \<open>x\<close> also bounds its rounding.\<close>

lemma round_mag_le_grid:
  assumes "0 < x" "x \<le> of_int m * 2 powi e" "lsb_exp fm x \<le> e"
  shows "round_mag fm x \<le> of_int m * 2 powi e"
proof -
  let ?u = "(2 :: rat) powi lsb_exp fm x"
  let ?k = "m * 2 ^ nat (e - lsb_exp fm x)"
  have e: "of_int m * (2 :: rat) powi e = of_int ?k * ?u"
    using powi_shift [OF assms(3)] by simp
  have "round_even (x / ?u) \<le> ?k"
    by (rule round_even_le) (use assms(2) e in \<open>simp add: divide_le_eq\<close>)
  then have "(of_int (round_even (x / ?u)) :: rat) \<le> of_int ?k" by (simp only: of_int_le_iff)
  then have "of_int (round_even (x / ?u)) * ?u \<le> of_int ?k * ?u"
    by (intro mult_right_mono) (simp_all add: less_imp_le)
  then show ?thesis using assms(1) by (simp only: e round_mag_def) auto
qed

lemma round_mag_ge_grid:
  assumes "0 < x" "of_int m * 2 powi e \<le> x" "lsb_exp fm x \<le> e"
  shows "of_int m * 2 powi e \<le> round_mag fm x"
proof -
  let ?u = "(2 :: rat) powi lsb_exp fm x"
  let ?k = "m * 2 ^ nat (e - lsb_exp fm x)"
  have e: "of_int m * (2 :: rat) powi e = of_int ?k * ?u"
    using powi_shift [OF assms(3)] by simp
  have "?k \<le> round_even (x / ?u)"
    by (rule round_even_ge) (use assms(2) e in \<open>simp add: le_divide_eq\<close>)
  then have "(of_int ?k :: rat) \<le> of_int (round_even (x / ?u))" by (simp only: of_int_le_iff)
  then have "of_int ?k * ?u \<le> of_int (round_even (x / ?u)) * ?u"
    by (intro mult_right_mono) (simp_all add: less_imp_le)
  then show ?thesis using assms(1) by (simp only: e round_mag_def) auto
qed

lemma round_mag_mono:
  assumes wf: "0 < precision fm" and "x \<le> y"
  shows "round_mag fm x \<le> round_mag fm y"
proof (cases "x \<le> 0")
  case True
  then show ?thesis using round_mag_nonneg [of fm y] by (simp add: round_mag_def)
next
  case False
  then have x: "0 < x" and y: "0 < y" using assms by auto
  show ?thesis
  proof (cases "lsb_exp fm x = lsb_exp fm y")
    case True
    have "(of_int (round_even (x / 2 powi lsb_exp fm x)) :: rat)
        \<le> of_int (round_even (y / 2 powi lsb_exp fm x))"
      unfolding of_int_le_iff using assms(2)
      by (intro round_even_mono divide_right_mono) (simp_all add: less_imp_le)
    then show ?thesis using x y True
      by (auto simp: round_mag_def less_imp_le intro!: mult_right_mono)
  next
    case False
    then have lt: "lsb_exp fm x < lsb_exp fm y"
      using lsb_exp_mono [OF x assms(2), of fm] by simp
    then have ey: "lsb_exp fm y = ilog2 y - (int (precision fm) - 1)"
      and exy: "lsb_exp fm x \<le> ilog2 y" and xy: "ilog2 x < ilog2 y"
      using wf by (auto simp: lsb_exp_def split: if_splits)
    have "(2 :: rat) powi (ilog2 x + 1) \<le> 2 powi ilog2 y" using xy by (intro powi_mono) simp
    then have "x \<le> of_int 1 * 2 powi ilog2 y" using ilog2_bounds(2) [OF x] by simp
    then have "round_mag fm x \<le> of_int 1 * 2 powi ilog2 y"
      by (rule round_mag_le_grid [OF x _ exy])
    moreover have "of_int 1 * 2 powi ilog2 y \<le> round_mag fm y"
      by (rule round_mag_ge_grid [OF y]) (use ilog2_bounds(1) [OF y] wf ey in auto)
    ultimately show ?thesis by simp
  qed
qed

definition representable :: "format \<Rightarrow> rat \<Rightarrow> bool" where
  "representable fm x \<longleftrightarrow> (\<exists>m e. \<bar>x\<bar> = of_int m * 2 powi e \<and> m < 2 ^ precision fm \<and> exp_lsb fm \<le> e)"

lemma round_mag_exact:
  assumes x: "0 < x" "x = of_int m * 2 powi e" and m: "m < 2 ^ precision fm" and e: "exp_lsb fm \<le> e"
  shows "round_mag fm x = x"
proof -
  have "x < 2 powi (int (precision fm) + e)"
  proof -
    have "(of_int m :: rat) < of_int (2 ^ precision fm)" using m by (simp only: of_int_less_iff)
    then show ?thesis by (simp add: x(2) power_int_add)
  qed
  then have "(2 :: rat) powi ilog2 x < 2 powi (int (precision fm) + e)"
    using ilog2_bounds(1) [OF x(1)] by simp
  then have "lsb_exp fm x \<le> e" using e by (auto simp: lsb_exp_def dest: powi_less_cancel)
  then show ?thesis
    using round_mag_le_grid [OF x(1), of m e fm] round_mag_ge_grid [OF x(1), of m e fm]
    by (simp add: x(2) [symmetric])
qed

lemma representable_0 [simp]: "representable fm 0"
  unfolding representable_def by (rule exI [of _ 0], rule exI [of _ "exp_lsb fm"]) simp

lemma representable_minus [simp]: "representable fm (- x) = representable fm x"
  by (simp add: representable_def)

lemma round_mag_repr:
  assumes "representable fm x" "0 \<le> x"
  shows "round_mag fm x = x"
proof (cases "x = 0")
  case False
  from assms obtain m e where "x = of_int m * 2 powi e" "m < 2 ^ precision fm" "exp_lsb fm \<le> e"
    by (auto simp: representable_def)
  moreover have "0 < x" using False assms(2) by simp
  ultimately show ?thesis by (intro round_mag_exact)
qed (simp add: round_mag_def)

lemma round_unb_repr: "representable fm x \<Longrightarrow> round_unb fm x = x"
  using round_mag_repr [of fm x] round_mag_repr [of fm "- x"]
  by (auto simp: round_unb_def)

lemma round_unb_neg: "round_unb fm (- x) = - round_unb fm x"
  by (auto simp: round_unb_def round_mag_def)

lemma round_unb_mono: "0 < precision fm \<Longrightarrow> x \<le> y \<Longrightarrow> round_unb fm x \<le> round_unb fm y"
  using round_mag_mono [of fm x y] round_mag_mono [of fm "- y" "- x"]
    round_mag_nonneg [of fm y] round_mag_nonneg [of fm "- x"]
  by (auto simp: round_unb_def)


section \<open>Facts about the rounded operations\<close>

definition wf_format :: "format \<Rightarrow> bool" where
  "wf_format fm \<longleftrightarrow> 0 < precision fm \<and> exp_lsb fm \<le> 0 \<and> 0 \<le> exp_top fm"

lemma wf_binary [simp]: "wf_format binary32" "wf_format binary64"
  by (simp_all add: wf_format_def binary32_def binary64_def)

lemma max_fin_ge_1: "wf_format fm \<Longrightarrow> 1 \<le> max_fin fm"
proof -
  assume wf: "wf_format fm"
  have "(2 :: rat) ^ 1 \<le> 2 ^ precision fm"
    using wf by (intro power_increasing) (auto simp: wf_format_def)
  moreover have "(1 :: rat) \<le> 2 powi exp_top fm"
    using powi_mono [of 0 "exp_top fm"] wf by (simp add: wf_format_def)
  ultimately have "1 * 1 \<le> (2 ^ precision fm - 1) * (2 :: rat) powi exp_top fm"
    by (intro mult_mono) auto
  then show ?thesis by (simp add: max_fin_def)
qed

lemma representable_int: "wf_format fm \<Longrightarrow> \<bar>n\<bar> < 2 ^ precision fm \<Longrightarrow> representable fm (of_int n)"
  unfolding representable_def wf_format_def
  by (rule exI [of _ "\<bar>n\<bar>"], rule exI [of _ 0]) simp

lemma representable_1 [simp]: "wf_format fm \<Longrightarrow> representable fm 1"
proof -
  assume wf: "wf_format fm"
  then have "(1 :: int) < 2 ^ precision fm" by (auto simp: wf_format_def intro: one_less_power)
  then show ?thesis using representable_int [OF wf, of 1] by simp
qed

text \<open>A finite value of a format: representable and within the finite range.\<close>

definition is_float :: "format \<Rightarrow> fl \<Rightarrow> bool" where
  "is_float fm v \<longleftrightarrow> (case v of Fin x \<Rightarrow> representable fm x \<and> \<bar>x\<bar> \<le> max_fin fm | _ \<Rightarrow> True)"

lemma rnd_exact: "representable fm x \<Longrightarrow> \<bar>x\<bar> \<le> max_fin fm \<Longrightarrow> rnd fm x = Fin x"
  by (auto simp: rnd_def round_unb_repr abs_le_iff)

text \<open>The central enclosure: rounding stays between representable bounds.\<close>

lemma rnd_between:
  assumes wf: "wf_format fm" and lo: "representable fm l" "- max_fin fm \<le> l"
    and hi: "representable fm h" "h \<le> max_fin fm" and "l \<le> x" "x \<le> h"
  obtains y where "rnd fm x = Fin y" "l \<le> y" "y \<le> h"
proof -
  have p: "0 < precision fm" using wf by (simp add: wf_format_def)
  have "l \<le> round_unb fm x" "round_unb fm x \<le> h"
    using round_unb_mono [OF p \<open>l \<le> x\<close>] round_unb_mono [OF p \<open>x \<le> h\<close>]
      round_unb_repr [OF lo(1)] round_unb_repr [OF hi(1)] by simp_all
  moreover from this have "rnd fm x = Fin (round_unb fm x)"
    using lo(2) hi(2) by (simp add: rnd_def Let_def)
  ultimately show ?thesis using that by blast
qed

lemma rnd_mono: "wf_format fm \<Longrightarrow> x \<le> y \<Longrightarrow> fle (rnd fm x) (rnd fm y)"
  using round_unb_mono [of fm x y] by (auto simp: rnd_def Let_def wf_format_def)

lemma rnd_not_NaN [simp]: "rnd fm x \<noteq> NaN"
  by (simp add: rnd_def Let_def)

lemma rnd_0 [simp]: "wf_format fm \<Longrightarrow> rnd fm 0 = Fin 0"
  using max_fin_ge_1 [of fm] by (simp add: rnd_exact)

lemma rnd_1 [simp]: "wf_format fm \<Longrightarrow> rnd fm 1 = Fin 1"
  using max_fin_ge_1 [of fm] by (simp add: rnd_exact)

text \<open>The unit interval, where every pressure, hotness and confidence value lives.\<close>

definition in_unit :: "fl \<Rightarrow> bool" where
  "in_unit v \<longleftrightarrow> fle (Fin 0) v \<and> fle v (Fin 1)"

lemma in_unit_iff: "in_unit v \<longleftrightarrow> (\<exists>x. v = Fin x \<and> 0 \<le> x \<and> x \<le> 1)"
  by (cases v) (auto simp: in_unit_def)

lemma in_unit_Fin [simp]: "in_unit (Fin x) \<longleftrightarrow> 0 \<le> x \<and> x \<le> 1"
  by (simp add: in_unit_iff)

lemma rnd_in_unit: "wf_format fm \<Longrightarrow> 0 \<le> x \<Longrightarrow> x \<le> 1 \<Longrightarrow> in_unit (rnd fm x)"
  using rnd_between [of fm 0 1 x] max_fin_ge_1 [of fm] by (force simp: in_unit_iff)

lemma rnd_nonneg: "wf_format fm \<Longrightarrow> 0 \<le> x \<Longrightarrow> fle (Fin 0) (rnd fm x)"
  using rnd_mono [of fm 0 x] by simp

section \<open>Order facts\<close>

lemma flt_Fin [simp]: "flt (Fin x) (Fin y) \<longleftrightarrow> x < y"
  by (auto simp: flt_def)

lemma fle_refl: "x \<noteq> NaN \<Longrightarrow> fle x x"
  by (cases x) auto

lemma fle_NaN [simp]: "\<not> fle NaN x" "\<not> fle x NaN"
  by (cases x; simp)+

lemma flt_NaN [simp]: "\<not> flt NaN x" "\<not> flt x NaN"
  by (simp_all add: flt_def)

lemma fle_trans: "fle x y \<Longrightarrow> fle y z \<Longrightarrow> fle x z"
  by (cases x; cases y; cases z) auto

lemma fle_total: "x \<noteq> NaN \<Longrightarrow> y \<noteq> NaN \<Longrightarrow> fle x y \<or> fle y x"
  by (cases x; cases y) auto

lemma flt_fle_trans: "flt x y \<Longrightarrow> fle y z \<Longrightarrow> flt x z"
  by (auto simp: flt_def dest: fle_trans)

lemma fle_flt_trans: "fle x y \<Longrightarrow> flt y z \<Longrightarrow> flt x z"
  by (auto simp: flt_def dest: fle_trans)

lemma flt_trans: "flt x y \<Longrightarrow> flt y z \<Longrightarrow> flt x z"
  by (auto simp: flt_def dest: fle_trans)

lemma not_flt: "x \<noteq> NaN \<Longrightarrow> y \<noteq> NaN \<Longrightarrow> \<not> flt x y \<longleftrightarrow> fle y x"
  using fle_total [of x y] by (auto simp: flt_def)

lemma flt_imp_fle: "flt x y \<Longrightarrow> fle x y"
  by (simp add: flt_def)

lemma fmax_ge_iff: "fle t (fmax x y) \<longleftrightarrow> fle t x \<or> fle t y"
  using fle_total [of x y] by (auto simp: fmax_def dest: fle_trans)

lemma fmax_gt_iff: "flt t (fmax x y) \<longleftrightarrow> flt t x \<or> flt t y"
  using fle_total [of x y] by (auto simp: fmax_def dest: flt_fle_trans)

lemma fmax_in_unit: "in_unit x \<Longrightarrow> in_unit y \<Longrightarrow> in_unit (fmax x y)"
  by (auto simp: fmax_def)

lemma fclamp_Ok: "fle lo hi \<Longrightarrow>
    fclamp x lo hi = Ok (if flt x lo then lo else if flt hi x then hi else x)"
  by (simp add: fclamp_def)

lemma clamp_unit:
  "x \<noteq> NaN \<Longrightarrow> in_unit (if flt x (Fin 0) then Fin 0 else if flt (Fin 1) x then Fin 1 else x)"
  by (cases x) (auto simp: in_unit_def flt_def)

lemma fclamp_clamp01: "fclamp x (Fin 0) (Fin 1) = Ok (clamp01 x)"
  by (simp add: fclamp_def clamp01_def)

lemma clamp01_in_unit: "x \<noteq> NaN \<Longrightarrow> in_unit (clamp01 x)"
  using clamp_unit [of x] by (simp add: clamp01_def)

lemma clamp01_mono: "fle x y \<Longrightarrow> fle (clamp01 x) (clamp01 y)"
  by (cases x; cases y) (auto simp: clamp01_def flt_def)

lemma mul_in_unit: "wf_format fm \<Longrightarrow> in_unit a \<Longrightarrow> in_unit b \<Longrightarrow> in_unit (fmul fm a b)"
  by (auto simp: in_unit_iff [of a] in_unit_iff [of b] intro!: rnd_in_unit mult_le_one)

lemma fdiv_ratio_in_unit:
  assumes "wf_format fm" "0 \<le> x" "x \<le> y" "0 < y"
  shows "in_unit (fdiv fm (Fin x) (Fin y))"
  using assms by (simp add: rnd_in_unit)


section \<open>Casts of machine words\<close>

lemma representable_pow2: "wf_format fm \<Longrightarrow> representable fm (2 ^ n)"
proof -
  assume wf: "wf_format fm"
  then have "(1 :: int) < 2 ^ precision fm" by (auto simp: wf_format_def intro: one_less_power)
  then show ?thesis using wf unfolding representable_def wf_format_def
    by (intro exI [of _ 1] exI [of _ "int n"]) auto
qed

definition holds_words :: "format \<Rightarrow> bool" where
  "holds_words fm \<longleftrightarrow> wf_format fm \<and> 2 ^ 64 \<le> max_fin fm"

lemma holds_binary [simp]: "holds_words binary32" "holds_words binary64"
  by (simp_all add: holds_words_def max_fin_def binary32_def binary64_def wf_format_def power_int_def)

lemma holds_wf [simp]: "holds_words fm \<Longrightarrow> wf_format fm"
  by (simp add: holds_words_def)

lemma of_word_between:
  fixes w :: "'a::len word"
  assumes "holds_words fm" "LENGTH('a) \<le> 64"
  obtains y where "of_word fm w = Fin y" "0 \<le> y" "y \<le> 2 ^ 64" "0 < w \<Longrightarrow> 1 \<le> y"
proof -
  have "unat w < 2 ^ LENGTH('a)" by (rule unsigned_less)
  also have "\<dots> \<le> (2 :: nat) ^ 64" using assms(2) by (intro power_increasing) auto
  finally have "of_nat (unat w) < (of_nat (2 ^ 64) :: rat)" by (simp only: of_nat_less_iff)
  then have up: "(of_nat (unat w) :: rat) \<le> 2 ^ 64" by simp
  have m: "2 ^ 64 \<le> max_fin fm" and wf: "wf_format fm" using assms(1) by (simp_all add: holds_words_def)
  have low: "(1 :: rat) \<le> of_nat (unat w)" if "0 < w"
  proof -
    have "1 \<le> unat w" using that by (simp add: Suc_le_eq unat_gt_0 word_neq_0_conv)
    then have "(of_nat 1 :: rat) \<le> of_nat (unat w)" by (simp only: of_nat_le_iff)
    then show ?thesis by simp
  qed
  define x :: rat where "x = of_nat (unat w)"
  define h :: rat where "h = 2 ^ 64"
  define l :: rat where "l = (if 0 < w then 1 else 0)"
  have x0: "0 \<le> x" unfolding x_def by (rule of_nat_0_le_iff)
  have h: "representable fm h" "h \<le> max_fin fm" "x \<le> h"
    using representable_pow2 [OF wf] m up by (simp_all only: h_def x_def)
  have l: "representable fm l" "- max_fin fm \<le> l" "l \<le> x"
    using wf max_fin_ge_1 [OF wf] low [folded x_def] x0 by (auto simp: l_def)
  obtain y where "rnd fm x = Fin y" "l \<le> y" "y \<le> h"
    by (rule rnd_between [OF wf l(1,2) h(1,2) l(3) h(3)])
  then show ?thesis using that [of y] by (auto simp: of_word_def l_def h_def x_def split: if_splits)
qed

lemma of_word_mono: "wf_format fm \<Longrightarrow> a \<le> b \<Longrightarrow> fle (of_word fm a) (of_word fm b)"
  unfolding of_word_def by (rule rnd_mono) (simp_all only: of_nat_le_iff word_le_nat_alt)

text \<open>The quotient of two words, the smaller over the larger, is a value of the unit interval.\<close>

lemma word_ratio_in_unit:
  fixes a b :: "'a::len word"
  assumes "holds_words fm" "LENGTH('a) \<le> 64" "a \<le> b" "0 < b"
  shows "in_unit (fdiv fm (of_word fm a) (of_word fm b))"
proof -
  from of_word_between [OF assms(1,2), of a] obtain x where x: "of_word fm a = Fin x" "0 \<le> x" by blast
  from of_word_between [OF assms(1,2), of b] assms(4) obtain y where y: "of_word fm b = Fin y" "1 \<le> y"
    by blast
  have "fle (of_word fm a) (of_word fm b)" using assms(1,3) by (simp add: of_word_mono)
  then show ?thesis using x y assms(1) by (simp add: rnd_in_unit)
qed



text \<open>Evaluation of a rounding from its exponent \<open>k\<close> and significand \<open>m\<close>.\<close>

lemma round_even_eqI: "\<bar>x - of_int m\<bar> < 1 / 2 \<Longrightarrow> round_even x = m"
proof -
  assume a: "\<bar>x - of_int m\<bar> < 1 / 2"
  have "\<lfloor>x\<rfloor> = m \<or> \<lfloor>x\<rfloor> = m - 1" using a by linarith
  then show ?thesis using a by (auto simp: round_even_def Let_def abs_less_iff)
qed

lemma round_even_tie: "\<bar>x - of_int m\<bar> = 1 / 2 \<Longrightarrow> even m \<Longrightarrow> round_even x = m"
proof -
  assume a: "\<bar>x - of_int m\<bar> = 1 / 2" and m: "even m"
  then consider "x = of_int m + 1 / 2" | "x = of_int (m - 1) + 1 / 2" by (auto simp: abs_if split: if_splits)
  then show ?thesis
  proof cases
    case 1
    then have "\<lfloor>x\<rfloor> = m" by linarith
    then show ?thesis using 1 m by (simp add: round_even_def)
  next
    case 2
    then have "\<lfloor>x\<rfloor> = m - 1" by linarith
    then show ?thesis using 2 m by (simp add: round_even_def)
  qed
qed

lemma rnd_eval:
  assumes "2 powi k \<le> x" "x < 2 powi (k + 1)" and e: "e = k - (int (precision fm) - 1)" "exp_lsb fm \<le> e"
    and "\<bar>x / 2 powi e - of_int m\<bar> < 1 / 2 \<or> \<bar>x / 2 powi e - of_int m\<bar> = 1 / 2 \<and> even m" and "\<bar>of_int m * 2 powi e\<bar> \<le> max_fin fm"
  shows "rnd fm x = Fin (of_int m * 2 powi e)"
proof -
  have "0 < x" using assms(1) powi_pos [of k] by linarith
  moreover have "ilog2 x = k" by (rule ilog2_unique [OF assms(1,2)])
  moreover have "round_even (x / 2 powi e) = m" using assms(5) round_even_eqI round_even_tie by blast
  ultimately have "round_unb fm x = of_int m * 2 powi e"
    using e by (simp add: round_unb_def round_mag_def lsb_exp_def max_def)
  then show ?thesis using assms(6) by (auto simp: rnd_def abs_le_iff)
qed

end
