(* ===== verification/Core_Types.thy ===== *)
theory Core_Types
  imports Prelude Ieee_Float
begin

text \<open>
  \<^verbatim>\<open>ghost-core/src/types.rs\<close>, \<^verbatim>\<open>error.rs\<close> and the enumeration of chunk states of
  \<^verbatim>\<open>state.rs\<close>: chunk identifiers, tiers, chunk metadata, pressure levels and the unified error
  type. The blake3 hash is a parameter \<open>hash\<close> of the definitions that call it.
\<close>

section \<open>Chunk identifiers and tiers\<close>

datatype chunk_id = ChunkId (id_bytes: bytes)

definition from_data :: "(bytes \<Rightarrow> bytes) \<Rightarrow> bytes \<Rightarrow> chunk_id" where
  "from_data hash data = ChunkId (hash data)"

definition verify :: "(bytes \<Rightarrow> bytes) \<Rightarrow> chunk_id \<Rightarrow> bytes \<Rightarrow> bool" where
  "verify hash cid data = (hash data = id_bytes cid)"

datatype tier_id = Ram | GpuVram | Disk | Simulation

fun tier_priority :: "tier_id \<Rightarrow> u8" where
  "tier_priority Ram = 0"
| "tier_priority GpuVram = 1"
| "tier_priority Disk = 2"
| "tier_priority Simulation = 3"

fun is_gpu :: "tier_id \<Rightarrow> bool" where
  "is_gpu GpuVram = True"
| "is_gpu _ = False"

fun is_persistent :: "tier_id \<Rightarrow> bool" where
  "is_persistent Disk = True"
| "is_persistent _ = False"

fun display_tier :: "tier_id \<Rightarrow> string" where
  "display_tier Ram = ''RAM''"
| "display_tier GpuVram = ''GPU VRAM''"
| "display_tier Disk = ''Disk''"
| "display_tier Simulation = ''Simulation''"

text \<open>
  \<^verbatim>\<open>#[derive(Ord)]\<close>: identifiers compare as byte arrays, tiers by declaration order.
\<close>

instantiation chunk_id :: linorder
begin

definition less_eq_chunk_id :: "chunk_id \<Rightarrow> chunk_id \<Rightarrow> bool" where
  "less_eq_chunk_id a b \<longleftrightarrow> id_bytes a \<le> id_bytes b"

definition less_chunk_id :: "chunk_id \<Rightarrow> chunk_id \<Rightarrow> bool" where
  "less_chunk_id a b \<longleftrightarrow> id_bytes a < id_bytes b"

instance
  by standard (auto simp: less_eq_chunk_id_def less_chunk_id_def chunk_id.expand)

end

instantiation tier_id :: linorder
begin

definition less_eq_tier_id :: "tier_id \<Rightarrow> tier_id \<Rightarrow> bool" where
  "less_eq_tier_id a b \<longleftrightarrow> tier_priority a \<le> tier_priority b"

definition less_tier_id :: "tier_id \<Rightarrow> tier_id \<Rightarrow> bool" where
  "less_tier_id a b \<longleftrightarrow> tier_priority a < tier_priority b"

instance
proof
  fix a b :: tier_id
  show "a \<le> b \<Longrightarrow> b \<le> a \<Longrightarrow> a = b"
    by (cases a; cases b) (simp_all add: less_eq_tier_id_def word_le_nat_alt)
qed (auto simp: less_eq_tier_id_def less_tier_id_def)

end

lemma tier_priority_inj: "tier_priority a = tier_priority b \<longleftrightarrow> a = b"
  by (cases a; cases b) simp_all

section \<open>Chunk states and metadata\<close>

datatype chunk_state = Allocated | Stored | Cached | Migrating | Evicted | Failed

fun debug_chunk_state :: "chunk_state \<Rightarrow> string" where
  "debug_chunk_state Allocated = ''Allocated''"
| "debug_chunk_state Stored = ''Stored''"
| "debug_chunk_state Cached = ''Cached''"
| "debug_chunk_state Migrating = ''Migrating''"
| "debug_chunk_state Evicted = ''Evicted''"
| "debug_chunk_state Failed = ''Failed''"

datatype compression_algorithm = NoCompression | Zstd

record chunk_meta =
  meta_id :: chunk_id
  meta_size :: usize
  compressed_size :: usize
  meta_tier :: tier_id
  meta_state :: chunk_state
  meta_created_at :: u64
  last_accessed :: u64
  access_count :: u64
  compression :: compression_algorithm
  checksum :: bytes

text \<open>\<open>now\<close> is the Unix time in seconds read by the constructor.\<close>

definition chunk_meta_new ::
  "chunk_id \<Rightarrow> usize \<Rightarrow> usize \<Rightarrow> tier_id \<Rightarrow> compression_algorithm \<Rightarrow> bytes \<Rightarrow> u64 \<Rightarrow> chunk_meta" where
  "chunk_meta_new cid sz csz tier alg cks now =
     \<lparr>meta_id = cid, meta_size = sz, compressed_size = csz, meta_tier = tier,
      meta_state = Allocated, meta_created_at = now, last_accessed = now, access_count = 0,
      compression = alg, checksum = cks\<rparr>"

definition meta_record_access :: "profile \<Rightarrow> u64 \<Rightarrow> chunk_meta \<Rightarrow> (chunk_meta, 'e) outcome" where
  "meta_record_access pr now m = (case add_pr pr (access_count m) 1 of
       Ok n \<Rightarrow> Ok (m\<lparr>access_count := n, last_accessed := now\<rparr>)
     | Err e \<Rightarrow> Err e
     | Panic \<Rightarrow> Panic)"

definition compression_ratio :: "chunk_meta \<Rightarrow> f64" where
  "compression_ratio m = (if compressed_size m = 0 then f64_lit 1
     else fdiv binary64 (of_word binary64 (meta_size m)) (of_word binary64 (compressed_size m)))"

section \<open>Pressure levels\<close>

datatype pressure_level = PressureNormal | PressureSoft | PressureMedium | PressureHard | PressureCritical

fun level :: "pressure_level \<Rightarrow> u8" where
  "level PressureNormal = 0"
| "level PressureSoft = 1"
| "level PressureMedium = 2"
| "level PressureHard = 3"
| "level PressureCritical = 4"

section \<open>Errors\<close>

text \<open>
  A formatted message keeps the literal pieces and the values interpolated by \<^verbatim>\<open>format!\<close>
  apart, so that the rendering of floats and of hexadecimal identifiers needs no model.
\<close>

datatype fmt_piece =
    Lit string
  | FmtChunk chunk_id
  | FmtNat nat
  | FmtTier tier_id
  | FmtFloat fl

type_synonym message = "fmt_piece list"

datatype ghost_error =
    Io message
  | ChunkNotFound message
  | TierFull tier_id
  | TierUnavailable tier_id
  | ChecksumMismatch message
  | CorruptionDetected message
  | CompressionError message
  | BackendFailure message
  | IpcError message
  | OutOfMemory
  | Timeout
  | PipelineError message
  | Cancelled
  | ReplayError message
  | InvalidConfig message
  | InvalidStateTransition string string
  | ProviderUnavailable message
  | Internal message

type_synonym 'a ghost_result = "('a, ghost_error) outcome"

text \<open>The \<^verbatim>\<open>Display\<close> of an error; the \<^verbatim>\<open>Debug\<close> of a state's name puts it in quotes.\<close>

definition quoted :: "string \<Rightarrow> string" where
  "quoted name = CHR 0x22 # name @ [CHR 0x22]"

fun ghost_error_display :: "ghost_error \<Rightarrow> message" where
  "ghost_error_display (Io e) = Lit ''I/O error: '' # e"
| "ghost_error_display (ChunkNotFound e) = Lit ''chunk not found: '' # e"
| "ghost_error_display (TierFull t) = [Lit ''tier '', FmtTier t, Lit '' is full'']"
| "ghost_error_display (TierUnavailable t) = [Lit ''tier '', FmtTier t, Lit '' unavailable'']"
| "ghost_error_display (ChecksumMismatch e) = Lit ''checksum mismatch for chunk '' # e"
| "ghost_error_display (CorruptionDetected e) = Lit ''corruption detected in '' # e"
| "ghost_error_display (CompressionError e) = Lit ''compression error: '' # e"
| "ghost_error_display (BackendFailure e) = Lit ''backend error: '' # e"
| "ghost_error_display (IpcError e) = Lit ''IPC error: '' # e"
| "ghost_error_display OutOfMemory = [Lit ''out of memory'']"
| "ghost_error_display Timeout = [Lit ''operation timed out'']"
| "ghost_error_display (PipelineError e) = Lit ''pipeline error: '' # e"
| "ghost_error_display Cancelled = [Lit ''operation cancelled'']"
| "ghost_error_display (ReplayError e) = Lit ''trace replay error: '' # e"
| "ghost_error_display (InvalidConfig e) = Lit ''invalid configuration: '' # e"
| "ghost_error_display (InvalidStateTransition a b) = [Lit ''invalid state transition from '', Lit (quoted a), Lit '' to '', Lit (quoted b)]"
| "ghost_error_display (ProviderUnavailable e) = Lit ''provider unavailable: '' # e"
| "ghost_error_display (Internal e) = Lit ''internal error: '' # e"

section \<open>Facts\<close>

lemma verify_from_data: "verify hash (from_data hash data) data"
  by (simp add: verify_def from_data_def)

lemma verify_iff: "verify hash (from_data hash a) b \<longleftrightarrow> hash b = hash a"
  by (simp add: verify_def from_data_def)

end
