(* ===== verification/Chunk_State.thy ===== *)
theory Chunk_State
  imports Core_Types
begin

text \<open>
  \<^verbatim>\<open>ghost-core/src/state.rs\<close>, first half: the chunk lifecycle and the \<^verbatim>\<open>StateMachine\<close> that
  tracks it. The theory shows which states a chunk can reach, that a refused transition changes
  nothing, and that the tracker is exactly the lifecycle relation run on each chunk separately.
\<close>

section \<open>The chunk lifecycle\<close>

fun is_valid_transition :: "chunk_state \<Rightarrow> chunk_state \<Rightarrow> bool" where
  "is_valid_transition Allocated Stored = True"
| "is_valid_transition Stored Cached = True"
| "is_valid_transition Stored Migrating = True"
| "is_valid_transition Cached Migrating = True"
| "is_valid_transition Cached Stored = True"
| "is_valid_transition Migrating Stored = True"
| "is_valid_transition Migrating Failed = True"
| "is_valid_transition Migrating Evicted = True"
| "is_valid_transition Failed Stored = True"
| "is_valid_transition Failed Evicted = True"
| "is_valid_transition Stored Evicted = True"
| "is_valid_transition _ _ = False"

definition transition_to :: "profile \<Rightarrow> chunk_state \<Rightarrow> chunk_state \<Rightarrow> chunk_state ghost_result" where
  "transition_to pr cur nxt =
     (if is_valid_transition cur nxt then Ok nxt
      else if pr = Debug then Panic
      else Err (InvalidStateTransition (debug_chunk_state cur) (debug_chunk_state nxt)))"

fun is_terminal :: "chunk_state \<Rightarrow> bool" where
  "is_terminal Evicted = True"
| "is_terminal _ = False"

fun is_readable :: "chunk_state \<Rightarrow> bool" where
  "is_readable Stored = True"
| "is_readable Cached = True"
| "is_readable _ = False"

fun is_migrating :: "chunk_state \<Rightarrow> bool" where
  "is_migrating Migrating = True"
| "is_migrating _ = False"

fun display_chunk_state :: "chunk_state \<Rightarrow> string" where
  "display_chunk_state Allocated = ''allocated''"
| "display_chunk_state Stored = ''stored''"
| "display_chunk_state Cached = ''cached''"
| "display_chunk_state Migrating = ''migrating''"
| "display_chunk_state Evicted = ''evicted''"
| "display_chunk_state Failed = ''failed''"

section \<open>The tracker\<close>

record state_machine =
  states :: "(chunk_id, chunk_state) btree"

definition sm_new :: state_machine where
  "sm_new = \<lparr>states = fmempty\<rparr>"

definition sm_with_capacity :: "usize \<Rightarrow> state_machine" where
  "sm_with_capacity cap = \<lparr>states = fmempty\<rparr>"

definition get_state :: "state_machine \<Rightarrow> chunk_id \<Rightarrow> chunk_state option" where
  "get_state sm cid = fmlookup (states sm) cid"

definition register :: "state_machine \<Rightarrow> chunk_id \<Rightarrow> unit ghost_result \<times> state_machine" where
  "register sm cid =
     (if cid |\<in>| fmdom (states sm)
      then (Err (Internal [Lit ''chunk '', FmtChunk cid, Lit '' is already registered in the state machine'']), sm)
      else (Ok (), sm\<lparr>states := fmupd cid Allocated (states sm)\<rparr>))"

definition transition ::
  "profile \<Rightarrow> state_machine \<Rightarrow> chunk_id \<Rightarrow> chunk_state \<Rightarrow> chunk_state ghost_result \<times> state_machine" where
  "transition pr sm cid nxt =
     (case fmlookup (states sm) cid of
        None \<Rightarrow> (Err (Internal [Lit ''chunk '', FmtChunk cid, Lit '' not found in state machine'']), sm)
      | Some cur \<Rightarrow>
          (case transition_to pr cur nxt of
             Ok _ \<Rightarrow> (Ok nxt, sm\<lparr>states := fmupd cid nxt (states sm)\<rparr>)
           | Err e \<Rightarrow> (Err e, sm)
           | Panic \<Rightarrow> (Panic, sm)))"

definition sm_remove :: "state_machine \<Rightarrow> chunk_id \<Rightarrow> chunk_state option \<times> state_machine" where
  "sm_remove sm cid = (fmlookup (states sm) cid, sm\<lparr>states := fmdrop cid (states sm)\<rparr>)"

definition sm_len :: "state_machine \<Rightarrow> nat" where
  "sm_len sm = bt_len (states sm)"

definition sm_is_empty :: "state_machine \<Rightarrow> bool" where
  "sm_is_empty sm = (bt_keys (states sm) = [])"

definition chunks_in_state :: "state_machine \<Rightarrow> chunk_state \<Rightarrow> chunk_id list" where
  "chunks_in_state sm st = map fst (filter (\<lambda>(k, s). s = st) (bt_entries (states sm)))"

definition snapshot :: "state_machine \<Rightarrow> (chunk_id, chunk_state) btree" where
  "snapshot sm = states sm"

section \<open>Facts of single operations\<close>

lemma get_state_new [simp]: "get_state sm_new cid = None"
  by (simp add: get_state_def sm_new_def)

lemma get_state_upd [simp]:
  "get_state (sm\<lparr>states := fmupd cid st (states sm)\<rparr>) c = (if c = cid then Some st else get_state sm c)"
  by (simp add: get_state_def)

lemma transition_to_Ok: "transition_to pr cur nxt = Ok s \<longleftrightarrow> is_valid_transition cur nxt \<and> s = nxt"
  by (auto simp: transition_to_def)

lemma transition_Ok_iff:
  "fst (transition pr sm cid nxt) = Ok s \<longleftrightarrow>
     s = nxt \<and> (\<exists>cur. get_state sm cid = Some cur \<and> is_valid_transition cur nxt)"
  by (auto simp: transition_def get_state_def transition_to_def split: option.splits)

lemma transition_valid:
  assumes "get_state sm cid = Some cur" "is_valid_transition cur nxt"
  shows "transition pr sm cid nxt = (Ok nxt, sm\<lparr>states := fmupd cid nxt (states sm)\<rparr>)"
  using assms by (simp add: transition_def get_state_def transition_to_def)

lemma transition_invalid:
  assumes "get_state sm cid = Some cur" "\<not> is_valid_transition cur nxt"
  shows "snd (transition pr sm cid nxt) = sm" "fst (transition pr sm cid nxt) \<noteq> Ok s"
    "fst (transition Debug sm cid nxt) = Panic"
    "fst (transition Release sm cid nxt) =
       Err (InvalidStateTransition (debug_chunk_state cur) (debug_chunk_state nxt))"
  using assms by (auto simp: transition_def get_state_def transition_to_def)

lemma get_state_transition:
  "get_state (snd (transition pr sm cid nxt)) c =
     (if c = cid \<and> is_ok (fst (transition pr sm cid nxt)) then Some nxt else get_state sm c)"
  by (auto simp: transition_def get_state_def transition_to_def split: option.splits)

lemma register_Ok_iff: "fst (register sm cid) = Ok () \<longleftrightarrow> get_state sm cid = None"
  by (auto simp: register_def get_state_def fmlookup_dom_iff)

lemma get_state_register:
  "get_state (snd (register sm cid)) c =
     (if c = cid \<and> get_state sm cid = None then Some Allocated else get_state sm c)"
  by (auto simp: register_def get_state_def fmlookup_dom_iff)

lemma get_state_remove:
  "get_state (snd (sm_remove sm cid)) c = (if c = cid then None else get_state sm c)"
  by (simp add: sm_remove_def get_state_def)

lemma chunks_in_state_select: "chunks_in_state sm st = bt.select (\<lambda>s. s = st) (states sm)"
  by (simp add: chunks_in_state_def bt_entries_def bt.select_def filter_map comp_def)
     (rule filter_cong, auto simp: fmlookup_dom_iff)

lemma in_chunks_in_state: "cid \<in> set (chunks_in_state sm st) \<longleftrightarrow> get_state sm cid = Some st"
  by (simp add: chunks_in_state_select bt.select_iff get_state_def)

lemma sorted_chunks_in_state: "sorted (chunks_in_state sm st) \<and> distinct (chunks_in_state sm st)"
  by (simp add: chunks_in_state_select bt.select_sorted bt.select_distinct)


section \<open>The lifecycle as a specification\<close>

text \<open>
  What may happen to a chunk, by the event that moves it: its data is written, it is promoted to or
  demoted from the cache, a migration begins from a readable state and ends in success, failure or
  cancellation, a failed chunk is recovered or given up, a stored one is evicted.
\<close>

inductive lifecycle :: "chunk_state \<Rightarrow> chunk_state \<Rightarrow> bool" where
  written: "lifecycle Allocated Stored"
| promoted: "lifecycle Stored Cached"
| demoted: "lifecycle Cached Stored"
| migration_begins: "s = Stored \<or> s = Cached \<Longrightarrow> lifecycle s Migrating"
| migration_ends: "t = Stored \<or> t = Failed \<or> t = Evicted \<Longrightarrow> lifecycle Migrating t"
| recovered: "t = Stored \<or> t = Evicted \<Longrightarrow> lifecycle Failed t"
| evicted_directly: "lifecycle Stored Evicted"

code_pred lifecycle .

inductive_simps lifecycle_from [simp]:
  "lifecycle Allocated t" "lifecycle Stored t" "lifecycle Cached t" "lifecycle Migrating t" "lifecycle Failed t" "lifecycle Evicted t"

lemma valid_iff_lifecycle: "is_valid_transition s t \<longleftrightarrow> lifecycle s t"
  by (cases s; cases t) simp_all

text \<open>The calls of the tracker, with what they answer.\<close>

datatype sm_op = OpRegister chunk_id | OpTransition chunk_id chunk_state | OpRemove chunk_id | OpGet chunk_id | OpInState chunk_state | OpLen

datatype sm_out =
    Registered "unit ghost_result"
  | Moved "chunk_state ghost_result"
  | Removed "chunk_state option"
  | Got "chunk_state option"
  | Listed "chunk_id list"
  | Counted nat

fun sm_step :: "profile \<Rightarrow> sm_op \<Rightarrow> state_machine \<Rightarrow> sm_out \<times> state_machine" where
  "sm_step pr (OpRegister c) sm = map_prod Registered id (register sm c)"
| "sm_step pr (OpTransition c s) sm = map_prod Moved id (transition pr sm c s)"
| "sm_step pr (OpRemove c) sm = map_prod Removed id (sm_remove sm c)"
| "sm_step pr (OpGet c) sm = (Got (get_state sm c), sm)"
| "sm_step pr (OpInState s) sm = (Listed (chunks_in_state sm s), sm)"
| "sm_step pr OpLen sm = (Counted (sm_len sm), sm)"

fun sm_run :: "profile \<Rightarrow> sm_op list \<Rightarrow> state_machine \<Rightarrow> sm_out list \<times> state_machine" where
  "sm_run pr [] sm = ([], sm)"
| "sm_run pr (op # ops) sm = (let (r, sm1) = sm_step pr op sm; (rs, sm2) = sm_run pr ops sm1 in (r # rs, sm2))"

text \<open>
  The specification of the calls over the partial function from chunks to states: one independent
  lifecycle per chunk, and the answers it gives.
\<close>

fun sm_spec :: "profile \<Rightarrow> sm_op \<Rightarrow> (chunk_id \<rightharpoonup> chunk_state) \<Rightarrow> sm_out \<times> (chunk_id \<rightharpoonup> chunk_state)" where
  "sm_spec pr (OpRegister c) m = (case m c of
     None \<Rightarrow> (Registered (Ok ()), m(c \<mapsto> Allocated))
   | Some _ \<Rightarrow> (Registered (Err (Internal [Lit ''chunk '', FmtChunk c, Lit '' is already registered in the state machine''])), m))"
| "sm_spec pr (OpTransition c t) m = (case m c of
     None \<Rightarrow> (Moved (Err (Internal [Lit ''chunk '', FmtChunk c, Lit '' not found in state machine''])), m)
   | Some s \<Rightarrow> if lifecycle s t then (Moved (Ok t), m(c \<mapsto> t))
       else (Moved (case pr of Debug \<Rightarrow> Panic | Release \<Rightarrow> Err (InvalidStateTransition (debug_chunk_state s) (debug_chunk_state t))), m))"
| "sm_spec pr (OpRemove c) m = (Removed (m c), m(c := None))"
| "sm_spec pr (OpGet c) m = (Got (m c), m)"
| "sm_spec pr (OpInState s) m = (Listed (sorted_list_of_set {c. m c = Some s}), m)"
| "sm_spec pr OpLen m = (Counted (card (dom m)), m)"

fun sm_spec_run :: "profile \<Rightarrow> sm_op list \<Rightarrow> (chunk_id \<rightharpoonup> chunk_state) \<Rightarrow> sm_out list \<times> (chunk_id \<rightharpoonup> chunk_state)" where
  "sm_spec_run pr [] m = ([], m)"
| "sm_spec_run pr (op # ops) m = (let (r, m1) = sm_spec pr op m; (rs, m2) = sm_spec_run pr ops m1 in (r # rs, m2))"

lemma chunks_in_state_set: "chunks_in_state sm st = sorted_list_of_set {c. get_state sm c = Some st}"
proof -
  have "{c. get_state sm c = Some st} = set (chunks_in_state sm st)" by (auto simp: in_chunks_in_state)
  then show ?thesis using sorted_chunks_in_state [of sm st] by (simp add: sorted_list_of_set.idem_if_sorted_distinct)
qed

lemma sm_len_card: "sm_len sm = card (dom (get_state sm))"
proof -
  have "dom (get_state sm) = set (bt_keys (states sm))" by (auto simp: get_state_def fmlookup_dom_iff)
  then show ?thesis using distinct_card [of "bt_keys (states sm)"] by (simp add: sm_len_def bt_len_def)
qed

lemma sm_step_spec: "sm_spec pr op (get_state sm) = (fst (sm_step pr op sm), get_state (snd (sm_step pr op sm)))"
proof (cases op)
  case (OpRegister c)
  then show ?thesis by (auto simp: fun_eq_iff register_def get_state_def fmlookup_dom_iff split: option.splits)
next
  case (OpTransition c s)
  then show ?thesis
    by (cases pr) (auto simp: fun_eq_iff transition_def get_state_def transition_to_def valid_iff_lifecycle split: option.splits)
next
  case (OpRemove c)
  then show ?thesis by (auto simp: fun_eq_iff sm_remove_def get_state_def)
qed (simp_all add: chunks_in_state_set sm_len_card)

text \<open>
  C1: for every sequence of calls of the tracker (register, transition, remove and the queries), in
  either build profile, each call answers what one independent lifecycle automaton per chunk
  answers (refusals, panics and error texts included), and the tracker holds the states of the
  automata at the end.
\<close>

theorem sm_run_refines_spec:
  "sm_spec_run pr ops (get_state sm) = (fst (sm_run pr ops sm), get_state (snd (sm_run pr ops sm)))"
  by (induction ops arbitrary: sm) (simp_all add: sm_step_spec Let_def split: prod.split)

text \<open>
  The predicate \<open>is_terminal\<close> holds of exactly the states that have no valid transition out, and the only
  such state is \<open>Evicted\<close>; every other state can reach it.
\<close>

theorem terminal_iff_stuck:
  "(is_terminal s \<longleftrightarrow> (\<forall>t. \<not> is_valid_transition s t))
   \<and> (is_terminal s \<longleftrightarrow> s = Evicted) \<and> is_valid_transition\<^sup>*\<^sup>* s Evicted"
proof -
  have "is_terminal s \<longleftrightarrow> (\<forall>t. \<not> is_valid_transition s t)"
    by (cases s) (auto intro: exI [of _ Stored] exI [of _ Evicted])
  moreover have "is_terminal s \<longleftrightarrow> s = Evicted" by (cases s) auto
  moreover have st: "is_valid_transition\<^sup>*\<^sup>* Stored Evicted" by auto
  moreover have "s = Evicted \<or> s = Stored \<or> is_valid_transition s Stored" by (cases s) auto
  ultimately show ?thesis by (auto intro: converse_rtranclp_into_rtranclp)
qed

lemma evicted_absorbing: "is_valid_transition\<^sup>*\<^sup>* Evicted s \<Longrightarrow> s = Evicted"
  by (induction rule: rtranclp_induct) auto

lemma allocated_never_reentered: "is_valid_transition\<^sup>+\<^sup>+ s t \<Longrightarrow> t \<noteq> Allocated"
  by (induction rule: tranclp_induct) (auto elim: is_valid_transition.elims)

end
