(* ===== verification/Pressure_Model.thy ===== *)
theory Pressure_Model
  imports Core_Types
begin

text \<open>
  \<^verbatim>\<open>ghost-core/src/state.rs\<close>, second half: the pressure readings that drive migration and the
  physical cost of a tier, both over IEEE floats.
\<close>

section \<open>Pressure\<close>

record pressure_state =
  memory_pressure :: f32
  vram_pressure :: f32
  io_pressure :: f32
  queue_depth :: u32
  throughput_bps :: u64

definition pressure_new :: pressure_state where
  "pressure_new = \<lparr>memory_pressure = f32_lit 0, vram_pressure = f32_lit 0, io_pressure = f32_lit 0,
     queue_depth = 0, throughput_bps = 0\<rparr>"

definition is_under_pressure :: "pressure_state \<Rightarrow> bool" where
  "is_under_pressure p =
     (fgt (memory_pressure p) (f32_lit (7 / 10)) \<or> fgt (vram_pressure p) (f32_lit (7 / 10))
      \<or> fgt (io_pressure p) (f32_lit (7 / 10)))"

definition is_critical :: "pressure_state \<Rightarrow> bool" where
  "is_critical p =
     (fgt (memory_pressure p) (f32_lit (9 / 10)) \<or> fgt (vram_pressure p) (f32_lit (9 / 10))
      \<or> fgt (io_pressure p) (f32_lit (9 / 10)))"

definition worst_tier :: "pressure_state \<Rightarrow> tier_id" where
  "worst_tier p =
     (let (m, worst) = (if fgt (vram_pressure p) (memory_pressure p) then (vram_pressure p, GpuVram)
                        else (memory_pressure p, Ram))
      in if fgt (io_pressure p) m then Disk else worst)"

definition max_pressure :: "pressure_state \<Rightarrow> f32" where
  "max_pressure p = fmax (fmax (memory_pressure p) (vram_pressure p)) (io_pressure p)"

definition clamp :: "pressure_state \<Rightarrow> (pressure_state, 'e) outcome" where
  "clamp p = (case fclamp (memory_pressure p) (f32_lit 0) (f32_lit 1) of
       Ok m \<Rightarrow> (case fclamp (vram_pressure p) (f32_lit 0) (f32_lit 1) of
          Ok v \<Rightarrow> (case fclamp (io_pressure p) (f32_lit 0) (f32_lit 1) of
             Ok i \<Rightarrow> Ok (p\<lparr>memory_pressure := m, vram_pressure := v, io_pressure := i\<rparr>)
           | Err e \<Rightarrow> Err e | Panic \<Rightarrow> Panic)
        | Err e \<Rightarrow> Err e | Panic \<Rightarrow> Panic)
     | Err e \<Rightarrow> Err e | Panic \<Rightarrow> Panic)"

section \<open>Physical cost\<close>

record physical_cost =
  latency_ms :: f64
  bandwidth_bps :: f64
  reliability :: f64
  cost_io_pressure :: f32
  cost_queue_depth :: u32

definition physical_cost_new :: physical_cost where
  "physical_cost_new = \<lparr>latency_ms = f64_lit 0, bandwidth_bps = f64_lit 0, reliability = f64_lit 1,
     cost_io_pressure = f32_lit 0, cost_queue_depth = 0\<rparr>"

text \<open>The \<^verbatim>\<open>f32 as f64\<close> cast of \<open>io_pressure\<close> is exact, so it is the identity on the value.\<close>

definition cost_score :: "physical_cost \<Rightarrow> f64" where
  "cost_score c =
     (let latency_factor = fmax (latency_ms c) (f64_lit 1);
          bandwidth_factor = (if fgt (bandwidth_bps c) (f64_lit 0)
             then fdiv binary64 (f64_lit 1)
                    (fmin (fdiv binary64 (bandwidth_bps c) (f64_lit 1000000)) (f64_lit 100))
             else f64_lit 100);
          reliability_penalty = fmul binary64 (fsub binary64 (f64_lit 1) (reliability c)) (f64_lit 10);
          pressure_penalty = fmul binary64 (cost_io_pressure c) (f64_lit 5);
          queue_penalty = fmul binary64 (fmin (of_word binary64 (cost_queue_depth c)) (f64_lit 100)) (f64_lit (1 / 10))
      in fadd binary64 (fadd binary64 (fadd binary64 (fadd binary64
           latency_factor bandwidth_factor) reliability_penalty) pressure_penalty) queue_penalty)"

definition is_too_pressured :: "physical_cost \<Rightarrow> bool" where
  "is_too_pressured c = (fgt (cost_io_pressure c) (f32_lit (85 / 100)) \<or> cost_queue_depth c > 64)"

section \<open>Facts\<close>

lemmas f32_eval = f32_lit_def binary32_def max_fin_def power_int_def power_one_over

lemma f32_7 [simp]: "f32_lit (7 / 10) = Fin (11744051 / 16777216)"
  unfolding f32_lit_def
  by (subst rnd_eval [where k = "- 1" and e = "- 24" and m = 11744051]) (simp_all add: f32_eval)

lemma f32_9 [simp]: "f32_lit (9 / 10) = Fin (15099494 / 16777216)"
  unfolding f32_lit_def
  by (subst rnd_eval [where k = "- 1" and e = "- 24" and m = 15099494]) (simp_all add: f32_eval)

lemma f32_85 [simp]: "f32_lit (85 / 100) = Fin (14260634 / 16777216)"
  unfolding f32_lit_def
  by (subst rnd_eval [where k = "- 1" and e = "- 24" and m = 14260634]) (simp_all add: f32_eval)

lemma f32_0 [simp]: "f32_lit 0 = Fin 0"
  by (simp add: f32_lit_def)

lemma f32_1 [simp]: "f32_lit 1 = Fin 1"
  by (simp add: f32_lit_def)

lemma f64_0 [simp]: "f64_lit 0 = Fin 0"
  by (simp add: f64_lit_def)

lemma f64_1 [simp]: "f64_lit 1 = Fin 1"
  by (simp add: f64_lit_def)

text \<open>The pressure values the monitor produces are numbers of the unit interval.\<close>

definition unit_pressure :: "pressure_state \<Rightarrow> bool" where
  "unit_pressure p \<longleftrightarrow> in_unit (memory_pressure p) \<and> in_unit (vram_pressure p) \<and> in_unit (io_pressure p)"

text \<open>
  A system that is critical is also under pressure, for any readings, NaN included.
\<close>

theorem critical_imp_under_pressure: "is_critical p \<Longrightarrow> is_under_pressure p"
proof -
  have le: "fle (f32_lit (7 / 10)) (f32_lit (9 / 10))" by simp
  show "is_critical p \<Longrightarrow> is_under_pressure p"
    unfolding is_critical_def is_under_pressure_def using fle_flt_trans [OF le] by blast
qed

text \<open>A reading with RAM at 0.95, VRAM at 0.25 and I/O at 0.5.\<close>

definition busy :: pressure_state where
  "busy = \<lparr>memory_pressure = Fin (61 / 64), vram_pressure = Fin (1 / 4), io_pressure = Fin (1 / 2),
     queue_depth = 3, throughput_bps = 0\<rparr>"

theorem critical_imp_under_pressure_witness: "is_critical busy \<and> is_under_pressure busy"
proof -
  have c: "is_critical busy" by (simp add: is_critical_def busy_def)
  show ?thesis using c critical_imp_under_pressure [OF c] by simp
qed

lemma under_pressure_iff_max: "is_under_pressure p \<longleftrightarrow> fgt (max_pressure p) (f32_lit (7 / 10))"
  by (simp add: is_under_pressure_def max_pressure_def fmax_gt_iff)

lemma critical_iff_max: "is_critical p \<longleftrightarrow> fgt (max_pressure p) (f32_lit (9 / 10))"
  by (simp add: is_critical_def max_pressure_def fmax_gt_iff)

fun tier_pressure :: "pressure_state \<Rightarrow> tier_id \<Rightarrow> f32" where
  "tier_pressure p Ram = memory_pressure p"
| "tier_pressure p GpuVram = vram_pressure p"
| "tier_pressure p Disk = io_pressure p"
| "tier_pressure p Simulation = f32_lit 0"

text \<open>
  For readings that are numbers, the tier reported as worst is one of the three measured
  tiers and its pressure is the maximum over all of them.
\<close>

theorem worst_tier_is_max:
  assumes "memory_pressure p \<noteq> NaN" "vram_pressure p \<noteq> NaN" "io_pressure p \<noteq> NaN"
  shows "worst_tier p \<noteq> Simulation \<and> tier_pressure p (worst_tier p) = max_pressure p"
proof (cases "memory_pressure p"; cases "vram_pressure p"; cases "io_pressure p")
qed (use assms in \<open>auto simp: worst_tier_def max_pressure_def fmax_def flt_def\<close>)

theorem worst_tier_is_max_witness:
  "worst_tier busy = Ram \<and> tier_pressure busy (worst_tier busy) = max_pressure busy"
proof -
  have n: "memory_pressure busy \<noteq> NaN" "vram_pressure busy \<noteq> NaN" "io_pressure busy \<noteq> NaN"
    by (simp_all add: busy_def)
  have "worst_tier busy = Ram" by (simp add: worst_tier_def busy_def)
  with worst_tier_is_max [OF n] show ?thesis by simp
qed

text \<open>
  Clamping never panics and puts every reading that is a number into [0, 1]; readings already
  there are kept.
\<close>

theorem clamp_unit_pressure:
  assumes "memory_pressure p \<noteq> NaN" "vram_pressure p \<noteq> NaN" "io_pressure p \<noteq> NaN"
  shows "\<exists>q. clamp p = (Ok q :: (_, 'e) outcome) \<and> unit_pressure q \<and> (unit_pressure p \<longrightarrow> q = p)"
proof -
  have keep: "flt x (Fin 0) \<longleftrightarrow> False" "flt (Fin 1) x \<longleftrightarrow> False" if "in_unit x" for x
    using that by (auto simp: in_unit_iff)
  show ?thesis
    using assms by (auto simp: clamp_def fclamp_def unit_pressure_def keep clamp_unit)
qed


theorem clamp_unit_pressure_witness:
  "\<exists>q. clamp (busy\<lparr>io_pressure := PInf\<rparr>) = (Ok q :: (_, unit) outcome) \<and> unit_pressure q
     \<and> (unit_pressure (busy\<lparr>io_pressure := PInf\<rparr>) \<longrightarrow> q = busy\<lparr>io_pressure := PInf\<rparr>)"
  by (rule clamp_unit_pressure) (simp_all add: busy_def)

end
