(* ===== verification/Transfer_Job.thy ===== *)
theory Transfer_Job
  imports Core_Types
begin

text \<open>
  \<^verbatim>\<open>ghost-core/src/transfer.rs\<close>: priorities, the stages of a transfer and the job record that
  the queue, the scheduler and the workers pass around. An \<^verbatim>\<open>Instant\<close> is a number of
  nanoseconds since an arbitrary origin.
\<close>

type_synonym instant = nat

datatype transfer_priority = Low | Normal | High | Critical

fun priority_value :: "transfer_priority \<Rightarrow> u8" where
  "priority_value Low = 0"
| "priority_value Normal = 1"
| "priority_value High = 2"
| "priority_value Critical = 3"

definition is_higher_than :: "transfer_priority \<Rightarrow> transfer_priority \<Rightarrow> bool" where
  "is_higher_than a b = (priority_value a > priority_value b)"

fun display_priority :: "transfer_priority \<Rightarrow> string" where
  "display_priority Low = ''low''"
| "display_priority Normal = ''normal''"
| "display_priority High = ''high''"
| "display_priority Critical = ''critical''"

datatype transfer_state =
  Queued | Compressing | Transferring | Writing | Verifying | Complete | TransferFailedState | TransferCancelledState

definition transfer_is_terminal :: "transfer_state \<Rightarrow> bool" where
  "transfer_is_terminal s = (s \<in> {Complete, TransferFailedState, TransferCancelledState})"

definition is_active :: "transfer_state \<Rightarrow> bool" where
  "is_active s = (s \<in> {Compressing, Transferring, Writing, Verifying})"

fun display_transfer_state :: "transfer_state \<Rightarrow> string" where
  "display_transfer_state Queued = ''queued''"
| "display_transfer_state Compressing = ''compressing''"
| "display_transfer_state Transferring = ''transferring''"
| "display_transfer_state Writing = ''writing''"
| "display_transfer_state Verifying = ''verifying''"
| "display_transfer_state Complete = ''complete''"
| "display_transfer_state TransferFailedState = ''failed''"
| "display_transfer_state TransferCancelledState = ''cancelled''"

record transfer_job =
  job_chunk :: chunk_id
  from_tier :: tier_id
  to_tier :: tier_id
  job_size :: usize
  priority :: transfer_priority
  job_state :: transfer_state
  created_at :: instant
  created_at_secs :: u64
  attempts :: u32

text \<open>\<open>now_secs\<close> is the Unix time in seconds and \<open>inst\<close> the \<^verbatim>\<open>Instant\<close> read at creation.\<close>

definition transfer_job_new ::
  "u64 \<Rightarrow> instant \<Rightarrow> chunk_id \<Rightarrow> tier_id \<Rightarrow> tier_id \<Rightarrow> usize \<Rightarrow> transfer_priority \<Rightarrow> transfer_job" where
  "transfer_job_new now_secs inst cid f t sz p =
     \<lparr>job_chunk = cid, from_tier = f, to_tier = t, job_size = sz, priority = p, job_state = Queued,
      created_at = inst, created_at_secs = now_secs, attempts = 0\<rparr>"

definition record_attempt :: "profile \<Rightarrow> transfer_job \<Rightarrow> (transfer_job, 'e) outcome" where
  "record_attempt pr j = (case add_pr pr (attempts j) 1 of
      Ok n \<Rightarrow> Ok (j\<lparr>attempts := n\<rparr>) | Err e \<Rightarrow> Err e | Panic \<Rightarrow> Panic)"

definition transition_state :: "transfer_state \<Rightarrow> transfer_job \<Rightarrow> transfer_job" where
  "transition_state s j = j\<lparr>job_state := s\<rparr>"

definition elapsed :: "instant \<Rightarrow> transfer_job \<Rightarrow> nat" where
  "elapsed now j = now - created_at j"

definition is_timed_out :: "instant \<Rightarrow> nat \<Rightarrow> transfer_job \<Rightarrow> bool" where
  "is_timed_out now timeout j = (elapsed now j > timeout)"

definition is_urgent :: "transfer_job \<Rightarrow> bool" where
  "is_urgent j = (priority j \<in> {High, Critical})"

lemma is_higher_than_Normal: "is_higher_than p Normal \<longleftrightarrow> p \<in> {High, Critical}"
  by (cases p) (simp_all add: is_higher_than_def word_less_nat_alt)

lemma is_urgent_iff: "is_urgent j \<longleftrightarrow> is_higher_than (priority j) Normal"
  by (simp add: is_urgent_def is_higher_than_Normal)

lemma priority_value_inj: "priority_value p = priority_value q \<longleftrightarrow> p = q"
  by (cases p; cases q) simp_all

lemma is_higher_than_total: "p \<noteq> q \<Longrightarrow> is_higher_than p q \<noteq> is_higher_than q p"
  using priority_value_inj [of p q] by (auto simp: is_higher_than_def)

end
