(* ===== verification/Trace.thy ===== *)
theory Trace
  imports Chunk_State Pressure_Model Transfer_Job
begin

text \<open>
  \<^verbatim>\<open>ghost-core/src/trace.rs\<close> and \<^verbatim>\<open>ghost-daemon/src/trace_log.rs\<close>: the trace events, their
  accessors, the two ways of stamping an event, and the bounded append-only log. The last field
  of every event is its timestamp.
\<close>

section \<open>Events\<close>

datatype eviction_reason = Capacity | Pressure | Policy | Manual

fun display_eviction_reason :: "eviction_reason \<Rightarrow> string" where
  "display_eviction_reason Capacity = ''capacity''"
| "display_eviction_reason Pressure = ''pressure''"
| "display_eviction_reason Policy = ''policy''"
| "display_eviction_reason Manual = ''manual''"

datatype (plugins only: code size) trace_event =
    ChunkCreated chunk_id usize tier_id u64
  | ChunkDeleted chunk_id tier_id u64
  | ChunkStateChanged chunk_id chunk_state chunk_state u64
  | TransferQueued chunk_id tier_id tier_id transfer_priority u64
  | TransferStarted transfer_job u64
  | TransferCompleted chunk_id tier_id tier_id usize u64 u64
  | TransferFailed chunk_id tier_id tier_id message u32 u64
  | TransferRetry chunk_id tier_id tier_id u32 u64
  | TransferCancelled chunk_id tier_id tier_id u64
  | PressureSample pressure_state u64
  | PressureAlert f32 f32 f32 u64
  | Eviction chunk_id tier_id eviction_reason u64
  | PolicyDecision chunk_id tier_id tier_id message u64
  | DaemonStarted u64
  | DaemonStopping u64
  | BackendRegistered tier_id u64
  | WorkerSpawned usize u64
  | WorkerStopped usize u64
  | IpcRequestReceived string u64
  | IpcResponseSent string bool u64
  | IpcConnectionAccepted u64
  | IpcConnectionClosed u64
  | CompressionStarted chunk_id usize u64
  | CompressionCompleted chunk_id usize usize u64
  | DecompressionStarted chunk_id usize u64
  | DecompressionCompleted chunk_id usize usize u64
  | BackendDegraded tier_id message u64
  | BackendRecovered tier_id u64
  | MigrationRolledBack chunk_id tier_id tier_id message u64
  | RetryExhausted chunk_id tier_id tier_id u32 u64
  | PressureEscalated f32 f32 f32 u64
  | AllocationFailed tier_id usize message u64
  | QueueThrottled usize usize u64
  | PromotionQueued chunk_id tier_id tier_id u64
  | EvictionQueued chunk_id tier_id eviction_reason u64
  | BackpressureActivated f32 f32 f32 u64
  | BackpressureReleased f32 f32 f32 u64
  | MetricsExported usize u64

primrec timestamp :: "trace_event \<Rightarrow> u64" where
  "timestamp (ChunkCreated a b c t) = t"
| "timestamp (ChunkDeleted a b t) = t"
| "timestamp (ChunkStateChanged a b c t) = t"
| "timestamp (TransferQueued a b c d t) = t"
| "timestamp (TransferStarted a t) = t"
| "timestamp (TransferCompleted a b c d e t) = t"
| "timestamp (TransferFailed a b c d e t) = t"
| "timestamp (TransferRetry a b c d t) = t"
| "timestamp (TransferCancelled a b c t) = t"
| "timestamp (PressureSample a t) = t"
| "timestamp (PressureAlert a b c t) = t"
| "timestamp (Eviction a b c t) = t"
| "timestamp (PolicyDecision a b c d t) = t"
| "timestamp (DaemonStarted t) = t"
| "timestamp (DaemonStopping t) = t"
| "timestamp (BackendRegistered a t) = t"
| "timestamp (WorkerSpawned a t) = t"
| "timestamp (WorkerStopped a t) = t"
| "timestamp (IpcRequestReceived a t) = t"
| "timestamp (IpcResponseSent a b t) = t"
| "timestamp (IpcConnectionAccepted t) = t"
| "timestamp (IpcConnectionClosed t) = t"
| "timestamp (CompressionStarted a b t) = t"
| "timestamp (CompressionCompleted a b c t) = t"
| "timestamp (DecompressionStarted a b t) = t"
| "timestamp (DecompressionCompleted a b c t) = t"
| "timestamp (BackendDegraded a b t) = t"
| "timestamp (BackendRecovered a t) = t"
| "timestamp (MigrationRolledBack a b c d t) = t"
| "timestamp (RetryExhausted a b c d t) = t"
| "timestamp (PressureEscalated a b c t) = t"
| "timestamp (AllocationFailed a b c t) = t"
| "timestamp (QueueThrottled a b t) = t"
| "timestamp (PromotionQueued a b c t) = t"
| "timestamp (EvictionQueued a b c t) = t"
| "timestamp (BackpressureActivated a b c t) = t"
| "timestamp (BackpressureReleased a b c t) = t"
| "timestamp (MetricsExported a t) = t"

primrec event_chunk_id :: "trace_event \<Rightarrow> chunk_id option" where
  "event_chunk_id (ChunkCreated a b c t) = Some a"
| "event_chunk_id (ChunkDeleted a b t) = Some a"
| "event_chunk_id (ChunkStateChanged a b c t) = Some a"
| "event_chunk_id (TransferQueued a b c d t) = Some a"
| "event_chunk_id (TransferStarted a t) = Some (job_chunk a)"
| "event_chunk_id (TransferCompleted a b c d e t) = Some a"
| "event_chunk_id (TransferFailed a b c d e t) = Some a"
| "event_chunk_id (TransferRetry a b c d t) = Some a"
| "event_chunk_id (TransferCancelled a b c t) = Some a"
| "event_chunk_id (PressureSample a t) = None"
| "event_chunk_id (PressureAlert a b c t) = None"
| "event_chunk_id (Eviction a b c t) = Some a"
| "event_chunk_id (PolicyDecision a b c d t) = Some a"
| "event_chunk_id (DaemonStarted t) = None"
| "event_chunk_id (DaemonStopping t) = None"
| "event_chunk_id (BackendRegistered a t) = None"
| "event_chunk_id (WorkerSpawned a t) = None"
| "event_chunk_id (WorkerStopped a t) = None"
| "event_chunk_id (IpcRequestReceived a t) = None"
| "event_chunk_id (IpcResponseSent a b t) = None"
| "event_chunk_id (IpcConnectionAccepted t) = None"
| "event_chunk_id (IpcConnectionClosed t) = None"
| "event_chunk_id (CompressionStarted a b t) = Some a"
| "event_chunk_id (CompressionCompleted a b c t) = Some a"
| "event_chunk_id (DecompressionStarted a b t) = Some a"
| "event_chunk_id (DecompressionCompleted a b c t) = Some a"
| "event_chunk_id (BackendDegraded a b t) = None"
| "event_chunk_id (BackendRecovered a t) = None"
| "event_chunk_id (MigrationRolledBack a b c d t) = Some a"
| "event_chunk_id (RetryExhausted a b c d t) = Some a"
| "event_chunk_id (PressureEscalated a b c t) = None"
| "event_chunk_id (AllocationFailed a b c t) = None"
| "event_chunk_id (QueueThrottled a b t) = None"
| "event_chunk_id (PromotionQueued a b c t) = Some a"
| "event_chunk_id (EvictionQueued a b c t) = Some a"
| "event_chunk_id (BackpressureActivated a b c t) = None"
| "event_chunk_id (BackpressureReleased a b c t) = None"
| "event_chunk_id (MetricsExported a t) = None"

primrec event_type :: "trace_event \<Rightarrow> string" where
  "event_type (ChunkCreated a b c t) = ''chunk_created''"
| "event_type (ChunkDeleted a b t) = ''chunk_deleted''"
| "event_type (ChunkStateChanged a b c t) = ''chunk_state_changed''"
| "event_type (TransferQueued a b c d t) = ''transfer_queued''"
| "event_type (TransferStarted a t) = ''transfer_started''"
| "event_type (TransferCompleted a b c d e t) = ''transfer_completed''"
| "event_type (TransferFailed a b c d e t) = ''transfer_failed''"
| "event_type (TransferRetry a b c d t) = ''transfer_retry''"
| "event_type (TransferCancelled a b c t) = ''transfer_cancelled''"
| "event_type (PressureSample a t) = ''pressure_sample''"
| "event_type (PressureAlert a b c t) = ''pressure_alert''"
| "event_type (Eviction a b c t) = ''eviction''"
| "event_type (PolicyDecision a b c d t) = ''policy_decision''"
| "event_type (DaemonStarted t) = ''daemon_started''"
| "event_type (DaemonStopping t) = ''daemon_stopping''"
| "event_type (BackendRegistered a t) = ''backend_registered''"
| "event_type (WorkerSpawned a t) = ''worker_spawned''"
| "event_type (WorkerStopped a t) = ''worker_stopped''"
| "event_type (IpcRequestReceived a t) = ''ipc_request_received''"
| "event_type (IpcResponseSent a b t) = ''ipc_response_sent''"
| "event_type (IpcConnectionAccepted t) = ''ipc_connection_accepted''"
| "event_type (IpcConnectionClosed t) = ''ipc_connection_closed''"
| "event_type (CompressionStarted a b t) = ''compression_started''"
| "event_type (CompressionCompleted a b c t) = ''compression_completed''"
| "event_type (DecompressionStarted a b t) = ''decompression_started''"
| "event_type (DecompressionCompleted a b c t) = ''decompression_completed''"
| "event_type (BackendDegraded a b t) = ''backend_degraded''"
| "event_type (BackendRecovered a t) = ''backend_recovered''"
| "event_type (MigrationRolledBack a b c d t) = ''migration_rolled_back''"
| "event_type (RetryExhausted a b c d t) = ''retry_exhausted''"
| "event_type (PressureEscalated a b c t) = ''pressure_escalated''"
| "event_type (AllocationFailed a b c t) = ''allocation_failed''"
| "event_type (QueueThrottled a b t) = ''queue_throttled''"
| "event_type (PromotionQueued a b c t) = ''promotion_queued''"
| "event_type (EvictionQueued a b c t) = ''eviction_queued''"
| "event_type (BackpressureActivated a b c t) = ''backpressure_activated''"
| "event_type (BackpressureReleased a b c t) = ''backpressure_released''"
| "event_type (MetricsExported a t) = ''metrics_exported''"

primrec set_timestamp :: "trace_event \<Rightarrow> u64 \<Rightarrow> trace_event" where
  "set_timestamp (ChunkCreated a b c t) ts = ChunkCreated a b c ts"
| "set_timestamp (ChunkStateChanged a b c t) ts = ChunkStateChanged a b c ts"
| "set_timestamp (ChunkDeleted a b t) ts = ChunkDeleted a b ts"
| "set_timestamp (TransferQueued a b c d t) ts = TransferQueued a b c d ts"
| "set_timestamp (TransferStarted a t) ts = TransferStarted a ts"
| "set_timestamp (TransferCompleted a b c d e t) ts = TransferCompleted a b c d e ts"
| "set_timestamp (TransferFailed a b c d e t) ts = TransferFailed a b c d e ts"
| "set_timestamp (TransferRetry a b c d t) ts = TransferRetry a b c d ts"
| "set_timestamp (TransferCancelled a b c t) ts = TransferCancelled a b c ts"
| "set_timestamp (PressureSample a t) ts = PressureSample a ts"
| "set_timestamp (PressureAlert a b c t) ts = PressureAlert a b c ts"
| "set_timestamp (PolicyDecision a b c d t) ts = PolicyDecision a b c d ts"
| "set_timestamp (Eviction a b c t) ts = Eviction a b c ts"
| "set_timestamp (DaemonStarted t) ts = DaemonStarted ts"
| "set_timestamp (DaemonStopping t) ts = DaemonStopping ts"
| "set_timestamp (BackendRegistered a t) ts = BackendRegistered a ts"
| "set_timestamp (WorkerSpawned a t) ts = WorkerSpawned a ts"
| "set_timestamp (WorkerStopped a t) ts = WorkerStopped a ts"
| "set_timestamp (IpcRequestReceived a t) ts = IpcRequestReceived a ts"
| "set_timestamp (IpcResponseSent a b t) ts = IpcResponseSent a b ts"
| "set_timestamp (IpcConnectionAccepted t) ts = IpcConnectionAccepted ts"
| "set_timestamp (IpcConnectionClosed t) ts = IpcConnectionClosed ts"
| "set_timestamp (CompressionStarted a b t) ts = CompressionStarted a b ts"
| "set_timestamp (CompressionCompleted a b c t) ts = CompressionCompleted a b c ts"
| "set_timestamp (DecompressionStarted a b t) ts = DecompressionStarted a b ts"
| "set_timestamp (DecompressionCompleted a b c t) ts = DecompressionCompleted a b c ts"
| "set_timestamp (BackendDegraded a b t) ts = BackendDegraded a b ts"
| "set_timestamp (BackendRecovered a t) ts = BackendRecovered a ts"
| "set_timestamp (MigrationRolledBack a b c d t) ts = MigrationRolledBack a b c d ts"
| "set_timestamp (RetryExhausted a b c d t) ts = RetryExhausted a b c d ts"
| "set_timestamp (PressureEscalated a b c t) ts = PressureEscalated a b c ts"
| "set_timestamp (AllocationFailed a b c t) ts = AllocationFailed a b c ts"
| "set_timestamp (QueueThrottled a b t) ts = QueueThrottled a b ts"
| "set_timestamp (PromotionQueued a b c t) ts = PromotionQueued a b c ts"
| "set_timestamp (EvictionQueued a b c t) ts = EvictionQueued a b c ts"
| "set_timestamp (BackpressureActivated a b c t) ts = BackpressureActivated a b c ts"
| "set_timestamp (BackpressureReleased a b c t) ts = BackpressureReleased a b c ts"
| "set_timestamp (MetricsExported a t) ts = MetricsExported a ts"

primrec trace_event_now :: "trace_event \<Rightarrow> u64 \<Rightarrow> trace_event" where
  "trace_event_now (ChunkCreated a b c t) ts = ChunkCreated a b c ts"
| "trace_event_now (ChunkDeleted a b t) ts = ChunkDeleted a b ts"
| "trace_event_now (ChunkStateChanged a b c t) ts = ChunkStateChanged a b c ts"
| "trace_event_now (TransferQueued a b c d t) ts = TransferQueued a b c d ts"
| "trace_event_now (TransferStarted a t) ts = TransferStarted a ts"
| "trace_event_now (TransferCompleted a b c d e t) ts = TransferCompleted a b c d e ts"
| "trace_event_now (TransferFailed a b c d e t) ts = TransferFailed a b c d e ts"
| "trace_event_now (TransferRetry a b c d t) ts = TransferRetry a b c d ts"
| "trace_event_now (TransferCancelled a b c t) ts = TransferCancelled a b c ts"
| "trace_event_now (PressureSample a t) ts = PressureSample a ts"
| "trace_event_now (PressureAlert a b c t) ts = PressureAlert a b c ts"
| "trace_event_now (Eviction a b c t) ts = Eviction a b c ts"
| "trace_event_now (PolicyDecision a b c d t) ts = PolicyDecision a b c d ts"
| "trace_event_now (DaemonStarted t) ts = DaemonStarted ts"
| "trace_event_now (DaemonStopping t) ts = DaemonStopping ts"
| "trace_event_now (BackendRegistered a t) ts = BackendRegistered a ts"
| "trace_event_now (WorkerSpawned a t) ts = WorkerSpawned a ts"
| "trace_event_now (WorkerStopped a t) ts = WorkerStopped a ts"
| "trace_event_now (IpcRequestReceived a t) ts = IpcRequestReceived a ts"
| "trace_event_now (IpcResponseSent a b t) ts = IpcResponseSent a b ts"
| "trace_event_now (IpcConnectionAccepted t) ts = IpcConnectionAccepted ts"
| "trace_event_now (IpcConnectionClosed t) ts = IpcConnectionClosed ts"
| "trace_event_now (CompressionStarted a b t) ts = CompressionStarted a b ts"
| "trace_event_now (CompressionCompleted a b c t) ts = CompressionCompleted a b c ts"
| "trace_event_now (DecompressionStarted a b t) ts = DecompressionStarted a b ts"
| "trace_event_now (DecompressionCompleted a b c t) ts = DecompressionCompleted a b c ts"
| "trace_event_now (BackendDegraded a b t) ts = BackendDegraded a b ts"
| "trace_event_now (BackendRecovered a t) ts = BackendRecovered a ts"
| "trace_event_now (MigrationRolledBack a b c d t) ts = MigrationRolledBack a b c d ts"
| "trace_event_now (RetryExhausted a b c d t) ts = RetryExhausted a b c d ts"
| "trace_event_now (PressureEscalated a b c t) ts = PressureEscalated a b c ts"
| "trace_event_now (AllocationFailed a b c t) ts = AllocationFailed a b c ts"
| "trace_event_now (QueueThrottled a b t) ts = QueueThrottled a b ts"
| "trace_event_now (PromotionQueued a b c t) ts = PromotionQueued a b c ts"
| "trace_event_now (EvictionQueued a b c t) ts = EvictionQueued a b c ts"
| "trace_event_now (BackpressureActivated a b c t) ts = BackpressureActivated a b c ts"
| "trace_event_now (BackpressureReleased a b c t) ts = BackpressureReleased a b c ts"
| "trace_event_now (MetricsExported a t) ts = MetricsExported a ts"

text \<open>
  \<^verbatim>\<open>current_timestamp()\<close>: \<^verbatim>\<open>as_millis() as u64\<close> keeps the low 64 bits of the number of
  milliseconds since the epoch.
\<close>

definition current_timestamp :: "nat \<Rightarrow> u64" where
  "current_timestamp nanos = of_nat (nanos div 1000000)"

datatype lifecycle_kind = KDaemonStarted | KDaemonStopping | KIpcConnectionAccepted | KIpcConnectionClosed

fun trace_lifecycle :: "lifecycle_kind \<Rightarrow> u64 \<Rightarrow> trace_event" where
  "trace_lifecycle KDaemonStarted ts = DaemonStarted ts"
| "trace_lifecycle KDaemonStopping ts = DaemonStopping ts"
| "trace_lifecycle KIpcConnectionAccepted ts = IpcConnectionAccepted ts"
| "trace_lifecycle KIpcConnectionClosed ts = IpcConnectionClosed ts"

section \<open>The trace log\<close>

record trace_log =
  log_events :: "trace_event list"
  max_events :: nat
  log_clock :: "u64 option"

text \<open>
  \<open>log_clock\<close> is the reading of the mock clock, if one is set. \<^verbatim>\<open>events.remove(0)\<close> panics on an
  empty vector, which happens exactly when the capacity is zero.
\<close>

definition trace_log_new :: "nat \<Rightarrow> trace_log" where
  "trace_log_new n = \<lparr>log_events = [], max_events = n, log_clock = None\<rparr>"

definition set_clock :: "u64 \<Rightarrow> trace_log \<Rightarrow> trace_log" where
  "set_clock ts l = l\<lparr>log_clock := Some ts\<rparr>"

definition trace_record :: "trace_event \<Rightarrow> (trace_log, unit, 'e) act" where
  "trace_record ev l =
     (if length (log_events l) \<ge> max_events l
      then (case log_events l of
              [] \<Rightarrow> (Panic, l)
            | _ # rest \<Rightarrow> (Ok (), l\<lparr>log_events := rest @ [ev]\<rparr>))
      else (Ok (), l\<lparr>log_events := log_events l @ [ev]\<rparr>))"

definition get_events :: "trace_log \<Rightarrow> trace_event list" where
  "get_events l = log_events l"

definition get_events_since :: "trace_log \<Rightarrow> u64 \<Rightarrow> trace_event list" where
  "get_events_since l ts = filter (\<lambda>e. timestamp e \<ge> ts) (log_events l)"

definition trace_len :: "trace_log \<Rightarrow> nat" where
  "trace_len l = length (log_events l)"

definition trace_is_empty :: "trace_log \<Rightarrow> bool" where
  "trace_is_empty l = (log_events l = [])"

definition trace_clear :: "trace_log \<Rightarrow> trace_log" where
  "trace_clear l = l\<lparr>log_events := []\<rparr>"

definition trace_capacity :: "trace_log \<Rightarrow> nat" where
  "trace_capacity l = max_events l"

definition record_now :: "trace_event \<Rightarrow> (trace_log, unit, 'e) act" where
  "record_now ev l = (case log_clock l of
       Some ts \<Rightarrow> trace_record (set_timestamp ev ts) l
     | None \<Rightarrow> trace_record ev l)"

section \<open>Facts\<close>

text \<open>
  The two ways of stamping an event, the \<^verbatim>\<open>trace_event!\<close> macro and the log's
  \<open>set_timestamp\<close>, agree on every variant; the stamp is what the event then reports and
  nothing else of it changes.
\<close>

theorem stamping_agrees:
  "trace_event_now ev ts = set_timestamp ev ts \<and> timestamp (set_timestamp ev ts) = ts
   \<and> event_chunk_id (set_timestamp ev ts) = event_chunk_id ev
   \<and> event_type (set_timestamp ev ts) = event_type ev
   \<and> set_timestamp ev (timestamp ev) = ev"
  by (cases ev) simp_all

text \<open>The log's contents after any number of records: the most recent \<open>max_events\<close> of them.\<close>

definition log_inv :: "trace_log \<Rightarrow> bool" where
  "log_inv l \<longleftrightarrow> length (log_events l) \<le> max_events l"

fun record_all :: "trace_event list \<Rightarrow> (trace_log, unit, 'e) act" where
  "record_all [] l = (Ok (), l)"
| "record_all (e # es) l = bind_act (trace_record e) (\<lambda>_. record_all es) l"

definition last_n :: "nat \<Rightarrow> 'a list \<Rightarrow> 'a list" where
  "last_n n xs = drop (length xs - n) xs"

lemma last_n_append: "length xs \<le> n \<Longrightarrow> 0 < n \<Longrightarrow>
    last_n n (last_n n (xs @ [y]) @ zs) = last_n n (xs @ y # zs)"
  by (cases "length xs = n") (auto simp: last_n_def Suc_diff_le)

lemma trace_record_last_n:
  assumes "log_inv l" "0 < max_events l"
  shows "trace_record ev l = (Ok (), l\<lparr>log_events := last_n (max_events l) (log_events l @ [ev])\<rparr>)"
  using assms by (cases "log_events l") (auto simp: trace_record_def log_inv_def last_n_def)

lemma trace_record_panics_iff: "log_inv l \<Longrightarrow> fst (trace_record ev l) = Panic \<longleftrightarrow> max_events l = 0"
  by (cases "log_events l") (auto simp: trace_record_def log_inv_def)

text \<open>
  Recording a sequence of events into a log of positive capacity always succeeds and leaves
  exactly the most recent \<open>max_events\<close> events of the old contents followed by the new ones, in
  order.
\<close>

theorem record_all_keeps_recent:
  assumes "log_inv l" "0 < max_events l"
  shows "record_all evs l = (Ok () :: (unit, 'e) outcome,
           l\<lparr>log_events := last_n (max_events l) (log_events l @ evs)\<rparr>)"
  using assms
proof (induction evs arbitrary: l)
  case Nil
  then show ?case by (simp add: last_n_def log_inv_def)
next
  case (Cons e evs)
  let ?l = "l\<lparr>log_events := last_n (max_events l) (log_events l @ [e])\<rparr>"
  have "log_inv ?l" by (simp add: log_inv_def last_n_def)
  from Cons.IH [OF this] Cons.prems have
    "record_all evs ?l = (Ok () :: (unit, 'e) outcome,
       ?l\<lparr>log_events := last_n (max_events l) (last_n (max_events l) (log_events l @ [e]) @ evs)\<rparr>)"
    by simp
  with Cons.prems show ?case
    by (simp add: bind_act_def trace_record_last_n last_n_append log_inv_def)
qed

theorem record_all_keeps_recent_witness:
  "record_all [DaemonStarted 1, DaemonStopping 2, DaemonStarted 3] (trace_log_new 2) =
     (Ok () :: (unit, unit) outcome,
      (trace_log_new 2)\<lparr>log_events := last_n 2 [DaemonStarted 1, DaemonStopping 2, DaemonStarted 3]\<rparr>)"
  using record_all_keeps_recent [of "trace_log_new 2" "[DaemonStarted 1, DaemonStopping 2, DaemonStarted 3]"]
  by (simp add: log_inv_def trace_log_new_def)

lemma record_now_stamps:
  assumes "log_inv l" "0 < max_events l" "log_clock l = Some ts"
  shows "last (log_events (snd (record_now ev l))) = set_timestamp ev ts"
  using assms by (simp add: record_now_def trace_record_last_n last_n_def)

end
