(* ===== verification/Job_Serde.thy ===== *)
theory Job_Serde
  imports Trace
begin

text \<open>
  \<^verbatim>\<open>ghost-core/src/transfer.rs\<close>: the hand-written \<^verbatim>\<open>Serialize\<close> and \<^verbatim>\<open>Deserialize\<close> of a transfer job, and what
  they make of the one event that carries a job. A job is written as a map of eight entries, without its
  \<^verbatim>\<open>created_at\<close>; reading one back sets \<^verbatim>\<open>created_at\<close> to the moment of reading. All other events derive
  their serialisation, which is the library's.
\<close>

section \<open>A job as a map\<close>

text \<open>The values of the entries, by their types.\<close>

datatype job_value = VChunk chunk_id | VTier tier_id | VNumber u64 | VPriority transfer_priority | VState transfer_state | VCount u32

type_synonym job_entries = "(string \<times> job_value) list"

definition serialize_job :: "transfer_job \<Rightarrow> job_entries" where
  "serialize_job j = [(''chunk_id'', VChunk (job_chunk j)), (''from_tier'', VTier (from_tier j)), (''to_tier'', VTier (to_tier j)),
     (''size'', VNumber (job_size j)), (''priority'', VPriority (priority j)), (''state'', VState (job_state j)),
     (''created_at_secs'', VNumber (created_at_secs j)), (''attempts'', VCount (attempts j))]"

text \<open>\<^verbatim>\<open>next_value\<close> at the type of each field: a value of another type is an error.\<close>

fun as_chunk :: "job_value \<Rightarrow> chunk_id option" where
  "as_chunk (VChunk x) = Some x"
| "as_chunk _ = None"

fun as_tier :: "job_value \<Rightarrow> tier_id option" where
  "as_tier (VTier x) = Some x"
| "as_tier _ = None"

fun as_number :: "job_value \<Rightarrow> u64 option" where
  "as_number (VNumber x) = Some x"
| "as_number _ = None"

fun as_priority :: "job_value \<Rightarrow> transfer_priority option" where
  "as_priority (VPriority x) = Some x"
| "as_priority _ = None"

fun as_state :: "job_value \<Rightarrow> transfer_state option" where
  "as_state (VState x) = Some x"
| "as_state _ = None"

fun as_count :: "job_value \<Rightarrow> u32 option" where
  "as_count (VCount x) = Some x"
| "as_count _ = None"

text \<open>The eight local variables of \<^verbatim>\<open>visit_map\<close>.\<close>

record job_fields =
  jf_chunk_id :: "chunk_id option"
  jf_from_tier :: "tier_id option"
  jf_to_tier :: "tier_id option"
  jf_size :: "usize option"
  jf_priority :: "transfer_priority option"
  jf_state :: "transfer_state option"
  jf_created_at_secs :: "u64 option"
  jf_attempts :: "u32 option"

definition no_job_fields :: job_fields where
  "no_job_fields = \<lparr>jf_chunk_id = None, jf_from_tier = None, jf_to_tier = None, jf_size = None, jf_priority = None,
     jf_state = None, jf_created_at_secs = None, jf_attempts = None\<rparr>"

text \<open>One round of the loop over the entries; an unknown key is passed over with its value.\<close>

definition visit_entry :: "string \<Rightarrow> job_value \<Rightarrow> job_fields \<Rightarrow> job_fields option" where
  "visit_entry key v f =
     (if key = ''chunk_id'' then map_option (\<lambda>x. f\<lparr>jf_chunk_id := Some x\<rparr>) (as_chunk v)
      else if key = ''from_tier'' then map_option (\<lambda>x. f\<lparr>jf_from_tier := Some x\<rparr>) (as_tier v)
      else if key = ''to_tier'' then map_option (\<lambda>x. f\<lparr>jf_to_tier := Some x\<rparr>) (as_tier v)
      else if key = ''size'' then map_option (\<lambda>x. f\<lparr>jf_size := Some x\<rparr>) (as_number v)
      else if key = ''priority'' then map_option (\<lambda>x. f\<lparr>jf_priority := Some x\<rparr>) (as_priority v)
      else if key = ''state'' then map_option (\<lambda>x. f\<lparr>jf_state := Some x\<rparr>) (as_state v)
      else if key = ''created_at_secs'' then map_option (\<lambda>x. f\<lparr>jf_created_at_secs := Some x\<rparr>) (as_number v)
      else if key = ''attempts'' then map_option (\<lambda>x. f\<lparr>jf_attempts := Some x\<rparr>) (as_count v)
      else Some f)"

fun visit_entries :: "job_entries \<Rightarrow> job_fields \<Rightarrow> job_fields option" where
  "visit_entries [] f = Some f"
| "visit_entries ((key, v) # es) f = Option.bind (visit_entry key v f) (visit_entries es)"

text \<open>
  After the loop: a missing field is an error. Both ways of the code's \<^verbatim>\<open>checked_add\<close> on the seconds end in
  \<^verbatim>\<open>Instant::now\<close>, whose reading is \<open>inst\<close>.
\<close>

definition assemble_job :: "instant \<Rightarrow> job_fields \<Rightarrow> transfer_job option" where
  "assemble_job inst f =
     Option.bind (jf_chunk_id f) (\<lambda>cid. Option.bind (jf_from_tier f) (\<lambda>ft. Option.bind (jf_to_tier f) (\<lambda>tt.
     Option.bind (jf_size f) (\<lambda>sz. Option.bind (jf_priority f) (\<lambda>p. Option.bind (jf_state f) (\<lambda>st.
     Option.bind (jf_created_at_secs f) (\<lambda>secs. Option.bind (jf_attempts f) (\<lambda>n.
       Some \<lparr>job_chunk = cid, from_tier = ft, to_tier = tt, job_size = sz, priority = p, job_state = st,
             created_at = inst, created_at_secs = secs, attempts = n\<rparr>))))))))"

definition deserialize_job :: "instant \<Rightarrow> job_entries \<Rightarrow> transfer_job option" where
  "deserialize_job inst es = Option.bind (visit_entries es no_job_fields) (assemble_job inst)"

lemma deserialize_serialize [simp]: "deserialize_job inst (serialize_job j) = Some (j\<lparr>created_at := inst\<rparr>)"
  by (simp add: deserialize_job_def serialize_job_def visit_entry_def assemble_job_def no_job_fields_def)

text \<open>
  Two jobs are written alike exactly when they differ in their \<^verbatim>\<open>created_at\<close> only.
\<close>

lemma serialize_job_eq_iff: "serialize_job i = serialize_job j \<longleftrightarrow> i\<lparr>created_at := t\<rparr> = j\<lparr>created_at := t\<rparr>"
  by (cases i; cases j) (auto simp: serialize_job_def)

section \<open>Events as the library sees them\<close>

datatype (plugins only: code size) wire_event = WireStarted job_entries u64 | WirePlain trace_event

definition to_wire :: "trace_event \<Rightarrow> wire_event" where
  "to_wire ev = (case ev of TransferStarted j t \<Rightarrow> WireStarted (serialize_job j) t | _ \<Rightarrow> WirePlain ev)"

primrec of_wire :: "instant \<Rightarrow> wire_event \<Rightarrow> trace_event option" where
  "of_wire inst (WireStarted es t) = map_option (\<lambda>j. TransferStarted j t) (deserialize_job inst es)"
| "of_wire inst (WirePlain ev) = Some ev"

text \<open>
  \<open>lser\<close> and \<open>lde\<close> are bincode on these. \<open>inst k\<close> is the reading of the clock when the event numbered \<open>k\<close> is
  read back.
\<close>

definition event_ser :: "(wire_event \<Rightarrow> bytes option) \<Rightarrow> trace_event \<Rightarrow> bytes option" where
  "event_ser lser ev = lser (to_wire ev)"

definition event_de :: "(bytes \<Rightarrow> wire_event option) \<Rightarrow> (nat \<Rightarrow> instant) \<Rightarrow> nat \<Rightarrow> bytes \<Rightarrow> trace_event option" where
  "event_de lde inst k bs = Option.bind (lde bs) (of_wire (inst k))"

text \<open>What comes back of an event: the event, with the moment of reading in the job it carries.\<close>

definition restamp :: "instant \<Rightarrow> trace_event \<Rightarrow> trace_event" where
  "restamp inst ev = (case ev of TransferStarted j t \<Rightarrow> TransferStarted (j\<lparr>created_at := inst\<rparr>) t | _ \<Rightarrow> ev)"

primrec restamped :: "(nat \<Rightarrow> instant) \<Rightarrow> nat \<Rightarrow> trace_event list \<Rightarrow> trace_event list" where
  "restamped inst k [] = []"
| "restamped inst k (ev # evs) = restamp (inst k) ev # restamped inst (Suc k) evs"

lemma of_to_wire [simp]: "of_wire inst (to_wire ev) = Some (restamp inst ev)"
  by (cases ev) (simp_all add: to_wire_def restamp_def)

lemma to_wire_restamp [simp]: "to_wire (restamp inst ev) = to_wire ev"
  by (cases ev) (simp_all add: to_wire_def restamp_def serialize_job_def)

lemma timestamp_restamp [simp]: "timestamp (restamp inst ev) = timestamp ev"
  by (cases ev) (simp_all add: restamp_def)

lemma to_wire_eq_iff: "to_wire a = to_wire b \<longleftrightarrow> restamp t a = restamp t b"
proof
  assume "to_wire a = to_wire b"
  then have "of_wire t (to_wire a) = of_wire t (to_wire b)" by simp
  then show "restamp t a = restamp t b" by simp
next
  assume "restamp t a = restamp t b"
  then have "to_wire (restamp t a) = to_wire (restamp t b)" by simp
  then show "to_wire a = to_wire b" by simp
qed

lemma length_restamped [simp]: "length (restamped inst k evs) = length evs"
  by (induction evs arbitrary: k) simp_all

text \<open>
  What the code relies on of bincode: the event, as the library sees it, is written to fewer than \<open>2\<^sup>3\<^sup>2\<close> bytes
  and read back from them.
\<close>

definition faithful :: "(wire_event \<Rightarrow> bytes option) \<Rightarrow> (bytes \<Rightarrow> wire_event option) \<Rightarrow> trace_event \<Rightarrow> bool" where
  "faithful lser lde ev \<longleftrightarrow> (case lser (to_wire ev) of None \<Rightarrow> False | Some p \<Rightarrow> lde p = Some (to_wire ev) \<and> length p < 2 ^ 32)"

lemma faithfulE:
  assumes "faithful lser lde ev"
  obtains p where "event_ser lser ev = Some p" "\<And>inst k. event_de lde inst k p = Some (restamp (inst k) ev)" "length p < 2 ^ 32"
  using assms by (auto simp: faithful_def event_ser_def event_de_def split: option.splits)

lemma faithful_inj: "faithful lser lde a \<Longrightarrow> faithful lser lde b \<Longrightarrow> event_ser lser a = event_ser lser b \<Longrightarrow> to_wire a = to_wire b"
  by (auto simp: faithful_def event_ser_def split: option.splits)

end
