(* ===== verification/Transfer_Queue.thy ===== *)
theory Transfer_Queue
  imports Trace "HOL-Library.Multiset"
begin

text \<open>
  \<^verbatim>\<open>ghost-daemon/src/queue.rs\<close>: the bounded transfer queue. High and critical jobs go before
  normal and low ones, first come first served within each class. The theory shows that the
  queue is the concatenation of two FIFO queues, that no accepted job is lost or duplicated, and
  what the error paths do.
\<close>

section \<open>The queue\<close>

record transfer_queue =
  jobs :: "transfer_job list"
  current_depth :: usize
  shutdown_flag :: bool
  capacity :: usize
  queue_log :: trace_log

definition queue_new :: "usize \<Rightarrow> trace_log \<Rightarrow> transfer_queue" where
  "queue_new cap l = \<lparr>jobs = [], current_depth = 0, shutdown_flag = False, capacity = cap, queue_log = l\<rparr>"

abbreviation urgent :: "transfer_job \<Rightarrow> bool" where
  "urgent j \<equiv> is_higher_than (priority j) Normal"

definition queue_record :: "trace_event \<Rightarrow> (transfer_queue, unit, ghost_error) act" where
  "queue_record ev = on_part queue_log (\<lambda>l q. q\<lparr>queue_log := l\<rparr>) (trace_record ev)"

definition queued_event :: "transfer_job \<Rightarrow> u64 \<Rightarrow> trace_event" where
  "queued_event j ts = TransferQueued (job_chunk j) (from_tier j) (to_tier j) (priority j) ts"

definition insert_job :: "transfer_job \<Rightarrow> transfer_job list \<Rightarrow> transfer_job list" where
  "insert_job job js =
     (if is_higher_than (priority job) Normal
      then insert_at (unwrap_or (length js) (position (\<lambda>j. \<not> is_higher_than (priority j) Normal) js)) job js
      else js @ [job])"

definition submit_priority ::
  "profile \<Rightarrow> u64 \<Rightarrow> transfer_job \<Rightarrow> (transfer_queue, unit, ghost_error) act" where
  "submit_priority pr ts job q =
     (if shutdown_flag q then fail Cancelled q
      else if current_depth q \<ge> capacity q
      then bind_act (queue_record (queued_event job ts))
             (\<lambda>_. fail (Internal [Lit ''transfer queue is full (capacity: '', FmtNat (unat (capacity q)), Lit '')''])) q
      else bind_act (lift_outcome (add_pr pr (current_depth q) 1)) (\<lambda>d.
           bind_act (update_act (\<lambda>q. q\<lparr>current_depth := d, jobs := insert_job job (jobs q)\<rparr>)) (\<lambda>_.
           bind_act (queue_record (queued_event job ts)) (\<lambda>_.
           bind_act (lift_outcome (mul_pr pr (capacity q) 3)) (\<lambda>threshold. ret ())))) q)"

definition submit :: "profile \<Rightarrow> u64 \<Rightarrow> transfer_job \<Rightarrow> (transfer_queue, unit, ghost_error) act" where
  "submit pr ts job = submit_priority pr ts job"

definition try_dequeue :: "profile \<Rightarrow> (transfer_queue, transfer_job option, 'e) act" where
  "try_dequeue pr q = (case jobs q of
       [] \<Rightarrow> (Ok None, q)
     | j # js \<Rightarrow> bind_act (lift_outcome (sub_pr pr (current_depth q) 1))
         (\<lambda>d q. (Ok (Some j), q\<lparr>jobs := js, current_depth := d\<rparr>)) q)"

text \<open>One iteration of the waiting loop: \<open>Wait\<close> goes back to sleep on the notifier.\<close>

datatype 'a poll = Ready 'a | Wait

definition dequeue_wait_poll :: "profile \<Rightarrow> (transfer_queue, transfer_job option poll, 'e) act" where
  "dequeue_wait_poll pr q = (case jobs q of
       [] \<Rightarrow> (if shutdown_flag q then (Ok (Ready None), q) else (Ok Wait, q))
     | j # js \<Rightarrow> bind_act (lift_outcome (sub_pr pr (current_depth q) 1))
         (\<lambda>d q. (Ok (Ready (Some j)), q\<lparr>jobs := js, current_depth := d\<rparr>)) q)"

definition depth :: "transfer_queue \<Rightarrow> usize" where
  "depth q = current_depth q"

definition is_full :: "transfer_queue \<Rightarrow> bool" where
  "is_full q = (current_depth q \<ge> capacity q)"

definition queue_is_empty :: "transfer_queue \<Rightarrow> bool" where
  "queue_is_empty q = (current_depth q = 0)"

definition queue_capacity :: "transfer_queue \<Rightarrow> usize" where
  "queue_capacity q = capacity q"

definition queue_shutdown :: "transfer_queue \<Rightarrow> transfer_queue" where
  "queue_shutdown q = q\<lparr>shutdown_flag := True\<rparr>"

definition is_shutdown :: "transfer_queue \<Rightarrow> bool" where
  "is_shutdown q = shutdown_flag q"

section \<open>Invariant\<close>

definition classed :: "transfer_job list \<Rightarrow> bool" where
  "classed js \<longleftrightarrow> js = filter urgent js @ filter (\<lambda>j. \<not> urgent j) js"

definition queue_inv :: "transfer_queue \<Rightarrow> bool" where
  "queue_inv q \<longleftrightarrow> unat (current_depth q) = length (jobs q) \<and> length (jobs q) \<le> unat (capacity q)
     \<and> classed (jobs q)
     \<and> log_inv (queue_log q) \<and> 0 < max_events (queue_log q)"

lemma queue_inv_new [inv_rules]:
  "log_inv l \<Longrightarrow> 0 < max_events l \<Longrightarrow> queue_inv (queue_new cap l)"
  by (simp add: queue_inv_def queue_new_def classed_def)

lemma insert_job_split:
  assumes "js = A @ B" "\<And>a. a \<in> set A \<Longrightarrow> urgent a" "\<And>b. b \<in> set B \<Longrightarrow> \<not> urgent b"
  shows "insert_job job js = (if urgent job then A @ job # B else A @ B @ [job])"
proof -
  have "takeWhile urgent (A @ B) = A" "dropWhile urgent (A @ B) = B"
    using assms(2,3) by (cases B; auto simp: takeWhile_append dropWhile_append)+
  then show ?thesis
    unfolding insert_job_def assms(1) insert_at_position by simp
qed

lemma insert_job_classes:
  assumes cl: "classed js"
  shows "filter urgent (insert_job job js) = filter urgent js @ (if urgent job then [job] else [])"
    and "filter (\<lambda>j. \<not> urgent j) (insert_job job js) =
           filter (\<lambda>j. \<not> urgent j) js @ (if urgent job then [] else [job])"
    and "classed (insert_job job js)"
    and "length (insert_job job js) = Suc (length js)"
proof -
  let ?A = "filter urgent js" and ?B = "filter (\<lambda>j. \<not> urgent j) js"
  have js: "js = ?A @ ?B" using cl by (simp only: classed_def)
  have split: "insert_job job js = (if urgent job then ?A @ job # ?B else ?A @ ?B @ [job])"
    by (rule insert_job_split [OF js]) auto
  show 1: "filter urgent (insert_job job js) = ?A @ (if urgent job then [job] else [])"
    and 2: "filter (\<lambda>j. \<not> urgent j) (insert_job job js) = ?B @ (if urgent job then [] else [job])"
    by (simp_all add: split)
  then show "classed (insert_job job js)" by (simp add: split classed_def)
  have "length js = length ?A + length ?B" by (subst js) simp
  then show "length (insert_job job js) = Suc (length js)" by (simp add: split)
qed

lemma classed_tl: "classed (j # js) \<Longrightarrow> classed js"
  unfolding classed_def by (rule partitioned_tl)

section \<open>Submitting\<close>

definition can_accept :: "profile \<Rightarrow> transfer_queue \<Rightarrow> bool" where
  "can_accept pr q \<longleftrightarrow> \<not> shutdown_flag q \<and> current_depth q < capacity q
     \<and> (pr = Release \<or> unat (capacity q) * 3 < 2 ^ 64)"

lemma depth_succ_fits:
  fixes d c :: usize
  assumes "d < c"
  shows "unat d + unat (1 :: usize) < 2 ^ LENGTH(64)" "unat (d + 1) = Suc (unat d)"
proof -
  have "unat d < unat c" using assms by (simp add: word_less_nat_alt)
  moreover have "unat c < 2 ^ LENGTH(64)" by (rule unsigned_less)
  ultimately show *: "unat d + unat (1 :: usize) < 2 ^ LENGTH(64)" by simp
  show "unat (d + 1) = Suc (unat d)" using unat_add_fits [OF *] by simp
qed

lemma submit_priority_accepts:
  assumes "queue_inv q" "can_accept pr q"
  shows "submit_priority pr ts job q =
    (Ok (), q\<lparr>current_depth := current_depth q + 1, jobs := insert_job job (jobs q),
       queue_log := (queue_log q)\<lparr>log_events :=
         last_n (max_events (queue_log q)) (log_events (queue_log q) @ [queued_event job ts])\<rparr>\<rparr>)"
  using assms depth_succ_fits [of "current_depth q" "capacity q"]
  by (auto simp: submit_priority_def can_accept_def queue_inv_def act_defs queue_record_def
      trace_record_last_n add_pr_def mul_pr_def checked_def)

lemma submit_priority_full:
  assumes "queue_inv q" "\<not> shutdown_flag q" "capacity q \<le> current_depth q"
  shows "submit_priority pr ts job q =
    (Err (Internal [Lit ''transfer queue is full (capacity: '', FmtNat (unat (capacity q)), Lit '')'']),
     q\<lparr>queue_log := (queue_log q)\<lparr>log_events :=
         last_n (max_events (queue_log q)) (log_events (queue_log q) @ [queued_event job ts])\<rparr>\<rparr>)"
  using assms by (simp add: submit_priority_def queue_inv_def act_defs queue_record_def trace_record_last_n)

lemma submit_priority_shutdown:
  "shutdown_flag q \<Longrightarrow> submit_priority pr ts job q = (Err Cancelled, q)"
  by (simp add: submit_priority_def fail_def)

lemma log_inv_last_n [simp]: "log_inv (l\<lparr>log_events := last_n (max_events l) xs\<rparr>)"
  by (simp add: log_inv_def last_n_def)

lemma submit_accept_inv:
  assumes "queue_inv q" "can_accept pr q"
  shows "queue_inv (snd (submit_priority pr ts job q))"
proof -
  have c: "classed (jobs q)" using assms(1) by (simp add: queue_inv_def)
  have d: "current_depth q < capacity q" using assms(2) by (simp add: can_accept_def)
  have "length (jobs q) < unat (capacity q)"
    using assms(1) d by (simp add: queue_inv_def word_less_nat_alt)
  then show ?thesis
    using assms(1) depth_succ_fits(2) [OF d] insert_job_classes(4) [OF c, of job]
      insert_job_classes(3) [OF c, of job]
    by (simp add: submit_priority_accepts [OF assms] queue_inv_def)
qed

lemma submit_debug_overflow:
  assumes "queue_inv q" "\<not> shutdown_flag q" "current_depth q < capacity q" "2 ^ 64 \<le> unat (capacity q) * 3"
  shows "fst (submit_priority Debug ts job q) = Panic"
  using assms depth_succ_fits [of "current_depth q" "capacity q"]
  by (auto simp: submit_priority_def queue_inv_def act_defs queue_record_def
      trace_record_last_n add_pr_def mul_pr_def checked_def)

section \<open>Dequeuing\<close>

lemma try_dequeue_Cons:
  assumes "queue_inv q" "jobs q = j # js"
  shows "try_dequeue pr q = (Ok (Some j), q\<lparr>jobs := js, current_depth := current_depth q - 1\<rparr>)"
proof -
  have "1 \<le> current_depth q" using assms by (simp add: queue_inv_def word_le_nat_alt)
  then show ?thesis using assms(2) by (simp add: try_dequeue_def act_defs sub_pr_fits)
qed

lemma try_dequeue_Nil: "jobs q = [] \<Longrightarrow> try_dequeue pr q = (Ok None, q)"
  by (simp add: try_dequeue_def)

lemma dequeue_wait_poll_eq:
  "dequeue_wait_poll pr q =
     (case try_dequeue pr q of
        (Ok (Some j), q') \<Rightarrow> (Ok (Ready (Some j)), q')
      | (Ok None, q') \<Rightarrow> (Ok (if shutdown_flag q' then Ready None else Wait), q')
      | (Err e, q') \<Rightarrow> (Err e, q')
      | (Panic, q') \<Rightarrow> (Panic, q'))"
  by (simp add: dequeue_wait_poll_def try_dequeue_def act_defs split: list.splits outcome.splits)

lemma try_dequeue_inv:
  assumes "queue_inv q"
  shows "queue_inv (snd (try_dequeue pr q :: (transfer_job option, 'e) outcome \<times> transfer_queue))"
proof (cases "jobs q")
  case Nil
  then show ?thesis using assms by (simp add: try_dequeue_Nil)
next
  case (Cons j js)
  have le: "1 \<le> current_depth q" using assms Cons by (simp add: queue_inv_def word_le_nat_alt)
  have n: "unat (current_depth q - 1) = length js"
    using assms Cons unat_sub_fits [OF le] by (simp add: queue_inv_def)
  have "classed js" using assms Cons classed_tl [of j js] by (simp add: queue_inv_def)
  then show ?thesis using assms Cons n by (simp add: try_dequeue_Cons queue_inv_def)
qed


lemma queue_shutdown_inv: "queue_inv q \<Longrightarrow> queue_inv (queue_shutdown q)"
  by (simp add: queue_inv_def queue_shutdown_def)

lemma submit_not_accept_inv:
  assumes "queue_inv q" "shutdown_flag q \<or> capacity q \<le> current_depth q"
  shows "queue_inv (snd (submit_priority pr ts job q)) \<and> jobs (snd (submit_priority pr ts job q)) = jobs q"
proof (cases "shutdown_flag q")
  case True
  then show ?thesis using assms by (simp add: submit_priority_shutdown)
next
  case False
  with assms have "capacity q \<le> current_depth q" by simp
  from submit_priority_full [OF assms(1) False this] show ?thesis
    using assms by (simp add: queue_inv_def)
qed

section \<open>The queue as two FIFO classes\<close>

text \<open>
  What the orchestrator and the scheduler rely on: an urgent and a regular FIFO class, new jobs
  at the back of their class, the next job from the urgent class first.
\<close>

locale two_class_queue =
  fixes inv :: "'q \<Rightarrow> bool"
    and front :: "'q \<Rightarrow> 'j list"
    and rear :: "'q \<Rightarrow> 'j list"
    and accepts :: "'q \<Rightarrow> bool"
    and is_front :: "'j \<Rightarrow> bool"
    and put :: "'j \<Rightarrow> 'q \<Rightarrow> 'q"
    and pop :: "'q \<Rightarrow> 'j option \<times> 'q"
  assumes put_inv: "inv q \<Longrightarrow> accepts q \<Longrightarrow> inv (put j q)"
    and front_put: "inv q \<Longrightarrow> accepts q \<Longrightarrow> front (put j q) = front q @ (if is_front j then [j] else [])"
    and back_put: "inv q \<Longrightarrow> accepts q \<Longrightarrow> rear (put j q) = rear q @ (if is_front j then [] else [j])"
    and pop_inv: "inv q \<Longrightarrow> inv (snd (pop q))"
    and pop_front: "inv q \<Longrightarrow> front q = j # js \<Longrightarrow>
          fst (pop q) = Some j \<and> front (snd (pop q)) = js \<and> rear (snd (pop q)) = rear q"
    and pop_back: "inv q \<Longrightarrow> front q = [] \<Longrightarrow> rear q = j # js \<Longrightarrow>
          fst (pop q) = Some j \<and> front (snd (pop q)) = [] \<and> rear (snd (pop q)) = js"
    and pop_empty: "inv q \<Longrightarrow> front q = [] \<Longrightarrow> rear q = [] \<Longrightarrow> pop q = (None, q)"
begin

definition contents :: "'q \<Rightarrow> 'j list" where
  "contents q = front q @ rear q"

fun drain :: "nat \<Rightarrow> 'q \<Rightarrow> 'j list" where
  "drain 0 q = []"
| "drain (Suc n) q = (case pop q of (Some j, q') \<Rightarrow> j # drain n q' | (None, q') \<Rightarrow> [])"

lemma pop_contents:
  assumes "inv q"
  shows "pop q = (case contents q of [] \<Rightarrow> (None, q) | j # _ \<Rightarrow> (Some j, snd (pop q)))
     \<and> contents (snd (pop q)) = tl (contents q)"
proof (cases "front q")
  case (Cons j js)
  then show ?thesis using pop_front [OF assms Cons] by (auto simp: contents_def prod_eq_iff)
next
  case front: Nil
  show ?thesis
  proof (cases "rear q")
    case Nil
    then show ?thesis using pop_empty [OF assms front] front by (simp add: contents_def)
  next
    case (Cons j js)
    then show ?thesis using pop_back [OF assms front Cons] front by (auto simp: contents_def prod_eq_iff)
  qed
qed

lemma drain_take: "inv q \<Longrightarrow> drain n q = take n (contents q)"
proof (induction n arbitrary: q)
  case (Suc n)
  from pop_contents [OF Suc.prems] Suc.IH [OF pop_inv [OF Suc.prems]] show ?case
    by (cases "contents q"; cases "pop q") auto
qed simp

lemma drain_all: "inv q \<Longrightarrow> length (contents q) \<le> n \<Longrightarrow> drain n q = front q @ rear q"
  by (simp add: drain_take) (simp add: contents_def)

lemma put_behind_class:
  "inv q \<Longrightarrow> accepts q \<Longrightarrow>
     contents (put j q) = (if is_front j then front q @ j # rear q else front q @ rear q @ [j])"
  by (simp add: contents_def front_put back_put)

end

abbreviation urgent_jobs :: "transfer_queue \<Rightarrow> transfer_job list" where
  "urgent_jobs q \<equiv> filter urgent (jobs q)"

abbreviation regular_jobs :: "transfer_queue \<Rightarrow> transfer_job list" where
  "regular_jobs q \<equiv> filter (\<lambda>j. \<not> urgent j) (jobs q)"

definition pop_job :: "profile \<Rightarrow> transfer_queue \<Rightarrow> transfer_job option \<times> transfer_queue" where
  "pop_job pr q = (case (try_dequeue pr q :: (transfer_job option, unit) outcome \<times> transfer_queue) of
      (Ok j, q') \<Rightarrow> (j, q') | (_, q') \<Rightarrow> (None, q'))"

lemma classed_front:
  assumes "classed js" "filter urgent js = x # xs"
  obtains ys where "js = x # ys" "filter urgent ys = xs" "filter (\<lambda>j. \<not> urgent j) ys = filter (\<lambda>j. \<not> urgent j) js"
proof -
  have "js = x # xs @ filter (\<lambda>j. \<not> urgent j) js" using assms by (simp add: classed_def)
  moreover have "urgent x" using assms(2) by (metis filter_eq_ConsD)
  ultimately show ?thesis using that assms(2)
    by (metis (no_types, lifting) filter.simps(2) list.inject)
qed

interpretation tq: two_class_queue queue_inv urgent_jobs regular_jobs "can_accept pr" urgent
  "\<lambda>j q. snd (submit_priority pr ts j q)" "pop_job pr" for pr ts
proof unfold_locales
  fix q j
  assume inv: "queue_inv q" and acc: "can_accept pr q"
  then have cl: "classed (jobs q)" by (simp add: queue_inv_def)
  show "queue_inv (snd (submit_priority pr ts j q))" using inv acc by (rule submit_accept_inv)
  show "urgent_jobs (snd (submit_priority pr ts j q)) = urgent_jobs q @ (if urgent j then [j] else [])"
    and "regular_jobs (snd (submit_priority pr ts j q)) = regular_jobs q @ (if urgent j then [] else [j])"
    using inv acc insert_job_classes(1,2) [OF cl] by (simp_all add: submit_priority_accepts)
next
  fix q
  assume inv: "queue_inv q"
  show "queue_inv (snd (pop_job pr q))"
    using try_dequeue_inv [where 'e = unit, OF inv, of pr]
    by (auto simp: pop_job_def split: prod.splits outcome.splits)
  show "pop_job pr q = (None, q)" if "urgent_jobs q = []" "regular_jobs q = []"
  proof -
    have "jobs q = []" using inv that by (simp add: queue_inv_def classed_def)
    then show ?thesis by (simp add: pop_job_def try_dequeue_Nil)
  qed
  fix j js
  show "fst (pop_job pr q) = Some j \<and> urgent_jobs (snd (pop_job pr q)) = js
      \<and> regular_jobs (snd (pop_job pr q)) = regular_jobs q" if "urgent_jobs q = j # js"
  proof -
    from inv that obtain ys where "jobs q = j # ys" "filter urgent ys = js"
      "filter (\<lambda>j. \<not> urgent j) ys = regular_jobs q"
      using classed_front [of "jobs q" j js] by (auto simp: queue_inv_def)
    then show ?thesis using inv by (simp add: pop_job_def try_dequeue_Cons)
  qed
  show "fst (pop_job pr q) = Some j \<and> urgent_jobs (snd (pop_job pr q)) = []
      \<and> regular_jobs (snd (pop_job pr q)) = js" if "urgent_jobs q = []" "regular_jobs q = j # js"
  proof -
    have "jobs q = j # js" using inv that by (simp add: queue_inv_def classed_def)
    moreover from this that have "filter urgent js = []" "filter (\<lambda>j. \<not> urgent j) js = js"
      by (auto split: if_splits)
    ultimately show ?thesis using inv by (simp add: pop_job_def try_dequeue_Cons)
  qed
qed


section \<open>Properties\<close>

datatype queue_op = QSubmit u64 transfer_job | QDequeue | QShutdown

text \<open>A run returns the accepted jobs, the dequeued jobs and the final queue.\<close>

fun queue_step :: "profile \<Rightarrow> transfer_queue \<Rightarrow> queue_op \<Rightarrow> transfer_job list \<times> transfer_job list \<times> transfer_queue" where
  "queue_step pr q (QSubmit ts j) = (case submit pr ts j q of
      (Ok _, q') \<Rightarrow> ([j], [], q') | (_, q') \<Rightarrow> ([], [], q'))"
| "queue_step pr q QDequeue = (case (try_dequeue pr q :: (transfer_job option, unit) outcome \<times> transfer_queue) of
      (Ok (Some j), q') \<Rightarrow> ([], [j], q') | (_, q') \<Rightarrow> ([], [], q'))"
| "queue_step pr q QShutdown = ([], [], queue_shutdown q)"

fun queue_run :: "profile \<Rightarrow> transfer_queue \<Rightarrow> queue_op list \<Rightarrow> transfer_job list \<times> transfer_job list \<times> transfer_queue" where
  "queue_run pr q [] = ([], [], q)"
| "queue_run pr q (op # ops) =
     (case queue_step pr q op of (a, d, q') \<Rightarrow>
      case queue_run pr q' ops of (a', d', q'') \<Rightarrow> (a @ a', d @ d', q''))"

lemma mset_insert_job: "classed js \<Longrightarrow> mset (insert_job j js) = add_mset j (mset js)"
proof -
  assume cl: "classed js"
  have "mset (insert_job j js) = mset (filter urgent (insert_job j js)) + mset (filter (\<lambda>j. \<not> urgent j) (insert_job j js))"
    using insert_job_classes(3) [OF cl, of j] by (metis classed_def mset_append)
  also have "\<dots> = add_mset j (mset (filter urgent js) + mset (filter (\<lambda>j. \<not> urgent j) js))"
    by (simp add: insert_job_classes(1,2) [OF cl])
  also have "mset (filter urgent js) + mset (filter (\<lambda>j. \<not> urgent j) js) = mset js"
    using cl by (metis classed_def mset_append)
  finally show ?thesis .
qed

definition step_ok :: "profile \<Rightarrow> transfer_queue \<Rightarrow> bool" where
  "step_ok pr q \<longleftrightarrow> queue_inv q \<and> (pr = Release \<or> unat (capacity q) * 3 < 2 ^ 64)"

lemma queue_step_conserves:
  assumes "step_ok pr q" "queue_step pr q op = (a, d, q')"
  shows "step_ok pr q' \<and> mset (jobs q) + mset a = mset d + mset (jobs q')"
proof (cases op)
  case (QSubmit ts j)
  show ?thesis
  proof (cases "can_accept pr q")
    case True
    then show ?thesis using assms QSubmit submit_accept_inv [of q pr ts j]
      by (auto simp: step_ok_def submit_def submit_priority_accepts mset_insert_job queue_inv_def)
  next
    case False
    then have no: "shutdown_flag q \<or> capacity q \<le> current_depth q"
      using assms(1) by (auto simp: step_ok_def can_accept_def)
    have "\<exists>e. fst (submit_priority pr ts j q) = Err e \<and> capacity (snd (submit_priority pr ts j q)) = capacity q"
      using no assms(1) submit_priority_full [of q pr ts j]
      by (cases "shutdown_flag q") (auto simp: submit_priority_shutdown step_ok_def)
    then show ?thesis using assms QSubmit submit_not_accept_inv [of q pr ts j] no
      by (cases "submit_priority pr ts j q") (auto simp: step_ok_def submit_def)
  qed
next
  case QDequeue
  have inv: "queue_inv q" using assms(1) by (simp add: step_ok_def)
  show ?thesis
  proof (cases "jobs q")
    case Nil
    then show ?thesis using assms QDequeue by (auto simp: try_dequeue_Nil)
  next
    case (Cons j js)
    then show ?thesis using assms QDequeue try_dequeue_inv [where 'e = unit, OF inv, of pr]
      by (auto simp: step_ok_def try_dequeue_Cons [OF inv Cons])
  qed
next
  case QShutdown
  then show ?thesis using assms by (auto simp: step_ok_def queue_shutdown_inv queue_shutdown_def)
      (auto simp: queue_inv_def)
qed

lemma queue_run_step_ok:
  assumes "step_ok pr q" "queue_run pr q ops = (accepted, dequeued, q')"
  shows "step_ok pr q' \<and> mset (jobs q) + mset accepted = mset dequeued + mset (jobs q')"
  using assms
proof (induction ops arbitrary: q accepted dequeued)
  case (Cons op ops)
  obtain a d q1 where s: "queue_step pr q op = (a, d, q1)" by (metis prod_cases3)
  obtain a' d' q2 where r: "queue_run pr q1 ops = (a', d', q2)" by (metis prod_cases3)
  from Cons.prems s r have e: "accepted = a @ a'" "dequeued = d @ d'" "q' = q2" by auto
  from queue_step_conserves [OF Cons.prems(1) s]
  have ok: "step_ok pr q1" and m1: "mset (jobs q) + mset a = mset d + mset (jobs q1)" by auto
  from Cons.IH [OF ok] r e have "step_ok pr q' \<and> mset (jobs q1) + mset a' = mset d' + mset (jobs q')"
    by auto
  then have "step_ok pr q'" and m2: "mset (jobs q1) + mset a' = mset d' + mset (jobs q')" by auto
  have "mset (jobs q) + mset a + mset a' = mset d + (mset (jobs q1) + mset a')"
    using m1 by (simp add: add.assoc)
  then have "mset (jobs q) + mset accepted = mset dequeued + mset (jobs q')"
    by (simp add: e m2 add.assoc)
  with \<open>step_ok pr q'\<close> show ?case by simp
qed simp

lemma queue_run_inv: "step_ok pr q \<Longrightarrow> queue_run pr q ops = (a, d, q') \<Longrightarrow> queue_inv q'"
  using queue_run_step_ok [of pr q ops a d q'] by (simp add: step_ok_def)

text \<open>
  C6: over any sequence of submissions, dequeues and a shutdown, no accepted job is lost or
  duplicated (the jobs accepted are the jobs handed out plus the jobs still queued) and the depth
  counter, the capacity bound and the urgent-before-regular order all hold at the end.
\<close>

theorem queue_run_conserves:
  assumes "step_ok pr q" "queue_run pr q ops = (accepted, dequeued, q')"
  shows "mset (jobs q) + mset accepted = mset dequeued + mset (jobs q') \<and> queue_inv q'"
  using queue_run_step_ok [OF assms] by (simp add: step_ok_def)

definition job_of :: "u8 \<Rightarrow> transfer_priority \<Rightarrow> transfer_job" where
  "job_of n p = transfer_job_new 0 0 (ChunkId [n]) Ram Disk 16 p"

lemma step_ok_example: "step_ok Debug (queue_new 2 (trace_log_new 4))"
  by (simp add: step_ok_def queue_inv_new log_inv_def trace_log_new_def) (simp add: queue_new_def)

theorem queue_run_conserves_witness:
  "\<exists>a d q'. queue_run Debug (queue_new 2 (trace_log_new 4))
       [QSubmit 1 (job_of 1 Low), QSubmit 2 (job_of 2 High), QSubmit 3 (job_of 3 High), QDequeue] = (a, d, q')
     \<and> mset (jobs (queue_new 2 (trace_log_new 4))) + mset a = mset d + mset (jobs q') \<and> queue_inv q'"
proof -
  obtain a d q' where r: "queue_run Debug (queue_new 2 (trace_log_new 4))
       [QSubmit 1 (job_of 1 Low), QSubmit 2 (job_of 2 High), QSubmit 3 (job_of 3 High), QDequeue] = (a, d, q')"
    by (metis prod_cases3)
  from queue_run_conserves [OF step_ok_example r] r show ?thesis by blast
qed

text \<open>The scheduler's loop: dequeue until the queue reports that it is shut down and empty.\<close>

fun drain_jobs :: "nat \<Rightarrow> profile \<Rightarrow> transfer_queue \<Rightarrow> transfer_job list" where
  "drain_jobs 0 pr q = []"
| "drain_jobs (Suc n) pr q =
     (case (dequeue_wait_poll pr q :: (transfer_job option poll, unit) outcome \<times> transfer_queue) of
        (Ok (Ready (Some j)), q') \<Rightarrow> j # drain_jobs n pr q'
      | _ \<Rightarrow> [])"

lemma drain_jobs_tq: "drain_jobs n pr q = tq.drain pr n q"
proof (induction n arbitrary: q)
  case (Suc n)
  obtain r q' where t: "(try_dequeue pr q :: (transfer_job option, unit) outcome \<times> _) = (r, q')" by fastforce
  then have "pop_job pr q = (case r of Ok j \<Rightarrow> (j, q') | _ \<Rightarrow> (None, q'))"
    by (simp add: pop_job_def split: outcome.splits)
  then show ?case using Suc
    by (auto simp: dequeue_wait_poll_eq t split: outcome.splits option.splits)
qed simp

text \<open>
  The waiting dequeue hands out every queued job, all High and Critical jobs first and each
  class in submission order, also after a shutdown; it reports \<open>None\<close> only once the queue is shut
  down and empty.
\<close>

theorem drain_jobs_order:
  assumes "queue_inv q" "length (jobs q) \<le> n"
  shows "drain_jobs n pr q = filter urgent (jobs q) @ filter (\<lambda>j. \<not> urgent j) (jobs q)
     \<and> (fst (dequeue_wait_poll pr q :: (_, unit) outcome \<times> _) = Ok (Ready None) \<longleftrightarrow> jobs q = [] \<and> shutdown_flag q)"
proof -
  have "length (tq.contents q) = length (jobs q)"
    using assms(1) by (simp add: tq.contents_def queue_inv_def classed_def)
  then have "drain_jobs n pr q = urgent_jobs q @ regular_jobs q"
    using assms by (simp add: drain_jobs_tq tq.drain_all)
  moreover have "fst (dequeue_wait_poll pr q :: (_, unit) outcome \<times> _) = Ok (Ready None)
     \<longleftrightarrow> jobs q = [] \<and> shutdown_flag q"
    using assms(1) by (cases "jobs q") (auto simp: dequeue_wait_poll_eq try_dequeue_Nil try_dequeue_Cons)
  ultimately show ?thesis by simp
qed


definition example_queue :: transfer_queue where
  "example_queue = snd (snd (queue_run Debug (queue_new 4 (trace_log_new 4))
     [QSubmit 1 (job_of 1 Low), QSubmit 2 (job_of 2 High), QShutdown]))"

lemma example_queue_jobs: "jobs example_queue = [job_of 2 High, job_of 1 Low]"
  by (simp add: example_queue_def submit_def submit_priority_def act_defs add_pr_def mul_pr_def checked_def
      queue_new_def trace_log_new_def queue_record_def trace_record_def insert_job_def insert_at_def
      job_of_def transfer_job_new_def is_higher_than_Normal queue_shutdown_def word_le_nat_alt)

theorem drain_jobs_order_witness:
  "drain_jobs 2 Debug example_queue = [job_of 2 High, job_of 1 Low]"
proof -
  have ok: "step_ok Debug (queue_new 4 (trace_log_new 4))"
    by (simp add: step_ok_def queue_inv_new log_inv_def trace_log_new_def) (simp add: queue_new_def)
  obtain a d q' where r: "queue_run Debug (queue_new 4 (trace_log_new 4))
     [QSubmit 1 (job_of 1 Low), QSubmit 2 (job_of 2 High), QShutdown] = (a, d, q')" by (metis prod_cases3)
  have "queue_inv example_queue"
    using queue_run_inv [OF ok r] r by (simp add: example_queue_def)
  from drain_jobs_order [OF this, of 2 Debug] show ?thesis
    by (simp add: example_queue_jobs) (simp add: job_of_def transfer_job_new_def is_higher_than_Normal)
qed

end
