(* ===== verification/Events.thy ===== *)
theory Events
  imports Pressure_Model Transfer_Job
begin

text \<open>
  \<^verbatim>\<open>ghost-core/src/events.rs\<close>: the unified event taxonomy, one constructor \<open>EvX\<close> per variant
  \<open>X\<close> of the enum \<^verbatim>\<open>Event\<close> with the fields in source order, and its accessors. Formatted
  strings are messages.
\<close>

datatype invariant_severity = SevInfo | SevWarning | SevError | SevCritical

fun display_severity :: "invariant_severity \<Rightarrow> string" where
  "display_severity SevInfo = ''info''"
| "display_severity SevWarning = ''warning''"
| "display_severity SevError = ''error''"
| "display_severity SevCritical = ''critical''"

datatype core_backend_health = CoreHealthy | CoreDegraded | CoreUnavailable | CoreRecovering

fun display_core_health :: "core_backend_health \<Rightarrow> string" where
  "display_core_health CoreHealthy = ''healthy''"
| "display_core_health CoreDegraded = ''degraded''"
| "display_core_health CoreUnavailable = ''unavailable''"
| "display_core_health CoreRecovering = ''recovering''"

datatype io_operation = IoRead | IoWrite | IoDelete | IoFlush

fun display_io_operation :: "io_operation \<Rightarrow> string" where
  "display_io_operation IoRead = ''read''"
| "display_io_operation IoWrite = ''write''"
| "display_io_operation IoDelete = ''delete''"
| "display_io_operation IoFlush = ''flush''"

datatype (plugins only: code size) event =
    EvAllocationCreated u64 chunk_id tier_id usize
  | EvAllocationFreed u64 chunk_id tier_id
  | EvAllocationFailed u64 chunk_id message
  | EvEviction u64 chunk_id tier_id message
  | EvRetrieve u64 message bool
  | EvTransferCompleted u64 chunk_id tier_id tier_id u64
  | EvTransferFailed u64 chunk_id tier_id tier_id message
  | EvStore u64 message usize
  | EvEvict u64 message
  | EvQueueEnqueue u64 u64
  | EvQueueDequeue u64 u64
  | EvMigrationDecision u64 chunk_id tier_id tier_id message
  | EvMigrationDecided u64 chunk_id tier_id tier_id f64
  | EvMigrationDeferred u64 chunk_id tier_id tier_id message
  | EvMigrationRejected u64 chunk_id tier_id tier_id f64 f64
  | EvMigrationStarted u64 chunk_id tier_id tier_id
  | EvMigrationCompleted u64 chunk_id tier_id tier_id u64
  | EvMigrationFailed u64 chunk_id tier_id tier_id message
  | EvMigrationRolledBack u64 chunk_id tier_id tier_id
  | EvReplayStarted u64 message
  | EvReplayCompleted u64 message usize u64
  | EvReplayDivergence u64 message message message
  | EvReplayInvariantViolation u64 message message
  | EvPressureChanged u64 tier_id pressure_state pressure_state
  | EvBackpressureActivated u64 tier_id message
  | EvBackpressureDeactivated u64 tier_id
  | EvMemoryPressureChanged u64 pressure_state f64 f64 f64 u64
  | EvIoPressureChanged u64 pressure_state f64 f64 f64 u64
  | EvBackendHealthChanged u64 tier_id core_backend_health core_backend_health
  | EvRetryAttempted u64 chunk_id u32 u32
  | EvOperationFailed u64 message message
  | EvHotnessSummaryUpdated u64 usize usize usize usize
  | EvRegionTemperatureChanged u64 message message message
  | EvHotnessConfidenceUpdated u64 message f32 message
  | EvInvariantViolation u64 message message invariant_severity
  | EvIoRequestIssued u64 io_operation chunk_id tier_id
  | EvIoRequestCompleted u64 io_operation chunk_id tier_id u64
  | EvIoRequestFailed u64 io_operation chunk_id tier_id message
  | EvIoFlushIssued u64 tier_id
  | EvIoFlushCompleted u64 tier_id u64
  | EvIoBufferStateChange u64 tier_id usize usize
  | EvMemoryStatsChanged u64 u64 u64 u64 u64
  | EvVmstatChanged u64 u64 u64 u64 u64 u64
  | EvSwapTopologyChanged u64 "message list" u64 u64
  | EvSwapUtilizationChanged u64 message u64 u64
  | EvZramUtilizationChanged u64 message u64 u64 f32
  | EvTierInventoryChanged u64 "message list"
  | EvTierUtilizationChanged u64 message u64 u64
  | EvHotnessSampled u64 message usize usize usize
  | EvHotnessChanged u64 chunk_id message message
  | EvPolicyRecommendationGenerated u64 "message list" message

primrec sequence_id :: "event \<Rightarrow> u64" where
  "sequence_id (EvAllocationCreated s cid tr x3) = s"
| "sequence_id (EvAllocationFreed s cid tr) = s"
| "sequence_id (EvAllocationFailed s cid x2) = s"
| "sequence_id (EvEviction s cid tr x3) = s"
| "sequence_id (EvRetrieve s x1 x2) = s"
| "sequence_id (EvTransferCompleted s cid fr tt x4) = s"
| "sequence_id (EvTransferFailed s cid fr tt x4) = s"
| "sequence_id (EvStore s x1 x2) = s"
| "sequence_id (EvEvict s x1) = s"
| "sequence_id (EvQueueEnqueue s x1) = s"
| "sequence_id (EvQueueDequeue s x1) = s"
| "sequence_id (EvMigrationDecision s cid fr tt x4) = s"
| "sequence_id (EvMigrationDecided s cid fr tt x4) = s"
| "sequence_id (EvMigrationDeferred s cid fr tt x4) = s"
| "sequence_id (EvMigrationRejected s cid fr tt x4 x5) = s"
| "sequence_id (EvMigrationStarted s cid fr tt) = s"
| "sequence_id (EvMigrationCompleted s cid fr tt x4) = s"
| "sequence_id (EvMigrationFailed s cid fr tt x4) = s"
| "sequence_id (EvMigrationRolledBack s cid fr tt) = s"
| "sequence_id (EvReplayStarted s x1) = s"
| "sequence_id (EvReplayCompleted s x1 x2 x3) = s"
| "sequence_id (EvReplayDivergence s x1 x2 x3) = s"
| "sequence_id (EvReplayInvariantViolation s x1 x2) = s"
| "sequence_id (EvPressureChanged s tr x2 x3) = s"
| "sequence_id (EvBackpressureActivated s tr x2) = s"
| "sequence_id (EvBackpressureDeactivated s tr) = s"
| "sequence_id (EvMemoryPressureChanged s x1 x2 x3 x4 x5) = s"
| "sequence_id (EvIoPressureChanged s x1 x2 x3 x4 x5) = s"
| "sequence_id (EvBackendHealthChanged s tr x2 x3) = s"
| "sequence_id (EvRetryAttempted s cid x2 x3) = s"
| "sequence_id (EvOperationFailed s x1 x2) = s"
| "sequence_id (EvHotnessSummaryUpdated s x1 x2 x3 x4) = s"
| "sequence_id (EvRegionTemperatureChanged s x1 x2 x3) = s"
| "sequence_id (EvHotnessConfidenceUpdated s x1 x2 x3) = s"
| "sequence_id (EvInvariantViolation s x1 x2 x3) = s"
| "sequence_id (EvIoRequestIssued s x1 cid tr) = s"
| "sequence_id (EvIoRequestCompleted s x1 cid tr x4) = s"
| "sequence_id (EvIoRequestFailed s x1 cid tr x4) = s"
| "sequence_id (EvIoFlushIssued s tr) = s"
| "sequence_id (EvIoFlushCompleted s tr x2) = s"
| "sequence_id (EvIoBufferStateChange s tr x2 x3) = s"
| "sequence_id (EvMemoryStatsChanged s x1 x2 x3 x4) = s"
| "sequence_id (EvVmstatChanged s x1 x2 x3 x4 x5) = s"
| "sequence_id (EvSwapTopologyChanged s x1 x2 x3) = s"
| "sequence_id (EvSwapUtilizationChanged s x1 x2 x3) = s"
| "sequence_id (EvZramUtilizationChanged s x1 x2 x3 x4) = s"
| "sequence_id (EvTierInventoryChanged s x1) = s"
| "sequence_id (EvTierUtilizationChanged s tr x2 x3) = s"
| "sequence_id (EvHotnessSampled s x1 x2 x3 x4) = s"
| "sequence_id (EvHotnessChanged s cid x2 x3) = s"
| "sequence_id (EvPolicyRecommendationGenerated s x1 x2) = s"

primrec with_sequence_id :: "event \<Rightarrow> u64 \<Rightarrow> event" where
  "with_sequence_id (EvAllocationCreated s cid tr x3) q = EvAllocationCreated q cid tr x3"
| "with_sequence_id (EvAllocationFreed s cid tr) q = EvAllocationFreed q cid tr"
| "with_sequence_id (EvAllocationFailed s cid x2) q = EvAllocationFailed q cid x2"
| "with_sequence_id (EvEviction s cid tr x3) q = EvEviction q cid tr x3"
| "with_sequence_id (EvRetrieve s x1 x2) q = EvRetrieve q x1 x2"
| "with_sequence_id (EvTransferCompleted s cid fr tt x4) q = EvTransferCompleted q cid fr tt x4"
| "with_sequence_id (EvTransferFailed s cid fr tt x4) q = EvTransferFailed q cid fr tt x4"
| "with_sequence_id (EvStore s x1 x2) q = EvStore q x1 x2"
| "with_sequence_id (EvEvict s x1) q = EvEvict q x1"
| "with_sequence_id (EvQueueEnqueue s x1) q = EvQueueEnqueue q x1"
| "with_sequence_id (EvQueueDequeue s x1) q = EvQueueDequeue q x1"
| "with_sequence_id (EvMigrationDecision s cid fr tt x4) q = EvMigrationDecision q cid fr tt x4"
| "with_sequence_id (EvMigrationDecided s cid fr tt x4) q = EvMigrationDecided q cid fr tt x4"
| "with_sequence_id (EvMigrationDeferred s cid fr tt x4) q = EvMigrationDeferred q cid fr tt x4"
| "with_sequence_id (EvMigrationRejected s cid fr tt x4 x5) q = EvMigrationRejected q cid fr tt x4 x5"
| "with_sequence_id (EvMigrationStarted s cid fr tt) q = EvMigrationStarted q cid fr tt"
| "with_sequence_id (EvMigrationCompleted s cid fr tt x4) q = EvMigrationCompleted q cid fr tt x4"
| "with_sequence_id (EvMigrationFailed s cid fr tt x4) q = EvMigrationFailed q cid fr tt x4"
| "with_sequence_id (EvMigrationRolledBack s cid fr tt) q = EvMigrationRolledBack q cid fr tt"
| "with_sequence_id (EvReplayStarted s x1) q = EvReplayStarted q x1"
| "with_sequence_id (EvReplayCompleted s x1 x2 x3) q = EvReplayCompleted q x1 x2 x3"
| "with_sequence_id (EvReplayDivergence s x1 x2 x3) q = EvReplayDivergence q x1 x2 x3"
| "with_sequence_id (EvReplayInvariantViolation s x1 x2) q = EvReplayInvariantViolation q x1 x2"
| "with_sequence_id (EvPressureChanged s tr x2 x3) q = EvPressureChanged q tr x2 x3"
| "with_sequence_id (EvBackpressureActivated s tr x2) q = EvBackpressureActivated q tr x2"
| "with_sequence_id (EvBackpressureDeactivated s tr) q = EvBackpressureDeactivated q tr"
| "with_sequence_id (EvMemoryPressureChanged s x1 x2 x3 x4 x5) q = EvMemoryPressureChanged q x1 x2 x3 x4 x5"
| "with_sequence_id (EvIoPressureChanged s x1 x2 x3 x4 x5) q = EvIoPressureChanged q x1 x2 x3 x4 x5"
| "with_sequence_id (EvBackendHealthChanged s tr x2 x3) q = EvBackendHealthChanged q tr x2 x3"
| "with_sequence_id (EvRetryAttempted s cid x2 x3) q = EvRetryAttempted q cid x2 x3"
| "with_sequence_id (EvOperationFailed s x1 x2) q = EvOperationFailed q x1 x2"
| "with_sequence_id (EvHotnessSummaryUpdated s x1 x2 x3 x4) q = EvHotnessSummaryUpdated q x1 x2 x3 x4"
| "with_sequence_id (EvRegionTemperatureChanged s x1 x2 x3) q = EvRegionTemperatureChanged q x1 x2 x3"
| "with_sequence_id (EvHotnessConfidenceUpdated s x1 x2 x3) q = EvHotnessConfidenceUpdated q x1 x2 x3"
| "with_sequence_id (EvInvariantViolation s x1 x2 x3) q = EvInvariantViolation q x1 x2 x3"
| "with_sequence_id (EvIoRequestIssued s x1 cid tr) q = EvIoRequestIssued q x1 cid tr"
| "with_sequence_id (EvIoRequestCompleted s x1 cid tr x4) q = EvIoRequestCompleted q x1 cid tr x4"
| "with_sequence_id (EvIoRequestFailed s x1 cid tr x4) q = EvIoRequestFailed q x1 cid tr x4"
| "with_sequence_id (EvIoFlushIssued s tr) q = EvIoFlushIssued q tr"
| "with_sequence_id (EvIoFlushCompleted s tr x2) q = EvIoFlushCompleted q tr x2"
| "with_sequence_id (EvIoBufferStateChange s tr x2 x3) q = EvIoBufferStateChange q tr x2 x3"
| "with_sequence_id (EvMemoryStatsChanged s x1 x2 x3 x4) q = EvMemoryStatsChanged q x1 x2 x3 x4"
| "with_sequence_id (EvVmstatChanged s x1 x2 x3 x4 x5) q = EvVmstatChanged q x1 x2 x3 x4 x5"
| "with_sequence_id (EvSwapTopologyChanged s x1 x2 x3) q = EvSwapTopologyChanged q x1 x2 x3"
| "with_sequence_id (EvSwapUtilizationChanged s x1 x2 x3) q = EvSwapUtilizationChanged q x1 x2 x3"
| "with_sequence_id (EvZramUtilizationChanged s x1 x2 x3 x4) q = EvZramUtilizationChanged q x1 x2 x3 x4"
| "with_sequence_id (EvTierInventoryChanged s x1) q = EvTierInventoryChanged q x1"
| "with_sequence_id (EvTierUtilizationChanged s tr x2 x3) q = EvTierUtilizationChanged q tr x2 x3"
| "with_sequence_id (EvHotnessSampled s x1 x2 x3 x4) q = EvHotnessSampled q x1 x2 x3 x4"
| "with_sequence_id (EvHotnessChanged s cid x2 x3) q = EvHotnessChanged q cid x2 x3"
| "with_sequence_id (EvPolicyRecommendationGenerated s x1 x2) q = EvPolicyRecommendationGenerated q x1 x2"

primrec ev_chunk_id :: "event \<Rightarrow> chunk_id option" where
  "ev_chunk_id (EvAllocationCreated s cid tr x3) = Some cid"
| "ev_chunk_id (EvAllocationFreed s cid tr) = Some cid"
| "ev_chunk_id (EvAllocationFailed s cid x2) = Some cid"
| "ev_chunk_id (EvEviction s cid tr x3) = None"
| "ev_chunk_id (EvRetrieve s x1 x2) = None"
| "ev_chunk_id (EvTransferCompleted s cid fr tt x4) = None"
| "ev_chunk_id (EvTransferFailed s cid fr tt x4) = None"
| "ev_chunk_id (EvStore s x1 x2) = None"
| "ev_chunk_id (EvEvict s x1) = None"
| "ev_chunk_id (EvQueueEnqueue s x1) = None"
| "ev_chunk_id (EvQueueDequeue s x1) = None"
| "ev_chunk_id (EvMigrationDecision s cid fr tt x4) = None"
| "ev_chunk_id (EvMigrationDecided s cid fr tt x4) = Some cid"
| "ev_chunk_id (EvMigrationDeferred s cid fr tt x4) = Some cid"
| "ev_chunk_id (EvMigrationRejected s cid fr tt x4 x5) = Some cid"
| "ev_chunk_id (EvMigrationStarted s cid fr tt) = Some cid"
| "ev_chunk_id (EvMigrationCompleted s cid fr tt x4) = Some cid"
| "ev_chunk_id (EvMigrationFailed s cid fr tt x4) = Some cid"
| "ev_chunk_id (EvMigrationRolledBack s cid fr tt) = Some cid"
| "ev_chunk_id (EvReplayStarted s x1) = None"
| "ev_chunk_id (EvReplayCompleted s x1 x2 x3) = None"
| "ev_chunk_id (EvReplayDivergence s x1 x2 x3) = None"
| "ev_chunk_id (EvReplayInvariantViolation s x1 x2) = None"
| "ev_chunk_id (EvPressureChanged s tr x2 x3) = None"
| "ev_chunk_id (EvBackpressureActivated s tr x2) = None"
| "ev_chunk_id (EvBackpressureDeactivated s tr) = None"
| "ev_chunk_id (EvMemoryPressureChanged s x1 x2 x3 x4 x5) = None"
| "ev_chunk_id (EvIoPressureChanged s x1 x2 x3 x4 x5) = None"
| "ev_chunk_id (EvBackendHealthChanged s tr x2 x3) = None"
| "ev_chunk_id (EvRetryAttempted s cid x2 x3) = Some cid"
| "ev_chunk_id (EvOperationFailed s x1 x2) = None"
| "ev_chunk_id (EvHotnessSummaryUpdated s x1 x2 x3 x4) = None"
| "ev_chunk_id (EvRegionTemperatureChanged s x1 x2 x3) = None"
| "ev_chunk_id (EvHotnessConfidenceUpdated s x1 x2 x3) = None"
| "ev_chunk_id (EvInvariantViolation s x1 x2 x3) = None"
| "ev_chunk_id (EvIoRequestIssued s x1 cid tr) = Some cid"
| "ev_chunk_id (EvIoRequestCompleted s x1 cid tr x4) = Some cid"
| "ev_chunk_id (EvIoRequestFailed s x1 cid tr x4) = Some cid"
| "ev_chunk_id (EvIoFlushIssued s tr) = None"
| "ev_chunk_id (EvIoFlushCompleted s tr x2) = None"
| "ev_chunk_id (EvIoBufferStateChange s tr x2 x3) = None"
| "ev_chunk_id (EvMemoryStatsChanged s x1 x2 x3 x4) = None"
| "ev_chunk_id (EvVmstatChanged s x1 x2 x3 x4 x5) = None"
| "ev_chunk_id (EvSwapTopologyChanged s x1 x2 x3) = None"
| "ev_chunk_id (EvSwapUtilizationChanged s x1 x2 x3) = None"
| "ev_chunk_id (EvZramUtilizationChanged s x1 x2 x3 x4) = None"
| "ev_chunk_id (EvTierInventoryChanged s x1) = None"
| "ev_chunk_id (EvTierUtilizationChanged s tr x2 x3) = None"
| "ev_chunk_id (EvHotnessSampled s x1 x2 x3 x4) = None"
| "ev_chunk_id (EvHotnessChanged s cid x2 x3) = None"
| "ev_chunk_id (EvPolicyRecommendationGenerated s x1 x2) = None"

primrec ev_tier :: "event \<Rightarrow> tier_id option" where
  "ev_tier (EvAllocationCreated s cid tr x3) = Some tr"
| "ev_tier (EvAllocationFreed s cid tr) = Some tr"
| "ev_tier (EvAllocationFailed s cid x2) = None"
| "ev_tier (EvEviction s cid tr x3) = None"
| "ev_tier (EvRetrieve s x1 x2) = None"
| "ev_tier (EvTransferCompleted s cid fr tt x4) = None"
| "ev_tier (EvTransferFailed s cid fr tt x4) = None"
| "ev_tier (EvStore s x1 x2) = None"
| "ev_tier (EvEvict s x1) = None"
| "ev_tier (EvQueueEnqueue s x1) = None"
| "ev_tier (EvQueueDequeue s x1) = None"
| "ev_tier (EvMigrationDecision s cid fr tt x4) = None"
| "ev_tier (EvMigrationDecided s cid fr tt x4) = Some fr"
| "ev_tier (EvMigrationDeferred s cid fr tt x4) = Some fr"
| "ev_tier (EvMigrationRejected s cid fr tt x4 x5) = Some fr"
| "ev_tier (EvMigrationStarted s cid fr tt) = Some fr"
| "ev_tier (EvMigrationCompleted s cid fr tt x4) = Some fr"
| "ev_tier (EvMigrationFailed s cid fr tt x4) = Some fr"
| "ev_tier (EvMigrationRolledBack s cid fr tt) = Some fr"
| "ev_tier (EvReplayStarted s x1) = None"
| "ev_tier (EvReplayCompleted s x1 x2 x3) = None"
| "ev_tier (EvReplayDivergence s x1 x2 x3) = None"
| "ev_tier (EvReplayInvariantViolation s x1 x2) = None"
| "ev_tier (EvPressureChanged s tr x2 x3) = Some tr"
| "ev_tier (EvBackpressureActivated s tr x2) = Some tr"
| "ev_tier (EvBackpressureDeactivated s tr) = Some tr"
| "ev_tier (EvMemoryPressureChanged s x1 x2 x3 x4 x5) = None"
| "ev_tier (EvIoPressureChanged s x1 x2 x3 x4 x5) = None"
| "ev_tier (EvBackendHealthChanged s tr x2 x3) = Some tr"
| "ev_tier (EvRetryAttempted s cid x2 x3) = None"
| "ev_tier (EvOperationFailed s x1 x2) = None"
| "ev_tier (EvHotnessSummaryUpdated s x1 x2 x3 x4) = None"
| "ev_tier (EvRegionTemperatureChanged s x1 x2 x3) = None"
| "ev_tier (EvHotnessConfidenceUpdated s x1 x2 x3) = None"
| "ev_tier (EvInvariantViolation s x1 x2 x3) = None"
| "ev_tier (EvIoRequestIssued s x1 cid tr) = Some tr"
| "ev_tier (EvIoRequestCompleted s x1 cid tr x4) = Some tr"
| "ev_tier (EvIoRequestFailed s x1 cid tr x4) = Some tr"
| "ev_tier (EvIoFlushIssued s tr) = Some tr"
| "ev_tier (EvIoFlushCompleted s tr x2) = Some tr"
| "ev_tier (EvIoBufferStateChange s tr x2 x3) = Some tr"
| "ev_tier (EvMemoryStatsChanged s x1 x2 x3 x4) = None"
| "ev_tier (EvVmstatChanged s x1 x2 x3 x4 x5) = None"
| "ev_tier (EvSwapTopologyChanged s x1 x2 x3) = None"
| "ev_tier (EvSwapUtilizationChanged s x1 x2 x3) = None"
| "ev_tier (EvZramUtilizationChanged s x1 x2 x3 x4) = None"
| "ev_tier (EvTierInventoryChanged s x1) = None"
| "ev_tier (EvTierUtilizationChanged s tr x2 x3) = None"
| "ev_tier (EvHotnessSampled s x1 x2 x3 x4) = None"
| "ev_tier (EvHotnessChanged s cid x2 x3) = None"
| "ev_tier (EvPolicyRecommendationGenerated s x1 x2) = None"

primrec category :: "event \<Rightarrow> string" where
  "category (EvAllocationCreated s cid tr x3) = ''allocation''"
| "category (EvAllocationFreed s cid tr) = ''allocation''"
| "category (EvAllocationFailed s cid x2) = ''allocation''"
| "category (EvEviction s cid tr x3) = ''orchestration''"
| "category (EvRetrieve s x1 x2) = ''orchestration''"
| "category (EvTransferCompleted s cid fr tt x4) = ''orchestration''"
| "category (EvTransferFailed s cid fr tt x4) = ''orchestration''"
| "category (EvStore s x1 x2) = ''orchestration''"
| "category (EvEvict s x1) = ''orchestration''"
| "category (EvQueueEnqueue s x1) = ''scheduler''"
| "category (EvQueueDequeue s x1) = ''scheduler''"
| "category (EvMigrationDecision s cid fr tt x4) = ''migration''"
| "category (EvMigrationDecided s cid fr tt x4) = ''migration''"
| "category (EvMigrationDeferred s cid fr tt x4) = ''migration''"
| "category (EvMigrationRejected s cid fr tt x4 x5) = ''migration''"
| "category (EvMigrationStarted s cid fr tt) = ''migration''"
| "category (EvMigrationCompleted s cid fr tt x4) = ''migration''"
| "category (EvMigrationFailed s cid fr tt x4) = ''migration''"
| "category (EvMigrationRolledBack s cid fr tt) = ''migration''"
| "category (EvReplayStarted s x1) = ''replay''"
| "category (EvReplayCompleted s x1 x2 x3) = ''replay''"
| "category (EvReplayDivergence s x1 x2 x3) = ''replay''"
| "category (EvReplayInvariantViolation s x1 x2) = ''replay''"
| "category (EvPressureChanged s tr x2 x3) = ''pressure''"
| "category (EvBackpressureActivated s tr x2) = ''pressure''"
| "category (EvBackpressureDeactivated s tr) = ''pressure''"
| "category (EvMemoryPressureChanged s x1 x2 x3 x4 x5) = ''pressure''"
| "category (EvIoPressureChanged s x1 x2 x3 x4 x5) = ''pressure''"
| "category (EvBackendHealthChanged s tr x2 x3) = ''failure''"
| "category (EvRetryAttempted s cid x2 x3) = ''failure''"
| "category (EvOperationFailed s x1 x2) = ''failure''"
| "category (EvHotnessSummaryUpdated s x1 x2 x3 x4) = ''hotness''"
| "category (EvRegionTemperatureChanged s x1 x2 x3) = ''hotness''"
| "category (EvHotnessConfidenceUpdated s x1 x2 x3) = ''hotness''"
| "category (EvInvariantViolation s x1 x2 x3) = ''invariant_violation''"
| "category (EvIoRequestIssued s x1 cid tr) = ''io''"
| "category (EvIoRequestCompleted s x1 cid tr x4) = ''io''"
| "category (EvIoRequestFailed s x1 cid tr x4) = ''io''"
| "category (EvIoFlushIssued s tr) = ''io''"
| "category (EvIoFlushCompleted s tr x2) = ''io''"
| "category (EvIoBufferStateChange s tr x2 x3) = ''io''"
| "category (EvMemoryStatsChanged s x1 x2 x3 x4) = ''memory''"
| "category (EvVmstatChanged s x1 x2 x3 x4 x5) = ''memory''"
| "category (EvSwapTopologyChanged s x1 x2 x3) = ''swap''"
| "category (EvSwapUtilizationChanged s x1 x2 x3) = ''swap''"
| "category (EvZramUtilizationChanged s x1 x2 x3 x4) = ''zram''"
| "category (EvTierInventoryChanged s x1) = ''tier_inventory''"
| "category (EvTierUtilizationChanged s tr x2 x3) = ''tier_inventory''"
| "category (EvHotnessSampled s x1 x2 x3 x4) = ''hotness''"
| "category (EvHotnessChanged s cid x2 x3) = ''hotness''"
| "category (EvPolicyRecommendationGenerated s x1 x2) = ''policy''"

primrec event_name :: "event \<Rightarrow> string" where
  "event_name (EvAllocationCreated s cid tr x3) = ''allocation_created''"
| "event_name (EvAllocationFreed s cid tr) = ''allocation_freed''"
| "event_name (EvAllocationFailed s cid x2) = ''allocation_failed''"
| "event_name (EvEviction s cid tr x3) = ''eviction''"
| "event_name (EvRetrieve s x1 x2) = ''retrieve''"
| "event_name (EvTransferCompleted s cid fr tt x4) = ''transfer_completed''"
| "event_name (EvTransferFailed s cid fr tt x4) = ''transfer_failed''"
| "event_name (EvStore s x1 x2) = ''store''"
| "event_name (EvEvict s x1) = ''evict''"
| "event_name (EvQueueEnqueue s x1) = ''queue_enqueue''"
| "event_name (EvQueueDequeue s x1) = ''queue_dequeue''"
| "event_name (EvMigrationDecision s cid fr tt x4) = ''migration_decision''"
| "event_name (EvMigrationDecided s cid fr tt x4) = ''migration_decided''"
| "event_name (EvMigrationDeferred s cid fr tt x4) = ''migration_deferred''"
| "event_name (EvMigrationRejected s cid fr tt x4 x5) = ''migration_rejected''"
| "event_name (EvMigrationStarted s cid fr tt) = ''migration_started''"
| "event_name (EvMigrationCompleted s cid fr tt x4) = ''migration_completed''"
| "event_name (EvMigrationFailed s cid fr tt x4) = ''migration_failed''"
| "event_name (EvMigrationRolledBack s cid fr tt) = ''migration_rolled_back''"
| "event_name (EvReplayStarted s x1) = ''replay_started''"
| "event_name (EvReplayCompleted s x1 x2 x3) = ''replay_completed''"
| "event_name (EvReplayDivergence s x1 x2 x3) = ''replay_divergence''"
| "event_name (EvReplayInvariantViolation s x1 x2) = ''replay_invariant_violation''"
| "event_name (EvPressureChanged s tr x2 x3) = ''pressure_changed''"
| "event_name (EvBackpressureActivated s tr x2) = ''backpressure_activated''"
| "event_name (EvBackpressureDeactivated s tr) = ''backpressure_deactivated''"
| "event_name (EvMemoryPressureChanged s x1 x2 x3 x4 x5) = ''memory_pressure_changed''"
| "event_name (EvIoPressureChanged s x1 x2 x3 x4 x5) = ''io_pressure_changed''"
| "event_name (EvBackendHealthChanged s tr x2 x3) = ''backend_health_changed''"
| "event_name (EvRetryAttempted s cid x2 x3) = ''retry_attempted''"
| "event_name (EvOperationFailed s x1 x2) = ''operation_failed''"
| "event_name (EvHotnessSummaryUpdated s x1 x2 x3 x4) = ''hotness_summary_updated''"
| "event_name (EvRegionTemperatureChanged s x1 x2 x3) = ''region_temperature_changed''"
| "event_name (EvHotnessConfidenceUpdated s x1 x2 x3) = ''hotness_confidence_updated''"
| "event_name (EvInvariantViolation s x1 x2 x3) = ''invariant_violation''"
| "event_name (EvIoRequestIssued s x1 cid tr) = ''io_request_issued''"
| "event_name (EvIoRequestCompleted s x1 cid tr x4) = ''io_request_completed''"
| "event_name (EvIoRequestFailed s x1 cid tr x4) = ''io_request_failed''"
| "event_name (EvIoFlushIssued s tr) = ''io_flush_issued''"
| "event_name (EvIoFlushCompleted s tr x2) = ''io_flush_completed''"
| "event_name (EvIoBufferStateChange s tr x2 x3) = ''io_buffer_state_change''"
| "event_name (EvMemoryStatsChanged s x1 x2 x3 x4) = ''memory_stats_changed''"
| "event_name (EvVmstatChanged s x1 x2 x3 x4 x5) = ''vmstat_changed''"
| "event_name (EvSwapTopologyChanged s x1 x2 x3) = ''swap_topology_changed''"
| "event_name (EvSwapUtilizationChanged s x1 x2 x3) = ''swap_utilization_changed''"
| "event_name (EvZramUtilizationChanged s x1 x2 x3 x4) = ''zram_utilization_changed''"
| "event_name (EvTierInventoryChanged s x1) = ''tier_inventory_changed''"
| "event_name (EvTierUtilizationChanged s tr x2 x3) = ''tier_utilization_changed''"
| "event_name (EvHotnessSampled s x1 x2 x3 x4) = ''hotness_sampled''"
| "event_name (EvHotnessChanged s cid x2 x3) = ''hotness_changed''"
| "event_name (EvPolicyRecommendationGenerated s x1 x2) = ''policy_recommendation_generated''"

record event_record =
  rec_sequence_id :: u64
  rec_timestamp :: u64
  rec_event :: event

definition rec_chunk_id :: "event_record \<Rightarrow> chunk_id option" where
  "rec_chunk_id r = ev_chunk_id (rec_event r)"

definition rec_tier :: "event_record \<Rightarrow> tier_id option" where
  "rec_tier r = ev_tier (rec_event r)"

definition rec_category :: "event_record \<Rightarrow> string" where
  "rec_category r = category (rec_event r)"

definition rec_event_name :: "event_record \<Rightarrow> string" where
  "rec_event_name r = event_name (rec_event r)"

lemma with_sequence_id_sets:
  "sequence_id (with_sequence_id e q) = q \<and> category (with_sequence_id e q) = category e
   \<and> ev_chunk_id (with_sequence_id e q) = ev_chunk_id e \<and> ev_tier (with_sequence_id e q) = ev_tier e
   \<and> with_sequence_id e (sequence_id e) = e"
  by (cases e) simp_all

end
