(* ===== verification/Event_Flow.thy ===== *)
theory Event_Flow
  imports Events
begin

text \<open>
  \<^verbatim>\<open>ghost-core/src/emitter.rs\<close> and \<^verbatim>\<open>event_multiplexer.rs\<close>: every event gets the next sequence
  number and goes into a bounded channel; the multiplexer checks the numbers and hands each
  record to every handler in turn. Whether the channel has room is decided by the environment
  and is an argument \<open>room\<close> of the emission; \<open>sent\<close> is what entered the channel, in order.
\<close>

section \<open>The emitter\<close>

record emitter =
  sequence_counter :: u64
  sent :: "event_record list"

definition emitter_new :: emitter where
  "emitter_new = \<lparr>sequence_counter = 1, sent = []\<rparr>"

definition next_sequence_id :: "emitter \<Rightarrow> u64 \<times> emitter" where
  "next_sequence_id em = (sequence_counter em, em\<lparr>sequence_counter := sequence_counter em + 1\<rparr>)"

definition make_record :: "u64 \<Rightarrow> event \<Rightarrow> emitter \<Rightarrow> event_record \<times> emitter" where
  "make_record ts ev em = (case next_sequence_id em of (n, em') \<Rightarrow>
     (\<lparr>rec_sequence_id = n, rec_timestamp = ts, rec_event = ev\<rparr>, em'))"

definition try_emit :: "bool \<Rightarrow> u64 \<Rightarrow> event \<Rightarrow> emitter \<Rightarrow> bool \<times> emitter" where
  "try_emit room ts ev em = (case make_record ts ev em of (r, em') \<Rightarrow>
     (room, if room then em'\<lparr>sent := sent em' @ [r]\<rparr> else em'))"

section \<open>The multiplexer\<close>

record mux =
  last_sequence_id :: u64
  has_invariant_channel :: bool
  violations :: "event_record list"

definition mux_new :: mux where
  "mux_new = \<lparr>last_sequence_id = 0, has_invariant_channel = False, violations = []\<rparr>"

definition with_invariant_channel :: "mux \<Rightarrow> mux" where
  "with_invariant_channel m = m\<lparr>has_invariant_channel := True\<rparr>"

definition emit_invariant_violation ::
  "bool \<Rightarrow> u64 \<Rightarrow> message \<Rightarrow> message \<Rightarrow> invariant_severity \<Rightarrow> mux \<Rightarrow> mux" where
  "emit_invariant_violation room secs rule details sev m =
     (if has_invariant_channel m \<and> room
      then m\<lparr>violations := violations m @
             [\<lparr>rec_sequence_id = 0, rec_timestamp = secs, rec_event = EvInvariantViolation 0 rule details sev\<rparr>]\<rparr>
      else m)"

definition verify_ordering :: "bool \<Rightarrow> u64 \<Rightarrow> event_record \<Rightarrow> mux \<Rightarrow> mux" where
  "verify_ordering room secs r m =
     (let cur = rec_sequence_id r; lst = last_sequence_id m;
          m' = (if lst > 0
                then (if cur \<le> lst
                      then emit_invariant_violation room secs [Lit ''event_ordering_monotonic'']
                             [Lit ''Event reordering detected: sequence_id '', FmtNat (unat cur), Lit '' <= last '', FmtNat (unat lst)]
                             SevCritical m
                      else if cur > lst + 1
                      then emit_invariant_violation room secs [Lit ''event_ordering_gap'']
                             [Lit ''Event sequence gap detected: expected '', FmtNat (unat (lst + 1)),
                              Lit '', got '', FmtNat (unat cur), Lit '' (gap of '', FmtNat (unat (cur - lst - 1)), Lit '')'']
                             SevError m
                      else m)
                else m)
      in m'\<lparr>last_sequence_id := cur\<rparr>)"

text \<open>
  A handler is its state and its \<^verbatim>\<open>handle\<close> function, which may fail (\<open>False\<close>); the loop goes on
  with the next handler either way.
\<close>

type_synonym 'h handler = "(event_record \<Rightarrow> 'h \<Rightarrow> bool \<times> 'h) \<times> 'h"

definition call_handler :: "event_record \<Rightarrow> 'h handler \<Rightarrow> 'h handler" where
  "call_handler r hn = (case hn of (f, h) \<Rightarrow> (f, snd (f r h)))"

fun mux_run :: "(nat \<Rightarrow> bool) \<Rightarrow> u64 \<Rightarrow> event_record list \<Rightarrow> mux \<times> 'h handler list \<Rightarrow> mux \<times> 'h handler list" where
  "mux_run room secs [] s = s"
| "mux_run room secs (r # rs) (m, hs) =
     mux_run (\<lambda>k. room (Suc k)) secs rs (verify_ordering (room 0) secs r m, map (call_handler r) hs)"

section \<open>Facts\<close>

lemma mux_run_append:
  "mux_run room secs (rs @ rs') s = mux_run (\<lambda>k. room (k + length rs)) secs rs' (mux_run room secs rs s)"
proof (induction rs arbitrary: room s)
  case (Cons r rs)
  then show ?case by (cases s) (simp add: add.commute)
qed simp

text \<open>
  Every handler sees every record the multiplexer receives, in the order received,
  whatever the other handlers do: the final state of each handler is the fold of its own
  \<^verbatim>\<open>handle\<close> over the whole sequence.
\<close>

theorem mux_delivers_in_order:
  "snd (mux_run room secs rs (m, hs)) = map (\<lambda>(f, h). (f, fold (\<lambda>r h. snd (f r h)) rs h)) hs"
  by (induction rs arbitrary: room m hs) (simp_all add: comp_def call_handler_def case_prod_beta)

text \<open>A sequence of emissions, each with the channel's decision.\<close>

fun emit_all :: "(bool \<times> u64 \<times> event) list \<Rightarrow> emitter \<Rightarrow> emitter" where
  "emit_all [] em = em"
| "emit_all ((room, ts, ev) # es) em = emit_all es (snd (try_emit room ts ev em))"

lemma sequence_counter_try_emit [simp]:
  "sequence_counter (snd (try_emit room ts ev em)) = sequence_counter em + 1"
  by (simp add: try_emit_def make_record_def next_sequence_id_def)

lemma sent_try_emit:
  "sent (snd (try_emit room ts ev em)) =
     sent em @ (if room then [\<lparr>rec_sequence_id = sequence_counter em, rec_timestamp = ts, rec_event = ev\<rparr>] else [])"
  by (simp add: try_emit_def make_record_def next_sequence_id_def)

lemma word_succ_gt:
  fixes a :: "'a::len word"
  assumes "unat a + n < 2 ^ LENGTH('a)" "0 < n"
  shows "unat (a + 1) = Suc (unat a)" "unat (a + 1) + (n - 1) < 2 ^ LENGTH('a)"
proof -
  have "unat a + unat (1 :: 'a word) < 2 ^ LENGTH('a)" using assms by simp
  from unat_add_fits [OF this] show *: "unat (a + 1) = Suc (unat a)" by simp
  show "unat (a + 1) + (n - 1) < 2 ^ LENGTH('a)" using assms by (simp add: *)
qed

text \<open>Records waiting in the channel have increasing numbers below the counter.\<close>

definition emitter_inv :: "emitter \<Rightarrow> bool" where
  "emitter_inv em \<longleftrightarrow> sorted_wrt (<) (map rec_sequence_id (sent em))
     \<and> (\<forall>r \<in> set (sent em). rec_sequence_id r < sequence_counter em)"

lemma emitter_inv_new: "emitter_inv emitter_new"
  by (simp add: emitter_inv_def emitter_new_def)

lemma emitter_inv_try_emit:
  assumes "emitter_inv em" "unat (sequence_counter em) + 1 < 2 ^ 64"
  shows "emitter_inv (snd (try_emit room ts ev em))"
proof -
  have "unat (sequence_counter em + 1) = Suc (unat (sequence_counter em))"
    using word_succ_gt [of "sequence_counter em" 1] assms(2) by simp
  then have "sequence_counter em < sequence_counter em + 1" by (simp add: word_less_nat_alt)
  then show ?thesis using assms(1)
    by (auto simp: emitter_inv_def sent_try_emit sorted_wrt_append)
qed

lemma emit_all_inv:
  assumes "emitter_inv em" "unat (sequence_counter em) + length es < 2 ^ 64"
  shows "emitter_inv (emit_all es em)
     \<and> unat (sequence_counter (emit_all es em)) = unat (sequence_counter em) + length es"
  using assms
proof (induction es arbitrary: em)
  case (Cons x es)
  obtain room ts ev where x: "x = (room, ts, ev)" by (metis prod_cases3)
  let ?em = "snd (try_emit room ts ev em)"
  have c: "unat (sequence_counter ?em) = Suc (unat (sequence_counter em))"
    using word_succ_gt [of "sequence_counter em" "Suc (length es)"] Cons.prems(2) by simp
  have "emitter_inv ?em" using Cons.prems by (intro emitter_inv_try_emit) simp_all
  from Cons.IH [OF this] Cons.prems(2) c x show ?case by simp
qed simp

text \<open>What the multiplexer reports about a channel of strictly increasing numbers.\<close>

fun is_gap_report :: "event_record \<Rightarrow> bool" where
  "is_gap_report r = (case rec_event r of EvInvariantViolation _ _ _ sev \<Rightarrow> sev = SevError | _ \<Rightarrow> False)"

lemma verify_ordering_increasing:
  assumes "last_sequence_id m < rec_sequence_id r" "\<forall>v \<in> set (violations m). is_gap_report v"
  shows "\<forall>v \<in> set (violations (verify_ordering room secs r m)). is_gap_report v"
    and "last_sequence_id (verify_ordering room secs r m) = rec_sequence_id r"
  using assms by (auto simp: verify_ordering_def emit_invariant_violation_def Let_def)

lemma verify_ordering_next:
  assumes "rec_sequence_id r = last_sequence_id m + 1" "last_sequence_id m < rec_sequence_id r"
  shows "verify_ordering room secs r m = m\<lparr>last_sequence_id := rec_sequence_id r\<rparr>"
  using assms by (auto simp: verify_ordering_def Let_def)

lemma mux_run_increasing:
  assumes "sorted_wrt (<) (map rec_sequence_id rs)" "\<forall>r \<in> set rs. last_sequence_id m < rec_sequence_id r"
    "\<forall>v \<in> set (violations m). is_gap_report v"
  shows "\<forall>v \<in> set (violations (fst (mux_run room secs rs (m, hs)))). is_gap_report v"
  using assms
proof (induction rs arbitrary: room m hs)
  case (Cons r rs)
  have "last_sequence_id m < rec_sequence_id r" using Cons.prems(2) by simp
  note v = verify_ordering_increasing [OF this Cons.prems(3)]
  show ?case using Cons.IH [OF _ _ v(1)] Cons.prems(1) by (simp add: v(2))
qed simp

text \<open>Numbers \<open>n + 1, n + 2, \<dots>\<close> without a hole.\<close>

fun consecutive :: "u64 \<Rightarrow> event_record list \<Rightarrow> bool" where
  "consecutive n [] = True"
| "consecutive n (r # rs) = (rec_sequence_id r = n + 1 \<and> consecutive (n + 1) rs)"

lemma mux_run_consecutive:
  assumes "consecutive (last_sequence_id m) rs" "unat (last_sequence_id m) + length rs < 2 ^ 64"
  shows "violations (fst (mux_run room secs rs (m, hs))) = violations m"
  using assms
proof (induction rs arbitrary: room m hs)
  case (Cons r rs)
  note n = word_succ_gt [of "last_sequence_id m" "length (r # rs)"]
  have r: "rec_sequence_id r = last_sequence_id m + 1" using Cons.prems(1) by simp
  moreover have "last_sequence_id m < rec_sequence_id r"
    using n(1) Cons.prems(2) by (simp add: r word_less_nat_alt)
  ultimately have "verify_ordering (room 0) secs r m = m\<lparr>last_sequence_id := rec_sequence_id r\<rparr>"
    by (rule verify_ordering_next)
  then show ?case using Cons.IH [of "m\<lparr>last_sequence_id := rec_sequence_id r\<rparr>"] Cons.prems n by (simp add: r)
qed simp

lemma consecutive_snoc:
  "consecutive n rs \<Longrightarrow> consecutive n (rs @ [r]) \<longleftrightarrow> rec_sequence_id r = n + of_nat (length rs) + 1"
  by (induction rs arbitrary: n) (auto simp: algebra_simps)

lemma emit_all_consecutive:
  assumes "\<forall>e \<in> set es. fst e" "consecutive n (sent em)"
    "sequence_counter em = n + of_nat (length (sent em)) + 1"
  shows "consecutive n (sent (emit_all es em)) \<and> length (sent (emit_all es em)) = length (sent em) + length es"
  using assms
proof (induction es arbitrary: em)
  case (Cons x es)
  obtain room ts ev where x: "x = (room, ts, ev)" by (metis prod_cases3)
  let ?em = "snd (try_emit room ts ev em)"
  have "consecutive n (sent ?em)"
    using Cons.prems x by (simp add: sent_try_emit consecutive_snoc)
  moreover have "sequence_counter ?em = n + of_nat (length (sent ?em)) + 1"
    using Cons.prems x by (simp add: sent_try_emit)
  ultimately show ?case using Cons.IH [of ?em] Cons.prems(1) x by (simp add: sent_try_emit)
qed simp

lemma emit_all_positive:
  assumes "\<forall>r \<in> set (sent em). 0 < rec_sequence_id r" "0 < unat (sequence_counter em)"
    "unat (sequence_counter em) + length es < 2 ^ 64"
  shows "\<forall>r \<in> set (sent (emit_all es em)). 0 < rec_sequence_id r"
  using assms
proof (induction es arbitrary: em)
  case (Cons x es)
  obtain room ts ev where x: "x = (room, ts, ev)" by (metis prod_cases3)
  let ?em = "snd (try_emit room ts ev em)"
  have "\<forall>r \<in> set (sent ?em). 0 < rec_sequence_id r"
    using Cons.prems by (auto simp: sent_try_emit word_less_nat_alt)
  from Cons.IH [OF this] Cons.prems show ?case
    using word_succ_gt [of "sequence_counter em" "Suc (length es)"] by (simp add: x)
qed simp

text \<open>
  What one emitter sends never makes the multiplexer report a reordering: every violation
  it raises is a gap report, and when the channel dropped nothing it raises none. The hypothesis
  is that the 64-bit sequence counter has not wrapped.
\<close>

theorem single_emitter_never_reordered:
  assumes "length es + 1 < 2 ^ 64"
  shows "(\<forall>v \<in> set (violations (fst (mux_run room secs (sent (emit_all es emitter_new))
            (with_invariant_channel mux_new, hs)))). is_gap_report v)
    \<and> ((\<forall>e \<in> set es. fst e) \<longrightarrow>
       violations (fst (mux_run room secs (sent (emit_all es emitter_new)) (with_invariant_channel mux_new, hs))) = [])"
proof (intro conjI impI)
  let ?rs = "sent (emit_all es emitter_new)" and ?m = "with_invariant_channel mux_new"
  have m: "last_sequence_id ?m = 0" "violations ?m = []"
    by (simp_all add: with_invariant_channel_def mux_new_def)
  have inv: "emitter_inv (emit_all es emitter_new)"
    using emit_all_inv [OF emitter_inv_new, of es] assms by (simp add: emitter_new_def)
  show "\<forall>v \<in> set (violations (fst (mux_run room secs ?rs (?m, hs)))). is_gap_report v"
    using mux_run_increasing [of ?rs ?m] inv emit_all_positive [of emitter_new es] assms
    by (simp add: emitter_inv_def m emitter_new_def)
  assume "\<forall>e \<in> set es. fst e"
  from emit_all_consecutive [OF this, of 0 emitter_new]
  have "consecutive 0 ?rs" "length ?rs = length es" by (simp_all add: emitter_new_def)
  then show "violations (fst (mux_run room secs ?rs (?m, hs))) = []"
    using mux_run_consecutive [of ?m ?rs] assms by (simp add: m)
qed

text \<open>A dropped event in the middle: one gap report.\<close>

theorem single_emitter_never_reordered_witness:
  "list_all is_gap_report (violations (fst (mux_run (\<lambda>_. True) 5
       (sent (emit_all [(True, 1, EvStore 0 [] 1), (False, 2, EvStore 0 [] 1), (True, 3, EvStore 0 [] 1)] emitter_new))
       (with_invariant_channel mux_new, [(\<lambda>r (h :: nat). (True, Suc h), 0)]))))
   \<and> length (violations (fst (mux_run (\<lambda>_. True) 5
       (sent (emit_all [(True, 1, EvStore 0 [] 1), (False, 2, EvStore 0 [] 1), (True, 3, EvStore 0 [] 1)] emitter_new))
       (with_invariant_channel mux_new, [(\<lambda>r (h :: nat). (True, Suc h), 0)])))) = 1"
  using single_emitter_never_reordered
    [of "[(True, 1, EvStore 0 [] 1), (False, 2, EvStore 0 [] 1), (True, 3, EvStore 0 [] 1)]" "\<lambda>_. True" 5
      "[(\<lambda>r (h :: nat). (True, Suc h), 0)]"]
  by (simp add: sent_try_emit emitter_new_def verify_ordering_def emit_invariant_violation_def Let_def
      with_invariant_channel_def mux_new_def word_less_nat_alt word_le_nat_alt)

end
