(* ===== verification/Event_Api.thy ===== *)
theory Event_Api
  imports Event_Flow
begin

text \<open>
  \<^verbatim>\<open>ghost-core/src/emitter.rs\<close>, the asynchronous interface: \<^verbatim>\<open>emit\<close> waits until the channel has room and
  fails only when it is closed, which the argument \<open>chan\<close> (the channel is open) says; the other
  methods each build one event and emit it.
\<close>

definition emit :: "bool \<Rightarrow> u64 \<Rightarrow> event \<Rightarrow> emitter \<Rightarrow> bool \<times> emitter" where
  "emit chan secs ev em = (case make_record secs ev em of (r, em') \<Rightarrow>
     (chan, if chan then em'\<lparr>sent := sent em' @ [r]\<rparr> else em'))"

definition allocation_created ::
  "bool \<Rightarrow> u64 \<Rightarrow> chunk_id \<Rightarrow> tier_id \<Rightarrow> usize \<Rightarrow> emitter \<Rightarrow> bool \<times> emitter" where
  "allocation_created chan secs cid tr sz =
     emit chan secs (EvAllocationCreated 0 cid tr sz)"

definition allocation_freed ::
  "bool \<Rightarrow> u64 \<Rightarrow> chunk_id \<Rightarrow> tier_id \<Rightarrow> emitter \<Rightarrow> bool \<times> emitter" where
  "allocation_freed chan secs cid tr =
     emit chan secs (EvAllocationFreed 0 cid tr)"

definition allocation_failed ::
  "bool \<Rightarrow> u64 \<Rightarrow> chunk_id \<Rightarrow> message \<Rightarrow> emitter \<Rightarrow> bool \<times> emitter" where
  "allocation_failed chan secs cid reason =
     emit chan secs (EvAllocationFailed 0 cid reason)"

definition migration_started ::
  "bool \<Rightarrow> u64 \<Rightarrow> chunk_id \<Rightarrow> tier_id \<Rightarrow> tier_id \<Rightarrow> emitter \<Rightarrow> bool \<times> emitter" where
  "migration_started chan secs cid fr dst =
     emit chan secs (EvMigrationStarted 0 cid fr dst)"

definition migration_completed ::
  "bool \<Rightarrow> u64 \<Rightarrow> chunk_id \<Rightarrow> tier_id \<Rightarrow> tier_id \<Rightarrow> u64 \<Rightarrow> emitter \<Rightarrow> bool \<times> emitter" where
  "migration_completed chan secs cid fr dst duration_ms =
     emit chan secs (EvMigrationCompleted 0 cid fr dst duration_ms)"

definition migration_failed ::
  "bool \<Rightarrow> u64 \<Rightarrow> chunk_id \<Rightarrow> tier_id \<Rightarrow> tier_id \<Rightarrow> message \<Rightarrow> emitter \<Rightarrow> bool \<times> emitter" where
  "migration_failed chan secs cid fr dst reason =
     emit chan secs (EvMigrationFailed 0 cid fr dst reason)"

definition migration_rolled_back ::
  "bool \<Rightarrow> u64 \<Rightarrow> chunk_id \<Rightarrow> tier_id \<Rightarrow> tier_id \<Rightarrow> emitter \<Rightarrow> bool \<times> emitter" where
  "migration_rolled_back chan secs cid fr dst =
     emit chan secs (EvMigrationRolledBack 0 cid fr dst)"

definition replay_started ::
  "bool \<Rightarrow> u64 \<Rightarrow> message \<Rightarrow> emitter \<Rightarrow> bool \<times> emitter" where
  "replay_started chan secs trace_path =
     emit chan secs (EvReplayStarted 0 trace_path)"

definition replay_completed ::
  "bool \<Rightarrow> u64 \<Rightarrow> message \<Rightarrow> usize \<Rightarrow> u64 \<Rightarrow> emitter \<Rightarrow> bool \<times> emitter" where
  "replay_completed chan secs trace_path events duration_ms =
     emit chan secs (EvReplayCompleted 0 trace_path events duration_ms)"

definition replay_divergence ::
  "bool \<Rightarrow> u64 \<Rightarrow> message \<Rightarrow> message \<Rightarrow> message \<Rightarrow> emitter \<Rightarrow> bool \<times> emitter" where
  "replay_divergence chan secs trace_path expected actual =
     emit chan secs (EvReplayDivergence 0 trace_path expected actual)"

definition replay_invariant_violation ::
  "bool \<Rightarrow> u64 \<Rightarrow> message \<Rightarrow> message \<Rightarrow> emitter \<Rightarrow> bool \<times> emitter" where
  "replay_invariant_violation chan secs rl details =
     emit chan secs (EvReplayInvariantViolation 0 rl details)"

definition pressure_changed ::
  "bool \<Rightarrow> u64 \<Rightarrow> tier_id \<Rightarrow> pressure_state \<Rightarrow> pressure_state \<Rightarrow> emitter \<Rightarrow> bool \<times> emitter" where
  "pressure_changed chan secs tr old nw =
     emit chan secs (EvPressureChanged 0 tr old nw)"

definition backpressure_activated ::
  "bool \<Rightarrow> u64 \<Rightarrow> tier_id \<Rightarrow> message \<Rightarrow> emitter \<Rightarrow> bool \<times> emitter" where
  "backpressure_activated chan secs tr lvl =
     emit chan secs (EvBackpressureActivated 0 tr lvl)"

definition backpressure_deactivated ::
  "bool \<Rightarrow> u64 \<Rightarrow> tier_id \<Rightarrow> emitter \<Rightarrow> bool \<times> emitter" where
  "backpressure_deactivated chan secs tr =
     emit chan secs (EvBackpressureDeactivated 0 tr)"

definition backend_health_changed ::
  "bool \<Rightarrow> u64 \<Rightarrow> tier_id \<Rightarrow> core_backend_health \<Rightarrow> core_backend_health \<Rightarrow> emitter \<Rightarrow> bool \<times> emitter" where
  "backend_health_changed chan secs tr old nw =
     emit chan secs (EvBackendHealthChanged 0 tr old nw)"

definition retry_attempted ::
  "bool \<Rightarrow> u64 \<Rightarrow> chunk_id \<Rightarrow> u32 \<Rightarrow> u32 \<Rightarrow> emitter \<Rightarrow> bool \<times> emitter" where
  "retry_attempted chan secs cid attempt max_attempts =
     emit chan secs (EvRetryAttempted 0 cid attempt max_attempts)"

definition operation_failed ::
  "bool \<Rightarrow> u64 \<Rightarrow> message \<Rightarrow> message \<Rightarrow> emitter \<Rightarrow> bool \<times> emitter" where
  "operation_failed chan secs oper reason =
     emit chan secs (EvOperationFailed 0 oper reason)"

definition invariant_violation ::
  "bool \<Rightarrow> u64 \<Rightarrow> message \<Rightarrow> message \<Rightarrow> invariant_severity \<Rightarrow> emitter \<Rightarrow> bool \<times> emitter" where
  "invariant_violation chan secs rl details severity =
     emit chan secs (EvInvariantViolation 0 rl details severity)"

definition io_request_issued ::
  "bool \<Rightarrow> u64 \<Rightarrow> io_operation \<Rightarrow> chunk_id \<Rightarrow> tier_id \<Rightarrow> emitter \<Rightarrow> bool \<times> emitter" where
  "io_request_issued chan secs oper cid tr =
     emit chan secs (EvIoRequestIssued 0 oper cid tr)"

definition io_request_completed ::
  "bool \<Rightarrow> u64 \<Rightarrow> io_operation \<Rightarrow> chunk_id \<Rightarrow> tier_id \<Rightarrow> u64 \<Rightarrow> emitter \<Rightarrow> bool \<times> emitter" where
  "io_request_completed chan secs oper cid tr duration_ticks =
     emit chan secs (EvIoRequestCompleted 0 oper cid tr duration_ticks)"

definition io_request_failed ::
  "bool \<Rightarrow> u64 \<Rightarrow> io_operation \<Rightarrow> chunk_id \<Rightarrow> tier_id \<Rightarrow> message \<Rightarrow> emitter \<Rightarrow> bool \<times> emitter" where
  "io_request_failed chan secs oper cid tr err =
     emit chan secs (EvIoRequestFailed 0 oper cid tr err)"

definition hotness_sampled ::
  "bool \<Rightarrow> u64 \<Rightarrow> message \<Rightarrow> usize \<Rightarrow> usize \<Rightarrow> usize \<Rightarrow> emitter \<Rightarrow> bool \<times> emitter" where
  "hotness_sampled chan secs provider num_samples hot_count cold_count =
     emit chan secs (EvHotnessSampled 0 provider num_samples hot_count cold_count)"

definition hotness_changed ::
  "bool \<Rightarrow> u64 \<Rightarrow> chunk_id \<Rightarrow> message \<Rightarrow> message \<Rightarrow> emitter \<Rightarrow> bool \<times> emitter" where
  "hotness_changed chan secs cid old_temp new_temp =
     emit chan secs (EvHotnessChanged 0 cid old_temp new_temp)"

definition policy_recommendation_generated ::
  "bool \<Rightarrow> u64 \<Rightarrow> (message list) \<Rightarrow> message \<Rightarrow> emitter \<Rightarrow> bool \<times> emitter" where
  "policy_recommendation_generated chan secs recommendations pressure_level =
     emit chan secs (EvPolicyRecommendationGenerated 0 recommendations pressure_level)"

definition tier_inventory_changed ::
  "bool \<Rightarrow> u64 \<Rightarrow> (message list) \<Rightarrow> emitter \<Rightarrow> bool \<times> emitter" where
  "tier_inventory_changed chan secs tiers =
     emit chan secs (EvTierInventoryChanged 0 tiers)"

definition tier_utilization_changed ::
  "bool \<Rightarrow> u64 \<Rightarrow> message \<Rightarrow> u64 \<Rightarrow> u64 \<Rightarrow> emitter \<Rightarrow> bool \<times> emitter" where
  "tier_utilization_changed chan secs tr used_bytes total_bytes =
     emit chan secs (EvTierUtilizationChanged 0 tr used_bytes total_bytes)"

lemma emit_try_emit: "emit chan secs ev em = try_emit chan secs ev em"
  by (simp add: emit_def try_emit_def)

end
