(* ===== verification/Runtime.thy ===== *)
theory Runtime
  imports Trace Event_Flow Effects
begin

text \<open>
  What every task of the daemon shares: the trace log and the event emitter (\<^verbatim>\<open>Arc\<close>s in the
  source), and the outside world as the tasks see it. A reading of a clock or of the state of the
  event channel is an oracle indexed by \<open>ticks\<close>, the number of readings made so far.
\<close>

record runtime =
  ms_at :: "nat \<Rightarrow> u64"
  secs_at :: "nat \<Rightarrow> u64"
  room_at :: "nat \<Rightarrow> bool"
  ticks :: nat
  rt_log :: trace_log
  rt_emitter :: "emitter option"

type_synonym 'a rt = "(runtime, 'a, ghost_error) act"

definition tick :: "runtime \<Rightarrow> runtime" where
  "tick s = s\<lparr>ticks := Suc (ticks s)\<rparr>"

text \<open>\<^verbatim>\<open>current_timestamp()\<close> of \<^verbatim>\<open>trace.rs\<close>, in milliseconds.\<close>

definition now_ms :: "u64 rt" where
  "now_ms s = (Ok (ms_at s (ticks s)), tick s)"

definition log_event :: "trace_event \<Rightarrow> unit rt" where
  "log_event ev = on_part rt_log (\<lambda>l s. s\<lparr>rt_log := l\<rparr>) (trace_record ev)"

definition log_now :: "(u64 \<Rightarrow> trace_event) \<Rightarrow> unit rt" where
  "log_now ev = bind_act now_ms (\<lambda>ts. log_event (ev ts))"

text \<open>\<^verbatim>\<open>if let Some(ref emitter) = event_emitter { let _ = emitter.try_emit(..); }\<close>\<close>

definition emit_event :: "event \<Rightarrow> unit rt" where
  "emit_event ev s = (case rt_emitter s of
       None \<Rightarrow> (Ok (), s)
     | Some em \<Rightarrow> (Ok (), tick (s\<lparr>rt_emitter := Some (snd (try_emit (room_at s (ticks s)) (secs_at s (ticks s)) ev em))\<rparr>)))"

section \<open>Texts\<close>

fun debug_tier :: "tier_id \<Rightarrow> fmt_piece" where
  "debug_tier t = FmtTier t"

fun display_error :: "ghost_error \<Rightarrow> message" where
  "display_error (Io m) = Lit ''I/O error: '' # m"
| "display_error (ChunkNotFound m) = Lit ''chunk not found: '' # m"
| "display_error (TierFull t) = [Lit ''tier '', debug_tier t, Lit '' is full'']"
| "display_error (TierUnavailable t) = [Lit ''tier '', debug_tier t, Lit '' unavailable'']"
| "display_error (ChecksumMismatch m) = Lit ''checksum mismatch for chunk '' # m"
| "display_error (CorruptionDetected m) = Lit ''corruption detected in '' # m"
| "display_error (CompressionError m) = Lit ''compression error: '' # m"
| "display_error (BackendFailure m) = Lit ''backend error: '' # m"
| "display_error (IpcError m) = Lit ''IPC error: '' # m"
| "display_error OutOfMemory = [Lit ''out of memory'']"
| "display_error Timeout = [Lit ''operation timed out'']"
| "display_error (PipelineError m) = Lit ''pipeline error: '' # m"
| "display_error Cancelled = [Lit ''operation cancelled'']"
| "display_error (ReplayError m) = Lit ''trace replay error: '' # m"
| "display_error (InvalidConfig m) = Lit ''invalid configuration: '' # m"
| "display_error (InvalidStateTransition f t) =
     [Lit ''invalid state transition from '', Lit f, Lit '' to '', Lit t]"
| "display_error (ProviderUnavailable m) = Lit ''provider unavailable: '' # m"
| "display_error (Internal m) = Lit ''internal error: '' # m"

section \<open>Logging never fails with room in the log\<close>

definition rt_ok :: "runtime \<Rightarrow> bool" where
  "rt_ok s \<longleftrightarrow> log_inv (rt_log s) \<and> 0 < max_events (rt_log s)"

lemma rt_ok_tick [simp]: "rt_ok (tick s) = rt_ok s"
  by (simp add: rt_ok_def tick_def)

lemma rt_log_tick [simp]: "rt_log (tick s) = rt_log s"
  by (simp add: tick_def)

lemma trace_record_ok:
  assumes "log_inv l" "0 < max_events l"
  obtains l' where "trace_record ev l = (Ok (), l')" "log_inv l'" "max_events l' = max_events l"
    "log_events l' \<noteq> []" "last (log_events l') = ev"
proof (cases "length (log_events l) = max_events l")
  case True
  then obtain e es where "log_events l = e # es" using assms(2) by (cases "log_events l") auto
  with True that [of "l\<lparr>log_events := es @ [ev]\<rparr>"] show thesis by (simp add: trace_record_def log_inv_def)
next
  case False
  with assms that [of "l\<lparr>log_events := log_events l @ [ev]\<rparr>"] show thesis
    by (simp add: trace_record_def log_inv_def)
qed

lemma log_event_ok:
  assumes "rt_ok s"
  obtains s' where "log_event ev s = (Ok (), s')" "rt_ok s'" "rt_emitter s' = rt_emitter s" "ticks s' = ticks s"
    "ms_at s' = ms_at s" "log_events (rt_log s') \<noteq> []" "last (log_events (rt_log s')) = ev"
proof -
  obtain l' where "trace_record ev (rt_log s) = (Ok () :: (unit, ghost_error) outcome, l')" "log_inv l'"
    "max_events l' = max_events (rt_log s)" "log_events l' \<noteq> []" "last (log_events l') = ev"
    using assms by (auto simp: rt_ok_def elim: trace_record_ok)
  then show thesis using assms by (intro that [of "s\<lparr>rt_log := l'\<rparr>"]) (simp_all add: log_event_def on_part_def rt_ok_def)
qed

lemma log_now_ok:
  assumes "rt_ok s"
  obtains s' where "log_now ev s = (Ok (), s')" "rt_ok s'" "rt_emitter s' = rt_emitter s"
    "log_events (rt_log s') \<noteq> []" "last (log_events (rt_log s')) = ev (ms_at s (ticks s))"
proof -
  from assms have "rt_ok (tick s)" by simp
  from log_event_ok [OF this, of "ev (ms_at s (ticks s))"] obtain s' where
    "log_event (ev (ms_at s (ticks s))) (tick s) = (Ok (), s')" "rt_ok s'" "rt_emitter s' = rt_emitter (tick s)"
    "log_events (rt_log s') \<noteq> []" "last (log_events (rt_log s')) = ev (ms_at s (ticks s))" by metis
  then show thesis by (intro that [of s']) (simp_all add: log_now_def now_ms_def bind_act_def tick_def)
qed

lemma emit_event_ok:
  obtains s' where "emit_event ev s = (Ok (), s')" "rt_log s' = rt_log s" "rt_ok s' = rt_ok s"
  by (intro that [of "snd (emit_event ev s)"]) (auto simp: emit_event_def rt_ok_def split: option.split)

end
