(* ===== verification/Health.thy ===== *)
theory Health
  imports Event_Flow Transfer_Job
begin

text \<open>
  \<^verbatim>\<open>ghost-daemon/src/health.rs\<close>: failure counting and recovery of the storage backends. The
  health of a tier is a function of its failure count and of whether recovery has begun; the
  lemmas make that precise. \<open>env\<close> is what one call sees of its environment: the instant, the
  emitter's time stamp and whether the event channel has room.
\<close>

section \<open>States and configuration\<close>

datatype backend_health = Healthy | Degraded | Unavailable | Recovering

fun display_health :: "backend_health \<Rightarrow> string" where
  "display_health Healthy = ''healthy''"
| "display_health Degraded = ''degraded''"
| "display_health Unavailable = ''unavailable''"
| "display_health Recovering = ''recovering''"

record health_config =
  degraded_threshold :: u64
  unavailable_threshold :: u64
  failure_window :: nat
  recovery_probe_interval :: nat
  recovery_success_threshold :: u64

definition health_config_default :: health_config where
  "health_config_default = \<lparr>degraded_threshold = 3, unavailable_threshold = 10,
     failure_window = 60, recovery_probe_interval = 5, recovery_success_threshold = 3\<rparr>"

record health_tracker =
  states :: "(tier_id, backend_health) btree"
  failure_counts :: "(tier_id, u64) btree"
  last_failure :: "(tier_id, instant) btree"
  recovery_successes :: "(tier_id, u64) btree"
  ht_config :: health_config
  ht_emitter :: "emitter option"

record env =
  env_now :: instant
  env_secs :: u64
  env_room :: bool

definition health_new :: "health_config \<Rightarrow> health_tracker" where
  "health_new cfg = \<lparr>states = fmempty, failure_counts = fmempty, last_failure = fmempty,
     recovery_successes = fmempty, ht_config = cfg, ht_emitter = None\<rparr>"

definition health_set_emitter :: "emitter \<Rightarrow> health_tracker \<Rightarrow> health_tracker" where
  "health_set_emitter em h = h\<lparr>ht_emitter := Some em\<rparr>"

definition health_default :: health_tracker where
  "health_default = health_new health_config_default"

section \<open>Operations\<close>

definition health_register :: "tier_id \<Rightarrow> health_tracker \<Rightarrow> health_tracker" where
  "health_register t h = h\<lparr>states := or_insert t Healthy (states h),
     failure_counts := or_insert t 0 (failure_counts h),
     recovery_successes := or_insert t 0 (recovery_successes h)\<rparr>"

fun to_core :: "backend_health \<Rightarrow> core_backend_health" where
  "to_core Healthy = CoreHealthy"
| "to_core Degraded = CoreDegraded"
| "to_core Unavailable = CoreUnavailable"
| "to_core Recovering = CoreRecovering"

text \<open>\<open>let _ = emitter.try_emit(..)\<close> when an emitter is set.\<close>

definition announce :: "env \<Rightarrow> event \<Rightarrow> health_tracker \<Rightarrow> health_tracker" where
  "announce e ev h = h\<lparr>ht_emitter := map_option (\<lambda>em. snd (try_emit (env_room e) (env_secs e) ev em)) (ht_emitter h)\<rparr>"

text \<open>
  \<^verbatim>\<open>record_failure\<close>: \<^verbatim>\<open>fetch_add\<close> wraps; the \<^verbatim>\<open>+ 1\<close> on the value it returned is ordinary
  arithmetic and panics in the debug profile when it overflows. \<open>apply_failures\<close> is the rest of
  the method, with the new count.
\<close>

definition apply_failures :: "env \<Rightarrow> tier_id \<Rightarrow> u64 \<Rightarrow> health_tracker \<Rightarrow> health_tracker" where
  "apply_failures e t failures h =
     (let old_state = fmlookup (states h) t;
          prev = unwrap_or Healthy old_state;
          new_state = (if failures \<ge> unavailable_threshold (ht_config h) then Unavailable
                       else if failures \<ge> degraded_threshold (ht_config h) then Degraded
                       else prev);
          h' = h\<lparr>last_failure := fmupd t (env_now e) (last_failure h),
                 states := fmupd t new_state (states h)\<rparr>
      in if prev \<noteq> new_state
         then announce e (EvBackendHealthChanged 0 t
                (unwrap_or CoreHealthy (map_option to_core old_state))
                (case new_state of Degraded \<Rightarrow> CoreDegraded | Unavailable \<Rightarrow> CoreUnavailable
                   | _ \<Rightarrow> CoreHealthy)) h'
         else h')"

definition record_failure :: "profile \<Rightarrow> env \<Rightarrow> tier_id \<Rightarrow> (health_tracker, unit, ghost_error) act" where
  "record_failure pr e t h =
     (let old_count = unwrap_or 0 (fmlookup (failure_counts h) t) in
      bind_act (update_act (\<lambda>h. h\<lparr>failure_counts := fmupd t (old_count + 1) (failure_counts h)\<rparr>))
      (\<lambda>_. bind_act (lift_outcome (add_pr pr old_count 1))
      (\<lambda>failures. update_act (apply_failures e t failures))) h)"

definition success_degraded :: "tier_id \<Rightarrow> health_tracker \<Rightarrow> health_tracker" where
  "success_degraded t h = (case fmlookup (failure_counts h) t of
       Some current \<Rightarrow>
         h\<lparr>failure_counts := (if current > 0 then fmupd t (current - 1) (failure_counts h) else failure_counts h),
           states := (if current \<le> degraded_threshold (ht_config h) then fmupd t Healthy (states h) else states h)\<rparr>
     | None \<Rightarrow> h)"

definition success_recovering :: "profile \<Rightarrow> tier_id \<Rightarrow> (health_tracker, unit, ghost_error) act" where
  "success_recovering pr t h =
     (let old = unwrap_or 0 (fmlookup (recovery_successes h) t);
          h1 = h\<lparr>recovery_successes := fmupd t (old + 1) (recovery_successes h)\<rparr>
      in case add_pr pr old 1 of
           Ok n \<Rightarrow> (Ok (), if n \<ge> recovery_success_threshold (ht_config h)
                          then h1\<lparr>states := fmupd t Healthy (states h1),
                                  failure_counts := bt_modify t (\<lambda>_. 0) (failure_counts h1),
                                  recovery_successes := fmupd t 0 (recovery_successes h1)\<rparr>
                          else h1)
         | Err x \<Rightarrow> (Err x, h1)
         | Panic \<Rightarrow> (Panic, h1))"

definition record_success :: "profile \<Rightarrow> env \<Rightarrow> tier_id \<Rightarrow> (health_tracker, unit, ghost_error) act" where
  "record_success pr e t h = (case fmlookup (states h) t of
       None \<Rightarrow> (Ok (), h)
     | Some prev \<Rightarrow>
         bind_act (case prev of
             Degraded \<Rightarrow> update_act (success_degraded t)
           | Recovering \<Rightarrow> success_recovering pr t
           | _ \<Rightarrow> ret ())
         (\<lambda>_. update_act (\<lambda>h'. if fmlookup (states h') t = Some Healthy \<and> prev \<noteq> Healthy
                                then announce e (EvBackendHealthChanged 0 t (to_core prev) CoreHealthy) h' else h')) h)"

definition health :: "health_tracker \<Rightarrow> tier_id \<Rightarrow> backend_health option" where
  "health h t = fmlookup (states h) t"

definition failure_count :: "health_tracker \<Rightarrow> tier_id \<Rightarrow> u64" where
  "failure_count h t = unwrap_or 0 (fmlookup (failure_counts h) t)"

definition is_available :: "health_tracker \<Rightarrow> tier_id \<Rightarrow> bool" where
  "is_available h t = unwrap_or False (map_option (\<lambda>s. s = Healthy \<or> s = Degraded) (fmlookup (states h) t))"

definition begin_recovery :: "env \<Rightarrow> tier_id \<Rightarrow> health_tracker \<Rightarrow> health_tracker" where
  "begin_recovery e t h = (if fmlookup (states h) t = Some Unavailable
     then announce e (EvBackendHealthChanged 0 t CoreUnavailable CoreRecovering)
            (h\<lparr>states := fmupd t Recovering (states h),
               recovery_successes := bt_modify t (\<lambda>_. 0) (recovery_successes h)\<rparr>)
     else h)"

definition last_failure_time :: "health_tracker \<Rightarrow> tier_id \<Rightarrow> instant option" where
  "last_failure_time h t = fmlookup (last_failure h) t"

definition health_reset :: "tier_id \<Rightarrow> health_tracker \<Rightarrow> health_tracker" where
  "health_reset t h = h\<lparr>states := fmupd t Healthy (states h),
     failure_counts := bt_modify t (\<lambda>_. 0) (failure_counts h),
     recovery_successes := bt_modify t (\<lambda>_. 0) (recovery_successes h),
     last_failure := fmdrop t (last_failure h)\<rparr>"

section \<open>The failure count decides the health\<close>

text \<open>The band of failure counts that belongs to a state.\<close>

fun in_band :: "health_config \<Rightarrow> backend_health \<Rightarrow> u64 \<Rightarrow> bool" where
  "in_band c Healthy n \<longleftrightarrow> n < degraded_threshold c"
| "in_band c Degraded n \<longleftrightarrow> degraded_threshold c \<le> n \<and> n < unavailable_threshold c"
| "in_band c Unavailable n \<longleftrightarrow> unavailable_threshold c \<le> n"
| "in_band c Recovering n \<longleftrightarrow> unavailable_threshold c \<le> n"

text \<open>A tier without an entry counts as healthy.\<close>

definition current_state :: "health_tracker \<Rightarrow> tier_id \<Rightarrow> backend_health" where
  "current_state h t = unwrap_or Healthy (fmlookup (states h) t)"

definition health_inv :: "health_tracker \<Rightarrow> bool" where
  "health_inv h \<longleftrightarrow> (\<forall>t. in_band (ht_config h) (current_state h t) (failure_count h t))"

definition config_ok :: "health_config \<Rightarrow> bool" where
  "config_ok c \<longleftrightarrow> 0 < degraded_threshold c \<and> degraded_threshold c \<le> unavailable_threshold c"

datatype health_op = RegisterTier tier_id | Failure env tier_id | Success env tier_id
  | BeginRecovery env tier_id | Reset tier_id

fun health_step :: "profile \<Rightarrow> health_op \<Rightarrow> (health_tracker, unit, ghost_error) act" where
  "health_step pr (RegisterTier t) = update_act (health_register t)"
| "health_step pr (Failure e t) = record_failure pr e t"
| "health_step pr (Success e t) = record_success pr e t"
| "health_step pr (BeginRecovery e t) = update_act (begin_recovery e t)"
| "health_step pr (Reset t) = update_act (health_reset t)"

fun health_run :: "profile \<Rightarrow> health_op list \<Rightarrow> (health_tracker, unit, ghost_error) act" where
  "health_run pr [] = ret ()"
| "health_run pr (x # xs) = bind_act (health_step pr x) (\<lambda>_. health_run pr xs)"

lemma announce_simps [simp]:
  "states (announce e ev h) = states h" "failure_counts (announce e ev h) = failure_counts h"
  "recovery_successes (announce e ev h) = recovery_successes h" "ht_config (announce e ev h) = ht_config h"
  "last_failure (announce e ev h) = last_failure h"
  by (simp_all add: announce_def)

text \<open>Both counters stay below a bound that grows by one per operation, so no counter wraps.\<close>

definition counts_below :: "nat \<Rightarrow> health_tracker \<Rightarrow> bool" where
  "counts_below n h \<longleftrightarrow> (\<forall>t. unat (failure_count h t) \<le> n \<and> unat (unwrap_or 0 (fmlookup (recovery_successes h) t)) \<le> n)"

lemmas health_ops = health_register_def record_failure_def success_degraded_def success_recovering_def
  record_success_def begin_recovery_def health_reset_def

lemma unat_lt64: "unat (n :: u64) < 2 ^ 64"
  using unsigned_less [of n] by simp

lemma Suc_fits: "unat (n :: u64) < 2 ^ 64 - 1 \<Longrightarrow> unat (n + 1) = Suc (unat n)"
  using unat_add_fits [of n 1] by simp

lemma add_pr_Suc: "unat (n :: u64) < 2 ^ 64 - 1 \<Longrightarrow> add_pr pr n 1 = Ok (n + 1)"
  by (rule add_pr_fits) simp

text \<open>What the failing and the succeeding call do to the tracker when the counters have room.\<close>

definition failure_result :: "env \<Rightarrow> tier_id \<Rightarrow> health_tracker \<Rightarrow> health_tracker" where
  "failure_result e t h = apply_failures e t (failure_count h t + 1)
     (h\<lparr>failure_counts := fmupd t (failure_count h t + 1) (failure_counts h)\<rparr>)"

lemma record_failure_eq:
  assumes "unat (failure_count h t) < 2 ^ 64 - 1"
  shows "record_failure pr e t h = (Ok (), failure_result e t h)"
  using assms by (simp add: record_failure_def Let_def act_defs failure_count_def failure_result_def add_pr_Suc)

lemma apply_failures_simps [simp]:
  "states (apply_failures e t n h) = fmupd t (if n \<ge> unavailable_threshold (ht_config h) then Unavailable
      else if n \<ge> degraded_threshold (ht_config h) then Degraded
      else unwrap_or Healthy (fmlookup (states h) t)) (states h)"
  "failure_counts (apply_failures e t n h) = failure_counts h"
  "recovery_successes (apply_failures e t n h) = recovery_successes h"
  "ht_config (apply_failures e t n h) = ht_config h"
  by (simp_all add: apply_failures_def Let_def)

definition recovering_success :: "tier_id \<Rightarrow> health_tracker \<Rightarrow> health_tracker" where
  "recovering_success t h = (let n = unwrap_or 0 (fmlookup (recovery_successes h) t) + 1 in
    if recovery_success_threshold (ht_config h) \<le> n
    then h\<lparr>states := fmupd t Healthy (states h), failure_counts := bt_modify t (\<lambda>_. 0) (failure_counts h),
           recovery_successes := fmupd t 0 (fmupd t n (recovery_successes h))\<rparr>
    else h\<lparr>recovery_successes := fmupd t n (recovery_successes h)\<rparr>)"

lemma success_recovering_eq:
  assumes "unat (unwrap_or 0 (fmlookup (recovery_successes h) t)) < 2 ^ 64 - 1"
  shows "success_recovering pr t h = (Ok (), recovering_success t h)"
  by (simp add: success_recovering_def recovering_success_def Let_def add_pr_Suc [OF assms])

definition success_result :: "env \<Rightarrow> tier_id \<Rightarrow> health_tracker \<Rightarrow> health_tracker" where
  "success_result e t h = (case fmlookup (states h) t of
      Some Degraded \<Rightarrow> success_degraded t h | Some Recovering \<Rightarrow> recovering_success t h | _ \<Rightarrow> h)"

lemma record_success_eq:
  assumes "unat (unwrap_or 0 (fmlookup (recovery_successes h) t)) < 2 ^ 64 - 1"
  obtains h' where "record_success pr e t h = (Ok (), h')"
    "states h' = states (success_result e t h)" "failure_counts h' = failure_counts (success_result e t h)"
    "recovery_successes h' = recovery_successes (success_result e t h)" "ht_config h' = ht_config h"
proof -
  have "ht_config (success_degraded t h) = ht_config h" "ht_config (recovering_success t h) = ht_config h"
    by (simp_all add: success_degraded_def recovering_success_def Let_def split: option.split)
  then show thesis
    using that [of "snd (record_success pr e t h)"]
    by (cases "fmlookup (states h) t"; cases "the (fmlookup (states h) t)")
       (simp_all add: record_success_def success_result_def act_defs success_recovering_eq [OF assms])
qed

lemma health_inv_update:
  assumes "health_inv h" "ht_config h' = ht_config h"
    "\<And>u. u \<noteq> t \<Longrightarrow> current_state h' u = current_state h u \<and> failure_count h' u = failure_count h u"
    "in_band (ht_config h) (current_state h' t) (failure_count h' t)"
  shows "health_inv h'"
  using assms unfolding health_inv_def by metis

lemma health_inv_failure_result:
  assumes "health_inv h" "config_ok (ht_config h)" "unat (failure_count h t) < 2 ^ 64 - 1"
  shows "health_inv (failure_result e t h)"
proof (rule health_inv_update [OF assms(1), of _ t])
  define n where "n = failure_count h t"
  have n: "n < n + 1"
    using Suc_fits [OF assms(3)] by (simp add: word_less_nat_alt n_def)
  have "in_band (ht_config h) (current_state h t) n"
    using assms(1) unfolding health_inv_def n_def by blast
  then show "in_band (ht_config h) (current_state (failure_result e t h) t) (failure_count (failure_result e t h) t)"
    using n by (cases "fmlookup (states h) t"; cases "the (fmlookup (states h) t)")
      (auto simp: failure_result_def current_state_def failure_count_def n_def)
qed (simp_all add: failure_result_def current_state_def failure_count_def)

lemma success_degraded_band:
  assumes "config_ok c" "in_band c Degraded n"
  shows "0 < n" and "n \<le> degraded_threshold c \<Longrightarrow> in_band c Healthy (n - 1)"
    and "\<not> n \<le> degraded_threshold c \<Longrightarrow> in_band c Degraded (n - 1)"
proof -
  show p: "0 < n" using assms by (auto simp: config_ok_def)
  then have "1 \<le> n" by (simp add: word_le_nat_alt word_less_nat_alt)
  then have u: "unat (n - 1) = unat n - 1" by (simp add: unat_sub_fits)
  show "n \<le> degraded_threshold c \<Longrightarrow> in_band c Healthy (n - 1)"
    using p u by (simp add: word_less_nat_alt word_le_nat_alt)
  show "\<not> n \<le> degraded_threshold c \<Longrightarrow> in_band c Degraded (n - 1)"
    using p u assms(2) by (auto simp: word_less_nat_alt word_le_nat_alt)
qed

lemma ht_config_success_result [simp]: "ht_config (success_result e t h) = ht_config h"
  by (simp add: success_result_def success_degraded_def recovering_success_def Let_def
      split: option.split backend_health.split)

lemma health_inv_success_result:
  assumes "health_inv h" "config_ok (ht_config h)"
  shows "health_inv (success_result e t h)"
proof (rule health_inv_update [OF assms(1), of _ t])
  have d0: "0 < degraded_threshold (ht_config h)" using assms(2) by (simp add: config_ok_def)
  have b: "in_band (ht_config h) (current_state h t) (failure_count h t)"
    using assms(1) unfolding health_inv_def by blast
  show "in_band (ht_config h) (current_state (success_result e t h) t) (failure_count (success_result e t h) t)"
  proof (cases "fmlookup (states h) t = Some Degraded")
    case True
    then have cur: "current_state h t = Degraded" by (simp add: current_state_def)
    note band = success_degraded_band [OF assms(2) b [unfolded cur]]
    from band(1) obtain n where n: "fmlookup (failure_counts h) t = Some n"
      by (cases "fmlookup (failure_counts h) t") (auto simp: failure_count_def)
    then have "failure_count h t = n" by (simp add: failure_count_def)
    with band n True show ?thesis
      by (simp add: success_result_def success_degraded_def current_state_def failure_count_def)
  next
    case False
    then show ?thesis using b d0
      by (cases "fmlookup (states h) t"; cases "the (fmlookup (states h) t)"; cases "fmlookup (failure_counts h) t")
         (simp_all add: success_result_def recovering_success_def Let_def current_state_def failure_count_def)
  qed
qed (simp_all add: success_result_def success_degraded_def recovering_success_def Let_def current_state_def
      failure_count_def split: option.split backend_health.split)

lemma health_inv_cong:
  "states h = states h' \<Longrightarrow> failure_counts h = failure_counts h' \<Longrightarrow> ht_config h = ht_config h' \<Longrightarrow>
   health_inv h = health_inv h'"
  by (simp add: health_inv_def current_state_def failure_count_def)

lemma counts_below_cong:
  "failure_counts h = failure_counts h' \<Longrightarrow> recovery_successes h = recovery_successes h' \<Longrightarrow>
   counts_below n h = counts_below n h'"
  by (simp add: counts_below_def failure_count_def)

lemma failure_count_success_result: "unat (failure_count (success_result e t h) u) \<le> unat (failure_count h u)"
proof -
  have d: "unat (c - 1) \<le> unat c" if "0 < c" for c :: u64
    using that by (simp add: unat_sub_fits word_le_nat_alt word_less_nat_alt)
  have "unat (failure_count (success_degraded t h) u) \<le> unat (failure_count h u)"
    by (auto simp: success_degraded_def failure_count_def d split: option.split)
  moreover have "unat (failure_count (recovering_success t h) u) \<le> unat (failure_count h u)"
    by (cases "fmlookup (failure_counts h) t") (auto simp: recovering_success_def failure_count_def Let_def)
  ultimately show ?thesis by (auto simp: success_result_def split: option.split backend_health.split)
qed

lemma recovery_successes_success_result:
  assumes "unat (unwrap_or 0 (fmlookup (recovery_successes h) t)) < 2 ^ 64 - 1"
  shows "unat (unwrap_or 0 (fmlookup (recovery_successes (success_result e t h)) u))
     \<le> Suc (unat (unwrap_or 0 (fmlookup (recovery_successes h) u)))"
  using Suc_fits [OF assms]
  by (auto simp: success_result_def success_degraded_def recovering_success_def Let_def
      split: option.split backend_health.split)

lemma counts_below_success_result:
  assumes "counts_below n h" "n < 2 ^ 64 - 1"
  shows "counts_below (Suc n) (success_result e t h)"
  unfolding counts_below_def
proof (intro allI conjI)
  fix u
  show "unat (failure_count (success_result e t h) u) \<le> Suc n"
    using failure_count_success_result [of e t h u] assms(1) by (simp add: counts_below_def) (meson le_SucI le_trans)
  have "unat (unwrap_or 0 (fmlookup (recovery_successes h) t)) < 2 ^ 64 - 1"
    using assms unfolding counts_below_def by (meson le_less_trans)
  from recovery_successes_success_result [OF this, of e u] assms(1)
  show "unat (unwrap_or 0 (fmlookup (recovery_successes (success_result e t h)) u)) \<le> Suc n"
    unfolding counts_below_def by (meson Suc_le_mono le_trans)
qed

text \<open>Every operation succeeds, keeps the invariant and adds at most one to a counter.\<close>

lemma health_step_inv:
  assumes inv: "health_inv h" and cfg: "config_ok (ht_config h)" and cb: "counts_below n h" and n: "n < 2 ^ 64 - 1"
  obtains h' where "health_step pr x h = (Ok (), h')" "health_inv h'" "ht_config h' = ht_config h" "counts_below (Suc n) h'"
proof -
  have room: "unat (failure_count h t) < 2 ^ 64 - 1" "unat (unwrap_or 0 (fmlookup (recovery_successes h) t)) < 2 ^ 64 - 1" for t
    using cb n unfolding counts_below_def by (meson le_less_trans)+
  have le: "unat (failure_count h t) \<le> Suc n" "unat (unwrap_or 0 (fmlookup (recovery_successes h) t)) \<le> Suc n" for t
    using cb unfolding counts_below_def by (meson le_SucI)+
  have le0: "counts_below (Suc n) h'" if "\<And>t. failure_count h' t = failure_count h t \<or> failure_count h' t = 0"
    "\<And>t. unwrap_or 0 (fmlookup (recovery_successes h') t) = unwrap_or 0 (fmlookup (recovery_successes h) t)
       \<or> unwrap_or 0 (fmlookup (recovery_successes h') t) = 0" for h'
    unfolding counts_below_def using that le by (metis le0 unat_0)
  have d0: "0 < degraded_threshold (ht_config h)" using cfg by (simp add: config_ok_def)
  have b: "in_band (ht_config h) (current_state h t) (failure_count h t)" for t
    using inv unfolding health_inv_def by blast
  have map0: "unwrap_or 0 (map_option (\<lambda>_. 0) x) = (0 :: u64)" for x :: "u64 option" by (cases x) simp_all
  show thesis
  proof (cases x)
    case (RegisterTier t)
    let ?h = "health_register t h"
    have "health_inv ?h" using b
      by (intro health_inv_update [OF inv, of _ t])
         (simp_all add: health_register_def current_state_def failure_count_def)
    moreover have "counts_below (Suc n) ?h"
      by (rule le0) (simp_all add: health_register_def failure_count_def)
    ultimately show thesis using RegisterTier by (intro that [of ?h]) (simp_all add: act_defs health_register_def)
  next
    case (Failure e t)
    let ?h = "failure_result e t h"
    have "counts_below (Suc n) ?h" using le Suc_fits [OF room(1)] cb
      by (auto simp: counts_below_def failure_result_def failure_count_def)
    then show thesis using Failure health_inv_failure_result [OF inv cfg room(1)]
      by (intro that [of ?h]) (simp_all add: record_failure_eq [OF room(1)] failure_result_def)
  next
    case (Success e t)
    obtain h' where h': "record_success pr e t h = (Ok (), h')"
      "states h' = states (success_result e t h)" "failure_counts h' = failure_counts (success_result e t h)"
      "recovery_successes h' = recovery_successes (success_result e t h)" "ht_config h' = ht_config h"
      by (rule record_success_eq [OF room(2)])
    show thesis
      using Success h' health_inv_success_result [OF inv cfg, of e t] counts_below_success_result [OF cb n, of e t]
        health_inv_cong [of h' "success_result e t h"] counts_below_cong [of h' "success_result e t h"]
      by (intro that [of h']) simp_all
  next
    case (BeginRecovery e t)
    let ?h = "begin_recovery e t h"
    have "health_inv ?h" using b [of t]
      by (intro health_inv_update [OF inv, of _ t])
         (auto simp: begin_recovery_def current_state_def failure_count_def)
    moreover have "counts_below (Suc n) ?h"
      by (rule le0) (simp_all add: begin_recovery_def failure_count_def map0)
    ultimately show thesis using BeginRecovery by (intro that [of ?h]) (simp_all add: act_defs begin_recovery_def)
  next
    case (Reset t)
    let ?h = "health_reset t h"
    have "health_inv ?h" using d0
      by (intro health_inv_update [OF inv, of _ t])
         (simp_all add: health_reset_def current_state_def failure_count_def map0)
    moreover have "counts_below (Suc n) ?h"
      by (rule le0) (simp_all add: health_reset_def failure_count_def map0)
    ultimately show thesis using Reset by (intro that [of ?h]) (simp_all add: act_defs health_reset_def)
  qed
qed

lemma health_run_inv:
  assumes "health_inv h" "config_ok (ht_config h)" "counts_below n h" "n + length xs < 2 ^ 64"
  shows "\<exists>h'. health_run pr xs h = (Ok (), h') \<and> health_inv h' \<and> ht_config h' = ht_config h"
  using assms
proof (induction xs arbitrary: h n)
  case Nil
  then show ?case by (simp add: act_defs)
next
  case (Cons x xs)
  have n: "n < 2 ^ 64 - 1" "Suc n + length xs < 2 ^ 64" using Cons.prems(4) by simp_all
  obtain h1 where h1: "health_step pr x h = (Ok (), h1)" "health_inv h1" "ht_config h1 = ht_config h" "counts_below (Suc n) h1"
    by (rule health_step_inv [OF Cons.prems(1-3) n(1)])
  have "config_ok (ht_config h1)" using h1(3) Cons.prems(2) by simp
  from Cons.IH [OF h1(2) this h1(4) n(2)] show ?case
    by (simp add: bind_act_def h1(1,3))
qed

lemma is_available_band:
  assumes "health_inv h" "config_ok (ht_config h)"
  shows "is_available h t \<longleftrightarrow> health h t \<noteq> None \<and> failure_count h t < unavailable_threshold (ht_config h)"
proof -
  have "in_band (ht_config h) (current_state h t) (failure_count h t)"
    using assms(1) unfolding health_inv_def by blast
  then show ?thesis using assms(2)
    by (cases "fmlookup (states h) t"; cases "the (fmlookup (states h) t)")
       (auto simp: is_available_def health_def current_state_def config_ok_def)
qed

text \<open>
  C11: whatever sequence of registrations, failures, successes, recoveries and resets a tracker
  goes through, no call panics, in either profile, and afterwards a tier is available for
  operations exactly when it is known and its failure count is below the unavailability threshold.
  The hypotheses are a sane configuration and fewer than \<open>2\<^sup>6\<^sup>4\<close> calls.
\<close>

theorem available_iff_count_below:
  assumes "config_ok cfg" "length xs < 2 ^ 64"
  shows "case health_run pr xs (health_new cfg) of (r, h) \<Rightarrow>
    r = Ok () \<and> (is_available h t \<longleftrightarrow> health h t \<noteq> None \<and> failure_count h t < unavailable_threshold cfg)"
proof -
  have "health_inv (health_new cfg)" "config_ok (ht_config (health_new cfg))" "counts_below 0 (health_new cfg)"
    using assms(1) by (simp_all add: health_inv_def health_new_def current_state_def failure_count_def
        counts_below_def config_ok_def)
  from health_run_inv [OF this, of xs pr] assms(2)
  obtain h' where "health_run pr xs (health_new cfg) = (Ok (), h')" "health_inv h'"
    "ht_config h' = ht_config (health_new cfg)" by auto
  then show ?thesis using is_available_band [of h' t] assms(1) by (simp add: health_new_def)
qed

definition quiet :: env where
  "quiet = \<lparr>env_now = 0, env_secs = 0, env_room = False\<rparr>"

theorem available_iff_count_below_witness:
  "config_ok health_config_default \<and>
   (case health_run Debug [RegisterTier Ram, Failure quiet Ram, Failure quiet Ram, Failure quiet Ram] (health_new health_config_default) of (r, h) \<Rightarrow>
    r = Ok () \<and> (is_available h Ram \<longleftrightarrow> health h Ram \<noteq> None \<and> failure_count h Ram < 10))"
proof -
  have c: "config_ok health_config_default"
    by (simp add: config_ok_def health_config_default_def word_less_nat_alt word_le_nat_alt)
  moreover have "unavailable_threshold health_config_default = 10" by (simp add: health_config_default_def)
  ultimately show ?thesis
    using available_iff_count_below [OF c, of "[RegisterTier Ram, Failure quiet Ram, Failure quiet Ram, Failure quiet Ram]"
        Ram Debug] by simp
qed

section \<open>Every change is announced\<close>

fun op_env :: "health_op \<Rightarrow> (env \<times> tier_id) option" where
  "op_env (Failure e t) = Some (e, t)"
| "op_env (Success e t) = Some (e, t)"
| "op_env (BeginRecovery e t) = Some (e, t)"
| "op_env _ = None"

definition announced :: "health_tracker \<Rightarrow> event list" where
  "announced h = (case ht_emitter h of Some em \<Rightarrow> map rec_event (sent em) | None \<Rightarrow> [])"

lemma announced_announce:
  "announced (announce e ev h) = announced h @ (if env_room e \<and> ht_emitter h \<noteq> None then [ev] else [])"
  by (auto simp: announced_def announce_def sent_try_emit split: option.split)

lemma announced_update [simp]:
  "announced (h\<lparr>states := x\<rparr>) = announced h" "announced (h\<lparr>last_failure := y\<rparr>) = announced h"
  "announced (h\<lparr>failure_counts := z\<rparr>) = announced h" "announced (h\<lparr>recovery_successes := z\<rparr>) = announced h"
  by (simp_all add: announced_def)

lemma announced_apply_failures:
  assumes "env_room e" "ht_emitter h \<noteq> None"
  shows "announced (apply_failures e t n h) = announced h @
    (if current_state h t \<noteq> current_state (apply_failures e t n h) t
     then [EvBackendHealthChanged 0 t (to_core (current_state h t)) (to_core (current_state (apply_failures e t n h) t))] else [])"
  using assms by (cases "fmlookup (states h) t"; cases "the (fmlookup (states h) t)")
    (auto simp: apply_failures_def announced_announce current_state_def Let_def)

text \<open>
  A failure, a success or the start of a recovery announces the change of its tier's health,
  with the old and the new state, exactly when there is a change. The hypotheses are that an
  emitter is set, that its channel has room, and that the call did not panic.
\<close>

theorem health_change_announced:
  assumes "health_step pr x h = (Ok (), h')" "op_env x = Some (e, t)" "env_room e" "ht_emitter h \<noteq> None"
  shows "announced h' = announced h @
    (if current_state h t \<noteq> current_state h' t
     then [EvBackendHealthChanged 0 t (to_core (current_state h t)) (to_core (current_state h' t))] else [])"
proof (cases x)
  case (Failure e' t')
  then obtain n where "h' = apply_failures e t n (h\<lparr>failure_counts := fmupd t n (failure_counts h)\<rparr>)"
    using assms(1,2) by (auto simp: record_failure_def act_defs Let_def add_pr_def split: outcome.splits)
  then show ?thesis
    using announced_apply_failures [of e "h\<lparr>failure_counts := fmupd t n (failure_counts h)\<rparr>" t n] assms(3,4)
    by (simp add: current_state_def)
next
  case (Success e' t')
  have d: "ht_emitter (success_degraded t h) = ht_emitter h" "announced (success_degraded t h) = announced h"
    by (simp_all add: success_degraded_def split: option.split)
  have r: "ht_emitter h2 = ht_emitter h \<and> announced h2 = announced h \<and> (fmlookup (states h2) t = Some Healthy \<or> states h2 = states h)"
    if "success_recovering pr t h = (Ok (), h2)" for h2
    using that by (auto simp: success_recovering_def Let_def split: outcome.splits if_splits)
  have s: "fmlookup (states (success_degraded t h)) t = Some Healthy \<or> states (success_degraded t h) = states h"
    by (simp add: success_degraded_def split: option.split)
  show ?thesis
  proof (cases "fmlookup (states h) t")
    case None
    then show ?thesis using Success assms(1,2) by (simp add: record_success_def)
  next
    case (Some prev)
    then show ?thesis using Success assms d r s
      by (cases prev)
         (auto simp: record_success_def act_defs announced_announce current_state_def
           split: if_splits prod.splits outcome.splits)
  qed
next
  case (BeginRecovery e' t')
  then show ?thesis using assms
    by (cases "fmlookup (states h) t = Some Unavailable")
       (auto simp: act_defs begin_recovery_def announced_announce current_state_def)
qed (use assms in simp_all)

theorem health_change_announced_witness:
  "\<exists>h'. health_step Release (Failure \<lparr>env_now = 7, env_secs = 1, env_room = True\<rparr> Ram)
       (health_set_emitter emitter_new (health_new (health_config_default\<lparr>degraded_threshold := 1\<rparr>))) = (Ok (), h')
     \<and> announced h' = [EvBackendHealthChanged 0 Ram CoreHealthy CoreDegraded]"
proof -
  let ?e = "\<lparr>env_now = 7, env_secs = 1, env_room = True\<rparr>"
  let ?h = "health_set_emitter emitter_new (health_new (health_config_default\<lparr>degraded_threshold := 1\<rparr>))"
  have eq: "health_step Release (Failure ?e Ram) ?h = (Ok (), failure_result ?e Ram ?h)"
    by (simp add: record_failure_eq failure_count_def health_new_def health_set_emitter_def)
  have c: "current_state ?h Ram = Healthy" "current_state (failure_result ?e Ram ?h) Ram = Degraded" "announced ?h = []"
    by (simp_all add: current_state_def failure_result_def failure_count_def health_new_def health_set_emitter_def
        health_config_default_def word_le_nat_alt announced_def emitter_new_def)
  have "announced (failure_result ?e Ram ?h) = [EvBackendHealthChanged 0 Ram CoreHealthy CoreDegraded]"
    using health_change_announced [OF eq, of ?e Ram] c by (simp add: health_set_emitter_def)
  then show ?thesis using eq by blast
qed

section \<open>Recovery\<close>

lemma recovering_successes:
  assumes "fmlookup (states h) t = Some Recovering"
    "unat (unwrap_or 0 (fmlookup (recovery_successes h) t)) + k < unat (recovery_success_threshold (ht_config h))"
  shows "\<exists>h'. health_run pr (replicate k (Success e t)) h = (Ok (), h') \<and> fmlookup (states h') t = Some Recovering
     \<and> unat (unwrap_or 0 (fmlookup (recovery_successes h') t)) = unat (unwrap_or 0 (fmlookup (recovery_successes h) t)) + k
     \<and> ht_config h' = ht_config h"
  using assms
proof (induction k arbitrary: h)
  case 0
  then show ?case by (simp add: act_defs)
next
  case (Suc k)
  let ?n = "unwrap_or 0 (fmlookup (recovery_successes h) t)"
  have room: "unat ?n < 2 ^ 64 - 1" using Suc.prems(2) unat_lt64 [of "recovery_success_threshold (ht_config h)"] by simp
  note n = Suc_fits [OF room]
  let ?h = "h\<lparr>recovery_successes := fmupd t (?n + 1) (recovery_successes h)\<rparr>"
  have "\<not> recovery_success_threshold (ht_config h) \<le> ?n + 1" using n Suc.prems(2) by (simp add: word_le_nat_alt)
  then have step: "record_success pr e t h = (Ok (), ?h)"
    using Suc.prems(1)
    by (simp add: record_success_def act_defs success_recovering_eq [OF room] recovering_success_def Let_def)
  show ?case using Suc.IH [of ?h] Suc.prems n by (simp add: bind_act_def step)
qed

text \<open>
  A recovery completes: after \<^verbatim>\<open>begin_recovery\<close> on an unavailable tier, as many successes as
  the threshold asks for, and no fewer, make it healthy and available again with a failure count of zero.
\<close>

theorem recovery_completes:
  assumes "health h t = Some Unavailable" "Suc k = unat (recovery_success_threshold (ht_config h))"
  shows "\<exists>h1 h2. health_run pr (replicate k (Success e t)) (begin_recovery e t h) = (Ok (), h1)
    \<and> health h1 t = Some Recovering \<and> \<not> is_available h1 t
    \<and> record_success pr e t h1 = (Ok (), h2)
    \<and> health h2 t = Some Healthy \<and> is_available h2 t \<and> failure_count h2 t = 0"
proof -
  let ?h = "begin_recovery e t h"
  have h: "fmlookup (states ?h) t = Some Recovering" "unwrap_or 0 (fmlookup (recovery_successes ?h) t) = 0"
    "ht_config ?h = ht_config h"
    using assms(1) by (cases "fmlookup (recovery_successes h) t"; simp add: begin_recovery_def health_def)+
  then have "unat (unwrap_or 0 (fmlookup (recovery_successes ?h) t)) + k < unat (recovery_success_threshold (ht_config ?h))"
    using assms(2) by simp
  from recovering_successes [OF h(1) this] h(2,3) obtain h1 where
    h1: "health_run pr (replicate k (Success e t)) ?h = (Ok (), h1)" "fmlookup (states h1) t = Some Recovering"
      "unat (unwrap_or 0 (fmlookup (recovery_successes h1) t)) = k" "ht_config h1 = ht_config h" by auto
  have room: "unat (unwrap_or 0 (fmlookup (recovery_successes h1) t)) < 2 ^ 64 - 1"
    using h1(3) assms(2) unat_lt64 [of "recovery_success_threshold (ht_config h)"] by simp
  have t: "recovery_success_threshold (ht_config h1) \<le> unwrap_or 0 (fmlookup (recovery_successes h1) t) + 1"
    using Suc_fits [OF room] h1(3,4) assms(2) by (simp add: word_le_nat_alt)
  obtain h2 where h2: "record_success pr e t h1 = (Ok (), h2)" "states h2 = states (recovering_success t h1)"
    "failure_counts h2 = failure_counts (recovering_success t h1)"
    by (rule record_success_eq [OF room, of pr e]) (simp add: success_result_def h1(2))
  have "health h2 t = Some Healthy" "failure_count h2 t = 0" using h2(2,3) t
    by (cases "fmlookup (failure_counts h1) t"; simp add: health_def failure_count_def recovering_success_def Let_def)+
  then show ?thesis using h1(1,2) h2(1) by (auto simp: health_def is_available_def)
qed

theorem recovery_completes_witness:
  "\<exists>h1 h2. health_run Debug (replicate 2 (Success quiet Ram))
       (begin_recovery quiet Ram (health_default\<lparr>states := fmupd Ram Unavailable fmempty\<rparr>)) = (Ok (), h1)
    \<and> record_success Debug quiet Ram h1 = (Ok (), h2) \<and> health h2 Ram = Some Healthy"
  using recovery_completes [of "health_default\<lparr>states := fmupd Ram Unavailable fmempty\<rparr>" Ram 2 Debug quiet]
  by (auto simp: health_def health_default_def health_new_def health_config_default_def)

end
