(* ===== verification/Retry.thy ===== *)
theory Retry
  imports Core_Types
begin

unbundle bit_operations_syntax

text \<open>
  \<^verbatim>\<open>ghost-daemon/src/retry.rs\<close>: bounded exponential backoff with jitter, and the table of
  retryable errors. \<^verbatim>\<open>f64::powi\<close> is a compiler intrinsic whose rounding the language leaves
  open, so it is the argument \<open>fpowi\<close>; the nanosecond clock is the argument \<open>nanos\<close>.
\<close>

record retry_config =
  max_retries :: u32
  base_delay_ms :: u64
  max_delay_ms :: u64
  backoff_multiplier :: f64
  jitter_factor :: f64
  retryable_errors :: "string list"

definition retry_config_default :: retry_config where
  "retry_config_default = \<lparr>max_retries = 3, base_delay_ms = 100, max_delay_ms = 30000,
     backoff_multiplier = f64_lit 2, jitter_factor = f64_lit (1 / 4),
     retryable_errors = [''io'', ''timeout'', ''backend_error'', ''tier_unavailable'']\<rparr>"

definition retry_config_new :: "u32 \<Rightarrow> u64 \<Rightarrow> u64 \<Rightarrow> retry_config" where
  "retry_config_new retries base cap =
     retry_config_default\<lparr>max_retries := retries, base_delay_ms := base, max_delay_ms := cap\<rparr>"

definition xorshift :: "u64 \<Rightarrow> u64" where
  "xorshift x0 = (let x1 = x0 XOR push_bit 13 x0; x2 = x1 XOR drop_bit 7 x1 in x2 XOR push_bit 17 x2)"

text \<open>\<open>nanos as u64\<close> truncates the 128-bit count.\<close>

definition random_fraction :: "nat \<Rightarrow> f64" where
  "random_fraction nanos = fdiv binary64 (of_word binary64 (xorshift (of_nat nanos))) (of_word binary64 (- 1 :: u64))"

definition delay_for_attempt :: "(f64 \<Rightarrow> int \<Rightarrow> f64) \<Rightarrow> nat \<Rightarrow> retry_config \<Rightarrow> u32 \<Rightarrow> u64" where
  "delay_for_attempt fpowi nanos c attempt =
     (if attempt = 0 then 0
      else let base = of_word binary64 (base_delay_ms c);
               multiplier = fpowi (backoff_multiplier c) (sint (attempt - 1));
               delay_ms = fmin (fmul binary64 base multiplier) (of_word binary64 (max_delay_ms c));
               jitter_range = fmul binary64 delay_ms (jitter_factor c);
               jittered = fsub binary64 delay_ms (fmul binary64 jitter_range (random_fraction nanos))
           in to_u64 (fmax jittered (Fin 0)))"

fun error_type_tag :: "ghost_error \<Rightarrow> string" where
  "error_type_tag (Io _) = ''io''"
| "error_type_tag (ChunkNotFound _) = ''chunk_not_found''"
| "error_type_tag (TierFull _) = ''tier_full''"
| "error_type_tag (TierUnavailable _) = ''tier_unavailable''"
| "error_type_tag (ChecksumMismatch _) = ''checksum_mismatch''"
| "error_type_tag (CorruptionDetected _) = ''corruption_detected''"
| "error_type_tag (CompressionError _) = ''compression_error''"
| "error_type_tag (BackendFailure _) = ''backend_error''"
| "error_type_tag (IpcError _) = ''ipc_error''"
| "error_type_tag OutOfMemory = ''out_of_memory''"
| "error_type_tag Timeout = ''timeout''"
| "error_type_tag (PipelineError _) = ''pipeline_error''"
| "error_type_tag Cancelled = ''cancelled''"
| "error_type_tag (ReplayError _) = ''replay_error''"
| "error_type_tag (InvalidConfig _) = ''invalid_config''"
| "error_type_tag (InvalidStateTransition _ _) = ''invalid_state_transition''"
| "error_type_tag (ProviderUnavailable _) = ''provider_unavailable''"
| "error_type_tag (Internal _) = ''internal''"

definition is_retryable :: "retry_config \<Rightarrow> ghost_error \<Rightarrow> bool" where
  "is_retryable c e \<longleftrightarrow> error_type_tag e \<in> set (retryable_errors c)"

definition has_retries_remaining :: "retry_config \<Rightarrow> u32 \<Rightarrow> bool" where
  "has_retries_remaining c attempt \<longleftrightarrow> attempt < max_retries c"

section \<open>Bounds\<close>

lemma to_u64_le:
  assumes "z \<le> of_nat m" "m < 2 ^ 64"
  shows "unat (to_u64 (Fin z)) \<le> m"
proof (cases "z \<le> 0")
  case False
  have z: "z < 2 ^ 64"
  proof -
    have "(of_nat m :: rat) < of_nat (2 ^ 64)" using assms(2) by (simp only: of_nat_less_iff)
    then show ?thesis using assms(1) by simp
  qed
  have f: "0 \<le> \<lfloor>z\<rfloor>" "\<lfloor>z\<rfloor> \<le> int m" using False assms(1) by (simp_all add: floor_le_iff)
  then have "take_bit 64 \<lfloor>z\<rfloor> = \<lfloor>z\<rfloor>" using z by (intro take_bit_int_eq_self) (auto simp: floor_less_iff)
  then have "unat (word_of_int \<lfloor>z\<rfloor> :: u64) = nat \<lfloor>z\<rfloor>" by (simp add: unsigned_of_int)
  then show ?thesis using False z f by simp
qed simp

lemma of_word_exact:
  assumes "unat (w :: u64) < 2 ^ 53"
  shows "of_word binary64 w = Fin (of_nat (unat w))" "representable binary64 (of_nat (unat w))"
    "of_nat (unat w) \<le> max_fin binary64"
proof -
  define n where "n = int (unat w)"
  have n: "\<bar>n\<bar> < 2 ^ precision binary64" "0 \<le> n" "n < 2 ^ 53"
    using assms by (simp_all add: n_def binary64_def del: of_nat_unat)
  have r: "(of_nat (unat w) :: rat) = of_int n" by (simp add: n_def del: of_nat_unat)
  show rep: "representable binary64 (of_nat (unat w))"
    unfolding r by (rule representable_int [OF wf_binary(2) n(1)])
  have "(of_int n :: rat) < of_int (2 ^ 53)" using n(3) by (simp only: of_int_less_iff)
  moreover have "(2 :: rat) ^ 64 \<le> max_fin binary64" using holds_binary(2) by (simp add: holds_words_def)
  ultimately show m: "of_nat (unat w) \<le> max_fin binary64" unfolding r by simp
  have "0 \<le> (of_nat (unat w) :: rat)" by (rule of_nat_0_le_iff)
  then show "of_word binary64 w = Fin (of_nat (unat w))"
    unfolding of_word_def using m by (intro rnd_exact [OF rep]) simp
qed

lemma all_ones_pos: "0 < (- 1 :: u64)"
  by (simp add: word_neq_0_conv [symmetric])

lemma random_fraction_in_unit: "in_unit (random_fraction nanos)"
  unfolding random_fraction_def by (rule word_ratio_in_unit) (simp_all add: all_ones_pos)

text \<open>A product with a factor of the unit interval stays between zero and the bound.\<close>

lemma scaled_between:
  assumes "0 \<le> x" "x \<le> M" "0 \<le> j" "j \<le> 1" "representable binary64 M" "M \<le> max_fin binary64"
  obtains y where "rnd binary64 (x * j) = Fin y" "0 \<le> y" "y \<le> M"
proof -
  have "x * j \<le> x * 1" using assms by (intro mult_left_mono) auto
  then have b: "0 \<le> x * j" "x * j \<le> M" using assms by simp_all
  have "- max_fin binary64 \<le> 0" using max_fin_ge_1 [OF wf_binary(2)] by simp
  from rnd_between [OF wf_binary(2) representable_0 this assms(5,6) b] that show thesis by blast
qed

lemma capped_delay:
  assumes "fle (Fin 0) m" "fle (Fin 0) b" "0 \<le> M"
  obtains x where "fmin (fmul binary64 b m) (Fin M) = Fin x" "0 \<le> x" "x \<le> M"
proof -
  have "fmul binary64 b m = NaN \<or> fle (Fin 0) (fmul binary64 b m)"
    using assms(1,2) by (cases b; cases m) (auto simp: signed_inf_def rnd_nonneg sgn_rat_def)
  then show thesis
  proof (cases "fmul binary64 b m")
    case (Fin x)
    with \<open>fmul binary64 b m = NaN \<or> _\<close> show thesis
      using that [of "min x M"] assms(3) by (simp add: fmin_def min_def)
  qed (use that [of M] assms(3) in \<open>simp_all add: fmin_def\<close>)
qed

text \<open>
  A retry is never delayed beyond the configured cap, for every attempt number, every clock
  reading and every base delay, and attempt 0 is not delayed. The hypotheses are that the
  multiplication factor is non-negative, the jitter a fraction, the cap below \<open>2\<^sup>5\<^sup>3\<close> ms, and that
  \<^verbatim>\<open>powi\<close> maps non-negative numbers to non-negative numbers.
\<close>

theorem delay_within_cap:
  assumes powi_nonneg: "\<And>x n. fle (Fin 0) x \<Longrightarrow> fle (Fin 0) (fpowi x n)"
    and "fle (Fin 0) (backoff_multiplier c)" "in_unit (jitter_factor c)" "unat (max_delay_ms c) < 2 ^ 53"
  shows "delay_for_attempt fpowi nanos c attempt \<le> max_delay_ms c \<and> delay_for_attempt fpowi nanos c 0 = 0"
proof -
  define M :: rat where "M = of_nat (unat (max_delay_ms c))"
  note M = of_word_exact [OF assms(4), folded M_def]
  have M0: "0 \<le> M" unfolding M_def by (rule of_nat_0_le_iff)
  let ?m = "fpowi (backoff_multiplier c) (sint (attempt - 1))"
  obtain b where b: "of_word binary64 (base_delay_ms c) = Fin b" "0 \<le> b"
    using of_word_between [OF holds_binary(2), of "base_delay_ms c"] by auto
  have b0: "fle (Fin 0) (of_word binary64 (base_delay_ms c))" by (simp add: b)
  obtain x where x: "fmin (fmul binary64 (of_word binary64 (base_delay_ms c)) ?m) (Fin M) = Fin x" "0 \<le> x" "x \<le> M"
    by (rule capped_delay [OF powi_nonneg [OF assms(2)] b0 M0])
  obtain j where j: "jitter_factor c = Fin j" "0 \<le> j" "j \<le> 1" using assms(3) by (auto simp: in_unit_iff)
  obtain r where r: "random_fraction nanos = Fin r" "0 \<le> r" "r \<le> 1"
    using random_fraction_in_unit [of nanos] by (auto simp: in_unit_iff)
  obtain y where y: "rnd binary64 (x * j) = Fin y" "0 \<le> y" "y \<le> M"
    by (rule scaled_between [OF x(2,3) j(2,3) M(2,3)])
  obtain z where z: "rnd binary64 (y * r) = Fin z" "0 \<le> z" "z \<le> M"
    by (rule scaled_between [OF y(2,3) r(2,3) M(2,3)])
  have "- M \<le> x - z" "x - z \<le> M" using x z by simp_all
  from rnd_between [OF wf_binary(2) _ _ M(2,3) this] M(2,3) obtain w where
    w: "rnd binary64 (x - z) = Fin w" "w \<le> M" by auto
  have "unat (to_u64 (fmax (Fin w) (Fin 0))) \<le> unat (max_delay_ms c)"
    using to_u64_le [of w "unat (max_delay_ms c)"] w(2) assms(4)
    by (cases "w \<le> 0") (simp_all add: fmax_def M_def del: of_nat_unat)
  then show ?thesis
    by (simp add: delay_for_attempt_def Let_def M(1) x(1) j(1) r(1) y(1) z(1) w(1) fsub_def word_le_nat_alt)
qed

text \<open>The correctly rounded power as an instance of \<^verbatim>\<open>powi\<close>.\<close>

fun powi_rounded :: "f64 \<Rightarrow> int \<Rightarrow> f64" where
  "powi_rounded (Fin q) n = rnd binary64 (q powi n)"
| "powi_rounded PInf n = PInf"
| "powi_rounded NInf n = NaN"
| "powi_rounded NaN n = NaN"

theorem delay_within_cap_witness:
  "delay_for_attempt powi_rounded 12345 retry_config_default 40 \<le> 30000"
proof -
  have p: "fle (Fin 0) (powi_rounded x n)" if "fle (Fin 0) x" for x n
    using that by (cases x) (simp_all add: rnd_nonneg)
  have d: "fle (Fin 0) (backoff_multiplier retry_config_default)" "in_unit (jitter_factor retry_config_default)"
    "max_delay_ms retry_config_default = 30000"
    by (simp_all add: retry_config_default_def f64_lit_def rnd_nonneg rnd_in_unit)
  show ?thesis
    using delay_within_cap [of powi_rounded retry_config_default 12345 40, OF p d(1,2)] by (simp add: d(3))
qed

text \<open>
  With the default configuration exactly the I/O, timeout, backend and tier-unavailable
  errors are retried.
\<close>

theorem default_retryable_iff:
  "is_retryable retry_config_default e \<longleftrightarrow>
     (case e of Io _ \<Rightarrow> True | Timeout \<Rightarrow> True | BackendFailure _ \<Rightarrow> True | TierUnavailable _ \<Rightarrow> True | _ \<Rightarrow> False)"
  by (cases e) (simp_all add: is_retryable_def retry_config_default_def)

text \<open>The fraction is 1 for some clock readings, so the interval is closed on the right.\<close>

lemma xorshift_all_ones: "xorshift 7650297886450228676 = - 1"
  by (simp add: xorshift_def Let_def)

lemma random_fraction_reaches_one: "random_fraction 7650297886450228676 = Fin 1"
proof -
  obtain y where "of_word binary64 (- 1 :: u64) = Fin y" "1 \<le> y"
    using of_word_between [OF holds_binary(2), of "- 1 :: u64"] by (auto simp: all_ones_pos)
  moreover have "of_nat 7650297886450228676 = (7650297886450228676 :: u64)" by (rule of_nat_numeral)
  ultimately show ?thesis by (simp add: random_fraction_def xorshift_all_ones del: of_nat_numeral)
qed

end
