(* ===== verification/Ram_Backend.thy ===== *)
theory Ram_Backend
  imports Pressure_Model
begin

text \<open>
  \<^verbatim>\<open>ghost-tier/src/backend.rs\<close> (the \<^verbatim>\<open>StorageBackend\<close> interface) and \<^verbatim>\<open>ram.rs\<close> (its in-memory
  implementation). The interface is the record \<open>backend_ops\<close> of its methods, as a trait object
  has it, and the locale \<open>storage_backend\<close> states what a client relies on; the RAM backend is an
  interpretation. The accounting of the RAM backend is related to a specification that keeps the
  live allocations with their contents.
\<close>

section \<open>The interface\<close>

datatype backend_error =
    InsufficientSpace usize usize
  | AllocationNotFound usize
  | WriteFailed message
  | ReadFailed message
  | IntegrityFailed message
  | Unhealthy message
  | NotSupported message
  | InternalFailure message

record allocation =
  offset :: usize
  alloc_size :: usize
  backend_data :: usize

definition allocation_new :: "usize \<Rightarrow> usize \<Rightarrow> usize \<Rightarrow> allocation" where
  "allocation_new off sz d = \<lparr>offset = off, alloc_size = sz, backend_data = d\<rparr>"

record 'b backend_ops =
  op_allocate :: "usize \<Rightarrow> ('b, allocation, backend_error) act"
  op_deallocate :: "allocation \<Rightarrow> ('b, unit, backend_error) act"
  op_write :: "allocation \<Rightarrow> bytes \<Rightarrow> ('b, unit, backend_error) act"
  op_read :: "allocation \<Rightarrow> bytes \<Rightarrow> ('b, bytes, backend_error) act"

text \<open>
  What a client of a backend relies on. \<open>ready n b\<close>: there is room for \<open>n\<close> bytes; \<open>holds a b\<close>:
  the allocation may be used; \<open>content a b\<close>: what was last written through it.
\<close>

locale storage_backend =
  fixes ops :: "'b backend_ops"
    and ready :: "usize \<Rightarrow> 'b \<Rightarrow> bool"
    and holds :: "allocation \<Rightarrow> 'b \<Rightarrow> bool"
    and content :: "allocation \<Rightarrow> 'b \<Rightarrow> bytes option"
    and free_space :: "'b \<Rightarrow> nat"
  assumes allocate_ok: "ready n b \<Longrightarrow> \<exists>a b'. op_allocate ops n b = (Ok a, b') \<and> alloc_size a = n \<and> holds a b'
      \<and> free_space b' + unat n = free_space b"
    and write_ok: "holds a b \<Longrightarrow> length d \<le> unat (alloc_size a) \<Longrightarrow>
      \<exists>b'. op_write ops a d b = (Ok (), b') \<and> holds a b' \<and> content a b' = Some d \<and> free_space b' = free_space b"
    and read_ok: "holds a b \<Longrightarrow> content a b = Some d \<Longrightarrow> length buf \<le> unat (alloc_size a) \<Longrightarrow> length buf = length d \<Longrightarrow>
      \<exists>b'. op_read ops a buf b = (Ok d, b') \<and> holds a b' \<and> free_space b' = free_space b"
    and deallocate_ok: "holds a b \<Longrightarrow>
      \<exists>b'. op_deallocate ops a b = (Ok (), b') \<and> free_space b' = free_space b + unat (alloc_size a)"
    and ready_free: "ready n b \<Longrightarrow> unat n \<le> free_space b"

section \<open>The RAM backend\<close>

record ram_backend =
  ram_id :: tier_id
  ram_capacity :: usize
  storage :: "(usize, bytes) btree"
  next_offset :: usize
  used :: usize

definition ram_with_id :: "tier_id \<Rightarrow> usize \<Rightarrow> ram_backend" where
  "ram_with_id t cap = \<lparr>ram_id = t, ram_capacity = cap, storage = fmempty, next_offset = 0, used = 0\<rparr>"

definition ram_new :: "usize \<Rightarrow> ram_backend" where
  "ram_new cap = \<lparr>ram_id = Ram, ram_capacity = cap, storage = fmempty, next_offset = 0, used = 0\<rparr>"

definition available :: "profile \<Rightarrow> ram_backend \<Rightarrow> (usize, backend_error) outcome" where
  "available pr b = sub_pr pr (ram_capacity b) (used b)"

definition allocate :: "profile \<Rightarrow> usize \<Rightarrow> (ram_backend, allocation, backend_error) act" where
  "allocate pr n b =
     (if n = 0 then (Err (InternalFailure [Lit ''cannot allocate zero bytes'']), b)
      else bind_act (lift_outcome (add_pr pr (used b) n)) (\<lambda>want.
        if want > ram_capacity b
        then bind_act (lift_outcome (sub_pr pr (ram_capacity b) (used b)))
               (\<lambda>avail. fail (InsufficientSpace n avail))
        else bind_act (lift_outcome (add_pr pr (next_offset b) n)) (\<lambda>next'.
             bind_act (update_act (\<lambda>b. b\<lparr>next_offset := next'\<rparr>)) (\<lambda>_.
             bind_act (lift_outcome (add_pr pr (used b) n)) (\<lambda>used'.
             bind_act (update_act (\<lambda>b. b\<lparr>used := used'\<rparr>)) (\<lambda>_.
             ret (allocation_new (next_offset b) n n)))))) b)"

definition deallocate :: "profile \<Rightarrow> allocation \<Rightarrow> (ram_backend, unit, backend_error) act" where
  "deallocate pr a = bind_act (update_act (\<lambda>b. b\<lparr>storage := fmdrop (offset a) (storage b)\<rparr>)) (\<lambda>_ b.
     bind_act (lift_outcome (sub_pr pr (used b) (alloc_size a)))
       (\<lambda>used'. update_act (\<lambda>b. b\<lparr>used := used'\<rparr>)) b)"

text \<open>A slice is no longer than \<open>2\<^sup>6\<^sup>4 - 1\<close> bytes, so its length is compared as a natural number.\<close>

definition ram_write :: "allocation \<Rightarrow> bytes \<Rightarrow> (ram_backend, unit, backend_error) act" where
  "ram_write a data = (if length data > unat (alloc_size a)
     then fail (WriteFailed [Lit ''data size '', FmtNat (length data), Lit '' exceeds allocation size '', FmtNat (unat (alloc_size a))])
     else update_act (\<lambda>b. b\<lparr>storage := fmupd (offset a) data (storage b)\<rparr>))"

definition ram_read :: "allocation \<Rightarrow> bytes \<Rightarrow> (ram_backend, bytes, backend_error) act" where
  "ram_read a buf b = (if length buf > unat (alloc_size a)
     then fail (ReadFailed [Lit ''buffer size '', FmtNat (length buf), Lit '' exceeds allocation size '', FmtNat (unat (alloc_size a))]) b
     else case fmlookup (storage b) (offset a) of
            Some data \<Rightarrow> (let len = min (length buf) (length data) in ret (take len data @ drop len buf) b)
          | None \<Rightarrow> fail (AllocationNotFound (offset a)) b)"

definition verify_integrity :: "(bytes \<Rightarrow> bytes) \<Rightarrow> allocation \<Rightarrow> bytes \<Rightarrow> (ram_backend, unit, backend_error) act" where
  "verify_integrity hash a expected b = (case fmlookup (storage b) (offset a) of
       Some data \<Rightarrow> (if hash data = expected then ret () b
                    else fail (IntegrityFailed [Lit ''hash mismatch at offset '', FmtNat (unat (offset a))]) b)
     | None \<Rightarrow> fail (AllocationNotFound (offset a)) b)"

definition health_check :: "(ram_backend, unit, backend_error) act" where
  "health_check = ret ()"

definition ram_memory_pressure :: "ram_backend \<Rightarrow> f32" where
  "ram_memory_pressure b = (if ram_capacity b > 0
     then fdiv binary32 (of_word binary32 (used b)) (of_word binary32 (ram_capacity b)) else f32_lit 0)"

definition ram_pressure :: "ram_backend \<Rightarrow> pressure_state" where
  "ram_pressure b = \<lparr>memory_pressure = ram_memory_pressure b, vram_pressure = f32_lit 0, io_pressure = f32_lit 0,
     queue_depth = 0, throughput_bps = 0\<rparr>"

definition ram_cost_model :: "ram_backend \<Rightarrow> physical_cost" where
  "ram_cost_model b = \<lparr>latency_ms = f64_lit (1 / 100), bandwidth_bps = f64_lit 10000000000,
     reliability = f64_lit 1, cost_io_pressure = ram_memory_pressure b, cost_queue_depth = 0\<rparr>"

definition ram_ops :: "profile \<Rightarrow> ram_backend backend_ops" where
  "ram_ops pr = \<lparr>op_allocate = allocate pr, op_deallocate = deallocate pr, op_write = ram_write, op_read = ram_read\<rparr>"

section \<open>What the accounting means\<close>

text \<open>The specification: the live allocations with their size and, once written, their contents.\<close>

record ram_spec =
  live :: "(usize, usize \<times> bytes option) btree"
  next_free :: nat

definition spec_used :: "ram_spec \<Rightarrow> nat" where
  "spec_used sp = (\<Sum>k \<in> fset (fmdom (live sp)). unat (fst (the (fmlookup (live sp) k))))"

datatype ram_op = OpAllocate usize | OpDeallocate allocation | OpWrite allocation bytes | OpRead allocation bytes

datatype ram_out = OutAllocation allocation | OutUnit | OutBytes bytes

fun map_out :: "('a \<Rightarrow> 'b) \<Rightarrow> ('a, 'e) outcome \<Rightarrow> ('b, 'e) outcome" where
  "map_out f (Ok a) = Ok (f a)"
| "map_out f (Err e) = Err e"
| "map_out f Panic = Panic"

fun ram_step :: "profile \<Rightarrow> ram_op \<Rightarrow> (ram_backend, ram_out, backend_error) act" where
  "ram_step pr (OpAllocate n) b = apfst (map_out OutAllocation) (allocate pr n b)"
| "ram_step pr (OpDeallocate a) b = apfst (map_out (\<lambda>_. OutUnit)) (deallocate pr a b)"
| "ram_step pr (OpWrite a d) b = apfst (map_out (\<lambda>_. OutUnit)) (ram_write a d b)"
| "ram_step pr (OpRead a buf) b = apfst (map_out OutBytes) (ram_read a buf b)"

definition is_live :: "ram_spec \<Rightarrow> allocation \<Rightarrow> bool" where
  "is_live sp a \<longleftrightarrow> (\<exists>c. fmlookup (live sp) (offset a) = Some (alloc_size a, c))"

fun spec_step :: "nat \<Rightarrow> ram_op \<Rightarrow> (ram_spec, ram_out, backend_error) act" where
  "spec_step cap (OpAllocate n) sp =
     (if n = 0 then (Err (InternalFailure [Lit ''cannot allocate zero bytes'']), sp)
      else if cap < spec_used sp + unat n then (Err (InsufficientSpace n (of_nat (cap - spec_used sp))), sp)
      else (Ok (OutAllocation (allocation_new (of_nat (next_free sp)) n n)),
            sp\<lparr>live := fmupd (of_nat (next_free sp)) (n, None) (live sp), next_free := next_free sp + unat n\<rparr>))"
| "spec_step cap (OpDeallocate a) sp = (Ok OutUnit, sp\<lparr>live := fmdrop (offset a) (live sp)\<rparr>)"
| "spec_step cap (OpWrite a d) sp =
     (if unat (alloc_size a) < length d
      then (Err (WriteFailed [Lit ''data size '', FmtNat (length d), Lit '' exceeds allocation size '', FmtNat (unat (alloc_size a))]), sp)
      else (Ok OutUnit, sp\<lparr>live := fmupd (offset a) (alloc_size a, Some d) (live sp)\<rparr>))"
| "spec_step cap (OpRead a buf) sp =
     (if unat (alloc_size a) < length buf
      then (Err (ReadFailed [Lit ''buffer size '', FmtNat (length buf), Lit '' exceeds allocation size '', FmtNat (unat (alloc_size a))]), sp)
      else case fmlookup (live sp) (offset a) of
             Some (_, Some d) \<Rightarrow> (Ok (OutBytes (take (length buf) d @ drop (length d) buf)), sp)
           | _ \<Rightarrow> (Err (AllocationNotFound (offset a)), sp))"

text \<open>
  A well-behaved client passes live allocations only; the sizes it asks for overflow neither the
  capacity comparison nor the offset counter.
\<close>

fun op_ok :: "nat \<Rightarrow> ram_op \<Rightarrow> ram_spec \<Rightarrow> bool" where
  "op_ok cap (OpAllocate n) sp \<longleftrightarrow> cap + unat n < 2 ^ 64 \<and> next_free sp + unat n < 2 ^ 64"
| "op_ok cap (OpDeallocate a) sp \<longleftrightarrow> is_live sp a"
| "op_ok cap (OpWrite a d) sp \<longleftrightarrow> is_live sp a"
| "op_ok cap (OpRead a buf) sp \<longleftrightarrow> is_live sp a"

definition ram_rel :: "nat \<Rightarrow> ram_backend \<Rightarrow> ram_spec \<Rightarrow> bool" where
  "ram_rel cap b sp \<longleftrightarrow> unat (ram_capacity b) = cap \<and> unat (used b) = spec_used sp \<and> spec_used sp \<le> cap
     \<and> unat (next_offset b) = next_free sp
     \<and> (\<forall>k. fmlookup (storage b) k = Option.bind (fmlookup (live sp) k) snd)
     \<and> (\<forall>k v. fmlookup (live sp) k = Some v \<longrightarrow> k < next_offset b)"

lemma spec_used_upd:
  "spec_used (sp\<lparr>live := fmupd k (n, c) (live sp)\<rparr>) + (case fmlookup (live sp) k of None \<Rightarrow> 0 | Some (m, _) \<Rightarrow> unat m)
   = spec_used sp + unat n"
proof -
  let ?f = "\<lambda>j. unat (fst (the (fmlookup (live sp) j)))" and ?D = "fset (fmdom (live sp))"
  have "spec_used (sp\<lparr>live := fmupd k (n, c) (live sp)\<rparr>) = unat n + (\<Sum>j \<in> ?D - {k}. ?f j)"
    by (simp add: spec_used_def sum.insert_remove) (rule sum.cong, auto)
  moreover have "spec_used sp = (case fmlookup (live sp) k of None \<Rightarrow> 0 | Some (m, _) \<Rightarrow> unat m) + (\<Sum>j \<in> ?D - {k}. ?f j)"
    using sum.remove [of ?D k ?f]
    by (auto simp: spec_used_def fmlookup_dom_iff split: option.split)
  ultimately show ?thesis by simp
qed

lemma spec_used_drop:
  "fmlookup (live sp) k = Some (n, c) \<Longrightarrow> spec_used (sp\<lparr>live := fmdrop k (live sp)\<rparr>) + unat n = spec_used sp"
proof -
  let ?f = "\<lambda>j. unat (fst (the (fmlookup (live sp) j)))" and ?D = "fset (fmdom (live sp))"
  assume k: "fmlookup (live sp) k = Some (n, c)"
  have "k \<in> ?D" using k by (simp add: fmlookup_dom_iff)
  then have "spec_used sp = unat n + (\<Sum>j \<in> ?D - {k}. ?f j)"
    using sum.remove [of ?D k ?f] k by (simp add: spec_used_def)
  moreover have "spec_used (sp\<lparr>live := fmdrop k (live sp)\<rparr>) = (\<Sum>j \<in> ?D - {k}. ?f j)"
    unfolding spec_used_def by (rule sum.cong) auto
  ultimately show ?thesis by simp
qed

lemma of_nat_unat_id: "of_nat (unat w) = (w :: u64)"
  by simp

lemma allocate_refines:
  assumes "ram_rel cap b sp" "op_ok cap (OpAllocate n) sp"
  shows "fst (ram_step pr (OpAllocate n) b) = fst (spec_step cap (OpAllocate n) sp)"
    and "ram_rel cap (snd (ram_step pr (OpAllocate n) b)) (snd (spec_step cap (OpAllocate n) sp))"
proof -
  note r = assms(1) [unfolded ram_rel_def]
  have fits: "unat (used b) + unat n < 2 ^ 64" "unat (next_offset b) + unat n < 2 ^ 64" "unat (used b) \<le> unat (ram_capacity b)"
    using r assms(2) by auto
  then have ar: "add_pr pr (used b) n = Ok (used b + n)" "add_pr pr (next_offset b) n = Ok (next_offset b + n)"
    "sub_pr pr (ram_capacity b) (used b) = Ok (ram_capacity b - used b)"
    by (simp_all add: add_pr_fits sub_pr_fits word_le_nat_alt)
  have u: "unat (used b + n) = spec_used sp + unat n" "unat (next_offset b + n) = next_free sp + unat n"
    using fits r by (simp_all add: unat_add_fits)
  have full: "ram_capacity b < used b + n \<longleftrightarrow> cap < spec_used sp + unat n" using r u by (simp add: word_less_nat_alt)
  have av: "ram_capacity b - used b = of_nat (cap - spec_used sp)"
    using r fits(3) by (metis unat_sub_fits word_le_nat_alt of_nat_unat_id)
  have off: "of_nat (next_free sp) = next_offset b" using r by (metis of_nat_unat_id)
  show "fst (ram_step pr (OpAllocate n) b) = fst (spec_step cap (OpAllocate n) sp)"
    using full av off by (simp add: allocate_def act_defs ar)
  have fresh: "fmlookup (live sp) (next_offset b) = None" using r by (cases "fmlookup (live sp) (next_offset b)") auto
  have su: "spec_used (sp\<lparr>live := fmupd (next_offset b) (n, None) (live sp), next_free := m\<rparr>) = spec_used sp + unat n" for m
    using spec_used_upd [where k = "next_offset b" and n = n and c = None and sp = sp] fresh by (simp add: spec_used_def)
  have nz: "next_offset b < next_offset b + n" if "n \<noteq> 0"
    using that u(2) r by (simp add: word_less_nat_alt unat_gt_0)
  have below: "k < next_offset b + n" if "n \<noteq> 0" "fmlookup (live sp) k = Some v" for k v
    using that nz r by (meson order.strict_trans)
  show "ram_rel cap (snd (ram_step pr (OpAllocate n) b)) (snd (spec_step cap (OpAllocate n) sp))"
    using r full off u su nz fresh below
    by (auto simp: allocate_def act_defs ar ram_rel_def not_less)
qed

lemma access_refines:
  assumes "ram_rel cap b sp" "op_ok cap x sp" "x = OpWrite a d \<or> x = OpRead a d"
  shows "fst (ram_step pr x b) = fst (spec_step cap x sp)"
    and "ram_rel cap (snd (ram_step pr x b)) (snd (spec_step cap x sp))"
proof -
  note r = assms(1) [unfolded ram_rel_def]
  obtain c where l: "fmlookup (live sp) (offset a) = Some (alloc_size a, c)" using assms(2,3) by (auto simp: is_live_def)
  then have st: "fmlookup (storage b) (offset a) = c" using r by simp
  have su: "spec_used (sp\<lparr>live := fmupd (offset a) (alloc_size a, e) (live sp)\<rparr>) = spec_used sp" for e
    using spec_used_upd [where k = "offset a" and n = "alloc_size a" and c = e and sp = sp] l by simp
  show "fst (ram_step pr x b) = fst (spec_step cap x sp)" using assms(3) l st
    by (auto simp: ram_write_def ram_read_def act_defs Let_def min_def split: option.split)
  show "ram_rel cap (snd (ram_step pr x b)) (snd (spec_step cap x sp))"
    using assms(3)
  proof
    assume x: "x = OpWrite a d"
    show ?thesis using l st r su by (auto simp: x ram_write_def act_defs ram_rel_def)
  next
    assume x: "x = OpRead a d"
    show ?thesis using l st r by (cases c) (simp_all add: x ram_read_def act_defs Let_def ram_rel_def)
  qed
qed

lemma deallocate_refines:
  assumes "ram_rel cap b sp" "op_ok cap (OpDeallocate a) sp"
  shows "fst (ram_step pr (OpDeallocate a) b) = fst (spec_step cap (OpDeallocate a) sp)"
    and "ram_rel cap (snd (ram_step pr (OpDeallocate a) b)) (snd (spec_step cap (OpDeallocate a) sp))"
proof -
  note r = assms(1) [unfolded ram_rel_def]
  obtain c where l: "fmlookup (live sp) (offset a) = Some (alloc_size a, c)" using assms(2) by (auto simp: is_live_def)
  note su = spec_used_drop [OF l]
  then have le: "alloc_size a \<le> used b" using r by (simp add: word_le_nat_alt)
  then show "fst (ram_step pr (OpDeallocate a) b) = fst (spec_step cap (OpDeallocate a) sp)"
    by (simp add: deallocate_def act_defs sub_pr_fits)
  show "ram_rel cap (snd (ram_step pr (OpDeallocate a) b)) (snd (spec_step cap (OpDeallocate a) sp))"
    using r su le by (auto simp: deallocate_def act_defs sub_pr_fits ram_rel_def unat_sub_fits)
qed

text \<open>Runs that go on after an error and collect the results.\<close>

fun ram_run :: "profile \<Rightarrow> ram_op list \<Rightarrow> ram_backend \<Rightarrow> (ram_out, backend_error) outcome list \<times> ram_backend" where
  "ram_run pr [] b = ([], b)"
| "ram_run pr (x # xs) b = (let (r, b') = ram_step pr x b; (rs, b'') = ram_run pr xs b' in (r # rs, b''))"

fun spec_run :: "nat \<Rightarrow> ram_op list \<Rightarrow> ram_spec \<Rightarrow> (ram_out, backend_error) outcome list \<times> ram_spec" where
  "spec_run cap [] sp = ([], sp)"
| "spec_run cap (x # xs) sp = (let (r, sp') = spec_step cap x sp; (rs, sp'') = spec_run cap xs sp' in (r # rs, sp''))"

fun run_ok :: "nat \<Rightarrow> ram_op list \<Rightarrow> ram_spec \<Rightarrow> bool" where
  "run_ok cap [] sp = True"
| "run_ok cap (x # xs) sp \<longleftrightarrow> op_ok cap x sp \<and> run_ok cap xs (snd (spec_step cap x sp))"

lemma ram_step_refines:
  assumes "ram_rel cap b sp" "op_ok cap x sp"
  shows "fst (ram_step pr x b) = fst (spec_step cap x sp)"
    and "ram_rel cap (snd (ram_step pr x b)) (snd (spec_step cap x sp))"
  using assms allocate_refines [of cap b sp] access_refines [of cap b sp x] deallocate_refines [of cap b sp]
  by (cases x; simp)+

lemma ram_run_refines:
  assumes "ram_rel cap b sp" "run_ok cap xs sp"
  shows "fst (ram_run pr xs b) = fst (spec_run cap xs sp) \<and> ram_rel cap (snd (ram_run pr xs b)) (snd (spec_run cap xs sp))"
  using assms
proof (induction xs arbitrary: b sp)
  case (Cons x xs)
  from Cons.prems have ok: "op_ok cap x sp" "run_ok cap xs (snd (spec_step cap x sp))" by simp_all
  note st = ram_step_refines [OF Cons.prems(1) ok(1), of pr]
  from Cons.IH [OF st(2) ok(2)] st(1) show ?case by (simp add: Let_def case_prod_beta)
qed simp

definition spec_empty :: ram_spec where
  "spec_empty = \<lparr>live = fmempty, next_free = 0\<rparr>"

lemma ram_rel_new: "ram_rel (unat cap) (ram_new cap) spec_empty"
  by (simp add: ram_rel_def ram_new_def spec_empty_def spec_used_def)

text \<open>
  C7: the RAM backend implements the specification: for every sequence of calls of a
  well-behaved client, in both profiles, each call returns what the specification returns (in
  particular none panics), reads return the bytes last written to the live allocation, and the
  space accounted as used is the sum of the sizes of the live allocations, within the capacity.
\<close>

theorem ram_backend_refines_spec:
  assumes "run_ok (unat cap) xs spec_empty"
  shows "fst (ram_run pr xs (ram_new cap)) = fst (spec_run (unat cap) xs spec_empty)
    \<and> unat (used (snd (ram_run pr xs (ram_new cap)))) = spec_used (snd (spec_run (unat cap) xs spec_empty))
    \<and> used (snd (ram_run pr xs (ram_new cap))) \<le> cap"
  using ram_run_refines [OF ram_rel_new assms, of pr] by (simp add: ram_rel_def word_le_nat_alt)

theorem ram_backend_refines_spec_witness:
  "fst (ram_run Debug [OpAllocate 4, OpWrite (allocation_new 0 4 4) [1, 2, 3], OpRead (allocation_new 0 4 4) [0, 0], OpAllocate 9]
      (ram_new 10))
   = [Ok (OutAllocation (allocation_new 0 4 4)), Ok OutUnit, Ok (OutBytes [1, 2]), Err (InsufficientSpace 9 6)]"
proof -
  let ?xs = "[OpAllocate 4, OpWrite (allocation_new 0 4 4) [1, 2, 3], OpRead (allocation_new 0 4 4) [0, 0], OpAllocate 9]"
  have "run_ok (unat (10 :: u64)) ?xs spec_empty"
    by (simp add: spec_empty_def spec_used_def is_live_def allocation_new_def)
  then show ?thesis using ram_backend_refines_spec [of 10 ?xs Debug]
    by (simp add: spec_empty_def spec_used_def allocation_new_def)
qed

text \<open>Without that hypothesis the capacity check is bypassed in the release profile, where the sum wraps.\<close>

lemma allocate_wraps:
  "fst (allocate Release 18446744073709551611 ((ram_new 100)\<lparr>used := 10, next_offset := 10\<rparr>))
   = Ok (allocation_new 10 18446744073709551611 18446744073709551611)"
  by (simp add: allocate_def act_defs add_pr_def checked_def ram_new_def word_less_nat_alt)

section \<open>The RAM backend as a storage backend\<close>

definition ram_ready :: "usize \<Rightarrow> ram_backend \<Rightarrow> bool" where
  "ram_ready n b \<longleftrightarrow> n \<noteq> 0 \<and> unat (used b) + unat n \<le> unat (ram_capacity b) \<and> unat (next_offset b) + unat n < 2 ^ 64"

definition ram_holds :: "allocation \<Rightarrow> ram_backend \<Rightarrow> bool" where
  "ram_holds a b \<longleftrightarrow> alloc_size a \<le> used b \<and> used b \<le> ram_capacity b"

definition ram_content :: "allocation \<Rightarrow> ram_backend \<Rightarrow> bytes option" where
  "ram_content a b = fmlookup (storage b) (offset a)"

definition ram_free :: "ram_backend \<Rightarrow> nat" where
  "ram_free b = unat (ram_capacity b) - unat (used b)"

lemma unat_less_64: "unat (w :: u64) < 2 ^ 64"
  using unsigned_less [of w] by simp

lemma ram_allocate_ok:
  assumes "ram_ready n b"
  shows "allocate pr n b = (Ok (allocation_new (next_offset b) n n),
      b\<lparr>next_offset := next_offset b + n, used := used b + n\<rparr>)"
    and "unat (used b + n) = unat (used b) + unat n"
proof -
  have fits: "unat (used b) + unat n < 2 ^ 64" "unat (next_offset b) + unat n < 2 ^ 64" "n \<noteq> 0"
    using assms unat_less_64 [of "ram_capacity b"] by (auto simp: ram_ready_def)
  then show u: "unat (used b + n) = unat (used b) + unat n" by (simp add: unat_add_fits)
  have "\<not> ram_capacity b < used b + n" using assms u by (simp add: ram_ready_def word_less_nat_alt)
  then show "allocate pr n b = (Ok (allocation_new (next_offset b) n n),
      b\<lparr>next_offset := next_offset b + n, used := used b + n\<rparr>)"
    using fits by (simp add: allocate_def act_defs add_pr_fits)
qed

interpretation ram: storage_backend "ram_ops pr" ram_ready ram_holds ram_content ram_free for pr
proof
  fix n b a d buf
  show "\<exists>a b'. op_allocate (ram_ops pr) n b = (Ok a, b') \<and> alloc_size a = n \<and> ram_holds a b'
      \<and> ram_free b' + unat n = ram_free b" if "ram_ready n b"
    using ram_allocate_ok [OF that] that
    by (auto simp: ram_ops_def allocation_new_def ram_holds_def ram_free_def ram_ready_def word_le_nat_alt)
  show "\<exists>b'. op_write (ram_ops pr) a d b = (Ok (), b') \<and> ram_holds a b' \<and> ram_content a b' = Some d \<and> ram_free b' = ram_free b"
    if "ram_holds a b" "length d \<le> unat (alloc_size a)"
    using that by (simp add: ram_ops_def ram_write_def act_defs ram_holds_def ram_content_def ram_free_def)
  show "\<exists>b'. op_read (ram_ops pr) a buf b = (Ok d, b') \<and> ram_holds a b' \<and> ram_free b' = ram_free b"
    if "ram_holds a b" "ram_content a b = Some d" "length buf \<le> unat (alloc_size a)" "length buf = length d"
    using that by (simp add: ram_ops_def ram_read_def ram_content_def act_defs)
  show "\<exists>b'. op_deallocate (ram_ops pr) a b = (Ok (), b') \<and> ram_free b' = ram_free b + unat (alloc_size a)"
    if "ram_holds a b"
    using that by (auto simp: ram_ops_def deallocate_def act_defs ram_holds_def sub_pr_fits ram_free_def
        unat_sub_fits word_le_nat_alt)
  show "unat n \<le> ram_free b" if "ram_ready n b" using that by (auto simp: ram_ready_def ram_free_def)
qed

lemma ram_pressure_in_unit: "used b \<le> ram_capacity b \<Longrightarrow> in_unit (memory_pressure (ram_pressure b))"
  by (simp add: ram_pressure_def ram_memory_pressure_def word_ratio_in_unit f32_lit_def)

end
