(* ===== verification/Alloc_Tracker.thy ===== *)
theory Alloc_Tracker
  imports Transfer_Job
begin

text \<open>
  \<^verbatim>\<open>ghost-tier/src/tracker.rs\<close>: the allocation tracker used for leak detection. \<open>bt\<close> is the text of
  the backtrace when one is captured. The compare-and-swap loop on the peak is run by one thread
  at a time here, so it stores the larger value at once.
\<close>

record allocation_info =
  info_size :: usize
  allocated_at :: instant
  freed_at :: "instant option"
  backtrace :: "string option"

record allocation_tracker =
  allocations :: "(chunk_id, allocation_info) btree"
  total_allocated :: u64
  total_freed :: u64
  peak :: u64

definition tracker_new :: allocation_tracker where
  "tracker_new = \<lparr>allocations = fmempty, total_allocated = 0, total_freed = 0, peak = 0\<rparr>"

definition capture_backtrace :: "string option \<Rightarrow> string option" where
  "capture_backtrace bt = bt"

definition record_allocation :: "profile \<Rightarrow> instant \<Rightarrow> string option \<Rightarrow> chunk_id \<Rightarrow> usize \<Rightarrow> (allocation_tracker, unit, ghost_error) act" where
  "record_allocation pr now bt cid n t =
     (if pr = Debug \<and> fmlookup (allocations t) cid \<noteq> None then (Panic, t)
      else bind_act (update_act (\<lambda>t. t\<lparr>allocations := fmupd cid
               \<lparr>info_size = n, allocated_at = now, freed_at = None, backtrace = capture_backtrace bt\<rparr> (allocations t),
               total_allocated := total_allocated t + n\<rparr>)) (\<lambda>_.
           bind_act (lift_outcome (add_pr pr (total_allocated t) n)) (\<lambda>total.
           update_act (\<lambda>t. if total > peak t then t\<lparr>peak := total\<rparr> else t))) t)"

definition record_free :: "profile \<Rightarrow> instant \<Rightarrow> chunk_id \<Rightarrow> (allocation_tracker, unit, ghost_error) act" where
  "record_free pr now cid t = (case fmlookup (allocations t) cid of
       Some i \<Rightarrow> (Ok (), t\<lparr>allocations := fmupd cid (i\<lparr>freed_at := Some now\<rparr>) (allocations t),
                           total_freed := total_freed t + info_size i\<rparr>)
     | None \<Rightarrow> (if pr = Debug then Panic else Ok (), t))"

definition current_usage :: "allocation_tracker \<Rightarrow> u64" where
  "current_usage t = saturating_sub (total_allocated t) (total_freed t)"

definition peak_usage :: "allocation_tracker \<Rightarrow> u64" where
  "peak_usage t = peak t"

definition fragmentation_ratio :: "allocation_tracker \<Rightarrow> (f64, ghost_error) outcome" where
  "fragmentation_ratio t = (if total_allocated t = 0 then Ok (f64_lit 0)
     else if total_freed t = 0 then Ok (f64_lit 0)
     else fclamp (fdiv binary64 (of_word binary64 (total_freed t)) (of_word binary64 (total_allocated t))) (f64_lit 0) (f64_lit 1))"

definition leaked_allocations :: "allocation_tracker \<Rightarrow> chunk_id list" where
  "leaked_allocations t = map fst (filter (\<lambda>(k, i). freed_at i = None) (bt_entries (allocations t)))"

definition total_allocation_count :: "allocation_tracker \<Rightarrow> nat" where
  "total_allocation_count t = bt_len (allocations t)"

definition live_allocation_count :: "allocation_tracker \<Rightarrow> nat" where
  "live_allocation_count t = length (filter (\<lambda>(k, i). freed_at i = None) (bt_entries (allocations t)))"

definition tracker_reset :: "allocation_tracker \<Rightarrow> allocation_tracker" where
  "tracker_reset t = t\<lparr>allocations := fmempty, total_allocated := 0, total_freed := 0, peak := 0\<rparr>"

section \<open>The accounting\<close>

text \<open>\<open>held\<close> is the set of allocations not yet freed, \<open>seen\<close> every chunk ever recorded.\<close>

record ledger =
  held :: "(chunk_id, usize) fmap"
  seen :: "chunk_id set"
  ever :: nat

datatype tracker_op = TrackAlloc chunk_id usize | TrackFree chunk_id

fun track :: "profile \<Rightarrow> tracker_op \<Rightarrow> (allocation_tracker, unit, ghost_error) act" where
  "track pr (TrackAlloc cid n) = record_allocation pr 0 None cid n"
| "track pr (TrackFree cid) = record_free pr 0 cid"

fun book :: "tracker_op \<Rightarrow> ledger \<Rightarrow> ledger" where
  "book (TrackAlloc cid n) l = l\<lparr>held := fmupd cid n (held l), seen := insert cid (seen l), ever := ever l + unat n\<rparr>"
| "book (TrackFree cid) l = l\<lparr>held := fmdrop cid (held l)\<rparr>"

text \<open>Disciplined use: a chunk is recorded once and freed once, and the total fits.\<close>

fun disciplined :: "tracker_op list \<Rightarrow> ledger \<Rightarrow> bool" where
  "disciplined [] l \<longleftrightarrow> ever l < 2 ^ 64"
| "disciplined (TrackAlloc cid n # xs) l \<longleftrightarrow> cid \<notin> seen l \<and> disciplined xs (book (TrackAlloc cid n) l)"
| "disciplined (TrackFree cid # xs) l \<longleftrightarrow> cid |\<in>| fmdom (held l) \<and> disciplined xs (book (TrackFree cid) l)"

fun track_all :: "profile \<Rightarrow> tracker_op list \<Rightarrow> (allocation_tracker, unit, ghost_error) act" where
  "track_all pr [] = ret ()"
| "track_all pr (x # xs) = bind_act (track pr x) (\<lambda>_. track_all pr xs)"

definition held_bytes :: "ledger \<Rightarrow> nat" where
  "held_bytes l = (\<Sum>c \<in> fset (fmdom (held l)). unat (the (fmlookup (held l) c)))"

definition ledger_rel :: "allocation_tracker \<Rightarrow> ledger \<Rightarrow> bool" where
  "ledger_rel t l \<longleftrightarrow> fset (fmdom (allocations t)) = seen l
     \<and> (\<forall>c i. fmlookup (allocations t) c = Some i \<longrightarrow> fmlookup (held l) c = (if freed_at i = None then Some (info_size i) else None))
     \<and> fset (fmdom (held l)) \<subseteq> seen l
     \<and> unat (total_allocated t) = ever l \<and> peak t = total_allocated t
     \<and> unat (total_freed t) + held_bytes l = ever l"

lemma held_bytes_upd: "c |\<notin>| fmdom (held l) \<Longrightarrow> held_bytes (l\<lparr>held := fmupd c n (held l)\<rparr>) = held_bytes l + unat n"
  unfolding held_bytes_def by (simp, rule sum.cong) auto

lemma held_bytes_drop:
  assumes "fmlookup (held l) c = Some n"
  shows "held_bytes (l\<lparr>held := fmdrop c (held l)\<rparr>) + unat n = held_bytes l"
proof -
  let ?f = "\<lambda>j. unat (the (fmlookup (held l) j))" and ?D = "fset (fmdom (held l))"
  have "c \<in> ?D" using assms by (simp add: fmlookup_dom_iff)
  then have "held_bytes l = unat n + (\<Sum>j \<in> ?D - {c}. ?f j)"
    using sum.remove [of ?D c ?f] assms by (simp add: held_bytes_def)
  moreover have "held_bytes (l\<lparr>held := fmdrop c (held l)\<rparr>) = (\<Sum>j \<in> ?D - {c}. ?f j)"
    unfolding held_bytes_def by (rule sum.cong) auto
  ultimately show ?thesis by simp
qed

lemma held_bytes_cong: "held l = held l' \<Longrightarrow> held_bytes l = held_bytes l'"
  by (simp add: held_bytes_def)

lemma disciplined_total: "disciplined xs l \<Longrightarrow> ever l < 2 ^ 64"
proof (induction xs arbitrary: l)
  case (Cons x xs)
  then show ?case by (cases x) fastforce+
qed simp

lemma track_alloc_rel:
  assumes r: "ledger_rel t l" and c: "c \<notin> seen l" and fit: "ever l + unat n < 2 ^ 64"
  shows "\<exists>t'. track pr (TrackAlloc c n) t = (Ok (), t') \<and> ledger_rel t' (book (TrackAlloc c n) l)"
proof -
  have none: "fmlookup (allocations t) c = None" using r c by (metis fmdom_notD ledger_rel_def)
  have nh: "c |\<notin>| fmdom (held l)" using r c by (auto simp: ledger_rel_def)
  have u: "unat (total_allocated t + n) = unat (total_allocated t) + unat n" and a: "add_pr pr (total_allocated t) n = Ok (total_allocated t + n)" for pr
    using r fit by (simp_all add: ledger_rel_def unat_add_fits add_pr_fits)
  have p: "(if total_allocated t + n > peak t then total_allocated t + n else peak t) = total_allocated t + n"
    using r u by (auto simp: ledger_rel_def word_less_nat_alt word_unat_eq_iff)
  let ?t = "t\<lparr>allocations := fmupd c \<lparr>info_size = n, allocated_at = 0, freed_at = None, backtrace = None\<rparr> (allocations t),
      total_allocated := total_allocated t + n, peak := total_allocated t + n\<rparr>"
  have "track pr (TrackAlloc c n) t = (Ok (), ?t)"
    using p by (cases "total_allocated t + n > peak t")
      (simp_all add: record_allocation_def act_defs none a capture_backtrace_def)
  moreover have "held_bytes (book (TrackAlloc c n) l) = held_bytes l + unat n"
    using held_bytes_upd [OF nh, of n] by (simp add: held_bytes_def)
  moreover have "ledger_rel ?t (book (TrackAlloc c n) l)"
    using r u calculation(2) by (auto simp: ledger_rel_def)
  ultimately show ?thesis by blast
qed

lemma track_free_rel:
  assumes r: "ledger_rel t l" and c: "c |\<in>| fmdom (held l)" and fit: "ever l < 2 ^ 64"
  shows "\<exists>t'. track pr (TrackFree c) t = (Ok (), t') \<and> ledger_rel t' (book (TrackFree c) l)"
proof -
  obtain n where n: "fmlookup (held l) c = Some n" using c by (auto simp: fmlookup_dom_iff)
  have cs: "c \<in> seen l" "c \<in> fset (fmdom (allocations t))" using r c by (auto simp: ledger_rel_def)
  then obtain i where i: "fmlookup (allocations t) c = Some i" by (auto simp: fmlookup_dom_iff)
  have si: "info_size i = n" "freed_at i = None" using r i n by (auto simp: ledger_rel_def split: if_splits)
  note d = held_bytes_drop [OF n]
  have "unat (total_freed t) + unat n < 2 ^ 64" using r d fit by (simp add: ledger_rel_def)
  then have u: "unat (total_freed t + n) = unat (total_freed t) + unat n" by (simp add: unat_add_fits)
  let ?t = "t\<lparr>allocations := fmupd c (i\<lparr>freed_at := Some 0\<rparr>) (allocations t), total_freed := total_freed t + n\<rparr>"
  have "track pr (TrackFree c) t = (Ok (), ?t)" by (simp add: record_free_def i si)
  moreover have "ledger_rel ?t (book (TrackFree c) l)"
    using r u d i cs(1) by (auto simp: ledger_rel_def)
  ultimately show ?thesis by blast
qed

lemma track_all_rel:
  assumes "ledger_rel t l" "disciplined xs l"
  shows "\<exists>t'. track_all pr xs t = (Ok (), t') \<and> ledger_rel t' (fold book xs l)"
  using assms
proof (induction xs arbitrary: t l)
  case Nil
  then show ?case by (simp add: act_defs)
next
  case (Cons x xs)
  have "\<exists>t'. track pr x t = (Ok (), t') \<and> ledger_rel t' (book x l) \<and> disciplined xs (book x l)"
  proof (cases x)
    case (TrackAlloc c n)
    with Cons.prems have d: "c \<notin> seen l" "disciplined xs (book x l)" by simp_all
    have "ever l + unat n < 2 ^ 64" using disciplined_total [OF d(2)] TrackAlloc by simp
    with track_alloc_rel [OF Cons.prems(1) d(1) this] d(2) TrackAlloc show ?thesis by blast
  next
    case (TrackFree c)
    with Cons.prems have d: "c |\<in>| fmdom (held l)" "disciplined xs (book x l)" by simp_all
    have "ever l < 2 ^ 64" using disciplined_total [OF Cons.prems(2)] .
    with track_free_rel [OF Cons.prems(1) d(1) this] d(2) TrackFree show ?thesis by blast
  qed
  then obtain t' where "track pr x t = (Ok (), t')" "ledger_rel t' (book x l)" "disciplined xs (book x l)" by blast
  with Cons.IH show ?case by (simp add: bind_act_def)
qed

definition empty_ledger :: ledger where
  "empty_ledger = \<lparr>held = fmempty, seen = {}, ever = 0\<rparr>"

text \<open>
  Under disciplined use (each chunk recorded once, freed at most once, totals below \<open>2\<^sup>6\<^sup>4\<close>)
  the tracker never panics, its current usage is the sum of the sizes of the chunks not yet
  freed, and the chunks it reports as leaked are exactly those, in ascending order.
\<close>

theorem tracker_accounts:
  assumes "disciplined xs empty_ledger"
  shows "\<exists>t. track_all pr xs tracker_new = (Ok (), t)
    \<and> unat (current_usage t) = held_bytes (fold book xs empty_ledger)
    \<and> leaked_allocations t = bt_keys (held (fold book xs empty_ledger))"
proof -
  let ?l = "fold book xs empty_ledger"
  have "ledger_rel tracker_new empty_ledger"
    by (simp add: ledger_rel_def tracker_new_def empty_ledger_def held_bytes_def)
  then obtain t where t: "track_all pr xs tracker_new = (Ok (), t)" and r: "ledger_rel t ?l"
    using track_all_rel assms by blast
  have "unat (current_usage t) = held_bytes ?l"
    using r by (auto simp: current_usage_def unat_saturating_sub ledger_rel_def)
  moreover have "leaked_allocations t = bt_keys (held ?l)"
  proof (rule sorted_distinct_set_unique)
    have f: "leaked_allocations t = filter (\<lambda>k. freed_at (the (fmlookup (allocations t) k)) = None) (bt_keys (allocations t))"
      by (simp add: leaked_allocations_def bt_entries_def filter_map comp_def)
    show "sorted (leaked_allocations t)" "distinct (leaked_allocations t)"
      unfolding f by (simp_all add: sorted_wrt_filter)
    show "set (leaked_allocations t) = set (bt_keys (held ?l))"
    proof (rule set_eqI)
      fix c
      show "c \<in> set (leaked_allocations t) \<longleftrightarrow> c \<in> set (bt_keys (held ?l))"
      proof (cases "fmlookup (allocations t) c")
        case None
        then have "c \<notin> seen ?l" using r by (metis fmdom_notI ledger_rel_def)
        then show ?thesis using None r unfolding f by (auto simp: ledger_rel_def fmlookup_dom_iff)
      next
        case (Some i)
        then have "fmlookup (held ?l) c = (if freed_at i = None then Some (info_size i) else None)"
          using r by (simp add: ledger_rel_def)
        then show ?thesis using Some unfolding f by (auto simp: fmlookup_dom_iff)
      qed
    qed
  qed simp_all
  ultimately show ?thesis using t by blast
qed

theorem tracker_accounts_witness:
  "\<exists>t. track_all Debug [TrackAlloc (ChunkId [2]) 10, TrackAlloc (ChunkId [1]) 5, TrackFree (ChunkId [2])] tracker_new = (Ok (), t)
    \<and> unat (current_usage t) = 5"
proof -
  have d: "{ChunkId [1], ChunkId [2]} - {ChunkId [2]} = {ChunkId [1]}" by auto
  show ?thesis
    using tracker_accounts [of "[TrackAlloc (ChunkId [2]) 10, TrackAlloc (ChunkId [1]) 5, TrackFree (ChunkId [2])]" Debug]
    by (auto simp: empty_ledger_def held_bytes_def d)
qed

text \<open>
  The recorded peak is the total ever allocated, not the highest usage; and in the debug profile a
  chunk cannot be recorded again after it was freed.
\<close>

lemma peak_is_total:
  assumes "disciplined xs empty_ledger"
  shows "\<exists>t. track_all pr xs tracker_new = (Ok (), t) \<and> unat (peak_usage t) = ever (fold book xs empty_ledger)"
proof -
  have "ledger_rel tracker_new empty_ledger"
    by (simp add: ledger_rel_def tracker_new_def empty_ledger_def held_bytes_def)
  from track_all_rel [OF this assms, of pr] obtain t where
    "track_all pr xs tracker_new = (Ok (), t)" "ledger_rel t (fold book xs empty_ledger)" by blast
  then show ?thesis unfolding peak_usage_def ledger_rel_def by metis
qed

lemma reallocation_panics:
  "fst (track_all Debug [TrackAlloc c n, TrackFree c, TrackAlloc c n] tracker_new) = Panic"
  using unsigned_less [of n]
  by (simp add: record_allocation_def record_free_def act_defs tracker_new_def add_pr_def checked_def)

end
