(* ===== verification/Metrics.thy ===== *)
theory Metrics
  imports Core_Types
begin

text \<open>
  \<^verbatim>\<open>ghost-daemon/src/metrics.rs\<close>: the counters of the transfer pipeline. All counters are
  relaxed atomics; \<^verbatim>\<open>fetch_add\<close> wraps at \<open>2\<^sup>6\<^sup>4\<close>.
\<close>

record transfer_metrics =
  jobs_submitted :: u64
  jobs_completed :: u64
  jobs_failed :: u64
  jobs_cancelled :: u64
  bytes_transferred :: u64
  total_transfer_time_ms :: u64
  metrics_queue_depth :: u64
  metrics_active_workers :: u64

definition metrics_new :: transfer_metrics where
  "metrics_new = \<lparr>jobs_submitted = 0, jobs_completed = 0, jobs_failed = 0, jobs_cancelled = 0,
     bytes_transferred = 0, total_transfer_time_ms = 0, metrics_queue_depth = 0, metrics_active_workers = 0\<rparr>"

definition record_submission :: "transfer_metrics \<Rightarrow> transfer_metrics" where
  "record_submission m = m\<lparr>jobs_submitted := jobs_submitted m + 1\<rparr>"

definition record_completion :: "transfer_metrics \<Rightarrow> transfer_metrics" where
  "record_completion m = m\<lparr>jobs_completed := jobs_completed m + 1\<rparr>"

definition record_job_failure :: "transfer_metrics \<Rightarrow> transfer_metrics" where
  "record_job_failure m = m\<lparr>jobs_failed := jobs_failed m + 1\<rparr>"

definition record_cancellation :: "transfer_metrics \<Rightarrow> transfer_metrics" where
  "record_cancellation m = m\<lparr>jobs_cancelled := jobs_cancelled m + 1\<rparr>"

definition record_bytes :: "u64 \<Rightarrow> transfer_metrics \<Rightarrow> transfer_metrics" where
  "record_bytes n m = m\<lparr>bytes_transferred := bytes_transferred m + n\<rparr>"

definition record_transfer_time :: "u64 \<Rightarrow> transfer_metrics \<Rightarrow> transfer_metrics" where
  "record_transfer_time ms m = m\<lparr>total_transfer_time_ms := total_transfer_time_ms m + ms\<rparr>"

definition set_queue_depth :: "u64 \<Rightarrow> transfer_metrics \<Rightarrow> transfer_metrics" where
  "set_queue_depth d m = m\<lparr>metrics_queue_depth := d\<rparr>"

definition set_active_workers :: "u64 \<Rightarrow> transfer_metrics \<Rightarrow> transfer_metrics" where
  "set_active_workers n m = m\<lparr>metrics_active_workers := n\<rparr>"

definition avg_transfer_time_ms :: "transfer_metrics \<Rightarrow> f64" where
  "avg_transfer_time_ms m = (if jobs_completed m = 0 then f64_lit 0
     else fdiv binary64 (of_word binary64 (total_transfer_time_ms m)) (of_word binary64 (jobs_completed m)))"

definition success_rate :: "transfer_metrics \<Rightarrow> f64" where
  "success_rate m = (if jobs_submitted m = 0 then f64_lit 1
     else fdiv binary64 (of_word binary64 (jobs_completed m)) (of_word binary64 (jobs_submitted m)))"

lemma success_rate_in_unit: "jobs_completed m \<le> jobs_submitted m \<Longrightarrow> in_unit (success_rate m)"
  by (cases "jobs_submitted m = 0")
     (simp_all add: success_rate_def f64_lit_def word_ratio_in_unit word_neq_0_conv)

end
