(* ===== verification/Worker.thy ===== *)
theory Worker
  imports Runtime Ram_Backend Metrics
begin

unbundle bit_operations_syntax

text \<open>
  \<^verbatim>\<open>ghost-daemon/src/worker.rs\<close>: a worker takes a job through read, (pass-through) compression
  and write, retries failed writes with exponential backoff, and reports the result of a
  cross-tier job to the orchestrator. Backends are trait objects: the methods are the argument
  \<open>ops\<close>, and the state of each backend is kept per tier.
\<close>

section \<open>State\<close>

record worker_pool_config =
  worker_count :: usize
  wp_max_retries :: u32
  retry_base_delay_ms :: u64
  max_retry_delay_ms :: u64
  enable_compression :: bool

definition worker_pool_config_default :: worker_pool_config where
  "worker_pool_config_default = \<lparr>worker_count = 4, wp_max_retries = 3, retry_base_delay_ms = 1000,
     max_retry_delay_ms = 30000, enable_compression = True\<rparr>"

record worker_completion =
  wc_chunk_id :: chunk_id
  wc_from_tier :: tier_id
  wc_to_tier :: tier_id
  wc_success :: bool
  wc_error :: "message option"
  wc_worker_id :: usize
  wc_timestamp :: u64

text \<open>
  \<open>ws_sleeps\<close> are the delays slept so far and \<open>ws_completions\<close> the reports sent. \<open>ws_receiver\<close>: the
  receiving end of the completion channel is still open (it is dropped with the orchestrator's
  completion task).
\<close>

record 'b worker_state =
  ws_rt :: runtime
  ws_backends :: "(tier_id, 'b) btree"
  ws_job :: transfer_job
  ws_sleeps :: "u64 list"
  ws_metrics :: transfer_metrics
  active_workers :: u64
  ws_completions :: "worker_completion list"
  ws_receiver :: bool

type_synonym ('b, 'a) wk = "('b worker_state, 'a, ghost_error) act"

definition on_rt :: "'a rt \<Rightarrow> ('b, 'a) wk" where
  "on_rt m = on_part ws_rt (\<lambda>r s. s\<lparr>ws_rt := r\<rparr>) m"

definition on_job :: "(transfer_job \<Rightarrow> transfer_job) \<Rightarrow> ('b, unit) wk" where
  "on_job f = update_act (\<lambda>s. s\<lparr>ws_job := f (ws_job s)\<rparr>)"

text \<open>\<^verbatim>\<open>backends.get(&tier).ok_or(TierUnavailable(tier))?\<close> followed by a call on the backend.\<close>

definition on_backend :: "tier_id \<Rightarrow> ('b, 'a, ghost_error) act \<Rightarrow> ('b, 'a) wk" where
  "on_backend t m s = (case fmlookup (ws_backends s) t of
       None \<Rightarrow> (Err (TierUnavailable t), s)
     | Some b \<Rightarrow> (case m b of (r, b') \<Rightarrow> (r, s\<lparr>ws_backends := fmupd t b' (ws_backends s)\<rparr>)))"

section \<open>Backend access\<close>

fun display_backend_error :: "backend_error \<Rightarrow> message" where
  "display_backend_error (InsufficientSpace r a) =
     [Lit ''insufficient space: requested '', FmtNat (unat r), Lit '', available '', FmtNat (unat a)]"
| "display_backend_error (AllocationNotFound off) = [Lit ''allocation not found at offset '', FmtNat (unat off)]"
| "display_backend_error (WriteFailed m) = Lit ''write failed: '' # m"
| "display_backend_error (ReadFailed m) = Lit ''read failed: '' # m"
| "display_backend_error (IntegrityFailed m) = Lit ''integrity check failed: '' # m"
| "display_backend_error (Unhealthy m) = Lit ''backend unhealthy: '' # m"
| "display_backend_error (NotSupported m) = Lit ''operation not supported: '' # m"
| "display_backend_error (InternalFailure m) = Lit ''internal error: '' # m"

definition backend_call :: "('b, 'a, backend_error) act \<Rightarrow> ('b, 'a, ghost_error) act" where
  "backend_call m b = (case m b of (r, b') \<Rightarrow> (map_err (\<lambda>e. BackendFailure (display_backend_error e)) r, b'))"

definition read_from_backend :: "'b backend_ops \<Rightarrow> usize \<Rightarrow> ('b, bytes, ghost_error) act" where
  "read_from_backend ops n =
     bind_act (backend_call (op_allocate ops n)) (\<lambda>a.
     bind_act (backend_call (op_write ops a (replicate (unat n) 0))) (\<lambda>_.
     bind_act (backend_call (op_read ops a (replicate (unat n) 0))) (\<lambda>buf.
     bind_act (backend_call (op_deallocate ops a)) (\<lambda>_. ret buf))))"

definition write_to_backend :: "'b backend_ops \<Rightarrow> bytes \<Rightarrow> ('b, unit, ghost_error) act" where
  "write_to_backend ops data =
     bind_act (backend_call (op_allocate ops (of_nat (length data)))) (\<lambda>a.
     bind_act (backend_call (op_write ops a data)) (\<lambda>_.
     backend_call (op_deallocate ops a)))"

section \<open>The transfer\<close>

text \<open>
  \<^verbatim>\<open>1u64 << (attempt - 1)\<close>: a shift by 64 or more panics in the debug profile and is taken modulo
  64 in the release profile.
\<close>

definition shl_pr :: "profile \<Rightarrow> u64 \<Rightarrow> nat \<Rightarrow> (u64, 'e) outcome" where
  "shl_pr pr a k = checked pr (k < 64) (push_bit (k mod 64) a)"

definition backoff :: "profile \<Rightarrow> worker_pool_config \<Rightarrow> nat \<Rightarrow> ('b, unit) wk" where
  "backoff pr cfg attempt =
     bind_act (lift_outcome (shl_pr pr 1 (attempt - 1))) (\<lambda>factor.
     bind_act (lift_outcome (mul_pr pr (retry_base_delay_ms cfg) factor)) (\<lambda>delay.
     update_act (\<lambda>s. s\<lparr>ws_sleeps := ws_sleeps s @ [min delay (max_retry_delay_ms cfg)]\<rparr>)))"

definition begin_retry :: "profile \<Rightarrow> worker_pool_config \<Rightarrow> nat \<Rightarrow> ('b, unit) wk" where
  "begin_retry pr cfg attempt = (if attempt > 0 then
     (\<lambda>s. bind_act (lift_outcome (record_attempt pr (ws_job s))) (\<lambda>j.
      bind_act (on_job (\<lambda>_. j)) (\<lambda>_.
      bind_act (on_rt (emit_event (EvRetryAttempted 0 (job_chunk j) (of_nat attempt) (wp_max_retries cfg)))) (\<lambda>_.
      bind_act (on_rt (log_now (TransferRetry (job_chunk j) (from_tier j) (to_tier j) (of_nat attempt)))) (\<lambda>_.
      backoff pr cfg attempt)))) s)
   else ret ())"

datatype attempt_result = Done | RetryWith ghost_error

definition compress_step :: "bool \<Rightarrow> bytes \<Rightarrow> ('b, bytes) wk" where
  "compress_step should data s = (let j = ws_job s in
     (if should
     then bind_act (on_job (transition_state Compressing)) (\<lambda>_.
          bind_act (on_rt (log_now (CompressionStarted (job_chunk j) (job_size j)))) (\<lambda>_.
          bind_act (on_rt (log_now (CompressionCompleted (job_chunk j) (job_size j) (job_size j)))) (\<lambda>_. ret data)))
     else ret data) s)"

definition transfer_attempt :: "'b backend_ops \<Rightarrow> worker_pool_config \<Rightarrow> u64 \<Rightarrow> ('b, attempt_result) wk" where
  "transfer_attempt ops cfg dur s = (let j = ws_job s in
     bind_act (on_job (transition_state Transferring)) (\<lambda>_.
     bind_act (on_rt (log_now (ChunkStateChanged (job_chunk j) Stored Migrating))) (\<lambda>_.
     bind_act (on_backend (from_tier j) (read_from_backend ops (job_size j))) (\<lambda>data.
     bind_act (compress_step (enable_compression cfg \<and> job_size j > 0) data) (\<lambda>payload.
     bind_act (on_job (transition_state Writing)) (\<lambda>_.
     bind_act (\<lambda>s. case fmlookup (ws_backends s) (to_tier j) of
                 None \<Rightarrow> (Err (TierUnavailable (to_tier j)), s)
               | Some _ \<Rightarrow> catch_act (on_backend (to_tier j) (write_to_backend ops payload)) s) (\<lambda>w.
     case w of
       Inl e \<Rightarrow> ret (RetryWith (BackendFailure (display_error e)))
     | Inr _ \<Rightarrow>
         bind_act (on_job (transition_state Verifying)) (\<lambda>_.
         bind_act (on_job (transition_state Complete)) (\<lambda>_.
         bind_act (on_rt (log_now (TransferCompleted (job_chunk j) (from_tier j) (to_tier j) (job_size j) dur)))
           (\<lambda>_. ret Done))))))))) s)"

text \<open>The loop \<^verbatim>\<open>for attempt in 0..=max_retries\<close>, over the list of attempts still to make.\<close>

fun transfer_loop ::
  "profile \<Rightarrow> 'b backend_ops \<Rightarrow> worker_pool_config \<Rightarrow> u64 \<Rightarrow> nat list \<Rightarrow> ghost_error option \<Rightarrow> ('b, unit) wk" where
  "transfer_loop pr ops cfg dur [] last_error =
     bind_act (on_job (transition_state TransferFailedState)) (\<lambda>_.
       fail (unwrap_or (Internal [Lit ''transfer failed after max retries'']) last_error))"
| "transfer_loop pr ops cfg dur (attempt # rest) last_error =
     bind_act (begin_retry pr cfg attempt) (\<lambda>_.
     bind_act (transfer_attempt ops cfg dur) (\<lambda>r.
       case r of Done \<Rightarrow> ret () | RetryWith e \<Rightarrow> transfer_loop pr ops cfg dur rest (Some e)))"

definition execute_transfer :: "profile \<Rightarrow> 'b backend_ops \<Rightarrow> worker_pool_config \<Rightarrow> u64 \<Rightarrow> ('b, unit) wk" where
  "execute_transfer pr ops cfg dur =
     bind_act (\<lambda>s. on_rt (log_now (TransferStarted (ws_job s))) s) (\<lambda>_.
       transfer_loop pr ops cfg dur [0..<Suc (unat (wp_max_retries cfg))] None)"

section \<open>The worker's turn\<close>

text \<open>\<^verbatim>\<open>let _ = completion_tx.send(..).await\<close>: on a closed channel the report is lost silently.\<close>

definition send_completion :: "usize \<Rightarrow> u64 \<Rightarrow> bool \<Rightarrow> message option \<Rightarrow> ('b, unit) wk" where
  "send_completion wid ts ok err = update_act (\<lambda>s. let j = ws_job s in
     if from_tier j \<noteq> to_tier j \<and> ws_receiver s
     then s\<lparr>ws_completions := ws_completions s @
            [\<lparr>wc_chunk_id = job_chunk j, wc_from_tier = from_tier j, wc_to_tier = to_tier j, wc_success = ok,
              wc_error = err, wc_worker_id = wid, wc_timestamp = ts\<rparr>]\<rparr>
     else s)"

definition on_metrics :: "(transfer_metrics \<Rightarrow> transfer_metrics) \<Rightarrow> ('b, unit) wk" where
  "on_metrics f = update_act (\<lambda>s. s\<lparr>ws_metrics := f (ws_metrics s)\<rparr>)"

definition report_success :: "usize \<Rightarrow> u64 \<Rightarrow> ('b, unit) wk" where
  "report_success wid ts s = (let j = ws_job s in
     bind_act (on_metrics record_completion) (\<lambda>_.
     bind_act (on_rt (emit_event (EvTransferCompleted 0 (job_chunk j) (from_tier j) (to_tier j) 0))) (\<lambda>_.
     bind_act (if from_tier j \<noteq> to_tier j
               then on_rt (emit_event (EvMigrationCompleted 0 (job_chunk j) (from_tier j) (to_tier j) 0)) else ret ()) (\<lambda>_.
     send_completion wid ts True None))) s)"

definition report_cancelled :: "u64 \<Rightarrow> ('b, unit) wk" where
  "report_cancelled ts s = (let j = ws_job s in
     bind_act (on_metrics record_cancellation) (\<lambda>_.
     on_rt (log_event (TransferCancelled (job_chunk j) (from_tier j) (to_tier j) ts))) s)"

definition report_failure :: "usize \<Rightarrow> u64 \<Rightarrow> ghost_error \<Rightarrow> ('b, unit) wk" where
  "report_failure wid ts e s = (let j = ws_job s in
     bind_act (on_metrics record_job_failure) (\<lambda>_.
     bind_act (on_rt (emit_event (EvTransferFailed 0 (job_chunk j) (from_tier j) (to_tier j) (display_error e)))) (\<lambda>_.
     bind_act (on_rt (log_event (TransferFailed (job_chunk j) (from_tier j) (to_tier j) (display_error e) (attempts j) ts))) (\<lambda>_.
     send_completion wid ts False (Some (display_error e))))) s)"

text \<open>The body of the worker loop for one received job.\<close>

definition process_job :: "profile \<Rightarrow> 'b backend_ops \<Rightarrow> worker_pool_config \<Rightarrow> usize \<Rightarrow> u64 \<Rightarrow> transfer_job \<Rightarrow> ('b, unit) wk" where
  "process_job pr ops cfg wid dur job =
     bind_act (update_act (\<lambda>s. s\<lparr>active_workers := active_workers s + 1, ws_job := job\<rparr>)) (\<lambda>_.
     bind_act (catch_act (execute_transfer pr ops cfg dur)) (\<lambda>result.
     bind_act (on_rt now_ms) (\<lambda>ts.
     bind_act (case result of
                 Inr _ \<Rightarrow> report_success wid ts
               | Inl e \<Rightarrow> if e = Cancelled then report_cancelled ts else report_failure wid ts e) (\<lambda>_.
     bind_act (\<lambda>s. on_metrics (record_bytes (job_size (ws_job s))) s) (\<lambda>_.
     update_act (\<lambda>s. s\<lparr>active_workers := active_workers s - 1\<rparr>))))))"

section \<open>What the steps leave alone\<close>

text \<open>The parts of the worker's state and the steps that may change them.\<close>

definition job_id :: "'b worker_state \<Rightarrow> chunk_id \<times> tier_id \<times> tier_id \<times> usize" where
  "job_id s = (job_chunk (ws_job s), from_tier (ws_job s), to_tier (ws_job s), job_size (ws_job s))"

definition outputs :: "'b worker_state \<Rightarrow> worker_completion list \<times> transfer_metrics \<times> u64 \<times> bool" where
  "outputs s = (ws_completions s, ws_metrics s, active_workers s, ws_receiver s)"

lemma keeps_on_rt [keeps_rules]:
  "keeps ws_sleeps (on_rt m)" "keeps job_id (on_rt m)" "keeps outputs (on_rt m)" "keeps ws_job (on_rt m)"
  "keeps ws_backends (on_rt m)"
  by (simp_all add: keeps_def on_rt_def on_part_def job_id_def outputs_def split: prod.split)

lemma keeps_on_job [keeps_rules]:
  "keeps ws_sleeps (on_job f)" "keeps outputs (on_job f)" "keeps job_id (on_job (transition_state st))"
  "keeps ws_backends (on_job f)" "keeps ws_rt (on_job f)"
  by (simp_all add: keeps_def on_job_def update_act_def job_id_def outputs_def transition_state_def)

lemma keeps_on_backend [keeps_rules]:
  "keeps ws_sleeps (on_backend t m)" "keeps job_id (on_backend t m)" "keeps outputs (on_backend t m)"
  "keeps ws_job (on_backend t m)" "keeps ws_rt (on_backend t m)"
  by (simp_all add: keeps_def on_backend_def job_id_def outputs_def split: prod.split option.split)

lemma keeps_backoff [keeps_rules]:
  "keeps job_id (backoff pr cfg k)" "keeps outputs (backoff pr cfg k)"
  unfolding backoff_def
  by (intro keeps_rules; simp add: keeps_def update_act_def job_id_def outputs_def)+

lemma keeps_compress [keeps_rules]:
  "keeps ws_sleeps (compress_step c d)" "keeps job_id (compress_step c d)" "keeps outputs (compress_step c d)"
  unfolding compress_step_def [abs_def] Let_def by (rule keeps_state, intro keeps_rules)+

lemma keeps_compress_attempts: "keeps (\<lambda>s. attempts (ws_job s)) (compress_step c d)"
proof -
  have *: "keeps (\<lambda>s. attempts (ws_job s)) (on_rt m)" "keeps (\<lambda>s. attempts (ws_job s)) (on_job (transition_state st))" for m :: "unit rt" and st
    by (simp_all add: keeps_def on_rt_def on_job_def act_defs transition_state_def split: prod.split)
  show ?thesis unfolding compress_step_def [abs_def] Let_def by (rule keeps_state, intro keeps_rules *)
qed

lemma keeps_find [keeps_rules]:
  "(\<And>b. keeps f m) \<Longrightarrow> keeps f (\<lambda>s. case fmlookup (ws_backends s) t of None \<Rightarrow> (Err e, s) | Some b \<Rightarrow> m s)"
  by (simp add: keeps_def split: option.split)

lemma keeps_sum [keeps_rules]:
  "(\<And>e. keeps f (m e)) \<Longrightarrow> (\<And>a. keeps f (m' a)) \<Longrightarrow> keeps f (case w of Inl e \<Rightarrow> m e | Inr a \<Rightarrow> m' a)"
  by (simp split: sum.split)

definition attempts_only :: "transfer_job \<Rightarrow> transfer_job \<Rightarrow> bool" where
  "attempts_only j' j \<longleftrightarrow> (\<exists>n. j' = j\<lparr>attempts := n\<rparr>)"

lemma keeps_attempt [keeps_rules]:
  "keeps ws_sleeps (transfer_attempt ops cfg dur)" "keeps job_id (transfer_attempt ops cfg dur)"
  "keeps outputs (transfer_attempt ops cfg dur)"
  unfolding transfer_attempt_def [abs_def] Let_def by (rule keeps_state, intro keeps_rules)+

lemma keeps_record_attempt [keeps_rules]:
  assumes "\<And>j. keeps f (g j)" "\<And>s j. attempts_only j (ws_job s) \<Longrightarrow> f (s\<lparr>ws_job := j\<rparr>) = f s"
  shows "keeps f (\<lambda>s. bind_act (lift_outcome (record_attempt pr (ws_job s))) (\<lambda>j. bind_act (on_job (\<lambda>_. j)) (\<lambda>_. g j)) s)"
  unfolding keeps_def
proof
  fix s
  show "f (snd (bind_act (lift_outcome (record_attempt pr (ws_job s))) (\<lambda>j. bind_act (on_job (\<lambda>_. j)) (\<lambda>_. g j)) s)) = f s"
  proof (cases "record_attempt pr (ws_job s) :: (transfer_job, ghost_error) outcome")
    case (Ok j)
    then have "attempts_only j (ws_job s)"
      by (auto simp: record_attempt_def attempts_only_def split: outcome.splits)
    with Ok assms(2) show ?thesis using keepsD [OF assms(1), of j "s\<lparr>ws_job := j\<rparr>"]
      by (simp add: act_defs on_job_def)
  qed (simp_all add: act_defs)
qed

lemma keeps_begin_retry [keeps_rules]:
  "keeps job_id (begin_retry pr cfg k)" "keeps outputs (begin_retry pr cfg k)"
  unfolding begin_retry_def
  by (intro keeps_rules; auto simp: job_id_def outputs_def attempts_only_def)+

lemma keeps_loop [keeps_rules]:
  "keeps job_id (transfer_loop pr ops cfg dur xs e)" "keeps outputs (transfer_loop pr ops cfg dur xs e)"
  by (induction xs arbitrary: e) (auto intro!: keeps_rules split: attempt_result.split)

lemma keeps_execute [keeps_rules]:
  "keeps job_id (execute_transfer pr ops cfg dur)" "keeps outputs (execute_transfer pr ops cfg dur)"
  unfolding execute_transfer_def by (rule keeps_bind, rule keeps_state, rule keeps_on_rt, rule keeps_loop)+

section \<open>Delays\<close>

lemma sleeps_begin_retry:
  fixes s :: "'b worker_state"
  shows "\<exists>ds. ws_sleeps (snd (begin_retry pr cfg k s)) = ws_sleeps s @ ds \<and> length ds \<le> (if k = 0 then 0 else 1)
     \<and> list_all (\<lambda>d. d \<le> max_retry_delay_ms cfg) ds"
proof (cases "k = 0 \<or> (\<forall>j. record_attempt pr (ws_job s) \<noteq> (Ok j :: (transfer_job, ghost_error) outcome))")
  case True
  then show ?thesis
    by (cases "record_attempt pr (ws_job s) :: (transfer_job, ghost_error) outcome")
       (auto simp: begin_retry_def act_defs)
next
  case False
  then obtain j where j: "0 < k" "record_attempt pr (ws_job s) = (Ok j :: (transfer_job, ghost_error) outcome)" by auto
  define m :: "('b, unit) wk" where "m = bind_act (on_rt (emit_event (EvRetryAttempted 0 (job_chunk j) (of_nat k) (wp_max_retries cfg)))) (\<lambda>_.
      on_rt (log_now (TransferRetry (job_chunk j) (from_tier j) (to_tier j) (of_nat k))))"
  have m: "keeps ws_sleeps m" unfolding m_def by (intro keeps_rules)
  have "begin_retry pr cfg k s = bind_act m (\<lambda>_. backoff pr cfg k) (s\<lparr>ws_job := j\<rparr>)"
    using j by (simp add: begin_retry_def m_def act_defs on_job_def split: prod.split outcome.split)
  moreover have "ws_sleeps (snd (m (s\<lparr>ws_job := j\<rparr>))) = ws_sleeps s" using keepsD [OF m, of "s\<lparr>ws_job := j\<rparr>"] by simp
  ultimately show ?thesis using j(1)
    by (auto simp: bind_act_def backoff_def act_defs split: prod.split outcome.split)
qed

lemma sleeps_loop:
  "\<exists>ds. ws_sleeps (snd (transfer_loop pr ops cfg dur xs e s)) = ws_sleeps s @ ds
     \<and> length ds \<le> length (filter (\<lambda>k. k \<noteq> 0) xs) \<and> list_all (\<lambda>d. d \<le> max_retry_delay_ms cfg) ds"
proof (induction xs arbitrary: e s)
  case Nil
  show ?case by (simp add: act_defs on_job_def)
next
  case (Cons k xs)
  obtain ds where ds: "ws_sleeps (snd (begin_retry pr cfg k s)) = ws_sleeps s @ ds"
    "length ds \<le> (if k = 0 then 0 else 1)" "list_all (\<lambda>d. d \<le> max_retry_delay_ms cfg) ds"
    using sleeps_begin_retry by blast
  obtain r s1 where b: "begin_retry pr cfg k s = (r, s1)" by fastforce
  obtain r' s2 where t: "transfer_attempt ops cfg dur s1 = (r', s2)" by fastforce
  have s2: "ws_sleeps s2 = ws_sleeps s @ ds"
    using keepsD [OF keeps_attempt(1), of ops cfg dur s1] t b ds(1) by simp
  have s1: "ws_sleeps s1 = ws_sleeps s @ ds" using b ds(1) by simp
  have len: "length ds \<le> length (filter (\<lambda>k. k \<noteq> 0) (k # xs))" using ds(2) by (auto split: if_splits)
  show ?case
  proof (cases "r = Ok () \<and> (\<exists>x. r' = Ok (RetryWith x))")
    case True
    then obtain x where x: "r = Ok ()" "r' = Ok (RetryWith x)" by blast
    obtain ds' where "ws_sleeps (snd (transfer_loop pr ops cfg dur xs (Some x) s2)) = ws_sleeps s2 @ ds'"
      "length ds' \<le> length (filter (\<lambda>k. k \<noteq> 0) xs)" "list_all (\<lambda>d. d \<le> max_retry_delay_ms cfg) ds'"
      using Cons.IH by blast
    then show ?thesis using b t x s2 ds
      by (intro exI [of _ "ds @ ds'"]) (auto simp: bind_act_def split: if_splits)
  next
    case False
    then have "ws_sleeps (snd (transfer_loop pr ops cfg dur (k # xs) e s)) = ws_sleeps s @ ds"
      using b t s1 s2 by (auto simp: bind_act_def ret_def split: outcome.split attempt_result.split)
    then show ?thesis using ds(3) len by blast
  qed
qed

text \<open>
  Whatever the backends do, a transfer sleeps at most \<^verbatim>\<open>max_retries\<close> times, and never
  longer than \<^verbatim>\<open>max_retry_delay_ms\<close>.
\<close>

theorem transfer_delays_bounded:
  "\<exists>ds. ws_sleeps (snd (execute_transfer pr ops cfg dur s)) = ws_sleeps s @ ds
     \<and> length ds \<le> unat (wp_max_retries cfg) \<and> list_all (\<lambda>d. d \<le> max_retry_delay_ms cfg) ds"
proof -
  obtain r s1 where b: "on_rt (log_now (TransferStarted (ws_job s))) s = (r :: (unit, ghost_error) outcome, s1)" by fastforce
  have s1: "ws_sleeps s1 = ws_sleeps s"
    using keepsD [OF keeps_on_rt(1), of "log_now (TransferStarted (ws_job s))" s] b by simp
  have "filter (\<lambda>k. k \<noteq> 0) [0..<Suc n] = [1..<Suc n]" for n :: nat by (induction n) auto
  then have "length (filter (\<lambda>k. k \<noteq> 0) [0..<Suc n]) = n" for n :: nat by simp
  then show ?thesis
    using sleeps_loop [of pr ops cfg dur "[0..<Suc (unat (wp_max_retries cfg))]" None s1] b s1
    by (cases r) (auto simp: execute_transfer_def bind_act_def simp del: upt_Suc)
qed

section \<open>Reports\<close>

lemma errors_rt [errors_rules]: "errors_in P (on_rt (log_now ev))" "errors_in P (on_rt (emit_event x))"
  by (auto simp: errors_in_def on_rt_def log_now_def now_ms_def log_event_def emit_event_def act_defs trace_record_def
      split: prod.splits if_splits list.splits option.splits)

lemma errors_shift [errors_rules]:
  "errors_in P (lift_outcome (shl_pr pr a k))" "errors_in P (lift_outcome (record_attempt pr j))" "errors_in P (on_job v)"
  by (auto simp: errors_in_def act_defs shl_pr_def record_attempt_def on_job_def add_pr_def split: outcome.splits)

lemma errors_backend [errors_rules]:
  "P (TierUnavailable t) \<Longrightarrow> errors_in P m \<Longrightarrow> errors_in P (on_backend t m)"
  by (auto simp: errors_in_def on_backend_def split: prod.splits option.splits) (metis fst_conv)

lemma errors_find [errors_rules]:
  "P e \<Longrightarrow> errors_in P m \<Longrightarrow> errors_in P (\<lambda>s. case fmlookup (ws_backends s) t of None \<Rightarrow> (Err e, s) | Some b \<Rightarrow> m s)"
  by (simp add: errors_in_def split: option.split)

fun transfer_error :: "ghost_error \<Rightarrow> bool" where
  "transfer_error (TierUnavailable t) = True"
| "transfer_error (BackendFailure m) = True"
| "transfer_error (Internal m) = True"
| "transfer_error e = False"

lemma errors_call [errors_rules]: "errors_in transfer_error (backend_call m)"
proof -
  have "transfer_error e" if "map_err (\<lambda>e. BackendFailure (display_backend_error e)) r = Err e" for r :: "('b, backend_error) outcome" and e
    using that by (cases r) auto
  then show ?thesis by (auto simp: errors_in_def backend_call_def split: prod.splits)
qed

lemma errors_read [errors_rules]: "errors_in transfer_error (read_from_backend ops n)"
  unfolding read_from_backend_def by (intro errors_rules)

lemma errors_begin_retry [errors_rules]: "errors_in P (begin_retry pr cfg k)"
  unfolding begin_retry_def backoff_def by (intro errors_rules errors_state [where m = "\<lambda>s. bind_act (lift_outcome (record_attempt pr (ws_job s))) _"])

lemma errors_compress [errors_rules]: "errors_in P (compress_step c d)"
  unfolding compress_step_def [abs_def] Let_def by (rule errors_state, intro errors_rules)

lemma errors_attempt [errors_rules]: "errors_in transfer_error (transfer_attempt ops cfg dur)"
  unfolding transfer_attempt_def [abs_def] Let_def by (rule errors_state, intro errors_rules) simp_all

lemma results_attempt: "results_in (\<lambda>r. \<forall>e. r = RetryWith e \<longrightarrow> transfer_error e) (transfer_attempt ops cfg dur)"
  unfolding transfer_attempt_def [abs_def] Let_def
  by (rule results_state, (rule results_bind results_sum)+) (auto intro: results_bind results_ret)

lemma errors_loop:
  assumes "\<And>x. e = Some x \<Longrightarrow> transfer_error x"
  shows "errors_in transfer_error (transfer_loop pr ops cfg dur xs e)"
  using assms
proof (induction xs arbitrary: e)
  case Nil
  then show ?case by (cases e) (auto intro!: errors_rules)
next
  case (Cons k xs)
  have "errors_in transfer_error (bind_act (transfer_attempt ops cfg dur) (\<lambda>r. case r of Done \<Rightarrow> ret ()
      | RetryWith e \<Rightarrow> transfer_loop pr ops cfg dur xs (Some e)))"
    unfolding errors_in_def
  proof (intro allI impI)
    fix s x
    assume x: "fst (bind_act (transfer_attempt ops cfg dur) (\<lambda>r. case r of Done \<Rightarrow> ret ()
      | RetryWith e \<Rightarrow> transfer_loop pr ops cfg dur xs (Some e)) s) = Err x"
    obtain r s' where t: "transfer_attempt ops cfg dur s = (r, s')" by fastforce
    show "transfer_error x"
    proof (cases r)
      case (Err y)
      then have "x = y" using x t by (simp add: bind_act_def)
      then show ?thesis using errors_attempt [of ops cfg dur] t Err by (auto simp: errors_in_def) (metis fst_conv)
    next
      case (Ok v)
      have v: "transfer_error y" if "v = RetryWith y" for y
        using results_attempt [of ops cfg dur] t Ok that unfolding results_in_def by (metis fst_conv)
      show ?thesis
      proof (cases v)
        case Done
        then show ?thesis using x t Ok by (simp add: bind_act_def ret_def)
      next
        case (RetryWith y)
        then have "fst (transfer_loop pr ops cfg dur xs (Some y) s') = Err x" using x t Ok by (simp add: bind_act_def)
        moreover have "errors_in transfer_error (transfer_loop pr ops cfg dur xs (Some y))"
          by (rule Cons.IH) (use v RetryWith in simp)
        ultimately show ?thesis unfolding errors_in_def by blast
      qed
    qed (use x t in \<open>simp add: bind_act_def\<close>)
  qed
  then show ?case by (auto intro: errors_rules)
qed

lemma errors_execute: "errors_in transfer_error (execute_transfer pr ops cfg dur)"
  unfolding execute_transfer_def
  by (rule errors_bind, rule errors_state, rule errors_rt, rule errors_loop) simp

text \<open>The report a worker sends, and the counters it moves, for a job with the given result.\<close>

definition completion_of :: "transfer_job \<Rightarrow> usize \<Rightarrow> u64 \<Rightarrow> message option \<Rightarrow> worker_completion" where
  "completion_of j wid ts err = \<lparr>wc_chunk_id = job_chunk j, wc_from_tier = from_tier j, wc_to_tier = to_tier j,
     wc_success = (err = None), wc_error = err, wc_worker_id = wid, wc_timestamp = ts\<rparr>"

fun error_text :: "(unit, ghost_error) outcome \<Rightarrow> message option" where
  "error_text (Err e) = Some (display_error e)"
| "error_text _ = None"

definition start_job :: "transfer_job \<Rightarrow> 'b worker_state \<Rightarrow> 'b worker_state" where
  "start_job job s = s\<lparr>active_workers := active_workers s + 1, ws_job := job\<rparr>"

definition view :: "'b worker_state \<Rightarrow> transfer_job \<times> worker_completion list \<times> transfer_metrics \<times> u64 \<times> bool" where
  "view s = (ws_job s, ws_completions s, ws_metrics s, active_workers s, ws_receiver s)"

lemma keeps_view_rt: "keeps view (on_rt m)"
  by (simp add: keeps_def on_rt_def on_part_def view_def split: prod.split)

lemma does_metrics: "does view (\<lambda>(j, c, m, a, rx). (j, c, f m, a, rx)) (on_metrics f)"
  unfolding on_metrics_def by (rule does_update) (simp add: view_def)

definition sent_report :: "usize \<Rightarrow> u64 \<Rightarrow> message option \<Rightarrow> bool \<Rightarrow> transfer_job \<Rightarrow> worker_completion list" where
  "sent_report wid ts err rx j = (if from_tier j \<noteq> to_tier j \<and> rx then [completion_of j wid ts err] else [])"

lemma does_send: "ok = (err = None) \<Longrightarrow> does view (\<lambda>(j, c, m, a, rx). (j, c @ sent_report wid ts err rx j, m, a, rx)) (send_completion wid ts ok err)"
  unfolding send_completion_def by (rule does_update) (simp add: view_def sent_report_def completion_of_def Let_def)

lemma report_success_view:
  assumes "report_success wid ts s = (Ok (), s')"
  shows "view s' = (case view s of (j, c, m, a, rx) \<Rightarrow> (j, c @ sent_report wid ts None rx j, record_completion m, a, rx))"
proof -
  let ?m = "bind_act (on_metrics record_completion) (\<lambda>_.
     bind_act (on_rt (emit_event (EvTransferCompleted 0 (job_chunk (ws_job s)) (from_tier (ws_job s)) (to_tier (ws_job s)) 0))) (\<lambda>_.
     bind_act (if from_tier (ws_job s) \<noteq> to_tier (ws_job s)
               then on_rt (emit_event (EvMigrationCompleted 0 (job_chunk (ws_job s)) (from_tier (ws_job s)) (to_tier (ws_job s)) 0)) else ret ()) (\<lambda>_.
     send_completion wid ts True None)))"
  have "does view (\<lambda>x. (\<lambda>(j, c, m, a, rx). (j, c @ sent_report wid ts None rx j, m, a, rx)) ((\<lambda>(j, c, m, a, rx). (j, c, record_completion m, a, rx)) x)) ?m"
    by (rule does_bind, rule does_metrics, (rule does_bind_keeps, intro keeps_view_rt keeps_if keeps_ret)+, rule does_send) simp
  from doesD [OF this] assms show ?thesis by (simp add: report_success_def Let_def case_prod_beta)
qed

lemma report_failure_view:
  assumes "report_failure wid ts e s = (Ok (), s')"
  shows "view s' = (case view s of (j, c, m, a, rx) \<Rightarrow> (j, c @ sent_report wid ts (Some (display_error e)) rx j, record_job_failure m, a, rx))"
proof -
  let ?j = "ws_job s"
  let ?m = "bind_act (on_metrics record_job_failure) (\<lambda>_.
     bind_act (on_rt (emit_event (EvTransferFailed 0 (job_chunk ?j) (from_tier ?j) (to_tier ?j) (display_error e)))) (\<lambda>_.
     bind_act (on_rt (log_event (TransferFailed (job_chunk ?j) (from_tier ?j) (to_tier ?j) (display_error e) (attempts ?j) ts))) (\<lambda>_.
     send_completion wid ts False (Some (display_error e)))))"
  have "does view (\<lambda>x. (\<lambda>(j, c, m, a, rx). (j, c @ sent_report wid ts (Some (display_error e)) rx j, m, a, rx))
      ((\<lambda>(j, c, m, a, rx). (j, c, record_job_failure m, a, rx)) x)) ?m"
    by (rule does_bind, rule does_metrics, (rule does_bind_keeps, rule keeps_view_rt)+, rule does_send) simp
  from doesD [OF this] assms show ?thesis by (simp add: report_failure_def Let_def case_prod_beta)
qed

text \<open>
  C8: a worker that finishes a job has moved exactly one of the completed and failed counters,
  according to the result of the transfer, has added the job's size to the byte counter and has
  gone back to idle; it has sent exactly one report, carrying the result, when the job crosses
  tiers and the completion channel is open, and none otherwise. (\<^verbatim>\<open>Cancelled\<close> is never the result
  of a transfer.)
\<close>

theorem worker_reports_once:
  assumes "process_job pr ops cfg wid dur job s = (Ok (), s')"
  shows "\<exists>ts j r. r = fst (execute_transfer pr ops cfg dur (start_job job s))
    \<and> (job_chunk j, from_tier j, to_tier j, job_size j) = (job_chunk job, from_tier job, to_tier job, job_size job)
    \<and> ws_completions s' = ws_completions s @ (if from_tier job \<noteq> to_tier job \<and> ws_receiver s then [completion_of j wid ts (error_text r)] else [])
    \<and> ws_metrics s' = record_bytes (job_size job)
         ((if is_ok r then record_completion else record_job_failure) (ws_metrics s))
    \<and> active_workers s' = active_workers s"
proof -
  obtain r s1 where ex: "execute_transfer pr ops cfg dur (start_job job s) = (r, s1)" by fastforce
  have j: "job_id s1 = job_id (start_job job s)" and o: "outputs s1 = outputs (start_job job s)"
    using keepsD [OF keeps_execute(1), of pr ops cfg dur "start_job job s"]
      keepsD [OF keeps_execute(2), of pr ops cfg dur "start_job job s"] ex by simp_all
  have np: "r \<noteq> Panic" using assms ex by (auto simp: process_job_def act_defs catch_act_def start_job_def)
  have nc: "e \<noteq> Cancelled" if "r = Err e" for e
    using errors_execute [of pr ops cfg dur] ex that unfolding errors_in_def by (metis fst_conv transfer_error.simps)
  obtain ts s2 where t: "on_rt now_ms s1 = (Ok ts :: (u64, ghost_error) outcome, s2)"
    by (simp add: on_rt_def now_ms_def act_defs)
  have v2: "view s2 = view s1" using keepsD [OF keeps_view_rt, of now_ms s1] t by simp
  obtain s3 where rep: "(case r of Ok u \<Rightarrow> report_success wid ts | Err e \<Rightarrow> report_failure wid ts e) s2 = (Ok (), s3)"
    and s': "s' = s3\<lparr>ws_metrics := record_bytes (job_size (ws_job s3)) (ws_metrics s3), active_workers := active_workers s3 - 1\<rparr>"
    using assms ex t np nc
    by (cases r) (auto simp: process_job_def act_defs catch_act_def start_job_def on_metrics_def
        split: prod.splits outcome.splits)
  have "view s3 = (case view s2 of (j, c, m, a, rx) \<Rightarrow>
     (j, c @ sent_report wid ts (error_text r) rx j, (if is_ok r then record_completion else record_job_failure) m, a, rx))"
    using rep np report_success_view [of wid ts s2 s3] report_failure_view [of wid ts _ s2 s3] by (cases r) simp_all
  then show ?thesis using s' v2 j o ex
    by (intro exI [of _ ts] exI [of _ "ws_job s1"] exI [of _ r])
       (simp add: view_def outputs_def job_id_def start_job_def sent_report_def)
qed

section \<open>Transfers between healthy backends\<close>

lemma backend_call_Ok [simp]: "m b = (Ok a, b') \<Longrightarrow> backend_call m b = (Ok a, b')"
  by (simp add: backend_call_def)

text \<open>A worker state in which logging cannot panic.\<close>

abbreviation ws_ok :: "'b worker_state \<Rightarrow> bool" where
  "ws_ok s \<equiv> rt_ok (ws_rt s)"

lemma on_rt_log_now:
  assumes "ws_ok s"
  obtains r where "on_rt (log_now ev) s = (Ok (), s\<lparr>ws_rt := r\<rparr>)" "rt_ok r" "log_events (rt_log r) \<noteq> []"
    "last (log_events (rt_log r)) = ev (ms_at (ws_rt s) (ticks (ws_rt s)))"
proof -
  from log_now_ok [OF assms, of ev] obtain r where "log_now ev (ws_rt s) = (Ok (), r)" "rt_ok r"
    "log_events (rt_log r) \<noteq> []" "last (log_events (rt_log r)) = ev (ms_at (ws_rt s) (ticks (ws_rt s)))" by metis
  then show thesis by (intro that [of r]) (simp_all add: on_rt_def on_part_def)
qed

lemma compress_step_ok:
  assumes "ws_ok s"
  obtains r j where "compress_step c d s = (Ok d, s\<lparr>ws_rt := r, ws_job := j\<rparr>)" "rt_ok r"
proof (cases c)
  case True
  let ?s = "s\<lparr>ws_job := transition_state Compressing (ws_job s)\<rparr>"
  let ?j = "ws_job s"
  obtain r1 where 1: "on_rt (log_now (CompressionStarted (job_chunk ?j) (job_size ?j))) ?s = (Ok (), ?s\<lparr>ws_rt := r1\<rparr>)" "rt_ok r1"
    by (rule on_rt_log_now [of ?s]) (use assms in simp)
  obtain r2 where 2: "on_rt (log_now (CompressionCompleted (job_chunk ?j) (job_size ?j) (job_size ?j))) (?s\<lparr>ws_rt := r1\<rparr>)
      = (Ok (), ?s\<lparr>ws_rt := r1\<rparr>\<lparr>ws_rt := r2\<rparr>)" "rt_ok r2"
    by (rule on_rt_log_now [of "?s\<lparr>ws_rt := r1\<rparr>"]) (use 1(2) in simp)
  show thesis
    using that [of "transition_state Compressing ?j" r2] True 1 2
    by (simp add: compress_step_def Let_def act_defs on_job_def)
next
  case False
  then show thesis using that [of "ws_job s" "ws_rt s"] assms by (simp add: compress_step_def act_defs)
qed

context storage_backend
begin

lemma read_from_backend_ok:
  assumes "ready n b"
  obtains b' where "read_from_backend ops n b = (Ok (replicate (unat n) 0), b')" "free_space b' = free_space b"
proof -
  obtain a b1 where a: "op_allocate ops n b = (Ok a, b1)" "alloc_size a = n" "holds a b1" "free_space b1 + unat n = free_space b"
    using allocate_ok [OF assms] by blast
  obtain b2 where w: "op_write ops a (replicate (unat n) 0) b1 = (Ok (), b2)" "holds a b2"
    "content a b2 = Some (replicate (unat n) 0)" "free_space b2 = free_space b1"
    using write_ok [OF a(3), of "replicate (unat n) 0"] a(2) by auto
  obtain br where r: "op_read ops a (replicate (unat n) 0) b2 = (Ok (replicate (unat n) 0), br)" "holds a br" "free_space br = free_space b2"
    using read_ok [OF w(2,3), of "replicate (unat n) 0"] a(2) by auto
  obtain b3 where d: "op_deallocate ops a br = (Ok (), b3)" "free_space b3 = free_space br + unat (alloc_size a)"
    using deallocate_ok [OF r(2)] by blast
  show thesis using that [of b3] a w r d by (simp add: read_from_backend_def act_defs)
qed

lemma write_to_backend_ok:
  assumes "ready n b" "length d = unat n"
  obtains b' where "write_to_backend ops d b = (Ok (), b')" "free_space b' = free_space b"
proof -
  have n: "of_nat (length d) = n" using assms(2) by simp
  obtain a b1 where a: "op_allocate ops n b = (Ok a, b1)" "alloc_size a = n" "holds a b1" "free_space b1 + unat n = free_space b"
    using allocate_ok [OF assms(1)] by blast
  obtain b2 where w: "op_write ops a d b1 = (Ok (), b2)" "holds a b2" "free_space b2 = free_space b1"
    using write_ok [OF a(3), of d] a(2) assms(2) by auto
  obtain b3 where dd: "op_deallocate ops a b2 = (Ok (), b3)" "free_space b3 = free_space b2 + unat (alloc_size a)"
    using deallocate_ok [OF w(2)] by blast
  show thesis using that [of b3] a w dd n by (simp add: write_to_backend_def act_defs)
qed

text \<open>One attempt between two ready backends of different tiers succeeds.\<close>

lemma transfer_attempt_ok:
  assumes "ws_ok s" "from_tier (ws_job s) \<noteq> to_tier (ws_job s)"
    "fmlookup (ws_backends s) (from_tier (ws_job s)) = Some b1" "ready (job_size (ws_job s)) b1"
    "fmlookup (ws_backends s) (to_tier (ws_job s)) = Some b2" "ready (job_size (ws_job s)) b2"
  obtains s' b1' b2' where "transfer_attempt ops cfg dur s = (Ok Done, s')" "job_state (ws_job s') = Complete"
    "ws_sleeps s' = ws_sleeps s"
    "fmlookup (ws_backends s') (from_tier (ws_job s)) = Some b1'" "free_space b1' = free_space b1"
    "fmlookup (ws_backends s') (to_tier (ws_job s)) = Some b2'" "free_space b2' = free_space b2"
    "\<exists>ts. last (log_events (rt_log (ws_rt s'))) = TransferCompleted (job_chunk (ws_job s))
       (from_tier (ws_job s)) (to_tier (ws_job s)) (job_size (ws_job s)) dur ts"
proof -
  let ?j = "ws_job s"
  let ?z = "replicate (unat (job_size ?j)) 0 :: bytes"
  let ?s1 = "s\<lparr>ws_job := transition_state Transferring ?j\<rparr>"
  obtain r1 where l1: "on_rt (log_now (ChunkStateChanged (job_chunk ?j) Stored Migrating)) ?s1 = (Ok (), ?s1\<lparr>ws_rt := r1\<rparr>)" "rt_ok r1"
    by (rule on_rt_log_now [of ?s1]) (use assms(1) in simp)
  obtain b1' where rd: "read_from_backend ops (job_size ?j) b1 = (Ok ?z, b1')" "free_space b1' = free_space b1"
    by (rule read_from_backend_ok [OF assms(4)])
  let ?s2 = "?s1\<lparr>ws_rt := r1, ws_backends := fmupd (from_tier ?j) b1' (ws_backends s)\<rparr>"
  obtain r2 j2 where c: "compress_step (enable_compression cfg \<and> job_size ?j > 0) ?z ?s2 = (Ok ?z, ?s2\<lparr>ws_rt := r2, ws_job := j2\<rparr>)" "rt_ok r2"
    by (rule compress_step_ok [of ?s2]) (use l1(2) in simp)
  obtain b2' where wr: "write_to_backend ops ?z b2 = (Ok (), b2')" "free_space b2' = free_space b2"
    by (rule write_to_backend_ok [OF assms(6), of ?z]) simp
  let ?s3 = "s\<lparr>ws_rt := r2, ws_backends := fmupd (to_tier ?j) b2' (fmupd (from_tier ?j) b1' (ws_backends s)),
      ws_job := transition_state Complete (transition_state Verifying (transition_state Writing j2))\<rparr>"
  obtain r3 where l3: "on_rt (log_now (TransferCompleted (job_chunk ?j) (from_tier ?j) (to_tier ?j) (job_size ?j) dur)) ?s3
      = (Ok (), ?s3\<lparr>ws_rt := r3\<rparr>)" "last (log_events (rt_log r3)) = TransferCompleted (job_chunk ?j) (from_tier ?j) (to_tier ?j) (job_size ?j) dur
         (ms_at (ws_rt ?s3) (ticks (ws_rt ?s3)))"
    by (rule on_rt_log_now [of ?s3]) (use c(2) in simp)
  have "transfer_attempt ops cfg dur s = (Ok Done, ?s3\<lparr>ws_rt := r3\<rparr>)"
    using l1(1) rd(1) c(1) wr(1) l3(1) assms(2,3,5)
    by (simp add: transfer_attempt_def Let_def act_defs on_job_def on_backend_def catch_act_def)
  then show thesis using l3(2) rd(2) wr(2) assms(2)
    by (intro that [of "?s3\<lparr>ws_rt := r3\<rparr>" b1' b2']) (auto simp: transition_state_def)
qed

end

text \<open>
  C10: a transfer between two RAM-backed tiers that both have room for the job completes at the
  first attempt, without sleeping; its last trace event says so, and the free space of both
  backends is what it was (the worker releases what it allocated).
\<close>

theorem transfer_succeeds:
  assumes "ws_ok s" "from_tier (ws_job s) \<noteq> to_tier (ws_job s)"
    "fmlookup (ws_backends s) (from_tier (ws_job s)) = Some b1" "ram_ready (job_size (ws_job s)) b1"
    "fmlookup (ws_backends s) (to_tier (ws_job s)) = Some b2" "ram_ready (job_size (ws_job s)) b2"
  shows "\<exists>s' b1' b2' ts. execute_transfer pr (ram_ops pr) cfg dur s = (Ok (), s')
    \<and> job_state (ws_job s') = Complete \<and> ws_sleeps s' = ws_sleeps s
    \<and> fmlookup (ws_backends s') (from_tier (ws_job s)) = Some b1' \<and> ram_free b1' = ram_free b1
    \<and> fmlookup (ws_backends s') (to_tier (ws_job s)) = Some b2' \<and> ram_free b2' = ram_free b2
    \<and> last (log_events (rt_log (ws_rt s'))) = TransferCompleted (job_chunk (ws_job s))
        (from_tier (ws_job s)) (to_tier (ws_job s)) (job_size (ws_job s)) dur ts"
proof -
  obtain r where l: "on_rt (log_now (TransferStarted (ws_job s))) s = (Ok (), s\<lparr>ws_rt := r\<rparr>)" "rt_ok r"
    by (rule on_rt_log_now [OF assms(1)])
  let ?s = "s\<lparr>ws_rt := r\<rparr>"
  obtain s' b1' b2' where a: "transfer_attempt (ram_ops pr) cfg dur ?s = (Ok Done, s')" "job_state (ws_job s') = Complete"
    "ws_sleeps s' = ws_sleeps ?s"
    "fmlookup (ws_backends s') (from_tier (ws_job ?s)) = Some b1'" "ram_free b1' = ram_free b1"
    "fmlookup (ws_backends s') (to_tier (ws_job ?s)) = Some b2'" "ram_free b2' = ram_free b2"
    "\<exists>ts. last (log_events (rt_log (ws_rt s'))) = TransferCompleted (job_chunk (ws_job ?s))
       (from_tier (ws_job ?s)) (to_tier (ws_job ?s)) (job_size (ws_job ?s)) dur ts"
    by (rule ram.transfer_attempt_ok [of ?s b1 b2 pr cfg dur]) (use assms l(2) in simp_all)
  have "[0..<Suc (unat (wp_max_retries cfg))] = 0 # [1..<Suc (unat (wp_max_retries cfg))]"
    by (simp add: upt_conv_Cons del: upt_Suc)
  then have "execute_transfer pr (ram_ops pr) cfg dur s = (Ok (), s')"
    using l(1) a(1) by (simp add: execute_transfer_def act_defs begin_retry_def del: upt_Suc)
  then show ?thesis using a by auto
qed

section \<open>Exhausted retries\<close>

text \<open>A source that can serve \<open>k\<close> reads, and a target that refuses \<open>n\<close> bytes.\<close>

definition serves :: "nat \<Rightarrow> usize \<Rightarrow> ram_backend \<Rightarrow> bool" where
  "serves k n b \<longleftrightarrow> n \<noteq> 0 \<and> unat (used b) + unat n \<le> unat (ram_capacity b) \<and> unat (next_offset b) + k * unat n < 2 ^ 64"

definition refuses :: "usize \<Rightarrow> ram_backend \<Rightarrow> bool" where
  "refuses n b \<longleftrightarrow> n \<noteq> 0 \<and> used b \<le> ram_capacity b \<and> unat (ram_capacity b) < unat (used b) + unat n
     \<and> unat (used b) + unat n < 2 ^ 64"

definition refusal :: "usize \<Rightarrow> ram_backend \<Rightarrow> ghost_error" where
  "refusal n b = BackendFailure (display_backend_error (InsufficientSpace n (ram_capacity b - used b)))"

lemma serves_read:
  assumes "serves (Suc k) n b"
  obtains b' where "read_from_backend (ram_ops pr) n b = (Ok (replicate (unat n) 0), b')" "serves k n b'"
proof -
  have r: "ram_ready n b" using assms by (auto simp: serves_def ram_ready_def)
  note a = ram_allocate_ok [OF r]
  have "unat (next_offset b + n) = unat (next_offset b) + unat n"
    using r by (simp add: ram_ready_def unat_add_fits)
  moreover have "n \<le> used b + n" using a(2) by (simp add: word_le_nat_alt)
  ultimately show thesis using that [of "b\<lparr>next_offset := next_offset b + n, used := used b + n - n,
      storage := fmdrop (next_offset b) (fmupd (next_offset b) (replicate (unat n) 0) (storage b))\<rparr>"] assms
    by (simp add: read_from_backend_def act_defs ram_ops_def a(1) ram_write_def ram_read_def deallocate_def
        allocation_new_def sub_pr_fits serves_def Let_def)
qed

lemma refuses_write:
  assumes "refuses n b" "length d = unat n"
  shows "write_to_backend (ram_ops pr) d b = (Err (refusal n b), b)"
proof -
  have n: "of_nat (length d) = n" using assms(2) by simp
  have "ram_capacity b < used b + n" using assms(1) by (simp add: refuses_def word_less_nat_alt unat_add_fits)
  then show ?thesis using assms(1)
    by (simp add: write_to_backend_def backend_call_def ram_ops_def n allocate_def act_defs refuses_def add_pr_fits
        sub_pr_fits refusal_def)
qed

text \<open>The situation before an attempt, with room for \<open>k\<close> reads at the source.\<close>

definition blocked :: "nat \<Rightarrow> transfer_job \<Rightarrow> ram_backend \<Rightarrow> ram_backend worker_state \<Rightarrow> bool" where
  "blocked k j b2 s \<longleftrightarrow> ws_ok s \<and> job_id s = (job_chunk j, from_tier j, to_tier j, job_size j) \<and> from_tier j \<noteq> to_tier j
     \<and> (\<exists>b1. fmlookup (ws_backends s) (from_tier j) = Some b1 \<and> serves k (job_size j) b1)
     \<and> fmlookup (ws_backends s) (to_tier j) = Some b2 \<and> refuses (job_size j) b2"

lemma transfer_attempt_refused:
  assumes "blocked (Suc k) j b2 s"
  obtains s' where "transfer_attempt (ram_ops pr) cfg dur s = (Ok (RetryWith (BackendFailure (display_error (refusal (job_size j) b2)))), s')"
    "blocked k j b2 s'" "ws_sleeps s' = ws_sleeps s" "attempts (ws_job s') = attempts (ws_job s)"
proof -
  let ?j = "ws_job s"
  have j: "job_chunk ?j = job_chunk j" "from_tier ?j = from_tier j" "to_tier ?j = to_tier j" "job_size ?j = job_size j"
    using assms by (simp_all add: blocked_def job_id_def)
  have ok: "ws_ok s" and ne: "from_tier j \<noteq> to_tier j" using assms by (simp_all add: blocked_def)
  obtain b1 where b1: "fmlookup (ws_backends s) (from_tier j) = Some b1" "serves (Suc k) (job_size j) b1"
    using assms by (auto simp: blocked_def)
  have b2: "fmlookup (ws_backends s) (to_tier j) = Some b2" "refuses (job_size j) b2" using assms by (simp_all add: blocked_def)
  let ?z = "replicate (unat (job_size j)) 0 :: bytes"
  let ?s1 = "s\<lparr>ws_job := transition_state Transferring ?j\<rparr>"
  obtain r1 where l1: "on_rt (log_now (ChunkStateChanged (job_chunk j) Stored Migrating)) ?s1 = (Ok (), ?s1\<lparr>ws_rt := r1\<rparr>)" "rt_ok r1"
    by (rule on_rt_log_now [of ?s1]) (use ok in simp)
  obtain b1' where rd: "read_from_backend (ram_ops pr) (job_size j) b1 = (Ok ?z, b1')" "serves k (job_size j) b1'"
    by (rule serves_read [OF b1(2)])
  let ?s2 = "?s1\<lparr>ws_rt := r1, ws_backends := fmupd (from_tier j) b1' (ws_backends s)\<rparr>"
  obtain r2 j2 where c: "compress_step (enable_compression cfg \<and> job_size j > 0) ?z ?s2 = (Ok ?z, ?s2\<lparr>ws_rt := r2, ws_job := j2\<rparr>)" "rt_ok r2"
    by (rule compress_step_ok [of ?s2]) (use l1(2) in simp)
  have j2: "job_id (?s2\<lparr>ws_rt := r2, ws_job := j2\<rparr>) = job_id s" "attempts j2 = attempts ?j"
    using keepsD [OF keeps_compress(2), of "enable_compression cfg \<and> job_size j > 0" ?z ?s2] c(1)
      keepsD [OF keeps_compress_attempts, of "enable_compression cfg \<and> job_size j > 0" ?z ?s2]
    by (simp_all add: job_id_def transition_state_def)
  have wr: "write_to_backend (ram_ops pr) ?z b2 = (Err (refusal (job_size j) b2), b2)"
    by (rule refuses_write [OF b2(2)]) simp
  let ?s3 = "s\<lparr>ws_rt := r2, ws_job := transition_state Writing j2,
      ws_backends := fmupd (to_tier j) b2 (fmupd (from_tier j) b1' (ws_backends s))\<rparr>"
  have "transfer_attempt (ram_ops pr) cfg dur s = (Ok (RetryWith (BackendFailure (display_error (refusal (job_size j) b2)))), ?s3)"
    using l1(1) rd(1) c(1) wr b1(1) b2(1) ne
    by (simp add: transfer_attempt_def Let_def act_defs on_job_def on_backend_def catch_act_def j)
  moreover have "blocked k j b2 ?s3"
    using c(2) rd(2) b2 ne j2(1) j by (auto simp: blocked_def job_id_def transition_state_def)
  ultimately show thesis using that [of ?s3] j2(2) by (simp add: transition_state_def)
qed

definition delay_at :: "worker_pool_config \<Rightarrow> nat \<Rightarrow> u64" where
  "delay_at cfg k = min (retry_base_delay_ms cfg * push_bit (k - 1) 1) (max_retry_delay_ms cfg)"

text \<open>The backoff of attempt \<open>k\<close> does not overflow.\<close>

definition backoff_fits :: "worker_pool_config \<Rightarrow> nat \<Rightarrow> bool" where
  "backoff_fits cfg k \<longleftrightarrow> 0 < k \<and> k \<le> 64 \<and> unat (retry_base_delay_ms cfg) * 2 ^ (k - 1) < 2 ^ 64"

lemma backoff_effect:
  assumes "backoff_fits cfg k"
  shows "backoff pr cfg k s = (Ok (), s\<lparr>ws_sleeps := ws_sleeps s @ [delay_at cfg k]\<rparr>)"
proof -
  have "unat (push_bit (k - 1) 1 :: u64) = 2 ^ (k - 1)"
  proof -
    have "k - 1 < 64" using assms by (auto simp: backoff_fits_def)
    then have "unat (of_nat (2 ^ (k - 1)) :: u64) = 2 ^ (k - 1)"
      by (simp add: unsigned_of_nat take_bit_nat_eq_self del: of_nat_power)
    then show ?thesis by (simp add: push_bit_eq_mult)
  qed
  moreover have "(k - 1) mod 64 = k - 1" "k - 1 < 64" using assms by (auto simp: backoff_fits_def)
  ultimately show ?thesis using assms
    by (simp add: backoff_def act_defs shl_pr_def mul_pr_def checked_def backoff_fits_def delay_at_def)
qed

lemma begin_retry_blocked:
  assumes b: "blocked n j b2 s" and k: "backoff_fits cfg k" and a: "unat (attempts (ws_job s)) < 2 ^ 32 - 1"
  obtains s' where "begin_retry pr cfg k s = (Ok (), s')" "blocked n j b2 s'" "ws_sleeps s' = ws_sleeps s @ [delay_at cfg k]"
    "unat (attempts (ws_job s')) = Suc (unat (attempts (ws_job s)))"
proof -
  have fit: "unat (attempts (ws_job s)) + unat (1 :: u32) < 2 ^ 32" using a by simp
  have u: "unat (attempts (ws_job s) + 1) = Suc (unat (attempts (ws_job s)))" using unat_add_fits [of "attempts (ws_job s)" 1] fit by simp
  let ?j = "ws_job s\<lparr>attempts := attempts (ws_job s) + 1\<rparr>"
  have ra: "record_attempt pr (ws_job s) = Ok ?j" for pr
    using fit by (simp add: record_attempt_def add_pr_fits)
  let ?s1 = "s\<lparr>ws_job := ?j\<rparr>"
  obtain r1 where e: "emit_event (EvRetryAttempted 0 (job_chunk ?j) (of_nat k) (wp_max_retries cfg)) (ws_rt s) = (Ok (), r1)" "rt_ok r1"
    using emit_event_ok b by (metis blocked_def)
  obtain r2 where l: "on_rt (log_now (TransferRetry (job_chunk ?j) (from_tier ?j) (to_tier ?j) (of_nat k))) (?s1\<lparr>ws_rt := r1\<rparr>)
      = (Ok (), ?s1\<lparr>ws_rt := r1\<rparr>\<lparr>ws_rt := r2\<rparr>)" "rt_ok r2"
    by (rule on_rt_log_now [of "?s1\<lparr>ws_rt := r1\<rparr>"]) (use e(2) in simp)
  have e': "on_rt (emit_event (EvRetryAttempted 0 (job_chunk ?j) (of_nat k) (wp_max_retries cfg))) ?s1 = (Ok (), ?s1\<lparr>ws_rt := r1\<rparr>)"
    using e(1) by (simp add: on_rt_def on_part_def)
  let ?s2 = "s\<lparr>ws_job := ?j, ws_rt := r2, ws_sleeps := ws_sleeps s @ [delay_at cfg k]\<rparr>"
  have "begin_retry pr cfg k s = (Ok (), ?s2)"
    using k l(1) e' unfolding backoff_fits_def
    by (simp add: begin_retry_def act_defs ra on_job_def backoff_effect [OF k])
  moreover have "blocked n j b2 ?s2" using b l(2) by (simp add: blocked_def job_id_def)
  ultimately show thesis using that [of ?s2] u by simp
qed

lemma transfer_loop_refused:
  assumes "blocked (length xs) j b2 s" "\<And>k. k \<in> set xs \<Longrightarrow> backoff_fits cfg k"
    "unat (attempts (ws_job s)) + length xs < 2 ^ 32" "err = BackendFailure (display_error (refusal (job_size j) b2))"
  shows "\<exists>s'. transfer_loop pr (ram_ops pr) cfg dur xs (Some err) s = (Err err, s') \<and> job_state (ws_job s') = TransferFailedState
    \<and> ws_sleeps s' = ws_sleeps s @ map (delay_at cfg) xs
    \<and> unat (attempts (ws_job s')) = unat (attempts (ws_job s)) + length xs"
  using assms
proof (induction xs arbitrary: s)
  case Nil
  then show ?case by (simp add: act_defs on_job_def transition_state_def)
next
  case (Cons k xs)
  have "backoff_fits cfg k" "unat (attempts (ws_job s)) < 2 ^ 32 - 1" using Cons.prems(2,3) by simp_all
  from begin_retry_blocked [OF Cons.prems(1) this, of pr] obtain s1 where
    s1: "begin_retry pr cfg k s = (Ok (), s1)" "blocked (Suc (length xs)) j b2 s1" "ws_sleeps s1 = ws_sleeps s @ [delay_at cfg k]"
      "unat (attempts (ws_job s1)) = Suc (unat (attempts (ws_job s)))" by auto
  from transfer_attempt_refused [OF s1(2), of pr cfg dur] obtain s2 where
    s2: "transfer_attempt (ram_ops pr) cfg dur s1 = (Ok (RetryWith err), s2)" "blocked (length xs) j b2 s2"
      "ws_sleeps s2 = ws_sleeps s1" "attempts (ws_job s2) = attempts (ws_job s1)" using Cons.prems(4) by metis
  from Cons.IH [OF s2(2)] Cons.prems(2-4) s1 s2 show ?case by (auto simp: bind_act_def)
qed


section \<open>Instances\<close>

definition demo_worker :: "(tier_id, 'b) btree \<Rightarrow> 'b worker_state" where
  "demo_worker bs = \<lparr>ws_rt = \<lparr>ms_at = (\<lambda>n. 7), secs_at = (\<lambda>n. 1), room_at = (\<lambda>n. True), ticks = 0, rt_log = trace_log_new 10, rt_emitter = None\<rparr>,
     ws_backends = bs, ws_job = transfer_job_new 0 0 (ChunkId [1]) Ram Disk 4 Normal, ws_sleeps = [], ws_metrics = metrics_new,
     active_workers = 0, ws_completions = [], ws_receiver = True\<rparr>"

lemma demo_worker_ok: "ws_ok (demo_worker bs)"
  by (simp add: demo_worker_def rt_ok_def log_inv_def trace_log_new_def)

lemma demo_worker_simps [simp]:
  "from_tier (ws_job (demo_worker bs)) = Ram" "to_tier (ws_job (demo_worker bs)) = Disk" "job_size (ws_job (demo_worker bs)) = 4"
  "attempts (ws_job (demo_worker bs)) = 0" "ws_sleeps (demo_worker bs) = []" "ws_backends (demo_worker bs) = bs"
  by (simp_all add: demo_worker_def transfer_job_new_def)

lemmas demo_defs = demo_worker_def transfer_job_new_def worker_pool_config_default_def

theorem transfer_succeeds_witness:
  "\<exists>s'. execute_transfer Debug (ram_ops Debug) worker_pool_config_default 3
     (demo_worker (fmupd Ram (ram_new 100) (fmupd Disk (ram_new 100) fmempty))) = (Ok (), s')
   \<and> job_state (ws_job s') = Complete"
proof -
  let ?s = "demo_worker (fmupd Ram (ram_new 100) (fmupd Disk (ram_new 100) fmempty))"
  show ?thesis
    using transfer_succeeds [OF demo_worker_ok, of "fmupd Ram (ram_new 100) (fmupd Disk (ram_new 100) fmempty)"
        "ram_new 100" "ram_new 100" Debug worker_pool_config_default 3]
    by (auto simp: ram_ready_def ram_new_def)
qed


theorem worker_reports_once_witness:
  "\<exists>s'. process_job Debug (ram_ops Debug) worker_pool_config_default 1 3 (ws_job (demo_worker (fmempty :: (tier_id, ram_backend) btree)))
      (demo_worker fmempty) = (Ok (), s')
    \<and> length (ws_completions s') = 1 \<and> active_workers s' = 0"
proof -
  let ?s = "demo_worker (fmempty :: (tier_id, ram_backend) btree)"
  let ?r = "process_job Debug (ram_ops Debug) worker_pool_config_default 1 3 (ws_job ?s) ?s"
  have l: "[0..<Suc (unat (wp_max_retries worker_pool_config_default))] = 0 # [1, 2, 3]"
    by (simp add: demo_defs upt_rec)
  have "fst ?r = Ok ()"
    by (simp add: process_job_def execute_transfer_def l act_defs on_rt_def log_now_def now_ms_def log_event_def
        trace_record_def begin_retry_def transfer_attempt_def on_job_def on_backend_def catch_act_def tick_def
        report_failure_def on_metrics_def emit_event_def send_completion_def Let_def transition_state_def
        demo_worker_def trace_log_new_def transfer_job_new_def
        del: upt_Suc)
  then obtain s' where s': "?r = (Ok (), s')" by (cases ?r) auto
  from worker_reports_once [OF s'] show ?thesis using s' by (auto simp: demo_defs)
qed

end
