(* ===== verification/Backpressure.thy ===== *)
theory Backpressure
  imports Runtime Pressure_Model
begin

text \<open>
  \<^verbatim>\<open>ghost-daemon/src/backpressure.rs\<close>: the controller that turns pressure readings into an admission
  decision. \<open>now\<close> is \<^verbatim>\<open>Instant::now()\<close> in nanoseconds and \<open>bp_io\<close> the reading of the disk queue
  depth and rolling latency, when I/O metrics are attached. \<open>decide\<close> is the decision part of
  \<^verbatim>\<open>evaluate\<close>; the theory relates it to the most restrictive of the signals. An evaluation that
  never returns is the value \<open>None\<close>: the guard of the scrutinee \<^verbatim>\<open>*self.pressure_since.lock()\<close> lives
  until the end of the \<^verbatim>\<open>if let\<close> (edition 2021), so clearing the cooldown inside it locks the
  \<^verbatim>\<open>std::sync::Mutex\<close> a second time on the same thread and blocks for ever.
\<close>

section \<open>Actions\<close>

datatype backpressure_action = Allow | Throttle | Reject | CriticalOnly

fun allows :: "backpressure_action \<Rightarrow> transfer_priority \<Rightarrow> bool" where
  "allows Allow p = True"
| "allows Throttle p = (p = Critical \<or> p = High)"
| "allows Reject p = (p = Critical)"
| "allows CriticalOnly p = (p = Critical)"

fun display_action :: "backpressure_action \<Rightarrow> string" where
  "display_action Allow = ''allow''"
| "display_action Throttle = ''throttle''"
| "display_action Reject = ''reject''"
| "display_action CriticalOnly = ''critical-only''"

text \<open>\<^verbatim>\<open>action as u8\<close>, the discriminant, which is also the byte stored in the atomic.\<close>

fun action_byte :: "backpressure_action \<Rightarrow> u8" where
  "action_byte Allow = 0"
| "action_byte Throttle = 1"
| "action_byte Reject = 2"
| "action_byte CriticalOnly = 3"

record backpressure_config =
  throttle_threshold :: f32
  reject_threshold :: f32
  critical_threshold :: f32
  evaluation_interval_ms :: u64
  bp_enabled :: bool
  cooldown_secs :: u64
  io_pressure_soft_limit :: f32
  io_pressure_hard_limit :: f32
  queue_depth_threshold :: u32
  disk_queue_soft_limit :: u32
  disk_queue_hard_limit :: u32
  disk_latency_threshold_us :: u64

definition backpressure_config_default :: backpressure_config where
  "backpressure_config_default = \<lparr>throttle_threshold = f32_lit (7 / 10), reject_threshold = f32_lit (85 / 100),
     critical_threshold = f32_lit (95 / 100), evaluation_interval_ms = 1000, bp_enabled = True, cooldown_secs = 10,
     io_pressure_soft_limit = f32_lit (6 / 10), io_pressure_hard_limit = f32_lit (85 / 100), queue_depth_threshold = 32,
     disk_queue_soft_limit = 64, disk_queue_hard_limit = 128, disk_latency_threshold_us = 5000000\<rparr>"

record backpressure_stats =
  evaluations :: u64
  allow_count :: u64
  throttle_count :: u64
  reject_count :: u64
  critical_only_count :: u64
  transfers_rejected :: u64
  transfers_throttled :: u64
  last_action_change :: u64
  consecutive_same_action :: u64
  disk_congestion_escalations :: u64

definition stats_default :: backpressure_stats where
  "stats_default = \<lparr>evaluations = 0, allow_count = 0, throttle_count = 0, reject_count = 0, critical_only_count = 0,
     transfers_rejected = 0, transfers_throttled = 0, last_action_change = 0, consecutive_same_action = 0,
     disk_congestion_escalations = 0\<rparr>"

record backpressure_controller =
  bp_config :: backpressure_config
  bp_rt :: runtime
  current_byte :: u8
  bp_stats :: backpressure_stats
  last_evaluation :: instant
  pressure_since :: "instant option"
  bp_io :: "(u64 \<times> u64) option"

definition backpressure_new :: "backpressure_config \<Rightarrow> runtime \<Rightarrow> instant \<Rightarrow> backpressure_controller" where
  "backpressure_new cfg rt now = \<lparr>bp_config = cfg, bp_rt = rt, current_byte = 0, bp_stats = stats_default,
     last_evaluation = now, pressure_since = None, bp_io = None\<rparr>"

section \<open>The decision\<close>

definition evaluate_disk_congestion :: "backpressure_controller \<Rightarrow> backpressure_action option" where
  "evaluate_disk_congestion b = (case bp_io b of
       None \<Rightarrow> None
     | Some (depth, latency) \<Rightarrow>
         if depth \<ge> ucast (disk_queue_hard_limit (bp_config b)) then Some Reject
         else if depth \<ge> ucast (disk_queue_soft_limit (bp_config b)) \<or> latency \<ge> disk_latency_threshold_us (bp_config b)
         then Some Throttle else None)"

text \<open>The product \<^verbatim>\<open>queue_depth_threshold * 2\<close> is computed only when the first test fails.\<close>

definition io_escalation :: "profile \<Rightarrow> backpressure_config \<Rightarrow> pressure_state \<Rightarrow> (backpressure_action option, ghost_error) outcome" where
  "io_escalation pr c p =
     (let soft = (if fge (io_pressure p) (io_pressure_soft_limit c) \<or> queue_depth p > queue_depth_threshold c
                  then Some Throttle else None)
      in if fge (io_pressure p) (io_pressure_hard_limit c) then Ok (Some Reject)
         else (case mul_pr pr (queue_depth_threshold c) 2 of
                 Ok twice \<Rightarrow> Ok (if queue_depth p > twice then Some Reject else soft)
               | Err e \<Rightarrow> Err e | Panic \<Rightarrow> Panic))"

definition more_restrictive :: "backpressure_action \<Rightarrow> backpressure_action \<Rightarrow> backpressure_action" where
  "more_restrictive a b = (if action_byte a > action_byte b then a else b)"

definition combine :: "backpressure_action option \<Rightarrow> backpressure_action option \<Rightarrow> backpressure_action option" where
  "combine d i = (case (d, i) of
       (Some disk, Some io) \<Rightarrow> Some (if action_byte disk > action_byte io then disk else io)
     | (Some disk, None) \<Rightarrow> Some disk
     | (None, Some io) \<Rightarrow> Some io
     | (None, None) \<Rightarrow> None)"

definition overall_action :: "backpressure_config \<Rightarrow> f32 \<Rightarrow> backpressure_action" where
  "overall_action c m = (if fge m (critical_threshold c) then CriticalOnly
     else if fge m (reject_threshold c) then Reject
     else if fge m (throttle_threshold c) then Throttle else Allow)"

text \<open>
  The decision. With an expired cooldown it blocks on its own lock: the branch that would clear
  \<open>pressure_since\<close> and allow is never completed.
\<close>

definition decide :: "backpressure_config \<Rightarrow> backpressure_action option \<Rightarrow> f32 \<Rightarrow> instant \<Rightarrow> instant option
    \<Rightarrow> backpressure_action option" where
  "decide c combined m now since = (case combined of
       Some io \<Rightarrow> Some (if action_byte io > action_byte (overall_action c m) then io else overall_action c m)
     | None \<Rightarrow> (if fge m (critical_threshold c) then Some CriticalOnly
               else if fge m (reject_threshold c) then Some Reject
               else if fge m (throttle_threshold c) then Some Throttle
               else (case since of
                       Some start \<Rightarrow> (if now - start < unat (cooldown_secs c) * 10 ^ 9 then Some Throttle else None)
                     | None \<Rightarrow> Some Allow)))"

section \<open>Evaluation\<close>

type_synonym 'a bp = "(backpressure_controller, 'a, ghost_error) act"

definition on_bp_rt :: "'a rt \<Rightarrow> 'a bp" where
  "on_bp_rt m = on_part bp_rt (\<lambda>r b. b\<lparr>bp_rt := r\<rparr>) m"

definition bump :: "profile \<Rightarrow> (backpressure_stats \<Rightarrow> u64) \<Rightarrow> (u64 \<Rightarrow> backpressure_stats \<Rightarrow> backpressure_stats) \<Rightarrow> unit bp" where
  "bump pr get put b = bind_act (lift_outcome (add_pr pr (get (bp_stats b)) 1))
     (\<lambda>v. update_act (\<lambda>b. b\<lparr>bp_stats := put v (bp_stats b)\<rparr>)) b"

definition count_action :: "profile \<Rightarrow> backpressure_action \<Rightarrow> unit bp" where
  "count_action pr a = (case a of
       Allow \<Rightarrow> bump pr allow_count (\<lambda>v s. s\<lparr>allow_count := v\<rparr>)
     | Throttle \<Rightarrow> bump pr throttle_count (\<lambda>v s. s\<lparr>throttle_count := v\<rparr>)
     | Reject \<Rightarrow> bump pr reject_count (\<lambda>v s. s\<lparr>reject_count := v\<rparr>)
     | CriticalOnly \<Rightarrow> bump pr critical_only_count (\<lambda>v s. s\<lparr>critical_only_count := v\<rparr>))"

definition update_stats :: "profile \<Rightarrow> backpressure_action \<Rightarrow> bool \<Rightarrow> backpressure_action option \<Rightarrow> unit bp" where
  "update_stats pr a changed disk =
     bind_act (bump pr evaluations (\<lambda>v s. s\<lparr>evaluations := v\<rparr>)) (\<lambda>_.
     bind_act (count_action pr a) (\<lambda>_.
     bind_act (if changed
               then bind_act (on_bp_rt now_ms) (\<lambda>ts. update_act (\<lambda>b. b\<lparr>bp_stats := (bp_stats b)
                      \<lparr>last_action_change := ts, consecutive_same_action := 0\<rparr>\<rparr>))
               else bump pr consecutive_same_action (\<lambda>v s. s\<lparr>consecutive_same_action := v\<rparr>)) (\<lambda>_.
     (case disk of
        Some d \<Rightarrow> if action_byte d > action_byte Allow
                  then bump pr disk_congestion_escalations (\<lambda>v s. s\<lparr>disk_congestion_escalations := v\<rparr>) else ret ()
      | None \<Rightarrow> ret ()))))"

definition announce_action :: "backpressure_action \<Rightarrow> u8 \<Rightarrow> pressure_state \<Rightarrow> unit bp" where
  "announce_action a prev p =
     (if prev \<noteq> action_byte a
      then bind_act (on_bp_rt (log_now (PressureEscalated (memory_pressure p) (vram_pressure p) (io_pressure p)))) (\<lambda>_.
           on_bp_rt (emit_event (EvBackpressureActivated 0 Ram
             [Lit (case a of Throttle \<Rightarrow> ''throttle'' | Reject \<Rightarrow> ''reject'' | CriticalOnly \<Rightarrow> ''critical-only'' | _ \<Rightarrow> ''allow'')])))
      else if a = Allow \<and> prev \<noteq> 0 then on_bp_rt (emit_event (EvBackpressureDeactivated 0 Ram))
      else ret ())"

text \<open>What follows the decision.\<close>

definition apply_decision :: "profile \<Rightarrow> instant \<Rightarrow> pressure_state \<Rightarrow> backpressure_action option \<Rightarrow> backpressure_action \<Rightarrow> backpressure_action bp" where
  "apply_decision pr now p disk a b =
     (let since' = (if a \<noteq> Allow \<and> pressure_since b = None then Some now else pressure_since b);
          prev = current_byte b
       in bind_act (update_act (\<lambda>b. b\<lparr>pressure_since := since', current_byte := action_byte a\<rparr>)) (\<lambda>_.
          bind_act (update_stats pr a (prev \<noteq> action_byte a) disk) (\<lambda>_.
          bind_act (announce_action a prev p) (\<lambda>_.
          bind_act (update_act (\<lambda>b. b\<lparr>last_evaluation := now\<rparr>)) (\<lambda>_. ret a)))) b)"

definition evaluate :: "profile \<Rightarrow> instant \<Rightarrow> pressure_state \<Rightarrow> backpressure_controller
    \<Rightarrow> (backpressure_action ghost_result \<times> backpressure_controller) option" where
  "evaluate pr now p b =
     (let disk = evaluate_disk_congestion b in
      case io_escalation pr (bp_config b) p of
        Err e \<Rightarrow> Some (Err e, b)
      | Panic \<Rightarrow> Some (Panic, b)
      | Ok io \<Rightarrow> map_option (\<lambda>a. apply_decision pr now p disk a b)
                  (decide (bp_config b) (combine disk io) (max_pressure p) now (pressure_since b)))"

definition current_action :: "backpressure_controller \<Rightarrow> backpressure_action" where
  "current_action b = (if current_byte b = 0 then Allow else if current_byte b = 1 then Throttle
     else if current_byte b = 2 then Reject else if current_byte b = 3 then CriticalOnly else Allow)"

definition should_allow :: "profile \<Rightarrow> transfer_priority \<Rightarrow> bool bp" where
  "should_allow pr p b = (if allows (current_action b) p then (Ok True, b)
     else bind_act (bump pr transfers_rejected (\<lambda>v s. s\<lparr>transfers_rejected := v\<rparr>)) (\<lambda>_. ret False) b)"

section \<open>The most restrictive signal wins\<close>

lemma action_byte_inj [simp]: "action_byte a = action_byte b \<longleftrightarrow> a = b"
  by (cases a; cases b) simp_all

text \<open>The rank of an action, and the reference decision: the maximum over the signals present.\<close>

fun rank :: "backpressure_action \<Rightarrow> nat" where
  "rank Allow = 0"
| "rank Throttle = 1"
| "rank Reject = 2"
| "rank CriticalOnly = 3"

lemma rank_less: "action_byte a < action_byte b \<longleftrightarrow> rank a < rank b"
  by (cases a; cases b) (simp_all add: word_less_nat_alt)

lemma rank_inj [simp]: "rank a = rank b \<longleftrightarrow> a = b"
  by (cases a; cases b) simp_all

definition in_cooldown :: "backpressure_config \<Rightarrow> instant \<Rightarrow> instant option \<Rightarrow> bool" where
  "in_cooldown c now since = (case since of None \<Rightarrow> False | Some start \<Rightarrow> now - start < unat (cooldown_secs c) * 10 ^ 9)"

definition signals :: "backpressure_action option \<Rightarrow> backpressure_action option \<Rightarrow> backpressure_action \<Rightarrow> bool \<Rightarrow> nat set" where
  "signals disk io overall cooling =
     {rank overall} \<union> rank ` set_option disk \<union> rank ` set_option io
     \<union> (if cooling \<and> disk = None \<and> io = None \<and> overall = Allow then {1} else {})"

text \<open>No signal asks for anything and a cooldown was started but is over.\<close>

definition cooled_down :: "backpressure_config \<Rightarrow> backpressure_action option \<Rightarrow> backpressure_action option \<Rightarrow> backpressure_action
    \<Rightarrow> instant \<Rightarrow> instant option \<Rightarrow> bool" where
  "cooled_down c disk io overall now since \<longleftrightarrow>
     disk = None \<and> io = None \<and> overall = Allow \<and> since \<noteq> None \<and> \<not> in_cooldown c now since"

lemma decide_blocks_iff: "decide c (combine disk io) m now since = None \<longleftrightarrow> cooled_down c disk io (overall_action c m) now since"
  by (cases disk; cases io; cases since) (auto simp: decide_def combine_def cooled_down_def overall_action_def in_cooldown_def)

lemma rank_decide:
  assumes "decide c (combine disk io) m now since = Some a"
  shows "rank a = Max (signals disk io (overall_action c m) (in_cooldown c now since))"
proof -
  have mx: "rank (if action_byte a > action_byte b then a else b) = max (rank a) (rank b)" for a b
    by (simp add: rank_less max_def)
  show ?thesis using assms
    by (cases disk; cases io; cases since)
       (auto simp: decide_def combine_def signals_def overall_action_def in_cooldown_def mx rank_less max_def
         simp del: action_byte.simps split: if_splits)
qed

section \<open>Evaluation returns and announces\<close>

text \<open>Counters and thresholds that do not overflow (they may in the release profile, where they wrap).\<close>

definition stats_room :: "profile \<Rightarrow> backpressure_controller \<Rightarrow> bool" where
  "stats_room pr b \<longleftrightarrow> pr = Release \<or> (unat (queue_depth_threshold (bp_config b)) * 2 < 2 ^ 32
     \<and> list_all (\<lambda>get. unat (get (bp_stats b)) < 2 ^ 64 - 1)
         [evaluations, allow_count, throttle_count, reject_count, critical_only_count, consecutive_same_action,
          disk_congestion_escalations])"

definition sent_events :: "runtime \<Rightarrow> event list" where
  "sent_events r = (case rt_emitter r of Some em \<Rightarrow> map rec_event (sent em) | None \<Rightarrow> [])"

definition listening :: "runtime \<Rightarrow> bool" where
  "listening r \<longleftrightarrow> rt_emitter r \<noteq> None \<and> room_at r = (\<lambda>_. True)"

text \<open>The parts of the controller the bookkeeping does not touch.\<close>

definition core :: "backpressure_controller \<Rightarrow> u8 \<times> instant option \<times> backpressure_config \<times> event list \<times> bool" where
  "core b = (current_byte b, pressure_since b, bp_config b, sent_events (bp_rt b), listening (bp_rt b))"

lemma bump_ok:
  assumes "pr = Release \<or> unat (get (bp_stats b)) < 2 ^ 64 - 1"
  shows "bump pr get put b = (Ok (), b\<lparr>bp_stats := put (get (bp_stats b) + 1) (bp_stats b)\<rparr>)"
  using assms by (auto simp: bump_def act_defs add_pr_def checked_def)

lemma update_stats_ok:
  assumes "stats_room pr b" "rt_ok (bp_rt b)"
  obtains b' where "update_stats pr a ch disk b = (Ok (), b')" "core b' = core b" "rt_ok (bp_rt b')"
proof -
  have room: "pr = Release \<or> unat (get (bp_stats b)) < 2 ^ 64 - 1"
    if "get \<in> {evaluations, allow_count, throttle_count, reject_count, critical_only_count, consecutive_same_action,
          disk_congestion_escalations}" for get
    using assms(1) that by (auto simp: stats_room_def)
  let ?b1 = "b\<lparr>bp_stats := (bp_stats b)\<lparr>evaluations := evaluations (bp_stats b) + 1\<rparr>\<rparr>"
  have 1: "bump pr evaluations (\<lambda>v s. s\<lparr>evaluations := v\<rparr>) b = (Ok (), ?b1)" by (rule bump_ok) (rule room, simp)
  obtain s2 where 2: "count_action pr a ?b1 = (Ok (), b\<lparr>bp_stats := s2\<rparr>)"
    "consecutive_same_action s2 = consecutive_same_action (bp_stats b)"
    "disk_congestion_escalations s2 = disk_congestion_escalations (bp_stats b)"
    using room [of allow_count] room [of throttle_count] room [of reject_count] room [of critical_only_count]
    by (cases a) (simp_all add: count_action_def bump_ok)
  let ?b2 = "b\<lparr>bp_stats := s2\<rparr>"
  obtain s3 r3 where 3: "(if ch
               then bind_act (on_bp_rt now_ms) (\<lambda>ts. update_act (\<lambda>b. b\<lparr>bp_stats := (bp_stats b)
                      \<lparr>last_action_change := ts, consecutive_same_action := 0\<rparr>\<rparr>))
               else bump pr consecutive_same_action (\<lambda>v s. s\<lparr>consecutive_same_action := v\<rparr>)) ?b2 = (Ok (), b\<lparr>bp_stats := s3, bp_rt := r3\<rparr>)"
    "disk_congestion_escalations s3 = disk_congestion_escalations (bp_stats b)" "r3 = bp_rt b \<or> r3 = tick (bp_rt b)"
  proof (cases ch)
    case True
    then show thesis using that [of "tick (bp_rt b)" "s2\<lparr>last_action_change := ms_at (bp_rt b) (ticks (bp_rt b)), consecutive_same_action := 0\<rparr>"] 2(3)
      by (simp add: act_defs on_bp_rt_def now_ms_def)
  next
    case False
    then show thesis using that [of "bp_rt b" "s2\<lparr>consecutive_same_action := consecutive_same_action s2 + 1\<rparr>"] 2(2,3)
        room [of consecutive_same_action] by (simp add: bump_ok)
  qed
  let ?b3 = "b\<lparr>bp_stats := s3, bp_rt := r3\<rparr>"
  have c3: "core ?b3 = core b" "rt_ok r3" using 3(3) assms(2)
    by (auto simp: core_def tick_def sent_events_def listening_def rt_ok_def)
  show thesis
  proof (cases "disk = None \<or> disk = Some Allow")
    case True
    then show thesis using that [of ?b3] 1 2(1) 3(1) c3 by (auto simp: update_stats_def bind_act_def ret_def)
  next
    case False
    then obtain d where d: "disk = Some d" "action_byte d > action_byte Allow"
      by (cases disk; cases "the disk") (auto simp: word_less_nat_alt)
    have "bump pr disk_congestion_escalations (\<lambda>v s. s\<lparr>disk_congestion_escalations := v\<rparr>) ?b3
        = (Ok (), ?b3\<lparr>bp_stats := s3\<lparr>disk_congestion_escalations := disk_congestion_escalations s3 + 1\<rparr>\<rparr>)"
      using bump_ok [of pr disk_congestion_escalations ?b3 "\<lambda>v s. s\<lparr>disk_congestion_escalations := v\<rparr>"]
        room [of disk_congestion_escalations] 3(2) by simp
    then show thesis
      using that [of "?b3\<lparr>bp_stats := s3\<lparr>disk_congestion_escalations := disk_congestion_escalations s3 + 1\<rparr>\<rparr>"] 1 2(1) 3(1) c3 d
      by (simp add: update_stats_def bind_act_def core_def del: action_byte.simps)
  qed
qed

lemma announce_action_ok:
  assumes "rt_ok (bp_rt b)"
  obtains b' where "announce_action a prev p b = (Ok (), b')" "current_byte b' = current_byte b"
    "pressure_since b' = pressure_since b"
    "listening (bp_rt b) \<Longrightarrow> sent_events (bp_rt b') = sent_events (bp_rt b) @
       (if prev \<noteq> action_byte a then [EvBackpressureActivated 0 Ram [Lit (display_action a)]] else [])"
proof (cases "prev \<noteq> action_byte a")
  case True
  obtain r1 where l: "log_now (PressureEscalated (memory_pressure p) (vram_pressure p) (io_pressure p)) (bp_rt b) = (Ok (), r1)"
    "rt_emitter r1 = rt_emitter (bp_rt b)"
    by (rule log_now_ok [OF assms])
  have rm: "room_at r1 = room_at (bp_rt b)"
    using l(1) by (auto simp: log_now_def now_ms_def log_event_def act_defs tick_def split: prod.splits outcome.splits)
  let ?ev = "EvBackpressureActivated 0 Ram [Lit (display_action a)]"
  have lit: "(case a of Throttle \<Rightarrow> ''throttle'' | Reject \<Rightarrow> ''reject'' | CriticalOnly \<Rightarrow> ''critical-only'' | _ \<Rightarrow> ''allow'') = display_action a"
    by (cases a) simp_all
  have ok: "fst (emit_event ?ev r1) = Ok ()" by (auto simp: emit_event_def split: option.split)
  have an: "announce_action a prev p b = (Ok (), b\<lparr>bp_rt := snd (emit_event ?ev r1)\<rparr>)"
    using True l(1) ok unfolding announce_action_def lit
    by (cases "emit_event ?ev r1") (simp add: act_defs on_bp_rt_def)
  show thesis
    by (rule that [OF an]) (use l(2) rm True in \<open>auto simp: emit_event_def sent_events_def listening_def sent_try_emit tick_def\<close>)
next
  case False
  then have "announce_action a prev p b = (Ok (), b)"
    by (cases a) (simp_all add: announce_action_def ret_def)
  then show thesis using that [of b] False by simp
qed

lemma io_escalation_ok: "stats_room pr b \<Longrightarrow> \<exists>io. io_escalation pr (bp_config b) p = Ok io"
  by (auto simp: io_escalation_def Let_def mul_pr_def checked_def stats_room_def)

lemma apply_decision_ok:
  assumes "rt_ok (bp_rt b)" "stats_room pr b"
  obtains b' where "apply_decision pr now p disk a b = (Ok a, b')" "current_byte b' = action_byte a"
    "listening (bp_rt b) \<Longrightarrow> sent_events (bp_rt b') = sent_events (bp_rt b) @
       (if current_byte b \<noteq> action_byte a then [EvBackpressureActivated 0 Ram [Lit (display_action a)]] else [])"
    "pressure_since b' = (if a \<noteq> Allow \<and> pressure_since b = None then Some now else pressure_since b)"
proof -
  define since' where "since' = (if a \<noteq> Allow \<and> pressure_since b = None then Some now else pressure_since b)"
  let ?b1 = "b\<lparr>pressure_since := since', current_byte := action_byte a\<rparr>"
  obtain b2 where 2: "update_stats pr a (current_byte b \<noteq> action_byte a) disk ?b1 = (Ok (), b2)" "core b2 = core ?b1" "rt_ok (bp_rt b2)"
    by (rule update_stats_ok [of pr ?b1]) (use assms in \<open>simp_all add: stats_room_def\<close>)
  obtain b3 where 3: "announce_action a (current_byte b) p b2 = (Ok (), b3)" "current_byte b3 = current_byte b2"
    "pressure_since b3 = pressure_since b2"
    "listening (bp_rt b2) \<Longrightarrow> sent_events (bp_rt b3) = sent_events (bp_rt b2) @
       (if current_byte b \<noteq> action_byte a then [EvBackpressureActivated 0 Ram [Lit (display_action a)]] else [])"
    using announce_action_ok [OF 2(3), of a "current_byte b" p] by blast
  have run: "apply_decision pr now p disk a b = (Ok a, b3\<lparr>last_evaluation := now\<rparr>)"
    using 2(1) 3(1) by (simp add: apply_decision_def act_defs Let_def since'_def)
  show thesis
    by (rule that [OF run]) (use 2(2) 3(2-4) in \<open>simp_all add: core_def since'_def\<close>)
qed

text \<open>
  C12: an evaluation returns the most restrictive action that any signal asks for: the overall
  pressure against its three thresholds, the I/O pressure and queue depth, the disk congestion,
  and, when none of them asks for anything, a running cooldown, which asks for throttling. The
  action becomes the current one, and exactly when it differs from the previous one an activation
  event with its name is emitted. The one exception: when nothing asks for anything and a cooldown
  has expired, the evaluation never returns. The hypotheses are that the trace log has room, that
  no counter is about to overflow in the debug profile, and that someone listens to the events.
\<close>

theorem evaluate_most_restrictive:
  assumes "rt_ok (bp_rt b)" "stats_room pr b" "listening (bp_rt b)"
  shows "\<exists>io. io_escalation pr (bp_config b) p = Ok io \<and>
    (if cooled_down (bp_config b) (evaluate_disk_congestion b) io (overall_action (bp_config b) (max_pressure p)) now (pressure_since b)
     then evaluate pr now p b = None
     else \<exists>a b'. evaluate pr now p b = Some (Ok a, b')
       \<and> rank a = Max (signals (evaluate_disk_congestion b) io (overall_action (bp_config b) (max_pressure p))
            (in_cooldown (bp_config b) now (pressure_since b)))
       \<and> current_action b' = a
       \<and> sent_events (bp_rt b') = sent_events (bp_rt b) @
           (if current_byte b \<noteq> action_byte a then [EvBackpressureActivated 0 Ram [Lit (display_action a)]] else []))"
proof -
  obtain io where io: "io_escalation pr (bp_config b) p = Ok io" using io_escalation_ok [OF assms(2)] by blast
  let ?disk = "evaluate_disk_congestion b"
  let ?d = "decide (bp_config b) (combine ?disk io) (max_pressure p) now (pressure_since b)"
  show ?thesis
  proof (cases ?d)
    case None
    then show ?thesis using io decide_blocks_iff by (auto simp: evaluate_def Let_def)
  next
    case (Some a)
    obtain b' where b': "apply_decision pr now p ?disk a b = (Ok a, b')" "current_byte b' = action_byte a"
      "sent_events (bp_rt b') = sent_events (bp_rt b) @
         (if current_byte b \<noteq> action_byte a then [EvBackpressureActivated 0 Ram [Lit (display_action a)]] else [])"
      using apply_decision_ok [OF assms(1,2), of now p ?disk a] assms(3) by metis
    have "current_action b' = a" using b'(2) by (cases a) (simp_all add: current_action_def)
    moreover have "\<not> cooled_down (bp_config b) ?disk io (overall_action (bp_config b) (max_pressure p)) now (pressure_since b)"
      using Some decide_blocks_iff by (metis option.distinct(1))
    ultimately show ?thesis using io b' Some rank_decide [OF Some] by (auto simp: evaluate_def Let_def)
  qed
qed

definition demo_controller :: backpressure_controller where
  "demo_controller = backpressure_new backpressure_config_default
     \<lparr>ms_at = (\<lambda>_. 7), secs_at = (\<lambda>_. 1), room_at = (\<lambda>_. True), ticks = 0, rt_log = trace_log_new 10, rt_emitter = Some emitter_new\<rparr> 0"

theorem evaluate_most_restrictive_witness:
  "\<exists>a b'. evaluate Debug 5 pressure_new demo_controller = Some (Ok a, b') \<and> current_action b' = a"
proof -
  have "rt_ok (bp_rt demo_controller)" "stats_room Debug demo_controller" "listening (bp_rt demo_controller)"
    by (simp_all add: demo_controller_def backpressure_new_def rt_ok_def log_inv_def trace_log_new_def stats_room_def
        stats_default_def listening_def backpressure_config_default_def)
  from evaluate_most_restrictive [OF this, of pressure_new 5] show ?thesis
    by (auto simp: cooled_down_def demo_controller_def backpressure_new_def)
qed

section \<open>Recovery\<close>

text \<open>
  The answers of a sequence of evaluations, \<open>None\<close> for one that never returns; nothing follows it.
\<close>

fun bp_run :: "profile \<Rightarrow> (instant \<times> pressure_state) list \<Rightarrow> backpressure_controller \<Rightarrow> backpressure_action ghost_result option list" where
  "bp_run pr [] b = []"
| "bp_run pr ((now, p) # xs) b = (case evaluate pr now p b of
     None \<Rightarrow> [None]
   | Some (r, b') \<Rightarrow> Some r # bp_run pr xs b')"

lemma keeps_bp_bump: "keeps pressure_since (bump pr get put)"
  unfolding bump_def [abs_def] by (rule keeps_state, intro keeps_rules) (simp_all add: keeps_def update_act_def)

lemma keeps_on_bp_rt: "keeps pressure_since (on_bp_rt m)"
  by (auto simp: keeps_def on_bp_rt_def on_part_def split: prod.split)

lemma keeps_update_stats: "keeps pressure_since (update_stats pr a ch disk)"
proof -
  have u: "keeps pressure_since (update_act (\<lambda>b. b\<lparr>bp_stats := f (bp_stats b)\<rparr>))" for f by (simp add: keeps_def update_act_def)
  have c: "keeps pressure_since (count_action pr a)" by (cases a) (simp_all add: count_action_def keeps_bp_bump)
  have d: "keeps pressure_since (case disk of Some d \<Rightarrow> if action_byte d > action_byte Allow
      then bump pr disk_congestion_escalations (\<lambda>v s. s\<lparr>disk_congestion_escalations := v\<rparr>) else ret () | None \<Rightarrow> ret ())"
    by (cases disk) (auto simp: keeps_bp_bump intro!: keeps_rules)
  show ?thesis unfolding update_stats_def by (intro keeps_bind keeps_if keeps_bp_bump keeps_on_bp_rt c d u)
qed

lemma keeps_announce: "keeps pressure_since (announce_action a prev p)"
  unfolding announce_action_def by (intro keeps_rules keeps_on_bp_rt)

lemma apply_decision_since:
  "pressure_since (snd (apply_decision pr now p disk a b)) = (if a \<noteq> Allow \<and> pressure_since b = None then Some now else pressure_since b)"
proof -
  define since' where "since' = (if a \<noteq> Allow \<and> pressure_since b = None then Some now else pressure_since b)"
  let ?b1 = "b\<lparr>pressure_since := since', current_byte := action_byte a\<rparr>"
  let ?m = "bind_act (update_stats pr a (current_byte b \<noteq> action_byte a) disk) (\<lambda>_. bind_act (announce_action a (current_byte b) p)
     (\<lambda>_. bind_act (update_act (\<lambda>b. b\<lparr>last_evaluation := now\<rparr>)) (\<lambda>_. ret a)))"
  have "keeps pressure_since (update_act (\<lambda>b. b\<lparr>last_evaluation := now\<rparr>))" by (simp add: keeps_def update_act_def)
  then have "keeps pressure_since ?m" by (intro keeps_bind keeps_update_stats keeps_announce keeps_ret)
  from keepsD [OF this, of ?b1] show ?thesis
    by (simp add: apply_decision_def Let_def since'_def bind_act_def [of "update_act _"] update_act_def)
qed

lemma decide_since: "decide c (combine disk io) m now (Some t) \<noteq> Some Allow" if "disk \<noteq> Some Allow" "io \<noteq> Some Allow"
proof -
  have pos: "0 < action_byte a \<longleftrightarrow> a \<noteq> Allow" for a by (cases a) (simp_all add: word_less_nat_alt)
  show ?thesis using that
    by (cases disk; cases io) (auto simp: decide_def combine_def overall_action_def pos split: if_splits)
qed

lemma escalation_not_Allow:
  "evaluate_disk_congestion b \<noteq> Some Allow" "io_escalation pr c p \<noteq> Ok (Some Allow)"
  by (auto simp: evaluate_disk_congestion_def io_escalation_def Let_def split: option.split prod.split outcome.split)

lemma apply_decision_Ok: "fst (apply_decision pr now p disk a b) = Ok x \<Longrightarrow> x = a"
  by (auto simp: apply_decision_def Let_def bind_act_def ret_def split: prod.splits outcome.splits)

lemma evaluate_since:
  assumes "pressure_since b \<noteq> None" "evaluate pr now p b = Some (r, b')"
  shows "r \<noteq> Ok Allow" "pressure_since b' \<noteq> None"
proof -
  obtain t where t: "pressure_since b = Some t" using assms(1) by blast
  have "r \<noteq> Ok Allow \<and> pressure_since b' \<noteq> None"
  proof (cases "io_escalation pr (bp_config b) p")
    case (Ok io)
    then obtain a where a: "decide (bp_config b) (combine (evaluate_disk_congestion b) io) (max_pressure p) now (Some t) = Some a"
      "apply_decision pr now p (evaluate_disk_congestion b) a b = (r, b')"
      using assms(2) t by (auto simp: evaluate_def Let_def)
    have "io \<noteq> Some Allow" using Ok escalation_not_Allow(2) by auto
    then have "a \<noteq> Allow" using decide_since [OF escalation_not_Allow(1)] a(1) by blast
    moreover have "r = Ok x \<Longrightarrow> x = a" for x using apply_decision_Ok [of pr now p "evaluate_disk_congestion b" a b x] a(2) by auto
    moreover have "pressure_since b' \<noteq> None"
      using apply_decision_since [of pr now p "evaluate_disk_congestion b" a b] a(2) t by simp
    ultimately show ?thesis by auto
  qed (use assms in \<open>auto simp: evaluate_def Let_def\<close>)
  then show "r \<noteq> Ok Allow" "pressure_since b' \<noteq> None" by auto
qed

text \<open>
  C33: once the controller has registered pressure it never admits everything again. Whatever
  readings follow, however long after, no evaluation returns \<open>Allow\<close>: it returns a restriction or,
  when the cooldown has expired and nothing asks for one, does not return at all.
\<close>

theorem controller_never_recovers:
  assumes "pressure_since b \<noteq> None"
  shows "Some (Ok Allow) \<notin> set (bp_run pr xs b)"
  using assms
proof (induction xs arbitrary: b)
  case (Cons x xs)
  obtain now p where x: "x = (now, p)" by fastforce
  show ?case
  proof (cases "evaluate pr now p b")
    case (Some y)
    obtain r b' where y: "y = (r, b')" by fastforce
    show ?thesis using evaluate_since [OF Cons.prems Some [unfolded y]] Cons.IH [of b'] by (simp add: x Some y)
  qed (simp add: x)
qed simp

lemma f32_95: "f32_lit (95 / 100) = Fin (15938355 / 16777216)"
  unfolding f32_lit_def
  by (subst rnd_eval [where k = "- 1" and e = "- 24" and m = 15938355]) (simp_all add: f32_eval)

lemma f32_6: "f32_lit (6 / 10) = Fin (10066330 / 16777216)"
  unfolding f32_lit_def
  by (subst rnd_eval [where k = "- 1" and e = "- 24" and m = 10066330]) (simp_all add: f32_eval)

lemmas default_config_numbers = backpressure_config_default_def [unfolded f32_95 f32_6 f32_7 f32_85]

lemma quiet_decision:
  "io_escalation Debug backpressure_config_default pressure_new = Ok None"
  "decide backpressure_config_default (combine None None) (max_pressure pressure_new) 20000000000 (Some 0) = None"
  by (simp_all add: io_escalation_def decide_def combine_def max_pressure_def pressure_new_def default_config_numbers fmax_def
      mul_pr_def checked_def)

theorem controller_never_recovers_witness:
  "bp_run Debug [(20 * 10 ^ 9, pressure_new)] (demo_controller\<lparr>pressure_since := Some 0\<rparr>) = [None]
   \<and> Some (Ok Allow) \<notin> set (bp_run Debug [(20 * 10 ^ 9, pressure_new)] (demo_controller\<lparr>pressure_since := Some 0\<rparr>))"
proof
  show "bp_run Debug [(20 * 10 ^ 9, pressure_new)] (demo_controller\<lparr>pressure_since := Some 0\<rparr>) = [None]"
    by (simp add: evaluate_def quiet_decision demo_controller_def backpressure_new_def evaluate_disk_congestion_def)
  show "Some (Ok Allow) \<notin> set (bp_run Debug [(20 * 10 ^ 9, pressure_new)] (demo_controller\<lparr>pressure_since := Some 0\<rparr>))"
    by (rule controller_never_recovers) simp
qed

text \<open>A more restrictive action admits no transfer that a less restrictive one refuses.\<close>

lemma allows_antimono: "rank a \<le> rank b \<Longrightarrow> allows b p \<Longrightarrow> allows a p"
  by (cases a; cases b) auto

end
