(* ===== verification/Scheduler.thy ===== *)
theory Scheduler
  imports Transfer_Queue Runtime Metrics
begin

text \<open>
  \<^verbatim>\<open>ghost-daemon/src/scheduler.rs\<close>: one round of the scheduler takes a job off the queue, drops it
  when the pressure says so, and otherwise hands it to the worker channel. The pressure reading,
  the disk queue depth (when I/O metrics are attached) and the room in the worker channel are
  inputs of a round; \<open>sc_dispatched\<close> is what entered the worker channel.
\<close>

record scheduler_config =
  max_concurrent_transfers :: usize
  priority_ordering :: bool
  disk_aware_scheduling :: bool
  disk_queue_threshold :: u32

definition scheduler_config_default :: scheduler_config where
  "scheduler_config_default = \<lparr>max_concurrent_transfers = 8, priority_ordering = True,
     disk_aware_scheduling = True, disk_queue_threshold = 64\<rparr>"

record scheduler =
  sc_queue :: transfer_queue
  sc_rt :: runtime
  sc_config :: scheduler_config
  sc_metrics :: transfer_metrics
  sc_dispatched :: "transfer_job list"

type_synonym 'a sched = "(scheduler, 'a, ghost_error) act"

text \<open>\<open>disk\<close> is the queue depth of the I/O metrics; \<^verbatim>\<open>as u32\<close> truncates it.\<close>

definition should_throttle :: "scheduler_config \<Rightarrow> u64 option \<Rightarrow> transfer_job \<Rightarrow> pressure_state \<Rightarrow> bool" where
  "should_throttle c disk job p =
     (if is_critical p then priority job \<noteq> Critical
      else if fgt (io_pressure p) (f32_lit (8 / 10)) \<and> priority job = Low then True
      else if is_under_pressure p \<and> priority job = Low \<and> job_size job > 1024 * 1024 then True
      else disk_aware_scheduling c
           \<and> (case disk of None \<Rightarrow> False
              | Some d \<Rightarrow> (ucast d :: u32) > disk_queue_threshold c \<and> to_tier job = Disk \<and> priority job \<noteq> Critical))"

definition on_sc_rt :: "'a rt \<Rightarrow> 'a sched" where
  "on_sc_rt m = on_part sc_rt (\<lambda>r s. s\<lparr>sc_rt := r\<rparr>) m"

definition dispatch_job :: "bool \<Rightarrow> transfer_job \<Rightarrow> unit sched" where
  "dispatch_job room job0 =
     (let job = transition_state Queued job0 in
      bind_act (on_sc_rt (log_now (PolicyDecision (job_chunk job) (from_tier job) (to_tier job)
        [Lit ''from='', FmtTier (from_tier job), Lit '' to='', FmtTier (to_tier job)]))) (\<lambda>_.
      bind_act (on_sc_rt (log_now (TransferStarted job))) (\<lambda>_.
      if room then update_act (\<lambda>s. s\<lparr>sc_dispatched := sc_dispatched s @ [job]\<rparr>)
      else fail (PipelineError [Lit ''worker channel closed'']))))"

text \<open>
  The outcome of a round: nothing to do, the job dispatched, the job dropped by throttling, or
  the job dropped because the worker channel refused it (the error is only logged).
\<close>

datatype round = Idle | Dispatched transfer_job | Throttled transfer_job | Refused transfer_job

definition handle_job :: "pressure_state \<Rightarrow> u64 option \<Rightarrow> bool \<Rightarrow> transfer_job \<Rightarrow> round sched" where
  "handle_job p disk room job s =
     bind_act (update_act (\<lambda>s. s\<lparr>sc_metrics := set_queue_depth (depth (sc_queue s)) (sc_metrics s)\<rparr>)) (\<lambda>_.
     bind_act (on_sc_rt (emit_event (EvQueueDequeue 0 (ucast (attempts job))))) (\<lambda>_.
     if should_throttle (sc_config s) disk job p
     then bind_act (on_sc_rt (log_now (PolicyDecision (job_chunk job) (from_tier job) (to_tier job)
            [Lit ''pressure '', FmtFloat (max_pressure p)]))) (\<lambda>_. ret (Throttled job))
     else bind_act (catch_act (dispatch_job room job))
            (\<lambda>r. case r of Inr _ \<Rightarrow> ret (Dispatched job) | Inl e \<Rightarrow> ret (Refused job)))) s"

definition scheduler_round :: "profile \<Rightarrow> pressure_state \<Rightarrow> u64 option \<Rightarrow> bool \<Rightarrow> round sched" where
  "scheduler_round pr p disk room =
     bind_act (on_part sc_queue (\<lambda>q s. s\<lparr>sc_queue := q\<rparr>) (dequeue_wait_poll pr)) (\<lambda>x.
       case x of Ready (Some job) \<Rightarrow> handle_job p disk room job | _ \<Rightarrow> ret Idle)"

fun scheduler_run :: "profile \<Rightarrow> (pressure_state \<times> u64 option \<times> bool) list \<Rightarrow> round list sched" where
  "scheduler_run pr [] = ret []"
| "scheduler_run pr ((p, disk, room) # xs) =
     bind_act (scheduler_round pr p disk room) (\<lambda>r. bind_act (scheduler_run pr xs) (\<lambda>rs. ret (r # rs)))"

section \<open>Throttling\<close>

lemma f32_8 [simp]: "f32_lit (4 / 5) = Fin (13421773 / 16777216)"
  unfolding f32_lit_def
  by (subst rnd_eval [where k = "- 1" and e = "- 24" and m = 13421773]) (simp_all add: f32_eval)

lemma above_under_pressure:
  assumes "flt t (max_pressure p)" "fle (f32_lit (7 / 10)) t"
  shows "is_under_pressure p"
  using fle_flt_trans [OF assms(2,1)] by (simp add: under_pressure_iff_max)

lemma io_pressure_high: "fgt (io_pressure p) (f32_lit (8 / 10)) \<Longrightarrow> is_under_pressure p"
  by (rule above_under_pressure [of "f32_lit (8 / 10)"]) (simp_all add: max_pressure_def fmax_gt_iff)

lemma critical_under: "is_critical p \<Longrightarrow> is_under_pressure p"
  by (rule above_under_pressure [of "f32_lit (9 / 10)"]) (simp_all add: critical_iff_max)

text \<open>
  A critical job is never throttled; under critical pressure every other job is; and without
  pressure only a job aimed at a congested disk is.
\<close>

theorem should_throttle_cases:
  "(priority job = Critical \<longrightarrow> \<not> should_throttle c disk job p)
   \<and> (is_critical p \<longrightarrow> should_throttle c disk job p = (priority job \<noteq> Critical))
   \<and> (\<not> is_under_pressure p \<and> should_throttle c disk job p \<longrightarrow>
        to_tier job = Disk \<and> (\<exists>d. disk = Some d \<and> disk_queue_threshold c < ucast d))"
  using io_pressure_high [of p] critical_under [of p]
  by (auto simp: should_throttle_def split: option.splits if_splits)

theorem should_throttle_cases_witness:
  "\<not> should_throttle scheduler_config_default (Some 1000) (job_of 1 Critical) pressure_new
   \<and> should_throttle scheduler_config_default (Some 1000) (job_of 1 Low) pressure_new"
proof -
  have "\<not> should_throttle scheduler_config_default (Some 1000) (job_of 1 Critical) pressure_new"
    using should_throttle_cases [of "job_of 1 Critical" scheduler_config_default "Some 1000" pressure_new]
    by (simp add: job_of_def transfer_job_new_def)
  moreover have "should_throttle scheduler_config_default (Some 1000) (job_of 1 Low) pressure_new"
    by (simp add: should_throttle_def job_of_def transfer_job_new_def pressure_new_def is_critical_def
        is_under_pressure_def scheduler_config_default_def word_less_nat_alt)
  ultimately show ?thesis by blast
qed

section \<open>Where the jobs go\<close>

fun round_job :: "round \<Rightarrow> transfer_job list" where
  "round_job Idle = []"
| "round_job (Dispatched j) = [j]"
| "round_job (Throttled j) = [j]"
| "round_job (Refused j) = [j]"

fun dispatched_job :: "round \<Rightarrow> transfer_job list" where
  "dispatched_job (Dispatched j) = [transition_state Queued j]"
| "dispatched_job _ = []"

fun critical_safe :: "round \<Rightarrow> bool" where
  "critical_safe (Throttled j) = (priority j \<noteq> Critical)"
| "critical_safe _ = True"

definition sched_ok :: "scheduler \<Rightarrow> bool" where
  "sched_ok s \<longleftrightarrow> queue_inv (sc_queue s) \<and> rt_ok (sc_rt s)"

lemma on_sc_rt_log_now:
  assumes "rt_ok (sc_rt s)"
  obtains r where "on_sc_rt (log_now ev) s = (Ok (), s\<lparr>sc_rt := r\<rparr>)" "rt_ok r"
proof -
  from log_now_ok [OF assms, of ev] obtain r where "log_now ev (sc_rt s) = (Ok (), r)" "rt_ok r" by metis
  then show thesis by (intro that [of r]) (simp_all add: on_sc_rt_def on_part_def)
qed

lemma dispatch_job_ok:
  assumes "rt_ok (sc_rt s)"
  obtains r where "dispatch_job room job s = (if room then Ok () else Err (PipelineError [Lit ''worker channel closed'']),
      s\<lparr>sc_rt := r, sc_dispatched := sc_dispatched s @ (if room then [transition_state Queued job] else [])\<rparr>)" "rt_ok r"
proof -
  let ?j = "transition_state Queued job"
  let ?msg = "[Lit ''from='', FmtTier (from_tier ?j), Lit '' to='', FmtTier (to_tier ?j)]"
  obtain r1 where 1: "on_sc_rt (log_now (PolicyDecision (job_chunk ?j) (from_tier ?j) (to_tier ?j) ?msg)) s = (Ok (), s\<lparr>sc_rt := r1\<rparr>)" "rt_ok r1"
    by (rule on_sc_rt_log_now [OF assms])
  obtain r2 where 2: "on_sc_rt (log_now (TransferStarted ?j)) (s\<lparr>sc_rt := r1\<rparr>) = (Ok (), s\<lparr>sc_rt := r1\<rparr>\<lparr>sc_rt := r2\<rparr>)" "rt_ok r2"
    by (rule on_sc_rt_log_now [of "s\<lparr>sc_rt := r1\<rparr>"]) (use 1(2) in simp)
  show thesis using that [of r2] 1 2 by (cases room) (simp_all add: dispatch_job_def Let_def act_defs)
qed

lemma handle_job_ok:
  assumes "rt_ok (sc_rt s)"
  obtains x s' where "handle_job p disk room job s = (Ok x, s')" "rt_ok (sc_rt s')" "sc_queue s' = sc_queue s"
    "round_job x = [job]" "sc_dispatched s' = sc_dispatched s @ dispatched_job x" "critical_safe x"
proof -
  let ?s1 = "s\<lparr>sc_metrics := set_queue_depth (depth (sc_queue s)) (sc_metrics s)\<rparr>"
  obtain r1 where e: "emit_event (EvQueueDequeue 0 (ucast (attempts job))) (sc_rt s) = (Ok (), r1)" "rt_ok r1 = rt_ok (sc_rt s)"
    by (rule emit_event_ok)
  have e1: "on_sc_rt (emit_event (EvQueueDequeue 0 (ucast (attempts job)))) ?s1 = (Ok (), ?s1\<lparr>sc_rt := r1\<rparr>)"
    using e(1) by (simp add: on_sc_rt_def on_part_def)
  have ok: "rt_ok (sc_rt (?s1\<lparr>sc_rt := r1\<rparr>))" using e(2) assms by simp
  show thesis
  proof (cases "should_throttle (sc_config s) disk job p")
    case True
    obtain r2 where l: "on_sc_rt (log_now (PolicyDecision (job_chunk job) (from_tier job) (to_tier job)
        [Lit ''pressure '', FmtFloat (max_pressure p)])) (?s1\<lparr>sc_rt := r1\<rparr>) = (Ok (), ?s1\<lparr>sc_rt := r1\<rparr>\<lparr>sc_rt := r2\<rparr>)" "rt_ok r2"
      by (rule on_sc_rt_log_now [OF ok])
    have "priority job \<noteq> Critical" using True by (auto simp: should_throttle_def split: if_splits option.splits)
    then show thesis using that [of "Throttled job"] True e1 l by (simp add: handle_job_def act_defs)
  next
    case False
    obtain r2 where d: "dispatch_job room job (?s1\<lparr>sc_rt := r1\<rparr>) = (if room then Ok () else Err (PipelineError [Lit ''worker channel closed'']),
      (?s1\<lparr>sc_rt := r1\<rparr>)\<lparr>sc_rt := r2, sc_dispatched := sc_dispatched (?s1\<lparr>sc_rt := r1\<rparr>) @ (if room then [transition_state Queued job] else [])\<rparr>)" "rt_ok r2"
      by (rule dispatch_job_ok [OF ok])
    show thesis
      using that [of "if room then Dispatched job else Refused job"] False e1 d
      by (cases room) (simp_all add: handle_job_def act_defs catch_act_def)
  qed
qed

lemma scheduler_round_ok:
  assumes "sched_ok s"
  obtains x s' where "scheduler_round pr p disk room s = (Ok x, s')" "sched_ok s'"
    "jobs (sc_queue s) = round_job x @ jobs (sc_queue s')"
    "sc_dispatched s' = sc_dispatched s @ dispatched_job x" "critical_safe x"
proof (cases "jobs (sc_queue s)")
  case Nil
  then have "scheduler_round pr p disk room s = (Ok Idle, s)"
    by (simp add: scheduler_round_def dequeue_wait_poll_def act_defs)
  then show thesis using that [of Idle s] assms Nil by simp
next
  case (Cons j js)
  have inv: "queue_inv (sc_queue s)" and rt: "rt_ok (sc_rt s)" using assms by (simp_all add: sched_ok_def)
  let ?q = "(sc_queue s)\<lparr>jobs := js, current_depth := current_depth (sc_queue s) - 1\<rparr>"
  have td: "try_dequeue pr (sc_queue s) = (Ok (Some j) :: (transfer_job option, ghost_error) outcome, ?q)"
    by (rule try_dequeue_Cons [OF inv Cons])
  have inv': "queue_inv ?q" using try_dequeue_inv [OF inv, of pr, where 'e = ghost_error] td by simp
  have poll: "dequeue_wait_poll pr (sc_queue s) = (Ok (Ready (Some j)) :: (transfer_job option poll, ghost_error) outcome, ?q)"
    by (simp add: dequeue_wait_poll_eq td)
  have rt': "rt_ok (sc_rt (s\<lparr>sc_queue := ?q\<rparr>))" using rt by simp
  obtain x s' where h: "handle_job p disk room j (s\<lparr>sc_queue := ?q\<rparr>) = (Ok x, s')" "rt_ok (sc_rt s')"
    "sc_queue s' = sc_queue (s\<lparr>sc_queue := ?q\<rparr>)" "round_job x = [j]"
    "sc_dispatched s' = sc_dispatched (s\<lparr>sc_queue := ?q\<rparr>) @ dispatched_job x" "critical_safe x"
    by (rule handle_job_ok [OF rt'])
  have "scheduler_round pr p disk room s = (Ok x, s')"
    using poll h(1) by (simp add: scheduler_round_def act_defs)
  then show thesis using that [of x s'] h inv' Cons by (simp add: sched_ok_def)
qed

text \<open>
  C13: over any number of rounds, with any pressure readings and channel states, the scheduler
  never fails and accounts for every job: the jobs that were queued are, in order, the jobs the
  rounds took followed by the jobs still queued; exactly the dispatched ones entered the worker
  channel; and a critical job is never among those dropped by throttling. (A throttled or refused
  job is gone from the queue.)
\<close>

theorem scheduler_accounts:
  assumes "sched_ok s"
  shows "\<exists>rs s'. scheduler_run pr xs s = (Ok rs, s') \<and> sched_ok s'
    \<and> jobs (sc_queue s) = concat (map round_job rs) @ jobs (sc_queue s')
    \<and> sc_dispatched s' = sc_dispatched s @ concat (map dispatched_job rs)
    \<and> list_all critical_safe rs \<and> length rs = length xs"
  using assms
proof (induction xs arbitrary: s)
  case Nil
  then show ?case by (simp add: act_defs)
next
  case (Cons x xs)
  obtain p disk room where x: "x = (p, disk, room)" by (metis prod_cases3)
  obtain r s1 where r: "scheduler_round pr p disk room s = (Ok r, s1)" "sched_ok s1"
    "jobs (sc_queue s) = round_job r @ jobs (sc_queue s1)"
    "sc_dispatched s1 = sc_dispatched s @ dispatched_job r" "critical_safe r"
    by (rule scheduler_round_ok [OF Cons.prems])
  from Cons.IH [OF r(2)] obtain rs s' where "scheduler_run pr xs s1 = (Ok rs, s')" "sched_ok s'"
    "jobs (sc_queue s1) = concat (map round_job rs) @ jobs (sc_queue s')"
    "sc_dispatched s' = sc_dispatched s1 @ concat (map dispatched_job rs)" "list_all critical_safe rs" "length rs = length xs" by blast
  with r x show ?case by (intro exI [of _ "r # rs"] exI [of _ s']) (simp add: act_defs)
qed

definition demo_scheduler :: scheduler where
  "demo_scheduler = \<lparr>sc_queue = snd (submit_priority Debug 1 (job_of 1 Low) (queue_new 2 (trace_log_new 4))),
     sc_rt = \<lparr>ms_at = (\<lambda>_. 7), secs_at = (\<lambda>_. 1), room_at = (\<lambda>_. True), ticks = 0, rt_log = trace_log_new 10, rt_emitter = None\<rparr>,
     sc_config = scheduler_config_default, sc_metrics = metrics_new, sc_dispatched = []\<rparr>"

theorem scheduler_accounts_witness:
  "\<exists>rs s'. scheduler_run Debug [(pressure_new, None, True), (pressure_new, None, True)] demo_scheduler = (Ok rs, s') \<and> length rs = 2"
proof -
  have "queue_inv (queue_new 2 (trace_log_new 4))" by (rule queue_inv_new) (simp_all add: log_inv_def trace_log_new_def)
  then have "queue_inv (snd (submit_priority Debug 1 (job_of 1 Low) (queue_new 2 (trace_log_new 4))))"
    by (rule submit_accept_inv) (simp add: can_accept_def queue_new_def word_less_nat_alt)
  then have "sched_ok demo_scheduler"
    by (simp add: sched_ok_def demo_scheduler_def rt_ok_def log_inv_def trace_log_new_def)
  from scheduler_accounts [OF this, of Debug "[(pressure_new, None, True), (pressure_new, None, True)]"]
  show ?thesis by auto
qed

end
