(* ===== verification/Ranking.thy ===== *)
theory Ranking
  imports Ieee_Float "HOL-Library.Multiset"
begin

text \<open>
  Comparison-driven selection of the Rust library: \<^verbatim>\<open>Iterator::max_by\<close>, \<^verbatim>\<open>min_by\<close> and
  \<^verbatim>\<open>slice::sort_by\<close>, for the comparators of the sources. \<^verbatim>\<open>max_by\<close> returns the last of several
  maxima and \<^verbatim>\<open>min_by\<close> the first of several minima. The locale \<open>ranking\<close> is the contract between
  such a comparator and the selections made with it; it holds on a domain of keys, because floats
  are ordered only without NaN.
\<close>

datatype rust_ordering = OrdLess | OrdEqual | OrdGreater

fun reverse_ordering :: "rust_ordering \<Rightarrow> rust_ordering" where
  "reverse_ordering OrdLess = OrdGreater"
| "reverse_ordering OrdEqual = OrdEqual"
| "reverse_ordering OrdGreater = OrdLess"

definition cmp_ord :: "'a::linorder \<Rightarrow> 'a \<Rightarrow> rust_ordering" where
  "cmp_ord a b = (if a < b then OrdLess else if a = b then OrdEqual else OrdGreater)"

text \<open>\<^verbatim>\<open>a.partial_cmp(&b).unwrap_or(Ordering::Equal)\<close> on floats.\<close>

definition cmp_float :: "fl \<Rightarrow> fl \<Rightarrow> rust_ordering" where
  "cmp_float a b = (if flt a b then OrdLess else if flt b a then OrdGreater else OrdEqual)"

definition max_by :: "('a \<Rightarrow> 'a \<Rightarrow> rust_ordering) \<Rightarrow> 'a list \<Rightarrow> 'a option" where
  "max_by c xs = (case xs of [] \<Rightarrow> None
     | x # ys \<Rightarrow> Some (foldl (\<lambda>a b. if c a b = OrdGreater then a else b) x ys))"

definition min_by :: "('a \<Rightarrow> 'a \<Rightarrow> rust_ordering) \<Rightarrow> 'a list \<Rightarrow> 'a option" where
  "min_by c xs = (case xs of [] \<Rightarrow> None
     | x # ys \<Rightarrow> Some (foldl (\<lambda>a b. if c a b = OrdGreater then b else a) x ys))"

text \<open>A stable sort; the library's merge sort agrees with it for every total comparator.\<close>

primrec insert_by :: "('a \<Rightarrow> 'a \<Rightarrow> rust_ordering) \<Rightarrow> 'a \<Rightarrow> 'a list \<Rightarrow> 'a list" where
  "insert_by c x [] = [x]"
| "insert_by c x (y # ys) = (if c x y = OrdGreater then y # insert_by c x ys else x # y # ys)"

primrec sort_by :: "('a \<Rightarrow> 'a \<Rightarrow> rust_ordering) \<Rightarrow> 'a list \<Rightarrow> 'a list" where
  "sort_by c [] = []"
| "sort_by c (x # xs) = insert_by c x (sort_by c xs)"

section \<open>Any comparator\<close>

lemma max_by_None [simp]: "max_by c xs = None \<longleftrightarrow> xs = []"
  by (cases xs) (simp_all add: max_by_def)

lemma min_by_None [simp]: "min_by c xs = None \<longleftrightarrow> xs = []"
  by (cases xs) (simp_all add: min_by_def)

lemma max_by_exists: "xs \<noteq> [] \<Longrightarrow> \<exists>m. max_by c xs = Some m"
  by (metis max_by_None option.exhaust)

lemma min_by_exists: "xs \<noteq> [] \<Longrightarrow> \<exists>m. min_by c xs = Some m"
  by (metis min_by_None option.exhaust)

lemma foldl_choice_in: "(\<And>a b. f a b = a \<or> f a b = b) \<Longrightarrow> foldl f x xs \<in> insert x (set xs)"
proof (induction xs arbitrary: x)
  case (Cons y ys)
  then have "foldl f (f x y) ys \<in> insert (f x y) (set ys)" by blast
  with Cons.prems [of x y] show ?case by auto
qed simp

lemma max_by_in: "max_by c xs = Some m \<Longrightarrow> m \<in> set xs"
  using foldl_choice_in [of "\<lambda>a b. if c a b = OrdGreater then a else b" "hd xs" "tl xs"]
  by (cases xs) (auto simp: max_by_def)

lemma min_by_in: "min_by c xs = Some m \<Longrightarrow> m \<in> set xs"
  using foldl_choice_in [of "\<lambda>a b. if c a b = OrdGreater then b else a" "hd xs" "tl xs"]
  by (cases xs) (auto simp: min_by_def)

lemma mset_insert_by [simp]: "mset (insert_by c x xs) = add_mset x (mset xs)"
  by (induction xs) auto

lemma mset_sort_by [simp]: "mset (sort_by c xs) = mset xs"
  by (induction xs) auto

lemma set_sort_by [simp]: "set (sort_by c xs) = set xs"
  by (metis mset_eq_setD mset_sort_by)

lemma length_sort_by [simp]: "length (sort_by c xs) = length xs"
  by (metis mset_eq_length mset_sort_by)

section \<open>The contract of a comparator\<close>

locale ranking =
  fixes le :: "'k \<Rightarrow> 'k \<Rightarrow> bool"
    and dom_key :: "'k \<Rightarrow> bool"
    and cmp :: "'k \<Rightarrow> 'k \<Rightarrow> rust_ordering"
  assumes le_refl: "dom_key a \<Longrightarrow> le a a"
    and le_trans: "le a b \<Longrightarrow> le b c \<Longrightarrow> le a c"
    and le_total: "dom_key a \<Longrightarrow> dom_key b \<Longrightarrow> le a b \<or> le b a"
    and cmp_greater: "dom_key a \<Longrightarrow> dom_key b \<Longrightarrow> cmp a b = OrdGreater \<longleftrightarrow> \<not> le a b"
begin

lemma foldl_max:
  assumes "\<forall>y\<in>insert x (set xs). dom_key (key y)" "y \<in> insert x (set xs)"
  shows "le (key y) (key (foldl (\<lambda>a b. if cmp (key a) (key b) = OrdGreater then a else b) x xs))"
  using assms
proof (induction xs arbitrary: x y)
  case Nil
  then show ?case by (simp add: le_refl)
next
  case (Cons z zs)
  let ?w = "if cmp (key x) (key z) = OrdGreater then x else z"
  have w: "dom_key (key ?w)" "le (key x) (key ?w)" "le (key z) (key ?w)"
    using Cons.prems(1) cmp_greater [of "key x" "key z"] le_refl le_total [of "key x" "key z"] by auto
  have IH: "le (key u) (key (foldl (\<lambda>a b. if cmp (key a) (key b) = OrdGreater then a else b) ?w zs))"
    if "u \<in> insert ?w (set zs)" for u
    using Cons.prems(1) w(1) that by (intro Cons.IH) auto
  from Cons.prems(2) consider "y = x" | "y = z" | "y \<in> set zs" by auto
  then have "le (key y) (key (foldl (\<lambda>a b. if cmp (key a) (key b) = OrdGreater then a else b) ?w zs))"
    by cases (blast intro: IH le_trans [OF w(2)] le_trans [OF w(3)])+
  then show ?case by simp
qed

lemma foldl_min:
  assumes "\<forall>y\<in>insert x (set xs). dom_key (key y)" "y \<in> insert x (set xs)"
  shows "le (key (foldl (\<lambda>a b. if cmp (key a) (key b) = OrdGreater then b else a) x xs)) (key y)"
  using assms
proof (induction xs arbitrary: x y)
  case Nil
  then show ?case by (simp add: le_refl)
next
  case (Cons z zs)
  let ?w = "if cmp (key x) (key z) = OrdGreater then z else x"
  have w: "dom_key (key ?w)" "le (key ?w) (key x)" "le (key ?w) (key z)"
    using Cons.prems(1) cmp_greater [of "key x" "key z"] le_refl le_total [of "key x" "key z"] by auto
  have IH: "le (key (foldl (\<lambda>a b. if cmp (key a) (key b) = OrdGreater then b else a) ?w zs)) (key u)"
    if "u \<in> insert ?w (set zs)" for u
    using Cons.prems(1) w(1) that by (intro Cons.IH) auto
  from Cons.prems(2) consider "y = x" | "y = z" | "y \<in> set zs" by auto
  then have "le (key (foldl (\<lambda>a b. if cmp (key a) (key b) = OrdGreater then b else a) ?w zs)) (key y)"
    by cases (blast intro: IH le_trans [OF _ w(2)] le_trans [OF _ w(3)])+
  then show ?case by simp
qed

text \<open>The selections by a key: an element whose key is greatest, or least.\<close>

lemma max_by_greatest:
  assumes "max_by (\<lambda>a b. cmp (key a) (key b)) xs = Some m" "\<forall>y\<in>set xs. dom_key (key y)" "y \<in> set xs"
  shows "le (key y) (key m)"
  using assms foldl_max [of _ _ key y] by (auto simp: max_by_def split: list.splits)

lemma min_by_least:
  assumes "min_by (\<lambda>a b. cmp (key a) (key b)) xs = Some m" "\<forall>y\<in>set xs. dom_key (key y)" "y \<in> set xs"
  shows "le (key m) (key y)"
  using assms foldl_min [of _ _ key y] by (auto simp: min_by_def split: list.splits)

lemma sorted_insert_by:
  assumes "sorted_wrt (\<lambda>a b. le (key a) (key b)) xs" "\<forall>y\<in>insert x (set xs). dom_key (key y)"
  shows "sorted_wrt (\<lambda>a b. le (key a) (key b)) (insert_by (\<lambda>a b. cmp (key a) (key b)) x xs)"
  using assms
proof (induction xs)
  case (Cons y ys)
  have s: "set (insert_by (\<lambda>a b. cmp (key a) (key b)) x ys) = insert x (set ys)"
    using mset_insert_by [of "\<lambda>a b. cmp (key a) (key b)" x ys] by (metis set_mset_add_mset_insert set_mset_mset)
  show ?case
    using Cons s le_trans cmp_greater [of "key x" "key y"] le_total [of "key x" "key y"] by auto
qed simp

lemma sorted_sort_by:
  "\<forall>y\<in>set xs. dom_key (key y) \<Longrightarrow> sorted_wrt (\<lambda>a b. le (key a) (key b)) (sort_by (\<lambda>a b. cmp (key a) (key b)) xs)"
  by (induction xs) (auto intro!: sorted_insert_by)

text \<open>The first \<open>n\<close> of a sorted list are ranked before all the others.\<close>

lemma take_sorted_before:
  assumes "\<forall>y\<in>set xs. dom_key (key y)"
    "a \<in> set (take n (sort_by (\<lambda>a b. cmp (key a) (key b)) xs))" "b \<in> set (drop n (sort_by (\<lambda>a b. cmp (key a) (key b)) xs))"
  shows "le (key a) (key b)"
proof -
  let ?s = "sort_by (\<lambda>a b. cmp (key a) (key b)) xs"
  have "sorted_wrt (\<lambda>a b. le (key a) (key b)) (take n ?s @ drop n ?s)"
    using sorted_sort_by [OF assms(1)] by simp
  with assms(2,3) show ?thesis by (auto simp only: sorted_wrt_append)
qed

end

lemma cmp_ord_Greater [simp]: "cmp_ord a b = OrdGreater \<longleftrightarrow> b < a"
  by (auto simp: cmp_ord_def)

lemma reverse_Greater [simp]: "reverse_ordering r = OrdGreater \<longleftrightarrow> r = OrdLess"
  by (cases r) simp_all

lemma cmp_ord_Less [simp]: "cmp_ord a b = OrdLess \<longleftrightarrow> a < b"
  by (auto simp: cmp_ord_def)

lemma cmp_float_Greater: "a \<noteq> NaN \<Longrightarrow> b \<noteq> NaN \<Longrightarrow> cmp_float a b = OrdGreater \<longleftrightarrow> \<not> fle a b"
  using not_flt [of b a] by (auto simp: cmp_float_def flt_def)

lemma cmp_float_Less: "a \<noteq> NaN \<Longrightarrow> b \<noteq> NaN \<Longrightarrow> cmp_float a b = OrdLess \<longleftrightarrow> \<not> fle b a"
  using not_flt [of a b] by (auto simp: cmp_float_def)

interpretation asc: ranking "(\<le>)" "\<lambda>_. True" cmp_ord
  by unfold_locales auto

interpretation floats: ranking fle "\<lambda>x. x \<noteq> NaN" cmp_float
  by unfold_locales (auto simp: cmp_float_Greater fle_refl dest: fle_trans fle_total)

interpretation floats_desc: ranking "\<lambda>a b. fle b a" "\<lambda>x. x \<noteq> NaN" "\<lambda>a b. cmp_float b a"
  by unfold_locales (auto simp: cmp_float_Greater fle_refl dest: fle_trans fle_total)

end
