(* ===== verification/Policy.thy ===== *)
theory Policy
  imports Ranking Pressure_Model Transfer_Job
begin

text \<open>
  The placement policies of \<^verbatim>\<open>ghost-policy/src\<close>: the scores of \<^verbatim>\<open>weights.rs\<close>, the \<^verbatim>\<open>PlacementPolicy\<close> trait
  of \<^verbatim>\<open>policy.rs\<close> as a record of methods and as the locale \<open>placement\<close>, and its two implementations,
  \<^verbatim>\<open>lru.rs\<close> and \<^verbatim>\<open>pressure.rs\<close>. A policy that reads the system clock (the LRU policy with no injected
  time) takes the readings in seconds as an argument \<open>clk\<close>, one per reading.
\<close>

section \<open>Scores\<close>

fun tier_weight :: "tier_id \<Rightarrow> f32" where
  "tier_weight Ram = f32_lit 1"
| "tier_weight GpuVram = f32_lit (8 / 10)"
| "tier_weight Disk = f32_lit (3 / 10)"
| "tier_weight Simulation = f32_lit (1 / 10)"

fun pressure_factor :: "tier_id \<Rightarrow> pressure_state \<Rightarrow> f32" where
  "pressure_factor Ram p = fsub binary32 (f32_lit 1) (memory_pressure p)"
| "pressure_factor GpuVram p = fsub binary32 (f32_lit 1) (vram_pressure p)"
| "pressure_factor Disk p = fsub binary32 (f32_lit 1) (io_pressure p)"
| "pressure_factor Simulation p = f32_lit 1"

definition tier_pressure_score :: "tier_id \<Rightarrow> pressure_state \<Rightarrow> f32" where
  "tier_pressure_score t p = fmul binary32 (tier_weight t) (clamp01 (pressure_factor t p))"

text \<open>The comparator that the sources repeat in each selection.\<close>

definition score_cmp :: "pressure_state \<Rightarrow> tier_id \<Rightarrow> tier_id \<Rightarrow> rust_ordering" where
  "score_cmp p a b = cmp_float (tier_pressure_score a p) (tier_pressure_score b p)"

definition best_tier :: "tier_id list \<Rightarrow> pressure_state \<Rightarrow> tier_id option" where
  "best_tier tiers p = (if tiers = [] then None else max_by (score_cmp p) tiers)"

section \<open>The trait\<close>

record placement_policy =
  policy_name :: string
  select_target_tier :: "clock \<Rightarrow> chunk_meta \<Rightarrow> pressure_state \<Rightarrow> tier_id list \<Rightarrow> tier_id"
  select_viction :: "clock \<Rightarrow> (chunk_id \<times> chunk_meta) list \<Rightarrow> pressure_state \<Rightarrow> chunk_id option"
  should_migrate :: "clock \<Rightarrow> chunk_meta \<Rightarrow> tier_id \<Rightarrow> pressure_state \<Rightarrow> tier_id option"
  migration_priority :: "clock \<Rightarrow> chunk_meta \<Rightarrow> pressure_state \<Rightarrow> transfer_priority"

section \<open>The LRU policy\<close>

record lru_config =
  hotness_threshold_secs :: u64
  min_residence_secs :: u64
  preferred_tier :: tier_id
  fallback_tier :: tier_id
  lru_time_secs :: u64

definition lru_config_default :: lru_config where
  "lru_config_default = \<lparr>hotness_threshold_secs = 300, min_residence_secs = 60, preferred_tier = Ram,
     fallback_tier = Disk, lru_time_secs = 0\<rparr>"

definition lru_now :: "lru_config \<Rightarrow> u64 \<Rightarrow> u64" where
  "lru_now c sys = (if lru_time_secs c \<noteq> 0 then lru_time_secs c else sys)"

definition lru_is_hot :: "lru_config \<Rightarrow> u64 \<Rightarrow> chunk_meta \<Rightarrow> bool" where
  "lru_is_hot c sys m = (saturating_sub (lru_now c sys) (last_accessed m) < hotness_threshold_secs c)"

definition lru_is_resident :: "lru_config \<Rightarrow> u64 \<Rightarrow> chunk_meta \<Rightarrow> bool" where
  "lru_is_resident c sys m = (saturating_sub (lru_now c sys) (meta_created_at m) \<ge> min_residence_secs c)"

definition lru_select_target_tier :: "lru_config \<Rightarrow> clock \<Rightarrow> chunk_meta \<Rightarrow> pressure_state \<Rightarrow> tier_id list \<Rightarrow> tier_id" where
  "lru_select_target_tier c clk m p avail =
     (let cold = (if fallback_tier c \<in> set avail then fallback_tier c
                  else if preferred_tier c \<in> set avail then preferred_tier c
                  else avail ! 0)
      in if avail = [] then preferred_tier c
         else if lru_is_hot c (clk 0) m
              then (case best_tier avail p of Some t \<Rightarrow> t | None \<Rightarrow> cold)
              else cold)"

text \<open>\<^verbatim>\<open>candidates.iter().filter(|(_, meta)| self.is_resident(meta))\<close>, one clock reading per candidate.\<close>

definition residents :: "lru_config \<Rightarrow> clock \<Rightarrow> (chunk_id \<times> chunk_meta) list \<Rightarrow> (chunk_id \<times> chunk_meta) list" where
  "residents c clk cs = map snd (filter (\<lambda>(i, _, m). lru_is_resident c (clk i) m) (enumerate 0 cs))"

definition lru_select_viction ::
  "lru_config \<Rightarrow> clock \<Rightarrow> (chunk_id \<times> chunk_meta) list \<Rightarrow> pressure_state \<Rightarrow> chunk_id option" where
  "lru_select_viction c clk cs p =
     (let resident = residents c clk cs;
          oldest = min_by (\<lambda>a b. cmp_ord (last_accessed (snd a)) (last_accessed (snd b)))
      in if cs = [] then None
         else if resident = [] then map_option fst (oldest cs)
         else map_option fst (oldest resident))"

definition lru_should_migrate :: "lru_config \<Rightarrow> clock \<Rightarrow> chunk_meta \<Rightarrow> tier_id \<Rightarrow> pressure_state \<Rightarrow> tier_id option" where
  "lru_should_migrate c clk m cur p =
     (let hot = lru_is_hot c (clk 0) m
      in if hot \<and> cur = Disk then best_tier [Ram, GpuVram] p
         else if \<not> hot \<and> cur = Ram then best_tier [Disk, GpuVram] p
         else if fgt (memory_pressure p) (f32_lit (7 / 10)) \<and> \<not> hot \<and> cur = Ram then Some Disk
         else if fgt (vram_pressure p) (f32_lit (7 / 10)) \<and> \<not> hot \<and> cur = GpuVram then Some Disk
         else None)"

definition lru_migration_priority :: "lru_config \<Rightarrow> clock \<Rightarrow> chunk_meta \<Rightarrow> pressure_state \<Rightarrow> transfer_priority" where
  "lru_migration_priority c clk m p =
     (if lru_is_hot c (clk 0) m \<and> fgt (memory_pressure p) (f32_lit (9 / 10)) then Critical
      else if lru_is_hot c (clk 1) m \<or> fgt (memory_pressure p) (f32_lit (7 / 10)) then High
      else if fgt (memory_pressure p) (f32_lit (5 / 10)) then Normal
      else Low)"

definition lru_policy :: "lru_config \<Rightarrow> placement_policy" where
  "lru_policy c = \<lparr>policy_name = ''lru'', select_target_tier = lru_select_target_tier c,
     select_viction = lru_select_viction c, should_migrate = lru_should_migrate c,
     migration_priority = lru_migration_priority c\<rparr>"

section \<open>The pressure-aware policy\<close>

record pressure_aware_config =
  ram_high_watermark :: f32
  ram_critical_watermark :: f32
  vram_high_watermark :: f32
  vram_critical_watermark :: f32
  io_high_watermark :: f32
  io_critical_watermark :: f32
  critical_pressure :: f32
  high_pressure :: f32
  normal_pressure :: f32
  pa_time_secs :: u64

definition pressure_aware_config_default :: pressure_aware_config where
  "pressure_aware_config_default = \<lparr>
     ram_high_watermark = f32_lit (7 / 10), ram_critical_watermark = f32_lit (9 / 10),
     vram_high_watermark = f32_lit (7 / 10), vram_critical_watermark = f32_lit (9 / 10),
     io_high_watermark = f32_lit (7 / 10), io_critical_watermark = f32_lit (9 / 10),
     critical_pressure = f32_lit (9 / 10), high_pressure = f32_lit (7 / 10), normal_pressure = f32_lit (5 / 10),
     pa_time_secs = 0\<rparr>"

fun is_tier_pressured :: "pressure_aware_config \<Rightarrow> tier_id \<Rightarrow> pressure_state \<Rightarrow> bool" where
  "is_tier_pressured c Ram p = fge (memory_pressure p) (ram_high_watermark c)"
| "is_tier_pressured c GpuVram p = fge (vram_pressure p) (vram_high_watermark c)"
| "is_tier_pressured c Disk p = fge (io_pressure p) (io_high_watermark c)"
| "is_tier_pressured c Simulation p = False"

fun is_tier_critical :: "pressure_aware_config \<Rightarrow> tier_id \<Rightarrow> pressure_state \<Rightarrow> bool" where
  "is_tier_critical c Ram p = fge (memory_pressure p) (ram_critical_watermark c)"
| "is_tier_critical c GpuVram p = fge (vram_pressure p) (vram_critical_watermark c)"
| "is_tier_critical c Disk p = fge (io_pressure p) (io_critical_watermark c)"
| "is_tier_critical c Simulation p = False"

definition pa_select_target_tier :: "pressure_aware_config \<Rightarrow> clock \<Rightarrow> chunk_meta \<Rightarrow> pressure_state \<Rightarrow> tier_id list \<Rightarrow> tier_id" where
  "pa_select_target_tier c clk m p avail =
     (if avail = [] then Disk
      else let viable = filter (\<lambda>t. \<not> is_tier_critical c t p) avail
           in if viable = [] then unwrap_or (avail ! 0) (min_by (score_cmp p) avail)
              else unwrap_or (viable ! 0) (max_by (score_cmp p) viable))"

text \<open>The comparator of victims: a pressured tier first, then the least recently accessed.\<close>

definition victim_cmp :: "bool \<times> u64 \<Rightarrow> bool \<times> u64 \<Rightarrow> rust_ordering" where
  "victim_cmp a b = (case (fst a, fst b) of
       (True, False) \<Rightarrow> OrdGreater
     | (False, True) \<Rightarrow> OrdLess
     | _ \<Rightarrow> reverse_ordering (cmp_ord (snd a) (snd b)))"

definition victim_key :: "pressure_aware_config \<Rightarrow> pressure_state \<Rightarrow> chunk_id \<times> chunk_meta \<Rightarrow> bool \<times> u64" where
  "victim_key c p x = (is_tier_pressured c (meta_tier (snd x)) p, last_accessed (snd x))"

definition pa_select_viction ::
  "pressure_aware_config \<Rightarrow> clock \<Rightarrow> (chunk_id \<times> chunk_meta) list \<Rightarrow> pressure_state \<Rightarrow> chunk_id option" where
  "pa_select_viction c clk cs p =
     (if cs = [] then None
      else map_option fst (max_by (\<lambda>a b. victim_cmp (victim_key c p a) (victim_key c p b)) cs))"

definition pa_should_migrate :: "pressure_aware_config \<Rightarrow> clock \<Rightarrow> chunk_meta \<Rightarrow> tier_id \<Rightarrow> pressure_state \<Rightarrow> tier_id option" where
  "pa_should_migrate c clk m cur p =
     (let away = (if is_tier_critical c cur p
                  then max_by (score_cmp p) (filter (\<lambda>t. t \<noteq> cur \<and> \<not> is_tier_critical c t p) [Ram, GpuVram, Disk])
                  else None)
      in case away of Some t \<Rightarrow> Some t
         | None \<Rightarrow> if is_tier_pressured c cur p \<and> saturating_sub (pa_time_secs c) (last_accessed m) > 300
                   then max_by (score_cmp p) (filter (\<lambda>t. t \<noteq> cur) [Ram, GpuVram, Disk])
                   else None)"

definition pa_migration_priority :: "pressure_aware_config \<Rightarrow> clock \<Rightarrow> chunk_meta \<Rightarrow> pressure_state \<Rightarrow> transfer_priority" where
  "pa_migration_priority c clk m p =
     (if fge (max_pressure p) (critical_pressure c) then Critical
      else if fge (max_pressure p) (high_pressure c) then High
      else if fge (max_pressure p) (normal_pressure c) then Normal
      else Low)"

definition pressure_aware_policy :: "pressure_aware_config \<Rightarrow> placement_policy" where
  "pressure_aware_policy c = \<lparr>policy_name = ''pressure-aware'', select_target_tier = pa_select_target_tier c,
     select_viction = pa_select_viction c, should_migrate = pa_should_migrate c,
     migration_priority = pa_migration_priority c\<rparr>"

section \<open>What a policy promises\<close>

text \<open>
  The contract the engine relies on: a placement goes to an available tier, a victim is one of
  the candidates and there is one unless there are none, and a migration leaves the current tier.
\<close>

locale placement =
  fixes pol :: placement_policy
  assumes target_available: "avail \<noteq> [] \<Longrightarrow> select_target_tier pol clk m p avail \<in> set avail"
    and victim_candidate: "select_viction pol clk cs p = Some v \<Longrightarrow> v \<in> set (map fst cs)"
    and victim_exists: "cs \<noteq> [] \<Longrightarrow> select_viction pol clk cs p \<noteq> None"
    and migration_moves: "should_migrate pol clk m cur p = Some t \<Longrightarrow> t \<noteq> cur"
begin

text \<open>Evicting victims one after the other shrinks the candidates until none is left.\<close>

lemma eviction_progress:
  assumes "cs \<noteq> []"
  obtains v where "select_viction pol clk cs p = Some v" "length (filter (\<lambda>x. fst x \<noteq> v) cs) < length cs"
proof -
  obtain v where v: "select_viction pol clk cs p = Some v" using victim_exists [OF assms, of clk p] by blast
  from victim_candidate [OF v] obtain x where "x \<in> set cs" "fst x = v" by auto
  then have "length (filter (\<lambda>x. fst x \<noteq> v) cs) < length cs"
    by (intro length_filter_less) auto
  with v show thesis by (rule that)
qed

end

lemma best_tier_in: "best_tier ts p = Some t \<Longrightarrow> t \<in> set ts"
  by (auto simp: best_tier_def max_by_in split: if_splits)

lemma best_tier_None [simp]: "best_tier ts p = None \<longleftrightarrow> ts = []"
  by (simp add: best_tier_def)

lemma residents_subset: "set (residents c clk cs) \<subseteq> set cs"
  by (auto simp: residents_def in_set_enumerate_eq) (metis nth_mem)

lemma chosen_min: "map_option fst (min_by f xs) = Some v \<Longrightarrow> v \<in> set (map fst xs)"
  using min_by_in [of f xs] by force

lemma chosen_max: "map_option fst (max_by f xs) = Some v \<Longrightarrow> v \<in> set (map fst xs)"
  using max_by_in [of f xs] by force

interpretation lru: placement "lru_policy c" for c
proof
  fix avail clk m p assume "avail \<noteq> ([] :: tier_id list)"
  then show "select_target_tier (lru_policy c) clk m p avail \<in> set avail"
    by (auto simp: lru_policy_def lru_select_target_tier_def Let_def best_tier_in split: option.split)
next
  fix clk cs p v assume "select_viction (lru_policy c) clk cs p = Some v"
  then show "v \<in> set (map fst cs)"
    using residents_subset [of c clk cs] chosen_min [of _ cs v] chosen_min [of _ "residents c clk cs" v]
    by (simp add: lru_policy_def lru_select_viction_def Let_def split: if_splits) (meson image_mono subsetD)+
next
  fix clk cs p assume "cs \<noteq> ([] :: (chunk_id \<times> chunk_meta) list)"
  then show "select_viction (lru_policy c) clk cs p \<noteq> None"
    by (simp add: lru_policy_def lru_select_viction_def Let_def del: not_None_eq)
next
  fix clk m cur p t assume "should_migrate (lru_policy c) clk m cur p = Some t"
  then show "t \<noteq> cur"
    by (auto simp: lru_policy_def lru_should_migrate_def Let_def dest: best_tier_in split: if_splits)
qed

interpretation pressure_aware: placement "pressure_aware_policy c" for c
proof
  fix avail clk m p assume "avail \<noteq> ([] :: tier_id list)"
  then show "select_target_tier (pressure_aware_policy c) clk m p avail \<in> set avail"
    by (auto simp: pressure_aware_policy_def pa_select_target_tier_def Let_def unwrap_or_def
        dest!: max_by_in min_by_in split: option.splits)
next
  fix clk cs p v assume "select_viction (pressure_aware_policy c) clk cs p = Some v"
  then show "v \<in> set (map fst cs)"
    using chosen_max [of _ cs v] by (simp add: pressure_aware_policy_def pa_select_viction_def split: if_splits)
next
  fix clk cs p assume "cs \<noteq> ([] :: (chunk_id \<times> chunk_meta) list)"
  then show "select_viction (pressure_aware_policy c) clk cs p \<noteq> None"
    by (simp add: pressure_aware_policy_def pa_select_viction_def del: not_None_eq)
next
  fix clk m cur p t assume "should_migrate (pressure_aware_policy c) clk m cur p = Some t"
  then show "t \<noteq> cur"
    by (auto simp: pressure_aware_policy_def pa_should_migrate_def Let_def dest!: max_by_in split: if_splits option.splits)
qed

section \<open>Scores are numbers of the unit interval\<close>

definition number_pressure :: "pressure_state \<Rightarrow> bool" where
  "number_pressure p \<longleftrightarrow> memory_pressure p \<noteq> NaN \<and> vram_pressure p \<noteq> NaN \<and> io_pressure p \<noteq> NaN"

lemma one_minus_number: "x \<noteq> NaN \<Longrightarrow> fsub binary32 (Fin 1) x \<noteq> NaN"
  by (cases x) (simp_all add: fsub_def)

lemma pressure_factor_number: "number_pressure p \<Longrightarrow> pressure_factor t p \<noteq> NaN"
  by (cases t) (simp_all add: number_pressure_def one_minus_number)

lemma tier_weight_unit: "\<exists>w. tier_weight t = Fin w \<and> 0 \<le> w \<and> w \<le> 1"
proof -
  have "in_unit (tier_weight t)" by (cases t) (simp_all add: f32_lit_def rnd_in_unit)
  then show ?thesis by (simp add: in_unit_iff)
qed

lemma tier_score_in_unit: "number_pressure p \<Longrightarrow> in_unit (tier_pressure_score t p)"
  using tier_weight_unit [of t] pressure_factor_number [of p t]
  by (auto simp: tier_pressure_score_def in_unit_iff [of "tier_weight t"] intro!: mul_in_unit clamp01_in_unit)

lemma score_number: "number_pressure p \<Longrightarrow> tier_pressure_score t p \<noteq> NaN"
  using tier_score_in_unit [of p t] by (auto simp: in_unit_iff)

lemma max_score:
  assumes "number_pressure p" "max_by (score_cmp p) ts = Some m" "t \<in> set ts"
  shows "fle (tier_pressure_score t p) (tier_pressure_score m p)"
  using floats.max_by_greatest [of "\<lambda>t. tier_pressure_score t p" ts m t] assms score_number
  by (simp add: score_cmp_def [abs_def])

lemma min_score:
  assumes "number_pressure p" "min_by (score_cmp p) ts = Some m" "t \<in> set ts"
  shows "fle (tier_pressure_score m p) (tier_pressure_score t p)"
  using floats.min_by_least [of "\<lambda>t. tier_pressure_score t p" ts m t] assms score_number
  by (simp add: score_cmp_def [abs_def])

section \<open>Placement\<close>

text \<open>
  With readings that are numbers, the pressure-aware policy places a chunk on an available
  tier that is not critically pressured when there is one, and then on the best scored of these;
  when every available tier is critical it takes the one with the lowest score.
\<close>

theorem pressure_aware_target:
  assumes "number_pressure p" "avail \<noteq> []"
  shows "pa_select_target_tier c clk m p avail \<in> set avail
    \<and> (if \<exists>t\<in>set avail. \<not> is_tier_critical c t p
       then \<not> is_tier_critical c (pa_select_target_tier c clk m p avail) p
          \<and> (\<forall>t\<in>set avail. \<not> is_tier_critical c t p \<longrightarrow>
               fle (tier_pressure_score t p) (tier_pressure_score (pa_select_target_tier c clk m p avail) p))
       else \<forall>t\<in>set avail.
               fle (tier_pressure_score (pa_select_target_tier c clk m p avail) p) (tier_pressure_score t p))"
proof -
  let ?v = "filter (\<lambda>t. \<not> is_tier_critical c t p) avail"
  have target: "pa_select_target_tier c clk m p avail \<in> set avail"
    using pressure_aware.target_available [OF assms(2), of c clk m p] by (simp add: pressure_aware_policy_def)
  show ?thesis
  proof (cases "?v = []")
    case True
    then obtain t where t: "min_by (score_cmp p) avail = Some t" using min_by_exists [OF assms(2)] by blast
    have "pa_select_target_tier c clk m p avail = t" using True assms(2) t by (simp add: pa_select_target_tier_def)
    then show ?thesis using True target min_score [OF assms(1) t] by (auto simp: filter_empty_conv)
  next
    case False
    then obtain t where t: "max_by (score_cmp p) ?v = Some t" using max_by_exists by blast
    have e: "pa_select_target_tier c clk m p avail = t"
      using False assms(2) t by (simp add: pa_select_target_tier_def Let_def)
    have "\<not> is_tier_critical c t p" using max_by_in [OF t] by simp
    moreover have "\<exists>t\<in>set avail. \<not> is_tier_critical c t p" using False by (simp add: filter_empty_conv)
    moreover have "\<forall>u\<in>set avail. \<not> is_tier_critical c u p \<longrightarrow> fle (tier_pressure_score u p) (tier_pressure_score t p)"
      using max_score [OF assms(1) t] by simp
    ultimately show ?thesis using target unfolding e by simp
  qed
qed

definition demo_meta :: "nat \<Rightarrow> tier_id \<Rightarrow> u64 \<Rightarrow> chunk_meta" where
  "demo_meta n t acc = (chunk_meta_new (ChunkId [of_nat n]) 4096 4096 t NoCompression [] 0)\<lparr>last_accessed := acc\<rparr>"

theorem pressure_aware_target_witness:
  "pa_select_target_tier pressure_aware_config_default (\<lambda>_. 0) (demo_meta 1 Ram 0) busy [Ram, Disk] \<in> set [Ram, Disk]"
proof -
  have n: "number_pressure busy" by (simp add: number_pressure_def busy_def)
  show ?thesis
    using pressure_aware_target [OF n, of "[Ram, Disk]" pressure_aware_config_default "\<lambda>_. 0" "demo_meta 1 Ram 0"] by blast
qed

section \<open>Victims\<close>

text \<open>
  The LRU victim is a candidate, resident long enough if any candidate is, and no candidate
  (no resident candidate, if there are any) was accessed before it.
\<close>

theorem lru_victim_least_recent:
  assumes "cs \<noteq> []"
  shows "\<exists>v m. lru_select_viction c clk cs p = Some v \<and> (v, m) \<in> set cs
    \<and> (residents c clk cs \<noteq> [] \<longrightarrow> (v, m) \<in> set (residents c clk cs))
    \<and> (\<forall>(w, n) \<in> set (if residents c clk cs = [] then cs else residents c clk cs). last_accessed m \<le> last_accessed n)"
proof -
  let ?pool = "if residents c clk cs = [] then cs else residents c clk cs"
  have "?pool \<noteq> []" using assms by simp
  then obtain x where x: "min_by (\<lambda>a b. cmp_ord (last_accessed (snd a)) (last_accessed (snd b))) ?pool = Some x"
    using min_by_exists by blast
  obtain v m where vm: "x = (v, m)" by fastforce
  have "lru_select_viction c clk cs p = Some v" using x vm assms by (auto simp: lru_select_viction_def Let_def)
  moreover have "(v, m) \<in> set ?pool" using min_by_in [OF x] vm by simp
  moreover have "last_accessed m \<le> last_accessed (snd y)" if "y \<in> set ?pool" for y
    using asc.min_by_least [of "\<lambda>a. last_accessed (snd a)", OF x] that vm by simp
  ultimately show ?thesis using residents_subset [of c clk cs] by (intro exI [of _ v] exI [of _ m]) (auto split: if_splits)
qed

lemma residents_none: "(\<And>i x. x \<in> set cs \<Longrightarrow> \<not> lru_is_resident c (clk i) (snd x)) \<Longrightarrow> residents c clk cs = []"
  by (auto simp: residents_def filter_empty_conv in_set_enumerate_eq) (metis nth_mem snd_conv)

theorem lru_victim_least_recent_witness:
  "lru_select_viction lru_config_default (\<lambda>_. 10) [(ChunkId [1], demo_meta 1 Ram 9), (ChunkId [2], demo_meta 2 Ram 4)] pressure_new
     = Some (ChunkId [2])"
proof -
  let ?cs = "[(ChunkId [1], demo_meta 1 Ram 9), (ChunkId [2], demo_meta 2 Ram 4)]"
  have r: "residents lru_config_default (\<lambda>_. 10) ?cs = []"
    by (rule residents_none)
       (auto simp: lru_is_resident_def lru_config_default_def lru_now_def saturating_sub_def demo_meta_def chunk_meta_new_def word_le_nat_alt)
  obtain v m where "lru_select_viction lru_config_default (\<lambda>_. 10) ?cs pressure_new = Some v" "(v, m) \<in> set ?cs"
    "\<forall>(w, n) \<in> set ?cs. last_accessed m \<le> last_accessed n"
    using lru_victim_least_recent [of ?cs lru_config_default "\<lambda>_. 10" pressure_new] r by auto
  then show ?thesis by (auto simp: demo_meta_def word_le_nat_alt)
qed

text \<open>The order of victims as a ranking of their keys.\<close>

definition victim_le :: "bool \<times> u64 \<Rightarrow> bool \<times> u64 \<Rightarrow> bool" where
  "victim_le a b \<longleftrightarrow> (\<not> fst a \<and> fst b) \<or> (fst a = fst b \<and> snd b \<le> snd a)"

interpretation victims: ranking victim_le "\<lambda>_. True" victim_cmp
  by unfold_locales (auto simp: victim_le_def victim_cmp_def split: bool.splits)

text \<open>
  The pressure-aware victim is on a pressured tier whenever some candidate is, and among the
  candidates of the same pressure status none was accessed before it.
\<close>

theorem pressure_aware_victim:
  assumes "cs \<noteq> []"
  shows "\<exists>v m. pa_select_viction c clk cs p = Some v \<and> (v, m) \<in> set cs
    \<and> (\<forall>(w, n) \<in> set cs.
         (is_tier_pressured c (meta_tier n) p \<longrightarrow> is_tier_pressured c (meta_tier m) p)
       \<and> (is_tier_pressured c (meta_tier n) p = is_tier_pressured c (meta_tier m) p \<longrightarrow> last_accessed m \<le> last_accessed n))"
proof -
  obtain x where x: "max_by (\<lambda>a b. victim_cmp (victim_key c p a) (victim_key c p b)) cs = Some x"
    using max_by_exists [OF assms] by blast
  obtain v m where vm: "x = (v, m)" by fastforce
  have le: "victim_le (victim_key c p y) (victim_key c p (v, m))" if "y \<in> set cs" for y
    using victims.max_by_greatest [OF x] that vm by simp
  have "(is_tier_pressured c (meta_tier n) p \<longrightarrow> is_tier_pressured c (meta_tier m) p)
       \<and> (is_tier_pressured c (meta_tier n) p = is_tier_pressured c (meta_tier m) p \<longrightarrow> last_accessed m \<le> last_accessed n)"
    if "(w, n) \<in> set cs" for w n
    using le [OF that] by (auto simp: victim_le_def victim_key_def)
  moreover have "pa_select_viction c clk cs p = Some v" "(v, m) \<in> set cs"
    using x vm assms max_by_in [OF x] by (simp_all add: pa_select_viction_def)
  ultimately show ?thesis by blast
qed

theorem pressure_aware_victim_witness:
  "pa_select_viction pressure_aware_config_default (\<lambda>_. 0) [(ChunkId [1], demo_meta 1 Disk 1), (ChunkId [2], demo_meta 2 Ram 4)] busy
     = Some (ChunkId [2])"
proof -
  let ?cs = "[(ChunkId [1], demo_meta 1 Disk 1), (ChunkId [2], demo_meta 2 Ram 4)]"
  have "is_tier_pressured pressure_aware_config_default Ram busy" "\<not> is_tier_pressured pressure_aware_config_default Disk busy"
    by (simp_all add: pressure_aware_config_default_def busy_def)
  then show ?thesis
    using pressure_aware_victim [of ?cs pressure_aware_config_default "\<lambda>_. 0" busy]
    by (auto simp: demo_meta_def chunk_meta_new_def)
qed

section \<open>Migration\<close>

text \<open>
  The pressure-aware policy moves a chunk off a critically pressured tier whenever another
  tier is not critical, to the best scored such tier; it never moves a chunk whose tier is
  neither pressured nor critical, and never to the tier the chunk is on.
\<close>

theorem pressure_aware_migrates:
  assumes "number_pressure p"
  shows "(is_tier_critical c cur p \<and> (\<exists>t. t \<noteq> cur \<and> t \<noteq> Simulation \<and> \<not> is_tier_critical c t p) \<longrightarrow>
            (\<exists>t. pa_should_migrate c clk m cur p = Some t \<and> t \<noteq> cur \<and> \<not> is_tier_critical c t p
               \<and> (\<forall>u. u \<noteq> cur \<and> u \<noteq> Simulation \<and> \<not> is_tier_critical c u p \<longrightarrow>
                    fle (tier_pressure_score u p) (tier_pressure_score t p))))
       \<and> (\<not> is_tier_critical c cur p \<and> \<not> is_tier_pressured c cur p \<longrightarrow> pa_should_migrate c clk m cur p = None)
       \<and> pa_should_migrate c clk m cur p \<noteq> Some cur"
proof (intro conjI impI)
  assume a: "is_tier_critical c cur p \<and> (\<exists>t. t \<noteq> cur \<and> t \<noteq> Simulation \<and> \<not> is_tier_critical c t p)"
  let ?cs = "filter (\<lambda>t. t \<noteq> cur \<and> \<not> is_tier_critical c t p) [Ram, GpuVram, Disk]"
  have in_cs: "u \<in> set ?cs \<longleftrightarrow> u \<noteq> cur \<and> u \<noteq> Simulation \<and> \<not> is_tier_critical c u p" for u by (cases u) simp_all
  from a obtain u where u: "u \<noteq> cur \<and> u \<noteq> Simulation \<and> \<not> is_tier_critical c u p" by (elim conjE exE) (rule that, simp)
  have "?cs \<noteq> []" using iffD2 [OF in_cs u] by (rule length_pos_if_in_set [THEN length_greater_0_conv [THEN iffD1]])
  from max_by_exists [OF this] obtain t where t: "max_by (score_cmp p) ?cs = Some t" by (rule exE)
  have "pa_should_migrate c clk m cur p = Some t" using conjunct1 [OF a] t by (simp only: pa_should_migrate_def Let_def if_True option.case)
  moreover have "t \<noteq> cur \<and> \<not> is_tier_critical c t p" using iffD1 [OF in_cs max_by_in [OF t]] by (elim conjE) (intro conjI)
  moreover have "\<forall>u. u \<noteq> cur \<and> u \<noteq> Simulation \<and> \<not> is_tier_critical c u p \<longrightarrow>
      fle (tier_pressure_score u p) (tier_pressure_score t p)"
    by (intro allI impI max_score [OF assms t] iffD2 [OF in_cs])
  ultimately show "\<exists>t. pa_should_migrate c clk m cur p = Some t \<and> t \<noteq> cur \<and> \<not> is_tier_critical c t p
      \<and> (\<forall>u. u \<noteq> cur \<and> u \<noteq> Simulation \<and> \<not> is_tier_critical c u p \<longrightarrow>
           fle (tier_pressure_score u p) (tier_pressure_score t p))" by blast
next
  assume "\<not> is_tier_critical c cur p \<and> \<not> is_tier_pressured c cur p"
  then show "pa_should_migrate c clk m cur p = None" by (simp add: pa_should_migrate_def)
next
  show "pa_should_migrate c clk m cur p \<noteq> Some cur"
    using pressure_aware.migration_moves [of c clk m cur p cur] by (auto simp: pressure_aware_policy_def)
qed

theorem pressure_aware_migrates_witness:
  "\<exists>t. pa_should_migrate pressure_aware_config_default (\<lambda>_. 0) (demo_meta 1 Ram 0) Ram busy = Some t \<and> t \<noteq> Ram"
proof -
  have n: "number_pressure busy" by (simp add: number_pressure_def busy_def)
  have "is_tier_critical pressure_aware_config_default Ram busy" "\<not> is_tier_critical pressure_aware_config_default Disk busy"
    by (simp_all add: pressure_aware_config_default_def busy_def)
  then show ?thesis using pressure_aware_migrates [OF n, of pressure_aware_config_default Ram "\<lambda>_. 0" "demo_meta 1 Ram 0"] by blast
qed

text \<open>
  What the LRU policy migrates; the branch of the source for memory pressure is never reached. A hot chunk leaves disk and only disk; a cold chunk leaves RAM
  under any pressure, whatever the memory pressure is, and leaves GPU memory exactly when that is
  pressured, then to disk.
\<close>

lemma lru_migrates:
  "lru_should_migrate c clk m cur p =
     (if lru_is_hot c (clk 0) m then (if cur = Disk then best_tier [Ram, GpuVram] p else None)
      else if cur = Ram then best_tier [Disk, GpuVram] p
      else if cur = GpuVram \<and> fgt (vram_pressure p) (f32_lit (7 / 10)) then Some Disk
      else None)
   \<and> (lru_should_migrate c clk m Ram p = None \<longleftrightarrow> lru_is_hot c (clk 0) m)
   \<and> (lru_should_migrate c clk m Disk p = None \<longleftrightarrow> \<not> lru_is_hot c (clk 0) m)"
  by (simp add: lru_should_migrate_def Let_def)

end
