(* ===== verification/Hotness.thy ===== *)
theory Hotness
  imports Pressure_Model
begin

text \<open>
  \<^verbatim>\<open>ghost-core/src/hotness.rs\<close>: the hotness of a chunk, a weighted sum of frequency, recency and
  regularity in single precision. The exponential of the recency decay is an argument \<open>expo\<close>
  (\<^verbatim>\<open>f64::exp\<close> has no specified rounding); the facts about it assume only that it maps numbers that
  are not positive into the unit interval.
\<close>

text \<open>\<^verbatim>\<open>x as f32\<close> for a double.\<close>

fun f32_of_f64 :: "f64 \<Rightarrow> f32" where
  "f32_of_f64 (Fin x) = rnd binary32 x"
| "f32_of_f64 x = x"

record chunk_hotness =
  h_chunk_id :: chunk_id
  h_access_count :: u64
  h_last_accessed :: u64
  h_first_accessed :: u64
  h_score :: f32
  frequency_score :: f32
  recency_score :: f32
  regularity_score :: f32
  total_bytes :: u64

definition hotness_new :: "chunk_id \<Rightarrow> u64 \<Rightarrow> chunk_hotness" where
  "hotness_new cid now = \<lparr>h_chunk_id = cid, h_access_count = 0, h_last_accessed = now, h_first_accessed = now,
     h_score = f32_lit 0, frequency_score = f32_lit 0, recency_score = f32_lit 0, regularity_score = f32_lit 0,
     total_bytes = 0\<rparr>"

definition frequency_of :: "u64 \<Rightarrow> f32" where
  "frequency_of n = fsub binary32 (f32_lit 1)
     (fdiv binary32 (f32_lit 1) (fadd binary32 (f32_lit 1) (fdiv binary32 (of_word binary32 n) (f32_lit 10))))"

definition regularity_of :: "u64 \<Rightarrow> f32" where
  "regularity_of n = (if n > 2 then f32_lit (5 / 10) else f32_lit (1 / 10))"

definition recency_of :: "(f64 \<Rightarrow> f64) \<Rightarrow> u64 \<Rightarrow> f32" where
  "recency_of expo age = (if age = 0 then f32_lit 1
     else f32_of_f64 (expo (fdiv binary64 (fmul binary64 (f64_lit (- 693 / 1000)) (of_word binary64 age)) (f64_lit 60))))"

definition weighted_score :: "f32 \<Rightarrow> f32 \<Rightarrow> f32 \<Rightarrow> f32" where
  "weighted_score f r g = clamp01 (fadd binary32 (fadd binary32
     (fmul binary32 (f32_lit (4 / 10)) f) (fmul binary32 (f32_lit (4 / 10)) r)) (fmul binary32 (f32_lit (2 / 10)) g))"

definition recompute_score :: "chunk_hotness \<Rightarrow> chunk_hotness" where
  "recompute_score h =
     (let f = frequency_of (h_access_count h); g = regularity_of (h_access_count h)
      in h\<lparr>frequency_score := f, regularity_score := g, h_score := weighted_score f (recency_score h) g\<rparr>)"

text \<open>The age is computed after \<open>last_accessed\<close> has been set to \<open>now\<close>.\<close>

definition hotness_record_access :: "profile \<Rightarrow> (f64 \<Rightarrow> f64) \<Rightarrow> u64 \<Rightarrow> usize \<Rightarrow> (chunk_hotness, unit, ghost_error) act" where
  "hotness_record_access pr expo now sz =
     bind_act (\<lambda>h. (add_pr pr (h_access_count h) 1, h)) (\<lambda>n.
     bind_act (update_act (\<lambda>h. h\<lparr>h_access_count := n, h_last_accessed := now\<rparr>)) (\<lambda>_.
     bind_act (\<lambda>h. (add_pr pr (total_bytes h) sz, h)) (\<lambda>b.
     update_act (\<lambda>h.
       let h1 = h\<lparr>total_bytes := b\<rparr>;
           h2 = (if h_access_count h1 = 1 then h1\<lparr>h_first_accessed := now\<rparr> else h1);
           age = saturating_sub now (h_last_accessed h2)
       in recompute_score (h2\<lparr>recency_score := recency_of expo age\<rparr>)))))"

definition update_recency :: "(f64 \<Rightarrow> f64) \<Rightarrow> u64 \<Rightarrow> chunk_hotness \<Rightarrow> chunk_hotness" where
  "update_recency expo now h =
     recompute_score (h\<lparr>recency_score := recency_of expo (saturating_sub now (h_last_accessed h))\<rparr>)"

definition is_hot :: "chunk_hotness \<Rightarrow> bool" where
  "is_hot h = fge (h_score h) (f32_lit (5 / 10))"

definition is_cold :: "chunk_hotness \<Rightarrow> bool" where
  "is_cold h = flt (h_score h) (f32_lit (2 / 10))"

definition access_frequency :: "u64 \<Rightarrow> chunk_hotness \<Rightarrow> f64" where
  "access_frequency now h =
     (let elapsed = saturating_sub now (h_first_accessed h)
      in if elapsed = 0 then f64_lit 0
         else fdiv binary64 (of_word binary64 (h_access_count h)) (of_word binary64 elapsed))"

section \<open>Roundings of the score at the thresholds\<close>

lemma rnd_h1 [simp]: "rnd binary32 (2 / 5) = Fin (13421773 / 33554432)"
  by (subst rnd_eval [where k = "-2" and e = "-25" and m = 13421773]) (simp_all add: f32_eval)

lemma rnd_h2 [simp]: "rnd binary32 (1 / 5) = Fin (13421773 / 67108864)"
  by (subst rnd_eval [where k = "-3" and e = "-26" and m = 13421773]) (simp_all add: f32_eval)

lemma rnd_h3 [simp]: "rnd binary32 (1 / 2) = Fin (1 / 2)"
  by (subst rnd_eval [where k = "-1" and e = "-24" and m = 8388608]) (simp_all add: f32_eval)

lemma rnd_h4 [simp]: "rnd binary32 (1 / 10) = Fin (13421773 / 134217728)"
  by (subst rnd_eval [where k = "-4" and e = "-27" and m = 13421773]) (simp_all add: f32_eval)

lemma rnd_h5 [simp]: "rnd binary32 (80530637 / 67108864) = Fin (5033165 / 4194304)"
  by (subst rnd_eval [where k = "0" and e = "-23" and m = 10066330]) (simp_all add: f32_eval)

lemma rnd_h6 [simp]: "rnd binary32 (4194304 / 5033165) = Fin (13981013 / 16777216)"
  by (subst rnd_eval [where k = "-1" and e = "-24" and m = 13981013]) (simp_all add: f32_eval)

lemma rnd_h7 [simp]: "rnd binary32 (2796203 / 16777216) = Fin (2796203 / 16777216)"
  by (subst rnd_eval [where k = "-3" and e = "-26" and m = 11184812]) (simp_all add: f32_eval)

lemma rnd_h8 [simp]: "rnd binary32 (37530001927919 / 562949953421312) = Fin (4473925 / 67108864)"
  by (subst rnd_eval [where k = "-4" and e = "-27" and m = 8947850]) (simp_all add: f32_eval)

lemma rnd_h9 [simp]: "rnd binary32 (13421773 / 33554432) = Fin (13421773 / 33554432)"
  by (subst rnd_eval [where k = "-2" and e = "-25" and m = 13421773]) (simp_all add: f32_eval)

lemma rnd_h10 [simp]: "rnd binary32 (180143990463529 / 9007199254740992) = Fin (10737419 / 536870912)"
  by (subst rnd_eval [where k = "-6" and e = "-29" and m = 10737419]) (simp_all add: f32_eval)

lemma rnd_h11 [simp]: "rnd binary32 (31317471 / 67108864) = Fin (978671 / 2097152)"
  by (subst rnd_eval [where k = "-2" and e = "-25" and m = 15658736]) (simp_all add: f32_eval)

lemma rnd_h12 [simp]: "rnd binary32 (261277195 / 536870912) = Fin (16329825 / 33554432)"
  by (subst rnd_eval [where k = "-2" and e = "-25" and m = 16329825]) (simp_all add: f32_eval)

lemma rnd_h13 [simp]: "rnd binary32 (3 / 10) = Fin (5033165 / 16777216)"
  by (subst rnd_eval [where k = "-2" and e = "-25" and m = 10066330]) (simp_all add: f32_eval)

lemma rnd_h14 [simp]: "rnd binary32 (21810381 / 16777216) = Fin (5452595 / 4194304)"
  by (subst rnd_eval [where k = "0" and e = "-23" and m = 10905190]) (simp_all add: f32_eval)

lemma rnd_h15 [simp]: "rnd binary32 (4194304 / 5452595) = Fin (12905551 / 16777216)"
  by (subst rnd_eval [where k = "-1" and e = "-24" and m = 12905551]) (simp_all add: f32_eval)

lemma rnd_h16 [simp]: "rnd binary32 (3871665 / 16777216) = Fin (3871665 / 16777216)"
  by (subst rnd_eval [where k = "-3" and e = "-26" and m = 15486660]) (simp_all add: f32_eval)

lemma rnd_h17 [simp]: "rnd binary32 (51964608762045 / 562949953421312) = Fin (774333 / 8388608)"
  by (subst rnd_eval [where k = "-4" and e = "-27" and m = 12389328]) (simp_all add: f32_eval)

lemma rnd_h18 [simp]: "rnd binary32 (13421773 / 134217728) = Fin (13421773 / 134217728)"
  by (subst rnd_eval [where k = "-4" and e = "-27" and m = 13421773]) (simp_all add: f32_eval)

lemma rnd_h19 [simp]: "rnd binary32 (16519105 / 33554432) = Fin (16519105 / 33554432)"
  by (subst rnd_eval [where k = "-2" and e = "-25" and m = 16519105]) (simp_all add: f32_eval)

lemma rnd_h20 [simp]: "rnd binary32 (79498193 / 134217728) = Fin (4968637 / 8388608)"
  by (subst rnd_eval [where k = "-1" and e = "-24" and m = 9937274]) (simp_all add: f32_eval)

lemma rnd_h21 [simp]: "rnd binary32 (774333 / 8388608) = Fin (774333 / 8388608)"
  by (subst rnd_eval [where k = "-4" and e = "-27" and m = 12389328]) (simp_all add: f32_eval)

lemma rnd_h22 [simp]: "rnd binary32 (25811101 / 134217728) = Fin (6452775 / 33554432)"
  by (subst rnd_eval [where k = "-3" and e = "-26" and m = 12905550]) (simp_all add: f32_eval)

lemma rnd_h23 [simp]: "rnd binary32 (46976205 / 33554432) = Fin (11744051 / 8388608)"
  by (subst rnd_eval [where k = "0" and e = "-23" and m = 11744051]) (simp_all add: f32_eval)

lemma rnd_h24 [simp]: "rnd binary32 (8388608 / 11744051) = Fin (5991863 / 8388608)"
  by (subst rnd_eval [where k = "-1" and e = "-24" and m = 11983726]) (simp_all add: f32_eval)

lemma rnd_h25 [simp]: "rnd binary32 (2396745 / 8388608) = Fin (2396745 / 8388608)"
  by (subst rnd_eval [where k = "-2" and e = "-25" and m = 9586980]) (simp_all add: f32_eval)

lemma rnd_h26 [simp]: "rnd binary32 (32168567328885 / 281474976710656) = Fin (479349 / 4194304)"
  by (subst rnd_eval [where k = "-4" and e = "-27" and m = 15339168]) (simp_all add: f32_eval)

lemma rnd_h27 [simp]: "rnd binary32 (479349 / 4194304) = Fin (479349 / 4194304)"
  by (subst rnd_eval [where k = "-4" and e = "-27" and m = 15339168]) (simp_all add: f32_eval)

lemma rnd_h28 [simp]: "rnd binary32 (28760941 / 134217728) = Fin (7190235 / 33554432)"
  by (subst rnd_eval [where k = "-3" and e = "-26" and m = 14380470]) (simp_all add: f32_eval)

lemma rnd_h29 [simp]: "rnd binary32 (225485787 / 536870912) = Fin (7046431 / 16777216)"
  by (subst rnd_eval [where k = "-2" and e = "-25" and m = 14092862]) (simp_all add: f32_eval)

lemma f32_lits [simp]:
  "f32_lit (1 / 2) = Fin (1 / 2)" "f32_lit (2 / 5) = Fin (13421773 / 33554432)"
  "f32_lit (1 / 5) = Fin (13421773 / 67108864)" "f32_lit (1 / 10) = Fin (13421773 / 134217728)"
  by (simp_all add: f32_lit_def)

lemma rnd_nat [simp]: "rnd binary32 2 = Fin 2" "rnd binary32 3 = Fin 3" "rnd binary32 4 = Fin 4" "rnd binary32 10 = Fin 10"
  by (subst rnd_eval [where k = 1 and e = "- 22" and m = "2 ^ 23"] rnd_eval [where k = 1 and e = "- 22" and m = "3 * 2 ^ 22"]
        rnd_eval [where k = 2 and e = "- 21" and m = "2 ^ 23"] rnd_eval [where k = 3 and e = "- 20" and m = "10 * 2 ^ 20"];
      simp add: f32_eval)+

section \<open>Monotone arithmetic on numbers that are not negative\<close>

lemma fle_PInf [simp]: "fle x PInf \<longleftrightarrow> x \<noteq> NaN"
  by (cases x) simp_all

lemma fadd_mono:
  assumes "wf_format fm" "fle (Fin 0) x" "fle (Fin 0) y" "fle x x'" "fle y y'"
  shows "fle (fadd fm x y) (fadd fm x' y')"
  using assms by (cases x; cases y; cases x'; cases y') (auto intro!: rnd_mono)

lemma fadd_nonneg: "wf_format fm \<Longrightarrow> fle (Fin 0) x \<Longrightarrow> fle (Fin 0) y \<Longrightarrow> fle (Fin 0) (fadd fm x y)"
  by (cases x; cases y) (auto intro!: rnd_nonneg)

lemma fmul_mono_unit:
  assumes "wf_format fm" "0 \<le> w" "in_unit x" "in_unit x'" "fle x x'"
  shows "fle (fmul fm (Fin w) x) (fmul fm (Fin w) x')"
  using assms by (auto simp: in_unit_iff intro!: rnd_mono mult_left_mono)

lemma fmul_nonneg_unit: "wf_format fm \<Longrightarrow> 0 \<le> w \<Longrightarrow> in_unit x \<Longrightarrow> fle (Fin 0) (fmul fm (Fin w) x)"
  by (auto simp: in_unit_iff intro!: rnd_nonneg)

lemma fdiv_mono_pos: "wf_format fm \<Longrightarrow> 0 < w \<Longrightarrow> x \<le> y \<Longrightarrow> fle (fdiv fm (Fin x) (Fin w)) (fdiv fm (Fin y) (Fin w))"
  by (auto intro!: rnd_mono divide_right_mono)

lemma recip_in_unit: "wf_format fm \<Longrightarrow> fle (Fin 1) x \<Longrightarrow> in_unit (fdiv fm (Fin 1) x)"
  by (cases x) (auto intro!: rnd_in_unit)

lemma recip_antimono:
  assumes "wf_format fm" "fle (Fin 1) x" "fle x y"
  shows "fle (fdiv fm (Fin 1) y) (fdiv fm (Fin 1) x)"
  using assms by (cases x; cases y) (auto intro!: rnd_mono rnd_nonneg divide_left_mono)

lemma one_minus_antimono:
  assumes "wf_format fm" "in_unit x" "in_unit y" "fle x y"
  shows "fle (fsub fm (Fin 1) y) (fsub fm (Fin 1) x)"
  using assms by (auto simp: in_unit_iff fsub_def intro!: rnd_mono)

lemma one_minus_in_unit: "wf_format fm \<Longrightarrow> in_unit x \<Longrightarrow> in_unit (fsub fm (Fin 1) x)"
  by (auto simp: in_unit_iff [of x] fsub_def intro!: rnd_in_unit)

section \<open>The score depends monotonically on its parts\<close>

definition growth :: "u64 \<Rightarrow> f32" where
  "growth n = fadd binary32 (f32_lit 1) (fdiv binary32 (of_word binary32 n) (f32_lit 10))"

lemma frequency_growth: "frequency_of n = fsub binary32 (Fin 1) (fdiv binary32 (Fin 1) (growth n))"
  by (simp add: frequency_of_def growth_def)

lemma f32_10 [simp]: "f32_lit 10 = Fin 10"
  by (simp add: f32_lit_def)

lemma tenth_nonneg: "fle (Fin 0) (fdiv binary32 (of_word binary32 (n :: u64)) (Fin 10))"
proof -
  obtain y where "of_word binary32 n = Fin y" "0 \<le> y" by (rule of_word_between [of binary32 n]) simp_all
  then show ?thesis by (simp add: rnd_nonneg)
qed

lemma growth_ge_1: "fle (Fin 1) (growth n)"
  using fadd_mono [of binary32 "Fin 1" "Fin 0" "Fin 1" "fdiv binary32 (of_word binary32 n) (Fin 10)"] tenth_nonneg [of n]
  by (simp add: growth_def)

lemma growth_mono:
  assumes "a \<le> b"
  shows "fle (growth a) (growth b)"
proof -
  obtain x where x: "of_word binary32 a = Fin x" by (rule of_word_between [of binary32 a]) simp_all
  obtain y where y: "of_word binary32 b = Fin y" by (rule of_word_between [of binary32 b]) simp_all
  have "fle (of_word binary32 a) (of_word binary32 b)" using assms by (simp add: of_word_mono)
  then have "fle (fdiv binary32 (of_word binary32 a) (Fin 10)) (fdiv binary32 (of_word binary32 b) (Fin 10))"
    unfolding x y by (intro fdiv_mono_pos) simp_all
  then show ?thesis using tenth_nonneg [of a] by (auto simp: growth_def intro!: fadd_mono)
qed

lemma frequency_in_unit: "in_unit (frequency_of n)"
  by (simp add: frequency_growth one_minus_in_unit recip_in_unit growth_ge_1)

lemma frequency_mono: "a \<le> b \<Longrightarrow> fle (frequency_of a) (frequency_of b)"
  unfolding frequency_growth
  by (intro one_minus_antimono recip_in_unit recip_antimono growth_ge_1 growth_mono) simp_all

lemma regularity_in_unit: "in_unit (regularity_of n)"
  by (simp add: regularity_of_def)

lemma regularity_mono: "a \<le> b \<Longrightarrow> fle (regularity_of a) (regularity_of b)"
  by (auto simp: regularity_of_def)

lemma weighted_sum_nonneg:
  assumes "in_unit f" "in_unit r" "in_unit g"
  shows "fle (Fin 0) (fadd binary32 (fadd binary32 (fmul binary32 (f32_lit (4 / 10)) f)
      (fmul binary32 (f32_lit (4 / 10)) r)) (fmul binary32 (f32_lit (2 / 10)) g))"
  using assms by (simp add: fadd_nonneg fmul_nonneg_unit)

lemma weighted_in_unit: "in_unit f \<Longrightarrow> in_unit r \<Longrightarrow> in_unit g \<Longrightarrow> in_unit (weighted_score f r g)"
  unfolding weighted_score_def using weighted_sum_nonneg [of f r g] by (intro clamp01_in_unit) (metis fle_NaN(2))

lemma weighted_mono:
  assumes "in_unit f" "in_unit r" "in_unit g" "in_unit f'" "in_unit r'" "in_unit g'" "fle f f'" "fle r r'" "fle g g'"
  shows "fle (weighted_score f r g) (weighted_score f' r' g')"
  using assms by (simp add: weighted_score_def clamp01_mono fadd_mono fadd_nonneg fmul_nonneg_unit fmul_mono_unit)

text \<open>The score as a function of the number of accesses and the recency.\<close>

definition score_of :: "u64 \<Rightarrow> f32 \<Rightarrow> f32" where
  "score_of n r = weighted_score (frequency_of n) r (regularity_of n)"

lemma score_mono:
  assumes "a \<le> b" "in_unit r" "in_unit s" "fle r s"
  shows "fle (score_of a r) (score_of b s)"
  using assms by (simp add: score_of_def weighted_mono frequency_in_unit regularity_in_unit frequency_mono regularity_mono)

lemma score_in_unit: "in_unit r \<Longrightarrow> in_unit (score_of n r)"
  by (simp add: score_of_def weighted_in_unit frequency_in_unit regularity_in_unit)

lemma score_values:
  "score_of 0 (Fin 1) = Fin (7046431 / 16777216)" "score_of 2 (Fin 1) = Fin (16329825 / 33554432)" "score_of 3 (Fin 1) = Fin (4968637 / 8388608)"
  "score_of 3 (Fin 0) = Fin (6452775 / 33554432)" "score_of 4 (Fin 0) = Fin (7190235 / 33554432)"
  by (simp_all add: score_of_def weighted_score_def frequency_of_def regularity_of_def of_word_def fsub_def clamp01_def
      word_less_nat_alt)

section \<open>Histories of one chunk\<close>

datatype hotness_op = Access u64 usize | Decay u64

fun hotness_step :: "profile \<Rightarrow> (f64 \<Rightarrow> f64) \<Rightarrow> hotness_op \<Rightarrow> (chunk_hotness, unit, ghost_error) act" where
  "hotness_step pr expo (Access now sz) = hotness_record_access pr expo now sz"
| "hotness_step pr expo (Decay now) = update_act (update_recency expo now)"

fun hotness_run :: "profile \<Rightarrow> (f64 \<Rightarrow> f64) \<Rightarrow> hotness_op list \<Rightarrow> (chunk_hotness, unit, ghost_error) act" where
  "hotness_run pr expo [] = ret ()"
| "hotness_run pr expo (x # xs) = bind_act (hotness_step pr expo x) (\<lambda>_. hotness_run pr expo xs)"

text \<open>What is known of \<^verbatim>\<open>f64::exp\<close>: it maps numbers that are not positive into the unit interval.\<close>

definition decaying :: "(f64 \<Rightarrow> f64) \<Rightarrow> bool" where
  "decaying expo \<longleftrightarrow> (\<forall>x. fle x (Fin 0) \<longrightarrow> in_unit (expo x))"

definition scored :: "chunk_hotness \<Rightarrow> bool" where
  "scored h \<longleftrightarrow> in_unit (recency_score h) \<and> frequency_score h = frequency_of (h_access_count h)
     \<and> regularity_score h = regularity_of (h_access_count h) \<and> h_score h = score_of (h_access_count h) (recency_score h)"

definition fresh :: "chunk_hotness \<Rightarrow> bool" where
  "fresh h \<longleftrightarrow> h_access_count h = 0 \<and> h_score h = Fin 0 \<and> frequency_score h = Fin 0 \<and> recency_score h = Fin 0
     \<and> regularity_score h = Fin 0"

lemma f64_60 [simp]: "f64_lit 60 = Fin 60"
  unfolding f64_lit_def by (subst rnd_eval [where k = 5 and e = "- 47" and m = "60 * 2 ^ 47"])
    (simp_all add: binary64_def max_fin_def power_int_def power_one_over)

lemma decay_rate: "\<exists>w. f64_lit (- 693 / 1000) = Fin w \<and> w \<le> 0"
proof -
  have "representable binary64 (- 1)"
    unfolding representable_def by (intro exI [of _ 1] exI [of _ 0]) (simp add: binary64_def)
  then show ?thesis
    unfolding f64_lit_def using rnd_between [of binary64 "- 1" 0 "- 693 / 1000"] max_fin_ge_1 [of binary64] by force
qed

lemma f32_of_f64_in_unit: "in_unit x \<Longrightarrow> in_unit (f32_of_f64 x)"
  by (auto simp: in_unit_iff [of x] intro!: rnd_in_unit)

lemma rnd_nonpos: "wf_format fm \<Longrightarrow> x \<le> 0 \<Longrightarrow> fle (rnd fm x) (Fin 0)"
  using rnd_mono [of fm x 0] by simp

lemma recency_in_unit:
  assumes "decaying expo"
  shows "in_unit (recency_of expo age)"
proof -
  obtain w where w: "f64_lit (- 693 / 1000) = Fin w" "w \<le> 0" using decay_rate by blast
  obtain y where y: "of_word binary64 age = Fin y" "0 \<le> y" by (rule of_word_between [of binary64 age]) simp_all
  have "fle (fmul binary64 (Fin w) (Fin y)) (Fin 0)" using w y by (simp add: rnd_nonpos mult_nonpos_nonneg)
  then have "fle (fdiv binary64 (fmul binary64 (Fin w) (Fin y)) (Fin 60)) (Fin 0)"
    by (cases "fmul binary64 (Fin w) (Fin y)") (auto simp: signed_inf_def rnd_nonpos)
  then show ?thesis
    using assms w y by (auto simp: recency_of_def decaying_def intro!: f32_of_f64_in_unit)
qed

lemma scored_recompute: "in_unit (recency_score h) \<Longrightarrow> scored (recompute_score h)"
  by (simp add: scored_def recompute_score_def Let_def score_of_def)

lemma record_access_result:
  assumes "hotness_record_access pr expo now sz h = (Ok (), h')"
  shows "scored h' \<and> recency_score h' = Fin 1 \<and> h_access_count h' = h_access_count h + 1"
proof -
  let ?h = "\<lambda>x. recompute_score (x\<lparr>recency_score := Fin 1\<rparr>)"
  have "\<exists>x. h' = ?h x \<and> h_access_count x = h_access_count h + 1"
    using assms
    by (auto simp: hotness_record_access_def bind_act_Ok_iff update_act_def add_pr_def Let_def saturating_sub_def recency_of_def
        intro!: exI split: if_splits)
  then show ?thesis by (auto simp: recompute_score_def Let_def scored_def score_of_def)
qed

lemma hotness_step_scored:
  assumes "decaying expo" "hotness_step pr expo x h = (Ok (), h')"
  shows "scored h'"
  using assms
  by (cases x) (auto simp: record_access_result update_act_def update_recency_def recency_in_unit intro!: scored_recompute)

lemma hotness_runs_scored:
  "decaying expo \<Longrightarrow> hotness_run pr expo xs h = (Ok (), h') \<Longrightarrow> scored h \<Longrightarrow> scored h'"
proof (induction xs arbitrary: h)
  case (Cons x xs)
  then show ?case using hotness_step_scored [of expo] by (auto simp: bind_act_Ok_iff)
qed (simp add: ret_def)

lemma hotness_run_scored:
  assumes "decaying expo" "hotness_run pr expo xs h = (Ok (), h')" "fresh h"
  shows "fresh h' \<or> scored h'"
proof (cases xs)
  case (Cons x ys)
  then show ?thesis
    using assms(2) hotness_step_scored [OF assms(1)] hotness_runs_scored [OF assms(1)] by (auto simp: bind_act_Ok_iff)
qed (use assms in \<open>simp add: ret_def\<close>)

lemma fresh_new: "fresh (hotness_new cid now)"
  by (simp add: fresh_def hotness_new_def)

text \<open>An access returns unless a counter overflows.\<close>

lemma record_access_returns:
  assumes "unat (h_access_count h) + 1 < 2 ^ 64" "unat (total_bytes h) + unat sz < 2 ^ 64"
  obtains h' where "hotness_record_access pr expo now sz h = (Ok (), h')"
    "h_access_count h' = h_access_count h + 1" "total_bytes h' = total_bytes h + sz"
  by (rule that [of "snd (hotness_record_access pr expo now sz h)"])
     (use assms in \<open>auto simp: hotness_record_access_def act_defs add_pr_def checked_def recompute_score_def Let_def\<close>)

fun accesses :: "nat \<Rightarrow> hotness_op list" where
  "accesses 0 = []"
| "accesses (Suc n) = Access 1 1 # accesses n"

lemma accesses_run:
  assumes "unat (h_access_count h) + n < 2 ^ 64" "unat (total_bytes h) + n < 2 ^ 64"
  obtains h' where "hotness_run pr expo (accesses n) h = (Ok (), h')" "h_access_count h' = h_access_count h + of_nat n"
  using assms
proof (induction n arbitrary: h thesis)
  case 0
  then show ?case by (simp add: ret_def)
next
  case (Suc n)
  obtain h1 where h1: "hotness_record_access pr expo 1 1 h = (Ok (), h1)"
    "h_access_count h1 = h_access_count h + 1" "total_bytes h1 = total_bytes h + 1"
    by (rule record_access_returns [of h 1 pr expo 1]) (use Suc.prems in simp_all)
  have "unat (h_access_count h1) + n < 2 ^ 64" "unat (total_bytes h1) + n < 2 ^ 64"
    using Suc.prems h1 unat_add_fits [of "h_access_count h" 1] unat_add_fits [of "total_bytes h" 1] by simp_all
  then obtain h' where "hotness_run pr expo (accesses n) h1 = (Ok (), h')" "h_access_count h' = h_access_count h1 + of_nat n"
    using Suc.IH by blast
  then show ?case using h1 Suc.prems(1) [of h'] by (simp add: bind_act_def)
qed

text \<open>A crude exponential for the examples.\<close>

definition step_exp :: "f64 \<Rightarrow> f64" where
  "step_exp x = (if fle x (Fin (- 1)) then Fin 0 else Fin 1)"

lemma decaying_step: "decaying step_exp"
  by (simp add: decaying_def step_exp_def)

lemma four_accesses:
  obtains h where "hotness_run Debug step_exp (accesses 4) (hotness_new (ChunkId []) 0) = (Ok (), h)" "h_access_count h = 4"
  by (rule accesses_run [of "hotness_new (ChunkId []) 0" 4 Debug step_exp]) (simp_all add: hotness_new_def)

text \<open>
  Over any history of accesses and decays, with any clock readings, the hotness score of a
  chunk and its three parts stay in the unit interval. Before the first operation the score is
  zero; afterwards it is the weighted sum for the number of accesses and the current recency.
\<close>

theorem hotness_run_in_unit:
  assumes "decaying expo" "hotness_run pr expo xs (hotness_new cid now) = (Ok (), h)"
  shows "in_unit (h_score h) \<and> in_unit (frequency_score h) \<and> in_unit (recency_score h) \<and> in_unit (regularity_score h)
    \<and> (xs = [] \<or> h_score h = score_of (h_access_count h) (recency_score h))"
proof (cases xs)
  case Nil
  then show ?thesis using assms(2) by (auto simp: ret_def hotness_new_def)
next
  case (Cons x ys)
  then obtain h1 where "hotness_step pr expo x (hotness_new cid now) = (Ok (), h1)" "hotness_run pr expo ys h1 = (Ok (), h)"
    using assms(2) by (auto simp: bind_act_Ok_iff)
  then have "scored h" using hotness_step_scored [OF assms(1)] hotness_runs_scored [OF assms(1)] by blast
  then show ?thesis by (simp add: scored_def score_in_unit frequency_in_unit regularity_in_unit)
qed

theorem hotness_run_in_unit_witness:
  "\<exists>h. hotness_run Debug step_exp (accesses 4) (hotness_new (ChunkId []) 0) = (Ok (), h) \<and> in_unit (h_score h)"
proof -
  obtain h where h: "hotness_run Debug step_exp (accesses 4) (hotness_new (ChunkId []) 0) = (Ok (), h)" by (rule four_accesses)
  from hotness_run_in_unit [OF decaying_step h] h show ?thesis by blast
qed

text \<open>
  Right after an access a chunk is hot exactly when it has been accessed at least three times,
  and it is never cold.
\<close>

theorem access_hot_iff:
  assumes "hotness_record_access pr expo now sz h = (Ok (), h')"
  shows "(is_hot h' \<longleftrightarrow> 3 \<le> h_access_count h') \<and> \<not> is_cold h'"
proof -
  let ?n = "h_access_count h'"
  have s: "h_score h' = score_of ?n (Fin 1)" using record_access_result [OF assms] by (simp add: scored_def)
  have low: "fle (score_of 0 (Fin 1)) (score_of ?n (Fin 1))" by (rule score_mono) simp_all
  have "fle (score_of 3 (Fin 1)) (score_of ?n (Fin 1))" if "3 \<le> ?n" using that by (intro score_mono) simp_all
  then have hot: "is_hot h'" if "3 \<le> ?n"
    using that fle_trans [of "Fin (1 / 2)" "Fin (4968637 / 8388608)"] s by (simp add: is_hot_def score_values)
  have "?n \<le> 2" if "\<not> 3 \<le> ?n"
    using that by (simp add: word_le_nat_alt)
  then have "fle (score_of ?n (Fin 1)) (score_of 2 (Fin 1))" if "\<not> 3 \<le> ?n" using that by (intro score_mono) simp_all
  then have "\<not> is_hot h'" if "\<not> 3 \<le> ?n"
    using that fle_trans [of "Fin (1 / 2)" "h_score h'" "Fin (16329825 / 33554432)"] s by (auto simp: is_hot_def score_values)
  moreover have "\<not> is_cold h'"
    using fle_flt_trans [OF low, of "Fin (13421773 / 67108864)"] s by (auto simp: is_cold_def score_values)
  ultimately show ?thesis using hot by blast
qed

theorem access_hot_iff_witness:
  "\<exists>h. hotness_record_access Debug step_exp 5 100 (hotness_new (ChunkId []) 0) = (Ok (), h) \<and> \<not> is_hot h \<and> \<not> is_cold h"
proof -
  obtain h where h: "hotness_record_access Debug step_exp 5 100 (hotness_new (ChunkId []) 0) = (Ok (), h)"
    "h_access_count h = h_access_count (hotness_new (ChunkId []) 0) + 1"
    by (rule record_access_returns [of "hotness_new (ChunkId []) 0" 100 Debug step_exp 5]) (simp_all add: hotness_new_def)
  have "\<not> 3 \<le> h_access_count h" using h(2) by (simp add: hotness_new_def word_le_nat_alt)
  with access_hot_iff [OF h(1)] h(1) show ?thesis by blast
qed

text \<open>
  Decay cannot make a chunk cold once it has been accessed four times, however long ago; with
  at most three accesses a chunk whose recency has decayed to zero is cold.
\<close>

theorem cold_only_if_rarely_accessed:
  assumes "decaying expo" "hotness_run pr expo xs (hotness_new cid now) = (Ok (), h)"
  shows "(4 \<le> h_access_count h \<longrightarrow> \<not> is_cold h)
    \<and> (h_access_count h \<le> 3 \<and> recency_score h = Fin 0 \<longrightarrow> is_cold h)"
proof -
  have "fresh h \<or> scored h" using hotness_run_scored [OF assms] by (simp add: fresh_new)
  then consider "h_access_count h = 0" "h_score h = Fin 0" | "scored h" by (auto simp: fresh_def)
  then show ?thesis
  proof cases
    case 1
    then show ?thesis by (simp add: is_cold_def word_le_nat_alt)
  next
    case 2
    then have r: "in_unit (recency_score h)" "fle (Fin 0) (recency_score h)"
      and s: "h_score h = score_of (h_access_count h) (recency_score h)" by (auto simp: scored_def in_unit_def)
    have "fle (score_of 4 (Fin 0)) (h_score h)" if "4 \<le> h_access_count h"
      unfolding s using that r by (intro score_mono) simp_all
    then have a: "4 \<le> h_access_count h \<longrightarrow> \<not> is_cold h"
      by (cases "h_score h") (auto simp: is_cold_def score_values flt_def)
    have "fle (h_score h) (score_of 3 (Fin 0))" if "h_access_count h \<le> 3" "recency_score h = Fin 0"
      unfolding s using that by (intro score_mono) simp_all
    then have "h_access_count h \<le> 3 \<and> recency_score h = Fin 0 \<longrightarrow> is_cold h"
      by (auto simp: is_cold_def score_values intro: fle_flt_trans)
    with a show ?thesis by blast
  qed
qed

theorem cold_only_if_rarely_accessed_witness:
  "\<exists>h. hotness_run Debug step_exp (accesses 4) (hotness_new (ChunkId []) 0) = (Ok (), h) \<and> \<not> is_cold h"
proof -
  obtain h where h: "hotness_run Debug step_exp (accesses 4) (hotness_new (ChunkId []) 0) = (Ok (), h)" "h_access_count h = 4"
    by (rule four_accesses)
  from cold_only_if_rarely_accessed [OF decaying_step h(1)] h show ?thesis by auto
qed

end
