(* ===== verification/Hotness_Sampling.thy ===== *)
theory Hotness_Sampling
  imports Hotness
begin

text \<open>
  Hotness as sampled from outside: \<^verbatim>\<open>hotness_provider.rs\<close> (samples and temperatures),
  \<^verbatim>\<open>hotness_summary.rs\<close>, \<^verbatim>\<open>hotness_confidence.rs\<close> and \<^verbatim>\<open>hotness_history.rs\<close> of \<^verbatim>\<open>ghost-core/src\<close>. The
  provider is an argument of the tracker; the square fsqrt is an argument \<open>fsqrt\<close>. The length of a
  vector is a natural number.
\<close>

section \<open>Samples\<close>

datatype temperature = Hot | Warm | Cold | Frozen

record address_range =
  range_start :: u64
  range_end :: u64

definition range_size :: "address_range \<Rightarrow> u64" where
  "range_size r = saturating_sub (range_end r) (range_start r)"

record hotness_sample =
  sample_range :: address_range
  sample_count :: u64
  sample_temperature :: temperature

record hotness_snapshot =
  samples :: "hotness_sample list"
  snapshot_time :: u64

definition from_access_count :: "u64 \<Rightarrow> temperature" where
  "from_access_count c = (if c \<ge> 100 then Hot else if c \<ge> 20 then Warm else if c \<ge> 1 then Cold else Frozen)"

fun to_tier_of :: "temperature \<Rightarrow> tier_id" where
  "to_tier_of Hot = Ram"
| "to_tier_of Warm = Ram"
| "to_tier_of Cold = Disk"
| "to_tier_of Frozen = Disk"

fun temperature_value :: "temperature \<Rightarrow> u8" where
  "temperature_value Hot = 3"
| "temperature_value Warm = 2"
| "temperature_value Cold = 1"
| "temperature_value Frozen = 0"

definition temp_is_active :: "temperature \<Rightarrow> bool" where
  "temp_is_active t = (t \<in> {Hot, Warm})"

definition temp_is_inactive :: "temperature \<Rightarrow> bool" where
  "temp_is_inactive t = (t \<in> {Cold, Frozen})"

fun display_temperature :: "temperature \<Rightarrow> string" where
  "display_temperature Hot = ''hot''"
| "display_temperature Warm = ''warm''"
| "display_temperature Cold = ''cold''"
| "display_temperature Frozen = ''frozen''"

text \<open>\<^verbatim>\<open>iter().sum::<u64>()\<close>, \<^verbatim>\<open>sum()\<close> of floats, and \<^verbatim>\<open>n as f32\<close> for a length.\<close>

fun sum_from :: "profile \<Rightarrow> u64 \<Rightarrow> u64 list \<Rightarrow> u64 ghost_result" where
  "sum_from pr acc [] = Ok acc"
| "sum_from pr acc (x # xs) = (case add_pr pr acc x of Ok s \<Rightarrow> sum_from pr s xs | Err e \<Rightarrow> Err e | Panic \<Rightarrow> Panic)"

definition fsum :: "format \<Rightarrow> fl list \<Rightarrow> fl" where
  "fsum fm xs = foldl (fadd fm) (Fin 0) xs"

definition of_len :: "format \<Rightarrow> nat \<Rightarrow> fl" where
  "of_len fm n = rnd fm (of_nat n)"

section \<open>Summary\<close>

record hotness_summary =
  hot_count :: nat
  warm_count :: nat
  cold_count :: nat
  frozen_count :: nat
  total_regions :: nat
  hot_percentage :: f32
  warm_percentage :: f32
  cold_percentage :: f32
  frozen_percentage :: f32
  avg_access_count :: u64
  max_access_count :: u64
  min_access_count :: u64

definition count_temp :: "temperature \<Rightarrow> hotness_sample list \<Rightarrow> nat" where
  "count_temp t xs = length (filter (\<lambda>s. sample_temperature s = t) xs)"

definition percentage :: "nat \<Rightarrow> nat \<Rightarrow> f32" where
  "percentage k n = fmul binary32 (fdiv binary32 (of_len binary32 k) (of_len binary32 n)) (f32_lit 100)"

definition from_snapshot :: "profile \<Rightarrow> hotness_snapshot \<Rightarrow> hotness_summary ghost_result" where
  "from_snapshot pr snap =
     (let xs = samples snap; n = length xs in
      if n = 0 then Ok \<lparr>hot_count = 0, warm_count = 0, cold_count = 0, frozen_count = 0, total_regions = 0,
        hot_percentage = f32_lit 0, warm_percentage = f32_lit 0, cold_percentage = f32_lit 0, frozen_percentage = f32_lit 0,
        avg_access_count = 0, max_access_count = 0, min_access_count = 0\<rparr>
      else case sum_from pr 0 (map sample_count xs) of
        Panic \<Rightarrow> Panic | Err e \<Rightarrow> Err e
      | Ok tot \<Rightarrow> Ok \<lparr>hot_count = count_temp Hot xs, warm_count = count_temp Warm xs, cold_count = count_temp Cold xs,
          frozen_count = count_temp Frozen xs, total_regions = n,
          hot_percentage = percentage (count_temp Hot xs) n, warm_percentage = percentage (count_temp Warm xs) n,
          cold_percentage = percentage (count_temp Cold xs) n, frozen_percentage = percentage (count_temp Frozen xs) n,
          avg_access_count = tot div of_nat n, max_access_count = Max (set (map sample_count xs)),
          min_access_count = Min (set (map sample_count xs))\<rparr>)"

definition dominant_temperature :: "hotness_summary \<Rightarrow> temperature" where
  "dominant_temperature s = (if hot_count s > 0 then Hot else if warm_count s > 0 then Warm
     else if cold_count s > 0 then Cold else Frozen)"

definition active_count :: "hotness_summary \<Rightarrow> nat" where
  "active_count s = hot_count s + warm_count s"

definition inactive_count :: "hotness_summary \<Rightarrow> nat" where
  "inactive_count s = cold_count s + frozen_count s"

definition is_hot_workload :: "hotness_summary \<Rightarrow> bool" where
  "is_hot_workload s = (if total_regions s = 0 then False else active_count s > total_regions s div 2)"

definition is_cold_workload :: "hotness_summary \<Rightarrow> bool" where
  "is_cold_workload s = (if total_regions s = 0 then False else inactive_count s > total_regions s div 2)"

definition active_percentage :: "hotness_summary \<Rightarrow> f32" where
  "active_percentage s = fadd binary32 (hot_percentage s) (warm_percentage s)"

definition inactive_percentage :: "hotness_summary \<Rightarrow> f32" where
  "inactive_percentage s = fadd binary32 (cold_percentage s) (frozen_percentage s)"

section \<open>Confidence\<close>

datatype confidence_level = ConfHigh | ConfMedium | ConfLow | ConfUnknown

fun min_score :: "confidence_level \<Rightarrow> f32" where
  "min_score ConfHigh = f32_lit (8 / 10)"
| "min_score ConfMedium = f32_lit (5 / 10)"
| "min_score ConfLow = f32_lit (2 / 10)"
| "min_score ConfUnknown = f32_lit 0"

fun display_confidence :: "confidence_level \<Rightarrow> string" where
  "display_confidence ConfHigh = ''high''"
| "display_confidence ConfMedium = ''medium''"
| "display_confidence ConfLow = ''low''"
| "display_confidence ConfUnknown = ''unknown''"

datatype confidence_factor =
  ObservationDuration u64 | AccessStability f32 | TemperatureStability f32 | SampleCount nat

record hotness_confidence =
  conf_score :: f32
  factors :: "confidence_factor list"

definition calculate_duration :: "hotness_snapshot \<Rightarrow> hotness_snapshot list \<Rightarrow> u64" where
  "calculate_duration snap hist = (if hist = [] then 0
     else saturating_sub (max (snapshot_time snap) (Max (set (map snapshot_time hist)))) (Min (set (map snapshot_time hist))))"

definition sample_count_score :: "nat \<Rightarrow> f32" where
  "sample_count_score n = f32_lit (if n \<le> 5 then 2 / 10 else if n \<le> 20 then 5 / 10 else if n \<le> 50 then 7 / 10
     else if n \<le> 100 then 85 / 100 else 1)"

definition duration_score :: "u64 \<Rightarrow> f32" where
  "duration_score s = f32_lit (if s \<le> 10 then 2 / 10 else if s \<le> 60 then 4 / 10 else if s \<le> 300 then 6 / 10
     else if s \<le> 3600 then 8 / 10 else 1)"

definition access_stability_score :: "f32 \<Rightarrow> f32" where
  "access_stability_score v = fmax (fsub binary32 (f32_lit 1) (fmin v (f32_lit 1))) (f32_lit 0)"

definition temperature_stability_score :: "f32 \<Rightarrow> f32" where
  "temperature_stability_score c = fmax (fsub binary32 (f32_lit 1) (fdiv binary32 c (f32_lit 5))) (f32_lit 0)"

definition all_counts :: "hotness_snapshot \<Rightarrow> hotness_snapshot list \<Rightarrow> u64 list" where
  "all_counts snap hist = map sample_count (samples snap) @ concat (map (\<lambda>h. map sample_count (samples h)) hist)"

definition calculate_access_variance ::
  "profile \<Rightarrow> (f32 \<Rightarrow> f32) \<Rightarrow> hotness_snapshot \<Rightarrow> hotness_snapshot list \<Rightarrow> f32 ghost_result" where
  "calculate_access_variance pr fsqrt snap hist =
     (let cs = all_counts snap hist;
          len = of_len binary32 (length cs)
      in if hist = [] \<or> cs = [] then Ok (f32_lit (5 / 10))
         else case sum_from pr 0 cs of
           Panic \<Rightarrow> Panic | Err e \<Rightarrow> Err e
         | Ok tot \<Rightarrow>
             let mean = fdiv binary32 (of_word binary32 tot) len
             in if mean = Fin 0 then Ok (f32_lit 0)
                else let variance = fdiv binary32 (fsum binary32 (map (\<lambda>c.
                           let diff = fsub binary32 (of_word binary32 c) mean in fmul binary32 diff diff) cs)) len
                     in Ok (fmin (fdiv binary32 (fsqrt variance) mean) (f32_lit 1)))"

text \<open>The number of neighbours of a sequence that differ, the loop \<^verbatim>\<open>for i in 1..temps.len()\<close>.\<close>

fun changes :: "'a list \<Rightarrow> nat" where
  "changes (x # y # zs) = (if x \<noteq> y then 1 else 0) + changes (y # zs)"
| "changes _ = 0"

definition temps_of :: "address_range \<Rightarrow> hotness_snapshot list \<Rightarrow> temperature list" where
  "temps_of r hist = List.map_filter (\<lambda>h. map_option sample_temperature (find (\<lambda>s. sample_range s = r) (samples h))) hist"

definition calculate_temperature_changes :: "hotness_snapshot \<Rightarrow> hotness_snapshot list \<Rightarrow> f32" where
  "calculate_temperature_changes snap hist =
     (let tot = foldl (\<lambda>acc s. ((\<lambda>a. fadd binary32 a (f32_lit 1)) ^^
                      changes (sample_temperature s # temps_of (sample_range s) (rev hist))) acc) (Fin 0) (samples snap);
          regions = length (samples snap)
      in if hist = [] then f32_lit 0
         else if regions > 0 then fdiv binary32 tot (of_len binary32 regions) else f32_lit 0)"

text \<open>The running sum \<^verbatim>\<open>score += factor * weight\<close>; the sum of the weights is the one for factors of one.\<close>

definition confidence_sum :: "f32 \<Rightarrow> f32 \<Rightarrow> f32 \<Rightarrow> f32 \<Rightarrow> f32" where
  "confidence_sum a b c d =
     (let add = (\<lambda>s f w. fadd binary32 s (fmul binary32 f (f32_lit w)))
      in add (add (add (add (Fin 0) a (2 / 10)) b (3 / 10)) c (25 / 100)) d (25 / 100))"

definition weight_sum :: f32 where
  "weight_sum = fadd binary32 (fadd binary32 (fadd binary32 (fadd binary32 (Fin 0) (f32_lit (2 / 10))) (f32_lit (3 / 10)))
     (f32_lit (25 / 100))) (f32_lit (25 / 100))"

definition confidence_calculate ::
  "profile \<Rightarrow> (f32 \<Rightarrow> f32) \<Rightarrow> hotness_snapshot \<Rightarrow> hotness_snapshot list \<Rightarrow> hotness_confidence ghost_result" where
  "confidence_calculate pr fsqrt snap hist =
     (let n = length (samples snap); dur = calculate_duration snap hist
      in case calculate_access_variance pr fsqrt snap hist of
        Panic \<Rightarrow> Panic | Err e \<Rightarrow> Err e
      | Ok var \<Rightarrow>
          let ch = calculate_temperature_changes snap hist;
              tot = confidence_sum (sample_count_score n) (duration_score dur) (access_stability_score var)
                        (temperature_stability_score ch)
          in Ok \<lparr>conf_score = (if fgt weight_sum (f32_lit 0) then fdiv binary32 tot weight_sum else f32_lit 0),
                 factors = [SampleCount n, ObservationDuration dur, AccessStability var, TemperatureStability ch]\<rparr>)"

definition confidence_level_of :: "hotness_confidence \<Rightarrow> confidence_level" where
  "confidence_level_of c = (if fge (conf_score c) (f32_lit (8 / 10)) then ConfHigh
     else if fge (conf_score c) (f32_lit (5 / 10)) then ConfMedium
     else if fge (conf_score c) (f32_lit (2 / 10)) then ConfLow else ConfUnknown)"

section \<open>History\<close>

datatype temperature_trend = Stable temperature | Warming temperature temperature | Cooling temperature temperature | Flapping

datatype access_trend = Increasing | Decreasing | StableAccess | Volatile

record hotness_history =
  snapshots :: "hotness_snapshot list"
  max_snapshots :: nat

definition history_new :: "nat \<Rightarrow> hotness_history" where
  "history_new n = \<lparr>snapshots = [], max_snapshots = max n 1\<rparr>"

text \<open>\<^verbatim>\<open>while self.snapshots.len() > self.max_snapshots { self.snapshots.remove(0); }\<close>\<close>

fun trim_front :: "nat \<Rightarrow> 'a list \<Rightarrow> 'a list" where
  "trim_front n [] = []"
| "trim_front n (x # xs) = (if length (x # xs) > n then trim_front n xs else x # xs)"

definition history_push :: "hotness_snapshot \<Rightarrow> hotness_history \<Rightarrow> hotness_history" where
  "history_push s h = h\<lparr>snapshots := trim_front (max_snapshots h) (snapshots h @ [s])\<rparr>"

definition get_temperature_trend :: "address_range \<Rightarrow> hotness_history \<Rightarrow> temperature_trend" where
  "get_temperature_trend r h =
     (let temps = temps_of r (snapshots h) in
      if snapshots h = [] \<or> temps = [] then Stable Frozen
      else if changes temps > length temps div 2 then Flapping
      else let f = hd temps; l = last temps in
        if temperature_value l > temperature_value f then Warming f l
        else if temperature_value l < temperature_value f then Cooling f l
        else Stable l)"

definition counts_of :: "address_range \<Rightarrow> hotness_snapshot list \<Rightarrow> u64 list" where
  "counts_of r hist = List.map_filter (\<lambda>h. map_option sample_count (find (\<lambda>s. sample_range s = r) (samples h))) hist"

definition get_access_trend :: "(f64 \<Rightarrow> f64) \<Rightarrow> address_range \<Rightarrow> hotness_history \<Rightarrow> access_trend" where
  "get_access_trend fsqrt r h =
     (let cs = counts_of r (snapshots h) in
      if snapshots h = [] \<or> length cs < 2 then StableAccess
      else
        let b = binary64; n = of_len b (length cs);
            sum_x = fsum b (map (of_len b) [0..<length cs]);
            sum_y = fsum b (map (of_word b) cs);
            sum_xy = fsum b (map (\<lambda>(i, c). fmul b (of_len b i) (of_word b c)) (enumerate 0 cs));
            sum_xx = fsum b (map (\<lambda>i. of_len b (i * i)) [0..<length cs]);
            denominator = fsub b (fmul b n sum_xx) (fmul b sum_x sum_x)
        in if denominator = Fin 0 then StableAccess
           else
             let slope = fdiv b (fsub b (fmul b n sum_xy) (fmul b sum_x sum_y)) denominator;
                 mean = fdiv b sum_y n;
                 variance = fdiv b (fsum b (map (\<lambda>c. let diff = fsub b (of_word b c) mean in fmul b diff diff) cs)) n;
                 std_dev = fsqrt variance;
                 variation = (if fgt mean (f64_lit 0) then fdiv b std_dev mean else f64_lit 0);
                 slope_threshold = fmul b mean (f64_lit (1 / 10))
             in if fgt variation (f64_lit (5 / 10)) then Volatile
                else if fgt slope slope_threshold then Increasing
                else if flt slope (fneg slope_threshold) then Decreasing
                else StableAccess)"

definition history_clear :: "hotness_history \<Rightarrow> hotness_history" where
  "history_clear h = h\<lparr>snapshots := []\<rparr>"

section \<open>Sums\<close>

lemma unat_len: "n < 2 ^ 64 \<Longrightarrow> unat (of_nat n :: u64) = n"
  by (simp add: unat_of_nat take_bit_nat_eq_self)

lemma sum_from_fits:
  "unat acc + sum_list (map unat xs) < 2 ^ 64 \<Longrightarrow>
    \<exists>s. sum_from pr acc xs = Ok s \<and> unat s = unat acc + sum_list (map unat xs)"
proof (induction xs arbitrary: acc)
  case (Cons x xs)
  then have "unat acc + unat x < 2 ^ 64" by simp
  moreover from this have "unat (acc + x) = unat acc + unat x" by (simp add: unat_add_fits)
  ultimately show ?case using Cons.IH [of "acc + x"] Cons.prems by (simp add: add_pr_fits add.assoc)
qed simp

lemma sum_list_bounds:
  assumes "\<And>x. x \<in> set xs \<Longrightarrow> lo \<le> x \<and> x \<le> (hi :: nat)"
  shows "length xs * lo \<le> sum_list xs \<and> sum_list xs \<le> length xs * hi"
  using assms by (induction xs) (fastforce simp: add_le_mono)+

text \<open>Lengths as floats: at least one for a sequence that is not empty.\<close>

lemma of_len_nonneg: "wf_format fm \<Longrightarrow> fle (Fin 0) (of_len fm n)"
  by (simp add: of_len_def rnd_nonneg)

lemma of_len_ge_1: "wf_format fm \<Longrightarrow> 0 < n \<Longrightarrow> fle (Fin 1) (of_len fm n)"
  using rnd_mono [of fm 1 "of_nat n"] by (simp add: of_len_def)

lemma of_len_mono: "wf_format fm \<Longrightarrow> m \<le> n \<Longrightarrow> fle (of_len fm m) (of_len fm n)"
  by (simp add: of_len_def rnd_mono)

section \<open>The summary is consistent\<close>

lemma count_temp_sum: "count_temp Hot xs + count_temp Warm xs + count_temp Cold xs + count_temp Frozen xs = length xs"
proof (induction xs)
  case (Cons x xs)
  then show ?case by (cases "sample_temperature x") (simp_all add: count_temp_def)
qed (simp add: count_temp_def)

lemma f32_100 [simp]: "f32_lit 100 = Fin 100"
  unfolding f32_lit_def by (subst rnd_eval [where k = 6 and e = "- 17" and m = "100 * 2 ^ 17"]) (simp_all add: f32_eval)

lemma fdiv_len_in_unit:
  assumes "k \<le> n" "0 < n" "n < 2 ^ 64"
  shows "in_unit (fdiv binary32 (of_len binary32 k) (of_len binary32 n))"
proof -
  have w: "of_len binary32 m = of_word binary32 (of_nat m :: u64)" if "m \<le> n" for m
    using that assms(3) by (simp add: of_len_def of_word_def unat_len)
  have "(of_nat k :: u64) \<le> of_nat n" "(0 :: u64) < of_nat n"
    using assms by (simp_all add: word_le_nat_alt word_less_nat_alt unat_len)
  then show ?thesis using w [of k] w [of n] assms(1) by (simp add: word_ratio_in_unit)
qed

lemma percentage_range:
  assumes "k \<le> n" "0 < n" "n < 2 ^ 64"
  shows "fle (Fin 0) (percentage k n) \<and> fle (percentage k n) (Fin 100)"
proof -
  obtain x where x: "fdiv binary32 (of_len binary32 k) (of_len binary32 n) = Fin x" "0 \<le> x" "x \<le> 1"
    using fdiv_len_in_unit [OF assms] by (auto simp: in_unit_iff)
  have "fle (rnd binary32 (x * 100)) (rnd binary32 100)" using x by (intro rnd_mono) simp_all
  moreover have "rnd binary32 100 = Fin 100" using f32_100 by (simp add: f32_lit_def)
  ultimately show ?thesis using x by (simp add: percentage_def rnd_nonneg)
qed

lemma count_temp_le: "count_temp t xs \<le> length xs"
  by (simp add: count_temp_def)

text \<open>
  Unless the sum of the access counts overflows, summarising a snapshot returns, the four
  temperature counts add up to the number of regions, every percentage lies between 0 and 100,
  and the average access count lies between the minimum and the maximum.
\<close>

theorem summary_consistent:
  assumes "sum_list (map (unat \<circ> sample_count) (samples snap)) < 2 ^ 64" "length (samples snap) < 2 ^ 64"
  shows "\<exists>s. from_snapshot pr snap = Ok s \<and> total_regions s = length (samples snap)
    \<and> active_count s + inactive_count s = total_regions s
    \<and> list_all (\<lambda>p. fle (Fin 0) p \<and> fle p (Fin 100)) [hot_percentage s, warm_percentage s, cold_percentage s, frozen_percentage s]
    \<and> min_access_count s \<le> avg_access_count s \<and> avg_access_count s \<le> max_access_count s"
proof (cases "samples snap = []")
  case True
  then show ?thesis by (simp add: from_snapshot_def active_count_def inactive_count_def)
next
  case False
  let ?xs = "samples snap" and ?cs = "map sample_count (samples snap)"
  let ?n = "length ?xs"
  have n: "0 < ?n" using False by simp
  from sum_from_fits [of 0 ?cs pr] assms(1) obtain t where t: "sum_from pr 0 ?cs = Ok t" "unat t = sum_list (map unat ?cs)"
    by auto
  have m: "Min (set ?cs) \<le> c" "c \<le> Max (set ?cs)" if "c \<in> set ?cs" for c using that by simp_all
  have b: "?n * unat (Min (set ?cs)) \<le> unat t \<and> unat t \<le> ?n * unat (Max (set ?cs))"
    using sum_list_bounds [of "map unat ?cs" "unat (Min (set ?cs))" "unat (Max (set ?cs))"] m t(2)
    by (fastforce simp: word_le_nat_alt)
  have q: "unat (t div of_nat ?n) = unat t div ?n" using assms(2) by (simp add: unat_div unat_len)
  have "unat (Min (set ?cs)) \<le> unat t div ?n" using b n by (simp add: less_eq_div_iff_mult_less_eq mult.commute)
  moreover have "unat t div ?n \<le> unat (Max (set ?cs))" using b n div_le_mono [of "unat t" "?n * unat (Max (set ?cs))" ?n] by simp
  ultimately have avg: "Min (set ?cs) \<le> t div of_nat ?n" "t div of_nat ?n \<le> Max (set ?cs)"
    by (simp_all only: word_le_nat_alt q)
  have "fle (Fin 0) (percentage (count_temp x ?xs) ?n) \<and> fle (percentage (count_temp x ?xs) ?n) (Fin 100)" for x
    by (rule percentage_range [OF count_temp_le n assms(2)])
  then show ?thesis
    using False t(1) avg count_temp_sum [of ?xs] by (simp add: from_snapshot_def Let_def active_count_def inactive_count_def)
qed

definition demo_snapshot :: hotness_snapshot where
  "demo_snapshot = \<lparr>samples = map (\<lambda>c. \<lparr>sample_range = \<lparr>range_start = 0, range_end = 4096\<rparr>, sample_count = c,
     sample_temperature = from_access_count c\<rparr>) [0, 30, 200], snapshot_time = 5\<rparr>"

theorem summary_consistent_witness:
  "\<exists>s. from_snapshot Debug demo_snapshot = Ok s \<and> total_regions s = 3 \<and> min_access_count s \<le> avg_access_count s"
proof -
  have "sum_list (map (unat \<circ> sample_count) (samples demo_snapshot)) < 2 ^ 64" "length (samples demo_snapshot) < 2 ^ 64"
    by (simp_all add: demo_snapshot_def)
  from summary_consistent [OF this, of Debug] show ?thesis by (auto simp: demo_snapshot_def)
qed

section \<open>Confidence is a value of the unit interval\<close>

definition root_like :: "(f32 \<Rightarrow> f32) \<Rightarrow> bool" where
  "root_like fsqrt \<longleftrightarrow> (\<forall>x. fle (Fin 0) x \<longrightarrow> fle (Fin 0) (fsqrt x))"

lemma in_unit_lit: "0 \<le> x \<Longrightarrow> x \<le> 1 \<Longrightarrow> in_unit (f32_lit x)"
  by (simp add: f32_lit_def rnd_in_unit)

lemma sample_count_score_unit: "in_unit (sample_count_score n)"
  unfolding sample_count_score_def by (rule in_unit_lit) simp_all

lemma duration_score_unit: "in_unit (duration_score s)"
  unfolding duration_score_def by (rule in_unit_lit) simp_all

lemma fmin_one: "fle (Fin 0) v \<Longrightarrow> in_unit (fmin v (Fin 1))"
  by (cases v) (auto simp: fmin_def)

lemma access_stability_unit: "fle (Fin 0) v \<Longrightarrow> in_unit (access_stability_score v)"
  using fmin_one [of v] by (simp add: access_stability_score_def fmax_in_unit one_minus_in_unit)

lemma one_minus_le_one: "fle (Fin 0) x \<Longrightarrow> fle (fsub binary32 (Fin 1) x) (Fin 1)"
proof (cases x)
  case (Fin r)
  moreover assume "fle (Fin 0) x"
  ultimately have "fle (rnd binary32 (1 - r)) (rnd binary32 1)" by (intro rnd_mono) simp_all
  then show ?thesis using Fin by (simp add: fsub_def)
qed (simp_all add: fsub_def)

lemma fmax_zero_unit: "fle x (Fin 1) \<Longrightarrow> in_unit (fmax x (Fin 0))"
  by (cases x) (auto simp: fmax_def)

lemma fdiv_nonneg:
  assumes "wf_format fm" "fle (Fin 0) x" "0 < y"
  shows "fle (Fin 0) (fdiv fm x (Fin y))"
  using assms by (cases x) (auto simp: signed_inf_def rnd_nonneg)

lemma f32_5 [simp]: "f32_lit 5 = Fin 5"
  unfolding f32_lit_def by (subst rnd_eval [where k = 2 and e = "- 21" and m = "5 * 2 ^ 21"]) (simp_all add: f32_eval)

lemma temperature_stability_unit: "fle (Fin 0) c \<Longrightarrow> in_unit (temperature_stability_score c)"
  by (simp add: temperature_stability_score_def fmax_zero_unit one_minus_le_one fdiv_nonneg)

lemma fold_add_nonneg: "wf_format fm \<Longrightarrow> fle (Fin 0) a \<Longrightarrow> list_all (fle (Fin 0)) xs \<Longrightarrow> fle (Fin 0) (foldl (fadd fm) a xs)"
  by (induction xs arbitrary: a) (simp_all add: fadd_nonneg)

lemma rnd_diff_word:
  assumes "of_word binary32 (c :: u64) = Fin x" "0 \<le> x" "x \<le> 2 ^ 64" "0 \<le> m" "m \<le> 2 ^ 64"
  obtains d where "fsub binary32 (Fin x) (Fin m) = Fin d"
proof -
  have r: "representable binary32 (2 ^ 64)" "representable binary32 (- (2 ^ 64))"
    using representable_pow2 [of binary32 64] by (simp_all add: representable_def)
  have "(2 :: rat) ^ 64 \<le> max_fin binary32" using holds_binary(1) by (simp add: holds_words_def)
  then obtain y where "rnd binary32 (x - m) = Fin y"
    using rnd_between [of binary32 "- (2 ^ 64)" "2 ^ 64" "x - m"] r assms by force
  then show thesis using that by (simp add: fsub_def)
qed

text \<open>The weights add up to one.\<close>

lemma rnd_c1 [simp]: "rnd binary32 (3 / 10) = Fin (5033165 / 16777216)"
  by (subst rnd_eval [where k = "-2" and e = "-25" and m = 10066330]) (simp_all add: f32_eval)

lemma rnd_c2 [simp]: "rnd binary32 (13421773 / 67108864) = Fin (13421773 / 67108864)"
  by (subst rnd_eval [where k = "-3" and e = "-26" and m = 13421773]) (simp_all add: f32_eval)

lemma rnd_c3 [simp]: "rnd binary32 (5033165 / 16777216) = Fin (5033165 / 16777216)"
  by (subst rnd_eval [where k = "-2" and e = "-25" and m = 10066330]) (simp_all add: f32_eval)

lemma rnd_c4 [simp]: "rnd binary32 (1 / 4) = Fin (1 / 4)"
  by (subst rnd_eval [where k = "-2" and e = "-25" and m = 8388608]) (simp_all add: f32_eval)

lemma rnd_c5 [simp]: "rnd binary32 (3 / 4) = Fin (3 / 4)"
  by (subst rnd_eval [where k = "-1" and e = "-24" and m = 12582912]) (simp_all add: f32_eval)

lemma rnd_c6 [simp]: "rnd binary32 (33554433 / 67108864) = Fin (1 / 2)"
  by (subst rnd_eval [where k = "-1" and e = "-24" and m = 8388608]) (simp_all add: f32_eval)

lemma weight_sum_one: "weight_sum = Fin 1" "confidence_sum (Fin 1) (Fin 1) (Fin 1) (Fin 1) = Fin 1"
  by (simp_all add: weight_sum_def confidence_sum_def f32_lit_def)

lemma weight_lit: "0 < w \<Longrightarrow> \<exists>v. f32_lit w = Fin v \<and> 0 \<le> v" if "w \<le> 1" for w
  using in_unit_lit [of w] that by (auto simp: in_unit_iff)

lemma fmul_commute: "fmul fm x y = fmul fm y x"
  by (cases x; cases y) (auto simp: mult.commute)

lemma confidence_add:
  assumes "fle (Fin 0) s" "fle s s'" "in_unit f" "0 < w" "w \<le> 1"
  shows "fle (Fin 0) (fadd binary32 s (fmul binary32 f (f32_lit w)))
    \<and> fle (fadd binary32 s (fmul binary32 f (f32_lit w))) (fadd binary32 s' (fmul binary32 (Fin 1) (f32_lit w)))"
proof -
  obtain v where v: "f32_lit w = Fin v" "0 \<le> v" using weight_lit [of w] assms by blast
  have f: "fle f (Fin 1)" "in_unit (Fin 1)" using assms(3) by (simp_all add: in_unit_def)
  have "fle (Fin 0) (fmul binary32 f (Fin v))" "fle (fmul binary32 f (Fin v)) (fmul binary32 (Fin 1) (Fin v))"
    using fmul_nonneg_unit [of binary32 v f] fmul_mono_unit [of binary32 v f "Fin 1"] f v(2) assms(3)
    by (simp_all only: fmul_commute [of binary32 _ "Fin v"] wf_binary)
  then show ?thesis unfolding v(1) using assms(1,2) by (intro conjI fadd_nonneg fadd_mono) simp_all
qed

lemma confidence_sum_unit:
  assumes "in_unit a" "in_unit b" "in_unit c" "in_unit d"
  shows "in_unit (confidence_sum a b c d)"
proof -
  define add where "add s f w = fadd binary32 s (fmul binary32 f (f32_lit w))" for s f w
  have step: "fle (Fin 0) (add s f w) \<and> fle (add s f w) (add s' (Fin 1) w)"
    if "fle (Fin 0) s \<and> fle s s'" "in_unit f" "0 < w" "w \<le> 1" for s s' f w
    unfolding add_def using that by (intro confidence_add) blast+
  have "fle (Fin 0) (Fin 0) \<and> fle (Fin 0) (Fin 0)" by simp
  from step [OF step [OF step [OF step [OF this assms(1)] assms(2)] assms(3)] assms(4), of "2 / 10" "3 / 10" "25 / 100" "25 / 100"]
  have "fle (Fin 0) (confidence_sum a b c d) \<and> fle (confidence_sum a b c d) (confidence_sum (Fin 1) (Fin 1) (Fin 1) (Fin 1))"
    unfolding confidence_sum_def Let_def add_def by simp
  then show ?thesis by (simp add: weight_sum_one in_unit_def)
qed

lemma mean_range:
  assumes "0 < n"
  shows "\<exists>m. fdiv binary32 (of_word binary32 (t :: u64)) (of_len binary32 n) = Fin m \<and> 0 \<le> m \<and> m \<le> 2 ^ 64"
proof -
  obtain x where x: "of_word binary32 t = Fin x" "0 \<le> x" "x \<le> 2 ^ 64" by (rule of_word_between [of binary32 t]) simp_all
  have l: "fle (Fin 1) (of_len binary32 n)" using assms by (simp add: of_len_ge_1)
  show ?thesis
  proof (cases "of_len binary32 n")
    case (Fin y)
    then have y: "1 \<le> y" using l by simp
    have "x / y \<le> x / 1" using x y by (intro divide_left_mono) simp_all
    then have "0 \<le> x / y" "x / y \<le> 2 ^ 64" using x y by simp_all
    moreover have "(2 :: rat) ^ 64 \<le> max_fin binary32" using holds_binary(1) by (simp add: holds_words_def)
    ultimately obtain m where "rnd binary32 (x / y) = Fin m" "0 \<le> m" "m \<le> 2 ^ 64"
      using rnd_between [of binary32 0 "2 ^ 64" "x / y"] representable_pow2 [of binary32 64] by force
    then show ?thesis using Fin x y by simp
  next
    case PInf
    then show ?thesis using x by simp
  qed (use l in simp_all)
qed

definition squares :: "f32 \<Rightarrow> u64 list \<Rightarrow> f32 list" where
  "squares mean cs = map (\<lambda>c. let diff = fsub binary32 (of_word binary32 c) mean in fmul binary32 diff diff) cs"

lemma squares_nonneg:
  assumes "0 \<le> m" "m \<le> 2 ^ 64"
  shows "list_all (fle (Fin 0)) (squares (Fin m) cs)"
proof -
  have "fle (Fin 0) (let diff = fsub binary32 (of_word binary32 c) (Fin m) in fmul binary32 diff diff)" for c :: u64
  proof -
    obtain x where x: "of_word binary32 c = Fin x" "0 \<le> x" "x \<le> 2 ^ 64" by (rule of_word_between [of binary32 c]) simp_all
    obtain d where "fsub binary32 (Fin x) (Fin m) = Fin d" by (rule rnd_diff_word [OF x assms])
    then show ?thesis using x(1) by (simp add: rnd_nonneg)
  qed
  then show ?thesis by (simp add: squares_def list_all_iff)
qed

lemma fdiv_nonneg_ge1:
  assumes "fle (Fin 0) x" "fle (Fin 1) y" "y \<noteq> PInf"
  shows "fle (Fin 0) (fdiv binary32 x y)"
  using assms fdiv_nonneg [of binary32 x] by (cases y) simp_all

lemma fsum_nonneg: "list_all (fle (Fin 0)) xs \<Longrightarrow> fle (Fin 0) (fsum binary32 xs)"
  by (simp add: fsum_def fold_add_nonneg)

lemma access_variance_nonneg:
  assumes "root_like fsqrt" "calculate_access_variance pr fsqrt snap hist = Ok v"
  shows "fle (Fin 0) v"
proof -
  let ?cs = "all_counts snap hist"
  let ?len = "of_len binary32 (length ?cs)"
  have half: "fle (Fin 0) (f32_lit (5 / 10))" by simp
  show ?thesis
  proof (cases "hist = [] \<or> ?cs = []")
    case True
    then have "calculate_access_variance pr fsqrt snap hist = Ok (f32_lit (5 / 10))"
      unfolding calculate_access_variance_def Let_def by (simp only: if_True)
    then show ?thesis using assms(2) half by simp
  next
    case False
    then obtain t where t: "sum_from pr 0 ?cs = Ok t"
      using assms(2) by (auto simp: calculate_access_variance_def Let_def split: outcome.splits)
    have n: "0 < length ?cs" using False by simp
    let ?mean = "fdiv binary32 (of_word binary32 t) ?len"
    let ?var = "fdiv binary32 (fsum binary32 (squares ?mean ?cs)) ?len"
    obtain m where m: "?mean = Fin m" "0 \<le> m" "m \<le> 2 ^ 64" using mean_range [OF n] by blast
    have v: "v = (if ?mean = Fin 0 then f32_lit 0 else fmin (fdiv binary32 (fsqrt ?var) ?mean) (f32_lit 1))"
      using False assms(2) t unfolding calculate_access_variance_def Let_def squares_def by (simp split: if_splits)
    show ?thesis
    proof (cases "m = 0")
      case True
      then show ?thesis using v m by simp
    next
      case nz: False
      obtain x where x: "of_word binary32 t = Fin x" by (rule of_word_between [of binary32 t]) simp_all
      have len: "fle (Fin 1) ?len" using n by (simp only: of_len_ge_1 wf_binary)
      have fin: "?len \<noteq> PInf" using m(1) nz unfolding x by auto
      have "fle (Fin 0) ?var" unfolding m(1) using squares_nonneg [OF m(2,3)] len fin by (intro fdiv_nonneg_ge1 fsum_nonneg)
      then have "fle (Fin 0) (fsqrt ?var)" using assms(1) by (simp add: root_like_def)
      then have "fle (Fin 0) (fdiv binary32 (fsqrt ?var) (Fin m))" using m nz by (intro fdiv_nonneg) simp_all
      then show ?thesis using v m nz fmin_one by (auto simp: in_unit_def)
    qed
  qed
qed

lemma add_ones_nonneg: "fle (Fin 0) a \<Longrightarrow> fle (Fin 0) (((\<lambda>a. fadd binary32 a (f32_lit 1)) ^^ n) a)"
  by (induction n) (simp_all add: fadd_nonneg)

lemma temperature_changes_nonneg:
  assumes "length (samples snap) < 2 ^ 64"
  shows "fle (Fin 0) (calculate_temperature_changes snap hist)"
proof -
  have fold: "fle (Fin 0) (foldl (\<lambda>acc s. ((\<lambda>a. fadd binary32 a (f32_lit 1)) ^^ f s) acc) a xs)"
    if "fle (Fin 0) a" for f :: "hotness_sample \<Rightarrow> nat" and a xs
    using that by (induction xs arbitrary: a) (auto simp: add_ones_nonneg [simplified])
  have "of_len binary32 (length (samples snap)) = of_word binary32 (of_nat (length (samples snap)) :: u64)"
    using assms by (simp add: of_len_def of_word_def unat_len)
  then obtain y where "of_len binary32 (length (samples snap)) = Fin y"
    using of_word_between [of binary32 "of_nat (length (samples snap)) :: u64"] by force
  then show ?thesis
    using fold [of "Fin 0"] of_len_ge_1 [of binary32 "length (samples snap)"]
    by (auto simp: calculate_temperature_changes_def Let_def intro!: fdiv_nonneg)
qed

text \<open>
  Whatever the samples and the history are, the confidence score of a classification lies in
  the unit interval (given a square root that maps numbers that are not negative to such), and the
  level it is reported at is the highest whose minimum it reaches.
\<close>

theorem confidence_in_unit:
  assumes "root_like fsqrt" "length (samples snap) < 2 ^ 64" "confidence_calculate pr fsqrt snap hist = Ok c"
  shows "in_unit (conf_score c) \<and> fle (min_score (confidence_level_of c)) (conf_score c)"
proof -
  obtain v where v: "calculate_access_variance pr fsqrt snap hist = Ok v"
    using assms(3) by (auto simp: confidence_calculate_def Let_def split: outcome.splits)
  let ?s = "confidence_sum (sample_count_score (length (samples snap))) (duration_score (calculate_duration snap hist))
     (access_stability_score v) (temperature_stability_score (calculate_temperature_changes snap hist))"
  have "in_unit ?s"
    by (intro confidence_sum_unit sample_count_score_unit duration_score_unit access_stability_unit
        temperature_stability_unit access_variance_nonneg [OF assms(1) v] temperature_changes_nonneg [OF assms(2)])
  moreover have "conf_score c = fdiv binary32 ?s (Fin 1)"
    using assms(3) v by (auto simp: confidence_calculate_def Let_def weight_sum_one)
  ultimately have u: "in_unit (conf_score c)" by (auto simp: in_unit_iff [of ?s] intro!: rnd_in_unit)
  then have "fle (Fin 0) (conf_score c)" by (simp add: in_unit_def)
  then have "fle (min_score (confidence_level_of c)) (conf_score c)" by (simp add: confidence_level_of_def)
  with u show ?thesis by blast
qed

theorem confidence_in_unit_witness:
  "\<exists>c. confidence_calculate Debug (\<lambda>x. x) demo_snapshot [] = Ok c \<and> in_unit (conf_score c)"
proof -
  obtain c where c: "confidence_calculate Debug (\<lambda>x. x) demo_snapshot [] = Ok c"
    by (simp add: confidence_calculate_def calculate_access_variance_def Let_def)
  have "root_like (\<lambda>x. x)" "length (samples demo_snapshot) < 2 ^ 64" by (simp_all add: root_like_def demo_snapshot_def)
  from confidence_in_unit [OF this c] c show ?thesis by blast
qed

section \<open>The history keeps the most recent snapshots\<close>

lemma trim_front_drop: "trim_front n xs = drop (length xs - n) xs"
  by (induction xs) (auto simp: Suc_diff_le)

lemma trim_front_append: "trim_front n (trim_front n xs @ ys) = trim_front n (xs @ ys)"
proof (cases "length xs \<le> n")
  case False
  then obtain k where k: "length xs = n + k" by (metis le_iff_add linear)
  then show ?thesis by (simp add: trim_front_drop add.commute)
qed (simp add: trim_front_drop)

lemma push_all:
  "snapshots (fold history_push ss h) = (if ss = [] then snapshots h else trim_front (max_snapshots h) (snapshots h @ ss))
   \<and> max_snapshots (fold history_push ss h) = max_snapshots h"
proof (induction ss rule: rev_induct)
  case (snoc s ss)
  then show ?case by (simp add: history_push_def trim_front_append)
qed simp

text \<open>
  After any number of pushes the history of capacity \<open>n\<close> holds exactly the last \<open>max n 1\<close>
  snapshots pushed, oldest first, so that the latest is always present.
\<close>

theorem history_keeps_recent:
  "snapshots (fold history_push ss (history_new n)) = drop (length ss - max n 1) ss
   \<and> (ss \<noteq> [] \<longrightarrow> snapshots (fold history_push ss (history_new n)) \<noteq> []
        \<and> last (snapshots (fold history_push ss (history_new n))) = last ss)"
proof -
  have e: "snapshots (fold history_push ss (history_new n)) = drop (length ss - max n 1) ss"
    using push_all [of ss "history_new n"] by (auto simp: history_new_def trim_front_drop split: if_splits)
  have "length ss - max n 1 < length ss" if "ss \<noteq> []" using that by (cases ss) auto
  then show ?thesis unfolding e by (simp add: not_le)
qed

theorem history_keeps_recent_witness:
  "snapshots (fold history_push [demo_snapshot, demo_snapshot\<lparr>snapshot_time := 9\<rparr>] (history_new 0)) = [demo_snapshot\<lparr>snapshot_time := 9\<rparr>]"
  using history_keeps_recent [of "[demo_snapshot, demo_snapshot\<lparr>snapshot_time := 9\<rparr>]" 0] by simp

end
