(* ===== verification/Hotness_Tracker.thy ===== *)
theory Hotness_Tracker
  imports Hotness_Sampling Ranking Runtime
begin

text \<open>
  \<^verbatim>\<open>ghost-daemon/src/hotness_tracker.rs\<close>: the hotness of every tracked chunk in an ordered map, and the
  aggregate state fed by an external provider. What the provider returns is an input of the
  sampling step (\<open>None\<close> when no provider is set).
\<close>

record hotness_state =
  hs_summary :: hotness_summary
  hs_confidence :: hotness_confidence
  hs_history :: hotness_history
  last_update :: u64

definition hotness_state_empty :: "profile \<Rightarrow> (f32 \<Rightarrow> f32) \<Rightarrow> hotness_state ghost_result" where
  "hotness_state_empty pr fsqrt =
     (let none = \<lparr>samples = [], snapshot_time = 0\<rparr> in
      case from_snapshot pr none of
        Panic \<Rightarrow> Panic | Err e \<Rightarrow> Err e
      | Ok s \<Rightarrow> (case confidence_calculate pr fsqrt none [] of
            Panic \<Rightarrow> Panic | Err e \<Rightarrow> Err e
          | Ok c \<Rightarrow> Ok \<lparr>hs_summary = s, hs_confidence = c, hs_history = history_new 64, last_update = 0\<rparr>))"

definition hotness_state_update ::
  "profile \<Rightarrow> (f32 \<Rightarrow> f32) \<Rightarrow> hotness_snapshot \<Rightarrow> (hotness_state, unit, ghost_error) act" where
  "hotness_state_update pr fsqrt snap st =
     (let hist = snapshots (hs_history st) in
      bind_act (lift_outcome (from_snapshot pr snap)) (\<lambda>s.
      bind_act (update_act (\<lambda>st. st\<lparr>hs_summary := s\<rparr>)) (\<lambda>_.
      bind_act (lift_outcome (confidence_calculate pr fsqrt snap hist)) (\<lambda>c.
      update_act (\<lambda>st. st\<lparr>hs_confidence := c, hs_history := history_push snap (hs_history st),
                          last_update := snapshot_time snap\<rparr>)))) st)"

record hotness_tracker =
  hotness_map :: "(chunk_id, chunk_hotness) btree"
  max_tracked :: usize
  ht_state :: hotness_state
  sampling_interval :: nat
  ht_rt :: runtime

type_synonym 'a tracking = "(hotness_tracker, 'a, ghost_error) act"

definition on_ht_rt :: "'a rt \<Rightarrow> 'a tracking" where
  "on_ht_rt m = on_part ht_rt (\<lambda>r s. s\<lparr>ht_rt := r\<rparr>) m"

definition sample_hotness ::
  "profile \<Rightarrow> (f32 \<Rightarrow> f32) \<Rightarrow> hotness_snapshot ghost_result option \<Rightarrow> hotness_state option tracking" where
  "sample_hotness pr fsqrt provider = (case provider of
       Some (Ok snap) \<Rightarrow> bind_act (on_part ht_state (\<lambda>st s. s\<lparr>ht_state := st\<rparr>) (hotness_state_update pr fsqrt snap))
         (\<lambda>_ s. (Ok (Some (ht_state s)), s))
     | Some Panic \<Rightarrow> (\<lambda>s. (Panic, s))
     | _ \<Rightarrow> ret None)"

text \<open>The source renders each range as text in hexadecimal; here it stays a range.\<close>

definition regions_with :: "(temperature \<Rightarrow> bool) \<Rightarrow> hotness_tracker \<Rightarrow> (address_range \<times> temperature) list" where
  "regions_with P t = (let ss = snapshots (hs_history (ht_state t)) in
     if ss = [] then []
     else map (\<lambda>s. (sample_range s, sample_temperature s)) (filter (\<lambda>s. P (sample_temperature s)) (samples (last ss))))"

definition get_hot_regions :: "hotness_tracker \<Rightarrow> (address_range \<times> temperature) list" where
  "get_hot_regions t = regions_with temp_is_active t"

definition get_cold_regions :: "hotness_tracker \<Rightarrow> (address_range \<times> temperature) list" where
  "get_cold_regions t = regions_with temp_is_inactive t"

text \<open>The entry is created, and the creation traced, before the access is counted in place.\<close>

definition ensure_tracked :: "chunk_id \<Rightarrow> u64 \<Rightarrow> chunk_hotness tracking" where
  "ensure_tracked cid now s = (case fmlookup (hotness_map s) cid of
       Some h \<Rightarrow> (Ok h, s)
     | None \<Rightarrow> bind_act (on_ht_rt (log_event (ChunkCreated cid 0 Ram now))) (\<lambda>_.
                bind_act (update_act (\<lambda>s. s\<lparr>hotness_map := fmupd cid (hotness_new cid now) (hotness_map s)\<rparr>)) (\<lambda>_.
                ret (hotness_new cid now))) s)"

definition tracker_record_access :: "profile \<Rightarrow> (f64 \<Rightarrow> f64) \<Rightarrow> chunk_id \<Rightarrow> usize \<Rightarrow> unit tracking" where
  "tracker_record_access pr expo cid sz =
     bind_act (on_ht_rt now_ms) (\<lambda>now.
     bind_act (ensure_tracked cid now) (\<lambda>h s.
       case hotness_record_access pr expo now sz h of
         (r, h') \<Rightarrow> (r, s\<lparr>hotness_map := fmupd cid h' (hotness_map s)\<rparr>)))"

definition get_hotness :: "chunk_id \<Rightarrow> hotness_tracker \<Rightarrow> chunk_hotness option" where
  "get_hotness cid t = fmlookup (hotness_map t) cid"

definition all_hotness :: "hotness_tracker \<Rightarrow> (chunk_id \<times> chunk_hotness) list" where
  "all_hotness t = bt_entries (hotness_map t)"

definition find_hot_chunks :: "f32 \<Rightarrow> hotness_tracker \<Rightarrow> (chunk_id \<times> chunk_hotness) list" where
  "find_hot_chunks thr t = filter (\<lambda>(_, h). fge (h_score h) thr) (bt_entries (hotness_map t))"

definition find_cold_chunks :: "f32 \<Rightarrow> hotness_tracker \<Rightarrow> (chunk_id \<times> chunk_hotness) list" where
  "find_cold_chunks thr t = filter (\<lambda>(_, h). flt (h_score h) thr) (bt_entries (hotness_map t))"

definition decay_all :: "(f64 \<Rightarrow> f64) \<Rightarrow> unit tracking" where
  "decay_all expo = bind_act (on_ht_rt now_ms) (\<lambda>now.
     update_act (\<lambda>s. s\<lparr>hotness_map := fmmap (update_recency expo now) (hotness_map s)\<rparr>))"

definition tracker_remove :: "chunk_id \<Rightarrow> chunk_hotness option tracking" where
  "tracker_remove cid s = (Ok (fmlookup (hotness_map s) cid), s\<lparr>hotness_map := fmdrop cid (hotness_map s)\<rparr>)"

definition tracker_len :: "hotness_tracker \<Rightarrow> nat" where
  "tracker_len t = bt_len (hotness_map t)"

definition tracker_clear :: "unit tracking" where
  "tracker_clear = update_act (\<lambda>s. s\<lparr>hotness_map := fmempty\<rparr>)"

definition top_n :: "nat \<Rightarrow> hotness_tracker \<Rightarrow> (chunk_id \<times> chunk_hotness) list" where
  "top_n n t = take n (sort_by (\<lambda>a b. cmp_float (h_score (snd b)) (h_score (snd a))) (bt_entries (hotness_map t)))"

definition bottom_n :: "nat \<Rightarrow> hotness_tracker \<Rightarrow> (chunk_id \<times> chunk_hotness) list" where
  "bottom_n n t = take n (sort_by (\<lambda>a b. cmp_float (h_score (snd a)) (h_score (snd b))) (bt_entries (hotness_map t)))"

section \<open>Every tracked chunk has a score of the unit interval\<close>

definition tracker_inv :: "hotness_tracker \<Rightarrow> bool" where
  "tracker_inv t \<longleftrightarrow> (\<forall>cid h. fmlookup (hotness_map t) cid = Some h \<longrightarrow> fresh h \<or> scored h)"

datatype tracker_op = TAccess chunk_id usize | TDecay | TRemove chunk_id | TClear

fun tracker_step :: "profile \<Rightarrow> (f64 \<Rightarrow> f64) \<Rightarrow> tracker_op \<Rightarrow> unit tracking" where
  "tracker_step pr expo (TAccess cid sz) = tracker_record_access pr expo cid sz"
| "tracker_step pr expo TDecay = decay_all expo"
| "tracker_step pr expo (TRemove cid) = bind_act (tracker_remove cid) (\<lambda>_. ret ())"
| "tracker_step pr expo TClear = tracker_clear"

fun tracker_run :: "profile \<Rightarrow> (f64 \<Rightarrow> f64) \<Rightarrow> tracker_op list \<Rightarrow> unit tracking" where
  "tracker_run pr expo [] = ret ()"
| "tracker_run pr expo (x # xs) = bind_act (tracker_step pr expo x) (\<lambda>_. tracker_run pr expo xs)"

lemma fresh_scored_unit: "fresh h \<or> scored h \<Longrightarrow> in_unit (h_score h)"
  by (auto simp: fresh_def scored_def score_in_unit)

lemma on_ht_rt_map [simp]: "on_ht_rt m s = (r, s') \<Longrightarrow> hotness_map s' = hotness_map s"
  by (auto simp: on_ht_rt_def on_part_def split: prod.splits)

lemma ensure_tracked_map:
  assumes "ensure_tracked cid now s = (Ok h, s')"
  shows "hotness_map s' = or_insert cid (hotness_new cid now) (hotness_map s) \<and> fmlookup (hotness_map s') cid = Some h"
  using assms
  by (auto simp: ensure_tracked_def or_insert_def bind_act_Ok_iff update_act_def ret_def split: option.splits)

lemma tracker_step_inv:
  assumes "decaying expo" "tracker_inv s" "tracker_step pr expo x s = (Ok (), s')"
  shows "tracker_inv s'"
proof (cases x)
  case (TAccess cid sz)
  then obtain now s1 h s2 where r: "on_ht_rt now_ms s = (Ok now, s1)" "ensure_tracked cid now s1 = (Ok h, s2)"
    "(case hotness_record_access pr expo now sz h of (r, h') \<Rightarrow> (r, s2\<lparr>hotness_map := fmupd cid h' (hotness_map s2)\<rparr>)) = (Ok (), s')"
    using assms(3) by (auto simp: tracker_record_access_def bind_act_Ok_iff)
  then obtain h' where h': "hotness_record_access pr expo now sz h = (Ok (), h')" "hotness_map s' = fmupd cid h' (hotness_map s2)"
    by (cases "hotness_record_access pr expo now sz h") auto
  have "hotness_map s2 = or_insert cid (hotness_new cid now) (hotness_map s)"
    using ensure_tracked_map [OF r(2)] on_ht_rt_map [OF r(1)] by simp
  then show ?thesis
    using assms(2) h'(2) record_access_result [OF h'(1)] by (auto simp: tracker_inv_def)
next
  case TDecay
  then show ?thesis
    using assms by (auto simp: tracker_inv_def decay_all_def bind_act_Ok_iff update_act_def update_recency_def
        intro!: scored_recompute recency_in_unit)
next
  case (TRemove cid)
  then show ?thesis
    using assms by (auto simp: tracker_inv_def tracker_remove_def bind_act_Ok_iff ret_def split: if_splits) blast
next
  case TClear
  then show ?thesis using assms by (auto simp: tracker_inv_def tracker_clear_def update_act_def)
qed

lemma tracker_run_inv:
  "decaying expo \<Longrightarrow> tracker_inv s \<Longrightarrow> tracker_run pr expo xs s = (Ok (), s') \<Longrightarrow> tracker_inv s'"
proof (induction xs arbitrary: s)
  case (Cons x xs)
  then show ?case using tracker_step_inv [of expo s pr x] by (auto simp: bind_act_Ok_iff)
qed (simp add: ret_def)

lemma inv_scores:
  assumes "tracker_inv t" "(cid, h) \<in> set (bt_entries (hotness_map t))"
  shows "in_unit (h_score h)" "h_score h \<noteq> NaN"
proof -
  show u: "in_unit (h_score h)"
    using assms fresh_scored_unit [of h] by (auto simp: tracker_inv_def in_bt_entries)
  then show "h_score h \<noteq> NaN" by (auto simp: in_unit_iff)
qed

text \<open>
  After any sequence of accesses, decays, removals and clearings, every tracked score is in the
  unit interval, and for every threshold that is a number the hot and the cold chunks divide the
  tracked chunks between them.
\<close>

theorem hot_cold_partition:
  assumes "decaying expo" "tracker_inv s" "tracker_run pr expo xs s = (Ok (), t)" "thr \<noteq> NaN"
  shows "list_all (\<lambda>(_, h). in_unit (h_score h)) (all_hotness t)
    \<and> set (find_hot_chunks thr t) \<union> set (find_cold_chunks thr t) = set (all_hotness t)
    \<and> set (find_hot_chunks thr t) \<inter> set (find_cold_chunks thr t) = {}"
proof -
  have inv: "tracker_inv t" by (rule tracker_run_inv [OF assms(1-3)])
  have split: "flt (h_score h) thr \<longleftrightarrow> \<not> fle thr (h_score h)" if "(cid, h) \<in> set (bt_entries (hotness_map t))" for cid h
    using not_flt [of "h_score h" thr] inv_scores [OF inv that] assms(4) by blast
  show ?thesis
    using inv_scores(1) [OF inv] split by (auto simp: all_hotness_def find_hot_chunks_def find_cold_chunks_def list_all_iff)
qed

definition demo_tracker :: hotness_tracker where
  "demo_tracker = \<lparr>hotness_map = fmempty, max_tracked = 10,
     ht_state = \<lparr>hs_summary = ok_value (from_snapshot Debug demo_snapshot), hs_confidence = \<lparr>conf_score = Fin 0, factors = []\<rparr>,
       hs_history = history_new 64, last_update = 0\<rparr>, sampling_interval = 60,
     ht_rt = \<lparr>ms_at = (\<lambda>_. 7), secs_at = (\<lambda>_. 1), room_at = (\<lambda>_. True), ticks = 0, rt_log = trace_log_new 10, rt_emitter = None\<rparr>\<rparr>"

lemma demo_access: "\<exists>t. tracker_run Debug step_exp [TAccess (ChunkId [1]) 8] demo_tracker = (Ok (), t) \<and> bt_len (hotness_map t) = 1"
proof -
  let ?h = "hotness_new (ChunkId [1]) 7"
  obtain h' where h: "hotness_record_access Debug step_exp 7 8 ?h = (Ok (), h')"
    by (rule record_access_returns [of ?h 8 Debug step_exp 7]) (simp_all add: hotness_new_def)
  show ?thesis
    by (simp add: tracker_record_access_def ensure_tracked_def on_ht_rt_def now_ms_def log_event_def act_defs demo_tracker_def
        tick_def trace_record_def trace_log_new_def h bt_len_upd) (simp add: bt_len_def)
qed

theorem hot_cold_partition_witness:
  "\<exists>t. tracker_run Debug step_exp [TAccess (ChunkId [1]) 8] demo_tracker = (Ok (), t)
     \<and> set (find_hot_chunks (Fin (1 / 2)) t) \<union> set (find_cold_chunks (Fin (1 / 2)) t) = set (all_hotness t)"
proof -
  obtain t where t: "tracker_run Debug step_exp [TAccess (ChunkId [1]) 8] demo_tracker = (Ok (), t)" using demo_access by blast
  have "tracker_inv demo_tracker" by (simp add: tracker_inv_def demo_tracker_def)
  from hot_cold_partition [OF decaying_step this t, of "Fin (1 / 2)"] t show ?thesis by auto
qed

text \<open>
  \<^verbatim>\<open>top_n\<close> returns \<open>n\<close> tracked chunks (all, if there are fewer), hottest first, and no chunk it
  leaves out is hotter than one it returns.
\<close>

theorem top_n_hottest:
  assumes "tracker_inv t"
  shows "length (top_n n t) = min n (tracker_len t) \<and> set (top_n n t) \<subseteq> set (all_hotness t)
    \<and> sorted_wrt (\<lambda>a b. fle (h_score (snd b)) (h_score (snd a))) (top_n n t)
    \<and> (\<forall>a\<in>set (top_n n t). \<forall>b\<in>set (all_hotness t) - set (top_n n t). fle (h_score (snd b)) (h_score (snd a)))"
proof -
  let ?es = "bt_entries (hotness_map t)"
  let ?s = "sort_by (\<lambda>a b. cmp_float (h_score (snd b)) (h_score (snd a))) ?es"
  have num: "\<forall>y\<in>set ?es. h_score (snd y) \<noteq> NaN" using inv_scores(2) [OF assms] by (metis prod.collapse)
  have srt: "sorted_wrt (\<lambda>a b. fle (h_score (snd b)) (h_score (snd a))) ?s"
    by (rule floats_desc.sorted_sort_by [of ?es "\<lambda>e. h_score (snd e)", OF num])
  have "length ?es = tracker_len t" by (simp add: bt_entries_def tracker_len_def bt_len_def)
  moreover have "fle (h_score (snd b)) (h_score (snd a))" if "a \<in> set (take n ?s)" "b \<in> set ?es - set (take n ?s)" for a b
  proof -
    have "b \<in> set (take n ?s @ drop n ?s)" using that(2) by simp
    then have "b \<in> set (drop n ?s)" using that(2) by (simp only: set_append) blast
    then show ?thesis using floats_desc.take_sorted_before [of ?es "\<lambda>e. h_score (snd e)" a n b] num that(1) by simp
  qed
  moreover have "sorted_wrt (\<lambda>a b. fle (h_score (snd b)) (h_score (snd a))) (take n ?s)"
    by (rule sorted_wrt_take [OF srt])
  moreover have "set (take n ?s) \<subseteq> set ?es" using set_take_subset [of n ?s] by simp
  ultimately show ?thesis by (simp add: top_n_def all_hotness_def min.commute)
qed

theorem top_n_hottest_witness:
  "\<exists>t. tracker_run Debug step_exp [TAccess (ChunkId [1]) 8] demo_tracker = (Ok (), t) \<and> length (top_n 3 t) = 1"
proof -
  obtain t where t: "tracker_run Debug step_exp [TAccess (ChunkId [1]) 8] demo_tracker = (Ok (), t)" "bt_len (hotness_map t) = 1"
    using demo_access by blast
  have "tracker_inv demo_tracker" by (simp add: tracker_inv_def demo_tracker_def)
  then have "tracker_inv t" using tracker_run_inv [OF decaying_step _ t(1)] by blast
  from top_n_hottest [OF this, of 3] t show ?thesis by (auto simp: tracker_len_def)
qed

end
