(* ===== verification/Triples.thy ===== *)
theory Triples
  imports Runtime "HOL-Library.Sublist"
begin

text \<open>
  Total correctness of stateful steps: \<open>triple P m Q\<close> says that from every state with \<open>P\<close> the step
  returns a value, without error or panic, and the value and the new state satisfy \<open>Q\<close>. The rules
  follow the way steps are built; \<open>triple_rules\<close> collects those that apply by shape.
\<close>

definition triple :: "('s \<Rightarrow> bool) \<Rightarrow> ('s, 'a, 'e) act \<Rightarrow> ('a \<Rightarrow> 's \<Rightarrow> bool) \<Rightarrow> bool" where
  "triple P m Q \<longleftrightarrow> (\<forall>s. P s \<longrightarrow> (\<exists>a s'. m s = (Ok a, s') \<and> Q a s'))"

named_theorems triple_rules \<open>total correctness rules by the shape of the step\<close>

lemma tripleI: "(\<And>s. P s \<Longrightarrow> \<exists>a s'. m s = (Ok a, s') \<and> Q a s') \<Longrightarrow> triple P m Q"
  by (simp add: triple_def)

lemma tripleD: "triple P m Q \<Longrightarrow> P s \<Longrightarrow> \<exists>a s'. m s = (Ok a, s') \<and> Q a s'"
  by (simp add: triple_def)

lemma tripleE:
  assumes "triple P m Q" "P s"
  obtains a s' where "m s = (Ok a, s')" "Q a s'"
  using tripleD [OF assms] by blast

lemma triple_bind: "triple P m R \<Longrightarrow> (\<And>a. triple (R a) (f a) Q) \<Longrightarrow> triple P (bind_act m f) Q"
  unfolding triple_def by (fastforce simp: bind_act_def)

lemma triple_ret [triple_rules]: "(\<And>s. P s \<Longrightarrow> Q a s) \<Longrightarrow> triple P (ret a) Q"
  by (simp add: triple_def ret_def)

lemma triple_update [triple_rules]: "(\<And>s. P s \<Longrightarrow> Q () (u s)) \<Longrightarrow> triple P (update_act u) Q"
  by (simp add: triple_def update_act_def)

lemma triple_if [triple_rules]:
  "(c \<Longrightarrow> triple P m Q) \<Longrightarrow> (\<not> c \<Longrightarrow> triple P m' Q) \<Longrightarrow> triple P (if c then m else m') Q"
  by simp

lemma triple_option [triple_rules]:
  "(v = None \<Longrightarrow> triple P m Q) \<Longrightarrow> (\<And>x. v = Some x \<Longrightarrow> triple P (f x) Q) \<Longrightarrow>
     triple P (case v of None \<Rightarrow> m | Some x \<Rightarrow> f x) Q"
  by (cases v) simp_all

lemma triple_weaken: "triple P' m Q' \<Longrightarrow> (\<And>s. P s \<Longrightarrow> P' s) \<Longrightarrow> (\<And>a s. Q' a s \<Longrightarrow> Q a s) \<Longrightarrow> triple P m Q"
  unfolding triple_def by blast

lemma triple_pre: "triple P' m Q \<Longrightarrow> (\<And>s. P s \<Longrightarrow> P' s) \<Longrightarrow> triple P m Q"
  by (rule triple_weaken)

lemma triple_conj: "triple P m Q \<Longrightarrow> triple P m R \<Longrightarrow> triple P m (\<lambda>a s. Q a s \<and> R a s)"
  unfolding triple_def by fastforce

text \<open>A fact about the initial state may be fixed, and a part that the step keeps stays known.\<close>

lemma triple_state: "(\<And>s. P s \<Longrightarrow> triple (\<lambda>t. t = s) m Q) \<Longrightarrow> triple P m Q"
  unfolding triple_def by blast

lemma triple_at: "(\<And>s. triple P (m s) Q) \<Longrightarrow> triple P (\<lambda>s. m s s) Q"
  unfolding triple_def by blast

lemma triple_ex: "(\<And>k. triple (P k) m Q) \<Longrightarrow> triple (\<lambda>s. \<exists>k. P k s) m Q"
  unfolding triple_def by blast

lemma triple_fact: "(c \<Longrightarrow> triple P m Q) \<Longrightarrow> triple (\<lambda>s. c \<and> P s) m Q"
  unfolding triple_def by blast

lemma triple_keeps:
  assumes "triple P m Q" "keeps c m"
  shows "triple (\<lambda>s. P s \<and> C (c s)) m (\<lambda>a s. Q a s \<and> C (c s))"
proof (rule tripleI)
  fix s assume a: "P s \<and> C (c s)"
  then obtain b s' where "m s = (Ok b, s')" "Q b s'" using tripleD [OF assms(1)] by blast
  moreover from this have "c s' = c s" using keepsD [OF assms(2), of s] by simp
  ultimately show "\<exists>a s'. m s = (Ok a, s') \<and> Q a s' \<and> C (c s')" using a by auto
qed

lemma triple_on_part:
  assumes "triple P m Q" "\<And>t s. sel (upd t s) = t"
  shows "triple (\<lambda>s. P (sel s)) (on_part sel upd m) (\<lambda>a s. Q a (sel s))"
  using assms unfolding triple_def on_part_def by fastforce

text \<open>The shared runtime: with room in the log, logging, emitting and reading the clock return.\<close>

lemma rt_triples: "triple rt_ok (log_event ev) (\<lambda>_. rt_ok)" "triple rt_ok (emit_event evt) (\<lambda>_. rt_ok)" "triple rt_ok now_ms (\<lambda>_. rt_ok)"
proof -
  show "triple rt_ok (log_event ev) (\<lambda>_. rt_ok)" by (rule tripleI) (metis log_event_ok)
  show "triple rt_ok (emit_event evt) (\<lambda>_. rt_ok)" by (rule tripleI) (metis emit_event_ok)
  show "triple rt_ok now_ms (\<lambda>_. rt_ok)" by (rule tripleI) (simp add: now_ms_def)
qed

section \<open>Loops\<close>

text \<open>\<^verbatim>\<open>for x in xs { ... ys.push(y) }\<close>: the loop collects what its items yield.\<close>

fun filter_map_act :: "('a \<Rightarrow> ('s, 'b option, 'e) act) \<Rightarrow> 'a list \<Rightarrow> ('s, 'b list, 'e) act" where
  "filter_map_act f [] = ret []"
| "filter_map_act f (x # xs) = bind_act (f x) (\<lambda>y. bind_act (filter_map_act f xs) (\<lambda>ys.
     ret (case y of None \<Rightarrow> ys | Some z \<Rightarrow> z # ys)))"

definition opt_list :: "'a option \<Rightarrow> 'a list" where
  "opt_list y = (case y of None \<Rightarrow> [] | Some z \<Rightarrow> [z])"

lemma opt_list_simps [simp]: "opt_list None = []" "opt_list (Some z) = [z]"
  by (simp_all add: opt_list_def)

text \<open>
  The loop rule: \<open>I seen ys\<close> relates the items visited so far and what they yielded to the state.
\<close>

lemma filter_map_rule:
  assumes "\<And>seen x rest ys. pre @ xs = seen @ x # rest \<Longrightarrow> triple (I seen ys) (f x) (\<lambda>y. I (seen @ [x]) (ys @ opt_list y))"
  shows "triple (I pre acc) (filter_map_act f xs) (\<lambda>ys. I (pre @ xs) (acc @ ys))"
  using assms
proof (induction xs arbitrary: pre acc)
  case Nil
  then show ?case by (auto intro: triple_ret)
next
  case (Cons x xs)
  have x: "triple (I pre acc) (f x) (\<lambda>y. I (pre @ [x]) (acc @ opt_list y))" by (rule Cons.prems) simp
  have xs: "triple (I (pre @ [x]) (acc @ opt_list y)) (filter_map_act f xs) (\<lambda>ys. I ((pre @ [x]) @ xs) ((acc @ opt_list y) @ ys))" for y
    by (rule Cons.IH) (rule Cons.prems, simp)
  show ?case
    unfolding filter_map_act.simps
    by (rule triple_bind [OF x], rule triple_bind [OF xs], rule triple_ret) (auto split: option.splits)
qed

text \<open>A loop without results, \<^verbatim>\<open>for x in xs { ... }\<close>.\<close>

fun for_act :: "('a \<Rightarrow> ('s, unit, 'e) act) \<Rightarrow> 'a list \<Rightarrow> ('s, unit, 'e) act" where
  "for_act f [] = ret ()"
| "for_act f (x # xs) = bind_act (f x) (\<lambda>_. for_act f xs)"

lemma for_rule:
  assumes "\<And>seen x rest. pre @ xs = seen @ x # rest \<Longrightarrow> triple (I seen) (f x) (\<lambda>_. I (seen @ [x]))"
  shows "triple (I pre) (for_act f xs) (\<lambda>_. I (pre @ xs))"
  using assms
proof (induction xs arbitrary: pre)
  case (Cons x xs)
  have "triple (I (pre @ [x])) (for_act f xs) (\<lambda>_. I ((pre @ [x]) @ xs))" by (rule Cons.IH) (rule Cons.prems, simp)
  then show ?case by (simp, intro triple_bind [OF Cons.prems]) simp_all
qed (simp add: triple_ret)

text \<open>What a loop keeps.\<close>

lemma keeps_filter_map [keeps_rules]: "(\<And>x. keeps c (f x)) \<Longrightarrow> keeps c (filter_map_act f xs)"
  by (induction xs) (auto intro!: keeps_rules)

lemma keeps_for [keeps_rules]: "(\<And>x. keeps c (f x)) \<Longrightarrow> keeps c (for_act f xs)"
  by (induction xs) (auto intro!: keeps_rules)

lemma keeps_option [keeps_rules]:
  "keeps c m \<Longrightarrow> (\<And>x. keeps c (f x)) \<Longrightarrow> keeps c (case v of None \<Rightarrow> m | Some x \<Rightarrow> f x)"
  by (cases v) simp_all

lemma keeps_update: "(\<And>s. c (u s) = c s) \<Longrightarrow> keeps c (update_act u)"
  by (simp add: keeps_def update_act_def)

lemma keeps_on_part: "(\<And>t s. c (upd t s) = c s) \<Longrightarrow> keeps c (on_part sel upd m)"
  by (simp add: keeps_def on_part_def split: prod.split)

lemma keeps_read: "keeps c (\<lambda>s. (r s, s))"
  by (simp add: keeps_def)

section \<open>Partial correctness\<close>

text \<open>\<open>partial P m Q\<close>: when the step returns a value from a state with \<open>P\<close>, then \<open>Q\<close> holds.\<close>

definition partial :: "('s \<Rightarrow> bool) \<Rightarrow> ('s, 'a, 'e) act \<Rightarrow> ('a \<Rightarrow> 's \<Rightarrow> bool) \<Rightarrow> bool" where
  "partial P m Q \<longleftrightarrow> (\<forall>s a s'. P s \<longrightarrow> m s = (Ok a, s') \<longrightarrow> Q a s')"

lemma partialI: "(\<And>s a s'. P s \<Longrightarrow> m s = (Ok a, s') \<Longrightarrow> Q a s') \<Longrightarrow> partial P m Q"
  by (simp add: partial_def)

lemma partialD: "partial P m Q \<Longrightarrow> P s \<Longrightarrow> m s = (Ok a, s') \<Longrightarrow> Q a s'"
  by (simp add: partial_def)

lemma partial_bind: "partial P m R \<Longrightarrow> (\<And>a. partial (R a) (f a) Q) \<Longrightarrow> partial P (bind_act m f) Q"
  unfolding partial_def bind_act_Ok_iff by blast

lemma partial_ret: "(\<And>s. P s \<Longrightarrow> Q a s) \<Longrightarrow> partial P (ret a) Q"
  by (simp add: partial_def ret_def)

lemma partial_update: "(\<And>s. P s \<Longrightarrow> Q () (u s)) \<Longrightarrow> partial P (update_act u) Q"
  by (simp add: partial_def update_act_def)

lemma partial_if: "(c \<Longrightarrow> partial P m Q) \<Longrightarrow> (\<not> c \<Longrightarrow> partial P m' Q) \<Longrightarrow> partial P (if c then m else m') Q"
  by simp

lemma partial_option:
  "(v = None \<Longrightarrow> partial P m Q) \<Longrightarrow> (\<And>x. v = Some x \<Longrightarrow> partial P (f x) Q) \<Longrightarrow>
     partial P (case v of None \<Rightarrow> m | Some x \<Rightarrow> f x) Q"
  by (cases v) simp_all

lemma partial_weaken: "partial P' m Q' \<Longrightarrow> (\<And>s. P s \<Longrightarrow> P' s) \<Longrightarrow> (\<And>a s. Q' a s \<Longrightarrow> Q a s) \<Longrightarrow> partial P m Q"
  unfolding partial_def by blast

lemma partial_keeps: "keeps c m \<Longrightarrow> partial (\<lambda>s. C (c s)) m (\<lambda>_ s. C (c s))"
  unfolding partial_def keeps_def by (metis snd_conv)

lemma partial_state: "(\<And>s. P s \<Longrightarrow> partial (\<lambda>t. t = s) m Q) \<Longrightarrow> partial P m Q"
  unfolding partial_def by blast

lemma partial_filter_map:
  assumes "\<And>seen x rest ys. pre @ xs = seen @ x # rest \<Longrightarrow> partial (I seen ys) (f x) (\<lambda>y. I (seen @ [x]) (ys @ opt_list y))"
  shows "partial (I pre acc) (filter_map_act f xs) (\<lambda>ys. I (pre @ xs) (acc @ ys))"
  using assms
proof (induction xs arbitrary: pre acc)
  case Nil
  then show ?case by (auto intro: partial_ret)
next
  case (Cons x xs)
  have x: "partial (I pre acc) (f x) (\<lambda>y. I (pre @ [x]) (acc @ opt_list y))" by (rule Cons.prems) simp
  have xs: "partial (I (pre @ [x]) (acc @ opt_list y)) (filter_map_act f xs) (\<lambda>ys. I ((pre @ [x]) @ xs) ((acc @ opt_list y) @ ys))" for y
    by (rule Cons.IH) (rule Cons.prems, simp)
  show ?case
    unfolding filter_map_act.simps
    by (rule partial_bind [OF x], rule partial_bind [OF xs], rule partial_ret) (auto split: option.splits)
qed

end
