(* ===== verification/Migration.thy ===== *)
theory Migration
  imports Policy Hotness_Tracker Chunk_State Backpressure Triples
begin

text \<open>
  \<^verbatim>\<open>ghost-daemon/src/migration.rs\<close>: the migration engine proposes migrations, promotions and evictions,
  decides on them and keeps track of the active ones. The state machine, the hotness tracker and
  (inside the tracker) the runtime are shared with the rest of the daemon and are parts of the
  engine's state here. A backend enters only through its cost model, so the map of backends is a
  map of costs. A policy may read the system clock; \<open>ask_policy\<close> hands it the next readings.
  \<open>mg_poisoned\<close> is the poison flag of the mutex around the state machine: a panic under the lock sets
  it, and every later \<^verbatim>\<open>lock().unwrap()\<close> panics. (The mutexes of the statistics, the active set and the
  cooldown are poisoned only by a counter that overflows or by a panic on this one; their flags are
  not kept.)
\<close>

section \<open>Configuration, statistics and proposals\<close>

record migration_config =
  max_concurrent_migrations :: usize
  hot_threshold :: f32
  cold_threshold :: f32
  min_migration_interval_secs :: u64
  max_migrations_per_cycle :: usize
  enable_promotion :: bool
  enable_eviction :: bool
  eviction_pressure_threshold :: f32
  max_chunk_size_for_migration :: usize
  migration_timeout_secs :: u64
  io_cost_threshold :: f64

definition migration_config_default :: migration_config where
  "migration_config_default = \<lparr>max_concurrent_migrations = 2, hot_threshold = f32_lit (5 / 10), cold_threshold = f32_lit (2 / 10),
     min_migration_interval_secs = 60, max_migrations_per_cycle = 16, enable_promotion = True, enable_eviction = True,
     eviction_pressure_threshold = f32_lit (7 / 10), max_chunk_size_for_migration = 256 * 1024 * 1024,
     migration_timeout_secs = 120, io_cost_threshold = f64_lit 100\<rparr>"

record migration_stats =
  evaluation_cycles :: u64
  promotions :: u64
  evictions :: u64
  skipped :: u64
  failures :: u64
  bytes_migrated :: u64
  last_evaluation :: u64
  active_now :: nat
  cooldown_blocks :: u64
  anti_oscillation_blocks :: u64

definition migration_stats_default :: migration_stats where
  "migration_stats_default = \<lparr>evaluation_cycles = 0, promotions = 0, evictions = 0, skipped = 0, failures = 0,
     bytes_migrated = 0, last_evaluation = 0, active_now = 0, cooldown_blocks = 0, anti_oscillation_blocks = 0\<rparr>"

record pending_migration =
  pm_chunk :: chunk_id
  pm_from :: tier_id
  pm_to :: tier_id
  pm_priority :: transfer_priority
  pm_size :: usize
  pm_hotness :: f32
  identified_at :: u64

section \<open>Eviction cooldown\<close>

record eviction_cooldown =
  last_eviction :: "(chunk_id, u64) btree"
  last_promotion :: "(chunk_id, u64) btree"
  cooldown_us :: u64

definition cooldown_new :: "profile \<Rightarrow> u64 \<Rightarrow> eviction_cooldown ghost_result" where
  "cooldown_new pr secs = (case mul_pr pr secs 1000000 of
       Ok us \<Rightarrow> Ok \<lparr>last_eviction = fmempty, last_promotion = fmempty, cooldown_us = us\<rparr>
     | Err e \<Rightarrow> Err e | Panic \<Rightarrow> Panic)"

definition recent :: "u64 \<Rightarrow> u64 \<Rightarrow> u64 option \<Rightarrow> bool" where
  "recent window now last_time = (case last_time of None \<Rightarrow> False | Some t \<Rightarrow> saturating_sub now t < window)"

definition can_evict :: "eviction_cooldown \<Rightarrow> chunk_id \<Rightarrow> u64 \<Rightarrow> bool" where
  "can_evict c cid now_us =
     (if recent (cooldown_us c) now_us (fmlookup (last_eviction c) cid) then False
      else if recent (cooldown_us c) now_us (fmlookup (last_promotion c) cid) then False
      else True)"

definition record_eviction :: "chunk_id \<Rightarrow> u64 \<Rightarrow> eviction_cooldown \<Rightarrow> eviction_cooldown" where
  "record_eviction cid now_us c = c\<lparr>last_eviction := fmupd cid now_us (last_eviction c)\<rparr>"

definition record_promotion :: "chunk_id \<Rightarrow> u64 \<Rightarrow> eviction_cooldown \<Rightarrow> eviction_cooldown" where
  "record_promotion cid now_us c = c\<lparr>last_promotion := fmupd cid now_us (last_promotion c)\<rparr>"

section \<open>The engine\<close>

record migration_engine =
  mg_config :: migration_config
  mg_policy :: placement_policy
  mg_hotness :: hotness_tracker
  mg_sm :: state_machine
  mg_poisoned :: bool
  mg_costs :: "(tier_id, physical_cost) btree"
  mg_stats :: migration_stats
  mg_active :: "chunk_id fset"
  mg_last :: "(chunk_id, u64) btree"
  mg_cooldown :: eviction_cooldown

type_synonym 'a engine = "(migration_engine, 'a, ghost_error) act"

definition engine_new ::
  "profile \<Rightarrow> migration_config \<Rightarrow> placement_policy \<Rightarrow> hotness_tracker \<Rightarrow> state_machine \<Rightarrow> (tier_id, physical_cost) btree
   \<Rightarrow> migration_engine ghost_result" where
  "engine_new pr c pol ht sm costs = (case cooldown_new pr (max (min_migration_interval_secs c) 5) of
       Ok cd \<Rightarrow> Ok \<lparr>mg_config = c, mg_policy = pol, mg_hotness = ht, mg_sm = sm, mg_poisoned = False, mg_costs = costs,
                    mg_stats = migration_stats_default, mg_active = {||}, mg_last = fmempty, mg_cooldown = cd\<rparr>
     | Err e \<Rightarrow> Err e | Panic \<Rightarrow> Panic)"

definition on_mg_rt :: "'a rt \<Rightarrow> 'a engine" where
  "on_mg_rt m = on_part (\<lambda>e. ht_rt (mg_hotness e)) (\<lambda>r e. e\<lparr>mg_hotness := (mg_hotness e)\<lparr>ht_rt := r\<rparr>\<rparr>) m"

text \<open>\<^verbatim>\<open>state_machine.lock().unwrap()\<close>.\<close>

definition lock_sm :: "unit engine" where
  "lock_sm e = (if mg_poisoned e then Panic else Ok (), e)"

definition ask_policy :: "(placement_policy \<Rightarrow> clock \<Rightarrow> 'a) \<Rightarrow> 'a engine" where
  "ask_policy f e = on_mg_rt (\<lambda>r. (Ok (f (mg_policy e) (\<lambda>i. secs_at r (ticks r + i))), r\<lparr>ticks := ticks r + 2\<rparr>)) e"

definition bump :: "profile \<Rightarrow> (migration_stats \<Rightarrow> u64) \<Rightarrow> (u64 \<Rightarrow> migration_stats \<Rightarrow> migration_stats) \<Rightarrow> u64 \<Rightarrow> unit engine" where
  "bump pr sel upd n = bind_act (\<lambda>e. (add_pr pr (sel (mg_stats e)) n, e)) (\<lambda>v.
     update_act (\<lambda>e. e\<lparr>mg_stats := upd v (mg_stats e)\<rparr>))"

abbreviation bump_skipped :: "profile \<Rightarrow> unit engine" where
  "bump_skipped pr \<equiv> bump pr skipped (\<lambda>v s. s\<lparr>skipped := v\<rparr>) 1"

text \<open>The metadata the engine makes up for the policy: size zero, always on RAM.\<close>

definition minimal_meta :: "chunk_id \<Rightarrow> u64 \<Rightarrow> u64 \<Rightarrow> u64 \<Rightarrow> chunk_meta" where
  "minimal_meta cid created accessed n = \<lparr>meta_id = cid, meta_size = 0, compressed_size = 0, meta_tier = Ram, meta_state = Stored,
     meta_created_at = created, last_accessed = accessed, access_count = n, compression = NoCompression,
     checksum = replicate 32 0\<rparr>"

definition stored_chunks :: "migration_engine \<Rightarrow> (chunk_id \<times> chunk_meta) list" where
  "stored_chunks e = map (\<lambda>cid. let h = get_hotness cid (mg_hotness e) in
     (cid, minimal_meta cid 0 (unwrap_or 0 (map_option h_last_accessed h)) (unwrap_or 0 (map_option h_access_count h))))
     (chunks_in_state (mg_sm e) Stored)"

definition score_or_zero :: "chunk_id \<Rightarrow> migration_engine \<Rightarrow> f32" where
  "score_or_zero cid e = unwrap_or (f32_lit 0) (map_option h_score (get_hotness cid (mg_hotness e)))"

definition evaluate_chunk ::
  "profile \<Rightarrow> pressure_state \<Rightarrow> u64 \<Rightarrow> chunk_id \<times> chunk_meta \<Rightarrow> pending_migration option engine" where
  "evaluate_chunk pr p now x e = (case x of (cid, meta) \<Rightarrow>
     if cid |\<in>| mg_active e then (Ok None, e)
     else if recent (min_migration_interval_secs (mg_config e)) now (fmlookup (mg_last e) cid) then (Ok None, e)
     else bind_act (ask_policy (\<lambda>pol clk. should_migrate pol clk meta (meta_tier meta) p)) (\<lambda>t. case t of
         None \<Rightarrow> bind_act (bump_skipped pr) (\<lambda>_. ret None)
       | Some target \<Rightarrow>
           if target = meta_tier meta \<or> meta_size meta > max_chunk_size_for_migration (mg_config e)
           then bind_act (bump_skipped pr) (\<lambda>_. ret None)
           else bind_act (ask_policy (\<lambda>pol clk. migration_priority pol clk meta p)) (\<lambda>prio.
             bind_act (on_mg_rt (log_event (PolicyDecision cid (meta_tier meta) target [Lit ''pressure='', FmtFloat (max_pressure p)] now))) (\<lambda>_.
             bind_act (on_mg_rt (emit_event (EvMigrationDecision 0 cid (meta_tier meta) target [Lit ''pressure='', FmtFloat (max_pressure p)]))) (\<lambda>_.
             ret (Some \<lparr>pm_chunk = cid, pm_from = meta_tier meta, pm_to = target, pm_priority = prio, pm_size = meta_size meta,
                        pm_hotness = score_or_zero cid e, identified_at = now\<rparr>))))) e)"

definition proposal_cmp :: "pending_migration \<Rightarrow> pending_migration \<Rightarrow> rust_ordering" where
  "proposal_cmp a b =
     (let prio = cmp_ord (priority_value (pm_priority b)) (priority_value (pm_priority a))
      in if prio \<noteq> OrdEqual then prio else cmp_float (pm_hotness b) (pm_hotness a))"

definition evaluate_migrations :: "profile \<Rightarrow> pressure_state \<Rightarrow> pending_migration list engine" where
  "evaluate_migrations pr p =
     bind_act (on_mg_rt now_ms) (\<lambda>now.
     bind_act (bump pr evaluation_cycles (\<lambda>v s. s\<lparr>evaluation_cycles := v\<rparr>) 1) (\<lambda>_.
     bind_act (update_act (\<lambda>e. e\<lparr>mg_stats := (mg_stats e)\<lparr>last_evaluation := now\<rparr>\<rparr>)) (\<lambda>_.
     bind_act lock_sm (\<lambda>_ e.
     bind_act (filter_map_act (evaluate_chunk pr p now) (stored_chunks e)) (\<lambda>ms.
       ret (take (unat (max_migrations_per_cycle (mg_config e))) (sort_by proposal_cmp ms))) e))))"

definition promote_chunk :: "pressure_state \<Rightarrow> u64 \<Rightarrow> tier_id list \<Rightarrow> chunk_id \<times> chunk_hotness \<Rightarrow> pending_migration option engine" where
  "promote_chunk p now avail x = bind_act lock_sm (\<lambda>_ e. case x of (cid, h) \<Rightarrow>
     if get_state (mg_sm e) cid \<noteq> Some Stored then (Ok None, e)
     else let meta = minimal_meta cid (h_first_accessed h) (h_last_accessed h) (h_access_count h) in
       bind_act (ask_policy (\<lambda>pol clk. select_target_tier pol clk meta p avail)) (\<lambda>target.
       if target = meta_tier meta then ret None
       else bind_act (ask_policy (\<lambda>pol clk. migration_priority pol clk meta p)) (\<lambda>prio.
         bind_act (on_mg_rt (emit_event (EvMigrationDecision 0 cid (meta_tier meta) target [Lit ''promotion hotness='', FmtFloat (h_score h)]))) (\<lambda>_.
         ret (Some \<lparr>pm_chunk = cid, pm_from = meta_tier meta, pm_to = target, pm_priority = prio, pm_size = meta_size meta,
                    pm_hotness = h_score h, identified_at = now\<rparr>)))) e)"

definition evaluate_promotions :: "pressure_state \<Rightarrow> pending_migration list engine" where
  "evaluate_promotions p e = (if \<not> enable_promotion (mg_config e) then (Ok [], e)
     else let hot = find_hot_chunks (hot_threshold (mg_config e)) (mg_hotness e) in
       bind_act (on_mg_rt now_ms) (\<lambda>now. filter_map_act (promote_chunk p now (bt_keys (mg_costs e))) hot) e)"

text \<open>One cold chunk, once the state machine is locked.\<close>

definition evict_unlocked :: "profile \<Rightarrow> pressure_state \<Rightarrow> u64 \<Rightarrow> tier_id list \<Rightarrow> chunk_id \<times> chunk_hotness \<Rightarrow> pending_migration option engine" where
  "evict_unlocked pr p now avail x e = (case x of (cid, h) \<Rightarrow>
     if get_state (mg_sm e) cid \<noteq> Some Stored then (Ok None, e)
     else if \<not> can_evict (mg_cooldown e) cid now
     then bind_act (bump pr cooldown_blocks (\<lambda>v s. s\<lparr>cooldown_blocks := v\<rparr>) 1) (\<lambda>_. ret None) e
     else let meta = minimal_meta cid (h_first_accessed h) (h_last_accessed h) (h_access_count h) in
       bind_act (ask_policy (\<lambda>pol clk. select_viction pol clk [(cid, meta)] p)) (\<lambda>v. case v of
         None \<Rightarrow> ret None
       | Some evict_id \<Rightarrow>
           bind_act (ask_policy (\<lambda>pol clk. select_target_tier pol clk meta p avail)) (\<lambda>target.
           if target = meta_tier meta then ret None
           else bind_act (ask_policy (\<lambda>pol clk. migration_priority pol clk meta p)) (\<lambda>prio.
             bind_act (update_act (\<lambda>e. e\<lparr>mg_cooldown := record_eviction evict_id now (mg_cooldown e)\<rparr>)) (\<lambda>_.
             bind_act (on_mg_rt (log_event (Eviction evict_id (meta_tier meta) Pressure now))) (\<lambda>_.
             bind_act (on_mg_rt (emit_event (EvMigrationDecision 0 evict_id (meta_tier meta) target
               [Lit ''eviction pressure='', FmtFloat (max_pressure p)]))) (\<lambda>_.
             ret (Some \<lparr>pm_chunk = evict_id, pm_from = meta_tier meta, pm_to = target, pm_priority = prio, pm_size = meta_size meta,
                        pm_hotness = h_score h, identified_at = now\<rparr>))))))) e)"

definition evict_chunk :: "profile \<Rightarrow> pressure_state \<Rightarrow> u64 \<Rightarrow> tier_id list \<Rightarrow> chunk_id \<times> chunk_hotness \<Rightarrow> pending_migration option engine" where
  "evict_chunk pr p now avail x = bind_act lock_sm (\<lambda>_. evict_unlocked pr p now avail x)"

definition evaluate_evictions :: "profile \<Rightarrow> pressure_state \<Rightarrow> pending_migration list engine" where
  "evaluate_evictions pr p e = (if \<not> enable_eviction (mg_config e) then (Ok [], e)
     else if flt (max_pressure p) (eviction_pressure_threshold (mg_config e)) then (Ok [], e)
     else let cold = find_cold_chunks (cold_threshold (mg_config e)) (mg_hotness e) in
       bind_act (on_mg_rt now_ms) (\<lambda>now. filter_map_act (evict_chunk pr p now (bt_keys (mg_costs e))) cold) e)"

section \<open>Costs\<close>

definition cost_of :: "migration_engine \<Rightarrow> tier_id \<Rightarrow> physical_cost" where
  "cost_of e t = unwrap_or physical_cost_new (fmlookup (mg_costs e) t)"

definition estimate_promotion_cost :: "migration_engine \<Rightarrow> chunk_id \<Rightarrow> tier_id \<Rightarrow> tier_id \<Rightarrow> usize \<Rightarrow> physical_cost" where
  "estimate_promotion_cost e cid f t sz =
     (let from_cost = cost_of e f; to_cost = cost_of e t;
          base_latency = fadd binary64 (latency_ms from_cost) (latency_ms to_cost);
          base_bandwidth = fmin (bandwidth_bps from_cost) (bandwidth_bps to_cost);
          is_disk_involved = (f = Disk \<or> t = Disk);
          compression_overhead_ms = (if sz > 0
            then fmul binary64 (fdiv binary64 (of_word binary64 sz)
                   (fmul binary64 (fmul binary64 (f64_lit 100) (f64_lit 1024)) (f64_lit 1024))) (f64_lit 1000)
            else f64_lit 0);
          fsync_overhead_ms = (if t = Disk then f64_lit 1 else f64_lit 0);
          (overhead_latency, overhead_reliability) = (if is_disk_involved
            then (fadd binary64 compression_overhead_ms fsync_overhead_ms, f64_lit (999 / 1000))
            else (f64_lit 0, f64_lit 1));
          total_bandwidth = (if is_disk_involved
            then fmin base_bandwidth (if f = Disk then bandwidth_bps from_cost else bandwidth_bps to_cost)
            else base_bandwidth)
      in \<lparr>latency_ms = fadd binary64 base_latency overhead_latency, bandwidth_bps = total_bandwidth,
          reliability = fmul binary64 (fmul binary64 (reliability from_cost) (reliability to_cost)) overhead_reliability,
          cost_io_pressure = fmax (cost_io_pressure from_cost) (cost_io_pressure to_cost),
          cost_queue_depth = saturating_add (cost_queue_depth from_cost) (cost_queue_depth to_cost)\<rparr>)"

definition estimate_io_cost :: "migration_engine \<Rightarrow> tier_id \<Rightarrow> tier_id \<Rightarrow> usize \<Rightarrow> physical_cost" where
  "estimate_io_cost e f t sz =
     (let from_cost = cost_of e f; to_cost = cost_of e t
      in \<lparr>latency_ms = fadd binary64 (latency_ms from_cost) (latency_ms to_cost),
          bandwidth_bps = fmin (bandwidth_bps from_cost) (bandwidth_bps to_cost),
          reliability = fmul binary64 (reliability from_cost) (reliability to_cost),
          cost_io_pressure = fmax (cost_io_pressure from_cost) (cost_io_pressure to_cost),
          cost_queue_depth = saturating_add (cost_queue_depth from_cost) (cost_queue_depth to_cost)\<rparr>)"

section \<open>Active migrations and decisions\<close>

definition create_transfer_job :: "u64 \<Rightarrow> instant \<Rightarrow> pending_migration \<Rightarrow> transfer_job" where
  "create_transfer_job now_secs inst m = transfer_job_new now_secs inst (pm_chunk m) (pm_from m) (pm_to m) (pm_size m) (pm_priority m)"

definition set_active :: "chunk_id fset \<Rightarrow> migration_engine \<Rightarrow> migration_engine" where
  "set_active a e = e\<lparr>mg_active := a, mg_stats := (mg_stats e)\<lparr>active_now := fcard a\<rparr>\<rparr>"

definition mark_active :: "chunk_id \<Rightarrow> unit engine" where
  "mark_active cid = update_act (\<lambda>e. set_active (finsert cid (mg_active e)) e)"

definition mark_complete :: "profile \<Rightarrow> chunk_id \<Rightarrow> u64 \<Rightarrow> bool \<Rightarrow> unit engine" where
  "mark_complete pr cid bytes success =
     bind_act (update_act (\<lambda>e. set_active (mg_active e |-| {|cid|}) e)) (\<lambda>_.
     bind_act (if success
       then bind_act (bump pr promotions (\<lambda>v s. s\<lparr>promotions := v\<rparr>) 1) (\<lambda>_.
            bump pr bytes_migrated (\<lambda>v s. s\<lparr>bytes_migrated := v\<rparr>) bytes)
       else bump pr failures (\<lambda>v s. s\<lparr>failures := v\<rparr>) 1) (\<lambda>_.
     bind_act (on_mg_rt now_ms) (\<lambda>now.
     bind_act (update_act (\<lambda>e. e\<lparr>mg_last := fmupd cid now (mg_last e)\<rparr>)) (\<lambda>_.
     bind_act (if success
       then bind_act (on_mg_rt now_ms) (\<lambda>now2. update_act (\<lambda>e. e\<lparr>mg_cooldown := record_promotion cid now2 (mg_cooldown e)\<rparr>))
       else ret ()) (\<lambda>_.
     on_mg_rt (emit_event (EvMigrationCompleted 0 cid Ram Disk 0)))))))"

definition engine_is_migrating :: "chunk_id \<Rightarrow> migration_engine \<Rightarrow> bool" where
  "engine_is_migrating cid e = (cid |\<in>| mg_active e)"

definition engine_active_count :: "migration_engine \<Rightarrow> nat" where
  "engine_active_count e = fcard (mg_active e)"

definition has_capacity :: "migration_engine \<Rightarrow> bool" where
  "has_capacity e = (engine_active_count e < unat (max_concurrent_migrations (mg_config e)))"

definition decide_migration ::
  "pending_migration \<Rightarrow> pressure_state \<Rightarrow> physical_cost \<Rightarrow> backpressure_action \<Rightarrow> pending_migration option engine" where
  "decide_migration m p io_cost action e =
     bind_act (on_mg_rt now_ms) (\<lambda>seq.
       let cid = pm_chunk m; f = pm_from m; t = pm_to m; thr = io_cost_threshold (mg_config e);
           deferred = (\<lambda>why. bind_act (on_mg_rt (emit_event (EvMigrationDeferred seq cid f t why))) (\<lambda>_. ret None))
       in if \<not> allows action (pm_priority m)
          then bind_act (on_mg_rt (emit_event (EvMigrationRejected seq cid f t (cost_score io_cost) thr))) (\<lambda>_. ret None)
          else if is_too_pressured io_cost
          then deferred [Lit ''I/O pressure too high: pressure='', FmtFloat (cost_io_pressure io_cost), Lit '', queue_depth='',
                         FmtNat (unat (cost_queue_depth io_cost))]
          else if fgt (cost_score io_cost) thr
          then deferred [Lit ''I/O cost exceeds threshold: cost='', FmtFloat (cost_score io_cost), Lit '', threshold='', FmtFloat thr]
          else if \<not> has_capacity e
          then deferred [Lit ''migration engine at capacity'']
          else bind_act (on_mg_rt (emit_event (EvMigrationDecided seq cid f t (cost_score io_cost)))) (\<lambda>_. ret (Some m))) e"

section \<open>Steps up to the runtime\<close>

abbreviation engine_rt :: "migration_engine \<Rightarrow> runtime" where
  "engine_rt e \<equiv> ht_rt (mg_hotness e)"

definition with_rt :: "runtime \<Rightarrow> migration_engine \<Rightarrow> migration_engine" where
  "with_rt r e = e\<lparr>mg_hotness := (mg_hotness e)\<lparr>ht_rt := r\<rparr>\<rparr>"

text \<open>\<open>up_to_rt e0\<close>: the engine is \<open>e0\<close> but for the runtime, whose log has room.\<close>

definition up_to_rt :: "migration_engine \<Rightarrow> migration_engine \<Rightarrow> bool" where
  "up_to_rt e0 e \<longleftrightarrow> (\<exists>r. rt_ok r \<and> e = with_rt r e0)"

lemma with_rt_simps [simp]:
  "mg_config (with_rt r e) = mg_config e" "mg_policy (with_rt r e) = mg_policy e" "mg_sm (with_rt r e) = mg_sm e" "mg_poisoned (with_rt r e) = mg_poisoned e"
  "mg_costs (with_rt r e) = mg_costs e" "mg_stats (with_rt r e) = mg_stats e" "mg_active (with_rt r e) = mg_active e"
  "mg_last (with_rt r e) = mg_last e" "mg_cooldown (with_rt r e) = mg_cooldown e"
  "hotness_map (mg_hotness (with_rt r e)) = hotness_map (mg_hotness e)" "engine_rt (with_rt r e) = r"
  "with_rt r (with_rt r' e) = with_rt r e"
  "(with_rt r e)\<lparr>mg_stats := st\<rparr> = with_rt r (e\<lparr>mg_stats := st\<rparr>)"
  "(with_rt r e)\<lparr>mg_cooldown := cd\<rparr> = with_rt r (e\<lparr>mg_cooldown := cd\<rparr>)"
  by (simp_all add: with_rt_def)

lemma lock_bind: "\<not> mg_poisoned e \<Longrightarrow> bind_act lock_sm f e = f () e"
  by (simp add: lock_sm_def bind_act_def)

lemma lock_bind_Ok: "bind_act lock_sm f e = (Ok y, e') \<longleftrightarrow> \<not> mg_poisoned e \<and> f () e = (Ok y, e')"
  by (auto simp: lock_sm_def bind_act_def)

lemma with_rt_derived [simp]:
  "get_hotness cid (mg_hotness (with_rt r e)) = get_hotness cid (mg_hotness e)"
  "score_or_zero cid (with_rt r e) = score_or_zero cid e" "stored_chunks (with_rt r e) = stored_chunks e"
  "find_cold_chunks thr (mg_hotness (with_rt r e)) = find_cold_chunks thr (mg_hotness e)"
  by (simp_all add: get_hotness_def score_or_zero_def stored_chunks_def find_cold_chunks_def)

lemma with_rt_same [simp]: "with_rt (engine_rt e) e = e"
  by (simp add: with_rt_def)

lemma on_mg_rt_with: "on_mg_rt m (with_rt r e) = (case m r of (a, r') \<Rightarrow> (a, with_rt r' e))"
  by (simp add: on_mg_rt_def on_part_def with_rt_def split: prod.split)

lemma on_mg_rt_rule: "triple rt_ok m (\<lambda>_. rt_ok) \<Longrightarrow> triple (up_to_rt e0) (on_mg_rt m) (\<lambda>_. up_to_rt e0)"
  unfolding triple_def up_to_rt_def by (fastforce simp: on_mg_rt_with)

lemmas engine_rt_rules = rt_triples [THEN on_mg_rt_rule]

lemma ask_policy_rule:
  "triple (up_to_rt e0) (ask_policy f) (\<lambda>v e. up_to_rt e0 e \<and> (\<exists>clk. v = f (mg_policy e0) clk))"
proof (rule tripleI)
  fix e assume "up_to_rt e0 e"
  then obtain r where r: "rt_ok r" "e = with_rt r e0" by (auto simp: up_to_rt_def)
  have "rt_ok (r\<lparr>ticks := ticks r + 2\<rparr>)" using r(1) by (simp add: rt_ok_def)
  moreover have "ask_policy f e = (Ok (f (mg_policy e0) (\<lambda>i. secs_at r (ticks r + i))), with_rt (r\<lparr>ticks := ticks r + 2\<rparr>) e0)"
    using r(2) by (simp add: ask_policy_def on_mg_rt_with)
  ultimately show "\<exists>a s'. ask_policy f e = (Ok a, s') \<and> up_to_rt e0 s' \<and> (\<exists>clk. a = f (mg_policy e0) clk)"
    unfolding up_to_rt_def by blast
qed

definition fits1 :: "profile \<Rightarrow> u64 \<Rightarrow> bool" where
  "fits1 pr v \<longleftrightarrow> pr = Release \<or> unat v + 1 < 2 ^ 64"

lemma bump_rule:
  assumes "fits1 pr (sel (mg_stats e0))"
  shows "triple (up_to_rt e0) (bump pr sel upd 1) (\<lambda>_. up_to_rt (e0\<lparr>mg_stats := upd (sel (mg_stats e0) + 1) (mg_stats e0)\<rparr>))"
  using assms by (intro tripleI) (auto simp: up_to_rt_def bump_def act_defs add_pr_def checked_def fits1_def)

section \<open>Evaluation\<close>

definition eligible :: "u64 \<Rightarrow> migration_engine \<Rightarrow> chunk_id \<Rightarrow> bool" where
  "eligible now e cid \<longleftrightarrow> cid |\<notin>| mg_active e \<and> \<not> recent (min_migration_interval_secs (mg_config e)) now (fmlookup (mg_last e) cid)"

definition skip_by :: "nat \<Rightarrow> migration_engine \<Rightarrow> migration_engine" where
  "skip_by k e = e\<lparr>mg_stats := (mg_stats e)\<lparr>skipped := skipped (mg_stats e) + of_nat k\<rparr>\<rparr>"

lemma skip_by_simps [simp]:
  "mg_config (skip_by k e) = mg_config e" "mg_policy (skip_by k e) = mg_policy e" "mg_active (skip_by k e) = mg_active e"
  "mg_last (skip_by k e) = mg_last e" "mg_hotness (skip_by k e) = mg_hotness e" "skip_by 0 e = e"
  "skipped (mg_stats (skip_by k e)) = skipped (mg_stats e) + of_nat k" "score_or_zero cid (skip_by k e) = score_or_zero cid e"
  "mg_sm (skip_by k e) = mg_sm e" "mg_cooldown (skip_by k e) = mg_cooldown e"
  by (simp_all add: skip_by_def score_or_zero_def)

lemma skip_by_Suc: "(skip_by k e)\<lparr>mg_stats := (mg_stats (skip_by k e))\<lparr>skipped := skipped (mg_stats e) + of_nat k + 1\<rparr>\<rparr> = skip_by (Suc k) e"
  by (simp add: skip_by_def add_ac)

lemma bump_skipped_rule:
  assumes "fits1 pr (skipped (mg_stats e0))"
  shows "triple (up_to_rt e0) (bump_skipped pr) (\<lambda>_. up_to_rt (skip_by 1 e0))"
  using bump_rule [of pr skipped e0 "\<lambda>v s. s\<lparr>skipped := v\<rparr>"] assms by (simp add: skip_by_def)

lemma eligible_skip [simp]: "eligible now (skip_by k e) = eligible now e"
  by (simp add: eligible_def fun_eq_iff)

text \<open>
  The reference: what the policy makes of one stored chunk, with the two readings of the clock that it
  is given.
\<close>

definition proposal :: "migration_engine \<Rightarrow> pressure_state \<Rightarrow> u64 \<Rightarrow> (chunk_id \<times> chunk_meta) \<times> clock \<times> clock \<Rightarrow> pending_migration option" where
  "proposal e p now x = (case x of ((cid, meta), clk, clk') \<Rightarrow>
     (case should_migrate (mg_policy e) clk meta (meta_tier meta) p of
        None \<Rightarrow> None
      | Some t \<Rightarrow> if t = meta_tier meta \<or> unat (meta_size meta) > unat (max_chunk_size_for_migration (mg_config e)) then None
          else Some \<lparr>pm_chunk = cid, pm_from = meta_tier meta, pm_to = t, pm_priority = migration_priority (mg_policy e) clk' meta p,
                     pm_size = meta_size meta, pm_hotness = score_or_zero cid e, identified_at = now\<rparr>))"

lemma proposal_same:
  "mg_policy e = mg_policy e' \<Longrightarrow> mg_config e = mg_config e' \<Longrightarrow> mg_hotness e = mg_hotness e' \<Longrightarrow> proposal e = proposal e'"
  by (auto simp: proposal_def fun_eq_iff score_or_zero_def split: option.split)

lemma proposal_skip [simp]: "proposal (skip_by k e) = proposal e"
  by (rule proposal_same) simp_all

lemma proposal_fields:
  "proposal e p now ((cid, meta), clk) = Some m \<Longrightarrow>
     pm_chunk m = cid \<and> pm_from m = meta_tier meta \<and> pm_to m \<noteq> pm_from m \<and> identified_at m = now \<and> pm_hotness m = score_or_zero cid e"
  by (auto simp: proposal_def split: prod.splits option.splits if_splits)

text \<open>
  One chunk: an ineligible one is passed over, an eligible one is proposed as the policy says or
  counted as skipped.
\<close>

definition unproposed :: "pending_migration option \<Rightarrow> nat" where
  "unproposed y = (if y = None then 1 else 0)"

lemma evaluate_chunk_rule:
  assumes "fits1 pr (skipped (mg_stats e0))"
  shows "triple (up_to_rt e0) (evaluate_chunk pr p now (cid, meta)) (\<lambda>y e.
     if eligible now e0 cid
     then (\<exists>clk. y = proposal e0 p now ((cid, meta), clk)) \<and> up_to_rt (skip_by (unproposed y) e0) e
     else y = None \<and> up_to_rt e0 e)"
proof (cases "eligible now e0 cid")
  case False
  then show ?thesis by (intro tripleI) (auto simp: up_to_rt_def evaluate_chunk_def eligible_def)
next
  case True
  let ?Q = "\<lambda>y e. (\<exists>clk. y = proposal e0 p now ((cid, meta), clk)) \<and> up_to_rt (skip_by (unproposed y) e0) e"
  have skip: "triple (up_to_rt e0) (bind_act (bump_skipped pr) (\<lambda>_. ret None)) ?Q"
    if "proposal e0 p now ((cid, meta), clk, clk') = None" for clk clk'
    by (rule triple_bind [OF bump_skipped_rule [OF assms]], rule triple_ret) (use that in \<open>auto simp: unproposed_def intro: sym\<close>)
  let ?msg = "[Lit ''pressure='', FmtFloat (max_pressure p)]"
  let ?m = "\<lambda>t prio. \<lparr>pm_chunk = cid, pm_from = meta_tier meta, pm_to = t, pm_priority = prio, pm_size = meta_size meta,
                        pm_hotness = score_or_zero cid e0, identified_at = now\<rparr>"
  have yes: "triple (up_to_rt e0) (bind_act (ask_policy (\<lambda>pol clk. migration_priority pol clk meta p)) (\<lambda>prio.
             bind_act (on_mg_rt (log_event (PolicyDecision cid (meta_tier meta) t ?msg now))) (\<lambda>_.
             bind_act (on_mg_rt (emit_event (EvMigrationDecision 0 cid (meta_tier meta) t ?msg))) (\<lambda>_.
             ret (Some (?m t prio)))))) ?Q"
    if t: "should_migrate (mg_policy e0) clk meta (meta_tier meta) p = Some t" "t \<noteq> meta_tier meta"
      "\<not> meta_size meta > max_chunk_size_for_migration (mg_config e0)" for t clk
  proof (rule triple_bind [OF ask_policy_rule [THEN triple_weaken]], assumption, erule conj_commute [THEN iffD1])
    fix prio
    show "triple (\<lambda>e. (\<exists>clk. prio = migration_priority (mg_policy e0) clk meta p) \<and> up_to_rt e0 e)
        (bind_act (on_mg_rt (log_event (PolicyDecision cid (meta_tier meta) t ?msg now))) (\<lambda>_.
         bind_act (on_mg_rt (emit_event (EvMigrationDecision 0 cid (meta_tier meta) t ?msg))) (\<lambda>_. ret (Some (?m t prio))))) ?Q"
    proof (rule triple_fact, elim exE)
      fix clk' assume "prio = migration_priority (mg_policy e0) clk' meta p"
      then have "proposal e0 p now ((cid, meta), clk, clk') = Some (?m t prio)"
        using t by (simp add: proposal_def word_less_nat_alt)
      then show "triple (up_to_rt e0) (bind_act (on_mg_rt (log_event (PolicyDecision cid (meta_tier meta) t ?msg now))) (\<lambda>_.
         bind_act (on_mg_rt (emit_event (EvMigrationDecision 0 cid (meta_tier meta) t ?msg))) (\<lambda>_. ret (Some (?m t prio))))) ?Q"
        by (intro triple_bind [OF engine_rt_rules(1)] triple_bind [OF engine_rt_rules(2)] triple_ret)
           (auto simp: unproposed_def intro: sym)
    qed
  qed
  have body: "triple (up_to_rt e0) (bind_act (ask_policy (\<lambda>pol clk. should_migrate pol clk meta (meta_tier meta) p)) (\<lambda>t. case t of
         None \<Rightarrow> bind_act (bump_skipped pr) (\<lambda>_. ret None)
       | Some target \<Rightarrow>
           if target = meta_tier meta \<or> meta_size meta > max_chunk_size_for_migration (mg_config e0)
           then bind_act (bump_skipped pr) (\<lambda>_. ret None)
           else bind_act (ask_policy (\<lambda>pol clk. migration_priority pol clk meta p)) (\<lambda>prio.
             bind_act (on_mg_rt (log_event (PolicyDecision cid (meta_tier meta) target ?msg now))) (\<lambda>_.
             bind_act (on_mg_rt (emit_event (EvMigrationDecision 0 cid (meta_tier meta) target ?msg))) (\<lambda>_.
             ret (Some (?m target prio))))))) ?Q" (is "triple _ ?M _")
  proof (rule triple_bind [OF ask_policy_rule [THEN triple_weaken]], assumption, erule conj_commute [THEN iffD1], rule triple_fact, elim exE)
    fix t clk assume t: "t = should_migrate (mg_policy e0) clk meta (meta_tier meta) p"
    show "triple (up_to_rt e0) (case t of
         None \<Rightarrow> bind_act (bump_skipped pr) (\<lambda>_. ret None)
       | Some target \<Rightarrow>
           if target = meta_tier meta \<or> meta_size meta > max_chunk_size_for_migration (mg_config e0)
           then bind_act (bump_skipped pr) (\<lambda>_. ret None)
           else bind_act (ask_policy (\<lambda>pol clk. migration_priority pol clk meta p)) (\<lambda>prio.
             bind_act (on_mg_rt (log_event (PolicyDecision cid (meta_tier meta) target ?msg now))) (\<lambda>_.
             bind_act (on_mg_rt (emit_event (EvMigrationDecision 0 cid (meta_tier meta) target ?msg))) (\<lambda>_.
             ret (Some (?m target prio)))))) ?Q"
      by (intro triple_option triple_if skip [of clk undefined] yes [of clk]) (auto simp: proposal_def t [symmetric] word_less_nat_alt)
  qed
  show ?thesis
  proof (rule tripleI)
    fix e assume up: "up_to_rt e0 e"
    have "evaluate_chunk pr p now (cid, meta) e = ?M e"
      using up True by (auto simp: up_to_rt_def evaluate_chunk_def eligible_def cong: if_cong option.case_cong)
    then show "\<exists>y e'. evaluate_chunk pr p now (cid, meta) e = (Ok y, e') \<and> (if eligible now e0 cid
        then (\<exists>clk. y = proposal e0 p now ((cid, meta), clk)) \<and> up_to_rt (skip_by (unproposed y) e0) e' else y = None \<and> up_to_rt e0 e')"
      using tripleD [OF body up] True by simp
  qed
qed

text \<open>All proposals of a list of chunks, with the clock readings of each.\<close>

definition proposals_of :: "migration_engine \<Rightarrow> pressure_state \<Rightarrow> u64 \<Rightarrow> (chunk_id \<times> chunk_meta) list \<Rightarrow> (clock \<times> clock) list \<Rightarrow> pending_migration list" where
  "proposals_of e p now xs cs = concat (map (opt_list \<circ> proposal e p now) (zip xs cs))"

lemma proposals_of_Nil [simp]: "proposals_of e p now [] cs = []" "proposals_of e p now xs [] = []"
  by (simp_all add: proposals_of_def)

lemma proposals_of_Cons [simp]:
  "proposals_of e p now (x # xs) (c # cs) = opt_list (proposal e p now (x, c)) @ proposals_of e p now xs cs"
  by (simp add: proposals_of_def)

lemma proposals_of_snoc:
  "length xs = length cs \<Longrightarrow> proposals_of e p now (xs @ [x]) (cs @ [c]) = proposals_of e p now xs cs @ opt_list (proposal e p now (x, c))"
  by (simp add: proposals_of_def)

lemma proposals_of_chunks: "subseq (map pm_chunk (proposals_of e p now xs cs)) (map fst xs)"
proof (induction xs arbitrary: cs)
  case (Cons x xs)
  obtain cid meta where x: "x = (cid, meta)" by fastforce
  show ?case
  proof (cases cs)
    case (Cons c cs')
    then show ?thesis using Cons.IH [of cs'] proposal_fields [of e p now cid meta c]
      by (cases "proposal e p now (x, c)") (auto simp: x)
  qed simp
qed simp

lemma length_proposals_of: "length (proposals_of e p now xs cs) \<le> length xs"
  using list_emb_length [OF proposals_of_chunks [of e p now xs cs]] by simp

lemma proposals_of_score: "m \<in> set (proposals_of e p now xs cs) \<Longrightarrow> pm_hotness m = score_or_zero (pm_chunk m) e"
  using proposal_fields by (fastforce simp: proposals_of_def opt_list_def split: option.splits)

definition evaluated :: "pressure_state \<Rightarrow> u64 \<Rightarrow> migration_engine \<Rightarrow> (chunk_id \<times> chunk_meta) list \<Rightarrow> pending_migration list \<Rightarrow> migration_engine \<Rightarrow> bool" where
  "evaluated p now e0 seen ys e \<longleftrightarrow> (let el = filter (eligible now e0 \<circ> fst) seen in
     \<exists>cs. (length cs = length el \<and> ys = proposals_of e0 p now el cs) \<and> up_to_rt (skip_by (length el - length ys) e0) e)"

lemma evaluate_loop:
  assumes "pr = Release \<or> unat (skipped (mg_stats e0)) + length xs < 2 ^ 64"
  shows "triple (up_to_rt e0) (filter_map_act (evaluate_chunk pr p now) xs) (\<lambda>ys. evaluated p now e0 xs ys)"
proof -
  have "triple (evaluated p now e0 [] []) (filter_map_act (evaluate_chunk pr p now) xs) (\<lambda>ys. evaluated p now e0 ([] @ xs) ([] @ ys))"
  proof (rule filter_map_rule)
    fix seen x rest ys assume xs: "[] @ xs = seen @ x # rest"
    obtain cid meta where x: "x = (cid, meta)" by fastforce
    let ?el = "filter (eligible now e0 \<circ> fst) seen"
    show "triple (evaluated p now e0 seen ys) (evaluate_chunk pr p now x) (\<lambda>y. evaluated p now e0 (seen @ [x]) (ys @ opt_list y))"
      unfolding evaluated_def [of p now e0 seen, abs_def] Let_def
    proof (rule triple_ex, rule triple_fact)
      fix cs assume cs: "length cs = length ?el \<and> ys = proposals_of e0 p now ?el cs"
      define k where "k = length ?el - length ys"
      have le: "length ys \<le> length ?el" using cs length_proposals_of [of e0 p now ?el cs] by simp
      have "k \<le> length seen" using length_filter_le [of "eligible now e0 \<circ> fst" seen] unfolding k_def by linarith
      then have "k < length xs" using xs by simp
      then have fit: "fits1 pr (skipped (mg_stats (skip_by k e0)))"
        using assms unat_add_fits [of "skipped (mg_stats e0)" "of_nat k"] unat_len [of k] by (auto simp: fits1_def)
      show "triple (up_to_rt (skip_by (length ?el - length ys) e0)) (evaluate_chunk pr p now x) (\<lambda>y. evaluated p now e0 (seen @ [x]) (ys @ opt_list y))"
        unfolding k_def [symmetric]
      proof (rule triple_weaken [OF evaluate_chunk_rule [OF fit, of p now cid meta, folded x]], assumption)
        fix y e
        assume q: "if eligible now (skip_by k e0) cid
          then (\<exists>clk. y = proposal (skip_by k e0) p now (x, clk)) \<and> up_to_rt (skip_by (unproposed y) (skip_by k e0)) e
          else y = None \<and> up_to_rt (skip_by k e0) e"
        have two: "skip_by 1 (skip_by k e0) = skip_by (Suc k) e0" by (simp add: skip_by_def add_ac)
        show "evaluated p now e0 (seen @ [x]) (ys @ opt_list y) e"
        proof (cases "eligible now e0 cid")
          case True
          then obtain clk where y: "y = proposal e0 p now (x, clk)" "up_to_rt (skip_by (unproposed y) (skip_by k e0)) e" using q by auto
          have "skip_by (unproposed y) (skip_by k e0) = skip_by (Suc (length ?el) - length (ys @ opt_list y)) e0"
            using two le by (cases y) (auto simp: unproposed_def k_def Suc_diff_le)
          then show ?thesis
            using y cs True by (auto simp: evaluated_def x proposals_of_snoc intro!: exI [of _ "cs @ [clk]"])
        next
          case False
          then show ?thesis using q cs by (auto simp: evaluated_def x k_def Let_def)
        qed
      qed
    qed
  qed
  then show ?thesis
    by (rule triple_weaken) (auto simp: evaluated_def proposals_of_def)
qed

text \<open>The order of proposals: higher priority first, then the hotter chunk.\<close>

definition proposal_le :: "pending_migration \<Rightarrow> pending_migration \<Rightarrow> bool" where
  "proposal_le a b \<longleftrightarrow> priority_value (pm_priority b) < priority_value (pm_priority a)
     \<or> (pm_priority a = pm_priority b \<and> fle (pm_hotness b) (pm_hotness a))"

lemma cmp_ord_Equal: "cmp_ord a b = OrdEqual \<longleftrightarrow> a = b"
  by (auto simp: cmp_ord_def)

interpretation proposals: ranking proposal_le "\<lambda>m. pm_hotness m \<noteq> NaN" proposal_cmp
proof
  fix a b c assume "proposal_le a b" "proposal_le b c"
  then show "proposal_le a c" by (auto simp: proposal_le_def dest: fle_trans)
next
  fix a b :: pending_migration assume n: "pm_hotness a \<noteq> NaN" "pm_hotness b \<noteq> NaN"
  show "proposal_le a b \<or> proposal_le b a"
    using fle_total [OF n] priority_value_inj [of "pm_priority a" "pm_priority b"] by (auto simp: proposal_le_def)
  show "proposal_cmp a b = OrdGreater \<longleftrightarrow> \<not> proposal_le a b"
    using cmp_float_Greater [OF n(2,1)] priority_value_inj [of "pm_priority a" "pm_priority b"]
    by (auto simp: proposal_cmp_def proposal_le_def Let_def cmp_ord_Equal)
qed (simp add: proposal_le_def fle_refl)

lemma subseq_imp_distinct: "subseq xs ys \<Longrightarrow> distinct ys \<Longrightarrow> distinct xs"
proof (induction xs ys rule: list_emb.induct)
  case (list_emb_Cons2 x y xs ys)
  then show ?case using list_emb_set [of "(=)" xs ys x] by auto
qed auto

lemma stored_chunks_fst: "map fst (stored_chunks e) = chunks_in_state (mg_sm e) Stored"
  by (simp add: stored_chunks_def Let_def comp_def)

lemma chunks_in_state_distinct: "distinct (chunks_in_state sm st)"
proof -
  have "distinct (map fst (bt_entries (states sm)))" by simp
  then show ?thesis unfolding chunks_in_state_def by (simp add: distinct_map_filter)
qed

lemma chunks_in_state_iff: "cid \<in> set (chunks_in_state sm st) \<longleftrightarrow> get_state sm cid = Some st"
  by (force simp: chunks_in_state_def get_state_def in_bt_entries)

lemma score_number_tracked: "tracker_inv (mg_hotness e) \<Longrightarrow> score_or_zero cid e \<noteq> NaN"
proof (cases "get_hotness cid (mg_hotness e)")
  case (Some h)
  moreover assume "tracker_inv (mg_hotness e)"
  ultimately have "in_unit (h_score h)" by (intro fresh_scored_unit) (simp add: get_hotness_def tracker_inv_def)
  then show ?thesis using Some by (auto simp: score_or_zero_def in_unit_iff)
qed (simp add: score_or_zero_def)

text \<open>
  C15: an evaluation cycle of the engine always returns (with room in the log and the state machine's
  mutex not poisoned, unless a counter overflows). The policy is asked about every eligible chunk: every stored one,
  in the order of the state machine, that is neither being migrated nor rate-limited. The answers,
  read with the clock as it was, give the proposals, one per chunk that the policy wants moved to
  another tier; the eligible chunks without a proposal are exactly those counted as skipped. The
  proposals are sorted, highest priority first and then hottest first, and then cut to the
  configured number. The state machine, the active set and the cooldowns are not touched.
\<close>

theorem evaluate_proposals:
  assumes "rt_ok (engine_rt e)" "tracker_inv (mg_hotness e)" "\<not> mg_poisoned e"
    and "pr = Release \<or> (unat (skipped (mg_stats e)) + sm_len (mg_sm e) < 2 ^ 64 \<and> unat (evaluation_cycles (mg_stats e)) + 1 < 2 ^ 64)"
  defines "now \<equiv> ms_at (engine_rt e) (ticks (engine_rt e))"
  defines "el \<equiv> filter (eligible now e \<circ> fst) (stored_chunks e)"
  shows "map fst el = filter (eligible now e) (chunks_in_state (mg_sm e) Stored)
    \<and> (\<exists>cs all e'. length cs = length el \<and> mset all = mset (proposals_of e p now el cs)
      \<and> sorted_wrt proposal_le all \<and> distinct (map pm_chunk all)
      \<and> evaluate_migrations pr p e = (Ok (take (unat (max_migrations_per_cycle (mg_config e))) all), e')
      \<and> skipped (mg_stats e') = skipped (mg_stats e) + of_nat (length el - length all)
      \<and> mg_sm e' = mg_sm e \<and> mg_active e' = mg_active e \<and> mg_cooldown e' = mg_cooldown e)"
proof -
  let ?st = "(mg_stats e)\<lparr>evaluation_cycles := evaluation_cycles (mg_stats e) + 1, last_evaluation := now\<rparr>"
  define e0 where "e0 = e\<lparr>mg_stats := ?st\<rparr>"
  have elig: "eligible now e0 = eligible now e" by (simp add: e0_def eligible_def fun_eq_iff)
  have sc: "stored_chunks e0 = stored_chunks e" by (simp add: e0_def stored_chunks_def)
  have pro: "proposals_of e0 = proposals_of e" using proposal_same [of e0 e] by (simp add: proposals_of_def [abs_def] e0_def)
  have len: "length (stored_chunks e) \<le> sm_len (mg_sm e)"
    using length_filter_le [of "\<lambda>(k, s). s = Stored" "bt_entries (states (mg_sm e))"]
    by (simp add: stored_chunks_def chunks_in_state_def sm_len_def bt_len_def bt_entries_def)
  then have fit: "pr = Release \<or> unat (skipped (mg_stats e0)) + length (stored_chunks e) < 2 ^ 64" using assms(4) by (auto simp: e0_def)
  have start: "up_to_rt e0 (with_rt (tick (engine_rt e)) e0)" unfolding up_to_rt_def
    using assms(1) by (intro exI [of _ "tick (engine_rt e)"]) simp
  obtain ys e' where ys: "filter_map_act (evaluate_chunk pr p now) (stored_chunks e) (with_rt (tick (engine_rt e)) e0) = (Ok ys, e')"
    "evaluated p now e0 (stored_chunks e) ys e'"
    using tripleD [OF evaluate_loop [OF fit] start, of p now] by blast
  have run: "evaluate_migrations pr p e = (Ok (take (unat (max_migrations_per_cycle (mg_config e))) (sort_by proposal_cmp ys)), e')"
  proof -
    let ?r = "tick (engine_rt e)"
    have 1: "on_mg_rt now_ms e = (Ok now, with_rt ?r e)"
      using on_mg_rt_with [of now_ms "engine_rt e" e] by (simp add: now_ms_def now_def)
    have 2: "bump pr evaluation_cycles (\<lambda>v s. s\<lparr>evaluation_cycles := v\<rparr>) 1 (with_rt ?r e) =
        (Ok (), with_rt ?r (e\<lparr>mg_stats := (mg_stats e)\<lparr>evaluation_cycles := evaluation_cycles (mg_stats e) + 1\<rparr>\<rparr>))"
      using assms(4) by (auto simp: bump_def act_defs add_pr_def checked_def)
    show ?thesis
      using ys(1) assms(3) by (simp add: evaluate_migrations_def bind_act_def [of "on_mg_rt now_ms"] 1 bind_act_def [of "bump pr _ _ _"] 2
          bind_act_def [of "update_act _"] update_act_def e0_def [symmetric] lock_bind)
        (simp add: bind_act_def ret_def sc [unfolded e0_def] e0_def lock_sm_def)
  qed
  obtain cs where cs: "length cs = length el" "ys = proposals_of e p now el cs" "up_to_rt (skip_by (length el - length ys) e0) e'"
    using ys(2) unfolding evaluated_def elig pro Let_def el_def [symmetric] by auto
  have el: "map fst el = filter (eligible now e) (chunks_in_state (mg_sm e) Stored)"
    by (simp add: el_def stored_chunks_fst [symmetric] filter_map)
  let ?s = "sort_by proposal_cmp ys"
  have num: "\<forall>m\<in>set ys. pm_hotness m \<noteq> NaN"
    using proposals_of_score score_number_tracked [OF assms(2)] cs(2) by metis
  have dist: "distinct (map pm_chunk ?s)"
  proof -
    have "distinct (map fst el)" unfolding el using chunks_in_state_distinct by (rule distinct_filter)
    then have "distinct (map pm_chunk ys)" using proposals_of_chunks subseq_imp_distinct cs(2) by metis
    then have "distinct ys \<and> inj_on pm_chunk (set ys)" by (simp add: distinct_map)
    moreover have "distinct ?s \<longleftrightarrow> distinct ys" by (rule mset_eq_imp_distinct_iff) simp
    ultimately show ?thesis by (simp add: distinct_map)
  qed
  have srt: "sorted_wrt proposal_le ?s" using proposals.sorted_sort_by [of ys "\<lambda>m. m"] num by simp
  have fields: "mg_sm e' = mg_sm e" "mg_active e' = mg_active e" "mg_cooldown e' = mg_cooldown e"
    "skipped (mg_stats e') = skipped (mg_stats e) + of_nat (length el - length ?s)"
    using cs(3) by (auto simp: up_to_rt_def e0_def)
  show ?thesis using el cs(1,2) srt dist run fields
    by (intro conjI exI [of _ cs] exI [of _ ?s] exI [of _ e']) simp_all
qed

section \<open>Evictions of one chunk are spaced by the cooldown\<close>

lemma keeps_on_mg_rt [keeps_rules]: "(\<And>r e. c (with_rt r e) = c e) \<Longrightarrow> keeps c (on_mg_rt m)"
  unfolding on_mg_rt_def with_rt_def [symmetric] by (rule keeps_on_part)

lemma keeps_lock: "keeps c lock_sm"
  by (simp add: keeps_def lock_sm_def)

lemma keeps_ask [keeps_rules]: "(\<And>r e. c (with_rt r e) = c e) \<Longrightarrow> keeps c (ask_policy f)"
  unfolding ask_policy_def [abs_def] by (rule keeps_state) (rule keeps_on_mg_rt)

lemma keeps_bump: "(\<And>st e. c (e\<lparr>mg_stats := st\<rparr>) = c e) \<Longrightarrow> keeps c (bump pr sel upd n)"
  unfolding bump_def by (intro keeps_bind keeps_read keeps_update) simp

text \<open>What the spacing depends on: the policy and the record of evictions with its window.\<close>

definition spacing_view :: "migration_engine \<Rightarrow> placement_policy \<times> (chunk_id, u64) btree \<times> u64" where
  "spacing_view e = (mg_policy e, last_eviction (mg_cooldown e), cooldown_us (mg_cooldown e))"

lemma spacing_view_simps [simp]:
  "spacing_view (with_rt r e) = spacing_view e" "spacing_view (e\<lparr>mg_stats := st\<rparr>) = spacing_view e"
  "spacing_view (e\<lparr>mg_last := l\<rparr>) = spacing_view e" "spacing_view (set_active a e) = spacing_view e"
  "spacing_view (e\<lparr>mg_cooldown := record_promotion cid now (mg_cooldown e)\<rparr>) = spacing_view e"
  "spacing_view (e\<lparr>mg_cooldown := record_eviction cid now (mg_cooldown e)\<rparr>) =
     (mg_policy e, fmupd cid now (last_eviction (mg_cooldown e)), cooldown_us (mg_cooldown e))"
  by (simp_all add: spacing_view_def set_active_def record_promotion_def record_eviction_def)

definition log_evictions :: "u64 \<Rightarrow> pending_migration list \<Rightarrow> (chunk_id, u64) btree \<Rightarrow> (chunk_id, u64) btree" where
  "log_evictions now ys le = fold (\<lambda>m. fmupd (pm_chunk m) now) ys le"

lemma fmlookup_log_evictions [simp]:
  "fmlookup (log_evictions now ys le) cid = (if cid \<in> set (map pm_chunk ys) then Some now else fmlookup le cid)"
  unfolding log_evictions_def by (induction ys rule: rev_induct) auto

lemma log_evictions_snoc: "log_evictions now (ys @ [m]) le = fmupd (pm_chunk m) now (log_evictions now ys le)"
  by (simp add: log_evictions_def)

definition spaced :: "u64 \<Rightarrow> pending_migration list \<Rightarrow> bool" where
  "spaced us ms \<longleftrightarrow> sorted_wrt (\<lambda>a b. pm_chunk a = pm_chunk b \<longrightarrow> unat (identified_at a) + unat us \<le> unat (identified_at b)) ms"

definition logged :: "(chunk_id, u64) btree \<Rightarrow> pending_migration list \<Rightarrow> bool" where
  "logged le ms \<longleftrightarrow> (\<forall>m\<in>set ms. \<exists>t. fmlookup le (pm_chunk m) = Some t \<and> identified_at m \<le> t)"

lemma not_recent: "\<not> recent us now (Some t) \<Longrightarrow> 0 < us \<Longrightarrow> unat t + unat us \<le> unat now"
  using unat_saturating_sub [of now t] unat_gt_0 [of us] by (simp add: recent_def word_less_nat_alt split: if_splits)

lemma spaced_append:
  assumes "spaced us hist" "logged le hist" "0 < us" "distinct (map pm_chunk ys)"
    and ys: "list_all (\<lambda>m. identified_at m = now \<and> \<not> recent us now (fmlookup le (pm_chunk m))) ys"
  shows "spaced us (hist @ ys) \<and> logged (log_evictions now ys le) (hist @ ys)"
proof -
  have gap: "unat (identified_at a) + unat us \<le> unat now \<and> identified_at a \<le> now"
    if a: "a \<in> set hist" "b \<in> set ys" "pm_chunk a = pm_chunk b" for a b
  proof -
    obtain t where t: "fmlookup le (pm_chunk a) = Some t" "identified_at a \<le> t" using assms(2) a(1) by (auto simp: logged_def)
    have "\<not> recent us now (fmlookup le (pm_chunk b))" using ys a(2) by (auto simp: list_all_iff)
    then have "unat t + unat us \<le> unat now" using t a(3) assms(3) by (intro not_recent) simp_all
    then show ?thesis using t(2) by (simp add: word_le_nat_alt)
  qed
  have "sorted_wrt (\<lambda>a b. pm_chunk a = pm_chunk b \<longrightarrow> unat (identified_at a) + unat us \<le> unat (identified_at b)) ys"
    using assms(4) by (induction ys) auto
  then have "spaced us (hist @ ys)"
    using assms(1) gap ys unfolding spaced_def sorted_wrt_append by (auto simp: list_all_iff)
  moreover have "logged (log_evictions now ys le) (hist @ ys)"
    using assms(2) gap ys unfolding logged_def by (auto simp: list_all_iff image_iff)
  ultimately show ?thesis by blast
qed

text \<open>The other operations of the engine leave the record of evictions alone.\<close>

lemma keeps_evaluate_chunk:
  assumes "\<And>r e. c (with_rt r e) = c e" "\<And>st e. c (e\<lparr>mg_stats := st\<rparr>) = c e"
  shows "keeps c (evaluate_chunk pr p now x)"
proof -
  obtain cid meta where x: "x = (cid, meta)" by fastforce
  show ?thesis unfolding x evaluate_chunk_def [abs_def] ret_def [symmetric] prod.case if_distrib [of "\<lambda>m. m _", symmetric]
    by (rule keeps_state, intro keeps_rules keeps_bump) (rule assms)+
qed

lemma find_cold_distinct: "distinct (map fst (find_cold_chunks thr t))"
proof -
  have "distinct (map fst (bt_entries (hotness_map t)))" by simp
  then show ?thesis unfolding find_cold_chunks_def by (simp add: distinct_map_filter)
qed

definition evicted :: "placement_policy \<Rightarrow> u64 \<Rightarrow> (chunk_id, u64) btree \<Rightarrow> u64 \<Rightarrow> (chunk_id \<times> chunk_hotness) list \<Rightarrow> pending_migration list \<Rightarrow> migration_engine \<Rightarrow> bool" where
  "evicted pol now le us seen ys e \<longleftrightarrow> spacing_view e = (pol, log_evictions now ys le, us) \<and> subseq (map pm_chunk ys) (map fst seen)
     \<and> list_all (\<lambda>m. identified_at m = now \<and> \<not> recent us now (fmlookup le (pm_chunk m))) ys"

context placement
begin

lemma partial_view: "(\<And>r e. c (with_rt r e) = c e) \<Longrightarrow> partial (\<lambda>e. c e = v) (on_mg_rt m) (\<lambda>_ e. c e = v)"
  using partial_keeps [OF keeps_on_mg_rt, of c "\<lambda>x. x = v"] by blast

lemma evict_chunk_spaced:
  "partial (\<lambda>e. spacing_view e = (pol, le, us)) (evict_chunk pr p now avail (cid, h)) (\<lambda>y e.
     case y of None \<Rightarrow> spacing_view e = (pol, le, us)
     | Some m \<Rightarrow> pm_chunk m = cid \<and> identified_at m = now \<and> \<not> recent us now (fmlookup le cid)
         \<and> spacing_view e = (pol, fmupd cid now le, us))"
proof (rule partialI)
  fix e y e' assume v: "spacing_view e = (pol, le, us)" and "evict_chunk pr p now avail (cid, h) e = (Ok y, e')"
  then have run: "evict_unlocked pr p now avail (cid, h) e = (Ok y, e')" by (simp add: evict_chunk_def lock_bind_Ok)
  let ?meta = "minimal_meta cid (h_first_accessed h) (h_last_accessed h) (h_access_count h)"
  let ?V = "\<lambda>e. spacing_view e = (pol, le, us)"
  show "case y of None \<Rightarrow> ?V e' | Some m \<Rightarrow> pm_chunk m = cid \<and> identified_at m = now \<and> \<not> recent us now (fmlookup le cid)
         \<and> spacing_view e' = (pol, fmupd cid now le, us)"
  proof (cases "get_state (mg_sm e) cid = Some Stored \<and> can_evict (mg_cooldown e) cid now")
    case False
    then show ?thesis
      using run v keepsD [OF keeps_bump [of spacing_view pr cooldown_blocks "\<lambda>v s. s\<lparr>cooldown_blocks := v\<rparr>" 1], of e]
      by (auto simp: evict_unlocked_def bind_act_Ok_iff ret_def split: if_splits)
  next
    case True
    then have free: "\<not> recent us now (fmlookup le cid)" using v by (auto simp: can_evict_def spacing_view_def split: if_splits)
    have ask: "?V e'' \<and> mg_policy e1 = pol" if "?V e1" "ask_policy f e1 = (Ok x, e'')" for e1 e'' and f :: "placement_policy \<Rightarrow> clock \<Rightarrow> 'x" and x
      using keepsD [OF keeps_ask [of spacing_view f], of e1] that by (auto simp: spacing_view_def)
    obtain vic e1 where 1: "ask_policy (\<lambda>pol clk. select_viction pol clk [(cid, ?meta)] p) e = (Ok vic, e1)"
      using run True by (auto simp: evict_unlocked_def bind_act_Ok_iff Let_def)
    have vic: "vic = None \<or> vic = Some cid"
      using 1 victim_candidate [of _ "[(cid, ?meta)]" p] v by (cases vic) (auto simp: ask_policy_def on_mg_rt_def on_part_def spacing_view_def)
    have v1: "?V e1" using ask [OF v 1] by simp
    show ?thesis
    proof (cases vic)
      case None
      then show ?thesis using run True 1 v1 by (auto simp: evict_unlocked_def bind_act_Ok_iff Let_def ret_def)
    next
      case (Some w)
      then have w: "vic = Some cid" using vic by simp
      obtain target e2 where 2: "ask_policy (\<lambda>pol clk. select_target_tier pol clk ?meta p avail) e1 = (Ok target, e2)"
        using run True 1 w by (auto simp: evict_unlocked_def bind_act_Ok_iff Let_def)
      have v2: "?V e2" using ask [OF v1 2] by simp
      show ?thesis
      proof (cases "target = meta_tier ?meta")
        case True
        then show ?thesis
          using run \<open>get_state (mg_sm e) cid = Some Stored \<and> _\<close> 1 w 2 v2 by (auto simp: evict_unlocked_def bind_act_Ok_iff Let_def ret_def)
      next
        case False
        have "partial ?V (bind_act (ask_policy (\<lambda>pol clk. migration_priority pol clk ?meta p)) (\<lambda>prio.
             bind_act (update_act (\<lambda>e. e\<lparr>mg_cooldown := record_eviction cid now (mg_cooldown e)\<rparr>)) (\<lambda>_.
             bind_act (on_mg_rt (log_event (Eviction cid (meta_tier ?meta) Pressure now))) (\<lambda>_.
             bind_act (on_mg_rt (emit_event (EvMigrationDecision 0 cid (meta_tier ?meta) target
               [Lit ''eviction pressure='', FmtFloat (max_pressure p)]))) (\<lambda>_.
             ret (Some \<lparr>pm_chunk = cid, pm_from = meta_tier ?meta, pm_to = target, pm_priority = prio, pm_size = meta_size ?meta,
                        pm_hotness = h_score h, identified_at = now\<rparr>))))))
           (\<lambda>y e. (\<exists>m. y = Some m \<and> pm_chunk m = cid \<and> identified_at m = now) \<and> spacing_view e = (pol, fmupd cid now le, us))"
          by (rule partial_bind [OF partial_keeps [OF keeps_ask [of spacing_view], of "\<lambda>x. x = (pol, le, us)"]], simp,
              rule partial_bind [OF partial_update [of _ "\<lambda>_ e. spacing_view e = (pol, fmupd cid now le, us)"]],
              simp add: spacing_view_def record_eviction_def,
              (rule partial_bind [OF partial_view [of spacing_view "(pol, fmupd cid now le, us)"]], simp)+, rule partial_ret) simp
        from partialD [OF this v2] show ?thesis
          using run \<open>get_state (mg_sm e) cid = Some Stored \<and> _\<close> 1 w 2 False free
          by (auto simp: evict_unlocked_def bind_act_Ok_iff Let_def)
      qed
    qed
  qed
qed


lemma evict_loop:
  assumes "distinct (map fst xs)"
  shows "partial (\<lambda>e. spacing_view e = (pol, le, us)) (filter_map_act (evict_chunk pr p now avail) xs) (\<lambda>ys. evicted pol now le us xs ys)"
proof -
  have "partial (evicted pol now le us [] []) (filter_map_act (evict_chunk pr p now avail) xs) (\<lambda>ys. evicted pol now le us ([] @ xs) ([] @ ys))"
  proof (rule partial_filter_map)
    fix seen x rest and ys :: "pending_migration list" assume xs: "[] @ xs = seen @ x # rest"
    obtain cid h where x: "x = (cid, h)" by fastforce
    have new: "cid \<notin> set (map pm_chunk ys)" if "subseq (map pm_chunk ys) (map fst seen)"
      using list_emb_set [OF that, of cid] assms xs by (auto simp: x)
    show "partial (evicted pol now le us seen ys) (evict_chunk pr p now avail x) (\<lambda>y. evicted pol now le us (seen @ [x]) (ys @ opt_list y))"
    proof (rule partialI)
      fix e y e' assume i: "evicted pol now le us seen ys e" and run: "evict_chunk pr p now avail x e = (Ok y, e')"
      have "spacing_view e = (pol, log_evictions now ys le, us)" using i by (simp add: evicted_def)
      from partialD [OF evict_chunk_spaced this run [unfolded x]] i new
      show "evicted pol now le us (seen @ [x]) (ys @ opt_list y) e'"
        by (auto simp: evicted_def x log_evictions_snoc intro: subseq_rev_drop_many split: option.splits if_splits)
    qed
  qed
  then show ?thesis by (rule partial_weaken) (auto simp: evicted_def log_evictions_def)
qed

lemma evaluate_evictions_spaced:
  assumes "spacing_view e = (pol, le, us)" "evaluate_evictions pr p e = (Ok ys, e')"
  obtains now where "spacing_view e' = (pol, log_evictions now ys le, us)" "distinct (map pm_chunk ys)"
    "list_all (\<lambda>m. identified_at m = now \<and> \<not> recent us now (fmlookup le (pm_chunk m))) ys"
proof (cases "ys = [] \<and> e' = e")
  case True
  then show ?thesis using that [of 0] assms(1) by (simp add: log_evictions_def)
next
  case False
  let ?cold = "find_cold_chunks (cold_threshold (mg_config e)) (mg_hotness e)"
  obtain now e1 where 1: "on_mg_rt now_ms e = (Ok now, e1)" "filter_map_act (evict_chunk pr p now (bt_keys (mg_costs e))) ?cold e1 = (Ok ys, e')"
    using assms(2) False by (auto simp: evaluate_evictions_def Let_def bind_act_Ok_iff split: if_splits)
  have "spacing_view e1 = (pol, le, us)" using keepsD [OF keeps_on_mg_rt [of spacing_view now_ms], of e] 1(1) assms(1) by simp
  from partialD [OF evict_loop [OF find_cold_distinct] this 1(2)] show ?thesis
    using that subseq_imp_distinct [OF _ find_cold_distinct] by (auto simp: evicted_def)
qed

end

lemma keeps_promote_chunk: "keeps spacing_view (promote_chunk p now avail x)"
proof -
  obtain cid h where x: "x = (cid, h)" by fastforce
  show ?thesis unfolding x promote_chunk_def [abs_def] ret_def [symmetric] prod.case Let_def if_distrib [of "\<lambda>m. m _", symmetric]
    by (rule keeps_bind [OF keeps_lock], rule keeps_state, intro keeps_rules) simp_all
qed

lemma keeps_evaluate_migrations:
  assumes "\<And>r e. c (with_rt r e) = c e" "\<And>st e. c (e\<lparr>mg_stats := st\<rparr>) = c e"
  shows "keeps c (evaluate_migrations pr p)"
  unfolding evaluate_migrations_def
  by (rule keeps_bind, rule keeps_on_mg_rt, rule assms, rule keeps_bind, rule keeps_bump, rule assms, rule keeps_bind, rule keeps_update, rule assms,
      rule keeps_bind [OF keeps_lock], rule keeps_state, intro keeps_rules keeps_evaluate_chunk assms)

lemma keeps_evaluate_promotions: "keeps spacing_view (evaluate_promotions p)"
  unfolding evaluate_promotions_def [abs_def] ret_def [symmetric] Let_def if_distrib [of "\<lambda>m. m _", symmetric]
  by (rule keeps_state, intro keeps_rules keeps_promote_chunk) simp_all

lemma keeps_mark_active: "keeps spacing_view (mark_active cid)"
  unfolding mark_active_def by (intro keeps_update) simp

lemma keeps_mark_complete: "keeps spacing_view (mark_complete pr cid n ok)"
  unfolding mark_complete_def by (intro keeps_rules keeps_bump keeps_update) simp_all

lemma keeps_decide_migration: "keeps spacing_view (decide_migration m p c a)"
  unfolding decide_migration_def [abs_def] Let_def by (rule keeps_state, intro keeps_rules) simp_all

lemmas keeps_spacing = keeps_evaluate_migrations [of spacing_view, simplified] keeps_evaluate_promotions keeps_mark_active keeps_mark_complete keeps_decide_migration

section \<open>Runs of the engine\<close>

datatype engine_op =
    Evaluate pressure_state
  | Promote pressure_state
  | Evict pressure_state
  | Decide pending_migration pressure_state physical_cost backpressure_action
  | MarkActive chunk_id
  | MarkComplete chunk_id u64 bool

text \<open>One call of the engine; its value is the list of evictions it proposes.\<close>

fun engine_step :: "profile \<Rightarrow> engine_op \<Rightarrow> pending_migration list engine" where
  "engine_step pr (Evaluate p) = bind_act (evaluate_migrations pr p) (\<lambda>_. ret [])"
| "engine_step pr (Promote p) = bind_act (evaluate_promotions p) (\<lambda>_. ret [])"
| "engine_step pr (Evict p) = evaluate_evictions pr p"
| "engine_step pr (Decide m p c a) = bind_act (decide_migration m p c a) (\<lambda>_. ret [])"
| "engine_step pr (MarkActive cid) = bind_act (mark_active cid) (\<lambda>_. ret [])"
| "engine_step pr (MarkComplete cid n ok) = bind_act (mark_complete pr cid n ok) (\<lambda>_. ret [])"

fun engine_run :: "profile \<Rightarrow> engine_op list \<Rightarrow> pending_migration list engine" where
  "engine_run pr [] = ret []"
| "engine_run pr (op # ops) = bind_act (engine_step pr op) (\<lambda>xs. bind_act (engine_run pr ops) (\<lambda>ys. ret (xs @ ys)))"

lemma keeps_engine_step: "(\<And>p. op \<noteq> Evict p) \<Longrightarrow> keeps spacing_view (engine_step pr op) \<and> (engine_step pr op e = (Ok xs, e') \<longrightarrow> xs = [])"
  by (cases op) (auto intro!: keeps_rules keeps_spacing simp: bind_act_Ok_iff ret_def)

context placement
begin

lemma engine_step_spaced:
  assumes "spacing_view e = (pol, le, us)" "0 < us" "spaced us hist" "logged le hist" "engine_step pr op e = (Ok xs, e')"
  shows "spaced us (hist @ xs) \<and> (\<exists>le'. spacing_view e' = (pol, le', us) \<and> logged le' (hist @ xs))"
proof (cases "\<exists>p. op = Evict p")
  case True
  then obtain p where "evaluate_evictions pr p e = (Ok xs, e')" using assms(5) by auto
  then obtain now where "spacing_view e' = (pol, log_evictions now xs le, us)" "distinct (map pm_chunk xs)"
    "list_all (\<lambda>m. identified_at m = now \<and> \<not> recent us now (fmlookup le (pm_chunk m))) xs"
    using evaluate_evictions_spaced [OF assms(1)] by blast
  then show ?thesis using spaced_append [OF assms(3,4,2)] by blast
next
  case False
  then show ?thesis using keeps_engine_step [of op pr e xs e'] keepsD [of spacing_view "engine_step pr op" e] assms by auto
qed

lemma engine_run_spaced:
  "spacing_view e = (pol, le, us) \<Longrightarrow> 0 < us \<Longrightarrow> spaced us hist \<Longrightarrow> logged le hist \<Longrightarrow> engine_run pr ops e = (Ok ms, e')
     \<Longrightarrow> spaced us (hist @ ms)"
proof (induction ops arbitrary: e le hist ms)
  case (Cons op ops)
  then obtain xs ys e1 where 1: "engine_step pr op e = (Ok xs, e1)" "engine_run pr ops e1 = (Ok ys, e')" "ms = xs @ ys"
    by (auto simp: bind_act_Ok_iff ret_def)
  obtain le' where "spaced us (hist @ xs)" "spacing_view e1 = (pol, le', us)" "logged le' (hist @ xs)"
    using engine_step_spaced [OF Cons.prems(1-4) 1(1)] by blast
  then show ?case using Cons.IH [of e1 le' "hist @ xs" ys] Cons.prems(2) 1 by simp
qed (simp add: ret_def)

end

text \<open>
  C14: whatever the engine is asked to do, in whatever order and with whatever readings of the clock,
  two evictions it proposes for the same chunk are at least the eviction cooldown apart. This holds
  for both placement policies, since they only ever choose a victim among the candidates.
\<close>

theorem evictions_spaced:
  assumes "mg_policy e = lru_policy c \<or> mg_policy e = pressure_aware_policy d" "0 < cooldown_us (mg_cooldown e)"
    and run: "engine_run pr ops e = (Ok ms, e')" and "i < j" "j < length ms" "pm_chunk (ms ! i) = pm_chunk (ms ! j)"
  shows "unat (identified_at (ms ! i)) + unat (cooldown_us (mg_cooldown e)) \<le> unat (identified_at (ms ! j))"
proof -
  have view: "spacing_view e = (mg_policy e, last_eviction (mg_cooldown e), cooldown_us (mg_cooldown e))" by (simp add: spacing_view_def)
  have start: "spaced (cooldown_us (mg_cooldown e)) []" "logged (last_eviction (mg_cooldown e)) []" by (simp_all add: spaced_def logged_def)
  have "spaced (cooldown_us (mg_cooldown e)) ([] @ ms)"
    using assms(1) lru.engine_run_spaced [of e c, OF _ assms(2) start run] pressure_aware.engine_run_spaced [of e d, OF _ assms(2) start run]
      view by auto
  then show ?thesis using assms(4-6) by (auto simp: spaced_def sorted_wrt_iff_nth_less)
qed

text \<open>An engine with one cold chunk on RAM, a disk to evict it to and a cooldown of 10.\<close>

definition demo_engine :: migration_engine where
  "demo_engine = \<lparr>mg_config = migration_config_default\<lparr>cold_threshold := Fin (1 / 2), eviction_pressure_threshold := Fin (1 / 2)\<rparr>,
     mg_policy = pressure_aware_policy \<lparr>ram_high_watermark = Fin (1 / 2), ram_critical_watermark = Fin (1 / 2),
       vram_high_watermark = Fin 1, vram_critical_watermark = Fin 1, io_high_watermark = Fin 1, io_critical_watermark = Fin 1,
       critical_pressure = Fin 1, high_pressure = Fin (3 / 4), normal_pressure = Fin (1 / 2), pa_time_secs = 0\<rparr>,
     mg_hotness = demo_tracker\<lparr>hotness_map := fmupd (ChunkId [1]) (hotness_new (ChunkId [1]) 3) fmempty,
       ht_rt := (ht_rt demo_tracker)\<lparr>ms_at := \<lambda>i. if i = 0 then 5 else 100\<rparr>\<rparr>,
     mg_sm = \<lparr>states = fmupd (ChunkId [1]) Stored fmempty\<rparr>, mg_poisoned = False, mg_costs = fmupd Disk physical_cost_new fmempty,
     mg_stats = migration_stats_default, mg_active = {||}, mg_last = fmempty,
     mg_cooldown = \<lparr>last_eviction = fmempty, last_promotion = fmempty, cooldown_us = 10\<rparr>\<rparr>"

definition demo_pressure :: pressure_state where
  "demo_pressure = \<lparr>memory_pressure = Fin (3 / 4), vram_pressure = Fin 0, io_pressure = Fin 0, queue_depth = 0, throughput_bps = 0\<rparr>"


lemmas demo_defs = bind_act_def ret_def update_act_def demo_engine_def demo_pressure_def demo_tracker_def max_pressure_def
  migration_config_default_def find_cold_chunks_def bt_entries_def bt_keys_upd hotness_new_def on_mg_rt_def on_part_def now_ms_def
  get_state_def can_evict_def recent_def ask_policy_def pressure_aware_policy_def pa_select_viction_def pa_select_target_tier_def
  pa_migration_priority_def max_by_def evict_chunk_def evict_unlocked_def minimal_meta_def record_eviction_def log_event_def emit_event_def
  trace_record_def trace_log_new_def fmax_def unwrap_or_def saturating_sub_def evaluate_evictions_def tick_def lock_sm_def

lemma demo_evict: "\<exists>ms e'. engine_run Debug [Evict demo_pressure, MarkActive (ChunkId [2]), Evict demo_pressure] demo_engine = (Ok ms, e')
    \<and> map pm_chunk ms = [ChunkId [1], ChunkId [1]] \<and> map identified_at ms = [5, 100]"
  by (simp add: demo_defs mark_active_def set_active_def)

theorem evictions_spaced_witness:
  "\<exists>ms e'. engine_run Debug [Evict demo_pressure, MarkActive (ChunkId [2]), Evict demo_pressure] demo_engine = (Ok ms, e')
    \<and> length ms = 2 \<and> unat (identified_at (ms ! 0)) + 10 \<le> unat (identified_at (ms ! 1))"
proof -
  obtain ms e' where ms: "engine_run Debug [Evict demo_pressure, MarkActive (ChunkId [2]), Evict demo_pressure] demo_engine = (Ok ms, e')"
    "map pm_chunk ms = [ChunkId [1], ChunkId [1]]" using demo_evict by meson
  have len: "length ms = 2" using arg_cong [OF ms(2), of length] by simp
  have "pm_chunk (ms ! i) = ChunkId [1]" if "i < 2" for i
    using ms(2) that by (cases ms; cases "tl ms") (auto simp: less_2_cases_iff)
  then have "pm_chunk (ms ! 0) = pm_chunk (ms ! 1)" by simp
  moreover have "\<exists>d. mg_policy demo_engine = pressure_aware_policy d" by (simp add: demo_engine_def) blast
  moreover have "cooldown_us (mg_cooldown demo_engine) = 10" by (simp add: demo_engine_def)
  ultimately show ?thesis using evictions_spaced [of demo_engine _ _ Debug _ ms e' 0 1] ms(1) len by fastforce
qed

theorem evaluate_proposals_witness:
  "\<exists>ms e'. evaluate_migrations Debug demo_pressure demo_engine = (Ok ms, e') \<and> distinct (map pm_chunk ms) \<and> sorted_wrt proposal_le ms
     \<and> mg_sm e' = mg_sm demo_engine"
proof -
  have "rt_ok (engine_rt demo_engine)" by (simp add: demo_engine_def demo_tracker_def rt_ok_def trace_log_new_def log_inv_def)
  moreover have "tracker_inv (mg_hotness demo_engine)" 
    by (simp add: tracker_inv_def demo_engine_def fresh_def hotness_new_def)
  moreover have "sm_len (mg_sm demo_engine) = 1" by (simp add: demo_engine_def sm_len_def bt_len_def bt_keys_upd)
  moreover have "\<not> mg_poisoned demo_engine" "skipped (mg_stats demo_engine) = 0" "evaluation_cycles (mg_stats demo_engine) = 0"
    by (simp_all add: demo_engine_def migration_stats_default_def)
  ultimately obtain all e' where all: "sorted_wrt proposal_le all" "distinct (map pm_chunk all)" "mg_sm e' = mg_sm demo_engine"
    "evaluate_migrations Debug demo_pressure demo_engine = (Ok (take (unat (max_migrations_per_cycle (mg_config demo_engine))) all), e')"
    using evaluate_proposals [of demo_engine Debug demo_pressure] by auto
  have "distinct (map pm_chunk (take n all))" "sorted_wrt proposal_le (take n all)" for n
    using all(1,2) by (simp_all add: take_map [symmetric] sorted_wrt_take)
  with all(3,4) show ?thesis by blast
qed

end
