(* ===== verification/Io_Metrics.thy ===== *)
theory Io_Metrics
  imports Hotness_Sampling Triples
begin

text \<open>
  \<^verbatim>\<open>ghost-daemon/src/io_metrics.rs\<close>: the disk metrics. The counters are atomics, which wrap in both
  profiles; the compare-and-swap loop of the rolling latency is run without interference.
\<close>

record io_metrics =
  rolling_latency :: u64
  io_queue_depth :: u64
  flush_duration :: u64
  read_count :: u64
  write_count :: u64
  error_count :: u64
  amplification_factor :: u64
  total_bytes_read :: u64
  total_bytes_written :: u64
  total_bytes_physical :: u64
  io_smoothing :: u64

definition io_metrics_new :: io_metrics where
  "io_metrics_new = \<lparr>rolling_latency = 0, io_queue_depth = 0, flush_duration = 0, read_count = 0, write_count = 0,
     error_count = 0, amplification_factor = 1000, total_bytes_read = 0, total_bytes_written = 0,
     total_bytes_physical = 0, io_smoothing = 300000\<rparr>"

definition set_smoothing_factor :: "f32 \<Rightarrow> io_metrics \<Rightarrow> io_metrics" where
  "set_smoothing_factor factor m = m\<lparr>io_smoothing := to_u64 (fmul binary32 (clamp01 factor) (f32_lit 1000000))\<rparr>"

definition smoothed_latency :: "io_metrics \<Rightarrow> u64 \<Rightarrow> u64" where
  "smoothed_latency m new_latency =
     (let alpha = fdiv binary64 (of_word binary64 (io_smoothing m)) (f64_lit 1000000)
      in if rolling_latency m = 0 then new_latency
         else to_u64 (fadd binary64 (fmul binary64 alpha (of_word binary64 new_latency))
                (fmul binary64 (fsub binary64 (f64_lit 1) alpha) (of_word binary64 (rolling_latency m)))))"

definition update_rolling_latency :: "u64 \<Rightarrow> io_metrics \<Rightarrow> io_metrics" where
  "update_rolling_latency new_latency m = m\<lparr>rolling_latency := smoothed_latency m new_latency\<rparr>"

definition record_read :: "u64 \<Rightarrow> io_metrics \<Rightarrow> io_metrics" where
  "record_read us m = update_rolling_latency us (m\<lparr>read_count := read_count m + 1\<rparr>)"

definition record_write :: "u64 \<Rightarrow> usize \<Rightarrow> io_metrics \<Rightarrow> io_metrics" where
  "record_write us n m = update_rolling_latency us
     (m\<lparr>write_count := write_count m + 1, total_bytes_written := total_bytes_written m + n\<rparr>)"

definition record_flush :: "u64 \<Rightarrow> io_metrics \<Rightarrow> io_metrics" where
  "record_flush us m = m\<lparr>flush_duration := us\<rparr>"

definition record_error :: "io_metrics \<Rightarrow> io_metrics" where
  "record_error m = m\<lparr>error_count := error_count m + 1\<rparr>"

definition increment_queue_depth :: "io_metrics \<Rightarrow> io_metrics" where
  "increment_queue_depth m = m\<lparr>io_queue_depth := io_queue_depth m + 1\<rparr>"

definition decrement_queue_depth :: "io_metrics \<Rightarrow> io_metrics" where
  "decrement_queue_depth m = m\<lparr>io_queue_depth := io_queue_depth m - 1\<rparr>"

definition update_amplification_factor :: "io_metrics \<Rightarrow> io_metrics" where
  "update_amplification_factor m = m\<lparr>amplification_factor :=
     (if total_bytes_written m = 0 then 1000
      else let x = fmul binary64 (fdiv binary64 (of_word binary64 (total_bytes_physical m))
                     (of_word binary64 (total_bytes_written m))) (f64_lit 1000)
           in to_u64 (if flt x (f64_lit 0) then f64_lit 0 else if fgt x (f64_lit 10000) then f64_lit 10000 else x))\<rparr>"

definition record_physical_write :: "usize \<Rightarrow> io_metrics \<Rightarrow> io_metrics" where
  "record_physical_write n m = update_amplification_factor (m\<lparr>total_bytes_physical := total_bytes_physical m + n\<rparr>)"

definition record_bytes_read :: "usize \<Rightarrow> io_metrics \<Rightarrow> io_metrics" where
  "record_bytes_read n m = m\<lparr>total_bytes_read := total_bytes_read m + n\<rparr>"

definition get_read_amplification :: "io_metrics \<Rightarrow> f64" where
  "get_read_amplification m = (if total_bytes_physical m = 0 then f64_lit 1
     else fdiv binary64 (of_word binary64 (total_bytes_read m)) (of_word binary64 (total_bytes_physical m)))"

definition get_write_amplification :: "io_metrics \<Rightarrow> f64" where
  "get_write_amplification m = (if total_bytes_written m = 0 then f64_lit 1
     else fdiv binary64 (of_word binary64 (total_bytes_physical m)) (of_word binary64 (total_bytes_written m)))"

definition get_error_rate :: "profile \<Rightarrow> io_metrics \<Rightarrow> f64 ghost_result" where
  "get_error_rate pr m = (case add_pr pr (read_count m) (write_count m) of
       Ok tot \<Rightarrow> Ok (if tot = 0 then f64_lit 0 else fdiv binary64 (of_word binary64 (error_count m)) (of_word binary64 tot))
     | Err e \<Rightarrow> Err e | Panic \<Rightarrow> Panic)"

text \<open>\<^verbatim>\<open>(x as f32 / max as f32).min(1.0)\<close>, zero when there is no maximum.\<close>

definition load_fraction :: "u64 \<Rightarrow> u64 \<Rightarrow> f32" where
  "load_fraction x mx = (if mx > 0 then fmin (fdiv binary32 (of_word binary32 x) (of_word binary32 mx)) (f32_lit 1) else f32_lit 0)"

definition calculate_io_pressure :: "profile \<Rightarrow> u64 \<Rightarrow> u64 \<Rightarrow> io_metrics \<Rightarrow> f32 ghost_result" where
  "calculate_io_pressure pr max_queue max_latency_us m =
     (let queue_pressure = load_fraction (io_queue_depth m) max_queue;
          latency_pressure = load_fraction (rolling_latency m) max_latency_us
      in case get_error_rate pr m of
           Ok error_rate \<Rightarrow> Ok (fmin (fadd binary32 (fadd binary32 (fmul binary32 queue_pressure (f32_lit (4 / 10)))
               (fmul binary32 latency_pressure (f32_lit (4 / 10)))) (fmul binary32 (f32_of_f64 error_rate) (f32_lit (2 / 10)))) (f32_lit 1))
         | Err e \<Rightarrow> Err e | Panic \<Rightarrow> Panic)"

definition io_reset :: "io_metrics \<Rightarrow> io_metrics" where
  "io_reset m = m\<lparr>rolling_latency := 0, io_queue_depth := 0, flush_duration := 0, read_count := 0, write_count := 0,
     error_count := 0, amplification_factor := 1000, total_bytes_read := 0, total_bytes_written := 0, total_bytes_physical := 0\<rparr>"

section \<open>The pressure is a value of the unit interval\<close>

lemma fdiv_words_nonneg:
  fixes a b :: u64
  assumes "holds_words fm" "0 < b"
  shows "fle (Fin 0) (fdiv fm (of_word fm a) (of_word fm b))"
proof -
  obtain x where "of_word fm a = Fin x" "0 \<le> x" by (rule of_word_between [OF assms(1), of a]) auto
  moreover obtain y where "of_word fm b = Fin y" "1 \<le> y" by (rule of_word_between [OF assms(1), of b]) (use assms(2) in auto)
  ultimately show ?thesis using holds_wf [OF assms(1)] by (auto intro!: rnd_nonneg)
qed

lemma load_fraction_in_unit: "in_unit (load_fraction x mx)"
  by (auto simp: load_fraction_def intro!: fmin_one fdiv_words_nonneg)

lemma f32_of_f64_nonneg: "fle (Fin 0) x \<Longrightarrow> fle (Fin 0) (f32_of_f64 x)"
  by (cases x) (auto intro!: rnd_nonneg)

lemma fmul_nonneg_pos: "wf_format fm \<Longrightarrow> fle (Fin 0) x \<Longrightarrow> 0 < w \<Longrightarrow> fle (Fin 0) (fmul fm x (Fin w))"
  by (cases x) (auto simp: signed_inf_def intro!: rnd_nonneg)

lemma error_rate_nonneg: "get_error_rate pr m = Ok r \<Longrightarrow> fle (Fin 0) r"
  using fdiv_words_nonneg [of binary64 "read_count m + write_count m" "error_count m"]
  by (auto simp: get_error_rate_def add_pr_def word_gt_0 split: outcome.splits if_splits)

lemma io_pressure_unit:
  assumes "calculate_io_pressure pr max_queue max_latency_us m = Ok p"
  shows "in_unit p"
proof -
  obtain r where r: "get_error_rate pr m = Ok r"
    using assms by (auto simp: calculate_io_pressure_def Let_def split: outcome.splits)
  define q2 q4 :: rat where "q2 = 13421773 / 67108864" and "q4 = 13421773 / 33554432"
  have "fle (Fin 0) (fmul binary32 (load_fraction a b) (Fin q4))" for a b
    using load_fraction_in_unit [of a b] by (intro fmul_nonneg_pos) (auto simp: in_unit_def q4_def)
  moreover have "fle (Fin 0) (fmul binary32 (f32_of_f64 r) (Fin q2))"
    using f32_of_f64_nonneg [OF error_rate_nonneg [OF r]] by (intro fmul_nonneg_pos) (auto simp: q2_def)
  ultimately have "in_unit (fmin (fadd binary32 (fadd binary32 (fmul binary32 (load_fraction (io_queue_depth m) max_queue) (Fin q4))
      (fmul binary32 (load_fraction (rolling_latency m) max_latency_us) (Fin q4))) (fmul binary32 (f32_of_f64 r) (Fin q2))) (Fin 1))"
    by (intro fmin_one fadd_nonneg) simp_all
  then show ?thesis using assms by (simp add: calculate_io_pressure_def Let_def r q2_def q4_def)
qed

lemma io_pressure_result:
  "calculate_io_pressure pr max_queue max_latency_us m = Panic
     \<longleftrightarrow> pr = Debug \<and> 2 ^ 64 \<le> unat (read_count m) + unat (write_count m)"
  "calculate_io_pressure pr max_queue max_latency_us m \<noteq> Err e"
  by (cases pr; auto simp: calculate_io_pressure_def Let_def get_error_rate_def add_pr_def checked_def)+

text \<open>
  Whatever the counters are (also after they have wrapped, and with more errors than
  operations) the disk I/O pressure lies in the unit interval; it fails only in the debug profile,
  by the overflow of the sum of the read and write counts.
\<close>

theorem io_pressure_in_unit:
  "(case calculate_io_pressure pr max_queue max_latency_us m of
       Ok p \<Rightarrow> in_unit p
     | Err e \<Rightarrow> False
     | Panic \<Rightarrow> pr = Debug \<and> 2 ^ 64 \<le> unat (read_count m) + unat (write_count m))"
  using io_pressure_unit [of pr max_queue max_latency_us m] io_pressure_result [of pr max_queue max_latency_us m]
  by (cases "calculate_io_pressure pr max_queue max_latency_us m") auto

end
