(* ===== verification/Pressure_Monitor.thy ===== *)
theory Pressure_Monitor
  imports Io_Metrics Hotness_Tracker
begin

text \<open>
  \<^verbatim>\<open>ghost-daemon/src/pressure.rs\<close>: the ring buffer of pressure readings with averages and trends, and
  the monitor that samples the backends, smooths the readings and announces them. A backend
  enters through its reading, so the map of backends is the map of the readings of this round.
  Indices are natural numbers: a capacity is a length of an allocated vector, far below the
  width of \<^verbatim>\<open>usize\<close>. The warnings to the \<^verbatim>\<open>tracing\<close> crate are not modelled.
\<close>

section \<open>History\<close>

datatype pressure_trend = Rising | Falling | Steady

fun display_trend :: "pressure_trend \<Rightarrow> string" where
  "display_trend Rising = ''rising''"
| "display_trend Falling = ''falling''"
| "display_trend Steady = ''stable''"

record pressure_entry =
  pe_timestamp :: u64
  pe_global :: pressure_state
  pe_per_tier :: "(tier_id, pressure_state) btree"

record pressure_history =
  ring_entries :: "pressure_entry list"
  ring_capacity :: nat
  ring_head :: nat
  ring_count :: nat

definition ring_new :: "nat \<Rightarrow> pressure_history" where
  "ring_new n = \<lparr>ring_entries = [], ring_capacity = n, ring_head = 0, ring_count = 0\<rparr>"

text \<open>With capacity zero the index into the empty vector panics.\<close>

definition ring_push :: "pressure_entry \<Rightarrow> (pressure_history, unit, ghost_error) act" where
  "ring_push x r =
     (let advance = \<lambda>es. r\<lparr>ring_entries := es, ring_head := (ring_head r + 1) mod ring_capacity r,
                            ring_count := min (ring_count r + 1) (ring_capacity r)\<rparr>
      in if length (ring_entries r) < ring_capacity r then (Ok (), advance (ring_entries r @ [x]))
         else if ring_head r < length (ring_entries r) then (Ok (), advance ((ring_entries r)[ring_head r := x]))
         else (Panic, r))"

definition ring_index :: "pressure_history \<Rightarrow> nat \<Rightarrow> nat" where
  "ring_index r i = (if ring_count r < ring_capacity r then ring_count r - 1 - i
     else (ring_head r + ring_capacity r - 1 - i) mod ring_capacity r)"

definition ring_recent :: "nat \<Rightarrow> pressure_history \<Rightarrow> pressure_entry list ghost_result" where
  "ring_recent n r =
     (let k = min n (ring_count r); is = map (ring_index r) [0..<k]
      in if list_all (\<lambda>i. i < length (ring_entries r)) is then Ok (rev (map ((!) (ring_entries r)) is)) else Panic)"

definition ring_len :: "pressure_history \<Rightarrow> nat" where
  "ring_len r = ring_count r"

definition ring_is_empty :: "pressure_history \<Rightarrow> bool" where
  "ring_is_empty r = (ring_count r = 0)"

text \<open>Sums of integers over the entries, checked in the debug profile.\<close>

fun sum_pr :: "profile \<Rightarrow> 'a::len word \<Rightarrow> 'a word list \<Rightarrow> 'a word ghost_result" where
  "sum_pr pr acc [] = Ok acc"
| "sum_pr pr acc (x # xs) = (case add_pr pr acc x of Ok v \<Rightarrow> sum_pr pr v xs | Err e \<Rightarrow> Err e | Panic \<Rightarrow> Panic)"

definition fsum32 :: "f32 list \<Rightarrow> f32" where
  "fsum32 xs = foldl (fadd binary32) (f32_lit 0) xs"

definition len32 :: "'a list \<Rightarrow> f32" where
  "len32 xs = of_word binary32 (of_nat (length xs) :: usize)"

definition average_of :: "profile \<Rightarrow> pressure_entry list \<Rightarrow> pressure_state option ghost_result" where
  "average_of pr es = (if es = [] then Ok None
     else let gs = map pe_global es; mean = \<lambda>f. fdiv binary32 (fsum32 (map f gs)) (len32 es);
              n32 = (of_nat (length es) :: u32); n64 = (of_nat (length es) :: u64)
          in case sum_pr pr 0 (map queue_depth gs) of
               Ok q \<Rightarrow> (case sum_pr pr 0 (map throughput_bps gs) of
                   Ok t \<Rightarrow> if n32 = 0 \<or> n64 = 0 then Panic
                     else Ok (Some \<lparr>memory_pressure = mean memory_pressure, vram_pressure = mean vram_pressure,
                       io_pressure = mean io_pressure, queue_depth = q div n32, throughput_bps = t div n64\<rparr>)
                 | Err e \<Rightarrow> Err e | Panic \<Rightarrow> Panic)
             | Err e \<Rightarrow> Err e | Panic \<Rightarrow> Panic)"

definition ring_average :: "profile \<Rightarrow> nat \<Rightarrow> pressure_history \<Rightarrow> pressure_state option ghost_result" where
  "ring_average pr n r = (case ring_recent n r of Ok es \<Rightarrow> average_of pr es | Err e \<Rightarrow> Err e | Panic \<Rightarrow> Panic)"

definition trend_of :: "pressure_entry list \<Rightarrow> pressure_trend" where
  "trend_of es = (if length es < 4 then Steady
     else let mid = length es div 2;
              avg = \<lambda>xs. fdiv binary32 (fsum32 (map (max_pressure \<circ> pe_global) xs)) (len32 xs);
              diff = fsub binary32 (avg (drop mid es)) (avg (take mid es))
          in if fgt diff (f32_lit (5 / 100)) then Rising
             else if flt diff (f32_lit (- 5 / 100)) then Falling
             else Steady)"

definition ring_trend :: "nat \<Rightarrow> pressure_history \<Rightarrow> pressure_trend ghost_result" where
  "ring_trend n r = (case ring_recent n r of Ok es \<Rightarrow> Ok (trend_of es) | Err e \<Rightarrow> Err e | Panic \<Rightarrow> Panic)"

section \<open>The monitor\<close>

record pressure_monitor_config =
  sample_interval_ms :: u64
  pm_smoothing :: f32
  pressure_spike_threshold :: f32
  disk_max_queue :: u64
  disk_max_latency_us :: u64
  disk_pressure_weight :: f32

definition pressure_monitor_config_default :: pressure_monitor_config where
  "pressure_monitor_config_default = \<lparr>sample_interval_ms = 1000, pm_smoothing = f32_lit (3 / 10),
     pressure_spike_threshold = f32_lit (1 / 10), disk_max_queue = 256, disk_max_latency_us = 10000000,
     disk_pressure_weight = f32_lit (5 / 10)\<rparr>"

record pressure_monitor =
  mon_config :: pressure_monitor_config
  mon_history :: pressure_history
  mon_smoothed :: pressure_state
  mon_rt :: runtime
  mon_io :: "io_metrics option"
  disk_io_pressure :: f32

definition monitor_new :: "pressure_monitor_config \<Rightarrow> nat \<Rightarrow> runtime \<Rightarrow> pressure_monitor" where
  "monitor_new c n rt = \<lparr>mon_config = c, mon_history = ring_new n, mon_smoothed = pressure_new, mon_rt = rt, mon_io = None,
     disk_io_pressure = f32_lit 0\<rparr>"

type_synonym 'a monitor = "(pressure_monitor, 'a, ghost_error) act"

definition on_mon_rt :: "'a rt \<Rightarrow> 'a monitor" where
  "on_mon_rt m = on_part mon_rt (\<lambda>r s. s\<lparr>mon_rt := r\<rparr>) m"

text \<open>The maxima of the readings and the totals of the integer fields.\<close>

definition aggregate :: "profile \<Rightarrow> pressure_state list \<Rightarrow> pressure_state ghost_result" where
  "aggregate pr ps = (case sum_pr pr 0 (map queue_depth ps) of
       Ok q \<Rightarrow> (case sum_pr pr 0 (map throughput_bps ps) of
           Ok t \<Rightarrow> Ok \<lparr>memory_pressure = foldl fmax (f32_lit 0) (map memory_pressure ps),
             vram_pressure = foldl fmax (f32_lit 0) (map vram_pressure ps),
             io_pressure = foldl fmax (f32_lit 0) (map io_pressure ps), queue_depth = q, throughput_bps = t\<rparr>
         | Err e \<Rightarrow> Err e | Panic \<Rightarrow> Panic)
     | Err e \<Rightarrow> Err e | Panic \<Rightarrow> Panic)"

definition sample_disk :: "profile \<Rightarrow> f32 monitor" where
  "sample_disk pr s = (case mon_io s of
       None \<Rightarrow> (Ok (f32_lit 0), s)
     | Some io \<Rightarrow> bind_act (lift_outcome (calculate_io_pressure pr (disk_max_queue (mon_config s)) (disk_max_latency_us (mon_config s)) io))
         (\<lambda>p. bind_act (update_act (\<lambda>s. s\<lparr>disk_io_pressure := p\<rparr>)) (\<lambda>_. ret p)) s)"

definition blend_disk :: "f32 \<Rightarrow> f32 \<Rightarrow> f32 \<Rightarrow> f32" where
  "blend_disk weight disk io = (if fgt disk (f32_lit 0)
     then fmax io (fadd binary32 (fmul binary32 disk weight) (fmul binary32 io (fsub binary32 (f32_lit 1) weight)))
     else io)"

definition ema :: "f32 \<Rightarrow> f32 \<Rightarrow> f32 \<Rightarrow> f32" where
  "ema alpha x y = fadd binary32 (fmul binary32 alpha x) (fmul binary32 (fsub binary32 (f32_lit 1) alpha) y)"

text \<open>The cast to \<^verbatim>\<open>u32\<close> truncates and saturates like the one to \<^verbatim>\<open>u64\<close>.\<close>

fun to_u32 :: "fl \<Rightarrow> u32" where
  "to_u32 (Fin x) = (if x \<le> 0 then 0 else if 2 ^ 32 \<le> x then - 1 else word_of_int \<lfloor>x\<rfloor>)"
| "to_u32 PInf = - 1"
| "to_u32 NInf = 0"
| "to_u32 NaN = 0"

definition smooth :: "f32 \<Rightarrow> pressure_state \<Rightarrow> pressure_state \<Rightarrow> pressure_state ghost_result" where
  "smooth alpha raw s = clamp \<lparr>
     memory_pressure = ema alpha (memory_pressure raw) (memory_pressure s),
     vram_pressure = ema alpha (vram_pressure raw) (vram_pressure s),
     io_pressure = ema alpha (io_pressure raw) (io_pressure s),
     queue_depth = to_u32 (ema alpha (of_word binary32 (queue_depth raw)) (of_word binary32 (queue_depth s))),
     throughput_bps = to_u64 (ema alpha (of_word binary32 (throughput_bps raw)) (of_word binary32 (throughput_bps s)))\<rparr>"

definition alert_if :: "bool \<Rightarrow> pressure_state \<Rightarrow> u64 \<Rightarrow> unit monitor" where
  "alert_if c raw ts = (if c then on_mon_rt (log_event (PressureAlert (memory_pressure raw) (vram_pressure raw) (io_pressure raw) ts))
     else ret ())"

definition announce_pressure :: "pressure_state \<Rightarrow> unit monitor" where
  "announce_pressure raw =
     (if is_critical raw then on_mon_rt (emit_event (EvBackpressureActivated 0 Ram [Lit ''critical: '', FmtFloat (max_pressure raw)]))
      else if is_under_pressure raw then on_mon_rt (emit_event (EvPressureChanged 0 Ram pressure_new raw))
      else on_mon_rt (emit_event (EvBackpressureDeactivated 0 Ram)))"

text \<open>The spike warning reads the history (which cannot fail after a push) and only logs.\<close>

definition sample_and_update :: "profile \<Rightarrow> (tier_id, pressure_state) btree \<Rightarrow> unit monitor" where
  "sample_and_update pr readings =
     bind_act (on_mon_rt now_ms) (\<lambda>ts.
     bind_act (lift_outcome (aggregate pr (map snd (bt_entries readings)))) (\<lambda>tot.
     bind_act (sample_disk pr) (\<lambda>disk s.
       let raw = tot\<lparr>io_pressure := blend_disk (disk_pressure_weight (mon_config s)) disk (io_pressure tot)\<rparr> in
       bind_act (\<lambda>s. case smooth (pm_smoothing (mon_config s)) raw (mon_smoothed s) of
           Ok v \<Rightarrow> (Ok (), s\<lparr>mon_smoothed := v\<rparr>) | Err e \<Rightarrow> (Err e, s) | Panic \<Rightarrow> (Panic, s)) (\<lambda>_.
       bind_act (on_part mon_history (\<lambda>h s. s\<lparr>mon_history := h\<rparr>)
         (ring_push \<lparr>pe_timestamp = ts, pe_global = raw, pe_per_tier = readings\<rparr>)) (\<lambda>_.
       bind_act (on_mon_rt (log_event (PressureSample raw ts))) (\<lambda>_.
       bind_act (alert_if (fgt (memory_pressure raw) (f32_lit (9 / 10))) raw ts) (\<lambda>_.
       bind_act (alert_if (fgt (vram_pressure raw) (f32_lit (9 / 10))) raw ts) (\<lambda>_.
       bind_act (alert_if (fgt (io_pressure raw) (f32_lit (9 / 10))) raw ts) (\<lambda>_.
       bind_act (\<lambda>s. (case ring_recent 2 (mon_history s) of Ok _ \<Rightarrow> Ok () | Err e \<Rightarrow> Err e | Panic \<Rightarrow> Panic, s)) (\<lambda>_.
       announce_pressure raw))))))) s)))"

section \<open>Buffers of recent items\<close>

text \<open>
  The contract of a bounded buffer: a push keeps the invariant and the capacity, and leaves the
  most recent items. Whatever is pushed, the buffer then holds the last items of the sequence.
\<close>

locale recent_buffer =
  fixes valid :: "'b \<Rightarrow> bool" and cap :: "'b \<Rightarrow> nat" and items :: "'b \<Rightarrow> 'a list"
    and push :: "'a \<Rightarrow> ('b, unit, ghost_error) act"
  assumes push_ok: "valid b \<Longrightarrow> \<exists>b'. push x b = (Ok (), b') \<and> valid b' \<and> cap b' = cap b \<and> items b' = last_n (cap b) (items b @ [x])"
    and cap_pos: "valid b \<Longrightarrow> 0 < cap b"
    and fits: "valid b \<Longrightarrow> length (items b) \<le> cap b"
begin

lemma pushes_recent:
  "valid b \<Longrightarrow> \<exists>b'. for_act push xs b = (Ok (), b') \<and> valid b' \<and> cap b' = cap b \<and> items b' = last_n (cap b) (items b @ xs)"
proof (induction xs arbitrary: b)
  case Nil
  then show ?case using fits [of b] by (simp add: ret_def last_n_def)
next
  case (Cons x xs)
  obtain b1 where b1: "push x b = (Ok (), b1)" "valid b1" "cap b1 = cap b" "items b1 = last_n (cap b) (items b @ [x])"
    using push_ok [OF Cons.prems] by blast
  have "last_n (cap b) (last_n (cap b) (items b @ [x]) @ xs) = last_n (cap b) (items b @ x # xs)"
    by (rule last_n_append) (use fits [OF Cons.prems] cap_pos [OF Cons.prems] in simp_all)
  then show ?case using Cons.IH [OF b1(2)] b1 by (auto simp: bind_act_def)
qed

end

interpretation log_buffer: recent_buffer "\<lambda>l. log_inv l \<and> 0 < max_events l" max_events log_events trace_record
  by unfold_locales (auto simp: trace_record_last_n log_inv_def last_n_def)

definition ring_inv :: "pressure_history \<Rightarrow> bool" where
  "ring_inv r \<longleftrightarrow> 0 < ring_capacity r \<and> ring_count r = length (ring_entries r) \<and> length (ring_entries r) \<le> ring_capacity r
     \<and> ring_head r < ring_capacity r \<and> (length (ring_entries r) < ring_capacity r \<longrightarrow> ring_head r = length (ring_entries r))"

definition ring_items :: "pressure_history \<Rightarrow> pressure_entry list" where
  "ring_items r = (if ring_count r < ring_capacity r then ring_entries r else drop (ring_head r) (ring_entries r) @ take (ring_head r) (ring_entries r))"

lemma ring_push_ok:
  assumes "ring_inv r"
  shows "\<exists>r'. ring_push x r = (Ok (), r') \<and> ring_inv r' \<and> ring_capacity r' = ring_capacity r
    \<and> ring_items r' = last_n (ring_capacity r) (ring_items r @ [x])"
proof (cases "length (ring_entries r) < ring_capacity r")
  case True
  let ?r = "r\<lparr>ring_entries := ring_entries r @ [x], ring_head := (ring_head r + 1) mod ring_capacity r,
              ring_count := min (ring_count r + 1) (ring_capacity r)\<rparr>"
  have "ring_push x r = (Ok (), ?r)" using True by (simp add: ring_push_def)
  moreover have "ring_inv ?r" using assms True by (auto simp: ring_inv_def mod_less)
  moreover have "ring_items ?r = last_n (ring_capacity r) (ring_items r @ [x])"
    using assms True by (cases "Suc (length (ring_entries r)) = ring_capacity r") (auto simp: ring_items_def ring_inv_def last_n_def)
  ultimately show ?thesis by auto
next
  case False
  let ?es = "ring_entries r" and ?h = "ring_head r"
  have full: "length ?es = ring_capacity r" "ring_count r = ring_capacity r" "?h < length ?es" using assms False by (auto simp: ring_inv_def)
  let ?r = "r\<lparr>ring_entries := ?es[?h := x], ring_head := (?h + 1) mod ring_capacity r, ring_count := min (ring_count r + 1) (ring_capacity r)\<rparr>"
  have "ring_push x r = (Ok (), ?r)" using False full by (simp add: ring_push_def)
  moreover have "ring_inv ?r" using assms full by (simp add: ring_inv_def)
  moreover have "ring_items ?r = last_n (ring_capacity r) (ring_items r @ [x])"
  proof -
    have up: "?es[?h := x] = take ?h ?es @ x # drop (Suc ?h) ?es" using full(3) by (rule upd_conv_take_nth_drop)
    have old: "last_n (ring_capacity r) (ring_items r @ [x]) = drop (Suc ?h) ?es @ take ?h ?es @ [x]"
      using full Cons_nth_drop_Suc [OF full(3), symmetric] by (simp add: ring_items_def last_n_def)
    show ?thesis
    proof (cases "Suc ?h = ring_capacity r")
      case True
      then show ?thesis unfolding old using full by (simp add: ring_items_def up)
    next
      case False
      then show ?thesis unfolding old using full by (simp add: ring_items_def up)
    qed
  qed
  ultimately show ?thesis by auto
qed

interpretation ring_buffer: recent_buffer ring_inv ring_capacity ring_items ring_push
  by unfold_locales (use ring_push_ok in blast, auto simp: ring_inv_def ring_items_def)

lemma ring_items_nth:
  assumes "ring_inv r" "i < ring_count r"
  shows "ring_items r ! i = ring_entries r ! (if ring_count r < ring_capacity r then i else (ring_head r + i) mod ring_capacity r)"
proof (cases "ring_head r + i < ring_capacity r")
  case False
  then have "(ring_head r + i) mod ring_capacity r = ring_head r + i - ring_capacity r"
    using assms by (subst mod_if) (auto simp: ring_inv_def)
  then show ?thesis using assms False by (auto simp: ring_items_def ring_inv_def nth_append add.commute)
qed (use assms in \<open>auto simp: ring_items_def ring_inv_def nth_append\<close>)

lemma length_ring_items: "ring_inv r \<Longrightarrow> length (ring_items r) = ring_count r"
  by (auto simp: ring_items_def ring_inv_def)

lemma ring_index_nth:
  assumes "ring_inv r" "i < ring_count r"
  shows "ring_index r i < length (ring_entries r)" "ring_entries r ! ring_index r i = ring_items r ! (ring_count r - 1 - i)"
proof -
  show "ring_index r i < length (ring_entries r)" using assms by (auto simp: ring_index_def ring_inv_def)
  have "ring_head r + ring_capacity r - 1 - i = ring_head r + (ring_count r - 1 - i)" if "\<not> ring_count r < ring_capacity r"
    using assms that by (simp add: ring_inv_def)
  then show "ring_entries r ! ring_index r i = ring_items r ! (ring_count r - 1 - i)"
    using assms by (subst ring_items_nth) (auto simp: ring_index_def)
qed

lemma ring_recent_items:
  assumes "ring_inv r"
  shows "ring_recent n r = Ok (last_n n (ring_items r))"
proof -
  let ?k = "min n (ring_count r)"
  have "rev (map ((!) (ring_entries r)) (map (ring_index r) [0..<?k])) = last_n n (ring_items r)"
  proof (rule nth_equalityI)
    show "length (rev (map ((!) (ring_entries r)) (map (ring_index r) [0..<?k]))) = length (last_n n (ring_items r))"
      using assms by (simp add: last_n_def length_ring_items)
    fix j assume "j < length (rev (map ((!) (ring_entries r)) (map (ring_index r) [0..<?k])))"
    then have j: "j < ?k" by simp
    have m: "?k - Suc j < ?k" "?k - Suc j < ring_count r" using j by linarith+
    have "rev (map ((!) (ring_entries r)) (map (ring_index r) [0..<?k])) ! j = ring_entries r ! ring_index r (?k - Suc j)"
      using j m(1) by (simp add: rev_nth)
    also have "\<dots> = ring_items r ! (ring_count r - 1 - (?k - Suc j))"
      by (rule ring_index_nth(2) [OF assms m(2)])
    also have "\<dots> = last_n n (ring_items r) ! j"
      using j assms by (auto simp: last_n_def length_ring_items min_def intro!: arg_cong [of _ _ "(!) (ring_items r)"])
    finally show "rev (map ((!) (ring_entries r)) (map (ring_index r) [0..<?k])) ! j = last_n n (ring_items r) ! j" .
  qed
  then show ?thesis using ring_index_nth(1) [OF assms] by (simp add: ring_recent_def Let_def list_all_iff)
qed

text \<open>
  C40: the ring buffer of pressure readings implements the list of the most recent ones: after any
  sequence of pushes into a new buffer of positive capacity, which never panics, \<^verbatim>\<open>recent(n)\<close> returns
  the last \<open>n\<close> of them that fit, oldest first.
\<close>

theorem ring_refines_recent:
  assumes "0 < c"
  shows "\<exists>r. for_act ring_push xs (ring_new c) = (Ok (), r) \<and> ring_recent n r = Ok (last_n (min n c) xs) \<and> ring_len r = min c (length xs)"
proof -
  have new: "ring_inv (ring_new c)" "ring_capacity (ring_new c) = c" "ring_items (ring_new c) = []"
    using assms by (simp_all add: ring_inv_def ring_new_def ring_items_def)
  obtain r where r: "for_act ring_push xs (ring_new c) = (Ok (), r)" "ring_inv r" "ring_items r = last_n c xs"
    using ring_buffer.pushes_recent [OF new(1), of xs] new by auto
  have "ring_len r = min c (length xs)" using length_ring_items [OF r(2)] by (simp add: ring_len_def r(3) last_n_def)
  moreover have "last_n n (last_n c xs) = last_n (min n c) xs" by (auto simp: last_n_def min_def intro!: arg_cong [of _ _ "\<lambda>i. drop i xs"])
  ultimately show ?thesis using r ring_recent_items [OF r(2), of n] by auto
qed

theorem ring_refines_recent_witness:
  "\<exists>r. for_act ring_push (map (\<lambda>t. \<lparr>pe_timestamp = t, pe_global = pressure_new, pe_per_tier = fmempty\<rparr>) [1, 2, 3, 4, 5]) (ring_new 3) = (Ok (), r)
    \<and> map_option (map pe_timestamp) (case ring_recent 2 r of Ok es \<Rightarrow> Some es | _ \<Rightarrow> None) = Some [4, 5]"
  using ring_refines_recent [of 3 "map (\<lambda>t. \<lparr>pe_timestamp = t, pe_global = pressure_new, pe_per_tier = fmempty\<rparr>) [1, 2, 3, 4, 5]" 2]
  by (auto simp: last_n_def simp del: for_act.simps)

section \<open>The smoothed pressure\<close>

definition nonneg_pressure :: "pressure_state \<Rightarrow> bool" where
  "nonneg_pressure p \<longleftrightarrow> fle (Fin 0) (memory_pressure p) \<and> fle (Fin 0) (vram_pressure p) \<and> fle (Fin 0) (io_pressure p)"

lemma foldl_fmax_nonneg: "fle (Fin 0) a \<Longrightarrow> fle (Fin 0) (foldl fmax a xs)"
  by (induction xs arbitrary: a) (simp_all add: fmax_ge_iff)

lemma blend_nonneg: "fle (Fin 0) io \<Longrightarrow> fle (Fin 0) (blend_disk w d io)"
  by (simp add: blend_disk_def fmax_ge_iff)

lemma sum_pr_Release: "\<exists>v. sum_pr Release acc xs = Ok v"
  by (induction xs arbitrary: acc) (simp_all add: add_pr_def checked_def)

lemma aggregate_Release: "\<exists>p. aggregate Release ps = Ok p \<and> nonneg_pressure p"
  using sum_pr_Release [of 0 "map queue_depth ps"] sum_pr_Release [of 0 "map throughput_bps ps"]
  by (auto simp: aggregate_def nonneg_pressure_def foldl_fmax_nonneg)

text \<open>Smoothing a non-negative reading, infinite or not, never yields NaN, so that clamping applies.\<close>

lemma ema_nonneg:
  assumes "0 < a" "a \<le> 1" "fle (Fin 0) x" "in_unit y"
  shows "fle (Fin 0) (ema (Fin a) x y)"
proof -
  have "in_unit (fsub binary32 (Fin 1) (Fin a))" using assms(1,2) by (simp add: fsub_def rnd_in_unit)
  then have "in_unit (fmul binary32 (fsub binary32 (Fin 1) (Fin a)) y)" using assms(4) by (intro mul_in_unit) simp_all
  moreover have "fle (Fin 0) (fmul binary32 (Fin a) x)"
    using assms(1,3) by (cases x) (auto simp: signed_inf_def intro!: rnd_nonneg)
  ultimately show ?thesis unfolding ema_def f32_1 by (intro fadd_nonneg) (simp_all add: in_unit_def)
qed

lemma smooth_unit:
  assumes "0 < a" "a \<le> 1" "nonneg_pressure raw" "unit_pressure s"
  shows "\<exists>v. smooth (Fin a) raw s = Ok v \<and> unit_pressure v"
proof -
  have "in_unit (clamp01 (ema (Fin a) x y))" if "fle (Fin 0) x" "in_unit y" for x y
    using ema_nonneg [OF assms(1,2) that] by (intro clamp01_in_unit) auto
  then show ?thesis using assms(3,4)
    by (auto simp: smooth_def clamp_def fclamp_clamp01 unit_pressure_def nonneg_pressure_def)
qed

definition mon_ok :: "rat \<Rightarrow> nat \<Rightarrow> nat \<Rightarrow> pressure_monitor \<Rightarrow> bool" where
  "mon_ok a n k s \<longleftrightarrow> rt_ok (mon_rt s) \<and> ring_inv (mon_history s) \<and> ring_capacity (mon_history s) = n
     \<and> ring_len (mon_history s) = min n k \<and> unit_pressure (mon_smoothed s) \<and> in_unit (disk_io_pressure s)
     \<and> pm_smoothing (mon_config s) = Fin a"

lemma on_mon_rt_rule: "triple rt_ok m (\<lambda>_. rt_ok) \<Longrightarrow> triple (mon_ok a n k) (on_mon_rt m) (\<lambda>_. mon_ok a n k)"
  unfolding triple_def on_mon_rt_def on_part_def mon_ok_def by fastforce

lemma mon_rt_rules:
  "triple (mon_ok a n k) (on_mon_rt now_ms) (\<lambda>_. mon_ok a n k)"
  "triple (mon_ok a n k) (on_mon_rt (log_event ev)) (\<lambda>_. mon_ok a n k)"
  "triple (mon_ok a n k) (on_mon_rt (emit_event evt)) (\<lambda>_. mon_ok a n k)"
  by (intro on_mon_rt_rule rt_triples)+

lemma sample_disk_rule: "triple (mon_ok a n k) (sample_disk Release) (\<lambda>_. mon_ok a n k)"
proof (rule tripleI)
  fix s assume ok: "mon_ok a n k s"
  show "\<exists>v s'. sample_disk Release s = (Ok v, s') \<and> mon_ok a n k s'"
  proof (cases "mon_io s")
    case (Some io)
    let ?c = "calculate_io_pressure Release (disk_max_queue (mon_config s)) (disk_max_latency_us (mon_config s)) io"
    obtain p where "?c = Ok p \<and> in_unit p"
      using io_pressure_unit io_pressure_result [of Release] by (cases ?c) auto
    then show ?thesis using Some ok by (auto simp: sample_disk_def act_defs mon_ok_def)
  qed (use ok in \<open>simp add: sample_disk_def\<close>)
qed

lemma push_rule: "triple (mon_ok a n k) (on_part mon_history (\<lambda>h s. s\<lparr>mon_history := h\<rparr>) (ring_push x)) (\<lambda>_. mon_ok a n (Suc k))"
proof (rule tripleI)
  fix s assume ok: "mon_ok a n k s"
  then have inv: "ring_inv (mon_history s)" by (simp add: mon_ok_def)
  obtain r where "ring_push x (mon_history s) = (Ok (), r)" "ring_inv r" "ring_capacity r = ring_capacity (mon_history s)"
    "ring_items r = last_n (ring_capacity (mon_history s)) (ring_items (mon_history s) @ [x])" using ring_push_ok [OF inv] by blast
  then show "\<exists>v s'. on_part mon_history (\<lambda>h s. s\<lparr>mon_history := h\<rparr>) (ring_push x) s = (Ok v, s') \<and> mon_ok a n (Suc k) s'"
    using ok length_ring_items [of r] length_ring_items [OF inv] by (auto simp: on_part_def mon_ok_def ring_len_def last_n_def)
qed

lemma alert_rule: "triple (mon_ok a n k) (alert_if c raw ts) (\<lambda>_. mon_ok a n k)"
  unfolding alert_if_def by (intro triple_if mon_rt_rules triple_ret)

lemma announce_rule: "triple (mon_ok a n k) (announce_pressure raw) (\<lambda>_. mon_ok a n k)"
  unfolding announce_pressure_def by (intro triple_if mon_rt_rules)

lemma spike_rule: "triple (mon_ok a n k) (\<lambda>s. (case ring_recent 2 (mon_history s) of Ok _ \<Rightarrow> Ok () | Err e \<Rightarrow> Err e | Panic \<Rightarrow> Panic, s)) (\<lambda>_. mon_ok a n k)"
  by (rule tripleI) (simp add: ring_recent_items mon_ok_def)

lemma smooth_rule:
  assumes "0 < a" "a \<le> 1" "nonneg_pressure raw"
  shows "triple (mon_ok a n k) (\<lambda>s. case smooth (pm_smoothing (mon_config s)) raw (mon_smoothed s) of
           Ok v \<Rightarrow> (Ok (), s\<lparr>mon_smoothed := v\<rparr>) | Err e \<Rightarrow> (Err e, s) | Panic \<Rightarrow> (Panic, s)) (\<lambda>_. mon_ok a n k)"
proof (rule tripleI)
  fix s assume ok: "mon_ok a n k s"
  then obtain v where "smooth (Fin a) raw (mon_smoothed s) = Ok v" "unit_pressure v"
    using smooth_unit [OF assms] by (auto simp: mon_ok_def)
  with ok show "\<exists>v s'. (case smooth (pm_smoothing (mon_config s)) raw (mon_smoothed s) of
           Ok v \<Rightarrow> (Ok (), s\<lparr>mon_smoothed := v\<rparr>) | Err e \<Rightarrow> (Err e, s) | Panic \<Rightarrow> (Panic, s)) = (Ok v, s') \<and> mon_ok a n k s'"
    by (auto simp: mon_ok_def)
qed

lemma sample_rule:
  assumes "0 < a" "a \<le> 1"
  shows "triple (mon_ok a n k) (sample_and_update Release readings) (\<lambda>_. mon_ok a n (Suc k))"
proof -
  obtain tot where tot: "aggregate Release (map snd (bt_entries readings)) = Ok tot" "nonneg_pressure tot" using aggregate_Release by blast
  have raw: "nonneg_pressure (tot\<lparr>io_pressure := blend_disk w d (io_pressure tot)\<rparr>)" for w d
    using tot(2) by (simp add: nonneg_pressure_def blend_nonneg)
  show ?thesis
    unfolding sample_and_update_def tot(1) Let_def
    by (rule triple_bind [OF mon_rt_rules(1)],
        rule triple_bind [of _ _ "\<lambda>v s. v = tot \<and> mon_ok a n k s"], simp add: triple_def lift_outcome_def, rule triple_fact, simp,
        rule triple_bind [OF sample_disk_rule], rule triple_at,
        intro triple_bind [OF smooth_rule [OF assms raw]] triple_bind [OF push_rule] triple_bind [OF mon_rt_rules(2)]
          triple_bind [OF alert_rule] triple_bind [OF spike_rule] announce_rule)
qed

text \<open>
  The pressure monitor never fails in the release profile, and whatever the backends report
  (NaN, infinite, negative or oversized readings included) the smoothed pressures and the disk
  pressure are numbers of the unit interval after any number of samples, for every smoothing
  factor in \<open>(0, 1]\<close>. The history then holds as many samples as fit.
\<close>

theorem monitor_in_unit:
  assumes "pm_smoothing c = Fin a" "0 < a" "a \<le> 1" "0 < n" "rt_ok rt"
  shows "\<exists>s. for_act (sample_and_update Release) rounds ((monitor_new c n rt)\<lparr>mon_io := io\<rparr>) = (Ok (), s)
    \<and> unit_pressure (mon_smoothed s) \<and> in_unit (disk_io_pressure s) \<and> ring_len (mon_history s) = min n (length rounds)"
proof -
  have "triple (mon_ok a n 0) (for_act (sample_and_update Release) rounds) (\<lambda>_. mon_ok a n (length rounds))"
    using for_rule [of "[]" rounds "\<lambda>seen. mon_ok a n (length seen)" "sample_and_update Release"] sample_rule [OF assms(2,3)] by simp
  moreover have "mon_ok a n 0 ((monitor_new c n rt)\<lparr>mon_io := io\<rparr>)"
    using assms by (simp add: mon_ok_def monitor_new_def ring_new_def ring_inv_def ring_len_def unit_pressure_def pressure_new_def)
  ultimately obtain s where "for_act (sample_and_update Release) rounds ((monitor_new c n rt)\<lparr>mon_io := io\<rparr>) = (Ok (), s)"
      "mon_ok a n (length rounds) s"
    by (auto dest!: tripleD)
  then show ?thesis by (auto simp: mon_ok_def)
qed

definition odd_reading :: pressure_state where
  "odd_reading = \<lparr>memory_pressure = NaN, vram_pressure = PInf, io_pressure = Fin (- 3), queue_depth = 7, throughput_bps = 9\<rparr>"

theorem monitor_in_unit_witness:
  "\<exists>s. for_act (sample_and_update Release) [fmupd Ram odd_reading fmempty, fmempty]
      ((monitor_new (pressure_monitor_config_default\<lparr>pm_smoothing := Fin (1 / 4)\<rparr>) 10 (ht_rt demo_tracker))\<lparr>mon_io := Some io_metrics_new\<rparr>) = (Ok (), s)
    \<and> unit_pressure (mon_smoothed s) \<and> ring_len (mon_history s) = 2"
proof -
  have "rt_ok (ht_rt demo_tracker)" by (simp add: demo_tracker_def rt_ok_def trace_log_new_def log_inv_def)
  from monitor_in_unit [OF _ _ _ _ this, of "pressure_monitor_config_default\<lparr>pm_smoothing := Fin (1 / 4)\<rparr>" "1 / 4" 10
      "[fmupd Ram odd_reading fmempty, fmempty]" "Some io_metrics_new"]
  show ?thesis by auto
qed

end
