(* ===== verification/Step_Order.thy ===== *)
theory Step_Order
  imports Triples
begin

text \<open>
  \<open>errs_with P m e Q\<close> is the counterpart of a triple for steps that fail. What a step may do to the state: \<open>moves R m\<close> says that the new state is related to the old one,
  whether the step returns, fails or panics. For a preorder the relation carries through every
  way of building steps, and through runs.
\<close>

definition errs_with :: "('s \<Rightarrow> bool) \<Rightarrow> ('s, 'a, 'e) act \<Rightarrow> 'e \<Rightarrow> ('s \<Rightarrow> bool) \<Rightarrow> bool" where
  "errs_with P m e Q \<longleftrightarrow> (\<forall>s. P s \<longrightarrow> (\<exists>s'. m s = (Err e, s') \<and> Q s'))"

lemma errs_withD: "errs_with P m e Q \<Longrightarrow> P s \<Longrightarrow> \<exists>s'. m s = (Err e, s') \<and> Q s'"
  by (simp add: errs_with_def)

lemma errs_bind: "triple P m R \<Longrightarrow> (\<And>a. errs_with (R a) (f a) e Q) \<Longrightarrow> errs_with P (bind_act m f) e Q"
  unfolding triple_def errs_with_def by (fastforce simp: bind_act_def)

definition moves :: "('s \<Rightarrow> 's \<Rightarrow> bool) \<Rightarrow> ('s, 'a, 'e) act \<Rightarrow> bool" where
  "moves R m \<longleftrightarrow> (\<forall>s. R s (snd (m s)))"

lemma movesD: "moves R m \<Longrightarrow> R s (snd (m s))"
  by (simp add: moves_def)

lemma moves_keeps: "keeps c m \<Longrightarrow> (\<And>s t. c s = c t \<Longrightarrow> R s t) \<Longrightarrow> moves R m"
  by (simp add: moves_def keeps_def)

text \<open>A fact that holds after the step however it ends.\<close>

definition stays :: "('s \<Rightarrow> bool) \<Rightarrow> ('s, 'a, 'e) act \<Rightarrow> ('s \<Rightarrow> bool) \<Rightarrow> bool" where
  "stays P m Q \<longleftrightarrow> (\<forall>s. P s \<longrightarrow> Q (snd (m s)))"

lemma staysD: "stays P m Q \<Longrightarrow> P s \<Longrightarrow> Q (snd (m s))"
  by (simp add: stays_def)

lemma stays_bind: "stays P m R \<Longrightarrow> (\<And>a. stays R (f a) Q) \<Longrightarrow> (\<And>s. R s \<Longrightarrow> Q s) \<Longrightarrow> stays P (bind_act m f) Q"
  unfolding stays_def bind_act_def by (auto split: prod.splits outcome.splits)

lemma stays_keeps: "keeps c m \<Longrightarrow> stays (\<lambda>s. C (c s)) m (\<lambda>s. C (c s))"
  by (simp add: stays_def keeps_def)

lemma stays_weaken: "stays P' m Q' \<Longrightarrow> (\<And>s. P s \<Longrightarrow> P' s) \<Longrightarrow> (\<And>s. Q' s \<Longrightarrow> Q s) \<Longrightarrow> stays P m Q"
  by (simp add: stays_def)

locale step_preorder =
  fixes R :: "'s \<Rightarrow> 's \<Rightarrow> bool"
  assumes R_refl: "R s s" and R_trans: "R s t \<Longrightarrow> R t u \<Longrightarrow> R s u"
begin

lemma moves_bind: "moves R m \<Longrightarrow> (\<And>a. moves R (f a)) \<Longrightarrow> moves R (bind_act m f)"
  unfolding moves_def bind_act_def by (auto split: prod.splits outcome.splits) (metis R_trans snd_conv)+

lemma moves_const: "(\<And>s. snd (m s) = s) \<Longrightarrow> moves R m"
  by (simp add: moves_def R_refl)

lemma moves_ret: "moves R (ret a)" and moves_fail: "moves R (fail e)" and moves_lift: "moves R (lift_outcome r)"
  by (simp_all add: moves_const ret_def fail_def lift_outcome_def)

lemma moves_if: "moves R m \<Longrightarrow> moves R m' \<Longrightarrow> moves R (if c then m else m')"
  by simp

lemma moves_option: "moves R m \<Longrightarrow> (\<And>x. moves R (f x)) \<Longrightarrow> moves R (case v of None \<Rightarrow> m | Some x \<Rightarrow> f x)"
  by (cases v) simp_all

lemma moves_sum: "(\<And>x. moves R (f x)) \<Longrightarrow> (\<And>x. moves R (g x)) \<Longrightarrow> moves R (case v of Inl x \<Rightarrow> f x | Inr x \<Rightarrow> g x)"
  by (cases v) simp_all

lemma moves_catch: "moves R m \<Longrightarrow> moves R (catch_act m)"
  unfolding moves_def catch_act_def by (auto split: prod.splits outcome.splits) (metis snd_conv)+

lemma moves_state: "(\<And>s. moves R (m s)) \<Longrightarrow> moves R (\<lambda>s. m s s)"
  by (simp add: moves_def)

lemma moves_filter_map: "(\<And>x. moves R (f x)) \<Longrightarrow> moves R (filter_map_act f xs)"
  by (induction xs) (auto intro!: moves_bind moves_ret)

lemma moves_for: "(\<And>x. moves R (f x)) \<Longrightarrow> moves R (for_act f xs)"
  by (induction xs) (auto intro!: moves_bind moves_ret)

lemmas moves_rules = moves_bind moves_ret moves_fail moves_lift moves_if moves_option moves_sum moves_catch moves_filter_map moves_for

end

end
