(* ===== verification/Orchestrator.thy ===== *)
theory Orchestrator
  imports Migration Metrics Worker Transfer_Queue Step_Order
begin

text \<open>
  \<^verbatim>\<open>ghost-daemon/src/orchestrator.rs\<close>: the public operations of the daemon over the shared state
  machine, queue, engine, metrics and log, and the background work on them (completion reports of
  the workers, rounds of auto-migration). The engine's state holds the state machine, the hotness
  tracker and the runtime with the trace log; the queue shares that log (\<open>on_queue\<close>). The
  orchestrator's emitter is its own: the engine gets none. \<open>o_pressure\<close> is the value of the
  pressure channel. The build is the default one, without \<^verbatim>\<open>runtime-invariants\<close>. The state machine is
  behind a \<^verbatim>\<open>std::sync::Mutex\<close>: \<open>locked\<close> is the scope of its guard, which panics on a poisoned mutex and
  poisons it when the scope panics.
\<close>

section \<open>Configuration and state\<close>

record orchestrator_config =
  queue_capacity_cfg :: usize
  worker_count_cfg :: usize
  max_retries_cfg :: u32
  retry_base_delay_cfg :: u64
  max_retry_delay_cfg :: u64
  enable_compression_cfg :: bool
  trace_max_events :: usize
  shutdown_timeout_secs :: u64
  pressure_sample_interval_ms :: u64
  pressure_smoothing_factor :: f32
  auto_migration_interval_ms :: u64
  pressure_history_size :: usize
  enable_auto_migration :: bool
  deterministic_mode :: bool
  rng_seed :: "u64 option"

definition orchestrator_config_default :: orchestrator_config where
  "orchestrator_config_default = \<lparr>queue_capacity_cfg = 1024, worker_count_cfg = 4, max_retries_cfg = 3,
     retry_base_delay_cfg = 1000, max_retry_delay_cfg = 30000, enable_compression_cfg = True, trace_max_events = 10000,
     shutdown_timeout_secs = 30, pressure_sample_interval_ms = 1000, pressure_smoothing_factor = f32_lit (3 / 10),
     auto_migration_interval_ms = 5000, pressure_history_size = 256, enable_auto_migration = True,
     deterministic_mode = False, rng_seed = Some 42\<rparr>"

record orchestrator =
  o_config :: orchestrator_config
  o_engine :: migration_engine
  o_queue :: transfer_queue
  o_metrics :: transfer_metrics
  o_bp :: backpressure_controller
  o_emitter :: "emitter option"
  o_pressure :: pressure_state
  o_started :: bool

record orchestrator_status =
  st_queue_depth :: usize
  st_queue_full :: bool
  st_active_workers :: u64
  st_jobs_submitted :: u64
  st_jobs_completed :: u64
  st_jobs_failed :: u64
  st_jobs_cancelled :: u64
  st_bytes_transferred :: u64
  st_total_transfer_time_ms :: u64
  st_trace_event_count :: nat
  st_shutting_down :: bool

type_synonym 'a orch = "(orchestrator, 'a, ghost_error) act"

abbreviation o_rt :: "orchestrator \<Rightarrow> runtime" where
  "o_rt s \<equiv> engine_rt (o_engine s)"

abbreviation o_sm :: "orchestrator \<Rightarrow> state_machine" where
  "o_sm s \<equiv> mg_sm (o_engine s)"

definition on_engine :: "'a engine \<Rightarrow> 'a orch" where
  "on_engine m = on_part o_engine (\<lambda>e s. s\<lparr>o_engine := e\<rparr>) m"

definition on_o_rt :: "'a rt \<Rightarrow> 'a orch" where
  "on_o_rt m = on_engine (on_mg_rt m)"

definition on_sm :: "(state_machine \<Rightarrow> 'a ghost_result \<times> state_machine) \<Rightarrow> 'a orch" where
  "on_sm m = on_engine (on_part mg_sm (\<lambda>sm e. e\<lparr>mg_sm := sm\<rparr>) m)"

abbreviation o_poisoned :: "orchestrator \<Rightarrow> bool" where
  "o_poisoned s \<equiv> mg_poisoned (o_engine s)"

definition poison :: "orchestrator \<Rightarrow> orchestrator" where
  "poison s = s\<lparr>o_engine := (o_engine s)\<lparr>mg_poisoned := True\<rparr>\<rparr>"

text \<open>The scope of \<^verbatim>\<open>let sm = self.state_machine.lock().unwrap()\<close>.\<close>

definition locked :: "'a orch \<Rightarrow> 'a orch" where
  "locked m s = (if o_poisoned s then (Panic, s) else (case m s of (r, s') \<Rightarrow>
     (case r of Panic \<Rightarrow> (Panic, poison s') | _ \<Rightarrow> (r, s'))))"

text \<open>The queue records into the shared log; its own field of the log is not used.\<close>

definition on_queue :: "(transfer_queue, 'a, ghost_error) act \<Rightarrow> 'a orch" where
  "on_queue m s = (case m ((o_queue s)\<lparr>queue_log := rt_log (o_rt s)\<rparr>) of
     (a, q) \<Rightarrow> (a, s\<lparr>o_queue := q\<lparr>queue_log := queue_log (o_queue s)\<rparr>, o_engine := with_rt ((o_rt s)\<lparr>rt_log := queue_log q\<rparr>) (o_engine s)\<rparr>))"

definition o_emit :: "event \<Rightarrow> unit orch" where
  "o_emit ev s = (case o_emitter s of
       None \<Rightarrow> (Ok (), s)
     | Some em \<Rightarrow> let r = o_rt s in
         (Ok (), s\<lparr>o_emitter := Some (snd (try_emit (room_at r (ticks r)) (secs_at r (ticks r)) ev em)),
                   o_engine := with_rt (tick r) (o_engine s)\<rparr>))"

definition new_job :: "instant \<Rightarrow> chunk_id \<Rightarrow> tier_id \<Rightarrow> tier_id \<Rightarrow> usize \<Rightarrow> transfer_priority \<Rightarrow> transfer_job orch" where
  "new_job inst cid f t sz p =
     on_o_rt (\<lambda>r. (Ok (transfer_job_new (secs_at r (ticks r)) inst cid f t sz p), tick r))"

section \<open>Operations\<close>

definition submit_job :: "profile \<Rightarrow> transfer_job \<Rightarrow> unit orch" where
  "submit_job pr job =
     bind_act (update_act (\<lambda>s. s\<lparr>o_metrics := record_submission (o_metrics s)\<rparr>)) (\<lambda>_.
     bind_act (on_o_rt (log_now (TransferStarted job))) (\<lambda>_.
     bind_act (on_o_rt now_ms) (\<lambda>ts. on_queue (submit pr ts job))))"

definition set_state :: "profile \<Rightarrow> chunk_id \<Rightarrow> chunk_state \<Rightarrow> unit orch" where
  "set_state pr cid st = bind_act (on_sm (\<lambda>sm. transition pr sm cid st)) (\<lambda>_. ret ())"

definition store_register :: "profile \<Rightarrow> chunk_id \<Rightarrow> unit orch" where
  "store_register pr cid = locked (\<lambda>s. case get_state (o_sm s) cid of
       None \<Rightarrow> bind_act (on_sm (\<lambda>sm. register sm cid)) (\<lambda>_. set_state pr cid Stored) s
     | Some Allocated \<Rightarrow> set_state pr cid Stored s
     | Some Evicted \<Rightarrow> set_state pr cid Stored s
     | Some Cached \<Rightarrow> set_state pr cid Stored s
     | Some st \<Rightarrow> fail (InvalidStateTransition (debug_chunk_state st) ''Stored'') s)"

definition store :: "profile \<Rightarrow> instant \<Rightarrow> chunk_id \<Rightarrow> tier_id \<Rightarrow> bytes \<Rightarrow> unit orch" where
  "store pr inst cid tier data =
     bind_act (store_register pr cid) (\<lambda>_.
     bind_act (on_o_rt (log_now (ChunkCreated cid (of_nat (length data)) tier))) (\<lambda>_.
     bind_act (o_emit (EvStore 0 [FmtChunk cid] (of_nat (length data)))) (\<lambda>_.
     bind_act (new_job inst cid tier tier (of_nat (length data)) Normal) (\<lambda>job.
     submit_job pr job))))"

definition check_readable :: "chunk_id \<Rightarrow> unit orch" where
  "check_readable cid = locked (\<lambda>s. case get_state (o_sm s) cid of
       Some Stored \<Rightarrow> (Ok (), s)
     | Some Cached \<Rightarrow> (Ok (), s)
     | Some Migrating \<Rightarrow> fail (Internal [Lit ''chunk '', FmtChunk cid, Lit '' is currently migrating'']) s
     | Some st \<Rightarrow> fail (InvalidStateTransition (debug_chunk_state st) ''Readable'') s
     | None \<Rightarrow> fail (ChunkNotFound [FmtChunk cid]) s)"

definition retrieve :: "profile \<Rightarrow> instant \<Rightarrow> chunk_id \<Rightarrow> tier_id \<Rightarrow> unit orch" where
  "retrieve pr inst cid tier =
     bind_act (check_readable cid) (\<lambda>_.
     bind_act (o_emit (EvRetrieve 0 [FmtChunk cid] True)) (\<lambda>_.
     bind_act (new_job inst cid tier tier 0 High) (\<lambda>job.
     submit_job pr job)))"

definition begin_migration :: "profile \<Rightarrow> chunk_id \<Rightarrow> unit orch" where
  "begin_migration pr cid = locked (\<lambda>s. case get_state (o_sm s) cid of
       Some Stored \<Rightarrow> set_state pr cid Migrating s
     | Some Cached \<Rightarrow> set_state pr cid Migrating s
     | Some Failed \<Rightarrow> bind_act (set_state pr cid Stored) (\<lambda>_. set_state pr cid Migrating) s
     | Some Allocated \<Rightarrow> bind_act (set_state pr cid Stored) (\<lambda>_. set_state pr cid Migrating) s
     | Some st \<Rightarrow> fail (InvalidStateTransition (debug_chunk_state st) ''Migrating'') s
     | None \<Rightarrow> fail (ChunkNotFound [FmtChunk cid]) s)"

definition migrate :: "profile \<Rightarrow> instant \<Rightarrow> chunk_id \<Rightarrow> tier_id \<Rightarrow> tier_id \<Rightarrow> usize \<Rightarrow> unit orch" where
  "migrate pr inst cid f t sz =
     bind_act (begin_migration pr cid) (\<lambda>_.
     bind_act (new_job inst cid f t sz (if sz > 1024 * 1024 then Normal else High)) (\<lambda>job.
     bind_act (o_emit (EvMigrationDecision 0 cid f t [Lit ''started''])) (\<lambda>_.
     bind_act (o_emit (EvMigrationStarted 0 cid f t)) (\<lambda>_.
     submit_job pr job))))"

definition mark_evicted :: "profile \<Rightarrow> chunk_id \<Rightarrow> unit orch" where
  "mark_evicted pr cid = locked (\<lambda>s. case get_state (o_sm s) cid of
       Some Stored \<Rightarrow> set_state pr cid Evicted s
     | Some Cached \<Rightarrow> set_state pr cid Evicted s
     | Some st \<Rightarrow> fail (InvalidStateTransition (debug_chunk_state st) ''Evicted'') s
     | None \<Rightarrow> fail (ChunkNotFound [FmtChunk cid]) s)"

definition evict :: "profile \<Rightarrow> chunk_id \<Rightarrow> tier_id \<Rightarrow> unit orch" where
  "evict pr cid tier =
     bind_act (mark_evicted pr cid) (\<lambda>_.
     bind_act (on_o_rt (log_now (ChunkStateChanged cid Stored Evicted))) (\<lambda>_.
     bind_act (on_o_rt (log_now (Eviction cid tier Manual))) (\<lambda>_.
     o_emit (EvEviction 0 cid tier [Lit ''manual'']))))"

definition status :: "orchestrator \<Rightarrow> orchestrator_status" where
  "status s = \<lparr>st_queue_depth = depth (o_queue s), st_queue_full = is_full (o_queue s),
     st_active_workers = metrics_active_workers (o_metrics s), st_jobs_submitted = jobs_submitted (o_metrics s),
     st_jobs_completed = jobs_completed (o_metrics s), st_jobs_failed = jobs_failed (o_metrics s),
     st_jobs_cancelled = jobs_cancelled (o_metrics s), st_bytes_transferred = bytes_transferred (o_metrics s),
     st_total_transfer_time_ms = total_transfer_time_ms (o_metrics s), st_trace_event_count = trace_len (rt_log (o_rt s)),
     st_shutting_down = is_shutdown (o_queue s)\<rparr>"

definition current_pressure :: "orchestrator \<Rightarrow> pressure_state" where
  "current_pressure s = o_pressure s"

definition candidate_of :: "pressure_state \<Rightarrow> chunk_id \<Rightarrow> (chunk_id \<times> tier_id \<times> tier_id) option orch" where
  "candidate_of p cid =
     bind_act (on_engine (ask_policy (\<lambda>pol clk. should_migrate pol clk (minimal_meta cid 0 0 0) Ram p))) (\<lambda>t. case t of
       Some target \<Rightarrow> bind_act (on_o_rt (log_now (PolicyDecision cid Ram target [Lit ''memory_pressure'']))) (\<lambda>_.
         ret (Some (cid, Ram, target)))
     | None \<Rightarrow> bind_act (on_o_rt (log_now (PolicyDecision cid Ram Ram [Lit ''policy_rejected'']))) (\<lambda>_. ret None))"

definition find_migration_candidates :: "pressure_state \<Rightarrow> (chunk_id \<times> tier_id \<times> tier_id) list orch" where
  "find_migration_candidates p s = (if fgt (memory_pressure p) (f32_lit (7 / 10))
     then locked (\<lambda>s. filter_map_act (candidate_of p) (chunks_in_state (o_sm s) Stored) s) s
     else (Ok [], s))"

definition run_pressure_check :: "(chunk_id \<times> tier_id \<times> tier_id) list orch" where
  "run_pressure_check s = (if \<not> is_under_pressure (current_pressure s) then (Ok [], s)
     else find_migration_candidates (current_pressure s) s)"

definition start :: "unit orch" where
  "start = bind_act (update_act (\<lambda>s. s\<lparr>o_started := True\<rparr>)) (\<lambda>_. on_o_rt (log_now DaemonStarted))"

text \<open>
  \<open>receivers\<close>: some background task still listens to the shutdown signal. The wait for the queue
  to drain changes nothing and is left out.
\<close>

definition shutdown :: "bool \<Rightarrow> unit orch" where
  "shutdown receivers =
     bind_act (on_o_rt (log_now DaemonStopping)) (\<lambda>_.
     bind_act (update_act (\<lambda>s. s\<lparr>o_queue := queue_shutdown (o_queue s)\<rparr>)) (\<lambda>_ s.
     if o_started s
     then (if receivers then (Ok (), s\<lparr>o_started := False\<rparr>)
           else fail (Internal [Lit ''shutdown signal already sent'']) (s\<lparr>o_started := False\<rparr>))
     else (Ok (), s)))"

section \<open>Background work\<close>

text \<open>
  A worker's report: \<^verbatim>\<open>let _ =\<close> drops the error of the transition but not a panic, and the guard is
  held until the event is recorded.
\<close>

definition handle_completion :: "profile \<Rightarrow> worker_completion \<Rightarrow> unit orch" where
  "handle_completion pr c =
     (let to = (if wc_success c then Stored else Failed) in
      locked (bind_act (catch_act (set_state pr (wc_chunk_id c) to)) (\<lambda>_.
      on_o_rt (log_event (ChunkStateChanged (wc_chunk_id c) Migrating to (wc_timestamp c))))))"

definition on_bp :: "'a bp \<Rightarrow> 'a orch" where
  "on_bp m = on_part o_bp (\<lambda>b s. s\<lparr>o_bp := b\<rparr>) m"

fun submit_candidates :: "profile \<Rightarrow> instant \<Rightarrow> pending_migration list \<Rightarrow> unit orch" where
  "submit_candidates pr inst [] = ret ()"
| "submit_candidates pr inst (m # ms) =
     bind_act (on_bp (should_allow pr (pm_priority m))) (\<lambda>ok.
       if \<not> ok then submit_candidates pr inst ms
       else (\<lambda>s. if \<not> has_capacity (o_engine s) then (Ok (), s)
         else bind_act (new_job inst (pm_chunk m) (pm_from m) (pm_to m) (pm_size m) (pm_priority m)) (\<lambda>job.
              bind_act (catch_act (bind_act (on_o_rt now_ms) (\<lambda>ts. on_queue (submit_priority pr ts job)))) (\<lambda>r.
              bind_act (case r of Inl _ \<Rightarrow> ret () | Inr _ \<Rightarrow> on_engine (mark_active (pm_chunk m))) (\<lambda>_.
              submit_candidates pr inst ms))) s))"

definition auto_migration_round :: "profile \<Rightarrow> (f64 \<Rightarrow> f64) \<Rightarrow> instant \<Rightarrow> unit orch" where
  "auto_migration_round pr expo inst s =
     bind_act (on_engine (evaluate_migrations pr (current_pressure s))) (\<lambda>ms.
     bind_act (submit_candidates pr inst ms) (\<lambda>_.
     on_engine (on_part mg_hotness (\<lambda>h e. e\<lparr>mg_hotness := h\<rparr>) (decay_all expo)))) s"

section \<open>The lock\<close>

lemma poison_simps [simp]:
  "o_sm (poison s) = o_sm s" "o_poisoned (poison s)" "o_queue (poison s) = o_queue s" "o_metrics (poison s) = o_metrics s"
  "o_rt (poison s) = o_rt s"
  by (simp_all add: poison_def)

lemma locked_eq:
  "\<not> o_poisoned s \<Longrightarrow> m s = (r, s') \<Longrightarrow> locked m s = (r, case r of Panic \<Rightarrow> poison s' | _ \<Rightarrow> s')"
  by (simp add: locked_def split: outcome.split)

lemma locked_closed [simp]: "o_poisoned s \<Longrightarrow> locked m s = (Panic, s)"
  by (simp add: locked_def)

lemma locked_state: "snd (locked m s) = s \<or> snd (locked m s) = snd (m s) \<or> snd (locked m s) = poison (snd (m s))"
  by (auto simp: locked_def split: prod.split outcome.split)

lemma keeps_locked: "keeps c m \<Longrightarrow> (\<And>s. c (poison s) = c s) \<Longrightarrow> keeps c (locked m)"
  unfolding keeps_def using locked_state [of m] by (metis (full_types))

section \<open>Steps up to the runtime and the emitter\<close>

definition o_upto :: "orchestrator \<Rightarrow> orchestrator \<Rightarrow> bool" where
  "o_upto s0 s \<longleftrightarrow> rt_ok (o_rt s) \<and> o_engine s = with_rt (o_rt s) (o_engine s0) \<and> o_config s = o_config s0 \<and> o_queue s = o_queue s0
     \<and> o_metrics s = o_metrics s0 \<and> o_bp s = o_bp s0 \<and> o_pressure s = o_pressure s0 \<and> o_started s = o_started s0"

lemma o_upto_refl: "rt_ok (o_rt s) \<Longrightarrow> o_upto s s"
  by (simp add: o_upto_def)

lemma o_upto_rt: "o_upto s0 s \<Longrightarrow> rt_ok r \<Longrightarrow> o_upto s0 (s\<lparr>o_engine := with_rt r (o_engine s)\<rparr>)"
  by (simp add: o_upto_def) (metis with_rt_simps(12))

lemma o_upto_sm: "o_upto s0 s \<Longrightarrow> o_sm s = o_sm s0"
  by (auto simp: o_upto_def dest!: arg_cong [of _ _ mg_sm])

lemma o_upto_poisoned: "o_upto s0 s \<Longrightarrow> o_poisoned s = o_poisoned s0"
  by (auto simp: o_upto_def dest!: arg_cong [of _ _ mg_poisoned])

lemma on_o_rt_eq: "on_o_rt m s = (case m (o_rt s) of (a, r) \<Rightarrow> (a, s\<lparr>o_engine := with_rt r (o_engine s)\<rparr>))"
  by (simp add: on_o_rt_def on_engine_def on_part_def on_mg_rt_def with_rt_def split: prod.split)

lemma on_o_rt_rule: "triple rt_ok m (\<lambda>_. rt_ok) \<Longrightarrow> triple (o_upto s0) (on_o_rt m) (\<lambda>_. o_upto s0)"
proof (rule tripleI)
  fix s assume m: "triple rt_ok m (\<lambda>_. rt_ok)" and up: "o_upto s0 s"
  then obtain a r where "m (o_rt s) = (Ok a, r)" "rt_ok r" using tripleD [OF m, of "o_rt s"] by (auto simp: o_upto_def)
  then show "\<exists>a s'. on_o_rt m s = (Ok a, s') \<and> o_upto s0 s'" using o_upto_rt [OF up] by (simp add: on_o_rt_eq)
qed

lemma log_now_triple: "triple rt_ok (log_now ev) (\<lambda>_. rt_ok)"
  unfolding log_now_def by (rule triple_bind [OF rt_triples(3) rt_triples(1)])

lemmas o_rt_rules = rt_triples [THEN on_o_rt_rule] log_now_triple [THEN on_o_rt_rule]

lemma o_emit_rule: "triple (o_upto s0) (o_emit ev) (\<lambda>_. o_upto s0)"
proof (rule tripleI)
  fix s assume "o_upto s0 s"
  then show "\<exists>v s'. o_emit ev s = (Ok v, s') \<and> o_upto s0 s'"
    using o_upto_rt [of s0 s "tick (o_rt s)"] by (auto simp: o_emit_def o_upto_def Let_def split: option.split)
qed

lemma new_job_rule:
  "triple (o_upto s0) (new_job inst cid f t sz p) (\<lambda>j s. (\<exists>secs. j = transfer_job_new secs inst cid f t sz p) \<and> o_upto s0 s)"
proof (rule tripleI)
  fix s assume "o_upto s0 s"
  then show "\<exists>j s'. new_job inst cid f t sz p s = (Ok j, s') \<and> (\<exists>secs. j = transfer_job_new secs inst cid f t sz p) \<and> o_upto s0 s'"
    using o_upto_rt [of s0 s "tick (o_rt s)"] by (auto simp: new_job_def on_o_rt_eq o_upto_def)
qed

text \<open>The part of the queue's invariant that does not concern the log.\<close>

definition queue_core :: "transfer_queue \<Rightarrow> bool" where
  "queue_core q \<longleftrightarrow> unat (current_depth q) = length (jobs q) \<and> length (jobs q) \<le> unat (capacity q) \<and> classed (jobs q)"

definition enqueued :: "transfer_job \<Rightarrow> orchestrator \<Rightarrow> orchestrator" where
  "enqueued j s = s\<lparr>o_queue := (o_queue s)\<lparr>current_depth := current_depth (o_queue s) + 1, jobs := insert_job j (jobs (o_queue s))\<rparr>\<rparr>"

lemma on_queue_accepts:
  assumes "queue_core (o_queue s0)" "can_accept pr (o_queue s0)"
  shows "triple (o_upto s0) (on_queue (submit_priority pr ts j)) (\<lambda>_. o_upto (enqueued j s0))"
proof (rule tripleI)
  fix s assume up: "o_upto s0 s"
  let ?q = "(o_queue s)\<lparr>queue_log := rt_log (o_rt s)\<rparr>"
  let ?l = "(rt_log (o_rt s))\<lparr>log_events := last_n (max_events (rt_log (o_rt s))) (log_events (rt_log (o_rt s)) @ [queued_event j ts])\<rparr>"
  have "queue_inv ?q" "can_accept pr ?q" using assms up by (auto simp: queue_core_def queue_inv_def rt_ok_def can_accept_def o_upto_def)
  note sub = submit_priority_accepts [OF this, of ts j]
  have "rt_ok ((o_rt s)\<lparr>rt_log := ?l\<rparr>)" using up by (simp add: o_upto_def rt_ok_def)
  from o_upto_rt [OF up this] show "\<exists>v s'. on_queue (submit_priority pr ts j) s = (Ok v, s') \<and> o_upto (enqueued j s0) s'"
    unfolding on_queue_def sub by (auto simp: o_upto_def enqueued_def)
qed

lemma enqueued_core:
  assumes "queue_core (o_queue s)" "can_accept pr (o_queue s)"
  shows "queue_core (o_queue (enqueued j s))"
  using assms depth_succ_fits(2) [of "current_depth (o_queue s)" "capacity (o_queue s)"] insert_job_classes(3,4) [of "jobs (o_queue s)" j]
  by (auto simp: queue_core_def enqueued_def can_accept_def word_less_nat_alt)

lemma enqueued_accepts:
  assumes "queue_core (o_queue s)" "can_accept pr (o_queue s)" "length (jobs (o_queue s)) + 1 < unat (capacity (o_queue s))"
  shows "can_accept pr (o_queue (enqueued j s))"
  using assms depth_succ_fits(2) [of "current_depth (o_queue s)" "capacity (o_queue s)"]
  by (auto simp: queue_core_def enqueued_def can_accept_def word_less_nat_alt)

definition submitted :: "transfer_job \<Rightarrow> orchestrator \<Rightarrow> orchestrator" where
  "submitted j s = enqueued j (s\<lparr>o_metrics := record_submission (o_metrics s)\<rparr>)"

lemma submit_job_rule:
  assumes "queue_core (o_queue s0)" "can_accept pr (o_queue s0)"
  shows "triple (o_upto s0) (submit_job pr j) (\<lambda>_. o_upto (submitted j s0))"
proof -
  let ?s1 = "s0\<lparr>o_metrics := record_submission (o_metrics s0)\<rparr>"
  have u: "triple (o_upto s0) (update_act (\<lambda>s. s\<lparr>o_metrics := record_submission (o_metrics s)\<rparr>)) (\<lambda>_. o_upto ?s1)"
    by (rule triple_update) (auto simp: o_upto_def)
  show ?thesis unfolding submit_job_def submit_def submitted_def
    by (rule triple_bind [OF u], rule triple_bind [OF o_rt_rules(4)], rule triple_bind [OF o_rt_rules(3)], rule on_queue_accepts)
       (simp_all add: assms)
qed

section \<open>The operations as transitions of the lifecycle\<close>

datatype api_op =
    ApiStore chunk_id tier_id bytes
  | ApiRetrieve chunk_id tier_id
  | ApiMigrate chunk_id tier_id tier_id usize
  | ApiEvict chunk_id tier_id

fun api_step :: "profile \<Rightarrow> instant \<Rightarrow> api_op \<Rightarrow> unit orch" where
  "api_step pr inst (ApiStore cid t data) = store pr inst cid t data"
| "api_step pr inst (ApiRetrieve cid t) = retrieve pr inst cid t"
| "api_step pr inst (ApiMigrate cid f t sz) = migrate pr inst cid f t sz"
| "api_step pr inst (ApiEvict cid t) = evict pr cid t"

fun api_chunk :: "api_op \<Rightarrow> chunk_id" where
  "api_chunk (ApiStore cid _ _) = cid"
| "api_chunk (ApiRetrieve cid _) = cid"
| "api_chunk (ApiMigrate cid _ _ _) = cid"
| "api_chunk (ApiEvict cid _) = cid"

text \<open>The contract: the state an operation leads to, or none where it is refused.\<close>

fun api_target :: "api_op \<Rightarrow> chunk_state option \<Rightarrow> chunk_state option" where
  "api_target (ApiStore _ _ _) None = Some Stored"
| "api_target (ApiStore _ _ _) (Some st) = (if st = Allocated \<or> st = Cached then Some Stored else None)"
| "api_target (ApiRetrieve _ _) (Some st) = (if is_readable st then Some st else None)"
| "api_target (ApiMigrate _ _ _ _) (Some st) = (if st = Migrating \<or> st = Evicted then None else Some Migrating)"
| "api_target (ApiEvict _ _) (Some st) = (if st = Stored then Some Evicted else None)"
| "api_target _ None = None"

text \<open>
  The refusals that reach the state machine: the code tries a transition the lifecycle does not have,
  which panics in the debug profile.
\<close>

fun api_panics :: "api_op \<Rightarrow> chunk_state option \<Rightarrow> bool" where
  "api_panics (ApiStore _ _ _) st = (st = Some Evicted)"
| "api_panics (ApiEvict _ _) st = (st = Some Cached)"
| "api_panics _ st = False"

text \<open>The job an operation submits.\<close>

fun api_job :: "u64 \<Rightarrow> instant \<Rightarrow> api_op \<Rightarrow> transfer_job option" where
  "api_job secs inst (ApiStore cid t data) = Some (transfer_job_new secs inst cid t t (of_nat (length data)) Normal)"
| "api_job secs inst (ApiRetrieve cid t) = Some (transfer_job_new secs inst cid t t 0 High)"
| "api_job secs inst (ApiMigrate cid f t sz) = Some (transfer_job_new secs inst cid f t sz (if sz > 1024 * 1024 then Normal else High))"
| "api_job secs inst (ApiEvict cid t) = None"

fun api_guard :: "profile \<Rightarrow> api_op \<Rightarrow> unit orch" where
  "api_guard pr (ApiStore cid _ _) = store_register pr cid"
| "api_guard pr (ApiRetrieve cid _) = check_readable cid"
| "api_guard pr (ApiMigrate cid _ _ _) = begin_migration pr cid"
| "api_guard pr (ApiEvict cid _) = mark_evicted pr cid"

definition with_state :: "chunk_id \<Rightarrow> chunk_state \<Rightarrow> orchestrator \<Rightarrow> orchestrator" where
  "with_state cid st s = s\<lparr>o_engine := (o_engine s)\<lparr>mg_sm := (o_sm s)\<lparr>states := fmupd cid st (states (o_sm s))\<rparr>\<rparr>\<rparr>"

lemma get_state_with [simp]: "get_state (o_sm (with_state cid st s)) c = (if c = cid then Some st else get_state (o_sm s) c)"
  by (simp add: with_state_def)

lemma with_state_fields [simp]:
  "o_queue (with_state cid st s) = o_queue s" "o_metrics (with_state cid st s) = o_metrics s" "o_rt (with_state cid st s) = o_rt s"
  "with_state cid st (with_state cid st' s) = with_state cid st s"
  by (simp_all add: with_state_def)

lemma set_state_valid:
  "get_state (o_sm s) cid = Some cur \<Longrightarrow> is_valid_transition cur st \<Longrightarrow> set_state pr cid st s = (Ok (), with_state cid st s)"
  by (simp add: set_state_def on_sm_def on_engine_def on_part_def bind_act_def ret_def transition_valid with_state_def)

lemma set_state_invalid:
  "get_state (o_sm s) cid = Some cur \<Longrightarrow> \<not> is_valid_transition cur st \<Longrightarrow>
     set_state pr cid st s = (if pr = Debug then Panic else Err (InvalidStateTransition (debug_chunk_state cur) (debug_chunk_state st)), s)"
  by (auto simp: set_state_def on_sm_def on_engine_def on_part_def bind_act_def transition_def get_state_def transition_to_def)

lemma register_new: "get_state (o_sm s) cid = None \<Longrightarrow> on_sm (\<lambda>sm. register sm cid) s = (Ok (), with_state cid Allocated s)"
  by (simp add: on_sm_def on_engine_def on_part_def register_def get_state_def fmlookup_dom_iff with_state_def)

text \<open>The guard of an operation makes the transition or refuses without touching anything.\<close>

lemma api_guard_result:
  assumes "\<not> o_poisoned s"
  shows "case api_target op (get_state (o_sm s) (api_chunk op)) of
     Some st \<Rightarrow> (\<exists>s1. api_guard pr op s = (Ok (), s1) \<and> (s1 = with_state (api_chunk op) st s
                   \<or> s1 = s \<and> get_state (o_sm s) (api_chunk op) = Some st))
   | None \<Rightarrow> (if pr = Debug \<and> api_panics op (get_state (o_sm s) (api_chunk op)) then api_guard pr op s = (Panic, poison s)
             else \<exists>e. api_guard pr op s = (Err e, s))"
proof (cases op)
  case (ApiStore cid t data)
  show ?thesis
  proof (cases "get_state (o_sm s) cid")
    case None
    have "get_state (o_sm (with_state cid Allocated s)) cid = Some Allocated" by simp
    from set_state_valid [OF this, of Stored pr] show ?thesis
      using register_new [OF None] None assms by (simp add: ApiStore store_register_def bind_act_def locked_def)
  next
    case (Some st)
    then show ?thesis using set_state_valid [OF Some, of Stored pr] set_state_invalid [OF Some, of Stored pr] assms
      by (cases st; cases pr) (simp_all add: ApiStore store_register_def fail_def locked_def)
  qed
next
  case (ApiRetrieve cid t)
  then show ?thesis using assms
    by (cases "get_state (o_sm s) cid") (auto simp: check_readable_def fail_def locked_def split: chunk_state.split)
next
  case (ApiMigrate cid f t sz)
  show ?thesis
  proof (cases "get_state (o_sm s) cid")
    case None
    then show ?thesis using assms by (simp add: ApiMigrate begin_migration_def fail_def locked_def)
  next
    case (Some st)
    have "get_state (o_sm (with_state cid Stored s)) cid = Some Stored" by simp
    note two = set_state_valid [OF this, of Migrating pr]
    show ?thesis using set_state_valid [OF Some, of Migrating pr] set_state_valid [OF Some, of Stored pr] two Some assms
      by (cases st) (simp_all add: ApiMigrate begin_migration_def bind_act_def fail_def locked_def)
  qed
next
  case (ApiEvict cid t)
  show ?thesis
  proof (cases "get_state (o_sm s) cid")
    case None
    then show ?thesis using assms by (simp add: ApiEvict mark_evicted_def fail_def locked_def)
  next
    case (Some st)
    then show ?thesis using set_state_valid [OF Some, of Evicted pr] set_state_invalid [OF Some, of Evicted pr] assms
      by (cases st; cases pr) (simp_all add: ApiEvict mark_evicted_def fail_def locked_def)
  qed
qed

text \<open>What follows the guard submits the job of the operation.\<close>

fun api_rest :: "profile \<Rightarrow> instant \<Rightarrow> api_op \<Rightarrow> unit orch" where
  "api_rest pr inst (ApiStore cid tier data) =
     bind_act (on_o_rt (log_now (ChunkCreated cid (of_nat (length data)) tier))) (\<lambda>_.
     bind_act (o_emit (EvStore 0 [FmtChunk cid] (of_nat (length data)))) (\<lambda>_.
     bind_act (new_job inst cid tier tier (of_nat (length data)) Normal) (\<lambda>job. submit_job pr job)))"
| "api_rest pr inst (ApiRetrieve cid tier) =
     bind_act (o_emit (EvRetrieve 0 [FmtChunk cid] True)) (\<lambda>_.
     bind_act (new_job inst cid tier tier 0 High) (\<lambda>job. submit_job pr job))"
| "api_rest pr inst (ApiMigrate cid f t sz) =
     bind_act (new_job inst cid f t sz (if sz > 1024 * 1024 then Normal else High)) (\<lambda>job.
     bind_act (o_emit (EvMigrationDecision 0 cid f t [Lit ''started''])) (\<lambda>_.
     bind_act (o_emit (EvMigrationStarted 0 cid f t)) (\<lambda>_. submit_job pr job)))"
| "api_rest pr inst (ApiEvict cid tier) =
     bind_act (on_o_rt (log_now (ChunkStateChanged cid Stored Evicted))) (\<lambda>_.
     bind_act (on_o_rt (log_now (Eviction cid tier Manual))) (\<lambda>_.
     o_emit (EvEviction 0 cid tier [Lit ''manual''])))"

lemma api_step_split: "api_step pr inst op = bind_act (api_guard pr op) (\<lambda>_. api_rest pr inst op)"
  by (cases op) (simp_all add: store_def retrieve_def migrate_def evict_def)

definition api_done :: "u64 \<Rightarrow> instant \<Rightarrow> api_op \<Rightarrow> orchestrator \<Rightarrow> orchestrator" where
  "api_done secs inst op s = (case api_job secs inst op of None \<Rightarrow> s | Some j \<Rightarrow> submitted j s)"

lemma api_rest_rule:
  assumes "queue_core (o_queue s0)" "can_accept pr (o_queue s0)"
  shows "triple (o_upto s0) (api_rest pr inst op) (\<lambda>_ s. \<exists>secs. o_upto (api_done secs inst op s0) s)"
proof -
  have job: "triple (\<lambda>s. (\<exists>secs. j = transfer_job_new secs inst cid f t sz p) \<and> o_upto s0 s) (submit_job pr j)
      (\<lambda>_ s. \<exists>secs. o_upto (submitted (transfer_job_new secs inst cid f t sz p) s0) s)" for j cid f t sz p
    by (rule triple_fact, rule triple_weaken [OF submit_job_rule [OF assms]]) auto
  show ?thesis
  proof (cases op)
    case (ApiStore cid tier data)
    then show ?thesis unfolding api_done_def
      by simp (rule triple_bind [OF o_rt_rules(4)], rule triple_bind [OF o_emit_rule], rule triple_bind [OF new_job_rule], rule job)
  next
    case (ApiRetrieve cid tier)
    then show ?thesis unfolding api_done_def
      by simp (rule triple_bind [OF o_emit_rule], rule triple_bind [OF new_job_rule], rule job)
  next
    case (ApiMigrate cid f t sz)
    have emit: "triple (\<lambda>s. c \<and> o_upto s0 s) (o_emit ev) (\<lambda>_ s. c \<and> o_upto s0 s)" for c ev
      by (rule triple_fact, rule triple_weaken [OF o_emit_rule]) auto
    show ?thesis unfolding api_done_def ApiMigrate api_rest.simps api_job.simps option.case
      by (rule triple_bind [OF new_job_rule], rule triple_bind [OF emit], rule triple_bind [OF emit], rule job)
  next
    case (ApiEvict cid tier)
    then show ?thesis unfolding api_done_def
      by simp (rule triple_bind [OF o_rt_rules(4)], rule triple_bind [OF o_rt_rules(4)], rule o_emit_rule)
  qed
qed

text \<open>A refused operation does nothing; neither the log nor the queue matters for it.\<close>

lemma api_step_refused:
  assumes "\<not> o_poisoned s" "api_target op (get_state (o_sm s) (api_chunk op)) = None"
  shows "if pr = Debug \<and> api_panics op (get_state (o_sm s) (api_chunk op)) then api_step pr inst op s = (Panic, poison s)
     else \<exists>e. api_step pr inst op s = (Err e, s)"
  using api_guard_result [where op = op and s = s and pr = pr, OF assms(1)] assms(2)
  by (auto simp: api_step_split bind_act_def)

lemma api_step_poisoned: "o_poisoned s \<Longrightarrow> api_step pr inst op s = (Panic, s)"
  by (cases op) (simp_all add: store_def retrieve_def migrate_def evict_def store_register_def check_readable_def begin_migration_def
      mark_evicted_def bind_act_def)

lemma api_step_result:
  assumes "rt_ok (o_rt s)" "queue_core (o_queue s)" "can_accept pr (o_queue s)" "\<not> o_poisoned s"
  shows "\<exists>r s'. api_step pr inst op s = (r, s') \<and>
    (case api_target op (get_state (o_sm s) (api_chunk op)) of
       Some st \<Rightarrow> r = Ok () \<and> rt_ok (o_rt s') \<and> \<not> o_poisoned s' \<and> get_state (o_sm s') = (get_state (o_sm s))(api_chunk op \<mapsto> st)
         \<and> (\<exists>secs. o_queue s' = o_queue (api_done secs inst op s) \<and> o_metrics s' = o_metrics (api_done secs inst op s))
     | None \<Rightarrow> if pr = Debug \<and> api_panics op (get_state (o_sm s) (api_chunk op)) then r = Panic \<and> s' = poison s
               else (\<exists>e. r = Err e) \<and> s' = s)"
proof (cases "api_target op (get_state (o_sm s) (api_chunk op))")
  case None
  then show ?thesis using api_step_refused [OF assms(4) None, of pr inst] by (auto split: if_splits)
next
  case (Some st)
  then obtain s1 where g: "api_guard pr op s = (Ok (), s1)"
    and s1: "s1 = with_state (api_chunk op) st s \<or> s1 = s \<and> get_state (o_sm s) (api_chunk op) = Some st"
    using api_guard_result [where op = op and s = s and pr = pr, OF assms(4)] by auto
  have same: "o_queue s1 = o_queue s" "o_metrics s1 = o_metrics s" "rt_ok (o_rt s1)"
    "get_state (o_sm s1) = (get_state (o_sm s))(api_chunk op \<mapsto> st)"
    using s1 assms(1) by (auto simp: fun_eq_iff)
  have np: "\<not> o_poisoned s1" using s1 assms(4) by (auto simp: with_state_def)
  obtain s' secs where rest: "api_rest pr inst op s1 = (Ok (), s')" "o_upto (api_done secs inst op s1) s'"
    using tripleD [OF api_rest_rule o_upto_refl [OF same(3)], of pr inst op] assms(2,3) same(1) by auto
  have "o_sm s' = o_sm s1" using o_upto_sm [OF rest(2)] by (auto simp: api_done_def submitted_def enqueued_def split: option.split)
  moreover have "o_queue s' = o_queue (api_done secs inst op s)" "o_metrics s' = o_metrics (api_done secs inst op s)"
    using rest(2) same(1,2) by (auto simp: o_upto_def api_done_def submitted_def enqueued_def split: option.splits)
  moreover have "rt_ok (o_rt s')" using rest(2) by (simp add: o_upto_def)
  moreover have "\<not> o_poisoned s'"
    using o_upto_poisoned [OF rest(2)] np by (auto simp: api_done_def submitted_def enqueued_def split: option.split)
  ultimately show ?thesis using g rest(1) same(4) by (auto simp: Some api_step_split bind_act_def)
qed

text \<open>
  C2: with room in the queue and in the log, store, retrieve, migrate and evict do what the
  contract \<open>api_target\<close> says of the chunk's state, in either profile: an accepted operation
  returns, moves exactly that chunk to the target state and submits its one job (none for evict);
  a refused one returns an error and changes nothing at all, except that storing an evicted chunk
  and evicting a cached one panic in the debug profile, which poisons the state machine's mutex and
  changes nothing else.
\<close>

theorem api_refines_lifecycle:
  assumes "rt_ok (o_rt s)" "queue_core (o_queue s)" "can_accept pr (o_queue s)" "\<not> o_poisoned s"
  shows "\<exists>r s'. api_step pr inst op s = (r, s') \<and>
    (case api_target op (get_state (o_sm s) (api_chunk op)) of
       Some st \<Rightarrow> r = Ok () \<and> get_state (o_sm s') = (get_state (o_sm s))(api_chunk op \<mapsto> st)
         \<and> (\<exists>secs. o_queue s' = o_queue (api_done secs inst op s) \<and> o_metrics s' = o_metrics (api_done secs inst op s))
     | None \<Rightarrow> if pr = Debug \<and> api_panics op (get_state (o_sm s) (api_chunk op)) then r = Panic \<and> s' = poison s
               else (\<exists>e. r = Err e) \<and> s' = s)"
  using api_step_result [OF assms, of inst op] by (cases "api_target op (get_state (o_sm s) (api_chunk op))") auto

text \<open>An idle daemon with one stored chunk.\<close>

definition demo_orchestrator :: orchestrator where
  "demo_orchestrator = \<lparr>o_config = orchestrator_config_default, o_engine = demo_engine,
     o_queue = queue_new 8 (trace_log_new 10), o_metrics = metrics_new,
     o_bp = backpressure_new backpressure_config_default (ht_rt demo_tracker) 0, o_emitter = None, o_pressure = demo_pressure, o_started = True\<rparr>"

lemma demo_orchestrator_ok:
  "rt_ok (o_rt demo_orchestrator)" "queue_core (o_queue demo_orchestrator)" "can_accept Debug (o_queue demo_orchestrator)"
  "\<not> o_poisoned demo_orchestrator" "get_state (o_sm demo_orchestrator) (ChunkId [1]) = Some Stored"
  by (simp_all add: demo_orchestrator_def demo_engine_def demo_tracker_def rt_ok_def trace_log_new_def log_inv_def queue_core_def classed_def
      queue_new_def can_accept_def get_state_def)

theorem api_refines_lifecycle_witness:
  "\<exists>s'. api_step Debug 0 (ApiMigrate (ChunkId [1]) Ram Disk 5) demo_orchestrator = (Ok (), s') \<and> get_state (o_sm s') (ChunkId [1]) = Some Migrating
     \<and> length (jobs (o_queue s')) = 1 \<and> jobs_submitted (o_metrics s') = 1"
  using api_refines_lifecycle [OF demo_orchestrator_ok(1-4), of 0 "ApiMigrate (ChunkId [1]) Ram Disk 5"] demo_orchestrator_ok(5)
  by (auto simp: api_done_def submitted_def enqueued_def record_submission_def demo_orchestrator_def metrics_new_def queue_new_def insert_job_def
      insert_at_def simp del: api_step.simps)

lemma submit_job_cancelled:
  assumes "shutdown_flag (o_queue s0)"
  shows "errs_with (o_upto s0) (submit_job pr j) Cancelled (o_upto (s0\<lparr>o_metrics := record_submission (o_metrics s0)\<rparr>))"
proof -
  let ?s1 = "s0\<lparr>o_metrics := record_submission (o_metrics s0)\<rparr>"
  have u: "triple (o_upto s0) (update_act (\<lambda>s. s\<lparr>o_metrics := record_submission (o_metrics s)\<rparr>)) (\<lambda>_. o_upto ?s1)"
    by (rule triple_update) (auto simp: o_upto_def)
  have q: "errs_with (o_upto ?s1) (on_queue (submit pr ts j)) Cancelled (o_upto ?s1)" for ts
    using assms by (auto simp: errs_with_def on_queue_def submit_def submit_priority_shutdown o_upto_def)
  show ?thesis unfolding submit_job_def
    by (rule errs_bind [OF u], rule errs_bind [OF o_rt_rules(4)], rule errs_bind [OF o_rt_rules(3)], rule q)
qed

lemma migrate_rest_cancelled:
  assumes "shutdown_flag (o_queue s0)"
  shows "errs_with (o_upto s0) (bind_act (new_job inst cid f t sz (if sz > 1024 * 1024 then Normal else High)) (\<lambda>job.
     bind_act (o_emit (EvMigrationDecision 0 cid f t [Lit ''started''])) (\<lambda>_.
     bind_act (o_emit (EvMigrationStarted 0 cid f t)) (\<lambda>_. submit_job pr job)))) Cancelled
     (o_upto (s0\<lparr>o_metrics := record_submission (o_metrics s0)\<rparr>))"
  by (rule errs_bind [OF new_job_rule [THEN triple_weaken]], assumption, erule conjunct2,
      rule errs_bind [OF o_emit_rule], rule errs_bind [OF o_emit_rule], rule submit_job_cancelled [OF assms])

text \<open>
  C39: a migration that the queue refuses leaves the chunk stuck. After a shutdown of the queue,
  migrating a stored chunk returns the cancellation error, but the chunk is already in the migrating
  state and no job was queued that would complete it; from there every store, retrieve, migrate and
  evict of the chunk returns an error and changes nothing, in either profile.
\<close>

theorem migrate_refused_stuck:
  assumes "rt_ok (o_rt s)" "shutdown_flag (o_queue s)" "get_state (o_sm s) cid = Some Stored" "\<not> o_poisoned s"
  shows "\<exists>s'. migrate pr inst cid f t sz s = (Err Cancelled, s') \<and> jobs (o_queue s') = jobs (o_queue s)
    \<and> get_state (o_sm s') cid = Some Migrating
    \<and> (\<forall>pr' inst' op. api_chunk op = cid \<longrightarrow> (\<exists>e. api_step pr' inst' op s' = (Err e, s')))"
proof -
  define s1 where "s1 = with_state cid Migrating s"
  have guard: "begin_migration pr cid s = (Ok (), s1)"
    using api_guard_result [OF assms(4), where op = "ApiMigrate cid f t sz" and pr = pr] assms(3) by (simp add: s1_def)
  obtain s' where s': "migrate pr inst cid f t sz s = (Err Cancelled, s')" "o_upto (s1\<lparr>o_metrics := record_submission (o_metrics s1)\<rparr>) s'"
    using errs_withD [OF migrate_rest_cancelled [where pr = pr and inst = inst and cid = cid and f = f and t = t and sz = sz], of s1 s1] assms(1,2) guard
    by (auto simp: migrate_def bind_act_def [of "begin_migration pr cid"] s1_def o_upto_refl)
  have st: "get_state (o_sm s') cid = Some Migrating" using o_upto_sm [OF s'(2)] by (simp add: s1_def)
  have np: "\<not> o_poisoned s'" using o_upto_poisoned [OF s'(2)] assms(4) by (simp add: s1_def with_state_def)
  have "\<exists>e. api_step pr' inst' op s' = (Err e, s')" if op: "api_chunk op = cid" for pr' inst' op
  proof -
    have "api_target op (get_state (o_sm s') (api_chunk op)) = None" "\<not> api_panics op (get_state (o_sm s') (api_chunk op))"
      using st op by (cases op; simp)+
    then show ?thesis using api_step_refused [OF np, of op pr' inst'] by simp
  qed
  moreover have "jobs (o_queue s') = jobs (o_queue s)" using s'(2) by (simp add: o_upto_def s1_def)
  ultimately show ?thesis using s'(1) st by blast
qed

theorem migrate_refused_stuck_witness:
  "\<exists>s' e1 e2. migrate Debug 0 (ChunkId [1]) Ram Disk 5 (demo_orchestrator\<lparr>o_queue := queue_shutdown (o_queue demo_orchestrator)\<rparr>) = (Err Cancelled, s')
     \<and> migrate Release 9 (ChunkId [1]) Ram Disk 5 s' = (Err e1, s') \<and> retrieve Debug 9 (ChunkId [1]) Ram s' = (Err e2, s')"
proof -
  let ?s = "demo_orchestrator\<lparr>o_queue := queue_shutdown (o_queue demo_orchestrator)\<rparr>"
  obtain s' where s': "migrate Debug 0 (ChunkId [1]) Ram Disk 5 ?s = (Err Cancelled, s')"
    "\<forall>pr' inst' op. api_chunk op = ChunkId [1] \<longrightarrow> (\<exists>e. api_step pr' inst' op s' = (Err e, s'))"
    using migrate_refused_stuck [of ?s "ChunkId [1]" Debug 0 Ram Disk 5] demo_orchestrator_ok by (auto simp: queue_shutdown_def)
  from s'(2) have "\<exists>e. api_step Release 9 (ApiMigrate (ChunkId [1]) Ram Disk 5) s' = (Err e, s')"
    "\<exists>e. api_step Debug 9 (ApiRetrieve (ChunkId [1]) Ram) s' = (Err e, s')" by (metis api_chunk.simps(2,3))+
  with s'(1) show ?thesis by auto
qed

lemma submit_job_full:
  assumes "queue_core (o_queue s0)" "\<not> shutdown_flag (o_queue s0)" "capacity (o_queue s0) \<le> current_depth (o_queue s0)"
  defines "e \<equiv> Internal [Lit ''transfer queue is full (capacity: '', FmtNat (unat (capacity (o_queue s0))), Lit '')'']"
  shows "errs_with (o_upto s0) (submit_job pr j) e (o_upto (s0\<lparr>o_metrics := record_submission (o_metrics s0)\<rparr>))"
proof -
  let ?s1 = "s0\<lparr>o_metrics := record_submission (o_metrics s0)\<rparr>"
  have u: "triple (o_upto s0) (update_act (\<lambda>s. s\<lparr>o_metrics := record_submission (o_metrics s)\<rparr>)) (\<lambda>_. o_upto ?s1)"
    by (rule triple_update) (auto simp: o_upto_def)
  have q: "errs_with (o_upto ?s1) (on_queue (submit pr ts j)) e (o_upto ?s1)" for ts
    unfolding errs_with_def
  proof (intro allI impI)
    fix s assume up: "o_upto ?s1 s"
    let ?q = "(o_queue s)\<lparr>queue_log := rt_log (o_rt s)\<rparr>"
    let ?l = "(rt_log (o_rt s))\<lparr>log_events := last_n (max_events (rt_log (o_rt s))) (log_events (rt_log (o_rt s)) @ [queued_event j ts])\<rparr>"
    have "queue_inv ?q" "\<not> shutdown_flag ?q" "capacity ?q \<le> current_depth ?q"
      using assms(1-3) up by (auto simp: queue_core_def queue_inv_def rt_ok_def o_upto_def)
    note full = submit_priority_full [OF this, of pr ts j]
    have "rt_ok ((o_rt s)\<lparr>rt_log := ?l\<rparr>)" using up by (simp add: o_upto_def rt_ok_def)
    from o_upto_rt [OF up this] show "\<exists>s'. on_queue (submit pr ts j) s = (Err e, s') \<and> o_upto ?s1 s'"
      unfolding on_queue_def submit_def full using up by (auto simp: o_upto_def e_def)
  qed
  show ?thesis unfolding submit_job_def
    by (rule errs_bind [OF u], rule errs_bind [OF o_rt_rules(4)], rule errs_bind [OF o_rt_rules(3)], rule q)
qed

text \<open>
  A store that the full queue refuses leaves the chunk behind. The client gets an error, no job was
  queued to write the data, but the chunk is tracked as stored; storing it again is refused, in
  either profile.
\<close>

theorem store_full_queue:
  assumes "rt_ok (o_rt s)" "queue_core (o_queue s)" "\<not> shutdown_flag (o_queue s)" "capacity (o_queue s) \<le> current_depth (o_queue s)"
    and "get_state (o_sm s) cid = None" "\<not> o_poisoned s"
  shows "\<exists>e s'. store pr inst cid tier data s = (Err e, s') \<and> jobs (o_queue s') = jobs (o_queue s)
    \<and> get_state (o_sm s') = (get_state (o_sm s))(cid \<mapsto> Stored)
    \<and> (\<exists>e'. store pr' inst' cid tier' data' s' = (Err e', s'))"
proof -
  let ?op = "ApiStore cid tier data"
  obtain s1 where g: "api_guard pr ?op s = (Ok (), s1)" and s1: "s1 = with_state cid Stored s"
    using api_guard_result [OF assms(6), where op = ?op and pr = pr] assms(5) by auto
  have same: "o_queue s1 = o_queue s" "rt_ok (o_rt s1)" using s1 assms(1) by simp_all
  let ?e = "Internal [Lit ''transfer queue is full (capacity: '', FmtNat (unat (capacity (o_queue s1))), Lit '')'']"
  let ?s2 = "s1\<lparr>o_metrics := record_submission (o_metrics s1)\<rparr>"
  have "errs_with (o_upto s1) (api_rest pr inst ?op) ?e (o_upto ?s2)" unfolding api_rest.simps
    by (rule errs_bind [OF o_rt_rules(4)], rule errs_bind [OF o_emit_rule], rule errs_bind [OF new_job_rule [THEN triple_weaken]], assumption,
        erule conjunct2, rule submit_job_full) (use assms same in simp_all)
  from errs_withD [OF this o_upto_refl [OF same(2)]] obtain s' where s': "api_rest pr inst ?op s1 = (Err ?e, s')" "o_upto ?s2 s'" by blast
  have run: "store pr inst cid tier data s = (Err ?e, s')"
    using api_step_split [of pr inst ?op] g s'(1) by (simp add: bind_act_def del: api_rest.simps api_guard.simps)
  have st: "get_state (o_sm s') = (get_state (o_sm s))(cid \<mapsto> Stored)" using o_upto_sm [OF s'(2)] by (auto simp: s1 fun_eq_iff)
  have np: "\<not> o_poisoned s'" using o_upto_poisoned [OF s'(2)] assms(6) by (simp add: s1 with_state_def)
  have "\<exists>e'. store pr' inst' cid tier' data' s' = (Err e', s')"
    using api_step_refused [OF np, of "ApiStore cid tier' data'" pr' inst'] st by simp
  moreover have "jobs (o_queue s') = jobs (o_queue s)" using s'(2) same(1) by (simp add: o_upto_def)
  ultimately show ?thesis using run st by blast
qed

theorem store_full_queue_witness:
  "\<exists>e s'. store Release 0 (ChunkId [9]) Ram [1] (demo_orchestrator\<lparr>o_queue := queue_new 0 (trace_log_new 10)\<rparr>) = (Err e, s')
     \<and> get_state (o_sm s') (ChunkId [9]) = Some Stored"
proof -
  let ?s = "demo_orchestrator\<lparr>o_queue := queue_new 0 (trace_log_new 10)\<rparr>"
  have "queue_core (o_queue ?s)" "\<not> shutdown_flag (o_queue ?s)" "capacity (o_queue ?s) \<le> current_depth (o_queue ?s)"
    by (simp_all add: queue_core_def queue_new_def classed_def)
  moreover have "get_state (o_sm ?s) (ChunkId [9]) = None" "rt_ok (o_rt ?s)" "\<not> o_poisoned ?s"
    using demo_orchestrator_ok(1,4) by (simp_all add: demo_orchestrator_def demo_engine_def get_state_def)
  ultimately show ?thesis using store_full_queue [of ?s "ChunkId [9]" Release 0 Ram "[1]"] by fastforce
qed

lemma handle_completion_result:
  assumes "rt_ok (o_rt s)" "get_state (o_sm s) (wc_chunk_id c) = Some Migrating" "\<not> o_poisoned s"
  shows "\<exists>s'. handle_completion pr c s = (Ok (), s') \<and> rt_ok (o_rt s') \<and> o_queue s' = o_queue s \<and> \<not> o_poisoned s'
    \<and> get_state (o_sm s') = (get_state (o_sm s))(wc_chunk_id c \<mapsto> if wc_success c then Stored else Failed)"
proof -
  let ?st = "if wc_success c then Stored else Failed" and ?ev = "\<lambda>to. ChunkStateChanged (wc_chunk_id c) Migrating to (wc_timestamp c)"
  define s1 where "s1 = with_state (wc_chunk_id c) ?st s"
  have 1: "set_state pr (wc_chunk_id c) ?st s = (Ok (), s1)" using set_state_valid [OF assms(2), of ?st pr] by (simp add: s1_def)
  have up: "o_upto s1 s1" using assms(1) by (intro o_upto_refl) (simp add: s1_def)
  obtain s' where 2: "on_o_rt (log_event (?ev ?st)) s1 = (Ok (), s')" "o_upto s1 s'"
    using tripleD [OF o_rt_rules(1) up, of "?ev ?st"] by auto
  have "get_state (o_sm s') = (get_state (o_sm s))(wc_chunk_id c \<mapsto> ?st)" using o_upto_sm [OF 2(2)] by (auto simp: s1_def fun_eq_iff)
  moreover have "o_queue s' = o_queue s" "rt_ok (o_rt s')" using 2(2) by (auto simp: o_upto_def s1_def)
  moreover have "\<not> o_poisoned s'" using o_upto_poisoned [OF 2(2)] assms(3) by (simp add: s1_def with_state_def)
  moreover have "handle_completion pr c s = (Ok (), s')"
    using 1 2(1) assms(3) by (simp add: handle_completion_def Let_def bind_act_def catch_act_def locked_def)
  ultimately show ?thesis by blast
qed

text \<open>
  C5: a migration of a stored chunk, once reported by the worker, ends with the chunk stored again or
  marked as failed, in either profile, and no other chunk is affected on the way. In both cases it
  can be migrated anew: a second call of migrate is accepted and the chunk is migrating again. The
  queue has room for the jobs of both migrations.
\<close>

theorem migration_completes:
  assumes "rt_ok (o_rt s)" "queue_core (o_queue s)" "can_accept pr (o_queue s)" "\<not> o_poisoned s"
    and "length (jobs (o_queue s)) + 1 < unat (capacity (o_queue s))"
    and "get_state (o_sm s) cid = Some Stored" "wc_chunk_id c = cid"
  shows "\<exists>s1 s2 s3. migrate pr inst cid f t sz s = (Ok (), s1) \<and> handle_completion pr c s1 = (Ok (), s2)
    \<and> get_state (o_sm s1) = (get_state (o_sm s))(cid \<mapsto> Migrating)
    \<and> get_state (o_sm s2) = (get_state (o_sm s))(cid \<mapsto> if wc_success c then Stored else Failed)
    \<and> migrate pr inst' cid f' t' sz' s2 = (Ok (), s3) \<and> get_state (o_sm s3) = (get_state (o_sm s))(cid \<mapsto> Migrating)"
proof -
  obtain s1 secs where 1: "migrate pr inst cid f t sz s = (Ok (), s1)" "rt_ok (o_rt s1)" "\<not> o_poisoned s1"
    "get_state (o_sm s1) = (get_state (o_sm s))(cid \<mapsto> Migrating)" "o_queue s1 = o_queue (api_done secs inst (ApiMigrate cid f t sz) s)"
    using api_step_result [OF assms(1-4), of inst "ApiMigrate cid f t sz"] assms(6) by auto
  obtain s2 where 2: "handle_completion pr c s1 = (Ok (), s2)" "rt_ok (o_rt s2)" "o_queue s2 = o_queue s1" "\<not> o_poisoned s2"
    "get_state (o_sm s2) = (get_state (o_sm s1))(cid \<mapsto> if wc_success c then Stored else Failed)"
    using handle_completion_result [OF 1(2), of c pr] 1(3,4) assms(7) by auto
  obtain j where j: "o_queue s2 = o_queue (enqueued j s)" using 1(5) 2(3) by (auto simp: api_done_def submitted_def enqueued_def)
  have "queue_core (o_queue s2)" "can_accept pr (o_queue s2)"
    using enqueued_core [OF assms(2,3), of j] enqueued_accepts [OF assms(2,3,5), of j] by (simp_all add: j)
  note again = api_step_result [OF 2(2) this 2(4), of inst' "ApiMigrate cid f' t' sz'"]
  obtain s3 where "migrate pr inst' cid f' t' sz' s2 = (Ok (), s3)" "get_state (o_sm s3) = (get_state (o_sm s2))(cid \<mapsto> Migrating)"
    using again 1(4) 2(5) by (auto split: if_splits)
  with 1(1,4) 2(1,5) show ?thesis by (intro exI [of _ s1] exI [of _ s2] exI [of _ s3]) simp
qed

theorem migration_completes_witness:
  "\<exists>s1 s2 s3. migrate Debug 0 (ChunkId [1]) Ram Disk 5 demo_orchestrator = (Ok (), s1)
    \<and> handle_completion Debug \<lparr>wc_chunk_id = ChunkId [1], wc_from_tier = Ram, wc_to_tier = Disk, wc_success = False, wc_error = None,
        wc_worker_id = 0, wc_timestamp = 9\<rparr> s1 = (Ok (), s2)
    \<and> get_state (o_sm s2) (ChunkId [1]) = Some Failed \<and> migrate Debug 1 (ChunkId [1]) Ram Disk 5 s2 = (Ok (), s3)"
proof -
  have "length (jobs (o_queue demo_orchestrator)) + 1 < unat (capacity (o_queue demo_orchestrator))"
    by (simp add: demo_orchestrator_def queue_new_def)
  from migration_completes [OF demo_orchestrator_ok(1-4) this demo_orchestrator_ok(5), of "\<lparr>wc_chunk_id = ChunkId [1], wc_from_tier = Ram,
      wc_to_tier = Disk, wc_success = False, wc_error = None, wc_worker_id = 0, wc_timestamp = 9\<rparr>" 0 Ram Disk 5 1 Ram Disk 5]
  show ?thesis by auto
qed

section \<open>Runs of the daemon\<close>

text \<open>
  Every interleaving of client operations and background work is a list of steps. A step may fail
  or panic; the run goes on from the state it leaves.
\<close>

datatype orch_op = Api api_op | Report worker_completion | AutoRound | PressureCheck | Start | Shutdown bool | TakeJob

fun orch_step :: "profile \<Rightarrow> (f64 \<Rightarrow> f64) \<Rightarrow> instant \<Rightarrow> orch_op \<Rightarrow> unit orch" where
  "orch_step pr expo inst (Api op) = api_step pr inst op"
| "orch_step pr expo inst (Report c) = handle_completion pr c"
| "orch_step pr expo inst AutoRound = auto_migration_round pr expo inst"
| "orch_step pr expo inst PressureCheck = bind_act run_pressure_check (\<lambda>_. ret ())"
| "orch_step pr expo inst Start = start"
| "orch_step pr expo inst (Shutdown b) = shutdown b"
| "orch_step pr expo inst TakeJob = bind_act (on_queue (try_dequeue pr)) (\<lambda>_. ret ())"

fun orch_run :: "profile \<Rightarrow> (f64 \<Rightarrow> f64) \<Rightarrow> (instant \<times> orch_op) list \<Rightarrow> orchestrator \<Rightarrow> orchestrator" where
  "orch_run pr expo [] s = s"
| "orch_run pr expo ((inst, op) # ops) s = orch_run pr expo ops (snd (orch_step pr expo inst op s))"

text \<open>What the small steps leave alone.\<close>

lemma keeps_on_engine: "keeps c m \<Longrightarrow> keeps (\<lambda>s. c (o_engine s)) (on_engine m)"
  by (auto simp: keeps_def on_engine_def on_part_def split: prod.split) (metis snd_conv)

lemma keeps_on_o_rt: "(\<And>r e. c (with_rt r e) = c e) \<Longrightarrow> keeps (\<lambda>s. c (o_engine s)) (on_o_rt m)"
  unfolding on_o_rt_def by (rule keeps_on_engine [OF keeps_on_mg_rt])

lemma keeps_on_queue: "(\<And>r e. c (with_rt r e) = c e) \<Longrightarrow> keeps (\<lambda>s. c (o_engine s)) (on_queue m)"
  by (simp add: keeps_def on_queue_def split: prod.split)

lemma keeps_o_emit: "(\<And>r e. c (with_rt r e) = c e) \<Longrightarrow> keeps (\<lambda>s. c (o_engine s)) (o_emit ev)"
  by (simp add: keeps_def o_emit_def Let_def split: option.split)

lemma keeps_new_job: "(\<And>r e. c (with_rt r e) = c e) \<Longrightarrow> keeps (\<lambda>s. c (o_engine s)) (new_job inst cid f t sz p)"
  unfolding new_job_def by (rule keeps_on_o_rt)

lemma keeps_on_bp: "keeps (\<lambda>s. c (o_engine s)) (on_bp m)"
  unfolding on_bp_def by (rule keeps_on_part) simp

lemma keeps_submit_job: "(\<And>r e. c (with_rt r e) = c e) \<Longrightarrow> keeps (\<lambda>s. c (o_engine s)) (submit_job pr j)"
  unfolding submit_job_def by (intro keeps_rules keeps_update keeps_on_o_rt keeps_on_queue) simp_all

lemma keeps_api_rest: "(\<And>r e. c (with_rt r e) = c e) \<Longrightarrow> keeps (\<lambda>s. c (o_engine s)) (api_rest pr inst op)"
  by (cases op; simp only: api_rest.simps; intro keeps_rules keeps_on_o_rt keeps_o_emit keeps_new_job keeps_submit_job; assumption)

lemma keeps_pressure_check:
  assumes "\<And>r e. c (with_rt r e) = c e" "\<And>e. c (e\<lparr>mg_poisoned := True\<rparr>) = c e"
  shows "keeps (\<lambda>s. c (o_engine s)) run_pressure_check"
proof -
  have one: "keeps (\<lambda>s. c (o_engine s)) (candidate_of p cid)" for p cid
    unfolding candidate_of_def by (intro keeps_rules keeps_on_o_rt keeps_on_engine keeps_ask assms(1))
  have "keeps (\<lambda>s. c (o_engine s)) (locked (\<lambda>s. filter_map_act (candidate_of p) (chunks_in_state (o_sm s) Stored) s))" for p
    by (rule keeps_locked, rule keeps_state, rule keeps_filter_map, rule one) (simp add: poison_def assms(2))
  then show ?thesis unfolding keeps_def run_pressure_check_def find_migration_candidates_def by simp
qed

lemma keeps_shutdown: "(\<And>r e. c (with_rt r e) = c e) \<Longrightarrow> keeps (\<lambda>s. c (o_engine s)) (shutdown b)"
proof -
  assume c: "\<And>r e. c (with_rt r e) = c e"
  have "keeps (\<lambda>s. c (o_engine s)) (\<lambda>s. if o_started s then if b then (Ok (), s\<lparr>o_started := False\<rparr>)
      else fail (Internal [Lit ''shutdown signal already sent'']) (s\<lparr>o_started := False\<rparr>) else (Ok (), s))"
    by (simp add: keeps_def fail_def)
  then show ?thesis unfolding shutdown_def by (intro keeps_bind keeps_on_o_rt keeps_update) (simp_all add: c)
qed

lemma keeps_start: "(\<And>r e. c (with_rt r e) = c e) \<Longrightarrow> keeps (\<lambda>s. c (o_engine s)) start"
  unfolding start_def by (intro keeps_bind keeps_update keeps_on_o_rt) simp_all

lemma keeps_decay: "(\<And>h e. c (e\<lparr>mg_hotness := h\<rparr>) = c e) \<Longrightarrow> keeps c (on_part mg_hotness (\<lambda>h e. e\<lparr>mg_hotness := h\<rparr>) m)"
  by (rule keeps_on_part)

lemma keeps_auto_candidates:
  assumes c: "\<And>r e. c (with_rt r e) = c e" "\<And>a e. c (set_active a e) = c e"
  shows "keeps (\<lambda>s. c (o_engine s)) (submit_candidates pr inst ms)"
proof (induction ms)
  case (Cons m ms)
  have active: "keeps (\<lambda>s. c (o_engine s)) (on_engine (mark_active cid))" for cid
    unfolding mark_active_def by (rule keeps_on_engine, rule keeps_update) (rule c(2))
  have body: "keeps (\<lambda>s. c (o_engine s)) (bind_act (new_job inst (pm_chunk m) (pm_from m) (pm_to m) (pm_size m) (pm_priority m)) (\<lambda>job.
              bind_act (catch_act (bind_act (on_o_rt now_ms) (\<lambda>ts. on_queue (submit_priority pr ts job)))) (\<lambda>r.
              bind_act (case r of Inl _ \<Rightarrow> ret () | Inr _ \<Rightarrow> on_engine (mark_active (pm_chunk m))) (\<lambda>_.
              submit_candidates pr inst ms))))"
    by (intro keeps_rules keeps_sum keeps_new_job keeps_on_o_rt keeps_on_queue active Cons.IH) (rule c(1))+
  show ?case unfolding submit_candidates.simps ret_def [symmetric] if_distrib [of "\<lambda>m. m _", symmetric]
    by (intro keeps_bind keeps_on_bp keeps_if Cons.IH keeps_state [of _ "\<lambda>s. if _ s then _ else _"] keeps_ret body)
qed (simp add: keeps_ret)

lemma keeps_auto_round:
  assumes "\<And>r e. c (with_rt r e) = c e" "\<And>a e. c (set_active a e) = c e" "\<And>st e. c (e\<lparr>mg_stats := st\<rparr>) = c e" "\<And>h e. c (e\<lparr>mg_hotness := h\<rparr>) = c e"
  shows "keeps (\<lambda>s. c (o_engine s)) (auto_migration_round pr expo inst)"
  unfolding auto_migration_round_def [abs_def]
  by (rule keeps_state, intro keeps_bind keeps_on_engine keeps_evaluate_migrations keeps_auto_candidates keeps_decay) (rule assms)+

subsection \<open>The lifecycle over runs\<close>

text \<open>
  What one step may do to a chunk: an operation moves its own chunk only, a report moves the chunk it
  is about, and nothing else touches the state machine.
\<close>

definition daemon_move :: "orch_op \<Rightarrow> chunk_id \<Rightarrow> chunk_state option \<Rightarrow> chunk_state option \<Rightarrow> bool" where
  "daemon_move op cid a b \<longleftrightarrow> b = a \<or> (case op of
       Api (ApiStore c _ _) \<Rightarrow> c = cid \<and> a \<in> {None, Some Allocated, Some Cached} \<and> b = Some Stored
     | Api (ApiMigrate c _ _ _) \<Rightarrow> c = cid \<and> a \<in> {Some Allocated, Some Stored, Some Cached, Some Failed} \<and> b = Some Migrating
     | Api (ApiEvict c _) \<Rightarrow> c = cid \<and> a = Some Stored \<and> b = Some Evicted
     | Report w \<Rightarrow> wc_chunk_id w = cid \<and> (if wc_success w
         then a \<in> {Some Allocated, Some Cached, Some Migrating, Some Failed} \<and> b = Some Stored
         else a = Some Migrating \<and> b = Some Failed)
     | _ \<Rightarrow> False)"

text \<open>
  A move as the events of the lifecycle: none, one, or two with the stored state in between; a new
  chunk begins as allocated and is written.
\<close>

definition lifecycle_move :: "chunk_state option \<Rightarrow> chunk_state option \<Rightarrow> bool" where
  "lifecycle_move a b \<longleftrightarrow> a = b \<or> (a = None \<and> b = Some Stored)
     \<or> (\<exists>x y. a = Some x \<and> b = Some y \<and> (lifecycle x y \<or> lifecycle x Stored \<and> lifecycle Stored y))"

lemma daemon_move_same [simp]: "daemon_move op cid a a"
  by (simp add: daemon_move_def)

lemma daemon_move_lifecycle: "daemon_move op cid a b \<Longrightarrow> lifecycle_move a b"
  by (auto simp: daemon_move_def lifecycle_move_def split: orch_op.splits api_op.splits if_splits)

lemma api_step_move:
  "daemon_move (Api x) cid (get_state (o_sm s) cid) (get_state (o_sm (snd (api_step pr inst x s))) cid)"
proof (cases "o_poisoned s")
  case True
  then show ?thesis by (simp add: api_step_poisoned daemon_move_def)
next
  case False
  obtain r s1 where g: "api_guard pr x s = (r, s1)" by fastforce
  have rest: "o_sm (snd (api_step pr inst x s)) = o_sm s1"
    using keepsD [OF keeps_api_rest [of mg_sm pr inst x], of s1] g by (simp add: api_step_split bind_act_def split: outcome.split)
  let ?a = "get_state (o_sm s) (api_chunk x)"
  have "get_state (o_sm s1) = get_state (o_sm s) \<or> (\<exists>st. api_target x ?a = Some st \<and> get_state (o_sm s1) = (get_state (o_sm s))(api_chunk x \<mapsto> st))"
    using api_guard_result [OF False, where op = x and pr = pr] g by (auto simp: fun_eq_iff split: option.splits if_splits)
  moreover have "daemon_move (Api x) (api_chunk x) ?a (Some st)" if "api_target x ?a = Some st" for st
    using that by (cases x; cases ?a) (auto simp: daemon_move_def split: if_splits, (cases "the ?a"; simp)+)
  ultimately show ?thesis unfolding rest by (cases "cid = api_chunk x") auto
qed

lemma report_move:
  "daemon_move (Report c) cid (get_state (o_sm s) cid) (get_state (o_sm (snd (handle_completion pr c s))) cid)"
proof -
  define st where "st = (if wc_success c then Stored else Failed)"
  define m where "m = bind_act (catch_act (set_state pr (wc_chunk_id c) st)) (\<lambda>_.
      on_o_rt (log_event (ChunkStateChanged (wc_chunk_id c) Migrating st (wc_timestamp c))))"
  obtain r s1 where t: "set_state pr (wc_chunk_id c) st s = (r, s1)" by fastforce
  have "o_sm (snd (m s)) = o_sm s1"
    using keepsD [OF keeps_on_o_rt [of mg_sm "log_event (ChunkStateChanged (wc_chunk_id c) Migrating st (wc_timestamp c))"], of s1] t
    by (simp add: m_def bind_act_def catch_act_def split: outcome.split)
  then have "o_sm (snd (locked m s)) \<in> {o_sm s, o_sm s1}" using locked_state [of m s] by auto
  moreover have "get_state (o_sm s1) = get_state (o_sm s) \<or> (\<exists>cur. get_state (o_sm s) (wc_chunk_id c) = Some cur \<and> lifecycle cur st
      \<and> get_state (o_sm s1) = (get_state (o_sm s))(wc_chunk_id c \<mapsto> st))"
  proof (cases "get_state (o_sm s) (wc_chunk_id c)")
    case None
    then show ?thesis using t by (auto simp: set_state_def on_sm_def on_engine_def on_part_def bind_act_def transition_def get_state_def)
  next
    case (Some cur)
    then show ?thesis using t set_state_valid [OF Some, of st pr] set_state_invalid [OF Some, of st pr]
      by (cases "is_valid_transition cur st") (auto simp: valid_iff_lifecycle fun_eq_iff split: if_splits)
  qed
  moreover have "daemon_move (Report c) (wc_chunk_id c) (Some cur) (Some st)" if "lifecycle cur st" for cur
    using that by (cases cur) (auto simp: daemon_move_def st_def split: if_splits)
  ultimately have "daemon_move (Report c) cid (get_state (o_sm s) cid) (get_state (o_sm (snd (locked m s))) cid)"
    by (cases "cid = wc_chunk_id c") auto
  then show ?thesis by (simp add: handle_completion_def Let_def m_def st_def)
qed

lemma orch_step_move:
  "daemon_move op cid (get_state (o_sm s) cid) (get_state (o_sm (snd (orch_step pr expo inst op s))) cid)"
proof -
  have same: "daemon_move op cid (get_state (o_sm s) cid) (get_state (o_sm (snd (m s))) cid)"
    if "keeps (\<lambda>s. mg_sm (o_engine s)) m" for m :: "unit orch"
    using keepsD [OF that, of s] by (simp add: daemon_move_def)
  show ?thesis
  proof (cases op)
    case (Api x)
    then show ?thesis by (simp add: api_step_move)
  next
    case (Report c)
    then show ?thesis by (simp add: report_move)
  next
    case AutoRound
    show ?thesis unfolding AutoRound orch_step.simps by (rule same [unfolded AutoRound], rule keeps_auto_round) (simp_all add: set_active_def)
  next
    case PressureCheck
    show ?thesis unfolding PressureCheck orch_step.simps
      by (rule same [unfolded PressureCheck], rule keeps_bind [OF keeps_pressure_check keeps_ret]) simp_all
  next
    case Start
    show ?thesis unfolding Start orch_step.simps by (rule same [unfolded Start], rule keeps_start) simp
  next
    case (Shutdown b)
    show ?thesis unfolding Shutdown orch_step.simps by (rule same [unfolded Shutdown], rule keeps_shutdown) simp
  next
    case TakeJob
    show ?thesis unfolding TakeJob orch_step.simps
      by (rule same [unfolded TakeJob], rule keeps_bind [OF keeps_on_queue keeps_ret]) simp
  qed
qed

lemma orch_run_append: "orch_run pr expo (xs @ ys) s = orch_run pr expo ys (orch_run pr expo xs s)"
  by (induction pr expo xs s rule: orch_run.induct) simp_all

lemma orch_run_take:
  "i < length ops \<Longrightarrow> orch_run pr expo (take (Suc i) ops) s
     = snd (orch_step pr expo (fst (ops ! i)) (snd (ops ! i)) (orch_run pr expo (take i ops) s))"
  by (cases "ops ! i") (simp add: take_Suc_conv_app_nth orch_run_append)

text \<open>
  C3: in every interleaving of client operations, completion reports, auto-migration rounds,
  pressure checks, starts and shutdowns, with failing and panicking steps included, each single step
  changes at most the chunk it is about, and only as the table \<open>daemon_move\<close> says. Every such change
  is an event of the lifecycle, or two with the stored state in between; a tracked chunk stays
  tracked and a new one begins as allocated.
\<close>

theorem daemon_lifecycle:
  assumes "i < length ops"
  shows "daemon_move (snd (ops ! i)) cid (get_state (o_sm (orch_run pr expo (take i ops) s)) cid)
      (get_state (o_sm (orch_run pr expo (take (Suc i) ops) s)) cid)
    \<and> lifecycle_move (get_state (o_sm (orch_run pr expo (take i ops) s)) cid) (get_state (o_sm (orch_run pr expo (take (Suc i) ops) s)) cid)"
  unfolding orch_run_take [OF assms] using daemon_move_lifecycle orch_step_move by blast

theorem daemon_lifecycle_witness:
  "daemon_move AutoRound (ChunkId [1])
     (get_state (o_sm (orch_run Debug (\<lambda>x. x) [(0, Api (ApiEvict (ChunkId [1]) Ram))] demo_orchestrator)) (ChunkId [1]))
     (get_state (o_sm (orch_run Debug (\<lambda>x. x) [(0, Api (ApiEvict (ChunkId [1]) Ram)), (1, AutoRound)] demo_orchestrator)) (ChunkId [1]))"
  using daemon_lifecycle [of 1 "[(0, Api (ApiEvict (ChunkId [1]) Ram)), (1, AutoRound)]" "ChunkId [1]" Debug "\<lambda>x. x" demo_orchestrator]
  by simp

subsection \<open>A poisoned daemon\<close>

text \<open>\<open>frozen\<close>: once the mutex is poisoned it stays so, and the states stay as they are.\<close>

definition frozen :: "orchestrator \<Rightarrow> orchestrator \<Rightarrow> bool" where
  "frozen s t \<longleftrightarrow> (o_poisoned s \<longrightarrow> o_poisoned t \<and> o_sm t = o_sm s)"

interpretation freezing: step_preorder frozen
  by unfold_locales (auto simp: frozen_def)

lemma frozen_keeps: "keeps (\<lambda>s. (mg_sm (o_engine s), mg_poisoned (o_engine s))) m \<Longrightarrow> moves frozen m"
  by (erule moves_keeps) (simp add: frozen_def)

lemma frozen_locked: "moves frozen (locked m)"
  by (simp add: moves_def frozen_def)

lemma orch_step_frozen: "moves frozen (orch_step pr expo inst op)"
proof (cases op)
  case (Api x)
  show ?thesis unfolding Api orch_step.simps by (simp add: moves_def frozen_def api_step_poisoned)
next
  case (Report c)
  show ?thesis unfolding Report orch_step.simps handle_completion_def Let_def by (rule frozen_locked)
next
  case AutoRound
  show ?thesis unfolding AutoRound orch_step.simps
    by (rule frozen_keeps, rule keeps_auto_round [of "\<lambda>e. (mg_sm e, mg_poisoned e)"]) (simp_all add: set_active_def)
next
  case PressureCheck
  have "moves frozen (find_migration_candidates p)" for p
    using frozen_locked [of "\<lambda>s. filter_map_act (candidate_of p) (chunks_in_state (o_sm s) Stored) s"]
    by (simp add: moves_def find_migration_candidates_def freezing.R_refl)
  then have "moves frozen run_pressure_check" by (simp add: moves_def run_pressure_check_def freezing.R_refl)
  then show ?thesis unfolding PressureCheck orch_step.simps by (intro freezing.moves_bind freezing.moves_ret)
next
  case Start
  show ?thesis unfolding Start orch_step.simps by (rule frozen_keeps, rule keeps_start [of "\<lambda>e. (mg_sm e, mg_poisoned e)"]) simp
next
  case (Shutdown b)
  show ?thesis unfolding Shutdown orch_step.simps by (rule frozen_keeps, rule keeps_shutdown [of "\<lambda>e. (mg_sm e, mg_poisoned e)"]) simp
next
  case TakeJob
  show ?thesis unfolding TakeJob orch_step.simps
    by (rule frozen_keeps, rule keeps_bind [OF keeps_on_queue [of "\<lambda>e. (mg_sm e, mg_poisoned e)"] keeps_ret]) simp
qed

lemma orch_run_frozen: "frozen s (orch_run pr expo ops s)"
proof (induction ops arbitrary: s)
  case (Cons x ops)
  obtain inst op where x: "x = (inst, op)" by fastforce
  show ?case using freezing.R_trans [OF movesD [OF orch_step_frozen [of pr expo inst op], of s] Cons.IH] by (simp add: x)
qed (simp add: freezing.R_refl)

text \<open>
  In the debug profile, storing a chunk that was evicted, or evicting one that is cached, brings the
  whole daemon down for good: the call panics with the state machine locked, and after any further
  steps every operation on every chunk panics and every chunk is in the state it was in.
\<close>

theorem panic_poisons_daemon:
  assumes "\<not> o_poisoned s" "api_panics op (get_state (o_sm s) (api_chunk op))"
  shows "\<exists>s1. api_step Debug inst op s = (Panic, s1)
    \<and> get_state (o_sm (orch_run Debug expo ops s1)) = get_state (o_sm s)
    \<and> (\<forall>inst' op'. api_step Debug inst' op' (orch_run Debug expo ops s1) = (Panic, orch_run Debug expo ops s1))"
proof -
  have "api_target op (get_state (o_sm s) (api_chunk op)) = None" using assms(2) by (cases op) auto
  then have "api_step Debug inst op s = (Panic, poison s)" using api_step_refused [OF assms(1), of op Debug inst] assms(2) by simp
  moreover have "frozen (poison s) (orch_run Debug expo ops (poison s))" by (rule orch_run_frozen)
  ultimately show ?thesis by (intro exI [of _ "poison s"]) (simp add: frozen_def api_step_poisoned)
qed

theorem panic_poisons_daemon_witness:
  "\<exists>s1. api_step Debug 0 (ApiStore (ChunkId [1]) Ram [7]) (with_state (ChunkId [1]) Evicted demo_orchestrator) = (Panic, s1)
     \<and> fst (api_step Debug 2 (ApiRetrieve (ChunkId [2]) Ram) (orch_run Debug (\<lambda>x. x) [(1, Start)] s1)) = Panic"
proof -
  let ?s = "with_state (ChunkId [1]) Evicted demo_orchestrator"
  have 1: "\<not> o_poisoned ?s" using demo_orchestrator_ok(4) by (simp add: with_state_def)
  have 2: "api_panics (ApiStore (ChunkId [1]) Ram [7]) (get_state (o_sm ?s) (api_chunk (ApiStore (ChunkId [1]) Ram [7])))" by simp
  from panic_poisons_daemon [OF 1 2, of 0 "\<lambda>x. x" "[(1, Start)]"] show ?thesis by (metis fst_conv)
qed

subsection \<open>The bound on active migrations\<close>

definition load_view :: "migration_engine \<Rightarrow> migration_config \<times> chunk_id fset" where
  "load_view e = (mg_config e, mg_active e)"

lemma load_view_simps [simp]:
  "load_view (with_rt r e) = load_view e" "load_view (e\<lparr>mg_stats := st\<rparr>) = load_view e" "load_view (e\<lparr>mg_hotness := h\<rparr>) = load_view e"
  "load_view (e\<lparr>mg_sm := sm\<rparr>) = load_view e" "load_view (e\<lparr>mg_poisoned := b\<rparr>) = load_view e"
  by (simp_all add: load_view_def)

definition loaded :: "migration_config \<Rightarrow> nat \<Rightarrow> orchestrator \<Rightarrow> bool" where
  "loaded K n s \<longleftrightarrow> (case load_view (o_engine s) of (k, a) \<Rightarrow> k = K \<and> fcard a \<le> n)"

definition below_capacity :: "migration_config \<Rightarrow> nat \<Rightarrow> orchestrator \<Rightarrow> bool" where
  "below_capacity K n s \<longleftrightarrow> (case load_view (o_engine s) of (k, a) \<Rightarrow> k = K \<and> fcard a \<le> n \<and> fcard a < unat (max_concurrent_migrations k))"

lemma loaded_keeps: "keeps (\<lambda>s. load_view (o_engine s)) m \<Longrightarrow> stays (loaded K n) m (loaded K n)"
  unfolding loaded_def [abs_def] by (rule stays_keeps)

lemma below_keeps: "keeps (\<lambda>s. load_view (o_engine s)) m \<Longrightarrow> stays (below_capacity K n) m (below_capacity K n)"
  unfolding below_capacity_def [abs_def] by (rule stays_keeps)

lemma below_loaded: "below_capacity K n s \<Longrightarrow> loaded K n s"
  by (auto simp: below_capacity_def loaded_def)

lemma stays_mark_active:
  assumes "unat (max_concurrent_migrations K) \<le> n"
  shows "stays (below_capacity K n) (on_engine (mark_active cid)) (loaded K n)"
  using assms fcard_finsert_le
  by (auto simp: stays_def below_capacity_def loaded_def load_view_def mark_active_def on_engine_def on_part_def update_act_def set_active_def
      fcard_finsert_if)

lemma loaded_candidates:
  assumes "unat (max_concurrent_migrations K) \<le> n"
  shows "stays (loaded K n) (submit_candidates pr inst ms) (loaded K n)"
proof (induction ms)
  case (Cons m ms)
  let ?c = "\<lambda>s. load_view (o_engine s)"
  have submit: "keeps ?c (catch_act (bind_act (on_o_rt now_ms) (\<lambda>ts. on_queue (submit_priority pr ts job))))" for job
    by (intro keeps_rules keeps_on_o_rt keeps_on_queue) simp_all
  have mark: "stays (below_capacity K n) (case r of Inl _ \<Rightarrow> ret () | Inr _ \<Rightarrow> on_engine (mark_active cid)) (loaded K n)" for r :: "ghost_error + unit" and cid
    using stays_mark_active [OF assms] by (cases r) (simp_all add: stays_def ret_def below_loaded)
  have body: "stays (below_capacity K n) (bind_act (new_job inst (pm_chunk m) (pm_from m) (pm_to m) (pm_size m) (pm_priority m)) (\<lambda>job.
              bind_act (catch_act (bind_act (on_o_rt now_ms) (\<lambda>ts. on_queue (submit_priority pr ts job)))) (\<lambda>r.
              bind_act (case r of Inl _ \<Rightarrow> ret () | Inr _ \<Rightarrow> on_engine (mark_active (pm_chunk m))) (\<lambda>_.
              submit_candidates pr inst ms)))) (loaded K n)"
    by (rule stays_bind [OF below_keeps [OF keeps_new_job]], simp, rule stays_bind [OF below_keeps [OF submit]], rule stays_bind [OF mark],
        rule Cons.IH) (simp_all add: below_loaded)
  have "below_capacity K n s" if "loaded K n s" "has_capacity (o_engine s)" for s
    using that by (auto simp: below_capacity_def loaded_def has_capacity_def engine_active_count_def load_view_def)
  then have rest: "stays (loaded K n) (if \<not> ok then submit_candidates pr inst ms
       else (\<lambda>s. if \<not> has_capacity (o_engine s) then (Ok (), s)
         else bind_act (new_job inst (pm_chunk m) (pm_from m) (pm_to m) (pm_size m) (pm_priority m)) (\<lambda>job.
              bind_act (catch_act (bind_act (on_o_rt now_ms) (\<lambda>ts. on_queue (submit_priority pr ts job)))) (\<lambda>r.
              bind_act (case r of Inl _ \<Rightarrow> ret () | Inr _ \<Rightarrow> on_engine (mark_active (pm_chunk m))) (\<lambda>_.
              submit_candidates pr inst ms))) s)) (loaded K n)" for ok
    using body Cons.IH by (simp add: stays_def)
  show ?case unfolding submit_candidates.simps by (rule stays_bind [OF loaded_keeps [OF keeps_on_bp] rest])
qed (simp add: stays_def ret_def)

lemma keeps_load_sm: "keeps (\<lambda>s. load_view (o_engine s)) (on_sm m)"
  unfolding on_sm_def by (rule keeps_on_engine, rule keeps_on_part) simp

lemma keeps_load_set: "keeps (\<lambda>s. load_view (o_engine s)) (set_state pr cid st)"
  unfolding set_state_def by (intro keeps_rules keeps_load_sm)

lemma keeps_load_locked: "keeps (\<lambda>s. load_view (o_engine s)) m \<Longrightarrow> keeps (\<lambda>s. load_view (o_engine s)) (locked m)"
  by (erule keeps_locked) (simp add: poison_def)

lemma keeps_load_guard: "keeps (\<lambda>s. load_view (o_engine s)) (api_guard pr op)"
proof -
  have reg: "keeps (\<lambda>s. load_view (o_engine s)) (bind_act (on_sm (\<lambda>sm. register sm cid)) (\<lambda>_. set_state pr cid Stored))"
    "keeps (\<lambda>s. load_view (o_engine s)) (bind_act (set_state pr cid st) (\<lambda>_. set_state pr cid st'))" for cid st st'
    by (intro keeps_bind keeps_load_sm keeps_load_set)+
  show ?thesis
    by (cases op; simp add: store_register_def check_readable_def begin_migration_def mark_evicted_def; rule keeps_load_locked)
       (auto simp: keeps_def fail_def keepsD [OF reg(1)] keepsD [OF reg(2)] keepsD [OF keeps_load_set] split: option.split chunk_state.split)
qed

lemma orch_step_loaded:
  assumes "unat (max_concurrent_migrations K) \<le> n"
  shows "stays (loaded K n) (orch_step pr expo inst op) (loaded K n)"
proof (cases op)
  case (Api x)
  show ?thesis unfolding Api orch_step.simps api_step_split
    by (rule loaded_keeps, rule keeps_bind [OF keeps_load_guard], rule keeps_api_rest) simp
next
  case (Report c)
  show ?thesis unfolding Report orch_step.simps handle_completion_def Let_def
    by (rule loaded_keeps, rule keeps_load_locked, intro keeps_rules keeps_load_set keeps_on_o_rt) simp
next
  case AutoRound
  have eval: "keeps (\<lambda>s. load_view (o_engine s)) (on_engine (evaluate_migrations pr p))" for p
    by (rule keeps_on_engine, rule keeps_evaluate_migrations) simp_all
  have decay: "keeps (\<lambda>s. load_view (o_engine s)) (on_engine (on_part mg_hotness (\<lambda>h e. e\<lparr>mg_hotness := h\<rparr>) (decay_all expo)))"
    by (rule keeps_on_engine, rule keeps_decay) simp
  have "stays (loaded K n) (bind_act (on_engine (evaluate_migrations pr p)) (\<lambda>ms. bind_act (submit_candidates pr inst ms) (\<lambda>_.
     on_engine (on_part mg_hotness (\<lambda>h e. e\<lparr>mg_hotness := h\<rparr>) (decay_all expo))))) (loaded K n)" for p
    by (rule stays_bind [OF loaded_keeps [OF eval] stays_bind [OF loaded_candidates [OF assms] loaded_keeps [OF decay]]])
  then show ?thesis by (simp add: AutoRound stays_def auto_migration_round_def)
next
  case PressureCheck
  show ?thesis unfolding PressureCheck orch_step.simps by (rule loaded_keeps, intro keeps_rules keeps_pressure_check) simp_all
next
  case Start
  show ?thesis unfolding Start orch_step.simps by (rule loaded_keeps, rule keeps_start) simp
next
  case (Shutdown b)
  show ?thesis unfolding Shutdown orch_step.simps by (rule loaded_keeps, rule keeps_shutdown) simp
next
  case TakeJob
  show ?thesis unfolding TakeJob orch_step.simps by (rule loaded_keeps, intro keeps_rules keeps_on_queue) simp
qed

lemma orch_run_loaded: "unat (max_concurrent_migrations K) \<le> n \<Longrightarrow> loaded K n s \<Longrightarrow> loaded K n (orch_run pr expo ops s)"
proof (induction ops arbitrary: s)
  case (Cons x ops)
  obtain inst op where x: "x = (inst, op)" by fastforce
  show ?case using Cons.IH [OF Cons.prems(1) staysD [OF orch_step_loaded [OF Cons.prems(1)] Cons.prems(2)]] by (simp add: x)
qed simp

text \<open>
  C4: in every interleaving of the daemon's steps the number of active migrations never exceeds the
  configured maximum, or the number there was at the beginning if that is larger: a migration is
  marked active only while there is capacity.
\<close>

theorem active_migrations_bounded:
  "engine_active_count (o_engine (orch_run pr expo ops s))
     \<le> max (engine_active_count (o_engine s)) (unat (max_concurrent_migrations (mg_config (o_engine s))))"
  using orch_run_loaded [of "mg_config (o_engine s)" "max (engine_active_count (o_engine s)) (unat (max_concurrent_migrations (mg_config (o_engine s))))" s pr expo ops]
  by (simp add: loaded_def load_view_def engine_active_count_def)

end
