(* ===== verification/Wire.thy ===== *)
theory Wire
  imports Effects Core_Types
begin

text \<open>
  Bytes on a wire: fixed-width integers in little and big endian, readers over the remaining bytes
  of a stream, and the contract of a codec as a locale, from which the round trip of a sequence of
  items follows once.
\<close>

section \<open>Integers as bytes\<close>

fun le_digits :: "nat \<Rightarrow> nat \<Rightarrow> bytes" where
  "le_digits 0 n = []"
| "le_digits (Suc k) n = of_nat (n mod 256) # le_digits k (n div 256)"

fun le_value :: "bytes \<Rightarrow> nat" where
  "le_value [] = 0"
| "le_value (b # bs) = unat b + 256 * le_value bs"

text \<open>\<^verbatim>\<open>to_le_bytes\<close>, \<^verbatim>\<open>from_le_bytes\<close>, \<^verbatim>\<open>to_be_bytes\<close> and \<^verbatim>\<open>from_be_bytes\<close> of an integer of \<open>k\<close> bytes.\<close>

definition to_le :: "nat \<Rightarrow> 'a::len word \<Rightarrow> bytes" where
  "to_le k w = le_digits k (unat w)"

definition from_le :: "bytes \<Rightarrow> 'a::len word" where
  "from_le bs = of_nat (le_value bs)"

definition to_be :: "nat \<Rightarrow> 'a::len word \<Rightarrow> bytes" where
  "to_be k w = rev (to_le k w)"

definition from_be :: "bytes \<Rightarrow> 'a::len word" where
  "from_be bs = from_le (rev bs)"

lemma length_le_digits [simp]: "length (le_digits k n) = k"
  by (induction k arbitrary: n) simp_all

lemma le_value_digits: "le_value (le_digits k n) = n mod 256 ^ k"
proof (induction k arbitrary: n)
  case (Suc k)
  have "unat (of_nat (n mod 256) :: u8) = n mod 256" by (simp add: unat_of_nat)
  then show ?case using Suc by (simp add: mod_mult2_eq)
qed simp

lemma length_to_le [simp]: "length (to_le k w) = k"
  by (simp add: to_le_def)

lemma length_to_be [simp]: "length (to_be k w) = k"
  by (simp add: to_be_def)

lemma from_to_le:
  assumes "LENGTH('a::len) \<le> 8 * k"
  shows "from_le (to_le k (w :: 'a word)) = w"
proof -
  have "unat w < 2 ^ LENGTH('a)" by (rule unsigned_less)
  also have "(2 :: nat) ^ LENGTH('a) \<le> 2 ^ (8 * k)" using assms by (rule power_increasing) simp
  also have "(2 :: nat) ^ (8 * k) = 256 ^ k" by (simp add: power_mult)
  finally show ?thesis by (simp add: from_le_def to_le_def le_value_digits)
qed

lemma from_to_be: "LENGTH('a::len) \<le> 8 * k \<Longrightarrow> from_be (to_be k (w :: 'a word)) = w"
  by (simp add: from_be_def to_be_def from_to_le)

lemma le_digits_value: "le_digits (length bs) (le_value bs) = bs"
proof (induction bs)
  case (Cons b bs)
  have "unat b < 256" using unsigned_less [of b] by simp
  then show ?case using Cons by simp
qed simp

lemma le_value_less: "le_value bs < 256 ^ length bs"
proof (induction bs)
  case (Cons b bs)
  have "unat b < 256" using unsigned_less [of b] by simp
  then show ?case using Cons by simp
qed simp

lemma to_from_le:
  assumes "length bs = k" "8 * k = LENGTH('a::len)"
  shows "to_le k (from_le bs :: 'a word) = bs"
proof -
  have "le_value bs < 2 ^ LENGTH('a)" using le_value_less [of bs] assms by (simp add: power_mult flip: assms(2))
  then have "unat (from_le bs :: 'a word) = le_value bs" by (simp add: from_le_def unat_of_nat)
  then show ?thesis using le_digits_value [of bs] assms(1) by (simp add: to_le_def)
qed

lemma to_from_be: "length bs = k \<Longrightarrow> 8 * k = LENGTH('a::len) \<Longrightarrow> to_be k (from_be bs :: 'a word) = bs"
  by (simp add: to_be_def from_be_def to_from_le)

section \<open>Readers\<close>

type_synonym 'a reader = "(bytes, 'a, ghost_error) act"

definition eof :: ghost_error where
  "eof = Io [Lit ''failed to fill whole buffer'']"

text \<open>\<^verbatim>\<open>read_exact\<close>: at the end of the stream the remaining bytes are consumed.\<close>

definition read_exact :: "nat \<Rightarrow> bytes reader" where
  "read_exact n bs = (if n \<le> length bs then (Ok (take n bs), drop n bs) else (Err eof, []))"

definition read_le :: "nat \<Rightarrow> 'a::len word reader" where
  "read_le k = bind_act (read_exact k) (\<lambda>bs. ret (from_le bs))"

lemma read_exact_append [simp]: "length xs = n \<Longrightarrow> read_exact n (xs @ rest) = (Ok xs, rest)"
  by (simp add: read_exact_def)

lemma read_exact_short: "length bs < n \<Longrightarrow> read_exact n bs = (Err eof, [])"
  by (simp add: read_exact_def)

lemma read_le_append: "LENGTH('a::len) \<le> 8 * k \<Longrightarrow> read_le k (to_le k (w :: 'a word) @ rest) = (Ok w, rest)"
  by (simp add: read_le_def bind_act_def ret_def from_to_le)

lemma bind_read_exact [simp]: "length xs = n \<Longrightarrow> bind_act (read_exact n) f (xs @ rest) = f xs rest"
  by (simp add: bind_act_def)

lemma bind_read_all [simp]: "bind_act (read_exact (length xs)) f xs = f xs []"
  by (simp add: bind_act_def read_exact_def)

lemma bind_read_le: "LENGTH('a::len) \<le> 8 * k \<Longrightarrow> bind_act (read_le k) f (to_le k (w :: 'a word) @ rest) = f w rest"
  by (simp add: bind_act_def read_le_append)

section \<open>Codecs\<close>

text \<open>Reading \<open>n\<close> items one after the other.\<close>

fun read_many :: "'a reader \<Rightarrow> nat \<Rightarrow> 'a list reader" where
  "read_many rd 0 = ret []"
| "read_many rd (Suc n) = bind_act rd (\<lambda>x. bind_act (read_many rd n) (\<lambda>xs. ret (x # xs)))"

text \<open>
  The contract of an encoding: every value it admits is read back, and the reader stops exactly
  where the encoding ended.
\<close>

locale codec =
  fixes admits :: "'a \<Rightarrow> bool" and encode :: "'a \<Rightarrow> bytes" and decode :: "'a reader"
  assumes decode_encode: "admits x \<Longrightarrow> decode (encode x @ rest) = (Ok x, rest)"
begin

lemma decode_many: "list_all admits xs \<Longrightarrow> read_many decode (length xs) (concat (map encode xs) @ rest) = (Ok xs, rest)"
  by (induction xs) (simp_all add: ret_def bind_act_def decode_encode)

lemma encode_inj:
  assumes "admits x" "admits y" "encode x @ r = encode y @ s"
  shows "x = y \<and> r = s"
proof -
  have "(Ok x :: ('a, ghost_error) outcome, r) = decode (encode x @ r)" by (rule decode_encode [OF assms(1), symmetric])
  also have "\<dots> = decode (encode y @ s)" by (simp only: assms(3))
  also have "\<dots> = (Ok y, s)" by (rule decode_encode [OF assms(2)])
  finally show ?thesis by simp
qed

text \<open>No admitted encoding is a proper prefix of another, so a stream can be cut in one way only.\<close>

lemma stream_inj:
  "list_all admits xs \<Longrightarrow> list_all admits ys \<Longrightarrow> length xs = length ys \<Longrightarrow> concat (map encode xs) @ r = concat (map encode ys) @ s
     \<Longrightarrow> xs = ys \<and> r = s"
proof (induction xs ys rule: list_induct2')
  case (4 x xs y ys)
  then have "x = y \<and> concat (map encode xs) @ r = concat (map encode ys) @ s" by (intro encode_inj) simp_all
  with 4 show ?case by auto
qed auto

end

interpretation le64: codec "\<lambda>_. True" "to_le 8" "read_le 8 :: u64 reader"
  by unfold_locales (simp add: read_le_append)

end
