(* ===== verification/Ipc_Frame.thy ===== *)
theory Ipc_Frame
  imports Wire
begin

text \<open>
  \<^verbatim>\<open>ghost-ipc/src/frame.rs\<close>: length-prefixed frames. The stream is the list of the bytes that are in
  flight; writing appends to it and reading takes from its front. Errors of the transport other
  than its end are not modelled.
\<close>

definition MAX_FRAME_SIZE :: usize where
  "MAX_FRAME_SIZE = 256 * 1024 * 1024"

text \<open>\<^verbatim>\<open>as u32\<close> truncates the length.\<close>

definition write_frame :: "bytes \<Rightarrow> (bytes, unit, ghost_error) act" where
  "write_frame data = bind_act (update_act (\<lambda>s. s @ to_be 4 (of_nat (length data) :: u32))) (\<lambda>_.
     update_act (\<lambda>s. s @ data))"

text \<open>\<^verbatim>\<open>map_err\<close> turns the end of the stream into an IPC error.\<close>

definition read_or :: "string \<Rightarrow> nat \<Rightarrow> bytes reader" where
  "read_or msg n bs = (case read_exact n bs of
       (Ok b, rest) \<Rightarrow> (Ok b, rest)
     | (Err e, rest) \<Rightarrow> (Err (IpcError [Lit msg]), rest)
     | (Panic, rest) \<Rightarrow> (Panic, rest))"

definition read_frame :: "bytes reader" where
  "read_frame = bind_act (read_or ''connection closed while reading frame length'' 4) (\<lambda>len_buf.
     let len = ucast (from_be len_buf :: u32) :: usize in
     if len > MAX_FRAME_SIZE
     then fail (IpcError [Lit ''frame size '', FmtNat (unat len), Lit '' exceeds maximum allowed size '', FmtNat (unat MAX_FRAME_SIZE)])
     else read_or ''connection closed while reading frame payload'' (unat len))"

definition frame :: "bytes \<Rightarrow> bytes" where
  "frame data = to_be 4 (of_nat (length data) :: u32) @ data"

definition fits_frame :: "bytes \<Rightarrow> bool" where
  "fits_frame data \<longleftrightarrow> length data \<le> unat MAX_FRAME_SIZE"

lemma write_frame_eq: "write_frame data s = (Ok (), s @ frame data)"
  by (simp add: write_frame_def bind_act_def update_act_def frame_def)

lemma read_or_append: "length xs = n \<Longrightarrow> read_or msg n (xs @ rest) = (Ok xs, rest)"
  by (simp add: read_or_def)

lemma read_or_short: "length bs < n \<Longrightarrow> read_or msg n bs = (Err (IpcError [Lit msg]), [])"
  by (simp add: read_or_def read_exact_short)

lemma max_frame [simp]: "unat MAX_FRAME_SIZE = 268435456"
  by (simp add: MAX_FRAME_SIZE_def)

text \<open>Reading a header announces the length modulo \<open>2\<^sup>3\<^sup>2\<close>.\<close>

lemma read_frame_header:
  "read_frame (to_be 4 (of_nat n :: u32) @ rest) =
     (if n mod 2 ^ 32 > 268435456
      then (Err (IpcError [Lit ''frame size '', FmtNat (n mod 2 ^ 32), Lit '' exceeds maximum allowed size '', FmtNat 268435456]), rest)
      else read_or ''connection closed while reading frame payload'' (n mod 2 ^ 32) rest)"
proof -
  let ?len = "ucast (of_nat n :: u32) :: usize"
  have len: "unat ?len = n mod 2 ^ 32" by (simp add: unat_of_nat unsigned_ucast_eq take_bit_nat_def)
  have "?len > MAX_FRAME_SIZE \<longleftrightarrow> n mod 2 ^ 32 > 268435456" using len max_frame by (simp only: word_less_nat_alt)
  then show ?thesis
    using len by (simp add: read_frame_def bind_act_def read_or_append from_to_be fail_def Let_def)
qed

interpretation frames: codec fits_frame frame read_frame
  by unfold_locales (simp add: frame_def fits_frame_def read_frame_header read_or_append)

text \<open>
  C17: frames written one after the other are read back as they were written, whatever else is in
  the stream behind them, as long as each payload is within the limit of 256 MB.
\<close>

theorem frames_roundtrip:
  assumes "list_all fits_frame msgs"
  shows "\<exists>s. foldl (\<lambda>s m. snd (write_frame m s)) [] msgs = s \<and> read_many read_frame (length msgs) (s @ rest) = (Ok msgs, rest)"
proof -
  have "foldl (\<lambda>s m. snd (write_frame m s)) s msgs = s @ concat (map frame msgs)" for s
    by (induction msgs arbitrary: s) (simp_all add: write_frame_eq)
  then show ?thesis using frames.decode_many [OF assms, of rest] by simp
qed

theorem frames_roundtrip_witness:
  "\<exists>s. foldl (\<lambda>s m. snd (write_frame m s)) [] [[1, 2, 3], [], [255]] = s
     \<and> read_many read_frame (length [[1, 2, 3], [], [255 :: u8]]) (s @ [9]) = (Ok [[1, 2, 3], [], [255]], [9])"
  by (rule frames_roundtrip) (simp add: fits_frame_def)

text \<open>
  C18: a reader never returns anything but a payload that was framed. On every stream it either
  returns a payload within the limit whose frame is a prefix of the stream and leaves the rest, or
  it fails with an IPC error; it never panics.
\<close>

theorem read_frame_sound:
  "case read_frame bs of
     (Ok data, rest) \<Rightarrow> bs = frame data @ rest \<and> fits_frame data
   | (Err e, rest) \<Rightarrow> (\<exists>m. e = IpcError m) \<and> (\<nexists>data rest. fits_frame data \<and> bs = frame data @ rest)
   | (Panic, rest) \<Rightarrow> False"
proof (cases "length bs < 4")
  case True
  have "bs \<noteq> frame data @ rest" for data rest using True by (auto simp: frame_def)
  then show ?thesis using True by (simp add: read_frame_def bind_act_def read_or_short)
next
  case False
  define n where "n = unat (from_be (take 4 bs) :: u32)"
  have n: "n < 2 ^ 32" "(of_nat n :: u32) = from_be (take 4 bs)" using unsigned_less [of "from_be (take 4 bs) :: u32"] by (auto simp: n_def)
  have bs: "bs = to_be 4 (of_nat n :: u32) @ drop 4 bs" using False n(2) to_from_be [of "take 4 bs" 4, where 'a = 32] by simp
  have head: "n = length data mod 2 ^ 32" if "bs = frame data @ rest" for data rest
    using that False by (simp add: n_def frame_def from_to_be unat_of_nat)
  have run: "read_frame bs = (if n > 268435456
      then (Err (IpcError [Lit ''frame size '', FmtNat n, Lit '' exceeds maximum allowed size '', FmtNat 268435456]), drop 4 bs)
      else read_or ''connection closed while reading frame payload'' n (drop 4 bs))"
    using n(1) by (subst bs, subst read_frame_header) simp
  consider "n > 268435456" | "n \<le> 268435456" "n \<le> length (drop 4 bs)" | "n \<le> 268435456" "length (drop 4 bs) < n" by linarith
  then show ?thesis
  proof cases
    case 1
    then show ?thesis using run head by (fastforce simp: fits_frame_def)
  next
    case 2
    then have "read_or ''connection closed while reading frame payload'' n (drop 4 bs) = (Ok (take n (drop 4 bs)), drop n (drop 4 bs))"
      by (simp add: read_or_def read_exact_def)
    moreover have "bs = frame (take n (drop 4 bs)) @ drop n (drop 4 bs)"
      using bs 2(2) by (simp add: frame_def min_def del: drop_drop)
    ultimately show ?thesis using run 2 by (simp add: fits_frame_def del: drop_drop)
  next
    case 3
    have "\<not> (fits_frame data \<and> bs = frame data @ rest)" for data rest
      using head [of data rest] 3 by (auto simp: fits_frame_def frame_def)
    then show ?thesis using run 3 by (auto simp: read_or_short)
  qed
qed

end
