(* ===== verification/Trace_File.thy ===== *)
theory Trace_File
  imports Wire Job_Serde
begin

unbundle bit_operations_syntax

text \<open>
  \<^verbatim>\<open>ghost-replay/src/format.rs\<close>, \<^verbatim>\<open>writer.rs\<close> and \<^verbatim>\<open>reader.rs\<close>: the binary trace file. A file is a list of
  bytes with a position; its size stays within 64 bits and opening, writing and seeking do not
  fail, so that the end of the file is the only I/O error. Arguments that stand for libraries:
  \<open>ser\<close> and \<open>de\<close> (the serialisation of events, \<open>event_ser\<close> and \<open>event_de\<close> over bincode), \<open>to_json\<close> and \<open>of_json\<close> (serde on the metadata) and \<open>crc\<close>
  (crc32fast). The texts of errors leave out the texts of the library errors in them.
\<close>

type_synonym u16 = "16 word"

section \<open>Domains and the header\<close>

datatype domain = CpuSimulation | DiskIo | FailureInjected | Deterministic | RealIo

fun to_byte :: "domain \<Rightarrow> u8" where
  "to_byte CpuSimulation = 0"
| "to_byte DiskIo = 1"
| "to_byte FailureInjected = 2"
| "to_byte Deterministic = 3"
| "to_byte RealIo = 4"

definition from_byte :: "u8 \<Rightarrow> domain option" where
  "from_byte b = (if b = 0 then Some CpuSimulation else if b = 1 then Some DiskIo else if b = 2 then Some FailureInjected
     else if b = 3 then Some Deterministic else if b = 4 then Some RealIo else None)"

fun display_domain :: "domain \<Rightarrow> string" where
  "display_domain CpuSimulation = ''cpu-simulation''"
| "display_domain DiskIo = ''disk-io''"
| "display_domain FailureInjected = ''failure-injected''"
| "display_domain Deterministic = ''deterministic''"
| "display_domain RealIo = ''real-io''"

text \<open>\<^verbatim>\<open>b"GHOSTTRC"\<close>\<close>

definition TRACE_MAGIC :: bytes where
  "TRACE_MAGIC = [71, 72, 79, 83, 84, 84, 82, 67]"

definition TRACE_VERSION :: u16 where
  "TRACE_VERSION = 1"

definition TRACE_VERSION_WITH_DOMAINS :: u16 where
  "TRACE_VERSION_WITH_DOMAINS = 2"

definition COMPRESSED :: u16 where
  "COMPRESSED = 1"

definition HAS_CHECKSUM :: u16 where
  "HAS_CHECKSUM = 2"

record trace_file_header =
  magic :: bytes
  version :: u16
  hdr_flags :: u16
  chunk_count :: u64
  hdr_created_at :: u64
  metadata_offset :: u64
  domains :: "domain list"

definition HEADER_SIZE :: nat where
  "HEADER_SIZE = 8 + 2 + 2 + 8 + 8 + 8 + 2"

definition header_new :: "u16 \<Rightarrow> u64 \<Rightarrow> u64 \<Rightarrow> u64 \<Rightarrow> trace_file_header" where
  "header_new fl n created off = \<lparr>magic = TRACE_MAGIC, version = TRACE_VERSION, hdr_flags = fl, chunk_count = n,
     hdr_created_at = created, metadata_offset = off, domains = []\<rparr>"

definition header_with_domains :: "u16 \<Rightarrow> u64 \<Rightarrow> u64 \<Rightarrow> u64 \<Rightarrow> domain list \<Rightarrow> trace_file_header" where
  "header_with_domains fl n created off ds = \<lparr>magic = TRACE_MAGIC, version = TRACE_VERSION_WITH_DOMAINS, hdr_flags = fl,
     chunk_count = n, hdr_created_at = created, metadata_offset = off, domains = ds\<rparr>"

definition write_header :: "trace_file_header \<Rightarrow> bytes" where
  "write_header h = magic h @ to_le 2 (version h) @ to_le 2 (hdr_flags h) @ to_le 8 (chunk_count h) @ to_le 8 (hdr_created_at h)
     @ to_le 8 (metadata_offset h) @ to_le 2 (of_nat (length (domains h)) :: u16) @ map to_byte (domains h)"

text \<open>\<^verbatim>\<open>read_exact_or_eof\<close>: none at the end of the file, also when some bytes were left.\<close>

definition read_exact_or_eof :: "nat \<Rightarrow> bytes option reader" where
  "read_exact_or_eof n bs = (case read_exact n bs of
       (Ok b, rest) \<Rightarrow> (Ok (Some b), rest)
     | (Err e, rest) \<Rightarrow> (Ok None, rest)
     | (Panic, rest) \<Rightarrow> (Panic, rest))"

definition read_header :: "trace_file_header reader" where
  "read_header =
     bind_act (read_exact 8) (\<lambda>mg.
     if mg \<noteq> TRACE_MAGIC then fail (ReplayError [Lit ''invalid trace file magic: expected GHOSTTRC''])
     else
       bind_act (read_le 2) (\<lambda>ver.
       bind_act (read_le 2) (\<lambda>fl.
       bind_act (read_le 8) (\<lambda>n.
       bind_act (read_le 8) (\<lambda>created.
       bind_act (read_le 8) (\<lambda>off.
       bind_act (bind_act (read_exact_or_eof 2) (\<lambda>b. case b of
           None \<Rightarrow> ret []
         | Some len \<Rightarrow> bind_act (read_exact (unat (from_le len :: u16))) (\<lambda>ds. ret (List.map_filter from_byte ds)))) (\<lambda>ds.
       ret \<lparr>magic = mg, version = ver, hdr_flags = fl, chunk_count = n, hdr_created_at = created,
            metadata_offset = off, domains = ds\<rparr>)))))))"

definition is_compressed :: "trace_file_header \<Rightarrow> bool" where
  "is_compressed h = (hdr_flags h AND COMPRESSED \<noteq> 0)"

definition has_checksum :: "trace_file_header \<Rightarrow> bool" where
  "has_checksum h = (hdr_flags h AND HAS_CHECKSUM \<noteq> 0)"

section \<open>Records and metadata\<close>

record file_record =
  tr_timestamp :: u64
  tr_event_type :: u16
  tr_payload_len :: u32
  tr_payload :: bytes
  tr_crc32 :: u32

definition write_record :: "file_record \<Rightarrow> bytes" where
  "write_record r = to_le 8 (tr_timestamp r) @ to_le 2 (tr_event_type r) @ to_le 4 (tr_payload_len r) @ tr_payload r @ to_le 4 (tr_crc32 r)"

definition read_record :: "file_record option reader" where
  "read_record =
     bind_act (read_exact_or_eof 8) (\<lambda>b. case b of
       None \<Rightarrow> ret None
     | Some ts \<Rightarrow>
         bind_act (read_le 2) (\<lambda>et.
         bind_act (read_le 4) (\<lambda>len.
         bind_act (read_exact (unat len)) (\<lambda>payload.
         bind_act (read_le 4) (\<lambda>c.
         ret (Some \<lparr>tr_timestamp = from_le ts, tr_event_type = et, tr_payload_len = len, tr_payload = payload, tr_crc32 = c\<rparr>))))))"

record trace_metadata =
  total_events :: u64
  total_chunks :: u64
  tier_ids :: "tier_id list"
  time_range :: "u64 \<times> u64"
  tm_policy_name :: string
  config_summary :: string

definition write_metadata :: "(trace_metadata \<Rightarrow> bytes option) \<Rightarrow> trace_metadata \<Rightarrow> bytes ghost_result" where
  "write_metadata to_json m = (case to_json m of
       None \<Rightarrow> Err (ReplayError [Lit ''failed to serialize metadata''])
     | Some json \<Rightarrow> Ok (to_le 8 (of_nat (length json) :: u64) @ json))"

definition read_metadata :: "(bytes \<Rightarrow> trace_metadata option) \<Rightarrow> trace_metadata reader" where
  "read_metadata of_json = bind_act (read_le 8) (\<lambda>len. bind_act (read_exact (unat (len :: u64))) (\<lambda>json.
     case of_json json of None \<Rightarrow> fail (ReplayError [Lit ''failed to deserialize metadata'']) | Some m \<Rightarrow> ret m))"

section \<open>The writer\<close>

record trace_writer =
  w_file :: bytes
  w_pos :: nat
  w_header :: trace_file_header
  w_record_count :: u64
  w_current_time_secs :: u64

type_synonym 'a writing = "(trace_writer, 'a, ghost_error) act"

definition write_all :: "bytes \<Rightarrow> unit writing" where
  "write_all bs = update_act (\<lambda>w. w\<lparr>w_file := take (w_pos w) (w_file w) @ bs @ drop (w_pos w + length bs) (w_file w),
     w_pos := w_pos w + length bs\<rparr>)"

definition create_with_domains :: "u16 \<Rightarrow> domain list \<Rightarrow> trace_writer" where
  "create_with_domains fl ds = (let h = header_with_domains fl 0 0 0 ds in
     \<lparr>w_file = write_header h, w_pos = length (write_header h), w_header = h, w_record_count = 0, w_current_time_secs = 0\<rparr>)"

primrec event_type_index :: "trace_event \<Rightarrow> u16" where
  "event_type_index (ChunkCreated a b c d) = 0"
| "event_type_index (ChunkDeleted a b c) = 1"
| "event_type_index (ChunkStateChanged a b c d) = 2"
| "event_type_index (TransferQueued a b c d e) = 3"
| "event_type_index (TransferStarted a b) = 4"
| "event_type_index (TransferCompleted a b c d e f) = 5"
| "event_type_index (TransferFailed a b c d e f) = 6"
| "event_type_index (TransferRetry a b c d e) = 7"
| "event_type_index (TransferCancelled a b c d) = 8"
| "event_type_index (PressureSample a b) = 9"
| "event_type_index (PressureAlert a b c d) = 10"
| "event_type_index (Eviction a b c d) = 11"
| "event_type_index (PolicyDecision a b c d e) = 12"
| "event_type_index (DaemonStarted a) = 13"
| "event_type_index (DaemonStopping a) = 14"
| "event_type_index (BackendRegistered a b) = 15"
| "event_type_index (WorkerSpawned a b) = 16"
| "event_type_index (WorkerStopped a b) = 17"
| "event_type_index (IpcRequestReceived a b) = 18"
| "event_type_index (IpcResponseSent a b c) = 19"
| "event_type_index (IpcConnectionAccepted a) = 20"
| "event_type_index (IpcConnectionClosed a) = 21"
| "event_type_index (CompressionStarted a b c) = 22"
| "event_type_index (CompressionCompleted a b c d) = 23"
| "event_type_index (DecompressionStarted a b c) = 24"
| "event_type_index (DecompressionCompleted a b c d) = 25"
| "event_type_index (BackendDegraded a b c) = 26"
| "event_type_index (BackendRecovered a b) = 27"
| "event_type_index (MigrationRolledBack a b c d e) = 28"
| "event_type_index (RetryExhausted a b c d e) = 29"
| "event_type_index (PressureEscalated a b c d) = 30"
| "event_type_index (AllocationFailed a b c d) = 31"
| "event_type_index (QueueThrottled a b c) = 32"
| "event_type_index (PromotionQueued a b c d) = 33"
| "event_type_index (EvictionQueued a b c d) = 34"
| "event_type_index (BackpressureActivated a b c d) = 35"
| "event_type_index (BackpressureReleased a b c d) = 36"
| "event_type_index (MetricsExported a b) = 37"

definition write_event :: "profile \<Rightarrow> (trace_event \<Rightarrow> bytes option) \<Rightarrow> (bytes \<Rightarrow> u32) \<Rightarrow> trace_event \<Rightarrow> unit writing" where
  "write_event pr ser crc ev = (case ser ev of
       None \<Rightarrow> fail (ReplayError [Lit ''failed to serialize event''])
     | Some payload \<Rightarrow>
         bind_act (write_all (write_record \<lparr>tr_timestamp = timestamp ev, tr_event_type = event_type_index ev,
           tr_payload_len = of_nat (length payload), tr_payload = payload, tr_crc32 = crc payload\<rparr>)) (\<lambda>_ w.
         bind_act (lift_outcome (add_pr pr (w_record_count w) 1)) (\<lambda>n. update_act (\<lambda>w. w\<lparr>w_record_count := n\<rparr>)) w))"

fun write_events :: "profile \<Rightarrow> (trace_event \<Rightarrow> bytes option) \<Rightarrow> (bytes \<Rightarrow> u32) \<Rightarrow> trace_event list \<Rightarrow> unit writing" where
  "write_events pr ser crc [] = ret ()"
| "write_events pr ser crc (ev # evs) = bind_act (write_event pr ser crc ev) (\<lambda>_. write_events pr ser crc evs)"

text \<open>\<open>close_trace\<close> consumes the writer; the file is what the state holds at the end.\<close>

definition close_trace :: "(trace_metadata \<Rightarrow> bytes option) \<Rightarrow> trace_metadata \<Rightarrow> unit writing" where
  "close_trace to_json meta w =
     (let off = (of_nat (w_pos w) :: u64) in
      bind_act (lift_outcome (write_metadata to_json meta)) (\<lambda>m.
      bind_act (write_all m) (\<lambda>_.
      bind_act (update_act (\<lambda>w. w\<lparr>w_pos := 0\<rparr>)) (\<lambda>_ w.
      write_all (write_header (header_with_domains (hdr_flags (w_header w)) (w_record_count w) (w_current_time_secs w) off
        (domains (w_header w)))) w))) w)"

section \<open>The reader\<close>

record trace_reader =
  r_file :: bytes
  r_pos :: nat
  r_header :: trace_file_header
  current_index :: u64
  header_size :: nat

type_synonym 'a reading = "(trace_reader, 'a, ghost_error) act"

definition open_trace :: "bytes \<Rightarrow> trace_reader ghost_result" where
  "open_trace file = (case read_header file of
       (Ok h, rest) \<Rightarrow> Ok \<lparr>r_file = file, r_pos = length file - length rest, r_header = h, current_index = 0,
                          header_size = HEADER_SIZE + 2 + length (domains h)\<rparr>
     | (Err e, _) \<Rightarrow> Err e
     | (Panic, _) \<Rightarrow> Panic)"

definition on_stream :: "'a reader \<Rightarrow> 'a reading" where
  "on_stream m s = (case m (drop (r_pos s) (r_file s)) of (a, rest) \<Rightarrow> (a, s\<lparr>r_pos := length (r_file s) - length rest\<rparr>))"

definition next_record :: "message \<Rightarrow> file_record reader" where
  "next_record msg = bind_act read_record (\<lambda>r. case r of None \<Rightarrow> fail (ReplayError msg) | Some x \<Rightarrow> ret x)"

definition crc_mismatch :: "nat \<Rightarrow> u32 \<Rightarrow> u32 \<Rightarrow> ghost_error" where
  "crc_mismatch i want got = ReplayError [Lit ''CRC32 mismatch at record '', FmtNat i, Lit '': expected '', FmtNat (unat want),
     Lit '', got '', FmtNat (unat got)]"

definition decode_record :: "(nat \<Rightarrow> bytes \<Rightarrow> trace_event option) \<Rightarrow> (bytes \<Rightarrow> u32) \<Rightarrow> bool \<Rightarrow> nat \<Rightarrow> file_record \<Rightarrow> trace_event ghost_result" where
  "decode_record de crc check i r =
     (if check \<and> crc (tr_payload r) \<noteq> tr_crc32 r then Err (crc_mismatch i (tr_crc32 r) (crc (tr_payload r)))
      else case de i (tr_payload r) of
             None \<Rightarrow> Err (ReplayError [Lit ''failed to deserialize event at record '', FmtNat i])
           | Some ev \<Rightarrow> Ok ev)"

definition read_next :: "(nat \<Rightarrow> bytes \<Rightarrow> trace_event option) \<Rightarrow> (bytes \<Rightarrow> u32) \<Rightarrow> trace_event option reading" where
  "read_next de crc s =
     (if current_index s \<ge> chunk_count (r_header s) then (Ok None, s)
      else bind_act (on_stream (next_record [Lit ''unexpected EOF at record '', FmtNat (unat (current_index s)), Lit '' of '',
               FmtNat (unat (chunk_count (r_header s)))])) (\<lambda>r.
           bind_act (lift_outcome (decode_record de crc (has_checksum (r_header s)) (unat (current_index s)) r)) (\<lambda>ev.
           bind_act (update_act (\<lambda>s. s\<lparr>current_index := current_index s + 1\<rparr>)) (\<lambda>_. ret (Some ev)))) s)"

lemma on_stream_fields: "on_stream m s = (a, s') \<Longrightarrow> r_header s' = r_header s \<and> current_index s' = current_index s \<and> r_file s' = r_file s"
  by (auto simp: on_stream_def split: prod.splits)

lemma next_index:
  assumes "(i :: u64) < n"
  shows "unat (i + 1) = Suc (unat i)"
proof -
  have "unat i < unat n" "unat n < 2 ^ 64" using assms unsigned_less [of n] by (auto simp: word_less_nat_alt)
  then show ?thesis using unat_add_fits [of i 1] by simp
qed

lemma read_next_advances:
  assumes "read_next de crc s = (Ok (Some ev), s')"
  shows "r_header s' = r_header s \<and> current_index s < chunk_count (r_header s) \<and> current_index s' = current_index s + 1"
  using assms by (auto simp: read_next_def bind_act_Ok_iff ret_def update_act_def lift_outcome_def dest!: on_stream_fields split: if_splits)

function read_rest :: "(nat \<Rightarrow> bytes \<Rightarrow> trace_event option) \<Rightarrow> (bytes \<Rightarrow> u32) \<Rightarrow> trace_event list reading" where
  "read_rest de crc s = (case read_next de crc s of
       (Ok None, s') \<Rightarrow> (Ok [], s')
     | (Ok (Some ev), s') \<Rightarrow> (case read_rest de crc s' of
           (Ok evs, t) \<Rightarrow> (Ok (ev # evs), t) | (Err e, t) \<Rightarrow> (Err e, t) | (Panic, t) \<Rightarrow> (Panic, t))
     | (Err e, s') \<Rightarrow> (Err e, s')
     | (Panic, s') \<Rightarrow> (Panic, s'))"
  by auto

termination
  by (relation "measure (\<lambda>(_, _, s). unat (chunk_count (r_header s)) - unat (current_index s))")
     (auto simp: next_index word_less_nat_alt dest!: read_next_advances [OF sym])

declare read_rest.simps [simp del]

text \<open>
  \<^verbatim>\<open>read_all\<close> reserves room for as many events as the header counts; \<^verbatim>\<open>Vec::with_capacity\<close> panics when
  that is more than \<open>isize::MAX\<close> bytes. \<open>esz\<close> is the size of an event in memory, which the compiler chooses.
\<close>

definition read_all :: "nat \<Rightarrow> (nat \<Rightarrow> bytes \<Rightarrow> trace_event option) \<Rightarrow> (bytes \<Rightarrow> u32) \<Rightarrow> trace_event list reading" where
  "read_all esz de crc s = (if unat (chunk_count (r_header s)) * esz < 2 ^ 63 then read_rest de crc s else (Panic, s))"

text \<open>
  \<^verbatim>\<open>seek_to_timestamp\<close>: after a read the file is rewound to \<^verbatim>\<open>header_size\<close> first; then records are passed
  over until one is late enough, which is unread by seeking back over its size.
\<close>

definition seek_step :: "u64 \<Rightarrow> bool reading" where
  "seek_step ts = bind_act (on_stream (next_record [Lit ''unexpected EOF during seek''])) (\<lambda>r.
     if tr_timestamp r \<ge> ts
     then bind_act (update_act (\<lambda>s. s\<lparr>r_pos := r_pos s - (8 + 2 + 4 + length (tr_payload r) + 4)\<rparr>)) (\<lambda>_. ret True)
     else bind_act (update_act (\<lambda>s. s\<lparr>current_index := current_index s + 1\<rparr>)) (\<lambda>_. ret False))"

lemma seek_step_advances:
  "seek_step ts s = (Ok False, s') \<Longrightarrow> r_header s' = r_header s \<and> current_index s' = current_index s + 1"
  by (auto simp: seek_step_def bind_act_Ok_iff ret_def update_act_def dest!: on_stream_fields split: if_splits)

function seek_scan :: "u64 \<Rightarrow> unit reading" where
  "seek_scan ts s = (if current_index s < chunk_count (r_header s)
     then (case seek_step ts s of
         (Ok True, s') \<Rightarrow> (Ok (), s')
       | (Ok False, s') \<Rightarrow> seek_scan ts s'
       | (Err e, s') \<Rightarrow> (Err e, s')
       | (Panic, s') \<Rightarrow> (Panic, s'))
     else (Ok (), s))"
  by auto
termination
  by (relation "measure (\<lambda>(_, s). unat (chunk_count (r_header s)) - unat (current_index s))")
     (auto simp: next_index word_less_nat_alt dest!: seek_step_advances [OF sym])

declare seek_scan.simps [simp del]

definition seek_to_timestamp :: "u64 \<Rightarrow> unit reading" where
  "seek_to_timestamp ts = bind_act (update_act (\<lambda>s. if current_index s > 0 then s\<lparr>r_pos := header_size s, current_index := 0\<rparr> else s))
     (\<lambda>_. seek_scan ts)"

text \<open>
  \<^verbatim>\<open>metadata\<close>: what it returns. It reads through a second buffer over the same file handle, whose offset
  it leaves behind the metadata; the reads below come before it.
\<close>

definition reader_metadata :: "(bytes \<Rightarrow> trace_metadata option) \<Rightarrow> trace_reader \<Rightarrow> trace_metadata ghost_result" where
  "reader_metadata of_json s = fst (read_metadata of_json (drop (unat (metadata_offset (r_header s))) (r_file s)))"

definition reader_record_count :: "trace_reader \<Rightarrow> u64" where
  "reader_record_count s = chunk_count (r_header s)"

section \<open>Round trips\<close>

lemma from_to_byte [simp]: "from_byte (to_byte d) = Some d"
  by (cases d) (simp_all add: from_byte_def)

lemma map_filter_domains [simp]: "List.map_filter from_byte (map to_byte ds) = ds"
  by (induction ds) (simp_all add: List.map_filter_def)

definition header_ok :: "trace_file_header \<Rightarrow> bool" where
  "header_ok h \<longleftrightarrow> magic h = TRACE_MAGIC \<and> length (domains h) < 2 ^ 16"

interpretation headers: codec header_ok write_header read_header
proof
  fix h rest assume "header_ok h"
  then have h: "magic h = TRACE_MAGIC" "unat (of_nat (length (domains h)) :: u16) = length (domains h)"
    by (simp_all add: header_ok_def unat_of_nat)
  have "length (magic h) = 8" by (simp add: h TRACE_MAGIC_def)
  then show "read_header (write_header h @ rest) = (Ok h, rest)"
    by (simp add: read_header_def write_header_def h bind_read_le read_exact_or_eof_def bind_act_def [of "bind_act _ _"]
        bind_act_def [of "read_exact_or_eof _"] from_to_le ret_def)
qed

definition record_ok :: "file_record \<Rightarrow> bool" where
  "record_ok r \<longleftrightarrow> unat (tr_payload_len r) = length (tr_payload r)"

interpretation records: codec record_ok write_record "next_record msg" for msg
proof
  fix r rest assume "record_ok r"
  then show "next_record msg (write_record r @ rest) = (Ok r, rest)"
    by (simp add: next_record_def read_record_def write_record_def record_ok_def bind_read_le read_exact_or_eof_def
        bind_act_def [of "bind_act _ _"] bind_act_def [of "read_exact_or_eof _"] from_to_le ret_def)
qed

subsection \<open>Writing\<close>

definition record_of :: "(bytes \<Rightarrow> u32) \<Rightarrow> trace_event \<Rightarrow> bytes \<Rightarrow> file_record" where
  "record_of crc ev p = \<lparr>tr_timestamp = timestamp ev, tr_event_type = event_type_index ev, tr_payload_len = of_nat (length p),
     tr_payload = p, tr_crc32 = crc p\<rparr>"

definition event_file_record :: "(trace_event \<Rightarrow> bytes option) \<Rightarrow> (bytes \<Rightarrow> u32) \<Rightarrow> trace_event \<Rightarrow> file_record" where
  "event_file_record ser crc ev = record_of crc ev (the (ser ev))"

definition event_bytes :: "(trace_event \<Rightarrow> bytes option) \<Rightarrow> (bytes \<Rightarrow> u32) \<Rightarrow> trace_event \<Rightarrow> bytes" where
  "event_bytes ser crc ev = write_record (event_file_record ser crc ev)"

lemma record_ok_event: "faithful lser lde ev \<Longrightarrow> record_ok (event_file_record (event_ser lser) crc ev)"
  by (erule faithfulE) (simp add: record_ok_def event_file_record_def record_of_def unat_of_nat)

lemma write_all_end:
  "w_pos w = length (w_file w) \<Longrightarrow> write_all bs w = (Ok (), w\<lparr>w_file := w_file w @ bs, w_pos := length (w_file w @ bs)\<rparr>)"
  by (simp add: write_all_def update_act_def)

lemma write_event_end:
  assumes "faithful lser lde ev" "w_pos w = length (w_file w)" "pr = Release \<or> unat (w_record_count w) + 1 < 2 ^ 64"
  shows "write_event pr (event_ser lser) crc ev w = (Ok (), w\<lparr>w_file := w_file w @ write_record (event_file_record (event_ser lser) crc ev),
      w_pos := length (w_file w @ write_record (event_file_record (event_ser lser) crc ev)), w_record_count := w_record_count w + 1\<rparr>)"
proof -
  obtain p where "event_ser lser ev = Some p" using assms(1) by (rule faithfulE)
  then show ?thesis using assms(2,3)
    by (auto simp: write_event_def bind_act_def write_all_end event_file_record_def record_of_def lift_outcome_def add_pr_def checked_def update_act_def)
qed

lemma write_events_end:
  assumes "list_all (faithful lser lde) evs" "w_pos w = length (w_file w)" "pr = Release \<or> unat (w_record_count w) + length evs < 2 ^ 64"
  shows "write_events pr (event_ser lser) crc evs w = (Ok (), w\<lparr>w_file := w_file w @ concat (map (event_bytes (event_ser lser) crc) evs),
      w_pos := length (w_file w @ concat (map (event_bytes (event_ser lser) crc) evs)), w_record_count := w_record_count w + of_nat (length evs)\<rparr>)"
  using assms
proof (induction evs arbitrary: w)
  case (Cons ev evs)
  have n: "pr = Release \<or> unat (w_record_count w) + 1 < 2 ^ 64" using Cons.prems(3) by auto
  have m: "pr = Release \<or> unat (w_record_count w + 1) + length evs < 2 ^ 64"
    using Cons.prems(3) unat_add_fits [of "w_record_count w" 1] by auto
  show ?case
    using write_event_end [OF _ Cons.prems(2) n, of lser lde ev crc] Cons.prems m
      Cons.IH [of "w\<lparr>w_file := w_file w @ write_record (event_file_record (event_ser lser) crc ev),
        w_pos := length (w_file w @ write_record (event_file_record (event_ser lser) crc ev)), w_record_count := w_record_count w + 1\<rparr>"]
    by (simp add: bind_act_def add_ac event_bytes_def)
qed (simp add: ret_def)

definition write_trace ::
  "profile \<Rightarrow> (trace_event \<Rightarrow> bytes option) \<Rightarrow> (bytes \<Rightarrow> u32) \<Rightarrow> (trace_metadata \<Rightarrow> bytes option) \<Rightarrow> u16 \<Rightarrow> domain list \<Rightarrow> trace_event list
   \<Rightarrow> trace_metadata \<Rightarrow> unit ghost_result \<times> bytes" where
  "write_trace pr ser crc to_json fl ds evs meta =
     (case bind_act (write_events pr ser crc evs) (\<lambda>_. close_trace to_json meta) (create_with_domains fl ds) of (r, w) \<Rightarrow> (r, w_file w))"

lemma length_write_header: "length (magic h) = 8 \<Longrightarrow> length (write_header h) = HEADER_SIZE + length (domains h)"
  by (simp add: write_header_def HEADER_SIZE_def)

lemma header_with_fields [simp]:
  "hdr_flags (header_with_domains fl n c off ds) = fl" "domains (header_with_domains fl n c off ds) = ds"
  "chunk_count (header_with_domains fl n c off ds) = n" "metadata_offset (header_with_domains fl n c off ds) = off"
  "magic (header_with_domains fl n c off ds) = TRACE_MAGIC"
  by (simp_all add: header_with_domains_def)

lemma length_header_with: "length (write_header (header_with_domains fl n c off ds)) = HEADER_SIZE + length ds"
  by (simp add: length_write_header TRACE_MAGIC_def)

lemma write_trace_file:
  fixes crc :: "bytes \<Rightarrow> u32"
  assumes "list_all (faithful lser lde) evs" "pr = Release \<or> length evs < 2 ^ 64" "to_json meta = Some json"
  defines "recs \<equiv> concat (map (event_bytes (event_ser lser) crc) evs)"
  shows "write_trace pr (event_ser lser) crc to_json fl ds evs meta = (Ok (), write_header (header_with_domains fl (of_nat (length evs)) 0
      (of_nat (HEADER_SIZE + length ds + length recs)) ds) @ recs @ to_le 8 (of_nat (length json) :: u64) @ json)"
proof -
  let ?w = "create_with_domains fl ds"
  have "w_pos ?w = length (w_file ?w)" "w_record_count ?w = 0" by (simp_all add: create_with_domains_def Let_def)
  from write_events_end [OF assms(1) this(1), of pr crc] assms(2) this(2)
  have "write_events pr (event_ser lser) crc evs ?w = (Ok (), ?w\<lparr>w_file := w_file ?w @ recs, w_pos := length (w_file ?w @ recs), w_record_count := of_nat (length evs)\<rparr>)"
    by (simp add: recs_def)
  then show ?thesis
    by (simp add: write_trace_def bind_act_def close_trace_def write_metadata_def assms(3) lift_outcome_def write_all_def update_act_def
        Let_def create_with_domains_def length_header_with)
qed

subsection \<open>Reading\<close>

lemma on_stream_prefix:
  assumes "drop (r_pos s) (r_file s) = xs @ rest" "xs \<noteq> []" "m (xs @ rest) = (Ok a, rest)"
  shows "on_stream m s = (Ok a, s\<lparr>r_pos := r_pos s + length xs\<rparr>)"
proof -
  have "r_pos s < length (r_file s)" using assms(1,2) by (metis append_is_Nil_conv drop_all leI)
  moreover have "length (r_file s) - r_pos s = length xs + length rest" using arg_cong [OF assms(1), of length] by simp
  ultimately show ?thesis using assms(3) by (simp add: on_stream_def assms(1))
qed

lemma write_record_nonempty [simp]: "write_record r \<noteq> []"
  by (metis append_is_Nil_conv length_to_le list.size(3) write_record_def zero_neq_numeral)

lemma drop_record:
  assumes "drop (r_pos s) (r_file s) = xs @ rest"
  shows "drop (r_pos s + length xs) (r_file s) = rest"
proof -
  have "drop (length xs) (drop (r_pos s) (r_file s)) = rest" unfolding assms by simp
  then show ?thesis by (simp add: add.commute)
qed

lemma on_stream_record:
  assumes "drop (r_pos s) (r_file s) = write_record r @ rest" "record_ok r"
  shows "on_stream (next_record msg) s = (Ok r, s\<lparr>r_pos := r_pos s + length (write_record r)\<rparr>)"
  by (rule on_stream_prefix [OF assms(1)]) (simp_all add: records.decode_encode [OF assms(2)])

lemma read_next_record:
  assumes "drop (r_pos s) (r_file s) = write_record r @ rest" "record_ok r" "current_index s < chunk_count (r_header s)"
    and "decode_record de crc (has_checksum (r_header s)) (unat (current_index s)) r = Ok ev"
  shows "read_next de crc s = (Ok (Some ev), s\<lparr>r_pos := r_pos s + length (write_record r), current_index := current_index s + 1\<rparr>)"
proof -
  show ?thesis using assms(3,4)
    by (simp add: on_stream_record [OF assms(1,2)] read_next_def bind_act_def lift_outcome_def update_act_def ret_def not_le)
qed

lemma decode_event: "faithful lser lde ev \<Longrightarrow> decode_record (event_de lde inst) crc check i (event_file_record (event_ser lser) crc ev) = Ok (restamp (inst i) ev)"
  by (erule faithfulE) (simp add: decode_record_def event_file_record_def record_of_def)

lemma read_rest_records:
  assumes "list_all (faithful lser lde) evs" "drop (r_pos s) (r_file s) = concat (map (event_bytes (event_ser lser) crc) evs) @ rest"
    and "unat (current_index s) + length evs = unat (chunk_count (r_header s))"
  shows "fst (read_rest (event_de lde inst) crc s) = Ok (restamped inst (unat (current_index s)) evs)"
  using assms
proof (induction evs arbitrary: s)
  case Nil
  then have "read_next (event_de lde inst) crc s = (Ok None, s)" by (simp add: read_next_def word_le_nat_alt)
  then show ?case by (simp add: read_rest.simps [of "event_de lde inst" crc s])
next
  case (Cons ev evs)
  let ?r = "event_file_record (event_ser lser) crc ev"
  let ?s = "s\<lparr>r_pos := r_pos s + length (write_record ?r), current_index := current_index s + 1\<rparr>"
  have i: "current_index s < chunk_count (r_header s)" using Cons.prems(3) by (simp add: word_less_nat_alt)
  have d: "drop (r_pos s) (r_file s) = write_record ?r @ concat (map (event_bytes (event_ser lser) crc) evs) @ rest"
    using Cons.prems(2) by (simp add: event_bytes_def [of "event_ser lser" crc ev])
  have f: "faithful lser lde ev" using Cons.prems(1) by simp
  have next1: "read_next (event_de lde inst) crc s = (Ok (Some (restamp (inst (unat (current_index s))) ev)), ?s)"
    by (rule read_next_record [OF d record_ok_event [OF f] i decode_event [OF f]])
  have "drop (r_pos ?s) (r_file ?s) = concat (map (event_bytes (event_ser lser) crc) evs) @ rest" using drop_record [OF d] by simp
  then have "fst (read_rest (event_de lde inst) crc ?s) = Ok (restamped inst (Suc (unat (current_index s))) evs)"
    using Cons.IH [of ?s] Cons.prems(1,3) next_index [OF i] by simp
  then show ?case by (cases "read_rest (event_de lde inst) crc ?s") (simp add: read_rest.simps [of "event_de lde inst" crc s] next1)
qed

lemma length_write_record: "length (write_record r) = 18 + length (tr_payload r)"
  by (simp add: write_record_def)

lemma seek_step_record:
  assumes "drop (r_pos s) (r_file s) = write_record r @ rest" "record_ok r"
  shows "seek_step ts s = (if tr_timestamp r \<ge> ts then (Ok True, s)
    else (Ok False, s\<lparr>r_pos := r_pos s + length (write_record r), current_index := current_index s + 1\<rparr>))"
  by (simp add: seek_step_def bind_act_def on_stream_record [OF assms] update_act_def ret_def length_write_record)

lemma event_file_record_timestamp [simp]: "tr_timestamp (event_file_record (event_ser lser) crc ev) = timestamp ev"
  by (simp add: event_file_record_def record_of_def)

text \<open>
  Scanning forward stops in front of the first record that is late enough.
\<close>

lemma seek_scan_records:
  assumes "list_all (faithful lser lde) evs" "drop (r_pos s) (r_file s) = concat (map (event_bytes (event_ser lser) crc) evs) @ rest"
    and "unat (current_index s) + length evs = unat (chunk_count (r_header s))"
  shows "\<exists>s'. seek_scan ts s = (Ok (), s') \<and> fst (read_rest (event_de lde inst) crc s') = Ok (dropWhile (\<lambda>ev. timestamp ev < ts) (restamped inst (unat (current_index s)) evs))"
  using assms
proof (induction evs arbitrary: s)
  case Nil
  then show ?case using read_rest_records [of lser lde "[]" s crc rest] by (simp add: seek_scan.simps [of ts s] word_less_nat_alt)
next
  case (Cons ev evs)
  let ?r = "event_file_record (event_ser lser) crc ev"
  let ?s = "s\<lparr>r_pos := r_pos s + length (write_record ?r), current_index := current_index s + 1\<rparr>"
  have i: "current_index s < chunk_count (r_header s)" using Cons.prems(3) by (simp add: word_less_nat_alt)
  have d: "drop (r_pos s) (r_file s) = write_record ?r @ concat (map (event_bytes (event_ser lser) crc) evs) @ rest"
    using Cons.prems(2) by (simp add: event_bytes_def [of "event_ser lser" crc ev])
  have st: "seek_step ts s = (if timestamp ev \<ge> ts then (Ok True, s) else (Ok False, ?s))"
    using seek_step_record [OF d] record_ok_event [of lser lde ev crc] Cons.prems(1) by simp
  show ?case
  proof (cases "timestamp ev \<ge> ts")
    case True
    then show ?thesis using read_rest_records [OF Cons.prems] by (simp add: seek_scan.simps [of ts s] i st)
  next
    case False
    then have "timestamp ev < ts" by simp
    moreover have "drop (r_pos ?s) (r_file ?s) = concat (map (event_bytes (event_ser lser) crc) evs) @ rest" using drop_record [OF d] by simp
    ultimately show ?thesis using Cons.IH [of ?s] Cons.prems(1,3) next_index [OF i] False by (simp add: seek_scan.simps [of ts s] i st)
  qed
qed

text \<open>
  A written file opens at its first record; what is left there is the records and the metadata.
\<close>

definition fits :: "(trace_event \<Rightarrow> bytes option) \<Rightarrow> (bytes \<Rightarrow> u32) \<Rightarrow> domain list \<Rightarrow> trace_event list \<Rightarrow> bytes \<Rightarrow> bool" where
  "fits ser crc ds evs json \<longleftrightarrow> length evs < 2 ^ 64 \<and> length ds < 2 ^ 16 \<and> length json < 2 ^ 64
     \<and> HEADER_SIZE + length ds + length (concat (map (event_bytes ser crc) evs)) < 2 ^ 64"

lemma written_trace:
  assumes "list_all (faithful lser lde) evs" "fits (event_ser lser) crc ds evs json" "to_json meta = Some json" "of_json json = Some meta"
  obtains bs r tail where "write_trace pr (event_ser lser) crc to_json fl ds evs meta = (Ok (), bs)" "open_trace bs = Ok r"
    "drop (r_pos r) (r_file r) = concat (map (event_bytes (event_ser lser) crc) evs) @ tail" "current_index r = 0"
    "unat (chunk_count (r_header r)) = length evs" "header_size r = r_pos r + 2" "hdr_flags (r_header r) = fl"
    "reader_metadata of_json r = Ok meta" "r_file r = bs"
proof -
  let ?recs = "concat (map (event_bytes (event_ser lser) crc) evs)"
  let ?h = "header_with_domains fl (of_nat (length evs)) 0 (of_nat (HEADER_SIZE + length ds + length ?recs)) ds"
  let ?meta = "to_le 8 (of_nat (length json) :: u64) @ json"
  let ?file = "write_header ?h @ ?recs @ ?meta"
  let ?r = "\<lparr>r_file = ?file, r_pos = length (write_header ?h), r_header = ?h, current_index = 0, header_size = HEADER_SIZE + 2 + length ds\<rparr>"
  have f: "length evs < 2 ^ 64" "length ds < 2 ^ 16" "length json < 2 ^ 64" "HEADER_SIZE + length ds + length ?recs < 2 ^ 64"
    using assms(2) by (simp_all add: fits_def)
  have w: "write_trace pr (event_ser lser) crc to_json fl ds evs meta = (Ok (), ?file)"
    by (rule write_trace_file [OF assms(1) disjI2 [OF f(1)], where to_json = to_json, OF assms(3)])
  have "header_ok ?h" using f(2) by (simp add: header_ok_def)
  from headers.decode_encode [OF this, of "?recs @ ?meta"] have o: "open_trace ?file = Ok ?r" by (simp add: open_trace_def)
  have off: "unat (metadata_offset ?h) = length (write_header ?h) + length ?recs"
    using f(4) by (simp add: unat_of_nat length_header_with del: of_nat_add)
  have "reader_metadata of_json ?r = Ok meta"
    using assms(4) f(3) off by (simp add: reader_metadata_def read_metadata_def bind_read_le unat_of_nat ret_def)
  with w o f show ?thesis by (intro that [of ?file ?r]) (simp_all add: unat_of_nat length_header_with)
qed

text \<open>
  Serialisers for concrete files: the start of the daemon as its time in eight bytes, the start of the job
  below as one byte and its time, the metadata as no bytes, and a checksum that counts the bytes.
\<close>

definition sample_job :: transfer_job where
  "sample_job = transfer_job_new 100 7 (ChunkId [3]) Ram Disk 64 Normal"

definition start_ser :: "wire_event \<Rightarrow> bytes option" where
  "start_ser w = (case w of
       WirePlain ev \<Rightarrow> (case ev of DaemonStarted t \<Rightarrow> Some (to_le 8 t) | _ \<Rightarrow> None)
     | WireStarted es t \<Rightarrow> if es = serialize_job sample_job then Some (1 # to_le 8 t) else None)"

definition start_de :: "bytes \<Rightarrow> wire_event option" where
  "start_de bs = (if length bs = 8 then Some (WirePlain (DaemonStarted (from_le bs)))
     else if length bs = 9 \<and> hd bs = 1 then Some (WireStarted (serialize_job sample_job) (from_le (tl bs))) else None)"

definition count_sum :: "bytes \<Rightarrow> u32" where
  "count_sum bs = of_nat (length bs)"

definition no_metadata :: trace_metadata where
  "no_metadata = \<lparr>total_events = 0, total_chunks = 0, tier_ids = [], time_range = (0, 0), tm_policy_name = [], config_summary = []\<rparr>"

lemma start_ser_simps [simp]:
  "start_ser (to_wire (DaemonStarted t)) = Some (to_le 8 t)" "start_ser (to_wire (TransferStarted sample_job t)) = Some (1 # to_le 8 t)"
  by (simp_all add: start_ser_def to_wire_def)

lemma start_faithful [simp]: "faithful start_ser start_de (DaemonStarted t)" "faithful start_ser start_de (TransferStarted sample_job t)"
  by (simp_all add: faithful_def start_de_def from_to_le) (simp_all add: to_wire_def)

lemma start_fits:
  "fits (event_ser start_ser) count_sum [DiskIo] [DaemonStarted a, DaemonStarted b] []"
  "fits (event_ser start_ser) count_sum [DiskIo] [DaemonStarted a, TransferStarted sample_job b] []"
  by (simp_all add: fits_def HEADER_SIZE_def event_bytes_def length_write_record event_file_record_def record_of_def event_ser_def)

text \<open>
  C16: what the writer wrote is what the reader reads. A trace file of any events that bincode can write and
  read back, with any flags and domains, opens; reading all of it returns the events, in order, with their
  checksums verified. Each event is the one that was written except that a job in it carries the moment of
  reading as its creation instant. The metadata comes back and the number of records is the number of events.
\<close>

theorem trace_file_roundtrip:
  assumes "list_all (faithful lser lde) evs" "fits (event_ser lser) crc ds evs json" "to_json meta = Some json" "of_json json = Some meta"
    and "length evs * esz < 2 ^ 63"
  shows "\<exists>bs r. write_trace pr (event_ser lser) crc to_json fl ds evs meta = (Ok (), bs) \<and> open_trace bs = Ok r
    \<and> fst (read_all esz (event_de lde inst) crc r) = Ok (restamped inst 0 evs)
    \<and> reader_metadata of_json r = Ok meta \<and> unat (reader_record_count r) = length evs"
proof -
  obtain bs r tail where r: "write_trace pr (event_ser lser) crc to_json fl ds evs meta = (Ok (), bs)" "open_trace bs = Ok r"
    "drop (r_pos r) (r_file r) = concat (map (event_bytes (event_ser lser) crc) evs) @ tail" "current_index r = 0"
    "unat (chunk_count (r_header r)) = length evs" "reader_metadata of_json r = Ok meta"
    by (rule written_trace [where to_json = to_json and of_json = of_json, OF assms(1-4)])
  then have "fst (read_rest (event_de lde inst) crc r) = Ok (restamped inst 0 evs)"
    using read_rest_records [OF assms(1) r(3), of inst] by simp
  with r assms(5) show ?thesis by (intro exI [of _ bs] exI [of _ r]) (simp add: read_all_def reader_record_count_def)
qed

theorem trace_file_roundtrip_witness:
  "\<exists>bs r. write_trace Debug (event_ser start_ser) count_sum (\<lambda>_. Some []) HAS_CHECKSUM [DiskIo] [DaemonStarted 5, TransferStarted sample_job 9]
      no_metadata = (Ok (), bs)
    \<and> open_trace bs = Ok r \<and> fst (read_all 200 (event_de start_de (\<lambda>k. 40 + k)) count_sum r)
      = Ok [DaemonStarted 5, TransferStarted (sample_job\<lparr>created_at := 41\<rparr>) 9]
    \<and> reader_metadata (\<lambda>_. Some no_metadata) r = Ok no_metadata \<and> unat (reader_record_count r) = Suc (Suc 0)"
  using trace_file_roundtrip [of start_ser start_de "[DaemonStarted 5, TransferStarted sample_job 9]" count_sum "[DiskIo]" "[]"
      "\<lambda>_. Some []" no_metadata "\<lambda>_. Some no_metadata" 200 Debug HAS_CHECKSUM "\<lambda>k. 40 + k"]
  by (simp add: start_fits restamp_def)

text \<open>
  Before anything was read, seeking to a time finds it: what is read after it is what is left of the
  events once those before the time are dropped from the front.
\<close>

theorem seek_finds:
  assumes "list_all (faithful lser lde) evs" "fits (event_ser lser) crc ds evs json" "to_json meta = Some json" "of_json json = Some meta"
  shows "\<exists>bs r s. write_trace pr (event_ser lser) crc to_json fl ds evs meta = (Ok (), bs) \<and> open_trace bs = Ok r
    \<and> seek_to_timestamp ts r = (Ok (), s)
    \<and> fst (read_rest (event_de lde inst) crc s) = Ok (dropWhile (\<lambda>ev. timestamp ev < ts) (restamped inst 0 evs))"
proof -
  obtain bs r tail where r: "write_trace pr (event_ser lser) crc to_json fl ds evs meta = (Ok (), bs)" "open_trace bs = Ok r"
    "drop (r_pos r) (r_file r) = concat (map (event_bytes (event_ser lser) crc) evs) @ tail" "current_index r = 0"
    "unat (chunk_count (r_header r)) = length evs"
    by (rule written_trace [where to_json = to_json and of_json = of_json, OF assms(1-4)])
  moreover have "seek_to_timestamp ts r = seek_scan ts r" using r(4) by (simp add: seek_to_timestamp_def bind_act_def update_act_def)
  ultimately show ?thesis using seek_scan_records [OF assms(1) r(3), of ts inst] by auto
qed

text \<open>
  Seeking again after a read does not start at the first record: \<^verbatim>\<open>header_size\<close> counts the two bytes of
  the domain count twice, so that the scan starts two bytes into the first record.
\<close>

theorem seek_again_misaligned:
  assumes "list_all (faithful lser lde) (ev # evs)" "fits (event_ser lser) crc ds (ev # evs) json" "to_json meta = Some json" "of_json json = Some meta"
  shows "\<exists>bs r s t. write_trace pr (event_ser lser) crc to_json fl ds (ev # evs) meta = (Ok (), bs) \<and> open_trace bs = Ok r
    \<and> read_next (event_de lde inst) crc r = (Ok (Some (restamp (inst 0) ev)), s) \<and> seek_to_timestamp ts s = seek_scan ts t
    \<and> current_index t = 0 \<and> r_pos t = r_pos r + 2"
proof -
  obtain bs r tail where r: "write_trace pr (event_ser lser) crc to_json fl ds (ev # evs) meta = (Ok (), bs)" "open_trace bs = Ok r"
    "drop (r_pos r) (r_file r) = concat (map (event_bytes (event_ser lser) crc) (ev # evs)) @ tail" "current_index r = 0"
    "unat (chunk_count (r_header r)) = length (ev # evs)" "header_size r = r_pos r + 2"
    by (rule written_trace [where to_json = to_json and of_json = of_json, OF assms(1-4)])
  let ?r = "event_file_record (event_ser lser) crc ev"
  let ?s = "r\<lparr>r_pos := r_pos r + length (write_record ?r), current_index := current_index r + 1\<rparr>"
  have f: "faithful lser lde ev" using assms(1) by simp
  have d: "drop (r_pos r) (r_file r) = write_record ?r @ concat (map (event_bytes (event_ser lser) crc) evs) @ tail"
    using r(3) by (simp add: event_bytes_def [of "event_ser lser" crc ev])
  have i: "current_index r < chunk_count (r_header r)" using r(4,5) by (simp add: word_less_nat_alt)
  have "read_next (event_de lde inst) crc r = (Ok (Some (restamp (inst 0) ev)), ?s)"
    using read_next_record [OF d record_ok_event [OF f] i decode_event [OF f]] by (simp add: r(4))
  moreover have "seek_to_timestamp ts ?s = seek_scan ts (?s\<lparr>r_pos := header_size r, current_index := 0\<rparr>)"
    by (simp add: seek_to_timestamp_def bind_act_def update_act_def r(4))
  ultimately show ?thesis using r(1,2,6)
    by (intro exI [of _ bs] exI [of _ r] exI [of _ ?s] exI [of _ "?s\<lparr>r_pos := header_size r, current_index := 0\<rparr>"]) simp
qed

text \<open>
  A record whose checksum does not fit its payload is an error in a file with checksums, which names
  the record and both sums; the record is not counted as read.
\<close>

theorem corrupt_record_refused:
  assumes "drop (r_pos s) (r_file s) = write_record r @ rest" "record_ok r" "current_index s < chunk_count (r_header s)"
    and "has_checksum (r_header s)" "crc (tr_payload r) \<noteq> tr_crc32 r"
  shows "\<exists>s'. read_next de crc s = (Err (crc_mismatch (unat (current_index s)) (tr_crc32 r) (crc (tr_payload r))), s')
    \<and> current_index s' = current_index s"
  using assms(3-5)
  by (auto simp: on_stream_record [OF assms(1,2)] read_next_def bind_act_def lift_outcome_def decode_record_def)

definition bad_record :: file_record where
  "bad_record = \<lparr>tr_timestamp = 5, tr_event_type = 13, tr_payload_len = 1, tr_payload = [7], tr_crc32 = 9\<rparr>"

definition bad_reader :: trace_reader where
  "bad_reader = \<lparr>r_file = write_record bad_record, r_pos = 0, r_header = header_with_domains HAS_CHECKSUM 1 0 0 [], current_index = 0, header_size = 0\<rparr>"

theorem corrupt_record_refused_witness:
  "\<exists>s'. read_next (event_de start_de (\<lambda>_. 0)) count_sum bad_reader = (Err (crc_mismatch 0 9 1), s') \<and> current_index s' = 0"
  using corrupt_record_refused [of bad_reader bad_record "[]" count_sum "event_de start_de (\<lambda>_. 0)"]
  by (simp add: bad_reader_def bad_record_def record_ok_def has_checksum_def HAS_CHECKSUM_def count_sum_def)

end
