(* ===== verification/Replay_State.thy ===== *)
theory Replay_State
  imports Effects Chunk_State Pressure_Model Trace
begin

text \<open>
  \<^verbatim>\<open>ghost-replay/src/state_reconstructor.rs\<close>: the physical state after every event of a trace. The
  theory shows that the reconstruction is total on every trace, malformed ones included, that its
  i-th snapshot is the state a small specification gives after i + 1 events, and what a comparison
  of two reconstructions can see.
\<close>

section \<open>Snapshots\<close>

record state_snapshot =
  ss_event_index :: nat
  ss_timestamp :: u64
  ss_event :: trace_event
  chunk_states :: "(chunk_id \<times> chunk_state) list"
  ss_pressure :: pressure_state
  total_allocated :: u64
  total_stored :: u64
  tier_counts :: "(tier_id \<times> nat) list"

definition empty_snapshot :: state_snapshot where
  "empty_snapshot = \<lparr>ss_event_index = 0, ss_timestamp = 0, ss_event = DaemonStarted 0, chunk_states = [],
     ss_pressure = pressure_new, total_allocated = 0, total_stored = 0, tier_counts = []\<rparr>"

definition count_in_state :: "state_snapshot \<Rightarrow> chunk_state \<Rightarrow> nat" where
  "count_in_state s st = length (filter (\<lambda>(_, x). x = st) (chunk_states s))"

definition is_consistent :: "state_snapshot \<Rightarrow> bool" where
  "is_consistent s = list_all (\<lambda>(_, st). \<not> (st = Failed \<and> length (filter (\<lambda>(_, x). x = Stored) (chunk_states s)) > 0)) (chunk_states s)"

definition snapshot_chunk_state :: "state_snapshot \<Rightarrow> chunk_id \<Rightarrow> chunk_state option" where
  "snapshot_chunk_state s cid = map_option snd (List.find (\<lambda>(c, _). c = cid) (chunk_states s))"

definition same_decisions :: "state_snapshot \<Rightarrow> state_snapshot \<Rightarrow> bool" where
  "same_decisions a b \<longleftrightarrow> chunk_states a = chunk_states b \<and> total_allocated a = total_allocated b \<and> total_stored a = total_stored b"

section \<open>The reconstructor\<close>

record state_reconstructor =
  sr_machine :: state_machine
  sr_pressure :: pressure_state
  sr_total_allocated :: u64
  sr_total_stored :: u64
  sr_tier_usage :: "(tier_id \<times> u64) list"
  sr_snapshots :: "state_snapshot list"

definition reconstructor_new :: state_reconstructor where
  "reconstructor_new = \<lparr>sr_machine = sm_new, sr_pressure = pressure_new, sr_total_allocated = 0, sr_total_stored = 0,
     sr_tier_usage = [(Ram, 0), (GpuVram, 0), (Disk, 0), (Simulation, 0)], sr_snapshots = []\<rparr>"

type_synonym replaying = "(state_reconstructor, unit, ghost_error) act"

definition on_machine :: "(state_machine, 'a, ghost_error) act \<Rightarrow> replaying" where
  "on_machine m = try_act (on_part sr_machine (\<lambda>t s. s\<lparr>sr_machine := t\<rparr>) m)"

fun add_usage :: "profile \<Rightarrow> tier_id \<Rightarrow> u64 \<Rightarrow> (tier_id \<times> u64) list \<Rightarrow> (tier_id \<times> u64) list ghost_result" where
  "add_usage pr tier sz [] = Ok []"
| "add_usage pr tier sz ((t, u) # us) =
     (if t = tier then (case add_pr pr u sz of Ok v \<Rightarrow> Ok ((t, v) # us) | Err e \<Rightarrow> Err e | Panic \<Rightarrow> Panic)
      else (case add_usage pr tier sz us of Ok vs \<Rightarrow> Ok ((t, u) # vs) | Err e \<Rightarrow> Err e | Panic \<Rightarrow> Panic))"

definition add_tier_usage :: "profile \<Rightarrow> tier_id \<Rightarrow> u64 \<Rightarrow> replaying" where
  "add_tier_usage pr tier sz r = bind_act (lift_outcome (add_usage pr tier sz (sr_tier_usage r))) (\<lambda>us.
     update_act (\<lambda>r. r\<lparr>sr_tier_usage := us\<rparr>)) r"

text \<open>Every counted chunk goes to RAM; a hash map with one key has one order of iteration.\<close>

definition build_tier_counts :: "state_reconstructor \<Rightarrow> (tier_id \<times> nat) list" where
  "build_tier_counts r = sort_key (\<lambda>(t, _). tier_priority t) (bt_entries
     (fold (\<lambda>(_, st) counts. if st = Stored \<or> st = Cached then bt_modify Ram Suc (or_insert Ram 0 counts) else counts)
       (bt_entries (snapshot (sr_machine r))) fmempty))"

fun counts_as_stored :: "chunk_state \<Rightarrow> bool" where
  "counts_as_stored Allocated = True"
| "counts_as_stored Stored = True"
| "counts_as_stored Cached = True"
| "counts_as_stored Migrating = True"
| "counts_as_stored _ = False"

definition apply_event :: "profile \<Rightarrow> trace_event \<Rightarrow> replaying" where
  "apply_event pr ev = (case ev of
       ChunkCreated cid sz tier _ \<Rightarrow>
         bind_act (on_machine (\<lambda>sm. register sm cid)) (\<lambda>_ r.
         bind_act (lift_outcome (add_pr pr (sr_total_allocated r) sz)) (\<lambda>n.
         bind_act (update_act (\<lambda>r. r\<lparr>sr_total_allocated := n\<rparr>)) (\<lambda>_. add_tier_usage pr tier sz)) r)
     | ChunkStateChanged cid from to _ \<Rightarrow> (\<lambda>r.
         case get_state (sr_machine r) cid of
           Some cur \<Rightarrow> if cur = from \<and> is_valid_transition cur to then on_machine (\<lambda>sm. transition pr sm cid to) r else ret () r
         | None \<Rightarrow> ret () r)
     | ChunkDeleted cid _ _ \<Rightarrow> update_act (\<lambda>r. r\<lparr>sr_machine := snd (sm_remove (sr_machine r) cid)\<rparr>)
     | Eviction cid _ _ _ \<Rightarrow> (\<lambda>r.
         case get_state (sr_machine r) cid of
           Some cur \<Rightarrow> if is_valid_transition cur Evicted then on_machine (\<lambda>sm. transition pr sm cid Evicted) r else ret () r
         | None \<Rightarrow> ret () r)
     | PressureSample st _ \<Rightarrow> update_act (\<lambda>r. r\<lparr>sr_pressure := st\<rparr>)
     | PressureAlert m v i _ \<Rightarrow> update_act (\<lambda>r. r\<lparr>sr_pressure := pressure_new\<lparr>memory_pressure := m, vram_pressure := v, io_pressure := i\<rparr>\<rparr>)
     | _ \<Rightarrow> ret ())"

definition count_stored :: "state_reconstructor \<Rightarrow> state_reconstructor" where
  "count_stored r = r\<lparr>sr_total_stored := of_nat (length (filter (\<lambda>(_, st). counts_as_stored st) (bt_entries (snapshot (sr_machine r)))))\<rparr>"

definition take_snapshot :: "nat \<Rightarrow> trace_event \<Rightarrow> state_reconstructor \<Rightarrow> state_snapshot" where
  "take_snapshot i ev r = \<lparr>ss_event_index = i, ss_timestamp = timestamp ev, ss_event = ev,
     chunk_states = bt_entries (snapshot (sr_machine r)), ss_pressure = sr_pressure r, total_allocated = sr_total_allocated r,
     total_stored = sr_total_stored r, tier_counts = build_tier_counts r\<rparr>"

definition process_event :: "profile \<Rightarrow> nat \<Rightarrow> trace_event \<Rightarrow> replaying" where
  "process_event pr i ev = bind_act (apply_event pr ev) (\<lambda>_. bind_act (update_act count_stored) (\<lambda>_.
     update_act (\<lambda>r. r\<lparr>sr_snapshots := sr_snapshots r @ [take_snapshot i ev r]\<rparr>)))"

fun process_from :: "profile \<Rightarrow> nat \<Rightarrow> trace_event list \<Rightarrow> replaying" where
  "process_from pr i [] = ret ()"
| "process_from pr i (ev # evs) = bind_act (process_event pr i ev) (\<lambda>_. process_from pr (Suc i) evs)"

definition process_events :: "profile \<Rightarrow> trace_event list \<Rightarrow> replaying" where
  "process_events pr evs = process_from pr 0 evs"

definition snapshot_at :: "state_reconstructor \<Rightarrow> nat \<Rightarrow> state_snapshot option" where
  "snapshot_at r i = (if i < length (sr_snapshots r) then Some (sr_snapshots r ! i) else None)"

definition final_snapshot :: "state_reconstructor \<Rightarrow> state_snapshot option" where
  "final_snapshot r = (if sr_snapshots r = [] then None else Some (last (sr_snapshots r)))"

section \<open>Comparing reconstructions\<close>

fun fabs :: "fl \<Rightarrow> fl" where
  "fabs (Fin x) = Fin \<bar>x\<bar>"
| "fabs NaN = NaN"
| "fabs _ = PInf"

definition f32_epsilon :: f32 where
  "f32_epsilon = Fin (1 / 2 ^ 23)"

definition pressure_differs :: "pressure_state \<Rightarrow> pressure_state \<Rightarrow> bool" where
  "pressure_differs p q \<longleftrightarrow> fgt (fabs (fsub binary32 (memory_pressure p) (memory_pressure q))) f32_epsilon
     \<or> fgt (fabs (fsub binary32 (vram_pressure p) (vram_pressure q))) f32_epsilon
     \<or> fgt (fabs (fsub binary32 (io_pressure p) (io_pressure q))) f32_epsilon"

definition snapshots_differ :: "state_snapshot \<Rightarrow> state_snapshot \<Rightarrow> bool" where
  "snapshots_differ a b \<longleftrightarrow> (if chunk_states a \<noteq> chunk_states b then True
     else if pressure_differs (ss_pressure a) (ss_pressure b) then True
     else total_allocated a \<noteq> total_allocated b \<or> total_stored a \<noteq> total_stored b)"

definition compare :: "state_snapshot list \<Rightarrow> state_snapshot list \<Rightarrow> nat list" where
  "compare a b = filter (\<lambda>i. snapshots_differ (a ! i) (b ! i)) [0..<min (length a) (length b)]"

section \<open>The reconstruction is total\<close>

text \<open>What an event does to the chunks, as a function.\<close>

definition replay_step :: "trace_event \<Rightarrow> (chunk_id \<rightharpoonup> chunk_state) \<Rightarrow> (chunk_id \<rightharpoonup> chunk_state)" where
  "replay_step ev m = (case ev of
       ChunkCreated c _ _ _ \<Rightarrow> if m c = None then m(c \<mapsto> Allocated) else m
     | ChunkStateChanged c f t _ \<Rightarrow> if m c = Some f \<and> is_valid_transition f t then m(c \<mapsto> t) else m
     | ChunkDeleted c _ _ \<Rightarrow> m(c := None)
     | Eviction c _ _ _ \<Rightarrow> (case m c of Some s \<Rightarrow> if is_valid_transition s Evicted then m(c \<mapsto> Evicted) else m | None \<Rightarrow> m)
     | _ \<Rightarrow> m)"

definition created_bytes :: "trace_event \<Rightarrow> nat" where
  "created_bytes ev = (case ev of ChunkCreated _ sz _ _ \<Rightarrow> unat sz | _ \<Rightarrow> 0)"

text \<open>The counters stay within the bytes created so far.\<close>

definition counters_within :: "nat \<Rightarrow> state_reconstructor \<Rightarrow> bool" where
  "counters_within n r \<longleftrightarrow> unat (sr_total_allocated r) \<le> n \<and> list_all (\<lambda>(_, u). unat u \<le> n) (sr_tier_usage r)"

lemma add_usage_Ok:
  assumes "pr = Release \<or> list_all (\<lambda>(_, u). unat u + unat sz < 2 ^ 64) us"
  shows "\<exists>vs. add_usage pr tier sz us = Ok vs"
  using assms by (induction us) (auto simp: add_pr_def checked_def)

lemma add_usage_within:
  assumes "add_usage pr tier sz us = Ok vs" "list_all (\<lambda>(_, u). unat u \<le> n) us" "n + unat sz < 2 ^ 64"
  shows "list_all (\<lambda>(_, u). unat u \<le> n + unat sz) vs"
  using assms
proof (induction us arbitrary: vs)
  case (Cons x us)
  obtain t u where x: "x = (t, u)" by (cases x)
  have u: "unat u \<le> n" "unat (u + sz) = unat u + unat sz"
    using Cons.prems(2,3) unat_add_fits [of u sz] by (auto simp: x)
  have us: "list_all (\<lambda>(_, u). unat u \<le> n + unat sz) us" using Cons.prems(2) by (auto simp: list_all_iff)
  show ?case
    using Cons u us by (auto simp: x add_pr_def checked_def split: if_splits outcome.splits)
qed simp

lemma get_state_alter [simp]: "get_state (sm\<lparr>states := m\<rparr>) = fmlookup m"
  by (simp add: get_state_def fun_eq_iff)

lemma on_machine_transition:
  assumes "get_state (sr_machine r) c = Some s" "is_valid_transition s t"
  shows "on_machine (\<lambda>sm. transition pr sm c t) r = (Ok (), r\<lparr>sr_machine := (sr_machine r)\<lparr>states := fmupd c t (states (sr_machine r))\<rparr>\<rparr>)"
  using assms by (simp add: on_machine_def try_act_def on_part_def transition_def get_state_def transition_to_def)

lemma add_tier_usage_Ok:
  assumes "pr = Release \<or> list_all (\<lambda>(_, u). unat u + unat sz < 2 ^ 64) (sr_tier_usage r)"
  obtains vs where "add_usage pr tier sz (sr_tier_usage r) = Ok vs" "add_tier_usage pr tier sz r = (Ok (), r\<lparr>sr_tier_usage := vs\<rparr>)"
  using add_usage_Ok [OF assms, of tier] by (auto simp: add_tier_usage_def bind_act_def lift_outcome_def update_act_def)

lemma counters_fit: "counters_within n r \<Longrightarrow> n + k < 2 ^ 64 \<Longrightarrow> list_all (\<lambda>(_, u). unat u + k < 2 ^ 64) (sr_tier_usage r)"
  by (auto simp: counters_within_def list_all_iff)

definition replayed :: "profile \<Rightarrow> trace_event \<Rightarrow> nat \<Rightarrow> state_reconstructor \<Rightarrow> state_reconstructor \<Rightarrow> bool" where
  "replayed pr ev n r r' \<longleftrightarrow> get_state (sr_machine r') = replay_step ev (get_state (sr_machine r)) \<and> sr_snapshots r' = sr_snapshots r
     \<and> sr_total_allocated r' = sr_total_allocated r + of_nat (created_bytes ev) \<and> (pr = Release \<or> counters_within (n + created_bytes ev) r')"

lemma apply_created:
  assumes "pr = Release \<or> counters_within n r \<and> n + unat sz < 2 ^ 64"
  shows "\<exists>r'. apply_event pr (ChunkCreated cid sz tier ts) r = (Ok (), r') \<and> replayed pr (ChunkCreated cid sz tier ts) n r r'"
proof -
  let ?r = "r\<lparr>sr_machine := snd (register (sr_machine r) cid), sr_total_allocated := sr_total_allocated r + sz\<rparr>"
  have fit: "pr = Release \<or> list_all (\<lambda>(_, u). unat u + unat sz < 2 ^ 64) (sr_tier_usage ?r)"
    using assms counters_fit [of n r "unat sz"] by auto
  obtain vs where vs: "add_usage pr tier sz (sr_tier_usage ?r) = Ok vs" "add_tier_usage pr tier sz ?r = (Ok (), ?r\<lparr>sr_tier_usage := vs\<rparr>)"
    by (rule add_tier_usage_Ok [OF fit, of tier])
  have add: "add_pr pr (sr_total_allocated r) sz = Ok (sr_total_allocated r + sz)"
    using assms by (auto simp: add_pr_def counters_within_def)
  have reg: "on_machine (\<lambda>sm. register sm cid) r = (Ok (), r\<lparr>sr_machine := snd (register (sr_machine r) cid)\<rparr>)"
    by (simp add: on_machine_def try_act_def on_part_def register_def)
  have run: "apply_event pr (ChunkCreated cid sz tier ts) r = (Ok (), ?r\<lparr>sr_tier_usage := vs\<rparr>)"
    using vs(2) by (simp add: apply_event_def bind_act_def reg lift_outcome_def add update_act_def)
  have "unat (sr_total_allocated r + sz) = unat (sr_total_allocated r) + unat sz" if "counters_within n r" "n + unat sz < 2 ^ 64"
    using that by (intro unat_add_fits) (simp add: counters_within_def)
  then have "pr = Release \<or> counters_within (n + unat sz) (?r\<lparr>sr_tier_usage := vs\<rparr>)"
    using assms add_usage_within [OF vs(1)] by (auto simp: counters_within_def)
  with run show ?thesis
    by (auto simp: replayed_def replay_step_def created_bytes_def register_def get_state_def fmdom'I fun_eq_iff fmlookup_dom_iff)
qed

lemma apply_event_replays:
  assumes "pr = Release \<or> counters_within n r \<and> n + created_bytes ev < 2 ^ 64"
  shows "\<exists>r'. apply_event pr ev r = (Ok (), r') \<and> replayed pr ev n r r'"
proof (cases "\<exists>c s t ts. ev = ChunkCreated c s t ts")
  case False
  have chg: "\<exists>r'. (case get_state (sr_machine r) c of Some cur \<Rightarrow> if (P cur \<and> is_valid_transition cur t) then on_machine (\<lambda>sm. transition pr sm c t) r else ret () r
      | None \<Rightarrow> ret () r) = (Ok (), r') \<and> sr_snapshots r' = sr_snapshots r \<and> sr_total_allocated r' = sr_total_allocated r \<and> sr_tier_usage r' = sr_tier_usage r
      \<and> get_state (sr_machine r') = (case get_state (sr_machine r) c of Some cur \<Rightarrow> if P cur \<and> is_valid_transition cur t
          then (get_state (sr_machine r))(c \<mapsto> t) else get_state (sr_machine r) | None \<Rightarrow> get_state (sr_machine r))" for P c t
    by (cases "get_state (sr_machine r) c") (auto simp: on_machine_transition ret_def get_state_def fun_eq_iff)
  have keep: "pr = Release \<or> counters_within n r" using assms by auto
  show ?thesis
  proof (cases ev)
    case (ChunkStateChanged c f t ts)
    then show ?thesis using chg [where P = "\<lambda>x. x = f" and c = c and t = t] keep
      by (fastforce simp: apply_event_def replayed_def replay_step_def created_bytes_def counters_within_def split: option.splits)
  next
    case (Eviction c tier why ts)
    then show ?thesis using chg [where P = "\<lambda>_. True" and c = c and t = Evicted] keep
      by (fastforce simp: apply_event_def replayed_def replay_step_def created_bytes_def counters_within_def split: option.splits)
  qed (use False keep in \<open>auto simp: apply_event_def replayed_def replay_step_def created_bytes_def counters_within_def update_act_def ret_def
        sm_remove_def get_state_def fun_eq_iff\<close>)
next
  case True
  then obtain c s t ts where "ev = ChunkCreated c s t ts" by blast
  then show ?thesis using apply_created [of pr n r s c t ts] assms by (simp add: created_bytes_def)
qed

lemma find_keyed: "List.find (\<lambda>(c, _). c = k) (map (\<lambda>k. (k, f k)) ks) = (if k \<in> set ks then Some (k, f k) else None)"
  by (induction ks) auto

lemma find_bt_entries: "List.find (\<lambda>(c, _). c = k) (bt_entries m) = map_option (Pair k) (fmlookup m k)"
  by (cases "fmlookup m k") (auto simp: bt_entries_def find_keyed fmlookup_dom_iff)

text \<open>
  What of a snapshot depends on the events before it, and what holds of every snapshot besides: the stored
  chunks it counts are those that are neither evicted nor failed.
\<close>

definition snapshot_view :: "state_snapshot \<Rightarrow> nat \<times> trace_event \<times> (chunk_id \<rightharpoonup> chunk_state) \<times> u64" where
  "snapshot_view s = (ss_event_index s, ss_event s, snapshot_chunk_state s, total_allocated s)"

definition snapshot_ok :: "state_snapshot \<Rightarrow> bool" where
  "snapshot_ok s \<longleftrightarrow> ss_timestamp s = timestamp (ss_event s) \<and> sorted (map fst (chunk_states s)) \<and> distinct (map fst (chunk_states s))
     \<and> total_stored s = of_nat (length (filter (\<lambda>(_, st). st \<noteq> Evicted \<and> st \<noteq> Failed) (chunk_states s)))"

lemma counts_as_stored_iff: "counts_as_stored st \<longleftrightarrow> st \<noteq> Evicted \<and> st \<noteq> Failed"
  by (cases st) simp_all

lemma view_take: "snapshot_view (take_snapshot i ev r) = (i, ev, get_state (sr_machine r), sr_total_allocated r)"
  by (simp add: snapshot_view_def take_snapshot_def snapshot_chunk_state_def find_bt_entries snapshot_def get_state_def fun_eq_iff
      option.map_comp comp_def option.map_ident)

lemma count_stored_fields [simp]:
  "sr_machine (count_stored r) = sr_machine r" "sr_snapshots (count_stored r) = sr_snapshots r"
  "sr_total_allocated (count_stored r) = sr_total_allocated r" "sr_tier_usage (count_stored r) = sr_tier_usage r"
  by (simp_all add: count_stored_def)

lemma ok_take: "snapshot_ok (take_snapshot i ev (count_stored r))"
  by (simp add: snapshot_ok_def take_snapshot_def count_stored_def counts_as_stored_iff)

lemma process_event_replays:
  assumes "pr = Release \<or> counters_within n r \<and> n + created_bytes ev < 2 ^ 64"
  shows "\<exists>r' s. process_event pr i ev r = (Ok (), r') \<and> get_state (sr_machine r') = replay_step ev (get_state (sr_machine r))
    \<and> sr_snapshots r' = sr_snapshots r @ [s] \<and> snapshot_view s = (i, ev, get_state (sr_machine r'), sr_total_allocated r') \<and> snapshot_ok s
    \<and> sr_total_allocated r' = sr_total_allocated r + of_nat (created_bytes ev) \<and> (pr = Release \<or> counters_within (n + created_bytes ev) r')"
proof -
  obtain r' where "apply_event pr ev r = (Ok (), r')" "replayed pr ev n r r'" using apply_event_replays [OF assms] by blast
  then show ?thesis
    by (auto simp: process_event_def bind_act_def update_act_def replayed_def view_take ok_take counters_within_def
        intro!: exI [of _ "take_snapshot i ev (count_stored r')"])
qed

lemma process_from_replays:
  assumes "pr = Release \<or> counters_within n r \<and> n + sum_list (map created_bytes evs) < 2 ^ 64"
  shows "\<exists>r' ss. process_from pr i evs r = (Ok (), r') \<and> sr_snapshots r' = sr_snapshots r @ ss \<and> list_all snapshot_ok ss
    \<and> map snapshot_view ss = map (\<lambda>j. (i + j, evs ! j, fold replay_step (take (Suc j) evs) (get_state (sr_machine r)),
        sr_total_allocated r + of_nat (sum_list (map created_bytes (take (Suc j) evs))))) [0..<length evs]"
  using assms
proof (induction evs arbitrary: i n r)
  case (Cons ev evs)
  obtain r1 s where r1: "process_event pr i ev r = (Ok (), r1)" "get_state (sr_machine r1) = replay_step ev (get_state (sr_machine r))"
    "sr_snapshots r1 = sr_snapshots r @ [s]" "snapshot_view s = (i, ev, get_state (sr_machine r1), sr_total_allocated r1)" "snapshot_ok s"
    "sr_total_allocated r1 = sr_total_allocated r + of_nat (created_bytes ev)" "pr = Release \<or> counters_within (n + created_bytes ev) r1"
    using process_event_replays [of pr n r ev i] Cons.prems by auto
  obtain r2 ss where r2: "process_from pr (Suc i) evs r1 = (Ok (), r2)" "sr_snapshots r2 = sr_snapshots r1 @ ss" "list_all snapshot_ok ss"
    "map snapshot_view ss = map (\<lambda>j. (Suc i + j, evs ! j, fold replay_step (take (Suc j) evs) (get_state (sr_machine r1)),
        sr_total_allocated r1 + of_nat (sum_list (map created_bytes (take (Suc j) evs))))) [0..<length evs]"
    using Cons.IH [of "n + created_bytes ev" r1 "Suc i"] Cons.prems r1(7) by (auto simp: add.assoc)
  have "[0..<length (ev # evs)] = 0 # map Suc [0..<length evs]" by (simp add: map_Suc_upt upt_conv_Cons del: upt_Suc)
  then show ?case using r1 r2 by (auto simp: bind_act_def add.assoc intro!: exI [of _ "s # ss"])
qed (simp add: ret_def)

lemma process_events_replays:
  assumes "pr = Release \<or> sum_list (map created_bytes evs) < 2 ^ 64"
  shows "\<exists>r. process_events pr evs reconstructor_new = (Ok (), r) \<and> list_all snapshot_ok (sr_snapshots r)
    \<and> map snapshot_view (sr_snapshots r) = map (\<lambda>i. (i, evs ! i, fold replay_step (take (Suc i) evs) Map.empty,
        of_nat (sum_list (map created_bytes (take (Suc i) evs))))) [0..<length evs]"
proof -
  have "counters_within 0 reconstructor_new" by (simp add: counters_within_def reconstructor_new_def)
  moreover have "get_state (sr_machine reconstructor_new) = Map.empty" "sr_snapshots reconstructor_new = []" "sr_total_allocated reconstructor_new = 0"
    by (simp_all add: reconstructor_new_def fun_eq_iff)
  ultimately show ?thesis
    using process_from_replays [of pr 0 reconstructor_new evs 0] assms by (auto simp: process_events_def)
qed

lemma snapshots_replay:
  assumes "process_events pr evs reconstructor_new = (Ok (), r)" "pr = Release \<or> sum_list (map created_bytes evs) < 2 ^ 64"
  shows "length (sr_snapshots r) = length evs"
    and "i < length evs \<Longrightarrow> snapshot_chunk_state (sr_snapshots r ! i) = fold replay_step (take (Suc i) evs) Map.empty"
proof -
  have v: "map snapshot_view (sr_snapshots r) = map (\<lambda>i. (i, evs ! i, fold replay_step (take (Suc i) evs) Map.empty,
        of_nat (sum_list (map created_bytes (take (Suc i) evs))))) [0..<length evs]"
    using process_events_replays [OF assms(2)] assms(1) by auto
  show len: "length (sr_snapshots r) = length evs" using arg_cong [OF v, of length] by simp
  show "snapshot_chunk_state (sr_snapshots r ! i) = fold replay_step (take (Suc i) evs) Map.empty" if "i < length evs"
    using arg_cong [OF v, of "\<lambda>xs. xs ! i"] that len by (simp add: snapshot_view_def)
qed

text \<open>
  The specification, chunk by chunk: the moves that an event licenses. A chunk appears as allocated, takes a
  step of the lifecycle from the state the event says it was in, is evicted when the lifecycle allows it, or
  disappears; an event that licenses no move of a chunk leaves it as it is.
\<close>

inductive event_moves :: "chunk_id \<Rightarrow> trace_event \<Rightarrow> chunk_state option \<Rightarrow> chunk_state option \<Rightarrow> bool" where
  appears: "event_moves c (ChunkCreated c sz tier ts) None (Some Allocated)"
| steps: "lifecycle f t \<Longrightarrow> event_moves c (ChunkStateChanged c f t ts) (Some f) (Some t)"
| evicted: "lifecycle f Evicted \<Longrightarrow> event_moves c (Eviction c tier why ts) (Some f) (Some Evicted)"
| disappears: "event_moves c (ChunkDeleted c tier ts) s None"

definition event_effect :: "chunk_id \<Rightarrow> trace_event \<Rightarrow> chunk_state option \<Rightarrow> chunk_state option \<Rightarrow> bool" where
  "event_effect c ev s s' \<longleftrightarrow> event_moves c ev s s' \<or> s' = s \<and> (\<forall>t. \<not> event_moves c ev s t)"

lemma replay_step_effect: "event_effect c ev (m c) (replay_step ev m c)"
  by (cases ev; cases "m c") (auto simp: event_effect_def event_moves.simps replay_step_def valid_iff_lifecycle split: option.splits)

definition state_before :: "state_snapshot list \<Rightarrow> nat \<Rightarrow> chunk_id \<Rightarrow> chunk_state option" where
  "state_before ss i c = (if i = 0 then None else snapshot_chunk_state (ss ! (i - 1)) c)"

text \<open>
  C19: the reconstruction of a trace never fails, malformed traces included, as long as the sizes of the
  created chunks add up to less than \<open>2\<^sup>6\<^sup>4\<close> (in the release profile, always). It gives one snapshot per
  event. From each snapshot to the next every chunk makes exactly the move the event licenses; the
  snapshot lists the chunks once each, in the order of their identifiers, counts those that are neither
  evicted nor failed and sums the bytes created so far (modulo \<open>2\<^sup>6\<^sup>4\<close>).
\<close>

theorem reconstruction_refines:
  assumes "pr = Release \<or> sum_list (map created_bytes evs) < 2 ^ 64"
  shows "\<exists>r. process_events pr evs reconstructor_new = (Ok (), r) \<and> length (sr_snapshots r) = length evs
    \<and> (\<forall>i < length evs. ss_event_index (sr_snapshots r ! i) = i \<and> ss_event (sr_snapshots r ! i) = evs ! i \<and> snapshot_ok (sr_snapshots r ! i)
        \<and> total_allocated (sr_snapshots r ! i) = of_nat (sum_list (map created_bytes (take (Suc i) evs)))
        \<and> (\<forall>c. event_effect c (evs ! i) (state_before (sr_snapshots r) i c) (snapshot_chunk_state (sr_snapshots r ! i) c)))"
proof -
  let ?m = "\<lambda>n. fold replay_step (take n evs) Map.empty"
  obtain r where r: "process_events pr evs reconstructor_new = (Ok (), r)" "list_all snapshot_ok (sr_snapshots r)"
    and v: "map snapshot_view (sr_snapshots r) = map (\<lambda>i. (i, evs ! i, ?m (Suc i), of_nat (sum_list (map created_bytes (take (Suc i) evs)))))
      [0..<length evs]"
    using process_events_replays [OF assms] by blast
  have len: "length (sr_snapshots r) = length evs" using arg_cong [OF v, of length] by simp
  have view: "snapshot_view (sr_snapshots r ! i) = (i, evs ! i, ?m (Suc i), of_nat (sum_list (map created_bytes (take (Suc i) evs))))"
    if "i < length evs" for i
    using arg_cong [OF v, of "\<lambda>xs. xs ! i"] that len by simp
  have before: "state_before (sr_snapshots r) i c = ?m i c" if "i < length evs" for i c
    using view [of "i - 1"] that by (cases i) (simp_all add: state_before_def snapshot_view_def)
  have "event_effect c (evs ! i) (?m i c) (?m (Suc i) c)" if "i < length evs" for i c
    using replay_step_effect [of c "evs ! i" "?m i"] that by (simp add: take_Suc_conv_app_nth)
  with r len view before show ?thesis
    by (intro exI [of _ r]) (simp add: list_all_length snapshot_view_def)
qed

definition small_trace :: "trace_event list" where
  "small_trace = [ChunkCreated (ChunkId [1]) 8 Ram 10, ChunkStateChanged (ChunkId [1]) Allocated Stored 11, ChunkDeleted (ChunkId [2]) Ram 12]"

theorem reconstruction_refines_witness:
  "\<exists>r. process_events Debug small_trace reconstructor_new = (Ok (), r) \<and> length (sr_snapshots r) = 3
    \<and> total_allocated (sr_snapshots r ! 2) = 8
    \<and> event_effect (ChunkId [1]) (small_trace ! 1) (snapshot_chunk_state (sr_snapshots r ! 0) (ChunkId [1]))
        (snapshot_chunk_state (sr_snapshots r ! 1) (ChunkId [1]))"
proof -
  have "Debug = Release \<or> sum_list (map created_bytes small_trace) < 2 ^ 64" by (simp add: small_trace_def created_bytes_def)
  from reconstruction_refines [OF this] obtain r where r: "process_events Debug small_trace reconstructor_new = (Ok (), r)"
      "length (sr_snapshots r) = length small_trace"
    and each: "\<And>i. i < length small_trace \<Longrightarrow> total_allocated (sr_snapshots r ! i) = of_nat (sum_list (map created_bytes (take (Suc i) small_trace)))
      \<and> (\<forall>c. event_effect c (small_trace ! i) (state_before (sr_snapshots r) i c) (snapshot_chunk_state (sr_snapshots r ! i) c))" by blast
  have n: "length small_trace = 3" by (simp add: small_trace_def)
  have "total_allocated (sr_snapshots r ! 2) = 8" using each [of 2] by (simp add: n) (simp add: small_trace_def created_bytes_def)
  moreover have "event_effect (ChunkId [1]) (small_trace ! 1) (snapshot_chunk_state (sr_snapshots r ! 0) (ChunkId [1]))
      (snapshot_chunk_state (sr_snapshots r ! 1) (ChunkId [1]))"
    using each [of 1] by (simp add: n state_before_def)
  ultimately show ?thesis using r n by auto
qed

section \<open>What a comparison sees\<close>

lemma fsub_self: "fsub binary32 x x = Fin 0 \<or> fsub binary32 x x = NaN"
  by (cases x) (simp_all add: fsub_def)

lemma pressure_differs_irrefl: "\<not> pressure_differs p p"
proof -
  have "\<not> fgt (fabs (fsub binary32 x x)) f32_epsilon" for x using fsub_self [of x] by (auto simp: f32_epsilon_def)
  then show ?thesis by (simp add: pressure_differs_def)
qed

lemma not_differ: "\<not> snapshots_differ a b \<Longrightarrow> same_decisions a b"
  by (auto simp: snapshots_differ_def same_decisions_def split: if_splits)

text \<open>
  A comparison reports no difference between a reconstruction and any longer one that starts with it,
  pressures that are infinite or not numbers included; and two reconstructions without a difference agree,
  as far as both go, on the state of every chunk and on both totals.
\<close>

lemma compare_sees:
  "compare a (a @ b) = [] \<and> (compare a b = [] \<longrightarrow> list_all2 same_decisions (take (length b) a) (take (length a) b))"
proof -
  have "\<not> snapshots_differ s s" for s by (simp add: snapshots_differ_def pressure_differs_irrefl)
  then have "compare a (a @ b) = []" by (auto simp: compare_def filter_empty_conv nth_append)
  moreover have "list_all2 same_decisions (take (length b) a) (take (length a) b)" if "compare a b = []"
    using that not_differ by (auto simp: compare_def filter_empty_conv list_all2_conv_all_nth)
  ultimately show ?thesis by blast
qed

end
