(* ===== verification/Replay_Checksum.thy ===== *)
theory Replay_Checksum
  imports Trace_File
begin

text \<open>
  \<^verbatim>\<open>ghost-replay/src/checksum.rs\<close> and \<^verbatim>\<open>divergence.rs\<close>: checksums over event streams and the comparison of two
  streams. \<open>hash\<close> is BLAKE3, whose incremental hasher hashes the concatenation of what it is given; \<open>ser\<close>
  is the serialisation of events. The theory shows that, as long as the hash does not collide on the inputs
  at hand, equal checksums mean streams that are written alike (equal but for the creation instants of jobs,
  which are not written), and the comparison names exactly the first event that differs.
\<close>

section \<open>Categories and event hashes\<close>

datatype hash_category = ContentCat | MigrationCat | StateCat | OtherCat

fun display_category :: "hash_category \<Rightarrow> string" where
  "display_category ContentCat = ''content''"
| "display_category MigrationCat = ''migration''"
| "display_category StateCat = ''state''"
| "display_category OtherCat = ''other''"

definition classify_event :: "trace_event \<Rightarrow> hash_category" where
  "classify_event ev = (case ev of
       ChunkCreated _ _ _ _ \<Rightarrow> ContentCat
     | ChunkDeleted _ _ _ \<Rightarrow> ContentCat
     | TransferQueued _ _ _ _ _ \<Rightarrow> MigrationCat
     | TransferStarted _ _ \<Rightarrow> MigrationCat
     | TransferCompleted _ _ _ _ _ _ \<Rightarrow> MigrationCat
     | TransferFailed _ _ _ _ _ _ \<Rightarrow> MigrationCat
     | TransferRetry _ _ _ _ _ \<Rightarrow> MigrationCat
     | TransferCancelled _ _ _ _ \<Rightarrow> MigrationCat
     | Eviction _ _ _ _ \<Rightarrow> MigrationCat
     | ChunkStateChanged _ _ _ _ \<Rightarrow> StateCat
     | PressureSample _ _ \<Rightarrow> StateCat
     | PressureAlert _ _ _ _ \<Rightarrow> StateCat
     | _ \<Rightarrow> OtherCat)"

primrec checksum_type_index :: "trace_event \<Rightarrow> u16" where
  "checksum_type_index (ChunkCreated a b c d) = 0"
| "checksum_type_index (ChunkDeleted a b c) = 1"
| "checksum_type_index (ChunkStateChanged a b c d) = 2"
| "checksum_type_index (TransferQueued a b c d e) = 3"
| "checksum_type_index (TransferStarted a b) = 4"
| "checksum_type_index (TransferCompleted a b c d e f) = 5"
| "checksum_type_index (TransferFailed a b c d e f) = 6"
| "checksum_type_index (TransferRetry a b c d e) = 7"
| "checksum_type_index (TransferCancelled a b c d) = 8"
| "checksum_type_index (PressureSample a b) = 9"
| "checksum_type_index (PressureAlert a b c d) = 10"
| "checksum_type_index (Eviction a b c d) = 11"
| "checksum_type_index (PolicyDecision a b c d e) = 12"
| "checksum_type_index (DaemonStarted a) = 13"
| "checksum_type_index (DaemonStopping a) = 14"
| "checksum_type_index (BackendRegistered a b) = 15"
| "checksum_type_index (WorkerSpawned a b) = 16"
| "checksum_type_index (WorkerStopped a b) = 17"
| "checksum_type_index (IpcRequestReceived a b) = 18"
| "checksum_type_index (IpcResponseSent a b c) = 19"
| "checksum_type_index (IpcConnectionAccepted a) = 20"
| "checksum_type_index (IpcConnectionClosed a) = 21"
| "checksum_type_index (CompressionStarted a b c) = 22"
| "checksum_type_index (CompressionCompleted a b c d) = 23"
| "checksum_type_index (DecompressionStarted a b c) = 24"
| "checksum_type_index (DecompressionCompleted a b c d) = 25"
| "checksum_type_index (BackendDegraded a b c) = 26"
| "checksum_type_index (BackendRecovered a b) = 27"
| "checksum_type_index (MigrationRolledBack a b c d e) = 28"
| "checksum_type_index (RetryExhausted a b c d e) = 29"
| "checksum_type_index (PressureEscalated a b c d) = 30"
| "checksum_type_index (AllocationFailed a b c d) = 31"
| "checksum_type_index (QueueThrottled a b c) = 32"
| "checksum_type_index (PromotionQueued a b c d) = 33"
| "checksum_type_index (EvictionQueued a b c d) = 34"
| "checksum_type_index (BackpressureActivated a b c d) = 35"
| "checksum_type_index (BackpressureReleased a b c d) = 36"
| "checksum_type_index (MetricsExported a b) = 37"

definition event_input :: "(trace_event \<Rightarrow> bytes option) \<Rightarrow> trace_event \<Rightarrow> nat \<Rightarrow> bytes" where
  "event_input ser ev i = to_le 2 (checksum_type_index ev) @ to_le 8 (timestamp ev) @ to_le 8 (of_nat i :: u64)
     @ (case ser ev of Some b \<Rightarrow> b | None \<Rightarrow> [])"

definition hash_event :: "(bytes \<Rightarrow> bytes) \<Rightarrow> (trace_event \<Rightarrow> bytes option) \<Rightarrow> trace_event \<Rightarrow> nat \<Rightarrow> bytes" where
  "hash_event hash ser ev i = hash (event_input ser ev i)"

record event_hash =
  eh_index :: nat
  eh_timestamp :: u64
  eh_category :: hash_category
  eh_hash :: bytes
  eh_chunk_id :: "chunk_id option"

definition hash_events :: "(bytes \<Rightarrow> bytes) \<Rightarrow> (trace_event \<Rightarrow> bytes option) \<Rightarrow> trace_event list \<Rightarrow> event_hash list" where
  "hash_events hash ser evs = map (\<lambda>(i, ev). \<lparr>eh_index = i, eh_timestamp = timestamp ev, eh_category = classify_event ev,
     eh_hash = hash_event hash ser ev i, eh_chunk_id = event_chunk_id ev\<rparr>) (enumerate 0 evs)"

section \<open>Checksums\<close>

record replay_checksum =
  rc_total :: bytes
  rc_content :: bytes
  rc_migration :: bytes
  rc_state :: bytes
  rc_other :: bytes
  rc_event_count :: nat

definition checksum_new :: replay_checksum where
  "checksum_new = \<lparr>rc_total = replicate 32 0, rc_content = replicate 32 0, rc_migration = replicate 32 0,
     rc_state = replicate 32 0, rc_other = replicate 32 0, rc_event_count = 0\<rparr>"

definition matches :: "replay_checksum \<Rightarrow> replay_checksum \<Rightarrow> bool" where
  "matches a b \<longleftrightarrow> rc_total a = rc_total b \<and> rc_content a = rc_content b \<and> rc_migration a = rc_migration b
     \<and> rc_state a = rc_state b \<and> rc_other a = rc_other b"

text \<open>A hasher is what it was given so far; the loop feeds five of them.\<close>

record hashers =
  total_hasher :: bytes
  content_hasher :: bytes
  migration_hasher :: bytes
  state_hasher :: bytes
  other_hasher :: bytes

definition feed :: "(bytes \<Rightarrow> bytes) \<Rightarrow> (trace_event \<Rightarrow> bytes option) \<Rightarrow> nat \<times> trace_event \<Rightarrow> hashers \<Rightarrow> hashers" where
  "feed hash ser = (\<lambda>(i, ev) h.
     let b = hash_event hash ser ev i; h = h\<lparr>total_hasher := total_hasher h @ b\<rparr> in
     case classify_event ev of
       ContentCat \<Rightarrow> h\<lparr>content_hasher := content_hasher h @ b\<rparr>
     | MigrationCat \<Rightarrow> h\<lparr>migration_hasher := migration_hasher h @ b\<rparr>
     | StateCat \<Rightarrow> h\<lparr>state_hasher := state_hasher h @ b\<rparr>
     | OtherCat \<Rightarrow> h\<lparr>other_hasher := other_hasher h @ b\<rparr>)"

definition from_events :: "(bytes \<Rightarrow> bytes) \<Rightarrow> (trace_event \<Rightarrow> bytes option) \<Rightarrow> trace_event list \<Rightarrow> replay_checksum" where
  "from_events hash ser evs = (if evs = [] then checksum_new else
     let h = fold (feed hash ser) (enumerate 0 evs)
       \<lparr>total_hasher = [], content_hasher = [], migration_hasher = [], state_hasher = [], other_hasher = []\<rparr> in
     \<lparr>rc_total = hash (total_hasher h), rc_content = hash (content_hasher h), rc_migration = hash (migration_hasher h),
      rc_state = hash (state_hasher h), rc_other = hash (other_hasher h), rc_event_count = length evs\<rparr>)"

definition from_file ::
  "(bytes \<Rightarrow> bytes) \<Rightarrow> (trace_event \<Rightarrow> bytes option) \<Rightarrow> nat \<Rightarrow> (nat \<Rightarrow> bytes \<Rightarrow> trace_event option) \<Rightarrow> (bytes \<Rightarrow> u32) \<Rightarrow> bytes \<Rightarrow> replay_checksum ghost_result" where
  "from_file hash ser esz de crc bs = (case open_trace bs of
       Ok r \<Rightarrow> (case fst (read_all esz de crc r) of Ok evs \<Rightarrow> Ok (from_events hash ser evs) | Err e \<Rightarrow> Err e | Panic \<Rightarrow> Panic)
     | Err e \<Rightarrow> Err e
     | Panic \<Rightarrow> Panic)"

section \<open>Divergence\<close>

datatype divergence_type =
    LengthMismatch nat nat
  | ContentMismatch nat hash_category
  | TimestampMismatch nat u64 u64
  | ChunkIdMismatch nat "chunk_id option" "chunk_id option"
  | TypeMismatch nat string string
  | TimingOnly nat u64 u64
  | DecisionDifference nat message
  | OrderingDifference nat string string
  | MissingEvent nat domain message
  | DivChecksumMismatch hash_category string string

record divergence_report =
  identical :: bool
  divergences :: "divergence_type list"
  first_divergence_index :: "nat option"
  events_compared :: nat

definition report_identical :: "nat \<Rightarrow> divergence_report" where
  "report_identical n = \<lparr>identical = True, divergences = [], first_divergence_index = None, events_compared = n\<rparr>"

fun divergence_index :: "divergence_type \<Rightarrow> nat option" where
  "divergence_index (LengthMismatch _ _) = None"
| "divergence_index (ContentMismatch i _) = Some i"
| "divergence_index (TimestampMismatch i _ _) = Some i"
| "divergence_index (ChunkIdMismatch i _ _) = Some i"
| "divergence_index (TypeMismatch i _ _) = Some i"
| "divergence_index (TimingOnly i _ _) = Some i"
| "divergence_index (DecisionDifference i _) = Some i"
| "divergence_index (OrderingDifference i _ _) = Some i"
| "divergence_index (MissingEvent i _ _) = Some i"
| "divergence_index (DivChecksumMismatch _ _ _) = None"

primrec find_map :: "('a \<Rightarrow> 'b option) \<Rightarrow> 'a list \<Rightarrow> 'b option" where
  "find_map f [] = None"
| "find_map f (x # xs) = (case f x of Some y \<Rightarrow> Some y | None \<Rightarrow> find_map f xs)"

definition report_divergent :: "divergence_type list \<Rightarrow> nat \<Rightarrow> divergence_report" where
  "report_divergent ds n = \<lparr>identical = False, divergences = ds, first_divergence_index = find_map divergence_index ds, events_compared = n\<rparr>"

definition compare_event :: "(bytes \<Rightarrow> bytes) \<Rightarrow> (trace_event \<Rightarrow> bytes option) \<Rightarrow> nat \<Rightarrow> trace_event \<Rightarrow> trace_event \<Rightarrow> divergence_type list" where
  "compare_event hash ser i b c = (if event_type b \<noteq> event_type c then [TypeMismatch i (event_type b) (event_type c)]
     else (if timestamp b \<noteq> timestamp c then [TimestampMismatch i (timestamp b) (timestamp c)] else [])
       @ (if event_chunk_id b \<noteq> event_chunk_id c then [ChunkIdMismatch i (event_chunk_id b) (event_chunk_id c)] else [])
       @ (if hash_event hash ser b i \<noteq> hash_event hash ser c i then [ContentMismatch i (classify_event b)] else []))"

definition detect_divergence :: "(bytes \<Rightarrow> bytes) \<Rightarrow> (trace_event \<Rightarrow> bytes option) \<Rightarrow> trace_event list \<Rightarrow> trace_event list \<Rightarrow> divergence_report" where
  "detect_divergence hash ser baseline candidate =
     (let n = min (length baseline) (length candidate);
          ds = (if length baseline \<noteq> length candidate then [LengthMismatch (length baseline) (length candidate)] else [])
            @ concat (map (\<lambda>i. compare_event hash ser i (baseline ! i) (candidate ! i)) [0..<n])
      in if ds = [] then report_identical n else report_divergent ds n)"

text \<open>The two files are read at different moments, by \<open>de\<close> and \<open>de2\<close>.\<close>

definition compare_traces ::
  "(bytes \<Rightarrow> bytes) \<Rightarrow> (trace_event \<Rightarrow> bytes option) \<Rightarrow> nat \<Rightarrow> (nat \<Rightarrow> bytes \<Rightarrow> trace_event option) \<Rightarrow> (nat \<Rightarrow> bytes \<Rightarrow> trace_event option) \<Rightarrow> (bytes \<Rightarrow> u32)
   \<Rightarrow> bytes \<Rightarrow> bytes \<Rightarrow> divergence_report ghost_result" where
  "compare_traces hash ser esz de de2 crc baseline candidate = fst (
     bind_act (lift_outcome (open_trace baseline)) (\<lambda>b.
     bind_act (lift_outcome (open_trace candidate)) (\<lambda>c.
     bind_act (lift_outcome (fst (read_all esz de crc b))) (\<lambda>bs.
     bind_act (lift_outcome (fst (read_all esz de2 crc c))) (\<lambda>cs.
     ret (detect_divergence hash ser bs cs))))) ())"

definition hash_comparison ::
  "(bytes \<Rightarrow> bytes) \<Rightarrow> (trace_event \<Rightarrow> bytes option) \<Rightarrow> trace_event list \<Rightarrow> trace_event list \<Rightarrow> event_hash list \<times> event_hash list" where
  "hash_comparison hash ser baseline candidate = (hash_events hash ser baseline, hash_events hash ser candidate)"

section \<open>Hash inputs identify events\<close>

text \<open>The writer and the checksums number the kinds of events alike.\<close>

lemma type_index_agrees: "checksum_type_index ev = event_type_index ev"
  by (cases ev) simp_all

lemma to_le_u64_inj: "to_le 8 (x :: u64) = to_le 8 y \<Longrightarrow> x = y"
proof -
  assume "to_le 8 x = to_le 8 y"
  then have "(from_le (to_le 8 x) :: u64) = from_le (to_le 8 y)" by (rule arg_cong)
  then show "x = y" by (simp add: from_to_le)
qed

lemma event_input_inj:
  assumes "faithful lser lde a" "faithful lser lde b" "event_input (event_ser lser) a i = event_input (event_ser lser) b j"
  shows "to_wire a = to_wire b" "(of_nat i :: u64) = of_nat j"
proof -
  have "(case event_ser lser a of Some b \<Rightarrow> b | None \<Rightarrow> []) = (case event_ser lser b of Some b \<Rightarrow> b | None \<Rightarrow> [])"
    using arg_cong [OF assms(3), of "drop 18"] by (simp add: event_input_def)
  then have "event_ser lser a = event_ser lser b" using assms(1,2) by (metis faithfulE option.simps(5))
  then show "to_wire a = to_wire b" by (rule faithful_inj [OF assms(1,2)])
  have "to_le 8 (of_nat i :: u64) = to_le 8 (of_nat j :: u64)"
    using arg_cong [OF assms(3), of "\<lambda>xs. take 8 (drop 10 xs)"] by (simp add: event_input_def)
  then show "(of_nat i :: u64) = of_nat j" by (rule to_le_u64_inj)
qed

lemma timestamp_wire: "to_wire a = to_wire b \<Longrightarrow> timestamp a = timestamp b"
  by (metis timestamp_restamp to_wire_eq_iff)

lemma checksum_type_restamp [simp]: "checksum_type_index (restamp t ev) = checksum_type_index ev"
  by (cases ev) (simp_all add: restamp_def)

lemma checksum_type_wire: "to_wire a = to_wire b \<Longrightarrow> checksum_type_index a = checksum_type_index b"
  by (metis checksum_type_restamp to_wire_eq_iff)

lemma classify_restamp [simp]: "classify_event (restamp t ev) = classify_event ev"
  by (cases ev) (simp_all add: restamp_def classify_event_def)

lemma event_input_wire: "to_wire a = to_wire b \<Longrightarrow> event_input (event_ser lser) a i = event_input (event_ser lser) b i"
  using timestamp_wire [of a b] checksum_type_wire [of a b] by (simp add: event_input_def event_ser_def)

lemma concat_blocks:
  assumes "concat xs = concat ys" "list_all (\<lambda>x. length x = n) xs" "list_all (\<lambda>x. length x = n) ys" "0 < n"
  shows "xs = ys"
  using assms
proof (induction xs arbitrary: ys)
  case Nil
  then show ?case by (cases ys) auto
next
  case (Cons x xs)
  then show ?case by (cases ys) auto
qed

section \<open>Equal checksums mean equal streams\<close>

text \<open>The numbered events that one of the hashers is fed, and the bytes it is given for them.\<close>

definition chosen :: "(hash_category \<Rightarrow> bool) \<Rightarrow> trace_event list \<Rightarrow> (nat \<times> trace_event) list" where
  "chosen p evs = filter (\<lambda>(i, ev). p (classify_event ev)) (enumerate 0 evs)"

definition chosen_inputs :: "(trace_event \<Rightarrow> bytes option) \<Rightarrow> (nat \<times> trace_event) list \<Rightarrow> bytes list" where
  "chosen_inputs ser ies = map (\<lambda>(i, ev). event_input ser ev i) ies"

definition hasher_input :: "(bytes \<Rightarrow> bytes) \<Rightarrow> (trace_event \<Rightarrow> bytes option) \<Rightarrow> (nat \<times> trace_event) list \<Rightarrow> bytes" where
  "hasher_input hash ser ies = concat (map hash (chosen_inputs ser ies))"

definition category_hash :: "hash_category \<Rightarrow> replay_checksum \<Rightarrow> bytes" where
  "category_hash cat rc = (case cat of ContentCat \<Rightarrow> rc_content rc | MigrationCat \<Rightarrow> rc_migration rc | StateCat \<Rightarrow> rc_state rc
     | OtherCat \<Rightarrow> rc_other rc)"

definition category_hasher :: "hash_category \<Rightarrow> hashers \<Rightarrow> bytes" where
  "category_hasher cat h = (case cat of ContentCat \<Rightarrow> content_hasher h | MigrationCat \<Rightarrow> migration_hasher h | StateCat \<Rightarrow> state_hasher h
     | OtherCat \<Rightarrow> other_hasher h)"

lemma hasher_input_simps [simp]:
  "hasher_input hash ser [] = []"
  "hasher_input hash ser ((i, ev) # ies) = hash_event hash ser ev i @ hasher_input hash ser ies"
  by (simp_all add: hasher_input_def chosen_inputs_def hash_event_def)

lemma total_fed: "total_hasher (fold (feed hash ser) ies h) = total_hasher h @ hasher_input hash ser ies"
  by (induction ies arbitrary: h) (auto simp: feed_def Let_def split: hash_category.split)

lemma category_feed: "category_hasher cat (feed hash ser (i, ev) h)
    = category_hasher cat h @ (if classify_event ev = cat then hash_event hash ser ev i else [])"
  by (cases cat; cases "classify_event ev") (simp_all add: feed_def category_hasher_def Let_def)

lemma category_fed: "category_hasher cat (fold (feed hash ser) ies h)
    = category_hasher cat h @ hasher_input hash ser (filter (\<lambda>(i, ev). classify_event ev = cat) ies)"
proof (induction ies arbitrary: h)
  case (Cons ie ies)
  obtain i ev where "ie = (i, ev)" by force
  with Cons show ?case by (simp add: category_feed)
qed simp

lemma checksum_hashes:
  assumes "evs \<noteq> []"
  shows "rc_total (from_events hash ser evs) = hash (hasher_input hash ser (chosen (\<lambda>_. True) evs))"
    and "category_hash cat (from_events hash ser evs) = hash (hasher_input hash ser (chosen (\<lambda>c. c = cat) evs))"
proof -
  define h where "h = fold (feed hash ser) (enumerate 0 evs)
    \<lparr>total_hasher = [], content_hasher = [], migration_hasher = [], state_hasher = [], other_hasher = []\<rparr>"
  have "total_hasher h = hasher_input hash ser (chosen (\<lambda>_. True) evs)" by (simp add: h_def total_fed chosen_def)
  moreover have "category_hasher cat h = hasher_input hash ser (chosen (\<lambda>c. c = cat) evs)"
    unfolding h_def category_fed by (cases cat) (simp_all add: category_hasher_def chosen_def)
  moreover have "from_events hash ser evs = \<lparr>rc_total = hash (total_hasher h), rc_content = hash (content_hasher h),
      rc_migration = hash (migration_hasher h), rc_state = hash (state_hasher h), rc_other = hash (other_hasher h), rc_event_count = length evs\<rparr>"
    using assms by (simp add: from_events_def Let_def h_def)
  ultimately show "rc_total (from_events hash ser evs) = hash (hasher_input hash ser (chosen (\<lambda>_. True) evs))"
    "category_hash cat (from_events hash ser evs) = hash (hasher_input hash ser (chosen (\<lambda>c. c = cat) evs))"
    by (simp_all add: category_hash_def category_hasher_def split: hash_category.splits)
qed

text \<open>
  No two of the inputs that are hashed for the two streams collide, and the hash has 32 bytes.
\<close>

definition event_inputs :: "(trace_event \<Rightarrow> bytes option) \<Rightarrow> trace_event list \<Rightarrow> bytes list" where
  "event_inputs ser evs = chosen_inputs ser (enumerate 0 evs)"

definition hashed_inputs :: "(bytes \<Rightarrow> bytes) \<Rightarrow> (trace_event \<Rightarrow> bytes option) \<Rightarrow> trace_event list \<Rightarrow> bytes list" where
  "hashed_inputs hash ser evs = event_inputs ser evs @ map (\<lambda>p. hasher_input hash ser (chosen p evs))
     [\<lambda>_. True, \<lambda>c. c = ContentCat, \<lambda>c. c = MigrationCat, \<lambda>c. c = StateCat, \<lambda>c. c = OtherCat]"

definition collision_free :: "(bytes \<Rightarrow> bytes) \<Rightarrow> (trace_event \<Rightarrow> bytes option) \<Rightarrow> trace_event list \<Rightarrow> trace_event list \<Rightarrow> bool" where
  "collision_free hash ser a b \<longleftrightarrow> inj_on hash (set (hashed_inputs hash ser a @ hashed_inputs hash ser b))
     \<and> list_all (\<lambda>x. length (hash x) = 32) (event_inputs ser a @ event_inputs ser b)"

text \<open>A numbered list of events as it is written.\<close>

definition as_written :: "(nat \<times> trace_event) list \<Rightarrow> (nat \<times> wire_event) list" where
  "as_written ies = map (\<lambda>(i, ev). (i, to_wire ev)) ies"

lemma chosen_inputs_subset: "set (chosen_inputs ser (chosen p evs)) \<subseteq> set (event_inputs ser evs)"
  by (auto simp: chosen_inputs_def chosen_def event_inputs_def)

lemma chosen_in: "(i, ev) \<in> set (chosen p evs) \<Longrightarrow> i < length evs \<and> ev \<in> set evs"
  by (auto simp: chosen_def in_set_enumerate_eq)

lemma map_hash_inj: "inj_on hash S \<Longrightarrow> set xs \<union> set ys \<subseteq> S \<Longrightarrow> map hash xs = map hash ys \<Longrightarrow> xs = ys"
  by (rule inj_on_map_eq_map [THEN iffD1, of hash]) (auto intro: inj_on_subset)

lemma chosen_inputs_inj:
  assumes "list_all (faithful lser lde) a" "list_all (faithful lser lde) b" "length a < 2 ^ 64" "length b < 2 ^ 64"
    and "chosen_inputs (event_ser lser) (chosen p a) = chosen_inputs (event_ser lser) (chosen p b)"
  shows "as_written (chosen p a) = as_written (chosen p b)"
proof (rule nth_equalityI)
  show len: "length (as_written (chosen p a)) = length (as_written (chosen p b))"
    using arg_cong [OF assms(5), of length] by (simp add: chosen_inputs_def as_written_def)
  fix n assume n: "n < length (as_written (chosen p a))"
  obtain i x where x: "chosen p a ! n = (i, x)" by force
  obtain j y where y: "chosen p b ! n = (j, y)" by force
  have mem: "(i, x) \<in> set (chosen p a)" "(j, y) \<in> set (chosen p b)"
    using n len x y by (metis as_written_def length_map nth_mem)+
  then have lt: "i < 2 ^ 64" "j < 2 ^ 64" "faithful lser lde x" "faithful lser lde y"
    using chosen_in assms(1-4) by (fastforce simp: list_all_iff)+
  have "event_input (event_ser lser) x i = event_input (event_ser lser) y j"
    using arg_cong [OF assms(5), of "\<lambda>xs. xs ! n"] n len x y by (simp add: chosen_inputs_def as_written_def)
  note same = event_input_inj [OF lt(3,4) this]
  have "i = j" using arg_cong [OF same(2), of unat] lt(1,2) by (simp add: unat_of_nat)
  then show "as_written (chosen p a) ! n = as_written (chosen p b) ! n"
    using n len x y same(1) by (simp add: as_written_def)
qed

lemma hasher_input_written:
  assumes "as_written xs = as_written ys"
  shows "hasher_input hash (event_ser lser) xs = hasher_input hash (event_ser lser) ys"
proof -
  have "chosen_inputs (event_ser lser) xs = chosen_inputs (event_ser lser) ys"
    using assms
  proof (induction xs arbitrary: ys)
    case (Cons x xs)
    then obtain y ys' where "ys = y # ys'" by (cases ys) (auto simp: as_written_def)
    moreover obtain i a j b where "x = (i, a)" "y = (j, b)" by force
    ultimately show ?case using Cons event_input_wire [of a b lser i] by (simp add: as_written_def chosen_inputs_def)
  qed (simp add: as_written_def chosen_inputs_def)
  then show ?thesis by (simp add: hasher_input_def)
qed

text \<open>One hasher: its hashes are equal exactly when it was fed the same numbered events, as they are written.\<close>

lemma hasher_identifies:
  assumes "list_all (faithful lser lde) a" "list_all (faithful lser lde) b" "length a < 2 ^ 64" "length b < 2 ^ 64"
    and cf: "collision_free hash (event_ser lser) a b"
    and top: "hasher_input hash (event_ser lser) (chosen p a) \<in> set (hashed_inputs hash (event_ser lser) a)"
      "hasher_input hash (event_ser lser) (chosen p b) \<in> set (hashed_inputs hash (event_ser lser) b)"
  shows "hash (hasher_input hash (event_ser lser) (chosen p a)) = hash (hasher_input hash (event_ser lser) (chosen p b))
    \<longleftrightarrow> as_written (chosen p a) = as_written (chosen p b)"
proof
  let ?in = "\<lambda>x. chosen_inputs (event_ser lser) (chosen p x)"
  let ?S = "set (hashed_inputs hash (event_ser lser) a @ hashed_inputs hash (event_ser lser) b)"
  have inj: "inj_on hash ?S" and len: "list_all (\<lambda>x. length (hash x) = 32) (event_inputs (event_ser lser) a @ event_inputs (event_ser lser) b)"
    using cf by (simp_all only: collision_free_def)
  have sub: "set (?in a) \<union> set (?in b) \<subseteq> ?S" "set (?in a) \<subseteq> set (event_inputs (event_ser lser) a)" "set (?in b) \<subseteq> set (event_inputs (event_ser lser) b)"
    using chosen_inputs_subset [of "event_ser lser" p] by (auto simp: hashed_inputs_def)
  assume "hash (hasher_input hash (event_ser lser) (chosen p a)) = hash (hasher_input hash (event_ser lser) (chosen p b))"
  then have "hasher_input hash (event_ser lser) (chosen p a) = hasher_input hash (event_ser lser) (chosen p b)"
    by (rule inj_onD [OF inj]) (use top in simp_all)
  then have "map hash (?in a) = map hash (?in b)"
    using len sub(2,3) by (intro concat_blocks [where n = 32]) (auto simp: hasher_input_def list_all_iff)
  then have "?in a = ?in b" by (rule map_hash_inj [OF inj sub(1)])
  then show "as_written (chosen p a) = as_written (chosen p b)" by (rule chosen_inputs_inj [OF assms(1-4)])
qed (rule arg_cong [where f = hash], erule hasher_input_written)

lemma as_written_all: "as_written (chosen (\<lambda>_. True) a) = as_written (chosen (\<lambda>_. True) b) \<longleftrightarrow> map to_wire a = map to_wire b"
proof -
  have "as_written (chosen (\<lambda>_. True) x) = enumerate 0 (map to_wire x)" for x
    by (rule nth_equalityI) (simp_all add: as_written_def chosen_def nth_enumerate_eq)
  then show ?thesis by (metis map_snd_enumerate)
qed

lemma category_written: "map to_wire a = map to_wire b \<Longrightarrow> as_written (chosen p a) = as_written (chosen p b)"
proof -
  have "as_written (chosen p x) = filter (\<lambda>(i, w). p (classify_event (the (of_wire 0 w)))) (enumerate 0 (map to_wire x))" for x
  proof -
    have "enumerate 0 (map to_wire x) = map (\<lambda>(i, ev). (i, to_wire ev)) (enumerate 0 x)"
      by (rule nth_equalityI) (simp_all add: nth_enumerate_eq)
    then show ?thesis by (simp add: as_written_def chosen_def filter_map comp_def case_prod_unfold)
  qed
  then show "map to_wire a = map to_wire b \<Longrightarrow> as_written (chosen p a) = as_written (chosen p b)" by simp
qed

text \<open>
  C20: two non-empty streams have matching checksums exactly when they are written alike, event by event, which
  is when they are equal but for the creation instants of the jobs in them; and the hash of each category is
  the same exactly when the events of that category, with their positions, are. The hash must not collide
  on what is hashed for them, and bincode must read back what it wrote.
\<close>

theorem checksum_identifies_stream:
  assumes "list_all (faithful lser lde) a" "list_all (faithful lser lde) b" "a \<noteq> []" "b \<noteq> []" "length a < 2 ^ 64" "length b < 2 ^ 64"
    and "collision_free hash (event_ser lser) a b"
  shows "(matches (from_events hash (event_ser lser) a) (from_events hash (event_ser lser) b) \<longleftrightarrow> map (restamp t) a = map (restamp t) b)
    \<and> (category_hash cat (from_events hash (event_ser lser) a) = category_hash cat (from_events hash (event_ser lser) b)
       \<longleftrightarrow> as_written (chosen (\<lambda>c. c = cat) a) = as_written (chosen (\<lambda>c. c = cat) b))"
proof
  let ?A = "from_events hash (event_ser lser) a" and ?B = "from_events hash (event_ser lser) b"
  note id = hasher_identifies [OF assms(1,2,5,6,7)]
  have each: "category_hash c ?A = category_hash c ?B \<longleftrightarrow> as_written (chosen (\<lambda>d. d = c) a) = as_written (chosen (\<lambda>d. d = c) b)" for c
    unfolding checksum_hashes(2) [OF assms(3)] checksum_hashes(2) [OF assms(4)]
    by (rule id) (cases c; simp add: hashed_inputs_def)+
  then show "category_hash cat ?A = category_hash cat ?B \<longleftrightarrow> as_written (chosen (\<lambda>c. c = cat) a) = as_written (chosen (\<lambda>c. c = cat) b)" .
  have all: "rc_total ?A = rc_total ?B \<longleftrightarrow> map to_wire a = map to_wire b"
    unfolding checksum_hashes(1) [OF assms(3)] checksum_hashes(1) [OF assms(4)] as_written_all [symmetric]
    by (rule id) (simp_all add: hashed_inputs_def)
  have "matches ?A ?B \<longleftrightarrow> rc_total ?A = rc_total ?B \<and> (\<forall>c. category_hash c ?A = category_hash c ?B)"
    by (auto simp: matches_def category_hash_def split: hash_category.splits)
  also have "\<dots> \<longleftrightarrow> map to_wire a = map to_wire b" using all each category_written by blast
  also have "\<dots> \<longleftrightarrow> map (restamp t) a = map (restamp t) b" by (auto simp: list_eq_iff_nth_eq to_wire_eq_iff [of _ _ t])
  finally show "matches ?A ?B \<longleftrightarrow> map (restamp t) a = map (restamp t) b" .
qed

text \<open>A hash for concrete streams: the first 31 bytes, filled up with zeros, and the length.\<close>

definition pad32 :: "bytes \<Rightarrow> bytes" where
  "pad32 bs = take 31 (bs @ replicate 31 0) @ [of_nat (length bs)]"

theorem checksum_identifies_stream_witness:
  "(matches (from_events pad32 (event_ser start_ser) [DaemonStarted 5]) (from_events pad32 (event_ser start_ser) [DaemonStarted 6])
      \<longleftrightarrow> [DaemonStarted 5] = [DaemonStarted 6])
   \<and> rc_other (from_events pad32 (event_ser start_ser) [DaemonStarted 5]) \<noteq> rc_other (from_events pad32 (event_ser start_ser) [DaemonStarted 6])"
proof -
  have le: "to_le 8 (5 :: u64) = [5, 0, 0, 0, 0, 0, 0, 0]" "to_le 8 (6 :: u64) = [6, 0, 0, 0, 0, 0, 0, 0]"
    "to_le 8 (0 :: u64) = [0, 0, 0, 0, 0, 0, 0, 0]" "to_le 2 (13 :: u16) = [13, 0]" by code_simp+
  have "collision_free pad32 (event_ser start_ser) [DaemonStarted 5] [DaemonStarted 6]"
    by (simp add: collision_free_def hashed_inputs_def event_inputs_def chosen_inputs_def chosen_def classify_event_def hash_event_def
        event_input_def event_ser_def le pad32_def inj_on_def)
  then show ?thesis
    using checksum_identifies_stream [of start_ser start_de "[DaemonStarted 5]" "[DaemonStarted 6]" pad32 0 OtherCat]
    by (simp add: restamp_def category_hash_def as_written_def chosen_def classify_event_def to_wire_def)
qed

section \<open>The comparison names the first difference\<close>

lemma event_type_restamp [simp]: "event_type (restamp t ev) = event_type ev"
  by (cases ev) (simp_all add: restamp_def)

lemma event_chunk_id_restamp [simp]: "event_chunk_id (restamp t ev) = event_chunk_id ev"
  by (cases ev) (simp_all add: restamp_def event_chunk_id_def)

lemma compare_event_index: "d \<in> set (compare_event hash ser i b c) \<Longrightarrow> divergence_index d = Some i"
  by (auto simp: compare_event_def split: if_splits)

lemma compare_event_Nil:
  assumes "faithful lser lde b" "faithful lser lde c" "inj_on hash {event_input (event_ser lser) b i, event_input (event_ser lser) c i}"
  shows "compare_event hash (event_ser lser) i b c = [] \<longleftrightarrow> to_wire b = to_wire c"
proof
  assume "compare_event hash (event_ser lser) i b c = []"
  then have "hash (event_input (event_ser lser) b i) = hash (event_input (event_ser lser) c i)"
    by (auto simp: compare_event_def hash_event_def split: if_splits)
  then have "event_input (event_ser lser) b i = event_input (event_ser lser) c i" by (rule inj_onD [OF assms(3)]) simp_all
  then show "to_wire b = to_wire c" by (rule event_input_inj(1) [OF assms(1,2)])
next
  assume w: "to_wire b = to_wire c"
  then have "restamp 0 b = restamp 0 c" by (simp add: to_wire_eq_iff [of b c 0])
  then have "event_type b = event_type c" "event_chunk_id b = event_chunk_id c"
    by (metis event_type_restamp) (metis \<open>restamp 0 b = restamp 0 c\<close> event_chunk_id_restamp)
  with w show "compare_event hash (event_ser lser) i b c = []"
    by (simp add: compare_event_def timestamp_wire [OF w] hash_event_def event_input_wire [OF w])
qed

lemma find_map_append: "find_map f (xs @ ys) = (case find_map f xs of Some y \<Rightarrow> Some y | None \<Rightarrow> find_map f ys)"
  by (induction xs) (simp_all split: option.split)

lemma find_map_blocks:
  assumes "\<And>i d. d \<in> set (f i) \<Longrightarrow> g d = Some i"
  shows "find_map g (concat (map f is)) = List.find (\<lambda>i. f i \<noteq> []) is"
proof (induction "is")
  case (Cons i "is")
  have "find_map g (f i) = (if f i = [] then None else Some i)" using assms [of _ i] by (cases "f i") simp_all
  then show ?case using Cons by (simp add: find_map_append)
qed simp

definition event_collision_free :: "(bytes \<Rightarrow> bytes) \<Rightarrow> (trace_event \<Rightarrow> bytes option) \<Rightarrow> trace_event list \<Rightarrow> trace_event list \<Rightarrow> bool" where
  "event_collision_free hash ser a b \<longleftrightarrow> inj_on hash (set (event_inputs ser a @ event_inputs ser b))"

lemma event_input_in: "i < length evs \<Longrightarrow> event_input ser (evs ! i) i \<in> set (event_inputs ser evs)"
  by (auto simp: event_inputs_def chosen_inputs_def in_set_enumerate_eq image_iff intro!: bexI [of _ "(i, evs ! i)"])

text \<open>
  The comparison of two streams calls them identical exactly when they are equal but for the creation instants of
  jobs, and the first divergence it names is the first index at which they differ in that sense (none when one
  is a prefix of the other), as long as the hash does not collide on their events.
\<close>

theorem divergence_exact:
  assumes "list_all (faithful lser lde) a" "list_all (faithful lser lde) b" "event_collision_free hash (event_ser lser) a b"
  shows "identical (detect_divergence hash (event_ser lser) a b) = (map to_wire a = map to_wire b)
    \<and> first_divergence_index (detect_divergence hash (event_ser lser) a b)
      = List.find (\<lambda>i. to_wire (a ! i) \<noteq> to_wire (b ! i)) [0..<min (length a) (length b)]"
proof -
  define n where "n = min (length a) (length b)"
  let ?d = "\<lambda>i. to_wire (a ! i) \<noteq> to_wire (b ! i)"
  let ?f = "\<lambda>i. compare_event hash (event_ser lser) i (a ! i) (b ! i)"
  let ?l = "if length a \<noteq> length b then [LengthMismatch (length a) (length b)] else []"
  have ne: "?f i \<noteq> [] \<longleftrightarrow> ?d i" if "i < n" for i
  proof -
    have "inj_on hash {event_input (event_ser lser) (a ! i) i, event_input (event_ser lser) (b ! i) i}"
      by (rule inj_on_subset [OF assms(3) [unfolded event_collision_free_def]]) (use that in \<open>simp add: event_input_in n_def\<close>)
    then show ?thesis using compare_event_Nil [of lser lde "a ! i" "b ! i" hash i] assms(1,2) that by (auto simp: list_all_length n_def)
  qed
  then have find: "List.find (\<lambda>i. ?f i \<noteq> []) [0..<n] = List.find ?d [0..<n]" by (intro find_cong) auto
  have first: "find_map divergence_index (?l @ concat (map ?f [0..<n])) = List.find ?d [0..<n]"
    using find_map_blocks [of ?f divergence_index "[0..<n]"] compare_event_index by (simp add: find_map_append find)
  define ds where "ds = ?l @ concat (map ?f [0..<n])"
  have eq: "ds = [] \<longleftrightarrow> map to_wire a = map to_wire b"
  proof
    assume "ds = []"
    then have "length a = length b" "\<forall>i < n. ?f i = []" by (auto simp: ds_def split: if_splits)
    with ne show "map to_wire a = map to_wire b" by (intro nth_equalityI) (simp_all add: n_def)
  next
    assume eq: "map to_wire a = map to_wire b"
    then have "length a = length b" by (rule map_eq_imp_length_eq)
    moreover have "?f i = []" if "i < n" for i
      using ne [OF that] arg_cong [OF eq, of "\<lambda>xs. xs ! i"] that by (simp add: n_def)
    ultimately show "ds = []" by (simp add: ds_def)
  qed
  have run: "detect_divergence hash (event_ser lser) a b = (if ds = [] then report_identical n else report_divergent ds n)"
    by (simp only: detect_divergence_def Let_def ds_def n_def)
  have f: "find_map divergence_index ds = List.find ?d [0..<n]" by (simp only: ds_def first)
  show ?thesis
  proof (cases "ds = []")
    case True
    then have r: "detect_divergence hash (event_ser lser) a b = report_identical n" by (simp add: run)
    show ?thesis unfolding r using True eq f by (simp add: report_identical_def n_def)
  next
    case False
    then show ?thesis using eq f by (simp add: run report_divergent_def n_def)
  qed
qed

end
