(* ===== verification/Replay_Checks.thy ===== *)
theory Replay_Checks
  imports Replay_State
begin

text \<open>
  \<^verbatim>\<open>ghost-replay/src/invariants.rs\<close>: the validator and its six built-in checks. A check is a record of
  methods; the locale \<open>exact_check\<close> says that it reports something exactly when a predicate fails.
  Each predicate is stated over the trace alone, without the tables the check builds. The theory ends with
  what acceptance by the validator means for the reconstruction of a trace.
\<close>

section \<open>Violations and the validator\<close>

datatype violation_severity = ViolInfo | ViolWarning | ViolError | ViolCritical

fun display_violation_severity :: "violation_severity \<Rightarrow> string" where
  "display_violation_severity ViolInfo = ''INFO''"
| "display_violation_severity ViolWarning = ''WARN''"
| "display_violation_severity ViolError = ''ERROR''"
| "display_violation_severity ViolCritical = ''CRITICAL''"

record replay_violation =
  v_invariant :: string
  v_severity :: violation_severity
  v_message :: message
  v_event_index :: "nat option"
  v_chunk_id :: "chunk_id option"

record replay_invariant =
  ri_name :: string
  ri_validate :: "trace_event list \<Rightarrow> replay_violation list"

type_synonym invariant_validator = "replay_invariant list"

definition validator_new :: invariant_validator where
  "validator_new = []"

definition validator_register :: "replay_invariant \<Rightarrow> invariant_validator \<Rightarrow> invariant_validator" where
  "validator_register c v = v @ [c]"

definition validator_validate :: "invariant_validator \<Rightarrow> trace_event list \<Rightarrow> replay_violation list" where
  "validator_validate v evs = concat (map (\<lambda>c. ri_validate c evs) v)"

text \<open>A loop over the events with their indices that may report something at each of them.\<close>

fun scan :: "(nat \<Rightarrow> trace_event \<Rightarrow> 's \<Rightarrow> replay_violation list \<times> 's) \<Rightarrow> nat \<Rightarrow> trace_event list \<Rightarrow> 's \<Rightarrow> replay_violation list" where
  "scan f i [] s = []"
| "scan f i (ev # evs) s = fst (f i ev s) @ scan f (Suc i) evs (snd (f i ev s))"

section \<open>The built-in checks\<close>

subsection \<open>NoOrphanedTransfers\<close>

definition orphan_step ::
  "nat \<times> trace_event \<Rightarrow> (chunk_id, nat) btree \<times> (chunk_id, bool) btree \<Rightarrow> (chunk_id, nat) btree \<times> (chunk_id, bool) btree" where
  "orphan_step = (\<lambda>(i, ev) (started, completed). case ev of
       TransferStarted job _ \<Rightarrow> (fmupd (job_chunk job) i started, or_insert (job_chunk job) False completed)
     | TransferCompleted c _ _ _ _ _ \<Rightarrow> (started, fmupd c True completed)
     | TransferFailed c _ _ _ _ _ \<Rightarrow> (started, fmupd c True completed)
     | _ \<Rightarrow> (started, completed))"

definition orphan_violation :: "chunk_id \<Rightarrow> nat \<Rightarrow> replay_violation" where
  "orphan_violation c i = \<lparr>v_invariant = ''NoOrphanedTransfers'', v_severity = ViolError,
     v_message = [Lit ''Transfer started for chunk '', FmtChunk c, Lit '' at event '', FmtNat i, Lit '' but never completed or failed''],
     v_event_index = Some i, v_chunk_id = Some c\<rparr>"

definition no_orphaned_transfers :: "trace_event list \<Rightarrow> replay_violation list" where
  "no_orphaned_transfers evs = (case fold orphan_step (enumerate 0 evs) (fmempty, fmempty) of (started, completed) \<Rightarrow>
     concat (map (\<lambda>(c, i). if \<not> unwrap_or False (fmlookup completed c) then [orphan_violation c i] else []) (bt_entries started)))"

subsection \<open>NoIllegalTransitions\<close>

definition transition_violation :: "message \<Rightarrow> nat \<Rightarrow> chunk_id \<Rightarrow> replay_violation" where
  "transition_violation m i c = \<lparr>v_invariant = ''NoIllegalTransitions'', v_severity = ViolError, v_message = m,
     v_event_index = Some i, v_chunk_id = Some c\<rparr>"

definition illegal_step ::
  "nat \<Rightarrow> trace_event \<Rightarrow> (chunk_id, chunk_state) btree \<Rightarrow> replay_violation list \<times> (chunk_id, chunk_state) btree" where
  "illegal_step i ev last_state = (case ev of
       ChunkStateChanged c from to _ \<Rightarrow>
         ((case fmlookup last_state c of
             Some expected \<Rightarrow> if expected \<noteq> from then [transition_violation [Lit ''State transition for chunk '', FmtChunk c, Lit '' at event '',
               FmtNat i, Lit '': expected from='', Lit (debug_chunk_state expected), Lit '' but got from='', Lit (debug_chunk_state from)] i c] else []
           | None \<Rightarrow> [])
          @ (if \<not> is_valid_transition from to then [transition_violation [Lit ''Invalid state transition for chunk '', FmtChunk c, Lit '' at event '',
               FmtNat i, Lit '': '', Lit (debug_chunk_state from), Lit '' -> '', Lit (debug_chunk_state to)] i c] else []),
          fmupd c to last_state)
     | _ \<Rightarrow> ([], last_state))"

definition no_illegal_transitions :: "trace_event list \<Rightarrow> replay_violation list" where
  "no_illegal_transitions evs = scan illegal_step 0 evs fmempty"

subsection \<open>NoDanglingAllocations\<close>

definition dangling_step ::
  "trace_event \<Rightarrow> (chunk_id, bool) btree \<times> (chunk_id, bool) btree \<Rightarrow> (chunk_id, bool) btree \<times> (chunk_id, bool) btree" where
  "dangling_step ev = (\<lambda>(created, deleted). case ev of
       ChunkCreated c _ _ _ \<Rightarrow> (fmupd c True created, deleted)
     | ChunkDeleted c _ _ \<Rightarrow> (created, fmupd c True deleted)
     | _ \<Rightarrow> (created, deleted))"

definition dangling_violation :: "chunk_id \<Rightarrow> replay_violation" where
  "dangling_violation c = \<lparr>v_invariant = ''NoDanglingAllocations'', v_severity = ViolWarning,
     v_message = [Lit ''Chunk '', FmtChunk c, Lit '' was deleted but never appeared as created''], v_event_index = None, v_chunk_id = Some c\<rparr>"

definition no_dangling_allocations :: "trace_event list \<Rightarrow> replay_violation list" where
  "no_dangling_allocations evs = (case fold dangling_step evs (fmempty, fmempty) of (created, deleted) \<Rightarrow>
     concat (map (\<lambda>(c, _). if \<not> unwrap_or False (fmlookup created c) then [dangling_violation c] else []) (bt_entries deleted)))"

subsection \<open>NoTimestampRegression\<close>

definition regression_step :: "nat \<Rightarrow> trace_event \<Rightarrow> u64 option \<Rightarrow> replay_violation list \<times> u64 option" where
  "regression_step i ev last_timestamp =
     ((case last_timestamp of
         Some l \<Rightarrow> if timestamp ev < l then [\<lparr>v_invariant = ''NoTimestampRegression'', v_severity = ViolError,
           v_message = [Lit ''Timestamp regression at event '', FmtNat i, Lit '': '', FmtNat (unat (timestamp ev)), Lit '' < '', FmtNat (unat l)],
           v_event_index = Some i, v_chunk_id = event_chunk_id ev\<rparr>] else []
       | None \<Rightarrow> []),
      Some (timestamp ev))"

definition no_timestamp_regression :: "trace_event list \<Rightarrow> replay_violation list" where
  "no_timestamp_regression evs = scan regression_step 0 evs None"

subsection \<open>NoMissingCompletions\<close>

definition pending_step :: "nat \<times> trace_event \<Rightarrow> (chunk_id, nat) btree \<Rightarrow> (chunk_id, nat) btree" where
  "pending_step = (\<lambda>(i, ev) pending. case ev of
       TransferStarted job _ \<Rightarrow> fmupd (job_chunk job) i pending
     | TransferCompleted c _ _ _ _ _ \<Rightarrow> fmdrop c pending
     | TransferFailed c _ _ _ _ _ \<Rightarrow> fmdrop c pending
     | TransferCancelled c _ _ _ \<Rightarrow> fmdrop c pending
     | _ \<Rightarrow> pending)"

definition missing_violation :: "chunk_id \<Rightarrow> nat \<Rightarrow> replay_violation" where
  "missing_violation c i = \<lparr>v_invariant = ''NoMissingCompletions'', v_severity = ViolError,
     v_message = [Lit ''Transfer for chunk '', FmtChunk c, Lit '' started at event '', FmtNat i, Lit '' but never completed, failed, or was cancelled''],
     v_event_index = Some i, v_chunk_id = Some c\<rparr>"

definition no_missing_completions :: "trace_event list \<Rightarrow> replay_violation list" where
  "no_missing_completions evs = map (\<lambda>(c, i). missing_violation c i) (bt_entries (fold pending_step (enumerate 0 evs) fmempty))"

subsection \<open>StateMachineConsistency\<close>

definition consistency_violation :: "violation_severity \<Rightarrow> message \<Rightarrow> nat \<Rightarrow> chunk_id \<Rightarrow> replay_violation" where
  "consistency_violation sev m i c = \<lparr>v_invariant = ''StateMachineConsistency'', v_severity = sev, v_message = m,
     v_event_index = Some i, v_chunk_id = Some c\<rparr>"

definition consistency_step ::
  "nat \<Rightarrow> trace_event \<Rightarrow> (chunk_id, chunk_state) btree \<Rightarrow> replay_violation list \<times> (chunk_id, chunk_state) btree" where
  "consistency_step i ev cs = (case ev of
       ChunkCreated c _ _ _ \<Rightarrow>
         ((case fmlookup cs c of
             Some existing \<Rightarrow> [consistency_violation ViolError [Lit ''Chunk '', FmtChunk c, Lit '' created at event '', FmtNat i,
               Lit '' but already in state '', Lit (debug_chunk_state existing)] i c]
           | None \<Rightarrow> []), fmupd c Allocated cs)
     | ChunkDeleted c _ _ \<Rightarrow>
         ((if fmlookup cs c = None then [consistency_violation ViolWarning [Lit ''Chunk '', FmtChunk c, Lit '' deleted at event '', FmtNat i,
               Lit '' but was never tracked''] i c] else []), fmdrop c cs)
     | ChunkStateChanged c from to _ \<Rightarrow>
         ((case fmlookup cs c of
             Some current \<Rightarrow> if current \<noteq> from then [consistency_violation ViolError [Lit ''State mismatch for chunk '', FmtChunk c,
               Lit '' at event '', FmtNat i, Lit '': expected '', Lit (debug_chunk_state current), Lit '', got '', Lit (debug_chunk_state from)] i c] else []
           | None \<Rightarrow> []), fmupd c to cs)
     | _ \<Rightarrow> ([], cs))"

definition state_machine_consistency :: "trace_event list \<Rightarrow> replay_violation list" where
  "state_machine_consistency evs = scan consistency_step 0 evs fmempty"

subsection \<open>The validator with all of them\<close>

definition NoOrphanedTransfers :: replay_invariant where
  "NoOrphanedTransfers = \<lparr>ri_name = ''NoOrphanedTransfers'', ri_validate = no_orphaned_transfers\<rparr>"

definition NoIllegalTransitions :: replay_invariant where
  "NoIllegalTransitions = \<lparr>ri_name = ''NoIllegalTransitions'', ri_validate = no_illegal_transitions\<rparr>"

definition NoDanglingAllocations :: replay_invariant where
  "NoDanglingAllocations = \<lparr>ri_name = ''NoDanglingAllocations'', ri_validate = no_dangling_allocations\<rparr>"

definition NoTimestampRegression :: replay_invariant where
  "NoTimestampRegression = \<lparr>ri_name = ''NoTimestampRegression'', ri_validate = no_timestamp_regression\<rparr>"

definition NoMissingCompletions :: replay_invariant where
  "NoMissingCompletions = \<lparr>ri_name = ''NoMissingCompletions'', ri_validate = no_missing_completions\<rparr>"

definition StateMachineConsistency :: replay_invariant where
  "StateMachineConsistency = \<lparr>ri_name = ''StateMachineConsistency'', ri_validate = state_machine_consistency\<rparr>"

definition validator_with_defaults :: invariant_validator where
  "validator_with_defaults = validator_register StateMachineConsistency (validator_register NoMissingCompletions
     (validator_register NoTimestampRegression (validator_register NoDanglingAllocations
     (validator_register NoIllegalTransitions (validator_register NoOrphanedTransfers validator_new)))))"

section \<open>What the checks mean\<close>

text \<open>Which chunk an event starts, finishes or settles a transfer of, creates or deletes.\<close>

definition start_of :: "trace_event \<Rightarrow> chunk_id option" where
  "start_of ev = (case ev of TransferStarted job _ \<Rightarrow> Some (job_chunk job) | _ \<Rightarrow> None)"

definition finish_of :: "trace_event \<Rightarrow> chunk_id option" where
  "finish_of ev = (case ev of TransferCompleted c _ _ _ _ _ \<Rightarrow> Some c | TransferFailed c _ _ _ _ _ \<Rightarrow> Some c | _ \<Rightarrow> None)"

definition settle_of :: "trace_event \<Rightarrow> chunk_id option" where
  "settle_of ev = (case ev of TransferCancelled c _ _ _ \<Rightarrow> Some c | _ \<Rightarrow> finish_of ev)"

definition created_of :: "trace_event \<Rightarrow> chunk_id option" where
  "created_of ev = (case ev of ChunkCreated c _ _ _ \<Rightarrow> Some c | _ \<Rightarrow> None)"

definition deleted_of :: "trace_event \<Rightarrow> chunk_id option" where
  "deleted_of ev = (case ev of ChunkDeleted c _ _ \<Rightarrow> Some c | _ \<Rightarrow> None)"

abbreviation the_of :: "(trace_event \<Rightarrow> chunk_id option) \<Rightarrow> trace_event list \<Rightarrow> chunk_id set" where
  "the_of f evs \<equiv> set (List.map_filter f evs)"

text \<open>The part of the log that is about one chunk, and what it says about the lifecycle.\<close>

datatype life_event = LCreated | LDeleted | LChanged chunk_state chunk_state

definition life_event_of :: "chunk_id \<Rightarrow> trace_event \<Rightarrow> life_event option" where
  "life_event_of c ev = (case ev of
       ChunkCreated d _ _ _ \<Rightarrow> if d = c then Some LCreated else None
     | ChunkDeleted d _ _ \<Rightarrow> if d = c then Some LDeleted else None
     | ChunkStateChanged d f t _ \<Rightarrow> if d = c then Some (LChanged f t) else None
     | _ \<Rightarrow> None)"

definition life_of :: "chunk_id \<Rightarrow> trace_event list \<Rightarrow> life_event list" where
  "life_of c evs = List.map_filter (life_event_of c) evs"

fun agrees :: "chunk_state option \<Rightarrow> chunk_state \<Rightarrow> bool" where
  "agrees None f = True"
| "agrees (Some s) f = (s = f)"

fun life_step :: "life_event \<Rightarrow> chunk_state option" where
  "life_step LCreated = Some Allocated"
| "life_step LDeleted = None"
| "life_step (LChanged f t) = Some t"

fun life_ok :: "chunk_state option \<Rightarrow> life_event list \<Rightarrow> bool" where
  "life_ok s [] = True"
| "life_ok s (e # es) = ((case e of LCreated \<Rightarrow> s = None | LDeleted \<Rightarrow> s \<noteq> None | LChanged f t \<Rightarrow> agrees s f) \<and> life_ok (life_step e) es)"

fun chain_ok :: "chunk_state option \<Rightarrow> life_event list \<Rightarrow> bool" where
  "chain_ok s [] = True"
| "chain_ok s (LChanged f t # es) = (agrees s f \<and> is_valid_transition f t \<and> chain_ok (Some t) es)"
| "chain_ok s (_ # es) = chain_ok s es"

text \<open>Every start of a transfer is followed by its end.\<close>

fun answered :: "trace_event list \<Rightarrow> bool" where
  "answered [] = True"
| "answered (ev # evs) = ((case start_of ev of Some c \<Rightarrow> c \<in> the_of settle_of evs | None \<Rightarrow> True) \<and> answered evs)"

definition chunks_of :: "trace_event list \<Rightarrow> chunk_id list" where
  "chunks_of evs = List.map_filter event_chunk_id evs"

section \<open>The checks are exact\<close>

text \<open>
  The contract of a check: it reports something exactly when its property fails, under its own name. A
  validator reports under the name of a check exactly when the property fails, as long as no other check of
  it has that name.
\<close>

locale exact_check =
  fixes chk :: replay_invariant and holds :: "trace_event list \<Rightarrow> bool"
  assumes exact: "ri_validate chk evs = [] \<longleftrightarrow> holds evs"
    and named: "v \<in> set (ri_validate chk evs) \<Longrightarrow> v_invariant v = ri_name chk"
begin

lemma own_name: "list_ex (\<lambda>v. v_invariant v = ri_name chk) (ri_validate chk evs) \<longleftrightarrow> \<not> holds evs"
proof (cases "ri_validate chk evs")
  case (Cons v vs)
  then show ?thesis using exact [of evs] named [of v evs] by simp
next
  case Nil
  then show ?thesis using exact [of evs] by simp
qed

lemma other_name: "n \<noteq> ri_name chk \<Longrightarrow> \<not> list_ex (\<lambda>v. v_invariant v = n) (ri_validate chk evs)"
  using named by (auto simp: list_ex_iff)

end

lemma map_filter_simps [simp]: "List.map_filter f (x # xs) = (case f x of None \<Rightarrow> List.map_filter f xs | Some y \<Rightarrow> y # List.map_filter f xs)"
  "List.map_filter f [] = []"
  by (simp_all add: List.map_filter_def split: option.split)

lemma orphan_step_of: "orphan_step (i, ev) (st, co) = (case start_of ev of Some c \<Rightarrow> (fmupd c i st, or_insert c False co)
    | None \<Rightarrow> (case finish_of ev of Some c \<Rightarrow> (st, fmupd c True co) | None \<Rightarrow> (st, co)))"
  by (cases ev) (simp_all add: orphan_step_def start_of_def finish_of_def)

lemma dangling_step_of: "dangling_step ev (cr, de) = (case created_of ev of Some c \<Rightarrow> (fmupd c True cr, de)
    | None \<Rightarrow> (case deleted_of ev of Some c \<Rightarrow> (cr, fmupd c True de) | None \<Rightarrow> (cr, de)))"
  by (cases ev) (simp_all add: dangling_step_def created_of_def deleted_of_def)

lemma pending_step_of: "pending_step (i, ev) p = (case start_of ev of Some c \<Rightarrow> fmupd c i p
    | None \<Rightarrow> (case settle_of ev of Some c \<Rightarrow> fmdrop c p | None \<Rightarrow> p))"
  by (cases ev) (simp_all add: pending_step_def start_of_def settle_of_def finish_of_def)

lemma one_of:
  "start_of ev = Some c \<Longrightarrow> finish_of ev = None" "start_of ev = Some c \<Longrightarrow> settle_of ev = None" "created_of ev = Some c \<Longrightarrow> deleted_of ev = None"
  by (cases ev; simp add: start_of_def finish_of_def settle_of_def created_of_def deleted_of_def)+

lemma fold_orphan:
  assumes "fold orphan_step (enumerate n evs) (st, co) = (st', co')"
  shows "fset (fmdom st') = fset (fmdom st) \<union> the_of start_of evs
    \<and> (fmlookup co' c = Some True \<longleftrightarrow> fmlookup co c = Some True \<or> c \<in> the_of finish_of evs)"
  using assms
proof (induction evs arbitrary: n st co)
  case (Cons ev evs)
  obtain st1 co1 where s: "orphan_step (n, ev) (st, co) = (st1, co1)" by (cases "orphan_step (n, ev) (st, co)")
  then have "fold orphan_step (enumerate (Suc n) evs) (st1, co1) = (st', co')" using Cons.prems by simp
  note IH = Cons.IH [OF this]
  show ?case
  proof (cases "start_of ev")
    case (Some d)
    then have "st1 = fmupd d n st" "co1 = or_insert d False co" "finish_of ev = None" using s one_of(1) [OF Some] by (simp_all add: orphan_step_of)
    then show ?thesis using IH Some by (cases "fmlookup co c") auto
  next
    case None
    then show ?thesis using IH s by (cases "finish_of ev") (auto simp: orphan_step_of split: if_splits)
  qed
qed simp

lemma no_orphaned_exact: "no_orphaned_transfers evs = [] \<longleftrightarrow> the_of start_of evs \<subseteq> the_of finish_of evs"
proof -
  obtain st co where f: "fold orphan_step (enumerate 0 evs) (fmempty, fmempty) = (st, co)" by (cases "fold orphan_step (enumerate 0 evs) (fmempty, fmempty)")
  have b: "unwrap_or False (fmlookup co c) \<longleftrightarrow> fmlookup co c = Some True" for c by (cases "fmlookup co c") auto
  have "no_orphaned_transfers evs = [] \<longleftrightarrow> (\<forall>c i. fmlookup st c = Some i \<longrightarrow> fmlookup co c = Some True)"
    by (auto simp: no_orphaned_transfers_def f b in_bt_entries [symmetric] split: if_splits)
  also have "\<dots> \<longleftrightarrow> (\<forall>c \<in> fset (fmdom st). fmlookup co c = Some True)" by (auto simp: fmlookup_dom_iff)
  finally show ?thesis using fold_orphan [OF f] by auto
qed

lemma fold_dangling:
  assumes "fold dangling_step evs (cr, de) = (cr', de')"
  shows "fset (fmdom de') = fset (fmdom de) \<union> the_of deleted_of evs
    \<and> (fmlookup cr' c = Some True \<longleftrightarrow> fmlookup cr c = Some True \<or> c \<in> the_of created_of evs)"
  using assms
proof (induction evs arbitrary: cr de)
  case (Cons ev evs)
  obtain cr1 de1 where s: "dangling_step ev (cr, de) = (cr1, de1)" by (cases "dangling_step ev (cr, de)")
  then have "fold dangling_step evs (cr1, de1) = (cr', de')" using Cons.prems by simp
  note IH = Cons.IH [OF this]
  show ?case
  proof (cases "created_of ev")
    case (Some d)
    then have "cr1 = fmupd d True cr" "de1 = de" "deleted_of ev = None" using s one_of(3) [OF Some] by (simp_all add: dangling_step_of)
    then show ?thesis using IH Some by (cases "c = d") simp_all
  next
    case None
    then have "cr1 = cr" "de1 = (case deleted_of ev of Some d \<Rightarrow> fmupd d True de | None \<Rightarrow> de)"
      using s by (cases "deleted_of ev"; simp add: dangling_step_of)+
    then show ?thesis using IH None by (cases "deleted_of ev") simp_all
  qed
qed simp

lemma no_dangling_exact: "no_dangling_allocations evs = [] \<longleftrightarrow> the_of deleted_of evs \<subseteq> the_of created_of evs"
proof -
  obtain cr de where f: "fold dangling_step evs (fmempty, fmempty) = (cr, de)" by (cases "fold dangling_step evs (fmempty, fmempty)")
  have b: "unwrap_or False (fmlookup cr c) \<longleftrightarrow> fmlookup cr c = Some True" for c by (cases "fmlookup cr c") auto
  have "no_dangling_allocations evs = [] \<longleftrightarrow> (\<forall>c i. fmlookup de c = Some i \<longrightarrow> fmlookup cr c = Some True)"
    by (auto simp: no_dangling_allocations_def f b in_bt_entries [symmetric] split: if_splits)
  also have "\<dots> \<longleftrightarrow> (\<forall>c \<in> fset (fmdom de). fmlookup cr c = Some True)" by (auto simp: fmlookup_dom_iff)
  finally show ?thesis using fold_dangling [OF f] by auto
qed

lemma regression_step_of:
  "fst (regression_step i ev l) = [] \<longleftrightarrow> (case l of Some t \<Rightarrow> t \<le> timestamp ev | None \<Rightarrow> True)" "snd (regression_step i ev l) = Some (timestamp ev)"
  by (auto simp: regression_step_def not_less split: option.split)

lemma sorted_timestamps:
  "sorted (map timestamp (ev # evs)) \<longleftrightarrow> (case evs of [] \<Rightarrow> True | e # _ \<Rightarrow> timestamp ev \<le> timestamp e) \<and> sorted (map timestamp evs)"
  by (cases evs) (auto intro: order_trans)

lemma scan_regression:
  "scan regression_step i evs l = [] \<longleftrightarrow> sorted (map timestamp evs) \<and> (case l of Some t \<Rightarrow> (case evs of [] \<Rightarrow> True | ev # _ \<Rightarrow> t \<le> timestamp ev) | None \<Rightarrow> True)"
proof (induction evs arbitrary: i l)
  case (Cons ev evs)
  have "scan regression_step i (ev # evs) l = [] \<longleftrightarrow> fst (regression_step i ev l) = [] \<and> scan regression_step (Suc i) evs (Some (timestamp ev)) = []"
    by (simp add: regression_step_of)
  then show ?case unfolding Cons regression_step_of sorted_timestamps by (auto split: option.splits)
qed (simp split: option.split)

lemma fold_pending:
  "fset (fmdom (fold pending_step (enumerate n evs) p)) = {} \<longleftrightarrow> answered evs \<and> fset (fmdom p) \<subseteq> the_of settle_of evs"
proof (induction evs arbitrary: n p)
  case (Cons ev evs)
  show ?case using Cons [of "Suc n" "pending_step (n, ev) p"]
    by (auto simp: pending_step_of one_of split: option.splits)
qed auto

lemma no_missing_exact: "no_missing_completions evs = [] \<longleftrightarrow> answered evs"
proof -
  have "no_missing_completions evs = [] \<longleftrightarrow> fset (fmdom (fold pending_step (enumerate 0 evs) fmempty)) = {}"
    by (simp add: no_missing_completions_def bt_entries_def flip: set_empty)
  then show ?thesis by (simp add: fold_pending)
qed

lemma scan_illegal: "scan illegal_step i evs ls = [] \<longleftrightarrow> (\<forall>c. chain_ok (fmlookup ls c) (life_of c evs))"
proof (induction evs arbitrary: i ls)
  case Nil
  show ?case by (simp add: life_of_def)
next
  case (Cons ev evs)
  note IH = Cons [of "Suc i" "snd (illegal_step i ev ls)"]
  show ?case
  proof (cases "\<exists>d f t ts. ev = ChunkStateChanged d f t ts")
    case True
    then obtain d f t ts where ev: "ev = ChunkStateChanged d f t ts" by blast
    have "chain_ok (fmlookup ls c) (life_of c (ev # evs)) \<longleftrightarrow> (c = d \<longrightarrow> agrees (fmlookup ls d) f \<and> is_valid_transition f t)
        \<and> chain_ok (fmlookup (fmupd d t ls) c) (life_of c evs)" for c
      by (simp add: life_of_def life_event_of_def ev)
    moreover have "fst (illegal_step i ev ls) = [] \<longleftrightarrow> agrees (fmlookup ls d) f \<and> is_valid_transition f t"
      by (cases "fmlookup ls d") (simp_all add: illegal_step_def ev)
    ultimately show ?thesis using IH by (auto simp: ev illegal_step_def)
  next
    case False
    then have "illegal_step i ev ls = ([], ls)" by (cases ev) (simp_all add: illegal_step_def)
    moreover have "chain_ok s (life_of c (ev # evs)) = chain_ok s (life_of c evs)" for s c
      using False by (cases ev) (simp_all add: life_of_def life_event_of_def)
    ultimately show ?thesis using IH by simp
  qed
qed

lemma life_event_of_cases:
  assumes "life_event_of d ev = Some e"
  obtains (created) sz t ts where "ev = ChunkCreated d sz t ts" "e = LCreated"
  | (deleted) t ts where "ev = ChunkDeleted d t ts" "e = LDeleted"
  | (changed) f t ts where "ev = ChunkStateChanged d f t ts" "e = LChanged f t"
  using assms by (cases ev) (simp_all add: life_event_of_def split: if_splits)

lemma consistency_step_of:
  assumes "life_event_of d ev = Some e"
  shows "fst (consistency_step i ev cs) = [] \<longleftrightarrow> (case e of LCreated \<Rightarrow> fmlookup cs d = None | LDeleted \<Rightarrow> fmlookup cs d \<noteq> None
        | LChanged f t \<Rightarrow> agrees (fmlookup cs d) f)"
    and "fmlookup (snd (consistency_step i ev cs)) c = (if c = d then life_step e else fmlookup cs c)"
    and "life_event_of c ev = (if c = d then Some e else None)"
  using assms by (cases "fmlookup cs d"; cases rule: life_event_of_cases; simp add: life_event_of_def consistency_step_def)+

lemma scan_consistency: "scan consistency_step i evs cs = [] \<longleftrightarrow> (\<forall>c. life_ok (fmlookup cs c) (life_of c evs))"
proof (induction evs arbitrary: i cs)
  case Nil
  show ?case by (simp add: life_of_def)
next
  case (Cons ev evs)
  note IH = Cons [of "Suc i" "snd (consistency_step i ev cs)"]
  show ?case
  proof (cases "\<exists>d e. life_event_of d ev = Some e")
    case True
    then obtain d e where e: "life_event_of d ev = Some e" by blast
    note step = consistency_step_of [OF e]
    have "life_ok (fmlookup cs c) (life_of c (ev # evs)) \<longleftrightarrow> (c = d \<longrightarrow> fst (consistency_step i ev cs) = [])
        \<and> life_ok (fmlookup (snd (consistency_step i ev cs)) c) (life_of c evs)" for c
      using step(3) [of c] by (simp add: life_of_def step(1,2))
    then show ?thesis using IH by auto
  next
    case False
    then have "life_event_of (the (event_chunk_id ev)) ev = None" by auto
    then have "consistency_step i ev cs = ([], cs)" by (cases ev) (simp_all add: consistency_step_def life_event_of_def)
    moreover have "life_of c (ev # evs) = life_of c evs" for c using False by (cases "life_event_of c ev") (simp_all add: life_of_def)
    ultimately show ?thesis using IH by simp
  qed
qed

text \<open>Only the chunks that the trace names matter.\<close>

lemma life_of_absent: "c \<notin> set (chunks_of evs) \<Longrightarrow> life_of c evs = []"
proof (induction evs)
  case (Cons ev evs)
  have "life_event_of c ev = None \<or> event_chunk_id ev = Some c" by (cases ev) (simp_all add: life_event_of_def)
  then show ?case using Cons by (auto simp: life_of_def chunks_of_def split: option.splits)
qed (simp add: life_of_def)

lemma all_lives:
  assumes "\<And>s. P s []"
  shows "(\<forall>c. P None (life_of c evs)) \<longleftrightarrow> list_all (\<lambda>c. P None (life_of c evs)) (chunks_of evs)"
  using assms life_of_absent [of _ evs] by (auto simp: list_all_iff)

lemma scan_named: "(\<And>i ev s v. v \<in> set (fst (f i ev s)) \<Longrightarrow> v_invariant v = n) \<Longrightarrow> v \<in> set (scan f i evs s) \<Longrightarrow> v_invariant v = n"
  by (induction evs arbitrary: i s) auto

definition transfers_finished :: "trace_event list \<Rightarrow> bool" where
  "transfers_finished evs \<longleftrightarrow> the_of start_of evs \<subseteq> the_of finish_of evs"

definition transitions_chained :: "trace_event list \<Rightarrow> bool" where
  "transitions_chained evs \<longleftrightarrow> list_all (\<lambda>c. chain_ok None (life_of c evs)) (chunks_of evs)"

definition deleted_were_created :: "trace_event list \<Rightarrow> bool" where
  "deleted_were_created evs \<longleftrightarrow> the_of deleted_of evs \<subseteq> the_of created_of evs"

definition in_time_order :: "trace_event list \<Rightarrow> bool" where
  "in_time_order evs \<longleftrightarrow> sorted (map timestamp evs)"

definition lives_consistent :: "trace_event list \<Rightarrow> bool" where
  "lives_consistent evs \<longleftrightarrow> list_all (\<lambda>c. life_ok None (life_of c evs)) (chunks_of evs)"

lemma step_named:
  "v \<in> set (fst (illegal_step i ev ls)) \<Longrightarrow> v_invariant v = ''NoIllegalTransitions''"
  "v \<in> set (fst (regression_step i ev l)) \<Longrightarrow> v_invariant v = ''NoTimestampRegression''"
  "v \<in> set (fst (consistency_step i ev cs)) \<Longrightarrow> v_invariant v = ''StateMachineConsistency''"
proof -
  show "v \<in> set (fst (illegal_step i ev ls)) \<Longrightarrow> v_invariant v = ''NoIllegalTransitions''"
    by (cases ev) (auto simp: illegal_step_def transition_violation_def split: option.splits if_splits)
  show "v \<in> set (fst (regression_step i ev l)) \<Longrightarrow> v_invariant v = ''NoTimestampRegression''"
    by (auto simp: regression_step_def split: option.splits if_splits)
  show "v \<in> set (fst (consistency_step i ev cs)) \<Longrightarrow> v_invariant v = ''StateMachineConsistency''"
    by (cases ev) (auto simp: consistency_step_def consistency_violation_def split: option.splits if_splits)
qed

lemma table_named:
  "v \<in> set (no_orphaned_transfers evs) \<Longrightarrow> v_invariant v = ''NoOrphanedTransfers''"
  "v \<in> set (no_dangling_allocations evs) \<Longrightarrow> v_invariant v = ''NoDanglingAllocations''"
  "v \<in> set (no_missing_completions evs) \<Longrightarrow> v_invariant v = ''NoMissingCompletions''"
  by (auto simp: no_orphaned_transfers_def orphan_violation_def no_dangling_allocations_def dangling_violation_def
      no_missing_completions_def missing_violation_def split: prod.splits if_splits)

interpretation orphaned: exact_check NoOrphanedTransfers transfers_finished
  by unfold_locales (simp_all add: NoOrphanedTransfers_def transfers_finished_def no_orphaned_exact table_named)

interpretation illegal: exact_check NoIllegalTransitions transitions_chained
  using all_lives [of chain_ok] scan_named [of illegal_step, OF step_named(1)]
  by unfold_locales (auto simp: NoIllegalTransitions_def no_illegal_transitions_def scan_illegal transitions_chained_def)

interpretation dangling: exact_check NoDanglingAllocations deleted_were_created
  by unfold_locales (simp_all add: NoDanglingAllocations_def deleted_were_created_def no_dangling_exact table_named)

interpretation regression: exact_check NoTimestampRegression in_time_order
  using scan_named [of regression_step, OF step_named(2)]
  by unfold_locales (auto simp: NoTimestampRegression_def no_timestamp_regression_def scan_regression in_time_order_def)

interpretation missing: exact_check NoMissingCompletions answered
  by unfold_locales (simp_all add: NoMissingCompletions_def no_missing_exact table_named)

interpretation consistency: exact_check StateMachineConsistency lives_consistent
  using all_lives [of life_ok] scan_named [of consistency_step, OF step_named(3)]
  by unfold_locales (auto simp: StateMachineConsistency_def state_machine_consistency_def scan_consistency lives_consistent_def)

section \<open>The validator is exact\<close>

definition trace_properties :: "(string \<times> (trace_event list \<Rightarrow> bool)) list" where
  "trace_properties = [(''NoOrphanedTransfers'', transfers_finished), (''NoIllegalTransitions'', transitions_chained),
     (''NoDanglingAllocations'', deleted_were_created), (''NoTimestampRegression'', in_time_order), (''NoMissingCompletions'', answered),
     (''StateMachineConsistency'', lives_consistent)]"

lemmas check_names =
  NoOrphanedTransfers_def [THEN arg_cong [of _ _ ri_name]] NoIllegalTransitions_def [THEN arg_cong [of _ _ ri_name]]
  NoDanglingAllocations_def [THEN arg_cong [of _ _ ri_name]] NoTimestampRegression_def [THEN arg_cong [of _ _ ri_name]]
  NoMissingCompletions_def [THEN arg_cong [of _ _ ri_name]] StateMachineConsistency_def [THEN arg_cong [of _ _ ri_name]]

lemmas check_reports =
  orphaned.own_name illegal.own_name dangling.own_name regression.own_name missing.own_name consistency.own_name

lemmas check_silent =
  orphaned.other_name illegal.other_name dangling.other_name regression.other_name missing.other_name consistency.other_name

lemma validator_defaults:
  "validator_validate validator_with_defaults evs = ri_validate NoOrphanedTransfers evs @ ri_validate NoIllegalTransitions evs
    @ ri_validate NoDanglingAllocations evs @ ri_validate NoTimestampRegression evs @ ri_validate NoMissingCompletions evs
    @ ri_validate StateMachineConsistency evs"
  by (simp add: validator_validate_def validator_with_defaults_def validator_register_def validator_new_def)

text \<open>
  What the validator reports under the name of each check. The predicates are what the checks compute; where
  the comments on the checks say something else they are weaker: a transfer may have finished before it
  started, a created chunk may have been created after its deletion, and a cancellation ends a transfer too.
\<close>

lemma validator_reports:
  "map (\<lambda>(n, holds). holds evs) trace_properties
   = map (\<lambda>(n, _). \<not> list_ex (\<lambda>v. v_invariant v = n) (validator_validate validator_with_defaults evs)) trace_properties"
  using check_reports [of evs] check_silent [of _ evs]
  by (simp add: trace_properties_def validator_defaults check_names)

section \<open>Accepted traces and the reconstruction\<close>

definition is_eviction :: "trace_event \<Rightarrow> bool" where
  "is_eviction ev = (case ev of Eviction _ _ _ _ \<Rightarrow> True | _ \<Rightarrow> False)"

text \<open>State changes are of chunks that exist.\<close>

fun tracked :: "chunk_state option \<Rightarrow> life_event list \<Rightarrow> bool" where
  "tracked s [] = True"
| "tracked s (e # es) = ((case e of LChanged f t \<Rightarrow> s \<noteq> None | _ \<Rightarrow> True) \<and> tracked (life_step e) es)"

text \<open>What the log last said about a chunk.\<close>

definition logged_state :: "chunk_id \<Rightarrow> trace_event list \<Rightarrow> chunk_state option" where
  "logged_state c evs = (if life_of c evs = [] then None else life_step (last (life_of c evs)))"

lemma replay_step_at:
  assumes "\<not> is_eviction ev"
  shows "replay_step ev m c = (case life_event_of c ev of
       None \<Rightarrow> m c
     | Some LCreated \<Rightarrow> if m c = None then Some Allocated else m c
     | Some LDeleted \<Rightarrow> None
     | Some (LChanged f t) \<Rightarrow> if m c = Some f \<and> is_valid_transition f t then Some t else m c)"
  using assms by (cases ev) (auto simp: replay_step_def life_event_of_def is_eviction_def)

lemma chain_ok_valid: "chain_ok s es \<Longrightarrow> LChanged f t \<in> set es \<Longrightarrow> is_valid_transition f t"
  by (induction s es rule: chain_ok.induct) auto

lemma replay_follows:
  assumes "list_all (\<lambda>ev. \<not> is_eviction ev) evs" "life_ok (m c) (life_of c evs)" "tracked (m c) (life_of c evs)"
    and "\<And>f t. LChanged f t \<in> set (life_of c evs) \<Longrightarrow> is_valid_transition f t"
  shows "fold replay_step evs m c = (if life_of c evs = [] then m c else life_step (last (life_of c evs)))"
  using assms
proof (induction evs arbitrary: m)
  case (Cons ev evs)
  have ne: "\<not> is_eviction ev" using Cons.prems(1) by simp
  show ?case
  proof (cases "life_event_of c ev")
    case None
    then have l: "life_of c (ev # evs) = life_of c evs" by (simp add: life_of_def)
    moreover have "replay_step ev m c = m c" using None by (simp add: replay_step_at [OF ne])
    ultimately show ?thesis using Cons by simp
  next
    case (Some e)
    then have l: "life_of c (ev # evs) = e # life_of c evs" by (simp add: life_of_def)
    have "replay_step ev m c = life_step e"
      using Cons.prems(2,3) Cons.prems(4) [of "case e of LChanged f t \<Rightarrow> f" "case e of LChanged f t \<Rightarrow> t"] Some
      by (cases e; cases "m c") (simp_all add: l replay_step_at [OF ne])
    then show ?thesis using Cons by (simp add: l)
  qed
qed (simp add: life_of_def)

text \<open>
  C21: the reconstruction of a trace that the validator accepts follows its log: when no chunk is evicted, state
  changes are of existing chunks only and the bytes created fit the counters, the final snapshot has every
  chunk in the state the log last gave it.
\<close>

theorem accepted_trace_followed:
  assumes "validator_validate validator_with_defaults evs = []" "list_all (\<lambda>ev. \<not> is_eviction ev) evs"
    and "list_all (\<lambda>c. tracked None (life_of c evs)) (chunks_of evs)" "evs \<noteq> []"
    and "pr = Release \<or> sum_list (map created_bytes evs) < 2 ^ 64"
  shows "\<exists>r s. process_events pr evs reconstructor_new = (Ok (), r) \<and> final_snapshot r = Some s
    \<and> snapshot_chunk_state s = (\<lambda>c. logged_state c evs)"
proof -
  have "lives_consistent evs" "transitions_chained evs"
    using assms(1) consistency.exact illegal.exact by (simp_all add: validator_defaults)
  then have ok: "life_ok None (life_of c evs)" "tracked None (life_of c evs)" "chain_ok None (life_of c evs)" for c
    using all_lives [of life_ok evs] all_lives [of tracked evs] all_lives [of chain_ok evs] assms(3)
    by (simp_all add: lives_consistent_def transitions_chained_def)
  have fin: "fold replay_step evs Map.empty c = logged_state c evs" for c
    using replay_follows [of evs Map.empty c] assms(2) ok [of c] chain_ok_valid by (simp add: logged_state_def)
  obtain r where r: "process_events pr evs reconstructor_new = (Ok (), r)" using process_events_replays [OF assms(5)] by blast
  have len: "length (sr_snapshots r) = length evs" by (rule snapshots_replay(1) [OF r assms(5)])
  then have "final_snapshot r = Some (sr_snapshots r ! (length evs - 1))"
    using assms(4) by (auto simp: final_snapshot_def last_conv_nth)
  moreover have "snapshot_chunk_state (sr_snapshots r ! (length evs - 1)) = fold replay_step evs Map.empty"
    using snapshots_replay(2) [OF r assms(5), of "length evs - 1"] assms(4) by simp
  ultimately show ?thesis using r fin by (auto simp: fun_eq_iff)
qed

theorem accepted_trace_followed_witness:
  "\<exists>r s. process_events Debug (take 2 small_trace) reconstructor_new = (Ok (), r) \<and> final_snapshot r = Some s
    \<and> snapshot_chunk_state s = (\<lambda>c. logged_state c (take 2 small_trace))"
proof (rule accepted_trace_followed)
  let ?t = "[ChunkCreated (ChunkId [1]) 8 Ram 10, ChunkStateChanged (ChunkId [1]) Allocated Stored 11]"
  have t: "take 2 small_trace = ?t" by (simp add: small_trace_def)
  have "transfers_finished ?t" "transitions_chained ?t" "deleted_were_created ?t" "in_time_order ?t" "answered ?t" "lives_consistent ?t"
    by (simp_all add: transfers_finished_def transitions_chained_def deleted_were_created_def in_time_order_def lives_consistent_def
        start_of_def deleted_of_def chunks_of_def life_of_def life_event_of_def)
  then show "validator_validate validator_with_defaults (take 2 small_trace) = []"
    using orphaned.exact illegal.exact dangling.exact regression.exact missing.exact consistency.exact by (simp add: validator_defaults t)
  show "list_all (\<lambda>ev. \<not> is_eviction ev) (take 2 small_trace)" "take 2 small_trace \<noteq> []"
    "list_all (\<lambda>c. tracked None (life_of c (take 2 small_trace))) (chunks_of (take 2 small_trace))"
    "Debug = Release \<or> sum_list (map created_bytes (take 2 small_trace)) < 2 ^ 64"
    by (simp_all add: t is_eviction_def chunks_of_def life_of_def life_event_of_def created_bytes_def)
qed

text \<open>
  A chunk whose log says that it was created and then left the stored state is reported as inconsistent: a
  creation puts the chunk into the allocated state. This is what the daemon logs when a chunk is stored and evicted.
\<close>

theorem store_evict_flagged:
  assumes "life_of c evs = LCreated # LChanged Stored to # es"
  shows "list_ex (\<lambda>v. v_invariant v = ''StateMachineConsistency'') (validator_validate validator_with_defaults evs)"
proof -
  have "c \<in> set (chunks_of evs)" using life_of_absent [of c evs] assms by auto
  then have "\<not> lives_consistent evs" using assms by (auto simp: lives_consistent_def list_all_iff intro!: bexI [of _ c])
  then show ?thesis using validator_reports [of evs] by (simp add: trace_properties_def)
qed

theorem store_evict_flagged_witness:
  "list_ex (\<lambda>v. v_invariant v = ''StateMachineConsistency'') (validator_validate validator_with_defaults
     [ChunkCreated (ChunkId [1]) 8 Ram 10, ChunkStateChanged (ChunkId [1]) Stored Evicted 12, Eviction (ChunkId [1]) Ram Manual 12])"
  by (rule store_evict_flagged [of "ChunkId [1]" _ Evicted "[]"]) (simp add: life_of_def life_event_of_def)

end
