(* ===== verification/Replay_Engine.thy ===== *)
theory Replay_Engine
  imports Replay_Checks Trace_File
begin

text \<open>
  \<^verbatim>\<open>ghost-replay/src/engine.rs\<close>: the replay engine, which keeps a state machine and a table of its own and
  counts what it sees. The theory shows that it replays every trace that is in order without an error
  and with exact counts, and what happens to traces that re-create a chunk or make an invalid transition.
\<close>

section \<open>Data\<close>

record replay_config =
  validate_transitions :: bool
  stop_on_error :: bool
  cfg_max_events :: u64

definition replay_config_default :: replay_config where
  "replay_config_default = \<lparr>validate_transitions = True, stop_on_error = False, cfg_max_events = 0\<rparr>"

text \<open>The text of an event in an error is a fixed one or the event's own debug text.\<close>

datatype event_text = FixedText string | DebugText trace_event

record replay_validation_error =
  ve_event_index :: u64
  ve_event :: event_text
  ve_message :: message

record replay_summary =
  events_replayed :: u64
  validation_errors :: u64
  chunks_created :: u64
  chunks_deleted :: u64
  state_transitions :: u64
  transfers_completed :: u64
  transfers_failed :: u64
  evictions :: u64
  pressure_alerts :: u64
  policy_decisions :: u64
  unique_chunks :: u64
  rs_time_range :: "u64 \<times> u64"
  errors :: "replay_validation_error list"

definition summary_default :: replay_summary where
  "summary_default = \<lparr>events_replayed = 0, validation_errors = 0, chunks_created = 0, chunks_deleted = 0, state_transitions = 0,
     transfers_completed = 0, transfers_failed = 0, evictions = 0, pressure_alerts = 0, policy_decisions = 0, unique_chunks = 0,
     rs_time_range = (0, 0), errors = []\<rparr>"

record chunk_replay_state =
  crs_state :: chunk_state
  crs_tier :: "tier_id option"
  crs_created :: bool

record replay_engine =
  en_config :: replay_config
  en_machine :: state_machine
  en_chunks :: "(chunk_id, chunk_replay_state) btree"
  en_summary :: replay_summary
  en_event_count :: u64

type_synonym 'a engine_act = "(replay_engine, 'a, ghost_error) act"

definition engine_start :: "replay_config \<Rightarrow> replay_engine" where
  "engine_start cfg = \<lparr>en_config = cfg, en_machine = sm_new, en_chunks = fmempty, en_summary = summary_default, en_event_count = 0\<rparr>"

section \<open>One event\<close>

definition on_summary :: "(replay_summary \<Rightarrow> replay_summary) \<Rightarrow> unit engine_act" where
  "on_summary f = update_act (\<lambda>e. e\<lparr>en_summary := f (en_summary e)\<rparr>)"

definition count_one :: "profile \<Rightarrow> (replay_summary \<Rightarrow> u64) \<Rightarrow> ((u64 \<Rightarrow> u64) \<Rightarrow> replay_summary \<Rightarrow> replay_summary) \<Rightarrow> unit engine_act" where
  "count_one pr get upd e = bind_act (lift_outcome (add_pr pr (get (en_summary e)) 1)) (\<lambda>n. on_summary (upd (\<lambda>_. n))) e"

definition add_error :: "profile \<Rightarrow> message \<Rightarrow> unit engine_act" where
  "add_error pr msg = bind_act (count_one pr validation_errors validation_errors_update) (\<lambda>_ e.
     on_summary (\<lambda>s. if length (errors s) < 100
       then s\<lparr>errors := errors s @ [\<lparr>ve_event_index = en_event_count e, ve_event = FixedText ''state_transition'', ve_message = msg\<rparr>]\<rparr> else s) e)"

definition track_time :: "u64 \<Rightarrow> replay_summary \<Rightarrow> replay_summary" where
  "track_time ts s = (if rs_time_range s = (0, 0) then s\<lparr>rs_time_range := (ts, ts)\<rparr>
     else s\<lparr>rs_time_range := (min (fst (rs_time_range s)) ts, max (snd (rs_time_range s)) ts)\<rparr>)"

definition on_engine_machine :: "(state_machine, 'a, ghost_error) act \<Rightarrow> 'a engine_act" where
  "on_engine_machine m = on_part en_machine (\<lambda>t e. e\<lparr>en_machine := t\<rparr>) m"

definition change_state :: "profile \<Rightarrow> chunk_id \<Rightarrow> chunk_state \<Rightarrow> chunk_state \<Rightarrow> unit engine_act" where
  "change_state pr c from to e =
     (let current = unwrap_or Allocated (map_option crs_state (fmlookup (en_chunks e) c)) in
      bind_act (if validate_transitions (en_config e)
          then bind_act (if current \<noteq> from then add_error pr [Lit ''expected from='', Lit (debug_chunk_state from),
                 Lit '', but chunk is in state '', Lit (debug_chunk_state current)] else ret ()) (\<lambda>_.
               if \<not> is_valid_transition current to then add_error pr [Lit ''invalid transition: '', Lit (debug_chunk_state from), Lit '' -> '',
                 Lit (debug_chunk_state to)] else ret ())
          else ret ()) (\<lambda>_.
      if is_valid_transition current to
      then bind_act (on_engine_machine (\<lambda>sm. transition pr sm c to)) (\<lambda>_.
           update_act (\<lambda>e. e\<lparr>en_chunks := (case fmlookup (en_chunks e) c of
               Some st \<Rightarrow> fmupd c (st\<lparr>crs_state := to\<rparr>) (en_chunks e)
             | None \<Rightarrow> fmupd c \<lparr>crs_state = to, crs_tier = None, crs_created = False\<rparr> (en_chunks e))\<rparr>))
      else ret ()) e)"

definition replay_event :: "profile \<Rightarrow> trace_event \<Rightarrow> unit engine_act" where
  "replay_event pr ev = bind_act (on_summary (track_time (timestamp ev))) (\<lambda>_. case ev of
       ChunkCreated c _ tier _ \<Rightarrow>
         bind_act (count_one pr chunks_created chunks_created_update) (\<lambda>_.
         bind_act (on_engine_machine (\<lambda>sm. register sm c)) (\<lambda>_.
         update_act (\<lambda>e. e\<lparr>en_chunks := fmupd c \<lparr>crs_state = Allocated, crs_tier = Some tier, crs_created = True\<rparr> (en_chunks e)\<rparr>)))
     | ChunkDeleted c _ _ \<Rightarrow>
         bind_act (count_one pr chunks_deleted chunks_deleted_update) (\<lambda>_. update_act (\<lambda>e. e\<lparr>en_chunks := fmdrop c (en_chunks e)\<rparr>))
     | ChunkStateChanged c from to _ \<Rightarrow>
         bind_act (count_one pr state_transitions state_transitions_update) (\<lambda>_. change_state pr c from to)
     | TransferCompleted _ _ _ _ _ _ \<Rightarrow> count_one pr transfers_completed transfers_completed_update
     | TransferFailed _ _ _ _ _ _ \<Rightarrow> count_one pr transfers_failed transfers_failed_update
     | Eviction _ _ _ _ \<Rightarrow> count_one pr evictions evictions_update
     | PressureAlert _ _ _ _ \<Rightarrow> count_one pr pressure_alerts pressure_alerts_update
     | PolicyDecision _ _ _ _ _ \<Rightarrow> count_one pr policy_decisions policy_decisions_update
     | _ \<Rightarrow> ret ())"

section \<open>Replaying\<close>

fun replay_loop :: "profile \<Rightarrow> nat \<Rightarrow> trace_event list \<Rightarrow> unit engine_act" where
  "replay_loop pr i [] = ret ()"
| "replay_loop pr i (ev # evs) =
     bind_act (update_act (\<lambda>e. e\<lparr>en_event_count := of_nat i\<rparr>)) (\<lambda>_.
     bind_act (replay_event pr ev) (\<lambda>_ e.
     if stop_on_error (en_config e) \<and> validation_errors (en_summary e) > 0 then (Ok (), e)
     else replay_loop pr (Suc i) evs e))"

definition finish_summary :: "u64 \<Rightarrow> replay_summary engine_act" where
  "finish_summary n = bind_act (update_act (\<lambda>e. e\<lparr>en_summary := (en_summary e)\<lparr>events_replayed := n,
     unique_chunks := of_nat (bt_len (en_chunks e))\<rparr>\<rparr>)) (\<lambda>_ e. (Ok (en_summary e), e))"

definition replay :: "profile \<Rightarrow> trace_event list \<Rightarrow> replay_summary engine_act" where
  "replay pr evs e =
     (let n = (if cfg_max_events (en_config e) > 0 then min (unat (cfg_max_events (en_config e))) (length evs) else length evs) in
      bind_act (replay_loop pr 0 (take n evs)) (\<lambda>_. finish_summary (of_nat n)) e)"

definition replay_n :: "profile \<Rightarrow> trace_event list \<Rightarrow> nat \<Rightarrow> replay_summary engine_act" where
  "replay_n pr evs n = replay pr (take (min n (length evs)) evs)"

text \<open>The predicate of \<open>replay_until\<close> may keep state, so that it sees the events before this one too.\<close>

fun until_loop :: "profile \<Rightarrow> (trace_event list \<Rightarrow> trace_event \<Rightarrow> bool) \<Rightarrow> trace_event list \<Rightarrow> u64 \<Rightarrow> trace_event list \<Rightarrow> u64 engine_act" where
  "until_loop pr predicate seen n [] = ret n"
| "until_loop pr predicate seen n (ev # evs) =
     (if \<not> predicate seen ev then ret n
      else bind_act (update_act (\<lambda>e. e\<lparr>en_event_count := n\<rparr>)) (\<lambda>_.
           bind_act (replay_event pr ev) (\<lambda>_ e.
           if stop_on_error (en_config e) \<and> validation_errors (en_summary e) > 0 then (Ok n, e)
           else bind_act (lift_outcome (add_pr pr n 1)) (\<lambda>n. until_loop pr predicate (seen @ [ev]) n evs) e)))"

definition replay_until :: "profile \<Rightarrow> (trace_event list \<Rightarrow> trace_event \<Rightarrow> bool) \<Rightarrow> trace_event list \<Rightarrow> replay_summary engine_act" where
  "replay_until pr predicate evs = bind_act (until_loop pr predicate [] 0 evs) finish_summary"

definition engine_from_events :: "profile \<Rightarrow> replay_config \<Rightarrow> trace_event list \<Rightarrow> (replay_engine \<times> replay_summary) ghost_result" where
  "engine_from_events pr cfg evs = (case replay pr evs (engine_start cfg) of
       (Ok s, e) \<Rightarrow> Ok (e, s) | (Err x, _) \<Rightarrow> Err x | (Panic, _) \<Rightarrow> Panic)"

definition engine_load ::
  "profile \<Rightarrow> nat \<Rightarrow> (nat \<Rightarrow> bytes \<Rightarrow> trace_event option) \<Rightarrow> (bytes \<Rightarrow> u32) \<Rightarrow> replay_config \<Rightarrow> bytes \<Rightarrow> (replay_engine \<times> replay_summary) ghost_result" where
  "engine_load pr esz de crc cfg bs = (case open_trace bs of
       Ok r \<Rightarrow> (case fst (read_all esz de crc r) of Ok evs \<Rightarrow> engine_from_events pr cfg evs | Err x \<Rightarrow> Err x | Panic \<Rightarrow> Panic)
     | Err x \<Rightarrow> Err x
     | Panic \<Rightarrow> Panic)"

section \<open>Validating\<close>

text \<open>The state of \<^verbatim>\<open>validate\<close>: its own machine and table and the errors so far.\<close>

record validation =
  vd_machine :: state_machine
  vd_chunks :: "(chunk_id, chunk_state) btree"
  vd_errors :: "replay_validation_error list"

definition push_error :: "nat \<Rightarrow> trace_event \<Rightarrow> message \<Rightarrow> validation \<Rightarrow> validation" where
  "push_error i ev msg v = v\<lparr>vd_errors := vd_errors v @ [\<lparr>ve_event_index = of_nat i, ve_event = DebugText ev, ve_message = msg\<rparr>]\<rparr>"

definition validate_event :: "profile \<Rightarrow> nat \<Rightarrow> trace_event \<Rightarrow> (validation, unit, ghost_error) act" where
  "validate_event pr i ev = (case ev of
       ChunkCreated c _ _ _ \<Rightarrow>
         bind_act (on_part vd_machine (\<lambda>t v. v\<lparr>vd_machine := t\<rparr>) (\<lambda>sm. register sm c)) (\<lambda>_.
         update_act (\<lambda>v. v\<lparr>vd_chunks := fmupd c Allocated (vd_chunks v)\<rparr>))
     | ChunkStateChanged c from to _ \<Rightarrow> (\<lambda>v.
         let current = unwrap_or Allocated (fmlookup (vd_chunks v) c);
             v1 = (if current \<noteq> from then push_error i ev [Lit ''expected from='', Lit (debug_chunk_state from), Lit '', but chunk is in state '',
                     Lit (debug_chunk_state current)] v else v);
             v2 = (if \<not> is_valid_transition current to then push_error i ev [Lit ''invalid transition: '', Lit (debug_chunk_state current), Lit '' -> '',
                     Lit (debug_chunk_state to)] v1 else v1) in
         bind_act (catch_act (on_part vd_machine (\<lambda>t v. v\<lparr>vd_machine := t\<rparr>) (\<lambda>sm. transition pr sm c to))) (\<lambda>r.
         bind_act (case r of
             Inl _ \<Rightarrow> update_act (push_error i ev [Lit ''chunk '', FmtChunk c, Lit '' not found in state machine''])
           | Inr _ \<Rightarrow> ret ()) (\<lambda>_.
         update_act (\<lambda>v. v\<lparr>vd_chunks := fmupd c to (vd_chunks v)\<rparr>))) v2)
     | ChunkDeleted c _ _ \<Rightarrow> update_act (\<lambda>v. v\<lparr>vd_chunks := fmdrop c (vd_chunks v)\<rparr>)
     | _ \<Rightarrow> ret ())"

fun validate_loop :: "profile \<Rightarrow> nat \<Rightarrow> trace_event list \<Rightarrow> (validation, unit, ghost_error) act" where
  "validate_loop pr i [] = ret ()"
| "validate_loop pr i (ev # evs) = bind_act (validate_event pr i ev) (\<lambda>_. validate_loop pr (Suc i) evs)"

definition validate :: "profile \<Rightarrow> trace_event list \<Rightarrow> replay_validation_error list ghost_result" where
  "validate pr evs = (case validate_loop pr 0 evs \<lparr>vd_machine = sm_new, vd_chunks = fmempty, vd_errors = []\<rparr> of
       (Ok _, v) \<Rightarrow> Ok (vd_errors v) | (Err x, _) \<Rightarrow> Err x | (Panic, _) \<Rightarrow> Panic)"

section \<open>Traces in order\<close>

text \<open>What the log says about all chunks, and when an event fits it: chunks are created once, and state changes start from the state of the chunk.\<close>

definition log_step :: "trace_event \<Rightarrow> (chunk_id \<rightharpoonup> chunk_state) \<Rightarrow> (chunk_id \<rightharpoonup> chunk_state)" where
  "log_step ev m = (case ev of
       ChunkCreated c _ _ _ \<Rightarrow> m(c \<mapsto> Allocated)
     | ChunkDeleted c _ _ \<Rightarrow> m(c := None)
     | ChunkStateChanged c _ t _ \<Rightarrow> m(c \<mapsto> t)
     | _ \<Rightarrow> m)"

definition fits_log :: "(chunk_id \<rightharpoonup> chunk_state) \<Rightarrow> chunk_id set \<Rightarrow> trace_event \<Rightarrow> bool" where
  "fits_log m created ev = (case ev of
       ChunkCreated c _ _ _ \<Rightarrow> c \<notin> created
     | ChunkStateChanged c f t _ \<Rightarrow> m c = Some f \<and> is_valid_transition f t
     | _ \<Rightarrow> True)"

fun in_order :: "(chunk_id \<rightharpoonup> chunk_state) \<Rightarrow> chunk_id set \<Rightarrow> trace_event list \<Rightarrow> bool" where
  "in_order m created [] = True"
| "in_order m created (ev # evs) = (fits_log m created ev \<and> in_order (log_step ev m) (created \<union> the_of created_of [ev]) evs)"

definition final_log :: "trace_event list \<Rightarrow> (chunk_id \<rightharpoonup> chunk_state)" where
  "final_log evs = fold log_step evs Map.empty"

text \<open>The counters, and which of them an event moves.\<close>

definition counters :: "replay_summary \<Rightarrow> u64 list" where
  "counters s = [chunks_created s, chunks_deleted s, state_transitions s, transfers_completed s, transfers_failed s, evictions s, pressure_alerts s, policy_decisions s]"

definition counter_of :: "trace_event \<Rightarrow> nat option" where
  "counter_of ev = (case ev of
       ChunkCreated _ _ _ _ \<Rightarrow> Some 0 | ChunkDeleted _ _ _ \<Rightarrow> Some 1 | ChunkStateChanged _ _ _ _ \<Rightarrow> Some 2
     | TransferCompleted _ _ _ _ _ _ \<Rightarrow> Some 3 | TransferFailed _ _ _ _ _ _ \<Rightarrow> Some 4 | Eviction _ _ _ _ \<Rightarrow> Some 5
     | PressureAlert _ _ _ _ \<Rightarrow> Some 6 | PolicyDecision _ _ _ _ _ \<Rightarrow> Some 7 | _ \<Rightarrow> None)"

definition counts :: "trace_event list \<Rightarrow> u64 list" where
  "counts evs = map (\<lambda>k. of_nat (length (filter (\<lambda>ev. counter_of ev = Some k) evs))) [0..<8]"

section \<open>The engine replays a trace in order\<close>

text \<open>The invariant: the table is the log, the machine knows the created chunks and agrees with the table, nothing was reported and the counts are exact.\<close>

definition engine_inv :: "trace_event list \<Rightarrow> (chunk_id \<rightharpoonup> chunk_state) \<Rightarrow> chunk_id set \<Rightarrow> replay_engine \<Rightarrow> bool" where
  "engine_inv pre m created e \<longleftrightarrow> (\<lambda>c. map_option crs_state (fmlookup (en_chunks e) c)) = m
     \<and> (\<forall>c s. m c = Some s \<longrightarrow> get_state (en_machine e) c = Some s) \<and> (\<forall>c. get_state (en_machine e) c \<noteq> None \<longleftrightarrow> c \<in> created)
     \<and> validation_errors (en_summary e) = 0 \<and> errors (en_summary e) = [] \<and> counters (en_summary e) = counts pre"

lemma count_one_Ok:
  assumes "pr = Release \<or> unat (get (en_summary e)) + 1 < 2 ^ 64"
  shows "count_one pr get upd e = (Ok (), e\<lparr>en_summary := upd (\<lambda>_. get (en_summary e) + 1) (en_summary e)\<rparr>)"
  using assms by (auto simp: count_one_def bind_act_def lift_outcome_def on_summary_def update_act_def add_pr_def checked_def)

lemma unat_counts: "length pre + 1 < 2 ^ 64 \<Longrightarrow> k < 8 \<Longrightarrow> unat (counts pre ! k) + 1 < 2 ^ 64"
proof -
  assume *: "length pre + 1 < 2 ^ 64" "k < 8"
  have "length (filter (\<lambda>ev. counter_of ev = Some k) pre) \<le> length pre" by simp
  then have "length (filter (\<lambda>ev. counter_of ev = Some k) pre) mod 2 ^ 64 + 1 < 2 ^ 64"
    using * mod_less_eq_dividend [of "length (filter (\<lambda>ev. counter_of ev = Some k) pre)" "2 ^ 64"] by linarith
  then show ?thesis using * by (simp add: counts_def unat_of_nat)
qed

lemma upto_8: "[0..<8] = [0, 1, 2, 3, 4, 5, 6, 7 :: nat]"
  by (simp add: upt_rec)

lemma counters_nth:
  assumes "counters s = counts pre"
  shows "chunks_created s = counts pre ! 0" "chunks_deleted s = counts pre ! 1" "state_transitions s = counts pre ! 2"
    "transfers_completed s = counts pre ! 3" "transfers_failed s = counts pre ! 4" "evictions s = counts pre ! 5"
    "pressure_alerts s = counts pre ! 6" "policy_decisions s = counts pre ! 7"
  unfolding assms [symmetric] by (simp_all add: counters_def)

lemma track_time_fields [simp]:
  "counters (track_time ts s) = counters s" "validation_errors (track_time ts s) = validation_errors s" "errors (track_time ts s) = errors s"
  by (simp_all add: track_time_def counters_def)

lemma counter_of_less: "counter_of ev = Some k \<Longrightarrow> k < 8"
  by (cases ev) (simp_all add: counter_of_def)

lemma counts_snoc: "counts (pre @ [ev]) = (case counter_of ev of None \<Rightarrow> counts pre | Some k \<Rightarrow> (counts pre)[k := counts pre ! k + 1])"
proof (cases "counter_of ev")
  case (Some k)
  then have "k < 8" by (rule counter_of_less)
  then show ?thesis using Some by (intro nth_equalityI) (auto simp: counts_def nth_list_update)
qed (simp add: counts_def)

lemma counters_update:
  "counters (chunks_created_update f s) = (counters s)[0 := f (counters s ! 0)]"
  "counters (chunks_deleted_update f s) = (counters s)[1 := f (counters s ! 1)]"
  "counters (state_transitions_update f s) = (counters s)[2 := f (counters s ! 2)]"
  "counters (transfers_completed_update f s) = (counters s)[3 := f (counters s ! 3)]"
  "counters (transfers_failed_update f s) = (counters s)[4 := f (counters s ! 4)]"
  "counters (evictions_update f s) = (counters s)[5 := f (counters s ! 5)]"
  "counters (pressure_alerts_update f s) = (counters s)[6 := f (counters s ! 6)]"
  "counters (policy_decisions_update f s) = (counters s)[7 := f (counters s ! 7)]"
  by (simp_all add: counters_def)

lemma counted_summary:
  assumes "engine_inv pre m created e" "counter_of ev = Some k" "length pre + 1 < 2 ^ 64"
    and "get (en_summary e) = counters (en_summary e) ! k" "\<And>f. counters (upd f (en_summary e)) = (counters (en_summary e))[k := f (counters (en_summary e) ! k)]"
  shows "count_one pr get upd e = (Ok (), e\<lparr>en_summary := upd (\<lambda>_. get (en_summary e) + 1) (en_summary e)\<rparr>)"
    and "counters (upd (\<lambda>_. get (en_summary e) + 1) (en_summary e)) = counts (pre @ [ev])"
proof -
  have c: "counters (en_summary e) = counts pre" using assms(1) by (simp add: engine_inv_def)
  then have "unat (get (en_summary e)) + 1 < 2 ^ 64" using unat_counts [OF assms(3) counter_of_less [OF assms(2)]] assms(4) by simp
  then show "count_one pr get upd e = (Ok (), e\<lparr>en_summary := upd (\<lambda>_. get (en_summary e) + 1) (en_summary e)\<rparr>)" by (intro count_one_Ok) simp
  show "counters (upd (\<lambda>_. get (en_summary e) + 1) (en_summary e)) = counts (pre @ [ev])" using assms(2,4,5) c by (simp add: counts_snoc)
qed

lemma bind_on_summary: "bind_act (on_summary f) g e = g () (e\<lparr>en_summary := f (en_summary e)\<rparr>)"
  by (simp add: bind_act_def on_summary_def update_act_def)

lemma replay_created:
  assumes "engine_inv pre m created e" "c \<notin> created" "length pre + 1 < 2 ^ 64" "ev = ChunkCreated c sz tier ts"
  shows "\<exists>e'. bind_act (count_one pr chunks_created chunks_created_update) (\<lambda>_. bind_act (on_engine_machine (\<lambda>sm. register sm c)) (\<lambda>_.
      update_act (\<lambda>e. e\<lparr>en_chunks := fmupd c \<lparr>crs_state = Allocated, crs_tier = Some tier, crs_created = True\<rparr> (en_chunks e)\<rparr>))) e = (Ok (), e')
    \<and> engine_inv (pre @ [ev]) (m(c \<mapsto> Allocated)) (insert c created) e' \<and> en_config e' = en_config e"
proof -
  have k: "counter_of ev = Some 0" by (simp add: assms(4) counter_of_def)
  note n = counted_summary [OF assms(1) k assms(3), of chunks_created chunks_created_update]
  have "get_state (en_machine e) c = None" using assms(1,2) by (auto simp: engine_inv_def)
  then have "c |\<notin>| fmdom (states (en_machine e))" by (simp add: get_state_def fmlookup_dom_iff)
  then show ?thesis using n assms(1)
    by (auto simp: bind_act_def on_engine_machine_def on_part_def register_def update_act_def engine_inv_def counters_def counters_update fun_eq_iff get_state_def)
qed

lemma replay_deleted:
  assumes "engine_inv pre m created e" "length pre + 1 < 2 ^ 64" "ev = ChunkDeleted c tier ts"
  shows "\<exists>e'. bind_act (count_one pr chunks_deleted chunks_deleted_update) (\<lambda>_. update_act (\<lambda>e. e\<lparr>en_chunks := fmdrop c (en_chunks e)\<rparr>)) e = (Ok (), e')
    \<and> engine_inv (pre @ [ev]) (m(c := None)) created e' \<and> en_config e' = en_config e"
proof -
  have k: "counter_of ev = Some 1" by (simp add: assms(3) counter_of_def)
  show ?thesis using counted_summary [OF assms(1) k assms(2), of chunks_deleted chunks_deleted_update] assms(1)
    by (auto simp: bind_act_def update_act_def engine_inv_def counters_def counters_update fun_eq_iff)
qed

lemma change_state_valid:
  assumes "fmlookup (en_chunks e) c = Some st" "crs_state st = f" "is_valid_transition f t" "get_state (en_machine e) c = Some f"
  shows "change_state pr c f t e = (Ok (), e\<lparr>en_machine := (en_machine e)\<lparr>states := fmupd c t (states (en_machine e))\<rparr>,
    en_chunks := fmupd c (st\<lparr>crs_state := t\<rparr>) (en_chunks e)\<rparr>)"
  using assms by (simp add: change_state_def Let_def bind_act_def ret_def on_engine_machine_def on_part_def transition_def get_state_def
      transition_to_def update_act_def)

lemma replay_changed:
  assumes "engine_inv pre m created e" "length pre + 1 < 2 ^ 64" "ev = ChunkStateChanged c f t ts" "m c = Some f" "is_valid_transition f t"
  shows "\<exists>e'. bind_act (count_one pr state_transitions state_transitions_update) (\<lambda>_. change_state pr c f t) e = (Ok (), e')
    \<and> engine_inv (pre @ [ev]) (m(c \<mapsto> t)) created e' \<and> en_config e' = en_config e"
proof -
  have k: "counter_of ev = Some 2" by (simp add: assms(3) counter_of_def)
  note n = counted_summary [OF assms(1) k assms(2), of state_transitions state_transitions_update]
  let ?e = "e\<lparr>en_summary := state_transitions_update (\<lambda>_. state_transitions (en_summary e) + 1) (en_summary e)\<rparr>"
  have "map_option crs_state (fmlookup (en_chunks e) c) = Some f" using assms(1,4) by (auto simp: engine_inv_def)
  then obtain st where st: "fmlookup (en_chunks ?e) c = Some st" "crs_state st = f" by auto
  have m: "get_state (en_machine ?e) c = Some f" using assms(1,4) by (simp add: engine_inv_def)
  show ?thesis using n assms(1) change_state_valid [OF st assms(5) m, of pr] m
    by (auto simp: bind_act_def engine_inv_def counters_def counters_update fun_eq_iff get_state_def)
qed

lemma replay_counted:
  assumes "engine_inv pre m created e" "counter_of ev = Some k" "length pre + 1 < 2 ^ 64" "2 < k"
    and "get (en_summary e) = counters (en_summary e) ! k" "\<And>f. counters (upd f (en_summary e)) = (counters (en_summary e))[k := f (counters (en_summary e) ! k)]"
    and "\<And>f s. validation_errors (upd f s) = validation_errors s \<and> errors (upd f s) = errors s"
  shows "\<exists>e'. count_one pr get upd e = (Ok (), e') \<and> engine_inv (pre @ [ev]) m created e' \<and> en_config e' = en_config e"
  using counted_summary [OF assms(1-3), of get upd, OF assms(5,6)] assms(1,7) by (auto simp: engine_inv_def)

lemma replay_uncounted:
  assumes "counter_of ev = None"
  shows "replay_event pr ev e = (Ok (), e\<lparr>en_summary := track_time (timestamp ev) (en_summary e)\<rparr>)" "log_step ev m = m" "created_of ev = None"
proof -
  show "replay_event pr ev e = (Ok (), e\<lparr>en_summary := track_time (timestamp ev) (en_summary e)\<rparr>)"
    using assms unfolding replay_event_def bind_on_summary by (cases ev) (simp_all add: counter_of_def ret_def)
  show "log_step ev m = m" using assms by (cases ev) (simp_all add: counter_of_def log_step_def)
  show "created_of ev = None" using assms by (cases ev) (simp_all add: counter_of_def created_of_def)
qed

lemma replay_event_in_order:
  assumes "engine_inv pre m created e" "fits_log m created ev" "length pre + 1 < 2 ^ 64"
  shows "\<exists>e'. replay_event pr ev e = (Ok (), e') \<and> engine_inv (pre @ [ev]) (log_step ev m) (created \<union> the_of created_of [ev]) e'
    \<and> en_config e' = en_config e"
proof -
  let ?e = "e\<lparr>en_summary := track_time (timestamp ev) (en_summary e)\<rparr>"
  have i: "engine_inv pre m created ?e" using assms(1) by (simp add: engine_inv_def)
  show ?thesis
  proof (cases "counter_of ev")
    case None
    then have "replay_event pr ev e = (Ok (), ?e)" "log_step ev m = m" "created_of ev = None" by (simp_all add: replay_uncounted)
    then show ?thesis using i None by (auto simp: engine_inv_def counts_snoc)
  next
    case (Some k)
    then show ?thesis
      using assms(2) replay_created [OF i _ assms(3)] replay_deleted [OF i assms(3)] replay_changed [OF i assms(3)]
        replay_counted [OF i _ assms(3), of ev 3 transfers_completed transfers_completed_update pr]
        replay_counted [OF i _ assms(3), of ev 4 transfers_failed transfers_failed_update pr]
        replay_counted [OF i _ assms(3), of ev 5 evictions evictions_update pr]
        replay_counted [OF i _ assms(3), of ev 6 pressure_alerts pressure_alerts_update pr]
        replay_counted [OF i _ assms(3), of ev 7 policy_decisions policy_decisions_update pr]
      by (cases ev) (simp_all add: replay_event_def bind_on_summary fits_log_def counter_of_def counters_def log_step_def created_of_def)
  qed
qed

lemma replay_loop_in_order:
  assumes "engine_inv pre m created e" "in_order m created evs" "length pre + length evs < 2 ^ 64"
  shows "\<exists>e'. replay_loop pr i (evs @ rest) e = replay_loop pr (i + length evs) rest e' \<and> engine_inv (pre @ evs) (fold log_step evs m) (created \<union> the_of created_of evs) e'
    \<and> en_config e' = en_config e"
  using assms
proof (induction evs arbitrary: pre m created e i)
  case (Cons ev evs)
  let ?e = "e\<lparr>en_event_count := of_nat i\<rparr>"
  have "engine_inv pre m created ?e" using Cons.prems(1) by (simp add: engine_inv_def)
  then obtain e1 where e1: "replay_event pr ev ?e = (Ok (), e1)" "en_config e1 = en_config e"
    "engine_inv (pre @ [ev]) (log_step ev m) (created \<union> the_of created_of [ev]) e1"
    using replay_event_in_order [of pre m created ?e ev pr] Cons.prems(2,3) by auto
  have z: "validation_errors (en_summary e1) = 0" using e1(3) by (simp add: engine_inv_def)
  obtain e2 where e2: "replay_loop pr (Suc i) (evs @ rest) e1 = replay_loop pr (Suc i + length evs) rest e2" "en_config e2 = en_config e1"
    "engine_inv ((pre @ [ev]) @ evs) (fold log_step evs (log_step ev m)) (created \<union> the_of created_of [ev] \<union> the_of created_of evs) e2"
    using Cons.IH [OF e1(3), of "Suc i"] Cons.prems(2,3) by auto
  have "created \<union> the_of created_of (ev # evs) = created \<union> the_of created_of [ev] \<union> the_of created_of evs"
    by (auto split: option.splits)
  then show ?case using e1 e2 z by (auto simp: bind_act_def update_act_def)
qed auto

lemma engine_inv_start: "engine_inv [] Map.empty {} (engine_start cfg)"
  by (simp add: engine_inv_def engine_start_def summary_default_def counters_def counts_def upto_8 fun_eq_iff)

lemma card_table:
  assumes "(\<lambda>c. map_option f (fmlookup t c)) = m"
  shows "bt_len t = card (dom m)"
proof -
  have "dom m = set (bt_keys t)" using assms by (auto simp: fmlookup_dom_iff dom_def)
  then show ?thesis by (simp add: bt_len_def distinct_card [symmetric] del: set_bt_keys)
qed

text \<open>
  A trace in which chunks are created once and state changes start from the state of their chunk is replayed
  without an error, with the checks on or off and in both profiles; the counters count the events exactly, and the
  table of chunks at the end is what the log says.
\<close>

theorem replay_in_order:
  assumes "in_order Map.empty {} evs" "length evs < 2 ^ 64" "cfg_max_events cfg = 0"
  shows "\<exists>e s. engine_from_events pr cfg evs = Ok (e, s) \<and> validation_errors s = 0 \<and> errors s = [] \<and> counters s = counts evs
    \<and> events_replayed s = of_nat (length evs) \<and> unique_chunks s = of_nat (card (dom (final_log evs)))
    \<and> (\<lambda>c. map_option crs_state (fmlookup (en_chunks e) c)) = final_log evs"
proof -
  obtain e where e: "replay_loop pr 0 evs (engine_start cfg) = (Ok (), e)" "engine_inv evs (final_log evs) (the_of created_of evs) e"
    using replay_loop_in_order [OF engine_inv_start assms(1), of pr 0 "[]" cfg] assms(2) by (auto simp: final_log_def ret_def)
  then have "(\<lambda>c. map_option crs_state (fmlookup (en_chunks e) c)) = final_log evs" by (simp add: engine_inv_def)
  then show ?thesis using e assms(3) card_table [of crs_state "en_chunks e"]
    by (simp add: engine_from_events_def replay_def Let_def bind_act_def finish_summary_def update_act_def engine_start_def engine_inv_def counters_def)
qed

theorem replay_in_order_witness:
  "\<exists>e s. engine_from_events Debug replay_config_default small_trace = Ok (e, s) \<and> validation_errors s = 0 \<and> errors s = [] \<and> counters s = counts small_trace
    \<and> events_replayed s = of_nat (length small_trace) \<and> unique_chunks s = of_nat (card (dom (final_log small_trace)))
    \<and> (\<lambda>c. map_option crs_state (fmlookup (en_chunks e) c)) = final_log small_trace"
  by (rule replay_in_order)
     (simp_all add: small_trace_def replay_config_default_def fits_log_def log_step_def created_of_def)

text \<open>
  A chunk can be created only once in a replay. Deleting it takes it out of the table but not out of the state machine,
  so that a second creation ends the replay with an error, whatever the configuration.
\<close>

theorem recreation_refused:
  assumes "in_order Map.empty {} evs" "length evs + 1 < 2 ^ 64" "cfg_max_events cfg = 0" "c \<in> the_of created_of evs"
  shows "engine_from_events pr cfg (evs @ [ChunkCreated c sz tier ts])
    = Err (Internal [Lit ''chunk '', FmtChunk c, Lit '' is already registered in the state machine''])"
proof -
  obtain e where e: "replay_loop pr 0 (evs @ [ChunkCreated c sz tier ts]) (engine_start cfg) = replay_loop pr (length evs) [ChunkCreated c sz tier ts] e"
    "engine_inv evs (final_log evs) (the_of created_of evs) e"
    using replay_loop_in_order [OF engine_inv_start assms(1), of pr 0 "[ChunkCreated c sz tier ts]" cfg] assms(2) by (auto simp: final_log_def simp del: replay_loop.simps)
  let ?e = "e\<lparr>en_event_count := of_nat (length evs), en_summary := track_time ts (en_summary e)\<rparr>"
  have i: "engine_inv evs (final_log evs) (the_of created_of evs) ?e" using e(2) by (simp add: engine_inv_def)
  have k: "counter_of (ChunkCreated c sz tier ts) = Some 0" by (simp add: counter_of_def)
  have "get_state (en_machine e) c \<noteq> None" using e(2) assms(4) by (simp add: engine_inv_def)
  then have "c |\<in>| fmdom (states (en_machine e))" by (auto simp: get_state_def fmlookup_dom_iff)
  then have x: "replay_event pr (ChunkCreated c sz tier ts) (e\<lparr>en_event_count := of_nat (length evs)\<rparr>)
      = (Err (Internal [Lit ''chunk '', FmtChunk c, Lit '' is already registered in the state machine'']),
         ?e\<lparr>en_summary := chunks_created_update (\<lambda>_. chunks_created (en_summary ?e) + 1) (en_summary ?e)\<rparr>)"
    using counted_summary(1) [OF i k assms(2), of chunks_created chunks_created_update pr]
    by (simp add: replay_event_def bind_act_def on_summary_def update_act_def on_engine_machine_def on_part_def register_def counters_def)
  show ?thesis using assms(3)
    by (simp add: engine_from_events_def replay_def Let_def engine_start_def [THEN arg_cong [of _ _ en_config]] e(1) x bind_act_def update_act_def)
qed

definition recreated :: "trace_event list" where
  "recreated = [ChunkCreated (ChunkId [1]) 8 Ram 10, ChunkDeleted (ChunkId [1]) Ram 11]"

theorem recreation_refused_witness:
  "engine_from_events Release replay_config_default (recreated @ [ChunkCreated (ChunkId [1]) 8 Ram 12])
   = Err (Internal [Lit ''chunk '', FmtChunk (ChunkId [1]), Lit '' is already registered in the state machine''])"
  by (rule recreation_refused)
     (simp_all add: recreated_def replay_config_default_def fits_log_def log_step_def created_of_def)

section \<open>Validating a trace\<close>

definition validation_inv :: "(chunk_id \<rightharpoonup> chunk_state) \<Rightarrow> chunk_id set \<Rightarrow> validation \<Rightarrow> bool" where
  "validation_inv m created v \<longleftrightarrow> fmlookup (vd_chunks v) = m \<and> vd_errors v = []
     \<and> (\<forall>c s. m c = Some s \<longrightarrow> get_state (vd_machine v) c = Some s) \<and> (\<forall>c. get_state (vd_machine v) c \<noteq> None \<longrightarrow> c \<in> created)"

lemma validate_event_in_order:
  assumes "validation_inv m created v" "fits_log m created ev"
  shows "\<exists>v'. validate_event pr i ev v = (Ok (), v') \<and> validation_inv (log_step ev m) (created \<union> the_of created_of [ev]) v'"
proof (cases "counter_of ev = Some 0 \<or> counter_of ev = Some 1 \<or> counter_of ev = Some 2")
  case False
  then have "validate_event pr i ev v = (Ok (), v)" "log_step ev m = m" "created_of ev = None"
    by (cases ev; simp add: counter_of_def validate_event_def log_step_def created_of_def ret_def)+
  then show ?thesis using assms(1) by (simp add: validation_inv_def)
next
  case True
  then consider c sz t ts where "ev = ChunkCreated c sz t ts" | c t ts where "ev = ChunkDeleted c t ts" | c f t ts where "ev = ChunkStateChanged c f t ts"
    by (cases ev) (simp_all add: counter_of_def)
  then show ?thesis
  proof cases
    case 1
    then have "get_state (vd_machine v) c = None" using assms by (auto simp: validation_inv_def fits_log_def)
    then have "c |\<notin>| fmdom (states (vd_machine v))" by (simp add: get_state_def fmlookup_dom_iff)
    then show ?thesis using 1 assms(1)
      by (auto simp: validate_event_def bind_act_def on_part_def register_def update_act_def validation_inv_def log_step_def created_of_def get_state_def fun_eq_iff)
  next
    case 2
    then show ?thesis using assms(1)
      by (auto simp: validate_event_def update_act_def validation_inv_def log_step_def created_of_def fun_eq_iff)
  next
    case 3
    then have "fmlookup (vd_chunks v) c = Some f" "is_valid_transition f t" "fmlookup (states (vd_machine v)) c = Some f"
      using assms by (auto simp: validation_inv_def fits_log_def get_state_def)
    then show ?thesis using 3 assms(1)
      by (auto simp: validate_event_def Let_def bind_act_def catch_act_def on_part_def transition_def transition_to_def update_act_def ret_def
          validation_inv_def log_step_def created_of_def get_state_def fun_eq_iff)
  qed
qed

lemma validate_loop_in_order:
  assumes "validation_inv m created v" "in_order m created evs"
  shows "\<exists>v'. validate_loop pr i (evs @ rest) v = validate_loop pr (i + length evs) rest v'
    \<and> validation_inv (fold log_step evs m) (created \<union> the_of created_of evs) v'"
  using assms
proof (induction evs arbitrary: m created v i)
  case (Cons ev evs)
  obtain v1 where v1: "validate_event pr i ev v = (Ok (), v1)" "validation_inv (log_step ev m) (created \<union> the_of created_of [ev]) v1"
    using validate_event_in_order [of m created v ev pr i] Cons.prems by auto
  have "created \<union> the_of created_of (ev # evs) = created \<union> the_of created_of [ev] \<union> the_of created_of evs" by (auto split: option.splits)
  then show ?case using v1(1) Cons.IH [OF v1(2), of "Suc i"] Cons.prems(2) by (auto simp: bind_act_def)
qed auto

abbreviation no_validation :: validation where
  "no_validation \<equiv> \<lparr>vd_machine = sm_new, vd_chunks = fmempty, vd_errors = []\<rparr>"

lemma validation_inv_start: "validation_inv Map.empty {} no_validation"
  by (simp add: validation_inv_def fun_eq_iff)

lemma validate_loop_one: "validate_loop pr i [ev] v = validate_event pr i ev v"
  by (auto simp: bind_act_def ret_def split: prod.split outcome.split)

lemma validate_in_order:
  assumes "in_order Map.empty {} evs"
  shows "validate pr evs = Ok []"
proof -
  obtain v where "validate_loop pr 0 (evs @ []) no_validation = validate_loop pr (0 + length evs) [] v" "validation_inv (fold log_step evs Map.empty) ({} \<union> the_of created_of evs) v"
    using validate_loop_in_order [OF validation_inv_start assms] by blast
  then show ?thesis by (simp add: validate_def ret_def validation_inv_def)
qed

lemma validate_event_invalid:
  assumes "fmlookup (states (vd_machine v)) c = Some s" "fmlookup (vd_chunks v) c = Some s" "\<not> is_valid_transition s t"
  shows "fst (validate_event Debug i (ChunkStateChanged c f t ts) v) = Panic"
    and "\<exists>w. validate_event Release i (ChunkStateChanged c f t ts) v = (Ok (), w) \<and> vd_errors w \<noteq> []"
  using assms by (cases "s = f"; simp add: validate_event_def Let_def bind_act_def catch_act_def on_part_def transition_def transition_to_def update_act_def push_error_def)+

text \<open>
  What validating makes of an invalid transition depends on the build. After a trace in order, an invalid change of an
  existing chunk is reported in the release profile; in the debug profile the state machine panics before it is.
\<close>

theorem validate_invalid_transition:
  assumes "in_order Map.empty {} evs" "final_log evs c = Some s" "\<not> is_valid_transition s t"
  shows "validate Debug (evs @ [ChunkStateChanged c f t ts]) = Panic
    \<and> (\<exists>es. validate Release (evs @ [ChunkStateChanged c f t ts]) = Ok es \<and> es \<noteq> [])"
proof -
  have "\<exists>v. validate_loop pr 0 (evs @ [ChunkStateChanged c f t ts]) no_validation = validate_event pr (length evs) (ChunkStateChanged c f t ts) v
      \<and> fmlookup (states (vd_machine v)) c = Some s \<and> fmlookup (vd_chunks v) c = Some s" for pr
  proof -
    obtain v where "validate_loop pr 0 (evs @ [ChunkStateChanged c f t ts]) no_validation = validate_loop pr (0 + length evs) [ChunkStateChanged c f t ts] v"
      "validation_inv (fold log_step evs Map.empty) ({} \<union> the_of created_of evs) v"
      using validate_loop_in_order [OF validation_inv_start assms(1)] by blast
    then show ?thesis using assms(2)
      by (intro exI [of _ v]) (simp add: validate_loop_one final_log_def validation_inv_def get_state_def del: validate_loop.simps)
  qed
  then obtain v w where "validate_loop Debug 0 (evs @ [ChunkStateChanged c f t ts]) no_validation = validate_event Debug (length evs) (ChunkStateChanged c f t ts) v"
    "fmlookup (states (vd_machine v)) c = Some s" "fmlookup (vd_chunks v) c = Some s"
    "validate_loop Release 0 (evs @ [ChunkStateChanged c f t ts]) no_validation = validate_event Release (length evs) (ChunkStateChanged c f t ts) w"
    "fmlookup (states (vd_machine w)) c = Some s" "fmlookup (vd_chunks w) c = Some s" by blast
  then show ?thesis
    using validate_event_invalid [of v c s t "length evs" f ts] validate_event_invalid [of w c s t "length evs" f ts] assms(3)
    by (cases "validate_event Debug (length evs) (ChunkStateChanged c f t ts) v") (auto simp: validate_def)
qed

theorem validate_invalid_transition_witness:
  "validate Debug ([ChunkCreated (ChunkId [1]) 8 Ram 10] @ [ChunkStateChanged (ChunkId [1]) Allocated Migrating 11]) = Panic
   \<and> (\<exists>es. validate Release ([ChunkCreated (ChunkId [1]) 8 Ram 10] @ [ChunkStateChanged (ChunkId [1]) Allocated Migrating 11]) = Ok es \<and> es \<noteq> [])"
  by (rule validate_invalid_transition [where s = Allocated]) (simp_all add: fits_log_def final_log_def log_step_def)

end
