(* ===== verification/Io_Scheduler.thy ===== *)
theory Io_Scheduler
  imports Event_Flow Transfer_Job Effects "HOL-Library.Multiset"
begin

text \<open>
  \<^verbatim>\<open>ghost-core/src/io_abstraction.rs\<close>: the I/O scheduler, which separates issuing a request from completing
  it. Readings of the time provider (\<open>io_now\<close>), of the real clock (\<open>io_wall\<close>), of the clock of the event
  records and of the room in the event channel are oracles indexed by \<open>io_ticks\<close>; an instant is in nanoseconds. The theory shows that every
  issued request is pending or completed, exactly once, and that the pending ones stay within the limit.
\<close>

section \<open>Requests\<close>

datatype io_completion = IoPending | IoCompleted u64 | IoFailed message

record io_request =
  rq_id :: u64
  rq_operation :: io_operation
  rq_chunk_id :: chunk_id
  rq_tier :: tier_id
  rq_issued_at :: instant
  rq_completion :: io_completion

record io_scheduler =
  io_next_id :: u64
  io_pending :: "(u64, io_request) btree"
  io_completed :: "io_request list"
  io_max_pending :: usize
  io_emitter :: emitter
  io_now :: "nat \<Rightarrow> instant"
  io_wall :: "nat \<Rightarrow> instant"
  io_secs :: "nat \<Rightarrow> u64"
  io_room :: "nat \<Rightarrow> bool"
  io_ticks :: nat

type_synonym 'a io_act = "(io_scheduler, 'a, ghost_error) act"

definition io_scheduler_new :: "(nat \<Rightarrow> instant) \<Rightarrow> (nat \<Rightarrow> instant) \<Rightarrow> (nat \<Rightarrow> u64) \<Rightarrow> (nat \<Rightarrow> bool) \<Rightarrow> emitter \<Rightarrow> usize \<Rightarrow> io_scheduler" where
  "io_scheduler_new now wall secs room em max_pending = \<lparr>io_next_id = 1, io_pending = fmempty, io_completed = [], io_max_pending = max_pending,
     io_emitter = em, io_now = now, io_wall = wall, io_secs = secs, io_room = room, io_ticks = 0\<rparr>"

definition read_now :: "instant io_act" where
  "read_now s = (Ok (io_now s (io_ticks s)), s\<lparr>io_ticks := Suc (io_ticks s)\<rparr>)"

text \<open>\<^verbatim>\<open>Instant::elapsed\<close> reads the real clock and saturates at zero.\<close>

definition elapsed_since :: "instant \<Rightarrow> nat io_act" where
  "elapsed_since t s = (Ok (io_wall s (io_ticks s) - t), s\<lparr>io_ticks := Suc (io_ticks s)\<rparr>)"

text \<open>\<^verbatim>\<open>let _ = self.event_emitter.try_emit(..)\<close>\<close>

definition io_emit :: "event \<Rightarrow> unit io_act" where
  "io_emit ev s = (Ok (), s\<lparr>io_emitter := snd (try_emit (io_room s (io_ticks s)) (io_secs s (io_ticks s)) ev (io_emitter s)),
     io_ticks := Suc (io_ticks s)\<rparr>)"

section \<open>Operations\<close>

definition issue :: "io_operation \<Rightarrow> chunk_id \<Rightarrow> tier_id \<Rightarrow> u64 io_act" where
  "issue op c tier s =
     (if bt_len (io_pending s) \<ge> unat (io_max_pending s)
      then fail (Internal [Lit ''I/O scheduler at capacity: '', FmtNat (bt_len (io_pending s)), Lit '' pending requests (max: '',
             FmtNat (unat (io_max_pending s)), Lit '')'']) s
      else (let i = io_next_id s in
        bind_act (update_act (\<lambda>s. s\<lparr>io_next_id := i + 1\<rparr>)) (\<lambda>_.
        bind_act read_now (\<lambda>now.
        bind_act (io_emit (EvIoRequestIssued 0 op c tier)) (\<lambda>_.
        bind_act (update_act (\<lambda>s. s\<lparr>io_pending := fmupd i \<lparr>rq_id = i, rq_operation = op, rq_chunk_id = c, rq_tier = tier, rq_issued_at = now,
          rq_completion = IoPending\<rparr> (io_pending s)\<rparr>)) (\<lambda>_.
        ret i)))) s))"

text \<open>\<^verbatim>\<open>duration_since\<close> saturates at zero.\<close>

definition duration_ticks :: "instant \<Rightarrow> io_request \<Rightarrow> u64" where
  "duration_ticks now r = of_nat (now - rq_issued_at r)"

definition complete :: "u64 \<Rightarrow> message option \<Rightarrow> unit io_act" where
  "complete i error s = (case fmlookup (io_pending s) i of
       None \<Rightarrow> (Panic, s)
     | Some r \<Rightarrow>
         bind_act (update_act (\<lambda>s. s\<lparr>io_pending := fmdrop i (io_pending s)\<rparr>)) (\<lambda>_.
         bind_act read_now (\<lambda>now.
         bind_act (case error of
             None \<Rightarrow> bind_act (io_emit (EvIoRequestCompleted 0 (rq_operation r) (rq_chunk_id r) (rq_tier r) (duration_ticks now r)))
               (\<lambda>_. ret (IoCompleted (duration_ticks now r)))
           | Some e \<Rightarrow> bind_act (io_emit (EvIoRequestFailed 0 (rq_operation r) (rq_chunk_id r) (rq_tier r) e)) (\<lambda>_. ret (IoFailed e))) (\<lambda>c.
         update_act (\<lambda>s. s\<lparr>io_completed := io_completed s @ [r\<lparr>rq_completion := c\<rparr>]\<rparr>)))) s)"

definition pending_count :: "io_scheduler \<Rightarrow> nat" where
  "pending_count s = bt_len (io_pending s)"

definition is_at_capacity :: "io_scheduler \<Rightarrow> bool" where
  "is_at_capacity s = (bt_len (io_pending s) \<ge> unat (io_max_pending s))"

definition completed_count :: "io_scheduler \<Rightarrow> nat" where
  "completed_count s = length (io_completed s)"

definition flush_one :: "instant \<Rightarrow> u64 \<Rightarrow> unit io_act" where
  "flush_one now i s = (case fmlookup (io_pending s) i of
       None \<Rightarrow> ret () s
     | Some r \<Rightarrow>
         bind_act (update_act (\<lambda>s. s\<lparr>io_pending := fmdrop i (io_pending s)\<rparr>)) (\<lambda>_.
         bind_act (io_emit (EvIoRequestCompleted 0 (rq_operation r) (rq_chunk_id r) (rq_tier r) (duration_ticks now r))) (\<lambda>_.
         update_act (\<lambda>s. s\<lparr>io_completed := io_completed s @ [r\<lparr>rq_completion := IoCompleted (duration_ticks now r)\<rparr>]\<rparr>))) s)"

fun flush_all :: "instant \<Rightarrow> u64 list \<Rightarrow> unit io_act" where
  "flush_all now [] = ret ()"
| "flush_all now (i # is) = bind_act (flush_one now i) (\<lambda>_. flush_all now is)"

definition flush :: "unit io_act" where
  "flush =
     bind_act read_now (\<lambda>now.
     bind_act (io_emit (EvIoFlushIssued 0 Simulation)) (\<lambda>_ s.
     bind_act (flush_all now (bt_keys (io_pending s))) (\<lambda>_.
     bind_act (elapsed_since now) (\<lambda>d.
     io_emit (EvIoFlushCompleted 0 Simulation (of_nat d)))) s))"

definition pending_io_pressure :: "io_scheduler \<Rightarrow> f32" where
  "pending_io_pressure s = fmin (fdiv binary32 (of_word binary32 (of_nat (bt_len (io_pending s)) :: u32)) (f32_lit 64)) (f32_lit 1)"

definition pending_bandwidth :: "io_scheduler \<Rightarrow> f64" where
  "pending_bandwidth s =
     (let total = of_word binary64 (of_nat (max (bt_len (io_pending s)) 1) :: u64);
          writes = of_word binary64 (of_nat (length (filter (\<lambda>(_, r). rq_operation r = IoWrite) (bt_entries (io_pending s)))) :: u64)
      in if fgt writes (f64_lit 0)
         then fdiv binary64 (f64_lit 1000000) (fadd binary64 (f64_lit 1) (fmul binary64 (fdiv binary64 writes total) (f64_lit 10)))
         else f64_lit 500000)"

text \<open>\<open>age\<close> is the age of the oldest pending request in milliseconds, by the real clock.\<close>

definition get_pending_cost :: "(instant \<Rightarrow> u64) \<Rightarrow> io_scheduler \<Rightarrow> physical_cost" where
  "get_pending_cost age s = \<lparr>latency_ms = (case bt_entries (io_pending s) of [] \<Rightarrow> f64_lit 0 | (_, r) # _ \<Rightarrow> of_word binary64 (age (rq_issued_at r))),
     bandwidth_bps = pending_bandwidth s, reliability = f64_lit 1, cost_io_pressure = pending_io_pressure s,
     cost_queue_depth = of_nat (bt_len (io_pending s))\<rparr>"

section \<open>Requests are conserved\<close>

text \<open>The identifiers given out so far are those of the pending and of the completed requests, each once.\<close>

definition io_ids :: "io_scheduler \<Rightarrow> u64 multiset" where
  "io_ids s = mset (bt_keys (io_pending s)) + mset (map rq_id (io_completed s))"

definition issued_ids :: "io_scheduler \<Rightarrow> u64 multiset" where
  "issued_ids s = mset (map of_nat [1..<unat (io_next_id s)])"

definition io_inv :: "io_scheduler \<Rightarrow> bool" where
  "io_inv s \<longleftrightarrow> io_ids s = issued_ids s \<and> bt_len (io_pending s) \<le> unat (io_max_pending s) \<and> 0 < unat (io_next_id s)
     \<and> list_all (\<lambda>(i, r). rq_id r = i \<and> rq_completion r = IoPending) (bt_entries (io_pending s))
     \<and> list_all (\<lambda>r. rq_completion r \<noteq> IoPending) (io_completed s)"

lemma mset_keys_upd: "k |\<notin>| fmdom m \<Longrightarrow> mset (bt_keys (fmupd k v m)) = add_mset k (mset (bt_keys m))"
  by (simp add: bt_keys_upd remove1_idem mset_insort)

lemma mset_keys_drop: "k |\<in>| fmdom m \<Longrightarrow> add_mset k (mset (bt_keys (fmdrop k m))) = mset (bt_keys m)"
  by (simp add: bt_keys_drop)

lemma entries_upd_all:
  assumes "list_all P (bt_entries m)" "P (k, v)"
  shows "list_all P (bt_entries (fmupd k v m))"
  using assms by (auto simp: list_all_iff in_bt_entries split: if_splits)

lemma entries_drop_all: "list_all P (bt_entries m) \<Longrightarrow> list_all P (bt_entries (fmdrop k m))"
  by (auto simp: list_all_iff in_bt_entries split: if_splits)

lemma entries_lookup: "list_all P (bt_entries m) \<Longrightarrow> fmlookup m k = Some v \<Longrightarrow> P (k, v)"
  by (auto simp: list_all_iff in_bt_entries)

lemma io_inv_env [simp]:
  "io_inv (s\<lparr>io_ticks := n\<rparr>) = io_inv s" "io_inv (s\<lparr>io_emitter := em\<rparr>) = io_inv s"
  by (simp_all add: io_inv_def io_ids_def issued_ids_def)

lemma next_id_fresh:
  assumes "io_inv s"
  shows "io_next_id s |\<notin>| fmdom (io_pending s)"
proof
  assume "io_next_id s |\<in>| fmdom (io_pending s)"
  then have "io_next_id s \<in># io_ids s" by (simp add: io_ids_def)
  then obtain i where "i < unat (io_next_id s)" "io_next_id s = of_nat i" using assms by (auto simp: io_inv_def issued_ids_def)
  then show False using unsigned_less [of "io_next_id s"] by (simp add: unat_of_nat)
qed

lemma issue_Ok:
  assumes "io_inv s" "bt_len (io_pending s) < unat (io_max_pending s)" "unat (io_next_id s) + 1 < 2 ^ 64"
  obtains s' r where "issue op c tier s = (Ok (io_next_id s), s')" "io_inv s'" "io_next_id s' = io_next_id s + 1" "io_completed s' = io_completed s"
    "io_pending s' = fmupd (io_next_id s) r (io_pending s)" "rq_operation r = op" "rq_chunk_id r = c" "io_max_pending s' = io_max_pending s"
proof -
  let ?i = "io_next_id s"
  define r where "r = \<lparr>rq_id = ?i, rq_operation = op, rq_chunk_id = c, rq_tier = tier, rq_issued_at = io_now s (io_ticks s), rq_completion = IoPending\<rparr>"
  define s1 where "s1 = s\<lparr>io_next_id := ?i + 1, io_pending := fmupd ?i r (io_pending s)\<rparr>"
  have n: "unat (?i + 1) = Suc (unat ?i)" using assms(3) unat_add_fits [of ?i 1] by simp
  have "\<exists>em t. issue op c tier s = (Ok ?i, s1\<lparr>io_emitter := em, io_ticks := t\<rparr>)"
    using assms(2) by (intro exI [of _ "io_emitter (snd (issue op c tier s))"] exI [of _ "io_ticks (snd (issue op c tier s))"])
      (simp add: issue_def Let_def bind_act_def update_act_def read_now_def io_emit_def ret_def s1_def r_def)
  then obtain em t where run: "issue op c tier s = (Ok ?i, s1\<lparr>io_emitter := em, io_ticks := t\<rparr>)" by blast
  have "issued_ids s1 = add_mset ?i (issued_ids s)"
    using assms(1) n by (simp add: s1_def issued_ids_def io_inv_def)
  moreover have "io_ids s1 = add_mset ?i (io_ids s)" using next_id_fresh [OF assms(1)] by (simp add: s1_def io_ids_def mset_keys_upd)
  moreover have "list_all (\<lambda>(i, r). rq_id r = i \<and> rq_completion r = IoPending) (bt_entries (io_pending s1))"
    unfolding s1_def using assms(1) by (auto intro!: entries_upd_all simp: io_inv_def r_def)
  ultimately have "io_inv s1"
    using assms(1,2) next_id_fresh [OF assms(1)] n by (simp add: io_inv_def s1_def bt_len_upd)
  then show ?thesis by (intro that [OF run, of r]) (simp_all add: s1_def r_def)
qed

lemma issue_full: "unat (io_max_pending s) \<le> bt_len (io_pending s) \<Longrightarrow> snd (issue op c tier s) = s \<and> fst (issue op c tier s) \<noteq> Panic"
  by (simp add: issue_def fail_def)

lemma retire_inv:
  assumes "io_inv s" "fmlookup (io_pending s) i = Some r" "c \<noteq> IoPending"
  shows "io_inv (s\<lparr>io_pending := fmdrop i (io_pending s), io_completed := io_completed s @ [r\<lparr>rq_completion := c\<rparr>]\<rparr>)"
proof -
  have d: "i |\<in>| fmdom (io_pending s)" using assms(2) by (simp add: fmlookup_dom_iff)
  have id: "rq_id r = i" using entries_lookup [OF _ assms(2)] assms(1) by (auto simp: io_inv_def)
  show ?thesis using assms(1,3) d id
    by (auto simp: io_inv_def io_ids_def issued_ids_def bt_len_drop mset_keys_drop [OF d, symmetric] intro: entries_drop_all)
qed

lemma complete_pending:
  assumes "io_inv s" "fmlookup (io_pending s) i = Some r"
  obtains s' c where "complete i error s = (Ok (), s')" "io_inv s'" "io_next_id s' = io_next_id s" "io_max_pending s' = io_max_pending s"
    "io_pending s' = fmdrop i (io_pending s)" "io_completed s' = io_completed s @ [r\<lparr>rq_completion := c\<rparr>]" "(c = IoFailed (the error)) = (error \<noteq> None)"
proof -
  define c where "c = (case error of None \<Rightarrow> IoCompleted (duration_ticks (io_now s (io_ticks s)) r) | Some e \<Rightarrow> IoFailed e)"
  let ?s = "s\<lparr>io_pending := fmdrop i (io_pending s), io_completed := io_completed s @ [r\<lparr>rq_completion := c\<rparr>]\<rparr>"
  have "\<exists>em t. complete i error s = (Ok (), ?s\<lparr>io_emitter := em, io_ticks := t\<rparr>)"
    using assms(2) by (intro exI [of _ "io_emitter (snd (complete i error s))"] exI [of _ "io_ticks (snd (complete i error s))"])
      (cases error; simp add: complete_def bind_act_def update_act_def read_now_def io_emit_def ret_def c_def)
  then obtain em t where run: "complete i error s = (Ok (), ?s\<lparr>io_emitter := em, io_ticks := t\<rparr>)" by blast
  have "c \<noteq> IoPending" by (auto simp: c_def split: option.split)
  then have "io_inv ?s" by (rule retire_inv [OF assms])
  then show ?thesis using that [OF run] by (simp add: c_def split: option.split)
qed

lemma flush_one_Ok:
  assumes "io_inv s"
  obtains s' where "flush_one now i s = (Ok (), s')" "io_inv s'" "io_pending s' = fmdrop i (io_pending s)"
    "io_next_id s' = io_next_id s" "io_max_pending s' = io_max_pending s"
proof (cases "fmlookup (io_pending s) i")
  case None
  then have "fmdrop i (io_pending s) = io_pending s" by (intro fmap_ext) auto
  then show ?thesis using None assms that [of s] by (simp add: flush_one_def ret_def)
next
  case (Some r)
  let ?s = "s\<lparr>io_pending := fmdrop i (io_pending s), io_completed := io_completed s @ [r\<lparr>rq_completion := IoCompleted (duration_ticks now r)\<rparr>]\<rparr>"
  have "\<exists>em t. flush_one now i s = (Ok (), ?s\<lparr>io_emitter := em, io_ticks := t\<rparr>)"
    using Some by (intro exI [of _ "io_emitter (snd (flush_one now i s))"] exI [of _ "io_ticks (snd (flush_one now i s))"])
      (simp add: flush_one_def bind_act_def update_act_def io_emit_def)
  then obtain em t where run: "flush_one now i s = (Ok (), ?s\<lparr>io_emitter := em, io_ticks := t\<rparr>)" by blast
  have "io_inv ?s" by (rule retire_inv [OF assms Some]) simp
  then show ?thesis using that [OF run] by simp
qed

lemma flush_all_Ok:
  assumes "io_inv s"
  shows "\<exists>s'. flush_all now is s = (Ok (), s') \<and> io_inv s' \<and> fmdom (io_pending s') = fmdom (io_pending s) |-| fset_of_list is
    \<and> io_next_id s' = io_next_id s \<and> io_max_pending s' = io_max_pending s"
  using assms
proof (induction "is" arbitrary: s)
  case (Cons i "is")
  obtain s1 where s1: "flush_one now i s = (Ok (), s1)" "io_inv s1" "io_pending s1 = fmdrop i (io_pending s)"
    "io_next_id s1 = io_next_id s" "io_max_pending s1 = io_max_pending s" by (rule flush_one_Ok [OF Cons.prems])
  from Cons.IH [OF s1(2)] show ?case using s1 by (auto simp: bind_act_def)
qed (simp add: ret_def)

lemma flush_Ok:
  assumes "io_inv s"
  obtains s' where "flush s = (Ok (), s')" "io_inv s'" "io_pending s' = fmempty" "io_next_id s' = io_next_id s"
    "io_max_pending s' = io_max_pending s"
proof -
  define s1 where "s1 = snd (io_emit (EvIoFlushIssued 0 Simulation) (s\<lparr>io_ticks := Suc (io_ticks s)\<rparr>))"
  have i1: "io_inv s1" "io_pending s1 = io_pending s" "io_next_id s1 = io_next_id s" "io_max_pending s1 = io_max_pending s"
    using assms by (simp_all add: s1_def io_emit_def)
  obtain s2 where s2: "flush_all (io_now s (io_ticks s)) (bt_keys (io_pending s1)) s1 = (Ok (), s2)" "io_inv s2" "io_next_id s2 = io_next_id s"
    "fmdom (io_pending s2) = {||}" "io_max_pending s2 = io_max_pending s"
    using flush_all_Ok [OF i1(1), of "io_now s (io_ticks s)" "bt_keys (io_pending s1)"] i1(3,4)
    by (auto simp: fset_eq_iff fset_of_list.rep_eq)
  have "io_pending s2 = fmempty" using s2(4) by (metis fmdom_empty fmap_ext fmdom_notD fempty_iff fmempty_lookup)
  moreover have "\<exists>em t. flush s = (Ok (), s2\<lparr>io_emitter := em, io_ticks := t\<rparr>)"
    using s2(1) by (auto simp: flush_def bind_act_def read_now_def elapsed_since_def s1_def io_emit_def)
  ultimately show ?thesis using that s2(2,3,5) by fastforce
qed

section \<open>Runs of the scheduler\<close>

datatype io_op = DoIssue io_operation chunk_id tier_id | DoComplete u64 "message option" | DoFlush

fun io_step :: "io_op \<Rightarrow> unit io_act" where
  "io_step (DoIssue op c tier) = try_act (issue op c tier)"
| "io_step (DoComplete i e) = complete i e"
| "io_step DoFlush = flush"

fun io_run :: "io_op list \<Rightarrow> unit io_act" where
  "io_run [] = ret ()"
| "io_run (x # xs) = bind_act (io_step x) (\<lambda>_. io_run xs)"

lemma io_step_inv:
  assumes "io_inv s" "unat (io_next_id s) + 1 < 2 ^ 64"
  shows "io_inv (snd (io_step x s)) \<and> unat (io_next_id (snd (io_step x s))) \<le> unat (io_next_id s) + 1 \<and> io_max_pending (snd (io_step x s)) = io_max_pending s"
proof (cases x)
  case (DoIssue op c tier)
  show ?thesis
  proof (cases "bt_len (io_pending s) < unat (io_max_pending s)")
    case True
    obtain s' r where "issue op c tier s = (Ok (io_next_id s), s')" "io_inv s'" "io_next_id s' = io_next_id s + 1" "io_max_pending s' = io_max_pending s"
      by (rule issue_Ok [OF assms(1) True assms(2)])
    then show ?thesis using DoIssue assms(2) unat_add_fits [of "io_next_id s" 1] by (simp add: try_act_def)
  next
    case False
    then show ?thesis using DoIssue assms(1) by (simp add: try_act_def issue_def fail_def)
  qed
next
  case (DoComplete i e)
  show ?thesis
  proof (cases "fmlookup (io_pending s) i")
    case None
    then show ?thesis using DoComplete assms(1) by (simp add: complete_def)
  next
    case (Some r)
    obtain s' where "complete i e s = (Ok (), s')" "io_inv s'" "io_next_id s' = io_next_id s" "io_max_pending s' = io_max_pending s"
      by (rule complete_pending [OF assms(1) Some, of e])
    then show ?thesis using DoComplete by simp
  qed
next
  case DoFlush
  obtain s' where "flush s = (Ok (), s')" "io_inv s'" "io_next_id s' = io_next_id s" "io_max_pending s' = io_max_pending s"
    by (rule flush_Ok [OF assms(1)])
  then show ?thesis using DoFlush by simp
qed

lemma io_run_inv:
  assumes "io_inv s" "unat (io_next_id s) + length xs < 2 ^ 64"
  shows "io_inv (snd (io_run xs s)) \<and> io_max_pending (snd (io_run xs s)) = io_max_pending s"
  using assms
proof (induction xs arbitrary: s)
  case (Cons x xs)
  let ?s = "snd (io_step x s)"
  have st: "io_inv ?s \<and> unat (io_next_id ?s) \<le> unat (io_next_id s) + 1 \<and> io_max_pending ?s = io_max_pending s"
    using Cons.prems by (intro io_step_inv) simp_all
  then have "io_inv (snd (io_run xs ?s)) \<and> io_max_pending (snd (io_run xs ?s)) = io_max_pending ?s"
    using Cons.prems by (intro Cons.IH) auto
  then show ?case using st by (cases "io_step x s"; cases "fst (io_step x s)") (auto simp: bind_act_def)
qed (simp add: ret_def)

lemma io_new_inv: "io_inv (io_scheduler_new now wall secs room em max_pending)"
  by (simp add: io_inv_def io_ids_def issued_ids_def io_scheduler_new_def bt_entries_def bt_len_def)

lemma completed_after_flush:
  assumes "io_inv s"
  shows "length (io_completed (snd (flush s))) = unat (io_next_id s) - 1"
proof -
  obtain s' where s': "flush s = (Ok (), s')" "io_inv s'" "io_pending s' = fmempty" "io_next_id s' = io_next_id s" by (rule flush_Ok [OF assms])
  then have "size (io_ids s') = size (issued_ids s')" by (simp add: io_inv_def)
  then show ?thesis using s' by (simp add: io_ids_def issued_ids_def)
qed

text \<open>
  C26: however the I/O scheduler is driven, and even when a \<^verbatim>\<open>complete\<close> with an unknown identifier makes it panic, the
  identifiers it has given out are those of its pending and its completed requests, each exactly once; the pending
  requests are within the limit; and a flush then succeeds, leaves none pending and every request ever issued completed.
\<close>

theorem io_requests_conserved:
  fixes now wall secs room em max_pending xs
  defines "s \<equiv> snd (io_run xs (io_scheduler_new now wall secs room em max_pending))"
  assumes "length xs + 1 < 2 ^ 64"
  shows "io_ids s = issued_ids s \<and> pending_count s \<le> unat max_pending
    \<and> fst (flush s) = Ok () \<and> pending_count (snd (flush s)) = 0 \<and> completed_count (snd (flush s)) = unat (io_next_id s) - 1"
proof -
  let ?s0 = "io_scheduler_new now wall secs room em max_pending"
  have s: "io_inv s" "io_max_pending s = max_pending"
    using io_run_inv [OF io_new_inv, of now wall secs room em max_pending xs] assms(2) by (simp_all add: s_def io_scheduler_new_def)
  obtain s' where "flush s = (Ok (), s')" "io_pending s' = fmempty" by (rule flush_Ok [OF s(1)])
  then show ?thesis using s completed_after_flush [OF s(1)]
    by (simp add: io_inv_def pending_count_def completed_count_def bt_len_def)
qed

theorem io_requests_conserved_witness:
  "completed_count (snd (flush (snd (io_run [DoIssue IoWrite (ChunkId [7]) Ram, DoIssue IoRead (ChunkId [8]) Ram, DoComplete 9 None]
     (io_scheduler_new id id (\<lambda>_. 0) (\<lambda>_. True) emitter_new 64))))) = 2"
  using io_requests_conserved [of "[DoIssue IoWrite (ChunkId [7]) Ram, DoIssue IoRead (ChunkId [8]) Ram, DoComplete 9 None]" id id "\<lambda>_. 0" "\<lambda>_. True" emitter_new 64]
  by (simp add: io_scheduler_new_def bind_act_def try_act_def issue_def Let_def update_act_def read_now_def io_emit_def ret_def complete_def bt_len_def bt_keys_upd)

end
