(* ===== verification/Chunk_File.thy ===== *)
theory Chunk_File
  imports Wire Ram_Backend
begin

text \<open>
  \<^verbatim>\<open>ghost-compress/src/engine.rs\<close> and \<^verbatim>\<open>ghost-tier/src/disk_persistence.rs\<close>: chunk files, written through a
  temporary file and a rename. The zstd library is the argument \<open>z\<close>, blake3 the argument \<open>hash\<close>. A file
  system holds the files and an oracle of faults: the \<open>k\<close>-th call may be refused, or stop after writing
  some of its bytes. The theory shows the round trip of a chunk, that a write which fails at any call
  leaves the old chunk or the complete new one, and what a reader makes of an arbitrary file.
\<close>

section \<open>Compression\<close>

record zstd =
  bulk_compress :: "int \<Rightarrow> bytes \<Rightarrow> (bytes, message) outcome"
  bulk_decompress :: "nat \<Rightarrow> bytes \<Rightarrow> (bytes, message) outcome"

text \<open>What zstd documents: what it compressed it restores, into a buffer that is large enough.\<close>

definition zstd_restores :: "zstd \<Rightarrow> bool" where
  "zstd_restores z \<longleftrightarrow> (\<forall>lvl d c n. bulk_compress z lvl d = Ok c \<and> length d \<le> n \<longrightarrow> bulk_decompress z n c = Ok d)"

definition default_level :: int where
  "default_level = 3"

definition zstd_compress :: "zstd \<Rightarrow> int \<Rightarrow> bytes \<Rightarrow> bytes ghost_result" where
  "zstd_compress z lvl d = map_err (\<lambda>e. CompressionError (Lit ''zstd compression failed: '' # e)) (bulk_compress z lvl d)"

definition zstd_decompress :: "zstd \<Rightarrow> bytes \<Rightarrow> nat option \<Rightarrow> bytes ghost_result" where
  "zstd_decompress z d expected = map_err (\<lambda>e. CompressionError (Lit ''zstd decompression failed: '' # e))
     (bulk_decompress z (unwrap_or (256 * 1024 * 1024) expected) d)"

definition noop_compress :: "bytes \<Rightarrow> bytes ghost_result" where
  "noop_compress d = Ok d"

definition noop_decompress :: "bytes \<Rightarrow> bytes ghost_result" where
  "noop_decompress d = Ok d"

fun compress :: "zstd \<Rightarrow> int \<Rightarrow> compression_algorithm \<Rightarrow> bytes \<Rightarrow> bytes ghost_result" where
  "compress z lvl NoCompression d = noop_compress d"
| "compress z lvl Zstd d = zstd_compress z lvl d"

fun decompress :: "zstd \<Rightarrow> compression_algorithm \<Rightarrow> nat option \<Rightarrow> bytes \<Rightarrow> bytes ghost_result" where
  "decompress z NoCompression expected d = noop_decompress d"
| "decompress z Zstd expected d = zstd_decompress z d expected"

lemma decompress_compress:
  assumes "zstd_restores z" "compress z lvl alg d = Ok c" "length d \<le> n"
  shows "decompress z alg (Some n) c = Ok d"
  using assms by (cases alg) (auto simp: zstd_restores_def zstd_compress_def zstd_decompress_def noop_compress_def noop_decompress_def)

section \<open>The file system\<close>

type_synonym path = "string list"

datatype io_fault = Fine | Refused message | Partial nat message

record filesystem =
  fs_files :: "(path, bytes) fmap"
  fs_faults :: "nat \<Rightarrow> io_fault"
  fs_calls :: nat

type_synonym 'a fs_act = "(filesystem, 'a, message) act"

definition not_found :: message where
  "not_found = [Lit ''No such file or directory (os error 2)'']"

definition fs_fault :: "filesystem \<Rightarrow> io_fault" where
  "fs_fault s = fs_faults s (fs_calls s)"

definition fs_called :: "filesystem \<Rightarrow> filesystem" where
  "fs_called s = s\<lparr>fs_calls := Suc (fs_calls s)\<rparr>"

definition set_file :: "path \<Rightarrow> bytes \<Rightarrow> filesystem \<Rightarrow> filesystem" where
  "set_file p d s = s\<lparr>fs_files := fmupd p d (fs_files s)\<rparr>"

text \<open>\<^verbatim>\<open>fs::write\<close> creates or truncates the file.\<close>

definition fs_write :: "path \<Rightarrow> bytes \<Rightarrow> unit fs_act" where
  "fs_write p d s = (case fs_fault s of
       Fine \<Rightarrow> (Ok (), set_file p d (fs_called s))
     | Refused e \<Rightarrow> (Err e, fs_called s)
     | Partial k e \<Rightarrow> (Err e, set_file p (take k d) (fs_called s)))"

definition fs_open_append :: "path \<Rightarrow> unit fs_act" where
  "fs_open_append p s = (case fs_fault s of
       Fine \<Rightarrow> (if fmlookup (fs_files s) p = None then Err not_found else Ok (), fs_called s)
     | Refused e \<Rightarrow> (Err e, fs_called s)
     | Partial k e \<Rightarrow> (Err e, fs_called s))"

text \<open>\<^verbatim>\<open>write_all\<close> on a file opened for appending.\<close>

definition file_bytes :: "path \<Rightarrow> filesystem \<Rightarrow> bytes" where
  "file_bytes p s = unwrap_or [] (fmlookup (fs_files s) p)"

definition fs_append :: "path \<Rightarrow> bytes \<Rightarrow> unit fs_act" where
  "fs_append p d s = (case fs_fault s of
       Fine \<Rightarrow> (Ok (), set_file p (file_bytes p s @ d) (fs_called s))
     | Refused e \<Rightarrow> (Err e, fs_called s)
     | Partial k e \<Rightarrow> (Err e, set_file p (file_bytes p s @ take k d) (fs_called s)))"

definition fs_rename :: "path \<Rightarrow> path \<Rightarrow> unit fs_act" where
  "fs_rename p q s = (case fs_fault s of
       Fine \<Rightarrow> (case fmlookup (fs_files s) p of
           None \<Rightarrow> (Err not_found, fs_called s)
         | Some d \<Rightarrow> (Ok (), (fs_called s)\<lparr>fs_files := fmupd q d (fmdrop p (fs_files s))\<rparr>))
     | Refused e \<Rightarrow> (Err e, fs_called s)
     | Partial k e \<Rightarrow> (Err e, fs_called s))"

definition fs_read :: "path \<Rightarrow> bytes fs_act" where
  "fs_read p s = (case fs_fault s of
       Fine \<Rightarrow> (case fmlookup (fs_files s) p of None \<Rightarrow> Err not_found | Some d \<Rightarrow> Ok d, fs_called s)
     | Refused e \<Rightarrow> (Err e, fs_called s)
     | Partial k e \<Rightarrow> (Err e, fs_called s))"

definition fs_remove_file :: "path \<Rightarrow> unit fs_act" where
  "fs_remove_file p s = (case fs_fault s of
       Fine \<Rightarrow> (case fmlookup (fs_files s) p of
           None \<Rightarrow> (Err not_found, fs_called s)
         | Some d \<Rightarrow> (Ok (), (fs_called s)\<lparr>fs_files := fmdrop p (fs_files s)\<rparr>))
     | Refused e \<Rightarrow> (Err e, fs_called s)
     | Partial k e \<Rightarrow> (Err e, fs_called s))"

definition fs_exists :: "path \<Rightarrow> filesystem \<Rightarrow> bool" where
  "fs_exists p s = (fmlookup (fs_files s) p \<noteq> None)"

section \<open>Chunk files\<close>

definition hex_digit :: "nat \<Rightarrow> char" where
  "hex_digit n = ''0123456789abcdef'' ! n"

fun hex_encode :: "bytes \<Rightarrow> string" where
  "hex_encode [] = ''''"
| "hex_encode (b # bs) = hex_digit (unat b div 16) # hex_digit (unat b mod 16) # hex_encode bs"

definition chunk_path :: "path \<Rightarrow> chunk_id \<Rightarrow> path" where
  "chunk_path base c = (let hex = hex_encode (id_bytes c) in base @ [take 2 hex, hex @ ''.blk''])"

text \<open>\<^verbatim>\<open>with_extension\<close> replaces what follows the last dot of the file name.\<close>

definition file_stem :: "string \<Rightarrow> string" where
  "file_stem name = (case dropWhile (\<lambda>ch. ch \<noteq> CHR ''.'') (rev name) of [] \<Rightarrow> name | _ # rest \<Rightarrow> if rest = [] then name else rev rest)"

definition with_extension :: "path \<Rightarrow> string \<Rightarrow> path" where
  "with_extension p ext = butlast p @ [file_stem (last p) @ ''.'' @ ext]"

fun display :: "path \<Rightarrow> string" where
  "display [] = ''''"
| "display [x] = x"
| "display (x # xs) = x @ ''/'' @ display xs"

definition chunk_magic :: bytes where
  "chunk_magic = [71, 72, 79, 83, 84, 66, 76, 75]"

definition header_size :: nat where
  "header_size = 51"

fun algorithm_byte :: "compression_algorithm \<Rightarrow> u8" where
  "algorithm_byte NoCompression = 0"
| "algorithm_byte Zstd = 1"

text \<open>The sizes are cut to 32 bits.\<close>

definition chunk_header :: "bytes \<Rightarrow> nat \<Rightarrow> nat \<Rightarrow> compression_algorithm \<Rightarrow> bytes" where
  "chunk_header content_hash size_orig size_comp alg = chunk_magic @ to_le 2 (1 :: 16 word) @ content_hash
     @ to_le 4 (of_nat size_orig :: u32) @ to_le 4 (of_nat size_comp :: u32) @ [algorithm_byte alg]"

type_synonym 'a chunk_act = "(filesystem, 'a, backend_error) act"

definition write_chunk :: "zstd \<Rightarrow> path \<Rightarrow> chunk_id \<Rightarrow> bytes \<Rightarrow> bytes \<Rightarrow> compression_algorithm \<Rightarrow> nat chunk_act" where
  "write_chunk z base c data content_hash alg =
     (let file_path = chunk_path base c; temp_path = with_extension file_path ''blk.tmp'' in
      bind_act (lift_outcome (map_err (\<lambda>e. WriteFailed (Lit ''compression failed: '' # ghost_error_display e))
        (compress z default_level alg data))) (\<lambda>compressed.
      let header = chunk_header content_hash (length data) (length compressed) alg in
      bind_act (map_err_act (\<lambda>e. WriteFailed ([Lit ''failed to write header to '', Lit (display temp_path), Lit '': ''] @ e))
        (fs_write temp_path header)) (\<lambda>_.
      bind_act (map_err_act (\<lambda>e. WriteFailed ([Lit ''failed to open temp file '', Lit (display temp_path), Lit '': ''] @ e))
        (fs_open_append temp_path)) (\<lambda>_.
      bind_act (map_err_act (\<lambda>e. WriteFailed ([Lit ''failed to write data to '', Lit (display temp_path), Lit '': ''] @ e))
        (fs_append temp_path compressed)) (\<lambda>_.
      bind_act (map_err_act (\<lambda>e. WriteFailed ([Lit ''failed to rename '', Lit (display temp_path), Lit '' -> '', Lit (display file_path), Lit '': ''] @ e))
        (fs_rename temp_path file_path)) (\<lambda>_.
      ret (length header + length compressed)))))))"

definition byte_slice :: "nat \<Rightarrow> nat \<Rightarrow> bytes \<Rightarrow> bytes" where
  "byte_slice i j bs = take (j - i) (drop i bs)"

fun algorithm_of_byte :: "u8 \<Rightarrow> compression_algorithm option" where
  "algorithm_of_byte b = (if b = 0 then Some NoCompression else if b = 1 then Some Zstd else None)"

text \<open>
  The bytes of a chunk file, decoded. The stored hash (bytes 10 to 42) is parsed and not used. Taking the compressed
  data from a file that is shorter than its header says is an out-of-range slice.
\<close>

definition parse_chunk :: "zstd \<Rightarrow> (bytes \<Rightarrow> bytes) \<Rightarrow> string \<Rightarrow> bytes \<Rightarrow> bytes \<Rightarrow> (bytes, backend_error) outcome" where
  "parse_chunk z hash name expected bs =
     (if length bs < header_size
      then Err (ReadFailed [Lit ''chunk file '', Lit name, Lit '' is too small ('', FmtNat (length bs), Lit '' bytes, expected at least '', FmtNat header_size, Lit '')''])
      else if byte_slice 0 8 bs \<noteq> chunk_magic then Err (ReadFailed [Lit ''chunk file '', Lit name, Lit '' has invalid magic bytes''])
      else (let version = from_le (byte_slice 8 10 bs) :: 16 word in
        if version \<noteq> 1
        then Err (ReadFailed [Lit ''chunk file '', Lit name, Lit '' has unsupported version '', FmtNat (unat version), Lit '' (expected 1)''])
        else (let original_size = unat (from_le (byte_slice 42 46 bs) :: u32); compressed_size = unat (from_le (byte_slice 46 50 bs) :: u32) in
          case algorithm_of_byte (bs ! 50) of
            None \<Rightarrow> Err (ReadFailed [Lit ''chunk file '', Lit name, Lit '' has unknown compression algorithm '', FmtNat (unat (bs ! 50))])
          | Some alg \<Rightarrow>
              if length bs < header_size + compressed_size then Panic
              else (case decompress z alg (Some original_size) (byte_slice header_size (header_size + compressed_size) bs) of
                  Ok d \<Rightarrow> (if hash d = expected then Ok d
                     else Err (IntegrityFailed [Lit ''hash mismatch for '', Lit name, Lit '': expected '', Lit (hex_encode expected), Lit '', got '', Lit (hex_encode (hash d))]))
                | Err e \<Rightarrow> Err (ReadFailed ([Lit ''decompression failed for '', Lit name, Lit '': ''] @ ghost_error_display e))
                | Panic \<Rightarrow> Panic))))"

definition read_chunk :: "zstd \<Rightarrow> (bytes \<Rightarrow> bytes) \<Rightarrow> path \<Rightarrow> chunk_id \<Rightarrow> bytes \<Rightarrow> bytes chunk_act" where
  "read_chunk z hash base c expected =
     (let file_path = chunk_path base c in
      bind_act (map_err_act (\<lambda>e. ReadFailed ([Lit ''failed to read chunk file '', Lit (display file_path), Lit '': ''] @ e)) (fs_read file_path))
        (\<lambda>bs. lift_outcome (parse_chunk z hash (display file_path) expected bs)))"

definition delete_chunk :: "path \<Rightarrow> chunk_id \<Rightarrow> unit chunk_act" where
  "delete_chunk base c s =
     (let file_path = chunk_path base c in
      if fs_exists file_path s
      then map_err_act (\<lambda>e. InternalFailure ([Lit ''failed to delete chunk file '', Lit (display file_path), Lit '': ''] @ e)) (fs_remove_file file_path) s
      else ret () s)"

definition chunk_exists :: "path \<Rightarrow> chunk_id \<Rightarrow> filesystem \<Rightarrow> bool" where
  "chunk_exists base c s = fs_exists (chunk_path base c) s"

definition compute_hash :: "(bytes \<Rightarrow> bytes) \<Rightarrow> bytes \<Rightarrow> bytes" where
  "compute_hash hash d = hash d"

section \<open>Paths\<close>

lemma hex_digit_inj: "m < 16 \<Longrightarrow> n < 16 \<Longrightarrow> hex_digit m = hex_digit n \<longleftrightarrow> m = n"
  unfolding hex_digit_def by (subst nth_eq_iff_index_eq) simp_all

lemma hex_encode_inj: "hex_encode a = hex_encode b \<longleftrightarrow> a = b"
proof (induction a arbitrary: b)
  case Nil
  show ?case by (cases b) simp_all
next
  case (Cons x a)
  show ?case
  proof (cases b)
    case (Cons y b')
    have lt: "unat z < 256" for z :: u8 using unsigned_less [of z] by simp
    have "unat x div 16 = unat y div 16 \<and> unat x mod 16 = unat y mod 16 \<longleftrightarrow> x = y"
      by (metis div_mult_mod_eq word_unat_eq_iff)
    then show ?thesis using Cons Cons.IH [of b'] lt [of x] lt [of y] by (auto simp: hex_digit_inj less_mult_imp_div_less)
  qed simp
qed

lemma hex_no_dot: "CHR ''.'' \<notin> set (hex_encode bs)"
proof (induction bs)
  case (Cons b bs)
  have "CHR ''.'' \<noteq> hex_digit n" if "n < 16" for n
  proof -
    have "hex_digit n \<in> set ''0123456789abcdef''" unfolding hex_digit_def using that by (intro nth_mem) simp
    then show ?thesis by auto
  qed
  moreover have "unat b < 16 * 16" using unsigned_less [of b, where 'a = nat] by simp
  then have "unat b div 16 < 16" by (rule less_mult_imp_div_less)
  ultimately show ?case using Cons by simp
qed simp

lemma chunk_path_inj: "chunk_path base c = chunk_path base c' \<longleftrightarrow> c = c'"
  by (auto simp: chunk_path_def Let_def hex_encode_inj chunk_id.expand)

lemma hex_Nil_iff: "hex_encode bs = [] \<longleftrightarrow> bs = []"
  by (cases bs) simp_all

lemma temp_path:
  "id_bytes c \<noteq> [] \<Longrightarrow> with_extension (chunk_path base c) ''blk.tmp'' = butlast (chunk_path base c) @ [hex_encode (id_bytes c) @ ''.blk.tmp'']"
  using hex_no_dot [of "id_bytes c"]
  by (simp add: with_extension_def chunk_path_def Let_def file_stem_def hex_Nil_iff)

lemma temp_not_chunk: "with_extension (chunk_path base c) ''blk.tmp'' \<noteq> chunk_path base' c'"
proof
  let ?t = "with_extension (chunk_path base c) ''blk.tmp''"
  assume "?t = chunk_path base' c'"
  then have "last (last ?t) = last (last (chunk_path base' c'))" by simp
  then show False by (simp add: with_extension_def chunk_path_def Let_def)
qed

section \<open>Writing is atomic\<close>

text \<open>What the chunk file holds once the write is through.\<close>

definition chunk_image :: "bytes \<Rightarrow> nat \<Rightarrow> compression_algorithm \<Rightarrow> bytes \<Rightarrow> bytes" where
  "chunk_image content_hash n alg compressed = chunk_header content_hash n (length compressed) alg @ compressed"

definition file_at :: "path \<Rightarrow> chunk_id \<Rightarrow> filesystem \<Rightarrow> bytes option" where
  "file_at base c s = fmlookup (fs_files s) (chunk_path base c)"

lemmas fs_defs = fs_write_def fs_open_append_def fs_append_def fs_rename_def fs_fault_def fs_called_def set_file_def file_bytes_def

lemma fmdrop_upd [simp]: "fmdrop k (fmupd k v m) = fmdrop k m"
  by (rule fmap_ext) simp

lemma write_chunk_refused:
  assumes "compress z default_level alg data = Err e"
  shows "write_chunk z base c data h alg s = (Err (WriteFailed (Lit ''compression failed: '' # ghost_error_display e)), s)"
  using assms by (simp add: write_chunk_def Let_def bind_act_def lift_outcome_def)

lemma write_chunk_cases:
  fixes base c
  defines "p \<equiv> chunk_path base c"
  defines "t \<equiv> with_extension p ''blk.tmp''"
  assumes "compress z default_level alg data = Ok cs"
  obtains
    (written) s' where "write_chunk z base c data h alg s = (Ok (length (chunk_image h (length data) alg cs)), s')"
      "fs_files s' = fmupd p (chunk_image h (length data) alg cs) (fmdrop t (fs_files s))" "fs_faults s' = fs_faults s" "fs_calls s' = fs_calls s + 4"
  | (failed) e s' where "write_chunk z base c data h alg s = (Err (WriteFailed e), s')" "\<And>q. q \<noteq> t \<Longrightarrow> fmlookup (fs_files s') q = fmlookup (fs_files s) q"
      "fs_faults s' = fs_faults s" "\<exists>k < 4. fs_faults s (fs_calls s + k) \<noteq> Fine"
proof -
  have ne: "t \<noteq> p" unfolding p_def t_def by (rule temp_not_chunk)
  note run = write_chunk_def Let_def bind_act_def lift_outcome_def map_err_act_def ret_def fs_defs chunk_image_def
  show ?thesis
  proof (cases "\<forall>k < 4. fs_faults s (fs_calls s + k) = Fine")
    case True
    then have "fs_faults s (fs_calls s) = Fine" "fs_faults s (Suc (fs_calls s)) = Fine" "fs_faults s (Suc (Suc (fs_calls s))) = Fine"
      "fs_faults s (Suc (Suc (Suc (fs_calls s)))) = Fine"
      using True [rule_format, of 0] True [rule_format, of 1] True [rule_format, of 2] True [rule_format, of 3] by (simp_all add: numeral_eq_Suc)
    then show ?thesis using assms(3) ne by (intro written [of "snd (write_chunk z base c data h alg s)"]) (simp_all add: run flip: p_def t_def)
  next
    case False
    have "\<exists>e s'. write_chunk z base c data h alg s = (Err (WriteFailed e), s') \<and> (\<forall>q. q \<noteq> t \<longrightarrow> fmlookup (fs_files s') q = fmlookup (fs_files s) q) \<and> fs_faults s' = fs_faults s"
    proof -
      let ?n = "fs_calls s"
      from False consider "fs_faults s ?n \<noteq> Fine" | "fs_faults s ?n = Fine" "fs_faults s (Suc ?n) \<noteq> Fine"
        | "fs_faults s ?n = Fine" "fs_faults s (Suc ?n) = Fine" "fs_faults s (Suc (Suc ?n)) \<noteq> Fine"
        | "fs_faults s ?n = Fine" "fs_faults s (Suc ?n) = Fine" "fs_faults s (Suc (Suc ?n)) = Fine" "fs_faults s (Suc (Suc (Suc ?n))) \<noteq> Fine"
        by (auto simp: numeral_eq_Suc less_Suc_eq)
      then show ?thesis
      proof cases
        case 1
        then show ?thesis using assms(3) by (cases "fs_faults s ?n") (simp_all add: run flip: p_def t_def)
      next
        case 2
        then show ?thesis using assms(3) by (cases "fs_faults s (Suc ?n)") (simp_all add: run flip: p_def t_def)
      next
        case 3
        then show ?thesis using assms(3) by (cases "fs_faults s (Suc (Suc ?n))") (simp_all add: run flip: p_def t_def)
      next
        case 4
        then show ?thesis using assms(3) by (cases "fs_faults s (Suc (Suc (Suc ?n)))") (simp_all add: run flip: p_def t_def)
      qed
    qed
    then show ?thesis using False failed by blast
  qed
qed

section \<open>Reading\<close>

lemma length_chunk_magic [simp]: "length chunk_magic = 8"
  by (simp add: chunk_magic_def)

lemma length_chunk_header [simp]: "length h = 32 \<Longrightarrow> length (chunk_header h n m alg) = header_size"
  by (simp add: chunk_header_def header_size_def)

lemma byte_slice_append:
  "length xs \<le> i \<Longrightarrow> byte_slice i j (xs @ ys) = byte_slice (i - length xs) (j - length xs) ys"
  "i \<le> j \<Longrightarrow> j \<le> length xs \<Longrightarrow> byte_slice i j (xs @ ys) = byte_slice i j xs"
  by (auto simp: byte_slice_def)

lemma byte_slice_all: "j = length xs \<Longrightarrow> byte_slice 0 j xs = xs"
  by (simp add: byte_slice_def)

lemma header_fields:
  assumes "length h = 32" and bs: "bs = chunk_header h n m alg @ rest"
  shows "byte_slice 0 8 bs = chunk_magic" "byte_slice 8 10 bs = to_le 2 (1 :: 16 word)" "byte_slice 42 46 bs = to_le 4 (of_nat n :: u32)"
    "byte_slice 46 50 bs = to_le 4 (of_nat m :: u32)" "bs ! 50 = algorithm_byte alg" "drop header_size bs = rest"
  using assms(1) unfolding bs chunk_header_def header_size_def
  by (simp_all add: byte_slice_append byte_slice_all nth_append)

lemma algorithm_byte_inverse [simp]: "algorithm_of_byte (algorithm_byte alg) = Some alg"
  by (cases alg) simp_all

lemma parse_header:
  assumes "length h = 32" "m < 2 ^ 32"
  shows "parse_chunk z hash name expected (chunk_header h n m alg @ rest) =
    (if length rest < m then Panic
     else (case decompress z alg (Some (n mod 2 ^ 32)) (take m rest) of
         Ok d \<Rightarrow> (if hash d = expected then Ok d
            else Err (IntegrityFailed [Lit ''hash mismatch for '', Lit name, Lit '': expected '', Lit (hex_encode expected), Lit '', got '', Lit (hex_encode (hash d))]))
       | Err e \<Rightarrow> Err (ReadFailed ([Lit ''decompression failed for '', Lit name, Lit '': ''] @ ghost_error_display e))
       | Panic \<Rightarrow> Panic))"
proof -
  define bs where "bs = chunk_header h n m alg @ rest"
  have len: "length bs = header_size + length rest" using assms(1) by (simp add: bs_def)
  have m: "unat (of_nat m :: u32) = m" using assms(2) by (simp add: unat_of_nat)
  have n: "unat (of_nat n :: u32) = n mod 2 ^ 32" by (simp add: unat_of_nat)
  have "byte_slice header_size (header_size + m) bs = take m rest" using header_fields(6) [OF assms(1) bs_def] by (simp add: byte_slice_def)
  then show ?thesis unfolding parse_chunk_def bs_def [symmetric] Let_def header_fields [OF assms(1) bs_def] len
    by (simp add: from_to_le m n del: algorithm_of_byte.simps)
qed

lemma read_chunk_fine:
  assumes "fs_fault s = Fine" "file_at base c s = Some bs"
  shows "read_chunk z hash base c expected s = (parse_chunk z hash (display (chunk_path base c)) expected bs, fs_called s)"
  using assms by (simp add: read_chunk_def Let_def bind_act_def map_err_act_def fs_read_def file_at_def lift_outcome_def)

text \<open>
  C25: a chunk written to a file system that works is read back: the write reports the header and the compressed bytes
  as the space used, a read that expects the hash of the data returns the data, the other chunks keep their files, and
  after a delete the chunk is gone.
\<close>

theorem chunk_file_roundtrip:
  fixes z hash base c data alg s
  defines "w \<equiv> write_chunk z base c data (hash data) alg s"
  assumes "zstd_restores z" "compress z default_level alg data = Ok cs" "length (hash data) = 32" "length data < 2 ^ 32" "length cs < 2 ^ 32"
    and "\<And>k. fs_faults s k = Fine"
  shows "fst w = Ok (51 + length cs) \<and> fst (read_chunk z hash base c (hash data) (snd w)) = Ok data
    \<and> (\<forall>c'. c' \<noteq> c \<longrightarrow> file_at base c' (snd w) = file_at base c' s)
    \<and> fst (delete_chunk base c (snd w)) = Ok () \<and> \<not> chunk_exists base c (snd (delete_chunk base c (snd w)))"
proof (cases rule: write_chunk_cases [OF assms(3), of base c "hash data" s])
  case (1 s')
  have fine: "fs_fault s' = Fine" using 1(3) assms(7) by (simp add: fs_fault_def)
  have img: "file_at base c s' = Some (chunk_image (hash data) (length data) alg cs)" using 1(2) by (simp add: file_at_def)
  have "decompress z alg (Some (length data)) cs = Ok data" by (rule decompress_compress [OF assms(2,3)]) simp
  then have "parse_chunk z hash (display (chunk_path base c)) (hash data) (chunk_image (hash data) (length data) alg cs) = Ok data"
    using assms(4-6) unfolding chunk_image_def by (subst parse_header) simp_all
  then have r: "fst (read_chunk z hash base c (hash data) s') = Ok data" by (simp add: read_chunk_fine [OF fine img])
  have o: "file_at base c' s' = file_at base c' s" if "c' \<noteq> c" for c'
    using that 1(2) temp_not_chunk [of base c base c'] by (auto simp: file_at_def chunk_path_inj)
  have d: "delete_chunk base c s' = (Ok (), (fs_called s')\<lparr>fs_files := fmdrop (chunk_path base c) (fs_files s')\<rparr>)"
    using img fine by (simp add: delete_chunk_def Let_def fs_exists_def file_at_def map_err_act_def fs_remove_file_def)
  show ?thesis using 1(1) r o assms(4) unfolding w_def
    by (simp add: d chunk_exists_def fs_exists_def chunk_image_def header_size_def)
next
  case (2 e s')
  then show ?thesis using assms(7) by blast
qed

theorem chunk_file_roundtrip_witness:
  "let w = write_chunk \<lparr>bulk_compress = \<lambda>_ d. Ok d, bulk_decompress = \<lambda>n d. if length d \<le> n then Ok d else Err []\<rparr> [''d''] (ChunkId [1]) [5, 6] (replicate 32 0) Zstd \<lparr>fs_files = fmempty, fs_faults = (\<lambda>_. Fine), fs_calls = 0\<rparr>
   in fst w = Ok 53 \<and> fst (read_chunk \<lparr>bulk_compress = \<lambda>_ d. Ok d, bulk_decompress = \<lambda>n d. if length d \<le> n then Ok d else Err []\<rparr> (\<lambda>_. replicate 32 0) [''d''] (ChunkId [1]) (replicate 32 0) (snd w)) = Ok [5, 6]"
  unfolding Let_def
  using chunk_file_roundtrip [where z = "\<lparr>bulk_compress = \<lambda>_ d. Ok d, bulk_decompress = \<lambda>n d. if length d \<le> n then Ok d else Err []\<rparr>" and hash = "\<lambda>_. replicate 32 0" and alg = Zstd and data = "[5, 6]" and cs = "[5, 6]"
    and base = "[''d'']" and c = "ChunkId [1]" and s = "\<lparr>fs_files = fmempty, fs_faults = (\<lambda>_. Fine), fs_calls = 0\<rparr>"]
  by (simp add: zstd_restores_def zstd_compress_def)

text \<open>
  C24: writing a chunk is atomic. Whatever call of the file system fails, and however much of its data it wrote, a write
  that reports success has put the complete new file in place, a write that does not has left the chunk's file as it
  was, and no other chunk's file changes.
\<close>

theorem write_chunk_atomic:
  fixes z base c data h alg s
  defines "w \<equiv> write_chunk z base c data h alg s"
  shows "(\<forall>c'. c' \<noteq> c \<longrightarrow> file_at base c' (snd w) = file_at base c' s)
    \<and> (if is_ok (fst w) then \<exists>cs. compress z default_level alg data = Ok cs \<and> file_at base c (snd w) = Some (chunk_image h (length data) alg cs)
       else file_at base c (snd w) = file_at base c s)"
proof (cases "compress z default_level alg data")
  case (Ok cs)
  show ?thesis
  proof (cases rule: write_chunk_cases [OF Ok, of base c h s])
    case (1 s')
    then show ?thesis using Ok temp_not_chunk [of base c base, symmetric] by (auto simp: w_def file_at_def chunk_path_inj)
  next
    case (2 e s')
    then show ?thesis using temp_not_chunk [of base c base] by (simp add: w_def file_at_def) metis
  qed
next
  case (Err e)
  then show ?thesis by (simp add: w_def write_chunk_refused)
next
  case Panic
  then show ?thesis by (simp add: w_def write_chunk_def Let_def bind_act_def lift_outcome_def)
qed

theorem write_chunk_atomic_witness:
  "let s = \<lparr>fs_files = fmupd (chunk_path [''d''] (ChunkId [1])) [9] fmempty, fs_faults = (\<lambda>k. if k = 2 then Partial 1 [] else Fine), fs_calls = 0\<rparr>;
       w = write_chunk \<lparr>bulk_compress = \<lambda>_ d. Ok d, bulk_decompress = \<lambda>n d. if length d \<le> n then Ok d else Err []\<rparr> [''d''] (ChunkId [1]) [5, 6] (replicate 32 0) Zstd s
   in fst w = Err (WriteFailed [Lit ''failed to write data to '', Lit ''d/01/01.blk.tmp'', Lit '': '']) \<and> file_at [''d''] (ChunkId [1]) (snd w) = Some [9]"
  unfolding Let_def
  using write_chunk_atomic [where z = "\<lparr>bulk_compress = \<lambda>_ d. Ok d, bulk_decompress = \<lambda>n d. if length d \<le> n then Ok d else Err []\<rparr>" and base = "[''d'']" and c = "ChunkId [1]" and data = "[5, 6]" and h = "replicate 32 0" and alg = Zstd
    and s = "\<lparr>fs_files = fmupd (chunk_path [''d''] (ChunkId [1])) [9] fmempty, fs_faults = (\<lambda>k. if k = 2 then Partial 1 [] else Fine), fs_calls = 0\<rparr>"]
  by (simp add: write_chunk_def zstd_compress_def Let_def bind_act_def lift_outcome_def map_err_act_def fs_defs file_at_def chunk_path_def hex_digit_def
      with_extension_def file_stem_def)

text \<open>
  A chunk file cut short, as a crash of the machine leaves it: cut inside its header it is reported as too small, but cut
  inside its data the reader does not report corruption, it panics on an out-of-range slice.
\<close>

theorem truncated_chunk_file:
  assumes "length h = 32" "length cs < 2 ^ 32" "n < length (chunk_image h m alg cs)" "fs_fault s = Fine"
    and "file_at base c s = Some (take n (chunk_image h m alg cs))"
  shows "case fst (read_chunk z hash base c expected s) of
      Ok _ \<Rightarrow> False | Err e \<Rightarrow> n < 51 \<and> (\<exists>msg. e = ReadFailed msg) | Panic \<Rightarrow> 51 \<le> n"
proof (cases "n < header_size")
  case True
  then show ?thesis using assms by (simp add: read_chunk_fine [OF assms(4,5)] parse_chunk_def header_size_def)
next
  case False
  then have "take n (chunk_image h m alg cs) = chunk_header h m (length cs) alg @ take (n - header_size) cs"
    using assms(1) by (simp add: chunk_image_def)
  moreover have "n - header_size < length cs" using assms(1,3) False by (simp add: chunk_image_def)
  ultimately show ?thesis using assms(1,2) False unfolding read_chunk_fine [OF assms(4,5)]
    by (simp add: parse_header) (simp add: header_size_def)
qed

theorem truncated_chunk_file_witness:
  "let s = \<lparr>fs_files = fmupd (chunk_path [''d''] (ChunkId [1])) (take 52 (chunk_image (replicate 32 0) 2 NoCompression [5, 6])) fmempty,
       fs_faults = (\<lambda>_. Fine), fs_calls = 0\<rparr>
   in fst (read_chunk \<lparr>bulk_compress = \<lambda>_ d. Ok d, bulk_decompress = \<lambda>n d. if length d \<le> n then Ok d else Err []\<rparr> (\<lambda>_. replicate 32 0) [''d''] (ChunkId [1]) (replicate 32 0) s) = Panic"
  unfolding Let_def
  using truncated_chunk_file [where h = "replicate 32 0" and cs = "[5, 6]" and n = 52 and m = 2 and alg = NoCompression and base = "[''d'']" and c = "ChunkId [1]"
    and s = "\<lparr>fs_files = fmupd (chunk_path [''d''] (ChunkId [1])) (take 52 (chunk_image (replicate 32 0) 2 NoCompression [5, 6])) fmempty,
       fs_faults = (\<lambda>_. Fine), fs_calls = 0\<rparr>"
    and z = "\<lparr>bulk_compress = \<lambda>_ d. Ok d, bulk_decompress = \<lambda>n d. if length d \<le> n then Ok d else Err []\<rparr>" and hash = "\<lambda>_. replicate 32 0" and expected = "replicate 32 0"]
  by (simp add: chunk_image_def fs_fault_def file_at_def header_size_def split: outcome.splits)

end
