(* ===== verification/Rust_Text.thy ===== *)
theory Rust_Text
  imports Core_Types "HOL-Library.Char_ord"
begin

text \<open>
  The text functions of the Rust standard library that the Linux readers use: splitting into
  lines and words, trimming, and parsing and printing numbers. A text is a list of characters with
  code points below 256; the files of \<^verbatim>\<open>/proc\<close> and \<^verbatim>\<open>/sys\<close> are ASCII. The main facts are the round trips
  of printing and parsing and how the splitting functions act on concatenations, from which the
  parsers of the readers are verified.
\<close>

section \<open>Splitting\<close>

text \<open>\<^verbatim>\<open>char::is_whitespace\<close> below code point 256.\<close>

definition is_whitespace :: "char \<Rightarrow> bool" where
  "is_whitespace c \<longleftrightarrow> (let n = of_char c :: nat in 9 \<le> n \<and> n \<le> 13 \<or> n = 32 \<or> n = 133 \<or> n = 160)"

definition trim :: "string \<Rightarrow> string" where
  "trim s = rev (dropWhile is_whitespace (rev (dropWhile is_whitespace s)))"

function split_whitespace :: "string \<Rightarrow> string list" where
  "split_whitespace [] = []"
| "split_whitespace (c # cs) = (if is_whitespace c then split_whitespace cs
     else (c # takeWhile (\<lambda>d. \<not> is_whitespace d) cs) # split_whitespace (dropWhile (\<lambda>d. \<not> is_whitespace d) cs))"
  by pat_completeness auto
termination by (relation "measure length") (auto simp: length_dropWhile_le less_Suc_eq_le)

definition split_once :: "char \<Rightarrow> string \<Rightarrow> (string \<times> string) option" where
  "split_once d s = (case dropWhile (\<lambda>c. c \<noteq> d) s of [] \<Rightarrow> None | _ # rest \<Rightarrow> Some (takeWhile (\<lambda>c. c \<noteq> d) s, rest))"

abbreviation newline :: char where
  "newline \<equiv> CHR 0x0A"

text \<open>A line that ends in \<^verbatim>\<open>\r\n\<close> loses both characters; the last line need not end in a newline.\<close>

definition strip_cr :: "string \<Rightarrow> string" where
  "strip_cr l = (if l \<noteq> [] \<and> last l = CHR 0x0D then butlast l else l)"

lemma dropWhile_tl_length: "dropWhile P s = c # rest \<Longrightarrow> length rest < length s"
  by (metis length_Cons length_dropWhile_le less_eq_Suc_le)

function lines :: "string \<Rightarrow> string list" where
  "lines s = (if s = [] then [] else case dropWhile (\<lambda>c. c \<noteq> newline) s of
       [] \<Rightarrow> [s]
     | _ # rest \<Rightarrow> strip_cr (takeWhile (\<lambda>c. c \<noteq> newline) s) # lines rest)"
  by pat_completeness auto
termination by (relation "measure length") (auto dest: dropWhile_tl_length)

declare lines.simps [simp del]

definition starts_with :: "string \<Rightarrow> string \<Rightarrow> bool" where
  "starts_with p s \<longleftrightarrow> take (length p) s = p"

definition strip_prefix :: "string \<Rightarrow> string \<Rightarrow> string option" where
  "strip_prefix p s = (if starts_with p s then Some (drop (length p) s) else None)"

fun contains :: "string \<Rightarrow> string \<Rightarrow> bool" where
  "contains p [] \<longleftrightarrow> p = []"
| "contains p (c # cs) \<longleftrightarrow> starts_with p (c # cs) \<or> contains p cs"

text \<open>\<^verbatim>\<open>to_lowercase\<close> on the ASCII letters, the ones the sources compare with.\<close>

definition to_lowercase :: "string \<Rightarrow> string" where
  "to_lowercase s = map (\<lambda>c. if CHR ''A'' \<le> c \<and> c \<le> CHR ''Z'' then char_of (of_char c + 32 :: nat) else c) s"

section \<open>Integers\<close>

datatype parse_int_error = IntEmpty | InvalidDigit | PosOverflow | NegOverflow

fun parse_int_error_display :: "parse_int_error \<Rightarrow> string" where
  "parse_int_error_display IntEmpty = ''cannot parse integer from empty string''"
| "parse_int_error_display InvalidDigit = ''invalid digit found in string''"
| "parse_int_error_display PosOverflow = ''number too large to fit in target type''"
| "parse_int_error_display NegOverflow = ''number too small to fit in target type''"

text \<open>\<^verbatim>\<open>char::to_digit\<close> for the radices ten and sixteen.\<close>

definition to_digit :: "nat \<Rightarrow> char \<Rightarrow> nat option" where
  "to_digit radix c = (let n = of_char c :: nat;
       d = (if 48 \<le> n \<and> n \<le> 57 then n - 48 else if 97 \<le> n \<and> n \<le> 122 then n - 87
            else if 65 \<le> n \<and> n \<le> 90 then n - 55 else radix)
     in if d < radix then Some d else None)"

fun parse_digits :: "nat \<Rightarrow> nat \<Rightarrow> nat \<Rightarrow> string \<Rightarrow> (nat, parse_int_error) outcome" where
  "parse_digits radix bound acc [] = Ok acc"
| "parse_digits radix bound acc (c # cs) = (case to_digit radix c of
       None \<Rightarrow> Err InvalidDigit
     | Some d \<Rightarrow> if acc * radix + d < bound then parse_digits radix bound (acc * radix + d) cs else Err PosOverflow)"

text \<open>\<^verbatim>\<open>from_str_radix\<close> of an unsigned type with values below \<open>bound\<close>; \<^verbatim>\<open>parse\<close> is the one of radix ten.\<close>

definition from_str_radix :: "nat \<Rightarrow> nat \<Rightarrow> string \<Rightarrow> (nat, parse_int_error) outcome" where
  "from_str_radix radix bound s = (case s of
       [] \<Rightarrow> Err IntEmpty
     | c # cs \<Rightarrow> if cs = [] \<and> c \<in> {CHR ''+'', CHR ''-''} then Err InvalidDigit
         else if c = CHR ''+'' then parse_digits radix bound 0 cs else parse_digits radix bound 0 s)"

definition parse_u64 :: "string \<Rightarrow> (u64, parse_int_error) outcome" where
  "parse_u64 s = (case from_str_radix 10 (2 ^ 64) s of Ok n \<Rightarrow> Ok (of_nat n) | Err e \<Rightarrow> Err e | Panic \<Rightarrow> Panic)"

definition parse_u32 :: "string \<Rightarrow> (u32, parse_int_error) outcome" where
  "parse_u32 s = (case from_str_radix 10 (2 ^ 32) s of Ok n \<Rightarrow> Ok (of_nat n) | Err e \<Rightarrow> Err e | Panic \<Rightarrow> Panic)"

definition parse_i32 :: "string \<Rightarrow> (int, parse_int_error) outcome" where
  "parse_i32 s = (case s of
       [] \<Rightarrow> Err IntEmpty
     | c # cs \<Rightarrow> if cs = [] \<and> c \<in> {CHR ''+'', CHR ''-''} then Err InvalidDigit
         else if c = CHR ''-'' then
           (case parse_digits 10 (2 ^ 31 + 1) 0 cs of Ok n \<Rightarrow> Ok (- int n) | Err PosOverflow \<Rightarrow> Err NegOverflow | Err e \<Rightarrow> Err e | Panic \<Rightarrow> Panic)
         else (case parse_digits 10 (2 ^ 31) 0 (if c = CHR ''+'' then cs else s) of Ok n \<Rightarrow> Ok (int n) | Err e \<Rightarrow> Err e | Panic \<Rightarrow> Panic))"

fun ok :: "('a, 'e) outcome \<Rightarrow> 'a option" where
  "ok (Ok a) = Some a"
| "ok (Err e) = None"
| "ok Panic = None"

text \<open>The \<^verbatim>\<open>Display\<close> of an integer.\<close>

fun decimal :: "nat \<Rightarrow> string" where
  "decimal n = (if n < 10 then [char_of (48 + n)] else decimal (n div 10) @ [char_of (48 + n mod 10)])"

declare decimal.simps [simp del]

definition decimal_int :: "int \<Rightarrow> string" where
  "decimal_int i = (if i < 0 then CHR ''-'' # decimal (nat (- i)) else decimal (nat i))"

section \<open>Floating point numbers\<close>

definition is_digit :: "char \<Rightarrow> bool" where
  "is_digit c \<longleftrightarrow> to_digit 10 c \<noteq> None"

definition digits_value :: "string \<Rightarrow> nat" where
  "digits_value s = foldl (\<lambda>a c. a * 10 + the (to_digit 10 c)) 0 s"

definition parse_exponent :: "string \<Rightarrow> int option" where
  "parse_exponent s = (let (neg, ds) = (case s of c # cs \<Rightarrow> if c = CHR ''-'' then (True, cs) else if c = CHR ''+'' then (False, cs) else (False, s)
                                        | [] \<Rightarrow> (False, []))
     in if ds \<noteq> [] \<and> list_all is_digit ds then Some (if neg then - int (digits_value ds) else int (digits_value ds)) else None)"

text \<open>
  \<^verbatim>\<open>f64::from_str\<close> after the sign: a name of a special value, or digits with an optional fraction and
  an optional exponent, at least one digit before the exponent; the value is rounded once.
\<close>

definition parse_magnitude :: "string \<Rightarrow> fl option" where
  "parse_magnitude s =
     (if to_lowercase s \<in> {''inf'', ''infinity''} then Some PInf
      else if to_lowercase s = ''nan'' then Some NaN
      else let ip = takeWhile is_digit s; r1 = dropWhile is_digit s;
               (fp, r2) = (if r1 \<noteq> [] \<and> hd r1 = CHR ''.'' then (takeWhile is_digit (tl r1), dropWhile is_digit (tl r1)) else ([], r1));
               m = (of_nat (digits_value (ip @ fp)) :: rat) / 10 ^ length fp
           in if ip @ fp = [] then None
              else if r2 = [] then Some (rnd binary64 m)
              else if hd r2 \<in> {CHR ''e'', CHR ''E''} then map_option (\<lambda>e. rnd binary64 (m * 10 powi e)) (parse_exponent (tl r2))
              else None)"

definition parse_f64 :: "string \<Rightarrow> f64 option" where
  "parse_f64 s = (case s of [] \<Rightarrow> None
     | c # cs \<Rightarrow> if c = CHR ''-'' then map_option fneg (parse_magnitude cs)
         else if c = CHR ''+'' then parse_magnitude cs else parse_magnitude s)"

section \<open>Round trips\<close>

lemma of_char_digit [simp]: "d < 10 \<Longrightarrow> of_char (char_of (48 + d :: nat) :: char) = 48 + d"
  by simp

lemma to_digit_digit [simp]: "d < 10 \<Longrightarrow> to_digit 10 (char_of (48 + d :: nat)) = Some d"
  by (simp add: to_digit_def Let_def)

lemma decimal_induct [case_names digit more]:
  assumes "\<And>n. n < 10 \<Longrightarrow> P n [char_of (48 + n)]"
    and "\<And>n. \<not> n < 10 \<Longrightarrow> P (n div 10) (decimal (n div 10)) \<Longrightarrow> P n (decimal (n div 10) @ [char_of (48 + n mod 10)])"
  shows "P n (decimal n)"
proof (induction n rule: less_induct)
  case (less n)
  show ?case
  proof (cases "n < 10")
    case True then show ?thesis using assms(1) [of n] by (simp add: decimal.simps [of n])
  next
    case False
    with less assms(2) [of n] show ?thesis by (simp add: decimal.simps [of n])
  qed
qed

lemma decimal_nonempty [simp]: "decimal n \<noteq> []"
  by (simp add: decimal.simps [of n])

lemma takeWhile_until [simp]: "d \<notin> set k \<Longrightarrow> takeWhile (\<lambda>c. c \<noteq> d) (k @ d # v) = k"
  by (induction k) auto

lemma dropWhile_until [simp]: "d \<notin> set k \<Longrightarrow> dropWhile (\<lambda>c. c \<noteq> d) (k @ d # v) = d # v"
  by (induction k) auto

lemma digit_facts:
  "d < 10 \<Longrightarrow> is_digit (char_of (48 + d :: nat)) \<and> \<not> is_whitespace (char_of (48 + d)) \<and> (char_of (48 + d) :: char) \<notin> {CHR ''+'', CHR ''-'', CHR '':'', newline, CHR 0x0D}"
proof -
  assume d: "d < 10"
  then have n: "of_char (char_of (48 + d) :: char) = 48 + d" by (rule of_char_digit)
  then have ne: "char_of (48 + d) \<noteq> c" if "of_char c < (48 :: nat) \<or> 57 < (of_char c :: nat)" for c :: char
    using that d by auto
  from d n have "is_digit (char_of (48 + d))" "\<not> is_whitespace (char_of (48 + d))"
    by (simp_all add: is_digit_def is_whitespace_def Let_def del: of_char_digit of_char_of)
  with ne show ?thesis by simp
qed

lemma decimal_chars: "list_all (\<lambda>c. is_digit c \<and> \<not> is_whitespace c \<and> c \<notin> {CHR ''+'', CHR ''-'', CHR '':'', newline, CHR 0x0D}) (decimal n)"
  by (induction rule: decimal_induct) (use digit_facts in \<open>auto simp del: of_char_digit\<close>)

lemma parse_digits_append:
  "parse_digits radix bound acc (s @ t) = (case parse_digits radix bound acc s of Ok a \<Rightarrow> parse_digits radix bound a t | Err e \<Rightarrow> Err e | Panic \<Rightarrow> Panic)"
  by (induction s arbitrary: acc) (auto split: option.split)

lemma parse_digits_decimal: "n < bound \<Longrightarrow> parse_digits 10 bound 0 (decimal n) = Ok n"
proof (induction n rule: less_induct)
  case (less n)
  then show ?case by (cases "n < 10") (simp_all add: decimal.simps [of n] parse_digits_append)
qed

lemma decimal_hd: "hd (decimal n) \<notin> {CHR ''+'', CHR ''-''}"
  using decimal_chars [of n] by (metis (no_types, lifting) decimal_nonempty insert_iff list.collapse list.pred_inject(2))

lemma from_str_radix_decimal: "n < bound \<Longrightarrow> from_str_radix 10 bound (decimal n) = Ok n"
  using decimal_hd [of n] parse_digits_decimal [of n bound]
  by (auto simp: from_str_radix_def split: list.split)

lemma parse_u64_decimal [simp]: "parse_u64 (decimal (unat v)) = Ok v"
proof -
  have "unat v < 2 ^ 64" using unsigned_less [of v] by simp
  then show ?thesis by (simp add: parse_u64_def from_str_radix_decimal)
qed

lemma parse_i32_decimal:
  assumes "- (2 ^ 31) \<le> i" "i < 2 ^ 31"
  shows "parse_i32 (decimal_int i) = Ok i"
proof (cases "i < 0")
  case True
  with assms have "nat (- i) < 2 ^ 31 + 1" by simp
  from parse_digits_decimal [OF this] True show ?thesis by (simp add: parse_i32_def decimal_int_def)
next
  case False
  with assms have "nat i < 2 ^ 31" by simp
  from parse_digits_decimal [OF this] False decimal_hd [of "nat i"] show ?thesis
    by (auto simp: parse_i32_def decimal_int_def split: list.split)
qed

section \<open>Splitting a concatenation\<close>

definition is_word :: "string \<Rightarrow> bool" where
  "is_word w \<longleftrightarrow> w \<noteq> [] \<and> list_all (\<lambda>c. \<not> is_whitespace c) w"

definition is_blank :: "string \<Rightarrow> bool" where
  "is_blank s \<longleftrightarrow> list_all is_whitespace s"

lemma is_word_decimal [simp]: "is_word (decimal n)"
  using decimal_chars [of n] by (simp add: is_word_def list_all_iff)

lemma split_whitespace_blank: "is_blank b \<Longrightarrow> split_whitespace (b @ s) = split_whitespace s"
  by (induction b) (simp_all add: is_blank_def)

lemma split_whitespace_word:
  assumes "is_word w" "b \<noteq> [] \<Longrightarrow> is_whitespace (hd b)"
  shows "split_whitespace (w @ b) = w # split_whitespace b"
proof -
  obtain c cs where w: "w = c # cs" "\<not> is_whitespace c" "list_all (\<lambda>c. \<not> is_whitespace c) cs"
    using assms(1) by (cases w) (auto simp: is_word_def)
  have "takeWhile (\<lambda>d. \<not> is_whitespace d) b = []" "dropWhile (\<lambda>d. \<not> is_whitespace d) b = b"
    using assms(2) by (cases b; simp)+
  with w show ?thesis by (simp add: list_all_iff takeWhile_append2 dropWhile_append2)
qed

lemma is_whitespace_space [simp]: "is_whitespace (CHR '' '')" "is_whitespace (CHR 0x09)" "is_whitespace newline" "is_whitespace (CHR 0x0D)"
  by (simp_all add: is_whitespace_def)

lemma split_whitespace_sep:
  "is_word w \<Longrightarrow> is_whitespace c \<Longrightarrow> split_whitespace (w @ c # s) = w # split_whitespace s"
  by (subst split_whitespace_word) simp_all

lemma split_whitespace_end: "is_word w \<Longrightarrow> split_whitespace w = [w]"
  using split_whitespace_word [of w "[]"] by simp

lemma lines_Cons:
  assumes "newline \<notin> set l" shows "lines (l @ newline # s) = strip_cr l # lines s"
  using assms by (subst lines.simps) simp

lemma lines_Nil [simp]: "lines [] = []"
  by (simp add: lines.simps)

definition is_line :: "string \<Rightarrow> bool" where
  "is_line l \<longleftrightarrow> newline \<notin> set l \<and> CHR 0x0D \<notin> set l"

lemma lines_concat: "list_all is_line ls \<Longrightarrow> lines (concat (map (\<lambda>l. l @ [newline]) ls)) = ls"
proof (induction ls)
  case (Cons l ls)
  then have "strip_cr l = l" by (auto simp: strip_cr_def is_line_def dest: last_in_set)
  with Cons show ?case using lines_Cons [of l "concat (map (\<lambda>l. l @ [newline]) ls)"] by (simp add: is_line_def)
qed simp

lemma is_line_append [simp]: "is_line (a @ b) \<longleftrightarrow> is_line a \<and> is_line b"
  by (auto simp: is_line_def)

lemma is_line_Cons: "is_line (c # s) \<longleftrightarrow> c \<noteq> newline \<and> c \<noteq> CHR 0x0D \<and> is_line s"
  by (auto simp: is_line_def)

lemma is_line_Nil [simp]: "is_line []"
  by (simp add: is_line_def)

lemma is_line_decimal [simp]: "is_line (decimal n)"
  using decimal_chars [of n] by (auto simp: is_line_def list_all_iff)

lemma split_once_sep: "d \<notin> set k \<Longrightarrow> split_once d (k @ d # v) = Some (k, v)"
  by (simp add: split_once_def)

lemma dropWhile_blank: "is_blank a \<Longrightarrow> \<not> is_whitespace (hd s) \<Longrightarrow> s \<noteq> [] \<Longrightarrow> dropWhile is_whitespace (a @ s) = s"
  by (induction a) (auto simp: is_blank_def neq_Nil_conv)

lemma trim_padded:
  assumes "is_blank a" "is_blank b" "s \<noteq> []" "\<not> is_whitespace (hd s)" "\<not> is_whitespace (last s)"
  shows "trim (a @ s @ b) = s"
proof -
  have "dropWhile is_whitespace (a @ s @ b) = s @ b" using assms by (intro dropWhile_blank) simp_all
  moreover have "dropWhile is_whitespace (rev b @ rev s) = rev s"
    using assms by (intro dropWhile_blank) (simp_all add: is_blank_def hd_rev)
  ultimately show ?thesis by (simp add: trim_def)
qed

lemma trim_word: "is_word w \<Longrightarrow> trim w = w"
  using trim_padded [of "[]" "[]" w] by (simp add: is_word_def is_blank_def list_all_iff)

lemma split_whitespace_append:
  "is_whitespace c \<Longrightarrow> split_whitespace (a @ c # b) = split_whitespace a @ split_whitespace b"
proof (induction a rule: split_whitespace.induct)
  case (2 d ds)
  have "takeWhile (\<lambda>d. \<not> is_whitespace d) (ds @ c # b) = takeWhile (\<lambda>d. \<not> is_whitespace d) ds"
    "dropWhile (\<lambda>d. \<not> is_whitespace d) (ds @ c # b) = dropWhile (\<lambda>d. \<not> is_whitespace d) ds @ c # b"
    using 2(3) by (induction ds) auto
  with 2 show ?case by auto
qed simp

lemma split_whitespace_trailing: "is_blank b \<Longrightarrow> split_whitespace (s @ b) = split_whitespace s"
  using split_whitespace_blank [of "tl b" "[]"]
  by (cases b) (auto simp: split_whitespace_append is_blank_def)

lemma split_whitespace_trim [simp]: "split_whitespace (trim s) = split_whitespace s"
proof -
  let ?t = "dropWhile is_whitespace s"
  let ?b = "rev (takeWhile is_whitespace (rev ?t))"
  have "is_blank ?b" by (auto simp: is_blank_def list_all_iff dest: set_takeWhileD)
  moreover have "trim s @ ?b = ?t"
    unfolding trim_def by (metis rev_append rev_rev_ident takeWhile_dropWhile_id)
  ultimately have "split_whitespace (trim s) = split_whitespace ?t"
    by (metis split_whitespace_trailing)
  moreover have "is_blank (takeWhile is_whitespace s)" by (auto simp: is_blank_def list_all_iff dest: set_takeWhileD)
  ultimately show ?thesis by (metis split_whitespace_blank takeWhile_dropWhile_id)
qed

text \<open>The definitions that evaluate the parsing of a given text.\<close>

lemmas text_eval = is_whitespace_def split_once_def parse_f64_def parse_magnitude_def to_lowercase_def
  is_digit_def to_digit_def digits_value_def parse_u64_def from_str_radix_def

end
