(* ===== verification/Sim_Backend.thy ===== *)
theory Sim_Backend
  imports Io_Scheduler Ram_Backend Hotness Rust_Text
begin

text \<open>
  \<^verbatim>\<open>ghost-tier/src/sim_config.rs\<close>, \<^verbatim>\<open>sim_metrics.rs\<close> and \<^verbatim>\<open>sim_backend.rs\<close>: a backend in memory that injects
  latency and failures. Its random numbers come from a generator that the seed determines: \<open>rng_f64 g k\<close> and
  \<open>rng_range g k n\<close> are the \<open>k\<close>-th draw, made for a fraction or for a number up to \<open>n\<close>. A duration is in
  nanoseconds; sleeping has no effect on the state, but other calls may run meanwhile and the sleeping call may be
  dropped. Each call is therefore split at its \<^verbatim>\<open>await\<close> into the part before the sleep and the part after it, which
  run without interruption (the runtime is taken to have one thread). A sleep of length zero, which the code skips, may be
  interrupted in the model too; the integrity and health checks, which sleep but issue no request, are single steps. The theory shows which I/O requests are pending
  under every interleaving and cancellation of calls, that calls made one after the other leave none, and that
  without injected failures such a client cannot tell the backend from the RAM backend.
\<close>

section \<open>Configuration\<close>

record latency_config =
  lat_base :: nat
  lat_per_byte :: nat
  jitter_fraction :: f64

definition latency_default :: latency_config where
  "latency_default = \<lparr>lat_base = 10000, lat_per_byte = 1, jitter_fraction = f64_lit (1 / 10)\<rparr>"

datatype failure_pattern = RandomFailures | BurstFailures | DegradingFailures | IntermittentFailures | CascadingFailures

record failure_config =
  write_failure_rate :: f64
  read_failure_rate :: f64
  alloc_failure_rate :: f64
  corruption_on_failure :: bool
  corruption_rate :: f64
  timeout_rate :: f64
  device_loss_rate :: f64
  failure_pattern :: failure_pattern

definition failure_default :: failure_config where
  "failure_default = \<lparr>write_failure_rate = f64_lit 0, read_failure_rate = f64_lit 0, alloc_failure_rate = f64_lit 0, corruption_on_failure = False,
     corruption_rate = f64_lit 0, timeout_rate = f64_lit 0, device_loss_rate = f64_lit 0, failure_pattern = RandomFailures\<rparr>"

record sim_config =
  sim_capacity :: usize
  sim_latency :: latency_config
  sim_bandwidth :: usize
  sim_failure :: failure_config
  sim_seed :: u64
  max_concurrent_ops :: usize
  simulate_fragmentation :: bool
  fragmentation_factor :: f64

definition sim_config_default :: sim_config where
  "sim_config_default = \<lparr>sim_capacity = 1073741824, sim_latency = latency_default, sim_bandwidth = 104857600, sim_failure = failure_default,
     sim_seed = 42, max_concurrent_ops = 64, simulate_fragmentation = False, fragmentation_factor = f64_lit 0\<rparr>"

definition sim_with_capacity :: "usize \<Rightarrow> sim_config" where
  "sim_with_capacity n = sim_config_default\<lparr>sim_capacity := n\<rparr>"

definition sim_with_seed :: "u64 \<Rightarrow> sim_config \<Rightarrow> sim_config" where
  "sim_with_seed n c = c\<lparr>sim_seed := n\<rparr>"

definition sim_with_latency :: "latency_config \<Rightarrow> sim_config \<Rightarrow> sim_config" where
  "sim_with_latency l c = c\<lparr>sim_latency := l\<rparr>"

definition sim_with_bandwidth :: "usize \<Rightarrow> sim_config \<Rightarrow> sim_config" where
  "sim_with_bandwidth n c = c\<lparr>sim_bandwidth := n\<rparr>"

definition sim_with_failure :: "failure_config \<Rightarrow> sim_config \<Rightarrow> sim_config" where
  "sim_with_failure f c = c\<lparr>sim_failure := f\<rparr>"

definition sim_with_fragmentation :: "f64 \<Rightarrow> sim_config \<Rightarrow> sim_config" where
  "sim_with_fragmentation x c = c\<lparr>simulate_fragmentation := True, fragmentation_factor := clamp01 x\<rparr>"

definition sim_with_failure_pattern :: "failure_pattern \<Rightarrow> sim_config \<Rightarrow> sim_config" where
  "sim_with_failure_pattern p c = c\<lparr>sim_failure := (sim_failure c)\<lparr>failure_pattern := p\<rparr>\<rparr>"

definition sim_with_corruption_rate :: "f64 \<Rightarrow> sim_config \<Rightarrow> sim_config" where
  "sim_with_corruption_rate x c = c\<lparr>sim_failure := (sim_failure c)\<lparr>corruption_rate := clamp01 x\<rparr>\<rparr>"

definition sim_with_timeout_rate :: "f64 \<Rightarrow> sim_config \<Rightarrow> sim_config" where
  "sim_with_timeout_rate x c = c\<lparr>sim_failure := (sim_failure c)\<lparr>timeout_rate := clamp01 x\<rparr>\<rparr>"

definition sim_with_device_loss_rate :: "f64 \<Rightarrow> sim_config \<Rightarrow> sim_config" where
  "sim_with_device_loss_rate x c = c\<lparr>sim_failure := (sim_failure c)\<lparr>device_loss_rate := clamp01 x\<rparr>\<rparr>"

section \<open>Metrics\<close>

record sim_metrics =
  sm_allocs :: u64
  sm_deallocs :: u64
  sm_writes :: u64
  sm_reads :: u64
  sm_failures :: u64
  sm_bytes_allocated :: u64
  sm_bytes_deallocated :: u64
  sm_bytes_written :: u64
  sm_bytes_read :: u64
  sm_latency_us :: u64

definition sim_metrics_new :: sim_metrics where
  "sim_metrics_new = \<lparr>sm_allocs = 0, sm_deallocs = 0, sm_writes = 0, sm_reads = 0, sm_failures = 0, sm_bytes_allocated = 0,
     sm_bytes_deallocated = 0, sm_bytes_written = 0, sm_bytes_read = 0, sm_latency_us = 0\<rparr>"

text \<open>Atomic additions wrap.\<close>

definition sm_record_alloc :: "usize \<Rightarrow> sim_metrics \<Rightarrow> sim_metrics" where
  "sm_record_alloc n m = m\<lparr>sm_allocs := sm_allocs m + 1, sm_bytes_allocated := sm_bytes_allocated m + n\<rparr>"

definition sm_record_dealloc :: "usize \<Rightarrow> sim_metrics \<Rightarrow> sim_metrics" where
  "sm_record_dealloc n m = m\<lparr>sm_deallocs := sm_deallocs m + 1, sm_bytes_deallocated := sm_bytes_deallocated m + n\<rparr>"

definition sm_record_write :: "nat \<Rightarrow> sim_metrics \<Rightarrow> sim_metrics" where
  "sm_record_write n m = m\<lparr>sm_writes := sm_writes m + 1, sm_bytes_written := sm_bytes_written m + of_nat n\<rparr>"

definition sm_record_read :: "nat \<Rightarrow> sim_metrics \<Rightarrow> sim_metrics" where
  "sm_record_read n m = m\<lparr>sm_reads := sm_reads m + 1, sm_bytes_read := sm_bytes_read m + of_nat n\<rparr>"

definition sm_record_failure :: "sim_metrics \<Rightarrow> sim_metrics" where
  "sm_record_failure m = m\<lparr>sm_failures := sm_failures m + 1\<rparr>"

definition sm_record_latency :: "u64 \<Rightarrow> sim_metrics \<Rightarrow> sim_metrics" where
  "sm_record_latency us m = m\<lparr>sm_latency_us := sm_latency_us m + us\<rparr>"

definition avg_latency_us :: "profile \<Rightarrow> sim_metrics \<Rightarrow> (f64, backend_error) outcome" where
  "avg_latency_us pr m = fst (bind_act (lift_outcome (add_pr pr (sm_allocs m) (sm_deallocs m))) (\<lambda>a.
     bind_act (lift_outcome (add_pr pr a (sm_writes m))) (\<lambda>b.
     bind_act (lift_outcome (add_pr pr b (sm_reads m))) (\<lambda>total_ops.
     ret (if total_ops = 0 then f64_lit 0 else fdiv binary64 (of_word binary64 (sm_latency_us m)) (of_word binary64 total_ops))))) ())"

definition sim_metrics_reset :: "sim_metrics \<Rightarrow> sim_metrics" where
  "sim_metrics_reset m = m\<lparr>sm_allocs := 0, sm_deallocs := 0, sm_writes := 0, sm_reads := 0, sm_failures := 0, sm_bytes_allocated := 0,
     sm_bytes_deallocated := 0, sm_bytes_written := 0, sm_bytes_read := 0, sm_latency_us := 0\<rparr>"

section \<open>The backend\<close>

record rng =
  rng_f64 :: "nat \<Rightarrow> f64"
  rng_range :: "nat \<Rightarrow> u64 \<Rightarrow> u64"

record sim_backend =
  sb_config :: sim_config
  sb_storage :: "(usize, bytes) btree"
  sb_next_offset :: u64
  sb_used :: u64
  sb_rng :: rng
  sb_draws :: nat
  sb_metrics :: sim_metrics
  sb_allocated :: "usize fset"
  sb_io :: io_scheduler

type_synonym 'a sim_act = "(sim_backend, 'a, backend_error) act"

text \<open>The receiver of the channel that the I/O events go to is dropped when the constructor returns: there is never room.\<close>

definition sim_backend_new :: "(u64 \<Rightarrow> rng) \<Rightarrow> (nat \<Rightarrow> instant) \<Rightarrow> (nat \<Rightarrow> instant) \<Rightarrow> (nat \<Rightarrow> u64) \<Rightarrow> sim_config \<Rightarrow> sim_backend" where
  "sim_backend_new seeded now wall secs c = \<lparr>sb_config = c, sb_storage = fmempty, sb_next_offset = 0, sb_used = 0, sb_rng = seeded (sim_seed c),
     sb_draws = 0, sb_metrics = sim_metrics_new, sb_allocated = {||}, sb_io = io_scheduler_new now wall secs (\<lambda>_. False) emitter_new 64\<rparr>"

definition on_io :: "'a io_act \<Rightarrow> 'a sim_act" where
  "on_io m = map_err_act (\<lambda>e. InternalFailure (ghost_error_display e)) (on_part sb_io (\<lambda>io b. b\<lparr>sb_io := io\<rparr>) m)"

definition on_metrics :: "(sim_metrics \<Rightarrow> sim_metrics) \<Rightarrow> unit sim_act" where
  "on_metrics f = update_act (\<lambda>b. b\<lparr>sb_metrics := f (sb_metrics b)\<rparr>)"

definition saturating_mul :: "u64 \<Rightarrow> u64 \<Rightarrow> u64" where
  "saturating_mul a b = (if unat a * unat b < 2 ^ 64 then a * b else - 1)"

text \<open>\<^verbatim>\<open>as_micros() as u64\<close>\<close>

definition micros :: "nat \<Rightarrow> u64" where
  "micros ns = of_nat (ns div 1000)"

definition total_latency :: "latency_config \<Rightarrow> nat \<Rightarrow> u64" where
  "total_latency l n = saturating_add (micros (lat_base l)) (saturating_mul (micros (lat_per_byte l)) (of_nat n))"

text \<open>\<^verbatim>\<open>simulate_latency\<close> up to the sleep, whose length in microseconds it returns, and after it.\<close>

definition latency_begin :: "nat \<Rightarrow> u64 sim_act" where
  "latency_begin n b =
     (let l = sim_latency (sb_config b); total_us = total_latency l n;
          jitter_range = to_u64 (fmul binary64 (of_word binary64 total_us) (jitter_fraction l));
          drawn = fgt (jitter_fraction l) (f64_lit 0) \<and> total_us > 0 \<and> jitter_range > 0;
          jitter = (if drawn then rng_range (sb_rng b) (sb_draws b) jitter_range else 0)
      in (Ok (saturating_add total_us jitter), b\<lparr>sb_draws := (if drawn then Suc (sb_draws b) else sb_draws b)\<rparr>))"

definition latency_end :: "u64 \<Rightarrow> unit sim_act" where
  "latency_end delay = on_metrics (sm_record_latency delay)"

definition simulate_latency :: "nat \<Rightarrow> unit sim_act" where
  "simulate_latency n = bind_act (latency_begin n) latency_end"

datatype sim_operation = SimWrite | SimRead | SimAlloc

fun failure_rate :: "sim_operation \<Rightarrow> failure_config \<Rightarrow> f64" where
  "failure_rate SimWrite f = write_failure_rate f"
| "failure_rate SimRead f = read_failure_rate f"
| "failure_rate SimAlloc f = alloc_failure_rate f"

definition should_fail :: "sim_operation \<Rightarrow> bool sim_act" where
  "should_fail op b =
     (let rate = failure_rate op (sim_failure (sb_config b)) in
      if fle rate (f64_lit 0) then (Ok False, b)
      else if fle (f64_lit 1) rate then (Ok True, b)
      else (Ok (flt (rng_f64 (sb_rng b) (sb_draws b)) rate), b\<lparr>sb_draws := Suc (sb_draws b)\<rparr>))"

fun ffloor :: "fl \<Rightarrow> fl" where
  "ffloor (Fin x) = Fin (of_int \<lfloor>x\<rfloor>)"
| "ffloor x = x"

definition effective_available :: "sim_backend \<Rightarrow> usize" where
  "effective_available b =
     (let c = sb_config b; raw = saturating_sub (sim_capacity c) (sb_used b) in
      if \<not> simulate_fragmentation c \<or> fle (fragmentation_factor c) (f64_lit 0) then raw
      else to_u64 (ffloor (fmul binary64 (of_word binary64 raw) (fsub binary64 (f64_lit 1) (fragmentation_factor c)))))"

definition sim_memory_pressure :: "sim_backend \<Rightarrow> f64" where
  "sim_memory_pressure b =
     (let cap = of_word binary64 (sim_capacity (sb_config b)) in
      if fle cap (f64_lit 0) then f64_lit 1 else clamp01 (fdiv binary64 (of_word binary64 (sb_used b)) cap))"

text \<open>\<open>uptime\<close> is the time since the backend was created, in seconds, by the real clock.\<close>

definition sim_io_pressure :: "profile \<Rightarrow> f64 \<Rightarrow> sim_backend \<Rightarrow> (f64, backend_error) outcome" where
  "sim_io_pressure pr uptime b =
     (let bps = of_word binary64 (sim_bandwidth (sb_config b)) in
      if fle bps (f64_lit 0) then Ok (f64_lit 1)
      else if fle uptime (f64_lit 0) then Ok (f64_lit 0)
      else (case add_pr pr (sm_bytes_written (sb_metrics b)) (sm_bytes_read (sb_metrics b)) of
          Ok moved \<Rightarrow> Ok (clamp01 (fdiv binary64 (fdiv binary64 (of_word binary64 moved) uptime) bps))
        | Err e \<Rightarrow> Err e
        | Panic \<Rightarrow> Panic))"

definition sim_allocate_begin :: "usize \<Rightarrow> u64 sim_act" where
  "sim_allocate_begin n = (if n = 0 then fail (InternalFailure [Lit ''allocation size must be greater than zero'']) else latency_begin 0)"

definition sim_allocate_finish :: "usize \<Rightarrow> u64 \<Rightarrow> allocation sim_act" where
  "sim_allocate_finish n delay =
     bind_act (latency_end delay) (\<lambda>_.
     bind_act (should_fail SimAlloc) (\<lambda>f.
     if f then bind_act (on_metrics sm_record_failure) (\<lambda>_. fail (InternalFailure [Lit ''simulated allocation failure'']))
     else (\<lambda>b. let avail = effective_available b in
       if n > avail then fail (InsufficientSpace n avail) b
       else (let off = sb_next_offset b in
         bind_act (update_act (\<lambda>b. b\<lparr>sb_next_offset := off + n, sb_used := sb_used b + n, sb_allocated := finsert off (sb_allocated b)\<rparr>)) (\<lambda>_.
         bind_act (on_metrics (sm_record_alloc n)) (\<lambda>_.
         ret (allocation_new off n 0))) b))))"

definition sim_allocate :: "usize \<Rightarrow> allocation sim_act" where
  "sim_allocate n = bind_act (sim_allocate_begin n) (sim_allocate_finish n)"

definition sim_deallocate_finish :: "allocation \<Rightarrow> u64 \<Rightarrow> unit sim_act" where
  "sim_deallocate_finish a delay =
     bind_act (latency_end delay) (\<lambda>_ b.
       if offset a |\<notin>| sb_allocated b then fail (AllocationNotFound (offset a)) b
       else bind_act (update_act (\<lambda>b. b\<lparr>sb_allocated := sb_allocated b |-| {|offset a|}, sb_storage := fmdrop (offset a) (sb_storage b),
              sb_used := sb_used b - alloc_size a\<rparr>)) (\<lambda>_.
            on_metrics (sm_record_dealloc (alloc_size a))) b)"

definition sim_deallocate :: "allocation \<Rightarrow> unit sim_act" where
  "sim_deallocate a = bind_act (latency_begin 0) (sim_deallocate_finish a)"

text \<open>The chunk identifier under which the I/O of an allocation is tracked.\<close>

definition offset_chunk :: "(bytes \<Rightarrow> bytes) \<Rightarrow> allocation \<Rightarrow> chunk_id" where
  "offset_chunk hash a = from_data hash (map of_char (''offset-'' @ decimal (unat (offset a))))"

text \<open>A sleeping write or read holds the number of its I/O request and the length of the sleep.\<close>

definition sim_write_begin :: "(bytes \<Rightarrow> bytes) \<Rightarrow> allocation \<Rightarrow> bytes \<Rightarrow> (u64 \<times> u64) sim_act" where
  "sim_write_begin hash a data =
     (if length data > unat (alloc_size a)
      then fail (WriteFailed [Lit ''data size '', FmtNat (length data), Lit '' exceeds allocation size '', FmtNat (unat (alloc_size a))])
      else bind_act (on_io (issue IoWrite (offset_chunk hash a) Simulation)) (\<lambda>req.
        bind_act (latency_begin (length data)) (\<lambda>delay. ret (req, delay))))"

definition sim_write_finish :: "allocation \<Rightarrow> bytes \<Rightarrow> u64 \<times> u64 \<Rightarrow> unit sim_act" where
  "sim_write_finish a data = (\<lambda>(req, delay).
     bind_act (latency_end delay) (\<lambda>_.
     bind_act (should_fail SimWrite) (\<lambda>f.
     if f then
       bind_act (on_metrics sm_record_failure) (\<lambda>_.
       bind_act (update_act (\<lambda>b. if corruption_on_failure (sim_failure (sb_config b))
           then b\<lparr>sb_storage := fmupd (offset a) (replicate (length data) 255) (sb_storage b)\<rparr> else b)) (\<lambda>_.
       bind_act (on_io (complete req (Some [Lit ''simulated write failure'']))) (\<lambda>_.
       fail (WriteFailed [Lit ''simulated write failure'']))))
     else
       bind_act (update_act (\<lambda>b. b\<lparr>sb_storage := fmupd (offset a) data (sb_storage b)\<rparr>)) (\<lambda>_.
       bind_act (on_io (complete req None)) (\<lambda>_.
       on_metrics (sm_record_write (length data)))))))"

definition sim_write :: "(bytes \<Rightarrow> bytes) \<Rightarrow> allocation \<Rightarrow> bytes \<Rightarrow> unit sim_act" where
  "sim_write hash a data = bind_act (sim_write_begin hash a data) (sim_write_finish a data)"

definition sim_read_begin :: "(bytes \<Rightarrow> bytes) \<Rightarrow> allocation \<Rightarrow> bytes \<Rightarrow> (u64 \<times> u64) sim_act" where
  "sim_read_begin hash a buf =
     (if length buf > unat (alloc_size a)
      then fail (ReadFailed [Lit ''buffer size '', FmtNat (length buf), Lit '' exceeds allocation size '', FmtNat (unat (alloc_size a))])
      else bind_act (on_io (issue IoRead (offset_chunk hash a) Simulation)) (\<lambda>req.
        bind_act (latency_begin (length buf)) (\<lambda>delay. ret (req, delay))))"

definition sim_read_finish :: "allocation \<Rightarrow> bytes \<Rightarrow> u64 \<times> u64 \<Rightarrow> bytes sim_act" where
  "sim_read_finish a buf = (\<lambda>(req, delay).
     bind_act (latency_end delay) (\<lambda>_.
     bind_act (should_fail SimRead) (\<lambda>f.
     if f then
       bind_act (on_metrics sm_record_failure) (\<lambda>_.
       bind_act (on_io (complete req (Some [Lit ''simulated read failure'']))) (\<lambda>_.
       fail (ReadFailed [Lit ''simulated read failure''])))
     else (\<lambda>b. case fmlookup (sb_storage b) (offset a) of
         Some data \<Rightarrow> (let to_copy = min (length buf) (length data) in
           bind_act (on_io (complete req None)) (\<lambda>_.
           bind_act (on_metrics (sm_record_read to_copy)) (\<lambda>_.
           ret (take to_copy data @ drop to_copy buf))) b)
       | None \<Rightarrow> bind_act (on_io (complete req (Some [Lit ''allocation not found'']))) (\<lambda>_. fail (AllocationNotFound (offset a))) b))))"

definition sim_read :: "(bytes \<Rightarrow> bytes) \<Rightarrow> allocation \<Rightarrow> bytes \<Rightarrow> bytes sim_act" where
  "sim_read hash a buf = bind_act (sim_read_begin hash a buf) (sim_read_finish a buf)"

definition sim_verify_integrity :: "(bytes \<Rightarrow> bytes) \<Rightarrow> allocation \<Rightarrow> bytes \<Rightarrow> unit sim_act" where
  "sim_verify_integrity hash a expected =
     bind_act (simulate_latency 0) (\<lambda>_ b. case fmlookup (sb_storage b) (offset a) of
         Some data \<Rightarrow> (if hash data = expected then ret () b
           else fail (IntegrityFailed [Lit ''checksum mismatch at offset '', FmtNat (unat (offset a)), Lit '': expected '', FmtChunk (ChunkId expected),
             Lit '', got '', FmtChunk (ChunkId (hash data))]) b)
       | None \<Rightarrow> fail (AllocationNotFound (offset a)) b)"

definition sim_health_check :: "unit sim_act" where
  "sim_health_check =
     bind_act (simulate_latency 0) (\<lambda>_ b. let pressure = sim_memory_pressure b in
       if fgt pressure (f64_lit (99 / 100))
       then fail (Unhealthy [Lit ''memory pressure critical: '', FmtFloat (fmul binary64 pressure (f64_lit 100)), Lit ''%'']) b
       else ret () b)"

definition sim_pressure :: "profile \<Rightarrow> f64 \<Rightarrow> sim_backend \<Rightarrow> (pressure_state, backend_error) outcome" where
  "sim_pressure pr uptime b = (case sim_io_pressure pr uptime b of
       Ok io \<Rightarrow> Ok \<lparr>memory_pressure = f32_of_f64 (sim_memory_pressure b), vram_pressure = f32_lit 0, io_pressure = f32_of_f64 io, queue_depth = 0, throughput_bps = 0\<rparr>
     | Err e \<Rightarrow> Err e
     | Panic \<Rightarrow> Panic)"

text \<open>\<^verbatim>\<open>as_millis() as f64\<close>\<close>

definition millis_f64 :: "nat \<Rightarrow> f64" where
  "millis_f64 ns = rnd binary64 (of_nat (ns div 1000000))"

definition sim_cost_model :: "profile \<Rightarrow> f64 \<Rightarrow> sim_backend \<Rightarrow> (physical_cost, backend_error) outcome" where
  "sim_cost_model pr uptime b = (case sim_io_pressure pr uptime b of
       Ok io \<Rightarrow> Ok \<lparr>latency_ms = fadd binary64 (millis_f64 (lat_base (sim_latency (sb_config b)))) (fmul binary64 (millis_f64 (lat_per_byte (sim_latency (sb_config b)))) (f64_lit 1024)),
         bandwidth_bps = of_word binary64 (sim_bandwidth (sb_config b)),
         reliability = fsub binary64 (f64_lit 1) (write_failure_rate (sim_failure (sb_config b))), cost_io_pressure = f32_of_f64 io, cost_queue_depth = 0\<rparr>
     | Err e \<Rightarrow> Err e
     | Panic \<Rightarrow> Panic)"

definition sim_ops :: "(bytes \<Rightarrow> bytes) \<Rightarrow> sim_backend backend_ops" where
  "sim_ops hash = \<lparr>op_allocate = sim_allocate, op_deallocate = sim_deallocate, op_write = sim_write hash, op_read = sim_read hash\<rparr>"

section \<open>Calls made one after the other leave no request pending\<close>

text \<open>A call that is neither interrupted nor dropped, with its sleep in place.\<close>

lemma bind_act_assoc: "bind_act (bind_act m f) g = bind_act m (\<lambda>x. bind_act (f x) g)"
  by (rule ext) (simp add: bind_act_def split: outcome.splits prod.splits)

lemma bind_fail [simp]: "bind_act (fail e) f = fail e"
  by (rule ext) (simp add: bind_act_def fail_def)

lemma bind_ret [simp]: "bind_act (ret x) f = f x"
  by (rule ext) (simp add: bind_act_def ret_def)

lemma sim_allocate_run:
  "sim_allocate n = (if n = 0 then fail (InternalFailure [Lit ''allocation size must be greater than zero''])
     else bind_act (simulate_latency 0) (\<lambda>_.
        bind_act (should_fail SimAlloc) (\<lambda>f.
        if f then bind_act (on_metrics sm_record_failure) (\<lambda>_. fail (InternalFailure [Lit ''simulated allocation failure'']))
        else (\<lambda>b. let avail = effective_available b in
          if n > avail then fail (InsufficientSpace n avail) b
          else (let off = sb_next_offset b in
            bind_act (update_act (\<lambda>b. b\<lparr>sb_next_offset := off + n, sb_used := sb_used b + n, sb_allocated := finsert off (sb_allocated b)\<rparr>)) (\<lambda>_.
            bind_act (on_metrics (sm_record_alloc n)) (\<lambda>_.
            ret (allocation_new off n 0))) b)))))"
  by (simp add: sim_allocate_def sim_allocate_begin_def sim_allocate_finish_def [abs_def] simulate_latency_def bind_act_assoc)

lemma sim_deallocate_run:
  "sim_deallocate a = bind_act (simulate_latency 0) (\<lambda>_ b.
       if offset a |\<notin>| sb_allocated b then fail (AllocationNotFound (offset a)) b
       else bind_act (update_act (\<lambda>b. b\<lparr>sb_allocated := sb_allocated b |-| {|offset a|}, sb_storage := fmdrop (offset a) (sb_storage b),
              sb_used := sb_used b - alloc_size a\<rparr>)) (\<lambda>_.
            on_metrics (sm_record_dealloc (alloc_size a))) b)"
  by (simp add: sim_deallocate_def sim_deallocate_finish_def [abs_def] simulate_latency_def bind_act_assoc)

lemma sim_write_run:
  "sim_write hash a data =
     (if length data > unat (alloc_size a)
      then fail (WriteFailed [Lit ''data size '', FmtNat (length data), Lit '' exceeds allocation size '', FmtNat (unat (alloc_size a))])
      else bind_act (on_io (issue IoWrite (offset_chunk hash a) Simulation)) (\<lambda>req.
        bind_act (simulate_latency (length data)) (\<lambda>_.
     bind_act (should_fail SimWrite) (\<lambda>f.
     if f then
       bind_act (on_metrics sm_record_failure) (\<lambda>_.
       bind_act (update_act (\<lambda>b. if corruption_on_failure (sim_failure (sb_config b))
           then b\<lparr>sb_storage := fmupd (offset a) (replicate (length data) 255) (sb_storage b)\<rparr> else b)) (\<lambda>_.
       bind_act (on_io (complete req (Some [Lit ''simulated write failure'']))) (\<lambda>_.
       fail (WriteFailed [Lit ''simulated write failure'']))))
     else
       bind_act (update_act (\<lambda>b. b\<lparr>sb_storage := fmupd (offset a) data (sb_storage b)\<rparr>)) (\<lambda>_.
       bind_act (on_io (complete req None)) (\<lambda>_.
       on_metrics (sm_record_write (length data))))))))"
  by (simp add: sim_write_def sim_write_begin_def sim_write_finish_def [abs_def] simulate_latency_def bind_act_assoc)

lemma sim_read_run:
  "sim_read hash a buf =
     (if length buf > unat (alloc_size a)
      then fail (ReadFailed [Lit ''buffer size '', FmtNat (length buf), Lit '' exceeds allocation size '', FmtNat (unat (alloc_size a))])
      else bind_act (on_io (issue IoRead (offset_chunk hash a) Simulation)) (\<lambda>req.
        bind_act (simulate_latency (length buf)) (\<lambda>_.
     bind_act (should_fail SimRead) (\<lambda>f.
     if f then
       bind_act (on_metrics sm_record_failure) (\<lambda>_.
       bind_act (on_io (complete req (Some [Lit ''simulated read failure'']))) (\<lambda>_.
       fail (ReadFailed [Lit ''simulated read failure''])))
     else (\<lambda>b. case fmlookup (sb_storage b) (offset a) of
         Some data \<Rightarrow> (let to_copy = min (length buf) (length data) in
           bind_act (on_io (complete req None)) (\<lambda>_.
           bind_act (on_metrics (sm_record_read to_copy)) (\<lambda>_.
           ret (take to_copy data @ drop to_copy buf))) b)
       | None \<Rightarrow> bind_act (on_io (complete req (Some [Lit ''allocation not found'']))) (\<lambda>_. fail (AllocationNotFound (offset a))) b)))))"
  by (simp add: sim_read_def sim_read_begin_def sim_read_finish_def [abs_def] simulate_latency_def bind_act_assoc)

lemma issue_idle:
  assumes "io_pending s = fmempty" "0 < io_max_pending s"
  obtains i r s' where "issue op c tier s = (Ok i, s')" "io_pending s' = fmupd i r fmempty" "io_max_pending s' = io_max_pending s"
    "rq_operation r = op" "rq_chunk_id r = c"
proof
  let ?r = "\<lparr>rq_id = io_next_id s, rq_operation = op, rq_chunk_id = c, rq_tier = tier, rq_issued_at = io_now s (io_ticks s), rq_completion = IoPending\<rparr>"
  have "0 < unat (io_max_pending s)" using assms(2) by (simp add: word_less_nat_alt)
  then show "issue op c tier s = (Ok (io_next_id s), snd (issue op c tier s))"
    "io_pending (snd (issue op c tier s)) = fmupd (io_next_id s) ?r fmempty" "io_max_pending (snd (issue op c tier s)) = io_max_pending s"
    "rq_operation ?r = op" "rq_chunk_id ?r = c"
    using assms(1) by (simp_all add: issue_def Let_def bind_act_def update_act_def read_now_def io_emit_def ret_def bt_len_def)
qed

lemma complete_one:
  assumes "fmlookup (io_pending s) i = Some r"
  obtains s' where "complete i e s = (Ok (), s')" "io_pending s' = fmdrop i (io_pending s)" "io_max_pending s' = io_max_pending s"
proof
  show "complete i e s = (Ok (), snd (complete i e s))" "io_pending (snd (complete i e s)) = fmdrop i (io_pending s)"
    "io_max_pending (snd (complete i e s)) = io_max_pending s"
    using assms by (cases e; simp add: complete_def bind_act_def update_act_def read_now_def io_emit_def ret_def)+
qed

definition io_idle :: "sim_backend \<Rightarrow> bool" where
  "io_idle b \<longleftrightarrow> io_pending (sb_io b) = fmempty \<and> 0 < io_max_pending (sb_io b)"

text \<open>The state but for the draws, the metrics and the scheduler.\<close>

definition sim_core :: "sim_backend \<Rightarrow> sim_config \<times> (usize, bytes) btree \<times> u64 \<times> u64 \<times> usize fset" where
  "sim_core b = (sb_config b, sb_storage b, sb_next_offset b, sb_used b, sb_allocated b)"

lemma latency_step: obtains b' where "simulate_latency n b = (Ok (), b')" "sim_core b' = sim_core b" "sb_io b' = sb_io b"
  by (rule that [of "snd (simulate_latency n b)"]) (simp_all add: simulate_latency_def latency_begin_def latency_end_def Let_def bind_act_def update_act_def on_metrics_def sim_core_def)

text \<open>No failures are injected.\<close>

definition no_failures :: "failure_config \<Rightarrow> bool" where
  "no_failures f \<longleftrightarrow> fle (write_failure_rate f) (f64_lit 0) \<and> fle (read_failure_rate f) (f64_lit 0) \<and> fle (alloc_failure_rate f) (f64_lit 0)"

lemma should_fail_step:
  obtains f b' where "should_fail op b = (Ok f, b')" "sim_core b' = sim_core b" "sb_io b' = sb_io b" "no_failures (sim_failure (sb_config b)) \<longrightarrow> \<not> f"
proof
  let ?r = "should_fail op b"
  show "?r = (Ok (ok_value (fst ?r)), snd ?r)" "sim_core (snd ?r) = sim_core b" "sb_io (snd ?r) = sb_io b"
    by (simp_all add: should_fail_def Let_def sim_core_def)
  show "no_failures (sim_failure (sb_config b)) \<longrightarrow> \<not> ok_value (fst ?r)"
    by (cases op) (simp_all add: should_fail_def Let_def no_failures_def)
qed

lemma metrics_step: "on_metrics f b = (Ok (), b\<lparr>sb_metrics := f (sb_metrics b)\<rparr>)"
  by (simp add: on_metrics_def update_act_def)

lemma core_simps [simp]: "sim_core (b\<lparr>sb_metrics := m\<rparr>) = sim_core b" "sim_core (b\<lparr>sb_io := io\<rparr>) = sim_core b"
  by (simp_all add: sim_core_def)

lemma io_complete_step:
  assumes "fmlookup (io_pending (sb_io b)) i = Some r" "fmdrop i (io_pending (sb_io b)) = fmempty" "0 < io_max_pending (sb_io b)"
  obtains b' where "on_io (complete i e) b = (Ok (), b')" "sim_core b' = sim_core b" "io_idle b'"
proof -
  obtain io where "complete i e (sb_io b) = (Ok (), io)" "io_pending io = fmdrop i (io_pending (sb_io b))" "io_max_pending io = io_max_pending (sb_io b)"
    by (rule complete_one [OF assms(1)])
  then show ?thesis using that [of "b\<lparr>sb_io := io\<rparr>"] assms(2,3) by (simp add: on_io_def map_err_act_def on_part_def io_idle_def)
qed

text \<open>The request is issued, the latency passes, and the failure is drawn.\<close>

definition io_open :: "u64 \<Rightarrow> sim_backend \<Rightarrow> bool" where
  "io_open i b \<longleftrightarrow> fmlookup (io_pending (sb_io b)) i \<noteq> None \<and> fmdrop i (io_pending (sb_io b)) = fmempty \<and> 0 < io_max_pending (sb_io b)"

lemma io_prefix:
  assumes "io_idle b"
  obtains i f b' where "\<forall>k. bind_act (on_io (issue op c Simulation)) (\<lambda>req. bind_act (simulate_latency n) (\<lambda>_. bind_act (should_fail sop) (k req))) b = k i f b'"
    "sim_core b' = sim_core b" "io_open i b'" "no_failures (sim_failure (sb_config b)) \<longrightarrow> \<not> f"
proof -
  obtain i r io where io: "issue op c Simulation (sb_io b) = (Ok i, io)" "io_pending io = fmupd i r fmempty" "io_max_pending io = io_max_pending (sb_io b)"
    by (rule issue_idle [of "sb_io b" op c Simulation]) (use assms in \<open>simp_all add: io_idle_def\<close>)
  let ?b = "b\<lparr>sb_io := io\<rparr>"
  obtain b1 where b1: "simulate_latency n ?b = (Ok (), b1)" "sim_core b1 = sim_core ?b" "sb_io b1 = io" by (rule latency_step [of n ?b]) simp
  obtain f b2 where b2: "should_fail sop b1 = (Ok f, b2)" "sim_core b2 = sim_core b1" "sb_io b2 = sb_io b1" "no_failures (sim_failure (sb_config b1)) \<longrightarrow> \<not> f"
    by (rule should_fail_step)
  show ?thesis
  proof (rule that [of i f b2])
    show "\<forall>k. bind_act (on_io (issue op c Simulation)) (\<lambda>req. bind_act (simulate_latency n) (\<lambda>_. bind_act (should_fail sop) (k req))) b = k i f b2"
      using io(1) b1(1) b2(1) by (simp add: bind_act_def on_io_def map_err_act_def on_part_def)
    show "sim_core b2 = sim_core b" using b1(2) b2(2) by simp
    show "io_open i b2" using io(2,3) b1(3) b2(3) assms by (auto simp: io_open_def io_idle_def intro: fmap_ext)
    show "no_failures (sim_failure (sb_config b)) \<longrightarrow> \<not> f" using b1(2) b2(4) by (simp add: sim_core_def)
  qed
qed

lemma io_close:
  assumes "io_open i b"
  obtains b' where "on_io (complete i e) b = (Ok (), b')" "sim_core b' = sim_core b" "io_idle b'"
  using assms io_complete_step [of b i _ e] by (auto simp: io_open_def)

lemma idle_metrics [simp]: "io_idle (b\<lparr>sb_metrics := m\<rparr>) = io_idle b" "io_open i (b\<lparr>sb_metrics := m\<rparr>) = io_open i b"
  "io_open i (b\<lparr>sb_storage := st\<rparr>) = io_open i b"
  by (simp_all add: io_idle_def io_open_def)

lemma sim_write_cases:
  assumes "io_idle b" "length data \<le> unat (alloc_size a)"
  obtains
    (written) b' where "sim_write hash a data b = (Ok (), b')" "io_idle b'" "sim_core b' = sim_core (b\<lparr>sb_storage := fmupd (offset a) data (sb_storage b)\<rparr>)"
  | (injected) b' st where "sim_write hash a data b = (Err (WriteFailed [Lit ''simulated write failure'']), b')" "io_idle b'"
      "sim_core b' = sim_core (b\<lparr>sb_storage := st\<rparr>)" "\<not> no_failures (sim_failure (sb_config b))"
      "st = sb_storage b \<or> st = fmupd (offset a) (replicate (length data) 255) (sb_storage b)"
proof -
  obtain i f b1 where b1: "\<forall>k :: u64 \<Rightarrow> bool \<Rightarrow> unit sim_act. bind_act (on_io (issue IoWrite (offset_chunk hash a) Simulation))
      (\<lambda>req. bind_act (simulate_latency (length data)) (\<lambda>_. bind_act (should_fail SimWrite) (k req))) b = k i f b1"
    "sim_core b1 = sim_core b" "io_open i b1" "no_failures (sim_failure (sb_config b)) \<longrightarrow> \<not> f"
    by (rule io_prefix [OF assms(1), where op = IoWrite and c = "offset_chunk hash a" and n = "length data" and sop = SimWrite])
  note run = sim_write_run b1(1) [rule_format]
  show ?thesis
  proof (cases f)
    case True
    define st where "st = (if corruption_on_failure (sim_failure (sb_config b1)) then fmupd (offset a) (replicate (length data) 255) (sb_storage b1) else sb_storage b1)"
    obtain b2 where b2: "on_io (complete i (Some [Lit ''simulated write failure''])) (b1\<lparr>sb_metrics := sm_record_failure (sb_metrics b1), sb_storage := st\<rparr>) = (Ok (), b2)"
      "sim_core b2 = sim_core (b1\<lparr>sb_metrics := sm_record_failure (sb_metrics b1), sb_storage := st\<rparr>)" "io_idle b2"
      by (rule io_close [of i "b1\<lparr>sb_metrics := sm_record_failure (sb_metrics b1), sb_storage := st\<rparr>"]) (use b1(3) in simp)
    have "b1\<lparr>sb_metrics := m, sb_storage := sb_storage b1\<rparr> = b1\<lparr>sb_metrics := m\<rparr>" for m by simp
    then have "sim_write hash a data b = (Err (WriteFailed [Lit ''simulated write failure'']), b2)"
      using True assms(2) b2(1) by (simp add: run, simp add: bind_act_def metrics_step update_act_def fail_def st_def split: if_splits)
    moreover have "sb_storage b1 = sb_storage b" using b1(2) by (simp add: sim_core_def)
    moreover have "sim_core b2 = sim_core (b\<lparr>sb_storage := st\<rparr>)" using b1(2) b2(2) by (simp add: sim_core_def)
    ultimately show ?thesis using b1(4) b2(3) True by (intro injected [of b2 st]) (auto simp: st_def)
  next
    case False
    obtain b2 where b2: "on_io (complete i None) (b1\<lparr>sb_storage := fmupd (offset a) data (sb_storage b1)\<rparr>) = (Ok (), b2)"
      "sim_core b2 = sim_core (b1\<lparr>sb_storage := fmupd (offset a) data (sb_storage b1)\<rparr>)" "io_idle b2"
      by (rule io_close [of i "b1\<lparr>sb_storage := fmupd (offset a) data (sb_storage b1)\<rparr>"]) (use b1(3) in simp)
    have "sim_write hash a data b = (Ok (), b2\<lparr>sb_metrics := sm_record_write (length data) (sb_metrics b2)\<rparr>)"
      using False assms(2) b2(1) by (simp add: run, simp add: bind_act_def metrics_step update_act_def)
    moreover have "sim_core b2 = sim_core (b\<lparr>sb_storage := fmupd (offset a) data (sb_storage b)\<rparr>)" using b1(2) b2(2) by (simp add: sim_core_def)
    ultimately show ?thesis using b2(3) by (intro written [of "b2\<lparr>sb_metrics := sm_record_write (length data) (sb_metrics b2)\<rparr>"]) simp_all
  qed
qed

lemma sim_read_cases:
  assumes "io_idle b" "length buf \<le> unat (alloc_size a)"
  obtains b' r where "sim_read hash a buf b = (r, b')" "io_idle b'" "sim_core b' = sim_core b" "r \<noteq> Panic"
    "no_failures (sim_failure (sb_config b)) \<longrightarrow> r = (case fmlookup (sb_storage b) (offset a) of
       Some d \<Rightarrow> Ok (take (length buf) d @ drop (length d) buf) | None \<Rightarrow> Err (AllocationNotFound (offset a)))"
proof -
  obtain i f b1 where b1: "\<forall>k :: u64 \<Rightarrow> bool \<Rightarrow> bytes sim_act. bind_act (on_io (issue IoRead (offset_chunk hash a) Simulation))
      (\<lambda>req. bind_act (simulate_latency (length buf)) (\<lambda>_. bind_act (should_fail SimRead) (k req))) b = k i f b1"
    "sim_core b1 = sim_core b" "io_open i b1" "no_failures (sim_failure (sb_config b)) \<longrightarrow> \<not> f"
    by (rule io_prefix [OF assms(1), where op = IoRead and c = "offset_chunk hash a" and n = "length buf" and sop = SimRead])
  note run = sim_read_run b1(1) [rule_format]
  have st: "sb_storage b1 = sb_storage b" using b1(2) by (simp add: sim_core_def)
  show ?thesis
  proof (cases f)
    case True
    obtain b2 where "on_io (complete i (Some [Lit ''simulated read failure''])) (b1\<lparr>sb_metrics := sm_record_failure (sb_metrics b1)\<rparr>) = (Ok (), b2)"
      "sim_core b2 = sim_core (b1\<lparr>sb_metrics := sm_record_failure (sb_metrics b1)\<rparr>)" "io_idle b2"
      by (rule io_close [of i "b1\<lparr>sb_metrics := sm_record_failure (sb_metrics b1)\<rparr>"]) (use b1(3) in simp)
    then show ?thesis using True assms(2) b1(2,4) by (intro that [of "Err (ReadFailed [Lit ''simulated read failure''])" b2])
        (simp_all add: run, simp_all add: bind_act_def metrics_step fail_def)
  next
    case False
    show ?thesis
    proof (cases "fmlookup (sb_storage b) (offset a)")
      case None
      obtain b2 where "on_io (complete i (Some [Lit ''allocation not found''])) b1 = (Ok (), b2)" "sim_core b2 = sim_core b1" "io_idle b2"
        by (rule io_close [OF b1(3)])
      then show ?thesis using False None assms(2) b1(2) st by (intro that [of "Err (AllocationNotFound (offset a))" b2]) (simp_all add: run, simp_all add: bind_act_def fail_def)
    next
      case (Some d)
      obtain b2 where "on_io (complete i None) b1 = (Ok (), b2)" "sim_core b2 = sim_core b1" "io_idle b2"
        by (rule io_close [OF b1(3)])
      then show ?thesis using False Some assms(2) b1(2) st
        by (intro that [of "Ok (take (length buf) d @ drop (length d) buf)" "b2\<lparr>sb_metrics := sm_record_read (min (length buf) (length d)) (sb_metrics b2)\<rparr>"])
          (simp_all add: run, simp_all add: bind_act_def metrics_step ret_def Let_def min_def)
    qed
  qed
qed

lemma idle_of_io: "sb_io b' = sb_io b \<Longrightarrow> io_idle b' = io_idle b"
  by (simp add: io_idle_def)

lemma sim_allocate_cases:
  obtains
    (refused) e b' where "sim_allocate n b = (Err e, b')" "sb_io b' = sb_io b" "sim_core b' = sim_core b"
      "n \<noteq> 0 \<Longrightarrow> no_failures (sim_failure (sb_config b)) \<Longrightarrow> effective_available b < n \<and> e = InsufficientSpace n (effective_available b)"
  | (given) b' where "sim_allocate n b = (Ok (allocation_new (sb_next_offset b) n 0), b')" "sb_io b' = sb_io b" "n \<noteq> 0" "n \<le> effective_available b"
      "sim_core b' = sim_core (b\<lparr>sb_next_offset := sb_next_offset b + n, sb_used := sb_used b + n, sb_allocated := finsert (sb_next_offset b) (sb_allocated b)\<rparr>)"
proof (cases "n = 0")
  case True
  then show ?thesis by (intro refused) (simp_all add: sim_allocate_run fail_def)
next
  case False
  obtain b1 where b1: "simulate_latency 0 b = (Ok (), b1)" "sim_core b1 = sim_core b" "sb_io b1 = sb_io b" by (rule latency_step)
  obtain f b2 where b2: "should_fail SimAlloc b1 = (Ok f, b2)" "sim_core b2 = sim_core b1" "sb_io b2 = sb_io b1"
    "no_failures (sim_failure (sb_config b1)) \<longrightarrow> \<not> f" by (rule should_fail_step)
  have av: "effective_available b2 = effective_available b" using b1(2) b2(2) by (simp add: effective_available_def Let_def sim_core_def)
  have core: "sb_config b1 = sb_config b" "sb_next_offset b2 = sb_next_offset b" "sb_used b2 = sb_used b" using b1(2) b2(2) by (simp_all add: sim_core_def)
  have run: "sim_allocate n b = (if f then bind_act (on_metrics sm_record_failure) (\<lambda>_. fail (InternalFailure [Lit ''simulated allocation failure''])) b2
      else if effective_available b < n then (Err (InsufficientSpace n (effective_available b)), b2)
      else (Ok (allocation_new (sb_next_offset b) n 0), b2\<lparr>sb_next_offset := sb_next_offset b + n, sb_used := sb_used b + n,
        sb_allocated := finsert (sb_next_offset b) (sb_allocated b2), sb_metrics := sm_record_alloc n (sb_metrics b2)\<rparr>))"
    using False b1(1) b2(1) core by (simp add: sim_allocate_run bind_act_def Let_def av fail_def metrics_step update_act_def ret_def)
  show ?thesis
  proof (cases "f \<or> effective_available b < n")
    case True
    then have "\<exists>e b'. sim_allocate n b = (Err e, b') \<and> sb_io b' = sb_io b \<and> sim_core b' = sim_core b
        \<and> (\<not> f \<longrightarrow> effective_available b < n \<and> e = InsufficientSpace n (effective_available b))"
      using b1(2,3) b2(2,3) unfolding run by (auto simp: bind_act_def metrics_step fail_def)
    then show ?thesis using refused b2(4) core(1) by metis
  next
    case False
    then show ?thesis using \<open>n \<noteq> 0\<close> b1(2,3) b2(2,3)
      by (intro given [of "snd (sim_allocate n b)"]) (simp_all add: run sim_core_def not_less)
  qed
qed

lemma sim_deallocate_cases:
  obtains
    (unknown) b' where "sim_deallocate a b = (Err (AllocationNotFound (offset a)), b')" "sb_io b' = sb_io b" "sim_core b' = sim_core b" "offset a |\<notin>| sb_allocated b"
  | (released) b' where "sim_deallocate a b = (Ok (), b')" "sb_io b' = sb_io b" "offset a |\<in>| sb_allocated b"
      "sim_core b' = sim_core (b\<lparr>sb_allocated := sb_allocated b |-| {|offset a|}, sb_storage := fmdrop (offset a) (sb_storage b), sb_used := sb_used b - alloc_size a\<rparr>)"
proof -
  obtain b1 where b1: "simulate_latency 0 b = (Ok (), b1)" "sim_core b1 = sim_core b" "sb_io b1 = sb_io b" by (rule latency_step)
  show ?thesis
  proof (cases "offset a |\<in>| sb_allocated b")
    case True
    then show ?thesis using b1 by (intro released [of "snd (sim_deallocate a b)"])
      (simp_all add: sim_deallocate_run bind_act_def update_act_def metrics_step sim_core_def)
  next
    case False
    then show ?thesis using b1 by (intro unknown [of b1]) (simp_all add: sim_deallocate_run bind_act_def fail_def sim_core_def)
  qed
qed

section \<open>Runs\<close>

fun sim_step :: "(bytes \<Rightarrow> bytes) \<Rightarrow> ram_op \<Rightarrow> (sim_backend, ram_out, backend_error) act" where
  "sim_step hash (OpAllocate n) b = apfst (map_out OutAllocation) (sim_allocate n b)"
| "sim_step hash (OpDeallocate a) b = apfst (map_out (\<lambda>_. OutUnit)) (sim_deallocate a b)"
| "sim_step hash (OpWrite a d) b = apfst (map_out (\<lambda>_. OutUnit)) (sim_write hash a d b)"
| "sim_step hash (OpRead a buf) b = apfst (map_out OutBytes) (sim_read hash a buf b)"

fun sim_run :: "(bytes \<Rightarrow> bytes) \<Rightarrow> ram_op list \<Rightarrow> sim_backend \<Rightarrow> (ram_out, backend_error) outcome list \<times> sim_backend" where
  "sim_run hash [] b = ([], b)"
| "sim_run hash (x # xs) b = (let (r, b') = sim_step hash x b; (rs, b'') = sim_run hash xs b' in (r # rs, b''))"

lemma sim_step_idle:
  assumes "io_idle b"
  shows "io_idle (snd (sim_step hash x b)) \<and> fst (sim_step hash x b) \<noteq> Panic"
proof (cases x)
  case (OpAllocate n)
  show ?thesis by (cases rule: sim_allocate_cases [of n b]) (use assms OpAllocate in \<open>simp_all add: io_idle_def\<close>)
next
  case (OpDeallocate a)
  show ?thesis by (cases rule: sim_deallocate_cases [of a b]) (use assms OpDeallocate in \<open>simp_all add: io_idle_def\<close>)
next
  case (OpWrite a d)
  show ?thesis
  proof (cases "length d \<le> unat (alloc_size a)")
    case True
    show ?thesis by (cases rule: sim_write_cases [OF assms True, of hash]) (use OpWrite in simp_all)
  next
    case False
    then show ?thesis using assms OpWrite by (simp add: sim_write_run fail_def)
  qed
next
  case (OpRead a d)
  show ?thesis
  proof (cases "length d \<le> unat (alloc_size a)")
    case True
    obtain b' r where "sim_read hash a d b = (r, b')" "io_idle b'" "r \<noteq> Panic" by (rule sim_read_cases [OF assms True, of hash])
    then show ?thesis using OpRead by (cases r) simp_all
  next
    case False
    then show ?thesis using assms OpRead by (simp add: sim_read_run fail_def)
  qed
qed

lemma sim_run_idle:
  "io_idle b \<Longrightarrow> io_idle (snd (sim_run hash xs b)) \<and> list_all (\<lambda>r. r \<noteq> Panic) (fst (sim_run hash xs b))"
proof (induction xs arbitrary: b)
  case (Cons x xs)
  then show ?case using sim_step_idle [OF Cons.prems, of hash x] by (simp add: Let_def case_prod_beta)
qed simp

lemma sim_new_idle: "io_idle (sim_backend_new seeded now wall secs c)"
  by (simp add: io_idle_def sim_backend_new_def io_scheduler_new_def)

text \<open>
  Calls that are made one after the other and not dropped leave nothing behind: whatever failures are injected, no
  request is pending when a call has returned.
\<close>

lemma sim_never_pending:
  "pending_count (sb_io (snd (sim_run hash xs (sim_backend_new seeded now wall secs c)))) = 0
   \<and> Panic \<notin> set (fst (sim_run hash xs (sim_backend_new seeded now wall secs c)))"
  using sim_run_idle [OF sim_new_idle, of hash xs seeded now wall secs c] by (auto simp: io_idle_def pending_count_def bt_len_def list_all_iff)

section \<open>Interleaved and dropped calls\<close>

text \<open>A call that sleeps, with what it will go on with.\<close>

datatype sim_task = AllocTask usize u64 | DeallocTask allocation u64 | WriteTask allocation bytes "u64 \<times> u64" | ReadTask allocation bytes "u64 \<times> u64"

fun begin_call :: "(bytes \<Rightarrow> bytes) \<Rightarrow> ram_op \<Rightarrow> sim_task sim_act" where
  "begin_call hash (OpAllocate n) = bind_act (sim_allocate_begin n) (\<lambda>d. ret (AllocTask n d))"
| "begin_call hash (OpDeallocate a) = bind_act (latency_begin 0) (\<lambda>d. ret (DeallocTask a d))"
| "begin_call hash (OpWrite a data) = bind_act (sim_write_begin hash a data) (\<lambda>h. ret (WriteTask a data h))"
| "begin_call hash (OpRead a buf) = bind_act (sim_read_begin hash a buf) (\<lambda>h. ret (ReadTask a buf h))"

fun finish_task :: "sim_task \<Rightarrow> ram_out sim_act" where
  "finish_task (AllocTask n d) b = apfst (map_out OutAllocation) (sim_allocate_finish n d b)"
| "finish_task (DeallocTask a d) b = apfst (map_out (\<lambda>_. OutUnit)) (sim_deallocate_finish a d b)"
| "finish_task (WriteTask a data h) b = apfst (map_out (\<lambda>_. OutUnit)) (sim_write_finish a data h b)"
| "finish_task (ReadTask a buf h) b = apfst (map_out OutBytes) (sim_read_finish a buf h b)"

lemma sim_step_split: "sim_step hash x = bind_act (begin_call hash x) finish_task"
proof (rule ext)
  fix b
  show "sim_step hash x b = bind_act (begin_call hash x) finish_task b"
    by (cases x) (simp_all add: sim_allocate_def sim_deallocate_def sim_write_def sim_read_def bind_act_def ret_def apfst_def map_prod_def
        split: prod.splits outcome.splits)
qed

fun task_requests :: "sim_task \<Rightarrow> u64 list" where
  "task_requests (WriteTask _ _ h) = [fst h]"
| "task_requests (ReadTask _ _ h) = [fst h]"
| "task_requests _ = []"

text \<open>
  The calls that sleep, in any order of waking up, and the requests of those that were dropped before they woke up.
\<close>

record sim_system =
  sys_backend :: sim_backend
  sys_tasks :: "sim_task list"
  sys_dropped :: "u64 list"

datatype sim_move = MvCall ram_op | MvResume nat | MvDrop nat

fun without :: "nat \<Rightarrow> 'a list \<Rightarrow> 'a list" where
  "without i xs = take i xs @ drop (Suc i) xs"

fun system_step :: "(bytes \<Rightarrow> bytes) \<Rightarrow> sim_move \<Rightarrow> (sim_system, ram_out option, backend_error) act" where
  "system_step hash (MvCall x) s = (case begin_call hash x (sys_backend s) of
       (Ok t, b) \<Rightarrow> (Ok None, s\<lparr>sys_backend := b, sys_tasks := sys_tasks s @ [t]\<rparr>)
     | (Err e, b) \<Rightarrow> (Err e, s\<lparr>sys_backend := b\<rparr>)
     | (Panic, b) \<Rightarrow> (Panic, s\<lparr>sys_backend := b\<rparr>))"
| "system_step hash (MvResume i) s = (if i < length (sys_tasks s)
     then (case finish_task (sys_tasks s ! i) (sys_backend s) of
       (q, b) \<Rightarrow> (map_out Some q, s\<lparr>sys_backend := b, sys_tasks := without i (sys_tasks s)\<rparr>))
     else (Ok None, s))"
| "system_step hash (MvDrop i) s = (Ok None, if i < length (sys_tasks s)
     then s\<lparr>sys_tasks := without i (sys_tasks s), sys_dropped := sys_dropped s @ task_requests (sys_tasks s ! i)\<rparr> else s)"

fun system_run :: "(bytes \<Rightarrow> bytes) \<Rightarrow> sim_move list \<Rightarrow> sim_system \<Rightarrow> (ram_out option, backend_error) outcome list \<times> sim_system" where
  "system_run hash [] s = ([], s)"
| "system_run hash (m # ms) s = (let (q, s') = system_step hash m s; (qs, s'') = system_run hash ms s' in (q # qs, s''))"

definition open_requests :: "sim_system \<Rightarrow> u64 list" where
  "open_requests s = concat (map task_requests (sys_tasks s)) @ sys_dropped s"

definition system_inv :: "nat \<Rightarrow> sim_system \<Rightarrow> bool" where
  "system_inv n s \<longleftrightarrow> io_inv (sb_io (sys_backend s)) \<and> mset (bt_keys (io_pending (sb_io (sys_backend s)))) = mset (open_requests s)
     \<and> io_max_pending (sb_io (sys_backend s)) = 64 \<and> unat (io_next_id (sb_io (sys_backend s))) \<le> n"

lemma mset_without: "i < length xs \<Longrightarrow> mset (concat (map f xs)) = mset (f (xs ! i)) + mset (concat (map f (without i xs)))"
  by (subst id_take_nth_drop [of i xs]) (simp_all add: ac_simps)

subsection \<open>The parts of a call and the scheduler\<close>

lemma latency_begin_io: obtains d b' where "latency_begin n b = (Ok d, b')" "sb_io b' = sb_io b"
  by (rule that [of "ok_value (fst (latency_begin n b))" "snd (latency_begin n b)"]) (simp_all add: latency_begin_def Let_def)

lemma latency_end_io: "latency_end d b = (Ok (), b\<lparr>sb_metrics := sm_record_latency d (sb_metrics b)\<rparr>)"
  by (simp add: latency_end_def metrics_step)

text \<open>After the sleep: the failure is drawn.\<close>

lemma wake_up:
  obtains f b' where "\<forall>k. bind_act (latency_end d) (\<lambda>_. bind_act (should_fail sop) k) b = k f b'" "sb_io b' = sb_io b"
proof -
  obtain f b' where "should_fail sop (b\<lparr>sb_metrics := sm_record_latency d (sb_metrics b)\<rparr>) = (Ok f, b')" "sb_io b' = sb_io b"
    by (rule should_fail_step [of sop "b\<lparr>sb_metrics := sm_record_latency d (sb_metrics b)\<rparr>"]) simp
  then show ?thesis using that [of f b'] by (simp add: bind_act_def latency_end_io)
qed

text \<open>What the end of a write or read does to the scheduler: its request, and no other, is no longer pending.\<close>

definition retires :: "u64 \<Rightarrow> io_scheduler \<Rightarrow> io_scheduler \<Rightarrow> bool" where
  "retires req io io' \<longleftrightarrow> io_inv io' \<and> io_pending io' = fmdrop req (io_pending io) \<and> io_next_id io' = io_next_id io \<and> io_max_pending io' = io_max_pending io"

lemma on_io_complete:
  assumes "io_inv (sb_io b)" "req |\<in>| fmdom (io_pending (sb_io b))"
  obtains io where "on_io (complete req e) b = (Ok (), b\<lparr>sb_io := io\<rparr>)" "retires req (sb_io b) io"
proof -
  obtain q where q: "fmlookup (io_pending (sb_io b)) req = Some q" using assms(2) by (auto simp: fmlookup_dom_iff)
  obtain io where "complete req e (sb_io b) = (Ok (), io)" "io_inv io" "io_next_id io = io_next_id (sb_io b)"
    "io_max_pending io = io_max_pending (sb_io b)" "io_pending io = fmdrop req (io_pending (sb_io b))"
    by (rule complete_pending [OF assms(1) q, of e])
  then show ?thesis by (intro that [of io]) (simp_all add: on_io_def map_err_act_def on_part_def retires_def)
qed

lemma write_finish_retires:
  assumes "io_inv (sb_io b)" "req |\<in>| fmdom (io_pending (sb_io b))"
  shows "fst (sim_write_finish a data (req, d) b) \<noteq> Panic \<and> retires req (sb_io b) (sb_io (snd (sim_write_finish a data (req, d) b)))"
proof -
  obtain f b1 where b1: "\<forall>k :: bool \<Rightarrow> unit sim_act. bind_act (latency_end d) (\<lambda>_. bind_act (should_fail SimWrite) k) b = k f b1" "sb_io b1 = sb_io b"
    by (rule wake_up [of d SimWrite b])
  note run = sim_write_finish_def b1(1) [rule_format]
  show ?thesis
  proof (cases f)
    case True
    let ?b = "if corruption_on_failure (sim_failure (sb_config b1))
      then b1\<lparr>sb_metrics := sm_record_failure (sb_metrics b1), sb_storage := fmupd (offset a) (replicate (length data) 255) (sb_storage b1)\<rparr>
      else b1\<lparr>sb_metrics := sm_record_failure (sb_metrics b1)\<rparr>"
    obtain io where "on_io (complete req (Some [Lit ''simulated write failure''])) ?b = (Ok (), ?b\<lparr>sb_io := io\<rparr>)" "retires req (sb_io ?b) io"
      by (rule on_io_complete [of ?b req]) (use assms b1(2) in simp_all)
    then show ?thesis using True b1(2) by (simp add: run, simp add: bind_act_def metrics_step update_act_def fail_def split: if_splits)
  next
    case False
    let ?b = "b1\<lparr>sb_storage := fmupd (offset a) data (sb_storage b1)\<rparr>"
    obtain io where "on_io (complete req None) ?b = (Ok (), ?b\<lparr>sb_io := io\<rparr>)" "retires req (sb_io ?b) io"
      by (rule on_io_complete [of ?b req]) (use assms b1(2) in simp_all)
    then show ?thesis using False b1(2) by (simp add: run, simp add: bind_act_def metrics_step update_act_def)
  qed
qed

lemma read_finish_retires:
  assumes "io_inv (sb_io b)" "req |\<in>| fmdom (io_pending (sb_io b))"
  shows "fst (sim_read_finish a buf (req, d) b) \<noteq> Panic \<and> retires req (sb_io b) (sb_io (snd (sim_read_finish a buf (req, d) b)))"
proof -
  obtain f b1 where b1: "\<forall>k :: bool \<Rightarrow> bytes sim_act. bind_act (latency_end d) (\<lambda>_. bind_act (should_fail SimRead) k) b = k f b1" "sb_io b1 = sb_io b"
    by (rule wake_up [of d SimRead b])
  note run = sim_read_finish_def b1(1) [rule_format]
  show ?thesis
  proof (cases f)
    case True
    let ?b = "b1\<lparr>sb_metrics := sm_record_failure (sb_metrics b1)\<rparr>"
    obtain io where "on_io (complete req (Some [Lit ''simulated read failure''])) ?b = (Ok (), ?b\<lparr>sb_io := io\<rparr>)" "retires req (sb_io ?b) io"
      by (rule on_io_complete [of ?b req]) (use assms b1(2) in simp_all)
    then show ?thesis using True b1(2) by (simp add: run, simp add: bind_act_def metrics_step fail_def)
  next
    case False
    have i: "io_inv (sb_io b1)" "req |\<in>| fmdom (io_pending (sb_io b1))" using assms b1(2) by simp_all
    show ?thesis
    proof (cases "fmlookup (sb_storage b1) (offset a)")
      case None
      obtain io where "on_io (complete req (Some [Lit ''allocation not found''])) b1 = (Ok (), b1\<lparr>sb_io := io\<rparr>)" "retires req (sb_io b1) io"
        by (rule on_io_complete [OF i])
      then show ?thesis using False None b1(2) by (simp add: run, simp add: bind_act_def fail_def)
    next
      case (Some x)
      obtain io where "on_io (complete req None) b1 = (Ok (), b1\<lparr>sb_io := io\<rparr>)" "retires req (sb_io b1) io"
        by (rule on_io_complete [OF i])
      then show ?thesis using False Some b1(2) by (simp add: run, simp add: bind_act_def metrics_step Let_def ret_def)
    qed
  qed
qed

lemma allocate_finish_io: "fst (sim_allocate_finish n d b) \<noteq> Panic \<and> sb_io (snd (sim_allocate_finish n d b)) = sb_io b"
proof -
  obtain f b1 where b1: "\<forall>k :: bool \<Rightarrow> allocation sim_act. bind_act (latency_end d) (\<lambda>_. bind_act (should_fail SimAlloc) k) b = k f b1" "sb_io b1 = sb_io b"
    by (rule wake_up [of d SimAlloc b])
  show ?thesis unfolding sim_allocate_finish_def b1(1) [rule_format]
    using b1(2) by (auto simp: bind_act_def metrics_step fail_def Let_def update_act_def ret_def)
qed

lemma deallocate_finish_io: "fst (sim_deallocate_finish a d b) \<noteq> Panic \<and> sb_io (snd (sim_deallocate_finish a d b)) = sb_io b"
  by (simp add: sim_deallocate_finish_def bind_act_def latency_end_io fail_def update_act_def metrics_step)

text \<open>The part of a write or read before the sleep.\<close>

definition request_begin :: "io_operation \<Rightarrow> chunk_id \<Rightarrow> nat \<Rightarrow> (u64 \<times> u64) sim_act" where
  "request_begin op c n = bind_act (on_io (issue op c Simulation)) (\<lambda>req. bind_act (latency_begin n) (\<lambda>d. ret (req, d)))"

lemma request_begin_cases:
  assumes "io_inv (sb_io b)" "io_max_pending (sb_io b) = 64" "unat (io_next_id (sb_io b)) + 1 < 2 ^ 64"
  obtains
    (full) e where "request_begin op c n b = (Err (InternalFailure e), b)" "64 \<le> bt_len (io_pending (sb_io b))"
  | (issued) q d b' where "request_begin op c n b = (Ok (io_next_id (sb_io b), d), b')" "bt_len (io_pending (sb_io b)) < 64"
      "io_inv (sb_io b')" "io_pending (sb_io b') = fmupd (io_next_id (sb_io b)) q (io_pending (sb_io b))"
      "io_next_id (sb_io b') = io_next_id (sb_io b) + 1" "io_max_pending (sb_io b') = 64"
proof (cases "bt_len (io_pending (sb_io b)) < 64")
  case False
  then show ?thesis using assms(2) full [of "ghost_error_display (Internal [Lit ''I/O scheduler at capacity: '', FmtNat (bt_len (io_pending (sb_io b))),
      Lit '' pending requests (max: '', FmtNat 64, Lit '')''])"]
    by (simp add: request_begin_def bind_act_def on_io_def map_err_act_def on_part_def issue_def fail_def)
next
  case True
  obtain io q where io: "issue op c Simulation (sb_io b) = (Ok (io_next_id (sb_io b)), io)" "io_inv io" "io_next_id io = io_next_id (sb_io b) + 1"
    "io_pending io = fmupd (io_next_id (sb_io b)) q (io_pending (sb_io b))" "io_max_pending io = io_max_pending (sb_io b)"
    by (rule issue_Ok [OF assms(1) _ assms(3), of op c Simulation]) (use True assms(2) in simp)
  obtain d b' where b': "latency_begin n (b\<lparr>sb_io := io\<rparr>) = (Ok d, b')" "sb_io b' = io"
    by (rule latency_begin_io [of n "b\<lparr>sb_io := io\<rparr>"]) simp
  have "request_begin op c n b = (Ok (io_next_id (sb_io b), d), b')"
    using io(1) b'(1) by (simp add: request_begin_def bind_act_def on_io_def map_err_act_def on_part_def ret_def)
  then show ?thesis using io b'(2) True assms(2) by (intro issued [of d b' q]) simp_all
qed

lemma begin_parts:
  "sim_write_begin hash a data = (if length data > unat (alloc_size a)
     then fail (WriteFailed [Lit ''data size '', FmtNat (length data), Lit '' exceeds allocation size '', FmtNat (unat (alloc_size a))])
     else request_begin IoWrite (offset_chunk hash a) (length data))"
  "sim_read_begin hash a buf = (if length buf > unat (alloc_size a)
     then fail (ReadFailed [Lit ''buffer size '', FmtNat (length buf), Lit '' exceeds allocation size '', FmtNat (unat (alloc_size a))])
     else request_begin IoRead (offset_chunk hash a) (length buf))"
  by (simp_all add: sim_write_begin_def sim_read_begin_def request_begin_def)

subsection \<open>Every move accounts for the requests\<close>

lemma call_request_inv:
  assumes "system_inv n s" "n + 1 < 2 ^ 64" "begin_call hash x = bind_act (request_begin op c k) (\<lambda>h. ret (mk h))" "\<And>h. task_requests (mk h) = [fst h]"
  shows "fst (system_step hash (MvCall x) s) \<noteq> Panic \<and> system_inv (n + 1) (snd (system_step hash (MvCall x) s))"
proof -
  let ?b = "sys_backend s"
  have i: "io_inv (sb_io ?b)" "io_max_pending (sb_io ?b) = 64" "unat (io_next_id (sb_io ?b)) + 1 < 2 ^ 64" using assms(1,2) by (simp_all add: system_inv_def)
  show ?thesis
  proof (cases rule: request_begin_cases [OF i, of op c k])
    case (1 e)
    then show ?thesis using assms(1,3) by (simp add: bind_act_def system_inv_def open_requests_def)
  next
    case (2 q d b')
    have fresh: "io_next_id (sb_io ?b) |\<notin>| fmdom (io_pending (sb_io ?b))" by (rule next_id_fresh [OF i(1)])
    have "unat (io_next_id (sb_io ?b) + 1) = Suc (unat (io_next_id (sb_io ?b)))" using i(3) unat_add_fits [of "io_next_id (sb_io ?b)" 1] by simp
    then show ?thesis using 2 assms(1,3,4) fresh
      by (simp add: bind_act_def ret_def system_inv_def open_requests_def mset_keys_upd)
  qed
qed

lemma call_plain_inv:
  assumes "system_inv n s" "fst (begin_call hash x (sys_backend s)) \<noteq> Panic" "sb_io (snd (begin_call hash x (sys_backend s))) = sb_io (sys_backend s)"
    and "\<And>t. fst (begin_call hash x (sys_backend s)) = Ok t \<Longrightarrow> task_requests t = []"
  shows "fst (system_step hash (MvCall x) s) \<noteq> Panic \<and> system_inv (n + 1) (snd (system_step hash (MvCall x) s))"
  using assms by (cases "begin_call hash x (sys_backend s)"; cases "fst (begin_call hash x (sys_backend s))") (simp_all add: system_inv_def open_requests_def)

lemma call_inv:
  assumes "system_inv n s" "n + 1 < 2 ^ 64"
  shows "fst (system_step hash (MvCall x) s) \<noteq> Panic \<and> system_inv (n + 1) (snd (system_step hash (MvCall x) s))"
proof (cases x)
  case (OpAllocate k)
  obtain d b' where "latency_begin 0 (sys_backend s) = (Ok d, b')" "sb_io b' = sb_io (sys_backend s)" by (rule latency_begin_io)
  then show ?thesis using OpAllocate by (intro call_plain_inv [OF assms(1)]) (auto simp: sim_allocate_begin_def bind_act_def ret_def fail_def split: if_splits)
next
  case (OpDeallocate a)
  obtain d b' where "latency_begin 0 (sys_backend s) = (Ok d, b')" "sb_io b' = sb_io (sys_backend s)" by (rule latency_begin_io)
  then show ?thesis using OpDeallocate by (intro call_plain_inv [OF assms(1)]) (auto simp: bind_act_def ret_def)
next
  case (OpWrite a data)
  show ?thesis
  proof (cases "length data > unat (alloc_size a)")
    case True
    then show ?thesis using OpWrite by (intro call_plain_inv [OF assms(1)]) (simp_all add: begin_parts(1) fail_def)
  next
    case False
    then have "begin_call hash x = bind_act (request_begin IoWrite (offset_chunk hash a) (length data)) (\<lambda>h. ret (WriteTask a data h))"
      using OpWrite by (simp add: begin_parts(1))
    then show ?thesis by (rule call_request_inv [OF assms]) simp
  qed
next
  case (OpRead a buf)
  show ?thesis
  proof (cases "length buf > unat (alloc_size a)")
    case True
    then show ?thesis using OpRead by (intro call_plain_inv [OF assms(1)]) (simp_all add: begin_parts(2) fail_def)
  next
    case False
    then have "begin_call hash x = bind_act (request_begin IoRead (offset_chunk hash a) (length buf)) (\<lambda>h. ret (ReadTask a buf h))"
      using OpRead by (simp add: begin_parts(2))
    then show ?thesis by (rule call_request_inv [OF assms]) simp
  qed
qed

lemma finish_task_io:
  assumes "io_inv (sb_io b)" "set (task_requests t) \<subseteq> fset (fmdom (io_pending (sb_io b)))"
  shows "fst (finish_task t b) \<noteq> Panic \<and> io_inv (sb_io (snd (finish_task t b)))
    \<and> io_next_id (sb_io (snd (finish_task t b))) = io_next_id (sb_io b) \<and> io_max_pending (sb_io (snd (finish_task t b))) = io_max_pending (sb_io b)
    \<and> mset (bt_keys (io_pending (sb_io b))) = mset (task_requests t) + mset (bt_keys (io_pending (sb_io (snd (finish_task t b)))))"
proof -
  have panic: "map_out f q = Panic \<longleftrightarrow> q = Panic" for f :: "'x \<Rightarrow> ram_out" and q :: "('x, backend_error) outcome" by (cases q) simp_all
  show ?thesis
  proof (cases t)
    case (AllocTask n d)
    then show ?thesis using assms allocate_finish_io [of n d b] by (simp add: panic)
  next
    case (DeallocTask a d)
    then show ?thesis using assms deallocate_finish_io [of a d b] by (simp add: panic)
  next
    case (WriteTask a data h)
    then show ?thesis using assms write_finish_retires [of b "fst h" a data "snd h"] mset_keys_drop [of "fst h" "io_pending (sb_io b)"]
      by (simp add: panic retires_def)
  next
    case (ReadTask a buf h)
    then show ?thesis using assms read_finish_retires [of b "fst h" a buf "snd h"] mset_keys_drop [of "fst h" "io_pending (sb_io b)"]
      by (simp add: panic retires_def)
  qed
qed

lemma resume_inv:
  assumes "system_inv n s" "i < length (sys_tasks s)"
  shows "fst (system_step hash (MvResume i) s) \<noteq> Panic \<and> system_inv n (snd (system_step hash (MvResume i) s))"
proof -
  let ?t = "sys_tasks s ! i" and ?b = "sys_backend s"
  have open_reqs: "mset (bt_keys (io_pending (sb_io ?b))) = mset (task_requests ?t) + mset (concat (map task_requests (without i (sys_tasks s))) @ sys_dropped s)"
    using assms mset_without [OF assms(2), of task_requests] by (simp add: system_inv_def open_requests_def del: without.simps)
  have "set (task_requests ?t) \<subseteq> set (bt_keys (io_pending (sb_io ?b)))" using arg_cong [OF open_reqs, of set_mset] by (simp del: without.simps)
  then have "set (task_requests ?t) \<subseteq> fset (fmdom (io_pending (sb_io ?b)))" by simp
  moreover have "io_inv (sb_io ?b)" using assms(1) by (simp add: system_inv_def)
  ultimately have f: "fst (finish_task ?t ?b) \<noteq> Panic" "io_inv (sb_io (snd (finish_task ?t ?b)))"
    "io_next_id (sb_io (snd (finish_task ?t ?b))) = io_next_id (sb_io ?b)" "io_max_pending (sb_io (snd (finish_task ?t ?b))) = io_max_pending (sb_io ?b)"
    "mset (bt_keys (io_pending (sb_io ?b))) = mset (task_requests ?t) + mset (bt_keys (io_pending (sb_io (snd (finish_task ?t ?b)))))"
    using finish_task_io [of ?b ?t] by blast+
  moreover have "mset (bt_keys (io_pending (sb_io (snd (finish_task ?t ?b))))) = mset (concat (map task_requests (without i (sys_tasks s))) @ sys_dropped s)"
    using f(5) open_reqs by simp
  moreover have "map_out Some q \<noteq> Panic" if "q \<noteq> Panic" for q :: "(ram_out, backend_error) outcome" using that by (cases q) simp_all
  ultimately show ?thesis using assms by (simp add: case_prod_beta system_inv_def open_requests_def del: without.simps)
qed

lemma drop_inv:
  assumes "system_inv n s" "i < length (sys_tasks s)"
  shows "system_inv n (snd (system_step hash (MvDrop i) s))"
  using assms mset_without [OF assms(2), of task_requests] by (simp add: system_inv_def open_requests_def ac_simps del: without.simps)

lemma system_step_inv:
  assumes "system_inv n s" "n + 1 < 2 ^ 64"
  shows "fst (system_step hash m s) \<noteq> Panic \<and> system_inv (n + 1) (snd (system_step hash m s))"
proof (cases m)
  case (MvCall x)
  then show ?thesis using call_inv [OF assms] by simp
next
  case (MvResume i)
  then show ?thesis using resume_inv [OF assms(1), of i hash] assms(1)
    by (cases "i < length (sys_tasks s)") (auto simp: system_inv_def)
next
  case (MvDrop i)
  then show ?thesis using drop_inv [OF assms(1), of i hash] assms(1)
    by (cases "i < length (sys_tasks s)") (auto simp: system_inv_def)
qed

lemma system_run_inv:
  assumes "system_inv n s" "n + length ms < 2 ^ 64"
  shows "Panic \<notin> set (fst (system_run hash ms s)) \<and> system_inv (n + length ms) (snd (system_run hash ms s))"
  using assms
proof (induction ms arbitrary: n s)
  case (Cons m ms)
  have "fst (system_step hash m s) \<noteq> Panic \<and> system_inv (n + 1) (snd (system_step hash m s))" using Cons.prems by (intro system_step_inv) simp_all
  then show ?case using Cons.IH [of "n + 1" "snd (system_step hash m s)"] Cons.prems by (auto simp: Let_def case_prod_beta)
qed simp

definition system_new :: "(u64 \<Rightarrow> rng) \<Rightarrow> (nat \<Rightarrow> instant) \<Rightarrow> (nat \<Rightarrow> instant) \<Rightarrow> (nat \<Rightarrow> u64) \<Rightarrow> sim_config \<Rightarrow> sim_system" where
  "system_new seeded now wall secs c = \<lparr>sys_backend = sim_backend_new seeded now wall secs c, sys_tasks = [], sys_dropped = []\<rparr>"

lemma system_new_inv: "system_inv 1 (system_new seeded now wall secs c)"
  using io_new_inv [of now wall secs "\<lambda>_. False" emitter_new 64]
  by (simp add: system_inv_def system_new_def sim_backend_new_def open_requests_def io_scheduler_new_def)

lemma open_count: "system_inv n s \<Longrightarrow> bt_len (io_pending (sb_io (sys_backend s))) = length (open_requests s)"
  by (metis bt_len_def mset_eq_length system_inv_def)

lemma full_refuses:
  assumes "system_inv n s" "n + 1 < 2 ^ 64" "length (open_requests s) = 64" "length data \<le> unat (alloc_size a)"
  shows "\<exists>e. system_step hash (MvCall (OpWrite a data)) s = (Err (InternalFailure e), s)"
    "\<exists>e. system_step hash (MvCall (OpRead a data)) s = (Err (InternalFailure e), s)"
proof -
  let ?b = "sys_backend s"
  have i: "io_inv (sb_io ?b)" "io_max_pending (sb_io ?b) = 64" "unat (io_next_id (sb_io ?b)) + 1 < 2 ^ 64" using assms(1,2) by (simp_all add: system_inv_def)
  have len: "bt_len (io_pending (sb_io ?b)) = 64"
    using assms(3) by (simp add: open_count [OF assms(1)])
  have r: "\<exists>e. request_begin op c k ?b = (Err (InternalFailure e), ?b)" for op c k
    by (cases rule: request_begin_cases [OF i, of op c k]) (use len in simp_all)
  show "\<exists>e. system_step hash (MvCall (OpWrite a data)) s = (Err (InternalFailure e), s)"
    using r [of IoWrite "offset_chunk hash a" "length data"] assms(4) by (auto simp: begin_parts bind_act_def)
  show "\<exists>e. system_step hash (MvCall (OpRead a data)) s = (Err (InternalFailure e), s)"
    using r [of IoRead "offset_chunk hash a" "length data"] assms(4) by (auto simp: begin_parts bind_act_def)
qed

text \<open>
  C23: however allocations, releases, writes and reads are interleaved at their sleeps, whatever is injected and
  whichever of them are dropped while they sleep, none panics, and the pending I/O requests are exactly those
  of the writes and reads that sleep and of those that were dropped, each once. There are at most 64. Once there
  are 64, every further write or read is refused and changes nothing; the requests of dropped calls stay pending
  for good, so that 64 dropped calls close the backend. (Fewer than \<open>2\<^sup>6\<^sup>4 - 2\<close> moves, so that the numbers of the
  requests do not wrap.)
\<close>

theorem sim_requests_accounted:
  assumes "length ms + 2 < 2 ^ 64" "system_run hash ms (system_new seeded now wall secs c) = (qs, s)"
  shows "Panic \<notin> set qs \<and> mset (bt_keys (io_pending (sb_io (sys_backend s)))) = mset (concat (map task_requests (sys_tasks s)) @ sys_dropped s)
    \<and> length (concat (map task_requests (sys_tasks s)) @ sys_dropped s) \<le> 64
    \<and> (length (concat (map task_requests (sys_tasks s)) @ sys_dropped s) = 64 \<longrightarrow> length data \<le> unat (alloc_size a) \<longrightarrow>
        (\<exists>e. system_step hash (MvCall (OpWrite a data)) s = (Err (InternalFailure e), s))
        \<and> (\<exists>e. system_step hash (MvCall (OpRead a data)) s = (Err (InternalFailure e), s)))"
proof -
  have r: "Panic \<notin> set qs" "system_inv (1 + length ms) s"
    using system_run_inv [OF system_new_inv, of ms hash seeded now wall secs c] assms by simp_all
  have "bt_len (io_pending (sb_io (sys_backend s))) \<le> 64" using r(2) by (auto simp: system_inv_def io_inv_def)
  then have "length (open_requests s) \<le> 64"
    by (simp add: open_count [OF r(2)])
  then show ?thesis
    using r full_refuses [OF r(2)] assms(1) by (simp add: system_inv_def open_requests_def)
qed

theorem sim_requests_accounted_witness:
  "\<exists>qs s. system_run id [MvCall (OpAllocate 4), MvResume 0, MvCall (OpWrite (allocation_new 0 4 0) [1]), MvDrop 0]
       (system_new (\<lambda>_. \<lparr>rng_f64 = \<lambda>_. Fin 0, rng_range = \<lambda>_ _. 0\<rparr>) id id (\<lambda>_. 0) (sim_with_capacity 10)) = (qs, s)
     \<and> Panic \<notin> set qs \<and> mset (bt_keys (io_pending (sb_io (sys_backend s)))) = mset (concat (map task_requests (sys_tasks s)) @ sys_dropped s)"
proof -
  let ?ms = "[MvCall (OpAllocate 4), MvResume 0, MvCall (OpWrite (allocation_new 0 4 0) [1]), MvDrop 0]"
  let ?s = "system_new (\<lambda>_. \<lparr>rng_f64 = \<lambda>_. Fin 0, rng_range = \<lambda>_ _. 0\<rparr>) id id (\<lambda>_. 0) (sim_with_capacity 10)"
  obtain qs s where run: "system_run id ?ms ?s = (qs, s)" by (cases "system_run id ?ms ?s")
  have "length ?ms + 2 < 2 ^ 64" by simp
  from sim_requests_accounted [OF this run] run show ?thesis by blast
qed

section \<open>A client cannot tell it from the RAM backend\<close>

definition sim_rel :: "nat \<Rightarrow> sim_backend \<Rightarrow> ram_spec \<Rightarrow> bool" where
  "sim_rel cap b sp \<longleftrightarrow> io_idle b \<and> no_failures (sim_failure (sb_config b)) \<and> \<not> simulate_fragmentation (sb_config b)
     \<and> unat (sim_capacity (sb_config b)) = cap \<and> unat (sb_used b) = spec_used sp \<and> spec_used sp \<le> cap \<and> unat (sb_next_offset b) = next_free sp
     \<and> sb_allocated b = fmdom (live sp) \<and> (\<forall>k. fmlookup (sb_storage b) k = Option.bind (fmlookup (live sp) k) snd)
     \<and> (\<forall>k v. fmlookup (live sp) k = Some v \<longrightarrow> k < sb_next_offset b)"

lemma sim_rel_core: "sim_core b' = sim_core b \<Longrightarrow> io_idle b' \<Longrightarrow> io_idle b \<Longrightarrow> sim_rel cap b' sp = sim_rel cap b sp"
  by (simp add: sim_rel_def sim_core_def)

text \<open>
  The part of an allocation that only its backend reads is left out of the comparison, and so is the text of an internal
  error: the two backends word the refusal of an allocation of no bytes differently.
\<close>

fun visible_out :: "ram_out \<Rightarrow> ram_out" where
  "visible_out (OutAllocation a) = OutAllocation (a\<lparr>backend_data := 0\<rparr>)"
| "visible_out out = out"

fun visible_error :: "backend_error \<Rightarrow> backend_error" where
  "visible_error (InternalFailure _) = InternalFailure []"
| "visible_error e = e"

fun visible :: "(ram_out, backend_error) outcome \<Rightarrow> (ram_out, backend_error) outcome" where
  "visible (Ok out) = Ok (visible_out out)"
| "visible (Err e) = Err (visible_error e)"
| "visible Panic = Panic"

lemma sim_allocate_refines:
  assumes "sim_rel cap b sp" "op_ok cap (OpAllocate n) sp"
  shows "visible (fst (sim_step hash (OpAllocate n) b)) = visible (fst (spec_step cap (OpAllocate n) sp))
    \<and> sim_rel cap (snd (sim_step hash (OpAllocate n) b)) (snd (spec_step cap (OpAllocate n) sp))"
proof (cases "n = 0")
  case True
  then show ?thesis using assms(1) by (simp add: sim_allocate_run fail_def)
next
  case False
  note r = assms(1) [unfolded sim_rel_def]
  have av: "unat (effective_available b) = cap - spec_used sp" using r by (simp add: effective_available_def Let_def unat_saturating_sub)
  then have av': "effective_available b = of_nat (cap - spec_used sp)" by (metis of_nat_unat_id)
  have full: "effective_available b < n \<longleftrightarrow> cap < spec_used sp + unat n" using av r by (auto simp: word_less_nat_alt)
  have u: "unat (sb_used b + n) = spec_used sp + unat n" "unat (sb_next_offset b + n) = next_free sp + unat n"
    using r assms(2) by (auto simp: unat_add_fits)
  have off: "of_nat (next_free sp) = sb_next_offset b" using r by (metis of_nat_unat_id)
  have fresh: "fmlookup (live sp) (sb_next_offset b) = None" using r by (cases "fmlookup (live sp) (sb_next_offset b)") auto
  show ?thesis
  proof (cases rule: sim_allocate_cases [of n b])
    case (refused e b')
    then have "cap < spec_used sp + unat n" "e = InsufficientSpace n (of_nat (cap - spec_used sp))" using r False full av' by auto
    then show ?thesis using refused assms(1) False r sim_rel_core [of b' b] idle_of_io [of b' b] by simp
  next
    case (given b')
    have fit: "\<not> cap < spec_used sp + unat n" using given(4) full not_less by blast
    have su: "spec_used (sp\<lparr>live := fmupd (sb_next_offset b) (n, None) (live sp), next_free := m\<rparr>) = spec_used sp + unat n" for m
      using spec_used_upd [where k = "sb_next_offset b" and n = n and c = None and sp = sp] fresh by (simp add: spec_used_def)
    have nz: "sb_next_offset b < sb_next_offset b + n" using u(2) r False by (simp add: word_less_nat_alt unat_gt_0)
    have below: "k < sb_next_offset b + n" if "fmlookup (live sp) k = Some v" for k v
      using that nz r by (meson order.strict_trans)
    have core: "sb_config b' = sb_config b" "sb_storage b' = sb_storage b" "sb_next_offset b' = sb_next_offset b + n" "sb_used b' = sb_used b + n"
      "sb_allocated b' = finsert (sb_next_offset b) (sb_allocated b)" using given(5) by (simp_all add: sim_core_def)
    have "sim_rel cap b' (sp\<lparr>live := fmupd (sb_next_offset b) (n, None) (live sp), next_free := next_free sp + unat n\<rparr>)"
      using r fit u su nz fresh below idle_of_io [OF given(2)] by (auto simp: sim_rel_def core)
    then show ?thesis using given(1) False fit off by (simp add: allocation_new_def)
  qed
qed

lemma sim_other_refines:
  assumes "sim_rel cap b sp" "op_ok cap x sp" "\<nexists>n. x = OpAllocate n"
  shows "visible (fst (sim_step hash x b)) = visible (fst (spec_step cap x sp)) \<and> sim_rel cap (snd (sim_step hash x b)) (snd (spec_step cap x sp))"
proof (cases x)
  case (OpAllocate n)
  then show ?thesis using assms(3) by blast
next
  case (OpDeallocate a)
  note r = assms(1) [unfolded sim_rel_def]
  obtain c where l: "fmlookup (live sp) (offset a) = Some (alloc_size a, c)" using assms(2) OpDeallocate by (auto simp: is_live_def)
  note su = spec_used_drop [OF l]
  have le: "alloc_size a \<le> sb_used b" using r su by (simp add: word_le_nat_alt)
  show ?thesis
  proof (cases rule: sim_deallocate_cases [of a b])
    case (unknown b')
    then show ?thesis using l r by (simp add: fmlookup_dom_iff)
  next
    case (released b')
    have core: "sb_config b' = sb_config b" "sb_storage b' = fmdrop (offset a) (sb_storage b)" "sb_next_offset b' = sb_next_offset b" "sb_used b' = sb_used b - alloc_size a"
      "sb_allocated b' = sb_allocated b |-| {|offset a|}" using released(4) by (simp_all add: sim_core_def)
    have "sim_rel cap b' (sp\<lparr>live := fmdrop (offset a) (live sp)\<rparr>)"
      using r su le idle_of_io [OF released(2)] by (auto simp: sim_rel_def core unat_sub_fits)
    then show ?thesis using OpDeallocate released(1) by (simp)
  qed
next
  case (OpWrite a d)
  note r = assms(1) [unfolded sim_rel_def]
  obtain c where l: "fmlookup (live sp) (offset a) = Some (alloc_size a, c)" using assms(2) OpWrite by (auto simp: is_live_def)
  have su: "spec_used (sp\<lparr>live := fmupd (offset a) (alloc_size a, e) (live sp)\<rparr>) = spec_used sp" for e
    using spec_used_upd [where k = "offset a" and n = "alloc_size a" and c = e and sp = sp] l by simp
  show ?thesis
  proof (cases "length d \<le> unat (alloc_size a)")
    case True
    from r have idle: "io_idle b" by simp
    show ?thesis
    proof (cases rule: sim_write_cases [OF idle True, of hash])
      case (1 b')
      have core: "sb_config b' = sb_config b" "sb_storage b' = fmupd (offset a) d (sb_storage b)" "sb_next_offset b' = sb_next_offset b" "sb_used b' = sb_used b"
        "sb_allocated b' = sb_allocated b" using 1(3) by (simp_all add: sim_core_def)
      have "offset a |\<in>| fmdom (live sp)" using l by (simp add: fmlookup_dom_iff)
      then have "sim_rel cap b' (sp\<lparr>live := fmupd (offset a) (alloc_size a, Some d) (live sp)\<rparr>)"
        using r su 1(2) l by (auto simp: sim_rel_def core)
      then show ?thesis using OpWrite 1(1) True by (simp)
    next
      case (2 b' st)
      then show ?thesis using r by blast
    qed
  next
    case False
    then show ?thesis using OpWrite assms(1) by (simp add: sim_write_run fail_def )
  qed
next
  case (OpRead a buf)
  note r = assms(1) [unfolded sim_rel_def]
  obtain c where l: "fmlookup (live sp) (offset a) = Some (alloc_size a, c)" using assms(2) OpRead by (auto simp: is_live_def)
  show ?thesis
  proof (cases "length buf \<le> unat (alloc_size a)")
    case True
    from r have idle: "io_idle b" by simp
    obtain b' q where q: "sim_read hash a buf b = (q, b')" "io_idle b'" "sim_core b' = sim_core b"
      "no_failures (sim_failure (sb_config b)) \<longrightarrow> q = (case fmlookup (sb_storage b) (offset a) of
       Some d \<Rightarrow> Ok (take (length buf) d @ drop (length d) buf) | None \<Rightarrow> Err (AllocationNotFound (offset a)))"
      by (rule sim_read_cases [OF idle True, of hash])
    have "sim_rel cap b' sp" using assms(1) sim_rel_core [OF q(3,2) idle] by simp
    moreover have "fmlookup (sb_storage b) (offset a) = c" using r l by simp
    ultimately show ?thesis using OpRead q(1,4) True l r by (cases c) (simp_all)
  next
    case False
    then show ?thesis using OpRead assms(1) by (simp add: sim_read_run fail_def )
  qed
qed

lemma sim_run_refines:
  assumes "sim_rel cap b sp" "run_ok cap xs sp"
  shows "map visible (fst (sim_run hash xs b)) = map visible (fst (spec_run cap xs sp))"
  using assms
proof (induction xs arbitrary: b sp)
  case (Cons x xs)
  have "visible (fst (sim_step hash x b)) = visible (fst (spec_step cap x sp)) \<and> sim_rel cap (snd (sim_step hash x b)) (snd (spec_step cap x sp))"
    using Cons.prems sim_allocate_refines [of cap b sp _ hash] sim_other_refines [of cap b sp x hash] by (cases "\<exists>n. x = OpAllocate n") auto
  then show ?case using Cons.IH [of "snd (sim_step hash x b)" "snd (spec_step cap x sp)"] Cons.prems by (simp add: Let_def case_prod_beta)
qed simp

text \<open>
  C22: with no failures and no fragmentation configured, the simulated backend answers every sequence of calls of a
  well-behaved client that waits for each call to return as the RAM backend of the same capacity does, in both
  profiles of the latter. The answers are the same but for the text of an internal error, with which both
  refuse to allocate no bytes.
\<close>

theorem sim_equals_ram:
  assumes "no_failures (sim_failure c)" "\<not> simulate_fragmentation c" "run_ok (unat (sim_capacity c)) xs spec_empty"
  shows "map visible (fst (sim_run hash xs (sim_backend_new seeded now wall secs c))) = map visible (fst (ram_run pr xs (ram_new (sim_capacity c))))"
proof -
  have "sim_rel (unat (sim_capacity c)) (sim_backend_new seeded now wall secs c) spec_empty"
    using assms(1,2) sim_new_idle [of seeded now wall secs c] by (simp add: sim_rel_def sim_backend_new_def spec_empty_def spec_used_def)
  from sim_run_refines [OF this assms(3)] ram_run_refines [OF ram_rel_new assms(3), of pr] show ?thesis by simp
qed

theorem sim_equals_ram_witness:
  "map visible (fst (sim_run id [OpAllocate 4, OpWrite (allocation_new 0 4 0) [1, 2, 3], OpRead (allocation_new 0 4 0) [0, 0]]
      (sim_backend_new (\<lambda>_. \<lparr>rng_f64 = \<lambda>_. Fin 0, rng_range = \<lambda>_ _. 0\<rparr>) id id (\<lambda>_. 0) (sim_with_capacity 10))))
   = [Ok (OutAllocation (allocation_new 0 4 0)), Ok OutUnit, Ok (OutBytes [1, 2])]"
proof -
  let ?xs = "[OpAllocate 4, OpWrite (allocation_new 0 4 0) [1, 2, 3], OpRead (allocation_new 0 4 0) [0, 0]]"
  have "run_ok (unat (sim_capacity (sim_with_capacity 10))) ?xs spec_empty"
    by (simp add: sim_with_capacity_def sim_config_default_def spec_empty_def spec_used_def is_live_def allocation_new_def)
  moreover have "no_failures (sim_failure (sim_with_capacity 10))" "\<not> simulate_fragmentation (sim_with_capacity 10)"
    by (simp_all add: sim_with_capacity_def sim_config_default_def no_failures_def failure_default_def f64_lit_def)
  ultimately show ?thesis
    using sim_equals_ram [where c = "sim_with_capacity 10" and xs = ?xs and hash = id and pr = Debug
      and seeded = "\<lambda>_. \<lparr>rng_f64 = \<lambda>_. Fin 0, rng_range = \<lambda>_ _. 0\<rparr>" and now = id and wall = id and secs = "\<lambda>_. 0"]
      ram_run_refines [OF ram_rel_new, of "sim_capacity (sim_with_capacity 10)" ?xs Debug]
    by (simp add: sim_with_capacity_def sim_config_default_def spec_empty_def spec_used_def allocation_new_def del: ram_run.simps sim_run.simps)
qed

section \<open>The simulated backend as a storage backend\<close>

definition sim_quiet :: "sim_backend \<Rightarrow> bool" where
  "sim_quiet b \<longleftrightarrow> io_idle b \<and> no_failures (sim_failure (sb_config b)) \<and> \<not> simulate_fragmentation (sb_config b) \<and> sb_used b \<le> sim_capacity (sb_config b)"

definition sim_ready :: "usize \<Rightarrow> sim_backend \<Rightarrow> bool" where
  "sim_ready n b \<longleftrightarrow> sim_quiet b \<and> n \<noteq> 0 \<and> unat (sb_used b) + unat n \<le> unat (sim_capacity (sb_config b))"

definition sim_holds :: "allocation \<Rightarrow> sim_backend \<Rightarrow> bool" where
  "sim_holds a b \<longleftrightarrow> sim_quiet b \<and> offset a |\<in>| sb_allocated b \<and> alloc_size a \<le> sb_used b"

definition sim_content :: "allocation \<Rightarrow> sim_backend \<Rightarrow> bytes option" where
  "sim_content a b = fmlookup (sb_storage b) (offset a)"

definition sim_free :: "sim_backend \<Rightarrow> nat" where
  "sim_free b = unat (sim_capacity (sb_config b)) - unat (sb_used b)"

lemma sim_quiet_io: "sim_quiet b \<Longrightarrow> io_idle b"
  by (simp add: sim_quiet_def)

interpretation sim: storage_backend "sim_ops hash" sim_ready sim_holds sim_content sim_free for hash
proof
  fix n b a d buf
  show "\<exists>a b'. op_allocate (sim_ops hash) n b = (Ok a, b') \<and> alloc_size a = n \<and> sim_holds a b' \<and> sim_free b' + unat n = sim_free b" if "sim_ready n b"
  proof -
    have fits: "unat (sb_used b + n) = unat (sb_used b) + unat n"
      using that unat_less_64 [of "sim_capacity (sb_config b)"] by (auto simp: sim_ready_def unat_add_fits)
    have av: "\<not> effective_available b < n"
      using that by (auto simp: sim_ready_def sim_quiet_def effective_available_def Let_def word_less_nat_alt unat_saturating_sub)
    show ?thesis
    proof (cases rule: sim_allocate_cases [of n b])
      case (refused e b')
      then show ?thesis using that av by (auto simp: sim_ready_def sim_quiet_def)
    next
      case (given b')
      have "sb_config b' = sb_config b" "sb_used b' = sb_used b + n" "sb_allocated b' = finsert (sb_next_offset b) (sb_allocated b)"
        using given(5) by (simp_all add: sim_core_def)
      then show ?thesis using that fits given(1,2)
        by (auto simp: sim_ops_def sim_holds_def sim_quiet_def sim_free_def sim_ready_def allocation_new_def word_le_nat_alt io_idle_def)
    qed
  qed
  show "\<exists>b'. op_write (sim_ops hash) a d b = (Ok (), b') \<and> sim_holds a b' \<and> sim_content a b' = Some d \<and> sim_free b' = sim_free b"
    if "sim_holds a b" "length d \<le> unat (alloc_size a)"
  proof -
    have q: "sim_quiet b" using that(1) by (simp add: sim_holds_def)
    show ?thesis
    proof (cases rule: sim_write_cases [OF sim_quiet_io [OF q] that(2), of hash])
      case (1 b')
      then show ?thesis using that(1) q by (simp add: sim_ops_def sim_holds_def sim_quiet_def sim_content_def sim_free_def sim_core_def)
    next
      case (2 b' st)
      then show ?thesis using q by (simp add: sim_quiet_def)
    qed
  qed
  show "\<exists>b'. op_read (sim_ops hash) a buf b = (Ok d, b') \<and> sim_holds a b' \<and> sim_free b' = sim_free b"
    if "sim_holds a b" "sim_content a b = Some d" "length buf \<le> unat (alloc_size a)" "length buf = length d"
  proof -
    note h = that
    have q: "sim_quiet b" using h(1) by (simp add: sim_holds_def)
    obtain b' r where r: "sim_read hash a buf b = (r, b')" "io_idle b'" "sim_core b' = sim_core b"
      "no_failures (sim_failure (sb_config b)) \<longrightarrow> r = (case fmlookup (sb_storage b) (offset a) of
       Some d \<Rightarrow> Ok (take (length buf) d @ drop (length d) buf) | None \<Rightarrow> Err (AllocationNotFound (offset a)))"
      by (rule sim_read_cases [OF sim_quiet_io [OF q] h(3), of hash])
    then show ?thesis using h(1,2,4) q by (simp add: sim_ops_def sim_holds_def sim_quiet_def sim_content_def sim_free_def sim_core_def)
  qed
  show "\<exists>b'. op_deallocate (sim_ops hash) a b = (Ok (), b') \<and> sim_free b' = sim_free b + unat (alloc_size a)" if "sim_holds a b"
  proof (cases rule: sim_deallocate_cases [of a b])
    case (unknown b')
    then show ?thesis using that by (simp add: sim_holds_def)
  next
    case (released b')
    then show ?thesis using that
      by (auto simp: sim_ops_def sim_holds_def sim_quiet_def sim_free_def sim_core_def unat_sub_fits word_le_nat_alt)
  qed
  show "unat n \<le> sim_free b" if "sim_ready n b" using that by (auto simp: sim_ready_def sim_free_def)
qed

end
