(* ===== verification/Disk_Backend.thy ===== *)
theory Disk_Backend
  imports Sim_Backend Chunk_File
begin

text \<open>
  \<^verbatim>\<open>ghost-tier/src/disk_config.rs\<close> and \<^verbatim>\<open>disk.rs\<close>: the disk backend, built from the simulated backend (which decides
  latency and injected failures), the chunk files and the I/O scheduler. A panic inside \<^verbatim>\<open>spawn_blocking\<close> is an
  error of the task, whose text is not modelled. The theory shows the round trip of a chunk through the backend
  and, exactly, what its accounting leaks.
\<close>

section \<open>Configuration\<close>

datatype disk_type = Hdd | Ssd | Nvme

definition disk_latency_default :: latency_config where
  "disk_latency_default = \<lparr>lat_base = 500000, lat_per_byte = 100, jitter_fraction = f64_lit (2 / 10)\<rparr>"

fun default_latency :: "disk_type \<Rightarrow> latency_config" where
  "default_latency Hdd = \<lparr>lat_base = 5000000, lat_per_byte = 10000, jitter_fraction = f64_lit (5 / 10)\<rparr>"
| "default_latency Ssd = \<lparr>lat_base = 500000, lat_per_byte = 100, jitter_fraction = f64_lit (2 / 10)\<rparr>"
| "default_latency Nvme = \<lparr>lat_base = 50000, lat_per_byte = 10, jitter_fraction = f64_lit (1 / 10)\<rparr>"

fun default_bandwidth :: "disk_type \<Rightarrow> u64" where
  "default_bandwidth Hdd = 209715200"
| "default_bandwidth Ssd = 524288000"
| "default_bandwidth Nvme = 3221225472"

record disk_failure_config =
  dw_failure_rate :: f64
  dr_failure_rate :: f64
  d_corruption_rate :: f64

definition disk_failure_default :: disk_failure_config where
  "disk_failure_default = \<lparr>dw_failure_rate = f64_lit 0, dr_failure_rate = f64_lit 0, d_corruption_rate = f64_lit 0\<rparr>"

record disk_config =
  base_path :: path
  dc_capacity :: usize
  dc_latency :: latency_config
  dc_bandwidth :: u64
  dc_failure :: disk_failure_config
  disk_type :: disk_type
  dc_max_concurrent_ops :: usize
  max_queue_depth :: usize
  fsync_enabled :: bool
  atomic_writes :: bool
  dc_seed :: "u64 option"

definition disk_config_default :: disk_config where
  "disk_config_default = \<lparr>base_path = [''/var/lib/ghostpages/data''], dc_capacity = 107374182400, dc_latency = disk_latency_default,
     dc_bandwidth = 524288000, dc_failure = disk_failure_default, disk_type = Ssd, dc_max_concurrent_ops = 64, max_queue_depth = 256,
     fsync_enabled = True, atomic_writes = True, dc_seed = None\<rparr>"

definition disk_config_new :: "path \<Rightarrow> usize \<Rightarrow> disk_config" where
  "disk_config_new base cap = disk_config_default\<lparr>base_path := base, dc_capacity := cap\<rparr>"

definition with_disk_type :: "disk_type \<Rightarrow> disk_config \<Rightarrow> disk_config" where
  "with_disk_type t c = c\<lparr>disk_type := t, dc_latency := default_latency t, dc_bandwidth := default_bandwidth t\<rparr>"

definition build_sim_config :: "disk_config \<Rightarrow> sim_config" where
  "build_sim_config c =
     (let failure = \<lparr>write_failure_rate = dw_failure_rate (dc_failure c), read_failure_rate = dr_failure_rate (dc_failure c), alloc_failure_rate = f64_lit 0,
        corruption_on_failure = False, corruption_rate = d_corruption_rate (dc_failure c), timeout_rate = f64_lit 0, device_loss_rate = f64_lit 0,
        failure_pattern = RandomFailures\<rparr>
      in sim_with_failure failure (sim_with_bandwidth (dc_bandwidth c) (sim_with_latency (dc_latency c)
           (sim_with_seed (unwrap_or 42 (dc_seed c)) (sim_with_capacity (dc_capacity c))))))"

section \<open>State\<close>

record disk_allocation =
  da_chunk_id :: chunk_id
  da_file_path :: path
  da_original_size :: usize
  da_compressed_size :: usize
  da_disk_size :: usize
  da_reserved_size :: usize
  da_compression :: compression_algorithm
  da_content_hash :: bytes

definition disk_allocation_new :: "chunk_id \<Rightarrow> path \<Rightarrow> usize \<Rightarrow> usize \<Rightarrow> compression_algorithm \<Rightarrow> bytes \<Rightarrow> disk_allocation" where
  "disk_allocation_new c p original compressed alg h = \<lparr>da_chunk_id = c, da_file_path = p, da_original_size = original, da_compressed_size = compressed,
     da_disk_size = 51 + compressed, da_reserved_size = original, da_compression = alg, da_content_hash = h\<rparr>"

text \<open>An \<^verbatim>\<open>Allocation\<close> whose data may be of another backend's type.\<close>

record disk_handle =
  dh_offset :: usize
  dh_size :: usize
  dh_data :: "disk_allocation option"

record disk_backend =
  dk_config :: disk_config
  dk_capacity :: usize
  dk_used :: u64
  dk_allocations :: "(chunk_id, disk_allocation) btree"
  dk_io :: io_scheduler
  dk_queue_depth :: u32
  dk_bytes_written :: u64
  dk_bytes_read :: u64
  dk_sim :: sim_backend
  dk_fs :: filesystem

type_synonym 'a disk_act = "(disk_backend, 'a, backend_error) act"

text \<open>\<open>mkdir p\<close> is what \<^verbatim>\<open>create_dir_all\<close> reports for a path.\<close>

definition create_directories :: "(path \<Rightarrow> message option) \<Rightarrow> path \<Rightarrow> (unit, backend_error) outcome" where
  "create_directories mkdir base = (case mkdir base of
       Some e \<Rightarrow> Err (InternalFailure ([Lit ''failed to create base directory '', Lit (display base), Lit '': ''] @ e))
     | None \<Rightarrow> (case find (\<lambda>p. mkdir p \<noteq> None) (map (\<lambda>i. base @ [hex_encode [of_nat i]]) [0..<256]) of
           Some p \<Rightarrow> Err (InternalFailure ([Lit ''failed to create prefix directory '', Lit (display p), Lit '': ''] @ the (mkdir p)))
         | None \<Rightarrow> Ok ()))"

definition disk_with_emitter :: "(path \<Rightarrow> message option) \<Rightarrow> (u64 \<Rightarrow> rng) \<Rightarrow> (nat \<Rightarrow> instant) \<Rightarrow> (nat \<Rightarrow> instant) \<Rightarrow> (nat \<Rightarrow> u64)
    \<Rightarrow> (nat \<Rightarrow> bool) \<Rightarrow> emitter \<Rightarrow> filesystem \<Rightarrow> disk_config \<Rightarrow> (disk_backend, backend_error) outcome" where
  "disk_with_emitter mkdir seeded now wall secs room em fs c = (case create_directories mkdir (base_path c) of
       Ok _ \<Rightarrow> Ok \<lparr>dk_config = c, dk_capacity = dc_capacity c, dk_used = 0, dk_allocations = fmempty,
         dk_io = io_scheduler_new now wall secs room em 64, dk_queue_depth = 0, dk_bytes_written = 0, dk_bytes_read = 0,
         dk_sim = sim_backend_new seeded now wall secs (build_sim_config c), dk_fs = fs\<rparr>
     | Err e \<Rightarrow> Err e
     | Panic \<Rightarrow> Panic)"

text \<open>The plain constructor drops the receiver of its event channel.\<close>

definition disk_new :: "(path \<Rightarrow> message option) \<Rightarrow> (u64 \<Rightarrow> rng) \<Rightarrow> (nat \<Rightarrow> instant) \<Rightarrow> (nat \<Rightarrow> u64) \<Rightarrow> filesystem \<Rightarrow> disk_config
    \<Rightarrow> (disk_backend, backend_error) outcome" where
  "disk_new mkdir seeded now secs fs c = disk_with_emitter mkdir seeded now now secs (\<lambda>_. False) emitter_new fs c"

definition on_sim :: "'a sim_act \<Rightarrow> 'a disk_act" where
  "on_sim = on_part dk_sim (\<lambda>x b. b\<lparr>dk_sim := x\<rparr>)"

definition on_fs :: "'a chunk_act \<Rightarrow> 'a disk_act" where
  "on_fs = on_part dk_fs (\<lambda>x b. b\<lparr>dk_fs := x\<rparr>)"

definition on_disk_io :: "'a io_act \<Rightarrow> 'a disk_act" where
  "on_disk_io m = map_err_act (\<lambda>e. InternalFailure (ghost_error_display e)) (on_part dk_io (\<lambda>x b. b\<lparr>dk_io := x\<rparr>) m)"

section \<open>Operations\<close>

definition disk_available :: "disk_backend \<Rightarrow> usize" where
  "disk_available b = saturating_sub (dk_capacity b) (dk_used b)"

definition disk_io_pressure :: "profile \<Rightarrow> disk_backend \<Rightarrow> (f32, backend_error) outcome" where
  "disk_io_pressure pr b =
     (let capacity = of_word binary32 (dk_capacity b);
          capacity_pressure = (if fgt capacity (f32_lit 0) then fmin (fdiv binary32 (of_word binary32 (dk_used b)) capacity) (f32_lit 1) else f32_lit 0);
          max_queue = of_word binary32 (max_queue_depth (dk_config b));
          queue_pressure = (if fgt max_queue (f32_lit 0) then fmin (fdiv binary32 (of_word binary32 (dk_queue_depth b)) max_queue) (f32_lit 1) else f32_lit 0);
          combine = (\<lambda>u. fmin (fadd binary32 (fadd binary32 (fmul binary32 (f32_lit (4 / 10)) capacity_pressure) (fmul binary32 (f32_lit (3 / 10)) queue_pressure))
            (fmul binary32 (f32_lit (3 / 10)) u)) (f32_lit 1))
      in if dc_bandwidth (dk_config b) > 0
         then (case add_pr pr (dk_bytes_written b) (dk_bytes_read b) of
             Ok moved \<Rightarrow> Ok (combine (f32_of_f64 (fmin (fdiv binary64 (of_word binary64 moved) (of_word binary64 (dc_bandwidth (dk_config b)))) (f64_lit 1))))
           | Err e \<Rightarrow> Err e
           | Panic \<Rightarrow> Panic)
         else Ok (combine (f32_lit 0)))"

definition disk_allocate :: "profile \<Rightarrow> (bytes \<Rightarrow> bytes) \<Rightarrow> usize \<Rightarrow> disk_handle disk_act" where
  "disk_allocate pr hash n =
     (if n = 0 then fail (InternalFailure [Lit ''cannot allocate zero bytes''])
      else bind_act (on_sim (simulate_latency 0)) (\<lambda>_.
        bind_act (on_sim (should_fail SimAlloc)) (\<lambda>f.
        if f then fail (InternalFailure [Lit ''simulated allocation failure''])
        else (\<lambda>b. let current = dk_used b in
          bind_act (lift_outcome (add_pr pr current n)) (\<lambda>want.
          if want > dk_capacity b
          then bind_act (lift_outcome (sub_pr pr (dk_capacity b) current)) (\<lambda>avail. fail (InsufficientSpace n avail))
          else bind_act (update_act (\<lambda>b. b\<lparr>dk_used := dk_used b + n\<rparr>)) (\<lambda>_.
            bind_act (lift_outcome (add_pr pr current n)) (\<lambda>want'.
            if want' > dk_capacity b
            then bind_act (update_act (\<lambda>b. b\<lparr>dk_used := dk_used b - n\<rparr>)) (\<lambda>_.
              bind_act (lift_outcome (sub_pr pr (dk_capacity b) current)) (\<lambda>avail. fail (InsufficientSpace n avail)))
            else (let c = from_data hash (to_le 8 n);
                      a = disk_allocation_new c (chunk_path (base_path (dk_config b)) c) n 0 NoCompression (replicate 32 0) in
              bind_act (update_act (\<lambda>b. b\<lparr>dk_allocations := fmupd c a (dk_allocations b)\<rparr>)) (\<lambda>_.
              ret \<lparr>dh_offset = 0, dh_size = n, dh_data = Some a\<rparr>))))) b))))"

definition wrong_backend :: backend_error where
  "wrong_backend = InternalFailure [Lit ''allocation is not a DiskAllocation'']"

definition delete_chunk_file :: "path \<Rightarrow> unit disk_act" where
  "delete_chunk_file p = on_fs (map_err_act (\<lambda>e. InternalFailure ([Lit ''failed to delete chunk file '', Lit (display p), Lit '': ''] @ e)) (fs_remove_file p))"

definition disk_deallocate :: "disk_handle \<Rightarrow> unit disk_act" where
  "disk_deallocate h =
     bind_act (on_sim (simulate_latency 0)) (\<lambda>_.
     case dh_data h of None \<Rightarrow> fail wrong_backend | Some d \<Rightarrow> (\<lambda>b.
       case fmlookup (dk_allocations b) (da_chunk_id d) of
         None \<Rightarrow> fail (AllocationNotFound (dh_offset h)) b
       | Some removed \<Rightarrow>
           bind_act (update_act (\<lambda>b. b\<lparr>dk_allocations := fmdrop (da_chunk_id d) (dk_allocations b)\<rparr>)) (\<lambda>_.
           bind_act (if fs_exists (da_file_path removed) (dk_fs b) then delete_chunk_file (da_file_path removed) else ret ()) (\<lambda>_.
           update_act (\<lambda>b. b\<lparr>dk_used := dk_used b - da_reserved_size removed\<rparr>))) b))"

text \<open>The first pending request of the chunk and operation is completed, if there is one.\<close>

definition complete_first :: "chunk_id \<Rightarrow> io_operation \<Rightarrow> message option \<Rightarrow> unit disk_act" where
  "complete_first c op e b = (case find (\<lambda>(_, r). rq_chunk_id r = c \<and> rq_operation r = op) (bt_entries (io_pending (dk_io b))) of
       Some (i, _) \<Rightarrow> on_disk_io (complete i e) b
     | None \<Rightarrow> ret () b)"

text \<open>\<^verbatim>\<open>spawn_blocking(..).await.map_err(..)?\<close>: a panic of the closure becomes an error at once; its own result is a value.\<close>

definition spawn_blocking :: "(message \<Rightarrow> backend_error) \<Rightarrow> 'a chunk_act \<Rightarrow> (backend_error + 'a) disk_act" where
  "spawn_blocking wrap m b = (case on_fs m b of
       (Ok a, b') \<Rightarrow> (Ok (Inr a), b')
     | (Err e, b') \<Rightarrow> (Ok (Inl e), b')
     | (Panic, b') \<Rightarrow> (Err (wrap [Lit ''spawn_blocking failed: '']), b'))"

fun backend_error_display :: "backend_error \<Rightarrow> message" where
  "backend_error_display (InsufficientSpace n m) = [Lit ''insufficient space: requested '', FmtNat (unat n), Lit '', available '', FmtNat (unat m)]"
| "backend_error_display (AllocationNotFound n) = [Lit ''allocation not found at offset '', FmtNat (unat n)]"
| "backend_error_display (WriteFailed e) = Lit ''write failed: '' # e"
| "backend_error_display (ReadFailed e) = Lit ''read failed: '' # e"
| "backend_error_display (IntegrityFailed e) = Lit ''integrity check failed: '' # e"
| "backend_error_display (Unhealthy e) = Lit ''backend unhealthy: '' # e"
| "backend_error_display (NotSupported e) = Lit ''operation not supported: '' # e"
| "backend_error_display (InternalFailure e) = Lit ''internal error: '' # e"

definition queue_step :: "(u32 \<Rightarrow> u32) \<Rightarrow> unit disk_act" where
  "queue_step f = update_act (\<lambda>b. b\<lparr>dk_queue_depth := f (dk_queue_depth b)\<rparr>)"

definition written_entry :: "nat \<Rightarrow> nat \<Rightarrow> compression_algorithm \<Rightarrow> bytes \<Rightarrow> disk_allocation \<Rightarrow> disk_allocation" where
  "written_entry disk_size data_len alg h a = a\<lparr>da_compressed_size := of_nat (disk_size - header_size), da_disk_size := of_nat disk_size,
     da_compression := alg, da_content_hash := h, da_original_size := of_nat data_len\<rparr>"

definition record_written :: "chunk_id \<Rightarrow> nat \<Rightarrow> nat \<Rightarrow> compression_algorithm \<Rightarrow> bytes \<Rightarrow> unit disk_act" where
  "record_written c disk_size data_len alg h = update_act (\<lambda>b. case fmlookup (dk_allocations b) c of
       None \<Rightarrow> b
     | Some a \<Rightarrow> b\<lparr>dk_used := dk_used b - da_disk_size a + of_nat disk_size, dk_allocations := fmupd c (written_entry disk_size data_len alg h a) (dk_allocations b)\<rparr>)"

text \<open>What \<^verbatim>\<open>write\<close> and \<^verbatim>\<open>read\<close> do once the simulation layer lets them pass.\<close>

definition finish_write :: "zstd \<Rightarrow> (bytes \<Rightarrow> bytes) \<Rightarrow> disk_handle \<Rightarrow> chunk_id \<Rightarrow> bytes \<Rightarrow> compression_algorithm \<Rightarrow> unit disk_act" where
  "finish_write z hash h c data alg b =
     bind_act (spawn_blocking WriteFailed (write_chunk z (base_path (dk_config b)) c data (hash data) alg)) (\<lambda>result.
     bind_act (queue_step (\<lambda>q. q - 1)) (\<lambda>_.
     case result of
       Inr disk_size \<Rightarrow>
         bind_act (record_written c disk_size (length data) alg (hash data)) (\<lambda>_.
         bind_act (update_act (\<lambda>b. b\<lparr>dk_bytes_written := dk_bytes_written b + of_nat disk_size\<rparr>)) (\<lambda>_.
         complete_first c IoWrite None))
     | Inl e \<Rightarrow>
         bind_act (complete_first c IoWrite (Some (backend_error_display e))) (\<lambda>_.
         bind_act (update_act (\<lambda>b. b\<lparr>dk_used := dk_used b - dh_size h, dk_allocations := fmdrop c (dk_allocations b)\<rparr>)) (\<lambda>_.
         fail e)))) b"

definition finish_read :: "zstd \<Rightarrow> (bytes \<Rightarrow> bytes) \<Rightarrow> chunk_id \<Rightarrow> bytes \<Rightarrow> bytes \<Rightarrow> bytes disk_act" where
  "finish_read z hash c expected buf b =
     bind_act (spawn_blocking ReadFailed (read_chunk z hash (base_path (dk_config b)) c expected)) (\<lambda>result.
     bind_act (queue_step (\<lambda>q. q - 1)) (\<lambda>_.
     case result of
       Inr data \<Rightarrow> (let len = min (length buf) (length data) in
         bind_act (update_act (\<lambda>b. b\<lparr>dk_bytes_read := dk_bytes_read b + of_nat (length data)\<rparr>)) (\<lambda>_.
         bind_act (complete_first c IoRead None) (\<lambda>_.
         ret (take len data @ drop len buf))))
     | Inl e \<Rightarrow> bind_act (complete_first c IoRead (Some (backend_error_display e))) (\<lambda>_. fail e))) b"

text \<open>A request is issued and the simulation layer decides whether it goes on; if not, the request stays pending.\<close>

definition guarded_io :: "io_operation \<Rightarrow> sim_operation \<Rightarrow> backend_error \<Rightarrow> chunk_id \<Rightarrow> nat \<Rightarrow> 'a disk_act \<Rightarrow> 'a disk_act" where
  "guarded_io op sop failure c n go =
     bind_act (on_disk_io (issue op c Disk)) (\<lambda>_.
     bind_act (queue_step (\<lambda>q. q + 1)) (\<lambda>_.
     bind_act (on_sim (simulate_latency n)) (\<lambda>_.
     bind_act (on_sim (should_fail sop)) (\<lambda>f.
     if f then bind_act (queue_step (\<lambda>q. q - 1)) (\<lambda>_. fail failure) else go))))"

definition disk_write :: "zstd \<Rightarrow> (bytes \<Rightarrow> bytes) \<Rightarrow> disk_handle \<Rightarrow> bytes \<Rightarrow> unit disk_act" where
  "disk_write z hash h data =
     (if length data > unat (dh_size h)
      then fail (WriteFailed [Lit ''data size '', FmtNat (length data), Lit '' exceeds allocation size '', FmtNat (unat (dh_size h))])
      else case dh_data h of None \<Rightarrow> fail wrong_backend | Some d \<Rightarrow>
        guarded_io IoWrite SimWrite (WriteFailed [Lit ''simulated write failure'']) (da_chunk_id d) (length data)
          (finish_write z hash h (da_chunk_id d) data (if length data > 1024 then Zstd else NoCompression)))"

definition disk_read :: "zstd \<Rightarrow> (bytes \<Rightarrow> bytes) \<Rightarrow> disk_handle \<Rightarrow> bytes \<Rightarrow> bytes disk_act" where
  "disk_read z hash h buf =
     (if length buf > unat (dh_size h)
      then fail (ReadFailed [Lit ''buffer size '', FmtNat (length buf), Lit '' exceeds allocation size '', FmtNat (unat (dh_size h))])
      else case dh_data h of None \<Rightarrow> fail wrong_backend | Some d \<Rightarrow> (\<lambda>b.
        case fmlookup (dk_allocations b) (da_chunk_id d) of
          None \<Rightarrow> fail (AllocationNotFound (dh_offset h)) b
        | Some a \<Rightarrow> guarded_io IoRead SimRead (ReadFailed [Lit ''simulated read failure'']) (da_chunk_id d) (length buf)
            (finish_read z hash (da_chunk_id d) (da_content_hash a) buf) b))"

definition disk_verify_integrity :: "zstd \<Rightarrow> (bytes \<Rightarrow> bytes) \<Rightarrow> disk_handle \<Rightarrow> bytes \<Rightarrow> unit disk_act" where
  "disk_verify_integrity z hash h expected =
     bind_act (on_sim (simulate_latency 0)) (\<lambda>_.
     case dh_data h of None \<Rightarrow> fail wrong_backend | Some d \<Rightarrow> (\<lambda>b.
       case fmlookup (dk_allocations b) (da_chunk_id d) of
         None \<Rightarrow> fail (AllocationNotFound (dh_offset h)) b
       | Some a \<Rightarrow>
           if da_content_hash a \<noteq> expected
           then fail (IntegrityFailed [Lit ''stored hash '', Lit (hex_encode (da_content_hash a)), Lit '' does not match expected '', Lit (hex_encode expected)]) b
           else if \<not> fs_exists (da_file_path a) (dk_fs b)
           then fail (IntegrityFailed [Lit ''chunk file '', Lit (display (da_file_path a)), Lit '' does not exist'']) b
           else bind_act (spawn_blocking IntegrityFailed (read_chunk z hash (base_path (dk_config b)) (da_chunk_id d) (da_content_hash a))) (\<lambda>result.
             case result of
               Inr data \<Rightarrow> (if hash data \<noteq> expected
                 then fail (IntegrityFailed [Lit ''content hash mismatch: expected '', Lit (hex_encode expected), Lit '', got '', Lit (hex_encode (hash data))])
                 else ret ())
             | Inl e \<Rightarrow> fail (IntegrityFailed (Lit ''read failed during integrity check: '' # backend_error_display e))) b))"

datatype base_status = BaseMissing | BaseNotDirectory | BaseDirectory

definition disk_health_check :: "base_status \<Rightarrow> unit disk_act" where
  "disk_health_check st =
     bind_act (on_sim (simulate_latency 0)) (\<lambda>_ b.
       let base = base_path (dk_config b); name = Lit (display base); test_file = base @ [''.ghostpages_health_check''] in
       case st of
         BaseMissing \<Rightarrow> fail (Unhealthy [Lit ''base directory '', name, Lit '' does not exist'']) b
       | BaseNotDirectory \<Rightarrow> fail (Unhealthy [Lit ''base path '', name, Lit '' is not a directory'']) b
       | BaseDirectory \<Rightarrow>
           bind_act (on_fs (map_err_act (\<lambda>e. Unhealthy ([Lit ''cannot write to base directory '', name, Lit '': ''] @ e))
             (fs_write test_file (map of_char ''health_check'')))) (\<lambda>_.
           bind_act (on_fs (map_err_act (\<lambda>e. Unhealthy ([Lit ''cannot read from base directory '', name, Lit '': ''] @ e)) (fs_read test_file))) (\<lambda>_.
           on_fs (map_err_act (\<lambda>e. Unhealthy ([Lit ''cannot delete from base directory '', name, Lit '': ''] @ e)) (fs_remove_file test_file)))) b)"

definition disk_pressure :: "profile \<Rightarrow> disk_backend \<Rightarrow> (pressure_state, backend_error) outcome" where
  "disk_pressure pr b = (case disk_io_pressure pr b of
       Ok io \<Rightarrow> (case add_pr pr (dk_bytes_written b) (dk_bytes_read b) of
           Ok moved \<Rightarrow> Ok \<lparr>memory_pressure = f32_of_f64 (sim_memory_pressure (dk_sim b)), vram_pressure = f32_lit 0, io_pressure = io,
             queue_depth = dk_queue_depth b, throughput_bps = moved\<rparr>
         | Err e \<Rightarrow> Err e
         | Panic \<Rightarrow> Panic)
     | Err e \<Rightarrow> Err e
     | Panic \<Rightarrow> Panic)"

text \<open>\<^verbatim>\<open>as_secs_f64\<close> adds the whole seconds and the fraction.\<close>

definition secs_f64 :: "nat \<Rightarrow> f64" where
  "secs_f64 ns = fadd binary64 (rnd binary64 (of_nat (ns div 1000000000))) (fdiv binary64 (rnd binary64 (of_nat (ns mod 1000000000))) (f64_lit 1000000000))"

definition disk_cost_model :: "profile \<Rightarrow> disk_backend \<Rightarrow> (physical_cost, backend_error) outcome" where
  "disk_cost_model pr b = (case disk_io_pressure pr b of
       Ok io \<Rightarrow> Ok \<lparr>latency_ms = fmul binary64 (secs_f64 (lat_base (dc_latency (dk_config b)))) (f64_lit 1000),
         bandwidth_bps = of_word binary64 (dc_bandwidth (dk_config b)),
         reliability = fsub binary64 (f64_lit 1) (dw_failure_rate (dc_failure (dk_config b))), cost_io_pressure = io, cost_queue_depth = dk_queue_depth b\<rparr>
     | Err e \<Rightarrow> Err e
     | Panic \<Rightarrow> Panic)"

text \<open>
  The helpers that take a path: the data goes under its own identifier next to the path, and a read looks for the identifier
  made of the path's text.
\<close>

definition write_chunk_file :: "zstd \<Rightarrow> (bytes \<Rightarrow> bytes) \<Rightarrow> path \<Rightarrow> bytes \<Rightarrow> compression_algorithm \<Rightarrow> (nat \<times> bytes) chunk_act" where
  "write_chunk_file z hash p data alg = bind_act (write_chunk z (butlast p) (from_data hash data) data (hash data) alg) (\<lambda>n. ret (n, hash data))"

definition read_chunk_file :: "zstd \<Rightarrow> (bytes \<Rightarrow> bytes) \<Rightarrow> path \<Rightarrow> bytes \<Rightarrow> bytes chunk_act" where
  "read_chunk_file z hash p expected = read_chunk z hash (butlast p) (from_data hash (map of_char (display p))) expected"

section \<open>A backend in good order\<close>

text \<open>The file system works, nothing is pending, and no failures are injected.\<close>

definition disk_ok :: "disk_backend \<Rightarrow> bool" where
  "disk_ok b \<longleftrightarrow> (\<forall>k. fs_faults (dk_fs b) k = Fine) \<and> io_pending (dk_io b) = fmempty \<and> 0 < io_max_pending (dk_io b)
     \<and> no_failures (sim_failure (sb_config (dk_sim b)))"

abbreviation disk_base :: "disk_backend \<Rightarrow> path" where
  "disk_base b \<equiv> base_path (dk_config b)"

abbreviation disk_file :: "chunk_id \<Rightarrow> disk_backend \<Rightarrow> bytes option" where
  "disk_file c b \<equiv> file_at (disk_base b) c (dk_fs b)"

lemma latency_on_sim:
  obtains s where "on_sim (simulate_latency n) b = (Ok (), b\<lparr>dk_sim := s\<rparr>)" "sim_core s = sim_core (dk_sim b)"
proof -
  obtain s where "simulate_latency n (dk_sim b) = (Ok (), s)" "sim_core s = sim_core (dk_sim b)" by (rule latency_step)
  then show ?thesis using that [of s] by (simp add: on_sim_def on_part_def)
qed

lemma failure_on_sim:
  obtains f s where "on_sim (should_fail op) b = (Ok f, b\<lparr>dk_sim := s\<rparr>)" "sim_core s = sim_core (dk_sim b)"
    "no_failures (sim_failure (sb_config (dk_sim b))) \<longrightarrow> \<not> f"
proof -
  obtain f s where "should_fail op (dk_sim b) = (Ok f, s)" "sim_core s = sim_core (dk_sim b)" "no_failures (sim_failure (sb_config (dk_sim b))) \<longrightarrow> \<not> f"
    by (rule should_fail_step)
  then show ?thesis using that [of f s] by (simp add: on_sim_def on_part_def)
qed

text \<open>The simulation layer lets an operation pass.\<close>

lemma sim_gate:
  obtains f s where "\<forall>k. bind_act (on_sim (simulate_latency n)) (\<lambda>_. bind_act (on_sim (should_fail op)) k) b = k f (b\<lparr>dk_sim := s\<rparr>)"
    "sim_core s = sim_core (dk_sim b)" "no_failures (sim_failure (sb_config (dk_sim b))) \<longrightarrow> \<not> f"
proof -
  obtain s1 where s1: "on_sim (simulate_latency n) b = (Ok (), b\<lparr>dk_sim := s1\<rparr>)" "sim_core s1 = sim_core (dk_sim b)" by (rule latency_on_sim)
  obtain f s2 where s2: "on_sim (should_fail op) (b\<lparr>dk_sim := s1\<rparr>) = (Ok f, b\<lparr>dk_sim := s1\<rparr>\<lparr>dk_sim := s2\<rparr>)" "sim_core s2 = sim_core (dk_sim (b\<lparr>dk_sim := s1\<rparr>))"
    "no_failures (sim_failure (sb_config (dk_sim (b\<lparr>dk_sim := s1\<rparr>)))) \<longrightarrow> \<not> f" by (rule failure_on_sim)
  show ?thesis
  proof (rule that [of f s2])
    show "\<forall>k. bind_act (on_sim (simulate_latency n)) (\<lambda>_. bind_act (on_sim (should_fail op)) k) b = k f (b\<lparr>dk_sim := s2\<rparr>)"
      using s1(1) s2(1) by (simp add: bind_act_def)
    show "sim_core s2 = sim_core (dk_sim b)" using s1(2) s2(2) by simp
    show "no_failures (sim_failure (sb_config (dk_sim b))) \<longrightarrow> \<not> f" using s1(2) s2(3) by (simp add: sim_core_def)
  qed
qed

lemma disk_ok_sim: "sim_core s = sim_core (dk_sim b) \<Longrightarrow> disk_ok (b\<lparr>dk_sim := s\<rparr>) = disk_ok b"
  by (simp add: disk_ok_def sim_core_def)

text \<open>The identifier of an allocation is the hash of its size.\<close>

definition size_chunk :: "(bytes \<Rightarrow> bytes) \<Rightarrow> usize \<Rightarrow> chunk_id" where
  "size_chunk hash n = from_data hash (to_le 8 n)"

definition fresh_entry :: "(bytes \<Rightarrow> bytes) \<Rightarrow> path \<Rightarrow> usize \<Rightarrow> disk_allocation" where
  "fresh_entry hash base n = disk_allocation_new (size_chunk hash n) (chunk_path base (size_chunk hash n)) n 0 NoCompression (replicate 32 0)"

lemma disk_allocate_ok:
  assumes "disk_ok b" "n \<noteq> 0" "unat (dk_used b) + unat n \<le> unat (dk_capacity b)"
  obtains b' where "disk_allocate pr hash n b = (Ok \<lparr>dh_offset = 0, dh_size = n, dh_data = Some (fresh_entry hash (disk_base b) n)\<rparr>, b')"
    "disk_ok b'" "dk_used b' = dk_used b + n" "dk_allocations b' = fmupd (size_chunk hash n) (fresh_entry hash (disk_base b) n) (dk_allocations b)"
    "dk_config b' = dk_config b" "dk_capacity b' = dk_capacity b" "dk_fs b' = dk_fs b" "sb_used (dk_sim b') = sb_used (dk_sim b)"
proof -
  obtain f s where g: "\<forall>k. bind_act (on_sim (simulate_latency 0)) (\<lambda>_. bind_act (on_sim (should_fail SimAlloc)) k) b = (k f (b\<lparr>dk_sim := s\<rparr>) :: (disk_handle, backend_error) outcome \<times> disk_backend)"
    "sim_core s = sim_core (dk_sim b)" "no_failures (sim_failure (sb_config (dk_sim b))) \<longrightarrow> \<not> f"
    by (rule sim_gate [where n = 0 and op = SimAlloc and b = b])
  have f: "\<not> f" using g(3) assms(1) by (simp add: disk_ok_def)
  have fits: "unat (dk_used b) + unat n < 2 ^ 64" using assms(3) unat_less_64 [of "dk_capacity b"] by linarith
  then have ar: "add_pr pr (dk_used b) n = Ok (dk_used b + n)" by (simp add: add_pr_fits)
  have le: "\<not> dk_capacity b < dk_used b + n" using assms(3) fits by (simp add: word_less_nat_alt unat_add_fits)
  let ?b = "b\<lparr>dk_sim := s, dk_used := dk_used b + n, dk_allocations := fmupd (size_chunk hash n) (fresh_entry hash (disk_base b) n) (dk_allocations b)\<rparr>"
  have "disk_allocate pr hash n b = (Ok \<lparr>dh_offset = 0, dh_size = n, dh_data = Some (fresh_entry hash (disk_base b) n)\<rparr>, ?b)"
    using assms(2) f le by (simp add: disk_allocate_def g(1) [rule_format] Let_def)
      (simp add: bind_act_def lift_outcome_def ar update_act_def ret_def size_chunk_def fresh_entry_def Let_def)
  moreover have "disk_ok ?b" using assms(1) g(2) by (simp add: disk_ok_def sim_core_def)
  ultimately show ?thesis using g(2) by (intro that [of ?b]) (simp_all add: sim_core_def)
qed

text \<open>A request that was issued on an idle scheduler is the one completed.\<close>

lemma complete_first_ok:
  assumes "io_pending (dk_io b) = fmupd i r fmempty" "rq_operation r = op" "rq_chunk_id r = c"
  obtains io where "complete_first c op e b = (Ok (), b\<lparr>dk_io := io\<rparr>)" "io_pending io = fmempty" "io_max_pending io = io_max_pending (dk_io b)"
proof -
  have "bt_entries (fmupd i r fmempty) = [(i, r)]" by (simp add: bt_entries_def bt_keys_upd)
  then have f: "find (\<lambda>(_, r). rq_chunk_id r = c \<and> rq_operation r = op) (bt_entries (io_pending (dk_io b))) = Some (i, r)" using assms by simp
  obtain io where io: "complete i e (dk_io b) = (Ok (), io)" "io_pending io = fmdrop i (io_pending (dk_io b))" "io_max_pending io = io_max_pending (dk_io b)"
    by (rule complete_one [of "dk_io b" i r]) (use assms(1) in simp)
  have "io_pending io = fmempty" using io(2) assms(1) by (auto intro: fmap_ext)
  then show ?thesis using that [of io] io(1,3) by (simp add: complete_first_def f on_disk_io_def map_err_act_def on_part_def)
qed

text \<open>An idle scheduler and a simulation layer that injects nothing let a request through.\<close>

lemma guarded_io_ok:
  assumes "disk_ok b"
  obtains i r io s where "guarded_io op sop failure c n go b = go (b\<lparr>dk_io := io, dk_queue_depth := dk_queue_depth b + 1, dk_sim := s\<rparr>)"
    "io_pending io = fmupd i r fmempty" "io_max_pending io = io_max_pending (dk_io b)" "rq_operation r = op" "rq_chunk_id r = c"
    "sim_core s = sim_core (dk_sim b)"
proof -
  obtain i r io where io: "issue op c Disk (dk_io b) = (Ok i, io)" "io_pending io = fmupd i r fmempty" "io_max_pending io = io_max_pending (dk_io b)"
    "rq_operation r = op" "rq_chunk_id r = c"
    by (rule issue_idle [of "dk_io b" op c Disk]) (use assms in \<open>simp_all add: disk_ok_def\<close>)
  let ?b = "b\<lparr>dk_io := io, dk_queue_depth := dk_queue_depth b + 1\<rparr>"
  obtain s1 where s1: "on_sim (simulate_latency n) ?b = (Ok (), ?b\<lparr>dk_sim := s1\<rparr>)" "sim_core s1 = sim_core (dk_sim ?b)" by (rule latency_on_sim)
  obtain f s2 where s2: "on_sim (should_fail sop) (?b\<lparr>dk_sim := s1\<rparr>) = (Ok f, ?b\<lparr>dk_sim := s1\<rparr>\<lparr>dk_sim := s2\<rparr>)"
    "sim_core s2 = sim_core (dk_sim (?b\<lparr>dk_sim := s1\<rparr>))" "no_failures (sim_failure (sb_config (dk_sim (?b\<lparr>dk_sim := s1\<rparr>)))) \<longrightarrow> \<not> f"
    by (rule failure_on_sim)
  have "\<not> f" using s1(2) s2(3) assms by (simp add: disk_ok_def sim_core_def)
  then have run: "guarded_io op sop failure c n go b = go (?b\<lparr>dk_sim := s2\<rparr>)"
    using io(1) s1(1) s2(1) by (simp add: guarded_io_def bind_act_def on_disk_io_def map_err_act_def on_part_def queue_step_def update_act_def)
  show ?thesis by (rule that [OF run io(2-5)]) (use s1(2) s2(2) in simp)
qed

definition write_algorithm :: "bytes \<Rightarrow> compression_algorithm" where
  "write_algorithm data = (if length data > 1024 then Zstd else NoCompression)"

lemma disk_write_ok:
  assumes "disk_ok b" "dh_data h = Some d" "fmlookup (dk_allocations b) (da_chunk_id d) = Some a" "length data \<le> unat (dh_size h)"
    "compress z default_level (write_algorithm data) data = Ok cs" "length (hash data) = 32"
  obtains b' where "disk_write z hash h data b = (Ok (), b')" "disk_ok b'" "dk_used b' = dk_used b - da_disk_size a + of_nat (51 + length cs)"
    "dk_allocations b' = fmupd (da_chunk_id d) (written_entry (51 + length cs) (length data) (write_algorithm data) (hash data) a) (dk_allocations b)"
    "disk_file (da_chunk_id d) b' = Some (chunk_image (hash data) (length data) (write_algorithm data) cs)"
    "\<forall>c'. c' \<noteq> da_chunk_id d \<longrightarrow> disk_file c' b' = disk_file c' b"
    "dk_config b' = dk_config b" "dk_capacity b' = dk_capacity b" "sb_used (dk_sim b') = sb_used (dk_sim b)"
proof -
  let ?c = "da_chunk_id d" and ?alg = "write_algorithm data" and ?n = "51 + length cs"
  obtain i r io s where g: "guarded_io IoWrite SimWrite (WriteFailed [Lit ''simulated write failure'']) ?c (length data) (finish_write z hash h ?c data ?alg) b
      = finish_write z hash h ?c data ?alg (b\<lparr>dk_io := io, dk_queue_depth := dk_queue_depth b + 1, dk_sim := s\<rparr>)"
    "io_pending io = fmupd i r fmempty" "io_max_pending io = io_max_pending (dk_io b)" "rq_operation r = IoWrite" "rq_chunk_id r = ?c"
    "sim_core s = sim_core (dk_sim b)" by (rule guarded_io_ok [OF assms(1)])
  have len: "length (chunk_image (hash data) (length data) ?alg cs) = ?n" using assms(6) by (simp add: chunk_image_def header_size_def)
  obtain fs where fs: "write_chunk z (disk_base b) ?c data (hash data) ?alg (dk_fs b) = (Ok ?n, fs)"
    "fs_files fs = fmupd (chunk_path (disk_base b) ?c) (chunk_image (hash data) (length data) ?alg cs)
       (fmdrop (with_extension (chunk_path (disk_base b) ?c) ''blk.tmp'') (fs_files (dk_fs b)))" "fs_faults fs = fs_faults (dk_fs b)"
    using write_chunk_cases [OF assms(5), of "disk_base b" ?c "hash data" "dk_fs b"] assms(1) len by (metis disk_ok_def)
  define b3 where "b3 = b\<lparr>dk_io := io, dk_queue_depth := dk_queue_depth b, dk_sim := s, dk_fs := fs, dk_used := dk_used b - da_disk_size a + of_nat ?n,
    dk_allocations := fmupd ?c (written_entry ?n (length data) ?alg (hash data) a) (dk_allocations b), dk_bytes_written := dk_bytes_written b + of_nat ?n\<rparr>"
  obtain io' where io': "complete_first ?c IoWrite None b3 = (Ok (), b3\<lparr>dk_io := io'\<rparr>)" "io_pending io' = fmempty" "io_max_pending io' = io_max_pending (dk_io b3)"
    by (rule complete_first_ok [of b3 i r IoWrite ?c None]) (use g in \<open>simp_all add: b3_def\<close>)
  have "disk_write z hash h data b = finish_write z hash h ?c data ?alg (b\<lparr>dk_io := io, dk_queue_depth := dk_queue_depth b + 1, dk_sim := s\<rparr>)"
    using assms(2,4) g(1) by (simp add: disk_write_def flip: write_algorithm_def)
  also have "\<dots> = complete_first ?c IoWrite None b3"
    using fs(1) assms(3)
    by (simp add: finish_write_def bind_act_def spawn_blocking_def on_fs_def on_part_def queue_step_def update_act_def record_written_def b3_def)
  finally have run: "disk_write z hash h data b = (Ok (), b3\<lparr>dk_io := io'\<rparr>)" using io'(1) by simp
  have "\<forall>c'. c' \<noteq> ?c \<longrightarrow> file_at (disk_base b) c' fs = file_at (disk_base b) c' (dk_fs b)"
    using fs(2) temp_not_chunk [of "disk_base b" ?c "disk_base b", symmetric] by (auto simp: file_at_def chunk_path_inj)
  then show ?thesis using that [OF run] assms(1) g(3,6) io'(2,3) fs(2,3)
    by (simp add: b3_def disk_ok_def sim_core_def file_at_def)
qed

lemma disk_read_ok:
  assumes "disk_ok b" "dh_data h = Some d" "fmlookup (dk_allocations b) (da_chunk_id d) = Some a" "length buf \<le> unat (dh_size h)"
    "disk_file (da_chunk_id d) b = Some (chunk_image (hash data) (length data) alg cs)" "da_content_hash a = hash data"
    "length (hash data) = 32" "length data < 2 ^ 32" "length cs < 2 ^ 32" "decompress z alg (Some (length data)) cs = Ok data"
  obtains b' where "disk_read z hash h buf b = (Ok (take (length buf) data @ drop (length data) buf), b')" "disk_ok b'" "dk_used b' = dk_used b"
    "dk_allocations b' = dk_allocations b" "fs_files (dk_fs b') = fs_files (dk_fs b)"
    "dk_config b' = dk_config b" "dk_capacity b' = dk_capacity b" "sb_used (dk_sim b') = sb_used (dk_sim b)"
proof -
  let ?c = "da_chunk_id d"
  obtain i r io s where g: "guarded_io IoRead SimRead (ReadFailed [Lit ''simulated read failure'']) ?c (length buf) (finish_read z hash ?c (da_content_hash a) buf) b
      = finish_read z hash ?c (da_content_hash a) buf (b\<lparr>dk_io := io, dk_queue_depth := dk_queue_depth b + 1, dk_sim := s\<rparr>)"
    "io_pending io = fmupd i r fmempty" "io_max_pending io = io_max_pending (dk_io b)" "rq_operation r = IoRead" "rq_chunk_id r = ?c"
    "sim_core s = sim_core (dk_sim b)" by (rule guarded_io_ok [OF assms(1)])
  have fine: "fs_fault (dk_fs b) = Fine" using assms(1) by (simp add: disk_ok_def fs_fault_def)
  have "parse_chunk z hash name (hash data) (chunk_image (hash data) (length data) alg cs) = Ok data" for name
    using assms(7-10) unfolding chunk_image_def by (subst parse_header) simp_all
  then have rd: "read_chunk z hash (disk_base b) ?c (da_content_hash a) (dk_fs b) = (Ok data, fs_called (dk_fs b))"
    by (simp add: read_chunk_fine [OF fine assms(5)] assms(6))
  define b3 where "b3 = b\<lparr>dk_io := io, dk_queue_depth := dk_queue_depth b, dk_sim := s, dk_fs := fs_called (dk_fs b), dk_bytes_read := dk_bytes_read b + of_nat (length data)\<rparr>"
  obtain io' where io': "complete_first ?c IoRead None b3 = (Ok (), b3\<lparr>dk_io := io'\<rparr>)" "io_pending io' = fmempty" "io_max_pending io' = io_max_pending (dk_io b3)"
    by (rule complete_first_ok [of b3 i r IoRead ?c None]) (use g in \<open>simp_all add: b3_def\<close>)
  have "disk_read z hash h buf b = finish_read z hash ?c (da_content_hash a) buf (b\<lparr>dk_io := io, dk_queue_depth := dk_queue_depth b + 1, dk_sim := s\<rparr>)"
    using assms(2-4) g(1) by (simp add: disk_read_def)
  also have "\<dots> = bind_act (complete_first ?c IoRead None) (\<lambda>_. ret (take (length buf) data @ drop (length data) buf)) b3"
    using rd by (simp add: finish_read_def bind_act_def [of "spawn_blocking _ _"] bind_act_def [of "queue_step _"] bind_act_def [of "update_act _"]
      spawn_blocking_def on_fs_def on_part_def queue_step_def update_act_def b3_def Let_def min_def)
  finally have run: "disk_read z hash h buf b = (Ok (take (length buf) data @ drop (length data) buf), b3\<lparr>dk_io := io'\<rparr>)"
    using io'(1) by (simp add: bind_act_def ret_def)
  show ?thesis using that [OF run] assms(1) g(3,6) io'(2,3) by (simp add: b3_def disk_ok_def sim_core_def fs_called_def)
qed

lemma disk_deallocate_ok:
  assumes "disk_ok b" "dh_data h = Some d" "fmlookup (dk_allocations b) (da_chunk_id d) = Some a"
  obtains b' where "disk_deallocate h b = (Ok (), b')" "disk_ok b'" "dk_used b' = dk_used b - da_reserved_size a"
    "dk_allocations b' = fmdrop (da_chunk_id d) (dk_allocations b)" "fmlookup (fs_files (dk_fs b')) (da_file_path a) = None"
    "dk_config b' = dk_config b" "dk_capacity b' = dk_capacity b" "sb_used (dk_sim b') = sb_used (dk_sim b)"
proof -
  obtain s where s: "on_sim (simulate_latency 0) b = (Ok (), b\<lparr>dk_sim := s\<rparr>)" "sim_core s = sim_core (dk_sim b)" by (rule latency_on_sim)
  have fine: "fs_fault (dk_fs b) = Fine" using assms(1) by (simp add: disk_ok_def fs_fault_def)
  let ?b = "snd (disk_deallocate h b)"
  note run = disk_deallocate_def bind_act_def update_act_def delete_chunk_file_def on_fs_def on_part_def map_err_act_def fs_remove_file_def fs_exists_def ret_def
  show ?thesis
    by (rule that [of ?b]; cases "fmlookup (fs_files (dk_fs b)) (da_file_path a)")
       (use assms s fine in \<open>simp_all add: run disk_ok_def sim_core_def fs_called_def\<close>)
qed

section \<open>What the backend keeps and what it leaks\<close>

definition disk_cycle :: "profile \<Rightarrow> zstd \<Rightarrow> (bytes \<Rightarrow> bytes) \<Rightarrow> usize \<Rightarrow> bytes \<Rightarrow> bytes disk_act" where
  "disk_cycle pr z hash n data =
     bind_act (disk_allocate pr hash n) (\<lambda>h.
     bind_act (disk_write z hash h data) (\<lambda>_.
     bind_act (disk_read z hash h (replicate (length data) 0)) (\<lambda>d.
     bind_act (disk_deallocate h) (\<lambda>_. ret d))))"

lemma fresh_entry_simps [simp]:
  "da_chunk_id (fresh_entry hash base n) = size_chunk hash n" "da_disk_size (fresh_entry hash base n) = 51"
  "da_reserved_size (fresh_entry hash base n) = n" "da_file_path (fresh_entry hash base n) = chunk_path base (size_chunk hash n)"
  by (simp_all add: fresh_entry_def disk_allocation_new_def)

lemma written_entry_simps [simp]:
  "da_content_hash (written_entry m k alg hs a) = hs" "da_reserved_size (written_entry m k alg hs a) = da_reserved_size a"
  "da_disk_size (written_entry m k alg hs a) = of_nat m" "da_file_path (written_entry m k alg hs a) = da_file_path a"
  by (simp_all add: written_entry_def)

text \<open>A concrete backend, compressor and hash, on which the properties are instantiated.\<close>

definition stored_zstd :: zstd where
  "stored_zstd = \<lparr>bulk_compress = \<lambda>_ d. Ok d, bulk_decompress = \<lambda>n d. if length d \<le> n then Ok d else Err []\<rparr>"

definition zero_hash :: "bytes \<Rightarrow> bytes" where
  "zero_hash _ = replicate 32 0"

definition sample_disk :: "disk_failure_config \<Rightarrow> disk_backend" where
  "sample_disk f = ok_value (disk_new (\<lambda>_. None) (\<lambda>_. \<lparr>rng_f64 = \<lambda>_. Fin 0, rng_range = \<lambda>_ _. 0\<rparr>) id (\<lambda>_. 0)
     \<lparr>fs_files = fmempty, fs_faults = (\<lambda>_. Fine), fs_calls = 0\<rparr> ((disk_config_new [''d''] 100)\<lparr>dc_failure := f\<rparr>))"

lemma sample_disk_new:
  "disk_new (\<lambda>_. None) (\<lambda>_. \<lparr>rng_f64 = \<lambda>_. Fin 0, rng_range = \<lambda>_ _. 0\<rparr>) id (\<lambda>_. 0)
     \<lparr>fs_files = fmempty, fs_faults = (\<lambda>_. Fine), fs_calls = 0\<rparr> ((disk_config_new [''d''] 100)\<lparr>dc_failure := f\<rparr>) = Ok (sample_disk f)"
proof -
  have "find (\<lambda>p :: path. False) xs = None" for xs by (simp add: find_None_iff)
  then show ?thesis by (simp add: sample_disk_def disk_new_def disk_with_emitter_def create_directories_def)
qed

lemma sample_disk_simps:
  "dk_used (sample_disk f) = 0" "dk_capacity (sample_disk f) = 100" "dk_allocations (sample_disk f) = fmempty" "io_inv (dk_io (sample_disk f))"
  "io_pending (dk_io (sample_disk f)) = fmempty" "io_max_pending (dk_io (sample_disk f)) = 64" "io_next_id (dk_io (sample_disk f)) = 1"
  "write_failure_rate (sim_failure (sb_config (dk_sim (sample_disk f)))) = dw_failure_rate f" "fs_faults (dk_fs (sample_disk f)) k = Fine"
  "read_failure_rate (sim_failure (sb_config (dk_sim (sample_disk f)))) = dr_failure_rate f" "alloc_failure_rate (sim_failure (sb_config (dk_sim (sample_disk f)))) = f64_lit 0"
proof -
  have "find (\<lambda>p :: path. False) xs = None" for xs by (simp add: find_None_iff)
  then show "dk_used (sample_disk f) = 0" "dk_capacity (sample_disk f) = 100" "dk_allocations (sample_disk f) = fmempty" "io_inv (dk_io (sample_disk f))"
    "io_pending (dk_io (sample_disk f)) = fmempty" "io_max_pending (dk_io (sample_disk f)) = 64" "io_next_id (dk_io (sample_disk f)) = 1"
    "write_failure_rate (sim_failure (sb_config (dk_sim (sample_disk f)))) = dw_failure_rate f" "fs_faults (dk_fs (sample_disk f)) k = Fine"
    "read_failure_rate (sim_failure (sb_config (dk_sim (sample_disk f)))) = dr_failure_rate f" "alloc_failure_rate (sim_failure (sb_config (dk_sim (sample_disk f)))) = f64_lit 0"
    by (simp_all add: sample_disk_def disk_new_def disk_with_emitter_def create_directories_def disk_config_new_def disk_config_default_def io_new_inv
        sim_backend_new_def build_sim_config_def sim_with_failure_def sim_with_bandwidth_def sim_with_latency_def sim_with_seed_def sim_with_capacity_def
        sim_config_default_def del: upt_Suc)
      (simp_all add: io_scheduler_new_def)
qed

lemma sample_disk_ok: "disk_ok (sample_disk disk_failure_default)"
  by (simp add: disk_ok_def sample_disk_simps no_failures_def disk_failure_default_def f64_lit_def)

lemma stored_zstd_restores: "zstd_restores stored_zstd"
  by (simp add: zstd_restores_def stored_zstd_def)

text \<open>
  On a disk that works, storing data in a new allocation and reading it back returns the data, and releasing it
  succeeds and removes its entry; but the cycle is not neutral: the backend accounts as used, for good, as many bytes as the data
  takes compressed, because a write adds the whole file where only the header was taken off, and the release
  takes off the reserved size alone.
\<close>

theorem disk_cycle_leaks:
  assumes "disk_ok b" "n \<noteq> 0" "unat (dk_used b) + unat n \<le> unat (dk_capacity b)" "length data \<le> unat n"
    and "zstd_restores z" "compress z default_level (write_algorithm data) data = Ok cs" "length (hash data) = 32" "length data < 2 ^ 32" "length cs < 2 ^ 32"
  shows "\<exists>b'. disk_cycle pr z hash n data b = (Ok data, b') \<and> disk_ok b' \<and> dk_allocations b' = fmdrop (size_chunk hash n) (dk_allocations b)
    \<and> dk_used b' = dk_used b + of_nat (length cs)"
proof -
  let ?e = "fresh_entry hash (disk_base b) n" and ?c = "size_chunk hash n"
  let ?h = "\<lparr>dh_offset = 0, dh_size = n, dh_data = Some ?e\<rparr>"
  let ?w = "written_entry (51 + length cs) (length data) (write_algorithm data) (hash data) ?e"
  obtain b1 where b1: "disk_allocate pr hash n b = (Ok ?h, b1)" "disk_ok b1" "dk_used b1 = dk_used b + n"
    "dk_allocations b1 = fmupd ?c ?e (dk_allocations b)" "dk_config b1 = dk_config b"
    by (rule disk_allocate_ok [OF assms(1-3), of pr hash])
  obtain b2 where b2: "disk_write z hash ?h data b1 = (Ok (), b2)" "disk_ok b2" "dk_used b2 = dk_used b1 - da_disk_size ?e + of_nat (51 + length cs)"
    "dk_allocations b2 = fmupd (da_chunk_id ?e) ?w (dk_allocations b1)"
    "disk_file (da_chunk_id ?e) b2 = Some (chunk_image (hash data) (length data) (write_algorithm data) cs)" "dk_config b2 = dk_config b1"
    by (rule disk_write_ok [OF b1(2), of ?h ?e ?e data z cs hash]) (use assms b1(4) in simp_all)
  have dec: "decompress z (write_algorithm data) (Some (length data)) cs = Ok data" by (rule decompress_compress [OF assms(5,6)]) simp
  obtain b3 where b3: "disk_read z hash ?h (replicate (length data) 0) b2 = (Ok (take (length (replicate (length data) (0 :: u8))) data @ drop (length data) (replicate (length data) 0)), b3)"
    "disk_ok b3" "dk_used b3 = dk_used b2" "dk_allocations b3 = dk_allocations b2"
    by (rule disk_read_ok [where b = b2 and h = ?h and d = ?e and a = ?w and buf = "replicate (length data) 0" and hash = hash and data = data
      and alg = "write_algorithm data" and cs = cs and z = z]) (use assms b2 dec in simp_all)
  obtain b4 where b4: "disk_deallocate ?h b3 = (Ok (), b4)" "disk_ok b4" "dk_used b4 = dk_used b3 - da_reserved_size ?w"
    "dk_allocations b4 = fmdrop (da_chunk_id ?e) (dk_allocations b3)"
    by (rule disk_deallocate_ok [OF b3(2), of ?h ?e ?w]) (use b2(4) b3(4) in simp_all)
  have "disk_cycle pr z hash n data b = (Ok data, b4)" using b1(1) b2(1) b3(1) b4(1) by (simp add: disk_cycle_def bind_act_def ret_def)
  moreover have "dk_used b4 = dk_used b + of_nat (length cs)" using b1(3) b2(3) b3(3) b4(3) by simp
  moreover have "dk_allocations b4 = fmdrop ?c (dk_allocations b)" using b1(4) b2(4) b3(4) b4(4) by simp
  ultimately show ?thesis using b4(2) by blast
qed

theorem disk_cycle_leaks_witness:
  "\<exists>b'. disk_cycle Debug stored_zstd zero_hash 4 [5, 6] (sample_disk disk_failure_default) = (Ok [5, 6], b') \<and> dk_allocations b' = fmempty \<and> dk_used b' = 2"
  using disk_cycle_leaks [OF sample_disk_ok, of 4 "[5, 6]" stored_zstd "[5, 6]" zero_hash Debug] stored_zstd_restores
  by (auto simp: sample_disk_simps write_algorithm_def noop_compress_def zero_hash_def)

definition disk_two_writes :: "profile \<Rightarrow> zstd \<Rightarrow> (bytes \<Rightarrow> bytes) \<Rightarrow> usize \<Rightarrow> bytes \<Rightarrow> bytes \<Rightarrow> bytes disk_act" where
  "disk_two_writes pr z hash n d1 d2 =
     bind_act (disk_allocate pr hash n) (\<lambda>h1.
     bind_act (disk_allocate pr hash n) (\<lambda>h2.
     bind_act (disk_write z hash h1 d1) (\<lambda>_.
     bind_act (disk_write z hash h2 d2) (\<lambda>_.
     disk_read z hash h1 (replicate (length d1) 0)))))"

text \<open>
  Allocations are identified by the hash of their size, so two live allocations of the same size share one entry and one
  file: what is written through the second is what a read through the first returns.
\<close>

theorem disk_same_size_overwrites:
  assumes "disk_ok b" "n \<noteq> 0" "unat (dk_used b) + 2 * unat n \<le> unat (dk_capacity b)" "length d1 \<le> unat n" "length d2 = length d1"
    and "zstd_restores z" "compress z default_level (write_algorithm d1) d1 = Ok cs1" "compress z default_level (write_algorithm d2) d2 = Ok cs2"
    and "length (hash d1) = 32" "length (hash d2) = 32" "length d1 < 2 ^ 32" "length cs2 < 2 ^ 32"
  shows "fst (disk_two_writes pr z hash n d1 d2 b) = Ok d2"
proof -
  let ?e = "fresh_entry hash (disk_base b) n" and ?c = "size_chunk hash n"
  let ?h = "\<lparr>dh_offset = 0, dh_size = n, dh_data = Some ?e\<rparr>"
  let ?w1 = "written_entry (51 + length cs1) (length d1) (write_algorithm d1) (hash d1) ?e"
  let ?w2 = "written_entry (51 + length cs2) (length d2) (write_algorithm d2) (hash d2) ?w1"
  have half: "unat (dk_used b) + unat n \<le> unat (dk_capacity b)" using assms(3) by linarith
  obtain b1 where b1: "disk_allocate pr hash n b = (Ok ?h, b1)" "disk_ok b1" "dk_used b1 = dk_used b + n"
    "dk_allocations b1 = fmupd ?c ?e (dk_allocations b)" "dk_config b1 = dk_config b" "dk_capacity b1 = dk_capacity b"
    by (rule disk_allocate_ok [OF assms(1,2) half, of pr hash])
  have "unat (dk_used b1) = unat (dk_used b) + unat n"
    using b1(3) half unat_less_64 [of "dk_capacity b"] by (simp add: unat_add_fits)
  then have room: "unat (dk_used b1) + unat n \<le> unat (dk_capacity b1)" using assms(3) b1(6) by simp
  obtain b2 where b2: "disk_allocate pr hash n b1 = (Ok \<lparr>dh_offset = 0, dh_size = n, dh_data = Some (fresh_entry hash (disk_base b1) n)\<rparr>, b2)" "disk_ok b2"
    "dk_allocations b2 = fmupd ?c (fresh_entry hash (disk_base b1) n) (dk_allocations b1)" "dk_config b2 = dk_config b1"
    by (rule disk_allocate_ok [OF b1(2) assms(2) room, of pr hash])
  obtain b3 where b3: "disk_write z hash ?h d1 b2 = (Ok (), b3)" "disk_ok b3" "dk_allocations b3 = fmupd (da_chunk_id ?e) ?w1 (dk_allocations b2)" "dk_config b3 = dk_config b2"
    by (rule disk_write_ok [OF b2(2), of ?h ?e ?e d1 z cs1 hash]) (use assms b1(5) b2(3) in simp_all)
  obtain b4 where b4: "disk_write z hash ?h d2 b3 = (Ok (), b4)" "disk_ok b4" "dk_allocations b4 = fmupd (da_chunk_id ?e) ?w2 (dk_allocations b3)"
    "disk_file (da_chunk_id ?e) b4 = Some (chunk_image (hash d2) (length d2) (write_algorithm d2) cs2)" "dk_config b4 = dk_config b3"
    by (rule disk_write_ok [OF b3(2), of ?h ?e ?w1 d2 z cs2 hash]) (use assms b3(3) in simp_all)
  have dec: "decompress z (write_algorithm d2) (Some (length d2)) cs2 = Ok d2" by (rule decompress_compress [OF assms(6,8)]) simp
  obtain b5 where "disk_read z hash ?h (replicate (length d1) 0) b4 = (Ok (take (length (replicate (length d1) (0 :: u8))) d2 @ drop (length d2) (replicate (length d1) 0)), b5)"
    by (rule disk_read_ok [where b = b4 and h = ?h and d = ?e and a = ?w2 and buf = "replicate (length d1) 0" and hash = hash and data = d2
      and alg = "write_algorithm d2" and cs = cs2 and z = z]) (use assms b4 dec in simp_all)
  then show ?thesis using b1(1,5) b2(1) b3(1) b4(1) assms(5) by (simp add: disk_two_writes_def bind_act_def)
qed

theorem disk_same_size_overwrites_witness:
  "fst (disk_two_writes Debug stored_zstd zero_hash 4 [1, 2] [8, 9] (sample_disk disk_failure_default)) = Ok [8, 9]"
  using disk_same_size_overwrites [OF sample_disk_ok, of 4 "[1, 2]" "[8, 9]" stored_zstd "[1, 2]" "[8, 9]" zero_hash Debug] stored_zstd_restores
  by (simp add: sample_disk_simps write_algorithm_def noop_compress_def zero_hash_def)

section \<open>Injected failures fill the scheduler\<close>

lemma should_fail_always:
  assumes "fle (f64_lit 1) (failure_rate op (sim_failure (sb_config s)))"
  shows "should_fail op s = (Ok True, s)"
proof -
  have "\<not> fle (failure_rate op (sim_failure (sb_config s))) (f64_lit 0)"
    using assms fle_trans [of "f64_lit 1" "failure_rate op (sim_failure (sb_config s))" "f64_lit 0"] by (auto simp: f64_lit_def)
  then show ?thesis using assms by (simp add: should_fail_def)
qed

definition always_fails :: "disk_backend \<Rightarrow> bool" where
  "always_fails b \<longleftrightarrow> fle (f64_lit 1) (write_failure_rate (sim_failure (sb_config (dk_sim b))))"

lemma failing_write:
  assumes "io_inv (dk_io b)" "bt_len (io_pending (dk_io b)) < unat (io_max_pending (dk_io b))" "unat (io_next_id (dk_io b)) + 1 < 2 ^ 64"
    "always_fails b" "length data \<le> unat (dh_size h)" "dh_data h = Some d"
  obtains b' where "disk_write z hash h data b = (Err (WriteFailed [Lit ''simulated write failure'']), b')" "io_inv (dk_io b')" "always_fails b'"
    "bt_len (io_pending (dk_io b')) = Suc (bt_len (io_pending (dk_io b)))" "io_max_pending (dk_io b') = io_max_pending (dk_io b)"
    "io_next_id (dk_io b') = io_next_id (dk_io b) + 1" "dk_allocations b' = dk_allocations b"
proof -
  obtain io r where io: "issue IoWrite (da_chunk_id d) Disk (dk_io b) = (Ok (io_next_id (dk_io b)), io)" "io_inv io" "io_next_id io = io_next_id (dk_io b) + 1"
    "io_pending io = fmupd (io_next_id (dk_io b)) r (io_pending (dk_io b))" "io_max_pending io = io_max_pending (dk_io b)"
    by (rule issue_Ok [OF assms(1-3)])
  let ?b = "b\<lparr>dk_io := io, dk_queue_depth := dk_queue_depth b + 1\<rparr>"
  obtain s where s: "on_sim (simulate_latency (length data)) ?b = (Ok (), ?b\<lparr>dk_sim := s\<rparr>)" "sim_core s = sim_core (dk_sim ?b)" by (rule latency_on_sim)
  have f: "should_fail SimWrite s = (Ok True, s)" using assms(4) s(2) by (intro should_fail_always) (simp add: always_fails_def sim_core_def)
  have "disk_write z hash h data b = (Err (WriteFailed [Lit ''simulated write failure'']), ?b\<lparr>dk_sim := s, dk_queue_depth := dk_queue_depth b\<rparr>)"
    using assms(5,6) io(1) s(1) f
    by (simp add: disk_write_def guarded_io_def bind_act_def on_disk_io_def map_err_act_def on_part_def queue_step_def update_act_def on_sim_def fail_def)
  then show ?thesis using that io(2-5) next_id_fresh [OF assms(1)] assms(4) s(2)
    by (simp add: bt_len_upd always_fails_def sim_core_def)
qed

lemma failing_writes:
  assumes "io_inv (dk_io b)" "io_pending (dk_io b) = fmempty" "unat (io_next_id (dk_io b)) + k < 2 ^ 64" "k \<le> unat (io_max_pending (dk_io b))"
    "always_fails b" "length data \<le> unat (dh_size h)" "dh_data h = Some d"
  shows "let b' = ((\<lambda>b. snd (disk_write z hash h data b)) ^^ k) b in io_inv (dk_io b') \<and> always_fails b' \<and> bt_len (io_pending (dk_io b')) = k
    \<and> io_max_pending (dk_io b') = io_max_pending (dk_io b) \<and> unat (io_next_id (dk_io b')) = unat (io_next_id (dk_io b)) + k \<and> dk_allocations b' = dk_allocations b"
  using assms(3,4)
proof (induction k)
  case 0
  show ?case using assms(1,2,5) by (simp add: bt_len_def)
next
  case (Suc k)
  let ?b = "((\<lambda>b. snd (disk_write z hash h data b)) ^^ k) b"
  have ih: "io_inv (dk_io ?b)" "always_fails ?b" "bt_len (io_pending (dk_io ?b)) = k" "io_max_pending (dk_io ?b) = io_max_pending (dk_io b)"
    "unat (io_next_id (dk_io ?b)) = unat (io_next_id (dk_io b)) + k" "dk_allocations ?b = dk_allocations b"
    using Suc by (simp_all add: Let_def)
  have lt: "bt_len (io_pending (dk_io ?b)) < unat (io_max_pending (dk_io ?b))" "unat (io_next_id (dk_io ?b)) + 1 < 2 ^ 64" using ih Suc.prems by simp_all
  obtain b' where b': "disk_write z hash h data ?b = (Err (WriteFailed [Lit ''simulated write failure'']), b')" "io_inv (dk_io b')" "always_fails b'"
    "bt_len (io_pending (dk_io b')) = Suc (bt_len (io_pending (dk_io ?b)))" "io_max_pending (dk_io b') = io_max_pending (dk_io ?b)"
    "io_next_id (dk_io b') = io_next_id (dk_io ?b) + 1" "dk_allocations b' = dk_allocations ?b"
    by (rule failing_write [OF ih(1) lt ih(2) assms(6,7)])
  have "unat (io_next_id (dk_io b')) = unat (io_next_id (dk_io ?b)) + 1" using b'(6) lt(2) unat_add_fits [of "io_next_id (dk_io ?b)" 1] by simp
  then show ?case using b' ih by (simp add: Let_def)
qed

text \<open>
  A write that the simulation layer makes fail leaves its I/O request pending for ever: after as many such writes as the
  scheduler admits (64), every later read and write is refused because the scheduler is at capacity, whatever chunk it is about.
\<close>

theorem failures_fill_scheduler:
  fixes b z hash h data
  defines "b' \<equiv> ((\<lambda>b. snd (disk_write z hash h data b)) ^^ unat (io_max_pending (dk_io b))) b"
  assumes "io_inv (dk_io b)" "io_pending (dk_io b) = fmempty" "unat (io_next_id (dk_io b)) + unat (io_max_pending (dk_io b)) < 2 ^ 64"
    "always_fails b" "length data \<le> unat (dh_size h)" "dh_data h = Some d"
    and "length x \<le> unat (dh_size h')" "dh_data h' = Some d'" "fmlookup (dk_allocations b) (da_chunk_id d') \<noteq> None"
  shows "pending_count (dk_io b') = unat (io_max_pending (dk_io b'))
    \<and> (\<exists>msg. disk_write z hash h' x b' = (Err (InternalFailure msg), b') \<and> disk_read z hash h' x b' = (Err (InternalFailure msg), b'))"
proof -
  let ?max = "io_max_pending (dk_io b)"
  have b': "bt_len (io_pending (dk_io b')) = unat ?max" "io_max_pending (dk_io b') = ?max" "dk_allocations b' = dk_allocations b"
    using failing_writes [OF assms(2-4) order_refl assms(5-7), of z hash] by (simp_all add: b'_def Let_def)
  then have "issue op c Disk (dk_io b') = (Err (Internal [Lit ''I/O scheduler at capacity: '', FmtNat (unat ?max), Lit '' pending requests (max: '',
      FmtNat (unat ?max), Lit '')'']), dk_io b')" for op c
    by (simp add: issue_def fail_def)
  then show ?thesis using assms(8-10) b'
    by (auto simp: pending_count_def disk_write_def disk_read_def guarded_io_def bind_act_def on_disk_io_def map_err_act_def on_part_def)
qed

theorem failures_fill_scheduler_witness:
  "let failing = disk_failure_default\<lparr>dw_failure_rate := f64_lit 1\<rparr>;
       e = fresh_entry zero_hash [''d''] 4; h = \<lparr>dh_offset = 0, dh_size = 4, dh_data = Some e\<rparr>;
       b = (sample_disk failing)\<lparr>dk_allocations := fmupd (size_chunk zero_hash 4) e fmempty\<rparr>;
       b' = ((\<lambda>b. snd (disk_write stored_zstd zero_hash h [5, 6] b)) ^^ unat (64 :: u64)) b
   in \<exists>msg. disk_read stored_zstd zero_hash h [0, 0] b' = (Err (InternalFailure msg), b')"
  unfolding Let_def
  using failures_fill_scheduler [of "(sample_disk (disk_failure_default\<lparr>dw_failure_rate := f64_lit 1\<rparr>))\<lparr>dk_allocations := fmupd (size_chunk zero_hash 4) (fresh_entry zero_hash [''d''] 4) fmempty\<rparr>"
      "[5, 6]" "\<lparr>dh_offset = 0, dh_size = 4, dh_data = Some (fresh_entry zero_hash [''d''] 4)\<rparr>" "fresh_entry zero_hash [''d''] 4" "[0, 0]"
      "\<lparr>dh_offset = 0, dh_size = 4, dh_data = Some (fresh_entry zero_hash [''d''] 4)\<rparr>" "fresh_entry zero_hash [''d''] 4" stored_zstd zero_hash]
  by (auto simp: sample_disk_simps always_fails_def disk_failure_default_def f64_lit_def simp del: funpow.simps)

section \<open>The path helpers do not fit together\<close>

lemma path_helpers_miss:
  assumes "hash (map of_char (display p)) \<noteq> hash data" "\<And>k. fs_faults s k = Fine" "compress z default_level alg data = Ok cs"
    and "file_at (butlast p) (from_data hash (map of_char (display p))) s = None"
  shows "\<exists>e. fst (read_chunk_file z hash p (hash data) (snd (write_chunk_file z hash p data alg s))) = Err (ReadFailed e)"
proof -
  let ?c = "from_data hash data" and ?r = "from_data hash (map of_char (display p))"
  have ne: "?r \<noteq> ?c" using assms(1) by (simp add: from_data_def)
  obtain n s' where w: "write_chunk z (butlast p) ?c data (hash data) alg s = (Ok n, s')" "fs_faults s' = fs_faults s"
    "fs_files s' = fmupd (chunk_path (butlast p) ?c) (chunk_image (hash data) (length data) alg cs) (fmdrop (with_extension (chunk_path (butlast p) ?c) ''blk.tmp'') (fs_files s))"
    using write_chunk_cases [OF assms(3), of "butlast p" ?c "hash data" s] assms(2) by metis
  have "file_at (butlast p) ?r s' = None" using w(3) ne assms(4) temp_not_chunk [of "butlast p" ?c "butlast p" ?r] by (auto simp: file_at_def chunk_path_inj)
  moreover have "fs_fault s' = Fine" using w(2) assms(2) by (simp add: fs_fault_def)
  ultimately show ?thesis
    by (simp add: read_chunk_file_def write_chunk_file_def w(1) bind_act_def ret_def read_chunk_def Let_def map_err_act_def fs_read_def file_at_def)
qed

section \<open>Memory pressure\<close>

text \<open>The occupancy that the simulation layer knows of.\<close>

definition sim_occupancy :: "disk_backend \<Rightarrow> sim_config \<times> u64" where
  "sim_occupancy b = (sb_config (dk_sim b), sb_used (dk_sim b))"

named_theorems occupancy_rules \<open>steps that leave the occupancy of the simulation layer alone\<close>

lemma occupancy_sim [occupancy_rules]: "keeps sim_occupancy (on_sim (simulate_latency n))" "keeps sim_occupancy (on_sim (should_fail op))"
proof -
  have "sim_occupancy (snd (on_sim (simulate_latency n) b)) = sim_occupancy b" for b
    by (rule latency_on_sim [of n b]) (simp add: sim_occupancy_def sim_core_def)
  then show "keeps sim_occupancy (on_sim (simulate_latency n))" by (simp add: keeps_def)
  have "sim_occupancy (snd (on_sim (should_fail op) b)) = sim_occupancy b" for b
    by (rule failure_on_sim [of op b]) (simp add: sim_occupancy_def sim_core_def)
  then show "keeps sim_occupancy (on_sim (should_fail op))" by (simp add: keeps_def)
qed

lemma occupancy_parts [occupancy_rules]:
  "keeps sim_occupancy (on_fs m)" "keeps sim_occupancy (on_disk_io m')" "keeps sim_occupancy (queue_step f)" "keeps sim_occupancy (record_written c n k alg hs)"
  "keeps sim_occupancy (update_act (\<lambda>b. b\<lparr>dk_used := u b\<rparr>))" "keeps sim_occupancy (update_act (\<lambda>b. b\<lparr>dk_allocations := al b\<rparr>))"
  "keeps sim_occupancy (update_act (\<lambda>b. b\<lparr>dk_used := u b, dk_allocations := al b\<rparr>))"
  "keeps sim_occupancy (update_act (\<lambda>b. b\<lparr>dk_bytes_written := w b\<rparr>))" "keeps sim_occupancy (update_act (\<lambda>b. b\<lparr>dk_bytes_read := r b\<rparr>))"
  by (auto simp: keeps_def sim_occupancy_def on_fs_def on_disk_io_def map_err_act_def on_part_def queue_step_def record_written_def update_act_def split: prod.splits option.splits)

lemma occupancy_complete [occupancy_rules]: "keeps sim_occupancy (complete_first c op e)"
  using occupancy_parts(2) by (auto simp: keeps_def complete_first_def ret_def split: option.splits)

lemma occupancy_spawn [occupancy_rules]: "keeps sim_occupancy (spawn_blocking wrap m)"
  using occupancy_parts(1) [of m] by (auto simp: keeps_def spawn_blocking_def split: prod.splits outcome.splits) (metis snd_conv)+

text \<open>A step that is, in each state, one that keeps a part, keeps it.\<close>

lemma keeps_pointwise: "(\<And>s. m s = g s s) \<Longrightarrow> (\<And>s. keeps f (g s)) \<Longrightarrow> keeps f m"
  by (simp add: keeps_def)

lemma occupancy_finish [occupancy_rules]: "keeps sim_occupancy (finish_write z hash h c data alg)" "keeps sim_occupancy (finish_read z hash c expected buf)"
  by (rule keeps_pointwise, rule finish_write_def, intro keeps_rules occupancy_rules allI, split sum.split, intro conjI allI impI keeps_rules occupancy_rules)
     (rule keeps_pointwise, rule finish_read_def, intro keeps_rules occupancy_rules allI, split sum.split, unfold Let_def, intro conjI allI impI keeps_rules occupancy_rules)

lemma occupancy_guarded [occupancy_rules]: "keeps sim_occupancy go \<Longrightarrow> keeps sim_occupancy (guarded_io op sop failure c n go)"
  unfolding guarded_io_def by (intro keeps_rules occupancy_rules)

lemma keeps_lookup:
  "(\<And>s. keeps f (m s)) \<Longrightarrow> (\<And>a s. keeps f (g a s)) \<Longrightarrow> keeps f (\<lambda>s. case fmlookup (k s) c of None \<Rightarrow> m s s | Some a \<Rightarrow> g a s s)"
  by (auto simp: keeps_def split: option.split)

lemma occupancy_access:
  "keeps sim_occupancy (disk_write z hash h data)" "keeps sim_occupancy (disk_read z hash h buf)"
proof -
  show "keeps sim_occupancy (disk_write z hash h data)" unfolding disk_write_def
    by (cases "dh_data h") (auto intro!: keeps_rules occupancy_rules)
  show "keeps sim_occupancy (disk_read z hash h buf)" unfolding disk_read_def
    by (cases "dh_data h") (auto intro!: keeps_rules occupancy_rules keeps_lookup [where m = "\<lambda>_. fail _" and g = "\<lambda>a _. guarded_io _ _ _ _ _ (_ a)"])
qed

lemma occupancy_allocate: "keeps sim_occupancy (disk_allocate pr hash n)"
  unfolding disk_allocate_def Let_def
  by (rule keeps_if, rule keeps_fail, rule keeps_bind, rule occupancy_rules, rule keeps_bind, rule occupancy_rules, rule keeps_if, rule keeps_fail,
      rule keeps_state, intro keeps_rules occupancy_rules)

lemma occupancy_deallocate: "keeps sim_occupancy (disk_deallocate h)"
proof (cases "dh_data h")
  case None
  then show ?thesis unfolding disk_deallocate_def by (auto intro!: keeps_rules occupancy_rules)
next
  case (Some d)
  show ?thesis unfolding disk_deallocate_def Some option.case delete_chunk_file_def
    by (rule keeps_bind, rule occupancy_rules, rule keeps_lookup, rule keeps_fail, intro keeps_rules occupancy_rules)
qed

datatype disk_op = DiskAllocate usize | DiskDeallocate disk_handle | DiskWrite disk_handle bytes | DiskRead disk_handle bytes

fun disk_step :: "profile \<Rightarrow> zstd \<Rightarrow> (bytes \<Rightarrow> bytes) \<Rightarrow> disk_op \<Rightarrow> disk_backend \<Rightarrow> disk_backend" where
  "disk_step pr z hash (DiskAllocate n) b = snd (disk_allocate pr hash n b)"
| "disk_step pr z hash (DiskDeallocate h) b = snd (disk_deallocate h b)"
| "disk_step pr z hash (DiskWrite h data) b = snd (disk_write z hash h data b)"
| "disk_step pr z hash (DiskRead h buf) b = snd (disk_read z hash h buf b)"

lemma occupancy_step: "sim_occupancy (disk_step pr z hash x b) = sim_occupancy b"
  by (cases x) (simp_all add: keepsD occupancy_access occupancy_allocate occupancy_deallocate)

lemma occupancy_run: "sim_occupancy (fold (disk_step pr z hash) xs b) = sim_occupancy b"
  by (induction xs arbitrary: b) (simp_all add: occupancy_step)

lemma disk_new_occupancy:
  assumes "disk_new mkdir seeded now secs fs c = Ok b"
  shows "sim_occupancy b = (build_sim_config c, 0)"
  using assms by (auto simp: disk_new_def disk_with_emitter_def sim_occupancy_def sim_backend_new_def split: outcome.splits)

text \<open>
  The memory pressure that the disk backend reports is that of its simulation layer, whose occupancy no operation of the
  disk backend changes: it is zero after every sequence of operations, however full the disk is.
\<close>

theorem disk_reports_no_pressure:
  assumes "disk_new mkdir seeded now secs fs c = Ok b" "0 < dc_capacity c" "disk_pressure pr (fold (disk_step pr z hash) xs b) = Ok p"
  shows "memory_pressure p = Fin 0"
proof -
  define b' where "b' = fold (disk_step pr z hash) xs b"
  have occ: "sb_used (dk_sim b') = 0" "sim_capacity (sb_config (dk_sim b')) = dc_capacity c"
    using occupancy_run [of pr z hash xs b] disk_new_occupancy [OF assms(1)] unfolding b'_def [symmetric]
    by (auto simp: sim_occupancy_def build_sim_config_def Let_def sim_with_failure_def sim_with_bandwidth_def sim_with_latency_def sim_with_seed_def sim_with_capacity_def)
  have "\<exists>x > 0. of_word binary64 (dc_capacity c) = Fin x"
  proof (rule of_word_between [of binary64 "dc_capacity c"])
    fix y
    assume y: "of_word binary64 (dc_capacity c) = Fin y" "0 < dc_capacity c \<Longrightarrow> 1 \<le> y"
    have "0 < y" using y(2) [OF assms(2)] by linarith
    then show ?thesis using y(1) by blast
  qed simp_all
  then obtain x where x: "of_word binary64 (dc_capacity c) = Fin x" "0 < x" by blast
  have z: "of_word binary64 (0 :: u64) = Fin 0" by (simp add: of_word_def)
  have "sim_memory_pressure (dk_sim b') = Fin 0"
    using x by (simp add: sim_memory_pressure_def Let_def occ z f64_lit_def clamp01_def)
  then show ?thesis using assms(3) unfolding b'_def [symmetric]
    by (auto simp: disk_pressure_def split: outcome.splits)
qed

theorem disk_reports_no_pressure_witness:
  "\<exists>b p. b = disk_step Release stored_zstd zero_hash (DiskAllocate 100) (sample_disk disk_failure_default) \<and> dk_used b = dk_capacity b
     \<and> disk_pressure Release b = Ok p \<and> memory_pressure p = Fin 0"
proof -
  let ?c = "(disk_config_new [''d''] 100)\<lparr>dc_failure := disk_failure_default\<rparr>"
  let ?b = "disk_step Release stored_zstd zero_hash (DiskAllocate 100) (sample_disk disk_failure_default)"
  obtain b' where b': "snd (disk_allocate Release zero_hash 100 (sample_disk disk_failure_default)) = b'" "dk_used b' = 100" "dk_capacity b' = 100"
    by (rule disk_allocate_ok [OF sample_disk_ok, of 100 Release zero_hash]) (simp_all add: sample_disk_simps)
  have "\<exists>p. disk_pressure Release b = Ok p" for b
    by (simp add: disk_pressure_def disk_io_pressure_def add_pr_def checked_def Let_def)
  then obtain p where p: "disk_pressure Release ?b = Ok p" by blast
  have "memory_pressure p = Fin 0"
    by (rule disk_reports_no_pressure [OF sample_disk_new, where xs = "[DiskAllocate 100]" and pr = Release and z = stored_zstd and hash = zero_hash and p = p])
       (use p in \<open>simp_all add: disk_config_new_def\<close>)
  then show ?thesis using b' p by auto
qed

end
