(* ===== verification/Linux_Env.thy ===== *)
theory Linux_Env
  imports Runtime Rust_Text
begin

text \<open>
  What the readers of \<^verbatim>\<open>ghost-linux/src\<close> share, on Linux. The files they read are an argument \<open>fs\<close>, from paths to
  contents or a failed read; the clock and the event channel are those of the runtime. The
  simulated readers take the generator of the \<^verbatim>\<open>rand\<close> crate as an argument \<open>seeded\<close>, from seeds to
  draws; a draw from an empty range panics, as that crate documents.
\<close>

section \<open>Files, time and random draws\<close>

text \<open>A failed read carries whether its kind is \<^verbatim>\<open>NotFound\<close> and its \<^verbatim>\<open>Display\<close>.\<close>

datatype file_read = Contents string | ReadFailed bool message

type_synonym file_system = "string \<Rightarrow> file_read"

definition now_secs :: "u64 rt" where
  "now_secs s = (Ok (secs_at s (ticks s)), tick s)"

fun emit_all :: "event list \<Rightarrow> unit rt" where
  "emit_all [] = ret ()"
| "emit_all (e # es) = bind_act (emit_event e) (\<lambda>_. emit_all es)"

definition read_file :: "file_system \<Rightarrow> string \<Rightarrow> message \<Rightarrow> string ghost_result" where
  "read_file fs path missing = (case fs path of
       Contents c \<Rightarrow> Ok c
     | ReadFailed nf m \<Rightarrow> Err (if nf then Internal missing else Io m))"

text \<open>\<^verbatim>\<open>Some(path)\<close> that exists is read; anything else falls through to the generated values.\<close>

definition simulation_file :: "file_system \<Rightarrow> string option \<Rightarrow> string option ghost_result" where
  "simulation_file fs path = (case path of
       None \<Rightarrow> Ok None
     | Some p \<Rightarrow> (case fs p of Contents c \<Rightarrow> Ok (Some c) | ReadFailed nf m \<Rightarrow> if nf then Ok None else Err (Io m)))"

text \<open>The \<open>i\<close>-th draw of a seeded generator, from the integers or floats between two bounds, or a coin.\<close>

record rng =
  draw_int :: "nat \<Rightarrow> int \<Rightarrow> int \<Rightarrow> int"
  draw_float :: "nat \<Rightarrow> fl \<Rightarrow> fl \<Rightarrow> fl"
  draw_bool :: "nat \<Rightarrow> bool"

definition gen_range :: "rng \<Rightarrow> nat \<Rightarrow> int \<Rightarrow> int \<Rightarrow> int ghost_result" where
  "gen_range g i lo hi = (if lo < hi then Ok (draw_int g i lo hi) else Panic)"

definition in_ranges :: "rng \<Rightarrow> bool" where
  "in_ranges g \<longleftrightarrow> (\<forall>i lo hi. lo < hi \<longrightarrow> lo \<le> draw_int g i lo hi \<and> draw_int g i lo hi < hi)"

definition outcome_bind :: "('a, 'e) outcome \<Rightarrow> ('a \<Rightarrow> ('b, 'e) outcome) \<Rightarrow> ('b, 'e) outcome" where
  "outcome_bind r f = (case r of Ok a \<Rightarrow> f a | Err e \<Rightarrow> Err e | Panic \<Rightarrow> Panic)"

lemma outcome_bind_simps [simp]:
  "outcome_bind (Ok a) f = f a" "outcome_bind (Err e) f = Err e" "outcome_bind Panic f = Panic"
  by (simp_all add: outcome_bind_def)

lemma outcome_bind_Ok: "outcome_bind r f = Ok b \<longleftrightarrow> (\<exists>a. r = Ok a \<and> f a = Ok b)"
  by (cases r) simp_all

fun sum_kb :: "profile \<Rightarrow> u64 \<Rightarrow> u64 list \<Rightarrow> u64 ghost_result" where
  "sum_kb pr acc [] = Ok acc"
| "sum_kb pr acc (x # xs) = outcome_bind (add_pr pr acc x) (\<lambda>s. sum_kb pr s xs)"

section \<open>Steps that keep an invariant, whatever they return\<close>

definition stable :: "('s \<Rightarrow> bool) \<Rightarrow> ('s, 'a, 'e) act \<Rightarrow> bool" where
  "stable P m \<longleftrightarrow> (\<forall>s. P s \<longrightarrow> P (snd (m s)))"

named_theorems stable_rules \<open>rules that show a step keeps an invariant\<close>

lemma stableD: "stable P m \<Longrightarrow> P s \<Longrightarrow> P (snd (m s))"
  by (simp add: stable_def)

lemma stable_basic [stable_rules]: "stable P (ret a)" "stable P (fail e)" "stable P (lift_outcome r)"
  by (simp_all add: stable_def ret_def fail_def lift_outcome_def)

lemma stable_bind [stable_rules]: "stable P m \<Longrightarrow> (\<And>a. stable P (k a)) \<Longrightarrow> stable P (bind_act m k)"
  unfolding stable_def bind_act_def by (auto split: prod.split outcome.split)

lemma stable_bind_lift: "(\<And>a. r = Ok a \<Longrightarrow> stable P (k a)) \<Longrightarrow> stable P (bind_act (lift_outcome r) k)"
  by (cases r) (simp_all add: stable_def bind_act_def lift_outcome_def)

lemma stable_if [stable_rules]: "stable P m \<Longrightarrow> stable P m' \<Longrightarrow> stable P (if c then m else m')"
  by simp

lemma stable_sum [stable_rules]:
  "(\<And>e. stable P (m e)) \<Longrightarrow> (\<And>a. stable P (m' a)) \<Longrightarrow> stable P (case w of Inl e \<Rightarrow> m e | Inr a \<Rightarrow> m' a)"
  by (simp split: sum.split)

lemma stable_update: "(\<And>s. P s \<Longrightarrow> P (u s)) \<Longrightarrow> stable P (update_act u)"
  by (simp add: stable_def update_act_def)

text \<open>A runtime whose clocks stand still and whose channel has room.\<close>

definition quiet_runtime :: runtime where
  "quiet_runtime = \<lparr>ms_at = (\<lambda>_. 7), secs_at = (\<lambda>_. 1), room_at = (\<lambda>_. True), ticks = 0, rt_log = trace_log_new 10, rt_emitter = Some emitter_new\<rparr>"

end
