(* ===== verification/Psi.thy ===== *)
theory Psi
  imports Linux_Env
begin

text \<open>
  \<^verbatim>\<open>ghost-linux/src/psi.rs\<close>: the reader of \<^verbatim>\<open>/proc/pressure\<close> and its simulated counterpart. The main fact
  is what a read makes of the two lines of such a file: every key is taken from its last
  occurrence, so that a sample holds the line \<^verbatim>\<open>full\<close>.
\<close>

section \<open>Pressure stall information\<close>

datatype psi_resource = PsiMemory | PsiIo | PsiCpu

fun proc_name :: "psi_resource \<Rightarrow> string" where
  "proc_name PsiMemory = ''memory''"
| "proc_name PsiIo = ''io''"
| "proc_name PsiCpu = ''cpu''"

record psi_sample =
  psi_resource_of :: psi_resource
  avg10 :: f64
  avg60 :: f64
  avg300 :: f64
  psi_total :: u64
  psi_timestamp :: u64

definition classify_pressure :: "f64 \<Rightarrow> pressure_state" where
  "classify_pressure a = (if flt a (f64_lit 1) then pressure_new
     else if flt a (f64_lit 5) then pressure_new\<lparr>memory_pressure := f32_lit (3 / 10)\<rparr>
     else if flt a (f64_lit 10) then pressure_new\<lparr>memory_pressure := f32_lit (7 / 10)\<rparr>
     else pressure_new\<lparr>memory_pressure := f32_lit 1\<rparr>)"

definition pressure_level_str :: "f64 \<Rightarrow> string" where
  "pressure_level_str a = (if flt a (f64_lit 1) then ''low'' else if flt a (f64_lit 5) then ''medium''
     else if flt a (f64_lit 10) then ''high'' else ''critical'')"

record psi_fields =
  f_avg10 :: "f64 option"
  f_avg60 :: "f64 option"
  f_avg300 :: "f64 option"
  f_total :: "u64 option"

definition no_fields :: psi_fields where
  "no_fields = \<lparr>f_avg10 = None, f_avg60 = None, f_avg300 = None, f_total = None\<rparr>"

definition psi_float :: "string \<Rightarrow> string \<Rightarrow> f64 ghost_result" where
  "psi_float key value = (case parse_f64 value of Some v \<Rightarrow> Ok v
     | None \<Rightarrow> Err (Internal [Lit (''invalid '' @ key @ '' value: ''), Lit value]))"

definition psi_token :: "string \<Rightarrow> psi_fields \<Rightarrow> psi_fields ghost_result" where
  "psi_token token f = (case split_once (CHR ''='') token of
       None \<Rightarrow> Ok f
     | Some (key, value) \<Rightarrow>
         if key = ''avg10'' then outcome_bind (psi_float key value) (\<lambda>v. Ok (f\<lparr>f_avg10 := Some v\<rparr>))
         else if key = ''avg60'' then outcome_bind (psi_float key value) (\<lambda>v. Ok (f\<lparr>f_avg60 := Some v\<rparr>))
         else if key = ''avg300'' then outcome_bind (psi_float key value) (\<lambda>v. Ok (f\<lparr>f_avg300 := Some v\<rparr>))
         else if key = ''total'' then (case parse_u64 value of Ok v \<Rightarrow> Ok (f\<lparr>f_total := Some v\<rparr>)
           | _ \<Rightarrow> Err (Internal [Lit ''invalid total value: '', Lit value]))
         else Ok f)"

fun psi_tokens :: "string list \<Rightarrow> psi_fields \<Rightarrow> psi_fields ghost_result" where
  "psi_tokens [] f = Ok f"
| "psi_tokens (t # ts) f = outcome_bind (psi_token t f) (psi_tokens ts)"

definition required :: "string \<Rightarrow> 'a option \<Rightarrow> 'a ghost_result" where
  "required key v = (case v of Some a \<Rightarrow> Ok a | None \<Rightarrow> Err (Internal [Lit (''missing '' @ key @ '' in PSI line'')]))"

definition psi_sample_of :: "psi_resource \<Rightarrow> u64 \<Rightarrow> psi_fields \<Rightarrow> psi_sample ghost_result" where
  "psi_sample_of res ts f =
     outcome_bind (required ''avg10'' (f_avg10 f)) (\<lambda>a.
     outcome_bind (required ''avg60'' (f_avg60 f)) (\<lambda>b.
     outcome_bind (required ''avg300'' (f_avg300 f)) (\<lambda>c.
     outcome_bind (required ''total'' (f_total f)) (\<lambda>t.
     Ok \<lparr>psi_resource_of = res, avg10 = a, avg60 = b, avg300 = c, psi_total = t, psi_timestamp = ts\<rparr>))))"

definition psi_parse :: "psi_resource \<Rightarrow> u64 \<Rightarrow> string \<Rightarrow> psi_sample ghost_result" where
  "psi_parse res ts line = outcome_bind (psi_tokens (split_whitespace line) no_fields) (psi_sample_of res ts)"

definition psi_parse_line :: "string \<Rightarrow> psi_resource \<Rightarrow> psi_sample rt" where
  "psi_parse_line line res = bind_act now_secs (\<lambda>ts. lift_outcome (psi_parse res ts line))"

definition emit_pressure_event :: "psi_sample \<Rightarrow> unit rt" where
  "emit_pressure_event s = (case psi_resource_of s of
       PsiMemory \<Rightarrow> emit_event (EvMemoryPressureChanged 0 pressure_new (avg10 s) (avg60 s) (avg300 s) (psi_total s))
     | PsiIo \<Rightarrow> emit_event (EvIoPressureChanged 0 pressure_new (avg10 s) (avg60 s) (avg300 s) (psi_total s))
     | PsiCpu \<Rightarrow> ret ())"

definition psi_read :: "file_system \<Rightarrow> psi_resource \<Rightarrow> psi_sample rt" where
  "psi_read fs res = (let path = ''/proc/pressure/'' @ proc_name res in
     bind_act (lift_outcome (read_file fs path [Lit ''PSI not available: '', Lit path, Lit '' not found. Kernel may lack CONFIG_PRESSURE''])) (\<lambda>content.
     bind_act (psi_parse_line (trim content) res) (\<lambda>s.
     bind_act (emit_pressure_event s) (\<lambda>_. ret s))))"

text \<open>The reads of all three resources; a failed one does not stop the others.\<close>

definition read_three :: "(psi_resource \<Rightarrow> psi_sample rt) \<Rightarrow> (ghost_error + psi_sample) list rt" where
  "read_three rd = bind_act (catch_act (rd PsiMemory)) (\<lambda>m. bind_act (catch_act (rd PsiIo)) (\<lambda>i.
     bind_act (catch_act (rd PsiCpu)) (\<lambda>c. ret [m, i, c])))"

definition psi_read_all :: "file_system \<Rightarrow> (ghost_error + psi_sample) list rt" where
  "psi_read_all fs = read_three (psi_read fs)"

fun sim_prefix :: "psi_resource \<Rightarrow> string" where
  "sim_prefix PsiMemory = ''memory:''"
| "sim_prefix PsiIo = ''io:''"
| "sim_prefix PsiCpu = ''cpu:''"

fun resource_seed :: "psi_resource \<Rightarrow> u64" where
  "resource_seed PsiMemory = 0"
| "resource_seed PsiIo = 1"
| "resource_seed PsiCpu = 2"

definition sim_psi_generate :: "profile \<Rightarrow> (u64 \<Rightarrow> rng) \<Rightarrow> u64 \<Rightarrow> psi_resource \<Rightarrow> psi_sample rt" where
  "sim_psi_generate pr seeded seed res =
     bind_act (lift_outcome (outcome_bind (mul_pr pr seed 31) (\<lambda>m. add_pr pr m (resource_seed res)))) (\<lambda>sd.
       let g = seeded sd in
       bind_act (lift_outcome (gen_range g 3 0 1000000)) (\<lambda>tot.
       bind_act now_secs (\<lambda>ts.
         let s = \<lparr>psi_resource_of = res, avg10 = draw_float g 0 (f64_lit 0) (f64_lit 20), avg60 = draw_float g 1 (f64_lit 0) (f64_lit 15),
                  avg300 = draw_float g 2 (f64_lit 0) (f64_lit 10), psi_total = word_of_int tot, psi_timestamp = ts\<rparr>
         in bind_act (emit_pressure_event s) (\<lambda>_. ret s))))"

definition sim_psi_read ::
  "profile \<Rightarrow> (u64 \<Rightarrow> rng) \<Rightarrow> file_system \<Rightarrow> u64 \<Rightarrow> string option \<Rightarrow> psi_resource \<Rightarrow> psi_sample rt" where
  "sim_psi_read pr seeded fs seed path res =
     bind_act (lift_outcome (simulation_file fs path)) (\<lambda>file.
       case List.map_filter (strip_prefix (sim_prefix res)) (lines (unwrap_or [] file)) of
         rest # _ \<Rightarrow> psi_parse_line (trim rest) res
       | [] \<Rightarrow> sim_psi_generate pr seeded seed res)"

definition sim_psi_read_all ::
  "profile \<Rightarrow> (u64 \<Rightarrow> rng) \<Rightarrow> file_system \<Rightarrow> u64 \<Rightarrow> string option \<Rightarrow> (ghost_error + psi_sample) list rt" where
  "sim_psi_read_all pr seeded fs seed path = read_three (sim_psi_read pr seeded fs seed path)"

section \<open>The two lines of a pressure file\<close>

text \<open>Fields read later take the place of the ones read before.\<close>

definition later :: "'a option \<Rightarrow> 'a option \<Rightarrow> 'a option" where
  "later old new = (case new of None \<Rightarrow> old | Some v \<Rightarrow> Some v)"

lemma later_simps [simp]: "later v None = v" "later v (Some a) = Some a"
  by (simp_all add: later_def)

definition merge_fields :: "psi_fields \<Rightarrow> psi_fields \<Rightarrow> psi_fields" where
  "merge_fields f h = \<lparr>f_avg10 = later (f_avg10 f) (f_avg10 h), f_avg60 = later (f_avg60 f) (f_avg60 h),
     f_avg300 = later (f_avg300 f) (f_avg300 h), f_total = later (f_total f) (f_total h)\<rparr>"

lemma merge_none [simp]: "merge_fields f no_fields = f"
  by (simp add: merge_fields_def no_fields_def)

lemma psi_token_merge:
  assumes "psi_token t h = Ok h'" shows "psi_token t (merge_fields f h) = Ok (merge_fields f h')"
proof (cases "split_once (CHR ''='') t")
  case None
  with assms show ?thesis by (simp add: psi_token_def)
next
  case (Some kv)
  then obtain k v where kv: "split_once (CHR ''='') t = Some (k, v)" by (cases kv) simp
  consider "k = ''avg10''" | "k = ''avg60''" | "k = ''avg300''" | "k = ''total''"
    | "k \<noteq> ''avg10''" "k \<noteq> ''avg60''" "k \<noteq> ''avg300''" "k \<noteq> ''total''" by blast
  then show ?thesis
    using assms kv by cases (auto simp: psi_token_def outcome_bind_Ok merge_fields_def split: outcome.splits)
qed

lemma psi_tokens_merge:
  "psi_tokens ts h = Ok h' \<Longrightarrow> psi_tokens ts (merge_fields f h) = Ok (merge_fields f h')"
  by (induction ts arbitrary: h) (auto simp: outcome_bind_Ok dest: psi_token_merge)

lemma psi_tokens_append: "psi_tokens (ts @ us) f = outcome_bind (psi_tokens ts f) (psi_tokens us)"
proof (induction ts arbitrary: f)
  case (Cons t ts)
  then show ?case by (cases "psi_token t f") simp_all
qed simp

lemma required_Ok: "required key v = Ok a \<longleftrightarrow> v = Some a"
  by (cases v) (simp_all add: required_def)

lemma psi_sample_of_Ok:
  "psi_sample_of res ts f = Ok x \<longleftrightarrow>
    (\<exists>a b c t. f = \<lparr>f_avg10 = Some a, f_avg60 = Some b, f_avg300 = Some c, f_total = Some t\<rparr> \<and>
      x = \<lparr>psi_resource_of = res, avg10 = a, avg60 = b, avg300 = c, psi_total = t, psi_timestamp = ts\<rparr>)"
  by (cases f) (auto simp: psi_sample_of_def outcome_bind_Ok required_Ok)

lemma psi_parse_two_lines:
  assumes "psi_parse res ts first = Ok a" "psi_parse res ts second = Ok b"
  shows "psi_parse res ts (first @ newline # second) = Ok b"
proof -
  obtain f where f: "psi_tokens (split_whitespace first) no_fields = Ok f"
    using assms(1) by (auto simp: psi_parse_def outcome_bind_Ok)
  obtain h where h: "psi_tokens (split_whitespace second) no_fields = Ok h" "psi_sample_of res ts h = Ok b"
    using assms(2) by (auto simp: psi_parse_def outcome_bind_Ok)
  from psi_tokens_merge [OF h(1), of f] have "psi_tokens (split_whitespace second) f = Ok (merge_fields f h)" by simp
  moreover have "merge_fields f h = h"
    using h(2) by (auto simp: psi_sample_of_Ok merge_fields_def)
  ultimately show ?thesis
    using f h(2) by (simp add: psi_parse_def split_whitespace_append psi_tokens_append)
qed

text \<open>
  A read of a pressure file of two lines, each a complete line of its own, returns the values of
  the second, which is the line \<^verbatim>\<open>full\<close> of the kernel's format: the line \<^verbatim>\<open>some\<close> is never seen.
\<close>

theorem psi_read_full_line:
  assumes "fs (''/proc/pressure/'' @ proc_name res) = Contents (first @ newline # second)"
    and "psi_parse res (secs_at s (ticks s)) first = Ok a" "psi_parse res (secs_at s (ticks s)) second = Ok b"
  shows "fst (psi_read fs res s) = Ok b"
proof -
  have "psi_parse res (secs_at s (ticks s)) (trim (first @ newline # second)) = Ok b"
    using psi_parse_two_lines [OF assms(2,3)] by (simp add: psi_parse_def)
  with assms(1) show ?thesis
    by (simp add: psi_read_def read_file_def psi_parse_line_def now_secs_def bind_act_def lift_outcome_def ret_def
        emit_pressure_event_def emit_event_def split: psi_resource.split option.split)
qed

definition some_line :: string where
  "some_line = ''some avg10=3 avg60=2 avg300=0 total=9''"

definition full_line :: string where
  "full_line = ''full avg10=2 avg60=0 avg300=0 total=4''"

lemma rnd64_nat [simp]: "rnd binary64 2 = Fin 2" "rnd binary64 3 = Fin 3"
proof -
  have "rnd binary64 (of_int n) = Fin (of_int n)" if "0 \<le> n" "n \<le> 3" for n
  proof (rule rnd_exact)
    show "representable binary64 (rat_of_int n)" using that by (intro representable_int) (simp, simp add: binary64_def)
    show "\<bar>rat_of_int n\<bar> \<le> max_fin binary64" using that by (auto simp: max_fin_def binary64_def)
  qed
  from this [of 2] this [of 3] show "rnd binary64 2 = Fin 2" "rnd binary64 3 = Fin 3" by simp_all
qed

lemma line_tokens:
  "split_whitespace some_line = [''some'', ''avg10=3'', ''avg60=2'', ''avg300=0'', ''total=9'']"
  "split_whitespace full_line = [''full'', ''avg10=2'', ''avg60=0'', ''avg300=0'', ''total=4'']"
  by (simp_all add: some_line_def full_line_def is_whitespace_def)

lemma line_values:
  "parse_u64 ''9'' = Ok 9" "parse_u64 ''4'' = Ok 4"
  "parse_f64 ''3'' = Some (Fin 3)" "parse_f64 ''2'' = Some (Fin 2)" "parse_f64 ''0'' = Some (Fin 0)"
  by (simp_all add: text_eval)

lemma parse_lines:
  "psi_parse PsiMemory 1 some_line = Ok \<lparr>psi_resource_of = PsiMemory, avg10 = Fin 3, avg60 = Fin 2, avg300 = Fin 0, psi_total = 9, psi_timestamp = 1\<rparr>"
  "psi_parse PsiMemory 1 full_line = Ok \<lparr>psi_resource_of = PsiMemory, avg10 = Fin 2, avg60 = Fin 0, avg300 = Fin 0, psi_total = 4, psi_timestamp = 1\<rparr>"
  by (simp_all add: psi_parse_def line_tokens line_values psi_token_def split_once_def psi_float_def psi_sample_of_def required_def)

theorem psi_read_full_line_witness:
  "fst (psi_read (\<lambda>_. Contents (some_line @ newline # full_line)) PsiMemory quiet_runtime)
   = Ok \<lparr>psi_resource_of = PsiMemory, avg10 = Fin 2, avg60 = Fin 0, avg300 = Fin 0, psi_total = 4, psi_timestamp = 1\<rparr>"
  using psi_read_full_line [of "\<lambda>_. Contents (some_line @ newline # full_line)" PsiMemory some_line full_line quiet_runtime] parse_lines
  by (simp add: quiet_runtime_def)

end
