(* ===== verification/Memory_Readers.thy ===== *)
theory Memory_Readers
  imports Linux_Env Ranking
begin

text \<open>
  \<^verbatim>\<open>ghost-linux/src\<close>: \<^verbatim>\<open>meminfo.rs\<close>, \<^verbatim>\<open>vmstat.rs\<close>, \<^verbatim>\<open>swaps.rs\<close> and \<^verbatim>\<open>zram.rs\<close>, with their simulated counterparts. The
  variables a parser fills key by key are a map from the keys of its \<^verbatim>\<open>match\<close> to the last value
  read; the listing of \<^verbatim>\<open>/sys/block\<close> is an argument. The main facts are the round trips: the parsers
  return what is printed in the format of the kernel.
\<close>

section \<open>Key-value files\<close>

definition fill :: "string list \<Rightarrow> (string \<times> u64) option \<Rightarrow> (string \<rightharpoonup> u64) \<Rightarrow> (string \<rightharpoonup> u64)" where
  "fill keys kv vars = (case kv of Some (k, v) \<Rightarrow> if k \<in> set keys then vars(k \<mapsto> v) else vars | None \<Rightarrow> vars)"

definition fill_lines :: "string list \<Rightarrow> (string \<Rightarrow> (string \<times> u64) option) \<Rightarrow> string list \<Rightarrow> (string \<rightharpoonup> u64)" where
  "fill_lines keys parse ls = foldl (\<lambda>vars l. fill keys (parse l) vars) (\<lambda>_. None) ls"

definition value_of :: "(string \<rightharpoonup> u64) \<Rightarrow> string \<Rightarrow> u64" where
  "value_of vars k = unwrap_or 0 (vars k)"

section \<open>Memory statistics\<close>

record meminfo_snapshot =
  mi_total_kb :: u64
  mi_available_kb :: u64
  mi_free_kb :: u64
  mi_buffers_kb :: u64
  mi_cached_kb :: u64
  mi_swap_total_kb :: u64
  mi_swap_free_kb :: u64
  mi_active_kb :: u64
  mi_inactive_kb :: u64
  mi_dirty_kb :: u64
  mi_writeback_kb :: u64
  mi_timestamp :: u64

definition meminfo_keys :: "string list" where
  "meminfo_keys = [''MemTotal'', ''MemAvailable'', ''MemFree'', ''Buffers'', ''Cached'', ''SwapTotal'', ''SwapFree'', ''Active'',
     ''Inactive'', ''Dirty'', ''Writeback'']"

definition meminfo_parse_line :: "string \<Rightarrow> (string \<times> u64) option" where
  "meminfo_parse_line line = (case split_once (CHR '':'') line of
       None \<Rightarrow> None
     | Some (key, rest) \<Rightarrow> (case split_whitespace (trim rest) of
         [] \<Rightarrow> None
       | v # _ \<Rightarrow> map_option (Pair (trim key)) (ok (parse_u64 v))))"

definition meminfo_of :: "(string \<rightharpoonup> u64) \<Rightarrow> u64 \<Rightarrow> meminfo_snapshot" where
  "meminfo_of vars ts = \<lparr>mi_total_kb = value_of vars ''MemTotal'', mi_available_kb = value_of vars ''MemAvailable'',
     mi_free_kb = value_of vars ''MemFree'', mi_buffers_kb = value_of vars ''Buffers'', mi_cached_kb = value_of vars ''Cached'',
     mi_swap_total_kb = value_of vars ''SwapTotal'', mi_swap_free_kb = value_of vars ''SwapFree'',
     mi_active_kb = value_of vars ''Active'', mi_inactive_kb = value_of vars ''Inactive'',
     mi_dirty_kb = value_of vars ''Dirty'', mi_writeback_kb = value_of vars ''Writeback'', mi_timestamp = ts\<rparr>"

definition meminfo_parse :: "string \<Rightarrow> meminfo_snapshot rt" where
  "meminfo_parse content = bind_act now_secs (\<lambda>ts. ret (meminfo_of (fill_lines meminfo_keys meminfo_parse_line (lines content)) ts))"

definition emit_memory_stats_event :: "meminfo_snapshot \<Rightarrow> unit rt" where
  "emit_memory_stats_event s = emit_event (EvMemoryStatsChanged 0 (mi_total_kb s) (mi_available_kb s)
     (saturating_sub (mi_swap_total_kb s) (mi_swap_free_kb s)) (mi_dirty_kb s))"

definition meminfo_read :: "file_system \<Rightarrow> meminfo_snapshot rt" where
  "meminfo_read fs =
     bind_act (lift_outcome (read_file fs ''/proc/meminfo'' [Lit ''/proc/meminfo not found. Kernel may lack CONFIG_PROC_FS''])) (\<lambda>content.
     bind_act (meminfo_parse content) (\<lambda>s. bind_act (emit_memory_stats_event s) (\<lambda>_. ret s)))"

definition sim_meminfo_draws :: "rng \<Rightarrow> (u64 \<Rightarrow> meminfo_snapshot) ghost_result" where
  "sim_meminfo_draws g =
     outcome_bind (gen_range g 0 4000000 32000000) (\<lambda>tot.
     outcome_bind (gen_range g 1 0 tot) (\<lambda>fr.
     outcome_bind (gen_range g 2 fr tot) (\<lambda>av.
     outcome_bind (gen_range g 3 0 (tot div 10)) (\<lambda>buf.
     outcome_bind (gen_range g 4 0 (tot div 5)) (\<lambda>ca.
     outcome_bind (gen_range g 5 0 16000000) (\<lambda>st.
     outcome_bind (gen_range g 6 0 (st + 1)) (\<lambda>sf.
     outcome_bind (gen_range g 7 0 tot) (\<lambda>ac.
     outcome_bind (gen_range g 8 0 tot) (\<lambda>ina.
     outcome_bind (gen_range g 9 0 1000000) (\<lambda>di.
     outcome_bind (gen_range g 10 0 500000) (\<lambda>wb.
     Ok (\<lambda>ts. \<lparr>mi_total_kb = word_of_int tot, mi_available_kb = word_of_int av, mi_free_kb = word_of_int fr, mi_buffers_kb = word_of_int buf,
         mi_cached_kb = word_of_int ca, mi_swap_total_kb = word_of_int st, mi_swap_free_kb = word_of_int sf, mi_active_kb = word_of_int ac,
         mi_inactive_kb = word_of_int ina, mi_dirty_kb = word_of_int di, mi_writeback_kb = word_of_int wb, mi_timestamp = ts\<rparr>))))))))))))"

definition sim_meminfo_read :: "(u64 \<Rightarrow> rng) \<Rightarrow> file_system \<Rightarrow> u64 \<Rightarrow> string option \<Rightarrow> meminfo_snapshot rt" where
  "sim_meminfo_read seeded fs seed path =
     bind_act (lift_outcome (simulation_file fs path)) (\<lambda>file. case file of
       Some content \<Rightarrow> meminfo_parse content
     | None \<Rightarrow> bind_act (lift_outcome (sim_meminfo_draws (seeded seed))) (\<lambda>f. bind_act now_secs (\<lambda>ts. let s = f ts in
         bind_act (emit_memory_stats_event s) (\<lambda>_. ret s))))"

section \<open>Virtual memory statistics\<close>

record vmstat_snapshot =
  pgscan_kswapd :: u64
  pgscan_direct :: u64
  pgsteal_kswapd :: u64
  pgsteal_direct :: u64
  oom_kill :: u64
  pswpin :: u64
  pswpout :: u64
  pgfault :: u64
  pgmajfault :: u64
  vm_timestamp :: u64

definition vmstat_keys :: "string list" where
  "vmstat_keys = [''pgscan_kswapd'', ''pgscan_direct'', ''pgsteal_kswapd'', ''pgsteal_direct'', ''oom_kill'', ''pswpin'', ''pswpout'',
     ''pgfault'', ''pgmajfault'']"

definition vmstat_parse_line :: "string \<Rightarrow> (string \<times> u64) option" where
  "vmstat_parse_line line = (case split_whitespace line of
       key # v # _ \<Rightarrow> map_option (Pair key) (ok (parse_u64 v))
     | _ \<Rightarrow> None)"

definition vmstat_of :: "(string \<rightharpoonup> u64) \<Rightarrow> u64 \<Rightarrow> vmstat_snapshot" where
  "vmstat_of vars ts = \<lparr>pgscan_kswapd = value_of vars ''pgscan_kswapd'', pgscan_direct = value_of vars ''pgscan_direct'',
     pgsteal_kswapd = value_of vars ''pgsteal_kswapd'', pgsteal_direct = value_of vars ''pgsteal_direct'',
     oom_kill = value_of vars ''oom_kill'', pswpin = value_of vars ''pswpin'', pswpout = value_of vars ''pswpout'',
     pgfault = value_of vars ''pgfault'', pgmajfault = value_of vars ''pgmajfault'', vm_timestamp = ts\<rparr>"

definition vmstat_parse :: "string \<Rightarrow> vmstat_snapshot rt" where
  "vmstat_parse content = bind_act now_secs (\<lambda>ts. ret (vmstat_of (fill_lines vmstat_keys vmstat_parse_line (lines content)) ts))"

definition emit_vmstat_event :: "vmstat_snapshot \<Rightarrow> unit rt" where
  "emit_vmstat_event s = emit_event (EvVmstatChanged 0 (pgscan_kswapd s) (pgscan_direct s) (oom_kill s) (pswpin s) (pswpout s))"

definition vmstat_read :: "file_system \<Rightarrow> vmstat_snapshot rt" where
  "vmstat_read fs =
     bind_act (lift_outcome (read_file fs ''/proc/vmstat'' [Lit ''/proc/vmstat not found. Kernel may lack CONFIG_PROC_FS''])) (\<lambda>content.
     bind_act (vmstat_parse content) (\<lambda>s. bind_act (emit_vmstat_event s) (\<lambda>_. ret s)))"

definition sim_vmstat_draws :: "rng \<Rightarrow> (u64 \<Rightarrow> vmstat_snapshot) ghost_result" where
  "sim_vmstat_draws g =
     outcome_bind (gen_range g 0 0 1000000) (\<lambda>sk.
     outcome_bind (gen_range g 1 0 1000000) (\<lambda>sd.
     outcome_bind (gen_range g 2 0 sk) (\<lambda>tk.
     outcome_bind (gen_range g 3 0 sd) (\<lambda>td.
     outcome_bind (gen_range g 4 0 100) (\<lambda>oo.
     outcome_bind (gen_range g 5 0 10000) (\<lambda>pin.
     outcome_bind (gen_range g 6 0 10000) (\<lambda>pout.
     outcome_bind (gen_range g 7 0 100000000) (\<lambda>pf.
     outcome_bind (gen_range g 8 0 pf) (\<lambda>pm.
     Ok (\<lambda>ts. \<lparr>pgscan_kswapd = word_of_int sk, pgscan_direct = word_of_int sd, pgsteal_kswapd = word_of_int tk, pgsteal_direct = word_of_int td,
         oom_kill = word_of_int oo, pswpin = word_of_int pin, pswpout = word_of_int pout, pgfault = word_of_int pf, pgmajfault = word_of_int pm,
         vm_timestamp = ts\<rparr>))))))))))"

definition sim_vmstat_read :: "(u64 \<Rightarrow> rng) \<Rightarrow> file_system \<Rightarrow> u64 \<Rightarrow> string option \<Rightarrow> vmstat_snapshot rt" where
  "sim_vmstat_read seeded fs seed path =
     bind_act (lift_outcome (simulation_file fs path)) (\<lambda>file. case file of
       Some content \<Rightarrow> vmstat_parse content
     | None \<Rightarrow> bind_act (lift_outcome (sim_vmstat_draws (seeded (seed * 31)))) (\<lambda>f. bind_act now_secs (\<lambda>ts. let s = f ts in
         bind_act (emit_vmstat_event s) (\<lambda>_. ret s))))"

section \<open>Swap devices\<close>

datatype swap_kind = SwapFile | SwapPartition | SwapUnknown

fun display_swap_kind :: "swap_kind \<Rightarrow> string" where
  "display_swap_kind SwapFile = ''file''"
| "display_swap_kind SwapPartition = ''partition''"
| "display_swap_kind SwapUnknown = ''unknown''"

record swap_device =
  sd_name :: string
  sd_kind :: swap_kind
  sd_priority :: int
  sd_size_kb :: u64
  sd_used_kb :: u64

record swap_topology =
  sw_devices :: "swap_device list"
  sw_total_kb :: u64
  sw_used_kb :: u64
  sw_timestamp :: u64

definition detect_kind :: "string \<Rightarrow> string \<Rightarrow> swap_kind" where
  "detect_kind type_field name = (if to_lowercase type_field = ''file'' then SwapFile
     else if to_lowercase type_field = ''partition'' then SwapPartition
     else if starts_with ''/dev/'' name then SwapPartition
     else if contains ''.swap'' name \<or> contains ''swapfile'' name then SwapFile else SwapUnknown)"

definition swap_parse_line :: "string \<Rightarrow> swap_device option" where
  "swap_parse_line line = (let parts = split_whitespace line in
     if length parts < 4 then None
     else Some \<lparr>sd_name = parts ! 0, sd_kind = detect_kind (parts ! 1) (parts ! 0),
        sd_priority = (if 4 < length parts then unwrap_or 0 (ok (parse_i32 (parts ! 4))) else 0),
        sd_size_kb = unwrap_or 0 (ok (parse_u64 (parts ! 2))), sd_used_kb = unwrap_or 0 (ok (parse_u64 (parts ! 3)))\<rparr>)"

definition swap_lines :: "string list \<Rightarrow> string list" where
  "swap_lines ls = (case ls of [] \<Rightarrow> [] | header # rest \<Rightarrow> if contains ''Filename'' header then rest else ls)"

definition swap_topology_of :: "profile \<Rightarrow> swap_device list \<Rightarrow> swap_topology rt" where
  "swap_topology_of pr ds =
     bind_act (lift_outcome (sum_kb pr 0 (map sd_size_kb ds))) (\<lambda>tot.
     bind_act (lift_outcome (sum_kb pr 0 (map sd_used_kb ds))) (\<lambda>used.
     bind_act now_secs (\<lambda>ts. ret \<lparr>sw_devices = ds, sw_total_kb = tot, sw_used_kb = used, sw_timestamp = ts\<rparr>)))"

definition swap_parse :: "profile \<Rightarrow> string \<Rightarrow> swap_topology rt" where
  "swap_parse pr content = swap_topology_of pr (List.map_filter swap_parse_line (swap_lines (lines content)))"

definition swap_emit_events :: "swap_topology \<Rightarrow> unit rt" where
  "swap_emit_events t = emit_all
     (EvSwapTopologyChanged 0 (map (\<lambda>d. [Lit (sd_name d)]) (sw_devices t)) (sw_total_kb t) (sw_used_kb t)
      # map (\<lambda>d. EvSwapUtilizationChanged 0 [Lit (sd_name d)] (sd_used_kb d) (sd_size_kb d)) (sw_devices t))"

definition swap_read :: "profile \<Rightarrow> file_system \<Rightarrow> swap_topology rt" where
  "swap_read pr fs =
     bind_act (lift_outcome (read_file fs ''/proc/swaps'' [Lit ''/proc/swaps not found. Kernel may lack CONFIG_PROC_FS''])) (\<lambda>content.
     bind_act (swap_parse pr content) (\<lambda>t. bind_act (swap_emit_events t) (\<lambda>_. ret t)))"

text \<open>The draws of device \<open>i\<close>: a coin, the size, the used space and the priority.\<close>

definition sim_swap_device :: "rng \<Rightarrow> nat \<Rightarrow> swap_device ghost_result" where
  "sim_swap_device g i = (let b = 1 + 4 * i; part = draw_bool g b in
     outcome_bind (gen_range g (b + 1) 512000 16000000) (\<lambda>sz.
     outcome_bind (gen_range g (b + 2) 0 (sz + 1)) (\<lambda>used.
     outcome_bind (gen_range g (b + 3) (- 32768) 32767) (\<lambda>prio.
     Ok \<lparr>sd_name = (if part then ''/dev/swap'' else ''/swapfile'') @ decimal i, sd_kind = (if part then SwapPartition else SwapFile),
         sd_priority = prio, sd_size_kb = word_of_int sz, sd_used_kb = word_of_int used\<rparr>))))"

fun draw_devices :: "(nat \<Rightarrow> 'a ghost_result) \<Rightarrow> nat list \<Rightarrow> 'a list ghost_result" where
  "draw_devices f [] = Ok []"
| "draw_devices f (i # is) = outcome_bind (f i) (\<lambda>d. outcome_bind (draw_devices f is) (\<lambda>ds. Ok (d # ds)))"

definition sim_swap_read :: "profile \<Rightarrow> (u64 \<Rightarrow> rng) \<Rightarrow> file_system \<Rightarrow> u64 \<Rightarrow> string option \<Rightarrow> swap_topology rt" where
  "sim_swap_read pr seeded fs seed path =
     bind_act (lift_outcome (simulation_file fs path)) (\<lambda>file. case file of
       Some content \<Rightarrow> swap_parse pr content
     | None \<Rightarrow>
         bind_act (lift_outcome (gen_range (seeded seed) 0 1 5)) (\<lambda>n.
         bind_act (lift_outcome (draw_devices (sim_swap_device (seeded seed)) [0..<nat n])) (\<lambda>ds.
         bind_act (swap_topology_of pr (sort_by (\<lambda>a b. cmp_ord (- sd_priority a) (- sd_priority b)) ds)) (\<lambda>t.
         bind_act (swap_emit_events t) (\<lambda>_. ret t)))))"

section \<open>ZRAM devices\<close>

record zram_device =
  zd_name :: string
  orig_size_kb :: u64
  comp_size_kb :: u64
  mem_used_total_kb :: u64
  max_comp_streams :: u32
  comp_algorithm :: string

record zram_snapshot =
  zs_devices :: "zram_device list"
  total_orig_kb :: u64
  total_comp_kb :: u64
  zs_ratio :: f32
  zs_timestamp :: u64

definition zram_compression_ratio :: "zram_device \<Rightarrow> f32 option" where
  "zram_compression_ratio d = (if comp_size_kb d = 0 then None
     else Some (fdiv binary32 (of_word binary32 (orig_size_kb d)) (of_word binary32 (comp_size_kb d))))"

text \<open>The listing of \<^verbatim>\<open>/sys/block\<close>: absent, unreadable, or its entries, each a name or an error.\<close>

datatype dir_read = NoDir | DirFailed message | Entries "(message + string) list"

definition sysfs_read :: "file_system \<Rightarrow> string \<Rightarrow> string \<Rightarrow> string ghost_result" where
  "sysfs_read fs dir attr = (let path = dir @ ''/'' @ attr in
     read_file fs path [Lit ''ZRAM attribute '', Lit attr, Lit '' not found at '', Lit (quoted path)])"

definition parse_sysfs_value :: "file_system \<Rightarrow> string \<Rightarrow> string \<Rightarrow> u64 ghost_result" where
  "parse_sysfs_value fs dir attr = outcome_bind (sysfs_read fs dir attr) (\<lambda>content. case parse_u64 (trim content) of
       Ok v \<Rightarrow> Ok v
     | _ \<Rightarrow> Err (Internal [Lit ''Failed to parse ZRAM attribute '', Lit attr, Lit ('': '' @ [CHR 0x27]), Lit (trim content), Lit [CHR 0x27]]))"

definition read_sysfs_string :: "file_system \<Rightarrow> string \<Rightarrow> string \<Rightarrow> string ghost_result" where
  "read_sysfs_string fs dir attr = outcome_bind (sysfs_read fs dir attr) (\<lambda>content. Ok (trim content))"

definition read_device_from_path :: "file_system \<Rightarrow> string \<Rightarrow> string \<Rightarrow> zram_device ghost_result" where
  "read_device_from_path fs dir name =
     outcome_bind (parse_sysfs_value fs dir ''orig_size'') (\<lambda>orig.
     outcome_bind (parse_sysfs_value fs dir ''compr_data_size'') (\<lambda>comp.
     outcome_bind (parse_sysfs_value fs dir ''mem_used_total'') (\<lambda>mem.
     outcome_bind (parse_sysfs_value fs dir ''max_comp_streams'') (\<lambda>streams.
     outcome_bind (read_sysfs_string fs dir ''comp_algorithm'') (\<lambda>alg.
     Ok \<lparr>zd_name = name, orig_size_kb = orig div 1024, comp_size_kb = comp div 1024, mem_used_total_kb = mem div 1024,
         max_comp_streams = ucast streams, comp_algorithm = alg\<rparr>)))))"

definition zram_read_device :: "file_system \<Rightarrow> bool \<Rightarrow> string \<Rightarrow> zram_device ghost_result" where
  "zram_read_device fs present name = (if \<not> present then Err (Internal [Lit ''ZRAM device '', Lit name, Lit '' not found''])
     else read_device_from_path fs (''/sys/block/'' @ name) name)"

fun discover_entries :: "file_system \<Rightarrow> (message + string) list \<Rightarrow> zram_device list ghost_result" where
  "discover_entries fs [] = Ok []"
| "discover_entries fs (Inl m # es) = Err (Io m)"
| "discover_entries fs (Inr name # es) = (let dev = (if starts_with ''zram'' name then ok (read_device_from_path fs (''/sys/block/'' @ name) name) else None)
     in outcome_bind (discover_entries fs es) (\<lambda>ds. Ok (case dev of Some d \<Rightarrow> d # ds | None \<Rightarrow> ds)))"

definition discover_devices :: "file_system \<Rightarrow> dir_read \<Rightarrow> zram_device list ghost_result" where
  "discover_devices fs dir = (case dir of
       NoDir \<Rightarrow> Ok []
     | DirFailed m \<Rightarrow> Err (Io m)
     | Entries es \<Rightarrow> outcome_bind (discover_entries fs es) (\<lambda>ds. Ok (sort_by (\<lambda>a b. cmp_ord (zd_name a) (zd_name b)) ds)))"

definition build_snapshot :: "profile \<Rightarrow> zram_device list \<Rightarrow> zram_snapshot rt" where
  "build_snapshot pr ds =
     bind_act (lift_outcome (sum_kb pr 0 (map orig_size_kb ds))) (\<lambda>orig.
     bind_act (lift_outcome (sum_kb pr 0 (map comp_size_kb ds))) (\<lambda>comp.
     bind_act now_secs (\<lambda>ts. ret \<lparr>zs_devices = ds, total_orig_kb = orig, total_comp_kb = comp,
       zs_ratio = (if comp > 0 then fdiv binary32 (of_word binary32 orig) (of_word binary32 comp) else f32_lit 0), zs_timestamp = ts\<rparr>)))"

definition zram_emit_events :: "zram_snapshot \<Rightarrow> unit rt" where
  "zram_emit_events z = emit_all
     (map (\<lambda>d. EvZramUtilizationChanged 0 [Lit (zd_name d)] (orig_size_kb d) (comp_size_kb d) (unwrap_or (f32_lit 0) (zram_compression_ratio d))) (zs_devices z)
      @ [EvTierInventoryChanged 0 (map (\<lambda>d. [Lit (zd_name d)]) (zs_devices z))])"

definition zram_read :: "profile \<Rightarrow> file_system \<Rightarrow> dir_read \<Rightarrow> zram_snapshot rt" where
  "zram_read pr fs dir = bind_act (lift_outcome (discover_devices fs dir)) (\<lambda>ds.
     if ds = [] then fail (Internal [Lit ''No ZRAM devices found at /sys/block/zram*''])
     else bind_act (build_snapshot pr ds) (\<lambda>z. bind_act (zram_emit_events z) (\<lambda>_. ret z)))"

text \<open>The simulation file: a block per device, its attributes on the indented lines that follow the name.\<close>

definition zram_attribute :: "string \<Rightarrow> zram_device \<Rightarrow> zram_device" where
  "zram_attribute line d = (case split_once (CHR '':'') (trim line) of
       None \<Rightarrow> d
     | Some (key, value) \<Rightarrow>
         let k = trim key; v = trim value in
         if k = ''orig_size'' then d\<lparr>orig_size_kb := unwrap_or 0 (ok (parse_u64 v))\<rparr>
         else if k = ''comp_size'' then d\<lparr>comp_size_kb := unwrap_or 0 (ok (parse_u64 v))\<rparr>
         else if k = ''mem_used_total'' then d\<lparr>mem_used_total_kb := unwrap_or 0 (ok (parse_u64 v))\<rparr>
         else if k = ''max_comp_streams'' then d\<lparr>max_comp_streams := unwrap_or 0 (ok (parse_u32 v))\<rparr>
         else if k = ''comp_algorithm'' then d\<lparr>comp_algorithm := v\<rparr> else d)"

definition in_block :: "string \<Rightarrow> bool" where
  "in_block l \<longleftrightarrow> trim l \<noteq> [] \<and> starts_with '' '' l"

definition zram_device_new :: "string \<Rightarrow> zram_device" where
  "zram_device_new name = \<lparr>zd_name = name, orig_size_kb = 0, comp_size_kb = 0, mem_used_total_kb = 0, max_comp_streams = 0, comp_algorithm = []\<rparr>"

function zram_blocks :: "string list \<Rightarrow> zram_device list" where
  "zram_blocks [] = []"
| "zram_blocks (l # ls) = (if trim l = [] then zram_blocks ls
     else foldl (\<lambda>d s. zram_attribute s d) (zram_device_new (trim l)) (takeWhile in_block ls) # zram_blocks (dropWhile in_block ls))"
  by pat_completeness auto
termination by (relation "measure length") (auto simp: length_dropWhile_le less_Suc_eq_le)

definition zram_parse :: "profile \<Rightarrow> string \<Rightarrow> zram_snapshot rt" where
  "zram_parse pr content = build_snapshot pr (zram_blocks (lines content))"

text \<open>The draws of device \<open>i\<close>: the size, the ratio, the memory used, the streams and the algorithm.\<close>

definition sim_zram_device :: "rng \<Rightarrow> nat \<Rightarrow> zram_device ghost_result" where
  "sim_zram_device g i = (let b = 1 + 5 * i in
     outcome_bind (gen_range g b 256000 8388608) (\<lambda>orig.
     let comp = to_u64 (fdiv binary64 (of_word binary64 (word_of_int orig :: u64)) (draw_float g (b + 1) (f64_lit (15 / 10)) (f64_lit 4))) in
     outcome_bind (gen_range g (b + 2) 0 (orig + 1)) (\<lambda>mem.
     outcome_bind (gen_range g (b + 3) 1 9) (\<lambda>streams.
     outcome_bind (gen_range g (b + 4) 0 4) (\<lambda>alg.
     Ok \<lparr>zd_name = ''zram'' @ decimal i, orig_size_kb = word_of_int orig, comp_size_kb = comp, mem_used_total_kb = word_of_int mem,
         max_comp_streams = word_of_int streams, comp_algorithm = [''lzo'', ''zstd'', ''lz4'', ''deflate''] ! nat alg\<rparr>)))))"

definition sim_zram_read :: "profile \<Rightarrow> (u64 \<Rightarrow> rng) \<Rightarrow> file_system \<Rightarrow> u64 \<Rightarrow> string option \<Rightarrow> zram_snapshot rt" where
  "sim_zram_read pr seeded fs seed path =
     bind_act (lift_outcome (simulation_file fs path)) (\<lambda>file. case file of
       Some content \<Rightarrow> zram_parse pr content
     | None \<Rightarrow>
         bind_act (lift_outcome (gen_range (seeded seed) 0 1 4)) (\<lambda>n.
         bind_act (lift_outcome (draw_devices (sim_zram_device (seeded seed)) [0..<nat n])) (\<lambda>ds.
         bind_act (build_snapshot pr ds) (\<lambda>z. bind_act (zram_emit_events z) (\<lambda>_. ret z)))))"

section \<open>What the parsers return\<close>

lemma fill_lines_snoc: "fill_lines keys parse (ls @ [l]) = fill keys (parse l) (fill_lines keys parse ls)"
  by (simp add: fill_lines_def)

lemma fill_lines_entries:
  assumes "\<And>k v. (k, v) \<in> set es \<Longrightarrow> parse (line k v) = Some (k, v)" "k \<in> set keys"
  shows "fill_lines keys parse (map (\<lambda>(k, v). line k v) es) k = map_of (rev es) k"
  using assms(1)
proof (induction es rule: rev_induct)
  case (snoc e es)
  obtain a b where e: "e = (a, b)" by force
  with snoc.prems [of a b] have "parse (line a b) = Some (a, b)" by simp
  moreover have "fill_lines keys parse (map (\<lambda>(k, v). line k v) es) k = map_of (rev es) k"
    using snoc by simp
  ultimately show ?case using assms(2) e by (auto simp: fill_lines_snoc fill_def)
qed (simp add: fill_lines_def)

definition unlines :: "string list \<Rightarrow> string" where
  "unlines ls = concat (map (\<lambda>l. l @ [newline]) ls)"

lemma lines_unlines: "list_all is_line ls \<Longrightarrow> lines (unlines ls) = ls"
  by (simp add: unlines_def lines_concat)

definition spaces :: "nat \<Rightarrow> string" where
  "spaces n = replicate n (CHR '' '')"

lemma is_blank_spaces [simp]: "is_blank (spaces n)"
  by (simp add: is_blank_def spaces_def list_all_iff)

lemma is_line_spaces [simp]: "is_line (spaces n)"
  by (simp add: is_line_def spaces_def)

text \<open>A line of \<^verbatim>\<open>/proc/meminfo\<close>: the key, a colon, any padding, the value and its unit.\<close>

definition meminfo_line :: "(string \<Rightarrow> nat) \<Rightarrow> string \<Rightarrow> u64 \<Rightarrow> string" where
  "meminfo_line pad k v = k @ '':'' @ spaces (pad k) @ decimal (unat v) @ '' kB''"

definition is_key :: "string \<Rightarrow> bool" where
  "is_key k \<longleftrightarrow> CHR '':'' \<notin> set k \<and> is_word k \<and> is_line k"

lemma parse_meminfo_line:
  assumes "is_key k" shows "meminfo_parse_line (meminfo_line pad k v) = Some (k, v)"
proof -
  let ?d = "decimal (unat v)"
  have "split_once (CHR '':'') (meminfo_line pad k v) = Some (k, spaces (pad k) @ ?d @ '' kB'')"
    using assms split_once_sep [of "CHR '':''" k] by (simp add: meminfo_line_def is_key_def)
  moreover have "split_whitespace (spaces (pad k) @ ?d @ '' kB'') = ?d # split_whitespace ''kB''"
    using split_whitespace_sep [of ?d "CHR '' ''" "''kB''"] by (simp add: split_whitespace_blank)
  moreover have "trim k = k" using assms by (simp add: is_key_def trim_word)
  ultimately show ?thesis by (simp add: meminfo_parse_line_def)
qed

lemma meminfo_keys_ok: "k \<in> set meminfo_keys \<Longrightarrow> is_key k"
  by (auto simp: meminfo_keys_def is_key_def is_word_def is_line_def is_whitespace_def)

lemma value_of_entries:
  assumes "\<And>k v. (k, v) \<in> set es \<Longrightarrow> parse (line k v) = Some (k, v)" "k \<in> set keys"
  shows "value_of (fill_lines keys parse (map (\<lambda>(k, v). line k v) es)) k = value_of (map_of (rev es)) k"
  unfolding value_of_def using fill_lines_entries [of es parse line k keys] assms by simp

lemma meminfo_entries:
  assumes "list_all (is_key \<circ> fst) es"
  shows "meminfo_of (fill_lines meminfo_keys meminfo_parse_line (lines (unlines (map (\<lambda>(k, v). meminfo_line pad k v) es)))) ts
    = meminfo_of (map_of (rev es)) ts"
proof -
  have "list_all is_line (map (\<lambda>(k, v). meminfo_line pad k v) es)"
    using assms by (auto simp: list_all_iff meminfo_line_def is_key_def is_line_Cons)
  then have "lines (unlines (map (\<lambda>(k, v). meminfo_line pad k v) es)) = map (\<lambda>(k, v). meminfo_line pad k v) es"
    by (rule lines_unlines)
  moreover have "\<And>k. k \<in> set meminfo_keys \<Longrightarrow>
    value_of (fill_lines meminfo_keys meminfo_parse_line (map (\<lambda>(k, v). meminfo_line pad k v) es)) k = value_of (map_of (rev es)) k"
    using assms by (intro value_of_entries parse_meminfo_line) (auto simp: list_all_iff)
  ultimately show ?thesis by (simp add: meminfo_of_def meminfo_keys_def)
qed

text \<open>A line of \<^verbatim>\<open>/proc/vmstat\<close>, and a snapshot in the format of each file.\<close>

definition vmstat_line :: "string \<Rightarrow> u64 \<Rightarrow> string" where
  "vmstat_line k v = k @ '' '' @ decimal (unat v)"

lemma parse_vmstat_line: "is_word k \<Longrightarrow> vmstat_parse_line (vmstat_line k v) = Some (k, v)"
  using split_whitespace_sep [of k "CHR '' ''" "decimal (unat v)"]
  by (simp add: vmstat_parse_line_def vmstat_line_def split_whitespace_end)

lemma vmstat_entries:
  assumes "list_all (is_key \<circ> fst) es"
  shows "vmstat_of (fill_lines vmstat_keys vmstat_parse_line (lines (unlines (map (\<lambda>(k, v). vmstat_line k v) es)))) ts
    = vmstat_of (map_of (rev es)) ts"
proof -
  have "list_all is_line (map (\<lambda>(k, v). vmstat_line k v) es)"
    using assms by (auto simp: list_all_iff vmstat_line_def is_key_def is_line_Cons)
  then have "lines (unlines (map (\<lambda>(k, v). vmstat_line k v) es)) = map (\<lambda>(k, v). vmstat_line k v) es"
    by (rule lines_unlines)
  moreover have "\<And>k. k \<in> set vmstat_keys \<Longrightarrow>
    value_of (fill_lines vmstat_keys vmstat_parse_line (map (\<lambda>(k, v). vmstat_line k v) es)) k = value_of (map_of (rev es)) k"
    using assms by (intro value_of_entries parse_vmstat_line) (auto simp: list_all_iff is_key_def)
  ultimately show ?thesis by (simp add: vmstat_of_def vmstat_keys_def)
qed

definition meminfo_text :: "(string \<Rightarrow> nat) \<Rightarrow> (string \<times> u64) list \<Rightarrow> string" where
  "meminfo_text pad es = unlines (map (\<lambda>(k, v). meminfo_line pad k v) es)"

definition vmstat_text :: "(string \<times> u64) list \<Rightarrow> string" where
  "vmstat_text es = unlines (map (\<lambda>(k, v). vmstat_line k v) es)"

definition meminfo_values :: "meminfo_snapshot \<Rightarrow> u64 list" where
  "meminfo_values m = [mi_total_kb m, mi_available_kb m, mi_free_kb m, mi_buffers_kb m, mi_cached_kb m, mi_swap_total_kb m,
     mi_swap_free_kb m, mi_active_kb m, mi_inactive_kb m, mi_dirty_kb m, mi_writeback_kb m]"

definition vmstat_values :: "vmstat_snapshot \<Rightarrow> u64 list" where
  "vmstat_values v = [pgscan_kswapd v, pgscan_direct v, pgsteal_kswapd v, pgsteal_direct v, oom_kill v, pswpin v, pswpout v,
     pgfault v, pgmajfault v]"

text \<open>
  C31: A file with a line for every key of the snapshot, in any place among the lines of other keys, is
  read back as the snapshot, with the time of the read.
\<close>

theorem meminfo_roundtrip:
  assumes "list_all (is_key \<circ> fst) es" "distinct (map fst es)"
    and "set (zip meminfo_keys (meminfo_values m)) \<subseteq> set es"
  shows "meminfo_parse (meminfo_text pad es) s = (Ok (m\<lparr>mi_timestamp := secs_at s (ticks s)\<rparr>), tick s)"
proof -
  have "map_of (rev es) k = Some v" if "(k, v) \<in> set (zip meminfo_keys (meminfo_values m))" for k v
    using that assms(2,3) by (subst map_of_eq_Some_iff) (auto simp: rev_map [symmetric])
  then have "meminfo_of (map_of (rev es)) ts = m\<lparr>mi_timestamp := ts\<rparr>" for ts
    by (simp add: meminfo_of_def meminfo_keys_def meminfo_values_def value_of_def)
  then show ?thesis
    using meminfo_entries [OF assms(1)] by (simp add: meminfo_parse_def meminfo_text_def now_secs_def bind_act_def ret_def)
qed

theorem vmstat_roundtrip:
  assumes "list_all (is_key \<circ> fst) es" "distinct (map fst es)"
    and "set (zip vmstat_keys (vmstat_values v)) \<subseteq> set es"
  shows "vmstat_parse (vmstat_text es) s = (Ok (v\<lparr>vm_timestamp := secs_at s (ticks s)\<rparr>), tick s)"
proof -
  have "map_of (rev es) k = Some x" if "(k, x) \<in> set (zip vmstat_keys (vmstat_values v))" for k x
    using that assms(2,3) by (subst map_of_eq_Some_iff) (auto simp: rev_map [symmetric])
  then have "vmstat_of (map_of (rev es)) ts = v\<lparr>vm_timestamp := ts\<rparr>" for ts
    by (simp add: vmstat_of_def vmstat_keys_def vmstat_values_def value_of_def)
  then show ?thesis
    using vmstat_entries [OF assms(1)] by (simp add: vmstat_parse_def vmstat_text_def now_secs_def bind_act_def ret_def)
qed

section \<open>Swap files\<close>

definition swap_line :: "swap_device \<Rightarrow> string" where
  "swap_line d = sd_name d @ '' '' @ display_swap_kind (sd_kind d) @ '' '' @ decimal (unat (sd_size_kb d)) @ '' ''
     @ decimal (unat (sd_used_kb d)) @ '' '' @ decimal_int (sd_priority d)"

definition swap_text :: "swap_device list \<Rightarrow> string" where
  "swap_text ds = unlines (''Filename Type Size Used Priority'' # map swap_line ds)"

definition printable_device :: "swap_device \<Rightarrow> bool" where
  "printable_device d \<longleftrightarrow> is_word (sd_name d) \<and> sd_kind d \<noteq> SwapUnknown \<and> - (2 ^ 31) \<le> sd_priority d \<and> sd_priority d < 2 ^ 31"

lemma is_word_line: "is_word w \<Longrightarrow> is_line w"
  by (auto simp: is_word_def is_line_def list_all_iff)

lemma is_word_decimal_int [simp]: "is_word (decimal_int i)"
  using is_word_decimal by (auto simp: decimal_int_def is_word_def is_whitespace_def)

lemma is_word_kind [simp]: "is_word (display_swap_kind k)"
  by (cases k) (simp_all add: is_word_def is_whitespace_def)

lemma is_line_swap: "printable_device d \<Longrightarrow> is_line (swap_line d)"
  by (simp add: swap_line_def printable_device_def is_word_line is_line_Cons)

lemma parse_swap_line:
  assumes "printable_device d" shows "swap_parse_line (swap_line d) = Some d"
proof -
  have "split_whitespace (swap_line d) = [sd_name d, display_swap_kind (sd_kind d), decimal (unat (sd_size_kb d)),
      decimal (unat (sd_used_kb d)), decimal_int (sd_priority d)]"
    using assms by (simp add: swap_line_def printable_device_def split_whitespace_sep split_whitespace_end)
  moreover have "detect_kind (display_swap_kind (sd_kind d)) n = sd_kind d" for n
    using assms by (cases "sd_kind d") (simp_all add: printable_device_def detect_kind_def to_lowercase_def)
  moreover have "parse_i32 (decimal_int (sd_priority d)) = Ok (sd_priority d)"
    using assms by (intro parse_i32_decimal) (simp_all add: printable_device_def)
  ultimately show ?thesis by (simp add: swap_parse_line_def)
qed

lemma header_skipped: "swap_lines (''Filename Type Size Used Priority'' # ls) = ls"
  by (simp add: swap_lines_def starts_with_def)

lemma map_filter_all: "(\<And>x. x \<in> set xs \<Longrightarrow> f (g x) = Some x) \<Longrightarrow> List.map_filter f (map g xs) = xs"
  by (induction xs) simp_all

theorem swap_roundtrip:
  assumes "list_all printable_device ds"
  shows "swap_parse pr (swap_text ds) = swap_topology_of pr ds"
proof -
  have "list_all is_line (''Filename Type Size Used Priority'' # map swap_line ds)"
    using assms is_line_swap by (auto simp: list_all_iff is_line_Cons)
  then have "swap_lines (lines (swap_text ds)) = map swap_line ds"
    unfolding swap_text_def by (simp only: lines_unlines header_skipped)
  then show ?thesis
    using assms by (simp add: swap_parse_def map_filter_all list_all_iff parse_swap_line)
qed

section \<open>The simulated readers\<close>

lemma gen_range_ok: "in_ranges g \<Longrightarrow> lo < hi \<Longrightarrow> gen_range g i lo hi = Ok (draw_int g i lo hi) \<and> lo \<le> draw_int g i lo hi \<and> draw_int g i lo hi < hi"
  by (simp add: gen_range_def in_ranges_def)

theorem sim_vmstat_panics_iff:
  assumes "in_ranges g"
  shows "sim_vmstat_draws g = Panic \<longleftrightarrow> draw_int g 0 0 1000000 = 0 \<or> draw_int g 1 0 1000000 = 0 \<or> draw_int g 7 0 100000000 = 0"
proof -
  have "0 \<le> draw_int g 0 0 1000000" "0 \<le> draw_int g 1 0 1000000" "0 \<le> draw_int g 7 0 100000000"
    using assms by (simp_all add: in_ranges_def)
  then show ?thesis by (auto simp: sim_vmstat_draws_def gen_range_def)
qed

lemma sim_meminfo_total:
  assumes "in_ranges g" obtains f where "sim_meminfo_draws g = Ok f"
proof -
  note r = gen_range_ok [OF assms]
  have t: "gen_range g 0 4000000 32000000 = Ok (draw_int g 0 4000000 32000000)" "4000000 \<le> draw_int g 0 4000000 32000000"
    using r [of 4000000 32000000 0] by simp_all
  let ?t = "draw_int g 0 4000000 32000000"
  have f: "0 < ?t" "0 < ?t div 10" "0 < ?t div 5" using t by auto
  have fr: "draw_int g 1 0 ?t < ?t" using r [of 0 ?t 1] f by simp
  have st: "0 \<le> draw_int g 5 0 16000000" using r [of 0 16000000 5] by simp
  from t f fr st show thesis by (intro that) (simp add: sim_meminfo_draws_def gen_range_def)
qed

section \<open>Examples\<close>

definition small_machine :: meminfo_snapshot where
  "small_machine = \<lparr>mi_total_kb = 1000, mi_available_kb = 400, mi_free_kb = 300, mi_buffers_kb = 1, mi_cached_kb = 2, mi_swap_total_kb = 3,
     mi_swap_free_kb = 3, mi_active_kb = 4, mi_inactive_kb = 5, mi_dirty_kb = 6, mi_writeback_kb = 0, mi_timestamp = 0\<rparr>"

theorem meminfo_roundtrip_witness:
  "meminfo_parse (meminfo_text (\<lambda>_. 4) ((''HugePages_Total'', 7) # zip meminfo_keys (meminfo_values small_machine))) quiet_runtime
   = (Ok (small_machine\<lparr>mi_timestamp := 1\<rparr>), tick quiet_runtime)"
proof -
  have "list_all (is_key \<circ> fst) ((''HugePages_Total'', 7) # zip meminfo_keys (meminfo_values small_machine))"
    by (simp add: meminfo_keys_def meminfo_values_def is_key_def is_word_def is_line_def is_whitespace_def)
  moreover have "distinct (map fst ((''HugePages_Total'', 7) # zip meminfo_keys (meminfo_values small_machine)))"
    by (simp add: meminfo_keys_def meminfo_values_def)
  ultimately show ?thesis
    using meminfo_roundtrip [of "(''HugePages_Total'', 7) # zip meminfo_keys (meminfo_values small_machine)" small_machine "\<lambda>_. 4" quiet_runtime]
    by (auto simp: quiet_runtime_def)
qed

definition two_swaps :: "swap_device list" where
  "two_swaps = [\<lparr>sd_name = ''/dev/sda2'', sd_kind = SwapPartition, sd_priority = -1, sd_size_kb = 8388608, sd_used_kb = 0\<rparr>,
     \<lparr>sd_name = ''/swapfile'', sd_kind = SwapFile, sd_priority = 0, sd_size_kb = 2097152, sd_used_kb = 1024\<rparr>]"

theorem swap_roundtrip_witness:
  "fst (swap_parse Debug (swap_text two_swaps) quiet_runtime) = Ok \<lparr>sw_devices = two_swaps, sw_total_kb = 10485760, sw_used_kb = 1024, sw_timestamp = 1\<rparr>"
proof -
  have "list_all printable_device two_swaps"
    by (simp add: two_swaps_def printable_device_def is_word_def is_whitespace_def)
  then show ?thesis
    by (simp add: swap_roundtrip swap_topology_of_def two_swaps_def add_pr_def checked_def bind_act_def lift_outcome_def now_secs_def quiet_runtime_def ret_def)
qed

end
