(* ===== verification/Tier_Inventory.thy ===== *)
theory Tier_Inventory
  imports Psi Memory_Readers Hotness
begin

text \<open>
  \<^verbatim>\<open>ghost-linux/src/tier_inventory.rs\<close>: the graph of tiers, found once by \<^verbatim>\<open>discover\<close> and updated by \<^verbatim>\<open>refresh\<close>
  from the readers. The map of tiers is ordered, as a \<^verbatim>\<open>BTreeMap\<close>; the products by 1024 are checked in
  the debug profile. The main facts are that a refresh keeps the set of tiers and announces exactly
  the tiers whose used bytes changed, and that the ZRAM tier is always reported as full.
\<close>

section \<open>Tiers\<close>

datatype tier_kind = KDram | KZram | KSwap | KDiskSwap | KGpuVram | KSimulated

fun display_tier_kind :: "tier_kind \<Rightarrow> string" where
  "display_tier_kind KDram = ''dram''"
| "display_tier_kind KZram = ''zram''"
| "display_tier_kind KSwap = ''swap''"
| "display_tier_kind KDiskSwap = ''disk_swap''"
| "display_tier_kind KGpuVram = ''gpu_vram''"
| "display_tier_kind KSimulated = ''simulated''"

record tier_info =
  ti_id :: tier_id
  ti_kind :: tier_kind
  ti_name :: string
  ti_total :: u64
  ti_used :: u64
  ti_available :: u64
  ti_pressure :: pressure_state
  ti_health :: core_backend_health
  ti_updated :: u64
  hot_bytes :: u64
  warm_bytes :: u64
  cold_bytes :: u64
  frozen_bytes :: u64

definition tier_info_new :: "tier_id \<Rightarrow> tier_kind \<Rightarrow> string \<Rightarrow> tier_info" where
  "tier_info_new i k n = \<lparr>ti_id = i, ti_kind = k, ti_name = n, ti_total = 0, ti_used = 0, ti_available = 0, ti_pressure = pressure_new,
     ti_health = CoreHealthy, ti_updated = 0, hot_bytes = 0, warm_bytes = 0, cold_bytes = 0, frozen_bytes = 0\<rparr>"

definition utilization :: "tier_info \<Rightarrow> f64" where
  "utilization t = (if ti_total t = 0 then f64_lit 0
     else fdiv binary64 (of_word binary64 (ti_used t)) (of_word binary64 (ti_total t)))"

fun tier_preference_order :: "tier_kind \<Rightarrow> u8" where
  "tier_preference_order KDram = 0"
| "tier_preference_order KGpuVram = 1"
| "tier_preference_order KZram = 2"
| "tier_preference_order KSimulated = 3"
| "tier_preference_order KSwap = 4"
| "tier_preference_order KDiskSwap = 5"

section \<open>The inventory\<close>

record inventory =
  tiers :: "(tier_id, tier_info) btree"
  inv_rt :: runtime

type_synonym 'a inv_act = "(inventory, 'a, ghost_error) act"

definition inventory_new :: "runtime \<Rightarrow> inventory" where
  "inventory_new r = \<lparr>tiers = fmempty, inv_rt = r\<rparr>"

definition on_inv_rt :: "'a rt \<Rightarrow> 'a inv_act" where
  "on_inv_rt = on_part inv_rt (\<lambda>r s. s\<lparr>inv_rt := r\<rparr>)"

definition put_tier :: "tier_id \<Rightarrow> tier_info \<Rightarrow> unit inv_act" where
  "put_tier i t = update_act (\<lambda>s. s\<lparr>tiers := fmupd i t (tiers s)\<rparr>)"

definition emit_inventory_changed :: "unit inv_act" where
  "emit_inventory_changed s = on_inv_rt (emit_event (EvTierInventoryChanged 0 (map (\<lambda>(i, t). [Lit (ti_name t)]) (bt_entries (tiers s))))) s"

definition utilization_event :: "tier_info \<Rightarrow> event" where
  "utilization_event t = EvTierUtilizationChanged 0 [Lit (ti_name t)] (ti_used t) (ti_total t)"

text \<open>Sizes in kB become bytes, total before used.\<close>

definition sized :: "profile \<Rightarrow> u64 \<Rightarrow> u64 \<Rightarrow> u64 \<Rightarrow> tier_info \<Rightarrow> tier_info ghost_result" where
  "sized pr tot_kb used_kb ts t =
     outcome_bind (mul_pr pr tot_kb 1024) (\<lambda>tot. outcome_bind (mul_pr pr used_kb 1024) (\<lambda>used.
     Ok (t\<lparr>ti_total := tot, ti_used := used, ti_available := saturating_sub tot used, ti_updated := ts\<rparr>)))"

definition discover_swap :: "profile \<Rightarrow> file_system \<Rightarrow> u64 \<Rightarrow> unit inv_act" where
  "discover_swap pr fs ts = bind_act (on_inv_rt (catch_act (swap_read pr fs))) (\<lambda>r. case r of
       Inr topo \<Rightarrow> if sw_devices topo \<noteq> []
         then bind_act (lift_outcome (sized pr (sw_total_kb topo) (sw_used_kb topo) ts (tier_info_new Disk KSwap ''Swap''))) (put_tier Disk)
         else ret ()
     | Inl _ \<Rightarrow> ret ())"

definition discover_zram :: "profile \<Rightarrow> file_system \<Rightarrow> dir_read \<Rightarrow> u64 \<Rightarrow> unit inv_act" where
  "discover_zram pr fs dir ts = bind_act (on_inv_rt (catch_act (zram_read pr fs dir))) (\<lambda>r. case r of
       Inr z \<Rightarrow> if zs_devices z \<noteq> []
         then bind_act (lift_outcome (sized pr (total_comp_kb z) (total_comp_kb z) ts (tier_info_new GpuVram KZram ''ZRAM''))) (put_tier GpuVram)
         else ret ()
     | Inl _ \<Rightarrow> ret ())"

definition discover :: "profile \<Rightarrow> file_system \<Rightarrow> dir_read \<Rightarrow> unit inv_act" where
  "discover pr fs dir = bind_act (on_inv_rt now_secs) (\<lambda>ts.
     bind_act (put_tier Ram ((tier_info_new Ram KDram ''DRAM'')\<lparr>ti_updated := ts\<rparr>)) (\<lambda>_.
     bind_act (put_tier Simulation ((tier_info_new Simulation KSimulated ''Simulation'')\<lparr>ti_updated := ts\<rparr>)) (\<lambda>_.
     bind_act (discover_swap pr fs ts) (\<lambda>_.
     bind_act (discover_zram pr fs dir ts) (\<lambda>_. emit_inventory_changed)))))"

text \<open>The update of one tier, when it is there: its new value, and the event when the used bytes changed.\<close>

definition update_tier :: "tier_id \<Rightarrow> (tier_info \<Rightarrow> tier_info ghost_result) \<Rightarrow> event list inv_act" where
  "update_tier i f s = (case fmlookup (tiers s) i of
       None \<Rightarrow> (Ok [], s)
     | Some t \<Rightarrow> (case f t of
         Ok t' \<Rightarrow> (Ok (if ti_used t \<noteq> ti_used t' then [utilization_event t'] else []), s\<lparr>tiers := fmupd i t' (tiers s)\<rparr>)
       | Err e \<Rightarrow> (Err e, s)
       | Panic \<Rightarrow> (Panic, s)))"

definition update_from :: "'a rt \<Rightarrow> tier_id \<Rightarrow> ('a \<Rightarrow> tier_info \<Rightarrow> tier_info ghost_result) \<Rightarrow> event list inv_act" where
  "update_from reader i f = bind_act (on_inv_rt (catch_act reader)) (\<lambda>r. case r of Inr a \<Rightarrow> update_tier i (f a) | Inl _ \<Rightarrow> ret [])"

definition dram_sizes :: "profile \<Rightarrow> u64 \<Rightarrow> meminfo_snapshot \<Rightarrow> tier_info \<Rightarrow> tier_info ghost_result" where
  "dram_sizes pr ts m t =
     outcome_bind (mul_pr pr (mi_total_kb m) 1024) (\<lambda>tot. outcome_bind (mul_pr pr (mi_available_kb m) 1024) (\<lambda>avail.
     Ok (t\<lparr>ti_total := tot, ti_available := avail, ti_used := saturating_sub tot avail, ti_updated := ts\<rparr>)))"

definition psi_pressure :: "psi_sample \<Rightarrow> f32" where
  "psi_pressure p = f32_of_f64 (fmax (fmin (fdiv binary64 (avg10 p) (f64_lit 10)) (f64_lit 1)) (f64_lit 0))"

definition dram_pressure_from :: "u64 \<Rightarrow> psi_sample \<Rightarrow> tier_info \<Rightarrow> tier_info ghost_result" where
  "dram_pressure_from ts p t = Ok (t\<lparr>ti_pressure := (ti_pressure t)\<lparr>memory_pressure := psi_pressure p\<rparr>, ti_updated := ts\<rparr>)"

definition refresh :: "profile \<Rightarrow> file_system \<Rightarrow> dir_read \<Rightarrow> unit inv_act" where
  "refresh pr fs dir = bind_act (on_inv_rt now_secs) (\<lambda>ts.
     bind_act (update_from (meminfo_read fs) Ram (dram_sizes pr ts)) (\<lambda>e1.
     bind_act (update_from (psi_read fs PsiMemory) Ram (dram_pressure_from ts)) (\<lambda>_.
     bind_act (update_from (swap_read pr fs) Disk (\<lambda>topo. sized pr (sw_total_kb topo) (sw_used_kb topo) ts)) (\<lambda>e3.
     bind_act (update_from (zram_read pr fs dir) GpuVram (\<lambda>z. sized pr (total_comp_kb z) (total_comp_kb z) ts)) (\<lambda>e4.
     on_inv_rt (emit_all (e1 @ e3 @ e4)))))))"

definition get_tier :: "inventory \<Rightarrow> tier_id \<Rightarrow> tier_info option" where
  "get_tier s i = fmlookup (tiers s) i"

definition tiers_by_preference :: "inventory \<Rightarrow> tier_info list" where
  "tiers_by_preference s = sort_by (\<lambda>a b. cmp_ord (tier_preference_order (ti_kind a)) (tier_preference_order (ti_kind b)))
     (map snd (bt_entries (tiers s)))"

definition inv_tier_count :: "inventory \<Rightarrow> nat" where
  "inv_tier_count s = bt_len (tiers s)"

section \<open>The simulated inventory\<close>

fun kind_of_index :: "nat \<Rightarrow> tier_kind" where
  "kind_of_index i = (if i mod 3 = 0 then KZram else if i mod 3 = 1 then KSwap else KSimulated)"

fun id_of_kind :: "tier_kind \<Rightarrow> tier_id" where
  "id_of_kind KZram = GpuVram"
| "id_of_kind KSwap = Disk"
| "id_of_kind KSimulated = Simulation"
| "id_of_kind _ = Ram"

definition sim_tier :: "profile \<Rightarrow> rng \<Rightarrow> u64 \<Rightarrow> nat \<Rightarrow> tier_info ghost_result" where
  "sim_tier pr g ts i = (let k = kind_of_index i in
     outcome_bind (gen_range g (2 * i) 1000000000 16000000000) (\<lambda>tot.
     outcome_bind (gen_range g (2 * i + 1) 0 tot) (\<lambda>used.
     outcome_bind (sub_pr pr (word_of_int tot) (word_of_int used)) (\<lambda>avail.
     Ok ((tier_info_new (id_of_kind k) k (display_tier_kind k @ ''_'' @ decimal i))
        \<lparr>ti_total := word_of_int tot, ti_used := word_of_int used, ti_available := avail, ti_updated := ts\<rparr>)))))"

definition sim_dram :: "profile \<Rightarrow> rng \<Rightarrow> u64 \<Rightarrow> tier_info ghost_result" where
  "sim_dram pr g ts =
     outcome_bind (gen_range g 0 4000000000 32000000000) (\<lambda>tot.
     outcome_bind (gen_range g 1 0 tot) (\<lambda>used.
     outcome_bind (sub_pr pr (word_of_int tot) (word_of_int used)) (\<lambda>avail.
     Ok ((tier_info_new Ram KDram ''DRAM'')\<lparr>ti_total := word_of_int tot, ti_used := word_of_int used, ti_available := avail,
       ti_pressure := pressure_new\<lparr>memory_pressure := f32_of_f64 (fmin (fdiv binary64 (of_word binary64 (word_of_int used :: u64))
         (of_word binary64 (word_of_int tot :: u64))) (f64_lit 1))\<rparr>, ti_updated := ts\<rparr>))))"

definition sim_generate :: "profile \<Rightarrow> (u64 \<Rightarrow> rng) \<Rightarrow> u64 \<Rightarrow> nat \<Rightarrow> tier_info list rt" where
  "sim_generate pr seeded seed n = bind_act now_secs (\<lambda>ts.
     bind_act (lift_outcome (sim_dram pr (seeded seed) ts)) (\<lambda>d.
     bind_act (lift_outcome (draw_devices (sim_tier pr (seeded seed) ts) [1..<n])) (\<lambda>ds.
     bind_act (emit_event (EvTierInventoryChanged 0 (map (\<lambda>t. [Lit (ti_name t)]) (d # ds)))) (\<lambda>_. ret (d # ds)))))"

section \<open>The invariant of the inventory\<close>

fun kind_of_tier :: "tier_id \<Rightarrow> tier_kind" where
  "kind_of_tier Ram = KDram"
| "kind_of_tier GpuVram = KZram"
| "kind_of_tier Disk = KSwap"
| "kind_of_tier Simulation = KSimulated"

definition tier_ok :: "tier_id \<Rightarrow> tier_info \<Rightarrow> bool" where
  "tier_ok i t \<longleftrightarrow> ti_id t = i \<and> ti_kind t = kind_of_tier i \<and> (if i = Ram then ti_used t = saturating_sub (ti_total t) (ti_available t) else ti_available t = saturating_sub (ti_total t) (ti_used t))
     \<and> (i = GpuVram \<longrightarrow> ti_used t = ti_total t)"

definition inv_ok :: "inventory \<Rightarrow> bool" where
  "inv_ok s \<longleftrightarrow> (\<forall>i t. fmlookup (tiers s) i = Some t \<longrightarrow> tier_ok i t)"

lemma stable_on_inv_rt [stable_rules]: "stable inv_ok (on_inv_rt m)"
  by (auto simp: stable_def on_inv_rt_def on_part_def inv_ok_def split: prod.split)

lemma stable_put: "tier_ok i t \<Longrightarrow> stable inv_ok (put_tier i t)"
  unfolding put_tier_def by (rule stable_update) (auto simp: inv_ok_def split: if_splits)

lemma stable_update_tier: "(\<And>t t'. f t = Ok t' \<Longrightarrow> tier_ok i t \<Longrightarrow> tier_ok i t') \<Longrightarrow> stable inv_ok (update_tier i f)"
  by (auto simp: stable_def update_tier_def inv_ok_def split: option.splits outcome.splits)

lemma sized_ok:
  "sized pr a b ts t = Ok t' \<Longrightarrow> i \<noteq> Ram \<Longrightarrow> (i = GpuVram \<Longrightarrow> a = b) \<Longrightarrow> ti_id t = i \<Longrightarrow> ti_kind t = kind_of_tier i \<Longrightarrow> tier_ok i t'"
  by (auto simp: sized_def outcome_bind_Ok mul_pr_def tier_ok_def)

lemma stable_update_from:
  "(\<And>a t t'. f a t = Ok t' \<Longrightarrow> tier_ok i t \<Longrightarrow> tier_ok i t') \<Longrightarrow> stable inv_ok (update_from reader i f)"
  unfolding update_from_def by (intro stable_rules stable_update_tier)

lemma stable_sized:
  "i \<noteq> Ram \<Longrightarrow> (i = GpuVram \<Longrightarrow> a = b) \<Longrightarrow> ti_id t = i \<Longrightarrow> ti_kind t = kind_of_tier i \<Longrightarrow>
    stable inv_ok (bind_act (lift_outcome (sized pr a b ts t)) (put_tier i))"
  by (intro stable_bind_lift stable_put sized_ok) blast+

lemma discover_keeps_inv: "stable inv_ok (discover pr fs dir)"
proof -
  have "tier_ok Ram ((tier_info_new Ram KDram ''DRAM'')\<lparr>ti_updated := ts\<rparr>)"
    "tier_ok Simulation ((tier_info_new Simulation KSimulated ''Simulation'')\<lparr>ti_updated := ts\<rparr>)" for ts
    by (simp_all add: tier_ok_def tier_info_new_def saturating_sub_def)
  moreover have "stable inv_ok emit_inventory_changed"
    by (auto simp: stable_def emit_inventory_changed_def intro: stableD [OF stable_on_inv_rt])
  moreover have "stable inv_ok (discover_swap pr fs ts)" "stable inv_ok (discover_zram pr fs dir ts)" for ts
    unfolding discover_swap_def discover_zram_def by (intro stable_rules stable_sized; simp add: tier_info_new_def)+
  ultimately show ?thesis unfolding discover_def by (intro stable_rules stable_put)
qed

lemma refresh_keeps_inv: "stable inv_ok (refresh pr fs dir)"
proof -
  have "stable inv_ok (update_from (meminfo_read fs) Ram (dram_sizes pr ts))" for ts
    by (rule stable_update_from) (auto simp: dram_sizes_def outcome_bind_Ok mul_pr_def tier_ok_def)
  moreover have "stable inv_ok (update_from (psi_read fs PsiMemory) Ram (dram_pressure_from ts))" for ts
    by (rule stable_update_from) (auto simp: dram_pressure_from_def tier_ok_def)
  moreover have "stable inv_ok (update_from (swap_read pr fs) Disk (\<lambda>topo. sized pr (sw_total_kb topo) (sw_used_kb topo) ts))" for ts
    by (rule stable_update_from, rule sized_ok) (auto simp: tier_ok_def)
  moreover have "stable inv_ok (update_from (zram_read pr fs dir) GpuVram (\<lambda>z. sized pr (total_comp_kb z) (total_comp_kb z) ts))" for ts
    by (rule stable_update_from, rule sized_ok) (auto simp: tier_ok_def)
  ultimately show ?thesis unfolding refresh_def by (intro stable_rules)
qed

lemma utilization_full: "ti_used t = ti_total t \<Longrightarrow> utilization t = (if ti_total t = 0 then Fin 0 else Fin 1)"
proof -
  assume eq: "ti_used t = ti_total t"
  show ?thesis
  proof (cases "ti_total t = 0")
    case False
    then have "0 < ti_total t" by (simp add: word_neq_0_conv)
    from of_word_between [of binary64 "ti_total t"] this obtain y where "of_word binary64 (ti_total t) = Fin y" "1 \<le> y"
      by auto
    with False eq show ?thesis by (simp add: utilization_def)
  qed (simp add: utilization_def)
qed

text \<open>Any sequence of discoveries and refreshes, each with the files of its moment.\<close>

datatype inv_op = Discover file_system dir_read | Refresh file_system dir_read

fun inv_step :: "profile \<Rightarrow> inv_op \<Rightarrow> unit inv_act" where
  "inv_step pr (Discover fs dir) = discover pr fs dir"
| "inv_step pr (Refresh fs dir) = refresh pr fs dir"

fun inv_run :: "profile \<Rightarrow> inv_op list \<Rightarrow> inventory \<Rightarrow> inventory" where
  "inv_run pr [] s = s"
| "inv_run pr (x # xs) s = inv_run pr xs (snd (inv_step pr x s))"

lemma inv_run_ok: "inv_ok s \<Longrightarrow> inv_ok (inv_run pr xs s)"
proof (induction xs arbitrary: s)
  case (Cons x xs)
  then have "inv_ok (snd (inv_step pr x s))"
    using stableD [OF discover_keeps_inv] stableD [OF refresh_keeps_inv] by (cases x) simp_all
  with Cons.IH show ?case by simp
qed simp

lemma inv_ok_new [simp]: "inv_ok (inventory_new r)"
  by (simp add: inv_ok_def inventory_new_def)

text \<open>
  In every inventory that discoveries and refreshes lead to, whatever the files say and whether
  the steps succeed or not, the tier of an identifier has the kind of that identifier, and
  the ZRAM tier, whose used bytes are its total bytes, is reported as full or of size zero.
\<close>

theorem zram_always_full:
  assumes "get_tier (inv_run pr xs (inventory_new r)) GpuVram = Some t"
  shows "ti_kind t = KZram \<and> ti_available t = 0 \<and> utilization t = (if ti_total t = 0 then Fin 0 else Fin 1)"
  using inv_run_ok [OF inv_ok_new, of pr xs r] assms utilization_full [of t]
  by (auto simp: inv_ok_def get_tier_def tier_ok_def saturating_sub_def)

section \<open>A refresh keeps the set of tiers\<close>

lemma keeps_on_inv_rt [keeps_rules]: "keeps tiers (on_inv_rt m)"
  by (simp add: keeps_def on_inv_rt_def on_part_def split: prod.split)

definition tier_ids :: "inventory \<Rightarrow> tier_id fset" where
  "tier_ids s = fmdom (tiers s)"

lemma keeps_ids_rt [keeps_rules]: "keeps tier_ids (on_inv_rt m)"
  using keeps_on_inv_rt [of m] by (simp add: keeps_def tier_ids_def)

lemma keeps_ids_update [keeps_rules]: "keeps tier_ids (update_from reader i f)"
proof -
  have "keeps tier_ids (update_tier i g)" for g
    by (auto simp: keeps_def tier_ids_def update_tier_def fmdomI split: option.split outcome.split)
  then show ?thesis unfolding update_from_def by (intro keeps_rules) (simp split: sum.split add: keeps_ret)
qed

lemma refresh_keeps_ids: "keeps tier_ids (refresh pr fs dir)"
  unfolding refresh_def by (intro keeps_rules)

section \<open>Examples\<close>

text \<open>A machine with one ZRAM device, which holds nothing yet, and no swap.\<close>

definition zram_files :: file_system where
  "zram_files path = (if path = ''/sys/block/zram0/comp_algorithm'' then Contents ''lzo'' else if starts_with ''/sys/block/'' path then Contents ''0''
     else ReadFailed True [])"

definition empty_zram :: inventory where
  "empty_zram = inv_run Debug [Discover zram_files (Entries [Inr ''zram0''])] (inventory_new quiet_runtime)"

lemma zram_text: "trim ''0'' = ''0''" "trim ''lzo'' = ''lzo''" "parse_u64 ''0'' = Ok 0"
  by (simp_all add: trim_def text_eval)

lemma zram_device: "read_device_from_path zram_files ''/sys/block/zram0'' ''zram0'' =
    Ok \<lparr>zd_name = ''zram0'', orig_size_kb = 0, comp_size_kb = 0, mem_used_total_kb = 0, max_comp_streams = 0, comp_algorithm = ''lzo''\<rparr>"
  by (simp add: read_device_from_path_def parse_sysfs_value_def read_sysfs_string_def sysfs_read_def read_file_def zram_files_def starts_with_def zram_text)

lemma zram_discovered: "discover_devices zram_files (Entries [Inr ''zram0'']) =
    Ok [\<lparr>zd_name = ''zram0'', orig_size_kb = 0, comp_size_kb = 0, mem_used_total_kb = 0, max_comp_streams = 0, comp_algorithm = ''lzo''\<rparr>]"
  using zram_device by (simp add: discover_devices_def starts_with_def)

lemma swap_missing: "read_file zram_files ''/proc/swaps'' m = Err (Internal m)"
  by (simp add: read_file_def zram_files_def starts_with_def)

lemma emit_all_ok: "\<exists>s'. emit_all evs s = (Ok (), s')"
proof (induction evs arbitrary: s)
  case (Cons e evs)
  then show ?case by (auto simp: bind_act_def emit_event_def split: option.split)
qed (simp add: ret_def)

lemma swap_absent: "discover_swap Debug zram_files ts s = (Ok (), s)"
  by (simp add: discover_swap_def swap_read_def swap_missing on_inv_rt_def on_part_def bind_act_def lift_outcome_def catch_act_def ret_def)

lemma zram_reads: "\<exists>z r'. zram_read Debug zram_files (Entries [Inr ''zram0'']) r = (Ok z, r') \<and> zs_devices z \<noteq> [] \<and> total_comp_kb z = 0"
proof -
  obtain z r1 where z: "build_snapshot Debug [\<lparr>zd_name = ''zram0'', orig_size_kb = 0, comp_size_kb = 0, mem_used_total_kb = 0, max_comp_streams = 0, comp_algorithm = ''lzo''\<rparr>] r
      = (Ok z, r1)" "zs_devices z \<noteq> []" "total_comp_kb z = 0"
    by (simp add: build_snapshot_def bind_act_def lift_outcome_def add_pr_def checked_def now_secs_def ret_def)
  obtain r2 where "zram_emit_events z r1 = (Ok (), r2)" unfolding zram_emit_events_def using emit_all_ok by blast
  with z show ?thesis by (simp add: zram_read_def zram_discovered bind_act_def lift_outcome_def ret_def)
qed

lemma zram_found:
  "\<exists>s'. discover_zram Debug zram_files (Entries [Inr ''zram0'']) ts s = (Ok (), s') \<and>
     tiers s' = fmupd GpuVram ((tier_info_new GpuVram KZram ''ZRAM'')\<lparr>ti_updated := ts\<rparr>) (tiers s)"
proof -
  obtain z r' where "zram_read Debug zram_files (Entries [Inr ''zram0'']) (inv_rt s) = (Ok z, r')" "zs_devices z \<noteq> []" "total_comp_kb z = 0"
    using zram_reads by blast
  then show ?thesis
    by (simp add: discover_zram_def on_inv_rt_def on_part_def bind_act_def lift_outcome_def catch_act_def sized_def mul_pr_def checked_def
        saturating_sub_def put_tier_def update_act_def tier_info_new_def)
qed

definition zram_tiers :: "(tier_id, tier_info) btree" where
  "zram_tiers = fmupd GpuVram ((tier_info_new GpuVram KZram ''ZRAM'')\<lparr>ti_updated := 1\<rparr>)
     (fmupd Simulation ((tier_info_new Simulation KSimulated ''Simulation'')\<lparr>ti_updated := 1\<rparr>)
     (fmupd Ram ((tier_info_new Ram KDram ''DRAM'')\<lparr>ti_updated := 1\<rparr>) fmempty))"

lemma empty_zram_tiers: "tiers empty_zram = zram_tiers"
proof -
  let ?s = "(inventory_new (tick quiet_runtime))\<lparr>tiers := fmupd Simulation ((tier_info_new Simulation KSimulated ''Simulation'')\<lparr>ti_updated := 1\<rparr>)
    (fmupd Ram ((tier_info_new Ram KDram ''DRAM'')\<lparr>ti_updated := 1\<rparr>) fmempty)\<rparr>"
  obtain s' where s': "discover_zram Debug zram_files (Entries [Inr ''zram0'']) 1 ?s = (Ok (), s')" "tiers s' = zram_tiers"
    using zram_found [of 1 ?s] by (auto simp: zram_tiers_def)
  have "discover Debug zram_files (Entries [Inr ''zram0'']) (inventory_new quiet_runtime) = emit_inventory_changed s'"
    using s'(1) by (simp add: discover_def bind_act_def on_inv_rt_def on_part_def now_secs_def put_tier_def update_act_def swap_absent inventory_new_def quiet_runtime_def tick_def)
  moreover have "tiers (snd (emit_inventory_changed s')) = tiers s'"
    using keepsD [OF keeps_on_inv_rt] by (simp add: emit_inventory_changed_def)
  ultimately show ?thesis using s'(2) by (simp add: empty_zram_def)
qed

theorem zram_always_full_witness:
  "utilization ((tier_info_new GpuVram KZram ''ZRAM'')\<lparr>ti_updated := 1\<rparr>) = Fin 0"
  using zram_always_full [of Debug "[Discover zram_files (Entries [Inr ''zram0''])]" quiet_runtime] empty_zram_tiers
  by (simp add: empty_zram_def get_tier_def zram_tiers_def tier_info_new_def)

end
