(* ===== verification/Policy_Rules.thy ===== *)
theory Policy_Rules
  imports Hotness_Sampling Rust_Text Wire Ranking
begin

text \<open>
  \<^verbatim>\<open>ghost-linux/src/policy_rules.rs\<close> and the recommendations of \<^verbatim>\<open>policy.rs\<close>: the rules turn a snapshot of pressure,
  utilization and hotness into recommendations. The BLAKE3 hash is an argument \<open>hash\<close>; the long
  dashes of the messages are written as hyphens. The main facts: no two recommendations of an
  evaluation conflict, and those of pressure are never displaced by those of hotness.
\<close>

section \<open>Recommendations\<close>

datatype recommendation =
    PromoteToDram chunk_id message f32 "message list"
  | MoveToZram chunk_id message f32 "message list"
  | MoveToDiskSwap chunk_id message f32 "message list"
  | NoAction message f32 "message list"
  | EvictCold tier_id nat f32 "message list"
  | DemoteHot tier_id tier_id f32 "message list"

fun rec_kind :: "recommendation \<Rightarrow> string" where
  "rec_kind (PromoteToDram _ _ _ _) = ''promote_to_dram''"
| "rec_kind (MoveToZram _ _ _ _) = ''move_to_zram''"
| "rec_kind (MoveToDiskSwap _ _ _ _) = ''move_to_disk_swap''"
| "rec_kind (NoAction _ _ _) = ''no_action''"
| "rec_kind (EvictCold _ _ _ _) = ''evict_cold''"
| "rec_kind (DemoteHot _ _ _ _) = ''demote_hot''"

fun rec_reason :: "recommendation \<Rightarrow> message" where
  "rec_reason (PromoteToDram _ r _ _) = r"
| "rec_reason (MoveToZram _ r _ _) = r"
| "rec_reason (MoveToDiskSwap _ r _ _) = r"
| "rec_reason (NoAction r _ _) = r"
| "rec_reason (EvictCold _ _ _ _) = [Lit ''eviction due to pressure'']"
| "rec_reason (DemoteHot _ _ _ _) = [Lit ''demote hot chunks'']"

fun confidence :: "recommendation \<Rightarrow> f32" where
  "confidence (PromoteToDram _ _ c _) = c"
| "confidence (MoveToZram _ _ c _) = c"
| "confidence (MoveToDiskSwap _ _ c _) = c"
| "confidence (NoAction _ c _) = c"
| "confidence (EvictCold _ _ c _) = c"
| "confidence (DemoteHot _ _ c _) = c"

fun rec_factors :: "recommendation \<Rightarrow> message list" where
  "rec_factors (PromoteToDram _ _ _ f) = f"
| "rec_factors (MoveToZram _ _ _ f) = f"
| "rec_factors (MoveToDiskSwap _ _ _ f) = f"
| "rec_factors (NoAction _ _ f) = f"
| "rec_factors (EvictCold _ _ _ f) = f"
| "rec_factors (DemoteHot _ _ _ f) = f"

definition with_confidence :: "f32 \<Rightarrow> message" where
  "with_confidence c = [Lit '' (confidence='', FmtFloat c, Lit '')'']"

fun rec_display :: "recommendation \<Rightarrow> message" where
  "rec_display (PromoteToDram k r c _) = [Lit ''PromoteToDram('', FmtChunk k, Lit ''): ''] @ r @ with_confidence c"
| "rec_display (MoveToZram k r c _) = [Lit ''MoveToZram('', FmtChunk k, Lit ''): ''] @ r @ with_confidence c"
| "rec_display (MoveToDiskSwap k r c _) = [Lit ''MoveToDiskSwap('', FmtChunk k, Lit ''): ''] @ r @ with_confidence c"
| "rec_display (NoAction r c _) = [Lit ''NoAction: ''] @ r @ with_confidence c"
| "rec_display (EvictCold t n c _) = [Lit ''EvictCold('', FmtTier t, Lit '', '', FmtNat n, Lit '')''] @ with_confidence c"
| "rec_display (DemoteHot t u c _) = [Lit ''DemoteHot('', FmtTier t, Lit '' -> '', FmtTier u, Lit '')''] @ with_confidence c"

text \<open>The key of a cooldown is the \<^verbatim>\<open>Debug\<close> of the discriminant, one key per kind of recommendation.\<close>

fun discriminant :: "recommendation \<Rightarrow> nat" where
  "discriminant (PromoteToDram _ _ _ _) = 0"
| "discriminant (MoveToZram _ _ _ _) = 1"
| "discriminant (MoveToDiskSwap _ _ _ _) = 2"
| "discriminant (NoAction _ _ _) = 3"
| "discriminant (EvictCold _ _ _ _) = 4"
| "discriminant (DemoteHot _ _ _ _) = 5"

definition region_key :: "recommendation \<Rightarrow> string" where
  "region_key r = ''Discriminant('' @ decimal (discriminant r) @ '')''"

section \<open>Configuration and system state\<close>

record stability_config =
  recommendation_cooldown_secs :: u64
  temperature_stability_window :: nat
  hysteresis_margin :: f32
  max_recommendations_per_cycle :: nat
  min_confidence_threshold :: f32
  suppression_cooldown_secs :: u64

definition stability_config_default :: stability_config where
  "stability_config_default = \<lparr>recommendation_cooldown_secs = 30, temperature_stability_window = 3, hysteresis_margin = f32_lit (1 / 10),
     max_recommendations_per_cycle = 10, min_confidence_threshold = f32_lit (3 / 10), suppression_cooldown_secs = 60\<rparr>"

record system_state =
  ss_dram_pressure :: pressure_state
  ss_dram_utilization :: f32
  ss_swap_utilization :: f32
  ss_zram_utilization :: "f32 option"
  ss_io_pressure :: pressure_state
  ss_hotness_summary :: "hotness_summary option"
  ss_hotness_confidence :: "hotness_confidence option"

definition idle_state :: system_state where
  "idle_state = \<lparr>ss_dram_pressure = pressure_new, ss_dram_utilization = f32_lit 0, ss_swap_utilization = f32_lit 0, ss_zram_utilization = None,
     ss_io_pressure = pressure_new, ss_hotness_summary = None, ss_hotness_confidence = None\<rparr>"

datatype linux_level = LpLow | LpMedium | LpHigh | LpCritical

fun display_linux_level :: "linux_level \<Rightarrow> string" where
  "display_linux_level LpLow = ''low''"
| "display_linux_level LpMedium = ''medium''"
| "display_linux_level LpHigh = ''high''"
| "display_linux_level LpCritical = ''critical''"

definition linux_max_pressure :: "system_state \<Rightarrow> f32" where
  "linux_max_pressure s = fmax (fmax (fmax (memory_pressure (ss_dram_pressure s)) (io_pressure (ss_dram_pressure s)))
     (memory_pressure (ss_io_pressure s))) (io_pressure (ss_io_pressure s))"

definition linux_pressure_level :: "system_state \<Rightarrow> linux_level" where
  "linux_pressure_level s = (let m = linux_max_pressure s in
     if fge m (f32_lit (9 / 10)) then LpCritical else if fge m (f32_lit (7 / 10)) then LpHigh
     else if fge m (f32_lit (5 / 10)) then LpMedium else LpLow)"

record policy_rules =
  dram_high_threshold :: f32
  dram_critical_threshold :: f32
  swap_high_threshold :: f32
  zram_high_threshold :: f32
  cooldown_seconds :: u64
  hotness_weight :: f32
  pressure_weight :: f32
  min_confidence :: f32
  hot_region_preference :: tier_id
  cold_region_preference :: tier_id
  hot_region_pct_threshold :: f32
  frozen_region_pct_threshold :: f32
  warm_region_pct_threshold :: f32

definition policy_rules_default :: policy_rules where
  "policy_rules_default = \<lparr>dram_high_threshold = f32_lit (7 / 10), dram_critical_threshold = f32_lit (9 / 10),
     swap_high_threshold = f32_lit (8 / 10), zram_high_threshold = f32_lit (8 / 10), cooldown_seconds = 60,
     hotness_weight = f32_lit (3 / 10), pressure_weight = f32_lit (7 / 10), min_confidence = f32_lit (3 / 10),
     hot_region_preference = Ram, cold_region_preference = Disk, hot_region_pct_threshold = f32_lit 25,
     frozen_region_pct_threshold = f32_lit 50, warm_region_pct_threshold = f32_lit 40\<rparr>"

definition rules_with_thresholds :: "f32 \<Rightarrow> f32 \<Rightarrow> f32 \<Rightarrow> f32 \<Rightarrow> u64 \<Rightarrow> policy_rules" where
  "rules_with_thresholds dh dc sh zh cd = policy_rules_default\<lparr>dram_high_threshold := dh, dram_critical_threshold := dc,
     swap_high_threshold := sh, zram_high_threshold := zh, cooldown_seconds := cd\<rparr>"

definition rules_with_hotness :: "f32 \<Rightarrow> f32 \<Rightarrow> f32 \<Rightarrow> tier_id \<Rightarrow> tier_id \<Rightarrow> policy_rules" where
  "rules_with_hotness hw pw mc hp cp = policy_rules_default\<lparr>hotness_weight := clamp01 hw, pressure_weight := clamp01 pw,
     min_confidence := clamp01 mc, hot_region_preference := hp, cold_region_preference := cp\<rparr>"

section \<open>Derived chunk identifiers\<close>

text \<open>The bit pattern of a single: sign, biased exponent and significand; all zeros are positive and all NaNs quiet.\<close>

fun f32_bits :: "f32 \<Rightarrow> u32" where
  "f32_bits (Fin x) = (if x = 0 then 0
     else let e = max (ilog2 \<bar>x\<bar>) (- 126); m = nat \<lfloor>\<bar>x\<bar> / 2 powi (e - 23)\<rfloor>;
              b = (if m < 2 ^ 23 then m else nat (e + 127) * 2 ^ 23 + (m - 2 ^ 23))
          in of_nat ((if x < 0 then 2 ^ 31 else 0) + b))"
| "f32_bits PInf = 0x7F800000"
| "f32_bits NInf = 0xFF800000"
| "f32_bits NaN = 0x7FC00000"

definition f32_le :: "f32 \<Rightarrow> bytes" where
  "f32_le x = to_le 4 (f32_bits x)"

definition zram_bytes :: "system_state \<Rightarrow> bytes" where
  "zram_bytes s = (case ss_zram_utilization s of None \<Rightarrow> [] | Some z \<Rightarrow> f32_le z)"

definition eviction_chunk_id :: "(bytes \<Rightarrow> bytes) \<Rightarrow> system_state \<Rightarrow> chunk_id" where
  "eviction_chunk_id hash s = ChunkId (hash (f32_le (memory_pressure (ss_dram_pressure s)) @ f32_le (io_pressure (ss_dram_pressure s))
     @ f32_le (ss_dram_utilization s) @ f32_le (ss_swap_utilization s) @ zram_bytes s))"

definition hotness_chunk_id :: "(bytes \<Rightarrow> bytes) \<Rightarrow> system_state \<Rightarrow> chunk_id" where
  "hotness_chunk_id hash s = ChunkId (hash (map of_char ''hotness_promote'' @ f32_le (memory_pressure (ss_dram_pressure s))
     @ f32_le (ss_dram_utilization s)))"

definition coldness_chunk_id :: "(bytes \<Rightarrow> bytes) \<Rightarrow> system_state \<Rightarrow> chunk_id" where
  "coldness_chunk_id hash s = ChunkId (hash (map of_char ''coldness_evict'' @ f32_le (memory_pressure (ss_dram_pressure s))
     @ f32_le (ss_swap_utilization s)))"

definition warmth_chunk_id :: "(bytes \<Rightarrow> bytes) \<Rightarrow> system_state \<Rightarrow> chunk_id" where
  "warmth_chunk_id hash s = ChunkId (hash (map of_char ''warmth_zram'' @ f32_le (memory_pressure (ss_dram_pressure s)) @ zram_bytes s))"

section \<open>The rules\<close>

definition eviction_count :: "system_state \<Rightarrow> nat" where
  "eviction_count s = (let p = memory_pressure (ss_dram_pressure s) in
     if fge p (f32_lit (95 / 100)) then 16 else if fge p (f32_lit (9 / 10)) then 8 else if fge p (f32_lit (8 / 10)) then 4 else 2)"

definition percent :: "f32 \<Rightarrow> fmt_piece" where
  "percent x = FmtFloat (fmul binary32 x (f32_lit 100))"

definition zram_has_room :: "policy_rules \<Rightarrow> system_state \<Rightarrow> bool" where
  "zram_has_room ru s = (case ss_zram_utilization s of None \<Rightarrow> False | Some u \<Rightarrow> flt u (zram_high_threshold ru))"

definition swap_has_room :: "policy_rules \<Rightarrow> system_state \<Rightarrow> bool" where
  "swap_has_room ru s = flt (ss_swap_utilization s) (swap_high_threshold ru)"

definition evaluate_critical :: "(bytes \<Rightarrow> bytes) \<Rightarrow> policy_rules \<Rightarrow> system_state \<Rightarrow> recommendation list" where
  "evaluate_critical hash ru s = (let p = percent (memory_pressure (ss_dram_pressure s)) in
     EvictCold Ram (eviction_count s) (f32_lit 1) [[Lit ''critical DRAM pressure ('', p, Lit ''%)'']]
     # (if ss_zram_utilization s \<noteq> None then
          [MoveToZram (eviction_chunk_id hash s) [Lit ''critical DRAM pressure ('', p, Lit ''%) - move cold chunks to ZRAM'']
             (f32_lit 1) [[Lit ''critical_pressure''], [Lit ''zram_available'']]]
        else if swap_has_room ru s then
          [MoveToDiskSwap (eviction_chunk_id hash s) [Lit ''critical DRAM pressure ('', p, Lit ''%) - move cold chunks to disk swap'']
             (f32_lit 1) [[Lit ''critical_pressure''], [Lit ''swap_available'']]]
        else []))"

definition evaluate_high :: "(bytes \<Rightarrow> bytes) \<Rightarrow> policy_rules \<Rightarrow> system_state \<Rightarrow> recommendation list" where
  "evaluate_high hash ru s = (let p = percent (memory_pressure (ss_dram_pressure s)) in
     if zram_has_room ru s then
       [MoveToZram (eviction_chunk_id hash s) [Lit ''high DRAM pressure ('', p, Lit ''%) - ZRAM available ('',
          percent (unwrap_or (f32_lit 0) (ss_zram_utilization s)), Lit ''% full)''] (f32_lit 1) [[Lit ''high_pressure''], [Lit ''zram_available'']]]
     else if swap_has_room ru s then
       [MoveToDiskSwap (eviction_chunk_id hash s) [Lit ''high DRAM pressure ('', p, Lit ''%) - swap available ('',
          percent (ss_swap_utilization s), Lit ''% full)''] (f32_lit 1) [[Lit ''high_pressure''], [Lit ''swap_available'']]]
     else [EvictCold Ram (eviction_count s) (f32_lit 1) [[Lit ''high_pressure''], [Lit ''zram_full''], [Lit ''swap_full'']]])"

definition evaluate_pressure :: "(bytes \<Rightarrow> bytes) \<Rightarrow> policy_rules \<Rightarrow> system_state \<Rightarrow> recommendation list" where
  "evaluate_pressure hash ru s = (case linux_pressure_level s of
       LpCritical \<Rightarrow> evaluate_critical hash ru s
     | LpHigh \<Rightarrow> evaluate_high hash ru s
     | LpMedium \<Rightarrow> (if ss_zram_utilization s \<noteq> None then [DemoteHot GpuVram Disk (f32_lit (8 / 10)) [[Lit ''medium_pressure'']]] else [])
     | LpLow \<Rightarrow> (if flt (memory_pressure (ss_dram_pressure s)) (f32_lit (3 / 10))
         then [NoAction [Lit ''DRAM pressure low ('', percent (memory_pressure (ss_dram_pressure s)), Lit ''%) - no action needed'']
                 (f32_lit 1) [[Lit ''low_pressure'']]] else []))"

definition promote_hot :: "(bytes \<Rightarrow> bytes) \<Rightarrow> policy_rules \<Rightarrow> system_state \<Rightarrow> hotness_summary \<Rightarrow> f32 \<Rightarrow> string \<Rightarrow> message \<Rightarrow> recommendation" where
  "promote_hot hash ru s su score goal third = PromoteToDram (hotness_chunk_id hash s)
     [Lit ''hot regions '', FmtFloat (hot_percentage su), Lit ''% above threshold '', FmtFloat (hot_region_pct_threshold ru), Lit (''% - '' @ goal)]
     (fmul binary32 score (hotness_weight ru))
     [[Lit ''hot_regions='', FmtFloat (hot_percentage su), Lit ''%''], [Lit ''hotness_confidence='', FmtFloat score], third]"

definition evaluate_hotness :: "(bytes \<Rightarrow> bytes) \<Rightarrow> policy_rules \<Rightarrow> system_state \<Rightarrow> hotness_summary \<Rightarrow> f32 \<Rightarrow> recommendation list" where
  "evaluate_hotness hash ru s su score =
     (let p = memory_pressure (ss_dram_pressure s); w = fmul binary32 score (hotness_weight ru); hot = fgt (hot_percentage su) (hot_region_pct_threshold ru) in
      (if hot \<and> fge p (dram_high_threshold ru)
       then [promote_hot hash ru s su score ''promote hottest to DRAM'' [Lit ''dram_pressure='', percent p, Lit ''%'']] else [])
      @ (if hot \<and> flt p (dram_high_threshold ru)
         then [promote_hot hash ru s su score ''optimize placement in idle system'' [Lit ''low_pressure_optimization'']] else [])
      @ (if fgt (frozen_percentage su) (frozen_region_pct_threshold ru)
         then [MoveToDiskSwap (coldness_chunk_id hash s)
           [Lit ''frozen regions '', FmtFloat (frozen_percentage su), Lit ''% above threshold '', FmtFloat (frozen_region_pct_threshold ru), Lit ''% - move coldest to disk'']
           w [[Lit ''frozen_regions='', FmtFloat (frozen_percentage su), Lit ''%''], [Lit ''hotness_confidence='', FmtFloat score]]] else [])
      @ (if fgt (warm_percentage su) (warm_region_pct_threshold ru) \<and> zram_has_room ru s
         then [MoveToZram (warmth_chunk_id hash s)
           [Lit ''warm regions '', FmtFloat (warm_percentage su), Lit ''% above threshold '', FmtFloat (warm_region_pct_threshold ru), Lit ''% - move warm to ZRAM'']
           w [[Lit ''warm_regions='', FmtFloat (warm_percentage su), Lit ''%''], [Lit ''hotness_confidence='', FmtFloat score], [Lit ''zram_available'']]] else []))"

fun recommendations_conflict :: "recommendation \<Rightarrow> recommendation \<Rightarrow> bool" where
  "recommendations_conflict (PromoteToDram a _ _ _) (MoveToZram b _ _ _) = True"
| "recommendations_conflict (PromoteToDram a _ _ _) (MoveToDiskSwap b _ _ _) = True"
| "recommendations_conflict (MoveToZram a _ _ _) (PromoteToDram b _ _ _) = True"
| "recommendations_conflict (MoveToDiskSwap a _ _ _) (PromoteToDram b _ _ _) = True"
| "recommendations_conflict (MoveToDiskSwap a _ _ _) (MoveToZram b _ _ _) = True"
| "recommendations_conflict (MoveToZram a _ _ _) (MoveToDiskSwap b _ _ _) = True"
| "recommendations_conflict (EvictCold _ _ _ _) (PromoteToDram b _ _ _) = True"
| "recommendations_conflict (PromoteToDram a _ _ _) (EvictCold _ _ _ _) = True"
| "recommendations_conflict (PromoteToDram a _ _ _) (PromoteToDram b _ _ _) = (a = b)"
| "recommendations_conflict (MoveToZram a _ _ _) (MoveToZram b _ _ _) = (a = b)"
| "recommendations_conflict (MoveToDiskSwap a _ _ _) (MoveToDiskSwap b _ _ _) = (a = b)"
| "recommendations_conflict _ _ = False"

fun is_no_action :: "recommendation \<Rightarrow> bool" where
  "is_no_action (NoAction _ _ _) = True"
| "is_no_action _ = False"

definition merge_one :: "policy_rules \<Rightarrow> recommendation list \<Rightarrow> recommendation \<Rightarrow> recommendation list" where
  "merge_one ru merged h =
     (if list_ex (recommendations_conflict h) merged then
        if list_ex (\<lambda>p. is_no_action p \<and> recommendations_conflict h p) merged
        then filter (\<lambda>p. \<not> is_no_action p) merged @ [h]
        else let pc = foldl fmax (Fin 0) (map confidence (filter (recommendations_conflict h) merged)) in
          if fgt (confidence h) (fadd binary32 pc (hotness_weight ru))
          then filter (\<lambda>p. \<not> recommendations_conflict h p) merged @ [h]
          else merged
      else merged @ [h])"

definition merge_recommendations :: "policy_rules \<Rightarrow> recommendation list \<Rightarrow> recommendation list \<Rightarrow> recommendation list" where
  "merge_recommendations ru ps hs = foldl (merge_one ru) ps hs"

definition hotness_recs :: "(bytes \<Rightarrow> bytes) \<Rightarrow> policy_rules \<Rightarrow> system_state \<Rightarrow> recommendation list" where
  "hotness_recs hash ru s = (case (ss_hotness_summary s, ss_hotness_confidence s) of
       (Some su, Some co) \<Rightarrow> if fge (conf_score co) (min_confidence ru) then evaluate_hotness hash ru s su (conf_score co) else []
     | _ \<Rightarrow> [])"

definition rules_evaluate :: "(bytes \<Rightarrow> bytes) \<Rightarrow> policy_rules \<Rightarrow> system_state \<Rightarrow> recommendation list" where
  "rules_evaluate hash ru s = merge_recommendations ru (evaluate_pressure hash ru s) (hotness_recs hash ru s)"

section \<open>Recommendations of one evaluation do not conflict\<close>

lemma conflict_sym: "recommendations_conflict a b \<longleftrightarrow> recommendations_conflict b a"
  by (cases a; cases b) auto

lemma conflict_no_action: "recommendations_conflict h p \<Longrightarrow> \<not> is_no_action p"
  by (cases h; cases p) simp_all

definition conflict_free :: "recommendation list \<Rightarrow> bool" where
  "conflict_free rs \<longleftrightarrow> sorted_wrt (\<lambda>a b. \<not> recommendations_conflict a b) rs"

lemma conflict_free_snoc:
  "conflict_free (rs @ [h]) \<longleftrightarrow> conflict_free rs \<and> \<not> list_ex (recommendations_conflict h) rs"
  using conflict_sym by (auto simp: conflict_free_def sorted_wrt_append list_ex_iff)

text \<open>The branch for a conflict with \<open>NoAction\<close> is never taken.\<close>

lemma merge_one_cases:
  "merge_one ru merged h =
     (if \<not> list_ex (recommendations_conflict h) merged then merged @ [h]
      else if fgt (confidence h) (fadd binary32 (foldl fmax (Fin 0) (map confidence (filter (recommendations_conflict h) merged))) (hotness_weight ru))
      then filter (\<lambda>p. \<not> recommendations_conflict h p) merged @ [h] else merged)"
proof -
  have "\<not> list_ex (\<lambda>p. is_no_action p \<and> recommendations_conflict h p) merged"
    using conflict_no_action by (auto simp: list_ex_iff)
  then show ?thesis by (simp add: merge_one_def)
qed

lemma conflict_free_filter: "conflict_free rs \<Longrightarrow> conflict_free (filter P rs)"
  by (simp add: conflict_free_def sorted_wrt_filter)

lemma merge_one_conflict_free: "conflict_free merged \<Longrightarrow> conflict_free (merge_one ru merged h)"
  by (simp add: merge_one_cases conflict_free_snoc conflict_free_filter list_ex_iff)

lemma pressure_conflict_free: "conflict_free (evaluate_pressure hash ru s)"
  by (simp add: evaluate_pressure_def evaluate_critical_def evaluate_high_def conflict_free_def Let_def
      split: linux_level.split)

lemma merge_conflict_free: "conflict_free ps \<Longrightarrow> conflict_free (merge_recommendations ru ps hs)"
  unfolding merge_recommendations_def by (induction hs arbitrary: ps) (simp_all add: merge_one_conflict_free)

text \<open>
  C27: The recommendations of one evaluation never contradict each other: of any two, at most one
  decides where a chunk goes, whatever the thresholds, weights and scores are, NaN included.
\<close>

theorem evaluate_conflict_free:
  "i < j \<Longrightarrow> j < length (rules_evaluate hash ru s) \<Longrightarrow>
     \<not> recommendations_conflict (rules_evaluate hash ru s ! i) (rules_evaluate hash ru s ! j)"
  using merge_conflict_free [OF pressure_conflict_free, of ru hash ru s]
  by (auto simp: rules_evaluate_def conflict_free_def sorted_wrt_iff_nth_less)

section \<open>Pressure comes first\<close>

lemma hotness_confidences: "r \<in> set (evaluate_hotness hash ru s su score) \<Longrightarrow> confidence r = fmul binary32 score (hotness_weight ru)"
  by (auto simp: evaluate_hotness_def promote_hot_def Let_def split: if_splits)

lemma weighted_le_weight:
  assumes "in_unit score" "in_unit w" "is_float binary32 w"
  shows "fle (fmul binary32 score w) w"
proof -
  obtain x y where v: "score = Fin x" "0 \<le> x" "x \<le> 1" "w = Fin y" "0 \<le> y" using assms(1,2) by (auto simp: in_unit_iff)
  then have "x * y \<le> y" by (simp add: mult_left_le_one_le)
  then have "fle (rnd binary32 (x * y)) (rnd binary32 y)" by (intro rnd_mono) simp_all
  moreover have "rnd binary32 y = Fin y" using assms(3) v by (simp add: is_float_def rnd_exact)
  ultimately show ?thesis using v by simp
qed

lemma weight_le_sum:
  assumes "fle (Fin 0) c" "in_unit w" "is_float binary32 w"
  shows "fle w (fadd binary32 c w)"
proof (cases c)
  case (Fin x)
  obtain y where v: "w = Fin y" using assms(2) by (auto simp: in_unit_iff)
  then have "fle (rnd binary32 y) (rnd binary32 (x + y))" using assms(1) Fin by (intro rnd_mono) simp_all
  moreover have "rnd binary32 y = Fin y" using assms(3) v by (simp add: is_float_def rnd_exact)
  ultimately show ?thesis using v Fin by simp
qed (use assms in \<open>auto simp: in_unit_iff\<close>)

lemma fmax_fold_nonneg: "fle (Fin 0) a \<Longrightarrow> fle (Fin 0) (foldl fmax a xs)"
  by (induction xs arbitrary: a) (simp_all add: fmax_ge_iff)

lemma merge_one_keeps_prefix:
  assumes "in_unit score" "in_unit (hotness_weight ru)" "is_float binary32 (hotness_weight ru)"
    and "confidence h = fmul binary32 score (hotness_weight ru)"
  shows "merge_one ru merged h = (if list_ex (recommendations_conflict h) merged then merged else merged @ [h])"
proof -
  let ?w = "hotness_weight ru" and ?pc = "foldl fmax (Fin 0) (map confidence (filter (recommendations_conflict h) merged))"
  have "fle (confidence h) (fadd binary32 ?pc ?w)"
    using fle_trans [OF weighted_le_weight weight_le_sum] assms fmax_fold_nonneg [of "Fin 0"] by simp
  then have "\<not> flt (fadd binary32 ?pc ?w) (confidence h)" by (auto simp: flt_def)
  then show ?thesis by (simp add: merge_one_cases)
qed

lemma merge_prefix:
  assumes "in_unit score" "in_unit (hotness_weight ru)" "is_float binary32 (hotness_weight ru)"
  shows "(\<And>h. h \<in> set hs \<Longrightarrow> confidence h = fmul binary32 score (hotness_weight ru)) \<Longrightarrow>
    \<exists>xs. merge_recommendations ru ps hs = ps @ xs \<and> set xs \<subseteq> set hs"
proof (induction hs arbitrary: ps)
  case (Cons h hs)
  let ?ps = "merge_one ru ps h"
  obtain xs where xs: "merge_recommendations ru ?ps hs = ?ps @ xs" "set xs \<subseteq> set hs" using Cons by (metis list.set_intros(2))
  moreover have "?ps = ps \<or> ?ps = ps @ [h]"
    using merge_one_keeps_prefix [OF assms, of h ps] Cons.prems by (auto split: if_splits)
  ultimately show ?case by (auto simp: merge_recommendations_def)
qed (simp add: merge_recommendations_def)

definition unit_confidence :: "system_state \<Rightarrow> bool" where
  "unit_confidence s = (case ss_hotness_confidence s of None \<Rightarrow> True | Some c \<Rightarrow> in_unit (conf_score c))"

text \<open>
  With a weight and a confidence score of the unit interval, the recommendations of pressure all
  stay, in front: a recommendation of hotness can only be added, so that the branch that prefers
  a hotness recommendation of higher confidence is never taken.
\<close>

theorem pressure_first:
  assumes "in_unit (hotness_weight ru)" "is_float binary32 (hotness_weight ru)" "unit_confidence s"
  shows "\<exists>xs. rules_evaluate hash ru s = evaluate_pressure hash ru s @ xs \<and> set xs \<subseteq> set (hotness_recs hash ru s)"
proof (cases "hotness_recs hash ru s = []")
  case False
  then obtain su co where c: "ss_hotness_confidence s = Some co"
    "hotness_recs hash ru s = evaluate_hotness hash ru s su (conf_score co)"
    by (auto simp: hotness_recs_def split: option.splits if_splits)
  with assms(3) have "in_unit (conf_score co)" by (simp add: unit_confidence_def)
  from merge_prefix [OF this assms(1,2), of "hotness_recs hash ru s"] c(2) show ?thesis
    using hotness_confidences by (simp add: rules_evaluate_def)
qed (simp add: rules_evaluate_def merge_recommendations_def)

section \<open>Examples\<close>

definition evict_state :: system_state where
  "evict_state = idle_state\<lparr>ss_dram_pressure := pressure_new\<lparr>memory_pressure := Fin 1\<rparr>, ss_zram_utilization := Some (Fin 0)\<rparr>"

lemma evict_critical: "linux_pressure_level evict_state = LpCritical"
  by (simp add: linux_pressure_level_def linux_max_pressure_def evict_state_def idle_state_def pressure_new_def fmax_def)

lemma no_hotness: "ss_hotness_summary s = None \<Longrightarrow> rules_evaluate hash ru s = evaluate_pressure hash ru s"
  by (simp add: rules_evaluate_def hotness_recs_def merge_recommendations_def)

lemma evict_recs: "rules_evaluate (\<lambda>_. []) policy_rules_default evict_state = evaluate_critical (\<lambda>_. []) policy_rules_default evict_state"
proof -
  have "ss_hotness_summary evict_state = None" by (simp add: evict_state_def idle_state_def)
  then show ?thesis by (simp add: no_hotness evaluate_pressure_def evict_critical)
qed

theorem evaluate_conflict_free_witness:
  "\<not> recommendations_conflict (rules_evaluate (\<lambda>_. []) policy_rules_default evict_state ! 0)
     (rules_evaluate (\<lambda>_. []) policy_rules_default evict_state ! 1)"
proof (rule evaluate_conflict_free)
  have "ss_zram_utilization evict_state \<noteq> None" by (simp add: evict_state_def)
  then show "1 < length (rules_evaluate (\<lambda>_. []) policy_rules_default evict_state)"
    by (simp add: evict_recs evaluate_critical_def Let_def)
qed simp

definition warm_summary :: hotness_summary where
  "warm_summary = \<lparr>hot_count = 1, warm_count = 0, cold_count = 0, frozen_count = 0, total_regions = 1, hot_percentage = Fin 100,
     warm_percentage = Fin 0, cold_percentage = Fin 0, frozen_percentage = Fin 0, avg_access_count = 100, max_access_count = 100, min_access_count = 100\<rparr>"

definition hot_state :: system_state where
  "hot_state = evict_state\<lparr>ss_hotness_summary := Some warm_summary, ss_hotness_confidence := Some \<lparr>conf_score = Fin 1, factors = []\<rparr>\<rparr>"

theorem pressure_first_witness:
  "\<exists>xs. rules_evaluate (\<lambda>_. []) policy_rules_default hot_state = evaluate_pressure (\<lambda>_. []) policy_rules_default hot_state @ xs
     \<and> set xs \<subseteq> set (hotness_recs (\<lambda>_. []) policy_rules_default hot_state)"
proof (rule pressure_first)
  have w: "hotness_weight policy_rules_default = Fin (5033165 / 16777216)"
    by (simp add: policy_rules_default_def f32_lit_def)
  then show "in_unit (hotness_weight policy_rules_default)" by simp
  have "representable binary32 (5033165 / 16777216)" unfolding representable_def
    by (rule exI [of _ 5033165], rule exI [of _ "- 24"]) (simp add: binary32_def power_int_def power_one_over)
  then show "is_float binary32 (hotness_weight policy_rules_default)"
    using w max_fin_ge_1 [of binary32] by (simp add: is_float_def)
  show "unit_confidence hot_state" by (simp add: unit_confidence_def hot_state_def)
qed

end
