(* ===== verification/Policy_Runtime.thy ===== *)
theory Policy_Runtime
  imports Policy_Rules Tier_Inventory
begin

text \<open>
  \<^verbatim>\<open>ghost-linux/src\<close>: \<^verbatim>\<open>cooldown.rs\<close>, \<^verbatim>\<open>stability.rs\<close> and the runtime of \<^verbatim>\<open>policy.rs\<close>, which builds the snapshot
  from the tier inventory and the pressure files, applies the rules and filters, sorts and limits
  the result. The main facts: an evaluation always returns, and what it returns is sorted, bounded
  and above the confidence threshold; no cooldown ever holds a recommendation back; and under high
  pressure ZRAM is recommended only while it holds nothing.
\<close>

section \<open>Cooldowns\<close>

record cooldown_tracker =
  last_recommendation :: "(string, u64) btree"
  last_suppression :: "(string, u64) btree"
  ct_config :: stability_config

definition cooldowns_new :: "stability_config \<Rightarrow> cooldown_tracker" where
  "cooldowns_new c = \<lparr>last_recommendation = fmempty, last_suppression = fmempty, ct_config = c\<rparr>"

definition can_recommend :: "u64 \<Rightarrow> string \<Rightarrow> cooldown_tracker \<Rightarrow> bool" where
  "can_recommend now k t = (case fmlookup (last_recommendation t) k of
       Some l \<Rightarrow> recommendation_cooldown_secs (ct_config t) \<le> saturating_sub now l | None \<Rightarrow> True)"

definition record_recommendation :: "u64 \<Rightarrow> string \<Rightarrow> cooldown_tracker \<Rightarrow> cooldown_tracker" where
  "record_recommendation now k t = t\<lparr>last_recommendation := fmupd k now (last_recommendation t)\<rparr>"

definition record_suppression :: "u64 \<Rightarrow> string \<Rightarrow> cooldown_tracker \<Rightarrow> cooldown_tracker" where
  "record_suppression now k t = t\<lparr>last_suppression := fmupd k now (last_suppression t)\<rparr>"

definition remaining_cooldown :: "u64 \<Rightarrow> string \<Rightarrow> cooldown_tracker \<Rightarrow> u64 option" where
  "remaining_cooldown now k t = (case fmlookup (last_recommendation t) k of
       Some l \<Rightarrow> (let e = saturating_sub now l; c = recommendation_cooldown_secs (ct_config t) in if e < c then Some (c - e) else None)
     | None \<Rightarrow> None)"

definition active_entries :: "u64 \<Rightarrow> u64 \<Rightarrow> (string, u64) btree \<Rightarrow> (string, u64) btree" where
  "active_entries now c m = fmfilter (\<lambda>k. case fmlookup m k of Some l \<Rightarrow> saturating_sub now l < c | None \<Rightarrow> False) m"

definition prune_expired :: "u64 \<Rightarrow> cooldown_tracker \<Rightarrow> cooldown_tracker" where
  "prune_expired now t = t\<lparr>last_recommendation := active_entries now (recommendation_cooldown_secs (ct_config t)) (last_recommendation t),
     last_suppression := active_entries now (suppression_cooldown_secs (ct_config t)) (last_suppression t)\<rparr>"

definition cooldowns_active :: "u64 \<Rightarrow> cooldown_tracker \<Rightarrow> nat" where
  "cooldowns_active now t = length (filter (\<lambda>(k, l). saturating_sub now l < recommendation_cooldown_secs (ct_config t)) (bt_entries (last_recommendation t)))"

definition cooldowns_suppressed :: "u64 \<Rightarrow> cooldown_tracker \<Rightarrow> nat" where
  "cooldowns_suppressed now t = length (filter (\<lambda>(k, l). saturating_sub now l < suppression_cooldown_secs (ct_config t)) (bt_entries (last_suppression t)))"

definition is_suppressed :: "u64 \<Rightarrow> string \<Rightarrow> cooldown_tracker \<Rightarrow> bool" where
  "is_suppressed now k t = (case fmlookup (last_suppression t) k of
       Some l \<Rightarrow> saturating_sub now l < suppression_cooldown_secs (ct_config t) | None \<Rightarrow> False)"

section \<open>Temperature stability\<close>

record stability_checker =
  st_history :: "(string, temperature list) btree"
  st_config :: stability_config

definition stability_new :: "stability_config \<Rightarrow> stability_checker" where
  "stability_new c = \<lparr>st_history = fmempty, st_config = c\<rparr>"

definition st_record :: "string \<Rightarrow> temperature \<Rightarrow> stability_checker \<Rightarrow> stability_checker" where
  "st_record k t c = c\<lparr>st_history := fmupd k (trim_front (temperature_stability_window (st_config c) * 2)
     (unwrap_or [] (fmlookup (st_history c) k) @ [t])) (st_history c)\<rparr>"

text \<open>The last samples of a history; a window of size zero has no first sample, and the index panics.\<close>

definition st_window :: "stability_checker \<Rightarrow> temperature list \<Rightarrow> temperature list" where
  "st_window c h = drop (length h - temperature_stability_window (st_config c)) h"

definition is_stable :: "string \<Rightarrow> stability_checker \<Rightarrow> bool ghost_result" where
  "is_stable k c = (case fmlookup (st_history c) k of
       None \<Rightarrow> Ok False
     | Some h \<Rightarrow> if length h < temperature_stability_window (st_config c) then Ok False
         else (case st_window c h of [] \<Rightarrow> Panic | x # xs \<Rightarrow> Ok (list_all (\<lambda>t. t = x) (x # xs))))"

definition stable_temperature :: "string \<Rightarrow> stability_checker \<Rightarrow> temperature option ghost_result" where
  "stable_temperature k c = outcome_bind (is_stable k c) (\<lambda>st. if \<not> st then Ok None
     else case fmlookup (st_history c) k of None \<Rightarrow> Ok None
       | Some h \<Rightarrow> (case st_window c h of [] \<Rightarrow> Panic | x # _ \<Rightarrow> Ok (Some x)))"

definition st_trend :: "string \<Rightarrow> stability_checker \<Rightarrow> temperature_trend option" where
  "st_trend k c = (case fmlookup (st_history c) k of
       None \<Rightarrow> Some (Stable Frozen)
     | Some h \<Rightarrow> Some (if h = [] then Stable Frozen else if length h < 2 then Stable (hd h)
         else if changes h > length h div 2 then Flapping
         else let f = hd h; l = last h in
           if temperature_value l > temperature_value f then Warming f l
           else if temperature_value l < temperature_value f then Cooling f l else Stable l))"

definition classify_with_hysteresis :: "stability_checker \<Rightarrow> temperature \<Rightarrow> u64 \<Rightarrow> u64 \<Rightarrow> u64 \<Rightarrow> temperature" where
  "classify_with_hysteresis c current n hot cold = (let margin = hysteresis_margin (st_config c) in
     if current \<in> {Hot, Warm}
     then let eff = to_u64 (fmul binary32 (of_word binary32 cold) (fsub binary32 (f32_lit 1) margin))
          in if n < max eff 1 then from_access_count n else current
     else let eff = to_u64 (fmul binary32 (of_word binary32 hot) (fadd binary32 (f32_lit 1) margin))
          in if eff \<le> n then from_access_count n else current)"

definition observation_count :: "string \<Rightarrow> stability_checker \<Rightarrow> nat" where
  "observation_count k c = (case fmlookup (st_history c) k of None \<Rightarrow> 0 | Some h \<Rightarrow> length h)"

definition clear_region :: "string \<Rightarrow> stability_checker \<Rightarrow> stability_checker" where
  "clear_region k c = c\<lparr>st_history := fmdrop k (st_history c)\<rparr>"

definition st_clear_all :: "stability_checker \<Rightarrow> stability_checker" where
  "st_clear_all c = c\<lparr>st_history := fmempty\<rparr>"

section \<open>The policy runtime\<close>

text \<open>The runtime shares the inventory, its clock and its event channel.\<close>

record policy_runtime =
  pr_inventory :: inventory
  pr_has_provider :: bool
  pr_last_evaluation :: u64
  pr_rules :: policy_rules
  pr_stability :: stability_config
  pr_cooldowns :: cooldown_tracker
  pr_checker :: stability_checker

definition policy_with_stability :: "inventory \<Rightarrow> policy_rules \<Rightarrow> stability_config \<Rightarrow> policy_runtime" where
  "policy_with_stability iv ru sc = \<lparr>pr_inventory = iv, pr_has_provider = False, pr_last_evaluation = 0, pr_rules = ru,
     pr_stability = sc, pr_cooldowns = cooldowns_new sc, pr_checker = stability_new sc\<rparr>"

definition policy_with_rules :: "inventory \<Rightarrow> policy_rules \<Rightarrow> policy_runtime" where
  "policy_with_rules iv ru = policy_with_stability iv ru stability_config_default"

definition policy_new :: "inventory \<Rightarrow> policy_runtime" where
  "policy_new iv = policy_with_rules iv policy_rules_default"

definition set_hotness_provider :: "policy_runtime \<Rightarrow> policy_runtime" where
  "set_hotness_provider p = p\<lparr>pr_has_provider := True\<rparr>"

definition is_cooldown_expired :: "u64 \<Rightarrow> policy_runtime \<Rightarrow> bool" where
  "is_cooldown_expired now p \<longleftrightarrow> cooldown_seconds (pr_rules p) \<le> saturating_sub now (pr_last_evaluation p)"

definition apply_stability :: "policy_runtime \<Rightarrow> recommendation list \<Rightarrow> recommendation list" where
  "apply_stability p rs = filter (\<lambda>r. fge (confidence r) (min_confidence_threshold (pr_stability p))) rs"

definition limit_recommendations :: "policy_runtime \<Rightarrow> recommendation list \<Rightarrow> recommendation list" where
  "limit_recommendations p rs = take (max_recommendations_per_cycle (pr_stability p))
     (sort_by (\<lambda>a b. cmp_float (confidence b) (confidence a)) rs)"

text \<open>One tier of the inventory, in the order of the map.\<close>

definition absorb_tier :: "system_state \<Rightarrow> tier_info \<Rightarrow> system_state" where
  "absorb_tier s t = (case ti_kind t of
       KDram \<Rightarrow> s\<lparr>ss_dram_utilization := f32_of_f64 (utilization t), ss_dram_pressure := (ss_dram_pressure s)
         \<lparr>memory_pressure := memory_pressure (ti_pressure t), io_pressure := io_pressure (ti_pressure t)\<rparr>\<rparr>
     | KSwap \<Rightarrow> s\<lparr>ss_swap_utilization := f32_of_f64 (utilization t)\<rparr>
     | KDiskSwap \<Rightarrow> s\<lparr>ss_swap_utilization := f32_of_f64 (utilization t)\<rparr>
     | KZram \<Rightarrow> s\<lparr>ss_zram_utilization := Some (f32_of_f64 (utilization t))\<rparr>
     | _ \<Rightarrow> s)"

definition absorb_tiers :: "(tier_id, tier_info) btree \<Rightarrow> system_state" where
  "absorb_tiers m = foldl absorb_tier idle_state (map snd (bt_entries m))"

definition absorb_psi :: "(ghost_error + psi_sample) \<Rightarrow> (ghost_error + psi_sample) \<Rightarrow> system_state \<Rightarrow> system_state" where
  "absorb_psi mem io s =
     (let s1 = (case mem of Inr x \<Rightarrow> s\<lparr>ss_dram_pressure := (ss_dram_pressure s)
                  \<lparr>memory_pressure := fmax (memory_pressure (ss_dram_pressure s)) (psi_pressure x)\<rparr>\<rparr> | Inl _ \<Rightarrow> s)
      in case io of Inr x \<Rightarrow> s1\<lparr>ss_io_pressure := (ss_io_pressure s1)\<lparr>io_pressure := psi_pressure x\<rparr>\<rparr> | Inl _ \<Rightarrow> s1)"

definition on_policy_rt :: "'a rt \<Rightarrow> (policy_runtime, 'a, ghost_error) act" where
  "on_policy_rt m = on_part pr_inventory (\<lambda>i p. p\<lparr>pr_inventory := i\<rparr>) (on_inv_rt m)"

definition build_system_state :: "file_system \<Rightarrow> (policy_runtime, system_state, ghost_error) act" where
  "build_system_state fs p =
     bind_act (on_policy_rt (catch_act (psi_read fs PsiMemory))) (\<lambda>mem.
     bind_act (on_policy_rt (catch_act (psi_read fs PsiIo))) (\<lambda>io.
     ret (absorb_psi mem io (absorb_tiers (tiers (pr_inventory p)))))) p"

text \<open>Each recommendation is checked against its cooldown at the time of the check.\<close>

fun apply_cooldowns :: "recommendation list \<Rightarrow> (policy_runtime, recommendation list, ghost_error) act" where
  "apply_cooldowns [] = ret []"
| "apply_cooldowns (r # rs) = bind_act (on_policy_rt now_secs) (\<lambda>now p.
     let keep = can_recommend now (region_key r) (pr_cooldowns p)
     in bind_act (apply_cooldowns rs) (\<lambda>xs. ret (if keep then r # xs else xs)) p)"

definition filtered :: "recommendation list \<Rightarrow> (policy_runtime, recommendation list, ghost_error) act" where
  "filtered rs p = bind_act (apply_cooldowns (apply_stability p rs)) (\<lambda>xs. ret (limit_recommendations p xs)) p"

definition policy_evaluate :: "(bytes \<Rightarrow> bytes) \<Rightarrow> file_system \<Rightarrow> (policy_runtime, recommendation list, ghost_error) act" where
  "policy_evaluate hash fs =
     bind_act (build_system_state fs) (\<lambda>st.
     bind_act (\<lambda>p. filtered (rules_evaluate hash (pr_rules p) st) p) (\<lambda>rs.
     bind_act (on_policy_rt now_secs) (\<lambda>now.
     bind_act (update_act (\<lambda>p. p\<lparr>pr_last_evaluation := now\<rparr>)) (\<lambda>_.
     bind_act (on_policy_rt (emit_event (EvPolicyRecommendationGenerated 0 (map rec_display rs) [Lit (display_linux_level (linux_pressure_level st))]))) (\<lambda>_.
     ret rs)))))"

section \<open>An evaluation returns\<close>

lemma psi_token_total: "psi_token t f \<noteq> Panic"
proof (cases "split_once (CHR ''='') t")
  case (Some kv)
  then obtain k v where kv: "split_once (CHR ''='') t = Some (k, v)" by (cases kv) simp
  have f: "outcome_bind (psi_float k v) (\<lambda>x. Ok (u x)) \<noteq> Panic" for u :: "f64 \<Rightarrow> psi_fields"
    by (simp add: psi_float_def split: option.split)
  consider "k = ''avg10''" | "k = ''avg60''" | "k = ''avg300''" | "k = ''total''"
    | "k \<noteq> ''avg10''" "k \<noteq> ''avg60''" "k \<noteq> ''avg300''" "k \<noteq> ''total''" by blast
  then show ?thesis
    using kv f by cases (simp_all add: psi_token_def split: outcome.split)
qed (simp add: psi_token_def)

lemma psi_tokens_total: "psi_tokens ts f \<noteq> Panic"
proof (induction ts arbitrary: f)
  case (Cons t ts)
  then show ?case using psi_token_total [of t f] by (cases "psi_token t f") simp_all
qed simp

lemma psi_parse_total: "psi_parse res ts line \<noteq> Panic"
  using psi_tokens_total [of "split_whitespace line" no_fields]
  by (cases "psi_tokens (split_whitespace line) no_fields")
     (auto simp: psi_parse_def psi_sample_of_def required_def split: option.split)

definition no_panic :: "('s, 'a, 'e) act \<Rightarrow> bool" where
  "no_panic m \<longleftrightarrow> (\<forall>s. fst (m s) \<noteq> Panic)"

lemma no_panic_bind: "no_panic m \<Longrightarrow> (\<And>a. no_panic (k a)) \<Longrightarrow> no_panic (bind_act m k)"
  unfolding no_panic_def bind_act_def by (auto split: prod.split outcome.split) (metis fst_conv)

lemma no_panic_basic: "no_panic (ret a)" "r \<noteq> Panic \<Longrightarrow> no_panic (lift_outcome r)" "no_panic now_secs" "no_panic (emit_event ev)"
  by (auto simp: no_panic_def ret_def lift_outcome_def now_secs_def emit_event_def split: option.split)

lemma psi_read_total: "no_panic (psi_read fs res)"
proof -
  have "no_panic (psi_parse_line line res)" for line
    unfolding psi_parse_line_def by (intro no_panic_bind no_panic_basic psi_parse_total)
  moreover have "no_panic (emit_pressure_event x)" for x
    by (simp add: emit_pressure_event_def no_panic_basic split: psi_resource.split)
  moreover have "read_file fs path m \<noteq> Panic" for path m
    by (simp add: read_file_def split: file_read.split)
  ultimately show ?thesis unfolding psi_read_def Let_def by (intro no_panic_bind no_panic_basic)
qed

definition policy_core :: "policy_runtime \<Rightarrow> (tier_id, tier_info) btree \<times> policy_rules \<times> stability_config \<times> cooldown_tracker \<times> stability_checker" where
  "policy_core p = (tiers (pr_inventory p), pr_rules p, pr_stability p, pr_cooldowns p, pr_checker p)"

lemma keeps_policy_rt [keeps_rules]: "keeps policy_core (on_policy_rt m)"
  by (auto simp: keeps_def policy_core_def on_policy_rt_def on_inv_rt_def on_part_def split: prod.splits)

lemma policy_rt_Ok:
  assumes "\<And>s. \<exists>a. fst (m s) = Ok a"
  obtains a p' where "on_policy_rt m p = (Ok a, p')" "policy_core p' = policy_core p"
proof -
  obtain a s' where "m (inv_rt (pr_inventory p)) = (Ok a, s')" using assms by (metis eq_fst_iff)
  then have "\<exists>p'. on_policy_rt m p = (Ok a, p')" by (simp add: on_policy_rt_def on_inv_rt_def on_part_def)
  then show thesis using that keepsD [OF keeps_policy_rt, of m p] by (metis snd_conv)
qed

lemma caught_psi: "\<exists>a. fst (catch_act (psi_read fs res) s) = Ok a"
  using psi_read_total [of fs res]
  by (auto simp: no_panic_def catch_act_def split: prod.split outcome.split) (metis fst_conv)

lemma build_returns:
  obtains mem io p' where "build_system_state fs p = (Ok (absorb_psi mem io (absorb_tiers (tiers (pr_inventory p)))), p')"
    "policy_core p' = policy_core p"
proof -
  obtain mem p1 where 1: "on_policy_rt (catch_act (psi_read fs PsiMemory)) p = (Ok mem, p1)" "policy_core p1 = policy_core p"
    by (rule policy_rt_Ok [OF caught_psi])
  obtain io p2 where 2: "on_policy_rt (catch_act (psi_read fs PsiIo)) p1 = (Ok io, p2)" "policy_core p2 = policy_core p1"
    by (rule policy_rt_Ok [OF caught_psi])
  show thesis using that [of mem io p2] 1 2 by (simp add: build_system_state_def bind_act_def ret_def)
qed

text \<open>No cooldown is ever recorded by an evaluation, so that none holds a recommendation back.\<close>

definition no_cooldowns :: "policy_runtime \<Rightarrow> bool" where
  "no_cooldowns p \<longleftrightarrow> last_recommendation (pr_cooldowns p) = fmempty"

lemma no_cooldowns_core: "policy_core p = policy_core q \<Longrightarrow> no_cooldowns p = no_cooldowns q"
  by (simp add: no_cooldowns_def policy_core_def)

lemma cooldowns_pass:
  assumes "no_cooldowns p"
  obtains p' where "apply_cooldowns rs p = (Ok rs, p')" "policy_core p' = policy_core p"
proof -
  have "\<exists>p'. apply_cooldowns rs p = (Ok rs, p') \<and> policy_core p' = policy_core p"
    using assms
  proof (induction rs arbitrary: p)
    case (Cons r rs)
    obtain now p1 where 1: "on_policy_rt now_secs p = (Ok now, p1)" "policy_core p1 = policy_core p"
      by (rule policy_rt_Ok [of now_secs p]) (simp_all add: now_secs_def)
    from 1(2) Cons.prems have n: "no_cooldowns p1" using no_cooldowns_core by blast
    then have "can_recommend now (region_key r) (pr_cooldowns p1)" by (simp add: no_cooldowns_def can_recommend_def)
    moreover from Cons.IH [OF n] obtain p2 where "apply_cooldowns rs p1 = (Ok rs, p2)" "policy_core p2 = policy_core p1" by blast
    ultimately show ?case using 1 by (simp add: bind_act_def ret_def)
  qed (simp add: ret_def)
  then show thesis using that by blast
qed

lemma policy_evaluate_result:
  assumes "no_cooldowns p"
  obtains mem io p' where
    "policy_evaluate hash fs p = (Ok (limit_recommendations p (apply_stability p
       (rules_evaluate hash (pr_rules p) (absorb_psi mem io (absorb_tiers (tiers (pr_inventory p))))))), p')"
    "policy_core p' = policy_core p"
proof -
  obtain mem io p1 where 1: "build_system_state fs p = (Ok (absorb_psi mem io (absorb_tiers (tiers (pr_inventory p)))), p1)"
    "policy_core p1 = policy_core p" by (rule build_returns)
  let ?st = "absorb_psi mem io (absorb_tiers (tiers (pr_inventory p)))"
  let ?raw = "rules_evaluate hash (pr_rules p1) ?st"
  let ?rs = "limit_recommendations p1 (apply_stability p1 ?raw)"
  obtain p2 where 2: "apply_cooldowns (apply_stability p1 ?raw) p1 = (Ok (apply_stability p1 ?raw), p2)" "policy_core p2 = policy_core p1"
    using assms 1(2) no_cooldowns_core cooldowns_pass by metis
  obtain now p3 where 3: "on_policy_rt now_secs p2 = (Ok now, p3)" "policy_core p3 = policy_core p2"
    by (rule policy_rt_Ok [of now_secs p2]) (simp_all add: now_secs_def)
  obtain p4 where 4: "on_policy_rt (emit_event (EvPolicyRecommendationGenerated 0 (map rec_display ?rs) [Lit (display_linux_level (linux_pressure_level ?st))]))
      (p3\<lparr>pr_last_evaluation := now\<rparr>) = (Ok (), p4)" "policy_core p4 = policy_core p3"
    by (rule policy_rt_Ok [of "emit_event _" "p3\<lparr>pr_last_evaluation := now\<rparr>"]) (auto simp: emit_event_def policy_core_def split: option.split)
  have eq: "limit_recommendations p1 = limit_recommendations p" "apply_stability p1 = apply_stability p" "pr_rules p1 = pr_rules p"
    using 1(2) by (auto simp: policy_core_def limit_recommendations_def [abs_def] apply_stability_def [abs_def])
  show thesis using that [of mem io p4] 1 2 3 4 eq
    by (simp add: policy_evaluate_def filtered_def bind_act_def ret_def update_act_def)
qed

lemma limited_sorted:
  "sorted_wrt (\<lambda>a b. fle (confidence b) (confidence a)) (limit_recommendations p (apply_stability p rs))"
proof -
  let ?xs = "apply_stability p rs"
  have "\<forall>r\<in>set ?xs. confidence r \<noteq> NaN" by (auto simp: apply_stability_def)
  from floats_desc.sorted_sort_by [OF this] show ?thesis by (simp add: limit_recommendations_def sorted_wrt_take)
qed

lemma limited_subset: "set (limit_recommendations p rs) \<subseteq> set rs"
  by (auto simp: limit_recommendations_def dest: in_set_takeD)

text \<open>
  C28: An evaluation of a policy runtime that has recorded no cooldown always returns, whatever the pressure files
  hold: at most the configured number of recommendations, in the order of falling confidence, each
  at or above the confidence threshold. Afterwards still no cooldown is recorded, so that the
  same holds of every later evaluation: the per-region rate limit never takes effect.
\<close>

theorem policy_evaluate_sound:
  assumes "no_cooldowns p"
  shows "\<exists>rs p'. policy_evaluate hash fs p = (Ok rs, p') \<and> length rs \<le> max_recommendations_per_cycle (pr_stability p)
    \<and> sorted_wrt (\<lambda>a b. fle (confidence b) (confidence a)) rs
    \<and> list_all (\<lambda>r. fle (min_confidence_threshold (pr_stability p)) (confidence r)) rs \<and> no_cooldowns p'"
proof -
  obtain st p' where e: "policy_evaluate hash fs p = (Ok (limit_recommendations p (apply_stability p (rules_evaluate hash (pr_rules p) st))), p')"
    "policy_core p' = policy_core p"
    by (rule policy_evaluate_result [OF assms, of hash fs])
  let ?rs = "limit_recommendations p (apply_stability p (rules_evaluate hash (pr_rules p) st))"
  have "list_all (\<lambda>r. fle (min_confidence_threshold (pr_stability p)) (confidence r)) ?rs"
    using limited_subset [of p "apply_stability p (rules_evaluate hash (pr_rules p) st)"]
    by (auto simp: list_all_iff apply_stability_def)
  moreover have "length ?rs \<le> max_recommendations_per_cycle (pr_stability p)" by (simp add: limit_recommendations_def)
  ultimately show ?thesis using e assms no_cooldowns_core [OF e(2)] limited_sorted by blast
qed

section \<open>ZRAM under high pressure\<close>

definition zram_binary :: "system_state \<Rightarrow> bool" where
  "zram_binary s \<longleftrightarrow> ss_zram_utilization s \<in> {None, Some (Fin 0), Some (Fin 1)}"

lemma absorb_tier_binary:
  assumes "zram_binary s" "ti_kind t = KZram \<Longrightarrow> utilization t \<in> {Fin 0, Fin 1}"
  shows "zram_binary (absorb_tier s t)"
  using assms by (auto simp: zram_binary_def absorb_tier_def split: tier_kind.split)

lemma foldl_absorb_binary:
  "zram_binary s \<Longrightarrow> (\<And>t. t \<in> set ts \<Longrightarrow> ti_kind t = KZram \<Longrightarrow> utilization t \<in> {Fin 0, Fin 1}) \<Longrightarrow> zram_binary (foldl absorb_tier s ts)"
  by (induction ts arbitrary: s) (simp_all add: absorb_tier_binary)

lemma absorb_inventory_binary:
  assumes "inv_ok iv" shows "zram_binary (absorb_psi mem io (absorb_tiers (tiers iv)))"
proof -
  have "utilization t \<in> {Fin 0, Fin 1}" if "t \<in> set (map snd (bt_entries (tiers iv)))" "ti_kind t = KZram" for t
  proof -
    from that(1) obtain i where "fmlookup (tiers iv) i = Some t" by (auto simp: in_bt_entries)
    with assms have "tier_ok i t" by (auto simp: inv_ok_def)
    with that(2) have "i = GpuVram" "ti_used t = ti_total t" by (cases i; simp add: tier_ok_def)+
    then show ?thesis using utilization_full [of t] by simp
  qed
  then have "zram_binary (absorb_tiers (tiers iv))"
    unfolding absorb_tiers_def by (intro foldl_absorb_binary) (auto simp: zram_binary_def idle_state_def)
  then show ?thesis by (simp add: zram_binary_def absorb_psi_def Let_def split: sum.split)
qed

lemma runtime_has_no_hotness: "hotness_recs hash ru (absorb_psi mem io (absorb_tiers m)) = []"
proof -
  have "ss_hotness_summary (absorb_tier s t) = ss_hotness_summary s" for s t by (simp add: absorb_tier_def split: tier_kind.split)
  then have "ss_hotness_summary (foldl absorb_tier s ts) = ss_hotness_summary s" for s ts by (induction ts arbitrary: s) simp_all
  then show ?thesis
    by (simp add: hotness_recs_def absorb_psi_def absorb_tiers_def idle_state_def Let_def split: sum.split)
qed

text \<open>
  Composition of the tier inventory with the policy: in an inventory that discoveries and
  refreshes lead to, and with a ZRAM threshold of at most one, high pressure leads to a
  recommendation to move chunks to ZRAM only while the ZRAM tier holds no compressed data.
\<close>

theorem high_pressure_zram_empty:
  assumes "iv = inv_run prof xs (inventory_new r)" "st = absorb_psi mem io (absorb_tiers (tiers iv))"
    and "fle (zram_high_threshold ru) (Fin 1)" "linux_pressure_level st = LpHigh"
    and "MoveToZram c m f fa \<in> set (rules_evaluate hash ru st)"
  shows "ss_zram_utilization st = Some (Fin 0)"
proof -
  have "zram_binary st" using absorb_inventory_binary [OF inv_run_ok [OF inv_ok_new]] assms(1,2) by simp
  moreover have "zram_has_room ru st"
    using assms(4,5) runtime_has_no_hotness [of hash ru mem io "tiers iv"] assms(2)
    by (auto simp: rules_evaluate_def merge_recommendations_def evaluate_pressure_def evaluate_high_def Let_def split: if_splits)
  ultimately show ?thesis
    using assms(3) by (auto simp: zram_binary_def zram_has_room_def flt_def)
qed

section \<open>Examples\<close>

lemma rnd_three_quarters [simp]: "rnd binary64 (3 / 4) = Fin (3 / 4)" "rnd binary32 (3 / 4) = Fin (3 / 4)"
proof -
  have "rnd fm (3 / 4) = Fin (3 / 4)" if "fm \<in> {binary32, binary64}" for fm
  proof (rule rnd_exact)
    show "representable fm (3 / 4)" unfolding representable_def
      using that by (rule_tac exI [of _ 3], rule_tac exI [of _ "- 2"]) (auto simp: binary32_def binary64_def power_int_def power_one_over)
    show "\<bar>3 / 4\<bar> \<le> max_fin fm" using max_fin_ge_1 [of fm] that by auto
  qed
  then show "rnd binary64 (3 / 4) = Fin (3 / 4)" "rnd binary32 (3 / 4) = Fin (3 / 4)" by simp_all
qed

lemma f32_zram_threshold: "f32_lit (4 / 5) = Fin (13421773 / 16777216)"
  unfolding f32_lit_def by (subst rnd_eval [where k = "-1" and e = "-24" and m = 13421773]) (simp_all add: f32_eval)

lemma rnd64_ten [simp]: "f64_lit 10 = Fin 10"
proof -
  have "representable binary64 (rat_of_int 10)" by (intro representable_int) (simp, simp add: binary64_def)
  then show ?thesis unfolding f64_lit_def by (intro rnd_exact) (simp_all add: max_fin_def binary64_def)
qed

definition pressed :: psi_sample where
  "pressed = \<lparr>psi_resource_of = PsiMemory, avg10 = Fin (15 / 2), avg60 = Fin 0, avg300 = Fin 0, psi_total = 0, psi_timestamp = 1\<rparr>"

lemma pressed_pressure: "psi_pressure pressed = Fin (3 / 4)"
  by (simp add: psi_pressure_def pressed_def fmin_def fmax_def)

theorem policy_evaluate_sound_witness:
  "\<exists>rs p'. policy_evaluate (\<lambda>_. []) (\<lambda>_. ReadFailed True []) (policy_new (inventory_new quiet_runtime)) = (Ok rs, p') \<and> length rs \<le> 10"
  using policy_evaluate_sound [of "policy_new (inventory_new quiet_runtime)" "\<lambda>_. []" "\<lambda>_. ReadFailed True []"]
  by (auto simp: no_cooldowns_def policy_new_def policy_with_rules_def policy_with_stability_def cooldowns_new_def stability_config_default_def)

lemma zram_tiers_state: "absorb_tiers zram_tiers = idle_state\<lparr>ss_zram_utilization := Some (Fin 0)\<rparr>"
proof -
  have "bt_keys zram_tiers = [Ram, GpuVram, Simulation]"
    by (simp add: zram_tiers_def bt_keys_upd less_eq_tier_id_def)
  then show ?thesis
    by (simp add: absorb_tiers_def bt_entries_def zram_tiers_def absorb_tier_def tier_info_new_def utilization_def idle_state_def pressure_new_def)
qed

lemma high_state: "linux_pressure_level (absorb_psi (Inr pressed) (Inl OutOfMemory) (absorb_tiers zram_tiers)) = LpHigh"
  by (simp add: zram_tiers_state absorb_psi_def pressed_pressure linux_pressure_level_def linux_max_pressure_def idle_state_def pressure_new_def fmax_def)

lemma high_moves: "\<exists>c m f fa. MoveToZram c m f fa \<in> set (rules_evaluate (\<lambda>_. []) policy_rules_default (absorb_psi (Inr pressed) (Inl OutOfMemory) (absorb_tiers zram_tiers)))"
proof -
  let ?st = "absorb_psi (Inr pressed) (Inl OutOfMemory) (absorb_tiers zram_tiers)"
  have "ss_zram_utilization ?st = Some (Fin 0)" "ss_hotness_summary ?st = None" by (simp_all add: zram_tiers_state absorb_psi_def idle_state_def)
  moreover have "zram_high_threshold policy_rules_default = Fin (13421773 / 16777216)" by (simp add: policy_rules_default_def f32_zram_threshold)
  ultimately show ?thesis using high_state
    by (simp add: no_hotness evaluate_pressure_def evaluate_high_def zram_has_room_def Let_def)
qed

theorem high_pressure_zram_empty_witness:
  "ss_zram_utilization (absorb_psi (Inr pressed) (Inl OutOfMemory) (absorb_tiers zram_tiers)) = Some (Fin 0)"
proof -
  obtain c m f fa where mv: "MoveToZram c m f fa \<in> set (rules_evaluate (\<lambda>_. []) policy_rules_default (absorb_psi (Inr pressed) (Inl OutOfMemory) (absorb_tiers zram_tiers)))"
    using high_moves by blast
  have thr: "fle (zram_high_threshold policy_rules_default) (Fin 1)" by (simp add: policy_rules_default_def f32_zram_threshold)
  show ?thesis by (rule high_pressure_zram_empty [OF empty_zram_def _ thr high_state mv]) (simp add: empty_zram_tiers)
qed

end
