(* ===== verification/Damon.thy ===== *)
theory Damon
  imports Linux_Env Hotness_Sampling
begin

text \<open>
  \<^verbatim>\<open>ghost-linux/src/damon.rs\<close> and \<^verbatim>\<open>hotness_provider.rs\<close>: the hotness providers. The kernel's regions are read from
  files; the simulated provider draws from a linear congruential generator, the mock from the
  generator of the \<^verbatim>\<open>rand\<close> crate. Each provider calls the asynchronous \<^verbatim>\<open>hotness_sampled\<close> and drops the future it
  returns, which runs nothing. The main facts: regions are read back as printed and no
  sample is ever announced.
\<close>

section \<open>Regions of the kernel\<close>

record damon_config =
  sysfs_path :: string
  nr_regions_max :: nat
  hot_threshold :: u64
  cold_threshold :: u64
  frozen_threshold :: u64
  sampling_interval_ms :: u64
  update_interval_ms :: u64

definition damon_config_default :: damon_config where
  "damon_config_default = \<lparr>sysfs_path = ''/sys/kernel/mm/damon/admin'', nr_regions_max = 1024, hot_threshold = 100, cold_threshold = 20,
     frozen_threshold = 1, sampling_interval_ms = 1000, update_interval_ms = 1000\<rparr>"

record damon_region =
  dr_start :: u64
  dr_end :: u64
  nr_accesses :: u64
  dr_age :: u64

definition parse_failure :: "string \<Rightarrow> parse_int_error \<Rightarrow> ghost_error" where
  "parse_failure what e = Internal [Lit what, Lit (parse_int_error_display e)]"

definition parse_address :: "string \<Rightarrow> u64 ghost_result" where
  "parse_address s = (if starts_with ''0x'' s \<or> starts_with ''0X'' s
     then (case from_str_radix 16 (2 ^ 64) (drop 2 s) of Ok n \<Rightarrow> Ok (of_nat n)
             | Err e \<Rightarrow> Err (parse_failure (''Failed to parse hex address '' @ [CHR 0x27] @ s @ [CHR 0x27] @ '': '') e) | Panic \<Rightarrow> Panic)
     else (case parse_u64 s of Ok v \<Rightarrow> Ok v
             | Err e \<Rightarrow> Err (parse_failure (''Failed to parse decimal address '' @ [CHR 0x27] @ s @ [CHR 0x27] @ '': '') e) | Panic \<Rightarrow> Panic))"

definition parse_count :: "string \<Rightarrow> string \<Rightarrow> u64 ghost_result" where
  "parse_count what s = map_err (parse_failure what) (parse_u64 s)"

definition parse_region :: "string \<Rightarrow> damon_region ghost_result" where
  "parse_region content = (let parts = split_whitespace (trim content) in
     if length parts < 4 then Err (Internal [Lit ''Invalid DAMON region format: expected 4 fields, got '', FmtNat (length parts)])
     else outcome_bind (parse_address (parts ! 0)) (\<lambda>s. outcome_bind (parse_address (parts ! 1)) (\<lambda>e.
       outcome_bind (parse_count ''Failed to parse DAMON region nr_accesses: '' (parts ! 2)) (\<lambda>n.
       outcome_bind (parse_count ''Failed to parse DAMON region age: '' (parts ! 3)) (\<lambda>a.
       Ok \<lparr>dr_start = s, dr_end = e, nr_accesses = n, dr_age = a\<rparr>)))))"

definition read_damon_file :: "file_system \<Rightarrow> string \<Rightarrow> message \<Rightarrow> string ghost_result" where
  "read_damon_file fs path what = (case fs path of Contents c \<Rightarrow> Ok c | ReadFailed _ m \<Rightarrow> Err (Io (what @ m)))"

fun read_each :: "file_system \<Rightarrow> string \<Rightarrow> nat list \<Rightarrow> damon_region list ghost_result" where
  "read_each fs dir [] = Ok []"
| "read_each fs dir (i # is) =
     outcome_bind (read_damon_file fs (dir @ ''/'' @ decimal i) [Lit ''Failed to read DAMON region '', FmtNat i, Lit '': '']) (\<lambda>c.
     outcome_bind (parse_region c) (\<lambda>r. outcome_bind (read_each fs dir is) (\<lambda>rs. Ok (r # rs))))"

definition read_regions :: "file_system \<Rightarrow> damon_config \<Rightarrow> damon_region list ghost_result" where
  "read_regions fs cfg =
     outcome_bind (read_damon_file fs (sysfs_path cfg @ ''/nr_regions'') [Lit ''Failed to read DAMON nr_regions: '']) (\<lambda>c.
     outcome_bind (parse_count ''Failed to parse DAMON nr_regions: '' (trim c)) (\<lambda>n.
     read_each fs (sysfs_path cfg @ ''/regions'') [0..<min (unat n) (nr_regions_max cfg)]))"

definition classify_temperature :: "u64 \<Rightarrow> u64 \<Rightarrow> u64 \<Rightarrow> u64 \<Rightarrow> temperature" where
  "classify_temperature n hot cold frozen = (if hot \<le> n then Hot else if cold \<le> n then Warm else if frozen \<le> n then Cold else Frozen)"

definition region_sample :: "damon_config \<Rightarrow> damon_region \<Rightarrow> hotness_sample" where
  "region_sample cfg r = \<lparr>sample_range = \<lparr>range_start = dr_start r, range_end = dr_end r\<rparr>, sample_count = nr_accesses r,
     sample_temperature = classify_temperature (nr_accesses r) (hot_threshold cfg) (cold_threshold cfg) (frozen_threshold cfg)\<rparr>"

definition damon_to_snapshot :: "damon_config \<Rightarrow> damon_region list \<Rightarrow> hotness_snapshot rt" where
  "damon_to_snapshot cfg rs = bind_act now_secs (\<lambda>ts. ret \<lparr>samples = map (region_sample cfg) rs, snapshot_time = ts\<rparr>)"

text \<open>The directory of the kernel is there or not, an argument; the dropped future of the event runs nothing.\<close>

definition damon_sample :: "file_system \<Rightarrow> bool \<Rightarrow> damon_config \<Rightarrow> hotness_snapshot rt" where
  "damon_sample fs available cfg = (if \<not> available then fail (ProviderUnavailable [Lit ''DAMON not available''])
     else bind_act (lift_outcome (read_regions fs cfg)) (damon_to_snapshot cfg))"

section \<open>The simulated provider\<close>

definition lcg :: "u64 \<Rightarrow> u64" where
  "lcg s = s * 6364136223846793005 + 1442695040888963407"

definition sim_region :: "profile \<Rightarrow> nat \<Rightarrow> u64 \<Rightarrow> damon_region ghost_result" where
  "sim_region pr i s =
     outcome_bind (mul_pr pr (of_nat i) 0x10000) (\<lambda>off.
     outcome_bind (add_pr pr 0x7f0000000000 off) (\<lambda>base.
     outcome_bind (add_pr pr base 0x10000) (\<lambda>top.
     outcome_bind (add_pr pr (drop_bit 48 s mod 10000) 1) (\<lambda>age.
     Ok \<lparr>dr_start = base, dr_end = top, nr_accesses = drop_bit 32 s mod 200, dr_age = age\<rparr>))))"

fun generate_from :: "profile \<Rightarrow> nat list \<Rightarrow> u64 \<Rightarrow> damon_region list ghost_result" where
  "generate_from pr [] s = Ok []"
| "generate_from pr (i # is) s = outcome_bind (sim_region pr i (lcg s)) (\<lambda>r.
     outcome_bind (generate_from pr is (lcg s)) (\<lambda>rs. Ok (r # rs)))"

definition generate_regions :: "profile \<Rightarrow> u64 \<Rightarrow> nat \<Rightarrow> damon_region list ghost_result" where
  "generate_regions pr seed n = generate_from pr [0..<n] seed"

definition sim_damon_sample :: "profile \<Rightarrow> damon_config \<Rightarrow> u64 \<Rightarrow> nat \<Rightarrow> hotness_snapshot rt" where
  "sim_damon_sample pr cfg seed n = bind_act (lift_outcome (generate_regions pr seed n)) (damon_to_snapshot cfg)"

section \<open>The mock provider\<close>

record mock_config =
  num_ranges :: nat
  mock_seed :: u64
  base_access_count :: u64
  hot_probability :: f32

definition mock_config_default :: mock_config where
  "mock_config_default = \<lparr>num_ranges = 16, mock_seed = 42, base_access_count = 1, hot_probability = f32_lit (25 / 100)\<rparr>"

definition generate_address_range :: "profile \<Rightarrow> nat \<Rightarrow> address_range ghost_result" where
  "generate_address_range pr i =
     outcome_bind (mul_pr pr (of_nat i) 0x1000) (\<lambda>off.
     outcome_bind (add_pr pr 0x7f0000000000 off) (\<lambda>base.
     outcome_bind (add_pr pr base 0x1000) (\<lambda>top. Ok \<lparr>range_start = base, range_end = top\<rparr>)))"

text \<open>The generator lives across samples: sample number \<open>k\<close> takes the draws from \<open>k\<close> times the number of ranges on.\<close>

definition mock_region :: "profile \<Rightarrow> mock_config \<Rightarrow> rng \<Rightarrow> nat \<Rightarrow> nat \<Rightarrow> hotness_sample ghost_result" where
  "mock_region pr cfg g k i =
     outcome_bind (generate_address_range pr i) (\<lambda>r.
     outcome_bind (gen_range g (k * num_ranges cfg + i) 0 200) (\<lambda>d.
     outcome_bind (add_pr pr (base_access_count cfg) (word_of_int d)) (\<lambda>n.
     Ok \<lparr>sample_range = r, sample_count = n, sample_temperature = from_access_count n\<rparr>)))"

fun mock_regions :: "profile \<Rightarrow> mock_config \<Rightarrow> rng \<Rightarrow> nat \<Rightarrow> nat list \<Rightarrow> hotness_sample list ghost_result" where
  "mock_regions pr cfg g k [] = Ok []"
| "mock_regions pr cfg g k (i # is) = outcome_bind (mock_region pr cfg g k i) (\<lambda>x. outcome_bind (mock_regions pr cfg g k is) (\<lambda>xs. Ok (x # xs)))"

definition mock_sample :: "profile \<Rightarrow> mock_config \<Rightarrow> (u64 \<Rightarrow> rng) \<Rightarrow> nat \<Rightarrow> hotness_snapshot rt" where
  "mock_sample pr cfg seeded k = bind_act now_secs (\<lambda>ts.
     bind_act (lift_outcome (mock_regions pr cfg (seeded (mock_seed cfg)) k [0..<num_ranges cfg])) (\<lambda>xs.
     ret \<lparr>samples = xs, snapshot_time = ts\<rparr>))"

record hotness_metrics =
  samples_total :: u64
  hot_regions :: u64
  cold_regions :: u64

definition hotness_metrics_new :: hotness_metrics where
  "hotness_metrics_new = \<lparr>samples_total = 0, hot_regions = 0, cold_regions = 0\<rparr>"

definition record_snapshot :: "hotness_snapshot \<Rightarrow> hotness_metrics \<Rightarrow> hotness_metrics" where
  "record_snapshot snap m = \<lparr>samples_total = samples_total m + 1, hot_regions = of_nat (count_temp Hot (samples snap)),
     cold_regions = of_nat (count_temp Cold (samples snap) + count_temp Frozen (samples snap))\<rparr>"

section \<open>Facts\<close>

text \<open>With the default thresholds the kernel's regions are classified like all other counts.\<close>

lemma default_classification:
  "classify_temperature n (hot_threshold damon_config_default) (cold_threshold damon_config_default) (frozen_threshold damon_config_default)
   = from_access_count n"
  by (simp add: classify_temperature_def damon_config_default_def from_access_count_def)

definition region_line :: "damon_region \<Rightarrow> string" where
  "region_line r = decimal (unat (dr_start r)) @ '' '' @ decimal (unat (dr_end r)) @ '' '' @ decimal (unat (nr_accesses r)) @ '' '' @ decimal (unat (dr_age r))"

lemma decimal_not_hex: "\<not> starts_with (CHR ''0'' # c # []) (decimal n) \<or> is_digit c"
proof -
  have "c \<in> set (decimal n)" if "starts_with [CHR ''0'', c] (decimal n)"
    using that by (metis in_set_takeD list.set_intros(1) list.set_intros(2) starts_with_def)
  then show ?thesis using decimal_chars [of n] by (auto simp: list_all_iff)
qed

lemma parse_address_decimal: "parse_address (decimal (unat v)) = Ok v"
proof -
  have "\<not> is_digit (CHR ''x'')" "\<not> is_digit (CHR ''X'')" by (simp_all add: is_digit_def to_digit_def)
  then have "\<not> starts_with ''0x'' (decimal (unat v))" "\<not> starts_with ''0X'' (decimal (unat v))" using decimal_not_hex by blast+
  then show ?thesis by (simp add: parse_address_def)
qed

theorem region_roundtrip: "parse_region (region_line r) = Ok r"
proof -
  have "split_whitespace (region_line r) =
      [decimal (unat (dr_start r)), decimal (unat (dr_end r)), decimal (unat (nr_accesses r)), decimal (unat (dr_age r))]"
    by (simp add: region_line_def split_whitespace_sep split_whitespace_end)
  then show ?thesis by (simp add: parse_region_def parse_address_decimal parse_count_def)
qed

lemma keeps_snapshot [keeps_rules]: "keeps rt_emitter (damon_to_snapshot cfg rs)"
  unfolding damon_to_snapshot_def by (intro keeps_rules) (simp add: keeps_def now_secs_def tick_def)

text \<open>A sample announces nothing: the channel is as it was, whatever the provider returns.\<close>

theorem samples_silent:
  "rt_emitter (snd (damon_sample fs available cfg s)) = rt_emitter s \<and> rt_emitter (snd (sim_damon_sample pr cfg seed n s)) = rt_emitter s"
proof -
  have "keeps rt_emitter (damon_sample fs available cfg)" "keeps rt_emitter (sim_damon_sample pr cfg seed n)"
    unfolding damon_sample_def sim_damon_sample_def by (intro keeps_rules)+
  then show ?thesis by (simp add: keeps_def)
qed

end
