(* ===== verification/Linux_Record.thy ===== *)
theory Linux_Record
  imports Policy_Runtime
begin

text \<open>
  \<^verbatim>\<open>ghost-linux/src\<close>: \<^verbatim>\<open>recorder.rs\<close>, \<^verbatim>\<open>replayer.rs\<close> and \<^verbatim>\<open>scanner.rs\<close>. A recording is a header, length-prefixed records and
  an end marker; opening and writing the file do not fail. The \<^verbatim>\<open>bincode\<close> format of a record is a pair of
  arguments \<open>ser\<close> and \<open>de\<close>, and the \<^verbatim>\<open>serde_json\<close> text of a snapshot an argument \<open>json\<close>. The loop that loads a
  recording is a partial function, which is shown to return on every file. The main facts: a recording is loaded back, the
  comparison of two replays is exact, and the policy of a scanner never sees the tiers it discovers.
\<close>

section \<open>Recording\<close>

definition MAGIC_HEADER :: bytes where
  "MAGIC_HEADER = map of_char ''GREC''"

definition MAGIC_END :: bytes where
  "MAGIC_END = map of_char ''GEND''"

definition RECORD_FORMAT_VERSION :: u8 where
  "RECORD_FORMAT_VERSION = 1"

record linux_snapshot =
  ls_timestamp :: u64
  ls_psi :: "psi_sample list option"
  ls_meminfo :: "meminfo_snapshot option"
  ls_vmstat :: "vmstat_snapshot option"
  ls_swap :: "swap_topology option"
  ls_zram :: "zram_snapshot option"
  ls_tiers :: "tier_info list option"
  ls_recommendations :: "message list"

definition to_event_record :: "(linux_snapshot \<Rightarrow> message) \<Rightarrow> u64 \<Rightarrow> linux_snapshot \<Rightarrow> event_record" where
  "to_event_record json seq sn = \<lparr>rec_sequence_id = seq, rec_timestamp = ls_timestamp sn,
     rec_event = EvPolicyRecommendationGenerated seq [json sn] [Lit ''snapshot'']\<rparr>"

record linux_recorder =
  lr_file :: bytes
  lr_sequence :: u64

definition recorder_new :: "u64 \<Rightarrow> linux_recorder" where
  "recorder_new ts = \<lparr>lr_file = MAGIC_HEADER @ [RECORD_FORMAT_VERSION] @ to_le 8 ts, lr_sequence = 1\<rparr>"

definition recorder_write :: "(event_record \<Rightarrow> message + bytes) \<Rightarrow> event_record \<Rightarrow> (linux_recorder, unit, ghost_error) act" where
  "recorder_write ser r s = (case ser r of
       Inl e \<Rightarrow> (Err (Internal (Lit ''failed to serialize event record: '' # e)), s)
     | Inr bs \<Rightarrow> (Ok (), s\<lparr>lr_file := lr_file s @ to_le 4 (of_nat (length bs) :: u32) @ bs\<rparr>))"

definition next_sequence :: "(linux_recorder, u64, ghost_error) act" where
  "next_sequence s = (Ok (lr_sequence s), s\<lparr>lr_sequence := lr_sequence s + 1\<rparr>)"

definition recorder_record :: "(event_record \<Rightarrow> message + bytes) \<Rightarrow> event_record \<Rightarrow> (linux_recorder, unit, ghost_error) act" where
  "recorder_record ser r = bind_act next_sequence (\<lambda>seq. recorder_write ser (r\<lparr>rec_sequence_id := seq\<rparr>))"

definition record_scan :: "(event_record \<Rightarrow> message + bytes) \<Rightarrow> (linux_snapshot \<Rightarrow> message) \<Rightarrow> linux_snapshot \<Rightarrow> (linux_recorder, unit, ghost_error) act" where
  "record_scan ser json sn = bind_act next_sequence (\<lambda>seq. recorder_write ser (to_event_record json seq sn))"

definition recorder_close :: "linux_recorder \<Rightarrow> bytes" where
  "recorder_close s = lr_file s @ MAGIC_END"

section \<open>Loading\<close>

record linux_replayer =
  rp_reader :: bytes
  rp_events :: "event_record list"
  rp_index :: u64

definition replayer_new :: "bytes \<Rightarrow> linux_replayer" where
  "replayer_new file = \<lparr>rp_reader = file, rp_events = [], rp_index = 0\<rparr>"

text \<open>The loop over the records: what is left to read and what was read so far; \<open>None\<close> if it does not return.\<close>

partial_function (option) load_loop ::
  "(bytes \<Rightarrow> message + event_record) \<Rightarrow> bytes \<Rightarrow> event_record list \<Rightarrow> (unit ghost_result \<times> bytes \<times> event_record list) option" where
  "load_loop de bs evs =
     (if length bs < 4 then Some (Ok (), [], evs)
      else if take 4 bs = MAGIC_END then Some (Ok (), drop 4 bs, evs)
      else let len = unat (from_le (take 4 bs) :: u32); rest = drop 4 bs in
        if length rest < len then Some (Err eof, [], evs)
        else case de (take len rest) of
            Inl e \<Rightarrow> Some (Err (Internal ([Lit ''failed to deserialize event at offset '', FmtNat (length evs), Lit '': ''] @ e)), drop len rest, evs)
          | Inr r \<Rightarrow> load_loop de (drop len rest) (evs @ [r]))"

definition magic_error :: "bytes \<Rightarrow> ghost_error" where
  "magic_error got = Internal ([Lit ''invalid header magic: expected ''] @ map (\<lambda>b. FmtNat (unat b)) MAGIC_HEADER @ [Lit '', got ''] @ map (\<lambda>b. FmtNat (unat b)) got)"

definition load :: "(bytes \<Rightarrow> message + event_record) \<Rightarrow> linux_replayer \<Rightarrow> (unit ghost_result \<times> linux_replayer) option" where
  "load de s = (case read_exact 4 (rp_reader s) of
       (Err e, b) \<Rightarrow> Some (Err (Internal (Lit ''failed to read header magic: '' # ghost_error_display e @ [Lit '' (file may be empty or corrupted)''])), s\<lparr>rp_reader := b\<rparr>)
     | (Panic, b) \<Rightarrow> Some (Panic, s\<lparr>rp_reader := b\<rparr>)
     | (Ok header, b1) \<Rightarrow>
         if header \<noteq> MAGIC_HEADER then Some (Err (magic_error header), s\<lparr>rp_reader := b1\<rparr>)
         else case read_exact 1 b1 of
             (Err e, b) \<Rightarrow> Some (Err e, s\<lparr>rp_reader := b\<rparr>)
           | (Panic, b) \<Rightarrow> Some (Panic, s\<lparr>rp_reader := b\<rparr>)
           | (Ok v, b2) \<Rightarrow>
               if v \<noteq> [RECORD_FORMAT_VERSION] then Some (Err (Internal [Lit ''unsupported format version: '', FmtNat (unat (hd v)), Lit '' (expected '',
                 FmtNat (unat RECORD_FORMAT_VERSION), Lit '')'']), s\<lparr>rp_reader := b2\<rparr>)
               else case read_exact 8 b2 of
                   (Err e, b) \<Rightarrow> Some (Err e, s\<lparr>rp_reader := b\<rparr>)
                 | (Panic, b) \<Rightarrow> Some (Panic, s\<lparr>rp_reader := b\<rparr>)
                 | (Ok _, b3) \<Rightarrow> map_option (\<lambda>(r, b, evs). (r, s\<lparr>rp_reader := b, rp_events := evs\<rparr>)) (load_loop de b3 (rp_events s)))"

definition replayer_next :: "linux_replayer \<Rightarrow> event_record option \<times> linux_replayer" where
  "replayer_next s = (if unat (rp_index s) < length (rp_events s)
     then (Some (rp_events s ! unat (rp_index s)), s\<lparr>rp_index := rp_index s + 1\<rparr>) else (None, s))"

definition replayer_reset :: "linux_replayer \<Rightarrow> linux_replayer" where
  "replayer_reset s = s\<lparr>rp_index := 0\<rparr>"

definition replayer_event_count :: "linux_replayer \<Rightarrow> nat" where
  "replayer_event_count s = length (rp_events s)"

section \<open>Comparing two replays\<close>

record replay_verification =
  events_match :: bool
  ordering_match :: bool
  recommendation_match :: bool
  divergence_point :: "nat option"

definition verification_passed :: "replay_verification \<Rightarrow> bool" where
  "verification_passed v \<longleftrightarrow> events_match v \<and> ordering_match v \<and> recommendation_match v"

definition all_same :: "('a \<Rightarrow> 'b) \<Rightarrow> 'a list \<Rightarrow> 'a list \<Rightarrow> bool" where
  "all_same f xs ys \<longleftrightarrow> length xs = length ys \<and> list_all (\<lambda>(a, b). f a = f b) (zip xs ys)"

fun is_recommendation :: "event \<Rightarrow> bool" where
  "is_recommendation (EvPolicyRecommendationGenerated _ _ _) = True"
| "is_recommendation _ = False"

fun right_value :: "'a + 'b \<Rightarrow> 'b option" where
  "right_value (Inr b) = Some b"
| "right_value (Inl a) = None"

definition verify_against ::
  "(event_record \<Rightarrow> message + bytes) \<Rightarrow> (event \<Rightarrow> message + bytes) \<Rightarrow> event_record list \<Rightarrow> event_record list \<Rightarrow> replay_verification" where
  "verify_against ser ser_event xs ys =
     (let bx = List.map_filter (right_value \<circ> ser) xs; by = List.map_filter (right_value \<circ> ser) ys;
          em = all_same id bx by; om = all_same rec_sequence_id xs ys;
          rm = all_same (right_value \<circ> ser_event \<circ> rec_event) (filter (is_recommendation \<circ> rec_event) xs) (filter (is_recommendation \<circ> rec_event) ys)
      in \<lparr>events_match = em, ordering_match = om, recommendation_match = rm,
          divergence_point = (if \<not> em then position (\<lambda>(a, b). a \<noteq> b) (zip bx by)
            else if \<not> om then position (\<lambda>(a, b). rec_sequence_id a \<noteq> rec_sequence_id b) (zip xs ys) else None)\<rparr>)"

section \<open>Scanning\<close>

text \<open>
  The scanner holds an inventory of its own and a policy runtime with another inventory, which no
  operation of the scanner discovers; the clock and the event channel are shared by both.
\<close>

record system_scanner =
  sc_seed :: u64
  sc_tiers :: "(tier_id, tier_info) btree"
  sc_policy :: policy_runtime
  sc_rt :: runtime

type_synonym 'a scan_act = "(system_scanner, 'a, ghost_error) act"

definition scanner_new :: "runtime \<Rightarrow> u64 \<Rightarrow> system_scanner" where
  "scanner_new r seed = \<lparr>sc_seed = seed, sc_tiers = fmempty, sc_policy = policy_new (inventory_new r), sc_rt = r\<rparr>"

definition scanner_new_real :: "runtime \<Rightarrow> system_scanner" where
  "scanner_new_real r = scanner_new r 0"

definition on_scan_rt :: "'a rt \<Rightarrow> 'a scan_act" where
  "on_scan_rt = on_part sc_rt (\<lambda>r s. s\<lparr>sc_rt := r\<rparr>)"

definition on_scan_inventory :: "'a inv_act \<Rightarrow> 'a scan_act" where
  "on_scan_inventory = on_part (\<lambda>s. \<lparr>tiers = sc_tiers s, inv_rt = sc_rt s\<rparr>) (\<lambda>i s. s\<lparr>sc_tiers := tiers i, sc_rt := inv_rt i\<rparr>)"

definition on_scan_policy :: "(policy_runtime, 'a, ghost_error) act \<Rightarrow> 'a scan_act" where
  "on_scan_policy = on_part (\<lambda>s. (sc_policy s)\<lparr>pr_inventory := (pr_inventory (sc_policy s))\<lparr>inv_rt := sc_rt s\<rparr>\<rparr>)
     (\<lambda>p s. s\<lparr>sc_policy := p, sc_rt := inv_rt (pr_inventory p)\<rparr>)"

fun right_values :: "('a + 'b) list \<Rightarrow> 'b list" where
  "right_values [] = []"
| "right_values (Inr b # xs) = b # right_values xs"
| "right_values (Inl a # xs) = right_values xs"

definition some_unless_empty :: "'a list \<Rightarrow> 'a list option" where
  "some_unless_empty xs = (if xs = [] then None else Some xs)"

text \<open>The simulated readers, none of them with a simulation file.\<close>

definition scanner_scan :: "profile \<Rightarrow> (u64 \<Rightarrow> rng) \<Rightarrow> (bytes \<Rightarrow> bytes) \<Rightarrow> file_system \<Rightarrow> dir_read \<Rightarrow> linux_snapshot scan_act" where
  "scanner_scan prof seeded hash fs dir s0 = (let seed = sc_seed s0 in
     bind_act (on_scan_rt now_secs) (\<lambda>ts.
     bind_act (on_scan_rt (sim_psi_read_all prof seeded fs seed None)) (\<lambda>psis.
     bind_act (on_scan_rt (catch_act (sim_meminfo_read seeded fs seed None))) (\<lambda>mem.
     bind_act (on_scan_rt (catch_act (sim_vmstat_read seeded fs seed None))) (\<lambda>vm.
     bind_act (on_scan_rt (catch_act (sim_swap_read prof seeded fs seed None))) (\<lambda>sw.
     bind_act (on_scan_rt (catch_act (sim_zram_read prof seeded fs seed None))) (\<lambda>zr.
     bind_act (on_scan_inventory (discover prof fs dir)) (\<lambda>_ s.
     bind_act (catch_act (on_scan_policy (policy_evaluate hash fs))) (\<lambda>rs.
       ret \<lparr>ls_timestamp = ts, ls_psi = some_unless_empty (right_values psis), ls_meminfo = right_value mem, ls_vmstat = right_value vm,
         ls_swap = right_value sw, ls_zram = right_value zr, ls_tiers = some_unless_empty (map snd (bt_entries (sc_tiers s))),
         ls_recommendations = (case rs of Inr xs \<Rightarrow> map rec_display xs | Inl _ \<Rightarrow> [])\<rparr>) s))))))) s0)"

definition scan_and_record ::
  "profile \<Rightarrow> (u64 \<Rightarrow> rng) \<Rightarrow> (bytes \<Rightarrow> bytes) \<Rightarrow> file_system \<Rightarrow> dir_read \<Rightarrow> (event_record \<Rightarrow> message + bytes) \<Rightarrow> (linux_snapshot \<Rightarrow> message) \<Rightarrow>
    (system_scanner \<times> linux_recorder, linux_snapshot, ghost_error) act" where
  "scan_and_record prof seeded hash fs dir ser json =
     bind_act (on_part fst (\<lambda>a s. (a, snd s)) (scanner_scan prof seeded hash fs dir)) (\<lambda>sn.
     bind_act (on_part snd (\<lambda>b s. (fst s, b)) (record_scan ser json sn)) (\<lambda>_. ret sn))"

text \<open>One reading of the shutdown flag, and the files of the moment, per round; a failed scan is logged and skipped.\<close>

fun run_continuous :: "profile \<Rightarrow> (u64 \<Rightarrow> rng) \<Rightarrow> (bytes \<Rightarrow> bytes) \<Rightarrow> (bool \<times> file_system \<times> dir_read) list \<Rightarrow> unit scan_act" where
  "run_continuous prof seeded hash [] = ret ()"
| "run_continuous prof seeded hash ((shutdown, fs, dir) # rounds) = (if shutdown then ret ()
     else bind_act (catch_act (scanner_scan prof seeded hash fs dir)) (\<lambda>_. run_continuous prof seeded hash rounds))"

section \<open>Loading returns\<close>

lemma load_loop_returns: "\<exists>res. load_loop de bs evs = Some res"
proof (induction "length bs" arbitrary: bs evs rule: less_induct)
  case less
  let ?rest = "drop 4 bs"
  let ?len = "unat (from_le (take 4 bs) :: u32)"
  show ?case
  proof (cases "length bs < 4 \<or> take 4 bs = MAGIC_END \<or> length ?rest < ?len")
    case True
    then show ?thesis by (subst load_loop.simps) (auto simp: Let_def)
  next
    case False
    then have "length (drop ?len ?rest) < length bs" by (auto simp: not_less)
    note ih = less [OF this]
    from False ih show ?thesis
      by (subst load_loop.simps) (auto simp: Let_def simp del: drop_drop split: sum.split)
  qed
qed

text \<open>
  C29: The loop that loads a recording returns on every file, whatever its bytes are and whatever the
  decoder makes of them, and so does the load as a whole.
\<close>

theorem load_terminates: "\<exists>r s'. load de s = Some (r, s')"
proof -
  have "\<exists>r b ev. load_loop de bs evs = Some (r, b, ev)" for bs evs
    using load_loop_returns [of de bs evs] by (metis prod_cases3)
  then show ?thesis
    unfolding load_def by (auto split: prod.split outcome.split)
qed

section \<open>A recording is loaded back\<close>

fun recorder_run :: "(event_record \<Rightarrow> message + bytes) \<Rightarrow> event_record list \<Rightarrow> (linux_recorder, unit, ghost_error) act" where
  "recorder_run ser [] = ret ()"
| "recorder_run ser (r # rs) = bind_act (recorder_record ser r) (\<lambda>_. recorder_run ser rs)"

fun numbered :: "u64 \<Rightarrow> event_record list \<Rightarrow> event_record list" where
  "numbered n [] = []"
| "numbered n (r # rs) = r\<lparr>rec_sequence_id := n\<rparr> # numbered (n + 1) rs"

definition recordable :: "(event_record \<Rightarrow> message + bytes) \<Rightarrow> (bytes \<Rightarrow> message + event_record) \<Rightarrow> event_record \<Rightarrow> bool" where
  "recordable ser de r \<longleftrightarrow> (case ser r of Inl _ \<Rightarrow> False | Inr bs \<Rightarrow> de bs = Inr r \<and> length bs < 2 ^ 32 \<and> length bs \<noteq> 0x444E4547)"

definition framed :: "(event_record \<Rightarrow> message + bytes) \<Rightarrow> event_record \<Rightarrow> bytes" where
  "framed ser r = (case ser r of Inl _ \<Rightarrow> [] | Inr bs \<Rightarrow> to_le 4 (of_nat (length bs) :: u32) @ bs)"

lemma marker_value: "(from_le MAGIC_END :: u32) = 0x444E4547"
  by (simp add: from_le_def MAGIC_END_def)

lemma load_loop_framed:
  assumes "recordable ser de r"
  shows "load_loop de (framed ser r @ rest) evs = load_loop de rest (evs @ [r])"
proof -
  obtain bs where bs: "ser r = Inr bs" "de bs = Inr r" "length bs < 2 ^ 32" "length bs \<noteq> 0x444E4547"
    using assms by (auto simp: recordable_def split: sum.splits)
  let ?l = "to_le 4 (of_nat (length bs) :: u32)"
  have len: "unat (of_nat (length bs) :: u32) = length bs" using bs(3) by (simp add: unat_of_nat take_bit_nat_eq_self)
  have v: "(from_le ?l :: u32) = of_nat (length bs)" by (simp add: from_to_le)
  have "?l \<noteq> MAGIC_END"
  proof
    assume "?l = MAGIC_END"
    with v marker_value have "(of_nat (length bs) :: u32) = 0x444E4547" by simp
    then have "length bs = unat (0x444E4547 :: u32)" using len by metis
    with bs(4) show False by simp
  qed
  then show ?thesis using bs(1,2) v len by (subst load_loop.simps) (simp add: framed_def Let_def)
qed

lemma load_loop_records:
  "list_all (recordable ser de) rs \<Longrightarrow> load_loop de (concat (map (framed ser) rs) @ MAGIC_END) evs = Some (Ok (), [], evs @ rs)"
proof (induction rs arbitrary: evs)
  case Nil
  then show ?case by (subst load_loop.simps) (simp add: MAGIC_END_def)
next
  case (Cons r rs)
  then show ?case by (simp add: load_loop_framed)
qed

lemma recorder_run_file:
  "list_all (recordable ser de) (numbered (lr_sequence s) rs) \<Longrightarrow>
     \<exists>s'. recorder_run ser rs s = (Ok (), s') \<and> lr_file s' = lr_file s @ concat (map (framed ser) (numbered (lr_sequence s) rs))"
proof (induction rs arbitrary: s)
  case (Cons r rs)
  let ?r = "r\<lparr>rec_sequence_id := lr_sequence s\<rparr>"
  obtain bs where bs: "ser ?r = Inr bs" using Cons.prems by (auto simp: recordable_def split: sum.splits)
  let ?s = "s\<lparr>lr_file := lr_file s @ framed ser ?r, lr_sequence := lr_sequence s + 1\<rparr>"
  have "recorder_record ser r s = (Ok (), ?s)"
    using bs by (simp add: recorder_record_def bind_act_def next_sequence_def recorder_write_def framed_def)
  with Cons.IH [of ?s] Cons.prems show ?case by (auto simp: bind_act_def)
qed (simp add: ret_def)

text \<open>
  C30: Events recorded one after the other and closed are loaded back, in order and numbered from one,
  when their encodings are decoded again, fit the length field and none is as long as the end marker read as a length.
\<close>

theorem recording_roundtrip:
  assumes "list_all (recordable ser de) (numbered 1 rs)"
  shows "\<exists>s s'. recorder_run ser rs (recorder_new ts) = (Ok (), s)
    \<and> load de (replayer_new (recorder_close s)) = Some (Ok (), s') \<and> rp_events s' = numbered 1 rs"
proof -
  obtain s where s: "recorder_run ser rs (recorder_new ts) = (Ok (), s)"
    "lr_file s = MAGIC_HEADER @ [RECORD_FORMAT_VERSION] @ to_le 8 ts @ concat (map (framed ser) (numbered 1 rs))"
    using recorder_run_file [of ser de "recorder_new ts" rs] assms by (auto simp: recorder_new_def)
  have "length MAGIC_HEADER = 4" by (simp add: MAGIC_HEADER_def)
  then have "load de (replayer_new (recorder_close s)) = Some (Ok (), \<lparr>rp_reader = [], rp_events = numbered 1 rs, rp_index = 0\<rparr>)"
    using load_loop_records [OF assms, of "[]"] s(2)
    by (simp add: load_def replayer_new_def recorder_close_def read_exact_def)
  with s(1) show ?thesis by auto
qed

text \<open>A codec that writes a fixed record as one byte.\<close>

theorem recording_roundtrip_witness:
  "\<exists>s s'. recorder_run (\<lambda>_. Inr [7]) [\<lparr>rec_sequence_id = 9, rec_timestamp = 4, rec_event = EvPolicyRecommendationGenerated 2 [] []\<rparr>] (recorder_new 5) = (Ok (), s)
    \<and> load (\<lambda>_. Inr \<lparr>rec_sequence_id = 1, rec_timestamp = 4, rec_event = EvPolicyRecommendationGenerated 2 [] []\<rparr>) (replayer_new (recorder_close s)) = Some (Ok (), s')
    \<and> rp_events s' = [\<lparr>rec_sequence_id = 1, rec_timestamp = 4, rec_event = EvPolicyRecommendationGenerated 2 [] []\<rparr>]"
proof -
  let ?r = "\<lambda>n. \<lparr>rec_sequence_id = n, rec_timestamp = 4, rec_event = EvPolicyRecommendationGenerated 2 [] []\<rparr>"
  have "list_all (recordable (\<lambda>_. Inr [7]) (\<lambda>_. Inr (?r 1))) (numbered 1 [?r 9])" by (simp add: recordable_def)
  from recording_roundtrip [OF this, of 5] show ?thesis by simp
qed

section \<open>The comparison of two replays\<close>

definition codec_exact :: "('a \<Rightarrow> message + bytes) \<Rightarrow> bool" where
  "codec_exact ser \<longleftrightarrow> (\<forall>a. \<not> isl (ser a)) \<and> inj ser"

lemma map_filter_total: "\<forall>a. \<not> isl (ser a) \<Longrightarrow> List.map_filter (right_value \<circ> ser) xs = map (\<lambda>x. projr (ser x)) xs"
proof (induction xs)
  case (Cons x xs)
  then obtain b where "ser x = Inr b" by (metis sum.collapse(2))
  with Cons show ?case by (simp add: List.map_filter_simps)
qed (simp add: List.map_filter_simps)

lemma all_same_iff: "all_same f xs ys \<longleftrightarrow> map f xs = map f ys"
proof -
  have "all_same f xs ys \<longleftrightarrow> list_all2 (\<lambda>a b. f a = f b) xs ys" by (auto simp: all_same_def list_all2_iff list_all_iff)
  then show ?thesis by (simp add: list_all2_map1 list_all2_map2 flip: list.rel_eq)
qed

lemma projr_inj: "codec_exact ser \<Longrightarrow> inj (\<lambda>x. projr (ser x))"
  unfolding codec_exact_def inj_def by (metis sum.expand)

text \<open>
  The comparison of two recordings passes exactly when they are the same events, for an encoding
  that never fails and tells events apart.
\<close>

theorem verify_exact:
  assumes "codec_exact ser"
  shows "verification_passed (verify_against ser ser_event xs ys) \<longleftrightarrow> xs = ys"
proof -
  have "events_match (verify_against ser ser_event xs ys) \<longleftrightarrow> xs = ys"
    using assms inj_map_eq_map [OF projr_inj [OF assms]]
    by (simp add: verify_against_def Let_def all_same_iff map_filter_total codec_exact_def)
  then show ?thesis by (auto simp: verification_passed_def verify_against_def Let_def all_same_iff)
qed

text \<open>
  When one recording is a proper prefix of the other, the comparison fails but names no point of
  divergence: the positions are looked for in the zipped events only.
\<close>

lemma position_zip_prefix: "position (\<lambda>(a, b). a \<noteq> b) (zip xs (xs @ zs)) = None"
  by (induction xs) auto

theorem prefix_has_no_divergence:
  assumes "codec_exact ser" "zs \<noteq> []"
  shows "\<not> verification_passed (verify_against ser ser_event xs (xs @ zs)) \<and> divergence_point (verify_against ser ser_event xs (xs @ zs)) = None"
  using assms position_zip_prefix
  by (simp add: verification_passed_def verify_against_def Let_def all_same_iff map_filter_total codec_exact_def)

section \<open>The policy of a scanner\<close>

definition scanner_core :: "system_scanner \<Rightarrow> (tier_id, tier_info) btree \<times> policy_rules \<times> stability_config \<times> cooldown_tracker \<times> stability_checker" where
  "scanner_core s = policy_core (sc_policy s)"

lemma keeps_policy_evaluate: "keeps policy_core (policy_evaluate hash fs)"
proof -
  have "keeps policy_core (apply_cooldowns rs)" for rs
  proof (induction rs)
    case (Cons r rs)
    show ?case unfolding apply_cooldowns.simps Let_def
      by (rule keeps_bind, rule keeps_policy_rt, rule keeps_state, intro keeps_bind Cons.IH keeps_ret)
  qed (simp add: keeps_ret)
  then have filt: "keeps policy_core (filtered rs)" for rs
    unfolding filtered_def [abs_def] by - (rule keeps_state, intro keeps_bind keeps_ret)
  have "keeps policy_core (\<lambda>p. filtered (rules_evaluate hash (pr_rules p) st) p)" for st
    by (rule keeps_state) (rule filt)
  moreover have "keeps policy_core (update_act (\<lambda>p. p\<lparr>pr_last_evaluation := now\<rparr>))" for now
    by (simp add: keeps_def update_act_def policy_core_def)
  moreover have "keeps policy_core (build_system_state fs)"
    unfolding build_system_state_def [abs_def] by (rule keeps_state, intro keeps_bind keeps_policy_rt keeps_ret)
  ultimately show ?thesis
    unfolding policy_evaluate_def by (intro keeps_bind keeps_policy_rt keeps_ret)
qed

lemma keeps_scan_parts [keeps_rules]:
  "keeps scanner_core (on_scan_rt m)" "keeps scanner_core (on_scan_inventory m')"
  by (simp_all add: keeps_def scanner_core_def on_scan_rt_def on_scan_inventory_def on_part_def split: prod.split)

lemma keeps_scan_policy: "keeps policy_core q \<Longrightarrow> keeps scanner_core (on_scan_policy q)"
proof -
  assume q: "keeps policy_core q"
  have "policy_core (p\<lparr>pr_inventory := (pr_inventory p)\<lparr>inv_rt := r\<rparr>\<rparr>) = policy_core p" for p r by (simp add: policy_core_def)
  with keepsD [OF q] show ?thesis
    by (simp add: keeps_def scanner_core_def on_scan_policy_def on_part_def split_def)
qed

lemma keeps_scan: "keeps scanner_core (scanner_scan prof seeded hash fs dir)"
  unfolding scanner_scan_def [abs_def] Let_def
  by (rule keeps_state, intro keeps_bind keeps_scan_parts keeps_state [of _ "\<lambda>s. bind_act (catch_act _) (_ s)"] keeps_catch keeps_scan_policy keeps_policy_evaluate keeps_ret)

lemma keeps_run_continuous: "keeps scanner_core (run_continuous prof seeded hash rounds)"
proof (induction rounds)
  case (Cons x xs)
  then show ?case by (cases x) (auto intro!: keeps_rules keeps_scan)
qed (simp add: keeps_ret)

text \<open>The kinds of recommendation that need no tier of the inventory.\<close>

fun tierless :: "recommendation \<Rightarrow> bool" where
  "tierless (EvictCold _ _ _ _) = True"
| "tierless (MoveToDiskSwap _ _ _ _) = True"
| "tierless (NoAction _ _ _) = True"
| "tierless _ = False"

lemma blind_rules: "list_all tierless (rules_evaluate hash ru (absorb_psi mem io (absorb_tiers fmempty)))"
proof -
  have "absorb_tiers fmempty = idle_state" by (simp add: absorb_tiers_def bt_entries_def)
  then have "ss_zram_utilization (absorb_psi mem io (absorb_tiers fmempty)) = None"
    by (simp add: absorb_psi_def Let_def idle_state_def split: sum.split)
  then show ?thesis
    using runtime_has_no_hotness [of hash ru mem io fmempty]
    by (simp add: rules_evaluate_def merge_recommendations_def evaluate_pressure_def evaluate_critical_def evaluate_high_def
        zram_has_room_def Let_def split: linux_level.split)
qed

text \<open>
  After any scans of a new scanner, the policy that makes the recommendations of the next one still
  has an empty inventory: whatever tiers the scanner has discovered, nothing is promoted to DRAM, moved to ZRAM or
  demoted from it, also when memory pressure is critical.
\<close>

theorem scanner_policy_blind:
  assumes "run_continuous prof seeded hash rounds (scanner_new r seed) = (res, s)"
    "policy_evaluate hash fs (sc_policy s) = (Ok rs, p')"
  shows "tiers (pr_inventory (sc_policy s)) = fmempty \<and> list_all tierless rs"
proof -
  have "scanner_core s = scanner_core (scanner_new r seed)"
    using keepsD [OF keeps_run_continuous, of prof seeded hash rounds "scanner_new r seed"] assms(1) by simp
  then have t: "tiers (pr_inventory (sc_policy s)) = fmempty" and n: "no_cooldowns (sc_policy s)"
    by (auto simp: scanner_core_def policy_core_def scanner_new_def policy_new_def policy_with_rules_def policy_with_stability_def
        cooldowns_new_def inventory_new_def no_cooldowns_def)
  obtain mem io p2 where "policy_evaluate hash fs (sc_policy s) = (Ok (limit_recommendations (sc_policy s) (apply_stability (sc_policy s)
       (rules_evaluate hash (pr_rules (sc_policy s)) (absorb_psi mem io (absorb_tiers fmempty))))), p2)"
    using policy_evaluate_result [OF n, of hash fs] t by metis
  then have "set rs \<subseteq> set (rules_evaluate hash (pr_rules (sc_policy s)) (absorb_psi mem io (absorb_tiers fmempty)))"
    using assms(2) limited_subset by (fastforce simp: apply_stability_def)
  with t blind_rules [of hash "pr_rules (sc_policy s)" mem io] show ?thesis by (auto simp: list_all_iff)
qed

theorem scanner_policy_blind_witness:
  "\<exists>rs p'. policy_evaluate (\<lambda>_. []) (\<lambda>_. ReadFailed True []) (sc_policy (scanner_new quiet_runtime 7)) = (Ok rs, p') \<and> list_all tierless rs"
proof -
  let ?s = "scanner_new quiet_runtime 7"
  have run: "run_continuous Debug seeded (\<lambda>_. []) [] ?s = (Ok (), ?s)" for seeded by (simp add: ret_def)
  have "no_cooldowns (sc_policy ?s)"
    by (simp add: scanner_new_def policy_new_def policy_with_rules_def policy_with_stability_def cooldowns_new_def no_cooldowns_def)
  then obtain rs p' where e: "policy_evaluate (\<lambda>_. []) (\<lambda>_. ReadFailed True []) (sc_policy ?s) = (Ok rs, p')"
    using policy_evaluate_result by metis
  from scanner_policy_blind [OF run e] e show ?thesis by blast
qed

end
