(* ===== verification/Dma_Pipeline.thy ===== *)
theory Dma_Pipeline
  imports Linux_Env
begin

text \<open>
  \<^verbatim>\<open>ghost-core/src/dma_pipeline.rs\<close>, the types of \<^verbatim>\<open>hardware.rs\<close>, and \<^verbatim>\<open>ghost-daemon/src/transfer_worker.rs\<close>. An instant is a
  reading of the millisecond clock. The host memory is a function from addresses to bytes; a copy between
  overlapping buffers, which the source excludes, is not given a meaning of its own. The main facts: a mark succeeds
  exactly along the edges of the transfer lifecycle, every transfer submitted is either still tracked or
  was returned by exactly one poll, and nothing ever takes the tasks of the worker pool.
\<close>

section \<open>Types\<close>

datatype transfer_device_type = CpuMemory | GpuLocal | GpuHostVisible | DiskIo

datatype buffer_location = Host u64 nat | Device u64 u64

record transfer_submission =
  sub_source :: buffer_location
  sub_destination :: buffer_location
  sub_size :: nat
  sub_fence_id :: "u64 option"

datatype dma_stage = DmaPending | DmaSubmitted | DmaInProgress | DmaCompleted | DmaFailed message

fun dma_is_terminal :: "dma_stage \<Rightarrow> bool" where
  "dma_is_terminal DmaCompleted = True"
| "dma_is_terminal (DmaFailed _) = True"
| "dma_is_terminal _ = False"

fun dma_is_active :: "dma_stage \<Rightarrow> bool" where
  "dma_is_active DmaSubmitted = True"
| "dma_is_active DmaInProgress = True"
| "dma_is_active _ = False"

text \<open>The derived \<^verbatim>\<open>Debug\<close>; the reason is quoted, and it is taken not to hold a character to escape.\<close>

fun debug_stage :: "dma_stage \<Rightarrow> message" where
  "debug_stage DmaPending = [Lit ''Pending'']"
| "debug_stage DmaSubmitted = [Lit ''Submitted'']"
| "debug_stage DmaInProgress = [Lit ''InProgress'']"
| "debug_stage DmaCompleted = [Lit ''Completed'']"
| "debug_stage (DmaFailed m) = [Lit (''Failed('' @ [CHR 0x22])] @ m @ [Lit (CHR 0x22 # '')'')]"

record dma_transfer =
  dma_id :: u64
  dma_stage_of :: dma_stage
  dma_submission :: transfer_submission
  dma_submitted_at :: u64

record dma_pipeline =
  dma_transfers :: "(u64, dma_transfer) btree"
  dma_next_id :: u64
  dma_rt :: runtime

type_synonym 'a dma_act = "(dma_pipeline, 'a, ghost_error) act"

section \<open>Operations\<close>

definition dma_new :: "runtime \<Rightarrow> dma_pipeline" where
  "dma_new r = \<lparr>dma_transfers = fmempty, dma_next_id = 1, dma_rt = r\<rparr>"

definition on_dma_rt :: "'a rt \<Rightarrow> 'a dma_act" where
  "on_dma_rt = on_part dma_rt (\<lambda>r p. p\<lparr>dma_rt := r\<rparr>)"

definition put_transfer :: "u64 \<Rightarrow> dma_transfer \<Rightarrow> unit dma_act" where
  "put_transfer i t = update_act (\<lambda>p. p\<lparr>dma_transfers := fmupd i t (dma_transfers p)\<rparr>)"

definition dma_submit :: "transfer_submission \<Rightarrow> u64 dma_act" where
  "dma_submit sub p = (let i = dma_next_id p in
     bind_act (update_act (\<lambda>p. p\<lparr>dma_next_id := dma_next_id p + 1\<rparr>)) (\<lambda>_.
     bind_act (on_dma_rt now_ms) (\<lambda>t0.
     bind_act (put_transfer i \<lparr>dma_id = i, dma_stage_of = DmaPending, dma_submission = sub, dma_submitted_at = t0\<rparr>) (\<lambda>_.
     bind_act (on_dma_rt (emit_event (EvQueueEnqueue 0 i))) (\<lambda>_. ret i)))) p)"

fun poll_ids :: "u64 list \<Rightarrow> dma_transfer list dma_act" where
  "poll_ids [] = ret []"
| "poll_ids (i # is) = (\<lambda>p. case fmlookup (dma_transfers p) i of
       None \<Rightarrow> poll_ids is p
     | Some t \<Rightarrow> bind_act (update_act (\<lambda>p. p\<lparr>dma_transfers := fmdrop i (dma_transfers p)\<rparr>)) (\<lambda>_.
         bind_act (on_dma_rt (emit_event (EvQueueDequeue 0 i))) (\<lambda>_.
         bind_act (poll_ids is) (\<lambda>ts. ret (t # ts)))) p)"

definition completed_ids :: "dma_pipeline \<Rightarrow> u64 list" where
  "completed_ids p = map fst (filter (\<lambda>(_, t). dma_is_terminal (dma_stage_of t)) (bt_entries (dma_transfers p)))"

definition dma_poll :: "dma_transfer list dma_act" where
  "dma_poll p = poll_ids (completed_ids p) p"

definition dma_get :: "u64 \<Rightarrow> dma_pipeline \<Rightarrow> dma_transfer option" where
  "dma_get i p = fmlookup (dma_transfers p) i"

text \<open>The mutable reference of \<^verbatim>\<open>get_mut\<close> is used at once, by the given change.\<close>

definition dma_get_mut :: "u64 \<Rightarrow> (dma_transfer \<Rightarrow> dma_transfer) \<Rightarrow> dma_pipeline \<Rightarrow> dma_pipeline" where
  "dma_get_mut i f p = (case fmlookup (dma_transfers p) i of None \<Rightarrow> p | Some t \<Rightarrow> p\<lparr>dma_transfers := fmupd i (f t) (dma_transfers p)\<rparr>)"

text \<open>The look-up that starts every mark, and its test of the stage.\<close>

definition find_transfer :: "u64 \<Rightarrow> dma_transfer dma_act" where
  "find_transfer i p = (case fmlookup (dma_transfers p) i of
       None \<Rightarrow> (Err (Internal [Lit ''DMA transfer '', FmtNat (unat i), Lit '' not found'']), p)
     | Some t \<Rightarrow> (Ok t, p))"

definition stage_error :: "u64 \<Rightarrow> string \<Rightarrow> dma_stage \<Rightarrow> ghost_error" where
  "stage_error i wanted st = Internal ([Lit ''DMA transfer '', FmtNat (unat i), Lit ('' is not in '' @ wanted @ '' stage (current: '')] @ debug_stage st @ [Lit '')''])"

definition dma_mark_submitted :: "u64 \<Rightarrow> unit dma_act" where
  "dma_mark_submitted i = bind_act (find_transfer i) (\<lambda>t.
     if dma_stage_of t \<noteq> DmaPending then fail (stage_error i ''Pending'' (dma_stage_of t))
     else put_transfer i (t\<lparr>dma_stage_of := DmaSubmitted\<rparr>))"

definition dma_mark_in_progress :: "u64 \<Rightarrow> unit dma_act" where
  "dma_mark_in_progress i = bind_act (find_transfer i) (\<lambda>t.
     if dma_stage_of t \<noteq> DmaSubmitted then fail (stage_error i ''Submitted'' (dma_stage_of t))
     else put_transfer i (t\<lparr>dma_stage_of := DmaInProgress\<rparr>))"

definition dma_chunk :: "(bytes \<Rightarrow> bytes) \<Rightarrow> u64 \<Rightarrow> chunk_id" where
  "dma_chunk hash i = from_data hash (map of_char (''dma-'' @ decimal (unat i)))"

definition dma_mark_completed :: "(bytes \<Rightarrow> bytes) \<Rightarrow> u64 \<Rightarrow> unit dma_act" where
  "dma_mark_completed hash i = bind_act (find_transfer i) (\<lambda>t.
     if \<not> dma_is_active (dma_stage_of t) then fail (stage_error i ''an active'' (dma_stage_of t))
     else bind_act (put_transfer i (t\<lparr>dma_stage_of := DmaCompleted\<rparr>)) (\<lambda>_.
          bind_act (on_dma_rt now_ms) (\<lambda>now.
          on_dma_rt (emit_event (EvTransferCompleted 0 (dma_chunk hash i) Ram GpuVram (saturating_sub now (dma_submitted_at t)))))))"

definition dma_mark_failed :: "(bytes \<Rightarrow> bytes) \<Rightarrow> u64 \<Rightarrow> message \<Rightarrow> unit dma_act" where
  "dma_mark_failed hash i reason = bind_act (find_transfer i) (\<lambda>t.
     if \<not> dma_is_active (dma_stage_of t) then fail (stage_error i ''an active'' (dma_stage_of t))
     else bind_act (put_transfer i (t\<lparr>dma_stage_of := DmaFailed reason\<rparr>)) (\<lambda>_.
          on_dma_rt (emit_event (EvTransferFailed 0 (dma_chunk hash i) Ram GpuVram reason))))"

definition dma_len :: "dma_pipeline \<Rightarrow> nat" where
  "dma_len p = bt_len (dma_transfers p)"

definition dma_is_empty :: "dma_pipeline \<Rightarrow> bool" where
  "dma_is_empty p \<longleftrightarrow> dma_len p = 0"

definition count_in_stage :: "dma_stage \<Rightarrow> dma_pipeline \<Rightarrow> nat" where
  "count_in_stage st p = length (filter (\<lambda>(_, t). dma_stage_of t = st) (bt_entries (dma_transfers p)))"

section \<open>Workers\<close>

type_synonym memory = "u64 \<Rightarrow> u8"

definition copy_nonoverlapping :: "u64 \<Rightarrow> u64 \<Rightarrow> nat \<Rightarrow> memory \<Rightarrow> memory" where
  "copy_nonoverlapping src dst n m = (\<lambda>a. if unat (a - dst) < n then m (src + (a - dst)) else m a)"

definition not_implemented :: "string \<Rightarrow> ghost_error" where
  "not_implemented what = Internal [Lit (what @ '' transfers not yet implemented - requires Vulkan GPU integration'')]"

definition transfer_buffers :: "transfer_submission \<Rightarrow> (memory, unit, ghost_error) act" where
  "transfer_buffers sub m = (case (sub_source sub, sub_destination sub) of
       (Host src ssize, Host dst dsize) \<Rightarrow>
         (let n = min (min (sub_size sub) ssize) dsize in
          if n = 0 then (Ok (), m) else (Ok (), copy_nonoverlapping src dst n m))
     | (Device _ _, Device _ _) \<Rightarrow> (Err (not_implemented ''Device-to-device''), m)
     | (Host _ _, Device _ _) \<Rightarrow> (Err (not_implemented ''Host-to-device''), m)
     | (Device _ _, Host _ _) \<Rightarrow> (Err (not_implemented ''Device-to-host''), m))"

record transfer_task =
  tt_id :: u64
  tt_submission :: transfer_submission
  tt_priority :: transfer_priority

record transfer_completion =
  tc_task_id :: u64
  tc_result :: "unit ghost_result"
  tc_duration :: u64

text \<open>The two readings of the clock around the transfer are an argument.\<close>

definition process_task :: "u64 \<Rightarrow> u64 \<Rightarrow> transfer_task \<Rightarrow> memory \<Rightarrow> transfer_completion \<times> memory" where
  "process_task start stop task m = (case transfer_buffers (tt_submission task) m of
     (r, m') \<Rightarrow> (\<lparr>tc_task_id = tt_id task, tc_result = r, tc_duration = saturating_sub stop start\<rparr>, m'))"

record transfer_pool_config =
  tp_worker_count :: nat
  tp_max_pending :: nat
  tp_max_completed :: nat

definition transfer_pool_config_default :: transfer_pool_config where
  "transfer_pool_config_default = \<lparr>tp_worker_count = 2, tp_max_pending = 1024, tp_max_completed = 1024\<rparr>"

text \<open>
  The pool holds both ends of the task channel, so that it is never closed, and only the receiving
  end of the completion channel, whose sender is dropped when the pool is made.
\<close>

record transfer_pool =
  tp_workers :: "nat list"
  tp_tasks :: "transfer_task list"
  tp_completions :: "transfer_completion list"
  tp_config :: transfer_pool_config
  tp_dma :: dma_pipeline

definition pool_new :: "transfer_pool_config \<Rightarrow> runtime \<Rightarrow> transfer_pool ghost_result" where
  "pool_new cfg r = (if tp_max_pending cfg = 0 \<or> tp_max_completed cfg = 0 then Panic
     else Ok \<lparr>tp_workers = [0..<tp_worker_count cfg], tp_tasks = [], tp_completions = [], tp_config = cfg, tp_dma = dma_new r\<rparr>)"

definition pool_submit :: "transfer_task \<Rightarrow> (transfer_pool, unit, ghost_error) act" where
  "pool_submit task p = (if length (tp_tasks p) < tp_max_pending (tp_config p)
     then (Ok (), p\<lparr>tp_tasks := tp_tasks p @ [task]\<rparr>)
     else (Err (Internal [Lit ''transfer worker pool full or closed: '', Lit ''no available capacity'']), p))"

definition try_recv_completion :: "transfer_pool \<Rightarrow> transfer_completion option \<times> transfer_pool" where
  "try_recv_completion p = (case tp_completions p of [] \<Rightarrow> (None, p) | c # cs \<Rightarrow> (Some c, p\<lparr>tp_completions := cs\<rparr>))"

fun supports_device :: "transfer_device_type \<Rightarrow> bool" where
  "supports_device CpuMemory = True"
| "supports_device GpuLocal = False"
| "supports_device GpuHostVisible = False"
| "supports_device DiskIo = True"

text \<open>The task of a started worker: one entry per change of the shutdown flag it is woken by, with the value it sees.\<close>

fun await_shutdown :: "bool list \<Rightarrow> bool" where
  "await_shutdown [] = False"
| "await_shutdown (flag # flags) = (flag \<or> await_shutdown flags)"

definition pool_worker_task :: "nat \<Rightarrow> bool list \<Rightarrow> unit rt" where
  "pool_worker_task w flags = bind_act (log_now (WorkerSpawned (of_nat w))) (\<lambda>_.
     if await_shutdown flags then log_now (WorkerStopped (of_nat w)) else ret ())"

section \<open>The lifecycle of a transfer\<close>

inductive dma_edge :: "dma_stage \<Rightarrow> dma_stage \<Rightarrow> bool" where
  submitted: "dma_edge DmaPending DmaSubmitted"
| in_progress: "dma_edge DmaSubmitted DmaInProgress"
| completed: "dma_is_active st \<Longrightarrow> dma_edge st DmaCompleted"
| failed: "dma_is_active st \<Longrightarrow> dma_edge st (DmaFailed m)"

inductive_simps dma_edge_simps [simp]:
  "dma_edge st DmaPending" "dma_edge st DmaSubmitted" "dma_edge st DmaInProgress" "dma_edge st DmaCompleted" "dma_edge st (DmaFailed m)"

code_pred dma_edge .

lemma terminal_no_edge: "dma_edge a b \<Longrightarrow> \<not> dma_is_terminal a"
  by (cases rule: dma_edge.cases) (auto elim: dma_is_active.elims)

text \<open>The mark that moves to a stage; \<^verbatim>\<open>submit\<close> is the only way to \<open>DmaPending\<close>.\<close>

fun dma_mark :: "(bytes \<Rightarrow> bytes) \<Rightarrow> u64 \<Rightarrow> dma_stage \<Rightarrow> unit dma_act" where
  "dma_mark hash i DmaSubmitted = dma_mark_submitted i"
| "dma_mark hash i DmaInProgress = dma_mark_in_progress i"
| "dma_mark hash i DmaCompleted = dma_mark_completed hash i"
| "dma_mark hash i (DmaFailed m) = dma_mark_failed hash i m"
| "dma_mark hash i DmaPending = fail (Internal [])"

definition dma_core :: "dma_pipeline \<Rightarrow> (u64, dma_transfer) btree \<times> u64" where
  "dma_core p = (dma_transfers p, dma_next_id p)"

lemma dma_rt_step: "\<exists>r p'. on_dma_rt now_ms p = (Ok r, p') \<and> dma_core p' = dma_core p"
  "\<exists>p'. on_dma_rt (emit_event ev) p = (Ok (), p') \<and> dma_core p' = dma_core p"
  by (simp_all add: on_dma_rt_def on_part_def now_ms_def emit_event_def dma_core_def split: option.split)

lemma dma_now:
  obtains r p' where "on_dma_rt now_ms p = (Ok r, p')" "dma_core p' = dma_core p"
  using dma_rt_step(1) by blast

lemma dma_emit:
  obtains p' where "on_dma_rt (emit_event ev) p = (Ok (), p')" "dma_core p' = dma_core p"
  using dma_rt_step(2) by blast

lemma put_transfer_core: "\<exists>p'. put_transfer i t p = (Ok (), p') \<and> dma_core p' = (fmupd i t (dma_transfers p), dma_next_id p)"
  by (simp add: put_transfer_def update_act_def dma_core_def)

lemma mark_accepts:
  assumes "fmlookup (dma_transfers p) i = Some t" "dma_edge (dma_stage_of t) st"
  shows "\<exists>p'. dma_mark hash i st p = (Ok (), p') \<and> dma_core p' = (fmupd i (t\<lparr>dma_stage_of := st\<rparr>) (dma_transfers p), dma_next_id p)"
proof -
  obtain p1 where p1: "put_transfer i (t\<lparr>dma_stage_of := st\<rparr>) p = (Ok (), p1)"
    "dma_core p1 = (fmupd i (t\<lparr>dma_stage_of := st\<rparr>) (dma_transfers p), dma_next_id p)" using put_transfer_core by blast
  obtain r p2 where p2: "on_dma_rt now_ms p1 = (Ok r, p2)" "dma_core p2 = dma_core p1" by (rule dma_now)
  let ?c = "EvTransferCompleted 0 (dma_chunk hash i) Ram GpuVram (saturating_sub r (dma_submitted_at t))"
  obtain p3 where p3: "on_dma_rt (emit_event ?c) p2 = (Ok (), p3)" "dma_core p3 = dma_core p2" by (rule dma_emit)
  show ?thesis
  proof (cases st)
    case (DmaFailed m)
    obtain p4 where "on_dma_rt (emit_event (EvTransferFailed 0 (dma_chunk hash i) Ram GpuVram m)) p1 = (Ok (), p4)" "dma_core p4 = dma_core p1" by (rule dma_emit)
    with DmaFailed assms p1 show ?thesis by (simp add: dma_mark_failed_def bind_act_def find_transfer_def)
  qed (use assms p1 p2 p3 in \<open>simp_all add: dma_mark_submitted_def dma_mark_in_progress_def dma_mark_completed_def bind_act_def find_transfer_def\<close>)
qed

lemma mark_rejects:
  assumes "\<And>t. fmlookup (dma_transfers p) i = Some t \<Longrightarrow> \<not> dma_edge (dma_stage_of t) st"
  shows "\<exists>e. dma_mark hash i st p = (Err e, p)"
proof (cases "fmlookup (dma_transfers p) i")
  case None
  then show ?thesis
    by (cases st) (simp_all add: dma_mark_submitted_def dma_mark_in_progress_def dma_mark_completed_def dma_mark_failed_def bind_act_def find_transfer_def fail_def)
next
  case (Some t)
  with assms have "\<not> dma_edge (dma_stage_of t) st" by blast
  with Some show ?thesis
    by (cases st) (auto simp: dma_mark_submitted_def dma_mark_in_progress_def dma_mark_completed_def dma_mark_failed_def bind_act_def find_transfer_def fail_def)
qed

text \<open>
  A mark succeeds exactly when its transfer is tracked and the lifecycle has an edge from its
  stage to the new one; it then changes the stage of that transfer only, and otherwise nothing at all.
\<close>

theorem dma_mark_exact:
  "case dma_mark hash i st p of (r, p') \<Rightarrow>
     (if \<exists>t. dma_get i p = Some t \<and> dma_edge (dma_stage_of t) st
      then r = Ok () \<and> dma_get i p' = map_option (\<lambda>t. t\<lparr>dma_stage_of := st\<rparr>) (dma_get i p) \<and> (\<forall>j. j \<noteq> i \<longrightarrow> dma_get j p' = dma_get j p)
      else (\<exists>e. r = Err e) \<and> p' = p)"
proof (cases "\<exists>t. dma_get i p = Some t \<and> dma_edge (dma_stage_of t) st")
  case True
  then obtain t where t: "fmlookup (dma_transfers p) i = Some t" "dma_edge (dma_stage_of t) st" by (auto simp: dma_get_def)
  from mark_accepts [OF t, of hash] t show ?thesis by (auto simp: dma_get_def dma_core_def)
next
  case False
  then show ?thesis using mark_rejects [of p i st hash] by (auto simp: dma_get_def)
qed

section \<open>No transfer is lost\<close>

datatype dma_op = DmaSubmit transfer_submission | DmaMark u64 dma_stage | DmaPoll

datatype dma_obs = GotId u64 | GotMark "unit ghost_result" | GotTransfers "dma_transfer list" | GotPanic

definition observe :: "('a \<Rightarrow> dma_obs) \<Rightarrow> 'a dma_act \<Rightarrow> dma_pipeline \<Rightarrow> dma_obs \<times> dma_pipeline" where
  "observe f m p = (case m p of (Ok a, p') \<Rightarrow> (f a, p') | (Err e, p') \<Rightarrow> (GotMark (Err e), p') | (Panic, p') \<Rightarrow> (GotPanic, p'))"

fun dma_step :: "(bytes \<Rightarrow> bytes) \<Rightarrow> dma_op \<Rightarrow> dma_pipeline \<Rightarrow> dma_obs \<times> dma_pipeline" where
  "dma_step hash (DmaSubmit sub) p = observe GotId (dma_submit sub) p"
| "dma_step hash (DmaMark i st) p = observe (\<lambda>u. GotMark (Ok u)) (dma_mark hash i st) p"
| "dma_step hash DmaPoll p = observe GotTransfers dma_poll p"

fun dma_run :: "(bytes \<Rightarrow> bytes) \<Rightarrow> dma_op list \<Rightarrow> dma_pipeline \<Rightarrow> dma_obs list \<times> dma_pipeline" where
  "dma_run hash [] p = ([], p)"
| "dma_run hash (x # xs) p = (case dma_step hash x p of (b, p1) \<Rightarrow> case dma_run hash xs p1 of (bs, p2) \<Rightarrow> (b # bs, p2))"

fun got_ids :: "dma_obs list \<Rightarrow> u64 list" where
  "got_ids [] = []"
| "got_ids (GotId i # bs) = i # got_ids bs"
| "got_ids (_ # bs) = got_ids bs"

fun got_transfers :: "dma_obs list \<Rightarrow> dma_transfer list" where
  "got_transfers [] = []"
| "got_transfers (GotTransfers ts # bs) = ts @ got_transfers bs"
| "got_transfers (_ # bs) = got_transfers bs"

text \<open>Every tracked transfer is stored under its identifier, which was given out.\<close>

definition dma_ok :: "dma_pipeline \<Rightarrow> bool" where
  "dma_ok p \<longleftrightarrow> (\<forall>i t. fmlookup (dma_transfers p) i = Some t \<longrightarrow> dma_id t = i \<and> i < dma_next_id p)"

lemma dma_ok_core: "dma_core p = dma_core q \<Longrightarrow> dma_ok p = dma_ok q"
  by (simp add: dma_ok_def dma_core_def)

lemma poll_ids_result:
  "distinct is \<Longrightarrow> set is \<subseteq> fset (fmdom (dma_transfers p)) \<Longrightarrow>
     \<exists>p'. poll_ids is p = (Ok (map (\<lambda>i. the (fmlookup (dma_transfers p) i)) is), p') \<and> dma_next_id p' = dma_next_id p
       \<and> (\<forall>j. fmlookup (dma_transfers p') j = (if j \<in> set is then None else fmlookup (dma_transfers p) j))"
proof (induction "is" arbitrary: p)
  case (Cons i "is")
  then obtain t where t: "fmlookup (dma_transfers p) i = Some t" by (auto simp: fmlookup_dom_iff)
  let ?p = "p\<lparr>dma_transfers := fmdrop i (dma_transfers p)\<rparr>"
  obtain p1 where p1: "on_dma_rt (emit_event (EvQueueDequeue 0 i)) ?p = (Ok (), p1)" "dma_core p1 = dma_core ?p" by (rule dma_emit)
  then have tr: "dma_transfers p1 = fmdrop i (dma_transfers p)" "dma_next_id p1 = dma_next_id p" by (simp_all add: dma_core_def)
  have "set is \<subseteq> fset (fmdom (dma_transfers p1))" using Cons.prems by (auto simp: tr)
  from Cons.IH [OF _ this] Cons.prems obtain p2 where "poll_ids is p1 = (Ok (map (\<lambda>i. the (fmlookup (dma_transfers p1) i)) is), p2)"
    "dma_next_id p2 = dma_next_id p1" "\<forall>j. fmlookup (dma_transfers p2) j = (if j \<in> set is then None else fmlookup (dma_transfers p1) j)" by auto
  moreover have "map (\<lambda>i. the (fmlookup (dma_transfers p1) i)) is = map (\<lambda>i. the (fmlookup (dma_transfers p) i)) is"
    using Cons.prems by (auto simp: tr)
  ultimately show ?case using t p1(1) Cons.prems by (auto simp: bind_act_def update_act_def ret_def tr)
qed (simp add: ret_def)

lemma completed_ids_facts:
  "distinct (completed_ids p)" "set (completed_ids p) = {i. \<exists>t. fmlookup (dma_transfers p) i = Some t \<and> dma_is_terminal (dma_stage_of t)}"
proof -
  have "distinct (map fst (bt_entries (dma_transfers p)))" by simp
  then show "distinct (completed_ids p)" unfolding completed_ids_def by (rule distinct_map_filter)
  show "set (completed_ids p) = {i. \<exists>t. fmlookup (dma_transfers p) i = Some t \<and> dma_is_terminal (dma_stage_of t)}"
    by (force simp: completed_ids_def in_bt_entries)
qed

lemma poll_result:
  obtains p' where "dma_poll p = (Ok (map (\<lambda>i. the (fmlookup (dma_transfers p) i)) (completed_ids p)), p')" "dma_next_id p' = dma_next_id p"
    "\<And>j. fmlookup (dma_transfers p') j = (if j \<in> set (completed_ids p) then None else fmlookup (dma_transfers p) j)"
proof -
  have "set (completed_ids p) \<subseteq> fset (fmdom (dma_transfers p))" by (auto simp: completed_ids_facts fmlookup_dom_iff)
  from poll_ids_result [OF completed_ids_facts(1) this] that show thesis by (auto simp: dma_poll_def)
qed

lemma submit_result:
  obtains p' t where "dma_submit sub p = (Ok (dma_next_id p), p')" "dma_core p' = (fmupd (dma_next_id p) t (dma_transfers p), dma_next_id p + 1)"
    "dma_id t = dma_next_id p"
proof -
  let ?p = "p\<lparr>dma_next_id := dma_next_id p + 1\<rparr>"
  obtain r p1 where p1: "on_dma_rt now_ms ?p = (Ok r, p1)" "dma_core p1 = dma_core ?p" by (rule dma_now)
  let ?t = "\<lparr>dma_id = dma_next_id p, dma_stage_of = DmaPending, dma_submission = sub, dma_submitted_at = r\<rparr>"
  obtain p2 where p2: "put_transfer (dma_next_id p) ?t p1 = (Ok (), p2)" "dma_core p2 = (fmupd (dma_next_id p) ?t (dma_transfers p1), dma_next_id p1)"
    using put_transfer_core by blast
  obtain p3 where p3: "on_dma_rt (emit_event (EvQueueEnqueue 0 (dma_next_id p))) p2 = (Ok (), p3)" "dma_core p3 = dma_core p2" by (rule dma_emit)
  show thesis using that [of p3 ?t] p1 p2 p3 by (simp add: dma_submit_def Let_def bind_act_def update_act_def ret_def dma_core_def)
qed

text \<open>What is tracked, together with what polls have returned, is what was given out.\<close>

definition accounted :: "u64 list \<Rightarrow> dma_transfer list \<Rightarrow> dma_pipeline \<Rightarrow> bool" where
  "accounted ids ts p \<longleftrightarrow> dma_ok p \<and> distinct (map dma_id ts) \<and> distinct ids \<and> list_all (\<lambda>t. dma_is_terminal (dma_stage_of t)) ts
     \<and> dma_id ` set ts \<inter> fset (fmdom (dma_transfers p)) = {} \<and> dma_id ` set ts \<union> fset (fmdom (dma_transfers p)) = set ids
     \<and> (\<forall>i \<in> set ids. i < dma_next_id p) \<and> unat (dma_next_id p) = Suc (length ids)"

lemma accounted_submit:
  assumes "accounted ids ts p" "length ids + 2 < 2 ^ 64"
  shows "\<exists>p'. dma_step hash (DmaSubmit sub) p = (GotId (dma_next_id p), p') \<and> accounted (ids @ [dma_next_id p]) ts p'"
proof -
  obtain p' t where p': "dma_submit sub p = (Ok (dma_next_id p), p')"
    "dma_core p' = (fmupd (dma_next_id p) t (dma_transfers p), dma_next_id p + 1)" "dma_id t = dma_next_id p" by (rule submit_result)
  then have tr: "dma_transfers p' = fmupd (dma_next_id p) t (dma_transfers p)" "dma_next_id p' = dma_next_id p + 1" by (simp_all add: dma_core_def)
  have un: "unat (dma_next_id p + 1) = Suc (unat (dma_next_id p))"
    using assms by (subst unat_add_fits) (auto simp: accounted_def)
  then have lt: "dma_next_id p < dma_next_id p + 1" and mono: "\<And>i. i < dma_next_id p \<Longrightarrow> i < dma_next_id p + 1"
    by (auto simp: word_less_nat_alt)
  have new: "dma_next_id p \<notin> set ids" using assms(1) by (auto simp: accounted_def)
  have ok: "dma_ok p'" using assms(1) p'(3) lt mono by (simp add: accounted_def dma_ok_def tr)
  have a: "dma_id ` set ts \<inter> fset (fmdom (dma_transfers p)) = {}" and u: "dma_id ` set ts \<union> fset (fmdom (dma_transfers p)) = set ids"
    and below: "\<forall>i\<in>set ids. i < dma_next_id p" using assms(1) by (simp_all add: accounted_def)
  have "dma_next_id p \<notin> dma_id ` set ts" using new by (metis u UnI1)
  with a have "dma_id ` set ts \<inter> insert (dma_next_id p) (fset (fmdom (dma_transfers p))) = {}" by simp
  moreover have "\<forall>i\<in>set ids. i < dma_next_id p + 1" using below mono by simp
  ultimately have "accounted (ids @ [dma_next_id p]) ts p'"
    using assms(1) ok un new lt unfolding accounted_def tr by simp
  with p'(1) show ?thesis by (simp add: observe_def)
qed

lemma accounted_mark:
  assumes "accounted ids ts p"
  shows "\<exists>r p'. dma_step hash (DmaMark i st) p = (GotMark r, p') \<and> accounted ids ts p'"
proof (cases "\<exists>t. fmlookup (dma_transfers p) i = Some t \<and> dma_edge (dma_stage_of t) st")
  case True
  then obtain t where t: "fmlookup (dma_transfers p) i = Some t" "dma_edge (dma_stage_of t) st" by blast
  from mark_accepts [OF this] obtain p' where p': "dma_mark hash i st p = (Ok (), p')"
    "dma_transfers p' = fmupd i (t\<lparr>dma_stage_of := st\<rparr>) (dma_transfers p)" "dma_next_id p' = dma_next_id p" by (auto simp: dma_core_def)
  have "fmdom (dma_transfers p') = fmdom (dma_transfers p)" using t(1) p'(2) by (auto simp: fmlookup_dom_iff)
  moreover have "dma_ok p'" using assms t(1) p' by (auto simp: accounted_def dma_ok_def)
  ultimately have "accounted ids ts p'" using assms p'(3) by (simp add: accounted_def)
  with p'(1) show ?thesis by (simp add: observe_def)
next
  case False
  then obtain e where "dma_mark hash i st p = (Err e, p)" using mark_rejects by blast
  with assms show ?thesis by (simp add: observe_def)
qed

lemma accounted_remove:
  assumes acc: "accounted ids ts p" and p': "dma_ok p'" "dma_next_id p' = dma_next_id p"
    and us: "distinct (map dma_id us)" "dma_id ` set us \<subseteq> fset (fmdom (dma_transfers p))" "list_all (\<lambda>t. dma_is_terminal (dma_stage_of t)) us"
    and dom: "fset (fmdom (dma_transfers p')) = fset (fmdom (dma_transfers p)) - dma_id ` set us"
  shows "accounted ids (ts @ us) p'"
proof -
  let ?d = "fset (fmdom (dma_transfers p))"
  have a: "dma_id ` set ts \<inter> ?d = {}" "dma_id ` set ts \<union> ?d = set ids" using acc by (simp_all add: accounted_def)
  have "dma_id ` set (ts @ us) \<inter> (?d - dma_id ` set us) = {}" "dma_id ` set (ts @ us) \<union> (?d - dma_id ` set us) = set ids"
    "set (map dma_id ts) \<inter> set (map dma_id us) = {}"
    using a us(2) unfolding set_append image_Un set_map by blast+
  with acc p' us(1,3) show ?thesis unfolding accounted_def dom by simp
qed

lemma accounted_poll:
  assumes "accounted ids ts p"
  shows "\<exists>us p'. dma_step hash DmaPoll p = (GotTransfers us, p') \<and> accounted ids (ts @ us) p'"
proof -
  let ?is = "completed_ids p" and ?us = "map (\<lambda>i. the (fmlookup (dma_transfers p) i)) (completed_ids p)"
  obtain p' where p': "dma_poll p = (Ok ?us, p')" "dma_next_id p' = dma_next_id p"
    "\<And>j. fmlookup (dma_transfers p') j = (if j \<in> set ?is then None else fmlookup (dma_transfers p) j)" by (rule poll_result [of p]) blast
  have ids: "map dma_id ?us = ?is"
    using assms by (auto simp: accounted_def dma_ok_def completed_ids_facts intro!: map_idI)
  then have im: "dma_id ` set ?us = set ?is" by (metis set_map)
  have dom: "fset (fmdom (dma_transfers p')) = fset (fmdom (dma_transfers p)) - set ?is"
    using p'(3) by (auto simp: fmlookup_dom_iff split: if_splits)
  have sub: "set ?is \<subseteq> fset (fmdom (dma_transfers p))" by (auto simp: completed_ids_facts fmlookup_dom_iff)
  have fin: "list_all (\<lambda>t. dma_is_terminal (dma_stage_of t)) ?us" by (auto simp: list_all_iff completed_ids_facts)
  have ok: "dma_ok p'" using assms p'(2,3) by (auto simp: accounted_def dma_ok_def split: if_splits)
  have "accounted ids (ts @ ?us) p'"
    using ids im dom sub fin completed_ids_facts(1) [of p] by (intro accounted_remove [OF assms ok p'(2)]) simp_all
  with p'(1) show ?thesis by (auto simp: observe_def)
qed

lemma accounted_step:
  assumes "accounted ids ts p" "length ids + 2 < 2 ^ 64"
  shows "\<exists>b p'. dma_step hash x p = (b, p') \<and> b \<noteq> GotPanic \<and> accounted (ids @ got_ids [b]) (ts @ got_transfers [b]) p'"
proof (cases x)
  case (DmaSubmit sub)
  with accounted_submit [OF assms, of hash sub] show ?thesis by auto
next
  case (DmaMark i st)
  with accounted_mark [OF assms(1), of hash i st] show ?thesis by auto
next
  case DmaPoll
  with accounted_poll [OF assms(1), of hash] show ?thesis by auto
qed

lemma got_Cons: "got_ids (b # bs) = got_ids [b] @ got_ids bs" "got_transfers (b # bs) = got_transfers [b] @ got_transfers bs"
  by (cases b; simp)+

lemma got_ids_length: "length (got_ids [b]) \<le> 1"
  by (cases b) simp_all

lemma accounted_run:
  "accounted ids ts p \<Longrightarrow> length ids + length xs + 1 < 2 ^ 64 \<Longrightarrow> dma_run hash xs p = (bs, p') \<Longrightarrow>
     GotPanic \<notin> set bs \<and> accounted (ids @ got_ids bs) (ts @ got_transfers bs) p'"
proof (induction xs arbitrary: ids ts p bs)
  case (Cons x xs)
  obtain b p1 where b: "dma_step hash x p = (b, p1)" "b \<noteq> GotPanic" "accounted (ids @ got_ids [b]) (ts @ got_transfers [b]) p1"
    using accounted_step [OF Cons.prems(1), of hash x] Cons.prems(2) by auto
  obtain cs where cs: "dma_run hash xs p1 = (cs, p')" "bs = b # cs" using Cons.prems(3) b(1) by (auto split: prod.splits)
  have "length (ids @ got_ids [b]) + length xs + 1 < 2 ^ 64" using Cons.prems(2) got_ids_length [of b] by simp
  from Cons.IH [OF b(3) this cs(1)] b(2) show ?case by (simp add: cs(2) got_Cons [of b cs])
qed auto

text \<open>
  C32: Over any sequence of submissions, marks and polls the identifiers given out are distinct, no call panics,
  and every transfer given an identifier is either still tracked or was returned by exactly one poll, then in a terminal
  stage.
\<close>

theorem dma_conserves:
  assumes "dma_run hash xs (dma_new r) = (bs, p)" "length xs + 1 < 2 ^ 64"
  shows "distinct (got_ids bs) \<and> GotPanic \<notin> set bs
    \<and> distinct (map dma_id (got_transfers bs) @ bt_keys (dma_transfers p))
    \<and> set (map dma_id (got_transfers bs) @ bt_keys (dma_transfers p)) = set (got_ids bs)
    \<and> list_all (\<lambda>t. dma_is_terminal (dma_stage_of t)) (got_transfers bs)"
proof -
  have "accounted [] [] (dma_new r)" by (simp add: accounted_def dma_new_def dma_ok_def)
  from accounted_run [OF this _ assms(1)] assms(2) have "GotPanic \<notin> set bs" "accounted (got_ids bs) (got_transfers bs) p" by simp_all
  then show ?thesis by (simp add: accounted_def)
qed

definition host_copy :: transfer_submission where
  "host_copy = \<lparr>sub_source = Host 0 4, sub_destination = Host 8 4, sub_size = 4, sub_fence_id = None\<rparr>"

theorem dma_conserves_witness:
  "\<exists>bs p. dma_run (\<lambda>_. []) [DmaSubmit host_copy, DmaMark 1 DmaSubmitted, DmaMark 1 DmaCompleted, DmaPoll] (dma_new quiet_runtime) = (bs, p)
     \<and> set (map dma_id (got_transfers bs) @ bt_keys (dma_transfers p)) = set (got_ids bs)"
proof -
  let ?xs = "[DmaSubmit host_copy, DmaMark 1 DmaSubmitted, DmaMark 1 DmaCompleted, DmaPoll]"
  obtain bs p where "dma_run (\<lambda>_. []) ?xs (dma_new quiet_runtime) = (bs, p)" by fastforce
  with dma_conserves [OF this] show ?thesis by simp
qed

section \<open>Copies and the worker pool\<close>

definition disjoint_buffers :: "u64 \<Rightarrow> u64 \<Rightarrow> nat \<Rightarrow> bool" where
  "disjoint_buffers src dst n \<longleftrightarrow> (\<forall>k < n. \<not> unat (src + of_nat k - dst) < n)"

text \<open>
  A transfer between host buffers that do not overlap copies as many bytes as the request and both buffers
  allow, leaves the source and everything else unchanged, and never fails; any transfer with a device buffer fails and
  changes nothing.
\<close>

theorem transfer_buffers_exact:
  assumes "n = min (min (sub_size sub) ssize) dsize" "n < 2 ^ 64"
    and "sub_source sub = Host src ssize" "sub_destination sub = Host dst dsize" "disjoint_buffers src dst n"
  shows "\<exists>m'. transfer_buffers sub m = (Ok (), m') \<and> (\<forall>k. k < n \<longrightarrow> m' (dst + of_nat k) = m (src + of_nat k) \<and> m' (src + of_nat k) = m (src + of_nat k))
    \<and> (\<forall>a. n \<le> unat (a - dst) \<longrightarrow> m' a = m a)"
proof -
  let ?m = "copy_nonoverlapping src dst n m"
  have k: "unat (of_nat k :: u64) = k" if "k < n" for k using that assms(2) by (simp add: unat_of_nat take_bit_nat_eq_self)
  have "transfer_buffers sub m = (Ok (), ?m)"
    using assms(3,4) by (simp add: transfer_buffers_def Let_def assms(1) [symmetric]) (simp add: copy_nonoverlapping_def)
  moreover have "?m (dst + of_nat k) = m (src + of_nat k) \<and> ?m (src + of_nat k) = m (src + of_nat k)" if "k < n" for k
    using k [OF that] that assms(5) by (simp add: copy_nonoverlapping_def disjoint_buffers_def)
  moreover have "?m a = m a" if "n \<le> unat (a - dst)" for a
    using that by (simp add: copy_nonoverlapping_def)
  ultimately show ?thesis by blast
qed

lemma transfer_device_fails:
  assumes "sub_source sub = Device h off \<or> sub_destination sub = Device h off"
  shows "\<exists>e. transfer_buffers sub m = (Err e, m)"
  using assms by (cases "sub_source sub"; cases "sub_destination sub") (simp_all add: transfer_buffers_def)

fun pool_run :: "transfer_task option list \<Rightarrow> transfer_pool \<Rightarrow> transfer_completion list \<times> transfer_pool" where
  "pool_run [] p = ([], p)"
| "pool_run (Some t # xs) p = pool_run xs (snd (pool_submit t p))"
| "pool_run (None # xs) p = (case try_recv_completion p of (c, p1) \<Rightarrow> case pool_run xs p1 of (cs, p2) \<Rightarrow> (case c of None \<Rightarrow> cs | Some x \<Rightarrow> x # cs, p2))"

lemma pool_run_pending:
  "tp_completions p = [] \<Longrightarrow> length (tp_tasks p) \<le> tp_max_pending (tp_config p) \<Longrightarrow> pool_run xs p = (cs, p') \<Longrightarrow>
     cs = [] \<and> length (tp_tasks p') = min (tp_max_pending (tp_config p)) (length (tp_tasks p) + length (filter (\<lambda>x. x \<noteq> None) xs))"
proof (induction xs arbitrary: p cs)
  case (Cons x xs)
  show ?case
  proof (cases x)
    case None
    have "try_recv_completion p = (None, p)" using Cons.prems(1) by (simp add: try_recv_completion_def)
    then obtain cs1 where "pool_run xs p = (cs1, p')" "cs = cs1" using Cons.prems(3) None by (cases "pool_run xs p") simp
    with Cons.IH [of p cs1] Cons.prems None show ?thesis by simp
  next
    case (Some t)
    with Cons.prems(3) have run: "pool_run xs (snd (pool_submit t p)) = (cs, p')" by simp
    show ?thesis
    proof (cases "length (tp_tasks p) < tp_max_pending (tp_config p)")
      case True
      with Cons.IH [OF _ _ run] Cons.prems(1) Some show ?thesis by (simp add: pool_submit_def)
    next
      case False
      with Cons.IH [OF _ _ run] Cons.prems(1,2) Some show ?thesis by (simp add: pool_submit_def)
    qed
  qed
qed simp

text \<open>
  No submission to the worker pool is ever completed: whatever is submitted and asked for, no completion is ever
  received and no task leaves the channel, which after the configured number of tasks refuses every further one.
\<close>

theorem pool_never_completes:
  assumes "pool_new cfg r = Ok p" "pool_run xs p = (cs, p')"
  shows "cs = [] \<and> length (tp_tasks p') = min (tp_max_pending cfg) (length (filter (\<lambda>x. x \<noteq> None) xs))"
  using pool_run_pending [OF _ _ assms(2)] assms(1) by (auto simp: pool_new_def split: if_splits)

end
