(* ===== verification/Invariant_Registry.thy ===== *)
theory Invariant_Registry
  imports Io_Scheduler Chunk_State Pressure_Model
begin

text \<open>
  \<^verbatim>\<open>ghost-core/src/invariant_registry.rs\<close>, with the feature \<^verbatim>\<open>runtime-invariants\<close>, and \<^verbatim>\<open>state_ownership.rs\<close>. A registered invariant is a
  function of the state; the transfer queue of the state is opaque in the source and is left out. The facts relate the
  registry to the I/O scheduler: a state that shows a scheduler's requests passes the checks on double completion and on
  capacity, while the check on the order of identifiers reports requests that complete out of order, which the scheduler allows.
\<close>

section \<open>The registry\<close>

record ghost_state =
  gs_chunks :: "(chunk_id, chunk_meta) btree"
  gs_health :: core_backend_health
  gs_pressure :: pressure_state
  gs_io_pending :: "(u64, io_request) btree"
  gs_io_completed :: "io_request list"
  gs_io_in_flight :: nat

type_synonym ghost_invariant = "ghost_state \<Rightarrow> unit ghost_result"

type_synonym invariant_registry = "ghost_invariant list"

definition registry_new :: invariant_registry where
  "registry_new = []"

definition registry_register :: "ghost_invariant \<Rightarrow> invariant_registry \<Rightarrow> invariant_registry" where
  "registry_register f reg = reg @ [f]"

fun check_all :: "invariant_registry \<Rightarrow> ghost_invariant" where
  "check_all [] st = Ok ()"
| "check_all (f # fs) st = (case f st of Ok _ \<Rightarrow> check_all fs st | Err e \<Rightarrow> Err e | Panic \<Rightarrow> Panic)"

definition check_no_orphaned_transfers :: ghost_invariant where
  "check_no_orphaned_transfers st = Ok ()"

definition check_no_illegal_transitions :: ghost_invariant where
  "check_no_illegal_transitions st = Ok ()"

definition check_no_dangling_allocations :: ghost_invariant where
  "check_no_dangling_allocations st = Ok ()"

definition check_no_timestamp_regression :: ghost_invariant where
  "check_no_timestamp_regression st = Ok ()"

definition check_no_missing_completions :: ghost_invariant where
  "check_no_missing_completions st = Ok ()"

definition check_state_machine_consistency :: ghost_invariant where
  "check_state_machine_consistency st = Ok ()"

section \<open>The I/O invariants\<close>

definition io_violation :: "message \<Rightarrow> unit ghost_result" where
  "io_violation m = Err (Internal (Lit ''I/O invariant violation: '' # m))"

definition io_no_double_complete :: ghost_invariant where
  "io_no_double_complete st = (case List.find (\<lambda>r. fmlookup (gs_io_pending st) (rq_id r) \<noteq> None) (gs_io_completed st) of
       None \<Rightarrow> Ok ()
     | Some r \<Rightarrow> io_violation [Lit ''request '', FmtNat (unat (rq_id r)), Lit '' is both completed and pending''])"

definition io_flush_completeness :: ghost_invariant where
  "io_flush_completeness st = (if gs_io_in_flight st = 0 \<and> bt_len (gs_io_pending st) \<noteq> 0
     then io_violation [FmtNat (bt_len (gs_io_pending st)), Lit '' pending requests but io_in_flight is 0 - indicates missed flush or bookkeeping error'']
     else Ok ())"

definition io_completion_bounded :: ghost_invariant where
  "io_completion_bounded st = (if gs_io_in_flight st \<noteq> bt_len (gs_io_pending st)
     then io_violation [Lit ''io_in_flight ('', FmtNat (gs_io_in_flight st), Lit '') != io_pending.len() ('', FmtNat (bt_len (gs_io_pending st)), Lit '')'']
     else Ok ())"

definition MAX_CONCURRENT_IO :: nat where
  "MAX_CONCURRENT_IO = 4096"

definition io_buffer_within_capacity :: ghost_invariant where
  "io_buffer_within_capacity st = (if bt_len (gs_io_pending st) > MAX_CONCURRENT_IO
     then io_violation [FmtNat (bt_len (gs_io_pending st)), Lit '' pending requests exceeds capacity bound of '', FmtNat MAX_CONCURRENT_IO]
     else Ok ())"

definition io_request_id_monotonic :: ghost_invariant where
  "io_request_id_monotonic st = (if gs_io_completed st = [] \<or> bt_len (gs_io_pending st) = 0 then Ok ()
     else let max_completed = Max (set (map rq_id (gs_io_completed st))); min_pending = hd (bt_keys (gs_io_pending st)) in
       if min_pending \<le> max_completed
       then io_violation [Lit ''min pending ID ('', FmtNat (unat min_pending), Lit '') <= max completed ID ('', FmtNat (unat max_completed),
              Lit '') - violates monotonic ID allocation'']
       else Ok ())"

definition MAX_CONSECUTIVE_FAILURES :: nat where
  "MAX_CONSECUTIVE_FAILURES = 256"

fun is_io_failure :: "io_completion \<Rightarrow> bool" where
  "is_io_failure (IoFailed _) = True"
| "is_io_failure _ = False"

definition io_failure_eventual :: ghost_invariant where
  "io_failure_eventual st = (let n = length (filter (\<lambda>r. is_io_failure (rq_completion r)) (gs_io_completed st)) in
     if n > MAX_CONSECUTIVE_FAILURES
     then io_violation [FmtNat n, Lit '' completed failures exceeds bound of '', FmtNat MAX_CONSECUTIVE_FAILURES, Lit '' - backend may be stuck'']
     else Ok ())"

definition register_io_invariants :: "invariant_registry \<Rightarrow> invariant_registry" where
  "register_io_invariants reg = registry_register io_failure_eventual (registry_register io_request_id_monotonic
     (registry_register io_buffer_within_capacity (registry_register io_completion_bounded
     (registry_register io_flush_completeness (registry_register io_no_double_complete reg)))))"

section \<open>State ownership\<close>

record state_change =
  sc_module :: string
  sc_action :: message
  sc_timestamp :: u64
  sc_chunk_id :: "chunk_id option"

definition state_change_new :: "string \<Rightarrow> message \<Rightarrow> u64 \<Rightarrow> state_change" where
  "state_change_new m act ts = \<lparr>sc_module = m, sc_action = act, sc_timestamp = ts, sc_chunk_id = None\<rparr>"

definition state_change_with_chunk :: "string \<Rightarrow> message \<Rightarrow> u64 \<Rightarrow> chunk_id \<Rightarrow> state_change" where
  "state_change_with_chunk m act ts c = \<lparr>sc_module = m, sc_action = act, sc_timestamp = ts, sc_chunk_id = Some c\<rparr>"

type_synonym ownership_log = "state_change list"

definition ownership_new :: ownership_log where
  "ownership_new = []"

definition ownership_record :: "state_change \<Rightarrow> ownership_log \<Rightarrow> ownership_log" where
  "ownership_record c l = l @ [c]"

definition record_simple :: "string \<Rightarrow> message \<Rightarrow> u64 \<Rightarrow> ownership_log \<Rightarrow> ownership_log" where
  "record_simple m act ts l = l @ [state_change_new m act ts]"

definition record_chunk :: "string \<Rightarrow> message \<Rightarrow> u64 \<Rightarrow> chunk_id \<Rightarrow> ownership_log \<Rightarrow> ownership_log" where
  "record_chunk m act ts c l = l @ [state_change_with_chunk m act ts c]"

definition mutation_count :: "ownership_log \<Rightarrow> nat" where
  "mutation_count l = length l"

definition mutations_by_module :: "string \<Rightarrow> ownership_log \<Rightarrow> state_change list" where
  "mutations_by_module m l = filter (\<lambda>c. sc_module c = m) l"

definition mutations_for_chunk :: "chunk_id \<Rightarrow> ownership_log \<Rightarrow> state_change list" where
  "mutations_for_chunk cid l = filter (\<lambda>c. sc_chunk_id c = Some cid) l"

definition has_unauthorized_mutations :: "string list \<Rightarrow> ownership_log \<Rightarrow> bool" where
  "has_unauthorized_mutations allowed l \<longleftrightarrow> list_ex (\<lambda>c. \<not> List.member allowed (sc_module c)) l"

definition ownership_clear :: "ownership_log \<Rightarrow> ownership_log" where
  "ownership_clear l = []"

lemma length_filter_disj:
  "(\<And>x. \<not> (P x \<and> Q x)) \<Longrightarrow> length (filter (\<lambda>x. P x \<or> Q x) xs) = length (filter P xs) + length (filter Q xs)"
  by (induction xs) auto

lemma length_filter_all: "length (filter P xs) = length xs \<longleftrightarrow> list_all P xs"
proof (induction xs)
  case (Cons x xs)
  then show ?case using length_filter_le [of P xs] by (cases "P x") (auto simp del: length_filter_le)
qed simp

lemma ownership_audit:
  "\<not> has_unauthorized_mutations allowed l \<longleftrightarrow> mutation_count l = length (concat (map (\<lambda>m. mutations_by_module m l) (remdups allowed)))"
proof -
  have "length (concat (map (\<lambda>m. filter (\<lambda>c. sc_module c = m) l) ms)) = length (filter (\<lambda>c. sc_module c \<in> set ms) l)" if "distinct ms" for ms
    using that
  proof (induction ms)
    case (Cons m ms)
    then have "length (filter (\<lambda>c. sc_module c = m \<or> sc_module c \<in> set ms) l) = length (filter (\<lambda>c. sc_module c = m) l) + length (filter (\<lambda>c. sc_module c \<in> set ms) l)"
      by (intro length_filter_disj) auto
    with Cons show ?case by simp
  qed simp
  then have "length (concat (map (\<lambda>m. mutations_by_module m l) (remdups allowed))) = length (filter (\<lambda>c. sc_module c \<in> set allowed) l)"
    by (simp add: mutations_by_module_def)
  then show ?thesis
    by (auto simp: has_unauthorized_mutations_def mutation_count_def list_ex_iff list_all_iff length_filter_all eq_commute [of "length l"])
qed

section \<open>The scheduler and the invariants\<close>

lemma check_all_Ok_iff: "check_all fs st = Ok () \<longleftrightarrow> list_all (\<lambda>f. f st = Ok ()) fs"
  by (induction fs) (auto split: outcome.split)

lemma completed_not_pending:
  assumes "io_inv s" "r \<in> set (io_completed s)"
  shows "fmlookup (io_pending s) (rq_id r) = None"
proof (rule ccontr)
  assume "fmlookup (io_pending s) (rq_id r) \<noteq> None"
  then have "rq_id r \<in> set (bt_keys (io_pending s))" by (auto simp: fmlookup_dom_iff)
  then have "1 \<le> count (mset (bt_keys (io_pending s))) (rq_id r)" by (simp add: Suc_le_eq)
  moreover have "1 \<le> count (mset (map rq_id (io_completed s))) (rq_id r)" using assms(2) by (simp add: Suc_le_eq)
  ultimately have "2 \<le> count (io_ids s) (rq_id r)" unfolding io_ids_def count_union by linarith
  then have "2 \<le> count (issued_ids s) (rq_id r)" using assms(1) by (simp add: io_inv_def)
  moreover have "unat (io_next_id s) < 2 ^ 64" using unsigned_less [of "io_next_id s"] by simp
  then have "distinct (map of_nat [1..<unat (io_next_id s)] :: u64 list)"
    by (auto simp: distinct_map inj_on_def word_of_nat_eq_iff take_bit_nat_eq_self)
  then have "count (issued_ids s) (rq_id r) \<le> 1" by (simp add: issued_ids_def distinct_count_atmost_1 del: mset_map)
  ultimately show False by simp
qed

text \<open>
  A state whose pending and completed requests are those of a scheduler, however it was driven, passes the check on double
  completion, and the check on the capacity when the limit of the scheduler is at most 4096.
\<close>

lemma scheduler_no_double_complete:
  assumes "length xs + 1 < 2 ^ 64" "s = snd (io_run xs (io_scheduler_new now wall secs room em max_pending))"
    and "gs_io_pending st = io_pending s" "gs_io_completed st = io_completed s"
  shows "io_no_double_complete st = Ok ()" "unat max_pending \<le> MAX_CONCURRENT_IO \<Longrightarrow> io_buffer_within_capacity st = Ok ()"
proof -
  have s: "io_inv s" "io_max_pending s = max_pending"
    using io_run_inv [OF io_new_inv, of now wall secs room em max_pending xs] assms(1,2) by (simp_all add: io_scheduler_new_def)
  have "List.find (\<lambda>r. fmlookup (io_pending s) (rq_id r) \<noteq> None) (io_completed s) = None"
    using completed_not_pending [OF s(1)] by (simp add: find_None_iff)
  then show "io_no_double_complete st = Ok ()" using assms(3,4) by (simp add: io_no_double_complete_def)
  show "io_buffer_within_capacity st = Ok ()" if "unat max_pending \<le> MAX_CONCURRENT_IO"
    using s assms(3) that by (simp add: io_inv_def io_buffer_within_capacity_def)
qed

lemma monotonic_iff:
  "io_request_id_monotonic st = Ok () \<longleftrightarrow> (\<forall>i r. fmlookup (gs_io_pending st) i \<noteq> None \<longrightarrow> r \<in> set (gs_io_completed st) \<longrightarrow> rq_id r < i)"
proof (cases "gs_io_completed st = [] \<or> bt_len (gs_io_pending st) = 0")
  case True
  then show ?thesis by (auto simp: io_request_id_monotonic_def bt_len_def simp flip: set_bt_keys fmlookup_dom_iff)
next
  case False
  then obtain k ks where k: "bt_keys (gs_io_pending st) = k # ks" by (cases "bt_keys (gs_io_pending st)") (auto simp: bt_len_def)
  have keys: "fmlookup (gs_io_pending st) i \<noteq> None \<longleftrightarrow> i \<in> set (k # ks)" for i
    by (metis k set_bt_keys fmlookup_dom_iff option.exhaust option.distinct(1))
  have "sorted (k # ks)" using sorted_bt_keys [of "gs_io_pending st"] k by simp
  then have least: "\<And>i. i \<in> set (k # ks) \<Longrightarrow> k \<le> i" by auto
  have "io_request_id_monotonic st = Ok () \<longleftrightarrow> Max (set (map rq_id (gs_io_completed st))) < k"
    using False k by (simp add: io_request_id_monotonic_def Let_def io_violation_def not_less del: Max_less_iff) (auto simp del: Max_less_iff)
  also have "\<dots> \<longleftrightarrow> (\<forall>r \<in> set (gs_io_completed st). rq_id r < k)" using False by simp
  also have "\<dots> \<longleftrightarrow> (\<forall>i r. i \<in> set (k # ks) \<longrightarrow> r \<in> set (gs_io_completed st) \<longrightarrow> rq_id r < i)"
    using least by (metis list.set_intros(1) order_less_le_trans)
  finally show ?thesis by (simp only: keys)
qed

text \<open>
  The invariant on the order of identifiers is no invariant of the scheduler: completing the later of two pending requests, which the
  scheduler accepts, makes the check fail.
\<close>

theorem out_of_order_flagged:
  assumes "io_inv s" "fmlookup (io_pending s) i = Some r" "fmlookup (io_pending s) j = Some q" "i < j"
  shows "\<exists>s'. complete j e s = (Ok (), s')
    \<and> (\<forall>st. gs_io_pending st = io_pending s' \<longrightarrow> gs_io_completed st = io_completed s' \<longrightarrow> io_request_id_monotonic st \<noteq> Ok ())"
proof -
  obtain s' c where s': "complete j e s = (Ok (), s')" "io_pending s' = fmdrop j (io_pending s)" "io_completed s' = io_completed s @ [q\<lparr>rq_completion := c\<rparr>]"
    by (rule complete_pending [OF assms(1,3), of e])
  have "rq_id q = j" using entries_lookup [OF _ assms(3)] assms(1) by (auto simp: io_inv_def)
  then have "io_request_id_monotonic st \<noteq> Ok ()" if "gs_io_pending st = io_pending s'" "gs_io_completed st = io_completed s'" for st
    using assms(2,4) s'(2,3) that by (auto simp: monotonic_iff intro!: exI [of _ i])
  with s'(1) show ?thesis by blast
qed

end
