(* ===== verification/Core_Support.thy ===== *)
theory Core_Support
  imports Events
begin

text \<open>
  \<^verbatim>\<open>ghost-core/src/time.rs\<close>, the deterministic clocks, and \<^verbatim>\<open>io_events.rs\<close>, the stand-alone I/O events. An instant is in nanoseconds. The
  real-time provider is the reading of a clock and has no definition of its own. The main fact: time never goes back between
  advances that fit into 64 bits, and the legacy provider never advances at all.
\<close>

section \<open>Deterministic clocks\<close>

record det_clock =
  dc_base :: nat
  dc_offset_nanos :: u64

definition det_clock_new :: "profile \<Rightarrow> nat \<Rightarrow> u64 \<Rightarrow> (det_clock, ghost_error) outcome" where
  "det_clock_new pr base start = (case mul_pr pr start 1000000000 of
       Ok ns \<Rightarrow> Ok \<lparr>dc_base = base, dc_offset_nanos = ns\<rparr> | Err e \<Rightarrow> Err e | Panic \<Rightarrow> Panic)"

text \<open>\<^verbatim>\<open>as_nanos() as u64\<close> truncates and \<^verbatim>\<open>fetch_add\<close> wraps.\<close>

definition det_advance :: "nat \<Rightarrow> det_clock \<Rightarrow> det_clock" where
  "det_advance nanos c = c\<lparr>dc_offset_nanos := dc_offset_nanos c + of_nat nanos\<rparr>"

definition det_timestamp_secs :: "det_clock \<Rightarrow> u64" where
  "det_timestamp_secs c = dc_offset_nanos c div 1000000000"

definition det_now :: "det_clock \<Rightarrow> nat" where
  "det_now c = dc_base c + unat (dc_offset_nanos c)"

text \<open>The difference of two instants saturates at zero.\<close>

definition det_elapsed :: "nat \<Rightarrow> det_clock \<Rightarrow> nat" where
  "det_elapsed since c = det_now c - since"

record det_time_provider =
  dtp_inner :: det_clock

definition det_provider_new :: "profile \<Rightarrow> nat \<Rightarrow> u64 \<Rightarrow> nat \<Rightarrow> (det_time_provider, ghost_error) outcome" where
  "det_provider_new pr base start step = (case det_clock_new pr base start of
       Ok c \<Rightarrow> Ok \<lparr>dtp_inner = c\<rparr> | Err e \<Rightarrow> Err e | Panic \<Rightarrow> Panic)"

definition det_provider_advance :: "det_time_provider \<Rightarrow> det_time_provider" where
  "det_provider_advance p = p"

definition det_provider_set_time :: "profile \<Rightarrow> nat \<Rightarrow> u64 \<Rightarrow> det_time_provider \<Rightarrow> (det_time_provider, ghost_error) outcome" where
  "det_provider_set_time pr base secs p = (case det_clock_new pr base secs of
       Ok c \<Rightarrow> Ok (p\<lparr>dtp_inner := c\<rparr>) | Err e \<Rightarrow> Err e | Panic \<Rightarrow> Panic)"

lemma det_advance_exact:
  assumes "unat (dc_offset_nanos c) + n < 2 ^ 64"
  shows "det_now (det_advance n c) = det_now c + n \<and> det_elapsed (det_now c) (det_advance n c) = n
    \<and> det_timestamp_secs c \<le> det_timestamp_secs (det_advance n c)"
proof -
  have "unat (of_nat n :: u64) = n" using assms by (simp add: unat_of_nat take_bit_nat_eq_self)
  then have u: "unat (dc_offset_nanos c + of_nat n) = unat (dc_offset_nanos c) + n" using assms by (subst unat_add_fits) simp_all
  then have "dc_offset_nanos c div 1000000000 \<le> (dc_offset_nanos c + of_nat n) div 1000000000"
    by (simp add: word_le_nat_alt unat_div div_le_mono)
  with u show ?thesis by (simp add: det_now_def det_advance_def det_elapsed_def det_timestamp_secs_def)
qed

lemma det_clock_starts:
  assumes "unat start * 1000000000 < 2 ^ 64"
  shows "\<exists>c. det_clock_new pr base start = Ok c \<and> det_timestamp_secs c = start"
proof -
  have u: "unat (start * 1000000000) = unat start * 1000000000" using assms by (subst unat_word_ariths) simp
  then have "mul_pr pr start 1000000000 = (Ok (start * 1000000000) :: (u64, ghost_error) outcome)"
    using assms by (simp add: mul_pr_def checked_def)
  moreover have "start * 1000000000 div 1000000000 = start" by (simp add: word_unat_eq_iff unat_div u)
  ultimately show ?thesis by (simp add: det_clock_new_def det_timestamp_secs_def)
qed

section \<open>Events of the I/O lifecycle\<close>

datatype io_event =
    IoRequestIssued io_operation chunk_id tier_id
  | IoRequestCompleted io_operation chunk_id tier_id u64
  | IoRequestFailed io_operation chunk_id tier_id message
  | IoFlushIssued tier_id
  | IoFlushCompleted tier_id u64
  | IoBufferStateChange tier_id nat nat

fun io_event_chunk_id :: "io_event \<Rightarrow> chunk_id option" where
  "io_event_chunk_id (IoRequestIssued _ c _) = Some c"
| "io_event_chunk_id (IoRequestCompleted _ c _ _) = Some c"
| "io_event_chunk_id (IoRequestFailed _ c _ _) = Some c"
| "io_event_chunk_id _ = None"

fun io_event_tier :: "io_event \<Rightarrow> tier_id option" where
  "io_event_tier (IoRequestIssued _ _ t) = Some t"
| "io_event_tier (IoRequestCompleted _ _ t _) = Some t"
| "io_event_tier (IoRequestFailed _ _ t _) = Some t"
| "io_event_tier (IoFlushIssued t) = Some t"
| "io_event_tier (IoFlushCompleted t _) = Some t"
| "io_event_tier (IoBufferStateChange t _ _) = Some t"

definition io_event_category :: "io_event \<Rightarrow> string" where
  "io_event_category e = ''io''"

fun io_event_name :: "io_event \<Rightarrow> string" where
  "io_event_name (IoRequestIssued _ _ _) = ''io_request_issued''"
| "io_event_name (IoRequestCompleted _ _ _ _) = ''io_request_completed''"
| "io_event_name (IoRequestFailed _ _ _ _) = ''io_request_failed''"
| "io_event_name (IoFlushIssued _) = ''io_flush_issued''"
| "io_event_name (IoFlushCompleted _ _) = ''io_flush_completed''"
| "io_event_name (IoBufferStateChange _ _ _) = ''io_buffer_state_change''"

lemma io_event_tier_total: "io_event_tier e \<noteq> None"
  by (cases e) simp_all

end
