(* ===== verification/Eval_Score.thy ===== *)
theory Eval_Score
  imports Policy_Rules
begin

text \<open>
  \<^verbatim>\<open>ghost-evaluator/src/scoring.rs\<close> and \<^verbatim>\<open>baseline.rs\<close>: the scores of a recommendation from the system state before and after it, and the
  baseline that imitates what the kernel does. The square root is an argument; the long dashes of the messages are hyphens. The main facts: on
  readings and weights of the unit interval every score is a value of the unit interval, for a single recommendation and for the average over
  an evaluation, in IEEE single precision; and what the baseline can and cannot recommend.
\<close>

section \<open>Scores\<close>

record recommendation_score =
  fault_reduction :: f32
  swap_reduction :: f32
  zram_efficiency :: f32
  pressure_reduction :: f32
  tier_balance :: f32
  stability :: f32
  overall_score :: f32

record scoring_weights =
  fault_reduction_weight :: f32
  swap_reduction_weight :: f32
  zram_efficiency_weight :: f32
  pressure_reduction_weight :: f32
  tier_balance_weight :: f32
  stability_weight :: f32

definition scoring_weights_default :: scoring_weights where
  "scoring_weights_default = \<lparr>fault_reduction_weight = f32_lit (25 / 100), swap_reduction_weight = f32_lit (20 / 100), zram_efficiency_weight = f32_lit (15 / 100),
     pressure_reduction_weight = f32_lit (20 / 100), tier_balance_weight = f32_lit (10 / 100), stability_weight = f32_lit (10 / 100)\<rparr>"

fun f32_abs :: "fl \<Rightarrow> fl" where
  "f32_abs (Fin x) = Fin \<bar>x\<bar>"
| "f32_abs PInf = PInf"
| "f32_abs NInf = PInf"
| "f32_abs NaN = NaN"

definition f32_EPSILON :: f32 where
  "f32_EPSILON = Fin (1 / 2 ^ 23)"

definition combined_pressure :: "pressure_state \<Rightarrow> f32" where
  "combined_pressure p = fmax (memory_pressure p) (io_pressure p)"

definition state_max_pressure :: "system_state \<Rightarrow> f32" where
  "state_max_pressure s = fmax (fmax (memory_pressure (ss_dram_pressure s)) (io_pressure (ss_dram_pressure s)))
     (fmax (memory_pressure (ss_io_pressure s)) (io_pressure (ss_io_pressure s)))"

text \<open>The shape that three of the scores share: how much a reading has fallen.\<close>

definition reduction_score :: "f32 \<Rightarrow> f32 \<Rightarrow> f32" where
  "reduction_score before after = (if fge after before then if before = Fin 0 then f32_lit 1 else f32_lit 0
     else clamp01 (fsub binary32 before after))"

definition score_fault_reduction :: "system_state \<Rightarrow> system_state \<Rightarrow> f32" where
  "score_fault_reduction before after = reduction_score (combined_pressure (ss_dram_pressure before)) (combined_pressure (ss_dram_pressure after))"

definition score_swap_reduction :: "system_state \<Rightarrow> system_state \<Rightarrow> f32" where
  "score_swap_reduction before after = reduction_score (ss_swap_utilization before) (ss_swap_utilization after)"

definition score_pressure_reduction :: "system_state \<Rightarrow> system_state \<Rightarrow> f32" where
  "score_pressure_reduction before after = reduction_score (state_max_pressure before) (state_max_pressure after)"

definition zram_utilization_score :: "f32 \<Rightarrow> f32 \<Rightarrow> f32 \<Rightarrow> f32" where
  "zram_utilization_score util lo hi =
     (if fge util lo \<and> fle util hi then f32_lit 1
      else if flt util lo then if fgt lo (f32_lit 0) then clamp01 (fdiv binary32 util lo) else f32_lit 1
      else let overfill = fsub binary32 util hi; max_overfill = fsub binary32 (f32_lit 1) hi in
        if fgt max_overfill (f32_lit 0)
        then clamp01 (fsub binary32 (f32_lit 1) (fmul binary32 (fdiv binary32 overfill max_overfill) (f32_lit (7 / 10))))
        else f32_lit 1)"

definition score_zram_efficiency :: "system_state \<Rightarrow> system_state \<Rightarrow> f32" where
  "score_zram_efficiency before after =
     (let b = zram_utilization_score (unwrap_or (f32_lit 0) (ss_zram_utilization before)) (f32_lit (3 / 10)) (f32_lit (7 / 10));
          a = zram_utilization_score (unwrap_or (f32_lit 0) (ss_zram_utilization after)) (f32_lit (3 / 10)) (f32_lit (7 / 10))
      in if fgt a b then a else if flt (f32_abs (fsub binary32 a b)) f32_EPSILON then a else fmul binary32 a (f32_lit (5 / 10)))"

definition utilizations :: "system_state \<Rightarrow> f32 list" where
  "utilizations s = [ss_dram_utilization s, ss_swap_utilization s] @ (case ss_zram_utilization s of None \<Rightarrow> [] | Some z \<Rightarrow> [z])"

definition compute_balance :: "(f32 \<Rightarrow> f32) \<Rightarrow> system_state \<Rightarrow> f32" where
  "compute_balance fsqrt s = (let us = utilizations s; n = of_len binary32 (length us); mean = fdiv binary32 (fsum binary32 us) n in
     if mean = Fin 0 then f32_lit 1
     else let variance = fdiv binary32 (fsum binary32 (map (\<lambda>u. let d = fsub binary32 u mean in fmul binary32 d d) us)) n in
       fmax (fsub binary32 (f32_lit 1) (fmin (fdiv binary32 (fsqrt variance) (f32_lit (5 / 10))) (f32_lit 1))) (f32_lit 0))"

text \<open>A score that got worse is halved.\<close>

definition halved_if_worse :: "f32 \<Rightarrow> f32 \<Rightarrow> f32" where
  "halved_if_worse b a = (if fge a b then a else fmul binary32 a (f32_lit (5 / 10)))"

definition score_tier_balance :: "(f32 \<Rightarrow> f32) \<Rightarrow> system_state \<Rightarrow> system_state \<Rightarrow> f32" where
  "score_tier_balance fsqrt before after = halved_if_worse (compute_balance fsqrt before) (compute_balance fsqrt after)"

definition pressure_score_of :: "f32 \<Rightarrow> f32" where
  "pressure_score_of p = (if fge p (f32_lit (9 / 10)) then f32_lit 0 else if fge p (f32_lit (7 / 10)) then f32_lit (3 / 10)
     else if fge p (f32_lit (5 / 10)) then f32_lit (6 / 10) else if fge p (f32_lit (3 / 10)) then f32_lit (8 / 10) else f32_lit 1)"

definition util_penalty :: "system_state \<Rightarrow> f32" where
  "util_penalty s = (let above = (\<lambda>t. fgt (ss_dram_utilization s) t \<or> fgt (ss_swap_utilization s) t) in
     if above (f32_lit (95 / 100)) then f32_lit (3 / 10) else if above (f32_lit (85 / 100)) then f32_lit (6 / 10) else f32_lit 1)"

definition system_stability :: "system_state \<Rightarrow> f32" where
  "system_stability s = fmul binary32 (pressure_score_of (state_max_pressure s)) (util_penalty s)"

definition score_stability :: "system_state \<Rightarrow> system_state \<Rightarrow> f32" where
  "score_stability before after = halved_if_worse (system_stability before) (system_stability after)"

fun recommendation_type_bonus :: "recommendation \<Rightarrow> system_state \<Rightarrow> f32" where
  "recommendation_type_bonus (PromoteToDram _ _ _ _) s = (let p = memory_pressure (ss_dram_pressure s) in
     if flt p (f32_lit (5 / 10)) then f32_lit (5 / 100) else if flt p (f32_lit (7 / 10)) then f32_lit (2 / 100) else f32_lit (- (2 / 100)))"
| "recommendation_type_bonus (MoveToZram _ _ _ _) s = (case ss_zram_utilization s of
       Some z \<Rightarrow> if flt z (f32_lit (7 / 10)) then f32_lit (5 / 100) else f32_lit (- (2 / 100))
     | None \<Rightarrow> f32_lit (- (5 / 100)))"
| "recommendation_type_bonus (MoveToDiskSwap _ _ _ _) s = (if flt (ss_swap_utilization s) (f32_lit (7 / 10)) then f32_lit (4 / 100) else f32_lit (- (2 / 100)))"
| "recommendation_type_bonus (EvictCold _ _ _ _) s = (let p = memory_pressure (ss_dram_pressure s) in
     if fge p (f32_lit (8 / 10)) then f32_lit (8 / 100) else if fge p (f32_lit (6 / 10)) then f32_lit (3 / 100) else f32_lit (- (3 / 100)))"
| "recommendation_type_bonus (DemoteHot _ _ _ _) s = (let p = memory_pressure (ss_dram_pressure s) in
     if fge p (f32_lit (5 / 10)) \<and> flt p (f32_lit (8 / 10)) then f32_lit (4 / 100) else f32_lit (1 / 100))"
| "recommendation_type_bonus (NoAction _ _ _) s = (if flt (memory_pressure (ss_dram_pressure s)) (f32_lit (5 / 10)) \<and> flt (ss_swap_utilization s) (f32_lit (5 / 10))
     then f32_lit (5 / 100) else f32_lit (- (5 / 100)))"

section \<open>The weighted combination\<close>

text \<open>\<^verbatim>\<open>a + b + c + ...\<close> associates to the left.\<close>

fun chain_sum :: "fl list \<Rightarrow> fl" where
  "chain_sum [] = Fin 0"
| "chain_sum (x # xs) = foldl (fadd binary32) x xs"

definition weight_list :: "scoring_weights \<Rightarrow> f32 list" where
  "weight_list w = [fault_reduction_weight w, swap_reduction_weight w, zram_efficiency_weight w, pressure_reduction_weight w, tier_balance_weight w, stability_weight w]"

definition weighted_overall :: "f32 list \<Rightarrow> scoring_weights \<Rightarrow> f32" where
  "weighted_overall ms w = (let total = chain_sum (weight_list w) in
     if fgt total (f32_lit 0) then fdiv binary32 (chain_sum (map2 (fmul binary32) ms (weight_list w))) total else f32_lit 0)"

definition score_recommendation :: "(f32 \<Rightarrow> f32) \<Rightarrow> recommendation \<Rightarrow> system_state \<Rightarrow> system_state \<Rightarrow> scoring_weights \<Rightarrow> recommendation_score" where
  "score_recommendation fsqrt r before after w =
     (let fr = score_fault_reduction before after; sr = score_swap_reduction before after; ze = score_zram_efficiency before after;
          pr = score_pressure_reduction before after; tb = score_tier_balance fsqrt before after; st = score_stability before after;
          overall = weighted_overall [fr, sr, ze, pr, tb, st] w;
          bonus = recommendation_type_bonus r before
      in \<lparr>fault_reduction = fr, swap_reduction = sr, zram_efficiency = ze, pressure_reduction = pr, tier_balance = tb, stability = st,
          overall_score = fmin (fmul binary32 overall (fadd binary32 (f32_lit 1) bonus)) (f32_lit 1)\<rparr>)"

definition mean_of :: "(recommendation_score \<Rightarrow> f32) \<Rightarrow> recommendation_score list \<Rightarrow> f32" where
  "mean_of f xs = fdiv binary32 (fsum binary32 (map f xs)) (of_len binary32 (length xs))"

definition score_policy_evaluation :: "(f32 \<Rightarrow> f32) \<Rightarrow> recommendation list \<Rightarrow> system_state \<Rightarrow> system_state \<Rightarrow> recommendation_score" where
  "score_policy_evaluation fsqrt rs before after =
     (if rs = [] then score_recommendation fsqrt (NoAction [Lit ''no recommendations''] (f32_lit 1) []) before after scoring_weights_default
      else let xs = map (\<lambda>r. score_recommendation fsqrt r before after scoring_weights_default) rs in
        \<lparr>fault_reduction = mean_of fault_reduction xs, swap_reduction = mean_of swap_reduction xs, zram_efficiency = mean_of zram_efficiency xs,
         pressure_reduction = mean_of pressure_reduction xs, tier_balance = mean_of tier_balance xs, stability = mean_of stability xs,
         overall_score = mean_of overall_score xs\<rparr>)"

section \<open>The baseline\<close>

datatype baseline_action = BlEvict | BlSwapOut | BlNoAction

record baseline_recommendation =
  bl_action :: baseline_action
  bl_confidence :: f32
  bl_reason :: message

definition baseline_new :: "baseline_action \<Rightarrow> rat \<Rightarrow> string \<Rightarrow> baseline_recommendation" where
  "baseline_new a c reason = \<lparr>bl_action = a, bl_confidence = f32_lit c, bl_reason = [Lit reason]\<rparr>"

definition eviction_count_from_confidence :: "f32 \<Rightarrow> nat" where
  "eviction_count_from_confidence c = (if fge c (f32_lit (9 / 10)) then 16 else if fge c (f32_lit (7 / 10)) then 8 else 4)"

definition from_baseline :: "(bytes \<Rightarrow> bytes) \<Rightarrow> baseline_recommendation \<Rightarrow> recommendation" where
  "from_baseline hash b = (case bl_action b of
       BlEvict \<Rightarrow> EvictCold Ram (eviction_count_from_confidence (bl_confidence b)) (bl_confidence b) [bl_reason b]
     | BlSwapOut \<Rightarrow> MoveToDiskSwap (from_data hash (map of_char ''baseline_eviction'')) (bl_reason b) (bl_confidence b) [[Lit ''pressure_reactive'']]
     | BlNoAction \<Rightarrow> NoAction (bl_reason b) (bl_confidence b) [])"

definition baseline_low :: "system_state \<Rightarrow> baseline_recommendation list" where
  "baseline_low s = [baseline_new BlNoAction (95 / 100) ''system idle - no action needed'']"

definition baseline_medium :: "system_state \<Rightarrow> baseline_recommendation list" where
  "baseline_medium s = (if fgt (ss_dram_utilization s) (f32_lit (8 / 10))
     then [baseline_new BlEvict (6 / 10) ''moderate pressure with high DRAM utilization - light eviction'']
     else [baseline_new BlNoAction (8 / 10) ''moderate pressure but DRAM utilization acceptable''])"

definition baseline_high :: "system_state \<Rightarrow> baseline_recommendation list" where
  "baseline_high s = baseline_new BlEvict (8 / 10) ''high pressure - evicting cold pages''
     # (if fgt (ss_swap_utilization s) (f32_lit (8 / 10)) then [baseline_new BlSwapOut (7 / 10) ''high pressure with high swap - swapping out pages''] else [])"

definition baseline_critical :: "system_state \<Rightarrow> baseline_recommendation list" where
  "baseline_critical s = [baseline_new BlEvict (95 / 100) ''critical pressure - aggressive eviction'',
       baseline_new BlSwapOut (85 / 100) ''critical pressure - swapping out pages'']
     @ (if fgt (ss_swap_utilization s) (f32_lit (8 / 10)) then [baseline_new BlSwapOut (9 / 10) ''critical pressure with high swap - emergency swap-out''] else [])"

definition evaluate_baseline :: "system_state \<Rightarrow> baseline_recommendation list" where
  "evaluate_baseline s = (case linux_pressure_level s of
       LpLow \<Rightarrow> baseline_low s | LpMedium \<Rightarrow> baseline_medium s | LpHigh \<Rightarrow> baseline_high s | LpCritical \<Rightarrow> baseline_critical s)"

section \<open>Scores are values of the unit interval\<close>

definition unit_state :: "system_state \<Rightarrow> bool" where
  "unit_state s \<longleftrightarrow> in_unit (memory_pressure (ss_dram_pressure s)) \<and> in_unit (io_pressure (ss_dram_pressure s))
     \<and> in_unit (memory_pressure (ss_io_pressure s)) \<and> in_unit (io_pressure (ss_io_pressure s))
     \<and> in_unit (ss_dram_utilization s) \<and> in_unit (ss_swap_utilization s) \<and> list_all in_unit (case ss_zram_utilization s of None \<Rightarrow> [] | Some z \<Rightarrow> [z])"

definition unit_weights :: "scoring_weights \<Rightarrow> bool" where
  "unit_weights w \<longleftrightarrow> list_all (\<lambda>x. in_unit x \<and> is_float binary32 x) (weight_list w)"

definition unit_score :: "recommendation_score \<Rightarrow> bool" where
  "unit_score x \<longleftrightarrow> in_unit (fault_reduction x) \<and> in_unit (swap_reduction x) \<and> in_unit (zram_efficiency x) \<and> in_unit (pressure_reduction x)
     \<and> in_unit (tier_balance x) \<and> in_unit (stability x) \<and> in_unit (overall_score x)"

lemma unit_lits [simp]: "in_unit (f32_lit 0)" "in_unit (f32_lit 1)" "in_unit (f32_lit (5 / 10))" "in_unit (f32_lit (3 / 10))" "in_unit (f32_lit (6 / 10))" "in_unit (f32_lit (8 / 10))"
  by (rule in_unit_lit; simp)+

lemma unit_not_NaN: "in_unit x \<Longrightarrow> x \<noteq> NaN"
  by (auto simp: in_unit_iff)

lemma fsub_unit_not_NaN: "in_unit x \<Longrightarrow> in_unit y \<Longrightarrow> fsub binary32 x y \<noteq> NaN"
  by (auto simp: in_unit_iff fsub_def)

lemma reduction_unit: "in_unit b \<Longrightarrow> in_unit a \<Longrightarrow> in_unit (reduction_score b a)"
  by (simp add: reduction_score_def clamp01_in_unit fsub_unit_not_NaN)

lemma pressures_unit: "unit_state s \<Longrightarrow> in_unit (combined_pressure (ss_dram_pressure s)) \<and> in_unit (state_max_pressure s)"
  by (simp add: unit_state_def combined_pressure_def state_max_pressure_def fmax_in_unit)

lemma f32_seven_tenths: "f32_lit (7 / 10) = Fin (11744051 / 16777216)"
  unfolding f32_lit_def by (subst rnd_eval [where k = "-1" and e = "-24" and m = 11744051]) (simp_all add: f32_eval)

lemma not_NaN_ops:
  "x \<noteq> NaN \<Longrightarrow> 0 < c \<Longrightarrow> fmul binary32 x (Fin c) \<noteq> NaN" "x \<noteq> NaN \<Longrightarrow> fsub binary32 (Fin c) x \<noteq> NaN"
  "x \<noteq> NaN \<Longrightarrow> flt (Fin 0) y \<Longrightarrow> y \<noteq> PInf \<Longrightarrow> fdiv binary32 x y \<noteq> NaN"
  by (cases x; cases y; simp add: signed_inf_def fsub_def flt_def)+

lemma zram_score_unit:
  assumes "in_unit u" "in_unit lo" "in_unit hi"
  shows "in_unit (zram_utilization_score u lo hi)"
proof -
  have "fdiv binary32 u lo \<noteq> NaN" if "flt (Fin 0) lo"
    using that assms(1,2) by (intro not_NaN_ops(3)) (auto simp: in_unit_iff)
  moreover have "fsub binary32 (Fin 1) (fmul binary32 (fdiv binary32 (fsub binary32 u hi) (fsub binary32 (Fin 1) hi)) (f32_lit (7 / 10))) \<noteq> NaN"
    if "flt (Fin 0) (fsub binary32 (Fin 1) hi)"
  proof -
    have "in_unit (fsub binary32 (Fin 1) hi)" using assms(3) by (simp add: one_minus_in_unit)
    then have "fsub binary32 (Fin 1) hi \<noteq> PInf" by (auto simp: in_unit_iff)
    then show ?thesis unfolding f32_seven_tenths
      using that by (intro not_NaN_ops fsub_unit_not_NaN [OF assms(1,3)]) simp_all
  qed
  ultimately show ?thesis by (simp add: zram_utilization_score_def Let_def clamp01_in_unit)
qed

lemma zram_efficiency_unit: "unit_state b \<Longrightarrow> unit_state a \<Longrightarrow> in_unit (score_zram_efficiency b a)"
proof -
  assume "unit_state b" "unit_state a"
  then have "in_unit (unwrap_or (f32_lit 0) (ss_zram_utilization b))" "in_unit (unwrap_or (f32_lit 0) (ss_zram_utilization a))"
    by (auto simp: unit_state_def split: option.splits)
  moreover have "in_unit (f32_lit (7 / 10))" by (simp add: f32_seven_tenths)
  ultimately show ?thesis by (simp add: score_zram_efficiency_def Let_def zram_score_unit mul_in_unit)
qed

lemma halved_unit: "in_unit a \<Longrightarrow> in_unit (halved_if_worse b a)"
  by (simp add: halved_if_worse_def mul_in_unit)

lemma system_stability_unit: "in_unit (system_stability s)"
proof -
  have "in_unit (pressure_score_of (state_max_pressure s))" unfolding pressure_score_of_def by (simp only: unit_lits split: if_split) blast
  moreover have "in_unit (util_penalty s)" unfolding util_penalty_def Let_def by (simp only: unit_lits split: if_split) blast
  ultimately show ?thesis unfolding system_stability_def by (rule mul_in_unit [OF wf_binary(1)])
qed

lemma utilizations_unit: "unit_state s \<Longrightarrow> list_all in_unit (utilizations s)"
  by (simp add: unit_state_def utilizations_def)

lemma nat_float:
  assumes "n < 2 ^ 24"
  shows "representable binary32 (of_nat n) \<and> of_nat n \<le> max_fin binary32"
proof -
  have "precision binary32 = 24" by (simp add: binary32_def)
  then have "representable binary32 (of_nat n)" using representable_int [OF wf_binary(1), of "int n"] assms by simp
  moreover have "of_nat n < (2 :: rat) ^ 24" using assms by (metis of_nat_less_iff of_nat_numeral of_nat_power)
  then have "of_nat n \<le> max_fin binary32" by (simp add: max_fin_def binary32_def)
  ultimately show ?thesis by simp
qed

lemma chain_bounded:
  assumes "in_unit x" "0 \<le> a" "a \<le> of_nat n" "Suc n < 2 ^ 24"
  shows "\<exists>y. fadd binary32 (Fin a) x = Fin y \<and> 0 \<le> y \<and> y \<le> of_nat (Suc n)"
proof -
  obtain z where z: "x = Fin z" "0 \<le> z" "z \<le> 1" using assms(1) by (auto simp: in_unit_iff)
  obtain y where "rnd binary32 (a + z) = Fin y" "0 \<le> y" "y \<le> of_nat (Suc n)"
    using rnd_between [of binary32 0 "of_nat (Suc n)" "a + z"] nat_float [OF assms(4)] assms(2,3) z max_fin_ge_1 [of binary32] by force
  then show ?thesis using z(1) by simp
qed

lemma fold_bounded:
  "list_all in_unit xs \<Longrightarrow> 0 \<le> a \<Longrightarrow> a \<le> of_nat n \<Longrightarrow> n + length xs < 2 ^ 24 \<Longrightarrow>
     \<exists>y. foldl (fadd binary32) (Fin a) xs = Fin y \<and> 0 \<le> y \<and> y \<le> of_nat (n + length xs)"
proof (induction xs arbitrary: a n)
  case (Cons x xs)
  then obtain y where "fadd binary32 (Fin a) x = Fin y" "0 \<le> y" "y \<le> of_nat (Suc n)" using chain_bounded [of x a n] by auto
  with Cons.IH [of y "Suc n"] Cons.prems show ?case by simp
qed simp

lemma fsum_bounded: "list_all in_unit xs \<Longrightarrow> length xs < 2 ^ 24 \<Longrightarrow> \<exists>y. fsum binary32 xs = Fin y \<and> 0 \<le> y \<and> y \<le> of_nat (length xs)"
  using fold_bounded [of xs 0 0] by (simp add: fsum_def)

lemma of_len_exact: "n < 2 ^ 24 \<Longrightarrow> of_len binary32 n = Fin (of_nat n)"
  using nat_float [of n] by (simp add: of_len_def rnd_exact)

lemma mean_unit: "list_all in_unit xs \<Longrightarrow> xs \<noteq> [] \<Longrightarrow> length xs < 2 ^ 24 \<Longrightarrow> in_unit (fdiv binary32 (fsum binary32 xs) (of_len binary32 (length xs)))"
  using fsum_bounded [of xs] by (auto simp: of_len_exact intro!: rnd_in_unit)

lemma square_nonneg: "in_unit u \<Longrightarrow> in_unit m \<Longrightarrow> fle (Fin 0) (let d = fsub binary32 u m in fmul binary32 d d)"
proof -
  assume "in_unit u" "in_unit m"
  then obtain x y where v: "u = Fin x" "m = Fin y" "0 \<le> x" "x \<le> 1" "0 \<le> y" "y \<le> 1" by (auto simp: in_unit_iff)
  obtain d where "rnd binary32 (x - y) = Fin d"
    using rnd_between [of binary32 "- 1" 1 "x - y"] v max_fin_ge_1 [of binary32] by force
  then show ?thesis using v by (simp add: fsub_def Let_def rnd_nonneg)
qed

lemma balance_unit:
  assumes "root_like fsqrt" "unit_state s"
  shows "in_unit (compute_balance fsqrt s)"
proof -
  let ?us = "utilizations s" and ?n = "of_len binary32 (length (utilizations s))"
  let ?mean = "fdiv binary32 (fsum binary32 ?us) ?n"
  let ?sq = "map (\<lambda>u. let d = fsub binary32 u ?mean in fmul binary32 d d) ?us"
  have us: "list_all in_unit ?us" "?us \<noteq> []" "length ?us < 2 ^ 24" using utilizations_unit [OF assms(2)] by (auto simp: utilizations_def split: option.split)
  have "in_unit ?mean" by (rule mean_unit [OF us])
  then have "list_all (fle (Fin 0)) ?sq" using us(1) square_nonneg by (auto simp: list_all_iff)
  then have "fle (Fin 0) (fdiv binary32 (fsum binary32 ?sq) ?n)"
    using us by (simp add: of_len_exact fsum_nonneg fdiv_nonneg)
  then have "fle (Fin 0) (fsqrt (fdiv binary32 (fsum binary32 ?sq) ?n))" using assms(1) by (simp add: root_like_def)
  then have "in_unit (fmin (fdiv binary32 (fsqrt (fdiv binary32 (fsum binary32 ?sq) ?n)) (f32_lit (5 / 10))) (Fin 1))"
    by (intro fmin_one) (simp add: fdiv_nonneg)
  then show ?thesis by (simp add: compute_balance_def Let_def fmax_in_unit one_minus_in_unit)
qed

lemma fold_mono:
  "list_all2 (\<lambda>x y. fle (Fin 0) x \<and> fle x y) xs ys \<Longrightarrow> fle (Fin 0) a \<Longrightarrow> fle a b \<Longrightarrow>
     fle (Fin 0) (foldl (fadd binary32) a xs) \<and> fle (foldl (fadd binary32) a xs) (foldl (fadd binary32) b ys)"
proof (induction xs ys arbitrary: a b rule: list_all2_induct)
  case (Cons x xs y ys)
  then show ?case by (auto intro!: Cons.IH fadd_nonneg fadd_mono)
qed simp

lemma weighted_unit:
  assumes "list_all in_unit ms" "length ms = 6" "unit_weights w"
  shows "in_unit (weighted_overall ms w)"
proof -
  obtain v vs where w: "weight_list w = v # vs" by (simp add: weight_list_def)
  obtain m mt where m: "ms = m # mt" using assms(2) by (cases ms) auto
  have len: "length vs = 5" "length mt = 5" using w m assms(2) by (auto simp: weight_list_def)
  have ws: "in_unit v" "is_float binary32 v" "list_all in_unit vs" "list_all (\<lambda>x. in_unit x \<and> is_float binary32 x) vs"
    using assms(3) w by (auto simp: unit_weights_def list_all_iff)
  have le: "fle (Fin 0) (fmul binary32 x y) \<and> fle (fmul binary32 x y) y" if "in_unit x" "in_unit y" "is_float binary32 y" for x y
    using that weighted_le_weight [of x y] mul_in_unit [of binary32 x y] by (simp add: in_unit_def)
  have "list_all in_unit mt" using assms(1) m by simp
  then have "list_all2 (\<lambda>x y. fle (Fin 0) x \<and> fle x y) (map2 (fmul binary32) mt vs) vs"
    using ws(4) len le by (simp add: list_all2_conv_all_nth list_all_length)
  from fold_mono [OF this, of "fmul binary32 m v" v] le [of m v] assms(1) m ws(1,2)
  have num: "fle (Fin 0) (chain_sum (map2 (fmul binary32) ms (weight_list w)))" "fle (chain_sum (map2 (fmul binary32) ms (weight_list w))) (chain_sum (weight_list w))"
    by (simp_all add: m w)
  obtain v' where v': "v = Fin v'" "0 \<le> v'" "v' \<le> 1" using ws(1) by (auto simp: in_unit_iff)
  obtain t where t: "chain_sum (weight_list w) = Fin t" using fold_bounded [of vs v' 1] ws(3) v' len by (auto simp: w)
  obtain u where u: "chain_sum (map2 (fmul binary32) ms (weight_list w)) = Fin u" using num t by (cases "chain_sum (map2 (fmul binary32) ms (weight_list w))") auto
  show ?thesis
  proof (cases "0 < t")
    case True
    with num t u have "in_unit (fdiv binary32 (Fin u) (Fin t))" by (intro fdiv_ratio_in_unit) simp_all
    with True t u show ?thesis by (simp add: weighted_overall_def Let_def)
  qed (use t in \<open>simp add: weighted_overall_def Let_def\<close>)
qed

lemma bonus_bounds: "\<exists>x. recommendation_type_bonus r s = Fin x \<and> - 1 \<le> x \<and> x \<le> 1"
proof -
  have "\<exists>x. f32_lit q = Fin x \<and> - 1 \<le> x \<and> x \<le> 1" if "- 1 \<le> q" "q \<le> 1" for q
    using rnd_between [of binary32 "- 1" 1 q] that max_fin_ge_1 [of binary32] unfolding f32_lit_def by force
  then show ?thesis by (cases r) (simp_all add: Let_def split: option.split)
qed

lemma boosted_unit:
  assumes "in_unit x" "- 1 \<le> b" "b \<le> 1"
  shows "in_unit (fmin (fmul binary32 x (fadd binary32 (f32_lit 1) (Fin b))) (f32_lit 1))"
proof -
  obtain z where z: "x = Fin z" "0 \<le> z" using assms(1) by (auto simp: in_unit_iff)
  have "representable binary32 2" using representable_pow2 [of binary32 1] by simp
  moreover have "2 \<le> max_fin binary32" using nat_float [of 2] by simp
  ultimately obtain y where "rnd binary32 (1 + b) = Fin y" "0 \<le> y"
    using rnd_between [of binary32 0 2 "1 + b"] assms(2,3) max_fin_ge_1 [of binary32] by force
  then show ?thesis using z by (simp add: fmin_one rnd_nonneg)
qed

text \<open>
  On states with readings, and for weights that are single-precision numbers, of the unit interval, all six
  metrics of a recommendation and its overall score are values of the unit interval, whatever the rounding does.
\<close>

lemma score_unit:
  assumes "root_like fsqrt" "unit_state before" "unit_state after" "unit_weights w"
  shows "unit_score (score_recommendation fsqrt r before after w)"
proof -
  have m: "in_unit (score_fault_reduction before after)" "in_unit (score_swap_reduction before after)" "in_unit (score_zram_efficiency before after)"
    "in_unit (score_pressure_reduction before after)" "in_unit (score_tier_balance fsqrt before after)" "in_unit (score_stability before after)"
    using assms pressures_unit [OF assms(2)] pressures_unit [OF assms(3)]
    by (simp_all add: score_fault_reduction_def score_swap_reduction_def score_pressure_reduction_def score_tier_balance_def score_stability_def
        reduction_unit halved_unit balance_unit system_stability_unit zram_efficiency_unit unit_state_def)
  then have "in_unit (weighted_overall [score_fault_reduction before after, score_swap_reduction before after, score_zram_efficiency before after,
      score_pressure_reduction before after, score_tier_balance fsqrt before after, score_stability before after] w)"
    by (intro weighted_unit [OF _ _ assms(4)]) simp_all
  moreover obtain b where "recommendation_type_bonus r before = Fin b" "- 1 \<le> b" "b \<le> 1" using bonus_bounds by blast
  ultimately show ?thesis using m boosted_unit by (simp add: unit_score_def score_recommendation_def Let_def)
qed

lemma rep_by_24:
  assumes "0 \<le> m" "m < 2 ^ 24" "- 149 \<le> e" "(of_int m :: rat) * 2 powi e \<le> 1"
  shows "is_float binary32 (Fin (of_int m * 2 powi e))"
proof -
  have "\<bar>(of_int m :: rat) * 2 powi e\<bar> = of_int m * 2 powi e" using assms(1) by (simp add: less_imp_le)
  moreover have "precision binary32 = 24" "exp_lsb binary32 = - 149" by (simp_all add: binary32_def)
  ultimately show ?thesis using assms max_fin_ge_1 [OF wf_binary(1)] unfolding is_float_def representable_def by auto
qed

lemma default_weights: "unit_weights scoring_weights_default"
proof -
  have v: "f32_lit (25 / 100) = Fin (of_int 1 * 2 powi (- 2))" "f32_lit (20 / 100) = Fin (of_int 13421773 * 2 powi (- 26))"
    "f32_lit (15 / 100) = Fin (of_int 10066330 * 2 powi (- 26))" "f32_lit (10 / 100) = Fin (of_int 13421773 * 2 powi (- 27))"
    unfolding f32_lit_def
    by (subst rnd_eval [where k = "-2" and e = "-25" and m = 8388608], simp_all add: f32_eval power_int_def)
       (subst rnd_eval [where k = "-3" and e = "-26" and m = 13421773], simp_all add: f32_eval power_int_def,
        subst rnd_eval [where k = "-3" and e = "-26" and m = 10066330], simp_all add: f32_eval power_int_def,
        subst rnd_eval [where k = "-4" and e = "-27" and m = 13421773], simp_all add: f32_eval power_int_def)
  have "is_float binary32 (f32_lit (25 / 100))" "is_float binary32 (f32_lit (20 / 100))" "is_float binary32 (f32_lit (15 / 100))" "is_float binary32 (f32_lit (10 / 100))"
    unfolding v by ((rule rep_by_24, simp_all add: power_int_def power_one_over)[1])+
  then show ?thesis by (simp add: unit_weights_def weight_list_def scoring_weights_default_def in_unit_lit)
qed

text \<open>
  C34: The scores of an evaluation of fewer than \<open>2\<^sup>2\<^sup>4\<close> recommendations, averages of single-precision sums, are values of the unit
  interval too.
\<close>

theorem evaluation_score_in_unit:
  assumes "root_like fsqrt" "unit_state before" "unit_state after" "length rs < 2 ^ 24"
  shows "unit_score (score_policy_evaluation fsqrt rs before after)"
proof -
  let ?score = "\<lambda>r. score_recommendation fsqrt r before after scoring_weights_default"
  have one: "unit_score (?score r)" for r by (rule score_unit [OF assms(1,2,3) default_weights])
  show ?thesis
  proof (cases "rs = []")
    case True
    then show ?thesis using one by (simp add: score_policy_evaluation_def)
  next
    case False
    have "in_unit (mean_of f (map ?score rs))" if "\<And>r. in_unit (f (?score r))" for f
      using that False assms(4) mean_unit [of "map f (map ?score rs)"] by (simp add: mean_of_def list_all_iff)
    then show ?thesis using False one by (simp add: score_policy_evaluation_def Let_def unit_score_def)
  qed
qed

theorem evaluation_score_in_unit_witness:
  "unit_score (score_policy_evaluation (\<lambda>x. x) [NoAction [] (Fin 1) [], DemoteHot GpuVram Disk (Fin 1) []] idle_state (idle_state\<lparr>ss_zram_utilization := Some (Fin 1)\<rparr>))"
  by (rule evaluation_score_in_unit) (simp_all add: root_like_def unit_state_def idle_state_def pressure_new_def)

section \<open>What the baseline recommends\<close>

text \<open>
  The baseline always recommends something, with a confidence of the unit interval, and never moves to ZRAM, promotes or
  demotes; it swaps out only when the pressure is at least high, and does nothing exactly at low pressure or at medium pressure with
  DRAM at most 80 percent full.
\<close>

theorem baseline_reactive:
  "evaluate_baseline s \<noteq> [] \<and> list_all (\<lambda>b. in_unit (bl_confidence b)) (evaluate_baseline s)
    \<and> list_all (\<lambda>b. rec_kind (from_baseline hash b) \<in> {''evict_cold'', ''move_to_disk_swap'', ''no_action''}) (evaluate_baseline s)
    \<and> (list_ex (\<lambda>b. bl_action b = BlNoAction) (evaluate_baseline s) \<longleftrightarrow>
        linux_pressure_level s = LpLow \<or> linux_pressure_level s = LpMedium \<and> \<not> fgt (ss_dram_utilization s) (f32_lit (8 / 10)))
    \<and> (list_ex (\<lambda>b. bl_action b = BlSwapOut) (evaluate_baseline s) \<longleftrightarrow>
        linux_pressure_level s = LpCritical \<or> linux_pressure_level s = LpHigh \<and> fgt (ss_swap_utilization s) (f32_lit (8 / 10)))"
proof -
  have c: "in_unit (bl_confidence (baseline_new a q r))" if "0 \<le> q" "q \<le> 1" for a q r using that by (simp add: baseline_new_def in_unit_lit)
  have k: "rec_kind (from_baseline hash (baseline_new a q r)) \<in> {''evict_cold'', ''move_to_disk_swap'', ''no_action''}" for a q r
    by (cases a) (simp_all add: baseline_new_def from_baseline_def)
  have a: "bl_action (baseline_new a q r) = a" for a q r by (simp add: baseline_new_def)
  note defs = evaluate_baseline_def baseline_low_def baseline_medium_def baseline_high_def baseline_critical_def
  show ?thesis by (cases "linux_pressure_level s") (simp_all add: defs a c k del: insert_iff)
qed

end
