(* ===== verification/Eval_Adaptive.thy ===== *)
theory Eval_Adaptive
  imports Eval_Score
begin

text \<open>
  \<^verbatim>\<open>ghost-evaluator/src/adaptive.rs\<close>: temperature thresholds that follow pressure and occupancy. The occupancy per tier is a \<^verbatim>\<open>HashMap\<close> in the source; here it is the list of
  its entries in the order of iteration, which the source leaves open. The main fact: over any updates with readings of the unit interval the
  thresholds stay in their ranges and in their order, rounding included, so that the classification is never degenerate.
\<close>

section \<open>The model\<close>

datatype temperature_class = TcHot | TcWarm | TcCold | TcFrozen

record temperature_thresholds =
  th_hot :: f32
  th_warm :: f32
  th_cold :: f32
  th_frozen :: f32

record adaptive_model =
  am_hot :: f32
  am_cold :: f32
  am_initial_hot :: f32
  am_initial_cold :: f32
  am_pressure_history :: "f32 list"
  am_tier_occupancy :: "(tier_id \<times> f32) list"
  am_adjustment_rate :: f32

text \<open>\<^verbatim>\<open>f32::clamp\<close> with constant bounds, the lower one below the upper one.\<close>

definition clamp_between :: "f32 \<Rightarrow> f32 \<Rightarrow> f32 \<Rightarrow> f32" where
  "clamp_between lo hi x = (if flt x lo then lo else if flt hi x then hi else x)"

definition clamp_hot :: "f32 \<Rightarrow> f32" where
  "clamp_hot = clamp_between (f32_lit (5 / 10)) (f32_lit (95 / 100))"

definition clamp_cold :: "f32 \<Rightarrow> f32" where
  "clamp_cold = clamp_between (f32_lit (5 / 100)) (f32_lit (5 / 10))"

definition adaptive_new :: "f32 \<Rightarrow> f32 \<Rightarrow> f32 \<Rightarrow> adaptive_model" where
  "adaptive_new hot cold rate = \<lparr>am_hot = clamp_hot hot, am_cold = clamp_cold cold, am_initial_hot = clamp_hot hot, am_initial_cold = clamp_cold cold,
     am_pressure_history = [], am_tier_occupancy = [], am_adjustment_rate = clamp01 rate\<rparr>"

definition lerp :: "f32 \<Rightarrow> f32 \<Rightarrow> f32 \<Rightarrow> f32" where
  "lerp x goal rate = fadd binary32 x (fmul binary32 (fsub binary32 goal x) rate)"

definition average_occupancy :: "(tier_id \<times> f32) list \<Rightarrow> f32" where
  "average_occupancy occ = (if occ = [] then f32_lit 0 else fdiv binary32 (fsum binary32 (map snd occ)) (of_len binary32 (length occ)))"

text \<open>The target that a reading asks for: the initial threshold, moved against the deviation from one half.\<close>

definition adapted_target :: "f32 \<Rightarrow> f32 \<Rightarrow> f32 \<Rightarrow> f32 \<Rightarrow> f32" where
  "adapted_target initial reading rate factor =
     fadd binary32 initial (fmul binary32 (fmul binary32 (fneg (fsub binary32 reading (f32_lit (5 / 10)))) rate) factor)"

definition adaptive_update :: "f32 \<Rightarrow> (tier_id \<times> f32) list \<Rightarrow> adaptive_model \<Rightarrow> adaptive_model" where
  "adaptive_update pressure occ m =
     (let rate = am_adjustment_rate m;
          target_hot = adapted_target (am_initial_hot m) pressure rate (f32_lit (2 / 10));
          target_cold = adapted_target (am_initial_cold m) (average_occupancy occ) rate (f32_lit (1 / 10))
      in m\<lparr>am_pressure_history := am_pressure_history m @ [clamp01 pressure], am_tier_occupancy := occ,
           am_hot := clamp_hot (lerp (am_hot m) target_hot rate), am_cold := clamp_cold (lerp (am_cold m) target_cold rate)\<rparr>)"

definition thresholds :: "adaptive_model \<Rightarrow> temperature_thresholds" where
  "thresholds m = \<lparr>th_hot = am_hot m, th_warm = fdiv binary32 (fadd binary32 (am_hot m) (am_cold m)) (f32_lit 2), th_cold = am_cold m,
     th_frozen = fmul binary32 (am_cold m) (f32_lit (8 / 10))\<rparr>"

definition adaptive_classify :: "f32 \<Rightarrow> adaptive_model \<Rightarrow> temperature_class" where
  "adaptive_classify t m = (let th = thresholds m in
     if fge t (th_hot th) then TcHot else if fge t (th_warm th) then TcWarm else if fge t (th_cold th) then TcCold else TcFrozen)"

definition adaptive_reset :: "adaptive_model \<Rightarrow> adaptive_model" where
  "adaptive_reset m = m\<lparr>am_hot := am_initial_hot m, am_cold := am_initial_cold m, am_pressure_history := [], am_tier_occupancy := []\<rparr>"

definition adaptive_pressure_trend :: "adaptive_model \<Rightarrow> f32" where
  "adaptive_pressure_trend m = (let h = am_pressure_history m in
     if length h < 2 then f32_lit 0 else fdiv binary32 (fsub binary32 (last h) (hd h)) (of_len binary32 (length h)))"

section \<open>Rounding gives floats\<close>

lemma round_mag_representable:
  assumes "0 < precision fm"
  shows "representable fm (round_mag fm x)"
proof (cases "x \<le> 0")
  case False
  then have x: "0 < x" by simp
  let ?e = "lsb_exp fm x"
  let ?m = "round_even (x / 2 powi ?e)"
  have "x < 2 powi (ilog2 x + 1)" by (rule ilog2_bounds(2) [OF x])
  also have "\<dots> \<le> 2 powi (int (precision fm) + ?e)" by (rule powi_mono) (simp add: lsb_exp_def)
  also have "\<dots> = of_int (2 ^ precision fm) * 2 powi ?e" by (simp add: power_int_add)
  finally have up: "?m \<le> 2 ^ precision fm" by (intro round_even_le) (simp add: divide_le_eq)
  have r: "round_mag fm x = of_int ?m * 2 powi ?e" using x by (simp add: round_mag_def)
  have e: "exp_lsb fm \<le> ?e" by (simp add: lsb_exp_def)
  have nn: "\<bar>round_mag fm x\<bar> = round_mag fm x" using round_mag_nonneg [of fm x] by simp
  show ?thesis
  proof (cases "?m = 2 ^ precision fm")
    case True
    have "(2 :: rat) ^ precision fm * 2 powi ?e = 2 ^ (precision fm - 1) * 2 powi (?e + 1)"
      using assms by (cases "precision fm") (simp_all add: power_int_add)
    then have "\<bar>round_mag fm x\<bar> = of_int (2 ^ (precision fm - 1)) * 2 powi (?e + 1)" using nn r True by simp
    moreover have "(2 :: int) ^ (precision fm - 1) < 2 ^ precision fm" using assms by (intro power_strict_increasing) simp_all
    moreover have "exp_lsb fm \<le> ?e + 1" using e by simp
    ultimately show ?thesis unfolding representable_def by blast
  next
    case False
    then have "?m < 2 ^ precision fm" using up by simp
    then show ?thesis unfolding representable_def nn using r e by blast
  qed
qed (simp add: round_mag_def)

lemma rnd_is_float: "wf_format fm \<Longrightarrow> is_float fm (rnd fm x)"
  using round_mag_representable [of fm x] round_mag_representable [of fm "- x"]
  by (auto simp: is_float_def rnd_def round_unb_def Let_def wf_format_def abs_le_iff not_less)

section \<open>Values that stay bounded\<close>

definition bounded_by :: "nat \<Rightarrow> fl \<Rightarrow> bool" where
  "bounded_by n v \<longleftrightarrow> (\<exists>x. v = Fin x \<and> \<bar>x\<bar> \<le> of_nat n)"

lemma rnd_bounded:
  assumes "\<bar>x\<bar> \<le> of_nat n" "n < 2 ^ 24"
  shows "bounded_by n (rnd binary32 x)"
proof -
  obtain y where "rnd binary32 x = Fin y" "- of_nat n \<le> y" "y \<le> of_nat n"
    using rnd_between [of binary32 "- of_nat n" "of_nat n" x] nat_float [OF assms(2)] assms(1) by (force simp: abs_le_iff)
  then show ?thesis by (simp add: bounded_by_def abs_le_iff)
qed

lemma bounded_ops:
  assumes "bounded_by a x" "bounded_by b y"
  shows "a + b < 2 ^ 24 \<Longrightarrow> bounded_by (a + b) (fadd binary32 x y)" "a + b < 2 ^ 24 \<Longrightarrow> bounded_by (a + b) (fsub binary32 x y)"
    "a * b < 2 ^ 24 \<Longrightarrow> bounded_by (a * b) (fmul binary32 x y)"
proof -
  obtain u v where uv: "x = Fin u" "\<bar>u\<bar> \<le> of_nat a" "y = Fin v" "\<bar>v\<bar> \<le> of_nat b" using assms by (auto simp: bounded_by_def)
  then have "\<bar>u + v\<bar> \<le> of_nat (a + b)" "\<bar>u - v\<bar> \<le> of_nat (a + b)" by simp_all
  moreover have "\<bar>u * v\<bar> \<le> of_nat (a * b)" using uv by (simp add: abs_mult mult_mono)
  ultimately show "a + b < 2 ^ 24 \<Longrightarrow> bounded_by (a + b) (fadd binary32 x y)" "a + b < 2 ^ 24 \<Longrightarrow> bounded_by (a + b) (fsub binary32 x y)"
    "a * b < 2 ^ 24 \<Longrightarrow> bounded_by (a * b) (fmul binary32 x y)"
    using uv by (simp_all only: fadd.simps fsub_def fmul.simps fneg.simps add_uminus_conv_diff rnd_bounded)
qed

lemma bounded_unit: "in_unit x \<Longrightarrow> bounded_by 1 x"
  by (auto simp: in_unit_iff bounded_by_def)

lemma bounded_not_NaN: "bounded_by n x \<Longrightarrow> x \<noteq> NaN"
  by (auto simp: bounded_by_def)

lemma bounded_neg: "bounded_by n x \<Longrightarrow> bounded_by n (fneg x)"
  by (auto simp: bounded_by_def)

lemma target_bounded:
  assumes "in_unit initial" "in_unit reading" "in_unit rate" "in_unit factor"
  shows "bounded_by 3 (adapted_target initial reading rate factor)"
proof -
  have "bounded_by (1 + 1) (fsub binary32 reading (f32_lit (5 / 10)))"
    by (rule bounded_ops(2) [OF bounded_unit [OF assms(2)] bounded_unit [OF unit_lits(3)]]) simp
  then have "bounded_by 2 (fsub binary32 reading (f32_lit (5 / 10)))" unfolding one_add_one .
  then have "bounded_by 2 (fmul binary32 (fneg (fsub binary32 reading (f32_lit (5 / 10)))) rate)"
    using bounded_ops(3) [OF bounded_neg bounded_unit [OF assms(3)], of 2] by simp
  then have "bounded_by 2 (fmul binary32 (fmul binary32 (fneg (fsub binary32 reading (f32_lit (5 / 10)))) rate) factor)"
    using bounded_ops(3) [OF _ bounded_unit [OF assms(4)], of 2] by simp
  from bounded_ops(1) [OF bounded_unit [OF assms(1)] this] have "bounded_by (1 + 2) (adapted_target initial reading rate factor)"
    unfolding adapted_target_def by simp
  moreover have "(1 + 2 :: nat) = 3" by simp
  ultimately show ?thesis by (simp only:)
qed

lemma lerp_bounded:
  assumes "in_unit x" "bounded_by 3 t" "in_unit rate"
  shows "bounded_by 5 (lerp x t rate)"
proof -
  have "bounded_by 4 (fmul binary32 (fsub binary32 t x) rate)"
    using bounded_ops(3) [OF bounded_ops(2) [OF assms(2) bounded_unit [OF assms(1)]] bounded_unit [OF assms(3)]] by simp
  then show ?thesis using bounded_ops(1) [OF bounded_unit [OF assms(1)], of 4] by (simp add: lerp_def)
qed

section \<open>The thresholds stay in their ranges\<close>

definition hot_ok :: "f32 \<Rightarrow> bool" where
  "hot_ok v \<longleftrightarrow> fle (Fin (1 / 2)) v \<and> fle v (f32_lit (95 / 100)) \<and> is_float binary32 v"

definition cold_ok :: "f32 \<Rightarrow> bool" where
  "cold_ok v \<longleftrightarrow> fle (f32_lit (5 / 100)) v \<and> fle v (Fin (1 / 2)) \<and> is_float binary32 v"

definition model_ok :: "adaptive_model \<Rightarrow> bool" where
  "model_ok m \<longleftrightarrow> hot_ok (am_hot m) \<and> cold_ok (am_cold m) \<and> hot_ok (am_initial_hot m) \<and> cold_ok (am_initial_cold m) \<and> in_unit (am_adjustment_rate m)"

lemma lit_95: "f32_lit (95 / 100) = Fin (15938355 / 16777216)"
  unfolding f32_lit_def by (subst rnd_eval [where k = "-1" and e = "-24" and m = 15938355]) (simp_all add: f32_eval)

lemma lit_05: "f32_lit (5 / 100) = Fin (13421773 / 268435456)"
  unfolding f32_lit_def by (subst rnd_eval [where k = "-5" and e = "-28" and m = 13421773]) (simp_all add: f32_eval)

lemma lit_half: "f32_lit (5 / 10) = Fin (1 / 2)"
  by simp

lemma lit_float: "is_float binary32 (f32_lit q)"
  by (simp add: f32_lit_def rnd_is_float)

lemma clamp_between_ok:
  assumes "fle lo hi" "x \<noteq> NaN" "is_float binary32 x" "is_float binary32 lo" "is_float binary32 hi"
  shows "fle lo (clamp_between lo hi x) \<and> fle (clamp_between lo hi x) hi \<and> is_float binary32 (clamp_between lo hi x)"
proof -
  have "lo \<noteq> NaN" "hi \<noteq> NaN" using assms(1) by auto
  then show ?thesis using assms not_flt [of x lo] not_flt [of hi x] fle_refl [of lo] fle_refl [of hi] by (auto simp: clamp_between_def)
qed

lemma clamp_hot_ok: "x \<noteq> NaN \<Longrightarrow> is_float binary32 x \<Longrightarrow> hot_ok (clamp_hot x)"
  using clamp_between_ok [of "f32_lit (5 / 10)" "f32_lit (95 / 100)" x] lit_float [of "5 / 10"] lit_float [of "95 / 100"]
  unfolding clamp_hot_def hot_ok_def lit_half lit_95 by simp

lemma clamp_cold_ok: "x \<noteq> NaN \<Longrightarrow> is_float binary32 x \<Longrightarrow> cold_ok (clamp_cold x)"
  using clamp_between_ok [of "f32_lit (5 / 100)" "f32_lit (5 / 10)" x] lit_float [of "5 / 10"] lit_float [of "5 / 100"]
  unfolding clamp_cold_def cold_ok_def lit_half lit_05 by simp

lemma ok_unit: "hot_ok v \<Longrightarrow> in_unit v" "cold_ok v \<Longrightarrow> in_unit v"
  unfolding hot_ok_def cold_ok_def lit_95 lit_05 by (cases v; auto)+

lemma lerp_float:
  assumes "in_unit x" "bounded_by 3 t" "in_unit rate"
  shows "is_float binary32 (lerp x t rate)"
proof -
  have "bounded_by 4 (fmul binary32 (fsub binary32 t x) rate)"
    using bounded_ops(3) [OF bounded_ops(2) [OF assms(2) bounded_unit [OF assms(1)]] bounded_unit [OF assms(3)]] by simp
  with assms(1) show ?thesis by (auto simp: lerp_def in_unit_iff bounded_by_def rnd_is_float)
qed

lemma average_unit:
  assumes "list_all (in_unit \<circ> snd) occ" "length occ < 2 ^ 24"
  shows "in_unit (average_occupancy occ)"
  using assms mean_unit [of "map snd occ"] by (auto simp: average_occupancy_def list_all_iff)

definition readings_ok :: "f32 \<Rightarrow> (tier_id \<times> f32) list \<Rightarrow> bool" where
  "readings_ok p occ \<longleftrightarrow> in_unit p \<and> list_all (in_unit \<circ> snd) occ \<and> length occ < 2 ^ 24"

lemma update_ok:
  assumes "model_ok m" "readings_ok p occ"
  shows "model_ok (adaptive_update p occ m)"
proof -
  have u: "in_unit (am_hot m)" "in_unit (am_cold m)" "in_unit (am_initial_hot m)" "in_unit (am_initial_cold m)" "in_unit (am_adjustment_rate m)"
    using assms(1) ok_unit by (auto simp: model_ok_def)
  have r: "in_unit p" "in_unit (average_occupancy occ)" using assms(2) average_unit by (auto simp: readings_ok_def)
  have l: "in_unit (f32_lit (2 / 10))" "in_unit (f32_lit (1 / 10))" by (simp_all add: in_unit_lit)
  note hot = target_bounded [OF u(3) r(1) u(5) l(1)]
  note cold = target_bounded [OF u(4) r(2) u(5) l(2)]
  have "hot_ok (clamp_hot (lerp (am_hot m) (adapted_target (am_initial_hot m) p (am_adjustment_rate m) (f32_lit (2 / 10))) (am_adjustment_rate m)))"
    using lerp_bounded [OF u(1) hot u(5)] lerp_float [OF u(1) hot u(5)] by (intro clamp_hot_ok) (auto dest: bounded_not_NaN)
  moreover have "cold_ok (clamp_cold (lerp (am_cold m) (adapted_target (am_initial_cold m) (average_occupancy occ) (am_adjustment_rate m) (f32_lit (1 / 10))) (am_adjustment_rate m)))"
    using lerp_bounded [OF u(2) cold u(5)] lerp_float [OF u(2) cold u(5)] by (intro clamp_cold_ok) (auto dest: bounded_not_NaN)
  ultimately show ?thesis using assms(1) by (simp add: model_ok_def adaptive_update_def Let_def)
qed

datatype adaptive_op = Adapt f32 "(tier_id \<times> f32) list" | AdaptReset

fun adaptive_step :: "adaptive_op \<Rightarrow> adaptive_model \<Rightarrow> adaptive_model" where
  "adaptive_step (Adapt p occ) m = adaptive_update p occ m"
| "adaptive_step AdaptReset m = adaptive_reset m"

fun op_readings_ok :: "adaptive_op \<Rightarrow> bool" where
  "op_readings_ok (Adapt p occ) = readings_ok p occ"
| "op_readings_ok AdaptReset = True"

lemma adaptive_run_ok: "model_ok m \<Longrightarrow> list_all op_readings_ok xs \<Longrightarrow> model_ok (fold adaptive_step xs m)"
proof (induction xs arbitrary: m)
  case (Cons x xs)
  then have "model_ok (adaptive_step x m)" by (cases x) (simp_all add: update_ok, simp add: model_ok_def adaptive_reset_def)
  with Cons show ?case by simp
qed simp

lemma representable_double: "representable fm x \<Longrightarrow> representable fm (2 * x)"
proof -
  assume "representable fm x"
  then obtain m e where m: "\<bar>x\<bar> = of_int m * 2 powi e" "m < 2 ^ precision fm" "exp_lsb fm \<le> e" by (auto simp: representable_def)
  then have "\<bar>2 * x\<bar> = of_int m * 2 powi (e + 1)" by (simp add: abs_mult powi_Suc)
  moreover have "exp_lsb fm \<le> e + 1" using m(3) by simp
  ultimately show ?thesis unfolding representable_def using m(2) by blast
qed

lemma midpoint_between:
  assumes "is_float binary32 (Fin c)" "is_float binary32 (Fin h)" "0 \<le> c" "c \<le> h" "h \<le> 1"
  shows "\<exists>w. fdiv binary32 (fadd binary32 (Fin h) (Fin c)) (f32_lit 2) = Fin w \<and> c \<le> w \<and> w \<le> h"
proof -
  have two: "2 \<le> max_fin binary32" using nat_float [of 2] by simp
  have rep: "representable binary32 c" "representable binary32 h" using assms(1,2) by (simp_all add: is_float_def)
  obtain y where y: "rnd binary32 (h + c) = Fin y" "2 * c \<le> y" "y \<le> 2 * h"
    by (rule rnd_between [of binary32 "2 * c" "2 * h" "h + c"]) (use rep assms(3-5) two in \<open>simp_all add: representable_double\<close>)
  obtain w where "rnd binary32 (y / 2) = Fin w" "c \<le> w" "w \<le> h"
    by (rule rnd_between [of binary32 c h "y / 2"]) (use rep assms(3-5) two y in simp_all)
  moreover have "f32_lit 2 = Fin 2" using nat_float [of 2] by (simp add: f32_lit_def rnd_exact)
  ultimately show ?thesis using y(1) by auto
qed

text \<open>
  C35: Over any updates and resets with readings of the unit interval the hot threshold stays between 0.5 and 0.95 and the cold one between 0.05 and 0.5, and
  the warm threshold between the two, whatever the rounding does.
\<close>

theorem thresholds_ordered:
  assumes "hot \<noteq> NaN" "cold \<noteq> NaN" "rate \<noteq> NaN" "is_float binary32 hot" "is_float binary32 cold" "list_all op_readings_ok xs"
  shows "let th = thresholds (fold adaptive_step xs (adaptive_new hot cold rate)) in
    fle (f32_lit (5 / 100)) (th_cold th) \<and> fle (th_cold th) (f32_lit (5 / 10)) \<and> fle (f32_lit (5 / 10)) (th_hot th) \<and> fle (th_hot th) (f32_lit (95 / 100))
    \<and> fle (th_cold th) (th_warm th) \<and> fle (th_warm th) (th_hot th)"
proof -
  let ?m = "fold adaptive_step xs (adaptive_new hot cold rate)"
  have "model_ok (adaptive_new hot cold rate)"
    using assms(1-5) by (simp add: model_ok_def adaptive_new_def clamp_hot_ok clamp_cold_ok clamp01_in_unit)
  from adaptive_run_ok [OF this assms(6)] have ok: "hot_ok (am_hot ?m)" "cold_ok (am_cold ?m)" by (simp_all add: model_ok_def)
  then obtain h c where hc: "am_hot ?m = Fin h" "am_cold ?m = Fin c" using ok_unit by (metis in_unit_iff)
  have "\<exists>w. fdiv binary32 (fadd binary32 (Fin h) (Fin c)) (f32_lit 2) = Fin w \<and> c \<le> w \<and> w \<le> h"
    using ok ok_unit(1) [OF ok(1)] ok_unit(2) [OF ok(2)] unfolding hc by (intro midpoint_between) (simp_all add: hot_ok_def cold_ok_def)
  then show ?thesis using ok unfolding thresholds_def Let_def hc by (auto simp: hot_ok_def cold_ok_def)
qed

theorem thresholds_ordered_witness:
  "let th = thresholds (fold adaptive_step [Adapt (Fin 1) [(Ram, Fin 0), (Disk, Fin 1)], AdaptReset, Adapt (Fin 0) []] (adaptive_new (Fin 1) (Fin 0) (Fin 1))) in
    fle (th_cold th) (th_warm th) \<and> fle (th_warm th) (th_hot th)"
  using thresholds_ordered [of "Fin 1" "Fin 0" "Fin 1" "[Adapt (Fin 1) [(Ram, Fin 0), (Disk, Fin 1)], AdaptReset, Adapt (Fin 0) []]"] max_fin_ge_1 [of binary32]
  by (simp add: is_float_def readings_ok_def Let_def)

section \<open>The classification follows the temperature\<close>

fun class_rank :: "temperature_class \<Rightarrow> nat" where
  "class_rank TcFrozen = 0"
| "class_rank TcCold = 1"
| "class_rank TcWarm = 2"
| "class_rank TcHot = 3"

lemma classify_monotone: "fle s t \<Longrightarrow> class_rank (adaptive_classify s m) \<le> class_rank (adaptive_classify t m)"
  by (auto simp: adaptive_classify_def Let_def dest: fle_trans)

end
