(* ===== verification/Eval_Stability.thy ===== *)
theory Eval_Stability
  imports Eval_Adaptive
begin

text \<open>
  \<^verbatim>\<open>ghost-evaluator/src/stability.rs\<close> and \<^verbatim>\<open>lifecycle.rs\<close>: the sliding window of recommendations with its stability index, and the record of temperature
  transitions per region. The regions are a \<^verbatim>\<open>HashMap\<close> in the source; where its order of iteration matters, for the most active and the most stable region,
  the order is an argument. The main facts: the stability index is a value of the unit interval for every history, NaN confidences included, the window is
  the most recent recommendations, and the counts of the lifecycle tracker are those of the calls.
\<close>

section \<open>The stability of recommendations\<close>

record recommendation_stability =
  recommendations_per_hour :: f32
  temperature_flips :: nat
  tier_oscillations :: nat
  confidence_variance :: f32
  stability_index :: f32

record stability_entry =
  se_timestamp :: u64
  se_recommendation :: recommendation
  se_state :: system_state

record stability_tracker =
  sk_history :: "stability_entry list"
  sk_window_size :: nat

definition stability_tracker_new :: "nat \<Rightarrow> stability_tracker" where
  "stability_tracker_new n = \<lparr>sk_history = [], sk_window_size = n\<rparr>"

definition stability_record :: "recommendation \<Rightarrow> system_state \<Rightarrow> u64 \<Rightarrow> stability_tracker \<Rightarrow> stability_tracker" where
  "stability_record r s ts t = (let h = sk_history t @ [\<lparr>se_timestamp = ts, se_recommendation = r, se_state = s\<rparr>] in
     t\<lparr>sk_history := (if length h > sk_window_size t then tl h else h)\<rparr>)"

definition recommendation_rate :: "stability_tracker \<Rightarrow> f32" where
  "recommendation_rate t =
     (let h = sk_history t; n = length (filter (\<lambda>e. \<not> is_no_action (se_recommendation e)) h) in
      if n = 0 then f32_lit 0
      else if length h < 2 then of_len binary32 n
      else let secs = saturating_sub (se_timestamp (last h)) (se_timestamp (hd h)) in
        if secs = 0 then of_len binary32 n
        else fdiv binary32 (of_len binary32 n) (fdiv binary32 (of_word binary32 secs) (f32_lit 3600)))"

fun temperature_direction :: "recommendation \<Rightarrow> int option" where
  "temperature_direction (PromoteToDram _ _ _ _) = Some 1"
| "temperature_direction (MoveToZram _ _ _ _) = Some (- 1)"
| "temperature_direction (MoveToDiskSwap _ _ _ _) = Some (- 1)"
| "temperature_direction (EvictCold _ _ _ _) = Some (- 1)"
| "temperature_direction (DemoteHot _ _ _ _) = Some (- 1)"
| "temperature_direction (NoAction _ _ _) = None"

fun direction_changes :: "int list \<Rightarrow> nat" where
  "direction_changes (x # y # xs) = (if x \<noteq> y then 1 else 0) + direction_changes (y # xs)"
| "direction_changes _ = 0"

definition count_temperature_flips :: "stability_tracker \<Rightarrow> nat" where
  "count_temperature_flips t = direction_changes (List.map_filter (temperature_direction \<circ> se_recommendation) (sk_history t))"

fun promoted_chunk :: "recommendation \<Rightarrow> chunk_id option" where
  "promoted_chunk (PromoteToDram c _ _ _) = Some c"
| "promoted_chunk _ = None"

fun demoted_chunk :: "recommendation \<Rightarrow> chunk_id option" where
  "demoted_chunk (MoveToZram c _ _ _) = Some c"
| "demoted_chunk (MoveToDiskSwap c _ _ _) = Some c"
| "demoted_chunk _ = None"

fun count_unique :: "chunk_id list \<Rightarrow> chunk_id list \<Rightarrow> chunk_id list \<Rightarrow> nat" where
  "count_unique demoted seen [] = 0"
| "count_unique demoted seen (p # ps) = (if p \<in> set demoted \<and> p \<notin> set seen then 1 + count_unique demoted (seen @ [p]) ps else count_unique demoted seen ps)"

definition count_tier_oscillations :: "stability_tracker \<Rightarrow> nat" where
  "count_tier_oscillations t = count_unique (List.map_filter (demoted_chunk \<circ> se_recommendation) (sk_history t)) []
     (List.map_filter (promoted_chunk \<circ> se_recommendation) (sk_history t))"

definition compute_confidence_variance :: "stability_tracker \<Rightarrow> f32" where
  "compute_confidence_variance t = (if sk_history t = [] then f32_lit 0
     else let cs = map (confidence \<circ> se_recommendation) (sk_history t); n = of_len binary32 (length cs); mean = fdiv binary32 (fsum binary32 cs) n
       in fdiv binary32 (fsum binary32 (map (\<lambda>c. let d = fsub binary32 c mean in fmul binary32 d d) cs)) n)"

text \<open>\<^verbatim>\<open>(1.0 - (x / limit).min(1.0)).max(0.0)\<close>\<close>

definition falling_factor :: "f32 \<Rightarrow> f32 \<Rightarrow> f32" where
  "falling_factor x limit = fmax (fsub binary32 (f32_lit 1) (fmin (fdiv binary32 x limit) (f32_lit 1))) (f32_lit 0)"

definition stability_evaluate :: "stability_tracker \<Rightarrow> recommendation_stability" where
  "stability_evaluate t =
     (let rate = recommendation_rate t; flips = count_temperature_flips t; osc = count_tier_oscillations t; var = compute_confidence_variance t;
          rf = falling_factor rate (f32_lit 3); ff = falling_factor (of_len binary32 flips) (f32_lit 2);
          ofa = falling_factor (of_len binary32 osc) (f32_lit 1); vf = falling_factor var (f32_lit (25 / 100))
      in \<lparr>recommendations_per_hour = rate, temperature_flips = flips, tier_oscillations = osc, confidence_variance = var,
          stability_index = clamp01 (chain_sum [fmul binary32 rf (f32_lit (20 / 100)), fmul binary32 ff (f32_lit (35 / 100)),
            fmul binary32 ofa (f32_lit (30 / 100)), fmul binary32 vf (f32_lit (15 / 100))])\<rparr>)"

definition tracker_is_stable :: "f32 \<Rightarrow> stability_tracker \<Rightarrow> bool" where
  "tracker_is_stable threshold t = fge (stability_index (stability_evaluate t)) threshold"

section \<open>The lifecycle of regions\<close>

record temperature_transition =
  tt_from :: temperature_class
  tt_to :: temperature_class
  tt_timestamp :: u64
  tt_reason :: message

record region_lifecycle =
  rl_region_id :: chunk_id
  rl_current :: temperature_class
  rl_transitions :: "temperature_transition list"
  rl_promotions :: nat
  rl_demotions :: nat
  rl_average_residency :: f32

record lifecycle_summary =
  lc_total_regions :: nat
  lc_hot_regions :: nat
  lc_cold_regions :: nat
  lc_frozen_regions :: nat
  lc_total_promotions :: nat
  lc_total_demotions :: nat
  lc_most_active :: "chunk_id option"
  lc_most_stable :: "chunk_id option"

type_synonym lifecycle_tracker = "(chunk_id, region_lifecycle) fmap"

definition lifecycle_new :: lifecycle_tracker where
  "lifecycle_new = fmempty"

definition fresh_region :: "chunk_id \<Rightarrow> temperature_class \<Rightarrow> region_lifecycle" where
  "fresh_region c temp = \<lparr>rl_region_id = c, rl_current = temp, rl_transitions = [], rl_promotions = 0, rl_demotions = 0, rl_average_residency = f32_lit 0\<rparr>"

definition average_residency :: "temperature_transition list \<Rightarrow> f32" where
  "average_residency ts = (if length ts < 2 then f32_lit 0
     else let total = saturating_sub (tt_timestamp (last ts)) (tt_timestamp (hd ts)); n = of_len binary32 (length ts) in
       if fgt n (f32_lit 0) then fdiv binary32 (of_word binary32 total) n else f32_lit 0)"

definition update_residency :: "chunk_id \<Rightarrow> lifecycle_tracker \<Rightarrow> lifecycle_tracker" where
  "update_residency c m = (case fmlookup m c of None \<Rightarrow> m | Some e \<Rightarrow> fmupd c (e\<lparr>rl_average_residency := average_residency (rl_transitions e)\<rparr>) m)"

definition on_region :: "chunk_id \<Rightarrow> temperature_class \<Rightarrow> (region_lifecycle \<Rightarrow> region_lifecycle) \<Rightarrow> lifecycle_tracker \<Rightarrow> lifecycle_tracker" where
  "on_region c temp f m = update_residency c (fmupd c (f (case fmlookup m c of Some e \<Rightarrow> e | None \<Rightarrow> fresh_region c temp)) m)"

definition lifecycle_transition :: "chunk_id \<Rightarrow> temperature_class \<Rightarrow> temperature_class \<Rightarrow> u64 \<Rightarrow> message \<Rightarrow> lifecycle_tracker \<Rightarrow> lifecycle_tracker" where
  "lifecycle_transition c fr to ts reason = on_region c fr (\<lambda>e. e\<lparr>rl_current := to,
     rl_transitions := rl_transitions e @ [\<lparr>tt_from = fr, tt_to = to, tt_timestamp = ts, tt_reason = reason\<rparr>]\<rparr>)"

definition lifecycle_promotion :: "chunk_id \<Rightarrow> u64 \<Rightarrow> lifecycle_tracker \<Rightarrow> lifecycle_tracker" where
  "lifecycle_promotion c ts = on_region c TcHot (\<lambda>e. e\<lparr>rl_promotions := rl_promotions e + 1, rl_current := TcHot,
     rl_transitions := rl_transitions e @ [\<lparr>tt_from = TcWarm, tt_to = TcHot, tt_timestamp = ts, tt_reason = [Lit ''promotion'']\<rparr>]\<rparr>)"

definition lifecycle_demotion :: "chunk_id \<Rightarrow> u64 \<Rightarrow> lifecycle_tracker \<Rightarrow> lifecycle_tracker" where
  "lifecycle_demotion c ts = on_region c TcCold (\<lambda>e. e\<lparr>rl_demotions := rl_demotions e + 1, rl_current := TcCold,
     rl_transitions := rl_transitions e @ [\<lparr>tt_from = TcWarm, tt_to = TcCold, tt_timestamp = ts, tt_reason = [Lit ''demotion'']\<rparr>]\<rparr>)"

definition get_lifecycle :: "chunk_id \<Rightarrow> lifecycle_tracker \<Rightarrow> region_lifecycle option" where
  "get_lifecycle c m = fmlookup m c"

text \<open>\<^verbatim>\<open>max_by_key\<close> returns the last of the greatest, \<^verbatim>\<open>min_by_key\<close> the first of the least, in the order of iteration.\<close>

fun last_max_by :: "('a \<Rightarrow> nat) \<Rightarrow> 'a list \<Rightarrow> 'a option" where
  "last_max_by f [] = None"
| "last_max_by f (x # xs) = Some (foldl (\<lambda>a y. if f a \<le> f y then y else a) x xs)"

fun first_min_by :: "('a \<Rightarrow> nat) \<Rightarrow> 'a list \<Rightarrow> 'a option" where
  "first_min_by f [] = None"
| "first_min_by f (x # xs) = Some (foldl (\<lambda>a y. if f y < f a then y else a) x xs)"

definition regions_in :: "chunk_id list \<Rightarrow> lifecycle_tracker \<Rightarrow> region_lifecycle list" where
  "regions_in order m = List.map_filter (fmlookup m) order"

definition most_active_region :: "chunk_id list \<Rightarrow> lifecycle_tracker \<Rightarrow> chunk_id option" where
  "most_active_region order m = map_option rl_region_id (last_max_by (length \<circ> rl_transitions) (regions_in order m))"

definition most_stable_region :: "chunk_id list \<Rightarrow> lifecycle_tracker \<Rightarrow> chunk_id option" where
  "most_stable_region order m = map_option rl_region_id (first_min_by (length \<circ> rl_transitions) (regions_in order m))"

definition count_class :: "temperature_class \<Rightarrow> region_lifecycle list \<Rightarrow> nat" where
  "count_class k rs = length (filter (\<lambda>r. rl_current r = k) rs)"

definition lifecycle_summary_of :: "chunk_id list \<Rightarrow> lifecycle_tracker \<Rightarrow> lifecycle_summary" where
  "lifecycle_summary_of order m = (let rs = regions_in order m in
     \<lparr>lc_total_regions = length rs, lc_hot_regions = count_class TcHot rs, lc_cold_regions = count_class TcCold rs, lc_frozen_regions = count_class TcFrozen rs,
      lc_total_promotions = sum_list (map rl_promotions rs), lc_total_demotions = sum_list (map rl_demotions rs),
      lc_most_active = most_active_region order m, lc_most_stable = most_stable_region order m\<rparr>)"

section \<open>The stability index\<close>

text \<open>A value that is either not negative or NaN.\<close>

definition nonneg_or_NaN :: "fl \<Rightarrow> bool" where
  "nonneg_or_NaN x \<longleftrightarrow> x = NaN \<or> fle (Fin 0) x"

lemma falling_factor_unit:
  assumes "nonneg_or_NaN x" "0 < q"
  shows "in_unit (falling_factor x (Fin q))"
proof -
  have "nonneg_or_NaN (fdiv binary32 x (Fin q))" using assms fdiv_nonneg [of binary32 x q] by (auto simp: nonneg_or_NaN_def)
  then have "in_unit (fmin (fdiv binary32 x (Fin q)) (Fin 1))"
    using fmin_one [of "fdiv binary32 x (Fin q)"] by (auto simp: nonneg_or_NaN_def fmin_def)
  then show ?thesis by (simp add: falling_factor_def fmax_in_unit one_minus_in_unit)
qed

lemma square_nonneg_or_NaN: "nonneg_or_NaN (fmul binary32 d d)"
  by (cases d) (auto simp: nonneg_or_NaN_def rnd_nonneg signed_inf_def)

lemma add_nonneg_or_NaN: "nonneg_or_NaN x \<Longrightarrow> nonneg_or_NaN y \<Longrightarrow> nonneg_or_NaN (fadd binary32 x y)"
  by (cases x; cases y) (auto simp: nonneg_or_NaN_def intro!: rnd_nonneg)

lemma fold_nonneg_or_NaN: "list_all nonneg_or_NaN xs \<Longrightarrow> nonneg_or_NaN a \<Longrightarrow> nonneg_or_NaN (foldl (fadd binary32) a xs)"
  by (induction xs arbitrary: a) (simp_all add: add_nonneg_or_NaN)

lemma div_len_nonneg_or_NaN: "nonneg_or_NaN x \<Longrightarrow> 0 < n \<Longrightarrow> nonneg_or_NaN (fdiv binary32 x (of_len binary32 n))"
proof -
  assume x: "nonneg_or_NaN x" and n: "0 < n"
  have l: "fle (Fin 1) (of_len binary32 n)" using n by (simp add: of_len_ge_1)
  show ?thesis
  proof (cases "of_len binary32 n")
    case (Fin y)
    with l have "0 < y" by simp
    with x Fin fdiv_nonneg [of binary32 x y] show ?thesis by (auto simp: nonneg_or_NaN_def)
  next
    case PInf
    with x show ?thesis by (cases x) (auto simp: nonneg_or_NaN_def)
  qed (use l in simp_all)
qed

lemma variance_nonneg_or_NaN: "nonneg_or_NaN (compute_confidence_variance t)"
proof (cases "sk_history t = []")
  case False
  then show ?thesis
    by (auto simp: compute_confidence_variance_def Let_def fsum_def list_all_iff square_nonneg_or_NaN intro!: div_len_nonneg_or_NaN fold_nonneg_or_NaN)
       (simp add: nonneg_or_NaN_def)
qed (simp add: compute_confidence_variance_def nonneg_or_NaN_def)

lemma f32_3600: "f32_lit 3600 = Fin 3600"
  using nat_float [of 3600] by (simp add: f32_lit_def rnd_exact)

lemma hours_positive:
  assumes "secs \<noteq> (0 :: u64)"
  shows "\<exists>h. fdiv binary32 (of_word binary32 secs) (f32_lit 3600) = Fin h \<and> 0 < h"
proof -
  obtain x where x: "of_word binary32 secs = Fin x" "0 \<le> x" "x \<le> 2 ^ 64" by (rule of_word_between [of binary32 secs]) simp_all
  have "1 \<le> unat secs" using assms by (simp add: Suc_le_eq unat_gt_0)
  then have "(1 :: rat) \<le> of_nat (unat secs)" by linarith
  then have "fle (rnd binary32 1) (of_word binary32 secs)" unfolding of_word_def by (intro rnd_mono) simp_all
  then have "1 \<le> x" using x(1) by simp
  have rep: "representable binary32 (1 / 4096)" unfolding representable_def
    by (rule exI [of _ 1], rule exI [of _ "- 12"]) (simp add: binary32_def power_int_def power_one_over)
  have big: "(2 :: rat) ^ 64 \<le> max_fin binary32" using holds_binary(1) by (simp add: holds_words_def)
  obtain h where "rnd binary32 (x / 3600) = Fin h" "1 / 4096 \<le> h" "h \<le> 2 ^ 64"
    by (rule rnd_between [of binary32 "1 / 4096" "2 ^ 64" "x / 3600"])
      (use rep big x \<open>1 \<le> x\<close> representable_pow2 [of binary32 64] max_fin_ge_1 [of binary32] in simp_all)
  then show ?thesis using x(1) by (auto simp: f32_3600 intro!: exI [of _ h])
qed

lemma rate_nonneg: "nonneg_or_NaN (recommendation_rate t)"
  using hours_positive of_len_nonneg [of binary32]
  by (auto simp: recommendation_rate_def Let_def nonneg_or_NaN_def) (metis fdiv_nonneg wf_binary(1))

lemma f32_3: "f32_lit 3 = Fin 3" "f32_lit 2 = Fin 2"
  using nat_float [of 3] nat_float [of 2] by (simp_all add: f32_lit_def rnd_exact)

lemma f32_quarter: "f32_lit (1 / 4) = Fin (1 / 4)"
proof -
  have "representable binary32 (1 / 4)" unfolding representable_def
    by (rule exI [of _ 1], rule exI [of _ "- 2"]) (simp add: binary32_def power_int_def power_one_over)
  then show ?thesis by (simp add: f32_lit_def rnd_exact)
qed

text \<open>
  The stability index of every history is a value of the unit interval: whatever the recommendations are, also with NaN confidences, and
  whatever the timestamps are, also when they go back.
\<close>

theorem stability_index_unit: "in_unit (stability_index (stability_evaluate t))"
proof -
  have len: "nonneg_or_NaN (of_len binary32 n)" for n by (simp add: nonneg_or_NaN_def of_len_nonneg)
  have f: "in_unit (falling_factor (recommendation_rate t) (f32_lit 3))" "in_unit (falling_factor (of_len binary32 a) (f32_lit 2))"
    "in_unit (falling_factor (of_len binary32 b) (f32_lit 1))" "in_unit (falling_factor (compute_confidence_variance t) (f32_lit (25 / 100)))" for a b
    using rate_nonneg variance_nonneg_or_NaN len by (simp_all add: f32_3 f32_quarter falling_factor_unit)
  have w: "in_unit (fmul binary32 x (f32_lit q))" if "in_unit x" "0 \<le> q" "q \<le> 1" for x q
    using that by (intro mul_in_unit) (simp_all add: in_unit_lit)
  have "chain_sum [x, y, z, u] \<noteq> NaN" if u: "in_unit x" "in_unit y" "in_unit z" "in_unit u" for x y z u
  proof -
    obtain x' where "x = Fin x'" "0 \<le> x'" "x' \<le> 1" using u(1) by (auto simp: in_unit_iff)
    with fold_bounded [of "[y, z, u]" x' 1] u show ?thesis by auto
  qed
  note chain = this
  have "chain_sum [fmul binary32 (falling_factor (recommendation_rate t) (f32_lit 3)) (f32_lit (20 / 100)), fmul binary32 (falling_factor (of_len binary32 a) (f32_lit 2)) (f32_lit (35 / 100)),
    fmul binary32 (falling_factor (of_len binary32 b) (f32_lit 1)) (f32_lit (30 / 100)),
    fmul binary32 (falling_factor (compute_confidence_variance t) (f32_lit (25 / 100))) (f32_lit (15 / 100))] \<noteq> NaN" for a b
    by (rule chain) (rule w, rule f, simp, simp)+
  then show ?thesis unfolding stability_evaluate_def Let_def recommendation_stability.simps by (rule clamp01_in_unit)
qed

section \<open>The window\<close>

definition stability_record_all :: "(recommendation \<times> system_state \<times> u64) list \<Rightarrow> stability_tracker \<Rightarrow> stability_tracker" where
  "stability_record_all es t = fold (\<lambda>(r, s, ts). stability_record r s ts) es t"

lemma stability_record_window:
  assumes "length (sk_history t) \<le> sk_window_size t"
  shows "sk_history (stability_record r s ts t) =
      drop (Suc (length (sk_history t)) - sk_window_size t) (sk_history t @ [\<lparr>se_timestamp = ts, se_recommendation = r, se_state = s\<rparr>])"
    "length (sk_history (stability_record r s ts t)) \<le> sk_window_size t"
    "sk_window_size (stability_record r s ts t) = sk_window_size t"
proof -
  have "Suc (length (sk_history t)) - sk_window_size t = (if Suc (length (sk_history t)) > sk_window_size t then 1 else 0)" using assms by auto
  then show "sk_history (stability_record r s ts t) =
      drop (Suc (length (sk_history t)) - sk_window_size t) (sk_history t @ [\<lparr>se_timestamp = ts, se_recommendation = r, se_state = s\<rparr>])"
    by (cases "sk_history t") (simp_all add: stability_record_def Let_def)
qed (use assms in \<open>auto simp: stability_record_def Let_def\<close>)

lemma stability_record_all_window:
  fixes n es defines "t \<equiv> stability_record_all es (stability_tracker_new n)"
  shows "sk_window_size t = n \<and>
     sk_history t = drop (length es - n) (map (\<lambda>(r, s, ts). \<lparr>se_timestamp = ts, se_recommendation = r, se_state = s\<rparr>) es)"
  unfolding t_def
proof (induction es rule: rev_induct)
  case (snoc e es)
  obtain r s ts where e: "e = (r, s, ts)" by (cases e)
  define t where "t = stability_record_all es (stability_tracker_new n)"
  have len: "length (sk_history t) = length es - (length es - n)" "sk_window_size t = n" using snoc by (simp_all add: t_def)
  then have "length (sk_history t) \<le> sk_window_size t" by simp
  note w = stability_record_window [OF this, of r s ts]
  have "stability_record_all (es @ [e]) (stability_tracker_new n) = stability_record r s ts t" by (simp add: stability_record_all_def e t_def)
  moreover have "Suc (length (sk_history t)) - n + (length es - n) = Suc (length es) - n" "Suc (length (sk_history t)) - n \<le> Suc (length (sk_history t))"
    using len by auto
  moreover have "sk_history t @ [x] = drop (length es - n) (map (\<lambda>(r, s, ts). \<lparr>se_timestamp = ts, se_recommendation = r, se_state = s\<rparr>) es @ [x])" for x
    using snoc by (simp add: t_def)
  ultimately show ?case using w len(2) by (simp add: e del: drop_append)
qed (simp add: stability_record_all_def stability_tracker_new_def)

text \<open>After any number of recommendations the window holds the most recent ones, at most \<^verbatim>\<open>window_size\<close> of them, in the order they were recorded.\<close>

theorem window_most_recent:
  "sk_history (stability_record_all es (stability_tracker_new n)) =
     drop (length es - n) (map (\<lambda>(r, s, ts). \<lparr>se_timestamp = ts, se_recommendation = r, se_state = s\<rparr>) es)"
  using stability_record_all_window [of es n] by simp

lemma count_unique_card: "count_unique ds seen ps = card (set ps \<inter> set ds - set seen)"
proof (induction ps arbitrary: seen)
  case (Cons p ps)
  show ?case
  proof (cases "p \<in> set ds \<and> p \<notin> set seen")
    case True
    then have "set (p # ps) \<inter> set ds - set seen = insert p (set ps \<inter> set ds - set (seen @ [p]))" by auto
    moreover have "p \<notin> set ps \<inter> set ds - set (seen @ [p])" by simp
    ultimately show ?thesis using True Cons.IH [of "seen @ [p]"] by (simp add: card_insert_disjoint)
  next
    case False
    then have "set (p # ps) \<inter> set ds - set seen = set ps \<inter> set ds - set seen" by auto
    with False Cons.IH [of seen] show ?thesis by auto
  qed
qed simp

text \<open>The oscillations are the chunks that the window both promotes and demotes, each counted once.\<close>

theorem oscillations_exact:
  "count_tier_oscillations t = card {c. (\<exists>e \<in> set (sk_history t). promoted_chunk (se_recommendation e) = Some c) \<and> (\<exists>e \<in> set (sk_history t). demoted_chunk (se_recommendation e) = Some c)}"
  unfolding count_tier_oscillations_def count_unique_card
  by (rule arg_cong [of _ _ card]) (force simp: List.map_filter_def)

section \<open>The counts of the lifecycle\<close>

datatype lifecycle_call = Transition chunk_id temperature_class temperature_class u64 message | Promotion chunk_id u64 | Demotion chunk_id u64

fun lifecycle_step :: "lifecycle_call \<Rightarrow> lifecycle_tracker \<Rightarrow> lifecycle_tracker" where
  "lifecycle_step (Transition c f t ts r) = lifecycle_transition c f t ts r"
| "lifecycle_step (Promotion c ts) = lifecycle_promotion c ts"
| "lifecycle_step (Demotion c ts) = lifecycle_demotion c ts"

fun call_region :: "lifecycle_call \<Rightarrow> chunk_id" where
  "call_region (Transition c _ _ _ _) = c"
| "call_region (Promotion c _) = c"
| "call_region (Demotion c _) = c"

definition region_consistent :: "chunk_id \<Rightarrow> region_lifecycle \<Rightarrow> bool" where
  "region_consistent c e \<longleftrightarrow> rl_region_id e = c \<and> rl_transitions e \<noteq> [] \<and> rl_current e = tt_to (last (rl_transitions e)) \<and>
     rl_promotions e + rl_demotions e \<le> length (rl_transitions e) \<and> rl_average_residency e = average_residency (rl_transitions e)"

lemma on_region_lookup:
  "fmlookup (on_region c temp f m) d = (if d = c
     then Some (let e = f (case fmlookup m c of Some e \<Rightarrow> e | None \<Rightarrow> fresh_region c temp) in e\<lparr>rl_average_residency := average_residency (rl_transitions e)\<rparr>)
     else fmlookup m d)"
  by (simp add: on_region_def update_residency_def Let_def)

definition lifecycle_consistent :: "lifecycle_tracker \<Rightarrow> bool" where
  "lifecycle_consistent m \<longleftrightarrow> (\<forall>c e. fmlookup m c = Some e \<longrightarrow> region_consistent c e)"

lemma step_consistent: "lifecycle_consistent m \<Longrightarrow> lifecycle_consistent (lifecycle_step k m)"
  unfolding lifecycle_consistent_def
  by (cases k) (fastforce simp: lifecycle_transition_def lifecycle_promotion_def lifecycle_demotion_def on_region_lookup region_consistent_def fresh_region_def Let_def
    split: option.splits if_splits)+

lemma step_transitions:
  "length (case fmlookup (lifecycle_step k m) c of Some e \<Rightarrow> rl_transitions e | None \<Rightarrow> []) =
     length (case fmlookup m c of Some e \<Rightarrow> rl_transitions e | None \<Rightarrow> []) + (if call_region k = c then 1 else 0)"
  by (cases k) (auto simp: lifecycle_transition_def lifecycle_promotion_def lifecycle_demotion_def on_region_lookup fresh_region_def Let_def split: option.splits)

text \<open>
  Every sequence of calls leaves each region with a current temperature that is the target of its last transition, with no more promotions and
  demotions than transitions, and with the residency its transitions give; and a region has as many transitions as calls named it.
\<close>

theorem lifecycle_counts:
  "lifecycle_consistent (fold lifecycle_step ks lifecycle_new) \<and>
   length (case fmlookup (fold lifecycle_step ks lifecycle_new) c of Some e \<Rightarrow> rl_transitions e | None \<Rightarrow> []) = length (filter (\<lambda>k. call_region k = c) ks)"
proof -
  have "lifecycle_consistent m \<Longrightarrow> lifecycle_consistent (fold lifecycle_step ks m) \<and>
    length (case fmlookup (fold lifecycle_step ks m) c of Some e \<Rightarrow> rl_transitions e | None \<Rightarrow> []) =
    length (case fmlookup m c of Some e \<Rightarrow> rl_transitions e | None \<Rightarrow> []) + length (filter (\<lambda>k. call_region k = c) ks)" for m
  proof (induction ks arbitrary: m)
    case (Cons k ks)
    then show ?case using Cons.IH [OF step_consistent [OF Cons.prems]] step_transitions [of k m c] by simp
  qed simp
  from this [of lifecycle_new] show ?thesis by (simp add: lifecycle_new_def lifecycle_consistent_def)
qed

end
