(* ===== verification/Ipc_Types.thy ===== *)
theory Ipc_Types
  imports Orchestrator
begin

text \<open>
  \<^verbatim>\<open>ghost-ipc/src/protocol.rs\<close> and \<^verbatim>\<open>ghost-daemon/src/diagnostics.rs\<close>: the messages between the daemon and its clients, and the diagnostic
  snapshot the daemon sends. Their JSON form is the business of serde.
\<close>

section \<open>Requests and responses\<close>

datatype ipc_request =
    ReqStore bytes "tier_id option"
  | ReqRetrieve chunk_id
  | ReqDelete chunk_id
  | ReqMigrate chunk_id tier_id tier_id
  | ReqInfo chunk_id
  | ReqList "tier_id option"
  | ReqStatus
  | ReqPressure
  | ReqTrace "usize option"
  | ReqPressureCheck
  | ReqShutdown
  | ReqPing
  | ReqDiagnostics
  | ReqQueueStatus
  | ReqMigrationStatus
  | ReqAllocatorStatus
  | ReqBackendStatus
  | ReqReplayStatus

record ipc_tier_info =
  ti_tier_id :: tier_id
  ti_capacity_bytes :: u64
  ti_used_bytes :: u64
  ti_chunk_count :: usize

record backend_health_info =
  bh_tier_id :: tier_id
  bh_health :: string
  bh_health_check_successes :: u64
  bh_health_check_failures :: u64
  bh_consecutive_failures :: u64

datatype ipc_error_code = CodeChunkNotFound | CodeTierNotFound | CodeInvalidRequest | CodeQueueFull | CodeInternalError | CodeTimeout | CodeShuttingDown

datatype ipc_response =
    RespOk "bytes option"
  | RespChunkId chunk_id
  | RespInfo chunk_meta
  | RespList "(chunk_id \<times> chunk_meta) list"
  | RespStatus u64 nat "ipc_tier_info list" usize u64
  | RespPressure pressure_state
  | RespTrace "trace_event list"
  | RespPressureCheck nat
  | RespPong
  | RespDiagnostics string
  | RespQueueStatus usize usize bool u64 u64
  | RespMigrationStatus u64 u64 u64 u64 u64
  | RespAllocatorStatus u64 u64 u64 u64 u64
  | RespBackendStatus "backend_health_info list"
  | RespReplayStatus u64 u64 u64 u64
  | RespError ipc_error_code message

section \<open>Diagnostics\<close>

datatype overall_health = OverallHealthy | OverallDegraded | OverallUnhealthy

fun display_overall_health :: "overall_health \<Rightarrow> string" where
  "display_overall_health OverallHealthy = ''healthy''"
| "display_overall_health OverallDegraded = ''degraded''"
| "display_overall_health OverallUnhealthy = ''unhealthy''"

record queue_diagnostics =
  qd_depth :: usize
  qd_capacity :: usize
  qd_is_full :: bool
  qd_is_shutdown :: bool
  qd_submitted_total :: u64
  qd_dequeued_total :: u64
  qd_priority_insertions_total :: u64
  qd_rejected_total :: u64

record migration_diagnostics =
  md_evaluation_cycles_total :: u64
  md_promotions_total :: u64
  md_evictions_total :: u64
  md_skipped_total :: u64
  md_failures_total :: u64
  md_bytes_migrated_total :: u64
  md_active_migrations :: u64
  md_pending_identified_total :: u64

record allocator_diagnostics =
  ad_allocations_total :: u64
  ad_deallocations_total :: u64
  ad_allocation_failures_total :: u64
  ad_allocated_bytes :: u64
  ad_peak_allocated_bytes :: u64
  ad_bytes_allocated_total :: u64
  ad_bytes_deallocated_total :: u64
  ad_active_allocations :: u64

record backend_diagnostics =
  bd_tier_id :: string
  bd_health :: string
  bd_health_check_successes_total :: u64
  bd_health_check_failures_total :: u64
  bd_degradation_events_total :: u64
  bd_recovery_events_total :: u64
  bd_recovery_attempts_total :: u64
  bd_recovery_successes_total :: u64
  bd_consecutive_failures :: u64

record replay_diagnostics =
  rd_replay_ops_total :: u64
  rd_events_replayed_total :: u64
  rd_validation_errors_total :: u64
  rd_failures_total :: u64
  rd_active_replays :: u64
  rd_determinism_checks_total :: u64
  rd_determinism_failures_total :: u64

text \<open>The backends are a \<^verbatim>\<open>BTreeMap\<close> by name; nothing ever puts one in.\<close>

record diagnostic_snapshot =
  ds_timestamp :: u64
  ds_uptime_secs :: u64
  ds_overall_health :: overall_health
  ds_queue :: queue_diagnostics
  ds_migration :: migration_diagnostics
  ds_allocator :: allocator_diagnostics
  ds_backends :: "(string \<times> backend_diagnostics) list"
  ds_replay :: replay_diagnostics
  ds_pressure :: pressure_state

definition queue_diagnostics_default :: queue_diagnostics where
  "queue_diagnostics_default = \<lparr>qd_depth = 0, qd_capacity = 0, qd_is_full = False, qd_is_shutdown = False, qd_submitted_total = 0, qd_dequeued_total = 0,
     qd_priority_insertions_total = 0, qd_rejected_total = 0\<rparr>"

definition migration_diagnostics_default :: migration_diagnostics where
  "migration_diagnostics_default = \<lparr>md_evaluation_cycles_total = 0, md_promotions_total = 0, md_evictions_total = 0, md_skipped_total = 0, md_failures_total = 0,
     md_bytes_migrated_total = 0, md_active_migrations = 0, md_pending_identified_total = 0\<rparr>"

definition allocator_diagnostics_default :: allocator_diagnostics where
  "allocator_diagnostics_default = \<lparr>ad_allocations_total = 0, ad_deallocations_total = 0, ad_allocation_failures_total = 0, ad_allocated_bytes = 0,
     ad_peak_allocated_bytes = 0, ad_bytes_allocated_total = 0, ad_bytes_deallocated_total = 0, ad_active_allocations = 0\<rparr>"

definition backend_diagnostics_default :: backend_diagnostics where
  "backend_diagnostics_default = \<lparr>bd_tier_id = '''', bd_health = ''unknown'', bd_health_check_successes_total = 0, bd_health_check_failures_total = 0,
     bd_degradation_events_total = 0, bd_recovery_events_total = 0, bd_recovery_attempts_total = 0, bd_recovery_successes_total = 0, bd_consecutive_failures = 0\<rparr>"

definition replay_diagnostics_default :: replay_diagnostics where
  "replay_diagnostics_default = \<lparr>rd_replay_ops_total = 0, rd_events_replayed_total = 0, rd_validation_errors_total = 0, rd_failures_total = 0,
     rd_active_replays = 0, rd_determinism_checks_total = 0, rd_determinism_failures_total = 0\<rparr>"

definition diagnostic_snapshot_default :: diagnostic_snapshot where
  "diagnostic_snapshot_default = \<lparr>ds_timestamp = 0, ds_uptime_secs = 0, ds_overall_health = OverallHealthy, ds_queue = queue_diagnostics_default,
     ds_migration = migration_diagnostics_default, ds_allocator = allocator_diagnostics_default, ds_backends = [], ds_replay = replay_diagnostics_default,
     ds_pressure = pressure_new\<rparr>"

definition build_default :: "u64 \<Rightarrow> u64 \<Rightarrow> diagnostic_snapshot" where
  "build_default now uptime = diagnostic_snapshot_default\<lparr>ds_timestamp := now, ds_uptime_secs := uptime\<rparr>"

text \<open>The two clocks read by \<^verbatim>\<open>build_default\<close> are read again afterwards; \<open>uptime\<close> is the second reading.\<close>

definition orchestrator_diagnostics :: "u64 \<Rightarrow> diagnostic_snapshot orch" where
  "orchestrator_diagnostics uptime = (\<lambda>s. let pressure = current_pressure s in
     bind_act (on_o_rt now_ms) (\<lambda>t0.
     bind_act (on_o_rt now_ms) (\<lambda>t1.
     let snap = (build_default t0 uptime)\<lparr>ds_timestamp := t1, ds_uptime_secs := uptime, ds_pressure := pressure\<rparr> in
     ret (if is_under_pressure pressure then snap\<lparr>ds_overall_health := OverallDegraded\<rparr> else snap))) s)"

text \<open>
  Of the daemon's state the snapshot shows the pressure only: the overall health is degraded exactly under pressure and never unhealthy,
  and the sections on the queue, migrations, allocations, backends and replays are the same whatever the daemon does.
\<close>

theorem diagnostics_show_pressure_only:
  "\<exists>snap s'. orchestrator_diagnostics uptime s = (Ok snap, s') \<and> ds_pressure snap = o_pressure s
     \<and> ds_overall_health snap = (if is_under_pressure (o_pressure s) then OverallDegraded else OverallHealthy)
     \<and> ds_queue snap = queue_diagnostics_default \<and> ds_migration snap = migration_diagnostics_default
     \<and> ds_allocator snap = allocator_diagnostics_default \<and> ds_backends snap = [] \<and> ds_replay snap = replay_diagnostics_default"
  by (auto simp: orchestrator_diagnostics_def Let_def bind_act_def on_o_rt_eq now_ms_def ret_def build_default_def diagnostic_snapshot_default_def
      current_pressure_def)

end
