(* ===== verification/Ipc_Server.thy ===== *)
theory Ipc_Server
  imports Ipc_Types Ipc_Frame
begin

text \<open>
  \<^verbatim>\<open>ghost-daemon/src/ipc_server.rs\<close>: the handler of a connection, from the bytes of the stream through the
  handlers of the requests to the orchestrator and back. Serde's JSON, the instants, the uptime, the shutdown flag seen, whether
  a read times out and whether the socket breaks while the answer is written are arguments, the last five indexed by the number of the request on the
  connection. The log of the server is its own, as
  \<^verbatim>\<open>main.rs\<close> creates it. The main facts: the handler ends on every stream, requests are answered one by one in order, a deletion never
  reports success, and the trace a client gets holds events of the server only.
\<close>

section \<open>The server\<close>

record ipc_env =
  env_profile :: profile
  env_hash :: "bytes \<Rightarrow> bytes"
  env_instant :: "nat \<Rightarrow> instant"
  env_uptime :: "nat \<Rightarrow> u64"
  env_shutdown :: "nat \<Rightarrow> bool"
  env_idle :: "nat \<Rightarrow> bool"
  env_broken :: "nat \<Rightarrow> (nat \<times> message) option"
  env_backends :: "tier_id list"
  env_max_size :: nat
  env_de_request :: "bytes \<Rightarrow> message + ipc_request"
  env_ser_response :: "ipc_response \<Rightarrow> message + bytes"
  env_json :: "diagnostic_snapshot \<Rightarrow> message + string"

record ipc_server_config =
  sc_socket_path :: string
  sc_max_connections :: usize
  sc_request_timeout_secs :: u64
  sc_max_request_size :: usize

definition ipc_server_config_default :: ipc_server_config where
  "ipc_server_config_default = \<lparr>sc_socket_path = ''/tmp/ghostpages.sock'', sc_max_connections = 64, sc_request_timeout_secs = 30, sc_max_request_size = 256 * 1024 * 1024\<rparr>"

record ipc_state =
  sv_orch :: orchestrator
  sv_rt :: runtime
  sv_out :: bytes

type_synonym 'a srv = "(ipc_state, 'a, ghost_error) act"

definition on_orch :: "'a orch \<Rightarrow> 'a srv" where
  "on_orch = on_part sv_orch (\<lambda>x s. s\<lparr>sv_orch := x\<rparr>)"

definition on_sv_rt :: "'a rt \<Rightarrow> 'a srv" where
  "on_sv_rt = on_part sv_rt (\<lambda>x s. s\<lparr>sv_rt := x\<rparr>)"

subsection \<open>The handlers\<close>

definition error_response :: "ipc_error_code \<Rightarrow> string \<Rightarrow> ghost_error \<Rightarrow> ipc_response" where
  "error_response code what e = RespError code (Lit (what @ '' failed: '') # ghost_error_display e)"

definition not_found_response :: "chunk_id \<Rightarrow> ipc_response" where
  "not_found_response cid = RespError CodeChunkNotFound [Lit ''chunk '', FmtChunk cid, Lit '' not found'']"

fun error_code_of :: "ghost_error \<Rightarrow> ipc_error_code" where
  "error_code_of (ChunkNotFound _) = CodeChunkNotFound"
| "error_code_of _ = CodeInternalError"

definition handle_store :: "ipc_env \<Rightarrow> nat \<Rightarrow> bytes \<Rightarrow> tier_id option \<Rightarrow> ipc_response orch" where
  "handle_store env k data tier = (let cid = from_data (env_hash env) data in
     bind_act (catch_act (store (env_profile env) (env_instant env k) cid (unwrap_or Ram tier) data)) (\<lambda>r. ret (case r of
       Inr _ \<Rightarrow> RespChunkId cid
     | Inl e \<Rightarrow> error_response CodeInternalError ''store'' e)))"

definition handle_retrieve :: "ipc_env \<Rightarrow> nat \<Rightarrow> chunk_id \<Rightarrow> ipc_response orch" where
  "handle_retrieve env k cid = bind_act (locked (\<lambda>s. (Ok (get_state (o_sm s) cid), s))) (\<lambda>st. case st of
       None \<Rightarrow> ret (not_found_response cid)
     | Some _ \<Rightarrow> bind_act (catch_act (retrieve (env_profile env) (env_instant env k) cid Ram)) (\<lambda>r. ret (case r of
         Inr _ \<Rightarrow> RespOk None
       | Inl e \<Rightarrow> error_response (error_code_of e) ''retrieve'' e)))"

fun delete_from :: "ipc_env \<Rightarrow> chunk_id \<Rightarrow> tier_id list \<Rightarrow> bool \<Rightarrow> ipc_response orch" where
  "delete_from env cid [] deleted = ret (if deleted then RespOk None else not_found_response cid)"
| "delete_from env cid (t # ts) deleted = bind_act (catch_act (evict (env_profile env) cid t)) (\<lambda>r. case r of
       Inr _ \<Rightarrow> delete_from env cid ts True
     | Inl (ChunkNotFound _) \<Rightarrow> delete_from env cid ts deleted
     | Inl e \<Rightarrow> ret (error_response CodeInternalError ''delete'' e))"

definition handle_delete :: "ipc_env \<Rightarrow> chunk_id \<Rightarrow> ipc_response orch" where
  "handle_delete env cid = delete_from env cid [Ram, Simulation, Disk, GpuVram] False"

definition handle_migrate :: "ipc_env \<Rightarrow> nat \<Rightarrow> chunk_id \<Rightarrow> tier_id \<Rightarrow> tier_id \<Rightarrow> ipc_response orch" where
  "handle_migrate env k cid f t = bind_act (catch_act (migrate (env_profile env) (env_instant env k) cid f t 0)) (\<lambda>r. ret (case r of
       Inr _ \<Rightarrow> RespOk None
     | Inl e \<Rightarrow> error_response (error_code_of e) ''migrate'' e))"

text \<open>The metadata made up for a chunk, with a reading of the clock.\<close>

definition made_up_meta :: "chunk_id \<Rightarrow> chunk_meta orch" where
  "made_up_meta cid = on_o_rt (\<lambda>r. (Ok (chunk_meta_new cid 0 0 Ram NoCompression (replicate 32 0) (secs_at r (ticks r))), tick r))"

definition handle_info :: "chunk_id \<Rightarrow> ipc_response orch" where
  "handle_info cid = locked (\<lambda>s. case get_state (o_sm s) cid of
       Some _ \<Rightarrow> bind_act (made_up_meta cid) (\<lambda>m. ret (RespInfo m)) s
     | None \<Rightarrow> (Ok (not_found_response cid), s))"

fun list_metas :: "chunk_id list \<Rightarrow> (chunk_id \<times> chunk_meta) list orch" where
  "list_metas [] = ret []"
| "list_metas (c # cs) = bind_act (made_up_meta c) (\<lambda>m. bind_act (list_metas cs) (\<lambda>ms. ret ((c, m) # ms)))"

definition handle_list :: "tier_id option \<Rightarrow> ipc_response orch" where
  "handle_list tier = locked (\<lambda>s. bind_act (list_metas (filter (\<lambda>_. True) (chunks_in_state (o_sm s) Stored))) (\<lambda>cs. ret (RespList cs)) s)"

definition handle_status :: "ipc_env \<Rightarrow> nat \<Rightarrow> ipc_response orch" where
  "handle_status env k s = (let st = status s;
     tiers = [\<lparr>ti_tier_id = Ram, ti_capacity_bytes = 1024 * 1024 * 1024, ti_used_bytes = 0, ti_chunk_count = 0\<rparr>,
              \<lparr>ti_tier_id = Simulation, ti_capacity_bytes = 512 * 1024 * 1024, ti_used_bytes = 0, ti_chunk_count = 0\<rparr>]
     in (Ok (RespStatus (env_uptime env k) (st_trace_event_count st) tiers (st_queue_depth st) (st_active_workers st)), s))"

definition handle_pressure :: "ipc_response orch" where
  "handle_pressure s = (Ok (RespPressure (current_pressure s)), s)"

definition handle_trace :: "usize option \<Rightarrow> ipc_response rt" where
  "handle_trace n r = (let evs = log_events (rt_log r) in (Ok (RespTrace (case n of Some n \<Rightarrow> take (unat n) (rev evs) | None \<Rightarrow> evs)), r))"

definition handle_pressure_check :: "ipc_response orch" where
  "handle_pressure_check = bind_act (catch_act run_pressure_check) (\<lambda>r. ret (case r of
       Inr ms \<Rightarrow> RespPressureCheck (length ms)
     | Inl e \<Rightarrow> error_response CodeInternalError ''pressure check'' e))"

definition handle_shutdown :: "ipc_response orch" where
  "handle_shutdown = ret (RespOk (Some (map of_char ''shutdown initiated'')))"

definition handle_diagnostics :: "ipc_env \<Rightarrow> nat \<Rightarrow> ipc_response orch" where
  "handle_diagnostics env k = bind_act (orchestrator_diagnostics (env_uptime env k)) (\<lambda>snap. ret (case env_json env snap of
       Inr json \<Rightarrow> RespDiagnostics json
     | Inl e \<Rightarrow> RespError CodeInternalError (Lit ''failed to serialize diagnostics: '' # e)))"

definition handle_queue_status :: "ipc_response orch" where
  "handle_queue_status s = (let q = o_queue s in (Ok (RespQueueStatus (depth q) (queue_capacity q) (is_full q) 0 0), s))"

definition handle_migration_status :: "ipc_response orch" where
  "handle_migration_status s = (Ok (RespMigrationStatus (of_nat (engine_active_count (o_engine s))) 0 0 0 0), s)"

definition handle_allocator_status :: "ipc_response orch" where
  "handle_allocator_status = ret (RespAllocatorStatus 0 0 0 0 0)"

definition handle_backend_status :: "ipc_env \<Rightarrow> ipc_response orch" where
  "handle_backend_status env = ret (RespBackendStatus (map (\<lambda>t. \<lparr>bh_tier_id = t, bh_health = ''unknown'', bh_health_check_successes = 0,
     bh_health_check_failures = 0, bh_consecutive_failures = 0\<rparr>) (env_backends env)))"

definition handle_replay_status :: "ipc_response orch" where
  "handle_replay_status = ret (RespReplayStatus 0 0 0 0)"

fun dispatch_request :: "ipc_env \<Rightarrow> nat \<Rightarrow> ipc_request \<Rightarrow> ipc_response srv" where
  "dispatch_request env k (ReqStore data tier) = on_orch (handle_store env k data tier)"
| "dispatch_request env k (ReqRetrieve cid) = on_orch (handle_retrieve env k cid)"
| "dispatch_request env k (ReqDelete cid) = on_orch (handle_delete env cid)"
| "dispatch_request env k (ReqMigrate cid f t) = on_orch (handle_migrate env k cid f t)"
| "dispatch_request env k (ReqInfo cid) = on_orch (handle_info cid)"
| "dispatch_request env k (ReqList tier) = on_orch (handle_list tier)"
| "dispatch_request env k ReqStatus = on_orch (handle_status env k)"
| "dispatch_request env k ReqPressure = on_orch handle_pressure"
| "dispatch_request env k (ReqTrace n) = on_sv_rt (handle_trace n)"
| "dispatch_request env k ReqPressureCheck = on_orch handle_pressure_check"
| "dispatch_request env k ReqShutdown = on_orch handle_shutdown"
| "dispatch_request env k ReqPing = ret RespPong"
| "dispatch_request env k ReqDiagnostics = on_orch (handle_diagnostics env k)"
| "dispatch_request env k ReqQueueStatus = on_orch handle_queue_status"
| "dispatch_request env k ReqMigrationStatus = on_orch handle_migration_status"
| "dispatch_request env k ReqAllocatorStatus = on_orch handle_allocator_status"
| "dispatch_request env k ReqBackendStatus = on_orch (handle_backend_status env)"
| "dispatch_request env k ReqReplayStatus = on_orch handle_replay_status"

subsection \<open>A connection\<close>

fun request_type :: "ipc_request \<Rightarrow> string" where
  "request_type (ReqStore _ _) = ''store''"
| "request_type (ReqRetrieve _) = ''retrieve''"
| "request_type (ReqDelete _) = ''delete''"
| "request_type (ReqMigrate _ _ _) = ''migrate''"
| "request_type (ReqInfo _) = ''info''"
| "request_type (ReqList _) = ''list''"
| "request_type ReqStatus = ''status''"
| "request_type ReqPressure = ''pressure''"
| "request_type (ReqTrace _) = ''trace''"
| "request_type ReqPressureCheck = ''pressure_check''"
| "request_type ReqShutdown = ''shutdown''"
| "request_type ReqPing = ''ping''"
| "request_type ReqDiagnostics = ''diagnostics''"
| "request_type ReqQueueStatus = ''queue_status''"
| "request_type ReqMigrationStatus = ''migration_status''"
| "request_type ReqAllocatorStatus = ''allocator_status''"
| "request_type ReqBackendStatus = ''backend_status''"
| "request_type ReqReplayStatus = ''replay_status''"

fun response_success :: "ipc_response \<Rightarrow> bool" where
  "response_success (RespOk _) = True"
| "response_success (RespChunkId _) = True"
| "response_success (RespInfo _) = True"
| "response_success (RespList _) = True"
| "response_success (RespStatus _ _ _ _ _) = True"
| "response_success (RespPressure _) = True"
| "response_success (RespTrace _) = True"
| "response_success (RespPressureCheck _) = True"
| "response_success RespPong = True"
| "response_success _ = False"

text \<open>
  When the socket breaks after some bytes of the frame, the call that was writing them (the length, the payload or the flush) reports it.
\<close>

definition write_broken :: "nat \<Rightarrow> message \<Rightarrow> bytes \<Rightarrow> unit srv" where
  "write_broken n e bs s = (Err (IpcError (Lit (if n < 4 then ''failed to write frame length: ''
       else if n < 4 + length bs then ''failed to write frame payload: '' else ''failed to flush frame: '') # e)),
     s\<lparr>sv_out := sv_out s @ take n (snd (write_frame bs []))\<rparr>)"

definition send_response :: "ipc_env \<Rightarrow> nat \<Rightarrow> ipc_response \<Rightarrow> unit srv" where
  "send_response env k resp = (case env_ser_response env resp of
       Inl e \<Rightarrow> fail (IpcError (Lit ''failed to serialize response: '' # e))
     | Inr bs \<Rightarrow> (case env_broken env k of
         None \<Rightarrow> on_part sv_out (\<lambda>x s. s\<lparr>sv_out := x\<rparr>) (write_frame bs)
       | Some (n, e) \<Rightarrow> write_broken n e bs))"

definition answer_request :: "ipc_env \<Rightarrow> nat \<Rightarrow> ipc_request \<Rightarrow> ipc_response srv" where
  "answer_request env k req =
     bind_act (on_sv_rt (log_now (IpcRequestReceived (request_type req)))) (\<lambda>_.
     bind_act (dispatch_request env k req) (\<lambda>resp.
     bind_act (on_sv_rt (log_now (IpcResponseSent (request_type req) (response_success resp)))) (\<lambda>_. ret resp)))"

text \<open>The body of the loop after a frame was read; the value is whether the loop goes on.\<close>

definition serve_frame :: "ipc_env \<Rightarrow> nat \<Rightarrow> bytes \<Rightarrow> bool srv" where
  "serve_frame env k bs =
     (if length bs > env_max_size env
      then bind_act (send_response env k (RespError CodeInvalidRequest [Lit ''request size '', FmtNat (length bs), Lit '' exceeds maximum '', FmtNat (env_max_size env)]))
        (\<lambda>_. ret True)
      else case env_de_request env bs of
        Inl e \<Rightarrow> bind_act (send_response env k (RespError CodeInvalidRequest (Lit ''failed to parse request: '' # e))) (\<lambda>_. ret True)
      | Inr req \<Rightarrow> bind_act (answer_request env k req) (\<lambda>resp.
          bind_act (catch_act (send_response env k resp)) (\<lambda>r. ret (\<not> isl r))))"

lemma read_frame_shrinks:
  assumes "read_frame bs = (Ok d, rest)"
  shows "length rest < length bs"
proof (cases "length bs < 4")
  case True
  then show ?thesis using assms by (simp add: read_frame_def bind_act_def read_or_short)
next
  case False
  have take: "length r \<le> length b" if "read_or m n b = (x, r)" for m n b x r
    using that by (auto simp: read_or_def read_exact_def split: prod.splits outcome.splits if_splits)
  have "read_or m 4 bs = (Ok (take 4 bs), drop 4 bs)" for m using False by (simp add: read_or_def read_exact_def)
  then have "\<exists>x n. read_or ''connection closed while reading frame payload'' n (drop 4 bs) = (Ok x, rest)"
    using assms by (auto simp: read_frame_def bind_act_def Let_def fail_def split: if_splits)
  then have "length rest \<le> length (drop 4 bs)" using take by blast
  with False show ?thesis by simp
qed

function handle_connection :: "ipc_env \<Rightarrow> nat \<Rightarrow> bytes \<Rightarrow> ipc_state \<Rightarrow> unit ghost_result \<times> ipc_state" where
  "handle_connection env k bs s =
     (if env_shutdown env k \<or> env_idle env k then (Ok (), s)
      else case read_frame bs of
        (Ok req, rest) \<Rightarrow> (case serve_frame env k req s of
            (Ok go, s') \<Rightarrow> if go then handle_connection env (Suc k) rest s' else (Ok (), s')
          | (Err e, s') \<Rightarrow> (Err e, s')
          | (Panic, s') \<Rightarrow> (Panic, s'))
      | (Err e, rest) \<Rightarrow> (Ok (), s)
      | (Panic, rest) \<Rightarrow> (Panic, s))"
  by pat_completeness auto
termination
  by (relation "measure (\<lambda>(env, k, bs, s). length bs)") (auto intro: read_frame_shrinks [OF sym])

declare handle_connection.simps [simp del]

text \<open>The task of an accepted connection.\<close>

definition connection_task :: "ipc_env \<Rightarrow> bytes \<Rightarrow> unit srv" where
  "connection_task env bs =
     bind_act (on_sv_rt (log_now IpcConnectionAccepted)) (\<lambda>_.
     bind_act (catch_act (handle_connection env 0 bs)) (\<lambda>_.
     on_sv_rt (log_now IpcConnectionClosed)))"

section \<open>Deletion\<close>

lemma log_now_never_errs: "fst (log_now ev r) \<noteq> Err e"
  by (auto simp: log_now_def log_event_def bind_act_def now_ms_def on_part_def trace_record_def split: prod.splits outcome.splits if_splits list.splits)

lemma o_emit_returns: "\<exists>s'. o_emit ev s = (Ok (), s')"
  by (simp add: o_emit_def Let_def split: option.split)

lemma evict_rest_never_errs: "fst (api_rest pr inst (ApiEvict cid t) s) \<noteq> Err e"
proof -
  have log: "fst (on_o_rt (log_now ev) s) \<noteq> Err e" for ev s
    using log_now_never_errs [of ev "o_rt s" e] by (cases "log_now ev (o_rt s)") (simp add: on_o_rt_eq)
  have bind: "fst (bind_act m f s) \<noteq> Err e" if "fst (m s) \<noteq> Err e" "\<And>a s. fst (f a s) \<noteq> Err e" for m s and f :: "unit \<Rightarrow> unit orch"
    using that by (auto simp: bind_act_def split: prod.split outcome.split)
  show ?thesis unfolding api_rest.simps using log o_emit_returns by (intro bind) (metis fst_conv outcome.distinct(1))+
qed

lemma evict_missing:
  "\<not> o_poisoned s \<Longrightarrow> get_state (o_sm s) cid = None \<Longrightarrow> evict pr cid t s = (Err (ChunkNotFound [FmtChunk cid]), s)"
  by (simp add: evict_def mark_evicted_def bind_act_def fail_def locked_def)

lemma evict_refused:
  assumes "\<not> o_poisoned s" "get_state (o_sm s) cid = Some st" "st \<noteq> Stored"
  shows "\<exists>r s'. evict pr cid t s = (r, s') \<and> (r = Panic \<or> (\<exists>a b. r = Err (InvalidStateTransition a b)) \<and> s' = s)"
  using assms set_state_invalid [OF assms(2), of Evicted pr]
  by (cases st; cases pr) (auto simp: evict_def mark_evicted_def bind_act_def fail_def locked_def)

lemma evict_stored:
  assumes "get_state (o_sm s) cid = Some Stored" "\<not> o_poisoned s"
  shows "\<exists>r s'. evict pr cid t s = (r, s') \<and> (r = Ok () \<or> r = Panic) \<and> \<not> o_poisoned s' \<and> get_state (o_sm s') = (get_state (o_sm s))(cid \<mapsto> Evicted)"
proof -
  let ?s1 = "with_state cid Evicted s"
  have g: "api_guard pr (ApiEvict cid t) s = (Ok (), ?s1)" using set_state_valid [OF assms(1), of Evicted pr] assms by (simp add: mark_evicted_def locked_def)
  obtain r s' where r: "api_rest pr inst (ApiEvict cid t) ?s1 = (r, s')" for inst by (metis api_rest.simps(4) surj_pair)
  have "o_sm s' = o_sm ?s1" using keepsD [OF keeps_api_rest [of mg_sm pr undefined "ApiEvict cid t"], of ?s1] r by simp
  moreover have "\<not> o_poisoned s'"
    using keepsD [OF keeps_api_rest [of mg_poisoned pr undefined "ApiEvict cid t"], of ?s1] r assms(2) by (simp add: with_state_def)
  moreover have "r = Ok () \<or> r = Panic" using evict_rest_never_errs [of pr undefined cid t ?s1] r by (cases r) auto
  moreover have "evict pr cid t s = (r, s')" using api_step_split [of pr undefined "ApiEvict cid t"] g r by (simp add: bind_act_def del: api_rest.simps api_guard.simps)
  ultimately show ?thesis by (auto simp: fun_eq_iff)
qed

lemma delete_from_refused:
  assumes "\<not> o_poisoned s" "get_state (o_sm s) cid = Some st" "st \<noteq> Stored"
  shows "\<exists>r s'. delete_from env cid (t # ts) d s = (r, s') \<and> (r = Panic \<or> (\<exists>m. r = Ok (RespError CodeInternalError m)) \<and> s' = s)"
  using evict_refused [OF assms, of "env_profile env" t] by (auto simp: bind_act_def catch_act_def ret_def error_response_def)

text \<open>
  C38: deleting never reports success. A chunk that is not known is reported as not found; a stored chunk is evicted, and then reported as a
  failed deletion, because the eviction is tried again for the next tier; a chunk in any other state is reported as failed and left alone. A handler
  that does not panic always answers.
\<close>

theorem delete_never_succeeds:
  "case handle_delete env cid s of
     (Ok resp, s') \<Rightarrow> (case get_state (o_sm s) cid of
         None \<Rightarrow> resp = not_found_response cid \<and> s' = s
       | Some st \<Rightarrow> (\<exists>m. resp = RespError CodeInternalError m) \<and>
           (if st = Stored then get_state (o_sm s') = (get_state (o_sm s))(cid \<mapsto> Evicted) else s' = s))
   | (Err e, s') \<Rightarrow> False
   | (Panic, s') \<Rightarrow> True"
proof (cases "o_poisoned s")
  case True
  then show ?thesis by (simp add: handle_delete_def bind_act_def catch_act_def evict_def mark_evicted_def)
next
  case np: False
  show ?thesis
  proof (cases "get_state (o_sm s) cid")
    case None
    then show ?thesis using np by (simp add: handle_delete_def bind_act_def catch_act_def evict_missing ret_def)
  next
    case (Some st)
    show ?thesis
    proof (cases "st = Stored")
      case True
      then obtain r s1 where e: "evict (env_profile env) cid Ram s = (r, s1)" "r = Ok () \<or> r = Panic" "\<not> o_poisoned s1"
        "get_state (o_sm s1) = (get_state (o_sm s))(cid \<mapsto> Evicted)"
        using evict_stored [of s cid "env_profile env" Ram] Some np by blast
      then have "get_state (o_sm s1) cid = Some Evicted" by simp
      from delete_from_refused [OF e(3) this, of env Simulation "[Disk, GpuVram]" True] e Some True show ?thesis
        unfolding handle_delete_def delete_from.simps(2) [of _ _ Ram] by (auto simp: bind_act_def catch_act_def simp del: delete_from.simps)
    next
      case False
      from delete_from_refused [OF np Some this, of env Ram "[Simulation, Disk, GpuVram]" False] Some False show ?thesis
        unfolding handle_delete_def by (auto simp del: delete_from.simps)
    qed
  qed
qed

section \<open>A connection answers its requests in order\<close>

text \<open>What the server writes back has no influence on what it does.\<close>

definition ignores_out :: "'a srv \<Rightarrow> bool" where
  "ignores_out m \<longleftrightarrow> (\<forall>s x. m (s\<lparr>sv_out := x\<rparr>) = (case m s of (r, s') \<Rightarrow> (r, s'\<lparr>sv_out := x\<rparr>)))"

lemma ignores_outD: "ignores_out m \<Longrightarrow> m s = (r, s') \<Longrightarrow> m (s\<lparr>sv_out := x\<rparr>) = (r, s'\<lparr>sv_out := x\<rparr>)"
  by (simp add: ignores_out_def)

lemma ignores_bind: "ignores_out m \<Longrightarrow> (\<And>a. ignores_out (f a)) \<Longrightarrow> ignores_out (bind_act m f)"
  by (auto simp: ignores_out_def bind_act_def split: prod.split outcome.split)

lemma ignores_parts: "ignores_out (ret a)" "ignores_out (on_orch h)" "ignores_out (on_sv_rt l)"
  by (auto simp: ignores_out_def ret_def on_orch_def on_sv_rt_def on_part_def split: prod.split)

lemma ignores_dispatch: "ignores_out (dispatch_request env k req)"
  by (cases req) (simp_all add: ignores_parts)

lemma ignores_answer: "ignores_out (answer_request env k req)"
  unfolding answer_request_def by (intro ignores_bind ignores_parts ignores_dispatch)

lemma send_response_eq:
  "env_ser_response env resp = Inr b \<Longrightarrow> env_broken env k = None \<Longrightarrow> send_response env k resp s = (Ok (), s\<lparr>sv_out := sv_out s @ frame b\<rparr>)"
  by (simp add: send_response_def on_part_def write_frame_eq)

fun serve_all :: "ipc_env \<Rightarrow> nat \<Rightarrow> ipc_request list \<Rightarrow> ipc_response list srv" where
  "serve_all env k [] = ret []"
| "serve_all env k (r # rs) = bind_act (answer_request env k r) (\<lambda>resp. bind_act (serve_all env (Suc k) rs) (\<lambda>resps. ret (resp # resps)))"

lemma ignores_serve_all: "ignores_out (serve_all env k rs)"
  by (induction rs arbitrary: k) (auto intro: ignores_bind ignores_parts ignores_answer)

definition readable :: "ipc_env \<Rightarrow> (ipc_request \<Rightarrow> bytes) \<Rightarrow> ipc_request \<Rightarrow> bool" where
  "readable env enc r \<longleftrightarrow> env_de_request env (enc r) = Inr r \<and> fits_frame (enc r) \<and> length (enc r) \<le> env_max_size env"

definition writable :: "ipc_env \<Rightarrow> (ipc_response \<Rightarrow> bytes) \<Rightarrow> ipc_response \<Rightarrow> bool" where
  "writable env enc r \<longleftrightarrow> env_ser_response env r = Inr (enc r) \<and> fits_frame (enc r)"

definition undisturbed :: "ipc_env \<Rightarrow> bool" where
  "undisturbed env \<longleftrightarrow> env_shutdown env = (\<lambda>_. False) \<and> env_idle env = (\<lambda>_. False) \<and> env_broken env = (\<lambda>_. None)"

lemma connection_ends: "undisturbed env \<Longrightarrow> handle_connection env k [] s = (Ok (), s)"
  by (subst handle_connection.simps) (simp add: undisturbed_def read_frame_def bind_act_def read_or_short)

lemma connection_step:
  assumes "undisturbed env" "readable env enc r"
  shows "handle_connection env k (frame (enc r) @ rest) s = (case serve_frame env k (enc r) s of
      (Ok go, s') \<Rightarrow> if go then handle_connection env (Suc k) rest s' else (Ok (), s') | (Err e, s') \<Rightarrow> (Err e, s') | (Panic, s') \<Rightarrow> (Panic, s'))"
  using assms frames.decode_encode [of "enc r" rest] by (subst handle_connection.simps) (simp add: undisturbed_def readable_def)

lemma serve_frame_readable:
  assumes "readable env enc r" "answer_request env k r s = (Ok resp, s1)" "writable env encr resp" "env_broken env k = None"
  shows "serve_frame env k (enc r) s = (Ok True, s1\<lparr>sv_out := sv_out s1 @ frame (encr resp)\<rparr>)"
  using assms send_response_eq [of env resp "encr resp" k]
  by (auto simp: serve_frame_def readable_def writable_def bind_act_def catch_act_def ret_def)

lemma answer_keeps_out: "answer_request env k r s = (x, s1) \<Longrightarrow> sv_out s1 = sv_out s"
  using ignores_outD [OF ignores_answer, of env k r s x s1 "sv_out s"] by simp (metis ipc_state.select_convs(3) ipc_state.surjective ipc_state.update_convs(3) prod.inject)

lemma connection_serves_run:
  assumes "undisturbed env" "list_all (readable env enc) reqs" "list_all (writable env encr) resps" "serve_all env k reqs s = (Ok resps, s')"
  shows "handle_connection env k (concat (map (\<lambda>r. frame (enc r)) reqs)) s = (Ok (), s'\<lparr>sv_out := sv_out s @ concat (map (\<lambda>r. frame (encr r)) resps)\<rparr>)
    \<and> length resps = length reqs"
  using assms(2-)
proof (induction reqs arbitrary: k s s' resps)
  case Nil
  then show ?case using connection_ends [OF assms(1)] by (auto simp: ret_def)
next
  case (Cons r rs)
  obtain resp s1 resps' where run: "answer_request env k r s = (Ok resp, s1)" "serve_all env (Suc k) rs s1 = (Ok resps', s')" "resps = resp # resps'"
    using Cons.prems(3) by (auto simp: bind_act_def ret_def split: prod.splits outcome.splits)
  let ?s2 = "s1\<lparr>sv_out := sv_out s @ frame (encr resp)\<rparr>"
  have sf: "serve_frame env k (enc r) s = (Ok True, ?s2)"
    using serve_frame_readable [OF _ run(1), of enc encr] Cons.prems(1,2) answer_keeps_out [OF run(1)] assms(1) by (simp add: run(3) undisturbed_def)
  have "serve_all env (Suc k) rs ?s2 = (Ok resps', s'\<lparr>sv_out := sv_out s @ frame (encr resp)\<rparr>)"
    by (rule ignores_outD [OF ignores_serve_all run(2)])
  from Cons.IH [OF _ _ this] Cons.prems(1,2) run(3) show ?case
    using connection_step [OF assms(1), of enc r k "concat (map (\<lambda>r. frame (enc r)) rs)" s] sf by simp
qed

text \<open>
  C37: requests sent one after the other on a connection are answered one by one, in order, each by what its handler answers in the state the
  earlier ones left: what the server writes are the frames of those answers and nothing else, and the client reads them back from the stream.
\<close>

theorem connection_serves:
  assumes "undisturbed env" "list_all (readable env enc) reqs" "list_all (writable env encr) resps" "serve_all env 0 reqs s = (Ok resps, s')" "sv_out s = []"
  shows "\<exists>out. handle_connection env 0 (concat (map (\<lambda>r. frame (enc r)) reqs)) s = (Ok (), s'\<lparr>sv_out := out\<rparr>)
    \<and> read_many read_frame (length reqs) out = (Ok (map encr resps), [])"
proof -
  have "list_all fits_frame (map encr resps)" using assms(3) by (auto simp: list_all_iff writable_def)
  from frames.decode_many [OF this, of "[]"] connection_serves_run [OF assms(1-4)] assms(5) show ?thesis
    by (intro exI [of _ "concat (map (\<lambda>r. frame (encr r)) resps)"]) (simp add: comp_def)
qed


definition ping_env :: ipc_env where
  "ping_env = \<lparr>env_profile = Debug, env_hash = id, env_instant = (\<lambda>_. 0), env_uptime = (\<lambda>_. 5), env_shutdown = (\<lambda>_. False), env_idle = (\<lambda>_. False), env_broken = (\<lambda>_. None),
     env_backends = [Ram], env_max_size = 100, env_de_request = (\<lambda>bs. if bs = [1] then Inr ReqPing else Inl []),
     env_ser_response = (\<lambda>r. if r = RespPong then Inr [2, 2] else Inl []), env_json = (\<lambda>_. Inl [])\<rparr>"

definition demo_server :: ipc_state where
  "demo_server = \<lparr>sv_orch = demo_orchestrator,
     sv_rt = \<lparr>ms_at = (\<lambda>_. 7), secs_at = (\<lambda>_. 1), room_at = (\<lambda>_. True), ticks = 0, rt_log = trace_log_new 10, rt_emitter = None\<rparr>, sv_out = []\<rparr>"

lemma ping_answer: "\<exists>s'. serve_all ping_env 0 [ReqPing, ReqPing] demo_server = (Ok [RespPong, RespPong], s')"
  by (simp add: answer_request_def bind_act_def on_sv_rt_def on_part_def log_now_def now_ms_def log_event_def trace_record_def trace_log_new_def ret_def
      demo_server_def tick_def)

theorem connection_serves_witness:
  "\<exists>s' out. handle_connection ping_env 0 (frame [1] @ frame [1]) demo_server = (Ok (), s'\<lparr>sv_out := out\<rparr>) \<and> read_many read_frame 2 out = (Ok [[2, 2], [2, 2]], [])"
proof -
  obtain s' where "serve_all ping_env 0 [ReqPing, ReqPing] demo_server = (Ok [RespPong, RespPong], s')" using ping_answer by blast
  from connection_serves [OF _ _ _ this, of "\<lambda>_. [1]" "\<lambda>_. [2, 2]"] show ?thesis
    by (auto simp: undisturbed_def readable_def writable_def ping_env_def fits_frame_def demo_server_def numeral_2_eq_2)
qed

section \<open>What a client sees of the trace\<close>

definition is_ipc_event :: "trace_event \<Rightarrow> bool" where
  "is_ipc_event e \<longleftrightarrow> (\<exists>a t. e = IpcRequestReceived a t) \<or> (\<exists>a b t. e = IpcResponseSent a b t) \<or> (\<exists>t. e = IpcConnectionAccepted t) \<or> (\<exists>t. e = IpcConnectionClosed t)"

definition logs_ipc_only :: "ipc_state \<Rightarrow> bool" where
  "logs_ipc_only s \<longleftrightarrow> list_all is_ipc_event (log_events (rt_log (sv_rt s)))"

lemma log_ipc:
  assumes "\<And>t. is_ipc_event (ev t)"
  shows "stays logs_ipc_only (on_sv_rt (log_now ev)) logs_ipc_only"
  using assms
  by (auto simp: stays_def logs_ipc_only_def on_sv_rt_def on_part_def log_now_def log_event_def bind_act_def now_ms_def trace_record_def split: list.split)

lemma ipc_ignored: "stays logs_ipc_only (on_orch h) logs_ipc_only" "stays logs_ipc_only (ret a) logs_ipc_only" "stays logs_ipc_only (on_sv_rt (handle_trace n)) logs_ipc_only"
  by (auto simp: stays_def logs_ipc_only_def on_orch_def on_sv_rt_def on_part_def ret_def handle_trace_def Let_def split: prod.split)

lemma dispatch_ipc: "stays logs_ipc_only (dispatch_request env k req) logs_ipc_only"
  by (cases req) (simp_all add: ipc_ignored)

lemma answer_ipc: "stays logs_ipc_only (answer_request env k req) logs_ipc_only"
  unfolding answer_request_def
  by (intro stays_bind [OF log_ipc] stays_bind [OF dispatch_ipc] ipc_ignored) (auto simp: is_ipc_event_def)

lemma send_ipc: "stays logs_ipc_only (send_response env k resp) logs_ipc_only"
  by (auto simp: stays_def logs_ipc_only_def send_response_def on_part_def fail_def write_broken_def split: sum.split prod.split option.split)

lemma catch_ipc: "stays P m Q \<Longrightarrow> stays P (catch_act m) Q"
  unfolding stays_def catch_act_def by (auto split: prod.splits outcome.splits)

lemma serve_frame_ipc: "stays logs_ipc_only (serve_frame env k bs) logs_ipc_only"
  unfolding serve_frame_def
  by (auto intro!: stays_bind [OF send_ipc] stays_bind [OF answer_ipc] stays_bind [OF catch_ipc [OF send_ipc]] ipc_ignored split: sum.split)

lemma connection_ipc: "logs_ipc_only s \<Longrightarrow> logs_ipc_only (snd (handle_connection env k bs s))"
proof (induction env k bs s rule: handle_connection.induct)
  case (1 env k bs s)
  show ?case
  proof (cases "\<not> env_shutdown env k \<and> \<not> env_idle env k \<and> (\<exists>req rest s'. read_frame bs = (Ok req, rest) \<and> serve_frame env k req s = (Ok True, s'))")
    case True
    then obtain req rest s' where r: "\<not> (env_shutdown env k \<or> env_idle env k)" "read_frame bs = (Ok req, rest)" "serve_frame env k req s = (Ok True, s')" by blast
    have "logs_ipc_only s'" using staysD [OF serve_frame_ipc "1.prems", of env k req] r(3) by simp
    from "1.IH" [OF r(1) r(2) [symmetric] refl r(3) [symmetric] refl TrueI this] r show ?thesis by (subst handle_connection.simps) simp
  next
    case False
    then show ?thesis using "1.prems" staysD [OF serve_frame_ipc "1.prems", of env k]
      by (subst handle_connection.simps) (auto split: prod.split outcome.split, (metis snd_conv)+)
  qed
qed

lemma connection_task_ipc: "stays logs_ipc_only (connection_task env bs) logs_ipc_only"
proof -
  have "stays logs_ipc_only (handle_connection env 0 bs) logs_ipc_only" by (simp add: stays_def connection_ipc)
  moreover have "stays logs_ipc_only (on_sv_rt (log_now IpcConnectionClosed)) logs_ipc_only" by (rule log_ipc) (simp add: is_ipc_event_def)
  ultimately show ?thesis unfolding connection_task_def
    by (intro stays_bind [OF log_ipc] stays_bind [OF catch_ipc]) (simp_all add: is_ipc_event_def)
qed

text \<open>
  A client never sees an event of the daemon: whatever connections a server with an empty log has served, the events it answers
  a trace request with are events of its own connections, because the server's log is not the daemon's.
\<close>

theorem trace_shows_server_only:
  assumes "log_events (rt_log (sv_rt s)) = []"
  shows "\<exists>evs s'. dispatch_request env k (ReqTrace n) (fold (\<lambda>(env, bs) s. snd (connection_task env bs s)) conns s) = (Ok (RespTrace evs), s')
    \<and> list_all is_ipc_event evs"
proof -
  have "logs_ipc_only s" using assms by (simp add: logs_ipc_only_def)
  then have "logs_ipc_only (fold (\<lambda>(env, bs) s. snd (connection_task env bs s)) conns s)"
    by (induction conns arbitrary: s) (auto intro: staysD [OF connection_task_ipc])
  then show ?thesis
    by (auto simp: logs_ipc_only_def on_sv_rt_def on_part_def handle_trace_def Let_def list_all_iff split: option.split dest: in_set_takeD)
qed

end
