(* ===== verification/Ipc_Client.thy ===== *)
theory Ipc_Client
  imports Ipc_Server
begin

text \<open>
  \<^verbatim>\<open>ghost-ipc/src/client.rs\<close>: the client, over the server of \<^verbatim>\<open>Ipc_Server\<close>. The main facts, from the client through the frames and the server to the
  orchestrator and back: a call returns what the daemon's handler answers, a store stores, and a retrieval never returns the data.
\<close>

section \<open>The client\<close>

text \<open>
  The server as the client sees it is a function from the bytes sent to the bytes that come back, with a state of its own; \<open>late\<close> says whether the
  read of the response times out.
\<close>

record 'p ipc_client =
  cl_in :: bytes
  cl_peer :: 'p

record 'p client_env =
  ce_ser_request :: "ipc_request \<Rightarrow> message + bytes"
  ce_de_response :: "bytes \<Rightarrow> message + ipc_response"
  ce_debug :: "ipc_response \<Rightarrow> message"
  ce_answer :: "bytes \<Rightarrow> 'p \<Rightarrow> bytes \<times> 'p"
  ce_late :: bool

type_synonym ('p, 'a) cli = "('p ipc_client, 'a, ghost_error) act"

definition exchange :: "(bytes \<Rightarrow> 'p \<Rightarrow> bytes \<times> 'p) \<Rightarrow> bytes \<Rightarrow> ('p, unit) cli" where
  "exchange answer bs = update_act (\<lambda>c. case answer (snd (write_frame bs [])) (cl_peer c) of (out, p) \<Rightarrow> c\<lparr>cl_in := cl_in c @ out, cl_peer := p\<rparr>)"

definition send_request :: "'p client_env \<Rightarrow> ipc_request \<Rightarrow> ('p, ipc_response) cli" where
  "send_request ce req = (case ce_ser_request ce req of
       Inl e \<Rightarrow> fail (IpcError (Lit ''failed to serialize request: '' # e))
     | Inr bs \<Rightarrow> bind_act (exchange (ce_answer ce) bs) (\<lambda>_.
         if ce_late ce then fail Timeout
         else bind_act (on_part cl_in (\<lambda>x c. c\<lparr>cl_in := x\<rparr>) read_frame) (\<lambda>r. case ce_de_response ce r of
             Inl e \<Rightarrow> fail (IpcError (Lit ''failed to deserialize response: '' # e))
           | Inr resp \<Rightarrow> ret resp)))"

fun debug_code :: "ipc_error_code \<Rightarrow> string" where
  "debug_code CodeChunkNotFound = ''ChunkNotFound''"
| "debug_code CodeTierNotFound = ''TierNotFound''"
| "debug_code CodeInvalidRequest = ''InvalidRequest''"
| "debug_code CodeQueueFull = ''QueueFull''"
| "debug_code CodeInternalError = ''InternalError''"
| "debug_code CodeTimeout = ''Timeout''"
| "debug_code CodeShuttingDown = ''ShuttingDown''"

text \<open>The last two arms of every match on a response.\<close>

fun refuse_response :: "'p client_env \<Rightarrow> string \<Rightarrow> ipc_response \<Rightarrow> ('p, 'a) cli" where
  "refuse_response ce what (RespError code m) = fail (IpcError (Lit (what @ '' failed ('' @ debug_code code @ ''): '') # m))"
| "refuse_response ce what other = fail (IpcError (Lit (''unexpected response to '' @ what @ '': '') # ce_debug ce other))"

definition client_store :: "'p client_env \<Rightarrow> bytes \<Rightarrow> tier_id option \<Rightarrow> ('p, chunk_id) cli" where
  "client_store ce data tier = bind_act (send_request ce (ReqStore data tier)) (\<lambda>r. case r of
       RespChunkId cid \<Rightarrow> ret cid | _ \<Rightarrow> refuse_response ce ''store'' r)"

definition client_retrieve :: "'p client_env \<Rightarrow> chunk_id \<Rightarrow> ('p, bytes) cli" where
  "client_retrieve ce cid = bind_act (send_request ce (ReqRetrieve cid)) (\<lambda>r. case r of
       RespOk data \<Rightarrow> (case data of Some d \<Rightarrow> ret d | None \<Rightarrow> fail (IpcError [Lit ''retrieve returned Ok with no data'']))
     | _ \<Rightarrow> refuse_response ce ''retrieve'' r)"

definition client_delete :: "'p client_env \<Rightarrow> chunk_id \<Rightarrow> ('p, unit) cli" where
  "client_delete ce cid = bind_act (send_request ce (ReqDelete cid)) (\<lambda>r. case r of
       RespOk _ \<Rightarrow> ret () | _ \<Rightarrow> refuse_response ce ''delete'' r)"

definition client_migrate :: "'p client_env \<Rightarrow> chunk_id \<Rightarrow> tier_id \<Rightarrow> tier_id \<Rightarrow> ('p, unit) cli" where
  "client_migrate ce cid f t = bind_act (send_request ce (ReqMigrate cid f t)) (\<lambda>r. case r of
       RespOk _ \<Rightarrow> ret () | _ \<Rightarrow> refuse_response ce ''migrate'' r)"

definition client_info :: "'p client_env \<Rightarrow> chunk_id \<Rightarrow> ('p, chunk_meta) cli" where
  "client_info ce cid = bind_act (send_request ce (ReqInfo cid)) (\<lambda>r. case r of
       RespInfo m \<Rightarrow> ret m | _ \<Rightarrow> refuse_response ce ''info'' r)"

definition client_list :: "'p client_env \<Rightarrow> tier_id option \<Rightarrow> ('p, (chunk_id \<times> chunk_meta) list) cli" where
  "client_list ce tier = bind_act (send_request ce (ReqList tier)) (\<lambda>r. case r of
       RespList cs \<Rightarrow> ret cs | _ \<Rightarrow> refuse_response ce ''list'' r)"

record status_response =
  sr_uptime_secs :: u64
  sr_chunks_total :: nat
  sr_tiers :: "ipc_tier_info list"
  sr_queue_depth :: usize
  sr_active_workers :: u64

definition client_status :: "'p client_env \<Rightarrow> ('p, status_response) cli" where
  "client_status ce = bind_act (send_request ce ReqStatus) (\<lambda>r. case r of
       RespStatus up chunks tiers dep workers \<Rightarrow>
         ret \<lparr>sr_uptime_secs = up, sr_chunks_total = chunks, sr_tiers = tiers, sr_queue_depth = dep, sr_active_workers = workers\<rparr>
     | _ \<Rightarrow> refuse_response ce ''status'' r)"

definition client_pressure :: "'p client_env \<Rightarrow> ('p, pressure_state) cli" where
  "client_pressure ce = bind_act (send_request ce ReqPressure) (\<lambda>r. case r of
       RespPressure p \<Rightarrow> ret p | _ \<Rightarrow> refuse_response ce ''pressure'' r)"

definition client_trace :: "'p client_env \<Rightarrow> usize option \<Rightarrow> ('p, trace_event list) cli" where
  "client_trace ce n = bind_act (send_request ce (ReqTrace n)) (\<lambda>r. case r of
       RespTrace evs \<Rightarrow> ret evs | _ \<Rightarrow> refuse_response ce ''trace'' r)"

definition client_ping :: "'p client_env \<Rightarrow> ('p, unit) cli" where
  "client_ping ce = bind_act (send_request ce ReqPing) (\<lambda>r. case r of
       RespPong \<Rightarrow> ret () | _ \<Rightarrow> refuse_response ce ''ping'' r)"

text \<open>\<open>contains\<close> is the search of \<^verbatim>\<open>str::contains\<close> in the rendered message.\<close>

definition client_shutdown :: "'p client_env \<Rightarrow> (string \<Rightarrow> message \<Rightarrow> bool) \<Rightarrow> ('p, unit) cli" where
  "client_shutdown ce contains = bind_act (send_request ce ReqShutdown) (\<lambda>r. case r of
       RespOk _ \<Rightarrow> ret ()
     | RespPong \<Rightarrow> ret ()
     | RespError _ m \<Rightarrow> if contains ''shutting down'' m \<or> contains ''connection'' m then ret ()
         else fail (IpcError (Lit ''shutdown failed: '' # m))
     | _ \<Rightarrow> refuse_response ce ''shutdown'' r)"



section \<open>Calls from end to end\<close>

definition server_answer :: "ipc_env \<Rightarrow> nat \<Rightarrow> bytes \<Rightarrow> ipc_state \<Rightarrow> bytes \<times> ipc_state" where
  "server_answer env k bs p = (case handle_connection env k bs (p\<lparr>sv_out := []\<rparr>) of (_, p') \<Rightarrow> (sv_out p', p'))"

text \<open>The client talks to this server, and the request and the response of the call survive JSON.\<close>

definition linked :: "ipc_state client_env \<Rightarrow> ipc_env \<Rightarrow> nat \<Rightarrow> (ipc_request \<Rightarrow> bytes) \<Rightarrow> (ipc_response \<Rightarrow> bytes) \<Rightarrow> ipc_request \<Rightarrow> ipc_response \<Rightarrow> bool" where
  "linked ce env k enc encr req resp \<longleftrightarrow> undisturbed env \<and> ce_answer ce = server_answer env k \<and> \<not> ce_late ce \<and> ce_ser_request ce req = Inr (enc req)
     \<and> readable env enc req \<and> writable env encr resp \<and> ce_de_response ce (encr resp) = Inr resp"

lemma server_answer_eq:
  assumes "undisturbed env" "readable env enc req" "answer_request env k req p = (Ok resp, p')" "writable env encr resp"
  shows "server_answer env k (frame (enc req)) p = (frame (encr resp), p'\<lparr>sv_out := frame (encr resp)\<rparr>)"
proof -
  have this_answer: "answer_request env k req (p\<lparr>sv_out := []\<rparr>) = (Ok resp, p'\<lparr>sv_out := []\<rparr>)" by (rule ignores_outD [OF ignores_answer assms(3)])
  have "env_broken env k = None" using assms(1) by (simp add: undisturbed_def)
  from serve_frame_readable [OF assms(2) this_answer assms(4) this] connection_step [OF assms(1,2), of k "[]" "p\<lparr>sv_out := []\<rparr>"] connection_ends [OF assms(1)]
  show ?thesis by (simp add: server_answer_def)
qed

lemma call_returns:
  assumes "linked ce env k enc encr req resp" "answer_request env k req (cl_peer c) = (Ok resp, p')" "cl_in c = []"
  shows "send_request ce req c = (Ok resp, c\<lparr>cl_peer := p'\<lparr>sv_out := frame (encr resp)\<rparr>\<rparr>)"
proof -
  have fits: "fits_frame (encr resp)" using assms(1) by (simp add: linked_def writable_def)
  have "server_answer env k (frame (enc req)) (cl_peer c) = (frame (encr resp), p'\<lparr>sv_out := frame (encr resp)\<rparr>)"
    using assms(1,2) by (intro server_answer_eq) (auto simp: linked_def)
  then have "exchange (ce_answer ce) (enc req) c = (Ok (), c\<lparr>cl_in := frame (encr resp), cl_peer := p'\<lparr>sv_out := frame (encr resp)\<rparr>\<rparr>)"
    using assms(1,3) by (simp add: exchange_def update_act_def write_frame_eq linked_def)
  then show ?thesis using assms(1,3) frames.decode_encode [OF fits, of "[]"]
    by (simp add: send_request_def linked_def bind_act_def on_part_def ret_def)
qed

lemma answer_of_dispatch:
  assumes "rt_ok (sv_rt p)" "dispatch_request env k req = on_orch h" "h (sv_orch p) = (Ok resp, x)"
  shows "\<exists>p'. answer_request env k req p = (Ok resp, p') \<and> sv_orch p' = x"
proof -
  obtain r1 where r1: "log_now (IpcRequestReceived (request_type req)) (sv_rt p) = (Ok (), r1)" "rt_ok r1" by (rule log_now_ok [OF assms(1)])
  obtain r2 where "log_now (IpcResponseSent (request_type req) (response_success resp)) r1 = (Ok (), r2)" by (rule log_now_ok [OF r1(2)])
  with r1 assms(2,3) show ?thesis by (simp add: answer_request_def bind_act_def on_sv_rt_def on_orch_def on_part_def ret_def)
qed

text \<open>
  C36: a store of new data through the client, the frames and the server reaches the daemon: the client gets the content hash of its data as the
  identifier, the daemon has the chunk as stored, no other chunk changes, and the queue holds one more job, which writes this chunk with the size of
  the data to the requested tier (RAM when none is named), at normal priority. The hypotheses: the logs and the queue have room, the state machine is
  not poisoned, the connection is not disturbed (no timeout, shutdown or broken socket) and the messages survive JSON and fit a frame.
\<close>

theorem client_store_stores:
  assumes "rt_ok (sv_rt (cl_peer c))" "rt_ok (o_rt (sv_orch (cl_peer c)))" "queue_core (o_queue (sv_orch (cl_peer c)))"
    and "can_accept (env_profile env) (o_queue (sv_orch (cl_peer c)))" "get_state (o_sm (sv_orch (cl_peer c))) (from_data (env_hash env) data) = None"
    and "\<not> o_poisoned (sv_orch (cl_peer c))" "linked ce env k enc encr (ReqStore data tier) (RespChunkId (from_data (env_hash env) data))" "cl_in c = []"
  shows "\<exists>c'. client_store ce data tier c = (Ok (from_data (env_hash env) data), c')
    \<and> get_state (o_sm (sv_orch (cl_peer c'))) = (get_state (o_sm (sv_orch (cl_peer c))))(from_data (env_hash env) data \<mapsto> Stored)
    \<and> (\<exists>secs. jobs (o_queue (sv_orch (cl_peer c'))) = insert_job (transfer_job_new secs (env_instant env k) (from_data (env_hash env) data)
          (unwrap_or Ram tier) (unwrap_or Ram tier) (of_nat (length data)) Normal) (jobs (o_queue (sv_orch (cl_peer c)))))"
proof -
  let ?cid = "from_data (env_hash env) data" and ?o = "sv_orch (cl_peer c)"
  let ?op = "ApiStore ?cid (unwrap_or Ram tier) data"
  obtain x secs where x: "store (env_profile env) (env_instant env k) ?cid (unwrap_or Ram tier) data ?o = (Ok (), x)"
    "get_state (o_sm x) = (get_state (o_sm ?o))(?cid \<mapsto> Stored)" "o_queue x = o_queue (api_done secs (env_instant env k) ?op ?o)"
    using api_step_result [OF assms(2-4,6), of "env_instant env k" ?op] assms(5) by auto
  then have "handle_store env k data tier ?o = (Ok (RespChunkId ?cid), x)"
    by (simp add: handle_store_def Let_def bind_act_def catch_act_def ret_def)
  then obtain p' where p': "answer_request env k (ReqStore data tier) (cl_peer c) = (Ok (RespChunkId ?cid), p')" "sv_orch p' = x"
    using answer_of_dispatch [OF assms(1), of env k "ReqStore data tier" "handle_store env k data tier"] by auto
  have "jobs (o_queue x) = insert_job (transfer_job_new secs (env_instant env k) ?cid (unwrap_or Ram tier) (unwrap_or Ram tier) (of_nat (length data)) Normal)
      (jobs (o_queue ?o))"
    by (simp add: x(3) api_done_def submitted_def enqueued_def)
  with call_returns [OF assms(7) p'(1) assms(8)] x(2) p'(2) show ?thesis by (auto simp: client_store_def bind_act_def ret_def)
qed

text \<open>A server and a client that exchange one kind of message each way.\<close>

definition toy_env :: "ipc_request \<Rightarrow> ipc_response \<Rightarrow> ipc_env" where
  "toy_env req resp = ping_env\<lparr>env_de_request := (\<lambda>bs. if bs = [1] then Inr req else Inl []), env_ser_response := (\<lambda>r. if r = resp then Inr [2] else Inl [])\<rparr>"

definition toy_client :: "ipc_request \<Rightarrow> ipc_response \<Rightarrow> ipc_state client_env" where
  "toy_client req resp = \<lparr>ce_ser_request = (\<lambda>_. Inr [1]), ce_de_response = (\<lambda>_. Inr resp), ce_debug = (\<lambda>_. []),
     ce_answer = server_answer (toy_env req resp) 0, ce_late = False\<rparr>"

lemma toy_linked: "linked (toy_client req resp) (toy_env req resp) 0 (\<lambda>_. [1]) (\<lambda>_. [2]) req resp"
  by (simp add: linked_def toy_client_def toy_env_def ping_env_def undisturbed_def readable_def writable_def fits_frame_def)

lemma demo_server_ok: "rt_ok (sv_rt demo_server)" "sv_orch demo_server = demo_orchestrator"
  by (simp_all add: demo_server_def rt_ok_def trace_log_new_def log_inv_def)

theorem client_store_stores_witness:
  "\<exists>c'. client_store (toy_client (ReqStore [9] None) (RespChunkId (ChunkId [9]))) [9] None \<lparr>cl_in = [], cl_peer = demo_server\<rparr> = (Ok (ChunkId [9]), c')
     \<and> get_state (o_sm (sv_orch (cl_peer c'))) (ChunkId [9]) = Some Stored
     \<and> map (\<lambda>j. (job_chunk j, to_tier j)) (jobs (o_queue (sv_orch (cl_peer c')))) = [(ChunkId [9], Ram)]"
proof -
  let ?c = "\<lparr>cl_in = [], cl_peer = demo_server\<rparr>" and ?env = "toy_env (ReqStore [9] None) (RespChunkId (ChunkId [9]))"
  have env: "env_profile ?env = Debug" "from_data (env_hash ?env) [9] = ChunkId [9]" by (simp_all add: toy_env_def ping_env_def from_data_def)
  have "get_state (o_sm demo_orchestrator) (ChunkId [9]) = None" by (simp add: demo_orchestrator_def demo_engine_def get_state_def)
  moreover have "jobs (o_queue demo_orchestrator) = []" by (simp add: demo_orchestrator_def queue_new_def)
  ultimately show ?thesis
    using client_store_stores [of ?c ?env "[9]" "toy_client (ReqStore [9] None) (RespChunkId (ChunkId [9]))" 0 "\<lambda>_. [1]" "\<lambda>_. [2]" None]
      demo_server_ok demo_orchestrator_ok(1-4) toy_linked [of "ReqStore [9] None" "RespChunkId (ChunkId [9])"]
    unfolding env by (auto simp: insert_job_def insert_at_def transfer_job_new_def unwrap_or_def)
qed

lemma handle_retrieve_answers:
  assumes "answer_request env k (ReqRetrieve cid) p = (Ok resp, p')"
  shows "resp = RespOk None \<or> (\<exists>code m. resp = RespError code m)"
proof -
  have "resp = RespOk None \<or> (\<exists>code m. resp = RespError code m)" if "handle_retrieve env k cid x = (Ok resp, y)" for x y
    using that by (auto simp: handle_retrieve_def not_found_response_def error_response_def bind_act_def catch_act_def ret_def locked_def
        split: option.splits prod.splits outcome.splits sum.splits if_splits)
  then show ?thesis using assms
    by (auto simp: answer_request_def bind_act_def on_orch_def on_part_def ret_def split: prod.splits outcome.splits)
qed

text \<open>
  A retrieval never returns data: whatever the state of the daemon, a call of the client's \<^verbatim>\<open>retrieve\<close> that the server answers ends in an
  error, because the server acknowledges the request without the data.
\<close>

theorem client_retrieve_fails:
  assumes "answer_request env k (ReqRetrieve cid) (cl_peer c) = (Ok resp, p')" "linked ce env k enc encr (ReqRetrieve cid) resp" "cl_in c = []"
  shows "\<exists>m c'. client_retrieve ce cid c = (Err (IpcError m), c') \<and> sv_orch (cl_peer c') = sv_orch p'"
  using handle_retrieve_answers [OF assms(1)] call_returns [OF assms(2,1,3)]
  by (auto simp: client_retrieve_def bind_act_def fail_def)


theorem client_retrieve_fails_witness:
  "\<exists>m c'. client_retrieve (toy_client (ReqRetrieve (ChunkId [9])) (not_found_response (ChunkId [9]))) (ChunkId [9]) \<lparr>cl_in = [], cl_peer = demo_server\<rparr> = (Err (IpcError m), c')"
proof -
  let ?env = "toy_env (ReqRetrieve (ChunkId [9])) (not_found_response (ChunkId [9]))" and ?c = "\<lparr>cl_in = [], cl_peer = demo_server\<rparr>"
  have "handle_retrieve ?env 0 (ChunkId [9]) (sv_orch demo_server) = (Ok (not_found_response (ChunkId [9])), sv_orch demo_server)"
    by (simp add: handle_retrieve_def demo_server_ok demo_orchestrator_def demo_engine_def get_state_def locked_def bind_act_def ret_def)
  then obtain p' where "answer_request ?env 0 (ReqRetrieve (ChunkId [9])) (cl_peer ?c) = (Ok (not_found_response (ChunkId [9])), p')"
    using answer_of_dispatch [OF demo_server_ok(1), of ?env 0 "ReqRetrieve (ChunkId [9])"] by force
  from client_retrieve_fails [OF this toy_linked] show ?thesis by auto
qed

end
