(* ===== verification/Spec2Isabelle.thy ===== *)
theory Spec2Isabelle
  imports
    Prelude Effects Ieee_Float Core_Types Chunk_State Pressure_Model Transfer_Job Trace Job_Serde Transfer_Queue
    Events Event_Flow Event_Api Runtime Health Retry Ram_Backend Alloc_Tracker Metrics Worker Backpressure
    Scheduler Ranking Policy Hotness Hotness_Sampling Hotness_Tracker Triples Migration Io_Metrics
    Pressure_Monitor Step_Order Orchestrator Wire Ipc_Frame Trace_File
    Replay_State Replay_Checksum Replay_Checks Replay_Engine Io_Scheduler Chunk_File Sim_Backend Disk_Backend
    Rust_Text Linux_Env Psi Memory_Readers Tier_Inventory Policy_Rules Policy_Runtime Damon Linux_Record Dma_Pipeline
    Invariant_Registry Core_Support Eval_Score Eval_Adaptive Eval_Stability Ipc_Types Ipc_Server Ipc_Client
begin

text \<open>
  \<^bold>\<open>GhostPages\<close>: a verification development for the storage-tiering daemon under \<^verbatim>\<open>src/crates\<close>.

  \<^bold>\<open>The program.\<close> GhostPages keeps fixed-size chunks of data on tiers (RAM, GPU memory, disk) and
  moves them between tiers under memory pressure. Clients talk to the daemon; the orchestrator
  keeps a state machine of every chunk's lifecycle and submits transfer jobs to a bounded queue;
  the scheduler hands jobs to a pool of workers, which copy the data between storage backends
  with retries and report back; a backpressure controller, a health tracker and a migration
  engine steer admission. Every component records trace events in a bounded log and emits
  unified events, numbered in sequence, to a multiplexer that checks the numbering and feeds the
  handlers.

  \<^bold>\<open>Layout.\<close> One theory per component, over a small library.

  \<^item> \<^verbatim>\<open>Prelude\<close>: machine integers, outcomes (value, error or panic), arithmetic that depends on the
    Cargo profile, stateful steps with Rust's \<^verbatim>\<open>?\<close>, and \<^verbatim>\<open>BTreeMap\<close> as a finite map whose iteration is in
    key order (locale \<open>ordered_map\<close>). \<^verbatim>\<open>Effects\<close>: what a step leaves alone, what it can return and
    what it does. \<^verbatim>\<open>Ieee_Float\<close>: binary32 and binary64 with rounding to nearest even, infinities and
    NaN, as far as the sources use them; signed zeros are not distinguished.
  \<^item> \<^verbatim>\<open>Core_Types\<close> (\<^verbatim>\<open>ghost-core/src/types.rs, error.rs\<close>), \<^verbatim>\<open>Chunk_State\<close> (\<^verbatim>\<open>state.rs\<close>, the lifecycle):
    call by call the state machine answers as one independent lifecycle automaton per chunk does, and
    eviction is the only terminal state.
  \<^item> \<^verbatim>\<open>Pressure_Model\<close> (\<^verbatim>\<open>state.rs\<close>, pressure and cost): order and range of the pressure readings.
  \<^item> \<^verbatim>\<open>Transfer_Job\<close> (\<^verbatim>\<open>transfer.rs\<close>), \<^verbatim>\<open>Transfer_Queue\<close> (\<^verbatim>\<open>ghost-daemon/src/queue.rs\<close>): the queue is two
    FIFO classes (locale \<open>two_class_queue\<close>), loses and invents nothing and keeps its depth exact.
  \<^item> \<^verbatim>\<open>Trace\<close> (\<^verbatim>\<open>trace.rs, trace_log.rs\<close>), \<^verbatim>\<open>Events\<close>, \<^verbatim>\<open>Event_Flow\<close>, \<^verbatim>\<open>Event_Api\<close> (\<^verbatim>\<open>events.rs, emitter.rs,
    event_multiplexer.rs\<close>): the log keeps the most recent events; one emitter's events are never
    seen as reordered; every handler sees every record in order. \<^verbatim>\<open>Job_Serde\<close> (\<^verbatim>\<open>transfer.rs\<close>): the hand-written
    serialisation of jobs, which drops the creation instant and sets it anew on reading.
  \<^item> \<^verbatim>\<open>Runtime\<close>: what the daemon's tasks share, the log, the emitter and the clocks. A clock reading
    or the state of the event channel is an oracle indexed by the number of readings made.
  \<^item> \<^verbatim>\<open>Health\<close> (\<^verbatim>\<open>health.rs\<close>): the failure count decides the health, changes are announced, recoveries
    complete. \<^verbatim>\<open>Retry\<close> (\<^verbatim>\<open>retry.rs\<close>): delays stay within the cap. \<^verbatim>\<open>Metrics\<close> (\<^verbatim>\<open>metrics.rs\<close>): the counters.
  \<^item> \<^verbatim>\<open>Ram_Backend\<close> (\<^verbatim>\<open>ghost-tier/src/backend.rs, ram.rs\<close>): the backend interface as a record of methods
    and as the locale \<open>storage_backend\<close>; the RAM backend interprets it and refines a specification
    that keeps the live allocations. \<^verbatim>\<open>Alloc_Tracker\<close> (\<^verbatim>\<open>tracker.rs\<close>): the accounting of the tracker.
  \<^item> \<^verbatim>\<open>Worker\<close> (\<^verbatim>\<open>worker.rs\<close>): a transfer between backends with room succeeds at once, one to a full
    backend fails after exactly the configured retries, delays are bounded, and every finished
    job is counted, and reported once while the completion channel is open. The lemmas about single attempts are proved in
    \<open>storage_backend\<close> and used through its interpretation.
  \<^item> \<^verbatim>\<open>Backpressure\<close> (\<^verbatim>\<open>backpressure.rs\<close>): an evaluation returns the most restrictive action that any
    signal asks for, or, when a cooldown has expired, never returns because it locks its own mutex
    twice; after it has registered pressure it never admits everything again.

  \<^item> \<^verbatim>\<open>Scheduler\<close> (\<^verbatim>\<open>scheduler.rs\<close>): rounds of the scheduling loop; every job taken from the queue is
    dispatched, throttled or refused, and critical jobs are never throttled.
  \<^item> \<^verbatim>\<open>Ranking\<close>: the standard library's \<^verbatim>\<open>max_by\<close>, \<^verbatim>\<open>min_by\<close> and \<^verbatim>\<open>sort_by\<close> with comparators that may be
    partial, as locale \<open>ranking\<close>. \<^verbatim>\<open>Policy\<close> (\<^verbatim>\<open>ghost-policy\<close>): the policy trait as a record of methods and
    as locale \<open>placement\<close>, interpreted by the LRU and the pressure-aware policy; what each chooses.
  \<^item> \<^verbatim>\<open>Hotness\<close> (\<^verbatim>\<open>hotness.rs\<close>), \<^verbatim>\<open>Hotness_Sampling\<close> (\<^verbatim>\<open>hotness_provider.rs, hotness_summary.rs,
    hotness_confidence.rs, hotness_history.rs\<close>), \<^verbatim>\<open>Hotness_Tracker\<close> (\<^verbatim>\<open>hotness_tracker.rs\<close>): scores stay in
    the unit interval, hot and cold chunks partition the tracked ones, summaries are consistent.
  \<^item> \<^verbatim>\<open>Triples\<close>: total and partial correctness of stateful steps, with the rules for loops.
    \<^verbatim>\<open>Migration\<close> (\<^verbatim>\<open>migration.rs\<close>): an evaluation asks about every eligible chunk, proposes the best of what the
    policy wants moved and counts the others as skipped; evictions of
    one chunk are spaced by the cooldown, by the laws of \<open>placement\<close> alone.

  \<^item> \<^verbatim>\<open>Io_Metrics\<close> (\<^verbatim>\<open>io_metrics.rs\<close>), \<^verbatim>\<open>Pressure_Monitor\<close> (\<^verbatim>\<open>pressure.rs\<close>): the ring buffer implements the list
    of recent readings (locale \<open>recent_buffer\<close>, which the trace log interprets too), and smoothed
    pressures stay in the unit interval whatever the backends report.

  \<^item> \<^verbatim>\<open>Step_Order\<close>: what steps may do to the state however they end (locale \<open>step_preorder\<close>).
    \<^verbatim>\<open>Orchestrator\<close> (\<^verbatim>\<open>orchestrator.rs\<close>): the client operations refine a contract over the chunk's state; in
    every interleaving with the background work each step moves at most its own chunk, along the
    lifecycle, and the active migrations stay within their bound; what a refused migration or a full
    queue leaves behind, and how a panic with the state machine locked stops the daemon for good.

  \<^item> \<^verbatim>\<open>Wire\<close>: bytes, machine integers on the wire, readers, and codecs (locale \<open>codec\<close>: what was encoded
    decodes, alone and in a stream). \<^verbatim>\<open>Ipc_Frame\<close> (\<^verbatim>\<open>ghost-ipc/src/frame.rs\<close>), \<^verbatim>\<open>Trace_File\<close>
    (\<^verbatim>\<open>ghost-replay/src/format.rs, writer.rs, reader.rs\<close>): frames and trace files are read back as written (but
    for the creation instants of jobs), corrupt records and oversized frames are refused.
  \<^item> \<^verbatim>\<open>Replay_State\<close> (\<^verbatim>\<open>state_reconstructor.rs\<close>): on every trace, each event moves the
    chunks of the reconstruction exactly as a relation over the lifecycle licenses. \<^verbatim>\<open>Replay_Checksum\<close>
    (\<^verbatim>\<open>checksum.rs, divergence.rs\<close>): equal checksums mean streams that are written alike, in total and for each
    category, and a comparison names the first difference. \<^verbatim>\<open>Replay_Checks\<close> (\<^verbatim>\<open>invariants.rs\<close>): what each
    built-in check computes (locale \<open>exact_check\<close>), which is weaker than what some of their comments say; the
    reconstruction of an accepted trace follows its log. \<^verbatim>\<open>Replay_Engine\<close> (\<^verbatim>\<open>engine.rs\<close>): a trace in order
    is replayed without an error and with exact counts; what re-creations and invalid transitions do.

  \<^item> \<^verbatim>\<open>Io_Scheduler\<close> (\<^verbatim>\<open>ghost-core/src/io_abstraction.rs\<close>): every issued request is pending or completed, once.
    \<^verbatim>\<open>Chunk_File\<close> (\<^verbatim>\<open>ghost-compress/src/engine.rs, ghost-tier/src/disk_persistence.rs\<close>): a file system with a fault
    at any call; chunk files are read back, writing one is atomic, truncated files are characterised.
  \<^item> \<^verbatim>\<open>Sim_Backend\<close> (\<^verbatim>\<open>sim_config.rs, sim_metrics.rs, sim_backend.rs\<close>): calls are split at their sleeps; under every
    interleaving and cancellation the pending requests are those of the sleeping and the dropped calls; without injected
    failures, calls made one after the other interpret \<open>storage_backend\<close> and are answered as the RAM backend answers them. \<^verbatim>\<open>Disk_Backend\<close>
    (\<^verbatim>\<open>disk_config.rs, disk.rs\<close>): the composition of the three; data comes back, and the theorems say exactly what
    the accounting leaks, which allocations collide and when the scheduler fills up.

  \<^item> \<^verbatim>\<open>Rust_Text\<close>: lines, splitting, trimming and number parsing of the standard library, with printing as
    their inverse. \<^verbatim>\<open>Linux_Env\<close>: files, directories and the seeded generator as arguments, and rules for
    steps that keep an invariant. \<^verbatim>\<open>Psi\<close> (\<^verbatim>\<open>ghost-linux/src/psi.rs\<close>), \<^verbatim>\<open>Memory_Readers\<close> (\<^verbatim>\<open>meminfo.rs, vmstat.rs,
    swaps.rs, zram.rs\<close>): printed files are parsed back; which line of a pressure file is seen.
  \<^item> \<^verbatim>\<open>Tier_Inventory\<close> (\<^verbatim>\<open>tier_inventory.rs\<close>), \<^verbatim>\<open>Policy_Rules\<close> (\<^verbatim>\<open>policy_rules.rs\<close>), \<^verbatim>\<open>Policy_Runtime\<close>
    (\<^verbatim>\<open>policy.rs, cooldown.rs, stability.rs\<close>): recommendations never conflict, those of pressure come first, an
    evaluation always returns within its limits; together with the inventory, when ZRAM is chosen.
  \<^item> \<^verbatim>\<open>Damon\<close> (\<^verbatim>\<open>damon.rs, hotness_provider.rs\<close>): printed regions are parsed back, and sampling emits nothing.
    \<^verbatim>\<open>Linux_Record\<close> (\<^verbatim>\<open>recorder.rs, replayer.rs, scanner.rs\<close>): loading a recording terminates on every file and
    gives back what was recorded, the comparison of two recordings is exact, and the policy of a
    scanner never sees the tiers it discovers.

  \<^item> \<^verbatim>\<open>Dma_Pipeline\<close> (\<^verbatim>\<open>ghost-core/src/dma_pipeline.rs, hardware.rs, ghost-daemon/src/transfer_worker.rs\<close>): a mark succeeds
    exactly along an edge of the lifecycle, no transfer is lost, and what a copy between buffers does; the worker pool
    completes nothing. \<^verbatim>\<open>Invariant_Registry\<close> (\<^verbatim>\<open>invariant_registry.rs, state_ownership.rs\<close>): two checks
    that the I/O scheduler always passes, and which correct behaviour another one reports.
    \<^verbatim>\<open>Core_Support\<close> (\<^verbatim>\<open>time.rs, io_events.rs\<close>): the deterministic clock and the I/O events.
  \<^item> \<^verbatim>\<open>Ipc_Types\<close> (\<^verbatim>\<open>ghost-ipc/src/protocol.rs, ghost-daemon/src/diagnostics.rs\<close>), \<^verbatim>\<open>Ipc_Server\<close> (\<^verbatim>\<open>ipc_server.rs\<close>), \<^verbatim>\<open>Ipc_Client\<close>
    (\<^verbatim>\<open>ghost-ipc/src/client.rs\<close>): the handler of a connection ends on every stream of bytes and answers requests one by one in
    order; from the client through frames, server and orchestrator and back, a store stores; a deletion never
    reports success, a retrieval never returns data, and a client never sees the daemon's trace.
  \<^item> \<^verbatim>\<open>Eval_Score\<close> (\<^verbatim>\<open>ghost-evaluator/src/scoring.rs, baseline.rs\<close>): scores stay in the unit interval under rounding;
    what the baseline recommends. \<^verbatim>\<open>Eval_Adaptive\<close> (\<^verbatim>\<open>adaptive.rs\<close>): the thresholds stay in their ranges and in
    order. \<^verbatim>\<open>Eval_Stability\<close> (\<^verbatim>\<open>stability.rs, lifecycle.rs\<close>): the window holds the most recent recommendations, the index
    is in the unit interval also for NaN confidences, and the counts of a region are those of the calls.

  \<^bold>\<open>Correspondence.\<close> A struct is a record, an enum a datatype, a method with \<^verbatim>\<open>&mut self\<close> (or with
  interior mutability) a step from a state to an outcome and a new state. Integers have their
  width; an overflowing operation panics in the debug profile and wraps in the release profile,
  and \<^verbatim>\<open>debug_assert\<close> panics in the debug profile only. Formatted texts keep literals and values
  apart. Loops are structural recursions over the list of iterations, so no fuel is needed; the loop over
  the requests of a connection terminates because every frame shortens the stream, and the loop over
  the bytes of a recording is a partial function that is shown to return. A method runs as one step from
  one await to the next; where a theorem speaks of interleavings, the steps are these. The mutex of the
  shared state machine is modelled by the scope \<open>locked\<close> and a flag for its poisoning, which a panic under the lock
  sets and after which every lock panics; an evaluation of the backpressure that locks a mutex it holds
  has no result (\<open>None\<close>). The other mutexes are never poisoned in the model, and the code between two awaits
  is not interrupted, as on a runtime with one thread. A send to a closed completion channel loses the
  report, and a socket may break while a response is written.

  \<^bold>\<open>Arguments and hypotheses.\<close> The BLAKE3 hash, \<^verbatim>\<open>f64::powi\<close>, \<^verbatim>\<open>f64::exp\<close> (hypothesis
  \<open>decaying\<close>), \<^verbatim>\<open>f64::sqrt\<close> (hypothesis \<open>root_like\<close>), bincode (hypothesis \<open>faithful\<close>: what it writes it reads back), serde_json, crc32, zstd (hypothesis \<open>zstd_restores\<close>), the
  random numbers, the faults of the file system, the contents of the files under \<^verbatim>\<open>/proc\<close> and \<^verbatim>\<open>/sys\<close>, clocks, the room in
  channels, and the duration of a transfer are arguments. Hypotheses that recur: the trace log has a positive
  capacity (with capacity zero recording panics), counters of 64 bits have not been incremented
  \<open>2\<^sup>6\<^sup>4\<close> times, and a client of a backend uses live allocations only.

  \<^bold>\<open>Not modelled.\<close> Task spawning and the tokio select loops, sockets, serde and GPU bindings, which are library or
  driver code; the command line, the benchmarks, the text export of metrics, the reports of the evaluator and the
  proof documents of the replay, which format what the modelled components compute.
\<close>

end
